(* ===== verification/Rusk_Prelude.thy ===== *)
theory Rusk_Prelude
  imports Main "HOL-Library.Word"
begin

text \<open>
  Vocabulary shared by every component of the development: machine integers, the result type
  of fallible code, checked and saturating arithmetic, and the generic list facts the component
  proofs rest on.

  Rust's \<open>panic!\<close>, \<open>assert!\<close>, \<open>expect\<close> and arithmetic overflow checks unwind the call; a
  computation that may panic is a value of type \<open>panic + 'a\<close>, with \<open>Inl\<close> the panic.  The
  crates \<open>stake-contract\<close> and \<open>transfer-contract\<close> are compiled with \<open>overflow-checks = true\<close>
  (\<^verbatim>\<open>Cargo.toml\<close>, \<^verbatim>\<open>profile.release.package\<close>), so arithmetic written in them is
  \<open>add_chk\<close>, \<open>sub_chk\<close>, \<open>mul_chk\<close>; every other crate, \<open>dusk-core\<close> included, keeps the release
  default and its arithmetic wraps, which is \<open>+\<close>, \<open>-\<close>, \<open>*\<close> of the word type.
\<close>

type_synonym u8 = "8 word"
type_synonym u16 = "16 word"
type_synonym u32 = "32 word"
type_synonym u64 = "64 word"
type_synonym bytes = "u8 list"

section \<open>Results and panics\<close>

datatype panic = Panic string | ArithmeticOverflow

type_synonym 'a res = "panic + 'a"

definition res_bind :: "'e + 'a \<Rightarrow> ('a \<Rightarrow> 'e + 'b) \<Rightarrow> 'e + 'b" where
  "res_bind m f = (case m of Inl e \<Rightarrow> Inl e | Inr x \<Rightarrow> f x)"

definition res_map :: "('a \<Rightarrow> 'b) \<Rightarrow> 'e + 'a \<Rightarrow> 'e + 'b" where
  "res_map f m = (case m of Inl e \<Rightarrow> Inl e | Inr x \<Rightarrow> Inr (f x))"

text \<open>\<open>Option::expect\<close>: the value, or a panic with the message.\<close>

definition expect :: "string \<Rightarrow> 'a option \<Rightarrow> 'a res" where
  "expect msg x = (case x of None \<Rightarrow> Inl (Panic msg) | Some v \<Rightarrow> Inr v)"

text \<open>\<open>if !cond { panic!(msg) }\<close> and \<open>assert!(cond, msg)\<close>.\<close>

definition ensure :: "bool \<Rightarrow> string \<Rightarrow> unit res" where
  "ensure b msg = (if b then Inr () else Inl (Panic msg))"

definition is_ok :: "'e + 'a \<Rightarrow> bool" where
  "is_ok m = (case m of Inl _ \<Rightarrow> False | Inr _ \<Rightarrow> True)"

lemma res_bind_simps [simp]:
  "res_bind (Inl e) f = Inl e"
  "res_bind (Inr x) f = f x"
  by (simp_all add: res_bind_def)

lemma res_bind_Inr [simp]:
  "res_bind m f = Inr y \<longleftrightarrow> (\<exists>x. m = Inr x \<and> f x = Inr y)"
  by (cases m) simp_all

lemma res_bind_Inl [simp]:
  "res_bind m f = Inl e \<longleftrightarrow> m = Inl e \<or> (\<exists>x. m = Inr x \<and> f x = Inl e)"
  by (cases m) simp_all

lemma Inr_res_bind [simp]:
  "Inr y = res_bind m f \<longleftrightarrow> (\<exists>x. m = Inr x \<and> f x = Inr y)"
  by (cases m) auto

lemma res_map_simps [simp]:
  "res_map f (Inl e) = Inl e"
  "res_map f (Inr x) = Inr (f x)"
  by (simp_all add: res_map_def)

lemma res_map_Inr [simp]: "res_map f m = Inr y \<longleftrightarrow> (\<exists>x. m = Inr x \<and> y = f x)"
  by (cases m) auto

lemma expect_simps [simp]:
  "expect msg None = Inl (Panic msg)"
  "expect msg (Some v) = Inr v"
  by (simp_all add: expect_def)

lemma expect_Inr [simp]: "expect msg x = Inr v \<longleftrightarrow> x = Some v"
  by (cases x) simp_all

lemma ensure_simps [simp]:
  "ensure True msg = Inr ()"
  "ensure False msg = Inl (Panic msg)"
  by (simp_all add: ensure_def)

lemma ensure_Inr [simp]: "ensure b msg = Inr u \<longleftrightarrow> b"
  by (simp add: ensure_def)

lemma ensure_Inl [simp]: "ensure b msg = Inl e \<longleftrightarrow> \<not> b \<and> e = Panic msg"
  by (auto simp: ensure_def)

lemma is_ok_simps [simp]:
  "\<not> is_ok (Inl e)"
  "is_ok (Inr x)"
  by (simp_all add: is_ok_def)

lemma is_ok_iff: "is_ok m \<longleftrightarrow> (\<exists>x. m = Inr x)"
  by (cases m) simp_all

lemma res_bind_InrE: "res_bind m f = Inr y \<Longrightarrow> (\<And>x. m = Inr x \<Longrightarrow> f x = Inr y \<Longrightarrow> P) \<Longrightarrow> P"
  by (cases m) simp_all

lemma is_okE: "is_ok m \<Longrightarrow> (\<And>x. m = Inr x \<Longrightarrow> P) \<Longrightarrow> P"
  by (auto simp: is_ok_iff)

text \<open>A loop over a slice whose body may panic: the state is threaded and the first panic wins.\<close>

fun res_fold :: "('a \<Rightarrow> 's \<Rightarrow> 'e + 's) \<Rightarrow> 'a list \<Rightarrow> 's \<Rightarrow> 'e + 's" where
  "res_fold f [] s = Inr s"
| "res_fold f (x # xs) s = res_bind (f x s) (res_fold f xs)"

lemma res_fold_invariant:
  assumes "res_fold f xs s = Inr t" and "P s"
    and "\<And>x s s'. x \<in> set xs \<Longrightarrow> P s \<Longrightarrow> f x s = Inr s' \<Longrightarrow> P s'"
  shows "P t"
  using assms
proof (induction xs arbitrary: s)
  case (Cons x xs)
  then obtain s' where s': "f x s = Inr s'" "res_fold f xs s' = Inr t" by auto
  with Cons.prems(2) Cons.prems(3) [of x s s'] have "P s'" by simp
  with s'(2) Cons.prems(3) show ?case by (intro Cons.IH [of s']) auto
qed simp

lemma res_fold_append:
  "res_fold f (xs @ ys) s = res_bind (res_fold f xs s) (res_fold f ys)"
  by (induction xs arbitrary: s) (auto simp: res_bind_def split: sum.splits)

section \<open>Machine arithmetic\<close>

definition add_chk :: "'a::len word \<Rightarrow> 'a word \<Rightarrow> 'a word res" where
  "add_chk a b = (if unat a + unat b < 2 ^ LENGTH('a) then Inr (a + b) else Inl ArithmeticOverflow)"

definition sub_chk :: "'a::len word \<Rightarrow> 'a word \<Rightarrow> 'a word res" where
  "sub_chk a b = (if b \<le> a then Inr (a - b) else Inl ArithmeticOverflow)"

definition mul_chk :: "'a::len word \<Rightarrow> 'a word \<Rightarrow> 'a word res" where
  "mul_chk a b = (if unat a * unat b < 2 ^ LENGTH('a) then Inr (a * b) else Inl ArithmeticOverflow)"

definition saturating_add :: "'a::len word \<Rightarrow> 'a word \<Rightarrow> 'a word" where
  "saturating_add a b = (if unat a + unat b < 2 ^ LENGTH('a) then a + b else - 1)"

definition saturating_sub :: "'a::len word \<Rightarrow> 'a word \<Rightarrow> 'a word" where
  "saturating_sub a b = (if b \<le> a then a - b else 0)"

lemma unat_add_no_wrap:
  "unat a + unat b < 2 ^ LENGTH('a) \<Longrightarrow> unat (a + b :: 'a::len word) = unat a + unat b"
  by (simp add: unat_word_ariths)

lemma unat_mult_no_wrap:
  "unat a * unat b < 2 ^ LENGTH('a) \<Longrightarrow> unat (a * b :: 'a::len word) = unat a * unat b"
  by (simp add: unat_word_ariths)

lemma unat_sub_le:
  "b \<le> a \<Longrightarrow> unat (a - b :: 'a::len word) = unat a - unat b"
  by (rule unat_sub)

lemma unat_lt_2p [simp]: "unat (a :: 'a::len word) < 2 ^ LENGTH('a)"
  by (rule unsigned_less)

lemma unat_u64_bound [simp]: "unat (a :: u64) < 18446744073709551616"
  using unat_lt_2p [of a] by simp

lemma add_chk_Inr:
  "add_chk a b = Inr (c :: 'a::len word) \<longleftrightarrow> unat a + unat b < 2 ^ LENGTH('a) \<and> c = a + b"
  by (auto simp: add_chk_def)

lemma add_chk_unat:
  "add_chk a b = Inr c \<Longrightarrow> unat c = unat a + unat b"
  by (auto simp: add_chk_Inr unat_add_no_wrap)

lemma sub_chk_Inr: "sub_chk a b = Inr c \<longleftrightarrow> b \<le> a \<and> c = a - b"
  by (auto simp: sub_chk_def)

lemma sub_chk_unat:
  "sub_chk a b = Inr c \<Longrightarrow> unat b \<le> unat a \<and> unat c = unat a - unat b"
  by (auto simp: sub_chk_Inr unat_sub_le word_le_nat_alt)

lemma mul_chk_Inr:
  "mul_chk a b = Inr (c :: 'a::len word) \<longleftrightarrow> unat a * unat b < 2 ^ LENGTH('a) \<and> c = a * b"
  by (auto simp: mul_chk_def)

lemma mul_chk_unat:
  "mul_chk a b = Inr c \<Longrightarrow> unat c = unat a * unat b"
  by (auto simp: mul_chk_Inr unat_mult_no_wrap)

lemmas chk_unat = add_chk_unat sub_chk_unat mul_chk_unat

lemma unat_saturating_add:
  "unat (saturating_add a (b :: 'a::len word)) = min (unat a + unat b) (2 ^ LENGTH('a) - 1)"
  by (auto simp: saturating_add_def unat_add_no_wrap unsigned_minus_1_eq_mask mask_eq_exp_minus_1 min_def)

lemma unat_saturating_sub:
  "unat (saturating_sub a (b :: 'a::len word)) = unat a - unat b"
  by (auto simp: saturating_sub_def unat_sub_le word_le_nat_alt)

lemma saturating_sub_le: "saturating_sub a b \<le> a"
  by (simp add: word_le_nat_alt unat_saturating_sub)

lemmas word_nat_simps = word_le_nat_alt word_less_nat_alt unat_add_no_wrap unat_sub_le

section \<open>Lists\<close>

lemma sum_list_map_remove1_nat:
  "x \<in> set xs \<Longrightarrow> sum_list (map f xs) = f x + sum_list (map f (remove1 x xs) :: nat list)"
  by (induction xs) auto

end
