(* ===== verification/BTree_Map.thy ===== *)
theory BTree_Map
  imports Rusk_Prelude
begin

text \<open>
  Rust's \<open>BTreeMap\<close>: a finite map that iterates in increasing key order.  It is the type of the
  sorted association lists, with the operations the sources call (\<open>new\<close>, \<open>get\<close>, \<open>insert\<close>,
  \<open>remove\<close>, \<open>values\<close>, \<open>iter\<close>, the \<open>entry\<close> API), and the locale \<open>ordered_map\<close> states the laws
  those calls rely on.  The components' sums (of balances, of stakes) are \<open>bm_sum\<close>.
\<close>

section \<open>Sorted association lists\<close>

fun al_insert :: "'k::linorder \<Rightarrow> 'v \<Rightarrow> ('k \<times> 'v) list \<Rightarrow> ('k \<times> 'v) list" where
  "al_insert k v [] = [(k, v)]"
| "al_insert k v ((k', v') # xs) =
     (if k < k' then (k, v) # (k', v') # xs
      else if k = k' then (k, v) # xs
      else (k', v') # al_insert k v xs)"

definition al_remove :: "'k \<Rightarrow> ('k \<times> 'v) list \<Rightarrow> ('k \<times> 'v) list" where
  "al_remove k xs = filter (\<lambda>(k', _). k' \<noteq> k) xs"

definition al_sorted :: "('k::linorder \<times> 'v) list \<Rightarrow> bool" where
  "al_sorted xs = sorted_wrt (<) (map fst xs)"

lemma al_sorted_simps [simp]:
  "al_sorted []"
  "al_sorted ((k, v) # xs) \<longleftrightarrow> (\<forall>x \<in> set xs. k < fst x) \<and> al_sorted xs"
  by (auto simp: al_sorted_def)

lemma fst_set_al_insert [simp]: "fst ` set (al_insert k v xs) = insert k (fst ` set xs)"
  by (induction k v xs rule: al_insert.induct) auto

lemma set_al_insert: "set (al_insert k v xs) \<subseteq> insert (k, v) (set xs)"
  by (induction k v xs rule: al_insert.induct) auto

lemma al_sorted_insert: "al_sorted xs \<Longrightarrow> al_sorted (al_insert k v xs)"
proof (induction k v xs rule: al_insert.induct)
  case (2 k v k' v' xs)
  then show ?case using set_al_insert [of k v xs] by (auto simp: not_less less_le)
qed simp

lemma al_sorted_remove: "al_sorted xs \<Longrightarrow> al_sorted (al_remove k xs)"
  by (induction xs) (auto simp: al_remove_def)

lemma al_sorted_distinct: "al_sorted xs \<Longrightarrow> distinct (map fst xs)"
  by (induction xs) force+

lemma map_of_al_insert:
  "al_sorted xs \<Longrightarrow> map_of (al_insert k v xs) = (map_of xs)(k \<mapsto> v)"
  by (induction k v xs rule: al_insert.induct) (auto simp: fun_upd_twist)

lemma map_of_al_remove: "map_of (al_remove k xs) = (map_of xs)(k := None)"
  by (induction xs) (auto simp: al_remove_def)

lemma map_of_above_None: "\<forall>x \<in> set xs. k < fst x \<Longrightarrow> map_of xs (k :: 'k::linorder) = None"
  by (induction xs) auto

definition opt_val :: "('v \<Rightarrow> nat) \<Rightarrow> 'v option \<Rightarrow> nat" where
  "opt_val f x = (case x of None \<Rightarrow> 0 | Some v \<Rightarrow> f v)"

lemma opt_val_simps [simp]:
  "opt_val f None = 0"
  "opt_val f (Some v) = f v"
  by (simp_all add: opt_val_def)

lemma sum_al_insert:
  "al_sorted xs \<Longrightarrow>
   sum_list (map (f \<circ> snd) (al_insert k v xs)) + opt_val f (map_of xs k) =
   sum_list (map (f \<circ> snd) xs) + f v"
proof (induction k v xs rule: al_insert.induct)
  case (2 k v k' v' xs)
  have "k < k' \<Longrightarrow> map_of xs k = None"
    using "2.prems" by (intro map_of_above_None) auto
  moreover have "map_of xs k' = None"
    using "2.prems" by (intro map_of_above_None) auto
  ultimately show ?case using 2 by auto
qed simp

lemma al_remove_absent: "k \<notin> fst ` set xs \<Longrightarrow> al_remove k xs = xs"
  unfolding al_remove_def by (rule filter_True) (auto simp: image_iff)

lemma sum_al_remove:
  "al_sorted xs \<Longrightarrow>
   sum_list (map (f \<circ> snd) (al_remove k xs)) + opt_val f (map_of xs k) =
   sum_list (map (f \<circ> snd) xs)"
proof (induction xs)
  case (Cons x xs)
  obtain k' v' where x: "x = (k', v')" by force
  show ?case
  proof (cases "k' = k")
    case True
    with Cons.prems x have "k \<notin> fst ` set xs" by auto
    then have "al_remove k (x # xs) = xs"
      using al_remove_absent [of k xs] True x by (simp add: al_remove_def)
    with True x show ?thesis by simp
  next
    case False
    with Cons x show ?thesis by (simp add: al_remove_def)
  qed
qed (simp add: al_remove_def)

section \<open>The map type\<close>

typedef (overloaded) ('k::linorder, 'v) btree_map = "{xs :: ('k \<times> 'v) list. al_sorted xs}"
  morphisms bm_entries Abs_btree_map
  by (rule exI [of _ "[]"]) simp

setup_lifting type_definition_btree_map

lift_definition bm_empty :: "('k::linorder, 'v) btree_map" is "[]" by simp

lift_definition bm_insert :: "'k::linorder \<Rightarrow> 'v \<Rightarrow> ('k, 'v) btree_map \<Rightarrow> ('k, 'v) btree_map"
  is al_insert by (rule al_sorted_insert)

lift_definition bm_remove :: "'k::linorder \<Rightarrow> ('k, 'v) btree_map \<Rightarrow> ('k, 'v) btree_map"
  is al_remove by (rule al_sorted_remove)

lift_definition bm_get :: "('k::linorder, 'v) btree_map \<Rightarrow> 'k \<Rightarrow> 'v option" is map_of .

definition bm_keys :: "('k::linorder, 'v) btree_map \<Rightarrow> 'k list" where
  "bm_keys m = map fst (bm_entries m)"

definition bm_values :: "('k::linorder, 'v) btree_map \<Rightarrow> 'v list" where
  "bm_values m = map snd (bm_entries m)"

text \<open>\<open>entry(k).or_insert(v)\<close> followed by a read: the value present, or the default.\<close>

definition bm_get_or :: "'v \<Rightarrow> ('k::linorder, 'v) btree_map \<Rightarrow> 'k \<Rightarrow> 'v" where
  "bm_get_or d m k = (case bm_get m k of None \<Rightarrow> d | Some v \<Rightarrow> v)"

text \<open>\<open>entry(k).or_insert(v)\<close> whose reference is dropped: the map with the default filled in.\<close>

definition bm_or_insert :: "'k::linorder \<Rightarrow> 'v \<Rightarrow> ('k, 'v) btree_map \<Rightarrow> ('k, 'v) btree_map" where
  "bm_or_insert k v m = (case bm_get m k of None \<Rightarrow> bm_insert k v m | Some _ \<Rightarrow> m)"

definition bm_sum :: "('v \<Rightarrow> nat) \<Rightarrow> ('k::linorder, 'v) btree_map \<Rightarrow> nat" where
  "bm_sum f m = sum_list (map (f \<circ> snd) (bm_entries m))"

lemma bm_entries_empty [simp]: "bm_entries bm_empty = []"
  by (rule bm_empty.rep_eq)

lemma bm_entries_insert [simp]: "bm_entries (bm_insert k v m) = al_insert k v (bm_entries m)"
  by (rule bm_insert.rep_eq)

lemma bm_get_empty [simp]: "bm_get bm_empty k = None"
  by (simp add: bm_get.rep_eq)

lemma bm_get_insert [simp]:
  "bm_get (bm_insert k v m) k' = (if k' = k then Some v else bm_get m k')"
  by transfer (simp add: map_of_al_insert)

lemma bm_insert_twice [simp]: "bm_insert k v (bm_insert k u m) = bm_insert k v m"
proof (transfer fixing: k v u)
  show "al_sorted xs \<Longrightarrow> al_insert k v (al_insert k u xs) = al_insert k v xs" for xs
    by (induction xs) auto
qed

lemma bm_get_remove [simp]:
  "bm_get (bm_remove k m) k' = (if k' = k then None else bm_get m k')"
  by transfer (simp add: map_of_al_remove)

lemma bm_get_or_insert [simp]:
  "bm_get (bm_or_insert k v m) k' =
     (if k' = k then Some (bm_get_or v m k) else bm_get m k')"
  by (auto simp: bm_or_insert_def bm_get_or_def split: option.splits)

lemma bm_or_insert_present [simp]: "bm_get m k = Some v' \<Longrightarrow> bm_or_insert k v m = m"
  by (simp add: bm_or_insert_def)

lemma bm_sum_empty [simp]: "bm_sum f bm_empty = 0"
  by (simp add: bm_sum_def)

lemma bm_sum_insert:
  "bm_sum f (bm_insert k v m) + opt_val f (bm_get m k) = bm_sum f m + f v"
  unfolding bm_sum_def by transfer (rule sum_al_insert)

lemma bm_sum_remove:
  "bm_sum f (bm_remove k m) + opt_val f (bm_get m k) = bm_sum f m"
  unfolding bm_sum_def by transfer (rule sum_al_remove)

lemma bm_sum_ge: "bm_get m k = Some v \<Longrightarrow> f v \<le> bm_sum f m"
  using bm_sum_remove [of f k m] by simp

lemma bm_sum_ge_opt: "opt_val f (bm_get m k) \<le> bm_sum f m"
  using bm_sum_remove [of f k m] by linarith

lemma bm_sum_ge2:
  "bm_get m k = Some v \<Longrightarrow> bm_get m k' = Some v' \<Longrightarrow> k \<noteq> k' \<Longrightarrow> f v + f v' \<le> bm_sum f m"
  using bm_sum_remove [of f k m] bm_sum_ge [of "bm_remove k m" k' v' f] by simp

lemma bm_sum_insert_new:
  "bm_get m k = None \<Longrightarrow> bm_sum f (bm_insert k v m) = bm_sum f m + f v"
  using bm_sum_insert [of f k v m] by simp

lemma bm_sum_insert_same:
  "bm_get m k = Some v' \<Longrightarrow> f v' = f v \<Longrightarrow> bm_sum f (bm_insert k v m) = bm_sum f m"
  using bm_sum_insert [of f k v m] by simp

lemma bm_sum_or_insert_zero:
  "f v = 0 \<Longrightarrow> bm_sum f (bm_or_insert k v m) = bm_sum f m"
  by (auto simp: bm_or_insert_def bm_sum_insert_new split: option.splits)

lemma bm_entries_sorted: "sorted_wrt (<) (bm_keys m)"
  using bm_entries [of m] by (simp add: bm_keys_def al_sorted_def)

lemma bm_get_map_of: "bm_get m = map_of (bm_entries m)"
  by (rule ext) (simp add: bm_get.rep_eq)

lemma bm_keys_iff: "k \<in> set (bm_keys m) \<longleftrightarrow> bm_get m k \<noteq> None"
  by (simp add: bm_keys_def bm_get_map_of map_of_eq_None_iff)

lemma bm_entries_iff: "(k, v) \<in> set (bm_entries m) \<longleftrightarrow> bm_get m k = Some v"
  using bm_entries [of m] al_sorted_distinct [of "bm_entries m"]
  by (simp add: bm_get_map_of map_of_eq_Some_iff)

lemma bm_values_iff: "v \<in> set (bm_values m) \<longleftrightarrow> (\<exists>k. bm_get m k = Some v)"
  by (force simp: bm_values_def simp flip: bm_entries_iff)

lemma al_sorted_unique:
  assumes "al_sorted xs" and "al_sorted ys" and "map_of xs = map_of ys"
  shows "xs = ys"
proof -
  have d: "distinct (map fst xs)" "distinct (map fst ys)" using assms(1,2) by (simp_all add: al_sorted_distinct)
  then have "set xs = set ys" using assms(3) by (metis map_of_inject_set)
  moreover have "sorted (map fst xs)" "sorted (map fst ys)"
    using assms(1,2) by (simp_all add: al_sorted_def strict_sorted_imp_sorted)
  moreover have "inj_on fst (set xs \<union> set ys)"
    using d \<open>set xs = set ys\<close> by (auto simp: inj_on_def intro: eq_key_imp_eq_value)
  ultimately show ?thesis using d by (intro map_sorted_distinct_set_unique [of fst])
qed

lemma bm_eqI: "(\<And>k. bm_get m k = bm_get m' k) \<Longrightarrow> m = m'"
  by (metis al_sorted_unique bm_entries bm_entries_inject bm_get_map_of ext mem_Collect_eq)

section \<open>The interface\<close>

text \<open>
  What a client of the map relies on: reads after writes, and sums over the values under updates.
\<close>

locale ordered_map =
  fixes empty :: "'m"
    and get :: "'m \<Rightarrow> 'k \<Rightarrow> 'v option"
    and insert :: "'k \<Rightarrow> 'v \<Rightarrow> 'm \<Rightarrow> 'm"
    and remove :: "'k \<Rightarrow> 'm \<Rightarrow> 'm"
    and total :: "('v \<Rightarrow> nat) \<Rightarrow> 'm \<Rightarrow> nat"
  assumes get_empty: "get empty k = None"
    and get_insert: "get (insert k v m) k' = (if k' = k then Some v else get m k')"
    and get_remove: "get (remove k m) k' = (if k' = k then None else get m k')"
    and total_empty: "total f empty = 0"
    and total_insert: "total f (insert k v m) + opt_val f (get m k) = total f m + f v"
    and total_remove: "total f (remove k m) + opt_val f (get m k) = total f m"
begin

lemma total_move:
  assumes "get m a = Some x" and "get m b = Some y" and "a \<noteq> b"
    and "f x' + f y' = f x + f y"
  shows "total f (insert b y' (insert a x' m)) = total f m"
  using total_insert [of f b y' "insert a x' m"] total_insert [of f a x' m] assms
  by (simp add: get_insert)

lemma total_credit:
  assumes "f v = opt_val f (get m k) + d"
  shows "total f (insert k v m) = total f m + d"
  using total_insert [of f k v m] assms by simp

lemma total_debit:
  assumes "get m k = Some x" and "f v + d = f x"
  shows "total f (insert k v m) + d = total f m"
  using total_insert [of f k v m] assms by simp

lemma total_bound: "get m k = Some v \<Longrightarrow> f v \<le> total f m"
  using total_remove [of f k m] by simp

end

interpretation bm: ordered_map bm_empty bm_get bm_insert bm_remove bm_sum
  by unfold_locales (simp_all add: bm_sum_insert bm_sum_remove)

end
