(* ===== verification/Core_Abi.thy ===== *)
theory Core_Abi
  imports BTree_Map "HOL-Library.List_Lexorder"
begin

text \<open>
  The environment of the contracts and of the \<open>dusk-core\<close> types: identifiers, the opaque values
  of third-party crates, and the functions of those crates the sources call.

  Keys, signatures, scalars and notes come from crates that are not part of the repository
  (\<open>dusk-bls12_381\<close>, \<open>phoenix-core\<close>, \<open>jubjub-schnorr\<close>, \<open>dusk-bytes\<close>, \<open>piecrust\<close>).  Their
  values are opaque tokens, and every function of theirs is a field of the record \<open>host\<close> (host
  queries and cryptography) or \<open>wire\<close> (encodings), an argument of the definitions that use it.
  What the sources rely on is stated by the predicates \<open>note_laws\<close> and \<open>wire_laws\<close>, which
  appear as hypotheses.
\<close>

section \<open>Identifiers and opaque values\<close>

type_synonym contract_id = bytes

definition CONTRACT_ID_BYTES :: nat where
  "CONTRACT_ID_BYTES = 32"

definition reserved :: "u8 \<Rightarrow> contract_id" where
  "reserved b = (replicate CONTRACT_ID_BYTES 0)[0 := b]"

definition TRANSFER_CONTRACT :: contract_id where
  "TRANSFER_CONTRACT = reserved 1"

definition STAKE_CONTRACT :: contract_id where
  "STAKE_CONTRACT = reserved 2"

lemma reserved_code: "reserved b = b # replicate 31 0"
  by (simp add: reserved_def CONTRACT_ID_BYTES_def numeral_eq_Suc)

lemma reserved_inject [simp]: "reserved a = reserved b \<longleftrightarrow> a = b"
  by (simp add: reserved_code)

lemma genesis_contracts_distinct [simp]:
  "TRANSFER_CONTRACT \<noteq> STAKE_CONTRACT"
  "STAKE_CONTRACT \<noteq> TRANSFER_CONTRACT"
  by (simp_all add: TRANSFER_CONTRACT_def STAKE_CONTRACT_def)

datatype bls_public_key = BlsPublicKey u64
datatype bls_signature = BlsSignature u64
datatype schnorr_signature = SchnorrSignature u64
datatype note_public_key = NotePublicKey u64
datatype stealth_address = StealthAddress u64
datatype bls_scalar = BlsScalar u64
datatype phoenix_note = NoteRepr "u64 list"

text \<open>The sender field of a note: an encryption (eight coordinates) or contract information.\<close>

datatype sender = Encryption "bls_scalar list" | ContractInfo bytes

instantiation bls_scalar :: linorder
begin

fun less_eq_bls_scalar :: "bls_scalar \<Rightarrow> bls_scalar \<Rightarrow> bool" where
  "less_eq_bls_scalar (BlsScalar a) (BlsScalar b) = (a \<le> b)"

fun less_bls_scalar :: "bls_scalar \<Rightarrow> bls_scalar \<Rightarrow> bool" where
  "less_bls_scalar (BlsScalar a) (BlsScalar b) = (a < b)"

instance
proof
  fix x y z :: bls_scalar
  show "x < y \<longleftrightarrow> x \<le> y \<and> \<not> y \<le> x" by (cases x; cases y) auto
  show "x \<le> x" by (cases x) simp
  show "x \<le> y \<Longrightarrow> y \<le> z \<Longrightarrow> x \<le> z" by (cases x; cases y; cases z) auto
  show "x \<le> y \<Longrightarrow> y \<le> x \<Longrightarrow> x = y" by (cases x; cases y) auto
  show "x \<le> y \<or> y \<le> x" by (cases x; cases y) auto
qed

end

section \<open>Host queries and third-party functions\<close>

record host =
  h_block_height :: u64
  h_chain_id :: u8
  h_verify_bls :: "bytes \<Rightarrow> bls_public_key \<Rightarrow> bls_signature \<Rightarrow> bool"
  h_verify_schnorr :: "bls_scalar \<Rightarrow> note_public_key \<Rightarrow> schnorr_signature \<Rightarrow> bool"
  h_verify_plonk :: "bytes \<Rightarrow> bytes \<Rightarrow> bls_scalar list \<Rightarrow> bool"
  h_hash :: "bytes \<Rightarrow> bls_scalar"
  h_poseidon_hash :: "bls_scalar list \<Rightarrow> bls_scalar"
  h_scalar_of_u64 :: "u64 \<Rightarrow> bls_scalar"
  h_pk_is_valid :: "bls_public_key \<Rightarrow> bool"
  h_pk_to_raw_bytes :: "bls_public_key \<Rightarrow> bytes"
  h_note_pk :: "stealth_address \<Rightarrow> note_public_key"
  h_note_pk_coords :: "note_public_key \<Rightarrow> bls_scalar \<times> bls_scalar"
  h_transparent_stealth :: "stealth_address \<Rightarrow> u64 \<Rightarrow> sender \<Rightarrow> phoenix_note"
  h_note_value :: "phoenix_note \<Rightarrow> u64 option"
  h_note_set_pos :: "u64 \<Rightarrow> phoenix_note \<Rightarrow> phoenix_note"
  h_note_hash_inputs :: "phoenix_note \<Rightarrow> bls_scalar list"
  h_note_value_commitment :: "phoenix_note \<Rightarrow> bls_scalar \<times> bls_scalar"
  h_note_stealth_address :: "phoenix_note \<Rightarrow> stealth_address"
  h_note_sender :: "phoenix_note \<Rightarrow> sender"
  h_tree_root :: "(u64 \<times> bls_scalar) list \<Rightarrow> bls_scalar"
  h_tree_opening :: "(u64 \<times> bls_scalar) list \<Rightarrow> u64 \<Rightarrow> bytes option"
  h_roots_contains :: "bls_scalar list \<Rightarrow> bls_scalar \<Rightarrow> bool"
  h_vd_1_2 :: bytes
  h_vd_2_2 :: bytes
  h_vd_3_2 :: bytes
  h_vd_4_2 :: bytes

text \<open>
  The merkle tree of notes and the ring buffer of roots are given by the sequence of their
  insertions, and their queries (\<open>root\<close>, \<open>opening\<close>, \<open>contains\<close>) by functions of that sequence;
  the verifier data are files the build includes.

  \<open>Note::transparent_stealth\<close> makes a note whose value is readable without a view key, and the
  position of a note is independent of its value.
\<close>

definition note_laws :: "host \<Rightarrow> bool" where
  "note_laws h \<longleftrightarrow>
     (\<forall>a v s. h_note_value h (h_transparent_stealth h a v s) = Some v) \<and>
     (\<forall>p n. h_note_value h (h_note_set_pos h p n) = h_note_value h n)"

section \<open>Encodings\<close>

datatype bytes_error = InvalidData | BadLength

record wire =
  w_u8_from_reader :: "bytes \<Rightarrow> bytes_error + (u8 \<times> bytes)"
  w_u64_to_bytes :: "u64 \<Rightarrow> bytes"
  w_u64_from_reader :: "bytes \<Rightarrow> bytes_error + (u64 \<times> bytes)"
  w_pk_size :: nat
  w_pk_to_bytes :: "bls_public_key \<Rightarrow> bytes"
  w_pk_from_reader :: "bytes \<Rightarrow> bytes_error + (bls_public_key \<times> bytes)"
  w_sig_to_bytes :: "bls_signature \<Rightarrow> bytes"
  w_sig_from_bytes :: "bytes \<Rightarrow> bytes_error + bls_signature"
  w_schnorr_to_bytes :: "schnorr_signature \<Rightarrow> bytes"
  w_scalar_to_bytes :: "bls_scalar \<Rightarrow> bytes"
  w_stealth_to_bytes :: "stealth_address \<Rightarrow> bytes"
  w_stealth_from_reader :: "bytes \<Rightarrow> bytes_error + (stealth_address \<times> bytes)"
  w_sender_to_bytes :: "sender \<Rightarrow> bytes"
  w_sender_from_reader :: "bytes \<Rightarrow> bytes_error + (sender \<times> bytes)"

text \<open>
  \<open>dusk-bytes\<close>: reading back what was written gives the value and the rest of the buffer.
\<close>

locale reader_codec =
  fixes to_bytes :: "'a \<Rightarrow> bytes"
    and from_reader :: "bytes \<Rightarrow> 'e + ('a \<times> bytes)"
  assumes read_write: "from_reader (to_bytes x @ rest) = Inr (x, rest)"
begin

lemma read_write_only: "from_reader (to_bytes x) = Inr (x, [])"
  using read_write [of x "[]"] by simp

lemma to_bytes_prefix_inj: "to_bytes x @ r = to_bytes y @ s \<Longrightarrow> x = y \<and> r = s"
  by (metis read_write old.sum.inject(2) prod.inject)

lemma to_bytes_inj: "to_bytes x = to_bytes y \<Longrightarrow> x = y"
  by (metis to_bytes_prefix_inj)

end

definition wire_laws :: "wire \<Rightarrow> bool" where
  "wire_laws w \<longleftrightarrow>
     (\<forall>b rest. w_u8_from_reader w (b # rest) = Inr (b, rest)) \<and>
     (\<forall>x rest. w_u64_from_reader w (w_u64_to_bytes w x @ rest) = Inr (x, rest)) \<and>
     (\<forall>x rest. w_pk_from_reader w (w_pk_to_bytes w x @ rest) = Inr (x, rest)) \<and>
     (\<forall>s. w_sig_from_bytes w (w_sig_to_bytes w s) = Inr s)"

lemma wire_lawsD:
  assumes "wire_laws w"
  shows "w_u8_from_reader w (b # rest) = Inr (b, rest)"
    and "w_u64_from_reader w (w_u64_to_bytes w x @ rest) = Inr (x, rest)"
    and "w_pk_from_reader w (w_pk_to_bytes w k @ rest) = Inr (k, rest)"
    and "w_sig_from_bytes w (w_sig_to_bytes w s) = Inr s"
  using assms by (simp_all add: wire_laws_def)

lemma wire_u64_codec: "wire_laws w \<Longrightarrow> reader_codec (w_u64_to_bytes w) (w_u64_from_reader w)"
  by unfold_locales (simp add: wire_lawsD)

lemma wire_pk_codec: "wire_laws w \<Longrightarrow> reader_codec (w_pk_to_bytes w) (w_pk_from_reader w)"
  by unfold_locales (simp add: wire_lawsD)

section \<open>Little-endian integers\<close>

text \<open>\<open>u64::to_le_bytes\<close> and \<open>u64::from_le_bytes\<close> of the standard library.\<close>

fun le_bytes :: "nat \<Rightarrow> nat \<Rightarrow> bytes" where
  "le_bytes 0 n = []"
| "le_bytes (Suc k) n = of_nat (n mod 256) # le_bytes k (n div 256)"

fun le_value :: "bytes \<Rightarrow> nat" where
  "le_value [] = 0"
| "le_value (b # bs) = unat b + 256 * le_value bs"

definition to_le_bytes :: "'a::len word \<Rightarrow> bytes" where
  "to_le_bytes x = le_bytes (LENGTH('a) div 8) (unat x)"

definition from_le_bytes :: "bytes \<Rightarrow> 'a::len word" where
  "from_le_bytes bs = of_nat (le_value bs)"

lemma length_le_bytes [simp]: "length (le_bytes k n) = k"
  by (induction k arbitrary: n) auto

lemma unat_of_nat_byte: "unat (of_nat (n mod 256) :: u8) = n mod 256"
  by (simp add: unat_of_nat)

lemma le_value_le_bytes: "le_value (le_bytes k n) = n mod 256 ^ k"
proof (induction k arbitrary: n)
  case (Suc k)
  have "n mod (256 * 256 ^ k) = 256 * (n div 256 mod 256 ^ k) + n mod 256"
    by (rule mod_mult2_eq)
  with Suc show ?case by (simp add: unat_of_nat_byte)
qed simp

lemma le_value_bound: "le_value bs < 256 ^ length bs"
proof (induction bs)
  case (Cons b bs)
  have "unat b < 256" using unsigned_less [of b] by simp
  with Cons show ?case by simp
qed simp

lemma le_bytes_le_value: "le_bytes (length bs) (le_value bs) = bs"
proof (induction bs)
  case (Cons b bs)
  have b: "unat b < 256" using unsigned_less [of b] by simp
  then have "(unat b + 256 * le_value bs) mod 256 = unat b" by simp
  moreover have "(unat b + 256 * le_value bs) div 256 = le_value bs" using b by simp
  ultimately show ?case using Cons by (simp only: le_bytes.simps le_value.simps list.size) simp
qed simp

lemma length_to_le_bytes_u64 [simp]: "length (to_le_bytes (x :: u64)) = 8"
  by (simp add: to_le_bytes_def)

lemma from_to_le_bytes_u64 [simp]: "from_le_bytes (to_le_bytes (x :: u64)) = x"
proof -
  have "unat x < 256 ^ 8" using unsigned_less [of x] by simp
  then show ?thesis by (simp add: to_le_bytes_def from_le_bytes_def le_value_le_bytes)
qed

text \<open>A reader of fixed-size values over a decoder, as the buffer-reading helpers of the sources are.\<close>

definition read_fixed :: "nat \<Rightarrow> (bytes \<Rightarrow> 'a) \<Rightarrow> 'e \<Rightarrow> bytes \<Rightarrow> 'e + ('a \<times> bytes)" where
  "read_fixed n dec err buf =
     (if length buf < n then Inl err else Inr (dec (take n buf), drop n buf))"

lemma read_fixed_append:
  "length bs = n \<Longrightarrow> read_fixed n dec err (bs @ rest) = Inr (dec bs, rest)"
  by (simp add: read_fixed_def)

interpretation le_u64: reader_codec "to_le_bytes :: u64 \<Rightarrow> bytes" "read_fixed 8 from_le_bytes BadLength"
  by unfold_locales (simp add: read_fixed_append)

section \<open>A concrete instance of the encodings\<close>

text \<open>
  Every opaque value is one 64-bit token here, written little-endian.  The witnesses of the
  theorems that assume \<open>wire_laws\<close> use it.
\<close>

definition le_reader :: "(u64 \<Rightarrow> 'a) \<Rightarrow> bytes \<Rightarrow> bytes_error + ('a \<times> bytes)" where
  "le_reader f = read_fixed 8 (f \<circ> from_le_bytes) BadLength"

definition wire0 :: wire where
  "wire0 = \<lparr>
     w_u8_from_reader = (\<lambda>buf. case buf of [] \<Rightarrow> Inl BadLength | b # rest \<Rightarrow> Inr (b, rest)),
     w_u64_to_bytes = to_le_bytes,
     w_u64_from_reader = le_reader id,
     w_pk_size = 8,
     w_pk_to_bytes = (\<lambda>k. case k of BlsPublicKey x \<Rightarrow> to_le_bytes x),
     w_pk_from_reader = le_reader BlsPublicKey,
     w_sig_to_bytes = (\<lambda>s. case s of BlsSignature x \<Rightarrow> to_le_bytes x),
     w_sig_from_bytes = (\<lambda>bs. Inr (BlsSignature (from_le_bytes bs))),
     w_schnorr_to_bytes = (\<lambda>s. case s of SchnorrSignature x \<Rightarrow> to_le_bytes x),
     w_scalar_to_bytes = (\<lambda>s. case s of BlsScalar x \<Rightarrow> to_le_bytes x),
     w_stealth_to_bytes = (\<lambda>s. case s of StealthAddress x \<Rightarrow> to_le_bytes x),
     w_stealth_from_reader = le_reader StealthAddress,
     w_sender_to_bytes = (\<lambda>s. []),
     w_sender_from_reader = (\<lambda>buf. Inr (ContractInfo [], buf)) \<rparr>"

lemma le_reader_append: "le_reader f (to_le_bytes x @ rest) = Inr (f x, rest)"
  by (simp add: le_reader_def read_fixed_append)

lemma wire0_laws: "wire_laws wire0"
  by (auto simp: wire_laws_def wire0_def le_reader_append split: bls_public_key.split bls_signature.split)

interpretation wire0_u64: reader_codec "w_u64_to_bytes wire0" "w_u64_from_reader wire0"
  by (rule wire_u64_codec [OF wire0_laws])

end
