(* ===== verification/Core_Data.thy ===== *)
theory Core_Data
  imports Core_Abi
begin

text \<open>
  The buffer readers of \<^verbatim>\<open>core/src/lib.rs\<close> and the transaction data of
  \<^verbatim>\<open>core/src/transfer/data.rs\<close>: contract calls, contract deployments and their byte
  encodings, with the round trips between them.

  A Rust \<open>String\<close> is its UTF-8 bytes; \<open>utf8_valid\<close> is \<open>String::from_utf8\<close>'s test.  The node is
  built for 64-bit targets, so \<open>usize::try_from(u64)\<close> never fails and lengths are \<open>nat\<close>.
\<close>

section \<open>Strings\<close>

definition str_bytes :: "string \<Rightarrow> bytes" where
  "str_bytes s = map of_char s"

definition in_range :: "u8 \<Rightarrow> u8 \<Rightarrow> u8 \<Rightarrow> bool" where
  "in_range lo hi b \<longleftrightarrow> lo \<le> b \<and> b \<le> hi"

text \<open>The well-formed byte sequences of UTF-8, by the number of bytes of the next code point.\<close>

fun utf8_valid :: "bytes \<Rightarrow> bool" where
  "utf8_valid [] = True"
| "utf8_valid (a # bs) =
     (if a \<le> 0x7F then utf8_valid bs
      else if in_range 0xC2 0xDF a then
        (case bs of b # bs' \<Rightarrow> in_range 0x80 0xBF b \<and> utf8_valid bs' | _ \<Rightarrow> False)
      else if in_range 0xE0 0xEF a then
        (case bs of b # c # bs' \<Rightarrow>
           in_range (if a = 0xE0 then 0xA0 else 0x80) (if a = 0xED then 0x9F else 0xBF) b
           \<and> in_range 0x80 0xBF c \<and> utf8_valid bs' | _ \<Rightarrow> False)
      else if in_range 0xF0 0xF4 a then
        (case bs of b # c # d # bs' \<Rightarrow>
           in_range (if a = 0xF0 then 0x90 else 0x80) (if a = 0xF4 then 0x8F else 0xBF) b
           \<and> in_range 0x80 0xBF c \<and> in_range 0x80 0xBF d \<and> utf8_valid bs' | _ \<Rightarrow> False)
      else False)"

section \<open>Reading from a buffer\<close>

text \<open>The length prefix written before a vector: \<open>(v.len() as u64).to_bytes()\<close>.\<close>

definition len_bytes :: "wire \<Rightarrow> bytes \<Rightarrow> bytes" where
  "len_bytes w v = w_u64_to_bytes w (of_nat (length v))"

definition read_vec :: "wire \<Rightarrow> bytes \<Rightarrow> bytes_error + (bytes \<times> bytes)" where
  "read_vec w buf =
     res_bind (w_u64_from_reader w buf) (\<lambda>(n, buf).
       let len = unat n in
       if length buf < len then Inl InvalidData
       else Inr (take len buf, drop len buf))"

definition read_str :: "wire \<Rightarrow> bytes \<Rightarrow> bytes_error + (bytes \<times> bytes)" where
  "read_str w buf =
     res_bind (w_u64_from_reader w buf) (\<lambda>(n, buf).
       let len = unat n in
       if length buf < len then Inl InvalidData
       else if \<not> utf8_valid (take len buf) then Inl InvalidData
       else Inr (take len buf, drop len buf))"

definition read_arr :: "nat \<Rightarrow> bytes \<Rightarrow> bytes_error + (bytes \<times> bytes)" where
  "read_arr n buf =
     (if length buf < n then Inl InvalidData else Inr (take n buf, drop n buf))"

definition short :: "bytes \<Rightarrow> bool" where
  "short v \<longleftrightarrow> length v < 2 ^ 64"

lemma unat_length_short: "short v \<Longrightarrow> unat (of_nat (length v) :: u64) = length v"
  by (simp add: short_def unat_of_nat)

lemma read_vec_append:
  "wire_laws w \<Longrightarrow> short v \<Longrightarrow> read_vec w (len_bytes w v @ v @ rest) = Inr (v, rest)"
  by (simp add: read_vec_def len_bytes_def wire_lawsD unat_length_short)

lemma read_str_append:
  "wire_laws w \<Longrightarrow> short v \<Longrightarrow> utf8_valid v \<Longrightarrow>
   read_str w (len_bytes w v @ v @ rest) = Inr (v, rest)"
  by (simp add: read_str_def len_bytes_def wire_lawsD unat_length_short)

lemma read_arr_append: "length v = n \<Longrightarrow> read_arr n (v @ rest) = Inr (v, rest)"
  by (simp add: read_arr_def)

section \<open>Contract bytecode, deployments and calls\<close>

record contract_bytecode =
  bc_hash :: bytes
  bc_bytes :: bytes

record contract_deploy =
  cd_bytecode :: contract_bytecode
  cd_owner :: bytes
  cd_init_args :: "bytes option"
  cd_nonce :: u64

record contract_call =
  cc_contract :: contract_id
  cc_fn_name :: bytes
  cc_fn_args :: bytes

datatype transaction_data =
    Call contract_call
  | Deploy contract_deploy
  | Memo bytes

definition MAX_MEMO_SIZE :: nat where
  "MAX_MEMO_SIZE = 512"

definition bytecode_to_hash_input_bytes :: "contract_bytecode \<Rightarrow> bytes" where
  "bytecode_to_hash_input_bytes b = bc_hash b"

definition bytecode_to_var_bytes :: "wire \<Rightarrow> contract_bytecode \<Rightarrow> bytes" where
  "bytecode_to_var_bytes w b = bc_hash b @ len_bytes w (bc_bytes b) @ bc_bytes b"

definition bytecode_from_buf :: "wire \<Rightarrow> bytes \<Rightarrow> bytes_error + (contract_bytecode \<times> bytes)" where
  "bytecode_from_buf w buf =
     res_bind (read_arr 32 buf) (\<lambda>(h, buf).
     res_bind (read_vec w buf) (\<lambda>(bs, buf).
       Inr (\<lparr>bc_hash = h, bc_bytes = bs\<rparr>, buf)))"

definition deploy_to_var_bytes :: "wire \<Rightarrow> contract_deploy \<Rightarrow> bytes" where
  "deploy_to_var_bytes w d =
     bytecode_to_var_bytes w (cd_bytecode d)
     @ len_bytes w (cd_owner d) @ cd_owner d
     @ (case cd_init_args d of
          Some a \<Rightarrow> 1 # len_bytes w a @ a
        | None \<Rightarrow> [0])
     @ w_u64_to_bytes w (cd_nonce d)"

definition deploy_from_slice :: "wire \<Rightarrow> bytes \<Rightarrow> bytes_error + contract_deploy" where
  "deploy_from_slice w buf =
     res_bind (bytecode_from_buf w buf) (\<lambda>(bytecode, buf).
     res_bind (read_vec w buf) (\<lambda>(owner, buf).
     res_bind (w_u8_from_reader w buf) (\<lambda>(tag, buf).
     res_bind (if tag = 0 then Inr (None, buf)
               else if tag = 1 then res_map (\<lambda>(a, buf). (Some a, buf)) (read_vec w buf)
               else Inl InvalidData) (\<lambda>(init_args, buf).
     res_bind (w_u64_from_reader w buf) (\<lambda>(nonce, buf).
       Inr \<lparr>cd_bytecode = bytecode, cd_owner = owner, cd_init_args = init_args,
            cd_nonce = nonce\<rparr>)))))"

definition call_to_var_bytes :: "wire \<Rightarrow> contract_call \<Rightarrow> bytes" where
  "call_to_var_bytes w c =
     cc_contract c
     @ len_bytes w (cc_fn_name c) @ cc_fn_name c
     @ len_bytes w (cc_fn_args c) @ cc_fn_args c"

definition call_from_slice :: "wire \<Rightarrow> bytes \<Rightarrow> bytes_error + contract_call" where
  "call_from_slice w buf =
     res_bind (read_arr 32 buf) (\<lambda>(contract, buf).
     res_bind (read_str w buf) (\<lambda>(fn_name, buf).
     res_bind (read_vec w buf) (\<lambda>(fn_args, buf).
       Inr \<lparr>cc_contract = contract, cc_fn_name = fn_name, cc_fn_args = fn_args\<rparr>)))"

text \<open>
  The values the Rust types admit: hashes and contract identifiers are 32-byte arrays, strings are
  UTF-8, vectors have fewer than \<open>2 ^ 64\<close> elements.
\<close>

definition bytecode_wf :: "contract_bytecode \<Rightarrow> bool" where
  "bytecode_wf b \<longleftrightarrow> length (bc_hash b) = 32 \<and> short (bc_bytes b)"

definition deploy_wf :: "contract_deploy \<Rightarrow> bool" where
  "deploy_wf d \<longleftrightarrow>
     bytecode_wf (cd_bytecode d) \<and> short (cd_owner d) \<and>
     (case cd_init_args d of None \<Rightarrow> True | Some a \<Rightarrow> short a)"

definition call_wf :: "contract_call \<Rightarrow> bool" where
  "call_wf c \<longleftrightarrow>
     length (cc_contract c) = CONTRACT_ID_BYTES \<and> short (cc_fn_name c) \<and>
     utf8_valid (cc_fn_name c) \<and> short (cc_fn_args c)"

lemma bytecode_roundtrip:
  "wire_laws w \<Longrightarrow> bytecode_wf b \<Longrightarrow>
   bytecode_from_buf w (bytecode_to_var_bytes w b @ rest) = Inr (b, rest)"
  by (simp add: bytecode_from_buf_def bytecode_to_var_bytes_def bytecode_wf_def
      read_arr_append read_vec_append)

lemma deploy_roundtrip:
  assumes "wire_laws w" and "deploy_wf d"
  shows "deploy_from_slice w (deploy_to_var_bytes w d @ rest) = Inr d"
  using assms
  by (cases d; cases "cd_init_args d")
     (auto simp: deploy_from_slice_def deploy_to_var_bytes_def deploy_wf_def
        bytecode_roundtrip read_vec_append wire_lawsD)

lemma call_roundtrip:
  assumes "wire_laws w" and "call_wf c"
  shows "call_from_slice w (call_to_var_bytes w c @ rest) = Inr c"
  using assms
  by (cases c) (auto simp: call_from_slice_def call_to_var_bytes_def call_wf_def
      CONTRACT_ID_BYTES_def read_arr_append read_vec_append read_str_append)

end
