(* ===== verification/Core_Moonlight.thy ===== *)
theory Core_Moonlight
  imports Core_Data
begin

text \<open>
  Moonlight transactions, from \<^verbatim>\<open>core/src/transfer/moonlight.rs\<close>: the payload, its wire format and
  the message that is signed.  A secret key enters only through the public key it belongs to and
  its signing function, which are arguments.
\<close>

record account_data =
  acc_nonce :: u64
  acc_balance :: u64

record moonlight_fee =
  mf_gas_limit :: u64
  mf_gas_price :: u64
  mf_refund_address :: bls_public_key

record moonlight_payload =
  mp_chain_id :: u8
  mp_sender :: bls_public_key
  mp_receiver :: bls_public_key
  mp_value :: u64
  mp_deposit :: u64
  mp_fee :: moonlight_fee
  mp_nonce :: u64
  mp_data :: "transaction_data option"

record moonlight_transaction =
  mt_payload :: moonlight_payload
  mt_signature :: bls_signature

section \<open>Accessors\<close>

definition mt_sender :: "moonlight_transaction \<Rightarrow> bls_public_key" where
  "mt_sender tx = mp_sender (mt_payload tx)"

definition mt_refund_address :: "moonlight_transaction \<Rightarrow> bls_public_key" where
  "mt_refund_address tx = mf_refund_address (mp_fee (mt_payload tx))"

definition mt_receiver :: "moonlight_transaction \<Rightarrow> bls_public_key option" where
  "mt_receiver tx =
     (if mp_sender (mt_payload tx) = mp_receiver (mt_payload tx) then None
      else Some (mp_receiver (mt_payload tx)))"

definition mt_value :: "moonlight_transaction \<Rightarrow> u64" where
  "mt_value tx = mp_value (mt_payload tx)"

definition mt_deposit :: "moonlight_transaction \<Rightarrow> u64" where
  "mt_deposit tx = mp_deposit (mt_payload tx)"

definition mt_gas_limit :: "moonlight_transaction \<Rightarrow> u64" where
  "mt_gas_limit tx = mf_gas_limit (mp_fee (mt_payload tx))"

definition mt_gas_price :: "moonlight_transaction \<Rightarrow> u64" where
  "mt_gas_price tx = mf_gas_price (mp_fee (mt_payload tx))"

definition mt_nonce :: "moonlight_transaction \<Rightarrow> u64" where
  "mt_nonce tx = mp_nonce (mt_payload tx)"

definition mt_chain_id :: "moonlight_transaction \<Rightarrow> u8" where
  "mt_chain_id tx = mp_chain_id (mt_payload tx)"

definition data_call :: "transaction_data option \<Rightarrow> contract_call option" where
  "data_call d = (case d of Some (Call c) \<Rightarrow> Some c | _ \<Rightarrow> None)"

definition data_deploy :: "transaction_data option \<Rightarrow> contract_deploy option" where
  "data_deploy d = (case d of Some (Deploy c) \<Rightarrow> Some c | _ \<Rightarrow> None)"

definition data_memo :: "transaction_data option \<Rightarrow> bytes option" where
  "data_memo d = (case d of Some (Memo m) \<Rightarrow> Some m | _ \<Rightarrow> None)"

definition mt_call :: "moonlight_transaction \<Rightarrow> contract_call option" where
  "mt_call tx = data_call (mp_data (mt_payload tx))"

definition mt_deploy :: "moonlight_transaction \<Rightarrow> contract_deploy option" where
  "mt_deploy tx = data_deploy (mp_data (mt_payload tx))"

definition mt_memo :: "moonlight_transaction \<Rightarrow> bytes option" where
  "mt_memo tx = data_memo (mp_data (mt_payload tx))"

text \<open>The clone of a deployment without its bytecode, shared by both transaction kinds.\<close>

definition strip_deploy :: "contract_deploy \<Rightarrow> transaction_data" where
  "strip_deploy d =
     Deploy \<lparr>cd_bytecode = \<lparr>bc_hash = bc_hash (cd_bytecode d), bc_bytes = []\<rparr>,
             cd_owner = cd_owner d, cd_init_args = cd_init_args d, cd_nonce = cd_nonce d\<rparr>"

definition mt_strip_off_bytecode :: "moonlight_transaction \<Rightarrow> moonlight_transaction option" where
  "mt_strip_off_bytecode tx =
     (case mt_deploy tx of
        None \<Rightarrow> None
      | Some d \<Rightarrow> Some (tx\<lparr>mt_payload := (mt_payload tx)\<lparr>mp_data := Some (strip_deploy d)\<rparr>\<rparr>))"

section \<open>Wire format\<close>

text \<open>The transaction data, written and read the same way by both transaction kinds.\<close>

definition data_to_var_bytes :: "wire \<Rightarrow> transaction_data option \<Rightarrow> bytes" where
  "data_to_var_bytes w d =
     (case d of
        Some (Call c) \<Rightarrow> 1 # call_to_var_bytes w c
      | Some (Deploy c) \<Rightarrow> 2 # deploy_to_var_bytes w c
      | Some (Memo m) \<Rightarrow> 3 # len_bytes w m @ m
      | None \<Rightarrow> [0])"

definition data_from_reader :: "wire \<Rightarrow> bytes \<Rightarrow> bytes_error + transaction_data option" where
  "data_from_reader w buf =
     res_bind (w_u8_from_reader w buf) (\<lambda>(tag, buf).
       if tag = 0 then Inr None
       else if tag = 1 then res_map (Some \<circ> Call) (call_from_slice w buf)
       else if tag = 2 then res_map (Some \<circ> Deploy) (deploy_from_slice w buf)
       else if tag = 3 then
         res_bind (w_u64_from_reader w buf) (\<lambda>(size, buf).
           if length buf \<noteq> unat size \<or> unat size > MAX_MEMO_SIZE then Inl InvalidData
           else Inr (Some (Memo (take (unat size) buf))))
       else Inl InvalidData)"

definition payload_to_var_bytes :: "wire \<Rightarrow> moonlight_payload \<Rightarrow> bytes" where
  "payload_to_var_bytes w p =
     [mp_chain_id p]
     @ w_pk_to_bytes w (mp_sender p)
     @ (if mp_sender p = mp_receiver p then [0] else 1 # w_pk_to_bytes w (mp_receiver p))
     @ w_u64_to_bytes w (mp_value p)
     @ w_u64_to_bytes w (mp_deposit p)
     @ w_u64_to_bytes w (mf_gas_limit (mp_fee p))
     @ w_u64_to_bytes w (mf_gas_price (mp_fee p))
     @ (if mp_sender p = mf_refund_address (mp_fee p) then [0]
        else 1 # w_pk_to_bytes w (mf_refund_address (mp_fee p)))
     @ w_u64_to_bytes w (mp_nonce p)
     @ data_to_var_bytes w (mp_data p)"

text \<open>An address that is written only when it differs from the sender.\<close>

definition read_addr :: "wire \<Rightarrow> bls_public_key \<Rightarrow> bytes \<Rightarrow> bytes_error + (bls_public_key \<times> bytes)" where
  "read_addr w sender buf =
     res_bind (w_u8_from_reader w buf) (\<lambda>(tag, buf).
       if tag = 0 then Inr (sender, buf)
       else if tag = 1 then w_pk_from_reader w buf
       else Inl InvalidData)"

definition payload_from_slice :: "wire \<Rightarrow> bytes \<Rightarrow> bytes_error + moonlight_payload" where
  "payload_from_slice w buf =
     res_bind (w_u8_from_reader w buf) (\<lambda>(chain_id, buf).
     res_bind (w_pk_from_reader w buf) (\<lambda>(sender, buf).
     res_bind (read_addr w sender buf) (\<lambda>(receiver, buf).
     res_bind (w_u64_from_reader w buf) (\<lambda>(value, buf).
     res_bind (w_u64_from_reader w buf) (\<lambda>(deposit, buf).
     res_bind (w_u64_from_reader w buf) (\<lambda>(gas_limit, buf).
     res_bind (w_u64_from_reader w buf) (\<lambda>(gas_price, buf).
     res_bind (read_addr w sender buf) (\<lambda>(refund_address, buf).
     res_bind (w_u64_from_reader w buf) (\<lambda>(nonce, buf).
     res_bind (data_from_reader w buf) (\<lambda>data.
       Inr \<lparr>mp_chain_id = chain_id, mp_sender = sender, mp_receiver = receiver,
            mp_value = value, mp_deposit = deposit,
            mp_fee = \<lparr>mf_gas_limit = gas_limit, mf_gas_price = gas_price,
                      mf_refund_address = refund_address\<rparr>,
            mp_nonce = nonce, mp_data = data\<rparr>))))))))))"

definition mt_to_var_bytes :: "wire \<Rightarrow> moonlight_transaction \<Rightarrow> bytes" where
  "mt_to_var_bytes w tx =
     (let payload_bytes = payload_to_var_bytes w (mt_payload tx) in
      len_bytes w payload_bytes @ payload_bytes @ w_sig_to_bytes w (mt_signature tx))"

text \<open>
  \<open>buf.try_into()\<close> takes the rest of the buffer as a fixed-size array, whose size
  \<open>sig_size\<close> is the constant of the signature crate.
\<close>

definition mt_from_slice :: "wire \<Rightarrow> nat \<Rightarrow> bytes \<Rightarrow> bytes_error + moonlight_transaction" where
  "mt_from_slice w sig_size buf =
     res_bind (w_u64_from_reader w buf) (\<lambda>(n, buf).
       let payload_len = unat n in
       if length buf < payload_len then Inl InvalidData
       else
         res_bind (payload_from_slice w (take payload_len buf)) (\<lambda>payload.
           let buf = drop payload_len buf in
           if length buf \<noteq> sig_size then Inl InvalidData
           else (case w_sig_from_bytes w buf of
                   Inl _ \<Rightarrow> Inl InvalidData
                 | Inr s \<Rightarrow> Inr \<lparr>mt_payload = payload, mt_signature = s\<rparr>)))"

section \<open>The signed message\<close>

text \<open>The data part of the signed message, which the Phoenix payload hash shares.\<close>

definition data_hash_bytes :: "transaction_data option \<Rightarrow> bytes" where
  "data_hash_bytes d =
     (case d of
        Some (Deploy c) \<Rightarrow>
          bytecode_to_hash_input_bytes (cd_bytecode c) @ cd_owner c
          @ (case cd_init_args c of Some a \<Rightarrow> a | None \<Rightarrow> [])
      | Some (Call c) \<Rightarrow> cc_contract c @ cc_fn_name c @ cc_fn_args c
      | Some (Memo m) \<Rightarrow> m
      | None \<Rightarrow> [])"

definition payload_signature_message :: "wire \<Rightarrow> moonlight_payload \<Rightarrow> bytes" where
  "payload_signature_message w p =
     [mp_chain_id p]
     @ w_pk_to_bytes w (mp_sender p)
     @ (if mp_receiver p \<noteq> mp_sender p then w_pk_to_bytes w (mp_receiver p) else [])
     @ w_u64_to_bytes w (mp_value p)
     @ w_u64_to_bytes w (mp_deposit p)
     @ w_u64_to_bytes w (mf_gas_limit (mp_fee p))
     @ w_u64_to_bytes w (mf_gas_price (mp_fee p))
     @ (if mf_refund_address (mp_fee p) \<noteq> mp_sender p
        then w_pk_to_bytes w (mf_refund_address (mp_fee p)) else [])
     @ w_u64_to_bytes w (mp_nonce p)
     @ data_hash_bytes (mp_data p)"

definition mt_signature_message :: "wire \<Rightarrow> moonlight_transaction \<Rightarrow> bytes" where
  "mt_signature_message w tx = payload_signature_message w (mt_payload tx)"

definition mt_to_hash_input_bytes :: "wire \<Rightarrow> moonlight_transaction \<Rightarrow> bytes" where
  "mt_to_hash_input_bytes w tx =
     payload_signature_message w (mt_payload tx) @ w_sig_to_bytes w (mt_signature tx)"

section \<open>Construction\<close>

datatype core_error = MemoTooLarge nat

definition mt_sign_payload ::
    "wire \<Rightarrow> (bytes \<Rightarrow> bls_signature) \<Rightarrow> moonlight_payload \<Rightarrow> core_error + moonlight_transaction" where
  "mt_sign_payload w sign p =
     (case mp_data p of
        Some (Memo m) \<Rightarrow>
          (if length m > MAX_MEMO_SIZE then Inl (MemoTooLarge (length m))
           else Inr \<lparr>mt_payload = p, mt_signature = sign (payload_signature_message w p)\<rparr>)
      | _ \<Rightarrow> Inr \<lparr>mt_payload = p, mt_signature = sign (payload_signature_message w p)\<rparr>)"

definition mt_new_with_refund ::
    "wire \<Rightarrow> bls_public_key \<Rightarrow> (bytes \<Rightarrow> bls_signature) \<Rightarrow> bls_public_key \<Rightarrow> bls_public_key option
     \<Rightarrow> u64 \<Rightarrow> u64 \<Rightarrow> u64 \<Rightarrow> u64 \<Rightarrow> u64 \<Rightarrow> u8 \<Rightarrow> transaction_data option
     \<Rightarrow> core_error + moonlight_transaction" where
  "mt_new_with_refund w sender sign refund_pk receiver value deposit gas_limit gas_price nonce
     chain_id data =
     mt_sign_payload w sign
       \<lparr>mp_chain_id = chain_id, mp_sender = sender,
        mp_receiver = (case receiver of None \<Rightarrow> sender | Some r \<Rightarrow> r),
        mp_value = value, mp_deposit = deposit,
        mp_fee = \<lparr>mf_gas_limit = gas_limit, mf_gas_price = gas_price,
                  mf_refund_address = refund_pk\<rparr>,
        mp_nonce = nonce, mp_data = data\<rparr>"

definition mt_new ::
    "wire \<Rightarrow> bls_public_key \<Rightarrow> (bytes \<Rightarrow> bls_signature) \<Rightarrow> bls_public_key option
     \<Rightarrow> u64 \<Rightarrow> u64 \<Rightarrow> u64 \<Rightarrow> u64 \<Rightarrow> u64 \<Rightarrow> u8 \<Rightarrow> transaction_data option
     \<Rightarrow> core_error + moonlight_transaction" where
  "mt_new w sender sign receiver value deposit gas_limit gas_price nonce chain_id data =
     mt_new_with_refund w sender sign sender receiver value deposit gas_limit gas_price nonce
       chain_id data"

section \<open>Round trips\<close>

definition data_wf :: "transaction_data option \<Rightarrow> bool" where
  "data_wf d \<longleftrightarrow>
     (case d of
        None \<Rightarrow> True
      | Some (Call c) \<Rightarrow> call_wf c
      | Some (Deploy c) \<Rightarrow> deploy_wf c
      | Some (Memo m) \<Rightarrow> length m \<le> MAX_MEMO_SIZE)"

lemma memo_short: "length m \<le> MAX_MEMO_SIZE \<Longrightarrow> short m"
  by (simp add: short_def MAX_MEMO_SIZE_def)

lemma data_roundtrip:
  assumes "wire_laws w" and "data_wf d"
  shows "data_from_reader w (data_to_var_bytes w d) = Inr d"
proof (cases d)
  case None
  with assms show ?thesis by (simp add: data_from_reader_def data_to_var_bytes_def wire_lawsD)
next
  case (Some x)
  show ?thesis
  proof (cases x)
    case (Call c)
    with assms Some call_roundtrip [of w c "[]"] show ?thesis
      by (simp add: data_from_reader_def data_to_var_bytes_def wire_lawsD data_wf_def)
  next
    case (Deploy c)
    with assms Some deploy_roundtrip [of w c "[]"] show ?thesis
      by (simp add: data_from_reader_def data_to_var_bytes_def wire_lawsD data_wf_def)
  next
    case (Memo m)
    with assms Some have m: "length m \<le> MAX_MEMO_SIZE" by (simp add: data_wf_def)
    with assms(1) Some Memo unat_length_short [OF memo_short [OF m]] show ?thesis
      by (simp add: data_from_reader_def data_to_var_bytes_def wire_lawsD len_bytes_def)
  qed
qed

lemma read_addr_write:
  assumes "wire_laws w"
  shows "read_addr w s ((if s = r then [0] else 1 # w_pk_to_bytes w r) @ rest) = Inr (r, rest)"
  using assms by (simp add: read_addr_def wire_lawsD)

lemma payload_roundtrip_aux:
  assumes "wire_laws w" and "data_wf (mp_data p)"
  shows "payload_from_slice w (payload_to_var_bytes w p) = Inr p"
proof -
  note w = wire_lawsD [OF assms(1)]
  show ?thesis
    unfolding payload_from_slice_def payload_to_var_bytes_def
    by (simp only: append.simps append_assoc w res_bind_simps prod.case
        read_addr_write [OF assms(1)] data_roundtrip [OF assms]) simp
qed

text \<open>
  A Moonlight transaction survives the wire: decoding the bytes \<open>to_var_bytes\<close> writes gives the
  transaction back, for every payload the constructor accepts (a memo of at most 512 bytes) whose
  encoding has fewer than \<open>2 ^ 64\<close> bytes.
\<close>

theorem moonlight_roundtrip:
  assumes "wire_laws w"
    and "data_wf (mp_data (mt_payload tx))"
    and "short (payload_to_var_bytes w (mt_payload tx))"
    and "length (w_sig_to_bytes w (mt_signature tx)) = sig_size"
  shows "mt_from_slice w sig_size (mt_to_var_bytes w tx) = Inr tx"
  using assms payload_roundtrip_aux [OF assms(1,2)] unat_length_short [OF assms(3)]
  by (simp add: mt_from_slice_def mt_to_var_bytes_def Let_def wire_lawsD len_bytes_def)

definition sample_payload :: moonlight_payload where
  "sample_payload =
     \<lparr>mp_chain_id = 1, mp_sender = BlsPublicKey 7, mp_receiver = BlsPublicKey 9,
      mp_value = 500, mp_deposit = 20,
      mp_fee = \<lparr>mf_gas_limit = 10, mf_gas_price = 2, mf_refund_address = BlsPublicKey 7\<rparr>,
      mp_nonce = 1,
      mp_data = Some (Call \<lparr>cc_contract = reserved 2, cc_fn_name = [115], cc_fn_args = [1, 2]\<rparr>)\<rparr>"

lemma sample_payload_wf: "data_wf (mp_data sample_payload)"
  by (simp add: sample_payload_def data_wf_def call_wf_def short_def reserved_code
      CONTRACT_ID_BYTES_def in_range_def)

lemma sample_payload_short: "short (payload_to_var_bytes wire0 sample_payload)"
  by (simp add: short_def payload_to_var_bytes_def data_to_var_bytes_def
        call_to_var_bytes_def len_bytes_def wire0_def sample_payload_def reserved_code)

theorem moonlight_roundtrip_witness:
  "mt_from_slice wire0 8
     (mt_to_var_bytes wire0 \<lparr>mt_payload = sample_payload, mt_signature = BlsSignature 3\<rparr>) =
   Inr \<lparr>mt_payload = sample_payload, mt_signature = BlsSignature 3\<rparr>"
  by (rule moonlight_roundtrip [OF wire0_laws])
     (simp_all add: sample_payload_wf sample_payload_short, simp add: wire0_def)

section \<open>What the encodings do not bind\<close>

text \<open>
  The decoder accepts trailing bytes.  For a payload without data, any bytes after the encoding
  are ignored, so one payload has infinitely many accepted encodings, although the function is
  documented to fail when the bytes are not canonical.
\<close>

theorem payload_decoding_ignores_trailing:
  assumes "wire_laws w" and "mp_data p = None"
  shows "payload_from_slice w (payload_to_var_bytes w p @ junk) = Inr p"
proof -
  note w = wire_lawsD [OF assms(1)]
  have d: "data_from_reader w (data_to_var_bytes w (mp_data p) @ junk) = Inr None"
    using assms by (simp add: data_from_reader_def data_to_var_bytes_def wire_lawsD)
  show ?thesis
    unfolding payload_from_slice_def payload_to_var_bytes_def
    by (simp only: append.simps append_assoc w res_bind_simps prod.case
        read_addr_write [OF assms(1)] d) (simp add: assms(2) [symmetric])
qed

theorem payload_decoding_ignores_trailing_witness:
  "payload_from_slice wire0 (payload_to_var_bytes wire0 (sample_payload\<lparr>mp_data := None\<rparr>) @ [42])
   = Inr (sample_payload\<lparr>mp_data := None\<rparr>)"
  by (rule payload_decoding_ignores_trailing [OF wire0_laws]) simp

text \<open>
  The signature of a deployment does not cover the deployment nonce, from which the identifier
  of the deployed contract is derived: replacing the nonce leaves the signed message unchanged.
\<close>

theorem deploy_nonce_not_signed:
  assumes "mp_data (mt_payload tx) = Some (Deploy d)"
  shows "mt_signature_message w
           (tx\<lparr>mt_payload := (mt_payload tx)\<lparr>mp_data := Some (Deploy (d\<lparr>cd_nonce := n\<rparr>))\<rparr>\<rparr>) =
         mt_signature_message w tx"
  using assms
  by (simp add: mt_signature_message_def payload_signature_message_def data_hash_bytes_def)

definition sample_deploy :: contract_deploy where
  "sample_deploy =
     \<lparr>cd_bytecode = \<lparr>bc_hash = replicate 32 5, bc_bytes = [1, 2, 3, 4]\<rparr>, cd_owner = [9],
      cd_init_args = None, cd_nonce = 0\<rparr>"

definition sample_deploy_tx :: moonlight_transaction where
  "sample_deploy_tx =
     \<lparr>mt_payload = sample_payload\<lparr>mp_data := Some (Deploy sample_deploy)\<rparr>,
      mt_signature = BlsSignature 3\<rparr>"

theorem deploy_nonce_not_signed_witness:
  "mt_signature_message wire0
     (sample_deploy_tx\<lparr>mt_payload := (mt_payload sample_deploy_tx)
        \<lparr>mp_data := Some (Deploy (sample_deploy\<lparr>cd_nonce := 77\<rparr>))\<rparr>\<rparr>) =
   mt_signature_message wire0 sample_deploy_tx"
  by (rule deploy_nonce_not_signed) (simp add: sample_deploy_tx_def)

text \<open>
  The signature of a call does not bind what kind of data it is, nor where the function name ends:
  the fields are concatenated without lengths or tags.  A memo made of the call's bytes, and a call
  whose name and arguments are split elsewhere, have the same signed message.
\<close>

theorem call_data_not_bound:
  assumes "mp_data (mt_payload tx) = Some (Call c)" and "name @ args = cc_fn_name c @ cc_fn_args c"
  shows "mt_signature_message w
           (tx\<lparr>mt_payload := (mt_payload tx)\<lparr>mp_data :=
              Some (Memo (cc_contract c @ cc_fn_name c @ cc_fn_args c))\<rparr>\<rparr>) = mt_signature_message w tx \<and>
         mt_signature_message w
           (tx\<lparr>mt_payload := (mt_payload tx)\<lparr>mp_data :=
              Some (Call (c\<lparr>cc_fn_name := name, cc_fn_args := args\<rparr>))\<rparr>\<rparr>) = mt_signature_message w tx"
  using assms
  by (simp add: mt_signature_message_def payload_signature_message_def data_hash_bytes_def)

theorem call_data_not_bound_witness:
  "mt_signature_message wire0 \<lparr>mt_payload = sample_payload\<lparr>mp_data := Some (Memo (reserved 2 @ [115, 1, 2]))\<rparr>,
       mt_signature = BlsSignature 3\<rparr> =
   mt_signature_message wire0 \<lparr>mt_payload = sample_payload, mt_signature = BlsSignature 3\<rparr>"
  using call_data_not_bound [of "\<lparr>mt_payload = sample_payload, mt_signature = BlsSignature 3\<rparr>"
      "\<lparr>cc_contract = reserved 2, cc_fn_name = [115], cc_fn_args = [1, 2]\<rparr>" "[115]" "[1, 2]" wire0]
  by (simp add: sample_payload_def)

end
