(* ===== verification/Core_Phoenix.thy ===== *)
theory Core_Phoenix
  imports Core_Moonlight
begin

text \<open>
  Phoenix transactions, from \<^verbatim>\<open>core/src/transfer/phoenix.rs\<close>: the fee and its remainder note, the
  payload, its wire format and hash input, and the public inputs of the proof.  The transaction
  skeleton is a type of \<open>phoenix-core\<close>; its fields are those the sources read, its encoders are
  parameters.
\<close>

record tx_skeleton =
  sk_root :: bls_scalar
  sk_nullifiers :: "bls_scalar list"
  sk_outputs :: "phoenix_note list"
  sk_max_fee :: u64
  sk_deposit :: u64

record phoenix_fee =
  pf_gas_limit :: u64
  pf_gas_price :: u64
  pf_stealth_address :: stealth_address
  pf_sender :: sender

record phoenix_payload =
  pp_chain_id :: u8
  pp_tx_skeleton :: tx_skeleton
  pp_fee :: phoenix_fee
  pp_data :: "transaction_data option"

record phoenix_transaction =
  pt_payload :: phoenix_payload
  pt_proof :: bytes

record note_leaf =
  nl_block_height :: u64
  nl_note :: phoenix_note

section \<open>Accessors\<close>

definition pt_nullifiers :: "phoenix_transaction \<Rightarrow> bls_scalar list" where
  "pt_nullifiers tx = sk_nullifiers (pp_tx_skeleton (pt_payload tx))"

definition pt_root :: "phoenix_transaction \<Rightarrow> bls_scalar" where
  "pt_root tx = sk_root (pp_tx_skeleton (pt_payload tx))"

definition pt_outputs :: "phoenix_transaction \<Rightarrow> phoenix_note list" where
  "pt_outputs tx = sk_outputs (pp_tx_skeleton (pt_payload tx))"

definition pt_fee :: "phoenix_transaction \<Rightarrow> phoenix_fee" where
  "pt_fee tx = pp_fee (pt_payload tx)"

definition pt_stealth_address :: "phoenix_transaction \<Rightarrow> stealth_address" where
  "pt_stealth_address tx = pf_stealth_address (pp_fee (pt_payload tx))"

definition pt_sender :: "phoenix_transaction \<Rightarrow> sender" where
  "pt_sender tx = pf_sender (pp_fee (pt_payload tx))"

definition pt_gas_limit :: "phoenix_transaction \<Rightarrow> u64" where
  "pt_gas_limit tx = pf_gas_limit (pp_fee (pt_payload tx))"

definition pt_gas_price :: "phoenix_transaction \<Rightarrow> u64" where
  "pt_gas_price tx = pf_gas_price (pp_fee (pt_payload tx))"

definition pt_chain_id :: "phoenix_transaction \<Rightarrow> u8" where
  "pt_chain_id tx = pp_chain_id (pt_payload tx)"

definition pt_max_fee :: "phoenix_transaction \<Rightarrow> u64" where
  "pt_max_fee tx = sk_max_fee (pp_tx_skeleton (pt_payload tx))"

definition pt_deposit :: "phoenix_transaction \<Rightarrow> u64" where
  "pt_deposit tx = sk_deposit (pp_tx_skeleton (pt_payload tx))"

definition pt_call :: "phoenix_transaction \<Rightarrow> contract_call option" where
  "pt_call tx = data_call (pp_data (pt_payload tx))"

definition pt_deploy :: "phoenix_transaction \<Rightarrow> contract_deploy option" where
  "pt_deploy tx = data_deploy (pp_data (pt_payload tx))"

definition pt_memo :: "phoenix_transaction \<Rightarrow> bytes option" where
  "pt_memo tx = data_memo (pp_data (pt_payload tx))"

definition pt_strip_off_bytecode :: "phoenix_transaction \<Rightarrow> phoenix_transaction option" where
  "pt_strip_off_bytecode tx =
     (case pt_deploy tx of
        None \<Rightarrow> None
      | Some d \<Rightarrow> Some (tx\<lparr>pt_payload := (pt_payload tx)\<lparr>pp_data := Some (strip_deploy d)\<rparr>\<rparr>))"

section \<open>The fee\<close>

text \<open>Both products are release-mode arithmetic of \<open>dusk-core\<close>: they wrap.\<close>

definition fee_max_fee :: "phoenix_fee \<Rightarrow> u64" where
  "fee_max_fee f = pf_gas_limit f * pf_gas_price f"

definition remainder_value :: "phoenix_fee \<Rightarrow> u64 \<Rightarrow> u64 option \<Rightarrow> u64" where
  "remainder_value f gas_consumed deposit =
     (let gas_consumed = min gas_consumed (pf_gas_limit f);
          gas_changes = (pf_gas_limit f - gas_consumed) * pf_gas_price f
      in gas_changes + (case deposit of None \<Rightarrow> 0 | Some d \<Rightarrow> d))"

definition gen_remainder_note :: "host \<Rightarrow> phoenix_fee \<Rightarrow> u64 \<Rightarrow> u64 option \<Rightarrow> phoenix_note" where
  "gen_remainder_note h f gas_consumed deposit =
     h_transparent_stealth h (pf_stealth_address f) (remainder_value f gas_consumed deposit)
       (pf_sender f)"

definition fee_to_bytes :: "wire \<Rightarrow> phoenix_fee \<Rightarrow> bytes" where
  "fee_to_bytes w f =
     w_u64_to_bytes w (pf_gas_limit f) @ w_u64_to_bytes w (pf_gas_price f)
     @ w_stealth_to_bytes w (pf_stealth_address f) @ w_sender_to_bytes w (pf_sender f)"

definition fee_from_bytes :: "wire \<Rightarrow> bytes \<Rightarrow> bytes_error + phoenix_fee" where
  "fee_from_bytes w reader =
     res_bind (w_u64_from_reader w reader) (\<lambda>(gas_limit, reader).
     res_bind (w_u64_from_reader w reader) (\<lambda>(gas_price, reader).
     res_bind (w_stealth_from_reader w reader) (\<lambda>(refund_address, reader).
     res_bind (w_sender_from_reader w reader) (\<lambda>(sender, reader).
       Inr \<lparr>pf_gas_limit = gas_limit, pf_gas_price = gas_price,
            pf_stealth_address = refund_address, pf_sender = sender\<rparr>))))"

lemma remainder_value_unat:
  assumes "unat (pf_gas_limit f) * unat (pf_gas_price f)
             + (case deposit of None \<Rightarrow> 0 | Some d \<Rightarrow> unat d) < 2 ^ 64"
    and "gas \<le> pf_gas_limit f"
  shows "unat (remainder_value f gas deposit) =
           (unat (pf_gas_limit f) - unat gas) * unat (pf_gas_price f)
             + (case deposit of None \<Rightarrow> 0 | Some d \<Rightarrow> unat d)"
proof -
  define rest where "rest = pf_gas_limit f - gas"
  have rest: "unat rest = unat (pf_gas_limit f) - unat gas"
    using assms(2) by (simp add: rest_def unat_sub_le)
  then have "unat rest * unat (pf_gas_price f) \<le> unat (pf_gas_limit f) * unat (pf_gas_price f)"
    by (intro mult_right_mono) simp_all
  then have bound: "unat rest * unat (pf_gas_price f)
      + (case deposit of None \<Rightarrow> 0 | Some d \<Rightarrow> unat d) < 2 ^ 64"
    using assms(1) by linarith
  then have prod: "unat (rest * pf_gas_price f) = unat rest * unat (pf_gas_price f)"
    by (intro unat_mult_no_wrap) simp
  have "remainder_value f gas deposit
      = rest * pf_gas_price f + (case deposit of None \<Rightarrow> 0 | Some d \<Rightarrow> d)"
    using assms(2) by (simp add: remainder_value_def min_absorb1 rest_def Let_def)
  with bound prod rest show ?thesis
    by (cases deposit) (simp_all add: unat_add_no_wrap)
qed

section \<open>Wire format\<close>

text \<open>
  Decoding a Phoenix transaction slices buffers with lengths it has read from them; a slice out
  of range panics, so a decoder has three outcomes.
\<close>

datatype slice_error = BytesErr bytes_error | SlicePanic

definition slice_res :: "bytes_error + 'a \<Rightarrow> slice_error + 'a" where
  "slice_res r = (case r of Inl e \<Rightarrow> Inl (BytesErr e) | Inr x \<Rightarrow> Inr x)"

lemma slice_res_simps [simp]:
  "slice_res (Inl e) = Inl (BytesErr e)"
  "slice_res (Inr x) = Inr x"
  by (simp_all add: slice_res_def)

text \<open>\<open>&buf[n..]\<close> and \<open>&buf[..n]\<close>.\<close>

definition slice_from :: "nat \<Rightarrow> bytes \<Rightarrow> slice_error + bytes" where
  "slice_from n buf = (if length buf < n then Inl SlicePanic else Inr (drop n buf))"

definition slice_to :: "nat \<Rightarrow> bytes \<Rightarrow> slice_error + bytes" where
  "slice_to n buf = (if length buf < n then Inl SlicePanic else Inr (take n buf))"

record phoenix_wire =
  pw_skeleton_to_var_bytes :: "tx_skeleton \<Rightarrow> bytes"
  pw_skeleton_from_slice :: "bytes \<Rightarrow> bytes_error + tx_skeleton"
  pw_skeleton_hash_bytes :: "tx_skeleton \<Rightarrow> bytes"
  pw_fee_from_reader :: "bytes \<Rightarrow> bytes_error + (phoenix_fee \<times> bytes)"

definition pp_to_var_bytes :: "wire \<Rightarrow> phoenix_wire \<Rightarrow> phoenix_payload \<Rightarrow> bytes" where
  "pp_to_var_bytes w pw p =
     (let skeleton_bytes = pw_skeleton_to_var_bytes pw (pp_tx_skeleton p) in
      [pp_chain_id p] @ len_bytes w skeleton_bytes @ skeleton_bytes
      @ fee_to_bytes w (pp_fee p) @ data_to_var_bytes w (pp_data p))"

definition pp_from_slice :: "wire \<Rightarrow> phoenix_wire \<Rightarrow> bytes \<Rightarrow> slice_error + phoenix_payload" where
  "pp_from_slice w pw buf =
     res_bind (slice_res (w_u8_from_reader w buf)) (\<lambda>(chain_id, buf).
     res_bind (slice_res (w_u64_from_reader w buf)) (\<lambda>(n, buf).
     res_bind (slice_res (pw_skeleton_from_slice pw buf)) (\<lambda>tx_skeleton.
     res_bind (slice_from (unat n) buf) (\<lambda>buf.
     res_bind (slice_res (pw_fee_from_reader pw buf)) (\<lambda>(fee, buf).
     res_bind (slice_res (data_from_reader w buf)) (\<lambda>data.
       Inr \<lparr>pp_chain_id = chain_id, pp_tx_skeleton = tx_skeleton, pp_fee = fee,
            pp_data = data\<rparr>))))))"

definition pt_to_var_bytes :: "wire \<Rightarrow> phoenix_wire \<Rightarrow> phoenix_transaction \<Rightarrow> bytes" where
  "pt_to_var_bytes w pw tx =
     (let payload_bytes = pp_to_var_bytes w pw (pt_payload tx) in
      len_bytes w payload_bytes @ payload_bytes @ len_bytes w (pt_proof tx) @ pt_proof tx)"

definition pt_from_slice :: "wire \<Rightarrow> phoenix_wire \<Rightarrow> bytes \<Rightarrow> slice_error + phoenix_transaction" where
  "pt_from_slice w pw buf =
     res_bind (slice_res (w_u64_from_reader w buf)) (\<lambda>(n, buf).
       let payload_len = unat n in
       if length buf < payload_len then Inl (BytesErr InvalidData)
       else
         res_bind (pp_from_slice w pw (take payload_len buf)) (\<lambda>payload.
         res_bind (slice_res (w_u64_from_reader w (drop payload_len buf))) (\<lambda>(m, buf).
         res_bind (slice_to (unat m) buf) (\<lambda>proof.
           Inr \<lparr>pt_payload = payload, pt_proof = proof\<rparr>))))"

definition pp_to_hash_input_bytes :: "phoenix_wire \<Rightarrow> phoenix_payload \<Rightarrow> bytes" where
  "pp_to_hash_input_bytes pw p =
     [pp_chain_id p] @ pw_skeleton_hash_bytes pw (pp_tx_skeleton p) @ data_hash_bytes (pp_data p)"

definition pp_hash :: "host \<Rightarrow> phoenix_wire \<Rightarrow> phoenix_payload \<Rightarrow> bls_scalar" where
  "pp_hash h pw p = h_hash h (pp_to_hash_input_bytes pw p)"

definition pt_to_hash_input_bytes :: "phoenix_wire \<Rightarrow> phoenix_transaction \<Rightarrow> bytes" where
  "pt_to_hash_input_bytes pw tx = pp_to_hash_input_bytes pw (pt_payload tx) @ pt_proof tx"

text \<open>
  What \<open>phoenix-core\<close> and the trait method \<open>from_reader\<close> promise for the values of a payload:
  reading back what was written.
\<close>

definition phoenix_wire_laws :: "wire \<Rightarrow> phoenix_wire \<Rightarrow> phoenix_payload \<Rightarrow> bool" where
  "phoenix_wire_laws w pw p \<longleftrightarrow>
     (\<forall>rest. pw_skeleton_from_slice pw (pw_skeleton_to_var_bytes pw (pp_tx_skeleton p) @ rest)
              = Inr (pp_tx_skeleton p)) \<and>
     (\<forall>rest. pw_fee_from_reader pw (fee_to_bytes w (pp_fee p) @ rest) = Inr (pp_fee p, rest))"

lemma phoenix_payload_roundtrip:
  assumes "wire_laws w" and "phoenix_wire_laws w pw p" and "data_wf (pp_data p)"
    and "short (pw_skeleton_to_var_bytes pw (pp_tx_skeleton p))"
  shows "pp_from_slice w pw (pp_to_var_bytes w pw p) = Inr p"
  using assms unat_length_short [OF assms(4)] data_roundtrip [OF assms(1,3)]
  by (simp add: pp_from_slice_def pp_to_var_bytes_def Let_def wire_lawsD len_bytes_def
      slice_from_def phoenix_wire_laws_def)

section \<open>Public inputs\<close>

definition sender_inputs :: "host \<Rightarrow> phoenix_note \<Rightarrow> bls_scalar list res" where
  "sender_inputs h n =
     (case h_note_sender h n of
        Encryption cs \<Rightarrow> Inr cs
      | ContractInfo _ \<Rightarrow> Inl (Panic ''All output-notes must provide a sender-encryption''))"

fun all_sender_inputs :: "host \<Rightarrow> phoenix_note list \<Rightarrow> bls_scalar list res" where
  "all_sender_inputs h [] = Inr []"
| "all_sender_inputs h (n # ns) =
     res_bind (sender_inputs h n) (\<lambda>xs. res_map ((@) xs) (all_sender_inputs h ns))"

definition pt_public_inputs ::
    "host \<Rightarrow> phoenix_wire \<Rightarrow> phoenix_transaction \<Rightarrow> bls_scalar list res" where
  "pt_public_inputs h pw tx =
     (let s = pp_tx_skeleton (pt_payload tx) in
      res_map
        (\<lambda>senders.
           [pp_hash h pw (pt_payload tx), sk_root s] @ sk_nullifiers s
           @ concat (map (\<lambda>n. case h_note_value_commitment h n of (u, v) \<Rightarrow> [u, v]) (sk_outputs s))
           @ [h_scalar_of_u64 h (sk_max_fee s), h_scalar_of_u64 h (sk_deposit s)]
           @ concat (map (\<lambda>n. case h_note_pk_coords h (h_note_pk h (h_note_stealth_address h n)) of
                                (u, v) \<Rightarrow> [u, v]) (sk_outputs s))
           @ senders)
        (all_sender_inputs h (sk_outputs s)))"

text \<open>The fee of a Phoenix transaction is no part of what its proof is verified against.\<close>

lemma public_inputs_fee_irrelevant:
  "pt_public_inputs h pw (tx\<lparr>pt_payload := (pt_payload tx)\<lparr>pp_fee := f\<rparr>\<rparr>) = pt_public_inputs h pw tx"
  by (simp add: pt_public_inputs_def pp_hash_def pp_to_hash_input_bytes_def Let_def)

section \<open>Round trip and truncation\<close>

definition fee_reader :: "wire \<Rightarrow> bytes \<Rightarrow> bytes_error + (phoenix_fee \<times> bytes)" where
  "fee_reader w reader =
     res_bind (w_u64_from_reader w reader) (\<lambda>(gas_limit, reader).
     res_bind (w_u64_from_reader w reader) (\<lambda>(gas_price, reader).
     res_bind (w_stealth_from_reader w reader) (\<lambda>(refund_address, reader).
     res_bind (w_sender_from_reader w reader) (\<lambda>(sender, reader).
       Inr (\<lparr>pf_gas_limit = gas_limit, pf_gas_price = gas_price,
             pf_stealth_address = refund_address, pf_sender = sender\<rparr>, reader)))))"

definition phoenix_wire0 :: phoenix_wire where
  "phoenix_wire0 = \<lparr>
     pw_skeleton_to_var_bytes = (\<lambda>s. case sk_root s of BlsScalar x \<Rightarrow> to_le_bytes x),
     pw_skeleton_from_slice =
       (\<lambda>buf. Inr \<lparr>sk_root = BlsScalar (from_le_bytes (take 8 buf)), sk_nullifiers = [],
                   sk_outputs = [], sk_max_fee = 0, sk_deposit = 0\<rparr>),
     pw_skeleton_hash_bytes = (\<lambda>s. case sk_root s of BlsScalar x \<Rightarrow> to_le_bytes x),
     pw_fee_from_reader = fee_reader wire0 \<rparr>"

definition sample_phoenix :: phoenix_transaction where
  "sample_phoenix =
     \<lparr>pt_payload =
        \<lparr>pp_chain_id = 1,
         pp_tx_skeleton = \<lparr>sk_root = BlsScalar 6, sk_nullifiers = [], sk_outputs = [],
                           sk_max_fee = 0, sk_deposit = 0\<rparr>,
         pp_fee = \<lparr>pf_gas_limit = 10, pf_gas_price = 1, pf_stealth_address = StealthAddress 4,
                   pf_sender = ContractInfo []\<rparr>,
         pp_data = Some (Memo [7, 7])\<rparr>,
      pt_proof = [1, 2, 3]\<rparr>"

lemma sample_phoenix_ok:
  "phoenix_wire_laws wire0 phoenix_wire0 (pt_payload sample_phoenix)"
  "data_wf (pp_data (pt_payload sample_phoenix))"
  "short (pw_skeleton_to_var_bytes phoenix_wire0 (pp_tx_skeleton (pt_payload sample_phoenix)))"
  "short (pp_to_var_bytes wire0 phoenix_wire0 (pt_payload sample_phoenix))"
  "short (pt_proof sample_phoenix)"
  by (simp_all add: phoenix_wire_laws_def phoenix_wire0_def sample_phoenix_def wire0_def
      fee_to_bytes_def fee_reader_def le_reader_append data_wf_def MAX_MEMO_SIZE_def short_def
      pp_to_var_bytes_def data_to_var_bytes_def len_bytes_def)

text \<open>
  A Phoenix transaction survives the wire.
\<close>

theorem phoenix_roundtrip:
  assumes "wire_laws w" and "phoenix_wire_laws w pw (pt_payload tx)" and "data_wf (pp_data (pt_payload tx))"
    and "short (pw_skeleton_to_var_bytes pw (pp_tx_skeleton (pt_payload tx)))"
    and "short (pp_to_var_bytes w pw (pt_payload tx))" and "short (pt_proof tx)"
  shows "pt_from_slice w pw (pt_to_var_bytes w pw tx) = Inr tx"
  using assms phoenix_payload_roundtrip [OF assms(1-4)] unat_length_short [OF assms(5)]
    unat_length_short [OF assms(6)]
  by (simp add: pt_from_slice_def pt_to_var_bytes_def Let_def wire_lawsD len_bytes_def slice_to_def)

theorem phoenix_roundtrip_witness:
  "pt_from_slice wire0 phoenix_wire0 (pt_to_var_bytes wire0 phoenix_wire0 sample_phoenix)
   = Inr sample_phoenix"
  by (rule phoenix_roundtrip [OF wire0_laws sample_phoenix_ok])

text \<open>
  Decoding is not total: a transaction whose proof is cut short makes \<open>from_slice\<close> panic on the
  slice of the proof instead of returning a decoding error.
\<close>

theorem phoenix_truncated_proof_panics:
  assumes "wire_laws w" and "phoenix_wire_laws w pw (pt_payload tx)" and "data_wf (pp_data (pt_payload tx))"
    and "short (pw_skeleton_to_var_bytes pw (pp_tx_skeleton (pt_payload tx)))"
    and "short (pp_to_var_bytes w pw (pt_payload tx))" and "short (pt_proof tx)"
    and "0 < k" and "k \<le> length (pt_proof tx)"
  shows "pt_from_slice w pw
           (take (length (pt_to_var_bytes w pw tx) - k) (pt_to_var_bytes w pw tx)) = Inl SlicePanic"
proof -
  define pb where "pb = pp_to_var_bytes w pw (pt_payload tx)"
  define pr where "pr = take (length (pt_proof tx) - k) (pt_proof tx)"
  have cut: "take (length (pt_to_var_bytes w pw tx) - k) (pt_to_var_bytes w pw tx) =
      len_bytes w pb @ pb @ len_bytes w (pt_proof tx) @ pr"
    using assms(8) by (simp add: pt_to_var_bytes_def Let_def pb_def pr_def)
  have "length pr < length (pt_proof tx)" using assms(7,8) by (simp add: pr_def)
  with assms phoenix_payload_roundtrip [OF assms(1-4)] unat_length_short [OF assms(5)]
    unat_length_short [OF assms(6)] show ?thesis
    unfolding cut by (simp add: pt_from_slice_def Let_def wire_lawsD len_bytes_def slice_to_def pb_def)
qed

theorem phoenix_truncated_proof_panics_witness:
  "pt_from_slice wire0 phoenix_wire0
     (take (length (pt_to_var_bytes wire0 phoenix_wire0 sample_phoenix) - 1)
        (pt_to_var_bytes wire0 phoenix_wire0 sample_phoenix)) = Inl SlicePanic"
  by (rule phoenix_truncated_proof_panics [OF wire0_laws sample_phoenix_ok])
     (simp_all add: sample_phoenix_def)

end
