(* ===== verification/Core_Transfer.thy ===== *)
theory Core_Transfer
  imports Core_Phoenix
begin

text \<open>
  The shared types of the transfer contract: withdrawals (\<^verbatim>\<open>core/src/transfer/withdraw.rs\<close>), the
  transaction sum type, contract-to-contract payloads and event data
  (\<^verbatim>\<open>core/src/transfer.rs\<close>).
\<close>

section \<open>Withdrawals\<close>

datatype withdraw_receiver = PhoenixReceiver stealth_address | MoonlightReceiver bls_public_key

datatype withdraw_replay_token = PhoenixToken "bls_scalar list" | MoonlightToken u64

datatype withdraw_signature = PhoenixSig schnorr_signature | MoonlightSig bls_signature

record withdraw =
  wd_contract :: contract_id
  wd_value :: u64
  wd_receiver :: withdraw_receiver
  wd_token :: withdraw_replay_token
  wd_signature :: withdraw_signature

definition wd_signature_message :: "wire \<Rightarrow> withdraw \<Rightarrow> bytes" where
  "wd_signature_message w d =
     wd_contract d
     @ w_u64_to_bytes w (wd_value d)
     @ (case wd_receiver d of
          PhoenixReceiver address \<Rightarrow> w_stealth_to_bytes w address
        | MoonlightReceiver account \<Rightarrow> w_pk_to_bytes w account)
     @ (case wd_token d of
          PhoenixToken nullifiers \<Rightarrow> concat (map (w_scalar_to_bytes w) nullifiers)
        | MoonlightToken nonce \<Rightarrow> w_u64_to_bytes w nonce)"

definition wd_sig_to_var_bytes :: "wire \<Rightarrow> withdraw_signature \<Rightarrow> bytes" where
  "wd_sig_to_var_bytes w s =
     (case s of PhoenixSig s \<Rightarrow> w_schnorr_to_bytes w s | MoonlightSig s \<Rightarrow> w_sig_to_bytes w s)"

definition wd_wrapped_signature_message :: "wire \<Rightarrow> withdraw \<Rightarrow> bytes" where
  "wd_wrapped_signature_message w d =
     wd_signature_message w d @ wd_sig_to_var_bytes w (wd_signature d)"

text \<open>The signing key of a withdrawal, seen through its signing function.\<close>

datatype withdraw_secret_key =
    PhoenixKey "bls_scalar \<Rightarrow> schnorr_signature"
  | MoonlightKey "bytes \<Rightarrow> bls_signature"

definition wd_new ::
    "wire \<Rightarrow> host \<Rightarrow> withdraw_secret_key \<Rightarrow> contract_id \<Rightarrow> u64 \<Rightarrow> withdraw_receiver
     \<Rightarrow> withdraw_replay_token \<Rightarrow> bls_signature \<Rightarrow> withdraw res" where
  "wd_new w h sk contract value receiver token default_sig =
     (let d = \<lparr>wd_contract = contract, wd_value = value, wd_receiver = receiver, wd_token = token,
               wd_signature = MoonlightSig default_sig\<rparr>;
          msg = wd_signature_message w d
      in case (sk, receiver) of
           (PhoenixKey _, MoonlightReceiver _) \<Rightarrow> Inl (Panic ''Moonlight receiver with phoenix signer'')
         | (MoonlightKey _, PhoenixReceiver _) \<Rightarrow> Inl (Panic ''Phoenix receiver with moonlight signer'')
         | (PhoenixKey sign, _) \<Rightarrow> Inr (d\<lparr>wd_signature := PhoenixSig (sign (h_hash h msg))\<rparr>)
         | (MoonlightKey sign, _) \<Rightarrow> Inr (d\<lparr>wd_signature := MoonlightSig (sign msg)\<rparr>))"

section \<open>Transactions\<close>

datatype transaction = Phoenix phoenix_transaction | Moonlight moonlight_transaction

definition tx_moonlight_sender :: "transaction \<Rightarrow> bls_public_key option" where
  "tx_moonlight_sender tx = (case tx of Phoenix _ \<Rightarrow> None | Moonlight t \<Rightarrow> Some (mt_sender t))"

definition tx_moonlight_receiver :: "transaction \<Rightarrow> bls_public_key option" where
  "tx_moonlight_receiver tx = (case tx of Phoenix _ \<Rightarrow> None | Moonlight t \<Rightarrow> mt_receiver t)"

definition tx_value :: "transaction \<Rightarrow> u64 option" where
  "tx_value tx = (case tx of Phoenix _ \<Rightarrow> None | Moonlight t \<Rightarrow> Some (mt_value t))"

definition tx_nullifiers :: "transaction \<Rightarrow> bls_scalar list" where
  "tx_nullifiers tx = (case tx of Phoenix t \<Rightarrow> pt_nullifiers t | Moonlight _ \<Rightarrow> [])"

definition tx_root :: "transaction \<Rightarrow> bls_scalar option" where
  "tx_root tx = (case tx of Phoenix t \<Rightarrow> Some (pt_root t) | Moonlight _ \<Rightarrow> None)"

definition tx_outputs :: "transaction \<Rightarrow> phoenix_note list" where
  "tx_outputs tx = (case tx of Phoenix t \<Rightarrow> pt_outputs t | Moonlight _ \<Rightarrow> [])"

definition tx_phoenix_sender :: "transaction \<Rightarrow> sender option" where
  "tx_phoenix_sender tx = (case tx of Phoenix t \<Rightarrow> Some (pt_sender t) | Moonlight _ \<Rightarrow> None)"

definition tx_deposit :: "transaction \<Rightarrow> u64" where
  "tx_deposit tx = (case tx of Phoenix t \<Rightarrow> pt_deposit t | Moonlight t \<Rightarrow> mt_deposit t)"

definition tx_gas_limit :: "transaction \<Rightarrow> u64" where
  "tx_gas_limit tx = (case tx of Phoenix t \<Rightarrow> pt_gas_limit t | Moonlight t \<Rightarrow> mt_gas_limit t)"

definition tx_gas_price :: "transaction \<Rightarrow> u64" where
  "tx_gas_price tx = (case tx of Phoenix t \<Rightarrow> pt_gas_price t | Moonlight t \<Rightarrow> mt_gas_price t)"

datatype refund_address = PhoenixRefund stealth_address | MoonlightRefund bls_public_key

definition tx_refund_address :: "transaction \<Rightarrow> refund_address" where
  "tx_refund_address tx =
     (case tx of
        Phoenix t \<Rightarrow> PhoenixRefund (pt_stealth_address t)
      | Moonlight t \<Rightarrow> MoonlightRefund (mt_refund_address t))"

definition tx_call :: "transaction \<Rightarrow> contract_call option" where
  "tx_call tx = (case tx of Phoenix t \<Rightarrow> pt_call t | Moonlight t \<Rightarrow> mt_call t)"

definition tx_deploy :: "transaction \<Rightarrow> contract_deploy option" where
  "tx_deploy tx = (case tx of Phoenix t \<Rightarrow> pt_deploy t | Moonlight t \<Rightarrow> mt_deploy t)"

definition tx_memo :: "transaction \<Rightarrow> bytes option" where
  "tx_memo tx = (case tx of Phoenix t \<Rightarrow> pt_memo t | Moonlight t \<Rightarrow> mt_memo t)"

definition tx_strip_off_bytecode :: "transaction \<Rightarrow> transaction option" where
  "tx_strip_off_bytecode tx =
     (case tx of
        Phoenix t \<Rightarrow> map_option Phoenix (pt_strip_off_bytecode t)
      | Moonlight t \<Rightarrow> map_option Moonlight (mt_strip_off_bytecode t))"

definition tx_to_var_bytes :: "wire \<Rightarrow> phoenix_wire \<Rightarrow> transaction \<Rightarrow> bytes" where
  "tx_to_var_bytes w pw tx =
     (case tx of
        Phoenix t \<Rightarrow> 0 # pt_to_var_bytes w pw t
      | Moonlight t \<Rightarrow> 1 # mt_to_var_bytes w t)"

definition tx_from_slice ::
    "wire \<Rightarrow> phoenix_wire \<Rightarrow> nat \<Rightarrow> bytes \<Rightarrow> slice_error + transaction" where
  "tx_from_slice w pw sig_size buf =
     res_bind (slice_res (w_u8_from_reader w buf)) (\<lambda>(tag, buf).
       if tag = 0 then res_map Phoenix (pt_from_slice w pw buf)
       else if tag = 1 then res_map Moonlight (slice_res (mt_from_slice w sig_size buf))
       else Inl (BytesErr InvalidData))"

text \<open>The product is release-mode arithmetic of \<open>dusk-core\<close>.\<close>

definition tx_deploy_charge :: "transaction \<Rightarrow> u64 \<Rightarrow> u64 \<Rightarrow> u64" where
  "tx_deploy_charge tx gas_per_deploy_byte min_deploy_points =
     (case tx_deploy tx of
        Some d \<Rightarrow>
          max (of_nat (length (bc_bytes (cd_bytecode d))) * gas_per_deploy_byte) min_deploy_points
      | None \<Rightarrow> 0)"

section \<open>Payloads and events\<close>

record contract_to_contract_arg =
  c2c_contract :: contract_id
  c2c_value :: u64
  c2c_fn_name :: bytes
  c2c_data :: bytes

record receive_from_contract =
  rc_contract :: contract_id
  rc_value :: u64
  rc_data :: bytes

record contract_to_account_arg =
  c2a_account :: bls_public_key
  c2a_value :: u64

record withdraw_event =
  we_sender :: contract_id
  we_receiver :: withdraw_receiver
  we_value :: u64

definition withdraw_event_from :: "withdraw \<Rightarrow> withdraw_event" where
  "withdraw_event_from w =
     \<lparr>we_sender = wd_contract w, we_receiver = wd_receiver w, we_value = wd_value w\<rparr>"

record convert_event =
  ce_sender :: "bls_public_key option"
  ce_receiver :: withdraw_receiver
  ce_value :: u64

definition from_withdraw_and_sender :: "bls_public_key option \<Rightarrow> withdraw \<Rightarrow> convert_event" where
  "from_withdraw_and_sender s w =
     \<lparr>ce_sender = s, ce_receiver = wd_receiver w, ce_value = wd_value w\<rparr>"

record deposit_event =
  de_sender :: "bls_public_key option"
  de_receiver :: contract_id
  de_value :: u64

record contract_to_contract_event =
  c2ce_sender :: contract_id
  c2ce_receiver :: contract_id
  c2ce_value :: u64

record contract_to_account_event =
  c2ae_sender :: contract_id
  c2ae_receiver :: bls_public_key
  c2ae_value :: u64

record phoenix_transaction_event =
  pte_nullifiers :: "bls_scalar list"
  pte_notes :: "phoenix_note list"
  pte_memo :: bytes
  pte_gas_spent :: u64
  pte_refund_note :: "phoenix_note option"

record moonlight_transaction_event =
  mte_sender :: bls_public_key
  mte_receiver :: "bls_public_key option"
  mte_value :: u64
  mte_memo :: bytes
  mte_gas_spent :: u64
  mte_refund_info :: "(bls_public_key \<times> u64) option"

section \<open>Facts\<close>

lemma tx_strip_off_bytecode_call:
  "tx_strip_off_bytecode tx = Some tx' \<Longrightarrow> tx_call tx' = None \<and> tx_call tx = None"
  by (cases tx)
     (auto simp: tx_strip_off_bytecode_def pt_strip_off_bytecode_def mt_strip_off_bytecode_def
       tx_call_def pt_call_def mt_call_def pt_deploy_def mt_deploy_def data_call_def
       data_deploy_def strip_deploy_def split: option.splits transaction_data.splits)

lemma data_hash_bytes_strip [simp]:
  "data_hash_bytes (Some (strip_deploy d)) = data_hash_bytes (Some (Deploy d))"
  by (simp add: data_hash_bytes_def strip_deploy_def bytecode_to_hash_input_bytes_def)

text \<open>
  Stripping the bytecode of a deployment leaves the transaction's identity and economics alone:
  the signed message (Moonlight), the payload hash input (Phoenix), gas, deposit and value are
  those of the full transaction, so the stripped copy passed to the transfer contract verifies
  against the original signature.
\<close>

theorem strip_off_bytecode_preserves:
  assumes "tx_strip_off_bytecode tx = Some tx'"
  shows "tx_gas_limit tx' = tx_gas_limit tx \<and> tx_gas_price tx' = tx_gas_price tx
    \<and> tx_deposit tx' = tx_deposit tx \<and> tx_value tx' = tx_value tx
    \<and> tx_nullifiers tx' = tx_nullifiers tx \<and> tx_refund_address tx' = tx_refund_address tx
    \<and> (case (tx, tx') of
           (Moonlight t, Moonlight t') \<Rightarrow> mt_signature_message w t' = mt_signature_message w t
         | (Phoenix t, Phoenix t') \<Rightarrow>
             pt_to_hash_input_bytes pw t' = pt_to_hash_input_bytes pw t
         | _ \<Rightarrow> False)"
  using assms
  by (cases tx)
     (auto simp: tx_strip_off_bytecode_def pt_strip_off_bytecode_def mt_strip_off_bytecode_def
        tx_gas_limit_def tx_gas_price_def tx_deposit_def tx_value_def tx_nullifiers_def
        tx_refund_address_def pt_gas_limit_def pt_gas_price_def pt_deposit_def pt_nullifiers_def
        pt_stealth_address_def mt_gas_limit_def mt_gas_price_def mt_deposit_def mt_value_def
        mt_refund_address_def mt_signature_message_def payload_signature_message_def
        pt_to_hash_input_bytes_def pp_to_hash_input_bytes_def pt_deploy_def mt_deploy_def
        data_deploy_def split: option.splits transaction_data.splits)

theorem strip_off_bytecode_preserves_witness:
  "tx_strip_off_bytecode (Moonlight sample_deploy_tx) =
     Some (Moonlight (sample_deploy_tx\<lparr>mt_payload :=
       (mt_payload sample_deploy_tx)\<lparr>mp_data := Some (strip_deploy sample_deploy)\<rparr>\<rparr>)) \<and>
   tx_gas_limit (Moonlight (sample_deploy_tx\<lparr>mt_payload :=
       (mt_payload sample_deploy_tx)\<lparr>mp_data := Some (strip_deploy sample_deploy)\<rparr>\<rparr>)) =
   tx_gas_limit (Moonlight sample_deploy_tx)"
proof -
  have s: "tx_strip_off_bytecode (Moonlight sample_deploy_tx) =
     Some (Moonlight (sample_deploy_tx\<lparr>mt_payload :=
       (mt_payload sample_deploy_tx)\<lparr>mp_data := Some (strip_deploy sample_deploy)\<rparr>\<rparr>))"
    by (simp add: tx_strip_off_bytecode_def mt_strip_off_bytecode_def mt_deploy_def data_deploy_def
        sample_deploy_tx_def)
  with strip_off_bytecode_preserves [OF s] show ?thesis by simp
qed

lemma moonlight_tx_decodes:
  assumes "wire_laws w"
    and "data_wf (mp_data (mt_payload tx))"
    and "short (payload_to_var_bytes w (mt_payload tx))"
    and "length (w_sig_to_bytes w (mt_signature tx)) = sig_size"
  shows "tx_from_slice w pw sig_size (tx_to_var_bytes w pw (Moonlight tx)) = Inr (Moonlight tx)"
proof -
  have "mt_from_slice w sig_size (mt_to_var_bytes w tx) = Inr tx"
    using assms payload_roundtrip_aux [OF assms(1,2)] unat_length_short [OF assms(3)]
    by (simp add: mt_from_slice_def mt_to_var_bytes_def Let_def wire_lawsD len_bytes_def)
  with assms(1) show ?thesis by (simp add: tx_from_slice_def tx_to_var_bytes_def wire_lawsD)
qed

text \<open>
  The tagged transaction encoding round-trips for Moonlight transactions, and a byte string
  whose first byte is neither tag is refused.
\<close>

theorem transaction_roundtrip:
  assumes "wire_laws w"
    and "data_wf (mp_data (mt_payload tx))"
    and "short (payload_to_var_bytes w (mt_payload tx))"
    and "length (w_sig_to_bytes w (mt_signature tx)) = sig_size"
  shows "tx_from_slice w pw sig_size (tx_to_var_bytes w pw (Moonlight tx)) = Inr (Moonlight tx)
       \<and> (b \<noteq> 0 \<longrightarrow> b \<noteq> 1 \<longrightarrow> tx_from_slice w pw sig_size (b # rest) = Inl (BytesErr InvalidData))"
  using moonlight_tx_decodes [OF assms] assms(1) by (simp add: tx_from_slice_def wire_lawsD)

theorem transaction_roundtrip_witness:
  "tx_from_slice wire0 phoenix_wire0 8 (tx_to_var_bytes wire0 phoenix_wire0
      (Moonlight \<lparr>mt_payload = sample_payload, mt_signature = BlsSignature 3\<rparr>)) =
    Inr (Moonlight \<lparr>mt_payload = sample_payload, mt_signature = BlsSignature 3\<rparr>)
   \<and> tx_from_slice wire0 phoenix_wire0 8 [2] = Inl (BytesErr InvalidData)"
  using transaction_roundtrip [OF wire0_laws, of
      "\<lparr>mt_payload = sample_payload, mt_signature = BlsSignature 3\<rparr>" 8 phoenix_wire0 2 "[]"]
    sample_payload_wf sample_payload_short
  by (simp add: wire0_def)

end
