(* ===== verification/Core_Stake.thy ===== *)
theory Core_Stake
  imports Core_Transfer
begin

text \<open>
  The types of the stake contract, from \<^verbatim>\<open>core/src/stake.rs\<close>, with their operations.  This is
  code of \<open>dusk-core\<close>: its arithmetic wraps, so \<open>total_funds\<close> and \<open>lock_amount\<close> are plain word
  operations, and the facts about them carry the bounds under which nothing wraps.
\<close>

definition EPOCH :: u64 where
  "EPOCH = 2160"

definition DEFAULT_STAKE_WARNINGS :: u8 where
  "DEFAULT_STAKE_WARNINGS = 1"

text \<open>\<open>dusk(1_000.0)\<close>: a thousand Dusk of \<open>10 ^ 9\<close> Lux each.\<close>

definition DEFAULT_MINIMUM_STAKE :: u64 where
  "DEFAULT_MINIMUM_STAKE = 1000000000000"

record stake_config =
  sc_warnings :: u8
  sc_minimum_stake :: u64

definition stake_config_new :: stake_config where
  "stake_config_new =
     \<lparr>sc_warnings = DEFAULT_STAKE_WARNINGS, sc_minimum_stake = DEFAULT_MINIMUM_STAKE\<rparr>"

definition next_epoch :: "u64 \<Rightarrow> u64" where
  "next_epoch block_height =
     (let to_next_epoch = EPOCH - (block_height mod EPOCH) in block_height + to_next_epoch)"

section \<open>Keys and requests\<close>

datatype stake_fund_owner = Account bls_public_key | Contract contract_id

record stake_keys =
  sk_account :: bls_public_key
  sk_owner :: stake_fund_owner

definition stake_keys_single_key :: "bls_public_key \<Rightarrow> stake_keys" where
  "stake_keys_single_key account = \<lparr>sk_account = account, sk_owner = Account account\<rparr>"

record double_signature =
  ds_account :: bls_signature
  ds_owner :: bls_signature

record stake_request =
  st_chain_id :: u8
  st_keys :: stake_keys
  st_value :: u64
  st_signature :: double_signature

text \<open>
  A fixed-size message: chain id, account key, a slot of the key's size holding the owner key or
  the contract identifier padded with zeros, and the value.
\<close>

definition stake_signature_message :: "wire \<Rightarrow> stake_request \<Rightarrow> bytes" where
  "stake_signature_message w s =
     [st_chain_id s]
     @ w_pk_to_bytes w (sk_account (st_keys s))
     @ (case sk_owner (st_keys s) of
          Account key \<Rightarrow> w_pk_to_bytes w key
        | Contract cid \<Rightarrow> cid @ replicate (w_pk_size w - CONTRACT_ID_BYTES) 0)
     @ w_u64_to_bytes w (st_value s)"

definition stake_new ::
    "wire \<Rightarrow> bls_public_key \<Rightarrow> (bytes \<Rightarrow> bls_signature) \<Rightarrow> bls_public_key \<Rightarrow> (bytes \<Rightarrow> bls_signature)
     \<Rightarrow> bls_signature \<Rightarrow> u64 \<Rightarrow> u8 \<Rightarrow> stake_request" where
  "stake_new w account account_sign owner owner_sign default_sig value chain_id =
     (let s = \<lparr>st_chain_id = chain_id, st_keys = \<lparr>sk_account = account, sk_owner = Account owner\<rparr>,
               st_value = value,
               st_signature = \<lparr>ds_account = default_sig, ds_owner = default_sig\<rparr>\<rparr>;
          msg = stake_signature_message w s
      in s\<lparr>st_signature := \<lparr>ds_account = account_sign msg, ds_owner = owner_sign msg\<rparr>\<rparr>)"

definition stake_new_from_contract ::
    "wire \<Rightarrow> bls_public_key \<Rightarrow> (bytes \<Rightarrow> bls_signature) \<Rightarrow> contract_id \<Rightarrow> bls_signature
     \<Rightarrow> u64 \<Rightarrow> u8 \<Rightarrow> stake_request" where
  "stake_new_from_contract w key sign contract default_sig value chain_id =
     (let s = \<lparr>st_chain_id = chain_id, st_keys = \<lparr>sk_account = key, sk_owner = Contract contract\<rparr>,
               st_value = value,
               st_signature = \<lparr>ds_account = default_sig, ds_owner = default_sig\<rparr>\<rparr>;
          msg = stake_signature_message w s
      in s\<lparr>st_signature := \<lparr>ds_account = sign msg, ds_owner = sign msg\<rparr>\<rparr>)"

record withdraw_to_contract =
  wtc_account :: bls_public_key
  wtc_value :: u64
  wtc_fn_name :: bytes
  wtc_data :: bytes

record stake_withdraw =
  sw_account :: bls_public_key
  sw_withdraw :: withdraw
  sw_signature :: double_signature

definition stake_withdraw_signature_message :: "wire \<Rightarrow> stake_withdraw \<Rightarrow> bytes" where
  "stake_withdraw_signature_message w s =
     w_pk_to_bytes w (sw_account s) @ wd_wrapped_signature_message w (sw_withdraw s)"

definition stake_withdraw_new ::
    "wire \<Rightarrow> bls_public_key \<Rightarrow> (bytes \<Rightarrow> bls_signature) \<Rightarrow> (bytes \<Rightarrow> bls_signature)
     \<Rightarrow> bls_signature \<Rightarrow> withdraw \<Rightarrow> stake_withdraw" where
  "stake_withdraw_new w account account_sign owner_sign default_sig wd =
     (let s = \<lparr>sw_account = account, sw_withdraw = wd,
               sw_signature = \<lparr>ds_account = default_sig, ds_owner = default_sig\<rparr>\<rparr>;
          msg = stake_withdraw_signature_message w s
      in s\<lparr>sw_signature := \<lparr>ds_account = account_sign msg, ds_owner = owner_sign msg\<rparr>\<rparr>)"

section \<open>Events\<close>

record stake_event =
  se_keys :: stake_keys
  se_value :: u64
  se_locked :: u64

definition stake_event_new :: "stake_keys \<Rightarrow> u64 \<Rightarrow> stake_event" where
  "stake_event_new keys value = \<lparr>se_keys = keys, se_value = value, se_locked = 0\<rparr>"

definition stake_event_locked :: "u64 \<Rightarrow> stake_event \<Rightarrow> stake_event" where
  "stake_event_locked locked e = e\<lparr>se_locked := locked\<rparr>"

record slash_event =
  sl_account :: bls_public_key
  sl_value :: u64
  sl_next_eligibility :: u64

datatype reward_reason = GeneratorFixed | GeneratorExtra | Voter | Other

record reward_arg =
  rw_account :: bls_public_key
  rw_value :: u64
  rw_reason :: reward_reason

section \<open>Stakes\<close>

record stake_amount =
  am_value :: u64
  am_locked :: u64
  am_eligibility :: u64

definition eligibility_from_height :: "u64 \<Rightarrow> u64" where
  "eligibility_from_height block_height = next_epoch block_height + EPOCH"

definition amount_with_eligibility :: "u64 \<Rightarrow> u64 \<Rightarrow> stake_amount" where
  "amount_with_eligibility value eligibility =
     \<lparr>am_value = value, am_locked = 0, am_eligibility = eligibility\<rparr>"

definition amount_new :: "u64 \<Rightarrow> u64 \<Rightarrow> stake_amount" where
  "amount_new value block_height =
     amount_with_eligibility value (eligibility_from_height block_height)"

definition lock_amount :: "u64 \<Rightarrow> stake_amount \<Rightarrow> stake_amount" where
  "lock_amount n a = a\<lparr>am_value := am_value a - n, am_locked := am_locked a + n\<rparr>"

definition total_funds :: "stake_amount \<Rightarrow> u64" where
  "total_funds a = am_value a + am_locked a"

record stake_data =
  sd_amount :: "stake_amount option"
  sd_reward :: u64
  sd_faults :: u8
  sd_hard_faults :: u8

definition stake_data_EMPTY :: stake_data where
  "stake_data_EMPTY = \<lparr>sd_amount = None, sd_reward = 0, sd_faults = 0, sd_hard_faults = 0\<rparr>"

definition stake_data_with_eligibility :: "u64 \<Rightarrow> u64 \<Rightarrow> u64 \<Rightarrow> stake_data" where
  "stake_data_with_eligibility value reward eligibility =
     \<lparr>sd_amount = (if value = 0 then None
                   else Some \<lparr>am_value = value, am_locked = 0, am_eligibility = eligibility\<rparr>),
      sd_reward = reward, sd_faults = 0, sd_hard_faults = 0\<rparr>"

definition stake_data_new :: "u64 \<Rightarrow> u64 \<Rightarrow> u64 \<Rightarrow> stake_data" where
  "stake_data_new value reward block_height =
     stake_data_with_eligibility value reward (eligibility_from_height block_height)"

definition stake_is_valid :: "u64 \<Rightarrow> stake_data \<Rightarrow> bool" where
  "stake_is_valid block_height s =
     (case sd_amount s of Some a \<Rightarrow> am_eligibility a \<le> block_height | None \<Rightarrow> False)"

definition stake_is_empty :: "stake_data \<Rightarrow> bool" where
  "stake_is_empty s =
     (let stake = (case sd_amount s of Some a \<Rightarrow> total_funds a | None \<Rightarrow> 0)
      in sd_reward s + stake = 0)"

section \<open>Facts\<close>

text \<open>The funds of a stake as a number, and the range in which the word sum is that number.\<close>

definition amount_funds :: "stake_amount \<Rightarrow> nat" where
  "amount_funds a = unat (am_value a) + unat (am_locked a)"

definition stake_funds :: "stake_data \<Rightarrow> nat" where
  "stake_funds s = opt_val amount_funds (sd_amount s)"

lemma total_funds_unat:
  "amount_funds a < 2 ^ 64 \<Longrightarrow> unat (total_funds a) = amount_funds a"
  by (simp add: total_funds_def amount_funds_def unat_add_no_wrap)

lemma lock_amount_funds:
  "n \<le> am_value a \<Longrightarrow> amount_funds a < 2 ^ 64 \<Longrightarrow> amount_funds (lock_amount n a) = amount_funds a"
proof -
  assume n: "n \<le> am_value a" and a: "amount_funds a < 2 ^ 64"
  from n have nu: "unat n \<le> unat (am_value a)" by (simp add: word_le_nat_alt)
  with a have "unat (am_locked a) + unat n < 2 ^ LENGTH(64)" by (simp add: amount_funds_def)
  then have "unat (am_locked a + n) = unat (am_locked a) + unat n" by (rule unat_add_no_wrap)
  with nu n show ?thesis by (simp add: lock_amount_def amount_funds_def unat_sub_le)
qed

lemma lock_amount_eligibility [simp]: "am_eligibility (lock_amount n a) = am_eligibility a"
  by (simp add: lock_amount_def)

lemma stake_funds_simps [simp]:
  "stake_funds (s\<lparr>sd_amount := None\<rparr>) = 0"
  "stake_funds (s\<lparr>sd_amount := Some a\<rparr>) = amount_funds a"
  "stake_funds (s\<lparr>sd_reward := r\<rparr>) = stake_funds s"
  "stake_funds (s\<lparr>sd_faults := f\<rparr>) = stake_funds s"
  "stake_funds (s\<lparr>sd_hard_faults := f\<rparr>) = stake_funds s"
  "stake_funds stake_data_EMPTY = 0"
  by (simp_all add: stake_funds_def stake_data_EMPTY_def)

lemma amount_new_funds [simp]: "amount_funds (amount_new v bh) = unat v"
  by (simp add: amount_funds_def amount_new_def amount_with_eligibility_def)

lemma unat_EPOCH: "unat EPOCH = 2160"
  by (simp add: EPOCH_def)

lemma next_epoch_unat_aux:
  assumes "unat bh + 2160 < 2 ^ 64"
  shows "unat (next_epoch bh) = (unat bh div 2160 + 1) * 2160"
proof -
  define m where "m = unat bh mod 2160"
  have um: "unat (bh mod EPOCH) = m"
    by (simp add: m_def unat_mod_distrib unat_EPOCH)
  have m: "m < 2160" by (simp add: m_def)
  then have "bh mod EPOCH \<le> EPOCH" by (simp add: word_le_nat_alt um unat_EPOCH)
  then have d: "unat (EPOCH - bh mod EPOCH) = 2160 - m"
    by (simp add: unat_sub_le um unat_EPOCH)
  with assms m have "unat (next_epoch bh) = unat bh + (2160 - m)"
    unfolding next_epoch_def Let_def by (subst unat_add_no_wrap) simp_all
  moreover obtain q where q: "unat bh div 2160 = q" by simp
  moreover from q have "unat bh = q * 2160 + m" unfolding m_def by (metis div_mult_mod_eq)
  ultimately show ?thesis using m by simp
qed

text \<open>
  Epoch arithmetic: away from the end of the \<open>u64\<close> range, the next epoch starts at the first
  multiple of \<open>EPOCH\<close> strictly after the given height, and a stake made at a height becomes
  eligible one full epoch after that.
\<close>

theorem next_epoch_spec:
  assumes "unat bh + 2 * 2160 < 2 ^ 64"
  shows "unat (next_epoch bh) mod 2160 = 0 \<and> unat bh < unat (next_epoch bh)
         \<and> unat (next_epoch bh) \<le> unat bh + 2160
         \<and> unat (eligibility_from_height bh) = unat (next_epoch bh) + 2160"
proof -
  have ne: "unat (next_epoch bh) = (unat bh div 2160 + 1) * 2160"
    using assms by (intro next_epoch_unat_aux) simp
  obtain q m where qm: "unat bh div 2160 = q" "unat bh mod 2160 = m" by simp
  have b: "unat bh = q * 2160 + m" using qm by (metis div_mult_mod_eq)
  have m: "m < 2160" using qm by (metis mod_less_divisor zero_less_numeral)
  have le: "unat (next_epoch bh) \<le> unat bh + 2160" using ne b qm by simp
  then have "unat (eligibility_from_height bh) = unat (next_epoch bh) + 2160"
    unfolding eligibility_from_height_def
    using assms by (subst unat_add_no_wrap) (simp_all add: unat_EPOCH)
  with ne b m le qm show ?thesis by simp
qed

theorem next_epoch_spec_witness:
  "unat (100 :: u64) + 2 * 2160 < 2 ^ 64 \<and> unat (next_epoch 100) mod 2160 = 0"
  using next_epoch_spec [of 100] by simp

end
