(* ===== verification/Contract_World.thy ===== *)
theory Contract_World
  imports Core_Stake
begin

text \<open>
  The memory of the genesis contracts while a transaction executes, and the calls they make to
  contracts whose code is not part of the repository.

  \<open>tworld\<close> is what the transfer contract reads and writes: its state, the transitory data of the
  transaction being executed (\<^verbatim>\<open>contracts/transfer/src/transitory.rs\<close>) and the events emitted so
  far.  It is an extensible record: the stake contract adds its own state to it, and every
  operation of the transfer contract is polymorphic in the extension.  A panic anywhere aborts the
  call and the VM discards the changes, so an operation maps a world to a result.
\<close>

section \<open>Note tree\<close>

record note_tree =
  nt_tree :: "(u64 \<times> bls_scalar) list"
  nt_leaves :: "note_leaf list"

definition note_tree_new :: note_tree where
  "note_tree_new = \<lparr>nt_tree = [], nt_leaves = []\<rparr>"

definition tree_push :: "host \<Rightarrow> note_leaf \<Rightarrow> note_tree \<Rightarrow> phoenix_note option \<times> note_tree" where
  "tree_push h leaf t =
     (if h_note_value h (nl_note leaf) = Some 0 then (None, t)
      else
        let pos = of_nat (length (nt_leaves t));
            n = h_note_set_pos h pos (nl_note leaf);
            hash = h_poseidon_hash h (h_note_hash_inputs h n)
        in (Some n, \<lparr>nt_tree = nt_tree t @ [(pos, hash)],
                     nt_leaves = nt_leaves t @ [leaf\<lparr>nl_note := n\<rparr>]\<rparr>))"

fun tree_extend_notes ::
    "host \<Rightarrow> u64 \<Rightarrow> phoenix_note list \<Rightarrow> note_tree \<Rightarrow> phoenix_note list \<times> note_tree" where
  "tree_extend_notes h block_height [] t = ([], t)"
| "tree_extend_notes h block_height (n # ns) t =
     (let (pushed, t1) = tree_push h \<lparr>nl_block_height = block_height, nl_note = n\<rparr> t;
          (rest, t2) = tree_extend_notes h block_height ns t1
      in (case pushed of None \<Rightarrow> rest | Some m \<Rightarrow> m # rest, t2))"

definition tree_root :: "host \<Rightarrow> note_tree \<Rightarrow> bls_scalar" where
  "tree_root h t = h_tree_root h (nt_tree t)"

definition tree_leaves :: "u64 \<Rightarrow> note_tree \<Rightarrow> note_leaf list" where
  "tree_leaves block_height t = dropWhile (\<lambda>l. nl_block_height l < block_height) (nt_leaves t)"

text \<open>\<open>pos as usize\<close> on \<open>wasm32\<close>: the low 32 bits.\<close>

definition as_usize :: "u64 \<Rightarrow> nat" where
  "as_usize x = unat x mod 2 ^ 32"

definition tree_leaves_pos :: "u64 \<Rightarrow> note_tree \<Rightarrow> note_leaf list" where
  "tree_leaves_pos pos t =
     (if length (nt_leaves t) < as_usize pos then [] else drop (as_usize pos) (nt_leaves t))"

definition tree_opening :: "host \<Rightarrow> u64 \<Rightarrow> note_tree \<Rightarrow> bytes option" where
  "tree_opening h pos t = h_tree_opening h (nt_tree t) pos"

definition tree_leaves_len :: "note_tree \<Rightarrow> u64" where
  "tree_leaves_len t = of_nat (length (nt_leaves t))"

section \<open>The transaction being executed\<close>

datatype deposit =
    Available "bls_public_key option" contract_id u64
  | Taken "bls_public_key option" contract_id u64
  | NoDeposit

definition deposit_set_taken :: "deposit \<Rightarrow> deposit" where
  "deposit_set_taken d = (case d of Available s t v \<Rightarrow> Taken s t v | other \<Rightarrow> other)"

record ongoing_transaction =
  og_tx :: transaction
  og_deposit :: deposit
  og_notes :: "phoenix_note list"

section \<open>State\<close>

record transfer_state =
  tf_tree :: note_tree
  tf_nullifiers :: "(bls_scalar, unit) btree_map"
  tf_roots :: "bls_scalar list"
  tf_accounts :: "(bytes, account_data) btree_map"
  tf_contract_balances :: "(contract_id, u64) btree_map"

definition transfer_state_new :: transfer_state where
  "transfer_state_new =
     \<lparr>tf_tree = note_tree_new, tf_nullifiers = bm_empty, tf_roots = [], tf_accounts = bm_empty,
      tf_contract_balances = bm_empty\<rparr>"

datatype contract_event =
    MintEvent withdraw_event
  | MintContractEvent contract_to_contract_event
  | WithdrawEvent withdraw_event
  | ConvertEvent convert_event
  | DepositEvent deposit_event
  | ContractToContractEvent contract_to_contract_event
  | ContractToAccountEvent contract_to_account_event
  | PhoenixEvent phoenix_transaction_event
  | MoonlightEvent moonlight_transaction_event
  | StakeEvent stake_event
  | UnstakeEvent stake_event
  | StakeWithdrawEvent stake_event
  | RewardEvent "reward_arg list"
  | SlashEvent slash_event
  | HardSlashEvent slash_event

record tworld =
  tw_state :: transfer_state
  tw_current_tx :: "ongoing_transaction option"
  tw_events :: "contract_event list"

definition emit :: "contract_event \<Rightarrow> 'r tworld_scheme \<Rightarrow> 'r tworld_scheme" where
  "emit e w = w\<lparr>tw_events := tw_events w @ [e]\<rparr>"

definition set_accounts :: "(bytes, account_data) btree_map \<Rightarrow> 'r tworld_scheme \<Rightarrow> 'r tworld_scheme" where
  "set_accounts m w = w\<lparr>tw_state := (tw_state w)\<lparr>tf_accounts := m\<rparr>\<rparr>"

definition set_balances :: "(contract_id, u64) btree_map \<Rightarrow> 'r tworld_scheme \<Rightarrow> 'r tworld_scheme" where
  "set_balances m w = w\<lparr>tw_state := (tw_state w)\<lparr>tf_contract_balances := m\<rparr>\<rparr>"

definition set_tree :: "note_tree \<Rightarrow> 'r tworld_scheme \<Rightarrow> 'r tworld_scheme" where
  "set_tree t w = w\<lparr>tw_state := (tw_state w)\<lparr>tf_tree := t\<rparr>\<rparr>"

definition set_deposit :: "deposit \<Rightarrow> 'r tworld_scheme \<Rightarrow> 'r tworld_scheme" where
  "set_deposit d w = w\<lparr>tw_current_tx := map_option (\<lambda>og. og\<lparr>og_deposit := d\<rparr>) (tw_current_tx w)\<rparr>"

abbreviation accounts :: "'r tworld_scheme \<Rightarrow> (bytes, account_data) btree_map" where
  "accounts w \<equiv> tf_accounts (tw_state w)"

abbreviation balances :: "'r tworld_scheme \<Rightarrow> (contract_id, u64) btree_map" where
  "balances w \<equiv> tf_contract_balances (tw_state w)"

section \<open>Calls to other contracts\<close>

text \<open>
  \<open>abi::call\<close> of a receiving contract, as the transfer contract makes it, and \<open>abi::call_raw\<close> of
  the contract a transaction targets.  A raw call reports the callee's error instead of panicking.
\<close>

datatype contract_error = CEPanic string | OutOfGas | CEUnknown

record 'w ext =
  x_call :: "contract_id \<Rightarrow> bytes \<Rightarrow> receive_from_contract \<Rightarrow> 'w \<Rightarrow> 'w res"
  x_call_raw :: "contract_id \<Rightarrow> bytes \<Rightarrow> bytes \<Rightarrow> 'w \<Rightarrow> (contract_error + bytes) \<times> 'w"

section \<open>Lemmas on the state\<close>

lemma set_simps [simp]:
  "tw_state (set_accounts m w) = (tw_state w)\<lparr>tf_accounts := m\<rparr>"
  "tw_state (set_balances b w) = (tw_state w)\<lparr>tf_contract_balances := b\<rparr>"
  "tw_state (set_tree t w) = (tw_state w)\<lparr>tf_tree := t\<rparr>"
  "tw_state (set_deposit d w) = tw_state w"
  "tw_state (emit e w) = tw_state w"
  "tw_current_tx (set_accounts m w) = tw_current_tx w"
  "tw_current_tx (set_balances b w) = tw_current_tx w"
  "tw_current_tx (set_tree t w) = tw_current_tx w"
  "tw_current_tx (emit e w) = tw_current_tx w"
  "tworld.more (set_accounts m w) = tworld.more w"
  "tworld.more (set_balances b w) = tworld.more w"
  "tworld.more (set_tree t w) = tworld.more w"
  "tworld.more (set_deposit d w) = tworld.more w"
  "tworld.more (emit e w) = tworld.more w"
  by (simp_all add: set_accounts_def set_balances_def set_tree_def set_deposit_def emit_def)

lemma set_deposit_current [simp]:
  "tw_current_tx (set_deposit d w) = map_option (\<lambda>og. og\<lparr>og_deposit := d\<rparr>) (tw_current_tx w)"
  by (simp add: set_deposit_def)

section \<open>Tree facts\<close>

text \<open>The vector of leaves and the merkle tree advance together, and positions are indices.\<close>

definition tree_inv :: "host \<Rightarrow> note_tree \<Rightarrow> bool" where
  "tree_inv h t \<longleftrightarrow>
     map fst (nt_tree t) = map of_nat [0..<length (nt_leaves t)] \<and>
     map snd (nt_tree t) = map (\<lambda>l. h_poseidon_hash h (h_note_hash_inputs h (nl_note l))) (nt_leaves t)
     \<and> (\<forall>l \<in> set (nt_leaves t). h_note_value h (nl_note l) \<noteq> Some 0)"

lemma tree_inv_new: "tree_inv h note_tree_new"
  by (simp add: tree_inv_def note_tree_new_def)

lemma tree_push_inv:
  assumes "note_laws h" and "tree_inv h t"
  shows "tree_inv h (snd (tree_push h leaf t))"
  using assms by (auto simp: tree_push_def tree_inv_def note_laws_def Let_def)

lemma tree_extend_inv:
  assumes "note_laws h"
  shows "tree_inv h t \<Longrightarrow> tree_inv h (snd (tree_extend_notes h bh ns t))"
proof (induction ns arbitrary: t)
  case (Cons n ns)
  then have "tree_inv h (snd (tree_extend_notes h bh ns
      (snd (tree_push h \<lparr>nl_block_height = bh, nl_note = n\<rparr> t))))"
    by (intro Cons.IH tree_push_inv [OF assms])
  then show ?case by (simp add: Let_def split_beta)
qed simp

lemma tree_push_leaves:
  "nt_leaves (snd (tree_push h leaf t)) =
     nt_leaves t @ (case fst (tree_push h leaf t) of
                      None \<Rightarrow> [] | Some n \<Rightarrow> [leaf\<lparr>nl_note := n\<rparr>])"
  by (simp add: tree_push_def Let_def)

lemma tree_extend_leaves:
  "nt_leaves (snd (tree_extend_notes h bh ns t)) =
     nt_leaves t @ map (\<lambda>n. \<lparr>nl_block_height = bh, nl_note = n\<rparr>) (fst (tree_extend_notes h bh ns t))"
proof (induction ns arbitrary: t)
  case (Cons n ns)
  show ?case
    using Cons [of "snd (tree_push h \<lparr>nl_block_height = bh, nl_note = n\<rparr> t)"]
      tree_push_leaves [of h "\<lparr>nl_block_height = bh, nl_note = n\<rparr>" t]
    by (auto simp: Let_def split: prod.splits option.splits)
qed simp

lemma dropWhile_sorted_filter:
  "sorted (map f xs) \<Longrightarrow> dropWhile (\<lambda>x. f x < (b :: 'b::linorder)) xs = filter (\<lambda>x. b \<le> f x) xs"
proof (induction xs)
  case (Cons x xs)
  show ?case
  proof (cases "f x < b")
    case True
    with Cons show ?thesis by simp
  next
    case False
    with Cons.prems have "\<forall>y \<in> set (x # xs). b \<le> f y" by (auto simp: not_less dest: order_trans)
    then have "filter (\<lambda>y. b \<le> f y) (x # xs) = x # xs" by (intro filter_True)
    with False show ?thesis by simp
  qed
qed simp

text \<open>
  Appending the outputs of a transaction to the note tree keeps the tree well formed: the n-th
  inserted hash is the hash of the n-th leaf, at position n, and no stored note is a transparent
  note of value 0.  The leaves already there are untouched and exactly the returned notes follow.
\<close>

theorem extend_notes_correct:
  assumes "note_laws h" and "tree_inv h t"
  shows "tree_inv h (snd (tree_extend_notes h bh ns t)) \<and>
         nt_leaves (snd (tree_extend_notes h bh ns t)) =
           nt_leaves t @ map (\<lambda>n. \<lparr>nl_block_height = bh, nl_note = n\<rparr>)
             (fst (tree_extend_notes h bh ns t))"
  using tree_extend_inv [OF assms(1)] assms(2) tree_extend_leaves by blast

text \<open>
  When notes were appended in block order, \<open>leaves\<close> (a scan that stops skipping at the first
  leaf of the given height) returns every leaf of that height or a later one.
\<close>

theorem tree_leaves_from_height:
  assumes "sorted (map nl_block_height (nt_leaves t))"
  shows "tree_leaves bh t = filter (\<lambda>l. bh \<le> nl_block_height l) (nt_leaves t)"
  unfolding tree_leaves_def by (rule dropWhile_sorted_filter [OF assms])

definition host0 :: host where
  "host0 = \<lparr>
     h_block_height = 5000, h_chain_id = 1,
     h_verify_bls = (\<lambda>_ _ _. True), h_verify_schnorr = (\<lambda>_ _ _. True),
     h_verify_plonk = (\<lambda>_ _ _. True), h_hash = (\<lambda>_. BlsScalar 0),
     h_poseidon_hash = (\<lambda>_. BlsScalar 0), h_scalar_of_u64 = BlsScalar,
     h_pk_is_valid = (\<lambda>_. True),
     h_pk_to_raw_bytes = (\<lambda>k. case k of BlsPublicKey x \<Rightarrow> [ucast x]),
     h_note_pk = (\<lambda>a. case a of StealthAddress x \<Rightarrow> NotePublicKey x),
     h_note_pk_coords = (\<lambda>k. case k of NotePublicKey x \<Rightarrow> (BlsScalar x, BlsScalar x)),
     h_transparent_stealth = (\<lambda>a v s. NoteRepr [v, 0]),
     h_note_value = (\<lambda>n. case n of NoteRepr (v # _) \<Rightarrow> Some v | _ \<Rightarrow> None),
     h_note_set_pos = (\<lambda>p n. case n of NoteRepr [v, _] \<Rightarrow> NoteRepr [v, p] | _ \<Rightarrow> n),
     h_note_hash_inputs = (\<lambda>_. []),
     h_note_value_commitment = (\<lambda>_. (BlsScalar 0, BlsScalar 0)),
     h_note_stealth_address = (\<lambda>_. StealthAddress 0),
     h_note_sender = (\<lambda>_. Encryption []),
     h_tree_root = (\<lambda>xs. BlsScalar (of_nat (length xs))),
     h_tree_opening = (\<lambda>_ _. None),
     h_roots_contains = (\<lambda>xs r. r \<in> set xs),
     h_vd_1_2 = [1], h_vd_2_2 = [2], h_vd_3_2 = [3], h_vd_4_2 = [4] \<rparr>"

lemma host0_note_laws: "note_laws host0"
  by (auto simp: note_laws_def host0_def split: phoenix_note.splits list.splits)

theorem extend_notes_correct_witness:
  "tree_inv host0 (snd (tree_extend_notes host0 3 [NoteRepr [7, 0]] note_tree_new)) \<and>
   nt_leaves (snd (tree_extend_notes host0 3 [NoteRepr [7, 0]] note_tree_new)) =
     nt_leaves note_tree_new @ map (\<lambda>n. \<lparr>nl_block_height = 3, nl_note = n\<rparr>)
       (fst (tree_extend_notes host0 3 [NoteRepr [7, 0]] note_tree_new))"
  by (rule extend_notes_correct [OF host0_note_laws tree_inv_new])

theorem tree_leaves_from_height_witness:
  "tree_leaves 2 \<lparr>nt_tree = [], nt_leaves = [\<lparr>nl_block_height = 1, nl_note = NoteRepr []\<rparr>]\<rparr> =
   filter (\<lambda>l. 2 \<le> nl_block_height l) [\<lparr>nl_block_height = 1, nl_note = NoteRepr []\<rparr>]"
  using tree_leaves_from_height
    [of "\<lparr>nt_tree = [], nt_leaves = [\<lparr>nl_block_height = 1, nl_note = NoteRepr []\<rparr>]\<rparr>" 2]
  by simp

end
