(* ===== verification/Transfer_Contract.thy ===== *)
theory Transfer_Contract
  imports Contract_World
begin

text \<open>
  The transfer contract, \<^verbatim>\<open>contracts/transfer/src\<close>: transitory data, the state operations of
  \<^verbatim>\<open>state.rs\<close> and the entry points of \<^verbatim>\<open>lib.rs\<close> with their caller checks.  The crate is compiled
  with overflow checks, so its own arithmetic is \<open>add_chk\<close>, \<open>sub_chk\<close> and \<open>mul_chk\<close>.

  \<open>caller\<close> is \<open>abi::caller()\<close>: \<open>None\<close> for a call from outside the VM.
\<close>

definition MAX_ROOTS :: nat where
  "MAX_ROOTS = 2 * 2160"

definition EMPTY_ACCOUNT :: account_data where
  "EMPTY_ACCOUNT = \<lparr>acc_nonce = 0, acc_balance = 0\<rparr>"

definition contract_fn_sender :: "bytes \<Rightarrow> contract_id \<Rightarrow> sender" where
  "contract_fn_sender fn_name contract =
     ContractInfo (fn_name @ contract @ replicate (128 - (length fn_name + 32)) 0)"

section \<open>Transitory data\<close>

definition put_transaction :: "transaction \<Rightarrow> 'r tworld_scheme \<Rightarrow> 'r tworld_scheme res" where
  "put_transaction tx w =
     (let sender = tx_moonlight_sender tx; value = tx_deposit tx in
      res_bind
        (if value > 0 then
           res_map (\<lambda>c. Available sender (cc_contract c) value)
             (expect ''There must be a contract when depositing funds'' (tx_call tx))
         else Inr NoDeposit)
        (\<lambda>deposit. Inr (w\<lparr>tw_current_tx :=
             Some \<lparr>og_tx = tx, og_deposit = deposit, og_notes = []\<rparr>\<rparr>)))"

definition take_ongoing :: "'r tworld_scheme \<Rightarrow> (ongoing_transaction \<times> 'r tworld_scheme) res" where
  "take_ongoing w =
     res_map (\<lambda>og. (og, w\<lparr>tw_current_tx := None\<rparr>))
       (expect ''There must be an ongoing transaction'' (tw_current_tx w))"

definition transitory_push_note :: "phoenix_note \<Rightarrow> 'r tworld_scheme \<Rightarrow> 'r tworld_scheme res" where
  "transitory_push_note n w =
     res_map (\<lambda>og. w\<lparr>tw_current_tx := Some (og\<lparr>og_notes := og_notes og @ [n]\<rparr>)\<rparr>)
       (expect ''There must be an ongoing transaction'' (tw_current_tx w))"

definition current_transaction :: "'r tworld_scheme \<Rightarrow> transaction res" where
  "current_transaction w =
     res_map og_tx (expect ''There must be an ongoing transaction'' (tw_current_tx w))"

definition current_moonlight :: "'r tworld_scheme \<Rightarrow> moonlight_transaction res" where
  "current_moonlight w =
     res_bind (current_transaction w) (\<lambda>tx. case tx of
        Moonlight t \<Rightarrow> Inr t
      | _ \<Rightarrow> Inl (Panic ''Expected Moonlight TX, found Phoenix''))"

definition current_phoenix :: "'r tworld_scheme \<Rightarrow> phoenix_transaction res" where
  "current_phoenix w =
     res_bind (current_transaction w) (\<lambda>tx. case tx of
        Phoenix t \<Rightarrow> Inr t
      | _ \<Rightarrow> Inl (Panic ''Expected Phoenix TX, found Moonlight''))"

definition deposit_info :: "'r tworld_scheme \<Rightarrow> deposit res" where
  "deposit_info w =
     res_map og_deposit (expect ''There must be an ongoing transaction'' (tw_current_tx w))"

section \<open>Accounts, balances and notes\<close>

text \<open>\<open>entry(key).or_insert(EMPTY_ACCOUNT)\<close> followed by \<open>account.balance += value\<close>.\<close>

definition credit_account :: "bytes \<Rightarrow> u64 \<Rightarrow> 'r tworld_scheme \<Rightarrow> 'r tworld_scheme res" where
  "credit_account key value w =
     (let a = bm_get_or EMPTY_ACCOUNT (accounts w) key in
      res_map (\<lambda>b. set_accounts (bm_insert key (a\<lparr>acc_balance := b\<rparr>) (accounts w)) w)
        (add_chk (acc_balance a) value))"

text \<open>\<open>entry(contract).or_insert(0)\<close> followed by \<open>*balance += value\<close>.\<close>

definition credit_contract :: "contract_id \<Rightarrow> u64 \<Rightarrow> 'r tworld_scheme \<Rightarrow> 'r tworld_scheme res" where
  "credit_contract contract value w =
     res_map (\<lambda>b. set_balances (bm_insert contract b (balances w)) w)
       (add_chk (bm_get_or 0 (balances w) contract) value)"

definition contract_balance :: "contract_id \<Rightarrow> 'r tworld_scheme \<Rightarrow> u64" where
  "contract_balance contract w = bm_get_or 0 (balances w) contract"

definition account :: "host \<Rightarrow> bls_public_key \<Rightarrow> 'r tworld_scheme \<Rightarrow> account_data" where
  "account h key w = bm_get_or EMPTY_ACCOUNT (accounts w) (h_pk_to_raw_bytes h key)"

definition add_account_balance ::
    "host \<Rightarrow> bls_public_key \<Rightarrow> u64 \<Rightarrow> 'r tworld_scheme \<Rightarrow> 'r tworld_scheme" where
  "add_account_balance h key value w =
     (let k = h_pk_to_raw_bytes h key; a = bm_get_or EMPTY_ACCOUNT (accounts w) k in
      set_accounts
        (bm_insert k (a\<lparr>acc_balance := saturating_add (acc_balance a) value\<rparr>) (accounts w)) w)"

definition sub_account_balance ::
    "host \<Rightarrow> bls_public_key \<Rightarrow> u64 \<Rightarrow> 'r tworld_scheme \<Rightarrow> 'r tworld_scheme" where
  "sub_account_balance h key value w =
     (let k = h_pk_to_raw_bytes h key in
      case bm_get (accounts w) k of
        Some a \<Rightarrow> set_accounts
          (bm_insert k (a\<lparr>acc_balance := saturating_sub (acc_balance a) value\<rparr>) (accounts w)) w
      | None \<Rightarrow> w)"

definition add_contract_balance ::
    "contract_id \<Rightarrow> u64 \<Rightarrow> 'r tworld_scheme \<Rightarrow> 'r tworld_scheme res" where
  "add_contract_balance contract value w =
     (case bm_get (balances w) contract of
        None \<Rightarrow> Inr (set_balances (bm_insert contract value (balances w)) w)
      | Some v \<Rightarrow>
          res_map (\<lambda>b. set_balances (bm_insert contract b (balances w)) w) (add_chk v value))"

datatype transfer_error = NotEnoughBalance

definition sub_contract_balance ::
    "contract_id \<Rightarrow> u64 \<Rightarrow> 'r tworld_scheme \<Rightarrow> transfer_error + 'r tworld_scheme" where
  "sub_contract_balance address value w =
     (case bm_get (balances w) address of
        Some balance \<Rightarrow>
          (if balance < value then Inl NotEnoughBalance
           else Inr (set_balances (bm_insert address (balance - value) (balances w)) w))
      | None \<Rightarrow> Inl NotEnoughBalance)"

definition expect_ok :: "string \<Rightarrow> 'e + 'a \<Rightarrow> 'a res" where
  "expect_ok msg r = (case r of Inl _ \<Rightarrow> Inl (Panic msg) | Inr x \<Rightarrow> Inr x)"

definition push_note ::
    "host \<Rightarrow> u64 \<Rightarrow> phoenix_note \<Rightarrow> 'r tworld_scheme \<Rightarrow> phoenix_note option \<times> 'r tworld_scheme" where
  "push_note h block_height n w =
     (let (r, t) = tree_push h \<lparr>nl_block_height = block_height, nl_note = n\<rparr> (tf_tree (tw_state w))
      in (r, set_tree t w))"

definition push_note_current_height ::
    "host \<Rightarrow> phoenix_note \<Rightarrow> 'r tworld_scheme \<Rightarrow> phoenix_note option \<times> 'r tworld_scheme" where
  "push_note_current_height h n w = push_note h (h_block_height h) n w"

definition root_exists :: "host \<Rightarrow> bls_scalar \<Rightarrow> 'r tworld_scheme \<Rightarrow> bool" where
  "root_exists h root w = h_roots_contains h (tf_roots (tw_state w)) root"

definition update_root :: "host \<Rightarrow> 'r tworld_scheme \<Rightarrow> 'r tworld_scheme" where
  "update_root h w =
     w\<lparr>tw_state := (tw_state w)\<lparr>tf_roots :=
       tf_roots (tw_state w) @ [tree_root h (tf_tree (tw_state w))]\<rparr>\<rparr>"

definition existing_nullifiers :: "bls_scalar list \<Rightarrow> 'r tworld_scheme \<Rightarrow> bls_scalar list" where
  "existing_nullifiers ns w =
     filter (\<lambda>n. bm_get (tf_nullifiers (tw_state w)) n \<noteq> None) ns"

section \<open>Withdrawals\<close>

definition check_token :: "withdraw_replay_token \<Rightarrow> 'r tworld_scheme \<Rightarrow> unit res" where
  "check_token token w =
     (case token of
        PhoenixToken nullifiers \<Rightarrow>
          res_bind (current_phoenix w) (\<lambda>tx.
            ensure (\<forall>n \<in> set (pt_nullifiers tx). n \<in> set nullifiers) ''Incorrect nullifiers signed'')
      | MoonlightToken nonce \<Rightarrow>
          res_bind (current_moonlight w) (\<lambda>tx.
            ensure (nonce = mt_nonce tx) ''Incorrect nonce signed''))"

definition mint_withdrawal ::
    "host \<Rightarrow> wire \<Rightarrow> bytes \<Rightarrow> withdraw \<Rightarrow> 'r tworld_scheme \<Rightarrow> 'r tworld_scheme res" where
  "mint_withdrawal h wr fn_name d w =
     res_bind (check_token (wd_token d) w) (\<lambda>_.
     case wd_receiver d of
       PhoenixReceiver address \<Rightarrow>
         (case wd_signature d of
            PhoenixSig signature \<Rightarrow>
              if \<not> h_verify_schnorr h (h_hash h (wd_signature_message wr d)) (h_note_pk h address) signature
              then Inl (Panic ''Invalid signature'')
              else
                let sender = contract_fn_sender fn_name (wd_contract d);
                    n = h_transparent_stealth h address (wd_value d) sender
                in Inr (snd (push_note_current_height h n w))
          | _ \<Rightarrow> Inl (Panic ''Withdrawal to Phoenix must be signed with Schnorr''))
     | MoonlightReceiver acct \<Rightarrow>
         (case wd_signature d of
            MoonlightSig signature \<Rightarrow>
              if \<not> h_verify_bls h (wd_signature_message wr d) acct signature
              then Inl (Panic ''Invalid signature'')
              else credit_account (h_pk_to_raw_bytes h acct) (wd_value d) w
          | _ \<Rightarrow> Inl (Panic ''Withdrawal to Moonlight must be signed with BLS'')))"

definition mint ::
    "host \<Rightarrow> wire \<Rightarrow> contract_id option \<Rightarrow> withdraw \<Rightarrow> 'r tworld_scheme \<Rightarrow> 'r tworld_scheme res" where
  "mint h wr caller m w =
     res_bind (expect ''Can only be called by the stake contract'' caller) (\<lambda>c.
     if c \<noteq> STAKE_CONTRACT then Inl (Panic ''Can only be called by the stake contract'')
     else if wd_contract m \<noteq> STAKE_CONTRACT then
       Inl (Panic ''Withdrawal should from the stake contract'')
     else
       res_bind (mint_withdrawal h wr (str_bytes ''mint'') m w) (\<lambda>w.
         Inr (emit (MintEvent (withdraw_event_from m)) w)))"

definition mint_to_contract ::
    "'r tworld_scheme ext \<Rightarrow> contract_id option \<Rightarrow> contract_to_contract_arg
     \<Rightarrow> 'r tworld_scheme \<Rightarrow> 'r tworld_scheme res" where
  "mint_to_contract x caller m w =
     res_bind (expect ''Can only be called by the stake contract'' caller) (\<lambda>c.
     if c \<noteq> STAKE_CONTRACT then Inl (Panic ''Can only be called by the stake contract'')
     else
       res_bind (credit_contract (c2c_contract m) (c2c_value m) w) (\<lambda>w.
       res_bind (expect_ok ''Calling receiver should succeed''
           (x_call x (c2c_contract m) (c2c_fn_name m)
              \<lparr>rc_contract = STAKE_CONTRACT, rc_value = c2c_value m, rc_data = c2c_data m\<rparr> w)) (\<lambda>w.
         Inr (emit (MintContractEvent
           \<lparr>c2ce_sender = STAKE_CONTRACT, c2ce_receiver = c2c_contract m, c2ce_value = c2c_value m\<rparr>) w))))"

definition transfer_withdraw ::
    "host \<Rightarrow> wire \<Rightarrow> contract_id option \<Rightarrow> withdraw \<Rightarrow> 'r tworld_scheme \<Rightarrow> 'r tworld_scheme res" where
  "transfer_withdraw h wr caller d w =
     res_bind (expect ''A withdrawal must happen in the context of a transaction'' caller) (\<lambda>c.
     if wd_contract d \<noteq> c then
       Inl (Panic ''The withdraw function can only be called by the specified contract.'')
     else if contract_balance (wd_contract d) w < wd_value d then
       Inl (Panic ''The contract doesn't have enough balance'')
     else
       res_bind (expect_ok ''Subtracting balance from contract should succeed''
           (sub_contract_balance (wd_contract d) (wd_value d) w)) (\<lambda>w.
       res_bind (mint_withdrawal h wr (str_bytes ''withdraw'') d w) (\<lambda>w.
         Inr (emit (WithdrawEvent (withdraw_event_from d)) w))))"

definition convert ::
    "host \<Rightarrow> wire \<Rightarrow> contract_id option \<Rightarrow> withdraw \<Rightarrow> 'r tworld_scheme \<Rightarrow> 'r tworld_scheme res" where
  "convert h wr caller d w =
     res_bind (expect ''A conversion must happen in the context of a transaction'' caller) (\<lambda>c.
     if c \<noteq> TRANSFER_CONTRACT then
       Inl (Panic ''Only the first contract call can be a conversion'')
     else if wd_contract d \<noteq> TRANSFER_CONTRACT then
       Inl (Panic ''The conversion must target the transfer contract'')
     else
       res_bind (deposit_info w) (\<lambda>dep. case dep of
         Available sender target deposit_value \<Rightarrow>
           (if wd_value d \<noteq> deposit_value then
              Inl (Panic ''The value to convert doesn't match the value in the transaction'')
            else
              res_bind (mint_withdrawal h wr (str_bytes ''convert'') d w) (\<lambda>w.
                Inr (emit (ConvertEvent (from_withdraw_and_sender sender d))
                       (set_deposit (deposit_set_taken dep) w))))
       | NoDeposit \<Rightarrow> Inl (Panic ''There is no deposit in the transaction'')
       | Taken _ _ _ \<Rightarrow> Inl (Panic ''internal error: entered unreachable code'')))"

section \<open>Deposits and transfers between contracts\<close>

definition transfer_deposit ::
    "contract_id option \<Rightarrow> u64 \<Rightarrow> 'r tworld_scheme \<Rightarrow> 'r tworld_scheme res" where
  "transfer_deposit caller value w =
     res_bind (expect ''A deposit must happen in the context of a transaction'' caller) (\<lambda>c.
     res_bind (deposit_info w) (\<lambda>dep. case dep of
       Available sender deposit_contract deposit_value \<Rightarrow>
         (if deposit_value \<noteq> value then
            Inl (Panic ''The value to deposit doesn't match the value in the transaction'')
          else if deposit_contract \<noteq> c then
            Inl (Panic ''The calling contract doesn't match the contract in the transaction'')
          else
            res_bind (add_contract_balance deposit_contract deposit_value w) (\<lambda>w.
              Inr (emit (DepositEvent
                     \<lparr>de_sender = sender, de_receiver = deposit_contract, de_value = deposit_value\<rparr>)
                     (set_deposit (deposit_set_taken dep) w))))
     | Taken _ _ _ \<Rightarrow> Inl (Panic ''The deposit has already been taken'')
     | NoDeposit \<Rightarrow> Inl (Panic ''There is no deposit in the transaction'')))"

definition contract_to_contract ::
    "'r tworld_scheme ext \<Rightarrow> contract_id option \<Rightarrow> contract_to_contract_arg
     \<Rightarrow> 'r tworld_scheme \<Rightarrow> 'r tworld_scheme res" where
  "contract_to_contract x caller t w =
     res_bind (expect ''A transfer to a contract must happen in the context of a transaction'' caller)
     (\<lambda>sender_contract.
     if sender_contract = TRANSFER_CONTRACT then
       Inl (Panic ''Cannot be called directly by the transfer contract'')
     else
       res_bind (expect ''Caller must have a balance'' (bm_get (balances w) sender_contract))
       (\<lambda>sender_balance.
       if sender_balance < c2c_value t then Inl (Panic ''Caller must have enough balance'')
       else
         res_bind (sub_chk sender_balance (c2c_value t)) (\<lambda>b.
         res_bind (credit_contract (c2c_contract t) (c2c_value t)
             (set_balances (bm_insert sender_contract b (balances w)) w)) (\<lambda>w.
         res_bind (expect_ok ''Calling receiver should succeed''
             (x_call x (c2c_contract t) (c2c_fn_name t)
                \<lparr>rc_contract = sender_contract, rc_value = c2c_value t, rc_data = c2c_data t\<rparr> w)) (\<lambda>w.
           Inr (emit (ContractToContractEvent
             \<lparr>c2ce_sender = sender_contract, c2ce_receiver = c2c_contract t,
              c2ce_value = c2c_value t\<rparr>) w))))))"

definition contract_to_account ::
    "host \<Rightarrow> contract_id option \<Rightarrow> contract_to_account_arg
     \<Rightarrow> 'r tworld_scheme \<Rightarrow> 'r tworld_scheme res" where
  "contract_to_account h caller t w =
     res_bind (expect ''A transfer to an account must happen in the context of a transaction'' caller)
     (\<lambda>sender_contract.
     if sender_contract = TRANSFER_CONTRACT then
       Inl (Panic ''Cannot be called directly by the transfer contract'')
     else
       res_bind (expect ''Caller must have a balance'' (bm_get (balances w) sender_contract))
       (\<lambda>sender_balance.
       if sender_balance < c2a_value t then Inl (Panic ''Caller must have enough balance'')
       else
         res_bind (sub_chk sender_balance (c2a_value t)) (\<lambda>b.
         res_bind (credit_account (h_pk_to_raw_bytes h (c2a_account t)) (c2a_value t)
             (set_balances (bm_insert sender_contract b (balances w)) w)) (\<lambda>w.
           Inr (emit (ContractToAccountEvent
             \<lparr>c2ae_sender = sender_contract, c2ae_receiver = c2a_account t,
              c2ae_value = c2a_value t\<rparr>) w)))))"

section \<open>Spending\<close>

definition tx_circuit_verifier :: "host \<Rightarrow> nat \<Rightarrow> bytes option" where
  "tx_circuit_verifier h inputs =
     (if inputs = 1 then Some (h_vd_1_2 h)
      else if inputs = 2 then Some (h_vd_2_2 h)
      else if inputs = 3 then Some (h_vd_3_2 h)
      else if inputs = 4 then Some (h_vd_4_2 h)
      else None)"

definition verify_tx_proof :: "host \<Rightarrow> phoenix_wire \<Rightarrow> phoenix_transaction \<Rightarrow> bool res" where
  "verify_tx_proof h pw tx =
     res_bind (expect ''No circuit available for given number of inputs!''
         (tx_circuit_verifier h (length (pt_nullifiers tx)))) (\<lambda>vd.
     res_bind (pt_public_inputs h pw tx) (\<lambda>pis.
       Inr (h_verify_plonk h vd (pt_proof tx) pis)))"

definition insert_nullifier ::
    "bls_scalar \<Rightarrow> (bls_scalar, unit) btree_map \<Rightarrow> (bls_scalar, unit) btree_map res" where
  "insert_nullifier n s =
     (if bm_get s n \<noteq> None then Inl (Panic ''A provided nullifier has already been spent'')
      else Inr (bm_insert n () s))"

definition spend_phoenix ::
    "host \<Rightarrow> phoenix_wire \<Rightarrow> phoenix_transaction \<Rightarrow> 'r tworld_scheme \<Rightarrow> 'r tworld_scheme res" where
  "spend_phoenix h pw tx w =
     (if pt_chain_id tx \<noteq> h_chain_id h then Inl (Panic ''The tx must target the correct chain'')
      else if \<not> root_exists h (pt_root tx) w then Inl (Panic ''Root not found in the state!'')
      else
        res_bind (res_fold insert_nullifier (pt_nullifiers tx) (tf_nullifiers (tw_state w))) (\<lambda>ns.
        res_bind (verify_tx_proof h pw tx) (\<lambda>ok.
        if \<not> ok then Inl (Panic ''Invalid transaction proof!'')
        else
          let (notes, t) =
                tree_extend_notes h (h_block_height h) (pt_outputs tx) (tf_tree (tw_state w));
              w = w\<lparr>tw_state := (tw_state w)\<lparr>tf_nullifiers := ns, tf_tree := t\<rparr>\<rparr>
          in res_fold transitory_push_note notes w)))"

definition spend_moonlight ::
    "host \<Rightarrow> wire \<Rightarrow> moonlight_transaction \<Rightarrow> 'r tworld_scheme \<Rightarrow> 'r tworld_scheme res" where
  "spend_moonlight h wr tx w =
     (if mt_chain_id tx \<noteq> h_chain_id h then Inl (Panic ''The tx must target the correct chain'')
      else if \<not> h_verify_bls h (mt_signature_message wr tx) (mt_sender tx) (mt_signature tx)
      then Inl (Panic ''Invalid signature!'')
      else
        let sender_bytes = h_pk_to_raw_bytes h (mt_sender tx) in
        res_bind (add_chk (mt_value tx) (mt_deposit tx)) (\<lambda>vd.
        res_bind (mul_chk (mt_gas_limit tx) (mt_gas_price tx)) (\<lambda>max_fee.
        res_bind (add_chk vd max_fee) (\<lambda>total_value.
        res_bind
          (case bm_get (accounts w) sender_bytes of
             Some a \<Rightarrow>
               if total_value > acc_balance a then Inl (Panic ''Account doesn't have enough funds'')
               else
                 res_bind (add_chk (acc_nonce a) 1) (\<lambda>incremented_nonce.
                 if mt_nonce tx < incremented_nonce then Inl (Panic ''Already used nonce'')
                 else if mt_nonce tx > incremented_nonce then
                   Inl (Panic ''Nonce not ready to be used yet'')
                 else
                   res_bind (sub_chk (acc_balance a) total_value) (\<lambda>b.
                     Inr (set_accounts
                       (bm_insert sender_bytes \<lparr>acc_nonce = mt_nonce tx, acc_balance = b\<rparr> (accounts w)) w)))
           | None \<Rightarrow> Inl (Panic ''Account has no funds''))
          (\<lambda>w.
           if mt_value tx > 0 then
             credit_account
               (case mt_receiver tx of Some r \<Rightarrow> h_pk_to_raw_bytes h r | None \<Rightarrow> sender_bytes)
               (mt_value tx) w
           else Inr w)))))"

definition spend_and_execute ::
    "host \<Rightarrow> wire \<Rightarrow> phoenix_wire \<Rightarrow> 'r tworld_scheme ext \<Rightarrow> transaction
     \<Rightarrow> 'r tworld_scheme \<Rightarrow> ((contract_error + bytes) \<times> 'r tworld_scheme) res" where
  "spend_and_execute h wr pw x tx w =
     (if tx_gas_price tx = 0 then Inl (Panic ''Gas price too low!'')
      else
        res_bind (put_transaction tx w) (\<lambda>w.
        res_bind
          (case tx of
             Phoenix t \<Rightarrow> spend_phoenix h pw t w
           | Moonlight t \<Rightarrow> spend_moonlight h wr t w)
          (\<lambda>w.
           case tx_call tx of
             Some c \<Rightarrow> Inr (x_call_raw x (cc_contract c) (cc_fn_name c) (cc_fn_args c) w)
           | None \<Rightarrow> Inr (Inr [], w))))"

section \<open>Refunds\<close>

definition refund ::
    "host \<Rightarrow> u64 \<Rightarrow> 'r tworld_scheme \<Rightarrow> 'r tworld_scheme res" where
  "refund h gas_spent w =
     res_bind (take_ongoing w) (\<lambda>(og, w).
     let deposit = (case og_deposit og of Available _ _ v \<Rightarrow> Some v | _ \<Rightarrow> None);
         memo = (case tx_memo (og_tx og) of Some m \<Rightarrow> m | None \<Rightarrow> [])
     in case og_tx og of
          Phoenix tx \<Rightarrow>
            let remainder_note = gen_remainder_note h (pt_fee tx) gas_spent deposit;
                (refund_note, w) = push_note_current_height h remainder_note w
            in Inr (emit (PhoenixEvent
                 \<lparr>pte_nullifiers = pt_nullifiers tx, pte_notes = og_notes og, pte_memo = memo,
                  pte_gas_spent = gas_spent, pte_refund_note = refund_note\<rparr>) w)
        | Moonlight tx \<Rightarrow>
            res_bind (sub_chk (mt_gas_limit tx) gas_spent) (\<lambda>remaining_gas.
            res_bind (mul_chk remaining_gas (mt_gas_price tx)) (\<lambda>g.
            res_bind (add_chk g (case deposit of Some d \<Rightarrow> d | None \<Rightarrow> 0)) (\<lambda>refund.
            res_bind (credit_account (h_pk_to_raw_bytes h (mt_refund_address tx)) refund w) (\<lambda>w.
              Inr (emit (MoonlightEvent
                \<lparr>mte_sender = mt_sender tx, mte_receiver = mt_receiver tx, mte_value = mt_value tx,
                 mte_memo = memo, mte_gas_spent = gas_spent,
                 mte_refund_info =
                   (if refund > 0 \<and> mt_refund_address tx \<noteq> mt_sender tx
                    then Some (mt_refund_address tx, refund) else None)\<rparr>) w))))))"

section \<open>Feeder queries\<close>

definition leaves_from_height :: "u64 \<Rightarrow> 'r tworld_scheme \<Rightarrow> note_leaf list" where
  "leaves_from_height height w = tree_leaves height (tf_tree (tw_state w))"

text \<open>\<open>iter.skip(from)\<close> and, unless the limit is zero, \<open>take(count_limit)\<close>.\<close>

definition limited :: "u64 \<Rightarrow> 'a list \<Rightarrow> 'a list" where
  "limited count_limit xs = (if count_limit = 0 then xs else take (as_usize count_limit) xs)"

definition sync :: "u64 \<Rightarrow> u64 \<Rightarrow> 'r tworld_scheme \<Rightarrow> note_leaf list" where
  "sync from_pos count_limit w =
     limited count_limit (tree_leaves_pos from_pos (tf_tree (tw_state w)))"

definition leaves_from_pos :: "u64 \<Rightarrow> 'r tworld_scheme \<Rightarrow> note_leaf list" where
  "leaves_from_pos pos w = sync pos 0 w"

definition sync_nullifiers :: "u64 \<Rightarrow> u64 \<Rightarrow> 'r tworld_scheme \<Rightarrow> bls_scalar list" where
  "sync_nullifiers from_pos count_limit w =
     limited count_limit (drop (as_usize from_pos) (bm_keys (tf_nullifiers (tw_state w))))"

definition sync_contract_balances :: "u64 \<Rightarrow> u64 \<Rightarrow> 'r tworld_scheme \<Rightarrow> (contract_id \<times> u64) list" where
  "sync_contract_balances from_pos count_limit w =
     limited count_limit (drop (as_usize from_pos) (bm_entries (balances w)))"

definition sync_accounts :: "u64 \<Rightarrow> u64 \<Rightarrow> 'r tworld_scheme \<Rightarrow> (account_data \<times> bytes) list" where
  "sync_accounts from_pos count_limit w =
     limited count_limit
       (map (\<lambda>(key, a). (a, key)) (drop (as_usize from_pos) (bm_entries (accounts w))))"

section \<open>Entry points with a caller check\<close>

definition assert_external_caller :: "contract_id option \<Rightarrow> unit res" where
  "assert_external_caller caller =
     ensure (caller = None) ''Can only be called from the outside the VM''"

definition assert_stake_caller :: "contract_id option \<Rightarrow> unit res" where
  "assert_stake_caller caller =
     res_bind (expect ''Can only be called by the stake contract'' caller) (\<lambda>c.
       ensure (c = STAKE_CONTRACT) ''Can only be called by the stake contract'')"

definition entry_spend_and_execute ::
    "host \<Rightarrow> wire \<Rightarrow> phoenix_wire \<Rightarrow> 'r tworld_scheme ext \<Rightarrow> contract_id option \<Rightarrow> transaction
     \<Rightarrow> 'r tworld_scheme \<Rightarrow> ((contract_error + bytes) \<times> 'r tworld_scheme) res" where
  "entry_spend_and_execute h wr pw x caller tx w =
     res_bind (assert_external_caller caller) (\<lambda>_. spend_and_execute h wr pw x tx w)"

definition entry_refund ::
    "host \<Rightarrow> contract_id option \<Rightarrow> u64 \<Rightarrow> 'r tworld_scheme \<Rightarrow> 'r tworld_scheme res" where
  "entry_refund h caller gas_spent w =
     res_bind (assert_external_caller caller) (\<lambda>_. refund h gas_spent w)"

definition entry_push_note ::
    "host \<Rightarrow> contract_id option \<Rightarrow> u64 \<Rightarrow> phoenix_note \<Rightarrow> 'r tworld_scheme
     \<Rightarrow> (phoenix_note option \<times> 'r tworld_scheme) res" where
  "entry_push_note h caller block_height n w =
     res_bind (assert_external_caller caller) (\<lambda>_. Inr (push_note h block_height n w))"

definition entry_update_root ::
    "host \<Rightarrow> contract_id option \<Rightarrow> 'r tworld_scheme \<Rightarrow> 'r tworld_scheme res" where
  "entry_update_root h caller w =
     res_bind (assert_external_caller caller) (\<lambda>_. Inr (update_root h w))"

definition entry_add_account_balance ::
    "host \<Rightarrow> contract_id option \<Rightarrow> bls_public_key \<Rightarrow> u64 \<Rightarrow> 'r tworld_scheme \<Rightarrow> 'r tworld_scheme res" where
  "entry_add_account_balance h caller key value w =
     res_bind (assert_external_caller caller) (\<lambda>_. Inr (add_account_balance h key value w))"

definition entry_sub_account_balance ::
    "host \<Rightarrow> contract_id option \<Rightarrow> bls_public_key \<Rightarrow> u64 \<Rightarrow> 'r tworld_scheme \<Rightarrow> 'r tworld_scheme res" where
  "entry_sub_account_balance h caller key value w =
     res_bind (assert_external_caller caller) (\<lambda>_. Inr (sub_account_balance h key value w))"

definition entry_add_contract_balance ::
    "contract_id option \<Rightarrow> contract_id \<Rightarrow> u64 \<Rightarrow> 'r tworld_scheme \<Rightarrow> 'r tworld_scheme res" where
  "entry_add_contract_balance caller contract value w =
     res_bind (assert_external_caller caller) (\<lambda>_. add_contract_balance contract value w)"

definition entry_sub_contract_balance ::
    "contract_id option \<Rightarrow> contract_id \<Rightarrow> u64 \<Rightarrow> 'r tworld_scheme \<Rightarrow> 'r tworld_scheme res" where
  "entry_sub_contract_balance caller contract value w =
     res_bind (assert_stake_caller caller) (\<lambda>_.
       expect_ok ''Cannot subtract balance'' (sub_contract_balance contract value w))"

end
