(* ===== verification/Transfer_Ledger.thy ===== *)
theory Transfer_Ledger
  imports Transfer_Contract
begin

text \<open>
  The transfer contract as a ledger.  \<open>ledger_total\<close> is the amount of Lux visible in the contract:
  account balances, contract balances and the deposit of the running transaction that nobody has
  picked up yet.  The lemmas give the effect of every operation on it, and the theorems follow:
  conservation over a whole transaction, the effect of withdrawals and internal moves, and the promise
  that \<open>refund\<close> does not panic.
\<close>

definition accounts_total :: "'r tworld_scheme \<Rightarrow> nat" where
  "accounts_total w = bm_sum (unat \<circ> acc_balance) (accounts w)"

definition contracts_total :: "'r tworld_scheme \<Rightarrow> nat" where
  "contracts_total w = bm_sum unat (balances w)"

definition deposit_value :: "deposit \<Rightarrow> nat" where
  "deposit_value d = (case d of Available _ _ v \<Rightarrow> unat v | _ \<Rightarrow> 0)"

definition pending_deposit :: "'r tworld_scheme \<Rightarrow> nat" where
  "pending_deposit w = opt_val (deposit_value \<circ> og_deposit) (tw_current_tx w)"

definition ledger_total :: "'r tworld_scheme \<Rightarrow> nat" where
  "ledger_total w = accounts_total w + contracts_total w + pending_deposit w"

lemmas ledger_defs = ledger_total_def accounts_total_def contracts_total_def pending_deposit_def

lemma ledger_set_simps [simp]:
  "accounts_total (emit e w) = accounts_total w"
  "contracts_total (emit e w) = contracts_total w"
  "pending_deposit (emit e w) = pending_deposit w"
  "accounts_total (set_tree t w) = accounts_total w"
  "contracts_total (set_tree t w) = contracts_total w"
  "pending_deposit (set_tree t w) = pending_deposit w"
  "contracts_total (set_accounts m w) = contracts_total w"
  "pending_deposit (set_accounts m w) = pending_deposit w"
  "accounts_total (set_balances b w) = accounts_total w"
  "pending_deposit (set_balances b w) = pending_deposit w"
  "accounts_total (set_deposit d w) = accounts_total w"
  "contracts_total (set_deposit d w) = contracts_total w"
  by (simp_all add: ledger_defs)

lemma ledger_emit [simp]: "ledger_total (emit e w) = ledger_total w"
  by (simp add: ledger_total_def)

lemma push_note_ledger [simp]:
  "ledger_total (snd (push_note h bh n w)) = ledger_total w"
  "accounts (snd (push_note h bh n w)) = accounts w"
  "balances (snd (push_note h bh n w)) = balances w"
  "tw_current_tx (snd (push_note h bh n w)) = tw_current_tx w"
  "tf_nullifiers (tw_state (snd (push_note h bh n w))) = tf_nullifiers (tw_state w)"
  "tworld.more (snd (push_note h bh n w)) = tworld.more w"
  by (simp_all add: push_note_def ledger_total_def split_beta)

lemma push_note_current_height_ledger [simp]:
  "ledger_total (snd (push_note_current_height h n w)) = ledger_total w"
  "accounts (snd (push_note_current_height h n w)) = accounts w"
  "balances (snd (push_note_current_height h n w)) = balances w"
  "tw_current_tx (snd (push_note_current_height h n w)) = tw_current_tx w"
  "tf_nullifiers (tw_state (snd (push_note_current_height h n w))) = tf_nullifiers (tw_state w)"
  "tworld.more (snd (push_note_current_height h n w)) = tworld.more w"
  by (simp_all add: push_note_current_height_def)

section \<open>Effects of the basic operations\<close>

lemma credit_account_totals:
  assumes "credit_account key v w = Inr w'"
  shows "accounts_total w' = accounts_total w + unat v" and "balances w' = balances w"
    and "tw_current_tx w' = tw_current_tx w"
    and "tf_nullifiers (tw_state w') = tf_nullifiers (tw_state w)"
    and "tworld.more w' = tworld.more w"
proof -
  let ?a = "bm_get_or EMPTY_ACCOUNT (accounts w) key"
  obtain b where b: "add_chk (acc_balance ?a) v = Inr b"
    and w': "w' = set_accounts (bm_insert key (?a\<lparr>acc_balance := b\<rparr>) (accounts w)) w"
    using assms by (auto simp: credit_account_def Let_def)
  have "opt_val (unat \<circ> acc_balance) (bm_get (accounts w) key) = unat (acc_balance ?a)"
    by (auto simp: bm_get_or_def EMPTY_ACCOUNT_def opt_val_def split: option.splits)
  then show "accounts_total w' = accounts_total w + unat v"
    using add_chk_unat [OF b] by (simp add: w' accounts_total_def bm.total_credit)
qed (use assms in \<open>auto simp: credit_account_def Let_def\<close>)

lemma credit_contract_totals:
  assumes "credit_contract c v w = Inr w'"
  shows "contracts_total w' = contracts_total w + unat v" and "accounts w' = accounts w"
    and "tw_current_tx w' = tw_current_tx w"
    and "tf_nullifiers (tw_state w') = tf_nullifiers (tw_state w)"
    and "tworld.more w' = tworld.more w"
proof -
  obtain b where b: "add_chk (bm_get_or 0 (balances w) c) v = Inr b"
    and w': "w' = set_balances (bm_insert c b (balances w)) w"
    using assms by (auto simp: credit_contract_def)
  have "opt_val unat (bm_get (balances w) c) = unat (bm_get_or 0 (balances w) c)"
    by (auto simp: bm_get_or_def opt_val_def split: option.splits)
  then show "contracts_total w' = contracts_total w + unat v"
    using add_chk_unat [OF b] by (simp add: w' contracts_total_def bm.total_credit)
qed (use assms in \<open>auto simp: credit_contract_def\<close>)

lemma add_contract_balance_credit:
  "add_contract_balance c v w = credit_contract c v w"
  by (auto simp: add_contract_balance_def credit_contract_def bm_get_or_def add_chk_def
      split: option.splits)

lemma credit_ledger:
  "credit_account key v w = Inr w' \<Longrightarrow> ledger_total w' = ledger_total w + unat v"
  "credit_contract c v w = Inr w' \<Longrightarrow> ledger_total w' = ledger_total w + unat v"
  using credit_account_totals [of key v w w'] credit_contract_totals [of c v w w']
  by (simp_all add: ledger_total_def contracts_total_def accounts_total_def pending_deposit_def)

lemma debit_contract_totals:
  assumes "bm_get (balances w) c = Some b" and "v \<le> b"
  shows "ledger_total (set_balances (bm_insert c (b - v) (balances w)) w) + unat v = ledger_total w"
proof -
  have "unat (b - v) + unat v = unat b"
    using assms(2) by (simp add: unat_sub_le word_le_nat_alt)
  then have "contracts_total (set_balances (bm_insert c (b - v) (balances w)) w) + unat v
      = contracts_total w"
    unfolding contracts_total_def using bm.total_debit [OF assms(1), of unat] by simp
  then show ?thesis by (simp add: ledger_total_def)
qed

lemma sub_contract_balance_ok:
  assumes "sub_contract_balance c v w = Inr w'"
  obtains b where "bm_get (balances w) c = Some b" and "v \<le> b"
    and "w' = set_balances (bm_insert c (b - v) (balances w)) w"
  using assms by (auto simp: sub_contract_balance_def not_less split: option.splits if_splits)

lemma sub_contract_balance_ledger:
  assumes "sub_contract_balance c v w = Inr w'"
  shows "ledger_total w' + unat v = ledger_total w"
  using assms by (auto elim!: sub_contract_balance_ok simp: debit_contract_totals)

lemma expect_ok_Inr [simp]: "expect_ok msg r = Inr x \<longleftrightarrow> r = Inr x"
  by (cases r) (simp_all add: expect_ok_def)

lemma set_deposit_pending:
  assumes "tw_current_tx w = Some og"
  shows "ledger_total (set_deposit d w) + deposit_value (og_deposit og) =
         ledger_total w + deposit_value d"
  using assms by (simp add: ledger_total_def pending_deposit_def)

lemma deposit_value_simps [simp]:
  "deposit_value (Available s t v) = unat v"
  "deposit_value (Taken s t v) = 0"
  "deposit_value NoDeposit = 0"
  "deposit_value (deposit_set_taken d) = 0"
  by (simp_all add: deposit_value_def deposit_set_taken_def split: deposit.splits)

text \<open>What a withdrawal adds to the public side of the ledger: nothing when it goes to a note.\<close>

definition public_value :: "withdraw \<Rightarrow> nat" where
  "public_value d =
     (case wd_receiver d of PhoenixReceiver _ \<Rightarrow> 0 | MoonlightReceiver _ \<Rightarrow> unat (wd_value d))"

lemma mint_withdrawal_ledger:
  assumes "mint_withdrawal h wr fn d w = Inr w'"
  shows "ledger_total w' = ledger_total w + public_value d" and "balances w' = balances w"
    and "tw_current_tx w' = tw_current_tx w" and "tworld.more w' = tworld.more w"
  using assms
  by (auto simp: mint_withdrawal_def public_value_def Let_def credit_ledger credit_account_totals
      split: withdraw_receiver.splits withdraw_signature.splits if_splits)

section \<open>Conservation\<close>

lemma transfer_deposit_ok:
  assumes "transfer_deposit caller v w = Inr w'"
  obtains c og s w1 where "caller = Some c" and "tw_current_tx w = Some og"
    and "og_deposit og = Available s c v" and "credit_contract c v w = Inr w1"
    and "w' = emit (DepositEvent \<lparr>de_sender = s, de_receiver = c, de_value = v\<rparr>)
                (set_deposit (Taken s c v) w1)"
proof -
  obtain c og where c: "caller = Some c" and og: "tw_current_tx w = Some og"
    using assms by (auto simp: transfer_deposit_def deposit_info_def)
  show thesis
  proof (cases "og_deposit og")
    case (Available s t v')
    with assms c og that show thesis
      by (auto simp: transfer_deposit_def deposit_info_def deposit_set_taken_def
          add_contract_balance_credit split: if_splits)
  qed (use assms c og in \<open>auto simp: transfer_deposit_def deposit_info_def\<close>)
qed

lemma transfer_deposit_ledger_aux:
  assumes "transfer_deposit caller v w = Inr w'"
  shows "ledger_total w' = ledger_total w"
  using assms
proof (rule transfer_deposit_ok)
  fix c og s w1
  assume og: "tw_current_tx w = Some og" and d: "og_deposit og = Available s c v"
    and w1: "credit_contract c v w = Inr w1"
    and w': "w' = emit (DepositEvent \<lparr>de_sender = s, de_receiver = c, de_value = v\<rparr>)
                (set_deposit (Taken s c v) w1)"
  from og have og1: "tw_current_tx w1 = Some og" by (simp add: credit_contract_totals [OF w1])
  from set_deposit_pending [OF og1, of "Taken s c v"] d w'
  show ?thesis by (simp add: credit_ledger(2) [OF w1])
qed

lemma contract_to_account_ledger_aux:
  assumes "contract_to_account h caller t w = Inr w'"
  shows "ledger_total w' = ledger_total w"
proof -
  obtain c b w1 where b: "bm_get (balances w) c = Some b" "c2a_value t \<le> b"
    and w1: "credit_account (h_pk_to_raw_bytes h (c2a_account t)) (c2a_value t)
      (set_balances (bm_insert c (b - c2a_value t) (balances w)) w) = Inr w1"
    and w': "ledger_total w' = ledger_total w1"
    using assms by (auto simp: contract_to_account_def sub_chk_Inr split: if_splits)
  from credit_ledger(1) [OF w1] debit_contract_totals [OF b] w' show ?thesis by simp
qed

lemma transfer_withdraw_ok:
  assumes "transfer_withdraw h wr caller d w = Inr w'"
  obtains b w1 w2 where "caller = Some (wd_contract d)"
    and "bm_get (balances w) (wd_contract d) = Some b" and "wd_value d \<le> b"
    and "w1 = set_balances (bm_insert (wd_contract d) (b - wd_value d) (balances w)) w"
    and "mint_withdrawal h wr (str_bytes ''withdraw'') d w1 = Inr w2"
    and "w' = emit (WithdrawEvent (withdraw_event_from d)) w2"
proof -
  obtain w1 w2 where c: "caller = Some (wd_contract d)"
    and w1: "sub_contract_balance (wd_contract d) (wd_value d) w = Inr w1"
    and w2: "mint_withdrawal h wr (str_bytes ''withdraw'') d w1 = Inr w2"
    and w': "w' = emit (WithdrawEvent (withdraw_event_from d)) w2"
    using assms by (auto simp: transfer_withdraw_def split: if_splits)
  show thesis
    using w1 by (rule sub_contract_balance_ok) (rule that [OF c _ _ _ w2 w'])
qed

lemma transfer_withdraw_debits:
  assumes "transfer_withdraw h wr caller d w = Inr w'"
  shows "unat (contract_balance (wd_contract d) w') + unat (wd_value d) =
         unat (contract_balance (wd_contract d) w)"
    and "tworld.more w' = tworld.more w"
    and "caller = Some (wd_contract d)"
proof -
  obtain b w1 w2 where c: "caller = Some (wd_contract d)"
    and b: "bm_get (balances w) (wd_contract d) = Some b" "wd_value d \<le> b"
    and w1: "w1 = set_balances (bm_insert (wd_contract d) (b - wd_value d) (balances w)) w"
    and w2: "mint_withdrawal h wr (str_bytes ''withdraw'') d w1 = Inr w2"
    and w': "w' = emit (WithdrawEvent (withdraw_event_from d)) w2"
    using assms by (rule transfer_withdraw_ok)
  have "unat (b - wd_value d) + unat (wd_value d) = unat b"
    using b(2) by (simp add: unat_sub_le word_le_nat_alt)
  then show "unat (contract_balance (wd_contract d) w') + unat (wd_value d) =
         unat (contract_balance (wd_contract d) w)"
    using b by (simp add: w' contract_balance_def mint_withdrawal_ledger [OF w2] w1 bm_get_or_def)
  show "tworld.more w' = tworld.more w" using mint_withdrawal_ledger(4) [OF w2] by (simp add: w' w1)
  show "caller = Some (wd_contract d)" by (rule c)
qed

text \<open>
  A contract that withdraws pays exactly what it withdraws: the ledger total moves by the value
  withdrawn when it goes to a Phoenix note, and not at all when it goes to a Moonlight account.
\<close>

theorem transfer_withdraw_ledger:
  assumes "transfer_withdraw h wr caller d w = Inr w'"
  shows "ledger_total w' + (unat (wd_value d) - public_value d) = ledger_total w
         \<and> unat (contract_balance (wd_contract d) w') + unat (wd_value d) =
           unat (contract_balance (wd_contract d) w)"
proof (rule transfer_withdraw_ok [OF assms])
  fix b w1 w2
  assume b: "bm_get (balances w) (wd_contract d) = Some b" "wd_value d \<le> b"
    and w1: "w1 = set_balances (bm_insert (wd_contract d) (b - wd_value d) (balances w)) w"
    and w2: "mint_withdrawal h wr (str_bytes ''withdraw'') d w1 = Inr w2"
    and w': "w' = emit (WithdrawEvent (withdraw_event_from d)) w2"
  have "public_value d \<le> unat (wd_value d)"
    by (simp add: public_value_def split: withdraw_receiver.splits)
  with mint_withdrawal_ledger(1) [OF w2] debit_contract_totals [OF b] transfer_withdraw_debits(1) [OF assms]
  show ?thesis by (simp add: w' w1)
qed

text \<open>
  Picking up a deposit and paying an account out of a contract's balance only move value: the
  ledger total is unchanged.
\<close>

theorem internal_moves_conserve:
  shows "(transfer_deposit caller v w = Inr w' \<longrightarrow> ledger_total w' = ledger_total w)
       \<and> (contract_to_account h caller t w = Inr w' \<longrightarrow> ledger_total w' = ledger_total w)"
  using transfer_deposit_ledger_aux contract_to_account_ledger_aux by blast

section \<open>Spending and refunding a Moonlight transaction\<close>

lemma spend_moonlight_ok:
  assumes "spend_moonlight h wr tx w = Inr w'"
  obtains a where
    "mt_chain_id tx = h_chain_id h"
    "h_verify_bls h (mt_signature_message wr tx) (mt_sender tx) (mt_signature tx)"
    "bm_get (accounts w) (h_pk_to_raw_bytes h (mt_sender tx)) = Some a"
    "unat (mt_value tx) + unat (mt_deposit tx) + unat (mt_gas_limit tx) * unat (mt_gas_price tx)
       \<le> unat (acc_balance a)"
    "unat (mt_nonce tx) = unat (acc_nonce a) + 1"
    "(if mt_value tx > 0 then
        credit_account
          (case mt_receiver tx of Some r \<Rightarrow> h_pk_to_raw_bytes h r
           | None \<Rightarrow> h_pk_to_raw_bytes h (mt_sender tx)) (mt_value tx)
      else Inr)
       (set_accounts (bm_insert (h_pk_to_raw_bytes h (mt_sender tx))
          \<lparr>acc_nonce = mt_nonce tx,
           acc_balance = acc_balance a - (mt_value tx + mt_deposit tx + mt_gas_limit tx * mt_gas_price tx)\<rparr>
          (accounts w)) w) = Inr w'"
    "unat (acc_balance a - (mt_value tx + mt_deposit tx + mt_gas_limit tx * mt_gas_price tx)) =
       unat (acc_balance a) - (unat (mt_value tx) + unat (mt_deposit tx)
         + unat (mt_gas_limit tx) * unat (mt_gas_price tx))"
proof -
  let ?k = "h_pk_to_raw_bytes h (mt_sender tx)"
  obtain vd fee total where c: "mt_chain_id tx = h_chain_id h"
      "h_verify_bls h (mt_signature_message wr tx) (mt_sender tx) (mt_signature tx)"
    and vd: "add_chk (mt_value tx) (mt_deposit tx) = Inr vd"
    and fee: "mul_chk (mt_gas_limit tx) (mt_gas_price tx) = Inr fee"
    and total: "add_chk vd fee = Inr total"
    using assms by (auto simp: spend_moonlight_def Let_def split: if_splits)
  have ut: "unat total = unat (mt_value tx) + unat (mt_deposit tx)
      + unat (mt_gas_limit tx) * unat (mt_gas_price tx)"
    using chk_unat(1) [OF vd] chk_unat(3) [OF fee] chk_unat(1) [OF total] by simp
  have te: "total = mt_value tx + mt_deposit tx + mt_gas_limit tx * mt_gas_price tx"
    using vd fee total by (simp add: add_chk_Inr mul_chk_Inr)
  obtain a where a: "bm_get (accounts w) ?k = Some a"
    using assms c vd fee total
    by (cases "bm_get (accounts w) ?k") (auto simp: spend_moonlight_def Let_def)
  obtain n where n: "add_chk (acc_nonce a) 1 = Inr n"
    and le: "total \<le> acc_balance a" and eq: "mt_nonce tx = n"
    using assms c vd fee total a
    by (auto simp: spend_moonlight_def Let_def not_less split: if_splits)
  have bal: "unat (acc_balance a - total) = unat (acc_balance a) - unat total"
    using le by (rule unat_sub_le)
  show thesis
  proof (rule that [OF c a])
    show "unat (mt_value tx) + unat (mt_deposit tx)
        + unat (mt_gas_limit tx) * unat (mt_gas_price tx) \<le> unat (acc_balance a)"
      using le ut by (simp add: word_le_nat_alt)
    show "unat (mt_nonce tx) = unat (acc_nonce a) + 1"
      using add_chk_unat [OF n] eq by simp
    show "unat (acc_balance a - (mt_value tx + mt_deposit tx + mt_gas_limit tx * mt_gas_price tx)) =
       unat (acc_balance a) - (unat (mt_value tx) + unat (mt_deposit tx)
         + unat (mt_gas_limit tx) * unat (mt_gas_price tx))"
      using bal ut te by simp
  qed (use assms c vd fee total a n le eq te in
      \<open>auto simp: spend_moonlight_def Let_def sub_chk_Inr not_less split: if_splits\<close>)
qed

lemma spend_moonlight_frame:
  assumes "spend_moonlight h wr tx w = Inr w'"
  shows "balances w' = balances w" and "tw_current_tx w' = tw_current_tx w"
    and "tf_nullifiers (tw_state w') = tf_nullifiers (tw_state w)"
    and "tworld.more w' = tworld.more w"
  by (rule spend_moonlight_ok [OF assms];
      auto split: if_splits simp: credit_account_totals)+

lemma spend_moonlight_ledger:
  assumes "spend_moonlight h wr tx w = Inr w'"
  shows "ledger_total w' + unat (mt_deposit tx) + unat (mt_gas_limit tx) * unat (mt_gas_price tx)
       = ledger_total w"
proof (rule spend_moonlight_ok [OF assms])
  fix a :: account_data
  let ?k = "h_pk_to_raw_bytes h (mt_sender tx)"
  let ?spent = "unat (mt_value tx) + unat (mt_deposit tx)
    + unat (mt_gas_limit tx) * unat (mt_gas_price tx)"
  let ?b = "acc_balance a - (mt_value tx + mt_deposit tx + mt_gas_limit tx * mt_gas_price tx)"
  let ?w1 = "set_accounts (bm_insert ?k \<lparr>acc_nonce = mt_nonce tx, acc_balance = ?b\<rparr> (accounts w)) w"
  assume a: "bm_get (accounts w) ?k = Some a" and le: "?spent \<le> unat (acc_balance a)"
    and b: "unat ?b = unat (acc_balance a) - ?spent"
    and w': "(if mt_value tx > 0 then
        credit_account
          (case mt_receiver tx of Some r \<Rightarrow> h_pk_to_raw_bytes h r | None \<Rightarrow> ?k) (mt_value tx)
      else Inr) ?w1 = Inr w'"
  have "accounts_total ?w1 + ?spent = accounts_total w"
    using bm.total_debit [OF a, of "unat \<circ> acc_balance"
        "\<lparr>acc_nonce = mt_nonce tx, acc_balance = ?b\<rparr>" ?spent] b le
    by (simp add: accounts_total_def)
  then have w1: "ledger_total ?w1 + ?spent = ledger_total w" by (simp add: ledger_total_def)
  have "ledger_total w' = ledger_total ?w1 + unat (mt_value tx)"
  proof (cases "mt_value tx > 0")
    case True
    with w' show ?thesis by (simp add: credit_ledger(1))
  next
    case False
    with w' show ?thesis by (simp add: word_gt_0)
  qed
  with w1 show ?thesis by simp
qed

lemma put_transaction_ok:
  assumes "put_transaction tx w = Inr w'"
  obtains d where "w' = w\<lparr>tw_current_tx := Some \<lparr>og_tx = tx, og_deposit = d, og_notes = []\<rparr>\<rparr>"
    and "deposit_value d = unat (tx_deposit tx)"
proof (cases "tx_deposit tx > 0")
  case True
  with assms that show thesis by (auto simp: put_transaction_def Let_def)
next
  case False
  then have "tx_deposit tx = 0" by (simp add: word_gt_0)
  with assms show thesis by (intro that [of NoDeposit]) (auto simp: put_transaction_def Let_def)
qed

lemma put_transaction_ledger:
  assumes "put_transaction tx w = Inr w'" and "tw_current_tx w = None"
  shows "ledger_total w' = ledger_total w + unat (tx_deposit tx)"
  by (rule put_transaction_ok [OF assms(1)])
     (simp add: assms(2) ledger_total_def accounts_total_def contracts_total_def pending_deposit_def)

lemma refund_moonlight_ok:
  assumes "refund h gas w = Inr w'" and "tw_current_tx w = Some og" and "og_tx og = Moonlight tx"
  obtains r w1 where "gas \<le> mt_gas_limit tx"
    and "unat r = (unat (mt_gas_limit tx) - unat gas) * unat (mt_gas_price tx)
           + deposit_value (og_deposit og)"
    and "credit_account (h_pk_to_raw_bytes h (mt_refund_address tx)) r
           (w\<lparr>tw_current_tx := None\<rparr>) = Inr w1"
    and "tw_state w' = tw_state w1" and "tw_current_tx w' = None"
proof -
  let ?d = "case og_deposit og of Available _ _ v \<Rightarrow> Some v | _ \<Rightarrow> None"
  obtain g p r w1 where g: "sub_chk (mt_gas_limit tx) gas = Inr g"
    and p: "mul_chk g (mt_gas_price tx) = Inr p"
    and r: "add_chk p (case ?d of Some d \<Rightarrow> d | None \<Rightarrow> 0) = Inr r"
    and w1: "credit_account (h_pk_to_raw_bytes h (mt_refund_address tx)) r
           (w\<lparr>tw_current_tx := None\<rparr>) = Inr w1"
    and w': "tw_state w' = tw_state w1" "tw_current_tx w' = tw_current_tx w1"
    using assms by (auto simp: refund_def take_ongoing_def Let_def)
  have "unat (case ?d of Some d \<Rightarrow> d | None \<Rightarrow> 0) = deposit_value (og_deposit og)"
    by (simp add: deposit_value_def split: deposit.splits)
  with chk_unat(2) [OF g] chk_unat(3) [OF p] chk_unat(1) [OF r]
  have "unat r = (unat (mt_gas_limit tx) - unat gas) * unat (mt_gas_price tx)
           + deposit_value (og_deposit og)" by simp
  moreover have "gas \<le> mt_gas_limit tx" using g by (simp add: sub_chk_Inr)
  moreover have "tw_current_tx w' = None"
    using w' credit_account_totals(3) [OF w1] by simp
  ultimately show thesis using w1 w' by (intro that) auto
qed

lemma refund_moonlight_ledger:
  assumes "refund h gas w = Inr w'" and "tw_current_tx w = Some og" and "og_tx og = Moonlight tx"
  shows "ledger_total w' =
           ledger_total w + (unat (mt_gas_limit tx) - unat gas) * unat (mt_gas_price tx)"
proof (rule refund_moonlight_ok [OF assms])
  fix r w1
  assume r: "unat r = (unat (mt_gas_limit tx) - unat gas) * unat (mt_gas_price tx)
           + deposit_value (og_deposit og)"
    and w1: "credit_account (h_pk_to_raw_bytes h (mt_refund_address tx)) r
           (w\<lparr>tw_current_tx := None\<rparr>) = Inr w1"
    and w': "tw_state w' = tw_state w1" "tw_current_tx w' = None"
  have "ledger_total w' = ledger_total w1"
    using w' credit_account_totals(3) [OF w1] by (simp add: ledger_defs)
  moreover have "ledger_total (w\<lparr>tw_current_tx := None\<rparr>) + deposit_value (og_deposit og) = ledger_total w"
    using assms(2) by (simp add: ledger_defs)
  ultimately show ?thesis using r credit_ledger(1) [OF w1] by simp
qed

lemma convert_ok:
  assumes "convert h wr caller d w = Inr w'"
  obtains og s c w1 where "caller = Some TRANSFER_CONTRACT" and "tw_current_tx w = Some og"
    and "og_deposit og = Available s c (wd_value d)"
    and "mint_withdrawal h wr (str_bytes ''convert'') d w = Inr w1"
    and "w' = emit (ConvertEvent (from_withdraw_and_sender s d)) (set_deposit (Taken s c (wd_value d)) w1)"
proof -
  obtain og where c: "caller = Some TRANSFER_CONTRACT" "wd_contract d = TRANSFER_CONTRACT"
    and og: "tw_current_tx w = Some og"
    using assms by (auto simp: convert_def deposit_info_def split: if_splits)
  show thesis
  proof (cases "og_deposit og")
    case (Available s t v)
    with assms c og that show thesis
      by (auto simp: convert_def deposit_info_def deposit_set_taken_def split: if_splits)
  qed (use assms c og in \<open>auto simp: convert_def deposit_info_def\<close>)
qed

section \<open>What leaves and enters the public ledger\<close>

text \<open>
  \<open>same_transaction\<close>: the transaction recorded as being executed is the same (its deposit may be taken).
\<close>

definition same_transaction :: "'r tworld_scheme \<Rightarrow> 'r tworld_scheme \<Rightarrow> bool" where
  "same_transaction w w' \<longleftrightarrow>
     map_option og_tx (tw_current_tx w') = map_option og_tx (tw_current_tx w)"

text \<open>
  A called contract may change the ledger total: a withdrawal or a conversion into a Phoenix note takes
  Lux out of it, a reward that the stake contract mints brings Lux in.  Each of these emits an event
  with the value, so what went out can be read from the events, and the total together with it,
  \<open>ledger_net\<close>, is what is conserved.
\<close>

definition to_note :: "withdraw_receiver \<Rightarrow> u64 \<Rightarrow> int" where
  "to_note r v = (case r of PhoenixReceiver _ \<Rightarrow> int (unat v) | MoonlightReceiver _ \<Rightarrow> 0)"

definition event_flow :: "contract_event \<Rightarrow> int" where
  "event_flow e =
     (case e of
        WithdrawEvent we \<Rightarrow> to_note (we_receiver we) (we_value we)
      | ConvertEvent ce \<Rightarrow> to_note (ce_receiver ce) (ce_value ce)
      | MintEvent we \<Rightarrow> to_note (we_receiver we) (we_value we) - int (unat (we_value we))
      | MintContractEvent me \<Rightarrow> - int (unat (c2ce_value me))
      | _ \<Rightarrow> 0)"

definition outflow :: "'r tworld_scheme \<Rightarrow> int" where
  "outflow w = sum_list (map event_flow (tw_events w))"

definition ledger_net :: "'r tworld_scheme \<Rightarrow> int" where
  "ledger_net w = int (ledger_total w) + outflow w"

lemma outflow_emit [simp]: "outflow (emit e w) = outflow w + event_flow e"
  by (simp add: outflow_def emit_def)

lemma outflow_frame [simp]:
  "outflow (set_accounts m w) = outflow w"
  "outflow (set_balances b w) = outflow w"
  "outflow (set_tree t w) = outflow w"
  "outflow (set_deposit d w) = outflow w"
  "outflow (w\<lparr>tw_current_tx := og\<rparr>) = outflow w"
  by (simp_all add: outflow_def set_accounts_def set_balances_def set_tree_def set_deposit_def)

lemma credit_outflow:
  "credit_account k v w = Inr w' \<Longrightarrow> outflow w' = outflow w"
  "credit_contract c v w = Inr w' \<Longrightarrow> outflow w' = outflow w"
  by (auto simp: credit_account_def credit_contract_def Let_def)

lemma mint_withdrawal_outflow: "mint_withdrawal h wr fn d w = Inr w' \<Longrightarrow> outflow w' = outflow w"
  by (auto simp: mint_withdrawal_def push_note_current_height_def push_note_def split_beta Let_def
      dest: credit_outflow split: withdraw_receiver.splits withdraw_signature.splits if_splits)

lemma sub_contract_balance_outflow: "sub_contract_balance c v w = Inr w' \<Longrightarrow> outflow w' = outflow w"
  by (auto elim!: sub_contract_balance_ok)

lemma public_to_note: "int (public_value d) = int (unat (wd_value d)) - to_note (wd_receiver d) (wd_value d)"
  by (simp add: public_value_def to_note_def split: withdraw_receiver.splits)

text \<open>
  What the contracts of the VM can do to the ledger: call an entry point of the transfer contract, or
  change their own state and emit events of their own, which leaves the ledger alone.  A
  receiving contract that is called back does the same, to any depth: \<open>x\<close> gives what each call made by the step
  comes to.
\<close>

inductive contract_step ::
    "host \<Rightarrow> wire \<Rightarrow> 'r tworld_scheme \<Rightarrow> 'r tworld_scheme \<Rightarrow> bool"
  for h wr where
    act_deposit: "transfer_deposit caller v w = Inr w' \<Longrightarrow> contract_step h wr w w'"
  | act_withdraw: "transfer_withdraw h wr caller d w = Inr w' \<Longrightarrow> contract_step h wr w w'"
  | act_convert: "convert h wr caller d w = Inr w' \<Longrightarrow> contract_step h wr w w'"
  | act_mint: "mint h wr caller d w = Inr w' \<Longrightarrow> contract_step h wr w w'"
  | act_to_account: "contract_to_account h caller ta w = Inr w' \<Longrightarrow> contract_step h wr w w'"
  | act_to_contract: "contract_to_contract x caller t w = Inr w' \<Longrightarrow>
      (\<And>c f a u v. x_call x c f a u = Inr v \<Longrightarrow> (contract_step h wr)\<^sup>*\<^sup>* u v) \<Longrightarrow> contract_step h wr w w'"
  | act_mint_to_contract: "mint_to_contract x caller t w = Inr w' \<Longrightarrow>
      (\<And>c f a u v. x_call x c f a u = Inr v \<Longrightarrow> (contract_step h wr)\<^sup>*\<^sup>* u v) \<Longrightarrow> contract_step h wr w w'"
  | act_own: "tw_state w' = tw_state w \<Longrightarrow> tw_current_tx w' = tw_current_tx w \<Longrightarrow> outflow w' = outflow w \<Longrightarrow>
      contract_step h wr w w'"

definition acts_through_entries :: "host \<Rightarrow> wire \<Rightarrow> 'r tworld_scheme ext \<Rightarrow> bool" where
  "acts_through_entries h wr x \<longleftrightarrow>
     (\<forall>c f a w w'. x_call x c f a w = Inr w' \<longrightarrow> (contract_step h wr)\<^sup>*\<^sup>* w w') \<and>
     (\<forall>c f bs w r w'. x_call_raw x c f bs w = (r, w') \<longrightarrow> (contract_step h wr)\<^sup>*\<^sup>* w w')"

definition conserves :: "'r tworld_scheme \<Rightarrow> 'r tworld_scheme \<Rightarrow> bool" where
  "conserves w w' \<longleftrightarrow> ledger_net w' = ledger_net w \<and> same_transaction w w'"

lemma conserves_refl [simp, intro]: "conserves w w"
  by (simp add: conserves_def same_transaction_def)

lemma conserves_trans: "conserves u v \<Longrightarrow> conserves v w \<Longrightarrow> conserves u w"
  by (simp add: conserves_def same_transaction_def)

text \<open>A reflexive and transitive relation that every step keeps holds over runs; the form fits rule induction.\<close>

lemma related_run:
  assumes "(\<lambda>u v. S u v \<and> R u v)\<^sup>*\<^sup>* w w'" and "\<And>u. R u u" and "\<And>u v z. R u v \<Longrightarrow> R v z \<Longrightarrow> R u z"
  shows "R w w'"
  using assms(1) by (induction rule: rtranclp_induct) (auto intro: assms(2,3))

lemma conserves_runs: "(\<lambda>u v. S u v \<and> conserves u v)\<^sup>*\<^sup>* w w' \<Longrightarrow> conserves w w'"
  by (erule related_run) (auto intro: conserves_trans)

lemma deposit_conserves:
  assumes "transfer_deposit caller v w = Inr w'"
  shows "conserves w w'"
proof (rule transfer_deposit_ok [OF assms])
  fix c og s w1
  assume w1: "credit_contract c v w = Inr w1"
    and w': "w' = emit (DepositEvent \<lparr>de_sender = s, de_receiver = c, de_value = v\<rparr>) (set_deposit (Taken s c v) w1)"
  then show ?thesis
    using transfer_deposit_ledger_aux [OF assms] credit_outflow(2) [OF w1] credit_contract_totals(3) [OF w1]
    by (cases "tw_current_tx w") (simp_all add: conserves_def ledger_net_def event_flow_def same_transaction_def)
qed

lemma withdraw_conserves:
  assumes "transfer_withdraw h wr caller d w = Inr w'"
  shows "conserves w w'"
proof (rule transfer_withdraw_ok [OF assms])
  fix b w1 w2
  assume b: "bm_get (balances w) (wd_contract d) = Some b" "wd_value d \<le> b"
    and w1: "w1 = set_balances (bm_insert (wd_contract d) (b - wd_value d) (balances w)) w"
    and w2: "mint_withdrawal h wr (str_bytes ''withdraw'') d w1 = Inr w2"
    and w': "w' = emit (WithdrawEvent (withdraw_event_from d)) w2"
  from arg_cong [OF debit_contract_totals [OF b], of int] mint_withdrawal_ledger [OF w2] mint_withdrawal_outflow [OF w2]
    public_to_note [of d]
  show ?thesis
    by (simp add: conserves_def ledger_net_def w' w1 event_flow_def withdraw_event_from_def same_transaction_def)
qed

lemma mint_conserves:
  assumes "mint h wr caller d w = Inr w'"
  shows "conserves w w'"
proof -
  obtain w1 where w1: "mint_withdrawal h wr (str_bytes ''mint'') d w = Inr w1"
    and w': "w' = emit (MintEvent (withdraw_event_from d)) w1"
    using assms by (auto simp: mint_def split: if_splits)
  from mint_withdrawal_ledger [OF w1] mint_withdrawal_outflow [OF w1] public_to_note [of d] show ?thesis
    by (simp add: conserves_def ledger_net_def w' event_flow_def withdraw_event_from_def same_transaction_def)
qed

lemma convert_conserves:
  assumes "convert h wr caller d w = Inr w'"
  shows "conserves w w'"
proof (rule convert_ok [OF assms])
  fix og s c w1
  assume og: "tw_current_tx w = Some og" "og_deposit og = Available s c (wd_value d)"
    and w1: "mint_withdrawal h wr (str_bytes ''convert'') d w = Inr w1"
    and w': "w' = emit (ConvertEvent (from_withdraw_and_sender s d)) (set_deposit (Taken s c (wd_value d)) w1)"
  have og1: "tw_current_tx w1 = Some og" using mint_withdrawal_ledger(3) [OF w1] og(1) by simp
  have "int (ledger_total w' + unat (wd_value d)) = int (ledger_total w1)"
    using set_deposit_pending [OF og1, of "Taken s c (wd_value d)"] og(2) by (simp add: w')
  with mint_withdrawal_ledger [OF w1] mint_withdrawal_outflow [OF w1] public_to_note [of d] show ?thesis
    by (simp add: conserves_def ledger_net_def w' event_flow_def from_withdraw_and_sender_def same_transaction_def
        og(1))
qed

lemma to_account_conserves:
  assumes "contract_to_account h caller t w = Inr w'"
  shows "conserves w w'"
proof -
  have "outflow w' = outflow w \<and> tw_current_tx w' = tw_current_tx w"
    using assms
    by (auto simp: contract_to_account_def event_flow_def dest: credit_outflow(1) credit_account_totals(3) split: if_splits)
  with contract_to_account_ledger_aux [OF assms] show ?thesis
    by (simp add: conserves_def ledger_net_def same_transaction_def)
qed

lemma to_contract_conserves:
  assumes "contract_to_contract x caller t w = Inr w'" and "\<And>c f a u v. x_call x c f a u = Inr v \<Longrightarrow> conserves u v"
  shows "conserves w w'"
proof -
  obtain c b w1 w2 where b: "bm_get (balances w) c = Some b" "c2c_value t \<le> b"
    and w1: "credit_contract (c2c_contract t) (c2c_value t)
      (set_balances (bm_insert c (b - c2c_value t) (balances w)) w) = Inr w1"
    and w2: "x_call x (c2c_contract t) (c2c_fn_name t)
      \<lparr>rc_contract = c, rc_value = c2c_value t, rc_data = c2c_data t\<rparr> w1 = Inr w2"
    and w': "w' = emit (ContractToContractEvent \<lparr>c2ce_sender = c, c2ce_receiver = c2c_contract t,
              c2ce_value = c2c_value t\<rparr>) w2"
    using assms(1) by (auto simp: contract_to_contract_def sub_chk_Inr split: if_splits)
  have "conserves w w1"
    using credit_ledger(2) [OF w1] debit_contract_totals [OF b] credit_outflow(2) [OF w1] credit_contract_totals(3) [OF w1]
    by (simp add: conserves_def ledger_net_def same_transaction_def)
  moreover have "conserves w1 w2" by (rule assms(2) [OF w2])
  moreover have "conserves w2 w'" by (simp add: conserves_def ledger_net_def same_transaction_def w' event_flow_def)
  ultimately show ?thesis by (blast intro: conserves_trans)
qed

lemma mint_to_contract_conserves:
  assumes "mint_to_contract x caller t w = Inr w'" and "\<And>c f a u v. x_call x c f a u = Inr v \<Longrightarrow> conserves u v"
  shows "conserves w w'"
proof -
  obtain w1 w2 where w1: "credit_contract (c2c_contract t) (c2c_value t) w = Inr w1"
    and w2: "x_call x (c2c_contract t) (c2c_fn_name t)
      \<lparr>rc_contract = STAKE_CONTRACT, rc_value = c2c_value t, rc_data = c2c_data t\<rparr> w1 = Inr w2"
    and w': "w' = emit (MintContractEvent
           \<lparr>c2ce_sender = STAKE_CONTRACT, c2ce_receiver = c2c_contract t, c2ce_value = c2c_value t\<rparr>) w2"
    using assms(1) by (auto simp: mint_to_contract_def split: if_splits)
  have "ledger_net w1 = ledger_net w + int (unat (c2c_value t)) \<and> same_transaction w w1"
    using credit_ledger(2) [OF w1] credit_outflow(2) [OF w1] credit_contract_totals(3) [OF w1]
    by (simp add: ledger_net_def same_transaction_def)
  moreover have "conserves w1 w2" by (rule assms(2) [OF w2])
  ultimately show ?thesis by (simp add: conserves_def ledger_net_def same_transaction_def w' event_flow_def)
qed

lemma contract_step_conserves: "contract_step h wr w w' \<Longrightarrow> conserves w w'"
proof (induction rule: contract_step.induct)
  case (act_own w' w)
  then show ?case by (simp add: conserves_def ledger_net_def ledger_defs same_transaction_def)
next
  case (act_to_contract x caller t w w')
  show ?case by (rule to_contract_conserves [OF act_to_contract(1)]) (rule conserves_runs [OF act_to_contract(2)])
next
  case (act_mint_to_contract x caller t w w')
  show ?case
    by (rule mint_to_contract_conserves [OF act_mint_to_contract(1)]) (rule conserves_runs [OF act_mint_to_contract(2)])
qed (erule deposit_conserves withdraw_conserves convert_conserves mint_conserves to_account_conserves)+

lemma contract_run_conserves: "(contract_step h wr)\<^sup>*\<^sup>* w w' \<Longrightarrow> conserves w w'"
  by (induction rule: rtranclp_induct) (auto intro: conserves_trans contract_step_conserves)

lemma raw_call_conserves:
  "acts_through_entries h wr x \<Longrightarrow> x_call_raw x c f bs w = (r, w') \<Longrightarrow> conserves w w'"
  unfolding acts_through_entries_def using contract_run_conserves by blast

section \<open>Refunds always succeed\<close>

lemma credit_account_fits:
  assumes "ledger_total w + unat v < 2 ^ 64"
  shows "is_ok (credit_account key v w)"
proof -
  let ?a = "bm_get_or EMPTY_ACCOUNT (accounts w) key"
  have "unat (acc_balance ?a) \<le> accounts_total w"
  proof (cases "bm_get (accounts w) key")
    case None
    then show ?thesis by (simp add: bm_get_or_def EMPTY_ACCOUNT_def)
  next
    case (Some a)
    from bm.total_bound [OF this, of "unat \<circ> acc_balance"] Some show ?thesis
      by (simp add: bm_get_or_def accounts_total_def)
  qed
  with assms have "unat (acc_balance ?a) + unat v < 2 ^ 64" by (simp add: ledger_total_def)
  then show ?thesis by (simp add: credit_account_def Let_def add_chk_def)
qed

lemma refund_moonlight_succeeds:
  assumes "tw_current_tx w = Some og" and "og_tx og = Moonlight tx" and "gas \<le> mt_gas_limit tx"
    and "ledger_total w + unat (mt_gas_limit tx) * unat (mt_gas_price tx) < 2 ^ 64"
  shows "is_ok (refund h gas w)"
proof -
  let ?d = "case og_deposit og of Available _ _ v \<Rightarrow> Some v | _ \<Rightarrow> None"
  let ?dv = "case ?d of Some d \<Rightarrow> d | None \<Rightarrow> 0"
  let ?g = "mt_gas_limit tx - gas"
  let ?w = "w\<lparr>tw_current_tx := None\<rparr>"
  have g: "unat ?g = unat (mt_gas_limit tx) - unat gas" using assms(3) by (rule unat_sub_le)
  have dv: "unat ?dv = deposit_value (og_deposit og)"
    by (simp add: deposit_value_def split: deposit.splits)
  have w: "ledger_total ?w + unat ?dv = ledger_total w"
    using assms(1) dv by (simp add: ledger_defs)
  have "unat ?g * unat (mt_gas_price tx) \<le> unat (mt_gas_limit tx) * unat (mt_gas_price tx)"
    using g by (intro mult_right_mono) simp_all
  with assms(4) w have b: "ledger_total ?w + (unat ?g * unat (mt_gas_price tx) + unat ?dv) < 2 ^ 64"
    by linarith
  have m: "mul_chk ?g (mt_gas_price tx) = Inr (?g * mt_gas_price tx)"
    and mu: "unat (?g * mt_gas_price tx) = unat ?g * unat (mt_gas_price tx)"
    using b by (simp_all add: mul_chk_def unat_mult_no_wrap)
  have s: "add_chk (?g * mt_gas_price tx) ?dv = Inr (?g * mt_gas_price tx + ?dv)"
    and su: "unat (?g * mt_gas_price tx + ?dv) = unat ?g * unat (mt_gas_price tx) + unat ?dv"
    using b mu by (simp_all add: add_chk_def unat_add_no_wrap)
  have "is_ok (credit_account (h_pk_to_raw_bytes h (mt_refund_address tx))
      (?g * mt_gas_price tx + ?dv) ?w)"
    using b su by (intro credit_account_fits) simp
  then show ?thesis
    using assms(1-3) m s
    by (auto simp: refund_def take_ongoing_def Let_def sub_chk_def not_less elim!: is_okE)
qed

lemma spend_moonlight_outflow:
  assumes "spend_moonlight h wr tx w = Inr w'"
  shows "outflow w' = outflow w"
  by (rule spend_moonlight_ok [OF assms]) (auto dest: credit_outflow(1) split: if_splits)

lemma moonlight_execute_ok:
  assumes "tw_current_tx w = None" and "acts_through_entries h wr x"
    and "spend_and_execute h wr pw x (Moonlight tx) w = Inr (res, w1)"
  obtains og where "tw_current_tx w1 = Some og" and "og_tx og = Moonlight tx"
    and "ledger_net w1 + int (unat (mt_gas_limit tx) * unat (mt_gas_price tx)) = ledger_net w"
proof -
  obtain w0 ws where put: "put_transaction (Moonlight tx) w = Inr w0"
    and spend: "spend_moonlight h wr tx w0 = Inr ws"
    and call: "(case tx_call (Moonlight tx) of
             Some c \<Rightarrow> Inr (x_call_raw x (cc_contract c) (cc_fn_name c) (cc_fn_args c) ws)
           | None \<Rightarrow> Inr (Inr [], ws)) = (Inr (res, w1) :: _ res)"
    using assms(3) by (auto simp: spend_and_execute_def split: if_splits)
  obtain d where w0: "w0 = w\<lparr>tw_current_tx :=
      Some \<lparr>og_tx = Moonlight tx, og_deposit = d, og_notes = []\<rparr>\<rparr>"
    by (rule put_transaction_ok [OF put])
  have "map_option og_tx (tw_current_tx ws) = Some (Moonlight tx)"
    using spend_moonlight_frame(2) [OF spend] w0 by simp
  moreover have "conserves ws w1"
    using call raw_call_conserves [OF assms(2)] by (auto split: option.splits)
  ultimately obtain og where og: "tw_current_tx w1 = Some og" "og_tx og = Moonlight tx"
    and w1: "ledger_net w1 = ledger_net ws"
    by (auto simp: conserves_def same_transaction_def)
  have "ledger_total ws + unat (mt_gas_limit tx) * unat (mt_gas_price tx) = ledger_total w"
    using spend_moonlight_ledger [OF spend] put_transaction_ledger [OF put assms(1)] by (simp add: tx_deposit_def)
  moreover have "outflow ws = outflow w" using spend_moonlight_outflow [OF spend] by (simp add: w0)
  ultimately have "ledger_net ws + int (unat (mt_gas_limit tx) * unat (mt_gas_price tx)) = ledger_net w"
    unfolding ledger_net_def by linarith
  then show thesis by (intro that [OF og]) (simp only: w1)
qed

lemma refund_moonlight_net:
  assumes "refund h gas w = Inr w'" and "tw_current_tx w = Some og" and "og_tx og = Moonlight tx"
  shows "ledger_net w' + int (unat gas * unat (mt_gas_price tx)) =
           ledger_net w + int (unat (mt_gas_limit tx) * unat (mt_gas_price tx))"
    and "tw_current_tx w' = None"
proof -
  have gas: "gas \<le> mt_gas_limit tx" and none: "tw_current_tx w' = None"
    by (rule refund_moonlight_ok [OF assms], assumption)+
  have "outflow w' = outflow w"
    using assms by (auto simp: refund_def take_ongoing_def Let_def event_flow_def dest!: credit_outflow(1))
  moreover have "unat gas \<le> unat (mt_gas_limit tx)" using gas by (simp add: word_le_nat_alt)
  then have "(unat (mt_gas_limit tx) - unat gas) * unat (mt_gas_price tx)
      + unat gas * unat (mt_gas_price tx) = unat (mt_gas_limit tx) * unat (mt_gas_price tx)"
    by (simp flip: distrib_right)
  then have "int (ledger_total w' + unat gas * unat (mt_gas_price tx)) =
      int (ledger_total w + unat (mt_gas_limit tx) * unat (mt_gas_price tx))"
    using refund_moonlight_ledger [OF assms] by (simp only: add.assoc)
  ultimately show "ledger_net w' + int (unat gas * unat (mt_gas_price tx)) =
      ledger_net w + int (unat (mt_gas_limit tx) * unat (mt_gas_price tx))"
    unfolding ledger_net_def of_nat_add by linarith
  show "tw_current_tx w' = None" by (rule none)
qed

text \<open>
  C6: Conservation over a whole Moonlight transaction.  Whatever the called contract does through the
  entry points of the transfer contract, itself or by way of contracts that are called in turn, after
  \<open>spend_and_execute\<close> and \<open>refund\<close> the ledger total, together with what the events report as moved into
  notes and less what they report as minted, has dropped by exactly the gas paid for,
  \<open>gas_spent * gas_price\<close>: value and deposit have moved, unspent gas and a deposit nobody took have come
  back.  Assumed of the contracts that are not part of the repository is that they act on the ledger through
  the transfer contract's entry points only.
\<close>

theorem moonlight_transaction_conserves:
  assumes "tw_current_tx w = None" and "acts_through_entries h wr x"
    and "spend_and_execute h wr pw x (Moonlight tx) w = Inr (res, w1)"
    and "refund h gas w1 = Inr w2"
  shows "ledger_net w2 + int (unat gas * unat (mt_gas_price tx)) = ledger_net w \<and> tw_current_tx w2 = None"
proof (rule moonlight_execute_ok [OF assms(1-3)])
  fix og
  assume og: "tw_current_tx w1 = Some og" "og_tx og = Moonlight tx"
    and w1: "ledger_net w1 + int (unat (mt_gas_limit tx) * unat (mt_gas_price tx)) = ledger_net w"
  from refund_moonlight_net [OF assms(4) og] w1 show ?thesis by simp
qed

text \<open>
  \<open>refund\<close> must not panic once a transaction was spent.  While the public supply and the reserved fee fit in 64
  bits, a Moonlight transaction that passed \<open>spend_and_execute\<close> can be refunded for every amount of gas up
  to its limit, whatever the called contract did with the deposit.
\<close>

theorem refund_never_panics:
  assumes "tw_current_tx w = None" and "acts_through_entries h wr x"
    and "spend_and_execute h wr pw x (Moonlight tx) w = Inr (res, w1)"
    and "ledger_total w1 + unat (mt_gas_limit tx) * unat (mt_gas_price tx) < 2 ^ 64"
    and "gas \<le> mt_gas_limit tx"
  shows "is_ok (refund h gas w1)"
  by (rule moonlight_execute_ok [OF assms(1-3)]) (rule refund_moonlight_succeeds [OF _ _ assms(5,4)])

section \<open>Concrete worlds\<close>

definition sample_moonlight :: moonlight_transaction where
  "sample_moonlight = \<lparr>mt_payload = sample_payload, mt_signature = BlsSignature 3\<rparr>"

definition sample_world :: tworld where
  "sample_world =
     \<lparr>tw_state = transfer_state_new
        \<lparr>tf_accounts := bm_insert [7] \<lparr>acc_nonce = 0, acc_balance = 1000\<rparr> bm_empty,
         tf_contract_balances := bm_insert (reserved 3) 100 bm_empty\<rparr>,
      tw_current_tx = None, tw_events = []\<rparr>"

definition ongoing_world :: tworld where
  "ongoing_world =
     sample_world\<lparr>tw_current_tx := Some \<lparr>og_tx = Moonlight sample_moonlight,
       og_deposit = Available (Some (BlsPublicKey 7)) (reserved 2) 20, og_notes = []\<rparr>\<rparr>"

definition sample_withdraw :: withdraw where
  "sample_withdraw =
     \<lparr>wd_contract = reserved 3, wd_value = 40, wd_receiver = MoonlightReceiver (BlsPublicKey 7),
      wd_token = MoonlightToken 1, wd_signature = MoonlightSig (BlsSignature 0)\<rparr>"

definition ext0 :: "'w ext" where
  "ext0 = \<lparr>x_call = \<lambda>_ _ _ w. Inr w, x_call_raw = \<lambda>_ _ _ w. (Inr [], w)\<rparr>"

lemma ext0_entries: "acts_through_entries h wr ext0"
  by (simp add: acts_through_entries_def ext0_def)

lemmas moonlight_accessors =
  mt_sender_def mt_receiver_def mt_value_def mt_deposit_def mt_gas_limit_def mt_gas_price_def
  mt_refund_address_def mt_nonce_def mt_chain_id_def

lemmas sample_defs =
  sample_world_def ongoing_world_def sample_moonlight_def sample_payload_def sample_withdraw_def
  transfer_state_new_def host0_def EMPTY_ACCOUNT_def

lemma sample_withdraw_ok:
  "is_ok (transfer_withdraw host0 wire0 (Some (reserved 3)) sample_withdraw ongoing_world)"
  by (simp add: transfer_withdraw_def mint_withdrawal_def check_token_def current_moonlight_def
      current_transaction_def contract_balance_def sub_contract_balance_def expect_ok_def
      credit_account_def bm_get_or_def moonlight_accessors sample_defs ensure_def add_chk_def
      set_balances_def emit_def set_accounts_def expect_def res_map_def is_ok_def)

theorem transfer_withdraw_ledger_witness:
  "\<exists>w'. transfer_withdraw host0 wire0 (Some (reserved 3)) sample_withdraw ongoing_world = Inr w' \<and>
     ledger_total w' + (unat (wd_value sample_withdraw) - public_value sample_withdraw) =
       ledger_total ongoing_world \<and>
     unat (contract_balance (reserved 3) w') + 40 = unat (contract_balance (reserved 3) ongoing_world)"
proof -
  obtain w' where w': "transfer_withdraw host0 wire0 (Some (reserved 3)) sample_withdraw ongoing_world
      = Inr w'"
    using sample_withdraw_ok by (rule is_okE)
  from transfer_withdraw_ledger [OF w'] w' show ?thesis by (simp add: sample_withdraw_def)
qed

theorem internal_moves_conserve_witness:
  "\<exists>w'. transfer_deposit (Some (reserved 2)) 20 ongoing_world = Inr w' \<and>
        ledger_total w' = ledger_total ongoing_world"
proof -
  have "is_ok (transfer_deposit (Some (reserved 2)) 20 ongoing_world)"
    by (simp add: transfer_deposit_def deposit_info_def add_contract_balance_def sample_defs
        expect_def res_map_def is_ok_def)
  then obtain w' where w': "transfer_deposit (Some (reserved 2)) 20 ongoing_world = Inr w'"
    by (rule is_okE)
  with internal_moves_conserve show ?thesis by blast
qed

lemma sample_spend_ok:
  "is_ok (spend_and_execute host0 wire0 phoenix_wire0 ext0 (Moonlight sample_moonlight) sample_world)"
  by (simp add: spend_and_execute_def put_transaction_def spend_moonlight_def tx_deposit_def
      tx_gas_price_def tx_moonlight_sender_def tx_call_def mt_call_def data_call_def
      credit_account_def bm_get_or_def moonlight_accessors sample_defs add_chk_def mul_chk_def
      sub_chk_def set_accounts_def expect_def res_map_def is_ok_def ext0_def Let_def)

lemma sample_world_facts:
  "tw_current_tx sample_world = None" "ledger_total sample_world = 1100"
  by (simp_all add: sample_defs ledger_defs bm_sum_def)

lemma sample_gas: "(4 :: u64) \<le> mt_gas_limit sample_moonlight"
  by (simp add: moonlight_accessors sample_defs)

lemma sample_spent:
  obtains res w1 where
    "spend_and_execute host0 wire0 phoenix_wire0 ext0 (Moonlight sample_moonlight) sample_world = Inr (res, w1)"
    and "ledger_total w1 + unat (mt_gas_limit sample_moonlight) * unat (mt_gas_price sample_moonlight) < 2 ^ 64"
proof -
  obtain res w1 where s: "spend_and_execute host0 wire0 phoenix_wire0 ext0 (Moonlight sample_moonlight) sample_world
      = Inr (res, w1)"
    using sample_spend_ok by (auto simp: is_ok_iff)
  have "ledger_total w1 = 1080"
    using s
    by (auto simp: spend_and_execute_def put_transaction_def spend_moonlight_def tx_deposit_def
      tx_gas_price_def tx_moonlight_sender_def tx_call_def mt_call_def data_call_def
      credit_account_def bm_get_or_def moonlight_accessors sample_defs add_chk_def mul_chk_def
      sub_chk_def set_accounts_def expect_def res_map_def ext0_def Let_def ledger_defs bm_sum_def)
  then show thesis by (intro that [OF s]) (simp add: moonlight_accessors sample_defs)
qed

theorem refund_never_panics_witness:
  "\<exists>res w1. spend_and_execute host0 wire0 phoenix_wire0 ext0 (Moonlight sample_moonlight) sample_world
       = Inr (res, w1) \<and> is_ok (refund host0 4 w1)"
  by (rule sample_spent) (use refund_never_panics [OF sample_world_facts(1) ext0_entries _ _ sample_gas] in blast)

lemma sample_refund_ok:
  "\<exists>res w1 w2. spend_and_execute host0 wire0 phoenix_wire0 ext0 (Moonlight sample_moonlight) sample_world
     = Inr (res, w1) \<and> refund host0 4 w1 = Inr w2"
proof (rule sample_spent)
  fix res and w1 :: tworld
  assume s: "spend_and_execute host0 wire0 phoenix_wire0 ext0 (Moonlight sample_moonlight) sample_world = Inr (res, w1)"
    and b: "ledger_total w1 + unat (mt_gas_limit sample_moonlight) * unat (mt_gas_price sample_moonlight) < 2 ^ 64"
  have "is_ok (refund host0 4 w1)"
    by (rule moonlight_execute_ok [OF sample_world_facts(1) ext0_entries s])
       (rule refund_moonlight_succeeds [OF _ _ sample_gas b])
  with s show ?thesis by (auto simp: is_ok_iff)
qed

end
