(* ===== verification/Transfer_Safety.thy ===== *)
theory Transfer_Safety
  imports Transfer_Ledger
begin

text \<open>
  What the transfer contract never does.  The locale \<open>transfer_relation\<close> is the contract between
  the transfer contract and a relation on worlds: when the relation covers the primitive writes and
  the calls into other contracts, it covers every entry point.  It is interpreted on \<open>ledger_grows\<close>:
  nonces never decrease, accounts never disappear and nullifiers are never forgotten.  Replay
  protection of Moonlight and Phoenix transactions rests on that.
\<close>

section \<open>Relations every entry point keeps\<close>

locale transfer_relation =
  fixes R :: "'r tworld_scheme \<Rightarrow> 'r tworld_scheme \<Rightarrow> bool" and x :: "'r tworld_scheme ext"
  assumes refl: "R w w"
    and trans: "R u v \<Longrightarrow> R v w \<Longrightarrow> R u w"
    and credit: "credit_account key amount w = Inr w' \<Longrightarrow> R w w'"
    and balances: "R w (set_balances b w)"
    and emits: "R w (emit e w)"
    and tree: "R w (set_tree t w)"
    and current: "R w (w\<lparr>tw_current_tx := og\<rparr>)"
    and call: "x_call x c f a w = Inr w' \<Longrightarrow> R w w'"
    and raw: "x_call_raw x c f bs w = (r, w') \<Longrightarrow> R w w'"
begin

lemma credit_contract_R: "credit_contract c v w = Inr w' \<Longrightarrow> R w w'"
  using balances by (auto simp: credit_contract_def)

lemma push_note_R: "R w (snd (push_note_current_height h n w))"
  using tree by (simp add: push_note_current_height_def push_note_def split_beta)

lemma set_deposit_R: "R w (set_deposit d w)"
  unfolding set_deposit_def by (rule current)

lemma mint_withdrawal_R: "mint_withdrawal h wr fn d w = Inr w' \<Longrightarrow> R w w'"
  using credit push_note_R
  by (auto simp: mint_withdrawal_def Let_def
      split: withdraw_receiver.splits withdraw_signature.splits if_splits)

lemma mint_R: "mint h wr caller m w = Inr w' \<Longrightarrow> R w w'"
  using trans [OF mint_withdrawal_R emits] by (auto simp: mint_def split: if_splits)

lemma mint_to_contract_R: "mint_to_contract x caller m w = Inr w' \<Longrightarrow> R w w'"
  using trans [OF credit_contract_R trans [OF call emits]]
  by (auto simp: mint_to_contract_def split: if_splits)

lemma sub_contract_balance_R: "sub_contract_balance c v w = Inr w' \<Longrightarrow> R w w'"
  using balances by (auto elim!: sub_contract_balance_ok)

lemma transfer_withdraw_R: "transfer_withdraw h wr caller d w = Inr w' \<Longrightarrow> R w w'"
  using trans [OF sub_contract_balance_R trans [OF mint_withdrawal_R emits]]
  by (auto simp: transfer_withdraw_def split: if_splits)

lemma convert_R: "convert h wr caller d w = Inr w' \<Longrightarrow> R w w'"
  using trans [OF mint_withdrawal_R trans [OF set_deposit_R emits]]
  by (auto elim!: convert_ok)

lemma transfer_deposit_R: "transfer_deposit caller v w = Inr w' \<Longrightarrow> R w w'"
  using trans [OF credit_contract_R trans [OF set_deposit_R emits]]
  by (auto elim!: transfer_deposit_ok)

lemma contract_to_contract_R: "contract_to_contract x caller t w = Inr w' \<Longrightarrow> R w w'"
  using trans [OF balances trans [OF credit_contract_R trans [OF call emits]]]
  by (auto simp: contract_to_contract_def split: if_splits)

lemma contract_to_account_R: "contract_to_account h caller t w = Inr w' \<Longrightarrow> R w w'"
  using trans [OF balances trans [OF credit emits]]
  by (auto simp: contract_to_account_def split: if_splits)

lemma refund_R:
  assumes "refund h gas w = Inr w'"
  shows "R w w'"
proof -
  obtain og where og: "tw_current_tx w = Some og"
    using assms by (auto simp: refund_def take_ongoing_def)
  show ?thesis
  proof (cases "og_tx og")
    case (Phoenix tx)
    with assms og trans [OF current trans [OF push_note_R emits]] show ?thesis
      by (auto simp: refund_def take_ongoing_def Let_def split_beta)
  next
    case (Moonlight tx)
    with assms og trans [OF current trans [OF credit emits]] show ?thesis
      by (auto simp: refund_def take_ongoing_def Let_def)
  qed
qed

end

section \<open>The ledger only grows\<close>

definition ledger_grows :: "'r tworld_scheme \<Rightarrow> 'r tworld_scheme \<Rightarrow> bool" where
  "ledger_grows w w' \<longleftrightarrow>
     (\<forall>k a. bm_get (accounts w) k = Some a \<longrightarrow>
        (\<exists>a'. bm_get (accounts w') k = Some a' \<and> acc_nonce a \<le> acc_nonce a')) \<and>
     (\<forall>n. bm_get (tf_nullifiers (tw_state w)) n \<noteq> None \<longrightarrow>
        bm_get (tf_nullifiers (tw_state w')) n \<noteq> None)"

lemma ledger_grows_refl [simp, intro]: "ledger_grows w w"
  by (simp add: ledger_grows_def)

lemma ledger_grows_trans: "ledger_grows u v \<Longrightarrow> ledger_grows v w \<Longrightarrow> ledger_grows u w"
  unfolding ledger_grows_def by (meson order_trans)

lemma ledger_grows_frame:
  "accounts w' = accounts w \<Longrightarrow> tf_nullifiers (tw_state w') = tf_nullifiers (tw_state w) \<Longrightarrow>
   ledger_grows w w'"
  by (simp add: ledger_grows_def)

lemma ledger_growsD:
  "ledger_grows w w' \<Longrightarrow> bm_get (accounts w) k = Some a \<Longrightarrow>
   \<exists>a'. bm_get (accounts w') k = Some a' \<and> acc_nonce a \<le> acc_nonce a'"
  "ledger_grows w w' \<Longrightarrow> bm_get (tf_nullifiers (tw_state w)) n \<noteq> None \<Longrightarrow>
   bm_get (tf_nullifiers (tw_state w')) n \<noteq> None"
  by (simp_all add: ledger_grows_def)

lemma ledger_grows_credit:
  assumes "credit_account key v w = Inr w'"
  shows "ledger_grows w w'"
proof -
  let ?a = "bm_get_or EMPTY_ACCOUNT (accounts w) key"
  obtain b where "w' = set_accounts (bm_insert key (?a\<lparr>acc_balance := b\<rparr>) (accounts w)) w"
    using assms by (auto simp: credit_account_def Let_def)
  then show ?thesis by (auto simp: ledger_grows_def bm_get_or_def)
qed

definition call_grows :: "'r tworld_scheme ext \<Rightarrow> bool" where
  "call_grows x \<longleftrightarrow>
     (\<forall>c f a w w'. x_call x c f a w = Inr w' \<longrightarrow> ledger_grows w w') \<and>
     (\<forall>c f a w r w'. x_call_raw x c f a w = (r, w') \<longrightarrow> ledger_grows w w')"

lemma call_grows_relation: "call_grows x \<Longrightarrow> transfer_relation ledger_grows x"
  by unfold_locales
     (auto simp: call_grows_def intro: ledger_grows_trans ledger_grows_credit ledger_grows_frame)

section \<open>Nullifiers\<close>

lemma insert_nullifier_Inr:
  "insert_nullifier n s = Inr s' \<longleftrightarrow> bm_get s n = None \<and> s' = bm_insert n () s"
  by (cases "bm_get s n") (auto simp: insert_nullifier_def)

lemma insert_nullifiers_ok:
  assumes "res_fold insert_nullifier ns s = Inr s'"
  shows "distinct ns \<and> (\<forall>n \<in> set ns. bm_get s n = None) \<and>
         (\<forall>n. bm_get s' n \<noteq> None \<longleftrightarrow> bm_get s n \<noteq> None \<or> n \<in> set ns)"
  using assms
proof (induction ns arbitrary: s)
  case (Cons m ns)
  then obtain "bm_get s m = None" and fold: "res_fold insert_nullifier ns (bm_insert m () s) = Inr s'"
    by (auto simp: insert_nullifier_Inr)
  with Cons.IH [OF fold] show ?case by (auto simp del: not_None_eq split: if_splits)
qed simp

lemma transitory_push_notes:
  assumes "res_fold transitory_push_note ns w = Inr w'"
  shows "tw_state w' = tw_state w \<and> tworld.more w' = tworld.more w"
  using assms
  by (induction ns arbitrary: w) (fastforce simp: transitory_push_note_def)+

lemma spend_phoenix_ok:
  assumes "spend_phoenix h pw tx w = Inr w'"
  obtains "pt_chain_id tx = h_chain_id h" and "root_exists h (pt_root tx) w"
    and "verify_tx_proof h pw tx = Inr True" and "distinct (pt_nullifiers tx)"
    and "\<forall>n \<in> set (pt_nullifiers tx). bm_get (tf_nullifiers (tw_state w)) n = None"
    and "\<forall>n. bm_get (tf_nullifiers (tw_state w')) n \<noteq> None \<longleftrightarrow>
              bm_get (tf_nullifiers (tw_state w)) n \<noteq> None \<or> n \<in> set (pt_nullifiers tx)"
    and "tf_tree (tw_state w') =
           snd (tree_extend_notes h (h_block_height h) (pt_outputs tx) (tf_tree (tw_state w)))"
    and "accounts w' = accounts w" and "balances w' = balances w"
    and "tworld.more w' = tworld.more w"
proof -
  let ?tree = "tree_extend_notes h (h_block_height h) (pt_outputs tx) (tf_tree (tw_state w))"
  obtain ns where pre: "pt_chain_id tx = h_chain_id h" "root_exists h (pt_root tx) w"
      "verify_tx_proof h pw tx = Inr True"
    and ns: "res_fold insert_nullifier (pt_nullifiers tx) (tf_nullifiers (tw_state w)) = Inr ns"
    and push: "res_fold transitory_push_note (fst ?tree)
      (w\<lparr>tw_state := (tw_state w)\<lparr>tf_nullifiers := ns, tf_tree := snd ?tree\<rparr>\<rparr>) = Inr w'"
    using assms by (auto simp: spend_phoenix_def Let_def split_beta split: if_splits)
  from insert_nullifiers_ok [OF ns] transitory_push_notes [OF push]
  show thesis by (intro that [OF pre]) auto
qed

text \<open>
  What a successful \<open>spend_phoenix\<close> has checked and done: the chain is right, the root is known,
  the proof verifies for one to four inputs, the nullifiers are pairwise distinct and were all
  unspent, and afterwards exactly they are spent in addition; the outputs are appended to the tree.
\<close>

theorem spend_phoenix_spec:
  assumes "spend_phoenix h pw tx w = Inr w'"
  shows "pt_chain_id tx = h_chain_id h \<and> root_exists h (pt_root tx) w \<and>
         verify_tx_proof h pw tx = Inr True \<and> length (pt_nullifiers tx) \<in> {1..4} \<and>
         distinct (pt_nullifiers tx) \<and>
         (\<forall>n \<in> set (pt_nullifiers tx). bm_get (tf_nullifiers (tw_state w)) n = None) \<and>
         (\<forall>n. bm_get (tf_nullifiers (tw_state w')) n \<noteq> None \<longleftrightarrow>
              bm_get (tf_nullifiers (tw_state w)) n \<noteq> None \<or> n \<in> set (pt_nullifiers tx)) \<and>
         tf_tree (tw_state w') =
           snd (tree_extend_notes h (h_block_height h) (pt_outputs tx) (tf_tree (tw_state w))) \<and>
         accounts w' = accounts w \<and> balances w' = balances w"
proof (rule spend_phoenix_ok [OF assms])
  assume "verify_tx_proof h pw tx = Inr True"
  then have "length (pt_nullifiers tx) \<in> {1..4}"
    by (auto simp: verify_tx_proof_def tx_circuit_verifier_def split: if_splits)
  then show ?thesis using spend_phoenix_ok [OF assms] by blast
qed

section \<open>Histories\<close>

text \<open>
  The calls a node makes from outside the VM, at any block height.  Contracts act only inside
  \<open>spend_and_execute\<close>, through \<open>x\<close>.
\<close>

inductive transfer_step ::
    "host \<Rightarrow> wire \<Rightarrow> phoenix_wire \<Rightarrow> 'r tworld_scheme ext \<Rightarrow> 'r tworld_scheme \<Rightarrow> 'r tworld_scheme \<Rightarrow> bool"
  for h wr pw x where
    step_spend: "spend_and_execute (h\<lparr>h_block_height := bh\<rparr>) wr pw x tx w = Inr (res, w')
      \<Longrightarrow> transfer_step h wr pw x w w'"
  | step_refund: "refund (h\<lparr>h_block_height := bh\<rparr>) gas w = Inr w' \<Longrightarrow> transfer_step h wr pw x w w'"
  | step_root: "transfer_step h wr pw x w (update_root h w)"
  | step_note: "transfer_step h wr pw x w (snd (push_note h bh n w))"
  | step_add: "transfer_step h wr pw x w (add_account_balance h key v w)"
  | step_sub: "transfer_step h wr pw x w (sub_account_balance h key v w)"
  | step_add_contract: "add_contract_balance c v w = Inr w' \<Longrightarrow> transfer_step h wr pw x w w'"

lemma spend_moonlight_grows:
  assumes "spend_moonlight h wr tx w = Inr w'"
  shows "ledger_grows w w'"
    and "\<exists>a. bm_get (accounts w') (h_pk_to_raw_bytes h (mt_sender tx)) = Some a \<and>
             mt_nonce tx \<le> acc_nonce a"
proof -
  let ?k = "h_pk_to_raw_bytes h (mt_sender tx)"
  obtain a a' where a: "bm_get (accounts w) ?k = Some a"
    and n: "unat (mt_nonce tx) = unat (acc_nonce a) + 1" "acc_nonce a' = mt_nonce tx"
    and w': "(if mt_value tx > 0 then
        credit_account (case mt_receiver tx of Some r \<Rightarrow> h_pk_to_raw_bytes h r | None \<Rightarrow> ?k) (mt_value tx)
      else Inr) (set_accounts (bm_insert ?k a' (accounts w)) w) = Inr w'"
    by (rule spend_moonlight_ok [OF assms], erule that) simp_all
  let ?w1 = "set_accounts (bm_insert ?k a' (accounts w)) w"
  have "acc_nonce a \<le> acc_nonce a'" using n by (simp add: word_le_nat_alt)
  with a have "ledger_grows w ?w1" by (auto simp: ledger_grows_def)
  moreover have g: "ledger_grows ?w1 w'"
    using w' ledger_grows_credit by (auto split: if_splits)
  ultimately show "ledger_grows w w'" by (rule ledger_grows_trans)
  show "\<exists>a. bm_get (accounts w') ?k = Some a \<and> mt_nonce tx \<le> acc_nonce a"
    using ledger_growsD(1) [OF g, of ?k a'] n by simp
qed

lemma spend_phoenix_grows: "spend_phoenix h pw tx w = Inr w' \<Longrightarrow> ledger_grows w w'"
  by (erule spend_phoenix_ok) (auto simp: ledger_grows_def)

lemma put_transaction_state: "put_transaction tx w = Inr w' \<Longrightarrow> tw_state w' = tw_state w"
  by (erule put_transaction_ok) simp

lemma spend_and_execute_ok:
  assumes "spend_and_execute h wr pw x tx w = Inr (res, w')"
  obtains w0 ws where "put_transaction tx w = Inr w0"
    and "case tx of Phoenix t \<Rightarrow> spend_phoenix h pw t w0 = Inr ws
         | Moonlight t \<Rightarrow> spend_moonlight h wr t w0 = Inr ws"
    and "w' = ws \<or> (\<exists>c f a. x_call_raw x c f a ws = (res, w'))"
  using assms
  by (cases tx) (fastforce simp: spend_and_execute_def split: if_splits option.splits)+

lemma spend_and_execute_grows:
  assumes "call_grows x" and "spend_and_execute h wr pw x tx w = Inr (res, w')"
  shows "ledger_grows w w'"
proof (rule spend_and_execute_ok [OF assms(2)])
  fix w0 ws
  assume put: "put_transaction tx w = Inr w0"
    and spend: "case tx of Phoenix t \<Rightarrow> spend_phoenix h pw t w0 = Inr ws
         | Moonlight t \<Rightarrow> spend_moonlight h wr t w0 = Inr ws"
    and call: "w' = ws \<or> (\<exists>c f a. x_call_raw x c f a ws = (res, w'))"
  have "ledger_grows w w0"
    using put_transaction_state [OF put] by (simp add: ledger_grows_def)
  moreover have "ledger_grows w0 ws"
    using spend spend_phoenix_grows spend_moonlight_grows(1) by (auto split: transaction.splits)
  moreover have "ledger_grows ws w'"
    using call assms(1) by (auto simp: call_grows_def)
  ultimately show ?thesis by (blast intro: ledger_grows_trans)
qed

lemma transfer_step_grows:
  assumes "transfer_step h wr pw x w w'" and "call_grows x"
  shows "ledger_grows w w'"
  using assms
proof (cases rule: transfer_step.cases)
  case step_add_contract
  then show ?thesis
    using credit_contract_totals(2,4)
    by (auto simp: add_contract_balance_credit intro!: ledger_grows_frame)
next
  case step_refund
  then show ?thesis
    using transfer_relation.refund_R [OF call_grows_relation [OF assms(2)]] by blast
qed (auto simp: ledger_grows_def update_root_def add_account_balance_def sub_account_balance_def
      Let_def bm_get_or_def push_note_def split_beta
      dest: spend_and_execute_grows [OF assms(2)] split: option.splits)

lemma transfer_steps_grow:
  "(transfer_step h wr pw x)\<^sup>*\<^sup>* w w' \<Longrightarrow> call_grows x \<Longrightarrow> ledger_grows w w'"
  by (induction rule: rtranclp_induct) (auto intro: ledger_grows_trans dest: transfer_step_grows)

text \<open>What a later transaction must find, and what an earlier one has left.\<close>

lemma execute_moonlight_nonce:
  assumes "is_ok (spend_and_execute h wr pw x (Moonlight tx) w)"
  obtains a where "bm_get (accounts w) (h_pk_to_raw_bytes h (mt_sender tx)) = Some a"
    and "unat (mt_nonce tx) = unat (acc_nonce a) + 1"
proof -
  obtain r w' where "spend_and_execute h wr pw x (Moonlight tx) w = Inr (r, w')"
    using assms by (auto simp: is_ok_iff)
  then show thesis
  proof (rule spend_and_execute_ok)
    fix v0 vs
    assume put: "put_transaction (Moonlight tx) w = Inr v0"
      and "case Moonlight tx of Phoenix t \<Rightarrow> spend_phoenix h pw t v0 = Inr vs
           | Moonlight t \<Rightarrow> spend_moonlight h wr t v0 = Inr vs"
    then have v: "spend_moonlight h wr tx v0 = Inr vs" by simp
    show thesis
      by (rule spend_moonlight_ok [OF v], rule that) (simp_all add: put_transaction_state [OF put])
  qed
qed

lemma execute_phoenix_unspent:
  assumes "is_ok (spend_and_execute h wr pw x (Phoenix tx) w)" and "n \<in> set (pt_nullifiers tx)"
  shows "bm_get (tf_nullifiers (tw_state w)) n = None"
proof -
  obtain r w' where "spend_and_execute h wr pw x (Phoenix tx) w = Inr (r, w')"
    using assms(1) by (auto simp: is_ok_iff)
  then show ?thesis
  proof (rule spend_and_execute_ok)
    fix v0 vs
    assume put: "put_transaction (Phoenix tx) w = Inr v0"
      and "case Phoenix tx of Phoenix t \<Rightarrow> spend_phoenix h pw t v0 = Inr vs
           | Moonlight t \<Rightarrow> spend_moonlight h wr t v0 = Inr vs"
    then have v: "spend_phoenix h pw tx v0 = Inr vs" by simp
    show ?thesis
      by (rule spend_phoenix_ok [OF v]) (use put_transaction_state [OF put] assms(2) in simp)
  qed
qed

lemma execute_leaves:
  assumes "call_grows x" and "spend_and_execute h wr pw x tx w = Inr (res, w1)"
    and "(transfer_step h wr pw x)\<^sup>*\<^sup>* w1 w2"
  obtains w0 ws where "case tx of Phoenix t \<Rightarrow> spend_phoenix h pw t w0 = Inr ws
         | Moonlight t \<Rightarrow> spend_moonlight h wr t w0 = Inr ws"
    and "ledger_grows ws w2"
proof (rule spend_and_execute_ok [OF assms(2)])
  fix w0 ws
  assume spend: "case tx of Phoenix t \<Rightarrow> spend_phoenix h pw t w0 = Inr ws
         | Moonlight t \<Rightarrow> spend_moonlight h wr t w0 = Inr ws"
    and call: "w1 = ws \<or> (\<exists>c f a. x_call_raw x c f a ws = (res, w1))"
  have "ledger_grows ws w1" using call assms(1) by (auto simp: call_grows_def)
  with transfer_steps_grow [OF assms(3,1)] show thesis
    by (intro that [OF spend]) (rule ledger_grows_trans)
qed

lemma moonlight_spent_once:
  assumes "call_grows x" and "spend_and_execute h wr pw x (Moonlight tx) w = Inr (res, w1)"
    and "(transfer_step h wr pw x)\<^sup>*\<^sup>* w1 w2"
    and "mt_sender tx' = mt_sender tx" and "mt_nonce tx' \<le> mt_nonce tx"
  shows "\<not> is_ok (spend_and_execute (h\<lparr>h_block_height := bh\<rparr>) wr pw x (Moonlight tx') w2)"
proof (rule execute_leaves [OF assms(1-3)])
  let ?k = "h_pk_to_raw_bytes h (mt_sender tx)"
  fix w0 ws
  assume spend: "case Moonlight tx of Phoenix t \<Rightarrow> spend_phoenix h pw t w0 = Inr ws
         | Moonlight t \<Rightarrow> spend_moonlight h wr t w0 = Inr ws"
    and grows: "ledger_grows ws w2"
  obtain a where "bm_get (accounts ws) ?k = Some a" "mt_nonce tx \<le> acc_nonce a"
    using spend spend_moonlight_grows(2) [of h wr tx w0 ws] by auto
  with grows obtain a2 where a2: "bm_get (accounts w2) ?k = Some a2" "mt_nonce tx \<le> acc_nonce a2"
    by (meson ledger_growsD(1) order_trans)
  show ?thesis
    by (rule notI, erule execute_moonlight_nonce)
       (use a2 assms(4,5) in \<open>auto simp: word_le_nat_alt\<close>)
qed

text \<open>
  C19: No Moonlight replay.  Once a transaction has been spent, no transaction of the same sender
  with the same or a lower nonce can be spent, at any later height and after any history of calls.
\<close>

theorem moonlight_no_replay:
  assumes "call_grows x" and "spend_and_execute h wr pw x (Moonlight tx) w = Inr (res, w1)"
    and "(transfer_step h wr pw x)\<^sup>*\<^sup>* w1 w2"
    and "mt_sender tx' = mt_sender tx" and "mt_nonce tx' \<le> mt_nonce tx"
  shows "\<not> is_ok (spend_and_execute (h\<lparr>h_block_height := bh\<rparr>) wr pw x (Moonlight tx') w2)"
  by (rule moonlight_spent_once [OF assms])

text \<open>
  C20: No Phoenix replay.  A transaction that shares a nullifier with one spent before is rejected,
  at any later height and after any history of calls.
\<close>

theorem phoenix_no_double_spend:
  assumes "call_grows x" and "spend_and_execute h wr pw x (Phoenix tx) w = Inr (res, w1)"
    and "(transfer_step h wr pw x)\<^sup>*\<^sup>* w1 w2"
    and "n \<in> set (pt_nullifiers tx)" and "n \<in> set (pt_nullifiers tx')"
  shows "\<not> is_ok (spend_and_execute (h\<lparr>h_block_height := bh\<rparr>) wr pw x (Phoenix tx') w2)"
proof (rule execute_leaves [OF assms(1-3)])
  fix w0 ws
  assume spend: "case Phoenix tx of Phoenix t \<Rightarrow> spend_phoenix h pw t w0 = Inr ws
         | Moonlight t \<Rightarrow> spend_moonlight h wr t w0 = Inr ws"
    and grows: "ledger_grows ws w2"
  have "bm_get (tf_nullifiers (tw_state ws)) n \<noteq> None"
    using spend assms(4) spend_phoenix_ok [of h pw tx w0 ws] by auto
  then have "bm_get (tf_nullifiers (tw_state w2)) n \<noteq> None"
    by (rule ledger_growsD(2) [OF grows])
  with execute_phoenix_unspent [OF _ assms(5), of "h\<lparr>h_block_height := bh\<rparr>" wr pw x w2]
  show ?thesis by auto
qed

section \<open>The fee of a Phoenix transaction\<close>

text \<open>
  The fee of a Phoenix transaction is not bound by what the contract verifies.  The public inputs
  of the proof contain the payload hash, which leaves the fee out, and the \<open>max_fee\<close> of the skeleton;
  nothing compares \<open>max_fee\<close> with \<open>gas_limit * gas_price\<close>.  So spending is insensitive to the
  fee, and \<open>refund\<close> pays a note whose value is computed from the fee alone: with another gas limit
  in the fee, the same proof is accepted and the change is larger.
\<close>

theorem phoenix_fee_unbound:
  assumes "tw_current_tx w = Some og" and "og_deposit og = NoDeposit"
    and "og_tx og = Phoenix (tx\<lparr>pt_payload := (pt_payload tx)\<lparr>pp_fee := f\<rparr>\<rparr>)"
  shows "spend_phoenix h pw (tx\<lparr>pt_payload := (pt_payload tx)\<lparr>pp_fee := f\<rparr>\<rparr>) w0 =
           spend_phoenix h pw tx w0 \<and>
         (\<exists>w'. refund h 0 w = Inr w' \<and>
            tf_tree (tw_state w') =
              snd (tree_push h
                \<lparr>nl_block_height = h_block_height h,
                 nl_note = h_transparent_stealth h (pf_stealth_address f)
                   (pf_gas_limit f * pf_gas_price f) (pf_sender f)\<rparr> (tf_tree (tw_state w))))"
proof
  let ?tx = "tx\<lparr>pt_payload := (pt_payload tx)\<lparr>pp_fee := f\<rparr>\<rparr>"
  have acc: "pt_chain_id ?tx = pt_chain_id tx" "pt_root ?tx = pt_root tx"
      "pt_nullifiers ?tx = pt_nullifiers tx" "pt_outputs ?tx = pt_outputs tx" "pt_proof ?tx = pt_proof tx"
    by (simp_all add: pt_chain_id_def pt_root_def pt_nullifiers_def pt_outputs_def)
  then show "spend_phoenix h pw ?tx w0 = spend_phoenix h pw tx w0"
    by (simp add: spend_phoenix_def verify_tx_proof_def public_inputs_fee_irrelevant cong: if_cong)
  show "\<exists>w'. refund h 0 w = Inr w' \<and>
            tf_tree (tw_state w') =
              snd (tree_push h
                \<lparr>nl_block_height = h_block_height h,
                 nl_note = h_transparent_stealth h (pf_stealth_address f)
                   (pf_gas_limit f * pf_gas_price f) (pf_sender f)\<rparr> (tf_tree (tw_state w)))"
    using assms
    by (simp add: refund_def take_ongoing_def Let_def split_beta push_note_current_height_def
        push_note_def gen_remainder_note_def remainder_value_def pt_fee_def)
qed

section \<open>Concrete histories\<close>

lemma ext0_grows: "call_grows ext0"
  by (simp add: call_grows_def ext0_def)

theorem moonlight_no_replay_witness:
  "\<exists>res w1. spend_and_execute host0 wire0 phoenix_wire0 ext0 (Moonlight sample_moonlight) sample_world
       = Inr (res, w1) \<and>
     \<not> is_ok (spend_and_execute (host0\<lparr>h_block_height := 6000\<rparr>) wire0 phoenix_wire0 ext0
              (Moonlight sample_moonlight) (update_root host0 w1))"
proof -
  obtain r where "spend_and_execute host0 wire0 phoenix_wire0 ext0 (Moonlight sample_moonlight)
      sample_world = Inr r"
    using sample_spend_ok by (rule is_okE)
  then obtain res w1 where s: "spend_and_execute host0 wire0 phoenix_wire0 ext0
      (Moonlight sample_moonlight) sample_world = Inr (res, w1)" by (cases r) simp
  have "(transfer_step host0 wire0 phoenix_wire0 ext0)\<^sup>*\<^sup>* w1 (update_root host0 w1)"
    by (rule r_into_rtranclp) (rule step_root)
  from moonlight_no_replay [OF ext0_grows s this refl order_refl] s show ?thesis by blast
qed

definition sample_spend :: phoenix_transaction where
  "sample_spend = sample_phoenix\<lparr>pt_payload := (pt_payload sample_phoenix)
     \<lparr>pp_tx_skeleton := \<lparr>sk_root = BlsScalar 6, sk_nullifiers = [BlsScalar 11],
        sk_outputs = [NoteRepr [5, 0], NoteRepr [6, 0]], sk_max_fee = 0, sk_deposit = 0\<rparr>\<rparr>\<rparr>"

definition rooted_world :: tworld where
  "rooted_world = sample_world\<lparr>tw_state := (tw_state sample_world)\<lparr>tf_roots := [BlsScalar 6]\<rparr>\<rparr>"

lemmas phoenix_accessors =
  pt_chain_id_def pt_root_def pt_nullifiers_def pt_outputs_def pt_fee_def pt_deposit_def
  pt_gas_price_def pt_call_def data_call_def

lemma sample_phoenix_spend_ok:
  "is_ok (spend_and_execute host0 wire0 phoenix_wire0 ext0 (Phoenix sample_spend) rooted_world)"
  by (simp add: spend_and_execute_def put_transaction_def spend_phoenix_def tx_deposit_def
      tx_gas_price_def tx_moonlight_sender_def tx_call_def phoenix_accessors sample_defs
      rooted_world_def sample_spend_def sample_phoenix_def root_exists_def insert_nullifier_def
      verify_tx_proof_def tx_circuit_verifier_def pt_public_inputs_def sender_inputs_def transitory_push_note_def
      tree_push_def note_tree_new_def ext0_def Let_def)

theorem phoenix_no_double_spend_witness:
  "\<exists>res w1. spend_and_execute host0 wire0 phoenix_wire0 ext0 (Phoenix sample_spend) rooted_world
       = Inr (res, w1) \<and>
     \<not> is_ok (spend_and_execute (host0\<lparr>h_block_height := 6000\<rparr>) wire0 phoenix_wire0 ext0
              (Phoenix sample_spend) (update_root host0 w1))"
proof -
  obtain r where "spend_and_execute host0 wire0 phoenix_wire0 ext0 (Phoenix sample_spend)
      rooted_world = Inr r"
    using sample_phoenix_spend_ok by (rule is_okE)
  then obtain res w1 where s: "spend_and_execute host0 wire0 phoenix_wire0 ext0
      (Phoenix sample_spend) rooted_world = Inr (res, w1)" by (cases r) simp
  have "(transfer_step host0 wire0 phoenix_wire0 ext0)\<^sup>*\<^sup>* w1 (update_root host0 w1)"
    by (rule r_into_rtranclp) (rule step_root)
  moreover have "BlsScalar 11 \<in> set (pt_nullifiers sample_spend)"
    by (simp add: pt_nullifiers_def sample_spend_def)
  ultimately show ?thesis using phoenix_no_double_spend [OF ext0_grows s] s by blast
qed

definition large_fee :: phoenix_fee where
  "large_fee = \<lparr>pf_gas_limit = 1000000, pf_gas_price = 1000, pf_stealth_address = StealthAddress 4,
     pf_sender = ContractInfo []\<rparr>"

definition fee_world :: tworld where
  "fee_world = rooted_world\<lparr>tw_current_tx := Some
     \<lparr>og_tx = Phoenix (sample_spend\<lparr>pt_payload := (pt_payload sample_spend)\<lparr>pp_fee := large_fee\<rparr>\<rparr>),
      og_deposit = NoDeposit, og_notes = []\<rparr>\<rparr>"

lemma sample_phoenix_ok_spend:
  "is_ok (spend_phoenix host0 phoenix_wire0 sample_spend fee_world)"
  by (simp add: spend_phoenix_def phoenix_accessors sample_defs fee_world_def
      rooted_world_def sample_spend_def sample_phoenix_def root_exists_def insert_nullifier_def
      verify_tx_proof_def tx_circuit_verifier_def pt_public_inputs_def sender_inputs_def
      transitory_push_note_def tree_push_def note_tree_new_def Let_def)

theorem spend_phoenix_spec_witness:
  "\<exists>w'. spend_phoenix host0 phoenix_wire0 sample_spend fee_world = Inr w' \<and>
     bm_get (tf_nullifiers (tw_state fee_world)) (BlsScalar 11) = None \<and>
     bm_get (tf_nullifiers (tw_state w')) (BlsScalar 11) \<noteq> None"
proof -
  obtain w' where w: "spend_phoenix host0 phoenix_wire0 sample_spend fee_world = Inr w'"
    using sample_phoenix_ok_spend by (rule is_okE)
  have "BlsScalar 11 \<in> set (pt_nullifiers sample_spend)"
    by (simp add: pt_nullifiers_def sample_spend_def)
  with spend_phoenix_spec [OF w] w show ?thesis by blast
qed

theorem phoenix_fee_unbound_witness:
  "spend_phoenix host0 phoenix_wire0
       (sample_spend\<lparr>pt_payload := (pt_payload sample_spend)\<lparr>pp_fee := large_fee\<rparr>\<rparr>) fee_world =
     spend_phoenix host0 phoenix_wire0 sample_spend fee_world \<and>
   is_ok (spend_phoenix host0 phoenix_wire0 sample_spend fee_world) \<and>
   (\<exists>w'. refund host0 0 fee_world = Inr w' \<and>
     nt_leaves (tf_tree (tw_state w')) =
       [\<lparr>nl_block_height = 5000, nl_note = NoteRepr [1000000000, 0]\<rparr>])"
proof -
  have "tw_current_tx fee_world = Some
     \<lparr>og_tx = Phoenix (sample_spend\<lparr>pt_payload := (pt_payload sample_spend)\<lparr>pp_fee := large_fee\<rparr>\<rparr>),
      og_deposit = NoDeposit, og_notes = []\<rparr>"
    by (simp add: fee_world_def)
  moreover have "nt_leaves (snd (tree_push host0
      \<lparr>nl_block_height = h_block_height host0,
       nl_note = h_transparent_stealth host0 (pf_stealth_address large_fee)
         (pf_gas_limit large_fee * pf_gas_price large_fee) (pf_sender large_fee)\<rparr>
      (tf_tree (tw_state fee_world)))) = [\<lparr>nl_block_height = 5000, nl_note = NoteRepr [1000000000, 0]\<rparr>]"
    by (simp add: fee_world_def rooted_world_def sample_defs large_fee_def tree_push_def
        note_tree_new_def Let_def)
  ultimately show ?thesis
    using phoenix_fee_unbound [of fee_world _ large_fee sample_spend host0 phoenix_wire0 fee_world]
      sample_phoenix_ok_spend by fastforce
qed

end
