(* ===== verification/Stake_Contract.thy ===== *)
theory Stake_Contract
  imports Transfer_Safety
begin

text \<open>
  The stake contract, \<^verbatim>\<open>contracts/stake/src\<close>: the state and operations of \<^verbatim>\<open>state.rs\<close> and the entry
  points of \<^verbatim>\<open>lib.rs\<close>.  Its state is an extension of the transfer contract's world, because its
  operations call the transfer contract (\<open>deposit\<close>, \<open>withdraw\<close>, \<open>mint\<close>, \<open>contract_to_contract\<close>,
  \<open>mint_to_contract\<close>, \<open>sub_contract_balance\<close>); those calls are the definitions of
  \<^verbatim>\<open>Transfer_Contract\<close> with the stake contract as the caller.  The crate is compiled with overflow
  checks.

  The code holds a mutable reference to an entry of the map of stakes across those calls.  The calls of
  \<open>stake\<close>, \<open>unstake\<close> and \<open>withdraw\<close> reach no other contract, so the entry is the one that was loaded.  Those of
  \<open>unstake_from_contract\<close> and \<open>withdraw_from_contract\<close> call the receiving contract, which may call the
  stake contract again before they return: what is read through the reference afterwards is what the entry holds then
  (\<open>held_stake\<close>).
\<close>

record stake_state =
  ss_burnt_amount :: u64
  ss_config :: stake_config
  ss_previous_block_state :: "(bytes, stake_data option \<times> bls_public_key) btree_map"
  ss_stakes :: "(bytes, stake_data \<times> stake_keys) btree_map"

definition STAKE_CONTRACT_VERSION :: u64 where
  "STAKE_CONTRACT_VERSION = 8"

definition stake_state_new :: stake_state where
  "stake_state_new =
     \<lparr>ss_burnt_amount = 0, ss_config = stake_config_new, ss_previous_block_state = bm_empty,
      ss_stakes = bm_empty\<rparr>"

record sworld = tworld +
  sw_stake :: stake_state

section \<open>Access to the state\<close>

abbreviation stakes_map :: "'r sworld_scheme \<Rightarrow> (bytes, stake_data \<times> stake_keys) btree_map" where
  "stakes_map w \<equiv> ss_stakes (sw_stake w)"

abbreviation previous_map :: "'r sworld_scheme \<Rightarrow> (bytes, stake_data option \<times> bls_public_key) btree_map" where
  "previous_map w \<equiv> ss_previous_block_state (sw_stake w)"

definition set_stakes ::
    "(bytes, stake_data \<times> stake_keys) btree_map \<Rightarrow> 'r sworld_scheme \<Rightarrow> 'r sworld_scheme" where
  "set_stakes m w = w\<lparr>sw_stake := (sw_stake w)\<lparr>ss_stakes := m\<rparr>\<rparr>"

text \<open>\<open>previous_block_state.entry(key).or_insert((prev_stake, account))\<close>\<close>

definition record_previous ::
    "wire \<Rightarrow> stake_data option \<Rightarrow> bls_public_key \<Rightarrow> 'r sworld_scheme \<Rightarrow> 'r sworld_scheme" where
  "record_previous wr prev_stake acct w =
     w\<lparr>sw_stake := (sw_stake w)\<lparr>ss_previous_block_state :=
       bm_or_insert (w_pk_to_bytes wr acct) (prev_stake, acct) (previous_map w)\<rparr>\<rparr>"

definition stake_config_of :: "'r sworld_scheme \<Rightarrow> stake_config" where
  "stake_config_of w = ss_config (sw_stake w)"

definition configure :: "stake_config \<Rightarrow> 'r sworld_scheme \<Rightarrow> 'r sworld_scheme" where
  "configure config w = w\<lparr>sw_stake := (sw_stake w)\<lparr>ss_config := config\<rparr>\<rparr>"

definition on_new_block :: "'r sworld_scheme \<Rightarrow> 'r sworld_scheme" where
  "on_new_block w = w\<lparr>sw_stake := (sw_stake w)\<lparr>ss_previous_block_state := bm_empty\<rparr>\<rparr>"

definition get_stake :: "wire \<Rightarrow> bls_public_key \<Rightarrow> 'r sworld_scheme \<Rightarrow> stake_data option" where
  "get_stake wr key w = map_option fst (bm_get (stakes_map w) (w_pk_to_bytes wr key))"

definition get_stake_keys :: "wire \<Rightarrow> bls_public_key \<Rightarrow> 'r sworld_scheme \<Rightarrow> stake_keys option" where
  "get_stake_keys wr key w = map_option snd (bm_get (stakes_map w) (w_pk_to_bytes wr key))"

definition get_stake_mut ::
    "wire \<Rightarrow> bls_public_key \<Rightarrow> 'r sworld_scheme \<Rightarrow> (stake_data \<times> stake_keys) option" where
  "get_stake_mut wr key w = bm_get (stakes_map w) (w_pk_to_bytes wr key)"

definition insert_stake ::
    "wire \<Rightarrow> stake_keys \<Rightarrow> stake_data \<Rightarrow> 'r sworld_scheme \<Rightarrow> 'r sworld_scheme" where
  "insert_stake wr keys s w =
     set_stakes (bm_insert (w_pk_to_bytes wr (sk_account keys)) (s, keys) (stakes_map w)) w"

definition load_or_create_stake_mut ::
    "wire \<Rightarrow> stake_keys \<Rightarrow> 'r sworld_scheme \<Rightarrow> ((stake_data \<times> stake_keys) \<times> 'r sworld_scheme) res" where
  "load_or_create_stake_mut wr keys w =
     (let key = w_pk_to_bytes wr (sk_account keys) in
      case bm_get (stakes_map w) key of
        Some (s, loaded_keys) \<Rightarrow>
          if keys \<noteq> loaded_keys then Inl (Panic ''Keys mismatch'') else Inr ((s, loaded_keys), w)
      | None \<Rightarrow>
          Inr ((stake_data_EMPTY, keys),
               set_stakes (bm_insert key (stake_data_EMPTY, keys) (stakes_map w)) w))"

definition set_burnt_amount :: "u64 \<Rightarrow> 'r sworld_scheme \<Rightarrow> 'r sworld_scheme" where
  "set_burnt_amount n w = w\<lparr>sw_stake := (sw_stake w)\<lparr>ss_burnt_amount := n\<rparr>\<rparr>"

definition stakes :: "'r sworld_scheme \<Rightarrow> (stake_keys \<times> stake_data) list" where
  "stakes w = map (\<lambda>(s, keys). (keys, s)) (bm_values (stakes_map w))"

definition prev_state_changes :: "'r sworld_scheme \<Rightarrow> (bls_public_key \<times> stake_data option) list" where
  "prev_state_changes w = map (\<lambda>(s, acct). (acct, s)) (bm_values (previous_map w))"

definition unwrap_account_owner :: "host \<Rightarrow> stake_fund_owner \<Rightarrow> bls_public_key res" where
  "unwrap_account_owner h owner =
     (case owner of
        Account key \<Rightarrow>
          if h_pk_is_valid h key then Inr key else Inl (Panic ''Specified owner key is not valid'')
      | Contract _ \<Rightarrow> Inl (Panic ''expect StakeFundOwner::Account''))"

definition unwrap_contract_owner :: "stake_fund_owner \<Rightarrow> contract_id res" where
  "unwrap_contract_owner owner =
     (case owner of
        Account _ \<Rightarrow> Inl (Panic ''expect StakeFundOwner::Contract'')
      | Contract i \<Rightarrow> Inr i)"

section \<open>Staking\<close>

text \<open>
  The block shared by \<open>stake\<close> and \<open>stake_from_contract\<close>: a top-up of an eligible stake locks a tenth
  of the value, a first stake becomes eligible in the epoch after the next.
\<close>

definition add_to_stake ::
    "host \<Rightarrow> stake_keys \<Rightarrow> u64 \<Rightarrow> stake_data \<Rightarrow> (stake_data \<times> stake_event) res" where
  "add_to_stake h keys value loaded =
     (case sd_amount loaded of
        Some amount \<Rightarrow>
          let locked = (if am_eligibility amount \<le> h_block_height h then value div 10 else 0) in
          res_bind (sub_chk value locked) (\<lambda>value.
          res_bind (add_chk (am_locked amount) locked) (\<lambda>l.
          res_bind (add_chk (am_value amount) value) (\<lambda>v.
            Inr (loaded\<lparr>sd_amount := Some (amount\<lparr>am_locked := l, am_value := v\<rparr>)\<rparr>,
                 stake_event_locked locked (stake_event_new keys value)))))
      | None \<Rightarrow>
          Inr (loaded\<lparr>sd_amount := Some (amount_new value (h_block_height h))\<rparr>,
               stake_event_new keys value))"

definition finish_stake ::
    "host \<Rightarrow> wire \<Rightarrow> stake_request \<Rightarrow> stake_data option \<Rightarrow> stake_data \<Rightarrow> stake_keys
     \<Rightarrow> 'r sworld_scheme \<Rightarrow> 'r sworld_scheme res" where
  "finish_stake h wr s prev_stake loaded keys w =
     res_bind (add_to_stake h keys (st_value s) loaded) (\<lambda>(loaded, event).
       Inr (record_previous wr prev_stake (sk_account (st_keys s))
             (emit (StakeEvent event)
               (set_stakes (bm_insert (w_pk_to_bytes wr (sk_account keys)) (loaded, keys) (stakes_map w)) w))))"

definition stake :: "host \<Rightarrow> wire \<Rightarrow> stake_request \<Rightarrow> 'r sworld_scheme \<Rightarrow> 'r sworld_scheme res" where
  "stake h wr s w =
     (let minimum_stake = sc_minimum_stake (stake_config_of w);
          signature = st_signature s
      in
      if st_chain_id s \<noteq> h_chain_id h then Inl (Panic ''The stake must target the correct chain'')
      else
        let prev_stake = get_stake wr (sk_account (st_keys s)) w in
        res_bind (load_or_create_stake_mut wr (st_keys s) w) (\<lambda>((loaded, keys), w).
        if sd_amount loaded = None \<and> st_value s < minimum_stake then
          Inl (Panic ''The staked value is lower than the minimum amount!'')
        else
          res_bind (unwrap_account_owner h (sk_owner keys)) (\<lambda>owner.
          let msg = stake_signature_message wr s in
          if \<not> h_verify_bls h msg owner (ds_owner signature) then
            Inl (Panic ''Invalid owner signature!'')
          else if \<not> h_verify_bls h msg (sk_account keys) (ds_account signature) then
            Inl (Panic ''Invalid account signature!'')
          else
            res_bind (expect_ok ''Depositing funds into contract should succeed''
                (transfer_deposit (Some STAKE_CONTRACT) (st_value s) w))
              (finish_stake h wr s prev_stake loaded keys))))"

text \<open>\<open>decode\<close> is \<open>rkyv::from_bytes\<close>, which is not part of the repository.\<close>

definition stake_from_contract ::
    "host \<Rightarrow> wire \<Rightarrow> (bytes \<Rightarrow> stake_request option) \<Rightarrow> receive_from_contract
     \<Rightarrow> 'r sworld_scheme \<Rightarrow> 'r sworld_scheme res" where
  "stake_from_contract h wr decode recv w =
     res_bind (expect ''Invalid stake received'' (decode (rc_data recv))) (\<lambda>s.
     let minimum_stake = sc_minimum_stake (stake_config_of w) in
     if st_chain_id s \<noteq> h_chain_id h then Inl (Panic ''The stake must target the correct chain'')
     else
       let prev_stake = get_stake wr (sk_account (st_keys s)) w in
       res_bind (load_or_create_stake_mut wr (st_keys s) w) (\<lambda>((loaded, keys), w).
       res_bind (unwrap_contract_owner (sk_owner keys)) (\<lambda>contract.
       if contract \<noteq> rc_contract recv then Inl (Panic ''Invalid contract caller'')
       else if st_value s \<noteq> rc_value recv then Inl (Panic ''Stake amount mismatch'')
       else if sd_amount loaded = None \<and> st_value s < minimum_stake then
         Inl (Panic ''The staked value is lower than the minimum amount!'')
       else if sd_amount loaded = None \<and>
               \<not> h_verify_bls h (stake_signature_message wr s) (sk_account (st_keys s))
                   (ds_account (st_signature s)) then
         Inl (Panic ''Invalid account signature!'')
       else finish_stake h wr s prev_stake loaded keys w)))"

section \<open>Unstaking\<close>

text \<open>The block shared by \<open>unstake\<close> and \<open>unstake_from_contract\<close>: funds first, then locked funds.\<close>

definition take_from_amount ::
    "stake_keys \<Rightarrow> u64 \<Rightarrow> stake_amount \<Rightarrow> (stake_amount \<times> stake_event) res" where
  "take_from_amount keys value a =
     (if value > am_value a then
        res_bind (sub_chk value (am_value a)) (\<lambda>from_locked.
        res_bind (sub_chk (am_locked a) from_locked) (\<lambda>l.
          Inr (a\<lparr>am_value := 0, am_locked := l\<rparr>,
               stake_event_locked from_locked (stake_event_new keys (am_value a)))))
      else
        res_bind (sub_chk (am_value a) value) (\<lambda>v.
          Inr (a\<lparr>am_value := v\<rparr>, stake_event_new keys value)))"

definition store_unstaked ::
    "bytes \<Rightarrow> stake_data \<Rightarrow> stake_keys \<Rightarrow> stake_amount \<Rightarrow> 'r sworld_scheme \<Rightarrow> 'r sworld_scheme" where
  "store_unstaked key loaded keys a w =
     (if total_funds a = 0 then
        if sd_reward loaded = 0 then set_stakes (bm_remove key (stakes_map w)) w
        else set_stakes (bm_insert key (loaded\<lparr>sd_amount := None\<rparr>, keys) (stakes_map w)) w
      else set_stakes (bm_insert key (loaded\<lparr>sd_amount := Some a\<rparr>, keys) (stakes_map w)) w)"

definition unstake :: "host \<Rightarrow> wire \<Rightarrow> stake_withdraw \<Rightarrow> 'r sworld_scheme \<Rightarrow> 'r sworld_scheme res" where
  "unstake h wr u w =
     (let acct = sw_account u; value = wd_value (sw_withdraw u); signature = sw_signature u;
          key = w_pk_to_bytes wr acct
      in
      res_bind (expect ''A stake should exist in the map to be unstaked!'' (get_stake_mut wr acct w))
      (\<lambda>(loaded, keys).
      res_bind (expect ''There must be an amount to unstake'' (sd_amount loaded)) (\<lambda>a.
      if value > total_funds a then Inl (Panic ''Value to unstake higher than the staked amount'')
      else
        res_bind (unwrap_account_owner h (sk_owner keys)) (\<lambda>owner.
        let msg = stake_withdraw_signature_message wr u in
        if \<not> h_verify_bls h msg owner (ds_owner signature) then
          Inl (Panic ''Invalid owner signature!'')
        else if \<not> h_verify_bls h msg (sk_account keys) (ds_account signature) then
          Inl (Panic ''Invalid account signature!'')
        else
          res_bind (expect_ok ''Withdrawing stake should succeed''
              (transfer_withdraw h wr (Some STAKE_CONTRACT) (sw_withdraw u) w)) (\<lambda>w.
          res_bind (take_from_amount keys value a) (\<lambda>(a, event).
          if total_funds a \<noteq> 0 \<and> total_funds a < sc_minimum_stake (stake_config_of w) then
            Inl (Panic ''Stake left is lower than minimum stake'')
          else
            Inr (record_previous wr (Some loaded) acct
              (store_unstaked key loaded keys a (emit (UnstakeEvent event) w)))))))))"

text \<open>
  What the reference that was taken in the world \<open>w\<close> reads in a later world \<open>w'\<close>: the present contents of the
  entry.  It stays valid while entries are changed in place.  When an entry is added to the map or removed from it in between,
  the entries move in memory or are freed and the reference dangles; what the code does then is undefined, and the model ends
  the call with an error.
\<close>

definition held_stake ::
    "bytes \<Rightarrow> 'r sworld_scheme \<Rightarrow> 'r sworld_scheme \<Rightarrow> (stake_data \<times> stake_keys) res" where
  "held_stake key w w' =
     (if bm_keys (stakes_map w') = bm_keys (stakes_map w) then
        expect ''the reference to the stake is dangling'' (bm_get (stakes_map w') key)
      else Inl (Panic ''the reference to the stake is dangling''))"

definition unstake_from_contract ::
    "wire \<Rightarrow> 'r sworld_scheme ext \<Rightarrow> contract_id option \<Rightarrow> withdraw_to_contract
     \<Rightarrow> 'r sworld_scheme \<Rightarrow> 'r sworld_scheme res" where
  "unstake_from_contract wr x caller u w =
     (let acct = wtc_account u; value = wtc_value u; key = w_pk_to_bytes wr acct in
      res_bind (expect ''A stake should exist in the map to be unstaked!'' (get_stake_mut wr acct w))
      (\<lambda>(prev_stake, keys).
      res_bind (expect ''There must be an amount to unstake'' (sd_amount prev_stake)) (\<lambda>a.
      if value > total_funds a then Inl (Panic ''Value to unstake higher than the staked amount'')
      else
        res_bind (unwrap_contract_owner (sk_owner keys)) (\<lambda>owner.
        res_bind (expect ''unstake must be called by a contract'' caller) (\<lambda>c.
        if c \<noteq> owner then Inl (Panic ''Invalid contract caller'')
        else
          res_bind (expect_ok ''Unstaking to contract should succeed''
              (contract_to_contract x (Some STAKE_CONTRACT)
                 \<lparr>c2c_contract = c, c2c_value = value, c2c_fn_name = wtc_fn_name u,
                  c2c_data = wtc_data u\<rparr> w)) (\<lambda>w'.
          res_bind (held_stake key w w') (\<lambda>(loaded, keys).
          res_bind (expect ''the reference to the amount is dangling'' (sd_amount loaded)) (\<lambda>a.
          res_bind (take_from_amount keys value a) (\<lambda>(a, event).
            Inr (record_previous wr (Some prev_stake) acct
              (store_unstaked key loaded keys a (emit (UnstakeEvent event) w'))))))))))))"

section \<open>Rewards\<close>

definition store_rewarded ::
    "bytes \<Rightarrow> stake_data \<Rightarrow> stake_keys \<Rightarrow> u64 \<Rightarrow> 'r sworld_scheme \<Rightarrow> 'r sworld_scheme" where
  "store_rewarded key loaded keys r w =
     (if r = 0 \<and> sd_amount loaded = None then set_stakes (bm_remove key (stakes_map w)) w
      else set_stakes (bm_insert key (loaded\<lparr>sd_reward := r\<rparr>, keys) (stakes_map w)) w)"

definition withdraw_reward ::
    "host \<Rightarrow> wire \<Rightarrow> stake_withdraw \<Rightarrow> 'r sworld_scheme \<Rightarrow> 'r sworld_scheme res" where
  "withdraw_reward h wr u w =
     (let acct = sw_account u; value = wd_value (sw_withdraw u); signature = sw_signature u in
      res_bind (expect ''A stake should exist in the map to get rewards!'' (get_stake_mut wr acct w))
      (\<lambda>(loaded, keys).
      if value = 0 then Inl (Panic ''Withdrawing 0 reward is not allowed'')
      else if value > sd_reward loaded then
        Inl (Panic ''Value to withdraw is higher than available reward'')
      else
        res_bind (unwrap_account_owner h (sk_owner keys)) (\<lambda>owner.
        let msg = stake_withdraw_signature_message wr u in
        if \<not> h_verify_bls h msg owner (ds_owner signature) then
          Inl (Panic ''Invalid owner signature!'')
        else if \<not> h_verify_bls h msg (sk_account keys) (ds_account signature) then
          Inl (Panic ''Invalid account signature!'')
        else
          res_bind (expect_ok ''Withdrawing reward should succeed''
              (mint h wr (Some STAKE_CONTRACT) (sw_withdraw u) w)) (\<lambda>w.
          res_bind (sub_chk (sd_reward loaded) value) (\<lambda>r.
            Inr (store_rewarded (w_pk_to_bytes wr acct) loaded keys r
              (emit (StakeWithdrawEvent (stake_event_new keys value)) w)))))))"

definition withdraw_from_contract ::
    "wire \<Rightarrow> 'r sworld_scheme ext \<Rightarrow> contract_id option \<Rightarrow> withdraw_to_contract
     \<Rightarrow> 'r sworld_scheme \<Rightarrow> 'r sworld_scheme res" where
  "withdraw_from_contract wr x caller u w =
     (let acct = wtc_account u; value = wtc_value u; key = w_pk_to_bytes wr acct in
      res_bind (expect ''A stake should exist in the map to get rewards!'' (get_stake_mut wr acct w))
      (\<lambda>(loaded, keys).
      if value = 0 then Inl (Panic ''Withdrawing 0 reward is not allowed'')
      else if value > sd_reward loaded then
        Inl (Panic ''Value to withdraw is higher than available reward'')
      else
        res_bind (unwrap_contract_owner (sk_owner keys)) (\<lambda>owner.
        res_bind (expect ''unstake must be called by a contract'' caller) (\<lambda>c.
        if c \<noteq> owner then Inl (Panic ''Invalid contract caller'')
        else
          res_bind (expect_ok ''Withdrawing reward to contract should succeed''
              (mint_to_contract x (Some STAKE_CONTRACT)
                 \<lparr>c2c_contract = c, c2c_value = value, c2c_fn_name = wtc_fn_name u,
                  c2c_data = wtc_data u\<rparr> w)) (\<lambda>w'.
          res_bind (held_stake key w w') (\<lambda>(loaded, keys).
          res_bind (sub_chk (sd_reward loaded) value) (\<lambda>r.
            Inr (store_rewarded key loaded keys r
              (emit (StakeWithdrawEvent (stake_event_new keys value)) w')))))))))"

definition reward_one ::
    "wire \<Rightarrow> reward_arg \<Rightarrow> 'r sworld_scheme \<Rightarrow> 'r sworld_scheme res" where
  "reward_one wr r w =
     (let key = w_pk_to_bytes wr (rw_account r) in
      res_bind
        (case get_stake_mut wr (rw_account r) w of
           Some (s, keys) \<Rightarrow> Inr ((s\<lparr>sd_faults := 0, sd_hard_faults := 0\<rparr>, keys), w)
         | None \<Rightarrow> load_or_create_stake_mut wr (stake_keys_single_key (rw_account r)) w)
        (\<lambda>((s, keys), w).
         res_bind (add_chk (sd_reward s) (rw_value r)) (\<lambda>total.
           Inr (set_stakes (bm_insert key (s\<lparr>sd_reward := total\<rparr>, keys) (stakes_map w)) w))))"

definition reward :: "wire \<Rightarrow> reward_arg list \<Rightarrow> 'r sworld_scheme \<Rightarrow> 'r sworld_scheme res" where
  "reward wr rewards w =
     res_bind (res_fold (reward_one wr) rewards w) (\<lambda>w.
       Inr (if rewards = [] then w else emit (RewardEvent rewards) w))"

section \<open>Slashing\<close>

text \<open>
  \<open>to_slash.unwrap_or(value / 100 * faults * 10)\<close>, capped by the value: the amount both kinds of
  slashing take.
\<close>

definition slash_value :: "u64 option \<Rightarrow> u64 \<Rightarrow> u64 \<Rightarrow> u64 res" where
  "slash_value to_slash value faults =
     res_map (\<lambda>n. min n value)
       (case to_slash of
          Some n \<Rightarrow> Inr n
        | None \<Rightarrow> res_bind (mul_chk (value div 100) faults) (\<lambda>n. mul_chk n 10))"

text \<open>\<open>stake.faults.saturating_sub(stake_warnings) as u64\<close>, with the fault already counted.\<close>

definition effective_faults :: "u8 \<Rightarrow> u8 \<Rightarrow> u64" where
  "effective_faults stake_warnings faults = ucast (saturating_sub faults stake_warnings)"

definition slash ::
    "host \<Rightarrow> wire \<Rightarrow> bls_public_key \<Rightarrow> u64 option \<Rightarrow> 'r sworld_scheme \<Rightarrow> 'r sworld_scheme res" where
  "slash h wr acct to_slash w =
     (let stake_warnings = sc_warnings (stake_config_of w); key = w_pk_to_bytes wr acct in
      res_bind (expect ''The stake to slash should exist'' (get_stake_mut wr acct w))
      (\<lambda>(s, keys).
      case sd_amount s of
        None \<Rightarrow> Inr w
      | Some a \<Rightarrow>
          let faults = saturating_add (sd_faults s) 1;
              ef = effective_faults stake_warnings faults
          in
          res_bind
            (if ef > 0 then
               res_bind (mul_chk ef EPOCH) (\<lambda>to_shift.
                 add_chk (next_epoch (h_block_height h)) to_shift)
             else Inr (am_eligibility a))
          (\<lambda>eligibility.
          res_bind (slash_value to_slash (am_value a) ef)
          (\<lambda>to_slash.
           let a1 = a\<lparr>am_eligibility := eligibility\<rparr>;
               a2 = (if to_slash > 0 then lock_amount to_slash a1 else a1);
               w1 = set_stakes (bm_insert key
                      (s\<lparr>sd_faults := faults, sd_amount := Some a2\<rparr>, keys) (stakes_map w)) w;
               w2 = (if to_slash > 0 \<or> ef > 0
                     then emit (SlashEvent \<lparr>sl_account = acct, sl_value = to_slash,
                                 sl_next_eligibility = am_eligibility a2\<rparr>) w1
                     else w1)
           in Inr (record_previous wr (Some s) acct w2)))))"

definition deduct_contract_balance :: "u64 \<Rightarrow> 'r sworld_scheme \<Rightarrow> 'r sworld_scheme res" where
  "deduct_contract_balance amount w =
     expect_ok ''Subtracting balance should succeed''
       (entry_sub_contract_balance (Some STAKE_CONTRACT) STAKE_CONTRACT amount w)"

definition hard_slash ::
    "host \<Rightarrow> wire \<Rightarrow> bls_public_key \<Rightarrow> u64 option \<Rightarrow> u8 option \<Rightarrow> 'r sworld_scheme
     \<Rightarrow> 'r sworld_scheme res" where
  "hard_slash h wr acct to_slash severity w =
     (let key = w_pk_to_bytes wr acct in
      res_bind (expect ''The stake to slash should exist'' (get_stake_mut wr acct w))
      (\<lambda>(s, keys).
      case sd_amount s of
        None \<Rightarrow> Inr w
      | Some a \<Rightarrow>
          let severity = (case severity of Some n \<Rightarrow> n | None \<Rightarrow> 1);
              hard = saturating_add (sd_hard_faults s) severity;
              hard_faults = ucast hard :: u64
          in
          res_bind (mul_chk hard_faults EPOCH) (\<lambda>to_shift.
          res_bind (add_chk (next_epoch (h_block_height h)) to_shift) (\<lambda>next_eligibility.
          res_bind (slash_value to_slash (am_value a) hard_faults)
          (\<lambda>to_slash.
           let a1 = a\<lparr>am_eligibility := next_eligibility\<rparr>;
               put = (\<lambda>v w. set_stakes (bm_insert key
                        (s\<lparr>sd_hard_faults := hard, sd_amount := Some (a1\<lparr>am_value := v\<rparr>)\<rparr>, keys)
                        (stakes_map w)) w)
           in
           res_bind
             (if to_slash > 0 then
                res_bind (sub_chk (am_value a) to_slash) (\<lambda>v.
                res_bind (deduct_contract_balance to_slash (put v w)) (\<lambda>w.
                res_bind (add_chk (ss_burnt_amount (sw_stake w)) to_slash) (\<lambda>b.
                  Inr (set_burnt_amount b w))))
              else Inr (put (am_value a) w))
           (\<lambda>w.
            Inr (record_previous wr (Some s) acct
              (emit (HardSlashEvent \<lparr>sl_account = acct, sl_value = to_slash,
                 sl_next_eligibility = next_eligibility\<rparr>) w))))))))"

section \<open>Entry points with a caller check\<close>

definition assert_transfer_caller :: "contract_id option \<Rightarrow> unit res" where
  "assert_transfer_caller caller =
     res_bind (expect ''Can only be called from the transfer contract'' caller) (\<lambda>c.
       ensure (c = TRANSFER_CONTRACT) ''Can only be called from the transfer contract'')"

definition entry_stake ::
    "host \<Rightarrow> wire \<Rightarrow> contract_id option \<Rightarrow> stake_request \<Rightarrow> 'r sworld_scheme \<Rightarrow> 'r sworld_scheme res" where
  "entry_stake h wr caller s w =
     res_bind (assert_transfer_caller caller) (\<lambda>_. stake h wr s w)"

definition entry_unstake ::
    "host \<Rightarrow> wire \<Rightarrow> contract_id option \<Rightarrow> stake_withdraw \<Rightarrow> 'r sworld_scheme \<Rightarrow> 'r sworld_scheme res" where
  "entry_unstake h wr caller u w =
     res_bind (assert_transfer_caller caller) (\<lambda>_. unstake h wr u w)"

definition entry_withdraw ::
    "host \<Rightarrow> wire \<Rightarrow> contract_id option \<Rightarrow> stake_withdraw \<Rightarrow> 'r sworld_scheme \<Rightarrow> 'r sworld_scheme res" where
  "entry_withdraw h wr caller u w =
     res_bind (assert_transfer_caller caller) (\<lambda>_. withdraw_reward h wr u w)"

text \<open>\<open>callstack_len\<close> is \<open>abi::callstack().len()\<close>.\<close>

definition entry_stake_from_contract ::
    "host \<Rightarrow> wire \<Rightarrow> (bytes \<Rightarrow> stake_request option) \<Rightarrow> contract_id option \<Rightarrow> nat
     \<Rightarrow> receive_from_contract \<Rightarrow> 'r sworld_scheme \<Rightarrow> 'r sworld_scheme res" where
  "entry_stake_from_contract h wr decode caller callstack_len recv w =
     res_bind (assert_transfer_caller caller) (\<lambda>_.
       if callstack_len < 2 then Inl (Panic ''Cannot be called by a root ICC'')
       else stake_from_contract h wr decode recv w)"

definition entry_before_state_transition ::
    "contract_id option \<Rightarrow> 'r sworld_scheme \<Rightarrow> 'r sworld_scheme res" where
  "entry_before_state_transition caller w =
     res_bind (assert_external_caller caller) (\<lambda>_. Inr (on_new_block w))"

definition entry_set_config ::
    "contract_id option \<Rightarrow> stake_config \<Rightarrow> 'r sworld_scheme \<Rightarrow> 'r sworld_scheme res" where
  "entry_set_config caller config w =
     res_bind (assert_external_caller caller) (\<lambda>_. Inr (configure config w))"

definition entry_insert_stake ::
    "wire \<Rightarrow> contract_id option \<Rightarrow> stake_keys \<Rightarrow> stake_data \<Rightarrow> 'r sworld_scheme \<Rightarrow> 'r sworld_scheme res" where
  "entry_insert_stake wr caller keys s w =
     res_bind (assert_external_caller caller) (\<lambda>_. Inr (insert_stake wr keys s w))"

definition entry_reward ::
    "wire \<Rightarrow> contract_id option \<Rightarrow> reward_arg list \<Rightarrow> 'r sworld_scheme \<Rightarrow> 'r sworld_scheme res" where
  "entry_reward wr caller rewards w =
     res_bind (assert_external_caller caller) (\<lambda>_. reward wr rewards w)"

definition entry_slash ::
    "host \<Rightarrow> wire \<Rightarrow> contract_id option \<Rightarrow> bls_public_key \<Rightarrow> u64 option \<Rightarrow> 'r sworld_scheme
     \<Rightarrow> 'r sworld_scheme res" where
  "entry_slash h wr caller acct value w =
     res_bind (assert_external_caller caller) (\<lambda>_. slash h wr acct value w)"

definition entry_hard_slash ::
    "host \<Rightarrow> wire \<Rightarrow> contract_id option \<Rightarrow> bls_public_key \<Rightarrow> u64 option \<Rightarrow> u8 option
     \<Rightarrow> 'r sworld_scheme \<Rightarrow> 'r sworld_scheme res" where
  "entry_hard_slash h wr caller acct value severity w =
     res_bind (assert_external_caller caller) (\<lambda>_. hard_slash h wr acct value severity w)"

definition entry_set_burnt_amount ::
    "contract_id option \<Rightarrow> u64 \<Rightarrow> 'r sworld_scheme \<Rightarrow> 'r sworld_scheme res" where
  "entry_set_burnt_amount caller n w =
     res_bind (assert_external_caller caller) (\<lambda>_. Inr (set_burnt_amount n w))"

end
