(* ===== verification/Stake_Safety.thy ===== *)
theory Stake_Safety
  imports Stake_Contract
begin

text \<open>
  What the operations of the stake contract keep: it is solvent (the stakes it records never exceed
  the balance the transfer contract holds for it), and \<open>previous_block_state\<close> stays an undo log from
  which the stakes at the start of a block can be read.  Each operation has a lemma that takes a
  successful call apart (\<open>_ok\<close>) and one for solvency (\<open>_solvent\<close>).
\<close>

definition funds_total :: "'r sworld_scheme \<Rightarrow> nat" where
  "funds_total w = bm_sum (stake_funds \<circ> fst) (stakes_map w)"

definition stake_balance :: "'r sworld_scheme \<Rightarrow> nat" where
  "stake_balance w = unat (contract_balance STAKE_CONTRACT w)"

definition solvent :: "'r sworld_scheme \<Rightarrow> bool" where
  "solvent w \<longleftrightarrow> funds_total w \<le> stake_balance w"

text \<open>
  The deficit of the contract, what it owes less what it holds, has not grown from \<open>w\<close> to \<open>w'\<close>.  Between the
  payment of an unstaked value and the update of the entry the contract is not solvent; what holds throughout, also when
  it is entered again in between, is that every call leaves the deficit at most as it was.
\<close>

definition covered :: "'r sworld_scheme \<Rightarrow> 'r sworld_scheme \<Rightarrow> bool" where
  "covered w w' \<longleftrightarrow> funds_total w' + stake_balance w \<le> funds_total w + stake_balance w'"

lemma covered_refl [simp, intro]: "covered w w"
  by (simp add: covered_def)

lemma covered_trans: "covered u v \<Longrightarrow> covered v w \<Longrightarrow> covered u w"
  unfolding covered_def by linarith

lemma covered_solvent: "covered w w' \<Longrightarrow> solvent w \<Longrightarrow> solvent w'"
  unfolding covered_def solvent_def by linarith

lemma more_stake: "tworld.more w' = tworld.more w \<Longrightarrow> sw_stake w' = sw_stake w"
  by (cases w; cases w') simp

section \<open>Frames\<close>

lemma stake_set_simps [simp]:
  "tw_state (set_stakes m w) = tw_state w"
  "tw_state (record_previous wr p a w) = tw_state w"
  "tw_state (set_burnt_amount n w) = tw_state w"
  "ss_stakes (sw_stake (set_stakes m w)) = m"
  "ss_config (sw_stake (set_stakes m w)) = ss_config (sw_stake w)"
  "ss_previous_block_state (sw_stake (set_stakes m w)) = ss_previous_block_state (sw_stake w)"
  "ss_burnt_amount (sw_stake (set_stakes m w)) = ss_burnt_amount (sw_stake w)"
  "ss_stakes (sw_stake (record_previous wr p a w)) = ss_stakes (sw_stake w)"
  "ss_config (sw_stake (record_previous wr p a w)) = ss_config (sw_stake w)"
  "ss_burnt_amount (sw_stake (record_previous wr p a w)) = ss_burnt_amount (sw_stake w)"
  "ss_stakes (sw_stake (set_burnt_amount n w)) = ss_stakes (sw_stake w)"
  "ss_previous_block_state (sw_stake (set_burnt_amount n w)) = ss_previous_block_state (sw_stake w)"
  "ss_burnt_amount (sw_stake (set_burnt_amount n w)) = n"
  "sw_stake (emit e w) = sw_stake w"
  "sw_stake (set_balances b w) = sw_stake w"
  by (simp_all add: set_stakes_def record_previous_def set_burnt_amount_def emit_def set_balances_def)

lemma stake_balance_frame [simp]:
  "stake_balance (set_stakes m w) = stake_balance w"
  "stake_balance (record_previous wr p a w) = stake_balance w"
  "stake_balance (set_burnt_amount n w) = stake_balance w"
  "stake_balance (emit e w) = stake_balance w"
  by (simp_all add: stake_balance_def contract_balance_def)

lemma funds_total_frame [simp]:
  "funds_total (record_previous wr p a w) = funds_total w"
  "funds_total (set_burnt_amount n w) = funds_total w"
  "funds_total (emit e w) = funds_total w"
  by (simp_all add: funds_total_def)

lemma funds_total_put:
  "funds_total (set_stakes (bm_insert k (s, keys) (stakes_map w)) w)
     + opt_val (stake_funds \<circ> fst) (bm_get (stakes_map w) k) = funds_total w + stake_funds s"
  using bm.total_insert [of "stake_funds \<circ> fst" k "(s, keys)" "stakes_map w"]
  by (simp add: funds_total_def)

lemma funds_total_drop:
  "funds_total (set_stakes (bm_remove k (stakes_map w)) w)
     + opt_val (stake_funds \<circ> fst) (bm_get (stakes_map w) k) = funds_total w"
  using bm.total_remove [of "stake_funds \<circ> fst" k "stakes_map w"] by (simp add: funds_total_def)

lemma funds_bound:
  assumes "bm_get (stakes_map w) k = Some (s, keys)" and "solvent w"
  shows "stake_funds s < 2 ^ 64"
proof -
  have "stake_funds s \<le> funds_total w"
    using bm.total_bound [OF assms(1), of "stake_funds \<circ> fst"] by (simp add: funds_total_def)
  also have "\<dots> \<le> stake_balance w" using assms(2) by (simp add: solvent_def)
  also have "\<dots> < 2 ^ 64" by (simp add: stake_balance_def)
  finally show ?thesis .
qed

section \<open>Calls to the transfer contract\<close>

lemma credit_contract_balance:
  assumes "credit_contract c v w = Inr w'"
  shows "unat (contract_balance d w') = unat (contract_balance d w) + (if d = c then unat v else 0)"
  using assms
  by (auto simp: credit_contract_def contract_balance_def bm_get_or_def dest: add_chk_unat)

lemma deposit_stake:
  assumes "transfer_deposit (Some STAKE_CONTRACT) v w = Inr w'"
  shows "sw_stake w' = sw_stake w" and "stake_balance w' = stake_balance w + unat v"
proof -
  obtain og s w1 where w1: "credit_contract STAKE_CONTRACT v w = Inr w1"
    and w': "w' = emit (DepositEvent \<lparr>de_sender = s, de_receiver = STAKE_CONTRACT, de_value = v\<rparr>)
                (set_deposit (Taken s STAKE_CONTRACT v) w1)"
    using assms by (rule transfer_deposit_ok) auto
  show "sw_stake w' = sw_stake w"
    by (rule more_stake) (simp add: w' credit_contract_totals(5) [OF w1])
  show "stake_balance w' = stake_balance w + unat v"
    using credit_contract_balance [OF w1, of STAKE_CONTRACT]
    by (simp add: w' stake_balance_def contract_balance_def)
qed

lemma withdraw_stake:
  assumes "transfer_withdraw h wr (Some STAKE_CONTRACT) d w = Inr w'"
  shows "sw_stake w' = sw_stake w" and "stake_balance w' + unat (wd_value d) = stake_balance w"
  using transfer_withdraw_debits [OF assms] by (auto simp: stake_balance_def intro: more_stake)

lemma mint_stake:
  assumes "mint h wr caller d w = Inr w'"
  shows "sw_stake w' = sw_stake w" and "stake_balance w' = stake_balance w"
proof -
  obtain w1 where w1: "mint_withdrawal h wr (str_bytes ''mint'') d w = Inr w1"
    and w': "w' = emit (MintEvent (withdraw_event_from d)) w1"
    using assms by (auto simp: mint_def split: if_splits)
  show "sw_stake w' = sw_stake w"
    by (rule more_stake) (simp add: w' mint_withdrawal_ledger [OF w1])
  show "stake_balance w' = stake_balance w"
    by (simp add: w' stake_balance_def contract_balance_def mint_withdrawal_ledger [OF w1])
qed

text \<open>The world in which the receiving contract is called, and the one it leaves.\<close>

lemma to_contract_ok:
  assumes "contract_to_contract x (Some STAKE_CONTRACT) t w = Inr w'"
  obtains w1 w2 where "sw_stake w1 = sw_stake w" and "stake_balance w \<le> stake_balance w1 + unat (c2c_value t)"
    and "tw_events w1 = tw_events w"
    and "x_call x (c2c_contract t) (c2c_fn_name t)
      \<lparr>rc_contract = STAKE_CONTRACT, rc_value = c2c_value t, rc_data = c2c_data t\<rparr> w1 = Inr w2"
    and "w' = emit (ContractToContractEvent \<lparr>c2ce_sender = STAKE_CONTRACT, c2ce_receiver = c2c_contract t,
              c2ce_value = c2c_value t\<rparr>) w2"
proof -
  obtain b w1 w2 where b: "bm_get (balances w) STAKE_CONTRACT = Some b" "c2c_value t \<le> b"
    and w1: "credit_contract (c2c_contract t) (c2c_value t)
      (set_balances (bm_insert STAKE_CONTRACT (b - c2c_value t) (balances w)) w) = Inr w1"
    and w2: "x_call x (c2c_contract t) (c2c_fn_name t)
      \<lparr>rc_contract = STAKE_CONTRACT, rc_value = c2c_value t, rc_data = c2c_data t\<rparr> w1 = Inr w2"
    and w': "w' = emit (ContractToContractEvent \<lparr>c2ce_sender = STAKE_CONTRACT, c2ce_receiver = c2c_contract t,
              c2ce_value = c2c_value t\<rparr>) w2"
    using assms(1) by (auto simp: contract_to_contract_def sub_chk_Inr split: if_splits)
  have s: "sw_stake w1 = sw_stake w"
    using more_stake [OF credit_contract_totals(5) [OF w1]] by simp
  have "unat (b - c2c_value t) + unat (c2c_value t) = unat b"
    using b(2) by (simp add: unat_sub_le word_le_nat_alt)
  then have l: "stake_balance w \<le> stake_balance w1 + unat (c2c_value t)"
    using credit_contract_balance [OF w1, of STAKE_CONTRACT] b(1)
    by (simp add: stake_balance_def contract_balance_def bm_get_or_def)
  have "tw_events w1 = tw_events w"
    using w1 by (auto simp: credit_contract_def set_balances_def)
  with s l w2 w' show thesis by (intro that) auto
qed

text \<open>A relation that the callee keeps, from the payment to the end of the call.\<close>

lemma to_contract_called:
  assumes "contract_to_contract x (Some STAKE_CONTRACT) t w = Inr w'" and "\<And>c f a u v. x_call x c f a u = Inr v \<Longrightarrow> R u v"
  obtains w1 w2 where "sw_stake w1 = sw_stake w" and "stake_balance w \<le> stake_balance w1 + unat (c2c_value t)"
    and "tw_events w1 = tw_events w" and "R w1 w2"
    and "w' = emit (ContractToContractEvent \<lparr>c2ce_sender = STAKE_CONTRACT, c2ce_receiver = c2c_contract t,
              c2ce_value = c2c_value t\<rparr>) w2"
  by (rule to_contract_ok [OF assms(1)]) (metis assms(2) that)

lemma mint_to_contract_ok:
  assumes "mint_to_contract x (Some STAKE_CONTRACT) t w = Inr w'"
  obtains w1 w2 where "sw_stake w1 = sw_stake w" and "stake_balance w \<le> stake_balance w1"
    and "tw_events w1 = tw_events w"
    and "x_call x (c2c_contract t) (c2c_fn_name t)
      \<lparr>rc_contract = STAKE_CONTRACT, rc_value = c2c_value t, rc_data = c2c_data t\<rparr> w1 = Inr w2"
    and "w' = emit (MintContractEvent
           \<lparr>c2ce_sender = STAKE_CONTRACT, c2ce_receiver = c2c_contract t, c2ce_value = c2c_value t\<rparr>) w2"
proof -
  obtain w1 w2 where w1: "credit_contract (c2c_contract t) (c2c_value t) w = Inr w1"
    and w2: "x_call x (c2c_contract t) (c2c_fn_name t)
      \<lparr>rc_contract = STAKE_CONTRACT, rc_value = c2c_value t, rc_data = c2c_data t\<rparr> w1 = Inr w2"
    and w': "w' = emit (MintContractEvent
           \<lparr>c2ce_sender = STAKE_CONTRACT, c2ce_receiver = c2c_contract t, c2ce_value = c2c_value t\<rparr>) w2"
    using assms(1) by (auto simp: mint_to_contract_def split: if_splits)
  have "sw_stake w1 = sw_stake w"
    by (rule more_stake [OF credit_contract_totals(5) [OF w1]])
  moreover have "stake_balance w \<le> stake_balance w1"
    using credit_contract_balance [OF w1, of STAKE_CONTRACT] by (simp add: stake_balance_def)
  moreover have "tw_events w1 = tw_events w"
    using w1 by (auto simp: credit_contract_def set_balances_def)
  ultimately show thesis using w2 w' by (intro that) auto
qed

lemma mint_to_contract_called:
  assumes "mint_to_contract x (Some STAKE_CONTRACT) t w = Inr w'" and "\<And>c f a u v. x_call x c f a u = Inr v \<Longrightarrow> R u v"
  obtains w1 w2 where "sw_stake w1 = sw_stake w" and "stake_balance w \<le> stake_balance w1"
    and "tw_events w1 = tw_events w" and "R w1 w2"
    and "w' = emit (MintContractEvent
           \<lparr>c2ce_sender = STAKE_CONTRACT, c2ce_receiver = c2c_contract t, c2ce_value = c2c_value t\<rparr>) w2"
  by (rule mint_to_contract_ok [OF assms(1)]) (metis assms(2) that)

text \<open>Changing the value of an entry leaves the keys, so the reference reads the new value.\<close>

lemma bm_keys_cong:
  assumes "\<And>k. bm_get m k = None \<longleftrightarrow> bm_get m' k = None"
  shows "bm_keys m = bm_keys m'"
proof (rule strict_sorted_equal [OF bm_entries_sorted bm_entries_sorted])
  show "set (bm_keys m) = set (bm_keys m')" using assms by (auto simp: bm_keys_iff)
qed

lemma held_stake_in_place:
  assumes "\<And>k. bm_get (stakes_map w') k = None \<longleftrightarrow> bm_get (stakes_map w) k = None"
    and "bm_get (stakes_map w') key = Some e"
  shows "held_stake key w w' = Inr e"
  using assms(2) bm_keys_cong [OF assms(1)] by (simp add: held_stake_def)

lemma held_stake_ok: "held_stake k w w' = Inr e \<Longrightarrow> bm_get (stakes_map w') k = Some e"
  by (auto simp: held_stake_def split: if_splits)

lemma deduct_stake:
  assumes "deduct_contract_balance v w = Inr w'"
  shows "sw_stake w' = sw_stake w" and "stake_balance w' + unat v = stake_balance w"
proof -
  have "sub_contract_balance STAKE_CONTRACT v w = Inr w'"
    using assms by (auto simp: deduct_contract_balance_def entry_sub_contract_balance_def
        assert_stake_caller_def ensure_def)
  then obtain b where b: "bm_get (balances w) STAKE_CONTRACT = Some b" "v \<le> b"
    and w': "w' = set_balances (bm_insert STAKE_CONTRACT (b - v) (balances w)) w"
    by (rule sub_contract_balance_ok)
  show "sw_stake w' = sw_stake w" by (simp add: w')
  have "unat (b - v) + unat v = unat b" using b(2) by (simp add: unat_sub_le word_le_nat_alt)
  with b(1) show "stake_balance w' + unat v = stake_balance w"
    by (simp add: w' stake_balance_def contract_balance_def bm_get_or_def)
qed

section \<open>Effects on the funds\<close>

lemma add_to_stake_funds:
  assumes "add_to_stake h keys v s = Inr (s', e)"
  shows "stake_funds s' = stake_funds s + unat v"
proof (cases "sd_amount s")
  case None
  with assms show ?thesis by (auto simp: add_to_stake_def stake_funds_def)
next
  case (Some a)
  let ?locked = "if am_eligibility a \<le> h_block_height h then v div 10 else 0"
  obtain v1 l v2 where v1: "sub_chk v ?locked = Inr v1" and l: "add_chk (am_locked a) ?locked = Inr l"
    and v2: "add_chk (am_value a) v1 = Inr v2"
    and s': "s' = s\<lparr>sd_amount := Some (a\<lparr>am_locked := l, am_value := v2\<rparr>)\<rparr>"
    using assms Some by (auto simp: add_to_stake_def Let_def)
  have "unat v2 + unat l = unat (am_value a) + unat (am_locked a) + unat v"
    using chk_unat(2) [OF v1] chk_unat(1) [OF l] chk_unat(1) [OF v2] by linarith
  with Some show ?thesis by (simp add: s' stake_funds_def amount_funds_def)
qed

lemma take_from_amount_funds:
  assumes "take_from_amount keys v a = Inr (a', e)"
  shows "amount_funds a' + unat v = amount_funds a"
proof (cases "v > am_value a")
  case True
  then obtain f l where f: "sub_chk v (am_value a) = Inr f" and l: "sub_chk (am_locked a) f = Inr l"
    and a': "a' = a\<lparr>am_value := 0, am_locked := l\<rparr>"
    using assms by (auto simp: take_from_amount_def)
  from chk_unat(2) [OF f] chk_unat(2) [OF l] have "unat l + unat v = unat (am_value a) + unat (am_locked a)"
    by linarith
  then show ?thesis by (simp add: a' amount_funds_def)
next
  case False
  then obtain u where u: "sub_chk (am_value a) v = Inr u" and a': "a' = a\<lparr>am_value := u\<rparr>"
    using assms by (auto simp: take_from_amount_def)
  from chk_unat(2) [OF u] show ?thesis by (simp add: a' amount_funds_def)
qed

lemma store_unstaked_le:
  assumes "bm_get (stakes_map w) k = Some (s, keys)"
  shows "funds_total (store_unstaked k s keys a w) + stake_funds s \<le> funds_total w + amount_funds a"
    and "stake_balance (store_unstaked k s keys a w) = stake_balance w"
  using assms funds_total_put [of k _ keys w] funds_total_drop [of k w]
  by (auto simp: store_unstaked_def)

lemma store_unstaked_funds:
  assumes "bm_get (stakes_map w) k = Some (s, keys)" and "amount_funds a < 2 ^ 64"
  shows "funds_total (store_unstaked k s keys a w) + stake_funds s = funds_total w + amount_funds a"
    and "stake_balance (store_unstaked k s keys a w) = stake_balance w"
proof -
  have z: "total_funds a = 0 \<Longrightarrow> amount_funds a = 0" using total_funds_unat [OF assms(2)] by simp
  show "funds_total (store_unstaked k s keys a w) + stake_funds s = funds_total w + amount_funds a"
    using assms(1) z funds_total_put [of k _ keys w] funds_total_drop [of k w]
    by (auto simp: store_unstaked_def)
  show "stake_balance (store_unstaked k s keys a w) = stake_balance w"
    by (simp add: store_unstaked_def)
qed

lemma store_rewarded_funds:
  assumes "bm_get (stakes_map w) k = Some (s, keys)"
  shows "funds_total (store_rewarded k s keys r w) = funds_total w"
    and "stake_balance (store_rewarded k s keys r w) = stake_balance w"
proof -
  have z: "sd_amount s = None \<Longrightarrow> stake_funds s = 0" by (simp add: stake_funds_def)
  show "funds_total (store_rewarded k s keys r w) = funds_total w"
    using assms z funds_total_put [of k "s\<lparr>sd_reward := r\<rparr>" keys w] funds_total_drop [of k w]
    by (auto simp: store_rewarded_def)
  show "stake_balance (store_rewarded k s keys r w) = stake_balance w"
    by (simp add: store_rewarded_def)
qed

lemma load_or_create_ok:
  assumes "load_or_create_stake_mut wr keys w = Inr ((s, keys'), w')"
  obtains "keys' = keys" and "bm_get (stakes_map w') (w_pk_to_bytes wr (sk_account keys)) = Some (s, keys)"
    and "funds_total w' = funds_total w" and "tw_state w' = tw_state w"
    and "tw_current_tx w' = tw_current_tx w"
    and "previous_map w' = previous_map w" and "stake_config_of w' = stake_config_of w"
    and "\<And>k. k \<noteq> w_pk_to_bytes wr (sk_account keys) \<Longrightarrow> bm_get (stakes_map w') k = bm_get (stakes_map w) k"
    and "bm_get (stakes_map w) (w_pk_to_bytes wr (sk_account keys)) = Some (s, keys) \<or>
         bm_get (stakes_map w) (w_pk_to_bytes wr (sk_account keys)) = None \<and> s = stake_data_EMPTY"
proof (cases "bm_get (stakes_map w) (w_pk_to_bytes wr (sk_account keys))")
  case None
  then have "s = stake_data_EMPTY" "keys' = keys"
    and w': "w' = set_stakes (bm_insert (w_pk_to_bytes wr (sk_account keys)) (stake_data_EMPTY, keys) (stakes_map w)) w"
    using assms by (auto simp: load_or_create_stake_mut_def)
  with None funds_total_put [of "w_pk_to_bytes wr (sk_account keys)" stake_data_EMPTY keys w] show thesis
    by (intro that) (auto simp: stake_config_of_def set_stakes_def)
next
  case (Some p)
  with assms show thesis
    by (intro that) (auto simp: load_or_create_stake_mut_def split: if_splits prod.splits)
qed

text \<open>The entry that \<open>finish_stake\<close> updates is the one that was loaded.\<close>

lemma finish_stake_funds:
  assumes "finish_stake h wr r prev s keys w = Inr w'"
    and "bm_get (stakes_map w) (w_pk_to_bytes wr (sk_account keys)) = Some (s, keys)"
  shows "funds_total w' = funds_total w + unat (st_value r)"
    and "stake_balance w' = stake_balance w"
proof -
  obtain s' e where s': "add_to_stake h keys (st_value r) s = Inr (s', e)"
    and w': "w' = record_previous wr prev (sk_account (st_keys r)) (emit (StakeEvent e)
      (set_stakes (bm_insert (w_pk_to_bytes wr (sk_account keys)) (s', keys) (stakes_map w)) w))"
    using assms(1) by (auto simp: finish_stake_def)
  from add_to_stake_funds [OF s'] assms(2)
    funds_total_put [of "w_pk_to_bytes wr (sk_account keys)" s' keys w]
  show "funds_total w' = funds_total w + unat (st_value r)" by (simp add: w')
  show "stake_balance w' = stake_balance w" by (simp add: w')
qed

section \<open>Shape of successful calls\<close>

lemma stake_ok:
  assumes "stake h wr r w = Inr w'"
  obtains s w1 w2 where
    "load_or_create_stake_mut wr (st_keys r) w = Inr ((s, st_keys r), w1)"
    "sd_amount s \<noteq> None \<or> sc_minimum_stake (stake_config_of w) \<le> st_value r"
    "transfer_deposit (Some STAKE_CONTRACT) (st_value r) w1 = Inr w2"
    "finish_stake h wr r (get_stake wr (sk_account (st_keys r)) w) s (st_keys r) w2 = Inr w'"
proof -
  obtain p w1 where p: "load_or_create_stake_mut wr (st_keys r) w = Inr (p, w1)"
    using assms by (auto simp: stake_def Let_def split: if_splits)
  obtain s keys where p_eq: "p = (s, keys)" by force
  have keys: "keys = st_keys r" using p unfolding p_eq by (rule load_or_create_ok)
  from assms p p_eq keys show thesis
    by (auto simp: stake_def Let_def not_less intro: that split: if_splits)
qed

lemma stake_from_contract_ok:
  assumes "stake_from_contract h wr decode recv w = Inr w'"
  obtains r s w1 where "decode (rc_data recv) = Some r"
    "load_or_create_stake_mut wr (st_keys r) w = Inr ((s, st_keys r), w1)"
    "sd_amount s \<noteq> None \<or> sc_minimum_stake (stake_config_of w) \<le> st_value r"
    "sk_owner (st_keys r) = Contract (rc_contract recv)"
    "st_value r = rc_value recv"
    "finish_stake h wr r (get_stake wr (sk_account (st_keys r)) w) s (st_keys r) w1 = Inr w'"
proof -
  obtain r p w1 where r: "decode (rc_data recv) = Some r"
    and p: "load_or_create_stake_mut wr (st_keys r) w = Inr (p, w1)"
    using assms by (auto simp: stake_from_contract_def Let_def split: if_splits)
  obtain s keys where p_eq: "p = (s, keys)" by force
  have keys: "keys = st_keys r" using p unfolding p_eq by (rule load_or_create_ok)
  from assms r p p_eq keys show thesis
    by (auto simp: stake_from_contract_def Let_def not_less unwrap_contract_owner_def intro: that
        split: if_splits stake_fund_owner.splits)
qed

lemma unstake_ok:
  assumes "unstake h wr u w = Inr w'"
  obtains s keys a w1 a' e where
    "bm_get (stakes_map w) (w_pk_to_bytes wr (sw_account u)) = Some (s, keys)"
    "sd_amount s = Some a" "wd_value (sw_withdraw u) \<le> total_funds a"
    "transfer_withdraw h wr (Some STAKE_CONTRACT) (sw_withdraw u) w = Inr w1"
    "take_from_amount keys (wd_value (sw_withdraw u)) a = Inr (a', e)"
    "total_funds a' = 0 \<or> sc_minimum_stake (stake_config_of w1) \<le> total_funds a'"
    "w' = record_previous wr (Some s) (sw_account u)
       (store_unstaked (w_pk_to_bytes wr (sw_account u)) s keys a' (emit (UnstakeEvent e) w1))"
  using assms
  by (auto simp: unstake_def Let_def get_stake_mut_def not_less intro: that split: if_splits)

lemma unstake_from_contract_ok:
  assumes "unstake_from_contract wr x caller u w = Inr w'"
  obtains prev keys0 a0 c w1 s keys a a' e where
    "bm_get (stakes_map w) (w_pk_to_bytes wr (wtc_account u)) = Some (prev, keys0)"
    "sd_amount prev = Some a0" "wtc_value u \<le> total_funds a0"
    "contract_to_contract x (Some STAKE_CONTRACT)
       \<lparr>c2c_contract = c, c2c_value = wtc_value u, c2c_fn_name = wtc_fn_name u,
        c2c_data = wtc_data u\<rparr> w = Inr w1"
    "bm_get (stakes_map w1) (w_pk_to_bytes wr (wtc_account u)) = Some (s, keys)" "sd_amount s = Some a"
    "take_from_amount keys (wtc_value u) a = Inr (a', e)"
    "w' = record_previous wr (Some prev) (wtc_account u)
       (store_unstaked (w_pk_to_bytes wr (wtc_account u)) s keys a' (emit (UnstakeEvent e) w1))"
  using assms
  by (auto simp: unstake_from_contract_def Let_def get_stake_mut_def not_less intro: that
      dest: held_stake_ok split: if_splits)

lemma withdraw_reward_ok:
  assumes "withdraw_reward h wr u w = Inr w'"
  obtains s keys w1 r where
    "bm_get (stakes_map w) (w_pk_to_bytes wr (sw_account u)) = Some (s, keys)"
    "wd_value (sw_withdraw u) \<noteq> 0"
    "mint h wr (Some STAKE_CONTRACT) (sw_withdraw u) w = Inr w1"
    "sub_chk (sd_reward s) (wd_value (sw_withdraw u)) = Inr r"
    "w' = store_rewarded (w_pk_to_bytes wr (sw_account u)) s keys r
       (emit (StakeWithdrawEvent (stake_event_new keys (wd_value (sw_withdraw u)))) w1)"
  using assms
  by (auto simp: withdraw_reward_def Let_def get_stake_mut_def intro: that split: if_splits)

lemma withdraw_from_contract_ok:
  assumes "withdraw_from_contract wr x caller u w = Inr w'"
  obtains c w1 s keys r where
    "wtc_value u \<noteq> 0"
    "mint_to_contract x (Some STAKE_CONTRACT)
       \<lparr>c2c_contract = c, c2c_value = wtc_value u, c2c_fn_name = wtc_fn_name u,
        c2c_data = wtc_data u\<rparr> w = Inr w1"
    "bm_get (stakes_map w1) (w_pk_to_bytes wr (wtc_account u)) = Some (s, keys)"
    "sub_chk (sd_reward s) (wtc_value u) = Inr r"
    "w' = store_rewarded (w_pk_to_bytes wr (wtc_account u)) s keys r
       (emit (StakeWithdrawEvent (stake_event_new keys (wtc_value u))) w1)"
  using assms
  by (auto simp: withdraw_from_contract_def Let_def get_stake_mut_def intro: that
      dest: held_stake_ok split: if_splits)

lemma Inr_eqD: "Inr x = Inr y \<Longrightarrow> y = x"
  by simp

lemma slash_value_le: "slash_value n v f = Inr m \<Longrightarrow> m \<le> v"
  by (auto simp: slash_value_def)

lemma slash_value_given: "slash_value (Some n) v f = Inr (min n v)"
  by (simp add: slash_value_def)

lemma lock_amount_0 [simp]: "lock_amount 0 a = a"
  by (simp add: lock_amount_def)

text \<open>The stake after a slash of \<open>m\<close> with the new eligibility \<open>el\<close>.\<close>

definition slashed_stake :: "u64 \<Rightarrow> u64 \<Rightarrow> stake_amount \<Rightarrow> stake_data \<Rightarrow> stake_data" where
  "slashed_stake m el a s =
     s\<lparr>sd_faults := saturating_add (sd_faults s) 1,
       sd_amount := Some (lock_amount m (a\<lparr>am_eligibility := el\<rparr>))\<rparr>"

lemma slash_none:
  assumes "slash h wr acct n w = Inr w'"
    and "bm_get (stakes_map w) (w_pk_to_bytes wr acct) = Some (s, keys)" and "sd_amount s = None"
  shows "w' = w"
  using assms by (simp add: slash_def get_stake_mut_def)

lemma slash_some:
  assumes "slash h wr acct n w = Inr w'"
    and "bm_get (stakes_map w) (w_pk_to_bytes wr acct) = Some (s, keys)" and "sd_amount s = Some a"
  obtains ef el m w1 where
    "ef = effective_faults (sc_warnings (stake_config_of w)) (saturating_add (sd_faults s) 1)"
    "(if ef > 0 then res_bind (mul_chk ef EPOCH) (add_chk (next_epoch (h_block_height h)))
      else Inr (am_eligibility a)) = Inr el"
    "slash_value n (am_value a) ef = Inr m"
    "w1 = set_stakes (bm_insert (w_pk_to_bytes wr acct) (slashed_stake m el a s, keys) (stakes_map w)) w"
    "w' = record_previous wr (Some s) acct
       (if m > 0 \<or> ef > 0 then emit (SlashEvent \<lparr>sl_account = acct, sl_value = m, sl_next_eligibility = el\<rparr>) w1
        else w1)"
proof -
  define ef where "ef = effective_faults (sc_warnings (stake_config_of w)) (saturating_add (sd_faults s) 1)"
  have lock: "(if m > 0 then lock_amount m b else b) = lock_amount m b" for m b
    by (simp add: word_gt_0)
  let ?put = "\<lambda>m el. set_stakes (bm_insert (w_pk_to_bytes wr acct) (slashed_stake m el a s, keys) (stakes_map w)) w"
  have "slash h wr acct n w =
    res_bind (if ef > 0 then res_bind (mul_chk ef EPOCH) (add_chk (next_epoch (h_block_height h)))
              else Inr (am_eligibility a)) (\<lambda>el.
    res_bind (slash_value n (am_value a) ef) (\<lambda>m.
      Inr (record_previous wr (Some s) acct
       (if m > 0 \<or> ef > 0 then emit (SlashEvent \<lparr>sl_account = acct, sl_value = m, sl_next_eligibility = el\<rparr>) (?put m el)
        else ?put m el))))"
    using assms(2,3)
    by (simp add: slash_def get_stake_mut_def Let_def lock ef_def slashed_stake_def cong: if_cong)
  from assms(1) [unfolded this] show thesis
    by (elim res_bind_InrE) (rule that [OF ef_def _ _ refl], (assumption | erule Inr_eqD)+)
qed

lemma slash_exists:
  assumes "slash h wr acct n w = Inr w'"
  obtains s keys where "bm_get (stakes_map w) (w_pk_to_bytes wr acct) = Some (s, keys)"
  using assms by (auto simp: slash_def Let_def get_stake_mut_def)

lemma hard_slash_exists:
  assumes "hard_slash h wr acct n sev w = Inr w'"
  obtains s keys where "bm_get (stakes_map w) (w_pk_to_bytes wr acct) = Some (s, keys)"
  using assms by (auto simp: hard_slash_def Let_def get_stake_mut_def)

lemma hard_slash_none:
  assumes "hard_slash h wr acct n sev w = Inr w'"
    and "bm_get (stakes_map w) (w_pk_to_bytes wr acct) = Some (s, keys)" and "sd_amount s = None"
  shows "w' = w"
  using assms by (simp add: hard_slash_def get_stake_mut_def)

definition hard_slashed_stake :: "u8 \<Rightarrow> u64 \<Rightarrow> u64 \<Rightarrow> stake_amount \<Rightarrow> stake_data \<Rightarrow> stake_data" where
  "hard_slashed_stake hard m el a s =
     s\<lparr>sd_hard_faults := hard,
       sd_amount := Some (a\<lparr>am_eligibility := el, am_value := am_value a - m\<rparr>)\<rparr>"

lemma hard_slash_some:
  assumes "hard_slash h wr acct n sev w = Inr w'"
    and "bm_get (stakes_map w) (w_pk_to_bytes wr acct) = Some (s, keys)" and "sd_amount s = Some a"
  obtains hard sh el m w1 w2 where
    "hard = saturating_add (sd_hard_faults s) (case sev of Some k \<Rightarrow> k | None \<Rightarrow> 1)"
    "mul_chk (ucast hard) EPOCH = Inr sh" "add_chk (next_epoch (h_block_height h)) sh = Inr el"
    "slash_value n (am_value a) (ucast hard) = Inr m"
    "w1 = set_stakes (bm_insert (w_pk_to_bytes wr acct) (hard_slashed_stake hard m el a s, keys) (stakes_map w)) w"
    "(if m > 0 then
        res_bind (deduct_contract_balance m w1) (\<lambda>w.
        res_bind (add_chk (ss_burnt_amount (sw_stake w)) m) (\<lambda>b. Inr (set_burnt_amount b w)))
      else Inr w1) = Inr w2"
    "w' = record_previous wr (Some s) acct
       (emit (HardSlashEvent \<lparr>sl_account = acct, sl_value = m, sl_next_eligibility = el\<rparr>) w2)"
proof -
  define hard where "hard = saturating_add (sd_hard_faults s) (case sev of Some k \<Rightarrow> k | None \<Rightarrow> 1)"
  let ?put = "\<lambda>m el. set_stakes (bm_insert (w_pk_to_bytes wr acct) (hard_slashed_stake hard m el a s, keys) (stakes_map w)) w"
  obtain sh el m where sh: "mul_chk (ucast hard) EPOCH = Inr sh"
      "add_chk (next_epoch (h_block_height h)) sh = Inr el"
    and m: "slash_value n (am_value a) (ucast hard) = Inr m"
    using assms
    by (simp add: hard_slash_def get_stake_mut_def Let_def flip: hard_def) (elim exE conjE, rule that)
  have le: "m \<le> am_value a" using slash_value_le [OF m] .
  have "hard_slash h wr acct n sev w =
    res_bind (if m > 0 then
        res_bind (deduct_contract_balance m (?put m el)) (\<lambda>w.
        res_bind (add_chk (ss_burnt_amount (sw_stake w)) m) (\<lambda>b. Inr (set_burnt_amount b w)))
      else Inr (?put m el)) (\<lambda>w2.
    Inr (record_previous wr (Some s) acct
       (emit (HardSlashEvent \<lparr>sl_account = acct, sl_value = m, sl_next_eligibility = el\<rparr>) w2)))"
    using assms(2,3) sh m le
    by (simp add: hard_slash_def get_stake_mut_def Let_def hard_slashed_stake_def sub_chk_def word_gt_0
        flip: hard_def cong: if_cong)
  from assms(1) [unfolded this] show thesis
    by (elim res_bind_InrE) (rule that [OF hard_def sh m refl], (assumption | erule Inr_eqD)+)
qed

section \<open>Solvency\<close>

lemma sw_stake_funds: "sw_stake w' = sw_stake w \<Longrightarrow> funds_total w' = funds_total w"
  by (simp add: funds_total_def)

lemma tw_state_balance: "tw_state w' = tw_state w \<Longrightarrow> stake_balance w' = stake_balance w"
  by (simp add: stake_balance_def contract_balance_def)

lemma covered_frames [simp]:
  "covered w (record_previous wr p a w') = covered w w'"
  "covered w (emit e w') = covered w w'"
  by (simp_all add: covered_def)

lemma covered_same: "sw_stake w' = sw_stake w \<Longrightarrow> stake_balance w \<le> stake_balance w' \<Longrightarrow> covered w w'"
  using sw_stake_funds [of w' w] by (simp add: covered_def)

lemma stake_covered:
  assumes "stake h wr r w = Inr w'"
  shows "covered w w'"
proof (rule stake_ok [OF assms(1)])
  fix s w1 w2
  assume load: "load_or_create_stake_mut wr (st_keys r) w = Inr ((s, st_keys r), w1)"
    and dep: "transfer_deposit (Some STAKE_CONTRACT) (st_value r) w1 = Inr w2"
    and fin: "finish_stake h wr r (get_stake wr (sk_account (st_keys r)) w) s (st_keys r) w2 = Inr w'"
  have e: "bm_get (stakes_map w1) (w_pk_to_bytes wr (sk_account (st_keys r))) = Some (s, st_keys r)"
    and f: "funds_total w1 = funds_total w" and t: "tw_state w1 = tw_state w"
    by (rule load_or_create_ok [OF load], assumption)+
  from finish_stake_funds [OF fin] e f deposit_stake [OF dep] tw_state_balance [OF t] sw_stake_funds [OF deposit_stake(1) [OF dep]]
  show ?thesis by (simp add: covered_def)
qed

lemma stake_solvent: "stake h wr r w = Inr w' \<Longrightarrow> solvent w \<Longrightarrow> solvent w'"
  by (rule covered_solvent [OF stake_covered])

text \<open>The transfer contract credits the balance and then calls.\<close>

lemma arrival_covered:
  assumes "credit_contract STAKE_CONTRACT (rc_value recv) w0 = Inr w"
    and "stake_from_contract h wr decode recv w = Inr w'"
  shows "covered w0 w'"
proof (rule stake_from_contract_ok [OF assms(2)])
  fix r s w1
  assume load: "load_or_create_stake_mut wr (st_keys r) w = Inr ((s, st_keys r), w1)"
    and v: "st_value r = rc_value recv"
    and fin: "finish_stake h wr r (get_stake wr (sk_account (st_keys r)) w) s (st_keys r) w1 = Inr w'"
  have e: "bm_get (stakes_map w1) (w_pk_to_bytes wr (sk_account (st_keys r))) = Some (s, st_keys r)"
    and f: "funds_total w1 = funds_total w" and t: "tw_state w1 = tw_state w"
    by (rule load_or_create_ok [OF load], assumption)+
  have "funds_total w = funds_total w0"
    by (rule sw_stake_funds [OF more_stake [OF credit_contract_totals(5) [OF assms(1)]]])
  moreover have "stake_balance w = stake_balance w0 + unat (rc_value recv)"
    using credit_contract_balance [OF assms(1), of STAKE_CONTRACT] by (simp add: stake_balance_def)
  ultimately show ?thesis using finish_stake_funds [OF fin e] f v tw_state_balance [OF t] by (simp add: covered_def)
qed

text \<open>
  After the payment what is left of the amount is stored.  \<open>w0\<close> is the world in which the call began, \<open>w1\<close> the one
  with the payment made, \<open>w2\<close> the one the receiving contract has left.
\<close>

lemma unstaked_covered:
  assumes "bm_get (stakes_map w2) k = Some (s, keys)" and "sd_amount s = Some a"
    and "take_from_amount keys v a = Inr (a', e)" and "covered w1 w2"
    and "sw_stake w1 = sw_stake w0" and "stake_balance w0 \<le> stake_balance w1 + unat v"
  shows "covered w0 (store_unstaked k s keys a' (emit ev w2))"
proof -
  have g: "bm_get (stakes_map (emit ev w2)) k = Some (s, keys)" using assms(1) by simp
  have s: "stake_funds s = amount_funds a" using assms(2) by (simp add: stake_funds_def)
  have "funds_total (store_unstaked k s keys a' (emit ev w2)) + unat v \<le> funds_total w2"
    using store_unstaked_le(1) [OF g, of a'] take_from_amount_funds [OF assms(3)] s by simp
  moreover have "funds_total w2 + stake_balance w1 \<le> funds_total w0 + stake_balance w2"
    using assms(4) sw_stake_funds [OF assms(5)] by (simp add: covered_def)
  ultimately show ?thesis using assms(6) store_unstaked_le(2) [OF g, of a'] by (simp add: covered_def)
qed

lemma unstake_covered:
  assumes "unstake h wr u w = Inr w'"
  shows "covered w w'"
proof (rule unstake_ok [OF assms])
  fix s keys a w1 a' e
  assume s: "bm_get (stakes_map w) (w_pk_to_bytes wr (sw_account u)) = Some (s, keys)" "sd_amount s = Some a"
    and wd: "transfer_withdraw h wr (Some STAKE_CONTRACT) (sw_withdraw u) w = Inr w1"
    and t: "take_from_amount keys (wd_value (sw_withdraw u)) a = Inr (a', e)"
    and w': "w' = record_previous wr (Some s) (sw_account u)
       (store_unstaked (w_pk_to_bytes wr (sw_account u)) s keys a' (emit (UnstakeEvent e) w1))"
  have "bm_get (stakes_map w1) (w_pk_to_bytes wr (sw_account u)) = Some (s, keys)"
    using s(1) withdraw_stake(1) [OF wd] by simp
  from unstaked_covered [OF this s(2) t covered_refl withdraw_stake(1) [OF wd]] withdraw_stake(2) [OF wd] w'
  show ?thesis by simp
qed

lemma unstake_from_contract_covered:
  assumes "unstake_from_contract wr x caller u w = Inr w'"
    and "\<And>c f a u v. x_call x c f a u = Inr v \<Longrightarrow> covered u v"
  shows "covered w w'"
proof (rule unstake_from_contract_ok [OF assms(1)])
  fix prev keys0 a0 c w1 s keys a a' e
  assume c: "contract_to_contract x (Some STAKE_CONTRACT)
       \<lparr>c2c_contract = c, c2c_value = wtc_value u, c2c_fn_name = wtc_fn_name u,
        c2c_data = wtc_data u\<rparr> w = Inr w1"
    and s: "bm_get (stakes_map w1) (w_pk_to_bytes wr (wtc_account u)) = Some (s, keys)" "sd_amount s = Some a"
    and t: "take_from_amount keys (wtc_value u) a = Inr (a', e)"
    and w': "w' = record_previous wr (Some prev) (wtc_account u)
       (store_unstaked (w_pk_to_bytes wr (wtc_account u)) s keys a' (emit (UnstakeEvent e) w1))"
  obtain v1 v2 where v1: "sw_stake v1 = sw_stake w" "stake_balance w \<le> stake_balance v1 + unat (wtc_value u)"
    and call: "covered v1 v2" and w1: "covered v1 w1 = covered v1 v2"
    by (rule to_contract_called [OF c, where R = covered]) (auto simp: assms(2))
  from unstaked_covered [OF s t _ v1] call w1 w' show ?thesis by simp
qed

lemma rewarded_covered:
  assumes "bm_get (stakes_map w2) k = Some (s, keys)" and "covered w1 w2"
    and "sw_stake w1 = sw_stake w0" and "stake_balance w0 \<le> stake_balance w1"
  shows "covered w0 (store_rewarded k s keys r (emit ev w2))"
proof -
  have g: "bm_get (stakes_map (emit ev w2)) k = Some (s, keys)" using assms(1) by simp
  from store_rewarded_funds [OF g] assms(2,4) sw_stake_funds [OF assms(3)]
  show ?thesis by (simp add: covered_def)
qed

lemma withdraw_reward_covered:
  assumes "withdraw_reward h wr u w = Inr w'"
  shows "covered w w'"
  by (rule withdraw_reward_ok [OF assms(1)])
     (simp, rule rewarded_covered [OF _ covered_refl], simp_all add: mint_stake)

lemma withdraw_from_contract_covered:
  assumes "withdraw_from_contract wr x caller u w = Inr w'"
    and "\<And>c f a u v. x_call x c f a u = Inr v \<Longrightarrow> covered u v"
  shows "covered w w'"
proof (rule withdraw_from_contract_ok [OF assms(1)])
  fix c w1 s keys r
  assume c: "mint_to_contract x (Some STAKE_CONTRACT)
       \<lparr>c2c_contract = c, c2c_value = wtc_value u, c2c_fn_name = wtc_fn_name u,
        c2c_data = wtc_data u\<rparr> w = Inr w1"
    and s: "bm_get (stakes_map w1) (w_pk_to_bytes wr (wtc_account u)) = Some (s, keys)"
    and w': "w' = store_rewarded (w_pk_to_bytes wr (wtc_account u)) s keys r
       (emit (StakeWithdrawEvent (stake_event_new keys (wtc_value u))) w1)"
  obtain v1 where v1: "sw_stake v1 = sw_stake w" "stake_balance w \<le> stake_balance v1" and call: "covered v1 w1"
    by (rule mint_to_contract_called [OF c, where R = covered]) (auto simp: assms(2))
  from rewarded_covered [OF s call v1] w' show ?thesis by simp
qed

lemma reward_one_frame:
  assumes "reward_one wr r w = Inr w'"
  shows "funds_total w' = funds_total w" and "tw_state w' = tw_state w"
    and "previous_map w' = previous_map w"
    and "ss_burnt_amount (sw_stake w') = ss_burnt_amount (sw_stake w)"
    and "map_option (sd_amount \<circ> fst) (bm_get (stakes_map w') k) =
           map_option (sd_amount \<circ> fst) (bm_get (stakes_map w) k) \<or>
         bm_get (stakes_map w) k = None \<and>
           map_option (sd_amount \<circ> fst) (bm_get (stakes_map w') k) = Some None"
proof -
  let ?k = "w_pk_to_bytes wr (rw_account r)"
  obtain s keys total where
    w': "w' = set_stakes (bm_insert ?k (s\<lparr>sd_reward := total\<rparr>, keys) (stakes_map w)) w"
    and s: "(\<exists>s0. bm_get (stakes_map w) ?k = Some (s0, keys) \<and>
              sd_amount s = sd_amount s0) \<or>
            bm_get (stakes_map w) ?k = None \<and> s = stake_data_EMPTY"
  proof (cases "bm_get (stakes_map w) ?k")
    case None
    with assms that show thesis
      by (auto simp: reward_one_def Let_def get_stake_mut_def load_or_create_stake_mut_def
          stake_keys_single_key_def set_stakes_def bm_insert_twice)
  next
    case (Some p)
    with assms that show thesis
      by (cases p) (auto simp: reward_one_def Let_def get_stake_mut_def)
  qed
  show "funds_total w' = funds_total w"
    using s funds_total_put [of ?k "s\<lparr>sd_reward := total\<rparr>" keys w]
    by (auto simp: w' stake_funds_def stake_data_EMPTY_def)
  show "tw_state w' = tw_state w" "previous_map w' = previous_map w"
    "ss_burnt_amount (sw_stake w') = ss_burnt_amount (sw_stake w)" by (simp_all add: w')
  show "map_option (sd_amount \<circ> fst) (bm_get (stakes_map w') k) =
           map_option (sd_amount \<circ> fst) (bm_get (stakes_map w) k) \<or>
         bm_get (stakes_map w) k = None \<and>
           map_option (sd_amount \<circ> fst) (bm_get (stakes_map w') k) = Some None"
    using s by (auto simp: w' stake_data_EMPTY_def)
qed

lemma reward_frame:
  assumes "reward wr rs w = Inr w'"
  shows "funds_total w' = funds_total w" and "tw_state w' = tw_state w"
    and "previous_map w' = previous_map w"
proof -
  obtain w1 where w1: "res_fold (reward_one wr) rs w = Inr w1"
    and w': "tw_state w' = tw_state w1" "sw_stake w' = sw_stake w1"
    using assms by (auto simp: reward_def split: if_splits)
  have "funds_total w1 = funds_total w \<and> tw_state w1 = tw_state w \<and> previous_map w1 = previous_map w"
    using w1
  proof (induction rs arbitrary: w)
    case (Cons r rs)
    then obtain w0 where "reward_one wr r w = Inr w0" and "res_fold (reward_one wr) rs w0 = Inr w1"
      by (auto simp: res_bind_Inr)
    with Cons.IH reward_one_frame show ?case by metis
  qed simp
  then show "funds_total w' = funds_total w" and "tw_state w' = tw_state w"
    and "previous_map w' = previous_map w"
    using w' by (simp_all add: funds_total_def)
qed

lemma reward_covered: "reward wr rs w = Inr w' \<Longrightarrow> covered w w'"
  using reward_frame [of wr rs w w'] tw_state_balance [of w' w] by (simp add: covered_def)

text \<open>
  A slash by \<open>m\<close> moves that much of the entry from free to locked funds, or burns it together with
  the contract's balance.
\<close>

lemma lock_amount_le: "m \<le> am_value a \<Longrightarrow> amount_funds (lock_amount m a) \<le> amount_funds a"
  using mod_less_eq_dividend [of "unat (am_locked a) + unat m" "2 ^ 64"]
  by (simp add: lock_amount_def amount_funds_def unat_sub_le word_le_nat_alt unat_word_ariths(1))

lemma slash_covered:
  assumes "slash h wr acct n w = Inr w'"
  shows "covered w w'"
proof -
  obtain s keys where s: "bm_get (stakes_map w) (w_pk_to_bytes wr acct) = Some (s, keys)"
    using assms(1) by (rule slash_exists)
  show ?thesis
  proof (cases "sd_amount s")
    case None
    from slash_none [OF assms(1) s None] show ?thesis by simp
  next
    case (Some a)
    show ?thesis
    proof (rule slash_some [OF assms(1) s Some])
      fix ef el m w1
      assume m: "slash_value n (am_value a) ef = Inr m"
        and w1: "w1 = set_stakes (bm_insert (w_pk_to_bytes wr acct) (slashed_stake m el a s, keys) (stakes_map w)) w"
        and w': "w' = record_previous wr (Some s) acct
          (if m > 0 \<or> ef > 0 then emit (SlashEvent \<lparr>sl_account = acct, sl_value = m, sl_next_eligibility = el\<rparr>) w1
           else w1)"
      have "amount_funds (lock_amount m (a\<lparr>am_eligibility := el\<rparr>)) \<le> amount_funds a"
        using slash_value_le [OF m] lock_amount_le [of m "a\<lparr>am_eligibility := el\<rparr>"] by (simp add: amount_funds_def)
      then have "stake_funds (slashed_stake m el a s) \<le> stake_funds s"
        using Some by (simp add: slashed_stake_def stake_funds_def)
      with s funds_total_put [of "w_pk_to_bytes wr acct" "slashed_stake m el a s" keys w]
      have "covered w w1" by (simp add: w1 covered_def)
      then show ?thesis by (simp add: w')
    qed
  qed
qed

lemma hard_slash_effect:
  assumes "hard_slash h wr acct n sev w = Inr w'"
  obtains m where "funds_total w' + m = funds_total w" and "stake_balance w' + m = stake_balance w"
    and "unat (ss_burnt_amount (sw_stake w')) = unat (ss_burnt_amount (sw_stake w)) + m"
proof -
  obtain s keys where s: "bm_get (stakes_map w) (w_pk_to_bytes wr acct) = Some (s, keys)"
    using assms(1) by (rule hard_slash_exists)
  show thesis
  proof (cases "sd_amount s")
    case None
    from hard_slash_none [OF assms(1) s None] that [of 0] show thesis by simp
  next
    case (Some a)
    show thesis
    proof (rule hard_slash_some [OF assms(1) s Some])
      fix hard sh el m w1 w2
      assume m: "slash_value n (am_value a) (ucast hard) = Inr m"
        and w1: "w1 = set_stakes (bm_insert (w_pk_to_bytes wr acct) (hard_slashed_stake hard m el a s, keys) (stakes_map w)) w"
        and w2: "(if m > 0 then
            res_bind (deduct_contract_balance m w1) (\<lambda>w.
            res_bind (add_chk (ss_burnt_amount (sw_stake w)) m) (\<lambda>b. Inr (set_burnt_amount b w)))
          else Inr w1) = Inr w2"
        and w': "w' = record_previous wr (Some s) acct
          (emit (HardSlashEvent \<lparr>sl_account = acct, sl_value = m, sl_next_eligibility = el\<rparr>) w2)"
      have "unat (am_value a - m) + unat m = unat (am_value a)"
        using slash_value_le [OF m] by (simp add: unat_sub_le word_le_nat_alt)
      then have "stake_funds (hard_slashed_stake hard m el a s) + unat m = stake_funds s"
        using Some by (simp add: hard_slashed_stake_def stake_funds_def amount_funds_def)
      with s funds_total_put [of "w_pk_to_bytes wr acct" "hard_slashed_stake hard m el a s" keys w]
      have f: "funds_total w1 + unat m = funds_total w" by (simp add: w1)
      have b1: "stake_balance w1 = stake_balance w" "ss_burnt_amount (sw_stake w1) = ss_burnt_amount (sw_stake w)"
        by (simp_all add: w1)
      have "funds_total w2 = funds_total w1 \<and> stake_balance w2 + unat m = stake_balance w1 \<and>
        unat (ss_burnt_amount (sw_stake w2)) = unat (ss_burnt_amount (sw_stake w1)) + unat m"
      proof (cases "m > 0")
        case True
        then obtain w3 b where w3: "deduct_contract_balance m w1 = Inr w3"
          and b: "add_chk (ss_burnt_amount (sw_stake w3)) m = Inr b" and w2: "w2 = set_burnt_amount b w3"
          using w2 by auto
        from deduct_stake [OF w3] chk_unat(1) [OF b] show ?thesis
          by (simp add: w2 sw_stake_funds [OF deduct_stake(1) [OF w3]])
      next
        case False
        with w2 show ?thesis by (auto simp: word_gt_0)
      qed
      with f b1 show thesis by (intro that [of "unat m"]) (simp_all add: w')
    qed
  qed
qed

lemma hard_slash_covered: "hard_slash h wr acct n sev w = Inr w' \<Longrightarrow> covered w w'"
  by (erule hard_slash_effect) (simp add: covered_def)

section \<open>A concrete contract\<close>

definition pk7 :: bls_public_key where
  "pk7 = BlsPublicKey 7"

definition sample_stake :: stake_data where
  "sample_stake =
     \<lparr>sd_amount = Some \<lparr>am_value = 3000, am_locked = 500, am_eligibility = 100\<rparr>,
      sd_reward = 50, sd_faults = 1, sd_hard_faults = 0\<rparr>"

definition stake_world :: sworld where
  "stake_world =
     \<lparr>tw_state = transfer_state_new
        \<lparr>tf_contract_balances := bm_insert STAKE_CONTRACT 5000 bm_empty\<rparr>,
      tw_current_tx = Some \<lparr>og_tx = Moonlight sample_moonlight,
        og_deposit = Available (Some pk7) STAKE_CONTRACT 20, og_notes = []\<rparr>,
      tw_events = [],
      sw_stake = stake_state_new
        \<lparr>ss_config := \<lparr>sc_warnings = 1, sc_minimum_stake = 10\<rparr>,
         ss_stakes := bm_insert (w_pk_to_bytes wire0 pk7) (sample_stake, stake_keys_single_key pk7) bm_empty\<rparr>\<rparr>"

definition sample_request :: stake_request where
  "sample_request =
     \<lparr>st_chain_id = 1, st_keys = stake_keys_single_key pk7, st_value = 20,
      st_signature = \<lparr>ds_account = BlsSignature 0, ds_owner = BlsSignature 0\<rparr>\<rparr>"

definition sample_unstake :: stake_withdraw where
  "sample_unstake =
     \<lparr>sw_account = pk7,
      sw_withdraw = \<lparr>wd_contract = STAKE_CONTRACT, wd_value = 40, wd_receiver = MoonlightReceiver pk7,
        wd_token = MoonlightToken 1, wd_signature = MoonlightSig (BlsSignature 0)\<rparr>,
      sw_signature = \<lparr>ds_account = BlsSignature 0, ds_owner = BlsSignature 0\<rparr>\<rparr>"

lemmas stake_sample_defs =
  stake_world_def sample_stake_def pk7_def sample_request_def sample_unstake_def stake_state_new_def
  stake_config_of_def stake_keys_single_key_def get_stake_mut_def

lemma stake_world_entry:
  "bm_get (stakes_map stake_world) (w_pk_to_bytes wire0 pk7) = Some (sample_stake, stake_keys_single_key pk7)"
  by (simp add: stake_world_def)

lemma stake_world_solvent: "solvent stake_world"
  by (simp add: solvent_def funds_total_def stake_balance_def contract_balance_def stake_sample_defs
      transfer_state_new_def bm_sum_def bm_get_or_def stake_funds_def amount_funds_def)

lemma sample_request_ok: "is_ok (stake host0 wire0 sample_request stake_world)"
  by (simp add: stake_def load_or_create_stake_mut_def unwrap_account_owner_def transfer_deposit_def
      deposit_info_def add_contract_balance_def expect_ok_def expect_def res_map_def finish_stake_def
      add_to_stake_def add_chk_def sub_chk_def stake_sample_defs sample_defs Let_def)

lemma sample_unstake_ok: "is_ok (unstake host0 wire0 sample_unstake stake_world)"
  by (simp add: unstake_def unwrap_account_owner_def transfer_withdraw_def mint_withdrawal_def
      check_token_def current_moonlight_def current_transaction_def contract_balance_def
      sub_contract_balance_def expect_ok_def expect_def res_map_def credit_account_def bm_get_or_def
      take_from_amount_def total_funds_def moonlight_accessors ensure_def add_chk_def sub_chk_def
      stake_sample_defs sample_defs set_balances_def emit_def set_accounts_def Let_def)

lemma sample_withdraw_reward_ok: "is_ok (withdraw_reward host0 wire0 sample_unstake stake_world)"
  by (simp add: withdraw_reward_def unwrap_account_owner_def mint_def mint_withdrawal_def
      check_token_def current_moonlight_def current_transaction_def
      expect_ok_def expect_def res_map_def credit_account_def bm_get_or_def
      moonlight_accessors ensure_def add_chk_def sub_chk_def
      stake_sample_defs sample_defs set_accounts_def Let_def)

end
