(* ===== verification/Stake_History.thy ===== *)
theory Stake_History
  imports Stake_Safety
begin

text \<open>
  Histories of the stake contract.  \<open>stake_step\<close> is one call within a block, \<open>stake_history\<close> any
  sequence of blocks.  The theorems are the contract's guarantees over histories: solvency, and
  the undo log of the current block.
\<close>

text \<open>
  A step is an entry point of the contract, the arrival of a contract's stake through
  \<open>contract_to_contract\<close> (the transfer contract credits the balance and then calls), or anything
  else that happens in the VM, which leaves the stake state alone and does not spend the balance.

  \<open>unstake_from_contract\<close> and \<open>withdraw_from_contract\<close> call the contract that receives the payment before they
  update the stake.  That contract may enter the stake contract again, in any way and to any depth: each call that \<open>x\<close> answers is itself
  a run of steps.  (\<open>x\<close> is chosen for the step; it needs to answer the one call that the step makes.)
\<close>

inductive stake_step ::
    "host \<Rightarrow> wire \<Rightarrow> (bytes \<Rightarrow> stake_request option) \<Rightarrow> 'r sworld_scheme \<Rightarrow> 'r sworld_scheme \<Rightarrow> bool"
  for h wr decode where
    step_stake: "stake (h\<lparr>h_block_height := bh\<rparr>) wr r w = Inr w' \<Longrightarrow> stake_step h wr decode w w'"
  | step_from_contract: "credit_contract STAKE_CONTRACT (rc_value recv) w = Inr w1 \<Longrightarrow>
      stake_from_contract (h\<lparr>h_block_height := bh\<rparr>) wr decode recv w1 = Inr w' \<Longrightarrow>
      stake_step h wr decode w w'"
  | step_unstake: "unstake (h\<lparr>h_block_height := bh\<rparr>) wr u w = Inr w' \<Longrightarrow> stake_step h wr decode w w'"
  | step_unstake_from: "unstake_from_contract wr x caller uc w = Inr w' \<Longrightarrow>
      (\<And>c f a u v. x_call x c f a u = Inr v \<Longrightarrow> (stake_step h wr decode)\<^sup>*\<^sup>* u v) \<Longrightarrow> stake_step h wr decode w w'"
  | step_withdraw: "withdraw_reward (h\<lparr>h_block_height := bh\<rparr>) wr u w = Inr w' \<Longrightarrow> stake_step h wr decode w w'"
  | step_withdraw_from: "withdraw_from_contract wr x caller uc w = Inr w' \<Longrightarrow>
      (\<And>c f a u v. x_call x c f a u = Inr v \<Longrightarrow> (stake_step h wr decode)\<^sup>*\<^sup>* u v) \<Longrightarrow> stake_step h wr decode w w'"
  | step_reward: "reward wr rs w = Inr w' \<Longrightarrow> stake_step h wr decode w w'"
  | step_slash: "slash (h\<lparr>h_block_height := bh\<rparr>) wr acct n w = Inr w' \<Longrightarrow> stake_step h wr decode w w'"
  | step_hard_slash: "hard_slash (h\<lparr>h_block_height := bh\<rparr>) wr acct n sev w = Inr w' \<Longrightarrow>
      stake_step h wr decode w w'"
  | step_configure: "stake_step h wr decode w (configure c w)"
  | step_burnt: "stake_step h wr decode w (set_burnt_amount b w)"
  | step_other: "sw_stake w' = sw_stake w \<Longrightarrow> stake_balance w \<le> stake_balance w' \<Longrightarrow>
      stake_step h wr decode w w'"

text \<open>
  A history is any sequence of steps, of new blocks, and of what the builder of the genesis state
  (\<^verbatim>\<open>rusk-recovery/src/state.rs\<close>) does: it inserts stakes and then credits their sum to the contract.
\<close>

definition insert_stakes ::
    "wire \<Rightarrow> (stake_keys \<times> stake_data) list \<Rightarrow> 'r sworld_scheme \<Rightarrow> 'r sworld_scheme" where
  "insert_stakes wr = fold (\<lambda>(keys, s). insert_stake wr keys s)"

inductive stake_history ::
    "host \<Rightarrow> wire \<Rightarrow> (bytes \<Rightarrow> stake_request option) \<Rightarrow> 'r sworld_scheme \<Rightarrow> 'r sworld_scheme \<Rightarrow> bool"
  for h wr decode where
    history_refl: "stake_history h wr decode w w"
  | history_step: "stake_history h wr decode w v \<Longrightarrow> stake_step h wr decode v u \<Longrightarrow>
      stake_history h wr decode w u"
  | history_block: "stake_history h wr decode w v \<Longrightarrow> stake_history h wr decode w (on_new_block v)"
  | history_genesis: "stake_history h wr decode w v \<Longrightarrow>
      add_contract_balance STAKE_CONTRACT b (insert_stakes wr ss v) = Inr u \<Longrightarrow>
      sum_list (map (stake_funds \<circ> snd) ss) \<le> unat b \<Longrightarrow> stake_history h wr decode w u"

section \<open>Solvency over histories\<close>

lemma covered_runs: "(\<lambda>u v. S u v \<and> covered u v)\<^sup>*\<^sup>* w w' \<Longrightarrow> covered w w'"
  by (erule related_run) (auto intro: covered_trans)

lemma covered_settings [simp]:
  "covered w (configure c w)"
  "covered w (set_burnt_amount b w)"
  "covered w (on_new_block w)"
  by (simp_all add: covered_def funds_total_def stake_balance_def contract_balance_def configure_def
      on_new_block_def set_burnt_amount_def)

lemma step_covered: "stake_step h wr decode w w' \<Longrightarrow> covered w w'"
proof (induction rule: stake_step.induct)
  case (step_unstake_from x caller uc w w')
  show ?case
    by (rule unstake_from_contract_covered [OF step_unstake_from(1)]) (rule covered_runs [OF step_unstake_from(2)])
next
  case (step_withdraw_from x caller uc w w')
  show ?case
    by (rule withdraw_from_contract_covered [OF step_withdraw_from(1)]) (rule covered_runs [OF step_withdraw_from(2)])
next
  case (step_other w' w)
  then show ?case by (rule covered_same)
qed (simp_all add: stake_covered arrival_covered unstake_covered withdraw_reward_covered reward_covered slash_covered
      hard_slash_covered)

lemma insert_stakes_state: "tw_state (insert_stakes wr ss w) = tw_state w"
  by (induction ss arbitrary: w) (auto simp: insert_stakes_def insert_stake_def)

lemma insert_stakes_funds:
  "funds_total (insert_stakes wr ss w) \<le> funds_total w + sum_list (map (stake_funds \<circ> snd) ss)"
proof (induction ss arbitrary: w)
  case (Cons e ss)
  obtain keys s where e: "e = (keys, s)" by force
  have "funds_total (insert_stake wr keys s w) \<le> funds_total w + stake_funds s"
    using funds_total_put [of "w_pk_to_bytes wr (sk_account keys)" s keys w] by (simp add: insert_stake_def)
  then show ?case
    using Cons.IH [of "insert_stake wr keys s w"] by (simp add: insert_stakes_def e comp_def)
qed (simp add: insert_stakes_def)

lemma genesis_covered:
  assumes "add_contract_balance STAKE_CONTRACT b (insert_stakes wr ss w) = Inr w'"
    and "sum_list (map (stake_funds \<circ> snd) ss) \<le> unat b"
  shows "covered w w'"
proof -
  have cr: "credit_contract STAKE_CONTRACT b (insert_stakes wr ss w) = Inr w'"
    using assms(1) by (simp add: add_contract_balance_credit)
  have "funds_total w' = funds_total (insert_stakes wr ss w)"
    by (rule sw_stake_funds [OF more_stake [OF credit_contract_totals(5) [OF cr]]])
  moreover have "stake_balance w' = stake_balance w + unat b"
    using credit_contract_balance [OF cr, of STAKE_CONTRACT] insert_stakes_state [of wr ss w]
    by (simp add: stake_balance_def contract_balance_def)
  ultimately show ?thesis using insert_stakes_funds [of wr ss w] assms(2) by (simp add: covered_def)
qed

lemma history_covered: "stake_history h wr decode w w' \<Longrightarrow> covered w w'"
  by (induction rule: stake_history.induct)
     (auto intro: covered_trans step_covered genesis_covered covered_settings(3))

text \<open>
  C7: The stake contract is solvent.  In every history, through the insertion of the genesis stakes, stakes,
  withdrawals, rewards and slashes, and with contracts that enter the stake contract again, to any depth, while it pays
  them, the funds it records never exceed the balance the transfer contract holds for it whenever no call is under way.  Other
  contracts are taken to act on the stake contract and its balance through its entry points only.
  A call that goes on with a dangling reference counts as failed (\<open>held_stake\<close>).
\<close>

theorem stake_solvency:
  assumes "stake_history h wr decode w w'" and "solvent w"
  shows "solvent w'"
  by (rule covered_solvent [OF history_covered [OF assms(1)] assms(2)])

section \<open>The undo log\<close>

definition amount_at :: "bytes \<Rightarrow> 'r sworld_scheme \<Rightarrow> stake_amount option" where
  "amount_at k w = Option.bind (bm_get (stakes_map w) k) (sd_amount \<circ> fst)"

text \<open>The amount a reader of \<open>prev_state_changes\<close> and \<open>stakes\<close> takes to be the one before the block.\<close>

definition block_start_amount :: "bytes \<Rightarrow> 'r sworld_scheme \<Rightarrow> stake_amount option" where
  "block_start_amount k w =
     (case bm_get (previous_map w) k of
        Some (p, _) \<Rightarrow> Option.bind p sd_amount
      | None \<Rightarrow> amount_at k w)"

text \<open>
  What a run of calls keeps of the undo log: every account's stake at the start of the block, and the
  records there are.
\<close>

definition undo_kept :: "'r sworld_scheme \<Rightarrow> 'r sworld_scheme \<Rightarrow> bool" where
  "undo_kept w w' \<longleftrightarrow>
     (\<forall>k. block_start_amount k w' = block_start_amount k w) \<and>
     (\<forall>k. bm_get (previous_map w) k \<noteq> None \<longrightarrow> bm_get (previous_map w') k \<noteq> None)"

lemma undo_kept_refl [simp, intro]: "undo_kept w w"
  by (simp add: undo_kept_def)

lemma undo_kept_trans: "undo_kept u v \<Longrightarrow> undo_kept v w \<Longrightarrow> undo_kept u w"
  by (simp add: undo_kept_def)

lemma undo_kept_runs: "(\<lambda>u v. S u v \<and> undo_kept u v)\<^sup>*\<^sup>* w w' \<Longrightarrow> undo_kept w w'"
  by (erule related_run) (auto intro: undo_kept_trans)

lemma undo_same:
  assumes "previous_map w' = previous_map w" and "\<And>k. amount_at k w' = amount_at k w"
  shows "undo_kept w w'"
  using assms by (simp add: undo_kept_def block_start_amount_def split: option.split)

lemma undo_record:
  assumes "previous_map w1 = previous_map w"
    and "\<And>k. k \<noteq> w_pk_to_bytes wr acct \<Longrightarrow> amount_at k w1 = amount_at k w"
    and "bm_get (previous_map w) (w_pk_to_bytes wr acct) = None \<Longrightarrow>
           Option.bind p sd_amount = amount_at (w_pk_to_bytes wr acct) w"
  shows "undo_kept w (record_previous wr p acct w1)"
proof -
  have "previous_map (record_previous wr p acct w1) =
      bm_or_insert (w_pk_to_bytes wr acct) (p, acct) (previous_map w)"
    using assms(1) by (simp add: record_previous_def)
  moreover have "block_start_amount k (record_previous wr p acct w1) = block_start_amount k w" for k
    using calculation assms(2) [of k] assms(3)
    by (auto simp: block_start_amount_def bm_get_or_def amount_at_def split: option.splits)
  ultimately show ?thesis by (simp add: undo_kept_def bm_get_or_def)
qed

lemma amount_at_stake: "sw_stake w' = sw_stake w \<Longrightarrow> amount_at k w' = amount_at k w"
  by (simp add: amount_at_def)

lemma amount_at_put:
  "amount_at k (set_stakes (bm_insert k' (s, keys) m) w) =
     (if k = k' then sd_amount s else Option.bind (bm_get m k) (sd_amount \<circ> fst))"
  by (simp add: amount_at_def)

lemma store_unstaked_frame:
  "previous_map (store_unstaked k s keys a w) = previous_map w"
  "k' \<noteq> k \<Longrightarrow> amount_at k' (store_unstaked k s keys a w) = amount_at k' w"
  by (auto simp: store_unstaked_def amount_at_def)

lemma store_rewarded_frame:
  "previous_map (store_rewarded k s keys r w) = previous_map w"
  "bm_get (stakes_map w) k = Some (s, keys) \<Longrightarrow> amount_at k' (store_rewarded k s keys r w) = amount_at k' w"
  by (auto simp: store_rewarded_def amount_at_def)

lemma finish_stake_undo:
  assumes "load_or_create_stake_mut wr (st_keys r) w = Inr ((s, st_keys r), w1)"
    and "sw_stake w2 = sw_stake w1"
    and "finish_stake h wr r (get_stake wr (sk_account (st_keys r)) w) s (st_keys r) w2 = Inr w'"
  shows "undo_kept w w'"
proof -
  let ?k = "w_pk_to_bytes wr (sk_account (st_keys r))"
  obtain s' e where w': "w' = record_previous wr (get_stake wr (sk_account (st_keys r)) w) (sk_account (st_keys r))
      (emit (StakeEvent e) (set_stakes (bm_insert ?k (s', st_keys r) (stakes_map w2)) w2))"
    using assms(3) by (auto simp: finish_stake_def)
  have p: "previous_map w1 = previous_map w"
    and o: "\<And>k. k \<noteq> ?k \<Longrightarrow> bm_get (stakes_map w1) k = bm_get (stakes_map w) k"
    by (rule load_or_create_ok [OF assms(1)], assumption, rule load_or_create_ok [OF assms(1)], blast)
  show ?thesis unfolding w'
  proof (rule undo_record)
    show "previous_map (emit (StakeEvent e) (set_stakes (bm_insert ?k (s', st_keys r) (stakes_map w2)) w2))
        = previous_map w" using p assms(2) by simp
  qed (use o assms(2) in \<open>simp_all add: amount_at_def get_stake_def bind_map_option comp_def\<close>)
qed

lemma undo_kept_stake: "sw_stake w' = sw_stake w \<Longrightarrow> undo_kept w w'"
  by (rule undo_same) (simp_all add: amount_at_def)

text \<open>
  An account that has no record after the payment has not been unstaked or slashed in between, so the amount
  loaded before the payment is the one it had at the start of the block.
\<close>

lemma unstaked_undo:
  assumes "undo_kept w w1" and "amount_at (w_pk_to_bytes wr acct) w = sd_amount prev"
  shows "undo_kept w (record_previous wr (Some prev) acct
           (store_unstaked (w_pk_to_bytes wr acct) s keys a (emit e w1)))"
proof -
  let ?k = "w_pk_to_bytes wr acct"
  have "undo_kept w1 (record_previous wr (Some prev) acct (store_unstaked ?k s keys a (emit e w1)))"
  proof (rule undo_record)
    show "previous_map (store_unstaked ?k s keys a (emit e w1)) = previous_map w1"
      by (simp add: store_unstaked_frame)
    show "amount_at k (store_unstaked ?k s keys a (emit e w1)) = amount_at k w1" if "k \<noteq> ?k" for k
      using store_unstaked_frame(2) [OF that, of s keys a "emit e w1"] by (simp add: amount_at_def)
    assume none: "bm_get (previous_map w1) ?k = None"
    then have "bm_get (previous_map w) ?k = None" using assms(1) unfolding undo_kept_def by blast
    moreover have "block_start_amount ?k w1 = block_start_amount ?k w" using assms(1) by (simp add: undo_kept_def)
    ultimately show "Option.bind (Some prev) sd_amount = amount_at ?k w1"
      using none assms(2) by (simp add: block_start_amount_def)
  qed
  with assms(1) show ?thesis by (rule undo_kept_trans)
qed

lemma rewarded_undo:
  assumes "bm_get (stakes_map w) k' = Some (s, keys)"
  shows "undo_kept w (store_rewarded k' s keys r (emit e w))"
  by (rule undo_same)
     (use assms in \<open>simp_all add: store_rewarded_frame\<close>, simp_all add: amount_at_def)

lemma reward_undo:
  assumes "reward wr rs w = Inr w'"
  shows "undo_kept w w'"
proof -
  have one: "amount_at k v = amount_at k u" if "reward_one wr r u = Inr v" for r u v k
    using reward_one_frame(5) [OF that, of k]
    by (cases "bm_get (stakes_map v) k"; cases "bm_get (stakes_map u) k") (auto simp: amount_at_def)
  obtain w1 where w1: "res_fold (reward_one wr) rs w = Inr w1" and w': "sw_stake w' = sw_stake w1"
    using assms by (auto simp: reward_def split: if_splits)
  have "amount_at k w1 = amount_at k w" for k
    using w1
  proof (induction rs arbitrary: w)
    case (Cons r rs)
    then obtain w0 where "reward_one wr r w = Inr w0" and "res_fold (reward_one wr) rs w0 = Inr w1"
      by (auto simp: res_bind_Inr)
    with Cons.IH one show ?case by metis
  qed simp
  then have "amount_at k w' = amount_at k w" for k using w' by (simp add: amount_at_def)
  then show ?thesis by (rule undo_same [OF reward_frame(3) [OF assms]])
qed

lemma put_undo:
  assumes "bm_get (stakes_map w) (w_pk_to_bytes wr acct) = Some (s, keys)"
    and "previous_map w1 = previous_map w"
    and "stakes_map w1 = bm_insert (w_pk_to_bytes wr acct) v (stakes_map w)"
  shows "undo_kept w (record_previous wr (Some s) acct w1)"
  by (rule undo_record [OF assms(2)]) (use assms in \<open>auto simp: amount_at_def\<close>)

lemma slash_undo:
  assumes "slash h wr acct n w = Inr w'"
  shows "undo_kept w w'"
proof -
  obtain s keys where s: "bm_get (stakes_map w) (w_pk_to_bytes wr acct) = Some (s, keys)"
    using assms by (rule slash_exists)
  show ?thesis
  proof (cases "sd_amount s")
    case None
    from slash_none [OF assms s None] show ?thesis by simp
  next
    case (Some a)
    show ?thesis
      by (rule slash_some [OF assms s Some]) (simp, intro conjI impI put_undo [OF s], simp_all)
  qed
qed

lemma hard_slash_undo:
  assumes "hard_slash h wr acct n sev w = Inr w'"
  shows "undo_kept w w'"
proof -
  obtain s keys where s: "bm_get (stakes_map w) (w_pk_to_bytes wr acct) = Some (s, keys)"
    using assms by (rule hard_slash_exists)
  show ?thesis
  proof (cases "sd_amount s")
    case None
    from hard_slash_none [OF assms s None] show ?thesis by simp
  next
    case (Some a)
    show ?thesis
    proof (rule hard_slash_some [OF assms s Some])
      fix hard sh el m w1 w2
      assume w1: "w1 = set_stakes (bm_insert (w_pk_to_bytes wr acct) (hard_slashed_stake hard m el a s, keys) (stakes_map w)) w"
        and w2: "(if m > 0 then
            res_bind (deduct_contract_balance m w1) (\<lambda>w.
            res_bind (add_chk (ss_burnt_amount (sw_stake w)) m) (\<lambda>b. Inr (set_burnt_amount b w)))
          else Inr w1) = Inr w2"
        and w': "w' = record_previous wr (Some s) acct
          (emit (HardSlashEvent \<lparr>sl_account = acct, sl_value = m, sl_next_eligibility = el\<rparr>) w2)"
      have "previous_map w2 = previous_map w1 \<and> stakes_map w2 = stakes_map w1"
        using w2 by (auto dest: deduct_stake(1) split: if_splits)
      then show ?thesis unfolding w' by (intro put_undo [OF s]) (simp_all add: w1)
    qed
  qed
qed

lemma arrival_undo:
  assumes "credit_contract STAKE_CONTRACT v w = Inr w1"
    and "stake_from_contract h wr decode recv w1 = Inr w'"
  shows "undo_kept w w'"
proof -
  have "undo_kept w1 w'"
    by (rule stake_from_contract_ok [OF assms(2)]) (rule finish_stake_undo [OF _ refl])
  moreover have s: "sw_stake w1 = sw_stake w"
    by (rule more_stake [OF credit_contract_totals(5) [OF assms(1)]])
  then have "undo_kept w w1" by (rule undo_kept_stake)
  ultimately show ?thesis by (blast intro: undo_kept_trans)
qed

lemma unstake_from_contract_undo:
  fixes w w' :: "'r sworld_scheme"
  assumes "unstake_from_contract wr x caller u w = Inr w'"
    and "\<And>c f a u v. x_call x c f a u = Inr v \<Longrightarrow> undo_kept u v"
  shows "undo_kept w w'"
proof (rule unstake_from_contract_ok [OF assms(1)])
  fix prev keys0 a0 c w1 s keys a a' e
  assume p: "bm_get (stakes_map w) (w_pk_to_bytes wr (wtc_account u)) = Some (prev, keys0)"
    and c: "contract_to_contract x (Some STAKE_CONTRACT)
       \<lparr>c2c_contract = c, c2c_value = wtc_value u, c2c_fn_name = wtc_fn_name u,
        c2c_data = wtc_data u\<rparr> w = Inr w1"
    and w': "w' = record_previous wr (Some prev) (wtc_account u)
       (store_unstaked (w_pk_to_bytes wr (wtc_account u)) s keys a' (emit (UnstakeEvent e) w1))"
  obtain v1 v2 :: "'r sworld_scheme" where "sw_stake v1 = sw_stake w" and call: "undo_kept v1 v2" and "sw_stake w1 = sw_stake v2"
    by (rule to_contract_called [OF c, where R = undo_kept]) (auto simp: assms(2))
  then have "undo_kept w w1" by (blast intro: undo_kept_trans undo_kept_stake)
  then show ?thesis unfolding w' by (rule unstaked_undo) (simp add: amount_at_def p)
qed

lemma withdraw_from_contract_undo:
  fixes w w' :: "'r sworld_scheme"
  assumes "withdraw_from_contract wr x caller u w = Inr w'"
    and "\<And>c f a u v. x_call x c f a u = Inr v \<Longrightarrow> undo_kept u v"
  shows "undo_kept w w'"
proof (rule withdraw_from_contract_ok [OF assms(1)])
  fix c w1 s keys r
  assume c: "mint_to_contract x (Some STAKE_CONTRACT)
       \<lparr>c2c_contract = c, c2c_value = wtc_value u, c2c_fn_name = wtc_fn_name u,
        c2c_data = wtc_data u\<rparr> w = Inr w1"
    and s: "bm_get (stakes_map w1) (w_pk_to_bytes wr (wtc_account u)) = Some (s, keys)"
    and w': "w' = store_rewarded (w_pk_to_bytes wr (wtc_account u)) s keys r
       (emit (StakeWithdrawEvent (stake_event_new keys (wtc_value u))) w1)"
  obtain v1 v2 :: "'r sworld_scheme" where "sw_stake v1 = sw_stake w" and call: "undo_kept v1 v2" and "sw_stake w1 = sw_stake v2"
    by (rule mint_to_contract_called [OF c, where R = undo_kept]) (auto simp: assms(2))
  then have "undo_kept w w1" by (blast intro: undo_kept_trans undo_kept_stake)
  with rewarded_undo [OF s] show ?thesis unfolding w' by (blast intro: undo_kept_trans)
qed

lemma stake_undo: "stake h wr r w = Inr w' \<Longrightarrow> undo_kept w w'"
  by (elim stake_ok) (erule finish_stake_undo, erule deposit_stake(1))

lemma unstake_undo: "unstake h wr u w = Inr w' \<Longrightarrow> undo_kept w w'"
  by (elim unstake_ok)
     (simp, rule unstaked_undo, erule undo_kept_stake [OF withdraw_stake(1)], simp add: amount_at_def)

lemma withdraw_reward_undo: "withdraw_reward h wr u w = Inr w' \<Longrightarrow> undo_kept w w'"
  by (elim withdraw_reward_ok)
     (simp, rule undo_kept_trans [OF undo_kept_stake [OF mint_stake(1)] rewarded_undo], assumption, simp add: mint_stake(1))

lemma step_undo: "stake_step h wr decode w w' \<Longrightarrow> undo_kept w w'"
proof (induction rule: stake_step.induct)
  case (step_unstake_from x caller uc w w')
  show ?case
    by (rule unstake_from_contract_undo [OF step_unstake_from(1)]) (rule undo_kept_runs [OF step_unstake_from(2)])
next
  case (step_withdraw_from x caller uc w w')
  show ?case
    by (rule withdraw_from_contract_undo [OF step_withdraw_from(1)]) (rule undo_kept_runs [OF step_withdraw_from(2)])
next
  case step_configure
  show ?case by (rule undo_same) (simp_all add: configure_def amount_at_def)
next
  case step_burnt
  show ?case by (rule undo_same) (simp_all add: amount_at_def)
next
  case (step_other w' w)
  from step_other(1) show ?case by (rule undo_kept_stake)
qed (erule stake_undo unstake_undo withdraw_reward_undo reward_undo slash_undo hard_slash_undo | erule (1) arrival_undo)+

lemma steps_undo:
  assumes "(stake_step h wr decode)\<^sup>*\<^sup>* (on_new_block w) w'"
  shows "block_start_amount k w' = amount_at k w"
proof -
  have "undo_kept (on_new_block w) w'"
    using assms(1) by (induction rule: rtranclp_induct) (auto intro: undo_kept_trans step_undo)
  then have "block_start_amount k w' = block_start_amount k (on_new_block w)" by (simp add: undo_kept_def)
  also have "\<dots> = amount_at k w"
    by (simp add: block_start_amount_def on_new_block_def amount_at_def)
  finally show ?thesis .
qed

text \<open>
  C13: Within a block, \<open>previous_block_state\<close> is a correct undo log: after \<open>before_state_transition\<close>
  and any number of calls, every account's stake at the start of the block is the recorded one if
  there is a record and the current one if there is none, even when the account was staked, slashed
  and unstaked several times, and when a contract that is being paid unstakes the same account again before the
  first call has updated it.  Other contracts are taken to change the stakes through the entry points only.
  A call that goes on with a dangling reference counts as failed (\<open>held_stake\<close>).
\<close>

theorem previous_state_is_undo_log:
  assumes "(stake_step h wr decode)\<^sup>*\<^sup>* (on_new_block w) w'"
  shows "block_start_amount k w' = amount_at k w"
  by (rule steps_undo [OF assms])

section \<open>A contract that enters again\<close>

text \<open>
  A contract owns the stake of an account and unstakes 40 of it; when it is called with the payment it unstakes
  another 60, and the entry is updated twice.
\<close>

definition contract_keys :: stake_keys where
  "contract_keys = \<lparr>sk_account = pk7, sk_owner = Contract (reserved 3)\<rparr>"

definition contract_world :: sworld where
  "contract_world =
     set_stakes (bm_insert (w_pk_to_bytes wire0 pk7) (sample_stake, contract_keys) bm_empty) stake_world"

definition take_out :: "u64 \<Rightarrow> withdraw_to_contract" where
  "take_out v = \<lparr>wtc_account = pk7, wtc_value = v, wtc_fn_name = [], wtc_data = []\<rparr>"

definition entering_again :: "sworld ext" where
  "entering_again =
     \<lparr>x_call = \<lambda>_ _ _. unstake_from_contract wire0 ext0 (Some (reserved 3)) (take_out 60),
      x_call_raw = \<lambda>_ _ _ w. (Inr [], w)\<rparr>"

lemmas contract_sample_defs =
  unstake_from_contract_def held_stake_def contract_keys_def contract_world_def take_out_def entering_again_def
  unwrap_contract_owner_def contract_to_contract_def credit_contract_def expect_ok_def expect_def res_map_def
  add_chk_def sub_chk_def take_from_amount_def total_funds_def bm_get_or_def ext0_def stake_sample_defs sample_defs
  set_balances_def set_stakes_def record_previous_def emit_def store_unstaked_def on_new_block_def STAKE_CONTRACT_def
  TRANSFER_CONTRACT_def

lemma keys_single: "bm_keys (bm_insert k v bm_empty) = [k]"
  by (simp add: bm_keys_def bm_insert.rep_eq bm_empty.rep_eq)

lemma entered_twice:
  "is_ok (unstake_from_contract wire0 entering_again (Some (reserved 3)) (take_out 40) (on_new_block contract_world))"
  by (simp add: contract_sample_defs keys_single Let_def)

lemma entering_again_steps:
  assumes "x_call entering_again c f a u = Inr v"
  shows "(stake_step host0 wire0 (\<lambda>_. None))\<^sup>*\<^sup>* u v"
proof -
  have "unstake_from_contract wire0 ext0 (Some (reserved 3)) (take_out 60) u = Inr v"
    using assms by (simp add: entering_again_def)
  then have "stake_step host0 wire0 (\<lambda>_. None) u v"
    by (rule step_unstake_from) (auto simp: ext0_def)
  then show ?thesis by blast
qed

lemma sample_history:
  obtains w1 where
    "unstake_from_contract wire0 entering_again (Some (reserved 3)) (take_out 40) (on_new_block contract_world) = Inr w1"
    and "stake_step host0 wire0 (\<lambda>_. None) (on_new_block contract_world) w1"
proof -
  obtain w1 where
    w1: "unstake_from_contract wire0 entering_again (Some (reserved 3)) (take_out 40) (on_new_block contract_world) = Inr w1"
    using entered_twice by (rule is_okE)
  then have "stake_step host0 wire0 (\<lambda>_. None) (on_new_block contract_world) w1"
    by (rule step_unstake_from) (rule entering_again_steps)
  with w1 show thesis by (rule that)
qed

lemma contract_world_solvent: "solvent contract_world"
  by (simp add: solvent_def funds_total_def stake_balance_def contract_balance_def contract_world_def stake_sample_defs
      transfer_state_new_def bm_sum_def bm_get_or_def stake_funds_def amount_funds_def)

theorem stake_solvency_witness:
  "\<exists>w1. unstake_from_contract wire0 entering_again (Some (reserved 3)) (take_out 40) (on_new_block contract_world) = Inr w1 \<and>
     solvent w1"
proof (rule sample_history)
  fix w1 :: sworld
  assume w1: "unstake_from_contract wire0 entering_again (Some (reserved 3)) (take_out 40) (on_new_block contract_world) = Inr w1"
    and "stake_step host0 wire0 (\<lambda>_. None) (on_new_block contract_world) w1"
  then have "stake_history host0 wire0 (\<lambda>_. None) contract_world w1"
    by (intro history_step [OF history_block [OF history_refl]])
  from stake_solvency [OF this contract_world_solvent] w1 show ?thesis by blast
qed

theorem previous_state_is_undo_log_witness:
  "\<exists>w1. unstake_from_contract wire0 entering_again (Some (reserved 3)) (take_out 40) (on_new_block contract_world) = Inr w1 \<and>
     block_start_amount (w_pk_to_bytes wire0 pk7) w1 =
       Some \<lparr>am_value = 3000, am_locked = 500, am_eligibility = 100\<rparr>"
proof (rule sample_history)
  fix w1 :: sworld
  assume w1: "unstake_from_contract wire0 entering_again (Some (reserved 3)) (take_out 40) (on_new_block contract_world) = Inr w1"
    and "stake_step host0 wire0 (\<lambda>_. None) (on_new_block contract_world) w1"
  then have "(stake_step host0 wire0 (\<lambda>_. None))\<^sup>*\<^sup>* (on_new_block contract_world) w1" by blast
  from previous_state_is_undo_log [OF this, of "w_pk_to_bytes wire0 pk7"] w1
  show ?thesis by (simp add: amount_at_def contract_world_def sample_stake_def)
qed

end
