(* ===== verification/Stake_Operations.thy ===== *)
theory Stake_Operations
  imports Stake_History
begin

text \<open>
  What the single operations of the stake contract do to the account they are called for, on every
  branch that does not panic, and when slashing does not panic.
\<close>

section \<open>Staking and unstaking\<close>

definition funds_at :: "bytes \<Rightarrow> 'r sworld_scheme \<Rightarrow> nat" where
  "funds_at k w = opt_val amount_funds (amount_at k w)"

lemma funds_at_entry: "bm_get (stakes_map w) k = Some (s, keys) \<Longrightarrow> funds_at k w = stake_funds s"
  by (simp add: funds_at_def amount_at_def stake_funds_def)

lemma funds_at_none: "bm_get (stakes_map w) k = None \<Longrightarrow> funds_at k w = 0"
  by (simp add: funds_at_def amount_at_def)

lemma add_to_stake_first:
  assumes "add_to_stake h keys v s = Inr (s', e)" and "sd_amount s = None"
  shows "sd_amount s' = Some \<lparr>am_value = v, am_locked = 0, am_eligibility = eligibility_from_height (h_block_height h)\<rparr>"
  using assms by (auto simp: add_to_stake_def amount_new_def amount_with_eligibility_def)

lemma add_to_stake_topup:
  assumes "add_to_stake h keys v s = Inr (s', e)" and "sd_amount s = Some a"
  shows "\<exists>a'. sd_amount s' = Some a' \<and> am_eligibility a' = am_eligibility a \<and>
           unat (am_locked a') = unat (am_locked a)
             + (if am_eligibility a \<le> h_block_height h then unat v div 10 else 0)"
proof -
  let ?locked = "if am_eligibility a \<le> h_block_height h then v div 10 else 0"
  obtain v1 l v2 where l: "add_chk (am_locked a) ?locked = Inr l"
    and s': "s' = s\<lparr>sd_amount := Some (a\<lparr>am_locked := l, am_value := v2\<rparr>)\<rparr>"
    using assms by (auto simp: add_to_stake_def Let_def)
  have "unat l = unat (am_locked a) + (if am_eligibility a \<le> h_block_height h then unat v div 10 else 0)"
    using chk_unat(1) [OF l] by (simp add: unat_div_distrib)
  then show ?thesis by (simp add: s')
qed

lemma stake_entry:
  assumes "stake h wr r w = Inr w'"
  obtains s s' e where "add_to_stake h (st_keys r) (st_value r) s = Inr (s', e)"
    and "amount_at (w_pk_to_bytes wr (sk_account (st_keys r))) w = sd_amount s"
    and "amount_at (w_pk_to_bytes wr (sk_account (st_keys r))) w' = sd_amount s'"
    and "sd_amount s \<noteq> None \<or> sc_minimum_stake (stake_config_of w) \<le> st_value r"
proof (rule stake_ok [OF assms])
  fix s w1 w2
  assume load: "load_or_create_stake_mut wr (st_keys r) w = Inr ((s, st_keys r), w1)"
    and min: "sd_amount s \<noteq> None \<or> sc_minimum_stake (stake_config_of w) \<le> st_value r"
    and fin: "finish_stake h wr r (get_stake wr (sk_account (st_keys r)) w) s (st_keys r) w2 = Inr w'"
  let ?k = "w_pk_to_bytes wr (sk_account (st_keys r))"
  obtain s' e where s': "add_to_stake h (st_keys r) (st_value r) s = Inr (s', e)"
    and w': "bm_get (stakes_map w') ?k = Some (s', st_keys r)"
    using fin by (auto simp: finish_stake_def)
  have "bm_get (stakes_map w) ?k = Some (s, st_keys r) \<or>
      bm_get (stakes_map w) ?k = None \<and> s = stake_data_EMPTY"
    by (rule load_or_create_ok [OF load])
  then have "amount_at ?k w = sd_amount s" by (auto simp: amount_at_def stake_data_EMPTY_def)
  with s' w' min show thesis by (intro that) (simp_all add: amount_at_def)
qed

lemma stake_funds_at:
  assumes "stake h wr r w = Inr w'"
  shows "funds_at (w_pk_to_bytes wr (sk_account (st_keys r))) w' =
         funds_at (w_pk_to_bytes wr (sk_account (st_keys r))) w + unat (st_value r)"
  by (rule stake_entry [OF assms], drule add_to_stake_funds) (simp add: funds_at_def stake_funds_def)

text \<open>
  A stake adds exactly its value to the account.  A first stake is at least the minimum, is not
  locked and becomes eligible an epoch after the next one starts; adding to a stake that is already
  eligible locks a tenth of the value, adding to one that is not locks nothing, and neither changes
  the eligibility.
\<close>

theorem stake_adds_value:
  assumes "stake h wr r w = Inr w'" and "k = w_pk_to_bytes wr (sk_account (st_keys r))"
  shows "funds_at k w' = funds_at k w + unat (st_value r) \<and>
         (case amount_at k w of
            None \<Rightarrow> sc_minimum_stake (stake_config_of w) \<le> st_value r \<and>
              amount_at k w' = Some \<lparr>am_value = st_value r, am_locked = 0,
                am_eligibility = eligibility_from_height (h_block_height h)\<rparr>
          | Some a \<Rightarrow> \<exists>a'. amount_at k w' = Some a' \<and> am_eligibility a' = am_eligibility a \<and>
              unat (am_locked a') = unat (am_locked a)
                + (if am_eligibility a \<le> h_block_height h then unat (st_value r) div 10 else 0))"
proof (rule stake_entry [OF assms(1)])
  fix s s' e
  assume s': "add_to_stake h (st_keys r) (st_value r) s = Inr (s', e)"
    and am: "amount_at (w_pk_to_bytes wr (sk_account (st_keys r))) w = sd_amount s"
    and am': "amount_at (w_pk_to_bytes wr (sk_account (st_keys r))) w' = sd_amount s'"
    and min: "sd_amount s \<noteq> None \<or> sc_minimum_stake (stake_config_of w) \<le> st_value r"
  from am am' min add_to_stake_first [OF s'] add_to_stake_topup [OF s'] stake_funds_at [OF assms(1)]
  show ?thesis by (cases "sd_amount s") (simp_all add: assms(2))
qed

lemma store_unstaked_amount:
  assumes "amount_funds a < 2 ^ 64"
  shows "amount_at k (store_unstaked k s keys a w) = (if amount_funds a = 0 then None else Some a)"
proof -
  have "total_funds a = 0 \<longleftrightarrow> amount_funds a = 0"
    using total_funds_unat [OF assms] by (simp add: unat_eq_0 [symmetric])
  then show ?thesis by (simp add: store_unstaked_def amount_at_def)
qed

text \<open>
  An unstake takes exactly the requested value from the account, never more than it has, and
  leaves either nothing or at least the configured minimum.
\<close>

theorem unstake_takes_value:
  assumes "unstake h wr u w = Inr w'" and "solvent w" and "k = w_pk_to_bytes wr (sw_account u)"
  shows "funds_at k w' + unat (wd_value (sw_withdraw u)) = funds_at k w \<and>
         (amount_at k w' = None \<or> unat (sc_minimum_stake (stake_config_of w)) \<le> funds_at k w')"
proof (rule unstake_ok [OF assms(1)])
  fix s keys a w1 a' e
  assume s0: "bm_get (stakes_map w) (w_pk_to_bytes wr (sw_account u)) = Some (s, keys)"
    and a: "sd_amount s = Some a"
    and tr: "transfer_withdraw h wr (Some STAKE_CONTRACT) (sw_withdraw u) w = Inr w1"
    and t: "take_from_amount keys (wd_value (sw_withdraw u)) a = Inr (a', e)"
    and m: "total_funds a' = 0 \<or> sc_minimum_stake (stake_config_of w1) \<le> total_funds a'"
    and w': "w' = record_previous wr (Some s) (sw_account u)
       (store_unstaked (w_pk_to_bytes wr (sw_account u)) s keys a' (emit (UnstakeEvent e) w1))"
  have s: "bm_get (stakes_map w) k = Some (s, keys)" using s0 assms(3) by simp
  have f: "amount_funds a' + unat (wd_value (sw_withdraw u)) = amount_funds a"
    by (rule take_from_amount_funds [OF t])
  have b: "amount_funds a' < 2 ^ 64"
    using f funds_bound [OF s assms(2)] a by (simp add: stake_funds_def)
  have cfg: "stake_config_of w1 = stake_config_of w"
    using withdraw_stake(1) [OF tr] by (simp add: stake_config_of_def)
  have am': "amount_at k w' = (if amount_funds a' = 0 then None else Some a')"
    using store_unstaked_amount [OF b, of k s keys "emit (UnstakeEvent e) w1"] assms(3)
    by (simp add: w' amount_at_def)
  then have fa: "funds_at k w' = amount_funds a'" by (simp add: funds_at_def)
  have "unat (total_funds a') = amount_funds a'" by (rule total_funds_unat [OF b])
  with m cfg have "amount_funds a' = 0 \<or> unat (sc_minimum_stake (stake_config_of w)) \<le> amount_funds a'"
    by (auto simp: word_le_nat_alt)
  with am' fa f funds_at_entry [OF s] a show ?thesis by (auto simp: stake_funds_def)
qed

section \<open>Slashing\<close>

lemma next_epoch_shift_ok:
  assumes "unat (next_epoch bh) + 255 * 2160 < 2 ^ 64" and "unat f \<le> 255"
  shows "res_bind (mul_chk f EPOCH) (add_chk (next_epoch bh)) = Inr (next_epoch bh + f * EPOCH)"
    and "unat (next_epoch bh + f * EPOCH) = unat (next_epoch bh) + unat f * 2160"
proof -
  have m: "unat f * unat EPOCH < 2 ^ 64" using assms(2) by (simp add: unat_EPOCH)
  then have mu: "unat (f * EPOCH) = unat f * 2160" by (simp add: unat_mult_no_wrap unat_EPOCH)
  have s: "unat (next_epoch bh) + unat (f * EPOCH) < 2 ^ 64" using assms mu by simp
  then show "unat (next_epoch bh + f * EPOCH) = unat (next_epoch bh) + unat f * 2160"
    by (simp add: unat_add_no_wrap mu)
  show "res_bind (mul_chk f EPOCH) (add_chk (next_epoch bh)) = Inr (next_epoch bh + f * EPOCH)"
    using m s by (simp add: mul_chk_def add_chk_def)
qed

lemma unat_ucast_u8 [simp]: "unat (ucast (x :: u8) :: u64) = unat x"
  using unat_lt_2p [of x] by (simp add: unsigned_ucast_eq take_bit_nat_eq_self)

lemma u8_bound: "unat (x :: u8) \<le> 255"
  using unat_lt_2p [of x] by simp

lemma slash_value_ok:
  assumes "unat v * 26 < 2 ^ 64" and "unat f \<le> 255"
  shows "is_ok (slash_value n v f)"
proof (cases n)
  case None
  let ?q = "unat v div 100"
  have q: "unat (v div 100) = ?q" by (simp add: unat_div_distrib)
  have q100: "?q * 100 \<le> unat v" by (rule div_times_less_eq_dividend)
  have "?q * unat f * 10 \<le> ?q * 255 * 10" using assms(2) by simp
  also have "\<dots> \<le> unat v * 26" using q100 by linarith
  finally have b: "?q * unat f * 10 < 2 ^ 64" using assms(1) by simp
  then have "unat (v div 100) * unat f < 2 ^ 64" unfolding q by linarith
  then have m: "mul_chk (v div 100) f = Inr (v div 100 * f)" "unat (v div 100 * f) = ?q * unat f"
    by (simp_all add: mul_chk_def unat_mult_no_wrap) (simp add: q)
  have "is_ok (mul_chk (v div 100 * f) 10)" using b m(2) by (simp add: mul_chk_def)
  with m(1) None show ?thesis by (auto simp: slash_value_def elim: is_okE)
qed (simp add: slash_value_def)

lemma deduct_ok:
  assumes "unat m \<le> stake_balance w" and "m > 0"
  shows "is_ok (deduct_contract_balance m w)"
proof -
  have "unat m > 0" using assms(2) by (simp add: word_gt_0 unat_gt_0)
  with assms(1) obtain b where b: "bm_get (balances w) STAKE_CONTRACT = Some b" "unat m \<le> unat b"
    by (auto simp: stake_balance_def contract_balance_def bm_get_or_def split: option.splits)
  then have "m \<le> b" by (simp add: word_le_nat_alt)
  with b show ?thesis
    by (simp add: deduct_contract_balance_def entry_sub_contract_balance_def assert_stake_caller_def
        sub_contract_balance_def expect_ok_def ensure_def not_less)
qed

text \<open>
  Slashing cannot stop the chain.  While the contract is solvent, for a stake below a twenty-sixth
  of the \<open>u64\<close> range, a block height far from its end and room in the burnt total, neither \<open>slash\<close>
  nor \<open>hard_slash\<close> of an existing stake panics, whatever the amount, severity and fault counters.
\<close>

theorem slashing_never_panics:
  assumes "solvent w" and "bm_get (stakes_map w) (w_pk_to_bytes wr acct) = Some (s, keys)"
    and "sd_amount s = Some a" and "unat (am_value a) * 26 < 2 ^ 64"
    and "unat (next_epoch (h_block_height h)) + 255 * 2160 < 2 ^ 64"
    and "unat (ss_burnt_amount (sw_stake w)) + unat (am_value a) < 2 ^ 64"
  shows "is_ok (slash h wr acct n w) \<and> is_ok (hard_slash h wr acct n sev w)"
proof
  define ef where "ef = effective_faults (sc_warnings (stake_config_of w)) (saturating_add (sd_faults s) 1)"
  have ef: "unat ef \<le> 255" by (simp add: ef_def effective_faults_def u8_bound)
  obtain m where m: "slash_value n (am_value a) ef = Inr m"
    using slash_value_ok [OF assms(4) ef] by (rule is_okE)
  obtain sh el where "mul_chk ef EPOCH = Inr sh" "add_chk (next_epoch (h_block_height h)) sh = Inr el"
    using next_epoch_shift_ok(1) [OF assms(5) ef] by (auto simp: res_bind_Inr)
  then show "is_ok (slash h wr acct n w)"
    using assms(2,3) m by (simp add: slash_def get_stake_mut_def Let_def flip: ef_def)
next
  define hard where "hard = saturating_add (sd_hard_faults s) (case sev of Some k \<Rightarrow> k | None \<Rightarrow> 1)"
  have hb: "unat (ucast hard :: u64) \<le> 255" by (simp add: u8_bound)
  obtain m where m: "slash_value n (am_value a) (ucast hard) = Inr m"
    using slash_value_ok [OF assms(4) hb] by (rule is_okE)
  have le: "m \<le> am_value a" by (rule slash_value_le [OF m])
  then have leu: "unat m \<le> unat (am_value a)" by (simp add: word_le_nat_alt)
  obtain sh el where sh: "mul_chk (ucast hard) EPOCH = Inr sh" "add_chk (next_epoch (h_block_height h)) sh = Inr el"
    using next_epoch_shift_ok(1) [OF assms(5) hb] by (auto simp: res_bind_Inr)
  have "stake_funds s \<le> funds_total w"
    using bm.total_bound [OF assms(2), of "stake_funds \<circ> fst"] by (simp add: funds_total_def)
  with assms(1,3) leu have "unat m \<le> stake_balance w"
    by (simp add: solvent_def stake_funds_def amount_funds_def)
  then have ded: "is_ok (deduct_contract_balance m (set_stakes st w))" if "m > 0" for st
    using that by (intro deduct_ok) simp_all
  have burn: "is_ok (add_chk (ss_burnt_amount (sw_stake w1)) m)"
    if "deduct_contract_balance m (set_stakes st w) = Inr w1" for st w1
    using deduct_stake(1) [OF that] assms(6) leu by (simp add: add_chk_def)
  have chain: "\<exists>w2. res_bind (deduct_contract_balance m (set_stakes st w)) (\<lambda>w.
      res_bind (add_chk (ss_burnt_amount (sw_stake w)) m) (\<lambda>b. Inr (set_burnt_amount b w))) = Inr w2"
    if "m > 0" for st
    by (rule is_okE [OF ded [OF that]], rule is_okE [OF burn]) auto
  show "is_ok (hard_slash h wr acct n sev w)"
  proof (cases "m > 0")
    case True
    with chain obtain w2 where "res_bind (deduct_contract_balance m (set_stakes
        (bm_insert (w_pk_to_bytes wr acct) (s\<lparr>sd_hard_faults := hard, sd_amount :=
           Some (a\<lparr>am_eligibility := el, am_value := am_value a - m\<rparr>)\<rparr>, keys) (stakes_map w)) w)) (\<lambda>w.
        res_bind (add_chk (ss_burnt_amount (sw_stake w)) m) (\<lambda>b. Inr (set_burnt_amount b w))) = Inr w2"
      by blast
    with True show ?thesis
      using assms(2,3) sh m le
      by (simp add: hard_slash_def get_stake_mut_def Let_def sub_chk_def del: res_bind_Inr flip: hard_def)
  next
    case False
    with assms(2,3) sh m show ?thesis
      by (simp add: hard_slash_def get_stake_mut_def Let_def flip: hard_def)
  qed
qed

text \<open>
  A hard slash burns.  Some amount disappears from the recorded stakes, from the balance the
  transfer contract holds, and appears in \<open>burnt_amount\<close>: the three move by the same number.
\<close>

theorem hard_slash_burns:
  assumes "hard_slash h wr acct n sev w = Inr w'"
  shows "funds_total w - funds_total w' = stake_balance w - stake_balance w' \<and>
         funds_total w' \<le> funds_total w \<and> stake_balance w' \<le> stake_balance w \<and>
         unat (ss_burnt_amount (sw_stake w')) =
           unat (ss_burnt_amount (sw_stake w)) + (funds_total w - funds_total w')"
  by (rule hard_slash_effect [OF assms], intro conjI) linarith+

text \<open>
  A slash locks stake and leaves the reward alone: the given amount, capped by the free stake,
  moves from \<open>value\<close> to \<open>locked\<close>, so the account's funds and the contract's balance are unchanged;
  the eligibility moves only when the faults exceed the tolerated warnings.
\<close>

theorem slash_locks_stake:
  assumes "slash h wr acct (Some v) w = Inr w'" and "solvent w"
    and "bm_get (stakes_map w) (w_pk_to_bytes wr acct) = Some (s, keys)" and "sd_amount s = Some a"
  shows "\<exists>s' a'. bm_get (stakes_map w') (w_pk_to_bytes wr acct) = Some (s', keys) \<and> sd_amount s' = Some a' \<and>
           sd_reward s' = sd_reward s \<and> am_value a' = am_value a - min v (am_value a) \<and>
           amount_funds a' = amount_funds a \<and> stake_balance w' = stake_balance w \<and>
           (saturating_add (sd_faults s) 1 \<le> sc_warnings (stake_config_of w) \<longrightarrow>
              am_eligibility a' = am_eligibility a)"
proof (rule slash_some [OF assms(1,3,4)])
  fix ef el m w1
  assume ef: "ef = effective_faults (sc_warnings (stake_config_of w)) (saturating_add (sd_faults s) 1)"
    and el: "(if ef > 0 then res_bind (mul_chk ef EPOCH) (add_chk (next_epoch (h_block_height h)))
      else Inr (am_eligibility a)) = Inr el"
    and m: "slash_value (Some v) (am_value a) ef = Inr m"
    and w1: "w1 = set_stakes (bm_insert (w_pk_to_bytes wr acct) (slashed_stake m el a s, keys) (stakes_map w)) w"
    and w': "w' = record_previous wr (Some s) acct
       (if m > 0 \<or> ef > 0 then emit (SlashEvent \<lparr>sl_account = acct, sl_value = m, sl_next_eligibility = el\<rparr>) w1
        else w1)"
  let ?a = "lock_amount m (a\<lparr>am_eligibility := el\<rparr>)"
  have mv: "m = min v (am_value a)" using m by (simp add: slash_value_given)
  have "amount_funds a < 2 ^ 64" using funds_bound [OF assms(3,2)] assms(4) by (simp add: stake_funds_def)
  then have funds: "amount_funds ?a = amount_funds a"
    using slash_value_le [OF m] lock_amount_funds [of m "a\<lparr>am_eligibility := el\<rparr>"]
    by (simp add: amount_funds_def)
  have "saturating_add (sd_faults s) 1 \<le> sc_warnings (stake_config_of w) \<Longrightarrow> unat ef = 0"
    by (simp add: ef effective_faults_def unat_saturating_sub word_le_nat_alt)
  then have el': "saturating_add (sd_faults s) 1 \<le> sc_warnings (stake_config_of w) \<Longrightarrow> el = am_eligibility a"
    using el by (simp add: unat_eq_0)
  have "bm_get (stakes_map w') (w_pk_to_bytes wr acct) = Some (slashed_stake m el a s, keys)"
    and "stake_balance w' = stake_balance w"
    by (simp_all add: w' w1)
  with funds mv el' show ?thesis by (auto simp: slashed_stake_def lock_amount_def)
qed

section \<open>Rewards\<close>

text \<open>
  A reward for an account without a stake is not skipped: it creates an entry for that account,
  owned by its own key, that holds the reward and no stake.
\<close>

theorem reward_creates_entry:
  assumes "bm_get (stakes_map w) (w_pk_to_bytes wr (rw_account r)) = None"
  shows "\<exists>w'. reward wr [r] w = Inr w' \<and>
           bm_get (stakes_map w') (w_pk_to_bytes wr (rw_account r)) =
             Some (stake_data_EMPTY\<lparr>sd_reward := rw_value r\<rparr>, stake_keys_single_key (rw_account r))"
  using assms
  by (simp add: reward_def reward_one_def get_stake_mut_def load_or_create_stake_mut_def
      stake_keys_single_key_def stake_data_EMPTY_def add_chk_def Let_def)

text \<open>
  Withdrawing a reward takes exactly the value from the recorded reward, at most what is there
  and never zero, and leaves the stake, the contract's funds and its balance alone.
\<close>

theorem withdraw_reward_spec:
  assumes "withdraw_reward h wr u w = Inr w'" and "k = w_pk_to_bytes wr (sw_account u)"
  shows "\<exists>s keys. bm_get (stakes_map w) k = Some (s, keys) \<and>
           0 < wd_value (sw_withdraw u) \<and> wd_value (sw_withdraw u) \<le> sd_reward s \<and>
           (bm_get (stakes_map w') k =
              (if wd_value (sw_withdraw u) = sd_reward s \<and> sd_amount s = None then None
               else Some (s\<lparr>sd_reward := sd_reward s - wd_value (sw_withdraw u)\<rparr>, keys))) \<and>
           funds_total w' = funds_total w \<and> stake_balance w' = stake_balance w"
proof (rule withdraw_reward_ok [OF assms(1)])
  fix s keys w1 r
  assume s0: "bm_get (stakes_map w) (w_pk_to_bytes wr (sw_account u)) = Some (s, keys)"
    and nz: "wd_value (sw_withdraw u) \<noteq> 0"
    and mint: "mint h wr (Some STAKE_CONTRACT) (sw_withdraw u) w = Inr w1"
    and r: "sub_chk (sd_reward s) (wd_value (sw_withdraw u)) = Inr r"
    and w': "w' = store_rewarded (w_pk_to_bytes wr (sw_account u)) s keys r
       (emit (StakeWithdrawEvent (stake_event_new keys (wd_value (sw_withdraw u)))) w1)"
  have e: "bm_get (stakes_map (emit (StakeWithdrawEvent (stake_event_new keys (wd_value (sw_withdraw u)))) w1)) k
      = Some (s, keys)"
    using s0 mint_stake(1) [OF mint] assms(2) by simp
  have "funds_total w' = funds_total w"
    using store_rewarded_funds(1) [OF e, of r] sw_stake_funds [OF mint_stake(1) [OF mint]]
    by (simp add: w' assms(2))
  moreover have "stake_balance w' = stake_balance w"
    using store_rewarded_funds(2) [OF e, of r] mint_stake(2) [OF mint] by (simp add: w' assms(2))
  moreover have "wd_value (sw_withdraw u) \<le> sd_reward s" and rv: "r = sd_reward s - wd_value (sw_withdraw u)"
    using r by (simp_all add: sub_chk_Inr)
  moreover have "bm_get (stakes_map w') k =
      (if wd_value (sw_withdraw u) = sd_reward s \<and> sd_amount s = None then None
       else Some (s\<lparr>sd_reward := sd_reward s - wd_value (sw_withdraw u)\<rparr>, keys))"
    by (auto simp: w' assms(2) store_rewarded_def rv)
  ultimately show ?thesis using s0 nz assms(2) by (auto simp: word_gt_0)
qed

section \<open>Concrete instances\<close>

theorem stake_adds_value_witness:
  "\<exists>w' a'. stake host0 wire0 sample_request stake_world = Inr w' \<and>
     funds_at (w_pk_to_bytes wire0 pk7) w' = funds_at (w_pk_to_bytes wire0 pk7) stake_world + 20 \<and>
     amount_at (w_pk_to_bytes wire0 pk7) w' = Some a' \<and> unat (am_locked a') = 502"
proof -
  obtain w' where w': "stake host0 wire0 sample_request stake_world = Inr w'"
    using sample_request_ok by (rule is_okE)
  have k: "w_pk_to_bytes wire0 pk7 = w_pk_to_bytes wire0 (sk_account (st_keys sample_request))"
    by (simp add: sample_request_def stake_keys_single_key_def)
  have "amount_at (w_pk_to_bytes wire0 pk7) stake_world =
      Some \<lparr>am_value = 3000, am_locked = 500, am_eligibility = 100\<rparr>"
    using stake_world_entry by (simp add: amount_at_def sample_stake_def)
  with stake_adds_value [OF w' k] w' show ?thesis
    by (auto simp: sample_request_def host0_def)
qed

theorem unstake_takes_value_witness:
  "\<exists>w'. unstake host0 wire0 sample_unstake stake_world = Inr w' \<and>
     funds_at (w_pk_to_bytes wire0 pk7) w' + 40 = funds_at (w_pk_to_bytes wire0 pk7) stake_world"
proof -
  obtain w' where w': "unstake host0 wire0 sample_unstake stake_world = Inr w'"
    using sample_unstake_ok by (rule is_okE)
  have "w_pk_to_bytes wire0 pk7 = w_pk_to_bytes wire0 (sw_account sample_unstake)"
    by (simp add: sample_unstake_def)
  from unstake_takes_value [OF w' stake_world_solvent this] w' show ?thesis
    by (simp add: sample_unstake_def)
qed

lemma slash_sample_bounds:
  "unat (next_epoch (h_block_height host0)) + 255 * 2160 < 2 ^ 64"
  "unat (ss_burnt_amount (sw_stake stake_world)) + unat (3000 :: u64) < 2 ^ 64"
  by (simp_all add: next_epoch_def EPOCH_def host0_def stake_world_def stake_state_new_def)

lemma sample_stake_amount:
  "sd_amount sample_stake = Some \<lparr>am_value = 3000, am_locked = 500, am_eligibility = 100\<rparr>"
  by (simp add: sample_stake_def)

theorem slashing_never_panics_witness:
  "is_ok (slash host0 wire0 pk7 None stake_world) \<and> is_ok (hard_slash host0 wire0 pk7 None (Some 2) stake_world)"
  by (rule slashing_never_panics [OF stake_world_solvent stake_world_entry sample_stake_amount])
     (use slash_sample_bounds in simp_all)

lemma sample_hard_slash_ok: "is_ok (hard_slash host0 wire0 pk7 (Some 100) None stake_world)"
  by (simp add: hard_slash_def slash_value_def deduct_contract_balance_def
      entry_sub_contract_balance_def assert_stake_caller_def sub_contract_balance_def expect_ok_def
      expect_def res_map_def ensure_def add_chk_def sub_chk_def mul_chk_def saturating_add_def
      EPOCH_def next_epoch_def min_def set_stakes_def set_balances_def set_burnt_amount_def
      stake_sample_defs sample_defs Let_def)

theorem hard_slash_burns_witness:
  "\<exists>w'. hard_slash host0 wire0 pk7 (Some 100) None stake_world = Inr w' \<and>
     funds_total stake_world - funds_total w' = stake_balance stake_world - stake_balance w'"
proof -
  obtain w' where "hard_slash host0 wire0 pk7 (Some 100) None stake_world = Inr w'"
    using sample_hard_slash_ok by (rule is_okE)
  with hard_slash_burns [OF this] show ?thesis by blast
qed

lemma sample_slash_ok: "is_ok (slash host0 wire0 pk7 (Some 100) stake_world)"
  by (simp add: slash_def slash_value_def effective_faults_def expect_def res_map_def add_chk_def
      mul_chk_def saturating_add_def saturating_sub_def EPOCH_def next_epoch_def
      stake_sample_defs sample_defs Let_def)

theorem slash_locks_stake_witness:
  "\<exists>w' s' a'. slash host0 wire0 pk7 (Some 100) stake_world = Inr w' \<and>
     bm_get (stakes_map w') (w_pk_to_bytes wire0 pk7) = Some (s', stake_keys_single_key pk7) \<and>
     sd_amount s' = Some a' \<and> sd_reward s' = 50 \<and> am_value a' = 2900 \<and> amount_funds a' = 3500"
proof -
  obtain w' where w': "slash host0 wire0 pk7 (Some 100) stake_world = Inr w'"
    using sample_slash_ok by (rule is_okE)
  from slash_locks_stake [OF w' stake_world_solvent stake_world_entry sample_stake_amount] w'
  show ?thesis by (auto simp: sample_stake_def amount_funds_def)
qed

theorem reward_creates_entry_witness:
  "\<exists>w'. reward wire0 [\<lparr>rw_account = BlsPublicKey 9, rw_value = 5, rw_reason = Voter\<rparr>] stake_world = Inr w' \<and>
     bm_get (stakes_map w') (w_pk_to_bytes wire0 (BlsPublicKey 9)) =
       Some (stake_data_EMPTY\<lparr>sd_reward := 5\<rparr>, stake_keys_single_key (BlsPublicKey 9))"
proof -
  have "to_le_bytes (9 :: u64) \<noteq> to_le_bytes (7 :: u64)"
    using from_to_le_bytes_u64 [of 9] from_to_le_bytes_u64 [of 7] by fastforce
  then have "w_pk_to_bytes wire0 (BlsPublicKey 9) \<noteq> w_pk_to_bytes wire0 pk7"
    by (simp add: wire0_def pk7_def)
  then have "bm_get (stakes_map stake_world) (w_pk_to_bytes wire0
      (rw_account \<lparr>rw_account = BlsPublicKey 9, rw_value = 5, rw_reason = Voter\<rparr>)) = None"
    by (simp add: stake_world_def)
  from reward_creates_entry [OF this] show ?thesis by simp
qed

theorem withdraw_reward_spec_witness:
  "\<exists>w'. withdraw_reward host0 wire0 sample_unstake stake_world = Inr w' \<and>
     bm_get (stakes_map w') (w_pk_to_bytes wire0 pk7) =
       Some (sample_stake\<lparr>sd_reward := 10\<rparr>, stake_keys_single_key pk7)"
proof -
  obtain w' where w': "withdraw_reward host0 wire0 sample_unstake stake_world = Inr w'"
    using sample_withdraw_reward_ok by (rule is_okE)
  have "w_pk_to_bytes wire0 pk7 = w_pk_to_bytes wire0 (sw_account sample_unstake)"
    by (simp add: sample_unstake_def)
  from withdraw_reward_spec [OF w' this] w' stake_world_entry show ?thesis
    by (auto simp: sample_unstake_def sample_stake_def)
qed

end
