(* ===== verification/Genesis.thy ===== *)
theory Genesis
  imports Stake_Operations
begin

text \<open>
  The two genesis contracts together.  \<open>genesis_ext\<close> is what \<open>abi::call\<close> and \<open>abi::call_raw\<close> of the
  transfer contract reach when the target is one of them: the exported functions of
  \<^verbatim>\<open>contracts/stake/src/lib.rs\<close> and \<open>convert\<close>, by name, with the transfer contract as the caller.
  Calls to any other contract go to \<open>other\<close>.  The argument decoders are the VM's (\<open>rkyv\<close>).
\<close>

record genesis_codec =
  gc_stake :: "bytes \<Rightarrow> stake_request option"
  gc_withdraw :: "bytes \<Rightarrow> stake_withdraw option"
  gc_convert :: "bytes \<Rightarrow> withdraw option"

text \<open>A raw call whose callee panics has no effect and reports the error.\<close>

definition raw_call ::
    "'a option \<Rightarrow> ('a \<Rightarrow> 'w \<Rightarrow> 'w res) \<Rightarrow> 'w \<Rightarrow> (contract_error + bytes) \<times> 'w" where
  "raw_call arg f w =
     (case arg of
        None \<Rightarrow> (Inl CEUnknown, w)
      | Some a \<Rightarrow>
          (case f a w of
             Inl (Panic msg) \<Rightarrow> (Inl (CEPanic msg), w)
           | Inl ArithmeticOverflow \<Rightarrow> (Inl (CEPanic ''attempt to overflow''), w)
           | Inr w' \<Rightarrow> (Inr [], w')))"

definition genesis_ext ::
    "host \<Rightarrow> wire \<Rightarrow> genesis_codec \<Rightarrow> 'r sworld_scheme ext \<Rightarrow> 'r sworld_scheme ext" where
  "genesis_ext h wr gc other =
     \<lparr>x_call = \<lambda>c f recv w.
        if c = STAKE_CONTRACT \<and> f = str_bytes ''stake_from_contract'' then
          entry_stake_from_contract h wr (gc_stake gc) (Some TRANSFER_CONTRACT) 2 recv w
        else x_call other c f recv w,
      x_call_raw = \<lambda>c f args w.
        if c = STAKE_CONTRACT \<and> f = str_bytes ''stake'' then
          raw_call (gc_stake gc args) (entry_stake h wr (Some TRANSFER_CONTRACT)) w
        else if c = STAKE_CONTRACT \<and> f = str_bytes ''unstake'' then
          raw_call (gc_withdraw gc args) (entry_unstake h wr (Some TRANSFER_CONTRACT)) w
        else if c = STAKE_CONTRACT \<and> f = str_bytes ''withdraw'' then
          raw_call (gc_withdraw gc args) (entry_withdraw h wr (Some TRANSFER_CONTRACT)) w
        else if c = TRANSFER_CONTRACT \<and> f = str_bytes ''convert'' then
          raw_call (gc_convert gc args) (convert h wr (Some TRANSFER_CONTRACT)) w
        else x_call_raw other c f args w\<rparr>"

lemma raw_call_cases:
  assumes "raw_call arg f w = (r, w')"
  obtains "w' = w" and "\<not> is_ok r" | a where "arg = Some a" and "f a w = Inr w'" and "r = Inr []"
  using assms by (auto simp: raw_call_def split: option.splits sum.splits panic.splits)

lemma transfer_caller_ok [simp]: "assert_transfer_caller (Some TRANSFER_CONTRACT) = Inr ()"
  by (simp add: assert_transfer_caller_def ensure_def)

section \<open>The stake contract keeps the ledger growing\<close>

locale other_contracts =
  fixes other :: "'r sworld_scheme ext"
  assumes grows: "call_grows other"
begin

lemma rel: "transfer_relation ledger_grows other"
  by (rule call_grows_relation [OF grows])

lemma stake_frame_grows: "tw_state w' = tw_state w1 \<Longrightarrow> ledger_grows w w1 \<Longrightarrow> ledger_grows w w'"
  by (simp add: ledger_grows_def)

lemma finish_stake_state: "finish_stake h wr r p s keys w = Inr w' \<Longrightarrow> tw_state w' = tw_state w"
  by (auto simp: finish_stake_def)

lemma store_state:
  "tw_state (store_unstaked k s keys a w) = tw_state w"
  "tw_state (store_rewarded k s keys r w) = tw_state w"
  by (simp_all add: store_unstaked_def store_rewarded_def)

lemma stake_grows:
  assumes "stake h wr r (w :: 'r sworld_scheme) = Inr w'"
  shows "ledger_grows w w'"
proof (rule stake_ok [OF assms])
  fix s w1 w2
  assume load: "load_or_create_stake_mut wr (st_keys r) w = Inr ((s, st_keys r), w1)"
    and dep: "transfer_deposit (Some STAKE_CONTRACT) (st_value r) w1 = Inr w2"
    and fin: "finish_stake h wr r (get_stake wr (sk_account (st_keys r)) w) s (st_keys r) w2 = Inr w'"
  have "tw_state w1 = tw_state w" by (rule load_or_create_ok [OF load])
  moreover have "ledger_grows w1 w2" by (rule transfer_relation.transfer_deposit_R [OF rel dep])
  ultimately show ?thesis using finish_stake_state [OF fin] by (simp add: ledger_grows_def)
qed

lemma stake_from_contract_grows:
  assumes "stake_from_contract h wr decode recv (w :: 'r sworld_scheme) = Inr w'"
  shows "ledger_grows w w'"
proof (rule stake_from_contract_ok [OF assms])
  fix r s w1
  assume load: "load_or_create_stake_mut wr (st_keys r) w = Inr ((s, st_keys r), w1)"
    and fin: "finish_stake h wr r (get_stake wr (sk_account (st_keys r)) w) s (st_keys r) w1 = Inr w'"
  have "tw_state w1 = tw_state w" by (rule load_or_create_ok [OF load])
  then show ?thesis using finish_stake_state [OF fin] by (simp add: ledger_grows_def)
qed

lemma unstake_grows:
  assumes "unstake h wr u (w :: 'r sworld_scheme) = Inr w'"
  shows "ledger_grows w w'"
  by (rule unstake_ok [OF assms])
     (rule stake_frame_grows [OF _ transfer_relation.transfer_withdraw_R [OF rel]],
      simp_all add: store_state)

lemma withdraw_reward_grows:
  assumes "withdraw_reward h wr u (w :: 'r sworld_scheme) = Inr w'"
  shows "ledger_grows w w'"
  by (rule withdraw_reward_ok [OF assms])
     (rule stake_frame_grows [OF _ transfer_relation.mint_R [OF rel]], simp_all add: store_state)

lemma raw_call_grows:
  assumes "raw_call arg f (w :: 'r sworld_scheme) = (r, w')" and "\<And>a w w'. f a w = Inr w' \<Longrightarrow> ledger_grows w w'"
  shows "ledger_grows w w'"
  using assms(1) by (rule raw_call_cases) (auto intro: assms(2))

lemma genesis_grows: "call_grows (genesis_ext h wr gc other)"
proof -
  have e: "entry_stake h wr (Some TRANSFER_CONTRACT) r w = Inr w' \<Longrightarrow> ledger_grows w w'"
    "entry_unstake h wr (Some TRANSFER_CONTRACT) u w = Inr w' \<Longrightarrow> ledger_grows w w'"
    "entry_withdraw h wr (Some TRANSFER_CONTRACT) u w = Inr w' \<Longrightarrow> ledger_grows w w'"
    "convert h wr (Some TRANSFER_CONTRACT) d w = Inr w' \<Longrightarrow> ledger_grows w w'"
    for r u d and w w' :: "'r sworld_scheme"
    by (auto simp: entry_stake_def entry_unstake_def entry_withdraw_def
        intro: stake_grows unstake_grows withdraw_reward_grows transfer_relation.convert_R [OF rel])
  have "entry_stake_from_contract h wr d (Some TRANSFER_CONTRACT) 2 recv w = Inr w' \<Longrightarrow> ledger_grows w w'"
    for d recv and w w' :: "'r sworld_scheme"
    by (auto simp: entry_stake_from_contract_def intro: stake_from_contract_grows)
  then show ?thesis
    using grows
    by (auto simp: call_grows_def genesis_ext_def split: if_splits elim: raw_call_grows intro: e)
qed

end

sublocale other_contracts < genesis: transfer_relation ledger_grows "genesis_ext h wr gc other" for h wr gc
  by (rule call_grows_relation [OF genesis_grows])

text \<open>The genesis contracts alone: every other contract does nothing.\<close>

interpretation alone: other_contracts ext0
  by unfold_locales (rule ext0_grows)

section \<open>The genesis contracts act through the entry points\<close>

lemma own_frames [simp]:
  "tw_current_tx (set_stakes m w) = tw_current_tx w" "outflow (set_stakes m w) = outflow w"
  "tw_current_tx (record_previous wr p a w) = tw_current_tx w" "outflow (record_previous wr p a w) = outflow w"
  by (simp_all add: set_stakes_def record_previous_def outflow_def)

lemma stake_entries:
  assumes "stake h wr r w = Inr w'"
  shows "(contract_step h wr)\<^sup>*\<^sup>* w w'"
proof (rule stake_ok [OF assms])
  fix s w1 w2
  assume load: "load_or_create_stake_mut wr (st_keys r) w = Inr ((s, st_keys r), w1)"
    and dep: "transfer_deposit (Some STAKE_CONTRACT) (st_value r) w1 = Inr w2"
    and fin: "finish_stake h wr r (get_stake wr (sk_account (st_keys r)) w) s (st_keys r) w2 = Inr w'"
  have "contract_step h wr w w1"
    using load
    by (intro act_own) (auto simp: load_or_create_stake_mut_def Let_def split: option.splits if_splits)
  moreover have "contract_step h wr w1 w2" by (rule act_deposit [OF dep])
  moreover have "contract_step h wr w2 w'"
    using fin by (intro act_own) (auto simp: finish_stake_def event_flow_def)
  ultimately show ?thesis by (meson converse_rtranclp_into_rtranclp r_into_rtranclp)
qed

lemma arrival_entries:
  assumes "stake_from_contract h wr decode recv w = Inr w'"
  shows "contract_step h wr w w'"
proof (rule stake_from_contract_ok [OF assms])
  fix r s w1
  assume load: "load_or_create_stake_mut wr (st_keys r) w = Inr ((s, st_keys r), w1)"
    and fin: "finish_stake h wr r (get_stake wr (sk_account (st_keys r)) w) s (st_keys r) w1 = Inr w'"
  have "tw_state w1 = tw_state w \<and> tw_current_tx w1 = tw_current_tx w \<and> outflow w1 = outflow w"
    using load by (auto simp: load_or_create_stake_mut_def Let_def split: option.splits if_splits)
  moreover have "tw_state w' = tw_state w1 \<and> tw_current_tx w' = tw_current_tx w1 \<and> outflow w' = outflow w1"
    using fin by (auto simp: finish_stake_def event_flow_def)
  ultimately show ?thesis by (intro act_own) simp_all
qed

lemma unstake_entries: "unstake h wr u w = Inr w' \<Longrightarrow> (contract_step h wr)\<^sup>*\<^sup>* w w'"
  by (elim unstake_ok)
     (rule converse_rtranclp_into_rtranclp, erule act_withdraw, rule r_into_rtranclp, rule act_own,
      simp_all add: store_unstaked_def event_flow_def)

lemma withdraw_reward_entries: "withdraw_reward h wr u w = Inr w' \<Longrightarrow> (contract_step h wr)\<^sup>*\<^sup>* w w'"
  by (elim withdraw_reward_ok)
     (rule converse_rtranclp_into_rtranclp, erule act_mint, rule r_into_rtranclp, rule act_own,
      simp_all add: store_rewarded_def event_flow_def)

lemma raw_call_entries:
  assumes "raw_call arg f w = (r, w')" and "\<And>a w w'. f a w = Inr w' \<Longrightarrow> (contract_step h wr)\<^sup>*\<^sup>* w w'"
  shows "(contract_step h wr)\<^sup>*\<^sup>* w w'"
  using assms(1) by (rule raw_call_cases) (auto intro: assms(2))

text \<open>
  Whatever the other contracts are, as long as they act through the entry points so does the VM with
  the genesis contracts in it: the law on which conservation rests is one of the contracts that are not part of the
  repository only.
\<close>

lemma genesis_entries:
  assumes "acts_through_entries h wr other"
  shows "acts_through_entries h wr (genesis_ext h wr gc other)"
proof -
  have e: "entry_stake h wr (Some TRANSFER_CONTRACT) r w = Inr w' \<Longrightarrow> (contract_step h wr)\<^sup>*\<^sup>* w w'"
    "entry_unstake h wr (Some TRANSFER_CONTRACT) u w = Inr w' \<Longrightarrow> (contract_step h wr)\<^sup>*\<^sup>* w w'"
    "entry_withdraw h wr (Some TRANSFER_CONTRACT) u w = Inr w' \<Longrightarrow> (contract_step h wr)\<^sup>*\<^sup>* w w'"
    "convert h wr (Some TRANSFER_CONTRACT) d w = Inr w' \<Longrightarrow> (contract_step h wr)\<^sup>*\<^sup>* w w'"
    "entry_stake_from_contract h wr dec (Some TRANSFER_CONTRACT) 2 recv w = Inr w' \<Longrightarrow> (contract_step h wr)\<^sup>*\<^sup>* w w'"
    for r u d dec recv and w w' :: "'a sworld_scheme"
    by (auto simp: entry_stake_def entry_unstake_def entry_withdraw_def entry_stake_from_contract_def
        intro: stake_entries unstake_entries withdraw_reward_entries act_convert arrival_entries split: if_splits)
  show ?thesis
    using assms
    by (auto simp: acts_through_entries_def genesis_ext_def split: if_splits elim: raw_call_entries intro: e)
qed

section \<open>A concrete staking transaction\<close>

definition gc0 :: genesis_codec where
  "gc0 = \<lparr>gc_stake = \<lambda>_. Some sample_request, gc_withdraw = \<lambda>_. None, gc_convert = \<lambda>_. None\<rparr>"

definition staking_tx :: moonlight_transaction where
  "staking_tx = sample_moonlight\<lparr>mt_payload := sample_payload\<lparr>mp_data :=
     Some (Call \<lparr>cc_contract = STAKE_CONTRACT, cc_fn_name = str_bytes ''stake'', cc_fn_args = []\<rparr>)\<rparr>\<rparr>"

definition staking_world :: sworld where
  "staking_world = stake_world\<lparr>tw_current_tx := None,
     tw_state := (tw_state stake_world)\<lparr>tf_accounts := bm_insert [7] \<lparr>acc_nonce = 0, acc_balance = 1000\<rparr> bm_empty\<rparr>\<rparr>"

lemma staking_ok:
  "\<exists>w1. spend_and_execute host0 wire0 phoenix_wire0 (genesis_ext host0 wire0 gc0 ext0)
     (Moonlight staking_tx) staking_world = Inr (Inr [], w1)"
  by (simp add: spend_and_execute_def put_transaction_def spend_moonlight_def tx_deposit_def
      tx_gas_price_def tx_moonlight_sender_def tx_call_def mt_call_def data_call_def
      credit_account_def bm_get_or_def moonlight_accessors sample_defs add_chk_def mul_chk_def
      sub_chk_def set_accounts_def expect_def res_map_def staking_tx_def staking_world_def
      genesis_ext_def raw_call_def gc0_def entry_stake_def stake_def load_or_create_stake_mut_def
      unwrap_account_owner_def transfer_deposit_def deposit_info_def add_contract_balance_def
      expect_ok_def finish_stake_def add_to_stake_def stake_sample_defs Let_def)

lemma staking_world_current: "tw_current_tx staking_world = None"
  by (simp add: staking_world_def)

lemma staking_settled:
  "\<exists>w1 w2. spend_and_execute host0 wire0 phoenix_wire0 (genesis_ext host0 wire0 gc0 ext0)
     (Moonlight staking_tx) staking_world = Inr (Inr [], w1) \<and> refund host0 4 w1 = Inr w2 \<and>
     length (tw_events w2) = 3"
  by (simp add: spend_and_execute_def put_transaction_def spend_moonlight_def tx_deposit_def
      tx_gas_price_def tx_moonlight_sender_def tx_call_def mt_call_def data_call_def
      credit_account_def bm_get_or_def moonlight_accessors sample_defs add_chk_def mul_chk_def
      sub_chk_def set_accounts_def expect_def res_map_def staking_tx_def staking_world_def
      genesis_ext_def raw_call_def gc0_def entry_stake_def stake_def load_or_create_stake_mut_def
      unwrap_account_owner_def transfer_deposit_def deposit_info_def add_contract_balance_def
      expect_ok_def finish_stake_def add_to_stake_def stake_sample_defs refund_def take_ongoing_def Let_def
      emit_def set_balances_def set_deposit_def record_previous_def set_stakes_def deposit_set_taken_def)

theorem moonlight_transaction_conserves_witness:
  "\<exists>(w1 :: sworld) w2. spend_and_execute host0 wire0 phoenix_wire0 (genesis_ext host0 wire0 gc0 ext0)
     (Moonlight staking_tx) staking_world = Inr (Inr [], w1) \<and> refund host0 4 w1 = Inr w2 \<and>
     ledger_net w2 + 4 * 2 = ledger_net staking_world"
proof -
  obtain w1 w2 where s: "spend_and_execute host0 wire0 phoenix_wire0 (genesis_ext host0 wire0 gc0 ext0)
     (Moonlight staking_tx) staking_world = Inr (Inr [], w1)" and w2: "refund host0 4 w1 = Inr w2"
    using staking_settled by blast
  have "mt_gas_price staking_tx = 2"
    by (simp add: staking_tx_def moonlight_accessors sample_defs)
  with moonlight_transaction_conserves [OF staking_world_current genesis_entries [OF ext0_entries] s w2] s w2
  show ?thesis by auto
qed

end
