(* ===== verification/Vm_Execute.thy ===== *)
theory Vm_Execute
  imports Transfer_Safety
begin

text \<open>
  The execution of a transaction, \<^verbatim>\<open>vm/src/execute.rs\<close>: the deployment pre-check, the call of
  \<open>spend_and_execute\<close>, the deployment, and the refund.  The session is third-party (\<open>piecrust\<close>):
  \<open>vm\<close> holds what the function uses of it, the metering of the first call, the raw deployment and the
  hash functions.  The crate is compiled in release mode, so its sums and differences wrap.
\<close>

datatype vm_error = VmPanic string | VmOutOfGas | VmOther

record 'w vm =
  vm_meter :: "transaction \<Rightarrow> 'w \<Rightarrow> vm_error + u64"
  vm_deploy_raw :: "contract_id \<Rightarrow> bytes \<Rightarrow> bytes option \<Rightarrow> bytes \<Rightarrow> u64 \<Rightarrow> 'w \<Rightarrow> vm_error + 'w"
  vm_blake3 :: "bytes \<Rightarrow> bytes"
  vm_blake2b :: "bytes \<Rightarrow> bytes"

record call_receipt =
  cr_data :: "contract_error + bytes"
  cr_gas_spent :: u64
  cr_gas_limit :: u64

text \<open>An error the function returns, or the panic of \<open>expect("Refunding must succeed")\<close>.\<close>

datatype execute_error = Discarded vm_error | RefundPanic

definition deploy_check :: "transaction \<Rightarrow> u64 \<Rightarrow> u64 \<Rightarrow> vm_error + unit" where
  "deploy_check tx gas_per_deploy_byte min_deploy_gas_price =
     (if tx_deploy tx \<noteq> None then
        let deploy_charge = tx_deploy_charge tx gas_per_deploy_byte min_deploy_gas_price in
        if tx_gas_price tx < min_deploy_gas_price then Inl (VmPanic ''gas price too low to deploy'')
        else if tx_gas_limit tx < deploy_charge then Inl (VmPanic ''not enough gas to deploy'')
        else Inr ()
      else Inr ())"

definition verify_bytecode_hash :: "'w vm \<Rightarrow> contract_bytecode \<Rightarrow> bool" where
  "verify_bytecode_hash vm bytecode \<longleftrightarrow> bc_hash bytecode = vm_blake3 vm (bc_bytes bytecode)"

definition gen_contract_id :: "'w vm \<Rightarrow> bytes \<Rightarrow> u64 \<Rightarrow> bytes \<Rightarrow> contract_id" where
  "gen_contract_id vm bs nonce owner = vm_blake2b vm (bs @ to_le_bytes nonce @ owner)"

definition vm_contract_deploy ::
    "'w vm \<Rightarrow> transaction \<Rightarrow> u64 \<Rightarrow> u64 \<Rightarrow> call_receipt \<Rightarrow> 'w \<Rightarrow> call_receipt \<times> 'w" where
  "vm_contract_deploy vm tx gas_per_deploy_byte min_deploy_points receipt w =
     (case tx_deploy tx of
        None \<Rightarrow> (receipt, w)
      | Some deploy \<Rightarrow>
          let gas_left = tx_gas_limit tx - cr_gas_spent receipt in
          if is_ok (cr_data receipt) then
            let deploy_charge = tx_deploy_charge tx gas_per_deploy_byte min_deploy_points;
                min_gas_limit = cr_gas_spent receipt + deploy_charge
            in
            if gas_left < min_gas_limit then (receipt\<lparr>cr_data := Inl OutOfGas\<rparr>, w)
            else if \<not> verify_bytecode_hash vm (cd_bytecode deploy) then
              (receipt\<lparr>cr_data := Inl (CEPanic ''failed bytecode hash check'')\<rparr>, w)
            else
              (case vm_deploy_raw vm
                  (gen_contract_id vm (bc_bytes (cd_bytecode deploy)) (cd_nonce deploy) (cd_owner deploy))
                  (bc_bytes (cd_bytecode deploy)) (cd_init_args deploy) (cd_owner deploy) gas_left w of
                 Inr w' \<Rightarrow> (receipt\<lparr>cr_gas_spent := cr_gas_spent receipt + deploy_charge\<rparr>, w')
               | Inl err \<Rightarrow> (receipt\<lparr>cr_data := Inl (CEPanic ''failed deployment'')\<rparr>, w))
          else (receipt, w))"

definition execute ::
    "host \<Rightarrow> wire \<Rightarrow> phoenix_wire \<Rightarrow> 'r tworld_scheme ext \<Rightarrow> 'r tworld_scheme vm \<Rightarrow> transaction
     \<Rightarrow> u64 \<Rightarrow> u64 \<Rightarrow> u64 \<Rightarrow> 'r tworld_scheme \<Rightarrow> execute_error + (call_receipt \<times> 'r tworld_scheme)" where
  "execute h wr pw x vm tx gas_per_deploy_byte min_deploy_points min_deploy_gas_price w =
     (case deploy_check tx gas_per_deploy_byte min_deploy_gas_price of
        Inl e \<Rightarrow> Inl (Discarded e)
      | Inr _ \<Rightarrow>
          let stripped = (case tx_strip_off_bytecode tx of Some t \<Rightarrow> t | None \<Rightarrow> tx) in
          (case (vm_meter vm stripped w, spend_and_execute h wr pw x stripped w) of
             (Inl e, _) \<Rightarrow> Inl (Discarded e)
           | (Inr gas, Inl (Panic msg)) \<Rightarrow> Inl (Discarded (VmPanic msg))
           | (Inr gas, Inl ArithmeticOverflow) \<Rightarrow> Inl (Discarded (VmPanic ''attempt to overflow''))
           | (Inr gas, Inr (data, w)) \<Rightarrow>
               let receipt = \<lparr>cr_data = data, cr_gas_spent = gas, cr_gas_limit = tx_gas_limit tx\<rparr>;
                   (receipt, w) =
                     vm_contract_deploy vm tx gas_per_deploy_byte min_deploy_points receipt w;
                   receipt = (if is_ok (cr_data receipt) then receipt
                              else receipt\<lparr>cr_gas_spent := cr_gas_limit receipt\<rparr>)
               in (case refund h (cr_gas_spent receipt) w of
                     Inl _ \<Rightarrow> Inl RefundPanic
                   | Inr w \<Rightarrow> Inr (receipt, w))))"

section \<open>What the session promises\<close>

text \<open>
  Metering never reports more gas than the limit of the call, and the constructor of a contract that is
  deployed acts on the ledger as every contract does, through the entry points of the transfer contract.
\<close>

definition vm_laws :: "'r tworld_scheme vm \<Rightarrow> bool" where
  "vm_laws vm \<longleftrightarrow>
     (\<forall>tx w gas. vm_meter vm tx w = Inr gas \<longrightarrow> gas \<le> tx_gas_limit tx) \<and>
     (\<forall>c bs args owner gas w w'. vm_deploy_raw vm c bs args owner gas w = Inr w' \<longrightarrow>
        (\<exists>h wr. (contract_step h wr)\<^sup>*\<^sup>* w w'))"

lemma strip_accessors:
  assumes "stripped = (case tx_strip_off_bytecode tx of Some t \<Rightarrow> t | None \<Rightarrow> tx)"
  shows "tx_gas_limit stripped = tx_gas_limit tx" and "tx_gas_price stripped = tx_gas_price tx"
  using assms
  by (cases tx; auto simp: tx_strip_off_bytecode_def pt_strip_off_bytecode_def mt_strip_off_bytecode_def
      tx_gas_limit_def tx_gas_price_def pt_gas_limit_def pt_gas_price_def mt_gas_limit_def
      mt_gas_price_def split: option.splits)+

lemma contract_deploy_gas:
  assumes "vm_contract_deploy vm tx g m receipt w = (receipt', w')"
    and "cr_gas_spent receipt \<le> tx_gas_limit tx"
  shows "cr_gas_spent receipt' \<le> tx_gas_limit tx" and "cr_gas_limit receipt' = cr_gas_limit receipt"
proof -
  let ?left = "tx_gas_limit tx - cr_gas_spent receipt"
  have left: "?left \<le> tx_gas_limit tx" using assms(2) by (simp add: word_le_nat_alt unat_sub_le)
  have "cr_gas_spent receipt' \<le> tx_gas_limit tx \<and> cr_gas_limit receipt' = cr_gas_limit receipt"
  proof (cases "tx_deploy tx")
    case None
    with assms show ?thesis by (auto simp: vm_contract_deploy_def)
  next
    case (Some d)
    with assms left show ?thesis
      by (auto simp: vm_contract_deploy_def Let_def not_less split: if_splits sum.splits)
  qed
  then show "cr_gas_spent receipt' \<le> tx_gas_limit tx" and "cr_gas_limit receipt' = cr_gas_limit receipt"
    by simp_all
qed

lemma contract_deploy_conserves:
  assumes "vm_contract_deploy vm tx g m receipt w = (receipt', w')" and "vm_laws vm"
  shows "conserves w w'"
proof (cases "tx_deploy tx")
  case None
  with assms show ?thesis by (auto simp: vm_contract_deploy_def)
next
  case (Some d)
  have "conserves u v" if "vm_deploy_raw vm c bs args owner gas u = Inr v" for c bs args owner gas u v
    using that assms(2) contract_run_conserves unfolding vm_laws_def by metis
  with Some assms(1) show ?thesis
    by (auto simp: vm_contract_deploy_def Let_def split: if_splits sum.splits)
qed

lemma execute_ok:
  assumes "execute h wr pw x vm tx g m p w = Inr (receipt, w')"
  obtains st gas data w1 r w2 where
    "st = (case tx_strip_off_bytecode tx of Some t \<Rightarrow> t | None \<Rightarrow> tx)"
    "vm_meter vm st w = Inr gas" "spend_and_execute h wr pw x st w = Inr (data, w1)"
    "vm_contract_deploy vm tx g m
       \<lparr>cr_data = data, cr_gas_spent = gas, cr_gas_limit = tx_gas_limit tx\<rparr> w1 = (r, w2)"
    "receipt = (if is_ok (cr_data r) then r else r\<lparr>cr_gas_spent := cr_gas_limit r\<rparr>)"
    "refund h (cr_gas_spent receipt) w2 = Inr w'"
proof -
  define st where "st = (case tx_strip_off_bytecode tx of Some t \<Rightarrow> t | None \<Rightarrow> tx)"
  obtain gas data w1 where a: "vm_meter vm st w = Inr gas"
    "spend_and_execute h wr pw x st w = Inr (data, w1)"
    using assms
    by (auto simp: execute_def Let_def st_def [symmetric] split: sum.splits panic.splits)
  obtain r w2 where d: "vm_contract_deploy vm tx g m
      \<lparr>cr_data = data, cr_gas_spent = gas, cr_gas_limit = tx_gas_limit tx\<rparr> w1 = (r, w2)"
    by force
  show thesis
    by (rule that [OF st_def a d])
       (use assms a d in \<open>auto simp: execute_def Let_def st_def [symmetric] split: sum.splits if_splits\<close>)
qed

text \<open>
  C30: A transaction is never charged more gas than its limit, deployments included, and one whose
  call or deployment failed is charged exactly the limit.
\<close>

theorem execute_gas_bounds:
  assumes "execute h wr pw x vm tx g m p w = Inr (receipt, w')" and "vm_laws vm"
  shows "cr_gas_spent receipt \<le> tx_gas_limit tx \<and>
         (\<not> is_ok (cr_data receipt) \<longrightarrow> cr_gas_spent receipt = tx_gas_limit tx)"
proof (rule execute_ok [OF assms(1)])
  fix st gas data w1 r w2
  assume st: "st = (case tx_strip_off_bytecode tx of Some t \<Rightarrow> t | None \<Rightarrow> tx)"
    and gas: "vm_meter vm st w = Inr gas"
    and d: "vm_contract_deploy vm tx g m
       \<lparr>cr_data = data, cr_gas_spent = gas, cr_gas_limit = tx_gas_limit tx\<rparr> w1 = (r, w2)"
    and receipt: "receipt = (if is_ok (cr_data r) then r else r\<lparr>cr_gas_spent := cr_gas_limit r\<rparr>)"
  have "gas \<le> tx_gas_limit st" using gas assms(2) unfolding vm_laws_def by blast
  then have "gas \<le> tx_gas_limit tx" using strip_accessors(1) [OF st] by simp
  with contract_deploy_gas [OF d] receipt show ?thesis by auto
qed

text \<open>The stripped copy of a Moonlight transaction.\<close>

lemma strip_moonlight:
  obtains t where "(case tx_strip_off_bytecode (Moonlight tx) of Some t \<Rightarrow> t | None \<Rightarrow> Moonlight tx) = Moonlight t"
    and "mt_gas_limit t = mt_gas_limit tx" and "mt_gas_price t = mt_gas_price tx"
  by (cases "mt_deploy tx")
     (auto simp: tx_strip_off_bytecode_def mt_strip_off_bytecode_def mt_gas_limit_def mt_gas_price_def
        intro: that)

text \<open>
  The public supply fits: when the transaction was executed and the contract deployed, the ledger total and the
  reserved fee together are below \<open>2 ^ 64\<close>.
\<close>

definition supply_fits ::
    "host \<Rightarrow> wire \<Rightarrow> phoenix_wire \<Rightarrow> 'r tworld_scheme ext \<Rightarrow> 'r tworld_scheme vm \<Rightarrow> moonlight_transaction
     \<Rightarrow> u64 \<Rightarrow> u64 \<Rightarrow> 'r tworld_scheme \<Rightarrow> bool" where
  "supply_fits h wr pw x vm tx g m w \<longleftrightarrow>
     (\<forall>st data w1 r r' w2.
        st = (case tx_strip_off_bytecode (Moonlight tx) of Some t \<Rightarrow> t | None \<Rightarrow> Moonlight tx) \<longrightarrow>
        spend_and_execute h wr pw x st w = Inr (data, w1) \<longrightarrow>
        vm_contract_deploy vm (Moonlight tx) g m r w1 = (r', w2) \<longrightarrow>
        ledger_total w2 + unat (mt_gas_limit tx) * unat (mt_gas_price tx) < 2 ^ 64)"

lemma settle_moonlight:
  assumes "tw_current_tx w = None" and "acts_through_entries h wr x"
    and "spend_and_execute h wr pw x (Moonlight t) w = Inr (data, w1)"
    and "conserves w1 w2" and "ledger_total w2 + unat (mt_gas_limit t) * unat (mt_gas_price t) < 2 ^ 64"
    and "gas \<le> mt_gas_limit t"
  shows "\<exists>w'. refund h gas w2 = Inr w' \<and> tw_current_tx w' = None \<and>
           ledger_net w' + int (unat gas * unat (mt_gas_price t)) = ledger_net w"
proof (rule moonlight_execute_ok [OF assms(1-3)])
  fix og1
  assume og1: "tw_current_tx w1 = Some og1" "og_tx og1 = Moonlight t"
    and w1: "ledger_net w1 + int (unat (mt_gas_limit t) * unat (mt_gas_price t)) = ledger_net w"
  obtain og where og: "tw_current_tx w2 = Some og" "og_tx og = Moonlight t"
    using assms(4) og1 by (auto simp: conserves_def same_transaction_def)
  obtain w' where w': "refund h gas w2 = Inr w'"
    using refund_moonlight_succeeds [OF og assms(6,5), of h] by (auto elim: is_okE)
  from refund_moonlight_net [OF w' og] w1 assms(4) w' show ?thesis by (simp add: conserves_def)
qed

text \<open>
  C15: Executing a Moonlight transaction never hits the panic of a failing refund, and when it returns, the
  ledger has lost exactly the fee of the gas reported in the receipt: the ledger total together with what the
  events report as moved into notes and less what they report as minted.  Assumed are that contracts, also those being
  deployed, act on the ledger only through the transfer contract's entry points, that the VM never meters more than the
  gas limit, and that the ledger total and the reserved fee before the refund fit in 64 bits.
\<close>

theorem execute_moonlight_sound:
  assumes "tw_current_tx w = None" and "acts_through_entries h wr x" and "vm_laws vm"
    and "supply_fits h wr pw x vm tx g m w"
  shows "(case execute h wr pw x vm (Moonlight tx) g m p w of
            Inl e \<Rightarrow> e \<noteq> RefundPanic
          | Inr (receipt, w') \<Rightarrow> tw_current_tx w' = None \<and>
              ledger_net w' + int (unat (cr_gas_spent receipt) * unat (mt_gas_price tx)) = ledger_net w)"
proof (cases "is_ok (deploy_check (Moonlight tx) g p)")
  case False
  then show ?thesis by (auto simp: execute_def split: sum.splits)
next
  case True
  then obtain u where check: "deploy_check (Moonlight tx) g p = Inr u" by (rule is_okE)
  define st where "st = (case tx_strip_off_bytecode (Moonlight tx) of Some t \<Rightarrow> t | None \<Rightarrow> Moonlight tx)"
  obtain t where t: "st = Moonlight t" "mt_gas_limit t = mt_gas_limit tx" "mt_gas_price t = mt_gas_price tx"
    unfolding st_def by (rule strip_moonlight)
  show ?thesis
  proof (cases "is_ok (vm_meter vm st w) \<and> is_ok (spend_and_execute h wr pw x st w)")
    case False
    then show ?thesis
      using check by (auto simp: execute_def Let_def st_def [symmetric] split: sum.splits panic.splits)
  next
    case True
    then obtain gas data w1 where gas: "vm_meter vm st w = Inr gas"
      and spend: "spend_and_execute h wr pw x st w = Inr (data, w1)"
      by (auto simp: is_ok_iff)
    define r0 where "r0 = \<lparr>cr_data = data, cr_gas_spent = gas, cr_gas_limit = tx_gas_limit (Moonlight tx)\<rparr>"
    obtain r w2 where d: "vm_contract_deploy vm (Moonlight tx) g m r0 w1 = (r, w2)" by force
    define receipt where "receipt = (if is_ok (cr_data r) then r else r\<lparr>cr_gas_spent := cr_gas_limit r\<rparr>)"
    have "gas \<le> tx_gas_limit st" using gas assms(3) unfolding vm_laws_def by blast
    then have "cr_gas_spent r0 \<le> tx_gas_limit (Moonlight tx)"
      using t by (simp add: r0_def tx_gas_limit_def)
    from contract_deploy_gas [OF d this]
    have "cr_gas_spent receipt \<le> mt_gas_limit t"
      using t by (simp add: receipt_def r0_def tx_gas_limit_def)
    moreover have "ledger_total w2 + unat (mt_gas_limit t) * unat (mt_gas_price t) < 2 ^ 64"
      using assms(4) spend d t(2,3) unfolding supply_fits_def st_def by metis
    ultimately obtain w' where w': "refund h (cr_gas_spent receipt) w2 = Inr w'" "tw_current_tx w' = None"
        "ledger_net w' + int (unat (cr_gas_spent receipt) * unat (mt_gas_price t)) = ledger_net w"
      using settle_moonlight [OF assms(1,2) spend [unfolded t(1)] contract_deploy_conserves [OF d assms(3)]] by blast
    have "execute h wr pw x vm (Moonlight tx) g m p w =
        (case refund h (cr_gas_spent receipt) w2 of Inl _ \<Rightarrow> Inl RefundPanic | Inr w' \<Rightarrow> Inr (receipt, w'))"
      using check gas spend d
      by (simp add: execute_def Let_def receipt_def cong: sum.case_cong flip: st_def r0_def)
    with w' t show ?thesis by simp
  qed
qed

section \<open>Deployment checks\<close>

text \<open>
  A deployment is charged the gas of the spending call twice when it is checked: it is refused,
  and the whole limit consumed, although the limit covers the deploy charge plus the gas used, as
  soon as it does not also cover the used gas a second time.
\<close>

theorem deploy_refused_with_enough_gas:
  assumes "tx_deploy tx = Some d" and "is_ok (cr_data receipt)" and "cr_gas_spent receipt \<le> tx_gas_limit tx"
    and "unat (cr_gas_spent receipt) + unat (tx_deploy_charge tx g m) \<le> unat (tx_gas_limit tx)"
    and "unat (tx_gas_limit tx) < 2 * unat (cr_gas_spent receipt) + unat (tx_deploy_charge tx g m)"
  shows "vm_contract_deploy vm tx g m receipt w = (receipt\<lparr>cr_data := Inl OutOfGas\<rparr>, w)"
proof -
  have "unat (cr_gas_spent receipt) + unat (tx_deploy_charge tx g m) < 2 ^ 64"
    by (rule le_less_trans [OF assms(4)]) simp
  then have "unat (cr_gas_spent receipt + tx_deploy_charge tx g m) =
      unat (cr_gas_spent receipt) + unat (tx_deploy_charge tx g m)" by (simp add: unat_add_no_wrap)
  with assms(3,5) have "tx_gas_limit tx - cr_gas_spent receipt < cr_gas_spent receipt + tx_deploy_charge tx g m"
    by (simp add: word_less_nat_alt unat_sub_le)
  with assms(1,2) show ?thesis by (simp add: vm_contract_deploy_def Let_def)
qed

text \<open>
  The pre-check of a deployment ignores the minimum number of deploy points: it is decided by
  the gas price floor in their place.  A deployment whose limit is below the minimum charge can pass
  it, to fail later at the price of its whole gas limit.
\<close>

theorem deploy_check_ignores_min_points:
  assumes "tx_deploy tx = Some d"
    and "of_nat (length (bc_bytes (cd_bytecode d))) * g \<le> tx_gas_limit tx"
    and "p \<le> tx_gas_price tx" and "p \<le> tx_gas_limit tx" and "tx_gas_limit tx < m"
  shows "deploy_check tx g p = Inr () \<and> tx_gas_limit tx < tx_deploy_charge tx g m"
  using assms by (auto simp: deploy_check_def tx_deploy_charge_def Let_def less_max_iff_disj)

section \<open>Concrete executions\<close>

definition vm0 :: "'w vm" where
  "vm0 = \<lparr>vm_meter = \<lambda>tx w. if 4 \<le> tx_gas_limit tx then Inr 4 else Inl VmOutOfGas,
     vm_deploy_raw = \<lambda>_ _ _ _ _ w. Inr w, vm_blake3 = \<lambda>_. replicate 32 5, vm_blake2b = \<lambda>_. replicate 32 6\<rparr>"

lemma vm0_laws: "vm_laws vm0"
  by (auto simp: vm_laws_def vm0_def same_transaction_def split: if_splits)

lemma sample_execute_ok:
  "\<exists>receipt w'. execute host0 wire0 phoenix_wire0 ext0 vm0 (Moonlight sample_moonlight) 1 1 1 sample_world
     = Inr (receipt, w')"
proof -
  have d: "mt_deploy sample_moonlight = None"
    by (simp add: mt_deploy_def data_deploy_def sample_moonlight_def sample_payload_def)
  obtain res w1 where s: "spend_and_execute host0 wire0 phoenix_wire0 ext0 (Moonlight sample_moonlight)
      sample_world = Inr (res, w1)"
    and b: "ledger_total w1 + unat (mt_gas_limit sample_moonlight) * unat (mt_gas_price sample_moonlight) < 2 ^ 64"
    by (rule sample_spent)
  let ?gas = "if is_ok res then 4 else (10 :: u64)"
  have "?gas \<le> mt_gas_limit sample_moonlight"
    by (simp add: mt_gas_limit_def sample_moonlight_def sample_payload_def)
  then obtain w2 where "refund host0 ?gas w1 = Inr w2"
    using settle_moonlight [OF sample_world_facts(1) ext0_entries s conserves_refl b] by blast
  with d s show ?thesis
    by (cases "is_ok res")
       (simp_all add: execute_def deploy_check_def tx_deploy_def tx_strip_off_bytecode_def
         mt_strip_off_bytecode_def vm_contract_deploy_def vm0_def tx_gas_limit_def mt_gas_limit_def
         sample_moonlight_def sample_payload_def Let_def)
qed

theorem execute_gas_bounds_witness:
  "\<exists>receipt w'. execute host0 wire0 phoenix_wire0 ext0 vm0 (Moonlight sample_moonlight) 1 1 1 sample_world
     = Inr (receipt, w') \<and> cr_gas_spent receipt \<le> tx_gas_limit (Moonlight sample_moonlight)"
  using sample_execute_ok execute_gas_bounds [OF _ vm0_laws] by blast

theorem deploy_refused_with_enough_gas_witness:
  "vm_contract_deploy vm0 (Moonlight sample_deploy_tx) 1 2
       \<lparr>cr_data = Inr [], cr_gas_spent = 5, cr_gas_limit = 10\<rparr> sample_world =
     (\<lparr>cr_data = Inl OutOfGas, cr_gas_spent = 5, cr_gas_limit = 10\<rparr>, sample_world)"
  using deploy_refused_with_enough_gas
    [of "Moonlight sample_deploy_tx" sample_deploy "\<lparr>cr_data = Inr [], cr_gas_spent = 5, cr_gas_limit = 10\<rparr>"
      1 2 vm0 sample_world]
  by (simp add: sample_deploy_tx_def sample_payload_def sample_deploy_def tx_deploy_def mt_deploy_def
      data_deploy_def tx_gas_limit_def mt_gas_limit_def tx_deploy_charge_def max_def)

theorem deploy_check_ignores_min_points_witness:
  "deploy_check (Moonlight sample_deploy_tx) 1 1 = Inr () \<and>
   tx_gas_limit (Moonlight sample_deploy_tx) < tx_deploy_charge (Moonlight sample_deploy_tx) 1 5000000"
  using deploy_check_ignores_min_points [of "Moonlight sample_deploy_tx" sample_deploy 1 1 5000000]
  by (simp add: sample_deploy_tx_def sample_payload_def sample_deploy_def tx_deploy_def mt_deploy_def
      data_deploy_def tx_gas_limit_def mt_gas_limit_def tx_gas_price_def mt_gas_price_def)

end
