(* ===== verification/Consensus_Config.thy ===== *)
theory Consensus_Config
  imports Rusk_Prelude "HOL-Library.Log_Nat"
begin

text \<open>
  The parameters of the consensus, \<^verbatim>\<open>consensus/src/config.rs\<close>, and the step numbers of
  \<^verbatim>\<open>node-data/src/lib.rs\<close>.  \<open>supermajority\<close> computes with \<open>f32\<close>: \<open>f32_round\<close> is the rounding of
  IEEE 754 single precision, to nearest with ties to even, on the non-negative numbers below the
  largest finite one.
\<close>

definition CONSENSUS_MAX_ITER :: u8 where
  "CONSENSUS_MAX_ITER = 50"

definition MAX_ROUND_DISTANCE :: u64 where
  "MAX_ROUND_DISTANCE = 10"

definition PROPOSAL_COMMITTEE_CREDITS :: nat where
  "PROPOSAL_COMMITTEE_CREDITS = 1"

definition VALIDATION_COMMITTEE_CREDITS :: nat where
  "VALIDATION_COMMITTEE_CREDITS = 64"

definition RATIFICATION_COMMITTEE_CREDITS :: nat where
  "RATIFICATION_COMMITTEE_CREDITS = 64"

definition MAX_NUMBER_OF_TRANSACTIONS :: nat where
  "MAX_NUMBER_OF_TRANSACTIONS = 1000"

definition EMERGENCY_MODE_ITERATION_THRESHOLD :: u8 where
  "EMERGENCY_MODE_ITERATION_THRESHOLD = 16"

definition EMERGENCY_BLOCK_ITERATION :: u8 where
  "EMERGENCY_BLOCK_ITERATION = - 1"

lemmas credits_defs =
  PROPOSAL_COMMITTEE_CREDITS_def VALIDATION_COMMITTEE_CREDITS_def RATIFICATION_COMMITTEE_CREDITS_def

section \<open>Single-precision arithmetic\<close>

definition round_half_even :: "rat \<Rightarrow> int" where
  "round_half_even x =
     (let n = \<lfloor>x\<rfloor>; d = x - of_int n in
      if d < 1 / 2 then n else if d > 1 / 2 then n + 1 else if even n then n else n + 1)"

text \<open>The distance of neighbouring values at \<open>x\<close>: 24 significant bits, and \<open>2 ^ -149\<close> at the least.\<close>

definition f32_ulp :: "rat \<Rightarrow> rat" where
  "f32_ulp x = 2 ^ nat (bitlen \<lfloor>x * 2 ^ 149\<rfloor> - 24) / 2 ^ 149"

definition f32_round :: "rat \<Rightarrow> rat" where
  "f32_round x = of_int (round_half_even (x / f32_ulp x)) * f32_ulp x"

section \<open>Quorums\<close>

definition majority :: "nat \<Rightarrow> nat" where
  "majority value = value div 2 + 1"

definition supermajority :: "nat \<Rightarrow> nat" where
  "supermajority value = nat \<lceil>f32_round (f32_round (f32_round (of_nat value) / 3) * 2)\<rceil>"

definition ratification_quorum :: nat where
  "ratification_quorum = supermajority RATIFICATION_COMMITTEE_CREDITS"

definition validation_quorum :: nat where
  "validation_quorum = supermajority VALIDATION_COMMITTEE_CREDITS"

definition validation_extra :: nat where
  "validation_extra = VALIDATION_COMMITTEE_CREDITS - validation_quorum"

definition ratification_extra :: nat where
  "ratification_extra = RATIFICATION_COMMITTEE_CREDITS - ratification_quorum"

definition is_emergency_iter :: "u8 \<Rightarrow> bool" where
  "is_emergency_iter iter \<longleftrightarrow> EMERGENCY_MODE_ITERATION_THRESHOLD \<le> iter"

definition is_emergency_block :: "u8 \<Rightarrow> bool" where
  "is_emergency_block iter \<longleftrightarrow> iter = EMERGENCY_BLOCK_ITERATION"

definition exclude_next_generator :: "u8 \<Rightarrow> bool" where
  "exclude_next_generator iter \<longleftrightarrow> iter < CONSENSUS_MAX_ITER - 1"

section \<open>Steps\<close>

datatype step_name = Proposal | Validation | Ratification

fun step_index :: "step_name \<Rightarrow> u8" where
  "step_index Proposal = 0"
| "step_index Validation = 1"
| "step_index Ratification = 2"

definition to_step :: "step_name \<Rightarrow> u8 \<Rightarrow> u8" where
  "to_step s iteration = iteration * 3 + step_index s"

lemma unat_to_step:
  assumes "iteration \<le> CONSENSUS_MAX_ITER"
  shows "unat (to_step s iteration) = 3 * unat iteration + unat (step_index s)"
proof -
  have "unat iteration \<le> 50" using assms by (simp add: CONSENSUS_MAX_ITER_def word_le_nat_alt)
  then show ?thesis by (cases s) (simp_all add: to_step_def unat_word_ariths)
qed

text \<open>Within the iterations of a round, a step number names one phase of one iteration.\<close>

lemma to_step_inject:
  assumes "to_step s i = to_step t j" and "i \<le> CONSENSUS_MAX_ITER" and "j \<le> CONSENSUS_MAX_ITER"
  shows "s = t \<and> i = j"
proof -
  have "3 * unat i + unat (step_index s) = 3 * unat j + unat (step_index t)"
    using assms by (metis unat_to_step)
  then have "unat i = unat j \<and> s = t" by (cases s; cases t; simp; presburger)
  then show ?thesis by (simp add: word_unat_eq_iff)
qed

section \<open>The quorum is two thirds\<close>

lemma round_half_even_error: "\<bar>of_int (round_half_even x) - x\<bar> \<le> 1 / 2"
proof -
  have "of_int \<lfloor>x\<rfloor> \<le> x" "x < of_int \<lfloor>x\<rfloor> + 1" by linarith+
  then show ?thesis by (auto simp: round_half_even_def Let_def abs_le_iff)
qed

lemma round_half_even_int [simp]: "round_half_even (of_int n) = n"
  by (simp add: round_half_even_def)

lemma f32_ulp_pos: "0 < f32_ulp x"
  by (simp add: f32_ulp_def)

lemma f32_round_error: "\<bar>f32_round x - x\<bar> \<le> f32_ulp x / 2"
proof -
  have "f32_round x - x = (of_int (round_half_even (x / f32_ulp x)) - x / f32_ulp x) * f32_ulp x"
    using f32_ulp_pos [of x] by (simp add: f32_round_def field_simps)
  then show ?thesis
    using round_half_even_error [of "x / f32_ulp x"] f32_ulp_pos [of x]
    by (simp add: abs_mult)
qed

lemma f32_ulp_bound:
  assumes "0 \<le> x" and "x < 2 ^ k"
  shows "f32_ulp x \<le> 2 ^ (k + 125) / 2 ^ 149"
proof -
  have "\<lfloor>x * 2 ^ 149\<rfloor> < 2 ^ (k + 149)"
    using assms by (simp add: floor_less_iff power_add)
  moreover have "0 \<le> \<lfloor>x * 2 ^ 149\<rfloor>" using assms(1) by simp
  ultimately have "bitlen \<lfloor>x * 2 ^ 149\<rfloor> \<le> int (k + 149)"
    by (simp add: bitlen_le_iff_power nat_add_distrib)
  then have "nat (bitlen \<lfloor>x * 2 ^ 149\<rfloor> - 24) \<le> k + 125" by simp
  then have "(2::rat) ^ nat (bitlen \<lfloor>x * 2 ^ 149\<rfloor> - 24) \<le> 2 ^ (k + 125)" by (simp add: power_increasing)
  then show ?thesis by (simp add: f32_ulp_def divide_right_mono)
qed

lemma f32_round_close:
  assumes "0 \<le> x" and "x < 2 ^ 21"
  shows "\<bar>f32_round x - x\<bar> \<le> 1 / 16"
  using f32_round_error [of x] f32_ulp_bound [OF assms] by (simp add: power_add)

lemma f32_round_twice:
  assumes "1 / 3 \<le> x" and "x < 2 ^ 20 / 3"
  shows "\<bar>f32_round (f32_round x * 2) - 2 * x\<bar> \<le> 3 / 16"
proof -
  have y: "\<bar>f32_round x - x\<bar> \<le> 1 / 16" using assms by (intro f32_round_close) simp_all
  then have "0 \<le> f32_round x * 2" "f32_round x * 2 < 2 ^ 21"
    using assms unfolding abs_le_iff by simp_all
  then have "\<bar>f32_round (f32_round x * 2) - f32_round x * 2\<bar> \<le> 1 / 16" by (rule f32_round_close)
  with y show ?thesis unfolding abs_le_iff by simp
qed

lemma f32_round_nat:
  assumes "n < 2 ^ 24"
  shows "f32_round (of_nat n) = of_nat n"
proof -
  let ?k = "nat (bitlen \<lfloor>of_nat n * (2::rat) ^ 149\<rfloor> - 24)"
  have "\<lfloor>of_nat n * (2::rat) ^ 149\<rfloor> = int n * 2 ^ 149"
    by (metis floor_of_int of_int_mult of_int_numeral of_int_of_nat_eq of_int_power)
  moreover have "int n * 2 ^ 149 < 2 ^ 173" using assms by simp
  ultimately have "bitlen \<lfloor>of_nat n * (2::rat) ^ 149\<rfloor> \<le> 173"
    by (simp add: bitlen_le_iff_power)
  then have k: "?k \<le> 149" by simp
  have "(2::rat) ^ 149 / 2 ^ ?k = 2 ^ (149 - ?k)" using k by (subst power_diff) simp_all
  then have "of_nat n / f32_ulp (of_nat n) = of_int (int n * 2 ^ (149 - ?k))"
    unfolding f32_ulp_def by (simp only: divide_divide_eq_right times_divide_eq_right [symmetric]
        of_int_mult of_int_of_nat_eq of_int_power of_int_numeral)
  then have "f32_round (of_nat n) = of_nat n / f32_ulp (of_nat n) * f32_ulp (of_nat n)"
    unfolding f32_round_def by (simp only: round_half_even_int)
  then show ?thesis using f32_ulp_pos [of "of_nat n"] by simp
qed

lemma supermajority_exact:
  assumes "value < 2 ^ 20"
  shows "supermajority value = (2 * value + 2) div 3"
proof -
  define q where "q = value div 3"
  define x y z where "x = rat_of_nat value / 3" and "y = f32_round x" and "z = f32_round (y * 2)"
  have q: "q < 2 ^ 20" using assms by (simp add: q_def)
  have v: "f32_round (rat_of_nat value) = rat_of_nat value" using assms by (intro f32_round_nat) simp
  have sm: "supermajority value = nat \<lceil>z\<rceil>" by (simp add: supermajority_def v x_def y_def z_def)
  have "rat_of_nat value < 2 ^ 20" using assms by (metis of_nat_less_iff of_nat_numeral of_nat_power)
  then have x: "0 \<le> x" "x < 2 ^ 20 / 3" by (simp_all add: x_def)
  consider "value = 3 * q" | "value = 3 * q + 1" | "value = 3 * q + 2"
    unfolding q_def by linarith
  then show ?thesis
  proof cases
    case 1
    then have "x = of_nat q" by (simp add: x_def)
    then have "y * 2 = of_nat (2 * q)" using q f32_round_nat [of q] by (simp add: y_def)
    then have "z = of_nat (2 * q)" using q f32_round_nat [of "2 * q"] by (simp add: z_def mult.commute)
    then have "\<lceil>z\<rceil> = int (2 * q)" by (metis ceiling_of_nat)
    then show ?thesis using sm 1 by simp
  next
    case 2
    then have xq: "x = of_nat q + 1 / 3" by (simp add: x_def field_simps)
    then have "\<bar>z - 2 * x\<bar> \<le> 3 / 16"
      unfolding z_def y_def using x by (intro f32_round_twice) simp_all
    then have "of_int (int (2 * q)) < z" "z \<le> of_int (int (2 * q) + 1)" using xq unfolding abs_le_iff by simp_all
    then have "\<lceil>z\<rceil> = int (2 * q) + 1" by (simp add: ceiling_eq_iff)
    then show ?thesis using sm 2 by simp
  next
    case 3
    then have xq: "x = of_nat q + 2 / 3" by (simp add: x_def field_simps)
    then have "\<bar>z - 2 * x\<bar> \<le> 3 / 16"
      unfolding z_def y_def using x by (intro f32_round_twice) simp_all
    then have "of_int (int (2 * q) + 1) < z" "z \<le> of_int (int (2 * q) + 2)" using xq unfolding abs_le_iff by simp_all
    then have "\<lceil>z\<rceil> = int (2 * q) + 2" by (simp add: ceiling_eq_iff)
    then show ?thesis using sm 3 by simp
  qed
qed

lemma quorum_values [simp]:
  "validation_quorum = 43" "ratification_quorum = 43" "validation_extra = 21" "ratification_extra = 21"
  by (simp_all add: validation_quorum_def ratification_quorum_def validation_extra_def
      ratification_extra_def supermajority_exact credits_defs)

end
