(* ===== verification/Node_Rewards.thy ===== *)
theory Node_Rewards
  imports Consensus_Config Core_Stake
begin

text \<open>
  The value created by a block and how it is shared: the emission schedule and the coinbase of
  \<^verbatim>\<open>rusk/src/lib/node.rs\<close>, and the rewards of \<^verbatim>\<open>rusk/src/lib/node/rusk.rs\<close>.  The crate wraps on
  overflow.  The amounts are the values of \<open>dusk(x)\<close>, which multiplies by \<open>10 ^ 9\<close> in \<open>f64\<close> at compile
  time.
\<close>

text \<open>
  \<open>node_data::bls::PublicKey\<close> caches the bytes of the key and is compared by them; it is represented
  by those bytes, and \<open>inner\<close> gives the key they encode.
\<close>

type_synonym public_key = bytes
type_synonym voter = "public_key \<times> nat"

definition emission_amount :: "u64 \<Rightarrow> u64" where
  "emission_amount block_height =
     (if block_height = 0 then 0
      else if block_height \<le> 12614400 then 19857400000
      else if block_height \<le> 25228800 then 9928700000
      else if block_height \<le> 37843200 then 4964350000
      else if block_height \<le> 50457600 then 2482180000
      else if block_height \<le> 63072000 then 1241090000
      else if block_height \<le> 75686400 then 620540000
      else if block_height \<le> 88300800 then 310270000
      else if block_height \<le> 100915200 then 155140000
      else if block_height \<le> 113529596 then 77570000
      else if block_height = 113529597 then 54280000
      else 0)"

definition coinbase_value :: "u64 \<Rightarrow> u64 \<Rightarrow> u64 \<times> u64 \<times> u64 \<times> u64" where
  "coinbase_value block_height dusk_spent =
     (let reward_value = emission_amount block_height + dusk_spent;
          one_tenth_reward = reward_value div 10;
          dusk_value = one_tenth_reward;
          voters_value = one_tenth_reward;
          generator_extra_value = one_tenth_reward;
          generator_fixed_value = reward_value - dusk_value - voters_value - generator_extra_value
      in (dusk_value, generator_fixed_value, generator_extra_value, voters_value))"

definition calc_generator_extra_reward :: "u64 \<Rightarrow> u64 \<Rightarrow> u64" where
  "calc_generator_extra_reward generator_extra_reward credits =
     (if credits = of_nat (VALIDATION_COMMITTEE_CREDITS + RATIFICATION_COMMITTEE_CREDITS)
      then generator_extra_reward
      else
        let reward_per_quota = generator_extra_reward div of_nat (validation_extra + ratification_extra);
            sum = ratification_quorum + validation_quorum
        in saturating_sub credits (of_nat sum) * reward_per_quota)"

definition credits_sum :: "voter list \<Rightarrow> u64" where
  "credits_sum voters = sum_list (map (\<lambda>(_, credits). of_nat credits) voters)"

text \<open>The list of rewards that \<open>reward_slash_and_update_root\<close> builds; \<open>dusk_key\<close> is \<open>DUSK_CONSENSUS_KEY\<close>.\<close>

definition block_rewards ::
    "bls_public_key \<Rightarrow> (public_key \<Rightarrow> bls_public_key) \<Rightarrow> u64 \<Rightarrow> u64 \<Rightarrow> bls_public_key \<Rightarrow> voter list
     \<Rightarrow> reward_arg list" where
  "block_rewards dusk_key inner block_height dusk_spent generator voters =
     (case coinbase_value block_height dusk_spent of
        (dusk_value, generator_reward, generator_extra_reward, voters_reward) \<Rightarrow>
          let extra = calc_generator_extra_reward generator_extra_reward (credits_sum voters);
              credit_reward =
                voters_reward div of_nat (VALIDATION_COMMITTEE_CREDITS + RATIFICATION_COMMITTEE_CREDITS)
          in
          [\<lparr>rw_account = generator, rw_value = generator_reward, rw_reason = GeneratorFixed\<rparr>,
           \<lparr>rw_account = dusk_key, rw_value = dusk_value, rw_reason = Other\<rparr>] @
          (if extra \<noteq> 0
           then [\<lparr>rw_account = generator, rw_value = extra, rw_reason = GeneratorExtra\<rparr>] else []) @
          map (\<lambda>(to_voter, credits).
                 \<lparr>rw_account = inner to_voter, rw_value = of_nat credits * credit_reward,
                  rw_reason = Voter\<rparr>) voters)"

section \<open>The emission schedule\<close>

lemma sum_segment:
  fixes f :: "nat \<Rightarrow> nat"
  assumes "a \<le> b" and "\<And>h. a \<le> h \<Longrightarrow> h < b \<Longrightarrow> f h = c"
  shows "sum f {..<b} = sum f {..<a} + (b - a) * c"
proof -
  have "sum f {..<b} = sum f {..<a} + sum f {a..<b}"
    using sum.atLeastLessThan_concat [of 0 a b f] assms(1) by (simp add: lessThan_atLeast0)
  also have "sum f {a..<b} = (b - a) * c" using assms(2) by simp
  finally show ?thesis .
qed

text \<open>The schedule on natural numbers.\<close>

definition emission_at :: "nat \<Rightarrow> nat" where
  "emission_at h =
     (if h = 0 then 0 else if h \<le> 12614400 then 19857400000 else if h \<le> 25228800 then 9928700000
      else if h \<le> 37843200 then 4964350000 else if h \<le> 50457600 then 2482180000
      else if h \<le> 63072000 then 1241090000 else if h \<le> 75686400 then 620540000
      else if h \<le> 88300800 then 310270000 else if h \<le> 100915200 then 155140000
      else if h \<le> 113529596 then 77570000 else if h = 113529597 then 54280000 else 0)"

lemma emission_amount_nat: "unat (emission_amount h) = emission_at (unat h)"
  unfolding emission_amount_def emission_at_def
  by (simp add: if_distrib [of unat] word_le_nat_alt word_unat_eq_iff cong: if_cong split del: if_split)

definition emitted_before :: "nat \<Rightarrow> nat" where
  "emitted_before n = sum emission_at {..<n}"

lemma emitted_segment:
  assumes "a \<le> b" and "\<And>h. a \<le> h \<Longrightarrow> h < b \<Longrightarrow> emission_at h = c"
  shows "emitted_before b = emitted_before a + (b - a) * c"
  unfolding emitted_before_def using assms by (rule sum_segment)

lemma emission_before_end: "emitted_before 113529598 = 500000000 * 10 ^ 9"
proof -
  have "emitted_before 1 = 0" by (simp add: emitted_before_def emission_at_def)
  then have "emitted_before 12614401 = 250489186560000000"
    by (simp add: emitted_segment [of 1 12614401 19857400000] emission_at_def)
  then have "emitted_before 25228801 = 375733779840000000"
    by (simp add: emitted_segment [of 12614401 25228801 9928700000] emission_at_def)
  then have "emitted_before 37843201 = 438356076480000000"
    by (simp add: emitted_segment [of 25228801 37843201 4964350000] emission_at_def)
  then have "emitted_before 50457601 = 469667287872000000"
    by (simp add: emitted_segment [of 37843201 50457601 2482180000] emission_at_def)
  then have "emitted_before 63072001 = 485322893568000000"
    by (simp add: emitted_segment [of 50457601 63072001 1241090000] emission_at_def)
  then have "emitted_before 75686401 = 493150633344000000"
    by (simp add: emitted_segment [of 63072001 75686401 620540000] emission_at_def)
  then have "emitted_before 88300801 = 497064503232000000"
    by (simp add: emitted_segment [of 75686401 88300801 310270000] emission_at_def)
  then have "emitted_before 100915201 = 499021501248000000"
    by (simp add: emitted_segment [of 88300801 100915201 155140000] emission_at_def)
  then have "emitted_before 113529597 = 499999999945720000"
    by (simp add: emitted_segment [of 100915201 113529597 77570000] emission_at_def)
  then show ?thesis
    by (simp add: emitted_segment [of 113529597 113529598 54280000] emission_at_def)
qed

lemma emission_after_end: "113529598 \<le> n \<Longrightarrow> emitted_before n = 500000000 * 10 ^ 9"
  using emitted_segment [of 113529598 n 0] emission_before_end by (simp add: emission_at_def)

text \<open>
  C31: The emission schedule creates exactly 500 million Dusk: never more up to any height, and all of
  it once block 113,529,597 has been accepted.
\<close>

theorem total_emission:
  assumes "n < 2 ^ 64"
  shows "(\<Sum>h \<le> n. unat (emission_amount (of_nat h))) \<le> 500000000 * 10 ^ 9 \<and>
         (113529597 \<le> n \<longrightarrow> (\<Sum>h \<le> n. unat (emission_amount (of_nat h))) = 500000000 * 10 ^ 9)"
proof -
  have "(\<Sum>h \<le> n. unat (emission_amount (of_nat h))) = sum emission_at {..n}"
    using assms by (intro sum.cong) (simp_all add: emission_amount_nat unat_of_nat)
  also have "\<dots> = emitted_before (Suc n)" by (simp add: emitted_before_def lessThan_Suc_atMost)
  finally have s: "(\<Sum>h \<le> n. unat (emission_amount (of_nat h))) = emitted_before (Suc n)" .
  have "emitted_before (Suc n) \<le> emitted_before (max (Suc n) 113529598)"
    unfolding emitted_before_def by (intro sum_mono2) auto
  then show ?thesis using s emission_after_end [of "max (Suc n) 113529598"] emission_after_end [of "Suc n"] by simp
qed

theorem total_emission_witness:
  "(\<Sum>h \<le> 113529597. unat (emission_amount (of_nat h))) = 500000000 * 10 ^ 9"
  using total_emission [of 113529597] by simp

section \<open>The rewards of a block\<close>

lemma unat_div_of_nat:
  "n < 2 ^ 64 \<Longrightarrow> unat (a div of_nat n :: u64) = unat a div n"
  by (simp add: unat_div unat_of_nat)

lemma unat_mult_le: "unat (a * b :: 'a::len word) \<le> unat a * unat b"
  by (simp add: unat_word_ariths)

lemma coinbase_parts:
  assumes "coinbase_value bh spent = (d, f, e, v)"
  shows "unat d + unat f + unat e + unat v = unat (emission_amount bh + spent)"
proof -
  let ?r = "emission_amount bh + spent"
  have t: "unat (?r div 10) = unat ?r div 10" by (simp add: unat_div)
  have parts: "d = ?r div 10" "e = ?r div 10" "v = ?r div 10" "f = ?r - ?r div 10 - ?r div 10 - ?r div 10"
    using assms by (auto simp: coinbase_value_def Let_def)
  have le1: "?r div 10 \<le> ?r" using t by (simp add: word_le_nat_alt)
  have le2: "?r div 10 \<le> ?r - ?r div 10" using t by (simp add: word_le_nat_alt unat_sub [OF le1])
  have "?r div 10 \<le> ?r - ?r div 10 - ?r div 10"
    unfolding word_le_nat_alt unat_sub [OF le2] unat_sub [OF le1] t by simp
  with le1 le2 have "unat f = unat ?r - unat ?r div 10 - unat ?r div 10 - unat ?r div 10"
    unfolding parts(4) using t by (simp only: unat_sub)
  then show ?thesis using parts t by simp
qed

lemma extra_reward_le:
  assumes "credits \<le> 128"
  shows "unat (calc_generator_extra_reward e (of_nat credits)) \<le> unat e"
proof (cases "credits = 128")
  case True
  then show ?thesis by (simp add: calc_generator_extra_reward_def credits_defs)
next
  case False
  with assms have c: "credits \<le> 127" by simp
  then have "(of_nat credits :: u64) \<noteq> 128" by (simp add: word_unat_eq_iff unat_of_nat)
  then have "calc_generator_extra_reward e (of_nat credits) = saturating_sub (of_nat credits) 86 * (e div 42)"
    by (simp add: calc_generator_extra_reward_def credits_defs)
  moreover have "unat (saturating_sub (of_nat credits) (86 :: u64)) \<le> 41"
    using c by (simp add: unat_saturating_sub unat_of_nat)
  then have "unat (saturating_sub (of_nat credits) (86 :: u64)) * (unat e div 42) \<le> 41 * (unat e div 42)"
    by (rule mult_le_mono1)
  then have "unat (saturating_sub (of_nat credits) (86 :: u64) * (e div 42)) \<le> 41 * (unat e div 42)"
    by (intro order_trans [OF unat_mult_le]) (simp add: unat_div)
  ultimately show ?thesis by simp
qed

lemma voters_reward_le:
  assumes "(\<Sum>(_, c)\<leftarrow>voters. c) \<le> n" and "n < 2 ^ 64"
  shows "(\<Sum>(_, c)\<leftarrow>voters. unat (of_nat c * (v div of_nat n) :: u64)) \<le> unat v"
proof -
  have "unat (of_nat c * (v div of_nat n) :: u64) \<le> c * (unat v div n)" for c
    using assms(2)
    by (intro order_trans [OF unat_mult_le]) (simp add: unat_div_of_nat unat_of_nat mult_le_mono1)
  then have "(\<Sum>(_, c)\<leftarrow>voters. unat (of_nat c * (v div of_nat n) :: u64)) \<le> (\<Sum>(_, c)\<leftarrow>voters. c * (unat v div n))"
    by (intro sum_list_mono) auto
  also have "\<dots> = (\<Sum>(_, c)\<leftarrow>voters. c) * (unat v div n)"
    by (induction voters) (auto simp: algebra_simps)
  also have "\<dots> \<le> n * (unat v div n)" using assms(1) by simp
  finally show ?thesis by (meson le_trans times_div_less_eq_dividend)
qed

lemma credits_sum_of_nat: "credits_sum voters = of_nat (\<Sum>(_, c)\<leftarrow>voters. c)"
  by (induction voters) (auto simp: credits_sum_def)

text \<open>
  A block never pays out more than it may: the rewards of the generator, of Dusk and of all voters
  together are at most the emission of the block plus the fees of its transactions, whenever the voters'
  credits are those of one validation and one ratification committee.
\<close>

lemma rewards_bounded:
  assumes "(\<Sum>(_, c)\<leftarrow>voters. c) \<le> VALIDATION_COMMITTEE_CREDITS + RATIFICATION_COMMITTEE_CREDITS"
  shows "(\<Sum>r\<leftarrow>block_rewards dusk_key inner bh spent generator voters. unat (rw_value r))
         \<le> unat (emission_amount bh + spent)"
proof -
  obtain d f e v where cv: "coinbase_value bh spent = (d, f, e, v)" by (metis prod_cases4)
  have c: "(\<Sum>(_, c)\<leftarrow>voters. c) \<le> 128" using assms by (simp add: credits_defs)
  have "unat (calc_generator_extra_reward e (credits_sum voters)) \<le> unat e"
    using extra_reward_le [OF c] by (simp add: credits_sum_of_nat)
  moreover have "(\<Sum>(_, c)\<leftarrow>voters. unat (of_nat c * (v div 128) :: u64)) \<le> unat v"
    using voters_reward_le [OF c, of v] by simp
  ultimately show ?thesis
    using coinbase_parts [OF cv]
    by (auto simp: block_rewards_def cv Let_def credits_defs comp_def case_prod_unfold)
qed

end
