(* ===== verification/Event_Bloom.thy ===== *)
theory Event_Bloom
  imports Rusk_Prelude
begin

text \<open>
  The bloom filter of a block's events, \<^verbatim>\<open>rusk/src/lib/bloom.rs\<close>: 2048 bits in 256 bytes, three bits
  per member.  \<open>hash\<close> is \<open>blake3\<close>, which is not part of the repository; the incremental hasher is the
  hash of the concatenated updates.
\<close>

unbundle bit_operations_syntax

definition BLOOM_BYTE_LEN :: nat where
  "BLOOM_BYTE_LEN = 256"

type_synonym bloom = bytes

record vm_event =
  ev_source :: bytes
  ev_topic :: bytes
  ev_data :: bytes

definition bloom_new :: bloom where
  "bloom_new = replicate BLOOM_BYTE_LEN 0"

definition be16 :: "u8 \<Rightarrow> u8 \<Rightarrow> u16" where
  "be16 b0 b1 = ucast b1 OR push_bit 8 (ucast b0)"

definition bloom_index :: "u8 \<Rightarrow> u8 \<Rightarrow> nat" where
  "bloom_index b0 b1 = BLOOM_BYTE_LEN - unat (drop_bit 3 (be16 b0 b1 AND 0x7ff)) - 1"

definition bloom_mask :: "u8 \<Rightarrow> u8" where
  "bloom_mask b = push_bit (unat (b AND 0x7)) 1"

definition bloom_values :: "bytes \<Rightarrow> nat \<times> u8 \<times> nat \<times> u8 \<times> nat \<times> u8" where
  "bloom_values hash =
     (bloom_index (hash ! 0) (hash ! 1), bloom_mask (hash ! 1),
      bloom_index (hash ! 2) (hash ! 3), bloom_mask (hash ! 3),
      bloom_index (hash ! 4) (hash ! 5), bloom_mask (hash ! 5))"

definition set_bits_at :: "nat \<Rightarrow> u8 \<Rightarrow> bloom \<Rightarrow> bloom" where
  "set_bits_at i v bl = bl[i := bl ! i OR v]"

definition bloom_add_hash :: "bytes \<Rightarrow> bloom \<Rightarrow> bloom" where
  "bloom_add_hash hash bl =
     (case bloom_values hash of (i0, v0, i1, v1, i2, v2) \<Rightarrow>
        set_bits_at i2 v2 (set_bits_at i1 v1 (set_bits_at i0 v0 bl)))"

definition bloom_contains_hash :: "bytes \<Rightarrow> bloom \<Rightarrow> bool" where
  "bloom_contains_hash hash bl =
     (case bloom_values hash of (i0, v0, i1, v1, i2, v2) \<Rightarrow>
        v0 = v0 AND bl ! i0 \<and> v1 = v1 AND bl ! i1 \<and> v2 = v2 AND bl ! i2)"

definition bloom_add :: "(bytes \<Rightarrow> bytes) \<Rightarrow> bytes \<Rightarrow> bloom \<Rightarrow> bloom" where
  "bloom_add hash bs bl = bloom_add_hash (hash bs) bl"

definition bloom_contains :: "(bytes \<Rightarrow> bytes) \<Rightarrow> bytes \<Rightarrow> bloom \<Rightarrow> bool" where
  "bloom_contains hash bs bl = bloom_contains_hash (hash bs) bl"

definition bloom_add_event :: "(bytes \<Rightarrow> bytes) \<Rightarrow> vm_event \<Rightarrow> bloom \<Rightarrow> bloom" where
  "bloom_add_event hash e bl =
     bloom_add hash (ev_source e @ ev_topic e @ ev_data e)
       (bloom_add hash (ev_source e @ ev_topic e) bl)"

definition bloom_add_events :: "(bytes \<Rightarrow> bytes) \<Rightarrow> vm_event list \<Rightarrow> bloom \<Rightarrow> bloom" where
  "bloom_add_events hash es bl = fold (bloom_add_event hash) es bl"

section \<open>No false negatives\<close>

lemma bloom_index_less: "bloom_index b0 b1 < BLOOM_BYTE_LEN"
  by (simp add: bloom_index_def BLOOM_BYTE_LEN_def)

text \<open>The index never underflows: the eleven bits select one of the 256 bytes.\<close>

lemma bloom_index_no_underflow: "unat (drop_bit 3 (be16 b0 b1 AND 0x7ff)) < BLOOM_BYTE_LEN"
proof -
  have "unat (be16 b0 b1 AND 0x7ff) \<le> 0x7ff"
    using word_and_le1 [of "be16 b0 b1" "0x7ff"] by (simp add: word_le_nat_alt)
  then show ?thesis
    by (simp add: BLOOM_BYTE_LEN_def drop_bit_eq_div unat_div)
qed

definition covers :: "bloom \<Rightarrow> bloom \<Rightarrow> bool" where
  "covers a b \<longleftrightarrow> length a = length b \<and> (\<forall>i < length a. a ! i AND b ! i = a ! i)"

lemma covers_refl [simp]: "covers a a"
  by (simp add: covers_def)

lemma covers_trans: "covers a b \<Longrightarrow> covers b c \<Longrightarrow> covers a c"
  unfolding covers_def by (metis (no_types, lifting) and.assoc)

lemma covers_set_bits: "covers bl (set_bits_at i v bl)"
  by (cases "i < length bl")
     (auto simp: covers_def set_bits_at_def nth_list_update bit_simps list_update_beyond intro!: bit_eqI)

lemma length_set_bits [simp]: "length (set_bits_at i v bl) = length bl"
  by (simp add: set_bits_at_def)

lemma covers_add_hash: "covers bl (bloom_add_hash hash bl)"
  by (auto simp: bloom_add_hash_def split: prod.split
      intro!: covers_trans [OF covers_trans [OF covers_set_bits covers_set_bits] covers_set_bits])

lemma covers_add_event: "covers bl (bloom_add_event hash e bl)"
  unfolding bloom_add_event_def bloom_add_def by (rule covers_trans [OF covers_add_hash covers_add_hash])

lemma covers_add_events: "covers bl (bloom_add_events hash es bl)"
  by (induction es arbitrary: bl)
     (auto simp: bloom_add_events_def intro: covers_trans [OF covers_add_event])

lemma masked_covers:
  assumes "covers a b" and "i < length a" and "v = v AND a ! i"
  shows "v = v AND b ! i"
  using assms by (metis and.assoc covers_def)

lemma masked_set: "i < length bl \<Longrightarrow> v = v AND set_bits_at i v bl ! i"
  by (auto simp: set_bits_at_def bit_simps intro!: bit_eqI)

lemma contains_covers:
  assumes "covers a b" and "length a = BLOOM_BYTE_LEN" and "bloom_contains_hash hash a"
  shows "bloom_contains_hash hash b"
  using assms by (auto simp: bloom_contains_hash_def bloom_values_def bloom_index_less intro: masked_covers)

lemma contains_add_hash:
  assumes "length bl = BLOOM_BYTE_LEN"
  shows "bloom_contains_hash hash (bloom_add_hash hash bl)"
proof -
  obtain i0 v0 i1 v1 i2 v2 where v: "bloom_values hash = (i0, v0, i1, v1, i2, v2)" by (metis prod_cases6)
  then have i: "i0 < length bl" "i1 < length bl" "i2 < length bl"
    using assms bloom_index_less by (auto simp: bloom_values_def)
  let ?a = "set_bits_at i0 v0 bl" and ?b = "set_bits_at i1 v1 (set_bits_at i0 v0 bl)"
  let ?c = "set_bits_at i2 v2 ?b"
  have "v0 = v0 AND ?c ! i0"
    using i by (intro masked_covers [OF covers_trans [OF covers_set_bits covers_set_bits] _ masked_set]) simp_all
  moreover have "v1 = v1 AND ?c ! i1"
    using i by (intro masked_covers [OF covers_set_bits _ masked_set]) simp_all
  moreover have "v2 = v2 AND ?c ! i2"
    using i by (intro masked_set) simp
  ultimately show ?thesis using v by (simp add: bloom_contains_hash_def bloom_add_hash_def)
qed

lemma length_add_event [simp]: "length (bloom_add_event hash e bl) = length bl"
  using covers_add_event by (simp add: covers_def)

lemma length_add_events [simp]: "length (bloom_add_events hash es bl) = length bl"
  using covers_add_events by (simp add: covers_def)

lemma bloom_add_events_append:
  "bloom_add_events hash (es @ fs) bl = bloom_add_events hash fs (bloom_add_events hash es bl)"
  by (simp add: bloom_add_events_def)

lemma contains_add_event:
  assumes "length bl = BLOOM_BYTE_LEN"
  shows "bloom_contains hash (ev_source e @ ev_topic e) (bloom_add_event hash e bl)"
    and "bloom_contains hash (ev_source e @ ev_topic e @ ev_data e) (bloom_add_event hash e bl)"
proof -
  let ?a = "bloom_add_hash (hash (ev_source e @ ev_topic e)) bl"
  have a: "length ?a = BLOOM_BYTE_LEN" using covers_add_hash assms by (metis covers_def)
  then show "bloom_contains hash (ev_source e @ ev_topic e @ ev_data e) (bloom_add_event hash e bl)"
    by (simp add: bloom_contains_def bloom_add_event_def bloom_add_def contains_add_hash)
  show "bloom_contains hash (ev_source e @ ev_topic e) (bloom_add_event hash e bl)"
    unfolding bloom_contains_def bloom_add_event_def bloom_add_def
    by (rule contains_covers [OF covers_add_hash a contains_add_hash [OF assms]])
qed

text \<open>
  C32: The bloom filter of a block has no false negatives for what the node enters: a query for the contract
  followed by the topic of any event that was added, or for the contract, the topic and the data of the event, is
  answered with yes, whatever was added before and afterwards and whatever the hash function.  The contract or
  the topic alone are not entered.
\<close>

theorem bloom_no_false_negatives:
  assumes "e \<in> set es"
  shows "bloom_contains hash (ev_source e @ ev_topic e) (bloom_add_events hash es bloom_new) \<and>
         bloom_contains hash (ev_source e @ ev_topic e @ ev_data e) (bloom_add_events hash es bloom_new)"
proof -
  obtain before after where es: "es = before @ e # after" using assms by (meson split_list)
  let ?b = "bloom_add_event hash e (bloom_add_events hash before bloom_new)"
  have "covers ?b (bloom_add_events hash es bloom_new)"
    using covers_add_events [of ?b hash after] by (simp add: es bloom_add_events_def)
  moreover have "length ?b = BLOOM_BYTE_LEN" by (simp add: bloom_new_def)
  ultimately show ?thesis
    using contains_add_event [of "bloom_add_events hash before bloom_new" hash e] contains_covers
    by (simp add: bloom_contains_def bloom_new_def)
qed

theorem bloom_no_false_negatives_witness:
  "bloom_contains (\<lambda>bs. bs) ([1, 2, 3, 4] @ [5, 6])
     (bloom_add_events (\<lambda>bs. bs)
        [\<lparr>ev_source = [1, 2, 3, 4], ev_topic = [5, 6], ev_data = [9]\<rparr>] bloom_new)"
  using bloom_no_false_negatives
    [of "\<lparr>ev_source = [1, 2, 3, 4], ev_topic = [5, 6], ev_data = [9]\<rparr>"
        "[\<lparr>ev_source = [1, 2, 3, 4], ev_topic = [5, 6], ev_data = [9]\<rparr>]" "\<lambda>bs. bs"]
  by simp

end
