(* ===== verification/Node_Block.thy ===== *)
theory Node_Block
  imports Genesis Vm_Execute Node_Rewards Event_Bloom
begin

text \<open>
  Building and accepting a block, \<^verbatim>\<open>rusk/src/lib/node/rusk.rs\<close>: \<open>execute_transactions\<close> chooses the
  transactions of a candidate, \<open>verify_transactions\<close> and \<open>accept_transactions\<close> run those of a received
  block, and all of them end with the rewards, the slashes and the new root.

  A session of the VM is the world it reads and writes.  The states the VM has stored, by commit, and
  the root of a state are fields of \<open>rusk\<close>, as are the hash function and the encoding of events; the
  commit the node is on (\<open>tip.current\<close>) is an argument.  A session that has just been opened on a
  commit has that commit as its root.
\<close>

record ledger_tx =
  lt_version :: u32
  lt_type :: u32
  lt_inner :: transaction
  lt_size :: "nat option"

record spent_tx =
  sp_inner :: ledger_tx
  sp_block_height :: u64
  sp_gas_spent :: u64
  sp_err :: "string option"

datatype slash_type = Soft | Hard | HardWithSeverity u8

record slash_entry =
  se_provisioner :: public_key
  se_type :: slash_type

record verification_output =
  vo_state_root :: bytes
  vo_event_bloom :: bloom

record call_params =
  cp_round :: u64
  cp_generator :: public_key
  cp_to_slash :: "slash_entry list"
  cp_voters :: "voter list"
  cp_max_txs_bytes :: u64
  cp_prev_state_root :: bytes

datatype node_error =
    NVm vm_error
  | BlockOutOfGas
  | InvalidCreditsCount u64 nat
  | InconsistentState verification_output
  | TipChanged
  | NodePanic string

text \<open>
  The configuration of the node and what it uses of the VM.  \<open>rk_ext\<close> are the contracts a transaction
  can call at a given height, \<open>rk_store\<close> the states by commit, \<open>rk_root\<close> is \<open>session.root()\<close>.
\<close>

record 'w rusk =
  rk_host :: host
  rk_wire :: wire
  rk_phoenix :: phoenix_wire
  rk_ext :: "host \<Rightarrow> 'w ext"
  rk_vm :: "'w vm"
  rk_store :: "bytes \<Rightarrow> 'w option"
  rk_root :: "'w \<Rightarrow> bytes"
  rk_event :: "contract_event \<Rightarrow> vm_event"
  rk_blake3 :: "bytes \<Rightarrow> bytes"
  rk_display :: "contract_error \<Rightarrow> string"
  rk_inner :: "public_key \<Rightarrow> bls_public_key"
  rk_dusk_key :: bls_public_key
  rk_gas_per_deploy_byte :: u64
  rk_min_deployment_gas_price :: u64
  rk_min_deploy_points :: u64
  rk_block_gas_limit :: u64

definition host_at :: "'w rusk \<Rightarrow> u64 \<Rightarrow> host" where
  "host_at rk block_height = (rk_host rk)\<lparr>h_block_height := block_height\<rparr>"

definition ledger_tx_size :: "'w rusk \<Rightarrow> ledger_tx \<Rightarrow> u64" where
  "ledger_tx_size rk tx =
     (case lt_size tx of
        Some n \<Rightarrow> of_nat n
      | None \<Rightarrow> of_nat (4 + 4 + (4 + length (tx_to_var_bytes (rk_wire rk) (rk_phoenix rk) (lt_inner tx)))))"

text \<open>The events of a call: those the world has after it and did not have before.\<close>

definition new_events :: "'r tworld_scheme rusk \<Rightarrow> 'r tworld_scheme \<Rightarrow> 'r tworld_scheme \<Rightarrow> vm_event list" where
  "new_events rk w w' = map (rk_event rk) (drop (length (tw_events w)) (tw_events w'))"

definition run_tx ::
    "'r tworld_scheme rusk \<Rightarrow> u64 \<Rightarrow> ledger_tx \<Rightarrow> 'r tworld_scheme
     \<Rightarrow> execute_error + (call_receipt \<times> 'r tworld_scheme)" where
  "run_tx rk block_height tx w =
     execute (host_at rk block_height) (rk_wire rk) (rk_phoenix rk) (rk_ext rk (host_at rk block_height))
       (rk_vm rk) (lt_inner tx) (rk_gas_per_deploy_byte rk) (rk_min_deploy_points rk)
       (rk_min_deployment_gas_price rk) w"

definition to_spent :: "'w rusk \<Rightarrow> u64 \<Rightarrow> ledger_tx \<Rightarrow> call_receipt \<Rightarrow> spent_tx" where
  "to_spent rk block_height tx receipt =
     \<lparr>sp_inner = tx, sp_block_height = block_height, sp_gas_spent = cr_gas_spent receipt,
      sp_err = (case cr_data receipt of Inl e \<Rightarrow> Some (rk_display rk e) | Inr _ \<Rightarrow> None)\<rparr>"

section \<open>Sessions\<close>

definition vm_call :: "'w res \<Rightarrow> node_error + 'w" where
  "vm_call r =
     (case r of
        Inr w \<Rightarrow> Inr w
      | Inl (Panic msg) \<Rightarrow> Inl (NVm (VmPanic msg))
      | Inl ArithmeticOverflow \<Rightarrow> Inl (NVm (VmPanic ''attempt to overflow'')))"

definition open_session :: "'w rusk \<Rightarrow> bytes \<Rightarrow> node_error + 'w" where
  "open_session rk commit =
     (case rk_store rk commit of None \<Rightarrow> Inl (NVm VmOther) | Some w \<Rightarrow> Inr w)"

definition new_block_session ::
    "'r sworld_scheme rusk \<Rightarrow> bytes \<Rightarrow> bytes \<Rightarrow> node_error + 'r sworld_scheme" where
  "new_block_session rk tip commit =
     res_bind (open_session rk tip) (\<lambda>session.
     if tip \<noteq> commit then Inl TipChanged
     else
       (case entry_before_state_transition None session of
          Inl _ \<Rightarrow> Inl (NodePanic ''before_state_transition to success'')
        | Inr session \<Rightarrow> Inr session))"

section \<open>The end of a block\<close>

text \<open>Every kind of slash is a soft one for now (\<^verbatim>\<open>Hard Slashing is currently "relaxed"\<close>).\<close>

definition slash_one ::
    "'r sworld_scheme rusk \<Rightarrow> u64 \<Rightarrow> slash_entry \<Rightarrow> 'r sworld_scheme \<Rightarrow> node_error + 'r sworld_scheme" where
  "slash_one rk block_height s session =
     (let provisioner = rk_inner rk (se_provisioner s) in
      case se_type s of
        Soft \<Rightarrow> vm_call (entry_slash (host_at rk block_height) (rk_wire rk) None provisioner None session)
      | Hard \<Rightarrow> vm_call (entry_slash (host_at rk block_height) (rk_wire rk) None provisioner None session)
      | HardWithSeverity _ \<Rightarrow>
          vm_call (entry_slash (host_at rk block_height) (rk_wire rk) None provisioner None session))"

definition reward_slash_and_update_root ::
    "'r sworld_scheme rusk \<Rightarrow> u64 \<Rightarrow> u64 \<Rightarrow> bls_public_key \<Rightarrow> slash_entry list \<Rightarrow> voter list
     \<Rightarrow> 'r sworld_scheme \<Rightarrow> node_error + 'r sworld_scheme" where
  "reward_slash_and_update_root rk block_height dusk_spent generator slashing voters session =
     (let credits = credits_sum voters in
      if voters \<noteq> [] \<and> credits = 0 \<and> block_height > 1 then Inl (InvalidCreditsCount block_height 0)
      else
        let rewards = block_rewards (rk_dusk_key rk) (rk_inner rk) block_height dusk_spent generator voters in
        res_bind (vm_call (entry_reward (rk_wire rk) None rewards session)) (\<lambda>session.
        res_bind (res_fold (slash_one rk block_height) slashing session) (\<lambda>session.
          vm_call (entry_update_root (host_at rk block_height) None session))))"

section \<open>Accepting a block\<close>

record 'w acceptance =
  ac_session :: 'w
  ac_gas_left :: u64
  ac_spent :: "spent_tx list"
  ac_dusk_spent :: u64
  ac_bloom :: bloom

fun accept_txs ::
    "'r tworld_scheme rusk \<Rightarrow> u64 \<Rightarrow> ledger_tx list \<Rightarrow> 'r tworld_scheme acceptance
     \<Rightarrow> node_error + 'r tworld_scheme acceptance" where
  "accept_txs rk block_height [] a = Inr a"
| "accept_txs rk block_height (tx # txs) a =
     (case run_tx rk block_height tx (ac_session a) of
        Inl RefundPanic \<Rightarrow> Inl (NodePanic ''Refunding must succeed'')
      | Inl (Discarded e) \<Rightarrow> Inl (NVm e)
      | Inr (receipt, session) \<Rightarrow>
          let gas_spent = cr_gas_spent receipt in
          if gas_spent > ac_gas_left a then Inl BlockOutOfGas
          else
            accept_txs rk block_height txs
              \<lparr>ac_session = session, ac_gas_left = ac_gas_left a - gas_spent,
               ac_spent = ac_spent a @ [to_spent rk block_height tx receipt],
               ac_dusk_spent = ac_dusk_spent a + gas_spent * tx_gas_price (lt_inner tx),
               ac_bloom = bloom_add_events (rk_blake3 rk) (new_events rk (ac_session a) session) (ac_bloom a)\<rparr>)"

text \<open>The state after the transactions, closed by the rewards: the common end of building and accepting.\<close>

definition finish_block ::
    "'r sworld_scheme rusk \<Rightarrow> u64 \<Rightarrow> u64 \<Rightarrow> bloom \<Rightarrow> bls_public_key \<Rightarrow> slash_entry list \<Rightarrow> voter list
     \<Rightarrow> 'r sworld_scheme \<Rightarrow> node_error + (verification_output \<times> 'r sworld_scheme)" where
  "finish_block rk block_height dusk_spent event_bloom generator slashing voters session =
     res_map (\<lambda>session'.
         (\<lparr>vo_state_root = rk_root rk session',
           vo_event_bloom = bloom_add_events (rk_blake3 rk) (new_events rk session session') event_bloom\<rparr>,
          session'))
       (reward_slash_and_update_root rk block_height dusk_spent generator slashing voters session)"

definition accept ::
    "'r sworld_scheme rusk \<Rightarrow> 'r sworld_scheme \<Rightarrow> u64 \<Rightarrow> u64 \<Rightarrow> bls_public_key \<Rightarrow> ledger_tx list
     \<Rightarrow> slash_entry list \<Rightarrow> voter list
     \<Rightarrow> node_error + (spent_tx list \<times> verification_output \<times> 'r sworld_scheme)" where
  "accept rk session block_height block_gas_limit generator txs slashing voters =
     res_bind (accept_txs rk block_height txs
         \<lparr>ac_session = session, ac_gas_left = block_gas_limit, ac_spent = [], ac_dusk_spent = 0,
          ac_bloom = bloom_new\<rparr>) (\<lambda>a.
     res_map (\<lambda>(out, session). (ac_spent a, out, session))
       (finish_block rk block_height (ac_dusk_spent a) (ac_bloom a) generator slashing voters (ac_session a)))"

definition verify_transactions ::
    "'r sworld_scheme rusk \<Rightarrow> bytes \<Rightarrow> bytes \<Rightarrow> u64 \<Rightarrow> u64 \<Rightarrow> bls_public_key \<Rightarrow> ledger_tx list
     \<Rightarrow> slash_entry list \<Rightarrow> voter list \<Rightarrow> node_error + (spent_tx list \<times> verification_output)" where
  "verify_transactions rk tip prev_commit block_height block_gas_limit generator txs slashing voters =
     res_bind (new_block_session rk tip prev_commit) (\<lambda>session.
     res_map (\<lambda>(spent, out, _). (spent, out))
       (accept rk session block_height block_gas_limit generator txs slashing voters))"

text \<open>
  The new tip is the commit of the final session; the VM stores its state under it.
\<close>

definition accept_transactions ::
    "'r sworld_scheme rusk \<Rightarrow> bytes \<Rightarrow> bytes \<Rightarrow> u64 \<Rightarrow> u64 \<Rightarrow> bls_public_key \<Rightarrow> ledger_tx list
     \<Rightarrow> verification_output option \<Rightarrow> slash_entry list \<Rightarrow> voter list
     \<Rightarrow> node_error + (spent_tx list \<times> verification_output \<times> bytes \<times> 'r sworld_scheme rusk)" where
  "accept_transactions rk tip prev_commit block_height block_gas_limit generator txs consistency_check
      slashing voters =
     res_bind (new_block_session rk tip prev_commit) (\<lambda>session.
     res_bind (accept rk session block_height block_gas_limit generator txs slashing voters)
       (\<lambda>(spent, out, session).
        if consistency_check \<noteq> None \<and> consistency_check \<noteq> Some out then Inl (InconsistentState out)
        else
          let commit = rk_root rk session in
          Inr (spent, out, commit, rk\<lparr>rk_store := (rk_store rk)(commit \<mapsto> session)\<rparr>)))"

section \<open>Building a block\<close>

record 'w proposal =
  pr_session :: 'w
  pr_gas_left :: u64
  pr_size_left :: u64
  pr_spent :: "spent_tx list"
  pr_discarded :: "ledger_tx list"
  pr_dusk_spent :: u64
  pr_bloom :: bloom

text \<open>The spent transactions are run again; their results are ignored, an error leaves the session as it is.\<close>

fun replay ::
    "'r tworld_scheme rusk \<Rightarrow> u64 \<Rightarrow> spent_tx list \<Rightarrow> 'r tworld_scheme \<Rightarrow> node_error + 'r tworld_scheme" where
  "replay rk block_height [] session = Inr session"
| "replay rk block_height (s # ss) session =
     (case run_tx rk block_height (sp_inner s) session of
        Inl RefundPanic \<Rightarrow> Inl (NodePanic ''Refunding must succeed'')
      | Inl (Discarded _) \<Rightarrow> replay rk block_height ss session
      | Inr (_, session') \<Rightarrow> replay rk block_height ss session')"

text \<open>
  One turn of the loop of \<open>execute_transactions\<close>, for a transaction that is not skipped for its size.
  \<open>tip\<close> is the commit the node is on at that moment.
\<close>

definition propose_tx ::
    "'r sworld_scheme rusk \<Rightarrow> bytes \<Rightarrow> call_params \<Rightarrow> ledger_tx \<Rightarrow> u64 \<Rightarrow> 'r sworld_scheme proposal
     \<Rightarrow> node_error + 'r sworld_scheme proposal" where
  "propose_tx rk tip params tx tx_len p =
     (case run_tx rk (cp_round params) tx (pr_session p) of
        Inr (receipt, session) \<Rightarrow>
          let gas_spent = cr_gas_spent receipt in
          if gas_spent > pr_gas_left p then
            res_bind (new_block_session rk tip (cp_prev_state_root params)) (\<lambda>session.
            res_map (\<lambda>session. p\<lparr>pr_session := session\<rparr>)
              (replay rk (cp_round params) (pr_spent p) session))
          else
            Inr (p\<lparr>pr_session := session,
                   pr_size_left := pr_size_left p - tx_len,
                   pr_bloom := bloom_add_events (rk_blake3 rk) (new_events rk (pr_session p) session) (pr_bloom p),
                   pr_gas_left := pr_gas_left p - gas_spent,
                   pr_dusk_spent := pr_dusk_spent p + gas_spent * tx_gas_price (lt_inner tx),
                   pr_spent := pr_spent p @ [to_spent rk (cp_round params) tx receipt]\<rparr>)
      | Inl RefundPanic \<Rightarrow> Inl (NodePanic ''Refunding must succeed'')
      | Inl (Discarded e) \<Rightarrow>
          if e = VmPanic ''Nonce not ready to be used yet'' then Inr p
          else Inr (p\<lparr>pr_discarded := pr_discarded p @ [tx]\<rparr>))"

text \<open>
  The loop.  \<open>timed_out n\<close> says whether the generation timeout has passed and \<open>tips n\<close> which commit the
  node is on when \<open>n\<close> transactions are left.
\<close>

fun propose_txs ::
    "'r sworld_scheme rusk \<Rightarrow> (nat \<Rightarrow> bool) \<Rightarrow> (nat \<Rightarrow> bytes) \<Rightarrow> call_params \<Rightarrow> ledger_tx list
     \<Rightarrow> 'r sworld_scheme proposal \<Rightarrow> node_error + 'r sworld_scheme proposal" where
  "propose_txs rk timed_out tips params [] p = Inr p"
| "propose_txs rk timed_out tips params (tx # txs) p =
     (if timed_out (length (tx # txs)) then Inr p
      else if length (pr_spent p) \<ge> MAX_NUMBER_OF_TRANSACTIONS then Inr p
      else
        let tx_len = ledger_tx_size rk tx in
        if tx_len = 0 then propose_txs rk timed_out tips params txs p
        else if tx_len > pr_size_left p then propose_txs rk timed_out tips params txs p
        else
          res_bind (propose_tx rk (tips (length (tx # txs))) params tx tx_len p)
            (propose_txs rk timed_out tips params txs))"

definition execute_transactions ::
    "'r sworld_scheme rusk \<Rightarrow> (nat \<Rightarrow> bool) \<Rightarrow> (nat \<Rightarrow> bytes) \<Rightarrow> bytes \<Rightarrow> call_params \<Rightarrow> ledger_tx list
     \<Rightarrow> node_error + (spent_tx list \<times> ledger_tx list \<times> verification_output)" where
  "execute_transactions rk timed_out tips tip params txs =
     res_bind (new_block_session rk tip (cp_prev_state_root params)) (\<lambda>session.
     res_bind (propose_txs rk timed_out tips params txs
         \<lparr>pr_session = session, pr_gas_left = rk_block_gas_limit rk,
          pr_size_left = cp_max_txs_bytes params - 4, pr_spent = [], pr_discarded = [],
          pr_dusk_spent = 0, pr_bloom = bloom_new\<rparr>) (\<lambda>p.
     res_map (\<lambda>(out, _). (pr_spent p, pr_discarded p, out))
       (finish_block rk (cp_round params) (pr_dusk_spent p) (pr_bloom p) (rk_inner rk (cp_generator params))
          (cp_to_slash params) (cp_voters params) (pr_session p))))"

section \<open>What is proposed is accepted\<close>

text \<open>
  The relation the loop keeps: running the chosen transactions from the start of the block with
  \<open>accept_txs\<close> succeeds and gives the session, gas, fees and bloom filter of the proposal.
\<close>

definition proposal_of :: "'w acceptance \<Rightarrow> 'w proposal \<Rightarrow> bool" where
  "proposal_of a p \<longleftrightarrow>
     ac_session a = pr_session p \<and> ac_gas_left a = pr_gas_left p \<and> ac_spent a = pr_spent p \<and>
     ac_dusk_spent a = pr_dusk_spent p \<and> ac_bloom a = pr_bloom p"

definition start_of :: "'w rusk \<Rightarrow> 'w \<Rightarrow> 'w acceptance" where
  "start_of rk session =
     \<lparr>ac_session = session, ac_gas_left = rk_block_gas_limit rk, ac_spent = [], ac_dusk_spent = 0,
      ac_bloom = bloom_new\<rparr>"

definition accepted_so_far ::
    "'r sworld_scheme rusk \<Rightarrow> call_params \<Rightarrow> 'r sworld_scheme \<Rightarrow> 'r sworld_scheme proposal \<Rightarrow> bool" where
  "accepted_so_far rk params session p \<longleftrightarrow>
     (\<exists>a. accept_txs rk (cp_round params) (map sp_inner (pr_spent p)) (start_of rk session) = Inr a \<and>
          proposal_of a p)"

lemma accept_txs_append:
  "accept_txs rk bh (txs @ txs2) a = res_bind (accept_txs rk bh txs a) (accept_txs rk bh txs2)"
  by (induction rk bh txs a rule: accept_txs.induct)
     (auto simp: Let_def res_bind_def split: sum.splits execute_error.splits)

lemma replay_accepted:
  assumes "accept_txs rk bh (map sp_inner ss) a = Inr a'"
  shows "replay rk bh ss (ac_session a) = Inr (ac_session a')"
  using assms
proof (induction ss arbitrary: a)
  case (Cons s ss)
  then obtain receipt session a1 where "run_tx rk bh (sp_inner s) (ac_session a) = Inr (receipt, session)"
    and "accept_txs rk bh (map sp_inner ss) a1 = Inr a'" and "ac_session a1 = session"
    by (auto simp: Let_def split: sum.splits execute_error.splits if_splits)
  with Cons.IH [of a1] show ?case by simp
qed simp

lemma new_block_session_ok:
  assumes "new_block_session rk tip commit = Inr session"
  shows "tip = commit" and "new_block_session rk commit commit = Inr session"
  using assms by (auto simp: new_block_session_def split: if_splits sum.splits)

lemma propose_tx_accepted:
  assumes "propose_tx rk tip params tx n p = Inr p'" and "accepted_so_far rk params session p"
    and "new_block_session rk tip0 (cp_prev_state_root params) = Inr session"
  shows "accepted_so_far rk params session p'"
proof -
  obtain a where a: "accept_txs rk (cp_round params) (map sp_inner (pr_spent p)) (start_of rk session) = Inr a"
    and pa: "proposal_of a p"
    using assms(2) by (auto simp: accepted_so_far_def)
  show ?thesis
  proof (cases "run_tx rk (cp_round params) tx (pr_session p)")
    case (Inl e)
    then have "p' = p \<or> p' = p\<lparr>pr_discarded := pr_discarded p @ [tx]\<rparr>"
      using assms(1) by (auto simp: propose_tx_def split: execute_error.splits if_splits)
    then show ?thesis using a pa by (auto simp: accepted_so_far_def proposal_of_def)
  next
    case (Inr r)
    obtain receipt session' where r: "r = (receipt, session')" by force
    show ?thesis
    proof (cases "cr_gas_spent receipt > pr_gas_left p")
      case True
      then obtain s0 s1 where s: "new_block_session rk tip (cp_prev_state_root params) = Inr s0"
        "replay rk (cp_round params) (pr_spent p) s0 = Inr s1" "p' = p\<lparr>pr_session := s1\<rparr>"
        using assms(1) Inr r by (auto simp: propose_tx_def Let_def)
      then have "s0 = session"
        using assms(3) new_block_session_ok(2) [OF s(1)] new_block_session_ok(2) [OF assms(3)] by simp
      then have "s1 = ac_session a"
        using replay_accepted [OF a] s(2) by (simp add: start_of_def)
      then show ?thesis using a pa s(3) by (auto simp: accepted_so_far_def proposal_of_def)
    next
      case False
      then show ?thesis
        using assms(1) Inr r a pa
        by (auto simp: propose_tx_def Let_def accepted_so_far_def proposal_of_def accept_txs_append
            to_spent_def)
    qed
  qed
qed

text \<open>What every step of the loop keeps, the loop keeps.\<close>

lemma propose_txs_invariant:
  assumes "propose_txs rk timed_out tips params txs p = Inr p'" and "P p"
    and "\<And>tx tip q q'. tx \<in> set txs \<Longrightarrow> propose_tx rk tip params tx (ledger_tx_size rk tx) q = Inr q' \<Longrightarrow> P q \<Longrightarrow>
      length (pr_spent q) < MAX_NUMBER_OF_TRANSACTIONS \<Longrightarrow> ledger_tx_size rk tx \<le> pr_size_left q \<Longrightarrow> P q'"
  shows "P p'"
  using assms
proof (induction txs arbitrary: p)
  case (Cons tx txs)
  show ?case
  proof (cases "propose_txs rk timed_out tips params (tx # txs) p = Inr p \<or>
      propose_txs rk timed_out tips params (tx # txs) p = propose_txs rk timed_out tips params txs p")
    case True
    then consider "p' = p" | "propose_txs rk timed_out tips params txs p = Inr p'" using Cons.prems(1) by auto
    then show ?thesis
    proof cases
      case 2
      then show ?thesis by (rule Cons.IH [OF _ Cons.prems(2)]) (rule Cons.prems(3), simp_all)
    qed (use Cons.prems(2) in simp)
  next
    case False
    then obtain p1 where p1: "propose_tx rk (tips (length (tx # txs))) params tx (ledger_tx_size rk tx) p = Inr p1"
      and rest: "propose_txs rk timed_out tips params txs p1 = Inr p'"
      and "length (pr_spent p) < MAX_NUMBER_OF_TRANSACTIONS" "ledger_tx_size rk tx \<le> pr_size_left p"
      using Cons.prems(1) by (auto simp: Let_def split: if_splits)
    then have "P p1" using Cons.prems(2) Cons.prems(3) [of tx] by simp
    then show ?thesis by (rule Cons.IH [OF rest]) (rule Cons.prems(3), simp_all)
  qed
qed simp

lemma propose_txs_accepted:
  assumes "propose_txs rk timed_out tips params txs p = Inr p'" and "accepted_so_far rk params session p"
    and "new_block_session rk tip0 (cp_prev_state_root params) = Inr session"
  shows "accepted_so_far rk params session p'"
  by (rule propose_txs_invariant [where P = "accepted_so_far rk params session", OF assms(1,2)])
     (rule propose_tx_accepted [OF _ _ assms(3)])

text \<open>
  What a generator proposes, everyone accepts.  If \<open>execute_transactions\<close> returns a list of spent
  transactions and an output, then verifying a block with exactly these transactions on the same state
  and gas limit succeeds, with the same spent transactions, the same state root and the same event
  bloom, although the generator skipped, discarded and re-executed transactions on the way.
\<close>

theorem proposal_is_accepted:
  assumes "execute_transactions rk timed_out tips tip params txs = Inr (spent, discarded, out)"
  shows "verify_transactions rk (cp_prev_state_root params) (cp_prev_state_root params) (cp_round params)
           (rk_block_gas_limit rk) (rk_inner rk (cp_generator params)) (map sp_inner spent)
           (cp_to_slash params) (cp_voters params) = Inr (spent, out)"
proof -
  obtain session p w' where s: "new_block_session rk tip (cp_prev_state_root params) = Inr session"
    and p: "propose_txs rk timed_out tips params txs
        \<lparr>pr_session = session, pr_gas_left = rk_block_gas_limit rk,
         pr_size_left = cp_max_txs_bytes params - 4, pr_spent = [], pr_discarded = [],
         pr_dusk_spent = 0, pr_bloom = bloom_new\<rparr> = Inr p"
    and fin: "finish_block rk (cp_round params) (pr_dusk_spent p) (pr_bloom p)
        (rk_inner rk (cp_generator params)) (cp_to_slash params) (cp_voters params) (pr_session p) = Inr (out, w')"
    and out: "spent = pr_spent p"
    using assms by (auto simp: execute_transactions_def)
  have "accepted_so_far rk params session p"
    by (rule propose_txs_accepted [OF p _ s]) (simp add: accepted_so_far_def start_of_def proposal_of_def)
  then obtain a where "accept_txs rk (cp_round params) (map sp_inner spent) (start_of rk session) = Inr a"
    and "proposal_of a p"
    using out by (auto simp: accepted_so_far_def)
  then have "accept rk session (cp_round params) (rk_block_gas_limit rk) (rk_inner rk (cp_generator params))
      (map sp_inner spent) (cp_to_slash params) (cp_voters params) = Inr (spent, out, w')"
    using fin out by (auto simp: accept_def start_of_def proposal_of_def)
  then show ?thesis
    using new_block_session_ok(2) [OF s] by (simp add: verify_transactions_def)
qed

section \<open>Limits of a block\<close>

text \<open>What the loop keeps of the limits, as a fact about the spent transactions.\<close>

definition within_limits :: "'w rusk \<Rightarrow> call_params \<Rightarrow> 'w proposal \<Rightarrow> bool" where
  "within_limits rk params p \<longleftrightarrow>
     length (pr_spent p) \<le> MAX_NUMBER_OF_TRANSACTIONS \<and>
     (\<Sum>s\<leftarrow>pr_spent p. unat (sp_gas_spent s)) + unat (pr_gas_left p) = unat (rk_block_gas_limit rk) \<and>
     (\<Sum>s\<leftarrow>pr_spent p. unat (ledger_tx_size rk (sp_inner s))) + unat (pr_size_left p) =
       unat (cp_max_txs_bytes params - 4)"

lemma propose_tx_limits:
  assumes "propose_tx rk tip params tx (ledger_tx_size rk tx) p = Inr p'" and "within_limits rk params p"
    and "length (pr_spent p) < MAX_NUMBER_OF_TRANSACTIONS" and "ledger_tx_size rk tx \<le> pr_size_left p"
  shows "within_limits rk params p'"
  using assms
  by (auto simp: propose_tx_def within_limits_def to_spent_def Let_def not_less unat_sub_le word_le_nat_alt
      split: sum.splits execute_error.splits if_splits)

lemma propose_txs_limits:
  assumes "propose_txs rk timed_out tips params txs p = Inr p'" and "within_limits rk params p"
  shows "within_limits rk params p'"
  by (rule propose_txs_invariant [where P = "within_limits rk params", OF assms]) (rule propose_tx_limits)

text \<open>What is proposed comes from the mempool, and the bloom filter keeps its size.\<close>

lemma proposal_contents:
  assumes "execute_transactions rk timed_out tips tip params txs = Inr (spent, discarded, out)"
  shows "sp_inner ` set spent \<subseteq> set txs" and "length (vo_event_bloom out) = length bloom_new"
    and "\<exists>w. vo_state_root out = rk_root rk w"
proof -
  obtain session p w' where p: "propose_txs rk timed_out tips params txs
        \<lparr>pr_session = session, pr_gas_left = rk_block_gas_limit rk,
         pr_size_left = cp_max_txs_bytes params - 4, pr_spent = [], pr_discarded = [],
         pr_dusk_spent = 0, pr_bloom = bloom_new\<rparr> = Inr p"
    and fin: "finish_block rk (cp_round params) (pr_dusk_spent p) (pr_bloom p)
        (rk_inner rk (cp_generator params)) (cp_to_slash params) (cp_voters params) (pr_session p) = Inr (out, w')"
    and spent: "spent = pr_spent p"
    using assms by (auto simp: execute_transactions_def)
  have "sp_inner ` set (pr_spent p) \<subseteq> set txs \<and> length (pr_bloom p) = length bloom_new"
    by (rule propose_txs_invariant [where
          P = "\<lambda>p. sp_inner ` set (pr_spent p) \<subseteq> set txs \<and> length (pr_bloom p) = length bloom_new", OF p])
       (auto simp: image_subset_iff propose_tx_def Let_def to_spent_def split: sum.splits execute_error.splits if_splits)
  then show "sp_inner ` set spent \<subseteq> set txs" "length (vo_event_bloom out) = length bloom_new"
    "\<exists>w. vo_state_root out = rk_root rk w"
    using fin spent by (auto simp: finish_block_def)
qed

lemma proposal_limits:
  assumes "execute_transactions rk timed_out tips tip params txs = Inr (spent, discarded, out)"
    and "4 \<le> cp_max_txs_bytes params"
  shows "length spent \<le> MAX_NUMBER_OF_TRANSACTIONS \<and>
         (\<Sum>s\<leftarrow>spent. unat (sp_gas_spent s)) \<le> unat (rk_block_gas_limit rk) \<and>
         (\<Sum>s\<leftarrow>spent. unat (ledger_tx_size rk (sp_inner s))) + 4 \<le> unat (cp_max_txs_bytes params)"
proof -
  obtain session p where p: "propose_txs rk timed_out tips params txs
        \<lparr>pr_session = session, pr_gas_left = rk_block_gas_limit rk,
         pr_size_left = cp_max_txs_bytes params - 4, pr_spent = [], pr_discarded = [],
         pr_dusk_spent = 0, pr_bloom = bloom_new\<rparr> = Inr p"
    and spent: "spent = pr_spent p"
    using assms(1) by (auto simp: execute_transactions_def)
  have "within_limits rk params p"
    by (rule propose_txs_limits [OF p]) (simp add: within_limits_def)
  moreover have "unat (cp_max_txs_bytes params - 4) + 4 = unat (cp_max_txs_bytes params)"
    using assms(2) by (simp add: unat_sub_le word_le_nat_alt)
  ultimately show ?thesis using spent by (auto simp: within_limits_def)
qed

text \<open>
  A candidate respects the limits of a block: at most a thousand transactions, whose gas together
  is within the block's gas limit and whose sizes together are within the bytes left for transactions
  after the four that hold the number of faults.
\<close>

theorem candidate_within_limits:
  assumes "execute_transactions rk timed_out tips tip params txs = Inr (spent, discarded, out)"
    and "4 \<le> cp_max_txs_bytes params"
  shows "length spent \<le> MAX_NUMBER_OF_TRANSACTIONS \<and>
         (\<Sum>s\<leftarrow>spent. unat (sp_gas_spent s)) \<le> unat (rk_block_gas_limit rk) \<and>
         (\<Sum>s\<leftarrow>spent. unat (ledger_tx_size rk (sp_inner s))) + 4 \<le> unat (cp_max_txs_bytes params)"
  by (rule proposal_limits [OF assms])

section \<open>A concrete block\<close>

definition rk0 :: "sworld rusk" where
  "rk0 = \<lparr>rk_host = host0, rk_wire = wire0, rk_phoenix = phoenix_wire0,
     rk_ext = (\<lambda>h. genesis_ext h wire0 gc0 ext0), rk_vm = vm0,
     rk_store = (\<lambda>c. if c = [1] then Some staking_world else None), rk_root = (\<lambda>_. replicate 32 2),
     rk_event = (\<lambda>_. \<lparr>ev_source = [1], ev_topic = [2], ev_data = [3]\<rparr>),
     rk_blake3 = (\<lambda>_. replicate 32 1), rk_display = (\<lambda>_. ''error''),
     rk_inner = (\<lambda>b. BlsPublicKey 9), rk_dusk_key = BlsPublicKey 8,
     rk_gas_per_deploy_byte = 1, rk_min_deployment_gas_price = 1, rk_min_deploy_points = 1,
     rk_block_gas_limit = 100\<rparr>"

definition tx0 :: ledger_tx where
  "tx0 = \<lparr>lt_version = 1, lt_type = 1, lt_inner = Moonlight staking_tx, lt_size = Some 50\<rparr>"

definition params0 :: call_params where
  "params0 = \<lparr>cp_round = 5000, cp_generator = [9], cp_to_slash = [], cp_voters = [],
     cp_max_txs_bytes = 1000, cp_prev_state_root = [1]\<rparr>"

lemma host_at_rk0 [simp]: "host_at rk0 5000 = host0"
  by (simp add: host_at_def rk0_def host0_def)

lemmas block_sample_defs =
  rk0_def tx0_def params0_def run_tx_def execute_def deploy_check_def
  tx_deploy_def mt_deploy_def data_deploy_def tx_strip_off_bytecode_def mt_strip_off_bytecode_def vm0_def
  vm_contract_deploy_def tx_gas_limit_def on_new_block_def refund_def take_ongoing_def tx_memo_def
  mt_memo_def data_memo_def
  spend_and_execute_def put_transaction_def spend_moonlight_def tx_deposit_def
  tx_gas_price_def tx_moonlight_sender_def tx_call_def mt_call_def data_call_def
  credit_account_def bm_get_or_def moonlight_accessors sample_defs add_chk_def mul_chk_def
  sub_chk_def set_accounts_def expect_def res_map_def staking_tx_def staking_world_def
  genesis_ext_def raw_call_def gc0_def entry_stake_def stake_def load_or_create_stake_mut_def
  unwrap_account_owner_def transfer_deposit_def deposit_info_def add_contract_balance_def
  expect_ok_def finish_stake_def add_to_stake_def stake_sample_defs record_previous_def emit_def
  set_stakes_def set_deposit_def set_balances_def deposit_set_taken_def Let_def

lemma tx0_runs:
  "\<exists>receipt w. run_tx rk0 5000 tx0 (on_new_block staking_world) = Inr (receipt, w) \<and>
     cr_gas_spent receipt = 4 \<and> sw_stake w = (sw_stake staking_world)\<lparr>
       ss_previous_block_state := ss_previous_block_state (sw_stake w), ss_stakes := ss_stakes (sw_stake w)\<rparr> \<and>
     (\<forall>k. bm_get (stakes_map w) k = (if k = w_pk_to_bytes wire0 pk7 then
         Some (sample_stake\<lparr>sd_amount := Some \<lparr>am_value = 3018, am_locked = 502, am_eligibility = 100\<rparr>\<rparr>,
               stake_keys_single_key pk7) else None))"
  by (simp add: host_at_def block_sample_defs)

lemma wire0_pk_inj: "w_pk_to_bytes wire0 a = w_pk_to_bytes wire0 b \<longleftrightarrow> a = b"
  using reader_codec.to_bytes_inj [OF wire_pk_codec [OF wire0_laws]] by blast

lemma rewards0_ok:
  assumes "bm_get (stakes_map w) (w_pk_to_bytes wire0 (BlsPublicKey 9)) = None"
    and "bm_get (stakes_map w) (w_pk_to_bytes wire0 (BlsPublicKey 8)) = None"
  shows "is_ok (reward_slash_and_update_root rk0 5000 spent (BlsPublicKey 9) [] [] w)"
  using assms
  by (simp add: reward_slash_and_update_root_def vm_call_def entry_reward_def entry_update_root_def
      assert_external_caller_def rk0_def reward_def reward_one_def block_rewards_def coinbase_value_def
      calc_generator_extra_reward_def credits_sum_def credits_defs saturating_sub_def get_stake_mut_def
      load_or_create_stake_mut_def stake_keys_single_key_def set_stakes_def add_chk_def Let_def
      stake_data_EMPTY_def wire0_pk_inj)

lemma block0_ok:
  "\<exists>spent out. execute_transactions rk0 (\<lambda>_. False) (\<lambda>_. [1]) [1] params0 [tx0] = Inr (spent, [], out) \<and>
     map sp_inner spent = [tx0]"
proof -
  obtain receipt w where run: "run_tx rk0 5000 tx0 (on_new_block staking_world) = Inr (receipt, w)"
    and gas: "cr_gas_spent receipt = 4"
    and st: "\<forall>k. k \<noteq> w_pk_to_bytes wire0 pk7 \<longrightarrow> bm_get (stakes_map w) k = None"
    using tx0_runs by auto
  have "is_ok (reward_slash_and_update_root rk0 5000 spent (BlsPublicKey 9) [] [] w)" for spent
    using st by (intro rewards0_ok) (simp_all add: wire0_pk_inj pk7_def)
  then obtain w' where "reward_slash_and_update_root rk0 5000 (4 * tx_gas_price (lt_inner tx0))
      (BlsPublicKey 9) [] [] w = Inr w'" by (meson is_okE)
  moreover have "new_block_session rk0 [1] [1] = Inr (on_new_block staking_world)"
    by (simp add: new_block_session_def open_session_def rk0_def entry_before_state_transition_def
        assert_external_caller_def)
  moreover have "ledger_tx_size rk0 tx0 = 50" by (simp add: ledger_tx_size_def tx0_def)
  ultimately show ?thesis
    using run gas
    by (simp add: execute_transactions_def params0_def propose_tx_def finish_block_def
        MAX_NUMBER_OF_TRANSACTIONS_def to_spent_def rk0_def Let_def)
qed

theorem proposal_is_accepted_witness:
  "\<exists>spent out. map sp_inner spent = [tx0] \<and>
     verify_transactions rk0 [1] [1] 5000 100 (BlsPublicKey 9) [tx0] [] [] = Inr (spent, out)"
proof -
  obtain spent out where ok: "execute_transactions rk0 (\<lambda>_. False) (\<lambda>_. [1]) [1] params0 [tx0] = Inr (spent, [], out)"
    and m: "map sp_inner spent = [tx0]"
    using block0_ok by auto
  from proposal_is_accepted [OF ok] m show ?thesis by (auto simp: params0_def rk0_def)
qed

theorem candidate_within_limits_witness:
  "\<exists>spent out. execute_transactions rk0 (\<lambda>_. False) (\<lambda>_. [1]) [1] params0 [tx0] = Inr (spent, [], out) \<and>
     (\<Sum>s\<leftarrow>spent. unat (sp_gas_spent s)) \<le> 100"
proof -
  obtain spent out where ok: "execute_transactions rk0 (\<lambda>_. False) (\<lambda>_. [1]) [1] params0 [tx0] = Inr (spent, [], out)"
    using block0_ok by blast
  have "4 \<le> cp_max_txs_bytes params0" by (simp add: params0_def)
  from candidate_within_limits [OF ok this] ok show ?thesis by (auto simp: rk0_def)
qed

end
