(* ===== verification/Stake_Events.thy ===== *)
theory Stake_Events
  imports Stake_History
begin

text \<open>
  The events of the stake contract as a log.  Whoever knows the stakes at the start of a block and reads the
  events of the block in order can compute the stakes at its end:
  \<open>replay_event\<close> is the abstract effect of one event, and every call of the contract refines the replay of
  the events it emits.
\<close>

text \<open>The events the stake contract emits.\<close>

definition from_stake :: "contract_event \<Rightarrow> bool" where
  "from_stake ev =
     (case ev of
        StakeEvent _ \<Rightarrow> True | UnstakeEvent _ \<Rightarrow> True | StakeWithdrawEvent _ \<Rightarrow> True | RewardEvent _ \<Rightarrow> True
      | SlashEvent _ \<Rightarrow> True | HardSlashEvent _ \<Rightarrow> True | _ \<Rightarrow> False)"

definition stake_log :: "'r tworld_scheme \<Rightarrow> contract_event list" where
  "stake_log w = filter from_stake (tw_events w)"

type_synonym amounts = "bytes \<Rightarrow> stake_amount option"

definition amounts_of :: "'r sworld_scheme \<Rightarrow> amounts" where
  "amounts_of w = (\<lambda>k. amount_at k w)"

definition replay_event :: "wire \<Rightarrow> u64 \<Rightarrow> contract_event \<Rightarrow> amounts \<Rightarrow> amounts" where
  "replay_event wr bh ev m =
     (case ev of
        StakeEvent e \<Rightarrow>
          let k = w_pk_to_bytes wr (sk_account (se_keys e)) in
          m(k \<mapsto> (case m k of
                    None \<Rightarrow> amount_new (se_value e) bh
                  | Some a \<Rightarrow> a\<lparr>am_value := am_value a + se_value e, am_locked := am_locked a + se_locked e\<rparr>))
      | UnstakeEvent e \<Rightarrow>
          let k = w_pk_to_bytes wr (sk_account (se_keys e)) in
          (case m k of
             None \<Rightarrow> m
           | Some a \<Rightarrow>
               let a' = a\<lparr>am_value := am_value a - se_value e, am_locked := am_locked a - se_locked e\<rparr> in
               m(k := if total_funds a' = 0 then None else Some a'))
      | SlashEvent e \<Rightarrow>
          let k = w_pk_to_bytes wr (sl_account e) in
          m(k := map_option (\<lambda>a. lock_amount (min (sl_value e) (am_value a)) (a\<lparr>am_eligibility := sl_next_eligibility e\<rparr>)) (m k))
      | HardSlashEvent e \<Rightarrow>
          let k = w_pk_to_bytes wr (sl_account e) in
          m(k := map_option (\<lambda>a. a\<lparr>am_eligibility := sl_next_eligibility e,
                 am_value := am_value a - min (sl_value e) (am_value a)\<rparr>) (m k))
      | _ \<Rightarrow> m)"

text \<open>Every entry is filed under the account of its keys.\<close>

definition keys_match :: "wire \<Rightarrow> 'r sworld_scheme \<Rightarrow> bool" where
  "keys_match wr w \<longleftrightarrow>
     (\<forall>k s keys. bm_get (stakes_map w) k = Some (s, keys) \<longrightarrow> w_pk_to_bytes wr (sk_account keys) = k)"

definition logged :: "wire \<Rightarrow> u64 \<Rightarrow> 'r sworld_scheme \<Rightarrow> 'r sworld_scheme \<Rightarrow> bool" where
  "logged wr bh w w' \<longleftrightarrow>
     (keys_match wr w \<longrightarrow> keys_match wr w' \<and>
        (\<exists>evs. stake_log w' = stake_log w @ evs \<and> amounts_of w' = fold (replay_event wr bh) evs (amounts_of w)))"

lemma logged_refl [simp, intro]: "logged wr bh w w"
  by (simp add: logged_def)

lemma logged_trans: "logged wr bh u v \<Longrightarrow> logged wr bh v w \<Longrightarrow> logged wr bh u w"
  by (auto simp: logged_def)

lemma logged_same:
  assumes "stake_log w' = stake_log w" and "\<And>k. amount_at k w' = amount_at k w"
    and "keys_match wr w \<Longrightarrow> keys_match wr w'"
  shows "logged wr bh w w'"
  using assms by (auto simp: logged_def amounts_of_def)

lemma logged_one:
  assumes "stake_log w' = stake_log w @ [ev]"
    and "keys_match wr w \<Longrightarrow> keys_match wr w' \<and> amounts_of w' = replay_event wr bh ev (amounts_of w)"
  shows "logged wr bh w w'"
  using assms by (auto simp: logged_def)

section \<open>Frames\<close>

lemma stake_log_emit [simp]:
  "stake_log (emit ev w) = stake_log w @ (if from_stake ev then [ev] else [])"
  by (simp add: stake_log_def emit_def)

lemma stake_log_transfer [simp]:
  "stake_log (set_balances b w) = stake_log w"
  "stake_log (set_accounts c w) = stake_log w"
  "stake_log (set_tree tr w) = stake_log w"
  "stake_log (set_deposit d w) = stake_log w"
  "stake_log (update_root h w) = stake_log w"
  by (simp_all add: stake_log_def set_balances_def set_accounts_def set_tree_def set_deposit_def update_root_def)

lemma stake_log_stake [simp]:
  "stake_log (set_stakes m w) = stake_log w"
  "stake_log (record_previous wr p a w) = stake_log w"
  "stake_log (set_burnt_amount n w) = stake_log w"
  "stake_log (configure cfg w) = stake_log w"
  "stake_log (on_new_block w) = stake_log w"
  by (simp_all add: stake_log_def set_stakes_def record_previous_def set_burnt_amount_def configure_def on_new_block_def)

lemma from_stake_simps [simp]:
  "from_stake (StakeEvent e)" "from_stake (UnstakeEvent e)" "from_stake (SlashEvent f)" "from_stake (HardSlashEvent f)"
  "from_stake (StakeWithdrawEvent e)" "from_stake (RewardEvent r)"
  "\<not> from_stake (MintEvent a)" "\<not> from_stake (MintContractEvent b)" "\<not> from_stake (WithdrawEvent a)"
  "\<not> from_stake (ConvertEvent c)" "\<not> from_stake (DepositEvent d)" "\<not> from_stake (ContractToContractEvent b)"
  "\<not> from_stake (ContractToAccountEvent g)" "\<not> from_stake (PhoenixEvent p)" "\<not> from_stake (MoonlightEvent m)"
  by (simp_all add: from_stake_def)

lemma credit_log:
  "credit_contract c v w = Inr w' \<Longrightarrow> stake_log w' = stake_log w"
  "credit_account k v w = Inr w' \<Longrightarrow> stake_log w' = stake_log w"
  by (auto simp: credit_contract_def credit_account_def Let_def)

lemma push_note_log [simp]: "stake_log (snd (push_note_current_height h n w)) = stake_log w"
  by (simp add: push_note_current_height_def push_note_def split_beta)

lemma mint_withdrawal_log: "mint_withdrawal h wr fn d w = Inr w' \<Longrightarrow> stake_log w' = stake_log w"
  by (auto simp: mint_withdrawal_def Let_def dest: credit_log
      split: withdraw_receiver.splits withdraw_signature.splits if_splits)

lemma mint_log: "mint h wr c d w = Inr w' \<Longrightarrow> stake_log w' = stake_log w"
  by (auto simp: mint_def dest: mint_withdrawal_log split: if_splits)

lemma withdraw_log: "transfer_withdraw h wr c d w = Inr w' \<Longrightarrow> stake_log w' = stake_log w"
  by (auto simp: transfer_withdraw_def dest!: mint_withdrawal_log elim!: sub_contract_balance_ok split: if_splits)

lemma deposit_log: "transfer_deposit c v w = Inr w' \<Longrightarrow> stake_log w' = stake_log w"
  by (erule transfer_deposit_ok) (auto dest: credit_log)

lemma deduct_log: "deduct_contract_balance v w = Inr w' \<Longrightarrow> stake_log w' = stake_log w"
  by (auto simp: deduct_contract_balance_def entry_sub_contract_balance_def elim!: sub_contract_balance_ok)

lemma keys_match_stake: "sw_stake w' = sw_stake w \<Longrightarrow> keys_match wr w' = keys_match wr w"
  by (simp add: keys_match_def)

lemma quiet_logged:
  assumes "sw_stake w' = sw_stake w" and "stake_log w' = stake_log w"
  shows "logged wr bh w w'"
  by (rule logged_same [OF assms(2) amount_at_stake [OF assms(1)]]) (simp add: keys_match_stake [OF assms(1)])

lemma keys_match_put:
  "keys_match wr w \<Longrightarrow> stakes_map w' = bm_insert (w_pk_to_bytes wr (sk_account keys)) (s, keys) (stakes_map w) \<Longrightarrow>
   keys_match wr w'"
  by (auto simp: keys_match_def)

lemma keys_match_get:
  "keys_match wr w \<Longrightarrow> bm_get (stakes_map w) k = Some (s, keys) \<Longrightarrow> w_pk_to_bytes wr (sk_account keys) = k"
  by (auto simp: keys_match_def)


section \<open>The calls of the contract\<close>

text \<open>
  A call of the contract in a block of the given height; whatever else happens in the VM leaves the stakes and
  the log alone.  As in \<open>stake_step\<close>, a contract that is called back may enter the contract again.
\<close>

inductive stake_call ::
    "host \<Rightarrow> wire \<Rightarrow> (bytes \<Rightarrow> stake_request option) \<Rightarrow> 'r sworld_scheme \<Rightarrow> 'r sworld_scheme \<Rightarrow> bool"
  for h wr decode where
    call_stake: "stake h wr r w = Inr w' \<Longrightarrow> stake_call h wr decode w w'"
  | call_from_contract: "credit_contract STAKE_CONTRACT (rc_value recv) w = Inr w1 \<Longrightarrow>
      stake_from_contract h wr decode recv w1 = Inr w' \<Longrightarrow> stake_call h wr decode w w'"
  | call_unstake: "unstake h wr u w = Inr w' \<Longrightarrow> stake_call h wr decode w w'"
  | call_unstake_from: "unstake_from_contract wr x caller uc w = Inr w' \<Longrightarrow>
      (\<And>c f a u v. x_call x c f a u = Inr v \<Longrightarrow> (stake_call h wr decode)\<^sup>*\<^sup>* u v) \<Longrightarrow> stake_call h wr decode w w'"
  | call_withdraw: "withdraw_reward h wr u w = Inr w' \<Longrightarrow> stake_call h wr decode w w'"
  | call_withdraw_from: "withdraw_from_contract wr x caller uc w = Inr w' \<Longrightarrow>
      (\<And>c f a u v. x_call x c f a u = Inr v \<Longrightarrow> (stake_call h wr decode)\<^sup>*\<^sup>* u v) \<Longrightarrow> stake_call h wr decode w w'"
  | call_reward: "reward wr rs w = Inr w' \<Longrightarrow> stake_call h wr decode w w'"
  | call_slash: "slash h wr acct n w = Inr w' \<Longrightarrow> stake_call h wr decode w w'"
  | call_hard_slash: "hard_slash h wr acct n sev w = Inr w' \<Longrightarrow> stake_call h wr decode w w'"
  | call_other: "sw_stake w' = sw_stake w \<Longrightarrow> stake_log w' = stake_log w \<Longrightarrow> stake_balance w \<le> stake_balance w' \<Longrightarrow>
      stake_call h wr decode w w'"

lemma add_to_stake_replay:
  assumes "add_to_stake h keys v s = Inr (s', e)"
  shows "se_keys e = keys"
    and "sd_amount s' = Some (case sd_amount s of
           None \<Rightarrow> amount_new (se_value e) (h_block_height h)
         | Some a \<Rightarrow> a\<lparr>am_value := am_value a + se_value e, am_locked := am_locked a + se_locked e\<rparr>)"
  using assms
  by (auto simp: add_to_stake_def stake_event_new_def stake_event_locked_def Let_def add_chk_def split: option.splits if_splits)

lemma take_from_amount_replay:
  assumes "take_from_amount keys v a = Inr (a', e)"
  shows "se_keys e = keys"
    and "a' = a\<lparr>am_value := am_value a - se_value e, am_locked := am_locked a - se_locked e\<rparr>"
  using assms
  by (auto simp: take_from_amount_def stake_event_new_def stake_event_locked_def sub_chk_def split: if_splits)

lemma finish_stake_logged:
  assumes "load_or_create_stake_mut wr (st_keys r) w = Inr ((s, st_keys r), w1)"
    and "sw_stake w2 = sw_stake w1" and "stake_log w2 = stake_log w1"
    and "finish_stake h wr r prev s (st_keys r) w2 = Inr w'"
  shows "logged wr (h_block_height h) w w'"
proof -
  let ?k = "w_pk_to_bytes wr (sk_account (st_keys r))"
  obtain s' e where add: "add_to_stake h (st_keys r) (st_value r) s = Inr (s', e)"
    and w': "w' = record_previous wr prev (sk_account (st_keys r))
      (emit (StakeEvent e) (set_stakes (bm_insert ?k (s', st_keys r) (stakes_map w2)) w2))"
    using assms(4) by (auto simp: finish_stake_def)
  have log: "stake_log w1 = stake_log w"
    using assms(1) by (auto simp: load_or_create_stake_mut_def Let_def split: option.splits if_splits)
  have others: "\<And>k. k \<noteq> ?k \<Longrightarrow> bm_get (stakes_map w1) k = bm_get (stakes_map w) k"
    and entry: "bm_get (stakes_map w) ?k = Some (s, st_keys r) \<or> bm_get (stakes_map w) ?k = None \<and> s = stake_data_EMPTY"
    by (rule load_or_create_ok [OF assms(1)], blast, rule load_or_create_ok [OF assms(1)], blast)
  have old: "amount_at ?k w = sd_amount s"
    using entry by (auto simp: amount_at_def stake_data_EMPTY_def)
  show ?thesis
  proof (rule logged_one [where ev = "StakeEvent e"])
    assume match: "keys_match wr w"
    have "keys_match wr w'" using match others assms(2) by (auto simp: w' keys_match_def)
    moreover have "amount_at k w' = replay_event wr (h_block_height h) (StakeEvent e) (amounts_of w) k" for k
      using add_to_stake_replay [OF add] others [of k] assms(2) old
      by (auto simp: w' amount_at_put amount_at_def [of k w] replay_event_def amounts_of_def Let_def) (auto simp: amount_at_def)
    ultimately show "keys_match wr w' \<and> amounts_of w' = replay_event wr (h_block_height h) (StakeEvent e) (amounts_of w)"
      by (simp add: amounts_of_def fun_eq_iff)
  qed (simp add: w' log assms(3))
qed

lemma unstaked_logged:
  assumes "bm_get (stakes_map w) (w_pk_to_bytes wr acct) = Some (s, keys)" and "sd_amount s = Some a"
    and "take_from_amount keys v a = Inr (a', e)"
  shows "logged wr bh w (record_previous wr p acct
           (store_unstaked (w_pk_to_bytes wr acct) s keys a' (emit (UnstakeEvent e) w)))" (is "logged wr bh w ?w'")
proof (rule logged_one [where ev = "UnstakeEvent e"])
  let ?k = "w_pk_to_bytes wr acct"
  show "stake_log ?w' = stake_log w @ [UnstakeEvent e]" by (simp add: store_unstaked_def)
  assume match: "keys_match wr w"
  have k: "w_pk_to_bytes wr (sk_account keys) = ?k" by (rule keys_match_get [OF match assms(1)])
  have "keys_match wr ?w'"
    using match k by (auto simp: keys_match_def store_unstaked_def split: if_splits)
  moreover have "amount_at k ?w' = replay_event wr bh (UnstakeEvent e) (amounts_of w) k" for k
    using take_from_amount_replay [OF assms(3)] assms(1,2) k
    by (auto simp: replay_event_def amounts_of_def amount_at_def store_unstaked_def Let_def)
  ultimately show "keys_match wr ?w' \<and> amounts_of ?w' = replay_event wr bh (UnstakeEvent e) (amounts_of w)"
    by (simp add: amounts_of_def fun_eq_iff)
qed

lemma rewarded_logged:
  assumes "bm_get (stakes_map w) (w_pk_to_bytes wr acct) = Some (s, keys)"
  shows "logged wr bh w (store_rewarded (w_pk_to_bytes wr acct) s keys r (emit (StakeWithdrawEvent e) w))"
    (is "logged wr bh w ?w'")
proof (rule logged_one [where ev = "StakeWithdrawEvent e"])
  have "amount_at k ?w' = amount_at k w" for k
    using assms(1) by (simp add: store_rewarded_frame) (simp add: amount_at_def)
  moreover assume "keys_match wr w"
  with assms(1) have "keys_match wr ?w'" by (auto simp: keys_match_def store_rewarded_def)
  ultimately show "keys_match wr ?w' \<and> amounts_of ?w' = replay_event wr bh (StakeWithdrawEvent e) (amounts_of w)"
    by (simp add: amounts_of_def replay_event_def)
qed (simp add: store_rewarded_def)

lemma reward_one_logged:
  assumes "reward_one wr r w = Inr w'"
  shows "logged wr bh w w'"
proof (rule logged_same)
  show "stake_log w' = stake_log w"
    using assms by (auto simp: reward_one_def load_or_create_stake_mut_def Let_def split: option.splits if_splits)
  show "amount_at k w' = amount_at k w" for k
    using reward_one_frame(5) [OF assms, of k]
    by (cases "bm_get (stakes_map w') k"; cases "bm_get (stakes_map w) k") (auto simp: amount_at_def)
  assume "keys_match wr w"
  with assms show "keys_match wr w'"
    by (auto simp: keys_match_def reward_one_def load_or_create_stake_mut_def get_stake_mut_def Let_def
        stake_keys_single_key_def split: option.splits if_splits)
qed

lemma reward_logged:
  assumes "reward wr rs w = Inr w'"
  shows "logged wr bh w w'"
proof -
  obtain w1 where w1: "res_fold (reward_one wr) rs w = Inr w1" and w': "w' = (if rs = [] then w1 else emit (RewardEvent rs) w1)"
    using assms by (auto simp: reward_def)
  have "logged wr bh w w1"
    using w1 by (rule res_fold_invariant [where P = "logged wr bh w"])
      (rule logged_refl, erule (1) logged_trans [OF _ reward_one_logged])
  moreover have "logged wr bh w1 (emit (RewardEvent rs) w1)"
    by (rule logged_one [where ev = "RewardEvent rs"])
       (simp_all add: keys_match_def amounts_of_def amount_at_def replay_event_def)
  then have "logged wr bh w1 w'" by (simp add: w')
  ultimately show ?thesis by (rule logged_trans)
qed

lemma put_logged:
  assumes "bm_get (stakes_map w) (w_pk_to_bytes wr acct) = Some (s, keys)"
    and "stakes_map w' = bm_insert (w_pk_to_bytes wr acct) (s', keys) (stakes_map w)"
    and "stake_log w' = stake_log w @ [ev]"
    and "replay_event wr bh ev (amounts_of w) = (amounts_of w)(w_pk_to_bytes wr acct := sd_amount s')"
  shows "logged wr bh w w'"
proof (rule logged_one [OF assms(3)])
  assume match: "keys_match wr w"
  have "keys_match wr w'" using match assms(1,2) by (auto simp: keys_match_def)
  moreover have "amounts_of w' = (amounts_of w)(w_pk_to_bytes wr acct := sd_amount s')"
    using assms(2) by (auto simp: amounts_of_def amount_at_def)
  ultimately show "keys_match wr w' \<and> amounts_of w' = replay_event wr bh ev (amounts_of w)" by (simp add: assms(4))
qed

lemma slash_logged:
  assumes "slash h wr acct n w = Inr w'"
  shows "logged wr bh w w'"
proof -
  obtain s keys where s: "bm_get (stakes_map w) (w_pk_to_bytes wr acct) = Some (s, keys)"
    using assms by (rule slash_exists)
  show ?thesis
  proof (cases "sd_amount s")
    case None
    from slash_none [OF assms s None] show ?thesis by simp
  next
    case (Some a)
    then have a: "amounts_of w (w_pk_to_bytes wr acct) = Some a" using s by (simp add: amounts_of_def amount_at_def)
    show ?thesis
    proof (rule slash_some [OF assms s Some])
      fix ef el m w1
      assume el: "(if ef > 0 then res_bind (mul_chk ef EPOCH) (add_chk (next_epoch (h_block_height h)))
          else Inr (am_eligibility a)) = Inr el"
        and m: "slash_value n (am_value a) ef = Inr m"
        and w1: "w1 = set_stakes (bm_insert (w_pk_to_bytes wr acct) (slashed_stake m el a s, keys) (stakes_map w)) w"
        and w': "w' = record_previous wr (Some s) acct
          (if m > 0 \<or> ef > 0 then emit (SlashEvent \<lparr>sl_account = acct, sl_value = m, sl_next_eligibility = el\<rparr>) w1
           else w1)"
      show ?thesis
      proof (cases "m > 0 \<or> ef > 0")
        case True
        then show ?thesis
          by (intro put_logged [OF s, where s' = "slashed_stake m el a s" and
                ev = "SlashEvent \<lparr>sl_account = acct, sl_value = m, sl_next_eligibility = el\<rparr>"])
             (use slash_value_le [OF m] in \<open>auto simp: w' w1 replay_event_def a slashed_stake_def min_absorb1\<close>)
      next
        case False
        then have "m = 0" "el = am_eligibility a" using el by (auto simp: word_gt_0)
        then have "sd_amount (slashed_stake m el a s) = Some a" by (simp add: slashed_stake_def)
        with False s Some show ?thesis
          by (intro logged_same) (auto simp: w' w1 amount_at_def keys_match_def)
      qed
    qed
  qed
qed

lemma hard_slash_logged:
  assumes "hard_slash h wr acct n sev w = Inr w'"
  shows "logged wr bh w w'"
proof -
  obtain s keys where s: "bm_get (stakes_map w) (w_pk_to_bytes wr acct) = Some (s, keys)"
    using assms by (rule hard_slash_exists)
  show ?thesis
  proof (cases "sd_amount s")
    case None
    from hard_slash_none [OF assms s None] show ?thesis by simp
  next
    case (Some a)
    then have a: "amounts_of w (w_pk_to_bytes wr acct) = Some a" using s by (simp add: amounts_of_def amount_at_def)
    show ?thesis
    proof (rule hard_slash_some [OF assms s Some])
      fix hard sh el m w1 w2
      assume m: "slash_value n (am_value a) (ucast hard) = Inr m"
        and w1: "w1 = set_stakes (bm_insert (w_pk_to_bytes wr acct) (hard_slashed_stake hard m el a s, keys) (stakes_map w)) w"
        and w2: "(if m > 0 then
            res_bind (deduct_contract_balance m w1) (\<lambda>w.
            res_bind (add_chk (ss_burnt_amount (sw_stake w)) m) (\<lambda>b. Inr (set_burnt_amount b w)))
          else Inr w1) = Inr w2"
        and w': "w' = record_previous wr (Some s) acct
          (emit (HardSlashEvent \<lparr>sl_account = acct, sl_value = m, sl_next_eligibility = el\<rparr>) w2)"
      have "stake_log w2 = stake_log w1 \<and> stakes_map w2 = stakes_map w1"
        using w2 by (auto dest: deduct_stake(1) deduct_log split: if_splits)
      then show ?thesis
        by (intro put_logged [OF s, where s' = "hard_slashed_stake hard m el a s" and
              ev = "HardSlashEvent \<lparr>sl_account = acct, sl_value = m, sl_next_eligibility = el\<rparr>"])
           (use slash_value_le [OF m] in \<open>auto simp: w' w1 replay_event_def a hard_slashed_stake_def min_absorb1\<close>)
    qed
  qed
qed

lemma stake_logged: "stake h wr r w = Inr w' \<Longrightarrow> logged wr (h_block_height h) w w'"
  by (elim stake_ok) (erule finish_stake_logged, erule deposit_stake(1), erule deposit_log)

lemma arrival_logged:
  assumes "credit_contract STAKE_CONTRACT v w = Inr w1" and "stake_from_contract h wr decode recv w1 = Inr w'"
  shows "logged wr (h_block_height h) w w'"
proof -
  have "sw_stake w1 = sw_stake w" by (rule more_stake [OF credit_contract_totals(5) [OF assms(1)]])
  then have "logged wr (h_block_height h) w w1"
    using credit_log(1) [OF assms(1)] by (rule quiet_logged)
  moreover have "logged wr (h_block_height h) w1 w'"
    using assms(2) by (elim stake_from_contract_ok) (erule finish_stake_logged [OF _ refl refl])
  ultimately show ?thesis by (rule logged_trans)
qed

lemma unstake_logged:
  assumes "unstake h wr u w = Inr w'"
  shows "logged wr bh w w'"
proof (rule unstake_ok [OF assms])
  fix s keys a w1 a' e
  assume s: "bm_get (stakes_map w) (w_pk_to_bytes wr (sw_account u)) = Some (s, keys)" "sd_amount s = Some a"
    and wd: "transfer_withdraw h wr (Some STAKE_CONTRACT) (sw_withdraw u) w = Inr w1"
    and t: "take_from_amount keys (wd_value (sw_withdraw u)) a = Inr (a', e)"
    and w': "w' = record_previous wr (Some s) (sw_account u)
       (store_unstaked (w_pk_to_bytes wr (sw_account u)) s keys a' (emit (UnstakeEvent e) w1))"
  have "bm_get (stakes_map w1) (w_pk_to_bytes wr (sw_account u)) = Some (s, keys)"
    using s(1) withdraw_stake(1) [OF wd] by simp
  from unstaked_logged [OF this s(2) t] quiet_logged [OF withdraw_stake(1) [OF wd] withdraw_log [OF wd]]
  show ?thesis unfolding w' by (blast intro: logged_trans)
qed

lemma withdraw_reward_logged:
  assumes "withdraw_reward h wr u w = Inr w'"
  shows "logged wr bh w w'"
proof (rule withdraw_reward_ok [OF assms])
  fix s keys w1 r
  assume s: "bm_get (stakes_map w) (w_pk_to_bytes wr (sw_account u)) = Some (s, keys)"
    and m: "mint h wr (Some STAKE_CONTRACT) (sw_withdraw u) w = Inr w1"
    and w': "w' = store_rewarded (w_pk_to_bytes wr (sw_account u)) s keys r
       (emit (StakeWithdrawEvent (stake_event_new keys (wd_value (sw_withdraw u)))) w1)"
  have "bm_get (stakes_map w1) (w_pk_to_bytes wr (sw_account u)) = Some (s, keys)"
    using s mint_stake(1) [OF m] by simp
  from rewarded_logged [OF this] quiet_logged [OF mint_stake(1) [OF m] mint_log [OF m]]
  show ?thesis unfolding w' by (blast intro: logged_trans)
qed

text \<open>The calls that pay a contract, which may enter again: the events of what it does come before their own.\<close>

lemma paid_logged:
  assumes "sw_stake v1 = sw_stake w" and "tw_events v1 = tw_events w" and "logged wr bh v1 v2"
    and "w1 = emit ev v2" and "\<not> from_stake ev"
  shows "logged wr bh w w1"
proof -
  have "logged wr bh w v1" by (rule quiet_logged [OF assms(1)]) (simp add: stake_log_def assms(2))
  moreover have "logged wr bh v2 w1" by (rule quiet_logged) (simp_all add: assms(4,5))
  ultimately show ?thesis using assms(3) by (blast intro: logged_trans)
qed

lemma unstake_from_contract_logged:
  assumes "unstake_from_contract wr x caller u w = Inr w'"
    and "\<And>c f a u v. x_call x c f a u = Inr v \<Longrightarrow> logged wr bh u v"
  shows "logged wr bh w w'"
proof (rule unstake_from_contract_ok [OF assms(1)])
  fix prev keys0 a0 c w1 s keys a a' e
  assume c: "contract_to_contract x (Some STAKE_CONTRACT)
       \<lparr>c2c_contract = c, c2c_value = wtc_value u, c2c_fn_name = wtc_fn_name u,
        c2c_data = wtc_data u\<rparr> w = Inr w1"
    and s: "bm_get (stakes_map w1) (w_pk_to_bytes wr (wtc_account u)) = Some (s, keys)" "sd_amount s = Some a"
    and t: "take_from_amount keys (wtc_value u) a = Inr (a', e)"
    and w': "w' = record_previous wr (Some prev) (wtc_account u)
       (store_unstaked (w_pk_to_bytes wr (wtc_account u)) s keys a' (emit (UnstakeEvent e) w1))"
  have "logged wr bh w w1"
    by (rule to_contract_called [OF c, where R = "logged wr bh"]) (auto simp: assms(2) elim!: paid_logged)
  with unstaked_logged [OF s t] show ?thesis unfolding w' by (blast intro: logged_trans)
qed

lemma withdraw_from_contract_logged:
  assumes "withdraw_from_contract wr x caller u w = Inr w'"
    and "\<And>c f a u v. x_call x c f a u = Inr v \<Longrightarrow> logged wr bh u v"
  shows "logged wr bh w w'"
proof (rule withdraw_from_contract_ok [OF assms(1)])
  fix c w1 s keys r
  assume c: "mint_to_contract x (Some STAKE_CONTRACT)
       \<lparr>c2c_contract = c, c2c_value = wtc_value u, c2c_fn_name = wtc_fn_name u,
        c2c_data = wtc_data u\<rparr> w = Inr w1"
    and s: "bm_get (stakes_map w1) (w_pk_to_bytes wr (wtc_account u)) = Some (s, keys)"
    and w': "w' = store_rewarded (w_pk_to_bytes wr (wtc_account u)) s keys r
       (emit (StakeWithdrawEvent (stake_event_new keys (wtc_value u))) w1)"
  have "logged wr bh w w1"
    by (rule mint_to_contract_called [OF c, where R = "logged wr bh"]) (auto simp: assms(2) elim!: paid_logged)
  with rewarded_logged [OF s] show ?thesis unfolding w' by (blast intro: logged_trans)
qed

lemma logged_runs: "(\<lambda>u v. S u v \<and> logged wr bh u v)\<^sup>*\<^sup>* w w' \<Longrightarrow> logged wr bh w w'"
  by (erule related_run) (auto intro: logged_trans)

lemma stake_call_logged: "stake_call h wr decode w w' \<Longrightarrow> logged wr (h_block_height h) w w'"
proof (induction rule: stake_call.induct)
  case (call_unstake_from x caller uc w w')
  show ?case
    by (rule unstake_from_contract_logged [OF call_unstake_from(1)]) (rule logged_runs [OF call_unstake_from(2)])
next
  case (call_withdraw_from x caller uc w w')
  show ?case
    by (rule withdraw_from_contract_logged [OF call_withdraw_from(1)]) (rule logged_runs [OF call_withdraw_from(2)])
next
  case (call_other w' w)
  then show ?case by (intro quiet_logged)
qed (erule stake_logged unstake_logged withdraw_reward_logged reward_logged slash_logged hard_slash_logged
      | erule (1) arrival_logged)+

section \<open>The keys of the undo log\<close>

definition previous_match :: "wire \<Rightarrow> 'r sworld_scheme \<Rightarrow> bool" where
  "previous_match wr w \<longleftrightarrow>
     (\<forall>k p acct. bm_get (previous_map w) k = Some (p, acct) \<longrightarrow> w_pk_to_bytes wr acct = k)"

lemma previous_match_record:
  "previous_match wr w \<Longrightarrow> previous_match wr (record_previous wr p acct w)"
  by (auto simp: previous_match_def record_previous_def bm_get_or_def split: if_splits option.splits)

lemma previous_match_map:
  "previous_match wr w \<Longrightarrow> previous_map w' = previous_map w \<Longrightarrow> previous_match wr w'"
  by (simp add: previous_match_def)

lemma finish_stake_previous:
  assumes "finish_stake h wr r prev s keys w = Inr w'" and "previous_match wr w"
  shows "previous_match wr w'"
  using assms
  by (auto simp: finish_stake_def intro!: previous_match_record elim: previous_match_map)

lemma slash_previous:
  assumes "slash h wr acct n w = Inr w'" and "previous_match wr w"
  shows "previous_match wr w'"
proof -
  obtain s keys where s: "bm_get (stakes_map w) (w_pk_to_bytes wr acct) = Some (s, keys)"
    using assms(1) by (rule slash_exists)
  show ?thesis
  proof (cases "sd_amount s")
    case None
    from slash_none [OF assms(1) s None] assms(2) show ?thesis by simp
  next
    case (Some a)
    show ?thesis
      by (rule slash_some [OF assms(1) s Some])
         (simp, intro conjI impI previous_match_record previous_match_map [OF assms(2)], simp_all)
  qed
qed

lemma hard_slash_previous:
  assumes "hard_slash h wr acct n sev w = Inr w'" and "previous_match wr w"
  shows "previous_match wr w'"
proof -
  obtain s keys where s: "bm_get (stakes_map w) (w_pk_to_bytes wr acct) = Some (s, keys)"
    using assms(1) by (rule hard_slash_exists)
  show ?thesis
  proof (cases "sd_amount s")
    case None
    from hard_slash_none [OF assms(1) s None] assms(2) show ?thesis by simp
  next
    case (Some a)
    show ?thesis
    proof (rule hard_slash_some [OF assms(1) s Some])
      fix hard sh el m w1 w2
      assume "w1 = set_stakes (bm_insert (w_pk_to_bytes wr acct) (hard_slashed_stake hard m el a s, keys) (stakes_map w)) w"
        and "(if m > 0 then
            res_bind (deduct_contract_balance m w1) (\<lambda>w.
            res_bind (add_chk (ss_burnt_amount (sw_stake w)) m) (\<lambda>b. Inr (set_burnt_amount b w)))
          else Inr w1) = Inr w2"
        and w': "w' = record_previous wr (Some s) acct
          (emit (HardSlashEvent \<lparr>sl_account = acct, sl_value = m, sl_next_eligibility = el\<rparr>) w2)"
      then have "previous_map w2 = previous_map w"
        by (auto dest: deduct_stake(1) split: if_splits)
      then show ?thesis unfolding w' by (intro previous_match_record previous_match_map [OF assms(2)]) simp
    qed
  qed
qed

definition previous_kept :: "wire \<Rightarrow> 'r sworld_scheme \<Rightarrow> 'r sworld_scheme \<Rightarrow> bool" where
  "previous_kept wr w w' \<longleftrightarrow> (previous_match wr w \<longrightarrow> previous_match wr w')"

lemma previous_kept_runs: "(\<lambda>u v. S u v \<and> previous_kept wr u v)\<^sup>*\<^sup>* w w' \<Longrightarrow> previous_kept wr w w'"
  by (erule related_run) (auto simp: previous_kept_def)

lemma stake_previous:
  assumes "stake h wr r w = Inr w'"
  shows "previous_kept wr w w'"
proof (rule stake_ok [OF assms])
  fix s w1 w2
  assume load: "load_or_create_stake_mut wr (st_keys r) w = Inr ((s, st_keys r), w1)"
    and dep: "transfer_deposit (Some STAKE_CONTRACT) (st_value r) w1 = Inr w2"
    and fin: "finish_stake h wr r (get_stake wr (sk_account (st_keys r)) w) s (st_keys r) w2 = Inr w'"
  have "previous_map w1 = previous_map w" using load by (rule load_or_create_ok)
  with deposit_stake(1) [OF dep] have "previous_map w2 = previous_map w" by simp
  then show ?thesis
    unfolding previous_kept_def using finish_stake_previous [OF fin] previous_match_map by blast
qed

lemma arrival_previous:
  assumes "credit_contract STAKE_CONTRACT v w = Inr w1" and "stake_from_contract h wr decode recv w1 = Inr w'"
  shows "previous_kept wr w w'"
proof (rule stake_from_contract_ok [OF assms(2)])
  fix r s w2
  assume load: "load_or_create_stake_mut wr (st_keys r) w1 = Inr ((s, st_keys r), w2)"
    and fin: "finish_stake h wr r (get_stake wr (sk_account (st_keys r)) w1) s (st_keys r) w2 = Inr w'"
  have "previous_map w2 = previous_map w1" using load by (rule load_or_create_ok)
  moreover have "sw_stake w1 = sw_stake w" by (rule more_stake [OF credit_contract_totals(5) [OF assms(1)]])
  ultimately have "previous_map w2 = previous_map w" by simp
  then show ?thesis
    unfolding previous_kept_def using finish_stake_previous [OF fin] previous_match_map by blast
qed

lemma unstaked_previous:
  assumes "previous_kept wr w w1"
  shows "previous_kept wr w (record_previous wr p acct (store_unstaked k s keys a (emit e w1)))"
  using assms unfolding previous_kept_def
  by (auto intro!: previous_match_record elim: previous_match_map simp: store_unstaked_frame)

lemma rewarded_previous:
  assumes "previous_kept wr w w1"
  shows "previous_kept wr w (store_rewarded k s keys r (emit e w1))"
  using assms unfolding previous_kept_def by (auto elim: previous_match_map simp: store_rewarded_frame)

lemma previous_kept_stake: "sw_stake w' = sw_stake w \<Longrightarrow> previous_kept wr w w'"
  by (simp add: previous_kept_def previous_match_def)

lemma paid_previous:
  assumes "sw_stake v1 = sw_stake w" and "previous_kept wr v1 v2" and "w1 = emit ev v2"
  shows "previous_kept wr w w1"
proof -
  have "previous_kept wr w v1" by (rule previous_kept_stake [OF assms(1)])
  moreover have "previous_kept wr v2 w1" by (rule previous_kept_stake) (simp add: assms(3))
  ultimately show ?thesis using assms(2) by (simp add: previous_kept_def)
qed

lemma stake_call_previous: "stake_call h wr decode w w' \<Longrightarrow> previous_kept wr w w'"
proof (induction rule: stake_call.induct)
  case (call_unstake u w w')
  then show ?case
    by (elim unstake_ok) (simp, rule unstaked_previous, erule previous_kept_stake [OF withdraw_stake(1)])
next
  case (call_unstake_from x caller uc w w')
  note callee = previous_kept_runs [OF call_unstake_from(2)]
  from call_unstake_from(1) show ?case
    by (elim unstake_from_contract_ok)
       (simp, rule unstaked_previous, erule to_contract_called [where R = "previous_kept wr", OF _ callee],
        assumption, erule (2) paid_previous)
next
  case (call_withdraw u w w')
  then show ?case
    by (elim withdraw_reward_ok) (simp, rule rewarded_previous, erule previous_kept_stake [OF mint_stake(1)])
next
  case (call_withdraw_from x caller uc w w')
  note callee = previous_kept_runs [OF call_withdraw_from(2)]
  from call_withdraw_from(1) show ?case
    by (elim withdraw_from_contract_ok)
       (simp, rule rewarded_previous, erule mint_to_contract_called [where R = "previous_kept wr", OF _ callee],
        assumption, erule (2) paid_previous)
next
  case (call_reward rs w w')
  from reward_frame(3) [OF this] show ?case by (simp add: previous_kept_def previous_match_def)
next
  case (call_other w' w)
  from call_other(1) show ?case by (rule previous_kept_stake)
qed (erule stake_previous | erule (1) arrival_previous
      | simp add: previous_kept_def slash_previous hard_slash_previous)+

text \<open>Calls are steps of the contract, so the undo log is right after any number of them.\<close>

lemma stake_call_step: "stake_call h wr decode w w' \<Longrightarrow> stake_step h wr decode w w'"
proof (induction rule: stake_call.induct)
  case (call_unstake_from x caller uc w w')
  show ?case
    by (rule step_unstake_from [OF call_unstake_from(1)])
       (rule rtranclp_mono [THEN predicate2D, OF _ call_unstake_from(2)], auto)
next
  case (call_withdraw_from x caller uc w w')
  show ?case
    by (rule step_withdraw_from [OF call_withdraw_from(1)])
       (rule rtranclp_mono [THEN predicate2D, OF _ call_withdraw_from(2)], auto)
next
  case (call_stake r w w')
  then show ?case by (intro step_stake [where bh = "h_block_height h"]) simp
next
  case (call_from_contract recv w w1 w')
  then show ?case by (intro step_from_contract [where bh = "h_block_height h"]) simp_all
next
  case (call_unstake u w w')
  then show ?case by (intro step_unstake [where bh = "h_block_height h"]) simp
next
  case (call_withdraw u w w')
  then show ?case by (intro step_withdraw [where bh = "h_block_height h"]) simp
next
  case (call_slash acct n w w')
  then show ?case by (intro step_slash [where bh = "h_block_height h"]) simp
next
  case (call_hard_slash acct n sev w w')
  then show ?case by (intro step_hard_slash [where bh = "h_block_height h"]) simp
qed (blast intro: step_reward step_other)+

lemma stake_calls_steps: "(stake_call h wr decode)\<^sup>*\<^sup>* w w' \<Longrightarrow> (stake_step h wr decode)\<^sup>*\<^sup>* w w'"
  by (rule rtranclp_mono [THEN predicate2D]) (auto intro: stake_call_step)

lemma stake_calls_logged: "(stake_call h wr decode)\<^sup>*\<^sup>* w w' \<Longrightarrow> logged wr (h_block_height h) w w'"
  by (induction rule: rtranclp_induct) (auto intro: logged_trans stake_call_logged)

lemma stake_calls_previous: "(stake_call h wr decode)\<^sup>*\<^sup>* w w' \<Longrightarrow> previous_match wr w \<Longrightarrow> previous_match wr w'"
  by (induction rule: rtranclp_induct) (auto dest: stake_call_previous simp: previous_kept_def)

end
