(* ===== verification/Node_Stakes.thy ===== *)
theory Node_Stakes
  imports Node_Block Stake_Events
begin

text \<open>
  Blocks and stakes.  The locale \<open>block_relation\<close> lifts a relation that the calls of the two contracts satisfy
  to the execution of a whole block, as \<^verbatim>\<open>rusk/src/lib/node/rusk.rs\<close> does it.  It is used twice: for the step
  relation of the stake contract, through which solvency and the undo log carry over to blocks, and for the
  calls that are logged by events.  The locales \<open>genesis_node\<close> and \<open>genesis_block\<close> state what is relied on of the
  contracts that are not part of the repository: they reach the stake contract through its entry points only.
\<close>

definition reaches ::
    "'r sworld_scheme rusk \<Rightarrow> genesis_codec \<Rightarrow> 'r sworld_scheme \<Rightarrow> 'r sworld_scheme \<Rightarrow> bool" where
  "reaches rk gc = (stake_step (rk_host rk) (rk_wire rk) (gc_stake gc))\<^sup>*\<^sup>*"

lemma reaches_refl [intro, simp]: "reaches rk gc w w"
  by (simp add: reaches_def)

lemma reaches_trans: "reaches rk gc u v \<Longrightarrow> reaches rk gc v w \<Longrightarrow> reaches rk gc u w"
  unfolding reaches_def by (rule rtranclp_trans)

lemma reaches_step:
  "stake_step (rk_host rk) (rk_wire rk) (gc_stake gc) w w' \<Longrightarrow> reaches rk gc w w'"
  unfolding reaches_def by (rule r_into_rtranclp)

text \<open>Anything that leaves the stakes and all contract balances alone is a step.\<close>

lemma reaches_frame:
  assumes "tworld.more w' = tworld.more w" and "balances w' = balances w"
  shows "reaches rk gc w w'"
  by (rule reaches_step, rule step_other)
     (simp_all add: more_stake [OF assms(1)] assms(2) stake_balance_def contract_balance_def)

text \<open>What does not concern the stakes at all.\<close>

definition quiet :: "'r sworld_scheme \<Rightarrow> 'r sworld_scheme \<Rightarrow> bool" where
  "quiet w w' \<longleftrightarrow>
     tworld.more w' = tworld.more w \<and> balances w' = balances w \<and> stake_log w' = stake_log w"

lemma quiet_emit: "quiet w u \<Longrightarrow> \<not> from_stake e \<Longrightarrow> quiet w (emit e u)"
  by (simp add: quiet_def)

lemma quiet_put_transaction: "put_transaction tx w = Inr w' \<Longrightarrow> quiet w w'"
  by (erule put_transaction_ok) (auto simp: quiet_def stake_log_def)

lemma quiet_credit_account: "credit_account k v w = Inr w' \<Longrightarrow> quiet w w'"
  by (auto simp: quiet_def credit_account_def set_accounts_def Let_def stake_log_def)

lemma quiet_push_note: "quiet w (snd (push_note_current_height h n w))"
  by (simp add: quiet_def push_note_current_height_def push_note_def split_beta)

lemma quiet_refund:
  assumes "refund h gas w = Inr w'"
  shows "quiet w w'"
proof -
  obtain og where og: "tw_current_tx w = Some og"
    using assms by (auto simp: refund_def take_ongoing_def)
  let ?w = "w\<lparr>tw_current_tx := None\<rparr>"
  have cleared: "quiet w u" if "quiet ?w u" for u
    using that by (simp add: quiet_def stake_log_def)
  show ?thesis
  proof (cases "og_tx og")
    case (Phoenix tx)
    with assms og show ?thesis
      by (auto simp: refund_def take_ongoing_def Let_def split_beta intro!: cleared quiet_emit quiet_push_note)
  next
    case (Moonlight tx)
    with assms og show ?thesis
      by (auto simp: refund_def take_ongoing_def Let_def intro!: cleared quiet_emit dest!: quiet_credit_account)
  qed
qed

lemma quiet_mint_withdrawal: "mint_withdrawal h wr fn d w = Inr w' \<Longrightarrow> quiet w w'"
  by (auto simp: mint_withdrawal_def Let_def intro: quiet_credit_account quiet_push_note
      split: withdraw_receiver.splits withdraw_signature.splits if_splits)

lemma quiet_spend_moonlight:
  assumes "spend_moonlight h wr tx w = Inr w'"
  shows "quiet w w'"
proof -
  have "stake_log w' = stake_log w"
    by (rule spend_moonlight_ok [OF assms]) (auto dest!: credit_log(2) split: if_splits)
  with spend_moonlight_frame [OF assms] show ?thesis by (simp add: quiet_def)
qed

lemma quiet_spend_phoenix:
  assumes "spend_phoenix h pw tx w = Inr w'"
  shows "quiet w w'"
proof -
  obtain ns w0 where "stake_log w0 = stake_log w" and fold: "res_fold transitory_push_note ns w0 = Inr w'"
    using assms
    by (simp add: spend_phoenix_def split_beta Let_def split: if_splits)
       (elim exE conjE, erule that [rotated], simp add: stake_log_def)
  moreover have "stake_log w' = stake_log w0"
    using fold by (rule res_fold_invariant [where P = "\<lambda>u. stake_log u = stake_log w0"])
      (auto simp: transitory_push_note_def stake_log_def split: option.splits)
  ultimately show ?thesis using assms by (auto simp: quiet_def elim: spend_phoenix_ok)
qed

lemma quiet_convert:
  assumes "convert h wr caller d w = Inr w'"
  shows "quiet w w'"
proof -
  have taken: "quiet w (set_deposit x u)" if "quiet w u" for x u
    using that by (simp add: quiet_def)
  from assms show ?thesis by (auto elim!: convert_ok intro!: quiet_emit taken dest: quiet_mint_withdrawal)
qed

lemma vm_call_Inr [simp]: "vm_call r = Inr w \<longleftrightarrow> r = Inr w"
  by (auto simp: vm_call_def split: sum.splits panic.splits)

lemma end_of_block_ok:
  assumes "reward_slash_and_update_root rk bh spent generator slashing voters w = Inr w'"
  obtains w1 w2 where
    "reward (rk_wire rk) (block_rewards (rk_dusk_key rk) (rk_inner rk) bh spent generator voters) w = Inr w1"
    and "res_fold (slash_one rk bh) slashing w1 = Inr w2" and "w' = update_root (host_at rk bh) w2"
  using assms
  by (auto simp: reward_slash_and_update_root_def entry_reward_def entry_update_root_def Let_def
      split: if_splits intro: that)

section \<open>A relation kept by a block\<close>

locale block_relation =
  fixes rk :: "'r sworld_scheme rusk" and gc :: genesis_codec and other :: "'r sworld_scheme ext" and bh :: u64
    and R :: "'r sworld_scheme \<Rightarrow> 'r sworld_scheme \<Rightarrow> bool"
  assumes contracts: "rk_ext rk (host_at rk bh) = genesis_ext (host_at rk bh) (rk_wire rk) gc other"
    and R_refl: "R w w"
    and R_trans: "R u v \<Longrightarrow> R v w \<Longrightarrow> R u w"
    and R_quiet: "quiet w w' \<Longrightarrow> R w w'"
    and R_stake: "stake (host_at rk bh) (rk_wire rk) a w = Inr w' \<Longrightarrow> R w w'"
    and R_unstake: "unstake (host_at rk bh) (rk_wire rk) b w = Inr w' \<Longrightarrow> R w w'"
    and R_withdraw: "withdraw_reward (host_at rk bh) (rk_wire rk) b w = Inr w' \<Longrightarrow> R w w'"
    and R_reward: "reward (rk_wire rk) rs w = Inr w' \<Longrightarrow> R w w'"
    and R_slash: "slash (host_at rk bh) (rk_wire rk) acct n w = Inr w' \<Longrightarrow> R w w'"
    and R_other: "x_call_raw other c f args w = (r, w') \<Longrightarrow> R w w'"
    and R_deploy: "vm_deploy_raw (rk_vm rk) c bs init owner gas w = Inr w' \<Longrightarrow> R w w'"
begin

lemma raw_call_related:
  assumes "raw_call arg f w = (r, w')" and "\<And>a. f a w = Inr w' \<Longrightarrow> R w w'"
  shows "R w w'"
  using assms(1) by (rule raw_call_cases) (auto intro: assms(2) R_refl)

lemma genesis_call_related:
  assumes "x_call_raw (genesis_ext (host_at rk bh) (rk_wire rk) gc other) c f args w = (r, w')"
  shows "R w w'"
proof -
  have s: "entry_stake (host_at rk bh) (rk_wire rk) (Some TRANSFER_CONTRACT) a w = Inr w' \<Longrightarrow> R w w'"
    for a by (auto simp: entry_stake_def intro: R_stake)
  have u: "entry_unstake (host_at rk bh) (rk_wire rk) (Some TRANSFER_CONTRACT) a w = Inr w' \<Longrightarrow> R w w'"
    for a by (auto simp: entry_unstake_def intro: R_unstake)
  have wd: "entry_withdraw (host_at rk bh) (rk_wire rk) (Some TRANSFER_CONTRACT) a w = Inr w' \<Longrightarrow> R w w'"
    for a by (auto simp: entry_withdraw_def intro: R_withdraw)
  have cv: "convert (host_at rk bh) (rk_wire rk) (Some TRANSFER_CONTRACT) a w = Inr w' \<Longrightarrow> R w w'"
    for a by (rule R_quiet [OF quiet_convert])
  show ?thesis
    using assms
    by (auto simp: genesis_ext_def split: if_splits
        intro: s u wd cv R_other elim!: raw_call_related)
qed

lemma spend_related:
  assumes "spend_and_execute (host_at rk bh) (rk_wire rk) pw (rk_ext rk (host_at rk bh)) tx w = Inr (res, w')"
  shows "R w w'"
proof (rule spend_and_execute_ok [OF assms])
  fix w0 ws
  assume put: "put_transaction tx w = Inr w0"
    and spend: "case tx of Phoenix t \<Rightarrow> spend_phoenix (host_at rk bh) pw t w0 = Inr ws
         | Moonlight t \<Rightarrow> spend_moonlight (host_at rk bh) (rk_wire rk) t w0 = Inr ws"
    and call: "w' = ws \<or> (\<exists>c f a. x_call_raw (rk_ext rk (host_at rk bh)) c f a ws = (res, w'))"
  have "R w0 ws"
  proof (cases tx)
    case (Phoenix t)
    with spend show ?thesis by (auto intro!: R_quiet quiet_spend_phoenix)
  next
    case (Moonlight t)
    with spend show ?thesis by (auto intro!: R_quiet quiet_spend_moonlight)
  qed
  moreover have "R ws w'"
    using call genesis_call_related R_refl by (auto simp: contracts)
  ultimately show ?thesis
    using R_quiet [OF quiet_put_transaction [OF put]] R_trans by blast
qed

lemma deploy_related:
  assumes "vm_contract_deploy (rk_vm rk) tx g m receipt w = (receipt', w')"
  shows "R w w'"
  using assms R_deploy R_refl
  by (cases "tx_deploy tx") (auto simp: vm_contract_deploy_def Let_def split: if_splits sum.splits)

lemma run_tx_related:
  assumes "run_tx rk bh tx w = Inr (receipt, w')"
  shows "R w w'"
proof (rule execute_ok [OF assms [unfolded run_tx_def]])
  fix st gas data w1 r w2
  assume spend: "spend_and_execute (host_at rk bh) (rk_wire rk) (rk_phoenix rk) (rk_ext rk (host_at rk bh)) st w = Inr (data, w1)"
    and deploy: "vm_contract_deploy (rk_vm rk) (lt_inner tx) (rk_gas_per_deploy_byte rk) (rk_min_deploy_points rk)
       \<lparr>cr_data = data, cr_gas_spent = gas, cr_gas_limit = tx_gas_limit (lt_inner tx)\<rparr> w1 = (r, w2)"
    and refund: "refund (host_at rk bh) (cr_gas_spent receipt) w2 = Inr w'"
  show ?thesis
    by (rule R_trans [OF spend_related [OF spend] R_trans [OF deploy_related [OF deploy] R_quiet [OF quiet_refund [OF refund]]]])
qed

lemma accept_txs_related:
  assumes "accept_txs rk bh txs a = Inr a'"
  shows "R (ac_session a) (ac_session a')"
  using assms
proof (induction txs arbitrary: a)
  case (Cons tx txs)
  then obtain receipt session a1 where "run_tx rk bh tx (ac_session a) = Inr (receipt, session)"
    and "accept_txs rk bh txs a1 = Inr a'" and "ac_session a1 = session"
    by (auto simp: Let_def split: sum.splits execute_error.splits if_splits)
  with Cons.IH [of a1] R_trans [OF run_tx_related] show ?case by blast
qed (simp add: R_refl)

lemma slashes_related: "res_fold (slash_one rk bh) ss w = Inr w' \<Longrightarrow> R w w'"
proof (erule res_fold_invariant [where P = "R w"])
  fix s u v
  assume wu: "R w u" and "slash_one rk bh s u = Inr v"
  then have "R u v"
    by (auto simp: slash_one_def entry_slash_def Let_def split: slash_type.splits intro: R_slash)
  with wu show "R w v" by (rule R_trans)
qed (rule R_refl)

lemma end_of_block_related:
  assumes "reward_slash_and_update_root rk bh spent generator slashing voters w = Inr w'"
  shows "R w w'"
proof (rule end_of_block_ok [OF assms])
  fix w1 w2
  assume "reward (rk_wire rk) (block_rewards (rk_dusk_key rk) (rk_inner rk) bh spent generator voters) w = Inr w1"
    and "res_fold (slash_one rk bh) slashing w1 = Inr w2" and "w' = update_root (host_at rk bh) w2"
  moreover have "R w2 (update_root (host_at rk bh) w2)"
    by (rule R_quiet) (simp add: quiet_def, simp add: update_root_def)
  ultimately show ?thesis
    using slashes_related R_reward R_trans by metis
qed

lemma accept_related:
  assumes "accept rk session bh limit generator txs slashing voters = Inr (spent, out, w')"
  shows "R session w'"
proof -
  obtain a where a: "accept_txs rk bh txs
      \<lparr>ac_session = session, ac_gas_left = limit, ac_spent = [], ac_dusk_spent = 0, ac_bloom = bloom_new\<rparr> = Inr a"
    and fin: "finish_block rk bh (ac_dusk_spent a) (ac_bloom a) generator slashing voters (ac_session a) = Inr (out, w')"
    using assms by (auto simp: accept_def)
  have "reward_slash_and_update_root rk bh (ac_dusk_spent a) generator slashing voters (ac_session a) = Inr w'"
    using fin by (auto simp: finish_block_def)
  from end_of_block_related [OF this] accept_txs_related [OF a] R_trans show ?thesis by fastforce
qed

end

section \<open>Steps of the stake contract\<close>

locale genesis_node =
  fixes rk :: "'r sworld_scheme rusk" and gc :: genesis_codec and other :: "'r sworld_scheme ext"
  assumes contracts: "rk_ext rk = (\<lambda>h. genesis_ext h (rk_wire rk) gc other)"
    and other_calls: "x_call_raw other c f args w = (r, w') \<Longrightarrow> reaches rk gc w w'"
    and deploys: "vm_deploy_raw (rk_vm rk) c bs init owner gas w = Inr w' \<Longrightarrow> reaches rk gc w w'"

sublocale genesis_node \<subseteq> reach: block_relation rk gc other bh "reaches rk gc" for bh
proof
  show "rk_ext rk (host_at rk bh) = genesis_ext (host_at rk bh) (rk_wire rk) gc other" by (simp add: contracts)
qed (auto simp: quiet_def host_at_def
    intro: reaches_trans reaches_frame other_calls deploys reaches_step stake_step.intros)

context genesis_node
begin

lemma accept_reaches:
  "accept rk session bh limit generator txs slashing voters = Inr (spent, out, w') \<Longrightarrow> reaches rk gc session w'"
  by (rule reach.accept_related)

end

lemma reaches_solvent:
  assumes "reaches rk gc w w'" and "solvent w"
  shows "solvent w'"
proof (rule covered_solvent [OF _ assms(2)])
  show "covered w w'"
    using assms(1) unfolding reaches_def
    by (induction rule: rtranclp_induct) (auto intro: covered_trans step_covered)
qed

lemma reaches_undo:
  assumes "reaches rk gc (on_new_block w) w'"
  shows "block_start_amount k w' = amount_at k w"
  using assms unfolding reaches_def by (rule steps_undo)

lemma new_block_session_world:
  assumes "new_block_session rk tip commit = Inr session" and "rk_store rk tip = Some w"
  shows "session = on_new_block w"
  using assms
  by (auto simp: new_block_session_def open_session_def entry_before_state_transition_def
      split: if_splits sum.splits)

text \<open>
  C8: Accepting a block keeps the stakes backed.  From a committed state in which the stakes are covered
  by the stake contract's balance, the state stored for the new commit is covered as well, and its undo
  log gives every account's stake of the previous commit: whatever the block's transactions, rewards and
  slashes did, and whatever user contracts did, which may enter the stake contract again while it pays them.  Assumed of the
  contracts that are not part of the repository, and of the constructors of those being deployed, is that what they do is a
  run of entry points of the stake contract and of steps that leave its state alone and do not spend its balance
  (\<open>genesis_node\<close>).
  A call that goes on with a dangling reference counts as failed (\<open>held_stake\<close>).
\<close>

theorem block_keeps_stakes_backed:
  assumes "genesis_node rk gc other"
    and "accept_transactions rk tip commit bh limit generator txs check slashing voters
           = Inr (spent, out, commit', rk')"
    and "rk_store rk tip = Some w" and "solvent w"
  shows "\<exists>w'. rk_store rk' commit' = Some w' \<and> solvent w' \<and>
           (\<forall>k. block_start_amount k w' = amount_at k w)"
proof -
  obtain session w' where session: "new_block_session rk tip commit = Inr session"
    and acc: "accept rk session bh limit generator txs slashing voters = Inr (spent, out, w')"
    and rk': "rk' = rk\<lparr>rk_store := (rk_store rk)(commit' \<mapsto> w')\<rparr>"
    using assms(2) by (auto simp: accept_transactions_def Let_def split: if_splits)
  have s: "session = on_new_block w" by (rule new_block_session_world [OF session assms(3)])
  have r: "reaches rk gc session w'" by (rule genesis_node.accept_reaches [OF assms(1) acc])
  have "solvent w'" by (rule reaches_solvent [OF r]) (use assms(4) in \<open>simp add: s solvent_def funds_total_def
      stake_balance_def contract_balance_def on_new_block_def\<close>)
  with reaches_undo [OF r [unfolded s]] rk' show ?thesis by simp
qed

section \<open>The log of a block\<close>

definition called ::
    "'r sworld_scheme rusk \<Rightarrow> genesis_codec \<Rightarrow> u64 \<Rightarrow> 'r sworld_scheme \<Rightarrow> 'r sworld_scheme \<Rightarrow> bool" where
  "called rk gc bh = (stake_call (host_at rk bh) (rk_wire rk) (gc_stake gc))\<^sup>*\<^sup>*"

lemma called_trans: "called rk gc bh u v \<Longrightarrow> called rk gc bh v w \<Longrightarrow> called rk gc bh u w"
  unfolding called_def by (rule rtranclp_trans)

lemma called_step:
  "stake_call (host_at rk bh) (rk_wire rk) (gc_stake gc) w w' \<Longrightarrow> called rk gc bh w w'"
  unfolding called_def by (rule r_into_rtranclp)

lemma called_quiet:
  assumes "quiet w w'"
  shows "called rk gc bh w w'"
proof (rule called_step, rule call_other)
  show "sw_stake w' = sw_stake w" using assms by (intro more_stake) (simp add: quiet_def)
qed (use assms in \<open>simp_all add: quiet_def stake_balance_def contract_balance_def\<close>)

locale genesis_block =
  fixes rk :: "'r sworld_scheme rusk" and gc :: genesis_codec and other :: "'r sworld_scheme ext" and bh :: u64
  assumes contracts: "rk_ext rk (host_at rk bh) = genesis_ext (host_at rk bh) (rk_wire rk) gc other"
    and other_calls: "x_call_raw other c f args w = (r, w') \<Longrightarrow> called rk gc bh w w'"
    and deploys: "vm_deploy_raw (rk_vm rk) c bs init owner gas w = Inr w' \<Longrightarrow> called rk gc bh w w'"

sublocale genesis_block \<subseteq> calls: block_relation rk gc other bh "called rk gc bh"
proof
  show "called rk gc bh w w" for w by (simp add: called_def)
qed (auto intro: contracts called_trans called_quiet other_calls deploys called_step stake_call.intros)

context genesis_block
begin

lemma accept_logged:
  assumes "accept rk session bh limit generator txs slashing voters = Inr (spent, out, w')"
  shows "logged (rk_wire rk) bh session w'"
  using stake_calls_logged [OF calls.accept_related [OF assms(1), unfolded called_def]] by (simp add: host_at_def)

lemma accept_previous:
  assumes "accept rk session bh limit generator txs slashing voters = Inr (spent, out, w')"
    and "previous_match (rk_wire rk) session"
  shows "previous_match (rk_wire rk) w'"
  using stake_calls_previous [OF calls.accept_related [OF assms(1), unfolded called_def] assms(2)] .

lemma accept_undo:
  assumes "accept rk (on_new_block w) bh limit generator txs slashing voters = Inr (spent, out, w')"
  shows "block_start_amount k w' = amount_at k w"
  using steps_undo [OF stake_calls_steps [OF calls.accept_related [OF assms(1), unfolded called_def]]] .

end

lemma on_new_block_logged:
  "stake_log (on_new_block w) = stake_log w" "amounts_of (on_new_block w) = amounts_of w"
  "keys_match wr (on_new_block w) = keys_match wr w"
  by simp (simp_all add: amounts_of_def amount_at_def on_new_block_def keys_match_def)

text \<open>
  C12: The events of a block are a complete log of what it did to the stakes.  The state stored for the new
  commit has, after the events of the old one, some further events of the stake contract, and replaying these
  in order on the stakes of the old commit gives the stakes of the new one, also when contracts enter the stake contract
  again while it pays them.  Assumed of the contracts that are not part of the repository, and of the constructors of those being
  deployed, is that what they do is a run of entry points of the stake contract and of steps that leave its state and its events alone
  (\<open>genesis_block\<close>), and of the old commit that every entry is filed under the account of its keys.
  A call that goes on with a dangling reference counts as failed (\<open>held_stake\<close>).
\<close>

theorem block_events_replay:
  assumes "genesis_block rk gc other bh"
    and "accept_transactions rk tip commit bh limit generator txs check slashing voters
           = Inr (spent, out, commit', rk')"
    and "rk_store rk tip = Some w" and "keys_match (rk_wire rk) w"
  shows "\<exists>w' evs. rk_store rk' commit' = Some w' \<and> keys_match (rk_wire rk) w' \<and> stake_log w' = stake_log w @ evs \<and>
           amounts_of w' = fold (replay_event (rk_wire rk) bh) evs (amounts_of w)"
proof -
  obtain session w' where session: "new_block_session rk tip commit = Inr session"
    and acc: "accept rk session bh limit generator txs slashing voters = Inr (spent, out, w')"
    and rk': "rk' = rk\<lparr>rk_store := (rk_store rk)(commit' \<mapsto> w')\<rparr>"
    using assms(2) by (auto simp: accept_transactions_def Let_def split: if_splits)
  have "session = on_new_block w" by (rule new_block_session_world [OF session assms(3)])
  with genesis_block.accept_logged [OF assms(1) acc] assms(4) rk' show ?thesis
    by (simp add: logged_def on_new_block_logged)
qed

section \<open>Slashing a provisioner who has left\<close>

text \<open>
  The entry of a provisioner who takes out the whole stake and has no rewards is removed, and slashing an
  account without an entry panics.
\<close>

lemma full_unstake_removes:
  assumes "unstake h wr u w = Inr w1" and "bm_get (stakes_map w) (w_pk_to_bytes wr (sw_account u)) = Some (s, keys)"
    and "sd_amount s = Some a" and "wd_value (sw_withdraw u) = total_funds a" and "sd_reward s = 0"
    and "amount_funds a < 2 ^ 64"
  shows "bm_get (stakes_map w1) (w_pk_to_bytes wr (sw_account u)) = None"
proof (rule unstake_ok [OF assms(1)])
  fix s' keys' a0 w2 a2 e
  assume get: "bm_get (stakes_map w) (w_pk_to_bytes wr (sw_account u)) = Some (s', keys')"
      "sd_amount s' = Some a0"
    and take: "take_from_amount keys' (wd_value (sw_withdraw u)) a0 = Inr (a2, e)"
    and w1: "w1 = record_previous wr (Some s') (sw_account u)
      (store_unstaked (w_pk_to_bytes wr (sw_account u)) s' keys' a2 (emit (UnstakeEvent e) w2))"
  then have [simp]: "s' = s" "a0 = a" using assms(2,3) by auto
  have "amount_funds a2 = 0"
    using take_from_amount_funds [OF take] total_funds_unat [OF assms(6)] assms(4) by simp
  then have "total_funds a2 = 0"
    using total_funds_unat [of a2] by (metis unat_eq_0 zero_less_power zero_less_numeral)
  then show ?thesis using assms(5) by (simp add: w1 store_unstaked_def record_previous_def)
qed

lemma rewards_leave_others:
  assumes "res_fold (reward_one wr) rs w = Inr w'" and "bm_get (stakes_map w) k = None"
    and "\<forall>r \<in> set rs. w_pk_to_bytes wr (rw_account r) \<noteq> k"
  shows "bm_get (stakes_map w') k = None"
  using assms(1,2)
proof (rule res_fold_invariant [where P = "\<lambda>w. bm_get (stakes_map w) k = None"])
  fix r u u'
  assume "r \<in> set rs" and "bm_get (stakes_map u) k = None" and "reward_one wr r u = Inr u'"
  with assms(3) show "bm_get (stakes_map u') k = None"
    by (auto simp: reward_one_def Let_def get_stake_mut_def load_or_create_stake_mut_def
        stake_keys_single_key_def split: option.splits)
qed

lemma slash_keeps_absent:
  assumes "slash_one rk bh sl w = Inr w'" and "bm_get (stakes_map w) k = None"
  shows "bm_get (stakes_map w') k = None" and "w_pk_to_bytes (rk_wire rk) (rk_inner rk (se_provisioner sl)) \<noteq> k"
proof -
  let ?acct = "rk_inner rk (se_provisioner sl)"
  have slash: "slash (host_at rk bh) (rk_wire rk) ?acct None w = Inr w'"
    using assms(1) by (auto simp: slash_one_def entry_slash_def Let_def split: slash_type.splits)
  then obtain s keys where s: "bm_get (stakes_map w) (w_pk_to_bytes (rk_wire rk) ?acct) = Some (s, keys)"
    by (rule slash_exists)
  with assms(2) show other: "w_pk_to_bytes (rk_wire rk) ?acct \<noteq> k" by auto
  show "bm_get (stakes_map w') k = None"
  proof (cases "sd_amount s")
    case None
    from slash_none [OF slash s None] assms(2) show ?thesis by simp
  next
    case (Some a)
    show ?thesis by (rule slash_some [OF slash s Some]) (use other assms(2) in auto)
  qed
qed

lemma slashing_absent_fails:
  assumes "bm_get (stakes_map w) (w_pk_to_bytes (rk_wire rk) (rk_inner rk (se_provisioner sl))) = None"
    and "sl \<in> set slashing"
  shows "\<not> is_ok (res_fold (slash_one rk bh) slashing w)"
  using assms
proof (induction slashing arbitrary: w)
  case (Cons s ss)
  show ?case
  proof (cases "slash_one rk bh s w")
    case (Inr w1)
    from slash_keeps_absent [OF Inr Cons.prems(1)] have "s \<noteq> sl" and
      "bm_get (stakes_map w1) (w_pk_to_bytes (rk_wire rk) (rk_inner rk (se_provisioner sl))) = None" by auto
    with Cons.IH Cons.prems(2) Inr show ?thesis by auto
  qed simp
qed simp

text \<open>
  C34: A block is refused when a provisioner whom it slashes has left in it.  Suppose the last thing that the block's
  transactions do to the stakes is that an account without unclaimed rewards takes out its whole stake, and none of the block's
  rewards goes to that account.  If the block slashes the account, then both verifying and accepting the block fail, for the
  generator and for everyone who verifies it, although \<open>slash\<close> means to ignore a provisioner who unstakes in the
  same block.
\<close>

theorem slash_after_unstake_rejects_block:
  assumes "new_block_session rk tip commit = Inr session"
    and "accept_txs rk bh txs \<lparr>ac_session = session, ac_gas_left = limit, ac_spent = [], ac_dusk_spent = 0,
           ac_bloom = bloom_new\<rparr> = Inr a"
    and "unstake (host_at rk bh) (rk_wire rk) u w = Inr w1" and "stakes_map (ac_session a) = stakes_map w1"
    and "get_stake (rk_wire rk) (sw_account u) w = Some s" and "sd_amount s = Some am" and "amount_funds am < 2 ^ 64"
    and "wd_value (sw_withdraw u) = total_funds am" and "sd_reward s = 0"
    and "\<forall>r \<in> set (block_rewards (rk_dusk_key rk) (rk_inner rk) bh (ac_dusk_spent a) generator voters).
           w_pk_to_bytes (rk_wire rk) (rw_account r) \<noteq> w_pk_to_bytes (rk_wire rk) (sw_account u)"
    and "sl \<in> set slashing" and "rk_inner rk (se_provisioner sl) = sw_account u"
  shows "\<not> is_ok (verify_transactions rk tip commit bh limit generator txs slashing voters)
       \<and> \<not> is_ok (accept_transactions rk tip commit bh limit generator txs check slashing voters)"
proof -
  let ?k = "w_pk_to_bytes (rk_wire rk) (sw_account u)"
  obtain keys where get: "bm_get (stakes_map w) ?k = Some (s, keys)"
    using assms(5) by (auto simp: get_stake_def)
  have gone: "bm_get (stakes_map (ac_session a)) ?k = None"
    using full_unstake_removes [OF assms(3) get assms(6,8,9,7)] assms(4) by simp
  have "\<not> is_ok (reward_slash_and_update_root rk bh (ac_dusk_spent a) generator slashing voters (ac_session a))"
  proof
    assume "is_ok (reward_slash_and_update_root rk bh (ac_dusk_spent a) generator slashing voters (ac_session a))"
    then obtain w2 w3 where
      rw: "reward (rk_wire rk) (block_rewards (rk_dusk_key rk) (rk_inner rk) bh (ac_dusk_spent a) generator voters)
             (ac_session a) = Inr w2"
      and sl: "res_fold (slash_one rk bh) slashing w2 = Inr w3"
      by (auto simp: is_ok_iff elim!: end_of_block_ok)
    have "bm_get (stakes_map w2) ?k = None"
      using rw rewards_leave_others [OF _ gone assms(10)] by (auto simp: reward_def split: if_splits)
    with slashing_absent_fails [of w2 rk sl slashing bh] assms(11,12) sl show False by simp
  qed
  then show ?thesis
    using assms(1,2)
    by (auto simp: verify_transactions_def accept_transactions_def accept_def finish_block_def is_ok_iff Let_def
        split: if_splits)
qed

section \<open>Concrete blocks\<close>

interpretation node0: genesis_node rk0 gc0 ext0
  by unfold_locales (auto simp: rk0_def ext0_def vm0_def)

lemma block0_accepted:
  "\<exists>spent out commit' rk'. accept_transactions rk0 [1] [1] 5000 100 (BlsPublicKey 9) [tx0] None [] []
     = Inr (spent, out, commit', rk')"
proof -
  obtain receipt w where run: "run_tx rk0 5000 tx0 (on_new_block staking_world) = Inr (receipt, w)"
    and gas: "cr_gas_spent receipt = 4"
    and st: "\<forall>k. k \<noteq> w_pk_to_bytes wire0 pk7 \<longrightarrow> bm_get (stakes_map w) k = None"
    using tx0_runs by auto
  have "is_ok (reward_slash_and_update_root rk0 5000 spent (BlsPublicKey 9) [] [] w)" for spent
    using st by (intro rewards0_ok) (simp_all add: wire0_pk_inj pk7_def)
  then obtain w' where "reward_slash_and_update_root rk0 5000 (4 * tx_gas_price (lt_inner tx0))
      (BlsPublicKey 9) [] [] w = Inr w'" by (meson is_okE)
  moreover have "new_block_session rk0 [1] [1] = Inr (on_new_block staking_world)"
    by (simp add: new_block_session_def open_session_def rk0_def entry_before_state_transition_def
        assert_external_caller_def)
  ultimately show ?thesis
    using run gas by (simp add: accept_transactions_def accept_def finish_block_def Let_def)
qed

lemma staking_world_solvent: "solvent staking_world"
  using stake_world_solvent
  by (simp add: staking_world_def solvent_def funds_total_def stake_balance_def contract_balance_def)

end
