(* ===== verification/Node_Witness.thy ===== *)
theory Node_Witness
  imports Node_Stakes
begin

text \<open>
  Concrete blocks: one in which a contract enters the stake contract again while it is being paid, one in which a
  provisioner leaves and is slashed, and the execution of a transaction that stakes.
\<close>

section \<open>A contract that enters again\<close>

text \<open>
  The contract \<open>reserved 3\<close> owns a stake.  When a transaction calls it, it unstakes 40, and when it is called with the
  payment it unstakes another 60.
\<close>

definition payer :: "sworld ext" where
  "payer =
     \<lparr>x_call = \<lambda>_ _ _ w. Inr w,
      x_call_raw = \<lambda>_ _ _. raw_call (Some (take_out 40)) (unstake_from_contract wire0 entering_again (Some (reserved 3)))\<rparr>"

definition paying_world :: sworld where
  "paying_world = set_stakes (stakes_map contract_world) staking_world"

definition paying_tx :: ledger_tx where
  "paying_tx = tx0\<lparr>lt_inner := Moonlight (sample_moonlight\<lparr>mt_payload := sample_payload\<lparr>mp_data :=
     Some (Call \<lparr>cc_contract = reserved 3, cc_fn_name = str_bytes ''pay'', cc_fn_args = []\<rparr>)\<rparr>\<rparr>)\<rparr>"

definition rk_paying :: "sworld rusk" where
  "rk_paying = rk0\<lparr>rk_ext := \<lambda>h. genesis_ext h wire0 gc0 payer,
     rk_store := \<lambda>c. if c = [1] then Some paying_world else None\<rparr>"

lemma payer_steps:
  assumes "x_call_raw payer c f args w = (r, w')"
  shows "stake_step host0 wire0 d w w' \<or> w' = w"
proof -
  have inner: "(stake_step host0 wire0 d)\<^sup>*\<^sup>* u v" if "x_call entering_again c f a u = Inr v" for c f a u v
    using that unfolding entering_again_def
    by (intro r_into_rtranclp) (rule step_unstake_from, auto simp: ext0_def)
  show ?thesis
    using assms unfolding payer_def
    by (auto elim!: raw_call_cases intro: step_unstake_from [OF _ inner])
qed

interpretation paying: genesis_node rk_paying gc0 payer
proof
  fix c f args and w w' :: sworld and r
  assume "x_call_raw payer c f args w = (r, w')"
  from payer_steps [OF this, of "gc_stake gc0"] show "reaches rk_paying gc0 w w'"
    by (auto simp: rk_paying_def rk0_def intro: reaches_step)
qed (auto simp: rk_paying_def rk0_def vm0_def)

lemma paying_runs:
  "\<exists>receipt w. run_tx rk_paying 5000 paying_tx (on_new_block paying_world) = Inr (receipt, w) \<and>
     cr_gas_spent receipt = 4 \<and>
     (\<forall>k. bm_get (stakes_map w) k = (if k = w_pk_to_bytes wire0 pk7 then
         Some (sample_stake\<lparr>sd_amount := Some \<lparr>am_value = 2900, am_locked = 500, am_eligibility = 100\<rparr>\<rparr>,
               contract_keys) else None))"
  by (simp add: paying_world_def paying_tx_def rk_paying_def payer_def host_at_def block_sample_defs
      contract_sample_defs keys_single)

lemma paying_block:
  "\<exists>spent out commit' rk'. accept_transactions rk_paying [1] [1] 5000 100 (BlsPublicKey 9) [paying_tx] None [] []
     = Inr (spent, out, commit', rk')"
proof -
  obtain receipt w where run: "run_tx rk_paying 5000 paying_tx (on_new_block paying_world) = Inr (receipt, w)"
    and gas: "cr_gas_spent receipt = 4"
    and st: "\<forall>k. k \<noteq> w_pk_to_bytes wire0 pk7 \<longrightarrow> bm_get (stakes_map w) k = None"
    using paying_runs by auto
  have same: "reward_slash_and_update_root rk_paying 5000 spent (BlsPublicKey 9) [] [] w =
      reward_slash_and_update_root rk0 5000 spent (BlsPublicKey 9) [] [] w" for spent
    by (simp add: reward_slash_and_update_root_def rk_paying_def host_at_def)
  have "is_ok (reward_slash_and_update_root rk0 5000 spent (BlsPublicKey 9) [] [] w)" for spent
    using st by (intro rewards0_ok) (simp_all add: wire0_pk_inj pk7_def)
  then obtain w' where "reward_slash_and_update_root rk_paying 5000 (4 * tx_gas_price (lt_inner paying_tx))
      (BlsPublicKey 9) [] [] w = Inr w'" unfolding same by (meson is_okE)
  moreover have "new_block_session rk_paying [1] [1] = Inr (on_new_block paying_world)"
    by (simp add: new_block_session_def open_session_def rk_paying_def entry_before_state_transition_def
        assert_external_caller_def)
  ultimately show ?thesis
    using run gas by (simp add: accept_transactions_def accept_def finish_block_def Let_def)
qed

lemma paying_world_solvent: "solvent paying_world"
  using contract_world_solvent
  by (simp add: paying_world_def staking_world_def contract_world_def solvent_def funds_total_def stake_balance_def
      contract_balance_def)

theorem block_keeps_stakes_backed_witness:
  "\<exists>spent out commit' rk' w'.
     accept_transactions rk_paying [1] [1] 5000 100 (BlsPublicKey 9) [paying_tx] None [] [] = Inr (spent, out, commit', rk') \<and>
     rk_store rk' commit' = Some w' \<and> solvent w' \<and>
     block_start_amount (w_pk_to_bytes wire0 pk7) w' = Some \<lparr>am_value = 3000, am_locked = 500, am_eligibility = 100\<rparr>"
proof -
  obtain spent out commit' rk' where ok:
    "accept_transactions rk_paying [1] [1] 5000 100 (BlsPublicKey 9) [paying_tx] None [] [] = Inr (spent, out, commit', rk')"
    using paying_block by auto
  have store: "rk_store rk_paying [1] = Some paying_world" by (simp add: rk_paying_def)
  have "amount_at (w_pk_to_bytes wire0 pk7) paying_world =
      Some \<lparr>am_value = 3000, am_locked = 500, am_eligibility = 100\<rparr>"
    by (simp add: paying_world_def contract_world_def amount_at_def sample_stake_def)
  with block_keeps_stakes_backed [OF paying.genesis_node_axioms ok store paying_world_solvent] ok
  show ?thesis by metis
qed

lemma payer_calls:
  assumes "x_call_raw payer c f args w = (r, w')"
  shows "stake_call h wire0 d w w' \<or> w' = w"
proof -
  have inner: "(stake_call h wire0 d)\<^sup>*\<^sup>* u v" if "x_call entering_again c f a u = Inr v" for c f a u v
    using that unfolding entering_again_def
    by (intro r_into_rtranclp) (rule call_unstake_from, auto simp: ext0_def)
  show ?thesis
    using assms unfolding payer_def
    by (auto elim!: raw_call_cases intro: call_unstake_from [OF _ inner])
qed

interpretation paying_calls: genesis_block rk_paying gc0 payer 5000
proof
  fix c f args and w w' :: sworld and r
  assume "x_call_raw payer c f args w = (r, w')"
  from payer_calls [OF this, of "host_at rk_paying 5000" "gc_stake gc0"] show "called rk_paying gc0 5000 w w'"
    by (auto simp: rk_paying_def rk0_def called_def)
qed (auto simp: rk_paying_def rk0_def vm0_def called_def)

theorem block_events_replay_witness:
  "\<exists>spent out commit' rk' w' evs.
     accept_transactions rk_paying [1] [1] 5000 100 (BlsPublicKey 9) [paying_tx] None [] [] = Inr (spent, out, commit', rk') \<and>
     rk_store rk' commit' = Some w' \<and> stake_log w' = stake_log paying_world @ evs \<and>
     amounts_of w' = fold (replay_event wire0 5000) evs (amounts_of paying_world)"
proof -
  obtain spent out commit' rk' where ok:
    "accept_transactions rk_paying [1] [1] 5000 100 (BlsPublicKey 9) [paying_tx] None [] [] = Inr (spent, out, commit', rk')"
    using paying_block by auto
  have store: "rk_store rk_paying [1] = Some paying_world" and wr: "rk_wire rk_paying = wire0"
    by (simp_all add: rk_paying_def rk0_def)
  have "keys_match wire0 paying_world"
    by (simp add: keys_match_def paying_world_def contract_world_def contract_keys_def)
  from block_events_replay [OF paying_calls.genesis_block_axioms ok store, unfolded wr, OF this] ok
  show ?thesis by blast
qed

section \<open>A provisioner who leaves and is slashed\<close>

text \<open>A transaction that calls \<open>unstake\<close> runs it; what is done before and after leaves the stakes alone.\<close>

lemma unstake_tx_runs:
  fixes w w' :: "'r sworld_scheme"
  assumes "run_tx rk bh tx w = Inr (receipt, w')" and "is_ok (cr_data receipt)" and "lt_inner tx = Moonlight t"
    and "mt_deploy t = None" and "tx_call (Moonlight t) = Some cc" and "cc_contract cc = STAKE_CONTRACT"
    and "cc_fn_name cc = str_bytes ''unstake''" and "gc_withdraw gc (cc_fn_args cc) = Some u"
    and "rk_ext rk (host_at rk bh) = genesis_ext (host_at rk bh) (rk_wire rk) gc other"
  obtains v v1 :: "'r sworld_scheme" where "unstake (host_at rk bh) (rk_wire rk) u v = Inr v1"
    and "sw_stake v = sw_stake w" and "sw_stake w' = sw_stake v1"
proof (rule execute_ok [OF assms(1) [unfolded run_tx_def]])
  fix st gas data w1 r w2
  assume "st = (case tx_strip_off_bytecode (lt_inner tx) of Some t \<Rightarrow> t | None \<Rightarrow> lt_inner tx)"
    and spend: "spend_and_execute (host_at rk bh) (rk_wire rk) (rk_phoenix rk) (rk_ext rk (host_at rk bh)) st w = Inr (data, w1)"
    and deploy: "vm_contract_deploy (rk_vm rk) (lt_inner tx) (rk_gas_per_deploy_byte rk) (rk_min_deploy_points rk)
       \<lparr>cr_data = data, cr_gas_spent = gas, cr_gas_limit = tx_gas_limit (lt_inner tx)\<rparr> w1 = (r, w2)"
    and receipt: "receipt = (if is_ok (cr_data r) then r else r\<lparr>cr_gas_spent := cr_gas_limit r\<rparr>)"
    and refund: "refund (host_at rk bh) (cr_gas_spent receipt) w2 = Inr w'"
  then have st: "st = Moonlight t"
    using assms(3,4) by (simp add: tx_strip_off_bytecode_def mt_strip_off_bytecode_def)
  have r: "r = \<lparr>cr_data = data, cr_gas_spent = gas, cr_gas_limit = tx_gas_limit (lt_inner tx)\<rparr>" "w2 = w1"
    using deploy assms(3,4) by (auto simp: vm_contract_deploy_def tx_deploy_def split: if_splits)
  have ok: "is_ok data" using assms(2) receipt r by (auto split: if_splits)
  obtain w0 ws where put: "put_transaction (Moonlight t) w = Inr w0"
    and sp: "spend_moonlight (host_at rk bh) (rk_wire rk) t w0 = Inr ws"
    and call: "raw_call (Some u) (entry_unstake (host_at rk bh) (rk_wire rk) (Some TRANSFER_CONTRACT)) ws = (data, w1)"
    using spend assms(5-9) unfolding st assms(9)
    by (auto simp: spend_and_execute_def genesis_ext_def str_bytes_def split: if_splits)
  have "unstake (host_at rk bh) (rk_wire rk) u ws = Inr w1"
    using call ok by (auto elim!: raw_call_cases simp: entry_unstake_def)
  moreover have "sw_stake ws = sw_stake w"
    using quiet_put_transaction [OF put] quiet_spend_moonlight [OF sp] by (auto simp: quiet_def intro: more_stake)
  moreover have "sw_stake w' = sw_stake w1"
    using quiet_refund [OF refund] by (auto simp: quiet_def r intro: more_stake)
  ultimately show thesis by (rule that)
qed

definition leaving_request :: stake_withdraw where
  "leaving_request = sample_unstake\<lparr>sw_withdraw := (sw_withdraw sample_unstake)\<lparr>wd_value := 3500\<rparr>\<rparr>"

definition leaving_stake :: stake_data where
  "leaving_stake = sample_stake\<lparr>sd_reward := 0\<rparr>"

definition leaving_world :: sworld where
  "leaving_world = set_stakes (bm_insert (w_pk_to_bytes wire0 pk7)
     (leaving_stake, stake_keys_single_key pk7) bm_empty) staking_world"

definition leaving_mt :: moonlight_transaction where
  "leaving_mt = sample_moonlight\<lparr>mt_payload := sample_payload\<lparr>mp_data :=
     Some (Call \<lparr>cc_contract = STAKE_CONTRACT, cc_fn_name = str_bytes ''unstake'', cc_fn_args = []\<rparr>)\<rparr>\<rparr>"

definition leaving_tx :: ledger_tx where
  "leaving_tx = tx0\<lparr>lt_inner := Moonlight leaving_mt\<rparr>"

definition gc_leaving :: genesis_codec where
  "gc_leaving = gc0\<lparr>gc_withdraw := \<lambda>_. Some leaving_request\<rparr>"

definition rk_leaving :: "sworld rusk" where
  "rk_leaving = rk0\<lparr>rk_ext := \<lambda>h. genesis_ext h wire0 gc_leaving ext0, rk_inner := \<lambda>_. pk7,
     rk_store := \<lambda>c. if c = [1] then Some leaving_world else None\<rparr>"

lemma leaving_runs:
  "\<exists>receipt w. run_tx rk_leaving 5000 leaving_tx (on_new_block leaving_world) = Inr (receipt, w) \<and>
     cr_gas_spent receipt = 4 \<and> is_ok (cr_data receipt) \<and> (\<forall>k. bm_get (stakes_map w) k = None)"
  by (simp add: leaving_world_def leaving_tx_def leaving_mt_def rk_leaving_def gc_leaving_def leaving_request_def
      leaving_stake_def host_at_def block_sample_defs entry_unstake_def unstake_def transfer_withdraw_def mint_withdrawal_def
      check_token_def current_moonlight_def current_transaction_def contract_balance_def
      sub_contract_balance_def take_from_amount_def total_funds_def ensure_def store_unstaked_def str_bytes_def)

definition leaving_slash :: slash_entry where
  "leaving_slash = \<lparr>se_provisioner = [7], se_type = Soft\<rparr>"

theorem slash_after_unstake_rejects_block_witness:
  "\<not> is_ok (verify_transactions rk_leaving [1] [1] 5000 100 (BlsPublicKey 9) [leaving_tx] [leaving_slash] []) \<and>
   is_ok (accept_transactions rk_leaving [1] [1] 5000 100 (BlsPublicKey 9) [leaving_tx] None [] [])"
proof -
  obtain receipt w where run: "run_tx rk_leaving 5000 leaving_tx (on_new_block leaving_world) = Inr (receipt, w)"
    and gas: "cr_gas_spent receipt = 4" and ok: "is_ok (cr_data receipt)"
    using leaving_runs by blast
  have host: "host_at rk_leaving 5000 = host0" "rk_wire rk_leaving = wire0" "rk_inner rk_leaving k = pk7" for k
    by (simp_all add: rk_leaving_def rk0_def host_at_def host0_def)
  have call: "tx_call (Moonlight leaving_mt) =
      Some \<lparr>cc_contract = STAKE_CONTRACT, cc_fn_name = str_bytes ''unstake'', cc_fn_args = []\<rparr>" "mt_deploy leaving_mt = None"
    by (simp_all add: leaving_mt_def tx_call_def mt_call_def data_call_def mt_deploy_def data_deploy_def)
  obtain v v1 :: sworld where u: "unstake (host_at rk_leaving 5000) (rk_wire rk_leaving) leaving_request v = Inr v1"
    and v: "sw_stake v = sw_stake (on_new_block leaving_world)" "sw_stake w = sw_stake v1"
  proof (rule unstake_tx_runs [OF run ok _ call(2,1), where gc = gc_leaving and other = ext0])
  qed (auto simp: leaving_tx_def gc_leaving_def rk_leaving_def rk0_def)
  have session: "new_block_session rk_leaving [1] [1] = Inr (on_new_block leaving_world)"
    by (simp add: new_block_session_def open_session_def rk_leaving_def entry_before_state_transition_def
        assert_external_caller_def)
  obtain a where a: "accept_txs rk_leaving 5000 [leaving_tx] \<lparr>ac_session = on_new_block leaving_world,
      ac_gas_left = 100, ac_spent = [], ac_dusk_spent = 0, ac_bloom = bloom_new\<rparr> = Inr a" and aw: "ac_session a = w"
    using run gas by (simp add: Let_def)
  have stake: "get_stake (rk_wire rk_leaving) (sw_account leaving_request) v = Some leaving_stake"
    by (simp add: get_stake_def v(1) host leaving_world_def leaving_request_def sample_unstake_def on_new_block_def)
  have am: "sd_amount leaving_stake = Some \<lparr>am_value = 3000, am_locked = 500, am_eligibility = 100\<rparr>"
    by (simp add: leaving_stake_def sample_stake_def)
  have reject: "\<not> is_ok (verify_transactions rk_leaving [1] [1] 5000 100 (BlsPublicKey 9) [leaving_tx] [leaving_slash] []) \<and>
      \<not> is_ok (accept_transactions rk_leaving [1] [1] 5000 100 (BlsPublicKey 9) [leaving_tx] None [leaving_slash] [])"
  proof (rule slash_after_unstake_rejects_block [OF session a u _ stake am])
    show "stakes_map (ac_session a) = stakes_map v1" by (simp add: aw v(2))
    show "\<forall>r\<in>set (block_rewards (rk_dusk_key rk_leaving) (rk_inner rk_leaving) 5000 (ac_dusk_spent a) (BlsPublicKey 9) []).
        w_pk_to_bytes (rk_wire rk_leaving) (rw_account r) \<noteq> w_pk_to_bytes (rk_wire rk_leaving) (sw_account leaving_request)"
      by (auto simp: host block_rewards_def Let_def rk_leaving_def rk0_def wire0_pk_inj leaving_request_def
          sample_unstake_def pk7_def split: prod.splits if_splits)
  qed (simp_all add: leaving_request_def sample_unstake_def total_funds_def amount_funds_def leaving_stake_def
      leaving_slash_def host)
  have same: "reward_slash_and_update_root rk_leaving 5000 spent (BlsPublicKey 9) [] [] w =
      reward_slash_and_update_root rk0 5000 spent (BlsPublicKey 9) [] [] w" for spent
    by (simp add: reward_slash_and_update_root_def rk_leaving_def host_at_def block_rewards_def)
  have "bm_get (stakes_map w) (w_pk_to_bytes wire0 k) = None" if "k \<noteq> pk7" for k
    using leaving_runs run that by (auto simp: wire0_pk_inj)
  then have "is_ok (reward_slash_and_update_root rk0 5000 spent (BlsPublicKey 9) [] [] w)" for spent
    by (intro rewards0_ok) (simp_all add: pk7_def)
  then have "is_ok (accept_transactions rk_leaving [1] [1] 5000 100 (BlsPublicKey 9) [leaving_tx] None [] [])"
    using session a aw by (auto simp: accept_transactions_def accept_def finish_block_def same is_ok_iff Let_def)
  with reject show ?thesis by simp
qed

section \<open>A transaction that stakes\<close>

lemma staking_supply:
  "\<exists>w1. spend_and_execute host0 wire0 phoenix_wire0 (genesis_ext host0 wire0 gc0 ext0)
     (Moonlight staking_tx) staking_world = Inr (Inr [], w1) \<and> ledger_total w1 = 5980"
  by (simp add: block_sample_defs ledger_defs bm_sum_def)

lemma staking_fits: "supply_fits host0 wire0 phoenix_wire0 (genesis_ext host0 wire0 gc0 ext0) vm0 staking_tx 1 1 staking_world"
  using staking_supply
  by (auto simp: supply_fits_def vm_contract_deploy_def tx_deploy_def mt_deploy_def data_deploy_def staking_tx_def
      tx_strip_off_bytecode_def mt_strip_off_bytecode_def moonlight_accessors sample_defs split: if_splits)

theorem execute_moonlight_sound_witness:
  "\<exists>receipt w'. execute host0 wire0 phoenix_wire0 (genesis_ext host0 wire0 gc0 ext0) vm0 (Moonlight staking_tx) 1 1 1
       staking_world = Inr (receipt, w') \<and> tw_current_tx w' = None \<and>
     ledger_net w' + int (unat (cr_gas_spent receipt) * unat (mt_gas_price staking_tx)) = ledger_net staking_world"
proof -
  have "\<exists>receipt w'. execute host0 wire0 phoenix_wire0 (genesis_ext host0 wire0 gc0 ext0) vm0 (Moonlight staking_tx) 1 1 1
       staking_world = Inr (receipt, w')"
    by (simp add: block_sample_defs)
  with execute_moonlight_sound [OF staking_world_current genesis_entries [OF ext0_entries] vm0_laws staking_fits, of 1]
  show ?thesis by (auto split: sum.splits)
qed

end
