(* ===== verification/Node_Codec.thy ===== *)
theory Node_Codec
  imports Node_Block
begin

text \<open>
  The wire encodings of \<^verbatim>\<open>node-data\<close>: the trait \<open>Serializable\<close> (\<^verbatim>\<open>node-data/src/lib.rs\<close>) as writers into
  a byte string and readers of one, and the contract a type's pair of them has.  A reader returns the
  value with the bytes that are left, or the \<open>io::Error\<close>; \<open>read_exact\<close> on a slice fails with
  \<open>UnexpectedEof\<close> when it is too short.  A panic of a decoder the reader calls is a value of its own.
\<close>

datatype io_error = UnexpectedEof | IoInvalidData string | IoPanic

type_synonym 'a reader = "bytes \<Rightarrow> io_error + ('a \<times> bytes)"

section \<open>Readers\<close>

definition rd_ret :: "'a \<Rightarrow> 'a reader" where
  "rd_ret x r = Inr (x, r)"

definition rd_fail :: "io_error \<Rightarrow> 'a reader" where
  "rd_fail e r = Inl e"

definition rd_bind :: "'a reader \<Rightarrow> ('a \<Rightarrow> 'b reader) \<Rightarrow> 'b reader" where
  "rd_bind m f r = (case m r of Inl e \<Rightarrow> Inl e | Inr (x, r') \<Rightarrow> f x r')"

definition read_bytes :: "nat \<Rightarrow> bytes reader" where
  "read_bytes n r = (if length r < n then Inl UnexpectedEof else Inr (take n r, drop n r))"

definition read_u8 :: "u8 reader" where
  "read_u8 = rd_bind (read_bytes 1) (\<lambda>num. rd_ret (num ! 0))"

definition read_u16_le :: "u16 reader" where
  "read_u16_le = rd_bind (read_bytes 2) (\<lambda>data. rd_ret (from_le_bytes data))"

definition read_u32_le :: "u32 reader" where
  "read_u32_le = rd_bind (read_bytes 4) (\<lambda>data. rd_ret (from_le_bytes data))"

definition read_u64_le :: "u64 reader" where
  "read_u64_le = rd_bind (read_bytes 8) (\<lambda>data. rd_ret (from_le_bytes data))"

definition write_var_le_bytes32 :: "bytes \<Rightarrow> bytes" where
  "write_var_le_bytes32 buf = to_le_bytes (of_nat (length buf) :: u32) @ buf"

definition read_var_le_bytes32 :: "bytes reader" where
  "read_var_le_bytes32 = rd_bind read_u32_le (\<lambda>len. read_bytes (unat len))"

text \<open>\<open>(0..n).map(|_| read(r)).collect::<Result<Vec<_>, _>>()\<close>: the first error ends it.\<close>

fun read_many :: "nat \<Rightarrow> 'a reader \<Rightarrow> 'a list reader" where
  "read_many 0 rd = rd_ret []"
| "read_many (Suc n) rd = rd_bind rd (\<lambda>x. rd_bind (read_many n rd) (\<lambda>xs. rd_ret (x # xs)))"

definition write_many :: "('a \<Rightarrow> bytes) \<Rightarrow> 'a list \<Rightarrow> bytes" where
  "write_many wr xs = concat (map wr xs)"

lemma rd_simps [simp]:
  "rd_ret x r = Inr (x, r)"
  "rd_fail e r = Inl e"
  "m r = Inr (x, r') \<Longrightarrow> rd_bind m f r = f x r'"
  "m r = Inl e \<Longrightarrow> rd_bind m f r = Inl e"
  by (simp_all add: rd_ret_def rd_fail_def rd_bind_def)

lemma rd_bind_Inr:
  "rd_bind m f r = Inr (y, rest) \<longleftrightarrow> (\<exists>x r'. m r = Inr (x, r') \<and> f x r' = Inr (y, rest))"
  by (auto simp: rd_bind_def split: sum.splits)

section \<open>The contract of an encoding\<close>

text \<open>
  \<open>ok\<close> says which values a Rust type has (an array of \<open>n\<close> bytes is a list of that length here) and which
  of them the encoding is meant for.
\<close>

locale wire_codec =
  fixes ok :: "'a \<Rightarrow> bool"
    and wr :: "'a \<Rightarrow> bytes"
    and rd :: "'a reader"
  assumes read_write: "ok x \<Longrightarrow> rd (wr x @ rest) = Inr (x, rest)"
begin

lemma bind_write: "ok x \<Longrightarrow> rd_bind rd f (wr x @ rest) = f x rest"
  by (simp add: read_write)

lemma prefix_free: "ok x \<Longrightarrow> ok y \<Longrightarrow> wr x @ r = wr y @ s \<Longrightarrow> x = y \<and> r = s"
  by (metis read_write old.sum.inject(2) prod.inject)

lemma read_write_many:
  "\<forall>x \<in> set xs. ok x \<Longrightarrow> read_many (length xs) rd (write_many wr xs @ rest) = Inr (xs, rest)"
  by (induction xs) (simp_all add: write_many_def read_write)

end

text \<open>An encoding is canonical when every value that is read was written that way.\<close>

locale canonical_codec = wire_codec +
  assumes write_read: "rd bs = Inr (x, rest) \<Longrightarrow> ok x \<and> bs = wr x @ rest"
begin

lemma read_iff: "rd bs = Inr (x, rest) \<longleftrightarrow> ok x \<and> bs = wr x @ rest"
  using read_write write_read by blast

lemma bind_iff: "rd_bind rd f bs = Inr (y, rest) \<longleftrightarrow> (\<exists>x r. ok x \<and> bs = wr x @ r \<and> f x r = Inr (y, rest))"
  by (auto simp: rd_bind_Inr read_iff)

lemma same_bytes: "rd bs = Inr (x, r) \<Longrightarrow> rd cs = Inr (x, s) \<Longrightarrow> r = s \<Longrightarrow> bs = cs"
  by (simp add: read_iff)

lemma read_many_iff:
  "read_many n rd bs = Inr (xs, rest) \<longleftrightarrow>
     length xs = n \<and> (\<forall>x \<in> set xs. ok x) \<and> bs = write_many wr xs @ rest"
proof (induction n arbitrary: xs bs)
  case (Suc n)
  show ?case
    by (cases xs) (auto simp: rd_bind_Inr read_iff Suc.IH write_many_def)
qed (auto simp: write_many_def)

end

section \<open>Arrays and integers\<close>

lemma length_to_le_bytes [simp]: "length (to_le_bytes (x :: 'a::len word)) = LENGTH('a) div 8"
  by (simp add: to_le_bytes_def)

lemma from_to_le_bytes:
  fixes x :: "'a::len word"
  assumes "LENGTH('a) = 8 * n"
  shows "from_le_bytes (to_le_bytes x) = x"
proof -
  have "unat x < 256 ^ n" using unsigned_less [of x] assms by (simp add: power_mult)
  with assms show ?thesis by (simp add: to_le_bytes_def from_le_bytes_def le_value_le_bytes)
qed

lemma to_from_le_bytes:
  assumes "LENGTH('a) = 8 * n" and "length bs = n"
  shows "to_le_bytes (from_le_bytes bs :: 'a::len word) = bs"
proof -
  have "le_value bs < 2 ^ LENGTH('a)" using le_value_bound [of bs] assms by (simp add: power_mult)
  then have "unat (from_le_bytes bs :: 'a word) = le_value bs"
    by (simp add: from_le_bytes_def unat_of_nat)
  with assms le_bytes_le_value [of bs] show ?thesis by (simp add: to_le_bytes_def)
qed

lemma from_to_le_bytes_words [simp]:
  "from_le_bytes (to_le_bytes (a :: u8)) = a"
  "from_le_bytes (to_le_bytes (b :: u16)) = b"
  "from_le_bytes (to_le_bytes (c :: u32)) = c"
  by (simp_all add: from_to_le_bytes [where n = 1] from_to_le_bytes [where n = 2] from_to_le_bytes [where n = 4])

lemma to_from_le_bytes_words [simp]:
  "length bs = 2 \<Longrightarrow> to_le_bytes (from_le_bytes bs :: u16) = bs"
  "length bs = 4 \<Longrightarrow> to_le_bytes (from_le_bytes bs :: u32) = bs"
  "length bs = 8 \<Longrightarrow> to_le_bytes (from_le_bytes bs :: u64) = bs"
  by (simp_all add: to_from_le_bytes)

lemma read_bytes_append: "length bs = n \<Longrightarrow> read_bytes n (bs @ rest) = Inr (bs, rest)"
  by (simp add: read_bytes_def)

lemma read_bytes_Inr: "read_bytes n r = Inr (bs, rest) \<longleftrightarrow> length bs = n \<and> r = bs @ rest"
  by (auto simp: read_bytes_def)

abbreviation array :: "nat \<Rightarrow> bytes \<Rightarrow> bool" where
  "array n bs \<equiv> length bs = n"

interpretation b32: canonical_codec "array 32" id "read_bytes 32"
  by unfold_locales (simp_all add: read_bytes_append read_bytes_Inr)

interpretation b48: canonical_codec "array 48" id "read_bytes 48"
  by unfold_locales (simp_all add: read_bytes_append read_bytes_Inr)

interpretation b96: canonical_codec "array 96" id "read_bytes 96"
  by unfold_locales (simp_all add: read_bytes_append read_bytes_Inr)

interpretation u8: canonical_codec "\<lambda>_. True" "\<lambda>b. [b]" read_u8
  by unfold_locales (auto simp: read_u8_def rd_bind_Inr read_bytes_Inr read_bytes_append length_Suc_conv)

interpretation u16: canonical_codec "\<lambda>_. True" to_le_bytes read_u16_le
  by unfold_locales (auto simp: read_u16_le_def rd_bind_Inr read_bytes_Inr)

interpretation u32: canonical_codec "\<lambda>_. True" to_le_bytes read_u32_le
  by unfold_locales (auto simp: read_u32_le_def rd_bind_Inr read_bytes_Inr)

interpretation u64: canonical_codec "\<lambda>_. True" to_le_bytes read_u64_le
  by unfold_locales (auto simp: read_u64_le_def rd_bind_Inr read_bytes_Inr)

definition short32 :: "bytes \<Rightarrow> bool" where
  "short32 buf \<longleftrightarrow> length buf < 2 ^ 32"

lemma unat_length32: "short32 buf \<Longrightarrow> unat (of_nat (length buf) :: u32) = length buf"
  by (simp add: short32_def unat_of_nat)

interpretation var32: canonical_codec short32 write_var_le_bytes32 read_var_le_bytes32
proof unfold_locales
  show "short32 x \<Longrightarrow> read_var_le_bytes32 (write_var_le_bytes32 x @ rest) = Inr (x, rest)" for x rest
    by (simp add: read_var_le_bytes32_def write_var_le_bytes32_def u32.bind_write unat_length32
        read_bytes_append)
next
  fix bs x rest
  assume "read_var_le_bytes32 bs = Inr (x, rest)"
  then obtain len :: u32 where "bs = to_le_bytes len @ x @ rest" "length x = unat len"
    by (auto simp: read_var_le_bytes32_def u32.bind_iff read_bytes_Inr)
  then show "short32 x \<and> bs = write_var_le_bytes32 x @ rest"
    using unat_lt_2p [of len] by (simp add: short32_def write_var_le_bytes32_def)
qed

lemma read_u8_Cons: "read_u8 (b # rest) = Inr (b, rest)"
  using u8.read_write [of b rest] by simp

lemmas codec_read =
  read_bytes_append read_u8_Cons u16.read_write u32.read_write u64.read_write var32.read_write

lemmas codec_inv =
  rd_bind_Inr read_bytes_Inr u8.read_iff u16.read_iff u32.read_iff u64.read_iff var32.read_iff

end
