(* ===== verification/Consensus_Committee.thy ===== *)
theory Consensus_Committee
  imports Consensus_Config Node_Rewards BTree_Map
begin

text \<open>
  Provisioners and committees, \<^verbatim>\<open>consensus/src/user\<close>: stakes (\<^verbatim>\<open>stake.rs\<close>), the weighted sets of
  voters (\<^verbatim>\<open>cluster.rs\<close>), the provisioners and their deterministic sortition (\<^verbatim>\<open>provisioners.rs\<close>,
  \<^verbatim>\<open>sortition.rs\<close>) and the committees with their bitsets (\<^verbatim>\<open>committee.rs\<close>).  The hash function of the
  sortition is an argument; the crate wraps on overflow.
\<close>

unbundle bit_operations_syntax

section \<open>Stakes\<close>

record cstake =
  cs_value :: u64
  cs_eligible_since :: u64

definition cstake_from_value :: "u64 \<Rightarrow> cstake" where
  "cstake_from_value value = \<lparr>cs_value = value, cs_eligible_since = 0\<rparr>"

definition is_eligible :: "u64 \<Rightarrow> cstake \<Rightarrow> bool" where
  "is_eligible rnd s \<longleftrightarrow> cs_eligible_since s \<le> rnd"

text \<open>\<open>subtract\<close>: the effective amount and the stake that is left.\<close>

definition cstake_subtract :: "u64 \<Rightarrow> cstake \<Rightarrow> u64 \<times> cstake" where
  "cstake_subtract sub s =
     (if cs_value s \<le> sub then (cs_value s, s\<lparr>cs_value := 0\<rparr>)
      else (sub, s\<lparr>cs_value := cs_value s - sub\<rparr>))"

definition change_eligibility :: "u64 \<Rightarrow> cstake \<Rightarrow> cstake" where
  "change_eligibility new_value s = s\<lparr>cs_eligible_since := new_value\<rparr>"

definition cstake_add :: "u64 \<Rightarrow> cstake \<Rightarrow> cstake" where
  "cstake_add add s = s\<lparr>cs_value := cs_value s + add\<rparr>"

section \<open>Clusters\<close>

type_synonym cluster = "(public_key, nat) btree_map"

definition cluster_total_occurrences :: "cluster \<Rightarrow> nat" where
  "cluster_total_occurrences c = sum_list (bm_values c)"

definition cluster_contains_key :: "public_key \<Rightarrow> cluster \<Rightarrow> bool" where
  "cluster_contains_key key c \<longleftrightarrow> bm_get c key \<noteq> None"

definition cluster_add :: "public_key \<Rightarrow> nat \<Rightarrow> cluster \<Rightarrow> nat option \<times> cluster" where
  "cluster_add key weight c =
     (if weight = 0 then (None, c)
      else if cluster_contains_key key c then (None, c)
      else (Some weight, bm_insert key weight c))"

section \<open>Provisioners\<close>

type_synonym provisioners = "(public_key, cstake) btree_map"

definition DUSK :: u64 where
  "DUSK = 1000000000"

definition add_member_with_stake :: "public_key \<Rightarrow> cstake \<Rightarrow> provisioners \<Rightarrow> provisioners" where
  "add_member_with_stake pk s p = bm_or_insert pk s p"

definition replace_stake :: "public_key \<Rightarrow> cstake \<Rightarrow> provisioners \<Rightarrow> provisioners" where
  "replace_stake pk s p = bm_insert pk s p"

definition remove_stake :: "public_key \<Rightarrow> provisioners \<Rightarrow> provisioners" where
  "remove_stake pk p = bm_remove pk p"

definition sub_stake :: "public_key \<Rightarrow> u64 \<Rightarrow> provisioners \<Rightarrow> u64 option \<times> provisioners" where
  "sub_stake pk amount p =
     (case bm_get p pk of
        None \<Rightarrow> (None, p)
      | Some s \<Rightarrow>
          if cs_value s < amount then (None, p)
          else
            let s' = snd (cstake_subtract amount s); left = cs_value s' in
            (Some left, if left = 0 then bm_remove pk p else bm_insert pk s' p))"

definition eligibles :: "u64 \<Rightarrow> provisioners \<Rightarrow> (public_key \<times> cstake) list" where
  "eligibles rnd p =
     filter (\<lambda>(_, m). is_eligible rnd m \<and> cs_value m \<ge> DEFAULT_MINIMUM_STAKE) (bm_entries p)"

definition get_provisioners_info :: "u64 \<Rightarrow> provisioners \<Rightarrow> nat \<times> nat" where
  "get_provisioners_info rnd p = (length (bm_entries p), length (eligibles rnd p))"

text \<open>The provisioners of the current and of the previous block.\<close>

record context_provisioners =
  cp_current :: provisioners
  cp_prev :: "provisioners option"

definition context_new :: "provisioners \<Rightarrow> context_provisioners" where
  "context_new current = \<lparr>cp_current = current, cp_prev = None\<rparr>"

definition prev_provisioners :: "context_provisioners \<Rightarrow> provisioners" where
  "prev_provisioners c = (case cp_prev c of Some p \<Rightarrow> p | None \<Rightarrow> cp_current c)"

definition update_and_swap :: "provisioners \<Rightarrow> context_provisioners \<Rightarrow> context_provisioners" where
  "update_and_swap new c = \<lparr>cp_current = new, cp_prev = Some (cp_current c)\<rparr>"

definition remove_previous :: "context_provisioners \<Rightarrow> context_provisioners" where
  "remove_previous c = c\<lparr>cp_prev := None\<rparr>"

definition set_previous :: "provisioners \<Rightarrow> context_provisioners \<Rightarrow> context_provisioners" where
  "set_previous prev c = c\<lparr>cp_prev := Some prev\<rparr>"

definition context_update :: "provisioners \<Rightarrow> context_provisioners \<Rightarrow> context_provisioners" where
  "context_update new c = \<lparr>cp_current = new, cp_prev = None\<rparr>"

definition apply_change :: "public_key \<times> cstake option \<Rightarrow> provisioners \<Rightarrow> provisioners" where
  "apply_change change prev =
     (case change of
        (pk, None) \<Rightarrow> remove_stake pk prev
      | (pk, Some stake) \<Rightarrow> replace_stake pk stake prev)"

definition apply_changes ::
    "(public_key \<times> cstake option) list \<Rightarrow> context_provisioners \<Rightarrow> context_provisioners" where
  "apply_changes changes c =
     (if changes \<noteq> [] then set_previous (fold apply_change changes (cp_current c)) c
      else remove_previous c)"

section \<open>Sortition\<close>

record sortition_config =
  so_seed :: bytes
  so_round :: u64
  so_step :: u8
  so_committee_credits :: nat
  so_exclusion :: "public_key list"

definition committee_credits :: "step_name \<Rightarrow> nat" where
  "committee_credits step =
     (case step of
        Proposal \<Rightarrow> PROPOSAL_COMMITTEE_CREDITS
      | Ratification \<Rightarrow> RATIFICATION_COMMITTEE_CREDITS
      | Validation \<Rightarrow> VALIDATION_COMMITTEE_CREDITS)"

definition sortition_config_new ::
    "bytes \<Rightarrow> u64 \<Rightarrow> u8 \<Rightarrow> step_name \<Rightarrow> public_key list \<Rightarrow> sortition_config" where
  "sortition_config_new seed rnd iteration step exclusion =
     \<lparr>so_seed = seed, so_round = rnd, so_step = to_step step iteration,
      so_committee_credits = committee_credits step, so_exclusion = exclusion\<rparr>"

definition create_sortition_hash :: "(bytes \<Rightarrow> bytes) \<Rightarrow> sortition_config \<Rightarrow> u32 \<Rightarrow> bytes" where
  "create_sortition_hash hash cfg counter =
     hash (so_seed cfg @ to_le_bytes (so_step cfg) @ to_le_bytes counter)"

text \<open>\<open>BigInt::from_bytes_be\<close>, and the remainder, which panics when the weight is zero.\<close>

definition be_value :: "bytes \<Rightarrow> nat" where
  "be_value bs = foldl (\<lambda>n b. n * 256 + unat b) 0 bs"

definition generate_sortition_score :: "bytes \<Rightarrow> nat \<Rightarrow> nat res" where
  "generate_sortition_score hash total_weight =
     (if total_weight = 0 then Inl (Panic ''attempt to divide by zero'')
      else Inr (be_value hash mod total_weight))"

text \<open>
  \<open>CommitteeGenerator\<close>: the members in key order with the stake that is left of each.  Its map is
  built from entries in key order and is only iterated and updated in place, so it is the list of its
  entries.
\<close>

type_synonym committee_generator = "(public_key \<times> cstake) list"

definition generator_from_provisioners ::
    "u64 \<Rightarrow> public_key list \<Rightarrow> provisioners \<Rightarrow> committee_generator" where
  "generator_from_provisioners rnd exclusion p =
     (let members =
        (if length exclusion = 0 then eligibles rnd p
         else filter (\<lambda>(pk, _). \<not> list_ex (\<lambda>excluded. excluded = pk) exclusion) (eligibles rnd p))
      in if members = [] then eligibles rnd p else members)"

definition total_weight :: "committee_generator \<Rightarrow> u64" where
  "total_weight members = sum_list (map (\<lambda>(_, m). cs_value m) members)"

text \<open>One pass of the \<open>for\<close> loop: the member that was hit, or the score that remains.\<close>

fun extract_pass ::
    "committee_generator \<Rightarrow> nat \<Rightarrow> (public_key \<times> u64 \<times> committee_generator) + nat" where
  "extract_pass [] score = Inr score"
| "extract_pass ((pk, s) # members) score =
     (if unat (cs_value s) \<ge> score then
        (case cstake_subtract DUSK s of (subtracted, s') \<Rightarrow> Inl (pk, subtracted, (pk, s') # members))
      else
        (case extract_pass members (score - unat (cs_value s)) of
           Inl (k, subtracted, members') \<Rightarrow> Inl (k, subtracted, (pk, s) # members')
         | Inr score' \<Rightarrow> Inr score'))"

text \<open>The outer \<open>loop\<close>, which goes on for ever when no member has any stake left.\<close>

partial_function (option) extract_loop ::
    "committee_generator \<Rightarrow> nat \<Rightarrow> (public_key \<times> u64 \<times> committee_generator) option" where
  "extract_loop members score =
     (case extract_pass members score of
        Inl found \<Rightarrow> Some found
      | Inr score' \<Rightarrow> extract_loop members score')"

definition extract_and_subtract_member ::
    "committee_generator \<Rightarrow> nat \<Rightarrow> (public_key \<times> u64 \<times> committee_generator) res option" where
  "extract_and_subtract_member members score =
     (if members = [] then Some (Inl (Panic ''Cannot extract member from an empty committee''))
      else map_option Inr (extract_loop members score))"

text \<open>
  The loop of \<open>create_committee\<close>, with \<open>n\<close> the number of credits that are still to be extracted.  The
  result is \<open>None\<close> if an extraction does not return.
\<close>

fun committee_loop ::
    "(bytes \<Rightarrow> bytes) \<Rightarrow> sortition_config \<Rightarrow> nat \<Rightarrow> committee_generator \<Rightarrow> nat \<Rightarrow> public_key list
     \<Rightarrow> public_key list res option" where
  "committee_loop hash cfg 0 comm weight extracted = Some (Inr extracted)"
| "committee_loop hash cfg (Suc n) comm weight extracted =
     (case generate_sortition_score (create_sortition_hash hash cfg (of_nat (length extracted))) weight of
        Inl e \<Rightarrow> Some (Inl e)
      | Inr score \<Rightarrow>
          (case extract_and_subtract_member comm score of
             None \<Rightarrow> None
           | Some (Inl e) \<Rightarrow> Some (Inl e)
           | Some (Inr (pk, subtracted, comm')) \<Rightarrow>
               if weight > unat subtracted
               then committee_loop hash cfg n comm' (weight - unat subtracted) (extracted @ [pk])
               else Some (Inr (extracted @ [pk]))))"

definition create_committee ::
    "(bytes \<Rightarrow> bytes) \<Rightarrow> sortition_config \<Rightarrow> provisioners \<Rightarrow> public_key list res option" where
  "create_committee hash cfg p =
     (let comm = generator_from_provisioners (so_round cfg) (so_exclusion cfg) p in
      committee_loop hash cfg (so_committee_credits cfg) comm (unat (total_weight comm)) [])"

section \<open>Committees\<close>

record committee =
  cm_members :: cluster
  cm_super_majority :: nat
  cm_majority :: nat
  cm_excluded :: "public_key list"

definition count_member :: "public_key \<Rightarrow> cluster \<Rightarrow> cluster" where
  "count_member pk m = bm_insert pk (bm_get_or 0 m pk + 1) m"

definition committee_of_extracted :: "sortition_config \<Rightarrow> public_key list \<Rightarrow> committee" where
  "committee_of_extracted cfg extracted =
     \<lparr>cm_members = fold count_member extracted bm_empty,
      cm_super_majority = supermajority (so_committee_credits cfg),
      cm_majority = majority (so_committee_credits cfg),
      cm_excluded = so_exclusion cfg\<rparr>"

definition committee_new ::
    "(bytes \<Rightarrow> bytes) \<Rightarrow> sortition_config \<Rightarrow> provisioners \<Rightarrow> committee res option" where
  "committee_new hash cfg p = map_option (res_map (committee_of_extracted cfg)) (create_committee hash cfg p)"

definition is_member :: "public_key \<Rightarrow> committee \<Rightarrow> bool" where
  "is_member pk c \<longleftrightarrow> bm_get (cm_members c) pk \<noteq> None"

definition votes_for :: "committee \<Rightarrow> public_key \<Rightarrow> nat option" where
  "votes_for c pk = bm_get (cm_members c) pk"

definition get_occurrences :: "committee \<Rightarrow> nat list" where
  "get_occurrences c = bm_values (cm_members c)"

definition committee_size :: "committee \<Rightarrow> nat" where
  "committee_size c = length (bm_entries (cm_members c))"

text \<open>A shift of a \<open>u64\<close> uses the low six bits of the amount.\<close>

fun bits_from :: "nat \<Rightarrow> (public_key \<times> nat) list \<Rightarrow> cluster \<Rightarrow> u64" where
  "bits_from pos [] voters = 0"
| "bits_from pos ((pk, _) # members) voters =
     (if cluster_contains_key pk voters then push_bit (pos mod 64) 1 else 0) OR
     bits_from (Suc pos) members voters"

definition committee_bits :: "committee \<Rightarrow> cluster \<Rightarrow> u64" where
  "committee_bits c voters = bits_from 0 (bm_entries (cm_members c)) voters"

fun intersect_from :: "nat \<Rightarrow> (public_key \<times> nat) list \<Rightarrow> u64 \<Rightarrow> cluster \<Rightarrow> cluster" where
  "intersect_from pos [] bitset a = a"
| "intersect_from pos ((pk, weight) # members) bitset a =
     intersect_from (Suc pos) members bitset
       (if drop_bit (pos mod 64) bitset AND 1 \<noteq> 0 then snd (cluster_add pk weight a) else a)"

definition committee_intersect :: "committee \<Rightarrow> u64 \<Rightarrow> cluster" where
  "committee_intersect c bitset =
     (if bitset = 0 then bm_empty else intersect_from 0 (bm_entries (cm_members c)) bitset bm_empty)"

definition total_occurrences :: "committee \<Rightarrow> cluster \<Rightarrow> nat" where
  "total_occurrences c voters =
     sum_list (map (\<lambda>(voter, _). case votes_for c voter of Some n \<Rightarrow> n | None \<Rightarrow> 0) (bm_entries voters))"

text \<open>\<open>get_generator\<close>: the first member of a proposal committee.\<close>

definition get_generator ::
    "(bytes \<Rightarrow> bytes) \<Rightarrow> u8 \<Rightarrow> bytes \<Rightarrow> u64 \<Rightarrow> provisioners \<Rightarrow> public_key res option" where
  "get_generator hash iteration seed rnd p =
     map_option (\<lambda>r. res_bind r (\<lambda>c.
         case bm_keys (cm_members c) of
           [] \<Rightarrow> Inl (Panic ''committee to have 1 entry'')
         | pk # _ \<Rightarrow> Inr pk))
       (committee_new hash (sortition_config_new seed rnd iteration Proposal []) p)"

end
