(* ===== verification/Node_Ledger.thy ===== *)
theory Node_Ledger
  imports Node_Codec Consensus_Committee
begin

text \<open>
  The ledger types of \<^verbatim>\<open>node-data\<close> and their encodings: votes and attestations (\<^verbatim>\<open>message.rs\<close>,
  \<^verbatim>\<open>ledger/attestation.rs\<close>), headers, faults, transactions and blocks (\<^verbatim>\<open>ledger/*.rs\<close>,
  \<^verbatim>\<open>encoding.rs\<close>).  The cryptography is a record of arguments.
\<close>

type_synonym hash = bytes
type_synonym seed = bytes

section \<open>Votes\<close>

datatype vote = NoCandidate | Valid hash | Invalid hash | NoQuorum

definition vote_is_valid :: "vote \<Rightarrow> bool" where
  "vote_is_valid v \<longleftrightarrow> (case v of Valid _ \<Rightarrow> True | _ \<Rightarrow> False)"

definition vote_size :: "vote \<Rightarrow> nat" where
  "vote_size v = 1 + (case v of NoCandidate \<Rightarrow> 0 | Valid _ \<Rightarrow> 32 | Invalid _ \<Rightarrow> 32 | NoQuorum \<Rightarrow> 0)"

text \<open>The derived order: the variants in their order, then the hash.\<close>

fun vote_key :: "vote \<Rightarrow> nat \<times> hash" where
  "vote_key NoCandidate = (0, [])"
| "vote_key (Valid h) = (1, h)"
| "vote_key (Invalid h) = (2, h)"
| "vote_key NoQuorum = (3, [])"

lemma vote_key_inject: "vote_key a = vote_key b \<longleftrightarrow> a = b"
  by (cases a; cases b) auto

instantiation vote :: linorder
begin

definition less_eq_vote :: "vote \<Rightarrow> vote \<Rightarrow> bool" where
  "less_eq_vote a b \<longleftrightarrow> fst (vote_key a) < fst (vote_key b) \<or>
     fst (vote_key a) = fst (vote_key b) \<and> snd (vote_key a) \<le> snd (vote_key b)"

definition less_vote :: "vote \<Rightarrow> vote \<Rightarrow> bool" where
  "less_vote a b \<longleftrightarrow> fst (vote_key a) < fst (vote_key b) \<or>
     fst (vote_key a) = fst (vote_key b) \<and> snd (vote_key a) < snd (vote_key b)"

instance
  by standard (auto simp: less_eq_vote_def less_vote_def vote_key_inject [symmetric] prod_eq_iff)

end

definition vote_write :: "vote \<Rightarrow> bytes" where
  "vote_write v =
     (case v of
        NoCandidate \<Rightarrow> [0]
      | Valid hash \<Rightarrow> [1] @ hash
      | Invalid hash \<Rightarrow> [2] @ hash
      | NoQuorum \<Rightarrow> [3])"

definition vote_read :: "vote reader" where
  "vote_read =
     rd_bind read_u8 (\<lambda>b.
       if b = 0 then rd_ret NoCandidate
       else if b = 1 then rd_bind (read_bytes 32) (\<lambda>hash. rd_ret (Valid hash))
       else if b = 2 then rd_bind (read_bytes 32) (\<lambda>hash. rd_ret (Invalid hash))
       else if b = 3 then rd_ret NoQuorum
       else rd_fail (IoInvalidData ''Invalid vote''))"

definition vote_ok :: "vote \<Rightarrow> bool" where
  "vote_ok v \<longleftrightarrow> (case v of Valid h \<Rightarrow> array 32 h | Invalid h \<Rightarrow> array 32 h | _ \<Rightarrow> True)"

interpretation vote: canonical_codec vote_ok vote_write vote_read
proof unfold_locales
  show "vote_ok x \<Longrightarrow> vote_read (vote_write x @ rest) = Inr (x, rest)" for x rest
    by (cases x) (simp_all add: vote_read_def vote_write_def vote_ok_def codec_read)
next
  show "vote_read bs = Inr (x, rest) \<Longrightarrow> vote_ok x \<and> bs = vote_write x @ rest" for bs x rest
    by (auto simp: vote_read_def vote_write_def vote_ok_def codec_inv split: if_splits)
qed

lemma vote_write_length: "vote_ok v \<Longrightarrow> length (vote_write v) = vote_size v"
  by (cases v) (simp_all add: vote_write_def vote_size_def vote_ok_def)

datatype ratification_result = Fail vote | Success vote

definition result_of_vote :: "vote \<Rightarrow> ratification_result" where
  "result_of_vote v = (case v of Valid hash \<Rightarrow> Success (Valid hash) | fail \<Rightarrow> Fail fail)"

definition result_vote :: "ratification_result \<Rightarrow> vote" where
  "result_vote r = (case r of Success v \<Rightarrow> v | Fail v \<Rightarrow> v)"

definition result_failed :: "ratification_result \<Rightarrow> bool" where
  "result_failed r = (case r of Success _ \<Rightarrow> False | Fail _ \<Rightarrow> True)"

definition result_write :: "ratification_result \<Rightarrow> bytes" where
  "result_write r = (case r of Fail v \<Rightarrow> [0] @ vote_write v | Success v \<Rightarrow> [1] @ vote_write v)"

definition result_read :: "ratification_result reader" where
  "result_read =
     rd_bind read_u8 (\<lambda>b.
       if b = 0 then rd_bind vote_read (\<lambda>v. rd_ret (Fail v))
       else if b = 1 then rd_bind vote_read (\<lambda>v. rd_ret (Success v))
       else rd_fail (IoInvalidData ''Invalid RatificationResult''))"

definition result_ok :: "ratification_result \<Rightarrow> bool" where
  "result_ok r \<longleftrightarrow> vote_ok (result_vote r)"

interpretation ratification_result: canonical_codec result_ok result_write result_read
proof unfold_locales
  show "result_ok x \<Longrightarrow> result_read (result_write x @ rest) = Inr (x, rest)" for x rest
    by (cases x) (simp_all add: result_read_def result_write_def result_ok_def result_vote_def
        codec_read vote.read_write)
next
  show "result_read bs = Inr (x, rest) \<Longrightarrow> result_ok x \<and> bs = result_write x @ rest" for bs x rest
    by (auto simp: result_read_def result_write_def result_ok_def result_vote_def codec_inv
        vote.read_iff split: if_splits)
qed

section \<open>Consensus headers, step votes and attestations\<close>

record consensus_header =
  ch_prev_block_hash :: hash
  ch_round :: u64
  ch_iteration :: u8

definition consensus_header_write :: "consensus_header \<Rightarrow> bytes" where
  "consensus_header_write h = ch_prev_block_hash h @ to_le_bytes (ch_round h) @ [ch_iteration h]"

definition consensus_header_read :: "consensus_header reader" where
  "consensus_header_read =
     rd_bind (read_bytes 32) (\<lambda>prev_block_hash.
     rd_bind read_u64_le (\<lambda>rnd.
     rd_bind read_u8 (\<lambda>iteration.
       rd_ret \<lparr>ch_prev_block_hash = prev_block_hash, ch_round = rnd, ch_iteration = iteration\<rparr>)))"

definition signable :: "consensus_header \<Rightarrow> bytes" where
  "signable h = consensus_header_write h"

definition consensus_header_ok :: "consensus_header \<Rightarrow> bool" where
  "consensus_header_ok h \<longleftrightarrow> array 32 (ch_prev_block_hash h)"

interpretation consensus_header: canonical_codec
  consensus_header_ok consensus_header_write consensus_header_read
proof unfold_locales
  show "consensus_header_ok x \<Longrightarrow> consensus_header_read (consensus_header_write x @ rest) = Inr (x, rest)"
    for x rest
    by (simp add: consensus_header_ok_def consensus_header_read_def consensus_header_write_def codec_read)
next
  show "consensus_header_read bs = Inr (x, rest) \<Longrightarrow>
      consensus_header_ok x \<and> bs = consensus_header_write x @ rest" for bs x rest
    by (auto simp: consensus_header_ok_def consensus_header_read_def consensus_header_write_def codec_inv)
qed

record step_votes =
  sv_bitset :: u64
  sv_aggregate_signature :: bytes

definition signature_EMPTY :: bytes where
  "signature_EMPTY = replicate 48 0"

definition step_votes_default :: step_votes where
  "step_votes_default = \<lparr>sv_bitset = 0, sv_aggregate_signature = signature_EMPTY\<rparr>"

definition step_votes_new :: "bytes \<Rightarrow> u64 \<Rightarrow> step_votes" where
  "step_votes_new aggregate_signature bitset =
     \<lparr>sv_bitset = bitset, sv_aggregate_signature = aggregate_signature\<rparr>"

definition step_votes_is_empty :: "step_votes \<Rightarrow> bool" where
  "step_votes_is_empty sv \<longleftrightarrow> sv_bitset sv = 0 \<and> sv_aggregate_signature sv = signature_EMPTY"

definition step_votes_write :: "step_votes \<Rightarrow> bytes" where
  "step_votes_write sv = to_le_bytes (sv_bitset sv) @ sv_aggregate_signature sv"

definition step_votes_read :: "step_votes reader" where
  "step_votes_read =
     rd_bind read_u64_le (\<lambda>bitset.
     rd_bind (read_bytes 48) (\<lambda>aggregate_signature.
       rd_ret \<lparr>sv_bitset = bitset, sv_aggregate_signature = aggregate_signature\<rparr>))"

definition step_votes_ok :: "step_votes \<Rightarrow> bool" where
  "step_votes_ok sv \<longleftrightarrow> array 48 (sv_aggregate_signature sv)"

interpretation step_votes: canonical_codec step_votes_ok step_votes_write step_votes_read
proof unfold_locales
  show "step_votes_ok x \<Longrightarrow> step_votes_read (step_votes_write x @ rest) = Inr (x, rest)" for x rest
    by (simp add: step_votes_ok_def step_votes_read_def step_votes_write_def codec_read)
next
  show "step_votes_read bs = Inr (x, rest) \<Longrightarrow> step_votes_ok x \<and> bs = step_votes_write x @ rest"
    for bs x rest
    by (auto simp: step_votes_ok_def step_votes_read_def step_votes_write_def codec_inv)
qed

record attestation =
  at_result :: ratification_result
  at_validation :: step_votes
  at_ratification :: step_votes

definition attestation_default :: attestation where
  "attestation_default =
     \<lparr>at_result = Fail NoQuorum, at_validation = step_votes_default, at_ratification = step_votes_default\<rparr>"

definition attestation_write :: "attestation \<Rightarrow> bytes" where
  "attestation_write a =
     result_write (at_result a) @ step_votes_write (at_validation a) @ step_votes_write (at_ratification a)"

definition attestation_read :: "attestation reader" where
  "attestation_read =
     rd_bind result_read (\<lambda>result.
     rd_bind step_votes_read (\<lambda>validation.
     rd_bind step_votes_read (\<lambda>ratification.
       rd_ret \<lparr>at_result = result, at_validation = validation, at_ratification = ratification\<rparr>)))"

definition attestation_ok :: "attestation \<Rightarrow> bool" where
  "attestation_ok a \<longleftrightarrow>
     result_ok (at_result a) \<and> step_votes_ok (at_validation a) \<and> step_votes_ok (at_ratification a)"

interpretation attestation: canonical_codec attestation_ok attestation_write attestation_read
proof unfold_locales
  show "attestation_ok x \<Longrightarrow> attestation_read (attestation_write x @ rest) = Inr (x, rest)" for x rest
    by (simp add: attestation_ok_def attestation_read_def attestation_write_def
        ratification_result.read_write step_votes.read_write)
next
  show "attestation_read bs = Inr (x, rest) \<Longrightarrow> attestation_ok x \<and> bs = attestation_write x @ rest"
    for bs x rest
    by (auto simp: attestation_ok_def attestation_read_def attestation_write_def rd_bind_Inr
        ratification_result.read_iff step_votes.read_iff)
qed

section \<open>Failed iterations\<close>

type_synonym iteration_info = "attestation \<times> bytes"

type_synonym iterations_info = "iteration_info option list"

definition MESSAGE_MAX_FAILED_ITERATIONS :: u8 where
  "MESSAGE_MAX_FAILED_ITERATIONS = 8"

definition iteration_info_write :: "iteration_info option \<Rightarrow> bytes" where
  "iteration_info_write iter =
     (case iter of Some (att, pk) \<Rightarrow> [1] @ attestation_write att @ pk | None \<Rightarrow> [0])"

definition iterations_info_write :: "iterations_info \<Rightarrow> bytes" where
  "iterations_info_write att_list =
     [of_nat (length att_list)] @ write_many iteration_info_write att_list"

definition iteration_info_read :: "iteration_info option reader" where
  "iteration_info_read =
     rd_bind read_u8 (\<lambda>b.
       if b = 0 then rd_ret None
       else if b = 1 then
         rd_bind attestation_read (\<lambda>att. rd_bind (read_bytes 96) (\<lambda>pk. rd_ret (Some (att, pk))))
       else rd_fail (IoInvalidData ''Invalid option''))"

definition iterations_info_read :: "iterations_info reader" where
  "iterations_info_read =
     rd_bind read_u8 (\<lambda>count.
       if count > MESSAGE_MAX_FAILED_ITERATIONS
       then rd_fail (IoInvalidData ''Invalid iterations_info count'')
       else read_many (unat count) iteration_info_read)"

definition iteration_info_ok :: "iteration_info option \<Rightarrow> bool" where
  "iteration_info_ok iter \<longleftrightarrow> (case iter of Some (att, pk) \<Rightarrow> attestation_ok att \<and> array 96 pk | None \<Rightarrow> True)"

definition iterations_info_ok :: "iterations_info \<Rightarrow> bool" where
  "iterations_info_ok att_list \<longleftrightarrow>
     length att_list \<le> unat MESSAGE_MAX_FAILED_ITERATIONS \<and> (\<forall>iter \<in> set att_list. iteration_info_ok iter)"

interpretation iteration_info: canonical_codec iteration_info_ok iteration_info_write iteration_info_read
proof unfold_locales
  show "iteration_info_ok x \<Longrightarrow> iteration_info_read (iteration_info_write x @ rest) = Inr (x, rest)" for x rest
    by (auto simp: iteration_info_ok_def iteration_info_read_def iteration_info_write_def codec_read
        attestation.read_write split: option.splits)
next
  show "iteration_info_read bs = Inr (x, rest) \<Longrightarrow> iteration_info_ok x \<and> bs = iteration_info_write x @ rest"
    for bs x rest
    by (auto simp: iteration_info_ok_def iteration_info_read_def iteration_info_write_def codec_inv
        attestation.read_iff split: if_splits)
qed

lemma unat_count: "n \<le> unat MESSAGE_MAX_FAILED_ITERATIONS \<Longrightarrow> unat (of_nat n :: u8) = n"
  by (simp add: MESSAGE_MAX_FAILED_ITERATIONS_def unat_of_nat)

interpretation iterations_info: canonical_codec iterations_info_ok iterations_info_write iterations_info_read
proof unfold_locales
  show "iterations_info_ok x \<Longrightarrow> iterations_info_read (iterations_info_write x @ rest) = Inr (x, rest)"
    for x rest
    by (simp add: iterations_info_ok_def iterations_info_read_def iterations_info_write_def codec_read
        iteration_info.read_write_many unat_count not_less word_le_nat_alt)
next
  show "iterations_info_read bs = Inr (x, rest) \<Longrightarrow> iterations_info_ok x \<and> bs = iterations_info_write x @ rest"
    for bs x rest
    by (auto simp: iterations_info_ok_def iterations_info_read_def iterations_info_write_def codec_inv
        iteration_info.read_many_iff not_less word_le_nat_alt split: if_splits)
qed

section \<open>Cryptography\<close>

text \<open>
  What the sources use of \<^verbatim>\<open>dusk-core\<close>'s BLS signatures and of SHA3: reading and writing a multisignature,
  aggregating signatures and public keys, verification, and whether 96 bytes are a public key.  A public
  key is identified with its bytes.  The encodings of the protocol transactions are those of the core
  types.
\<close>

datatype bls_error = BlsError u64

record ('mpk, 'msig) node_crypto =
  nc_pk_valid :: "bytes \<Rightarrow> bool"
  nc_sha3 :: "bytes \<Rightarrow> hash"
  nc_sig_from_bytes :: "bytes \<Rightarrow> bls_error + 'msig"
  nc_sig_to_bytes :: "'msig \<Rightarrow> bytes"
  nc_sig_aggregate :: "'msig \<Rightarrow> 'msig \<Rightarrow> 'msig"
  nc_pk_aggregate :: "public_key list \<Rightarrow> bls_error + 'mpk"
  nc_verify :: "'mpk \<Rightarrow> 'msig \<Rightarrow> bytes \<Rightarrow> bls_error + unit"
  nc_wire :: wire
  nc_phoenix :: phoenix_wire
  nc_sig_size :: nat

record sign_info =
  si_signer :: public_key
  si_signature :: bytes

definition sign_info_write :: "sign_info \<Rightarrow> bytes" where
  "sign_info_write s = si_signer s @ si_signature s"

definition sign_info_read :: "('mpk, 'msig) node_crypto \<Rightarrow> sign_info reader" where
  "sign_info_read nc =
     rd_bind (read_bytes 96) (\<lambda>signer.
       if nc_pk_valid nc signer
       then rd_bind (read_bytes 48) (\<lambda>signature. rd_ret \<lparr>si_signer = signer, si_signature = signature\<rparr>)
       else rd_fail (IoInvalidData []))"

definition sign_info_ok :: "('mpk, 'msig) node_crypto \<Rightarrow> sign_info \<Rightarrow> bool" where
  "sign_info_ok nc s \<longleftrightarrow> array 96 (si_signer s) \<and> nc_pk_valid nc (si_signer s) \<and> array 48 (si_signature s)"

interpretation sign_info: canonical_codec "sign_info_ok nc" sign_info_write "sign_info_read nc" for nc
proof unfold_locales
  show "sign_info_ok nc x \<Longrightarrow> sign_info_read nc (sign_info_write x @ rest) = Inr (x, rest)" for x rest
    by (simp add: sign_info_ok_def sign_info_read_def sign_info_write_def codec_read)
next
  show "sign_info_read nc bs = Inr (x, rest) \<Longrightarrow> sign_info_ok nc x \<and> bs = sign_info_write x @ rest"
    for bs x rest
    by (auto simp: sign_info_ok_def sign_info_read_def sign_info_write_def codec_inv split: if_splits)
qed

text \<open>The check of one signature by one signer, the same code in \<open>SignedStepMessage\<close> and in \<open>Fault\<close>.\<close>

definition verify_signature :: "('mpk, 'msig) node_crypto \<Rightarrow> sign_info \<Rightarrow> bytes \<Rightarrow> bls_error + unit" where
  "verify_signature nc sign_info msg =
     res_bind (nc_sig_from_bytes nc (si_signature sign_info)) (\<lambda>sig.
     res_bind (nc_pk_aggregate nc [si_signer sign_info]) (\<lambda>pk.
       nc_verify nc pk sig msg))"

section \<open>Block headers\<close>

record header =
  h_version :: u8
  h_height :: u64
  h_timestamp :: u64
  h_prev_block_hash :: hash
  h_seed :: seed
  h_state_hash :: hash
  h_event_bloom :: bytes
  h_generator_bls_pubkey :: bytes
  h_txroot :: hash
  h_faultroot :: hash
  h_gas_limit :: u64
  h_iteration :: u8
  h_prev_block_cert :: attestation
  h_failed_iterations :: iterations_info
  h_hash :: hash
  h_signature :: bytes
  h_att :: attestation

definition header_default :: header where
  "header_default =
     \<lparr>h_version = 0, h_height = 0, h_timestamp = 0, h_prev_block_hash = replicate 32 0,
      h_seed = signature_EMPTY, h_state_hash = replicate 32 0, h_event_bloom = replicate 256 0,
      h_generator_bls_pubkey = replicate 96 0, h_txroot = replicate 32 0, h_faultroot = replicate 32 0,
      h_gas_limit = 0, h_iteration = 0, h_prev_block_cert = attestation_default,
      h_failed_iterations = [], h_hash = replicate 32 0, h_signature = signature_EMPTY,
      h_att = attestation_default\<rparr>"

definition to_consensus_header :: "header \<Rightarrow> consensus_header" where
  "to_consensus_header h =
     \<lparr>ch_prev_block_hash = h_prev_block_hash h, ch_round = h_height h, ch_iteration = h_iteration h\<rparr>"

definition marshal_hashable :: "header \<Rightarrow> bytes" where
  "marshal_hashable h =
     [h_version h] @ to_le_bytes (h_height h) @ to_le_bytes (h_timestamp h) @ h_prev_block_hash h @
     h_seed h @ h_state_hash h @ h_event_bloom h @ h_generator_bls_pubkey h @ h_txroot h @
     h_faultroot h @ to_le_bytes (h_gas_limit h) @ [h_iteration h] @
     attestation_write (h_prev_block_cert h) @ iterations_info_write (h_failed_iterations h)"

definition unmarshal_hashable :: "header reader" where
  "unmarshal_hashable =
     rd_bind read_u8 (\<lambda>version.
     rd_bind read_u64_le (\<lambda>height.
     rd_bind read_u64_le (\<lambda>timestamp.
     rd_bind (read_bytes 32) (\<lambda>prev_block_hash.
     rd_bind (read_bytes 48) (\<lambda>seed.
     rd_bind (read_bytes 32) (\<lambda>state_hash.
     rd_bind (read_bytes 256) (\<lambda>event_hash.
     rd_bind (read_bytes 96) (\<lambda>generator_bls_pubkey.
     rd_bind (read_bytes 32) (\<lambda>txroot.
     rd_bind (read_bytes 32) (\<lambda>faultroot.
     rd_bind read_u64_le (\<lambda>gas_limit.
     rd_bind read_u8 (\<lambda>iteration.
     rd_bind attestation_read (\<lambda>prev_block_cert.
     rd_bind iterations_info_read (\<lambda>failed_iterations.
       rd_ret \<lparr>h_version = version, h_height = height, h_timestamp = timestamp,
         h_prev_block_hash = prev_block_hash, h_seed = seed, h_state_hash = state_hash,
         h_event_bloom = event_hash, h_generator_bls_pubkey = generator_bls_pubkey, h_txroot = txroot,
         h_faultroot = faultroot, h_gas_limit = gas_limit, h_iteration = iteration,
         h_prev_block_cert = prev_block_cert, h_failed_iterations = failed_iterations,
         h_hash = replicate 32 0, h_signature = signature_EMPTY, h_att = attestation_default\<rparr>))))))))))))))"

definition header_write :: "header \<Rightarrow> bytes" where
  "header_write h = marshal_hashable h @ attestation_write (h_att h) @ h_hash h @ h_signature h"

definition header_read :: "header reader" where
  "header_read =
     rd_bind unmarshal_hashable (\<lambda>h.
     rd_bind attestation_read (\<lambda>att.
     rd_bind (read_bytes 32) (\<lambda>hash.
     rd_bind (read_bytes 48) (\<lambda>signature.
       rd_ret (h\<lparr>h_att := att, h_hash := hash, h_signature := signature\<rparr>)))))"

definition header_size :: "header \<Rightarrow> nat" where
  "header_size h = length (header_write h)"

definition hashable_ok :: "header \<Rightarrow> bool" where
  "hashable_ok h \<longleftrightarrow>
     array 32 (h_prev_block_hash h) \<and> array 48 (h_seed h) \<and> array 32 (h_state_hash h) \<and>
     array 256 (h_event_bloom h) \<and> array 96 (h_generator_bls_pubkey h) \<and> array 32 (h_txroot h) \<and>
     array 32 (h_faultroot h) \<and> attestation_ok (h_prev_block_cert h) \<and>
     iterations_info_ok (h_failed_iterations h)"

definition header_ok :: "header \<Rightarrow> bool" where
  "header_ok h \<longleftrightarrow>
     hashable_ok h \<and> attestation_ok (h_att h) \<and> array 32 (h_hash h) \<and> array 48 (h_signature h)"

definition bare :: "header \<Rightarrow> header" where
  "bare h = h\<lparr>h_att := attestation_default, h_hash := replicate 32 0, h_signature := signature_EMPTY\<rparr>"

lemma unmarshal_marshal: "hashable_ok h \<Longrightarrow> unmarshal_hashable (marshal_hashable h @ rest) = Inr (bare h, rest)"
  by (simp add: hashable_ok_def unmarshal_hashable_def marshal_hashable_def codec_read bare_def
      attestation.read_write iterations_info.read_write)

lemma unmarshal_iff:
  "unmarshal_hashable bs = Inr (h, rest) \<longleftrightarrow>
     hashable_ok h \<and> bare h = h \<and> bs = marshal_hashable h @ rest"
proof
  assume "hashable_ok h \<and> bare h = h \<and> bs = marshal_hashable h @ rest"
  then show "unmarshal_hashable bs = Inr (h, rest)" by (auto simp: unmarshal_marshal)
next
  assume "unmarshal_hashable bs = Inr (h, rest)"
  then show "hashable_ok h \<and> bare h = h \<and> bs = marshal_hashable h @ rest"
    by (auto simp: unmarshal_hashable_def marshal_hashable_def hashable_ok_def bare_def codec_inv
        attestation.read_iff iterations_info.read_iff)
qed

lemma hashable_update:
  "marshal_hashable (h\<lparr>h_att := att, h_hash := hash, h_signature := signature\<rparr>) = marshal_hashable h"
  "hashable_ok (h\<lparr>h_att := att, h_hash := hash, h_signature := signature\<rparr>) = hashable_ok h"
  by (simp_all add: marshal_hashable_def hashable_ok_def)

interpretation header: canonical_codec header_ok header_write header_read
proof unfold_locales
  show "header_ok x \<Longrightarrow> header_read (header_write x @ rest) = Inr (x, rest)" for x rest
    by (simp add: header_ok_def header_read_def header_write_def unmarshal_marshal codec_read
        attestation.read_write) (simp add: bare_def)
next
  show "header_read bs = Inr (x, rest) \<Longrightarrow> header_ok x \<and> bs = header_write x @ rest" for bs x rest
    by (auto simp: header_read_def codec_inv unmarshal_iff attestation.read_iff header_ok_def
        header_write_def hashable_update)
qed

end
