(* ===== verification/Node_Faults.thy ===== *)
theory Node_Faults
  imports Node_Ledger
begin

text \<open>
  Faults and slashes, \<^verbatim>\<open>node-data/src/ledger/faults.rs\<close>: the evidence of a double candidate or a double
  vote, its encoding, its identity and its validation, and the slashes that a block's failed iterations and
  faults give.
\<close>

section \<open>Faults\<close>

record 'v fault_data =
  fd_header :: consensus_header
  fd_sig :: sign_info
  fd_data :: 'v

datatype fault =
    DoubleCandidate "hash fault_data" "hash fault_data"
  | DoubleRatificationVote "vote fault_data" "vote fault_data"
  | DoubleValidationVote "vote fault_data" "vote fault_data"

datatype invalid_fault =
    FaultDuplicated
  | FaultExpired
  | FaultFuture
  | FaultGenesis
  | FaultPrevHashMismatch
  | FaultIterationMismatch
  | FaultEmergencyIteration
  | FaultRoundMismatch
  | FaultInvalidSignature bls_error
  | FaultOther string

text \<open>\<open>size\<close>: the two headers, the two signers with their signatures, and the data.\<close>

definition fault_size :: "fault \<Rightarrow> nat" where
  "fault_size f =
     (32 + 8 + 1) * 2 + (96 + 48) * 2 +
     (case f of
        DoubleCandidate _ _ \<Rightarrow> 32 * 2
      | DoubleRatificationVote a b \<Rightarrow> vote_size (fd_data a) + vote_size (fd_data b)
      | DoubleValidationVote a b \<Rightarrow> vote_size (fd_data a) + vote_size (fd_data b))"

definition fault_data_write :: "('v \<Rightarrow> bytes) \<Rightarrow> 'v fault_data \<Rightarrow> bytes" where
  "fault_data_write wr d = consensus_header_write (fd_header d) @ sign_info_write (fd_sig d) @ wr (fd_data d)"

definition fault_data_read :: "('mpk, 'msig) node_crypto \<Rightarrow> 'v reader \<Rightarrow> 'v fault_data reader" where
  "fault_data_read nc rd =
     rd_bind consensus_header_read (\<lambda>header.
     rd_bind (sign_info_read nc) (\<lambda>sig.
     rd_bind rd (\<lambda>data.
       rd_ret \<lparr>fd_header = header, fd_sig = sig, fd_data = data\<rparr>)))"

definition fault_write :: "fault \<Rightarrow> bytes" where
  "fault_write f =
     (case f of
        DoubleCandidate a b \<Rightarrow> [0] @ fault_data_write id a @ fault_data_write id b
      | DoubleRatificationVote a b \<Rightarrow> [1] @ fault_data_write vote_write a @ fault_data_write vote_write b
      | DoubleValidationVote a b \<Rightarrow> [2] @ fault_data_write vote_write a @ fault_data_write vote_write b)"

definition fault_read :: "('mpk, 'msig) node_crypto \<Rightarrow> fault reader" where
  "fault_read nc =
     rd_bind read_u8 (\<lambda>p.
       if p = 0 then
         rd_bind (fault_data_read nc (read_bytes 32)) (\<lambda>a.
         rd_bind (fault_data_read nc (read_bytes 32)) (\<lambda>b. rd_ret (DoubleCandidate a b)))
       else if p = 1 then
         rd_bind (fault_data_read nc vote_read) (\<lambda>a.
         rd_bind (fault_data_read nc vote_read) (\<lambda>b. rd_ret (DoubleRatificationVote a b)))
       else if p = 2 then
         rd_bind (fault_data_read nc vote_read) (\<lambda>a.
         rd_bind (fault_data_read nc vote_read) (\<lambda>b. rd_ret (DoubleValidationVote a b)))
       else rd_fail (IoInvalidData ''Invalid fault''))"

text \<open>The seeds of the signed messages, \<open>SIGN_SEED\<close> of \<open>Candidate\<close>, \<open>Validation\<close> and \<open>Ratification\<close>.\<close>

definition candidate_SIGN_SEED :: bytes where
  "candidate_SIGN_SEED = []"

definition validation_SIGN_SEED :: bytes where
  "validation_SIGN_SEED = [1]"

definition ratification_SIGN_SEED :: bytes where
  "ratification_SIGN_SEED = [2]"

definition get_signed_data :: "('v \<Rightarrow> bytes) \<Rightarrow> 'v fault_data \<Rightarrow> bytes \<Rightarrow> bytes" where
  "get_signed_data wr d seed = signable (fd_header d) @ seed @ wr (fd_data d)"

text \<open>The signed messages of the two parts, and with their digests the identities of the parts.\<close>

definition fault_signed :: "fault \<Rightarrow> bytes \<times> bytes" where
  "fault_signed f =
     (case f of
        DoubleCandidate a b \<Rightarrow>
          (get_signed_data id a candidate_SIGN_SEED, get_signed_data id b candidate_SIGN_SEED)
      | DoubleRatificationVote a b \<Rightarrow>
          (get_signed_data vote_write a ratification_SIGN_SEED, get_signed_data vote_write b ratification_SIGN_SEED)
      | DoubleValidationVote a b \<Rightarrow>
          (get_signed_data vote_write a validation_SIGN_SEED, get_signed_data vote_write b validation_SIGN_SEED))"

definition fault_sigs :: "fault \<Rightarrow> sign_info \<times> sign_info" where
  "fault_sigs f =
     (case f of
        DoubleCandidate a b \<Rightarrow> (fd_sig a, fd_sig b)
      | DoubleRatificationVote a b \<Rightarrow> (fd_sig a, fd_sig b)
      | DoubleValidationVote a b \<Rightarrow> (fd_sig a, fd_sig b))"

definition faults_id :: "('mpk, 'msig) node_crypto \<Rightarrow> fault \<Rightarrow> hash \<times> hash" where
  "faults_id nc f = (nc_sha3 nc (fst (fault_signed f)), nc_sha3 nc (snd (fault_signed f)))"

definition fault_digest :: "('mpk, 'msig) node_crypto \<Rightarrow> fault \<Rightarrow> hash" where
  "fault_digest nc f = nc_sha3 nc (fault_write f)"

definition fault_id :: "('mpk, 'msig) node_crypto \<Rightarrow> fault \<Rightarrow> hash" where
  "fault_id nc f = fault_digest nc f"

definition has_id :: "('mpk, 'msig) node_crypto \<Rightarrow> hash \<Rightarrow> fault \<Rightarrow> bool" where
  "has_id nc fid f = (case faults_id nc f of (a, b) \<Rightarrow> a = fid \<or> b = fid)"

definition fault_same :: "('mpk, 'msig) node_crypto \<Rightarrow> fault \<Rightarrow> fault \<Rightarrow> bool" where
  "fault_same nc f other = (case faults_id nc f of (a, b) \<Rightarrow> has_id nc a other \<and> has_id nc b other)"

definition to_culprit :: "fault \<Rightarrow> public_key" where
  "to_culprit f =
     (case f of
        DoubleRatificationVote a _ \<Rightarrow> si_signer (fd_sig a)
      | DoubleValidationVote a _ \<Rightarrow> si_signer (fd_sig a)
      | DoubleCandidate a _ \<Rightarrow> si_signer (fd_sig a))"

definition fault_consensus_header :: "fault \<Rightarrow> consensus_header \<times> consensus_header" where
  "fault_consensus_header f =
     (case f of
        DoubleRatificationVote a b \<Rightarrow> (fd_header a, fd_header b)
      | DoubleValidationVote a b \<Rightarrow> (fd_header a, fd_header b)
      | DoubleCandidate a b \<Rightarrow> (fd_header a, fd_header b))"

definition verify_sigs :: "('mpk, 'msig) node_crypto \<Rightarrow> fault \<Rightarrow> bls_error + unit" where
  "verify_sigs nc f =
     res_bind (verify_signature nc (fst (fault_sigs f)) (fst (fault_signed f))) (\<lambda>_.
       verify_signature nc (snd (fault_sigs f)) (snd (fault_signed f)))"

definition fault_validate ::
    "('mpk, 'msig) node_crypto \<Rightarrow> u64 \<Rightarrow> fault \<Rightarrow> invalid_fault + consensus_header" where
  "fault_validate nc current_height f =
     (case fault_consensus_header f of (h1, h2) \<Rightarrow>
      if ch_iteration h1 \<noteq> ch_iteration h2 then Inl FaultIterationMismatch
      else if ch_round h1 \<noteq> ch_round h2 then Inl FaultRoundMismatch
      else if ch_prev_block_hash h1 \<noteq> ch_prev_block_hash h2 then Inl FaultPrevHashMismatch
      else if fst (faults_id nc f) = snd (faults_id nc f) then Inl FaultDuplicated
      else if ch_round h1 = 0 then Inl FaultGenesis
      else if ch_round h1 < saturating_sub current_height EPOCH then Inl FaultExpired
      else if ch_round h1 > current_height then Inl FaultFuture
      else (case verify_sigs nc f of Inl e \<Rightarrow> Inl (FaultInvalidSignature e) | Inr _ \<Rightarrow> Inr h1))"

section \<open>Slashes\<close>

text \<open>\<open>from_iteration_info\<close>; the caller drops the entries whose generator is no public key.\<close>

definition slash_from_iteration_info ::
    "('mpk, 'msig) node_crypto \<Rightarrow> iteration_info \<Rightarrow> bytes_error + slash_entry option" where
  "slash_from_iteration_info nc info =
     (case info of (att, provisioner) \<Rightarrow>
        let slash =
          (case at_result att of
             Fail NoCandidate \<Rightarrow> Some Soft
           | Fail (Invalid _) \<Rightarrow> Some Hard
           | _ \<Rightarrow> None)
        in case slash of
             None \<Rightarrow> Inr None
           | Some type \<Rightarrow>
               if nc_pk_valid nc provisioner
               then Inr (Some \<lparr>se_provisioner = provisioner, se_type = type\<rparr>)
               else Inl InvalidData)"

definition slash_from_fault :: "fault \<Rightarrow> slash_entry" where
  "slash_from_fault f = \<lparr>se_provisioner = to_culprit f, se_type = HardWithSeverity 2\<rparr>"

definition ok_some :: "'e + 'a option \<Rightarrow> 'a list" where
  "ok_some r = (case r of Inr (Some x) \<Rightarrow> [x] | _ \<Rightarrow> [])"

definition from_iterations_and_faults ::
    "('mpk, 'msig) node_crypto \<Rightarrow> iterations_info \<Rightarrow> fault list \<Rightarrow> slash_entry list" where
  "from_iterations_and_faults nc failed_iterations faults =
     concat (map (\<lambda>info. ok_some (slash_from_iteration_info nc info))
       (concat (map (\<lambda>x. case x of Some i \<Rightarrow> [i] | None \<Rightarrow> []) failed_iterations)))
     @ map slash_from_fault faults"

section \<open>Encoding\<close>

definition fault_data_ok :: "('mpk, 'msig) node_crypto \<Rightarrow> ('v \<Rightarrow> bool) \<Rightarrow> 'v fault_data \<Rightarrow> bool" where
  "fault_data_ok nc ok d \<longleftrightarrow> consensus_header_ok (fd_header d) \<and> sign_info_ok nc (fd_sig d) \<and> ok (fd_data d)"

definition fault_ok :: "('mpk, 'msig) node_crypto \<Rightarrow> fault \<Rightarrow> bool" where
  "fault_ok nc f \<longleftrightarrow>
     (case f of
        DoubleCandidate a b \<Rightarrow> fault_data_ok nc (array 32) a \<and> fault_data_ok nc (array 32) b
      | DoubleRatificationVote a b \<Rightarrow> fault_data_ok nc vote_ok a \<and> fault_data_ok nc vote_ok b
      | DoubleValidationVote a b \<Rightarrow> fault_data_ok nc vote_ok a \<and> fault_data_ok nc vote_ok b)"

lemma fault_data_canonical:
  assumes "canonical_codec ok wr rd"
  shows "canonical_codec (fault_data_ok nc ok) (fault_data_write wr) (fault_data_read nc rd)"
proof -
  have iff: "rd bs = Inr (x, rest) \<longleftrightarrow> ok x \<and> bs = wr x @ rest" for bs x rest
    using assms by (rule canonical_codec.read_iff)
  then have rw: "ok x \<Longrightarrow> rd (wr x @ rest) = Inr (x, rest)" for x rest by blast
  show ?thesis
  proof unfold_locales
    show "fault_data_ok nc ok x \<Longrightarrow> fault_data_read nc rd (fault_data_write wr x @ rest) = Inr (x, rest)"
      for x rest
      by (simp add: fault_data_ok_def fault_data_read_def fault_data_write_def rw
          consensus_header.read_write sign_info.read_write)
  next
    show "fault_data_read nc rd bs = Inr (x, rest) \<Longrightarrow>
        fault_data_ok nc ok x \<and> bs = fault_data_write wr x @ rest" for bs x rest
      by (auto simp: fault_data_ok_def fault_data_read_def fault_data_write_def iff rd_bind_Inr
          consensus_header.read_iff sign_info.read_iff)
  qed
qed

interpretation hash_fault: canonical_codec
  "fault_data_ok nc (array 32)" "fault_data_write id" "fault_data_read nc (read_bytes 32)" for nc
  by (rule fault_data_canonical) (rule b32.canonical_codec_axioms)

interpretation vote_fault: canonical_codec
  "fault_data_ok nc vote_ok" "fault_data_write vote_write" "fault_data_read nc vote_read" for nc
  by (rule fault_data_canonical) (rule vote.canonical_codec_axioms)

interpretation fault: canonical_codec "fault_ok nc" fault_write "fault_read nc" for nc
proof unfold_locales
  show "fault_ok nc x \<Longrightarrow> fault_read nc (fault_write x @ rest) = Inr (x, rest)" for x rest
    by (cases x) (simp_all add: fault_ok_def fault_read_def fault_write_def codec_read
        hash_fault.read_write vote_fault.read_write)
next
  show "fault_read nc bs = Inr (x, rest) \<Longrightarrow> fault_ok nc x \<and> bs = fault_write x @ rest" for bs x rest
    by (auto simp: fault_ok_def fault_read_def fault_write_def codec_inv hash_fault.read_iff
        vote_fault.read_iff split: if_splits)
qed

lemma consensus_header_length: "consensus_header_ok h \<Longrightarrow> length (consensus_header_write h) = 41"
  by (simp add: consensus_header_ok_def consensus_header_write_def)

lemma sign_info_length: "sign_info_ok nc s \<Longrightarrow> length (sign_info_write s) = 144"
  by (simp add: sign_info_ok_def sign_info_write_def)

text \<open>\<open>size\<close> leaves out the byte that tells the kinds of fault apart.\<close>

lemma fault_size_of_encoding:
  assumes "fault_ok nc f"
  shows "length (fault_write f) = fault_size f + 1"
  using assms
  by (cases f) (simp_all add: fault_ok_def fault_write_def fault_size_def fault_data_write_def
      fault_data_ok_def consensus_header_length sign_info_length [where nc = nc] vote_write_length)

section \<open>Validation\<close>

lemma fault_validate_Inr:
  "fault_validate nc height f = Inr h \<longleftrightarrow>
     fault_consensus_header f = (h, h) \<and> fst (faults_id nc f) \<noteq> snd (faults_id nc f) \<and>
     0 < unat (ch_round h) \<and> unat height - 2160 \<le> unat (ch_round h) \<and> ch_round h \<le> height \<and>
     verify_sigs nc f = Inr ()"
proof -
  obtain h1 h2 where hs: "fault_consensus_header f = (h1, h2)" by force
  have "h1 = h2 \<longleftrightarrow> ch_iteration h1 = ch_iteration h2 \<and> ch_round h1 = ch_round h2 \<and>
      ch_prev_block_hash h1 = ch_prev_block_hash h2" by auto
  then show ?thesis
    by (auto simp: fault_validate_def hs word_less_nat_alt word_le_nat_alt unat_saturating_sub unat_EPOCH
        unat_gt_0 not_less split: sum.splits if_splits)
qed

lemma fault_same_iff:
  "fault_same nc f g \<longleftrightarrow>
     {fst (faults_id nc f), snd (faults_id nc f)} \<subseteq> {fst (faults_id nc g), snd (faults_id nc g)}"
  by (auto simp: fault_same_def has_id_def split: prod.splits)

text \<open>
  C29: A fault that was validated proves two different messages of one step of consensus.  The parts have
  the same consensus header, which is neither of the genesis block nor of the future nor older than an epoch,
  the messages they sign differ, and both signatures verify.  Swapping the parts gives the same fault, so
  does any fault with the same two messages: two validated faults are the same exactly when they have the
  same pair of identities.
\<close>

theorem validated_fault_is_evidence:
  assumes "fault_validate nc height f = Inr h" and "fault_validate nc height' g = Inr h'"
  shows "fault_consensus_header f = (h, h) \<and> 1 \<le> unat (ch_round h) \<and> unat (ch_round h) \<le> unat height \<and>
         unat height \<le> unat (ch_round h) + 2160 \<and>
         fst (fault_signed f) \<noteq> snd (fault_signed f) \<and>
         verify_signature nc (fst (fault_sigs f)) (fst (fault_signed f)) = Inr () \<and>
         verify_signature nc (snd (fault_sigs f)) (snd (fault_signed f)) = Inr () \<and>
         (fault_same nc f g \<longleftrightarrow>
            {fst (faults_id nc f), snd (faults_id nc f)} = {fst (faults_id nc g), snd (faults_id nc g)}) \<and>
         (fault_same nc f g \<longleftrightarrow> fault_same nc g f)"
proof -
  note f = assms(1) [unfolded fault_validate_Inr] and g = assms(2) [unfolded fault_validate_Inr]
  have ids: "fst (faults_id nc f) \<noteq> snd (faults_id nc f)" "fst (faults_id nc g) \<noteq> snd (faults_id nc g)"
    using f g by simp_all
  then have "fst (fault_signed f) \<noteq> snd (fault_signed f)" by (auto simp: faults_id_def)
  moreover have "unat height \<le> unat (ch_round h) + 2160" "1 \<le> unat (ch_round h)" using f by auto
  moreover have "fault_same nc f g \<longleftrightarrow>
      {fst (faults_id nc f), snd (faults_id nc f)} = {fst (faults_id nc g), snd (faults_id nc g)}"
    "fault_same nc f g \<longleftrightarrow> fault_same nc g f"
    using ids by (auto simp: fault_same_iff)
  ultimately show ?thesis using f by (auto simp: verify_sigs_def word_le_nat_alt)
qed

text \<open>
  C33: The parts of a fault need not have the same signer.  Validation never compares the signers, so the one
  vote of an honest provisioner together with any other provisioner's different vote in the same step is
  accepted as a double vote, and the first signer is slashed for it, hard and with severity two.
\<close>

theorem honest_vote_is_slashable:
  assumes "verify_signature nc s1 (signable h @ [1] @ vote_write v1) = Inr ()"
    and "verify_signature nc s2 (signable h @ [1] @ vote_write v2) = Inr ()"
    and "nc_sha3 nc (signable h @ [1] @ vote_write v1) \<noteq> nc_sha3 nc (signable h @ [1] @ vote_write v2)"
    and "ch_round h \<noteq> 0" and "ch_round h \<le> height" and "unat height \<le> unat (ch_round h) + 2160"
  shows "\<exists>f. fault_validate nc height f = Inr h \<and> fault_sigs f = (s1, s2) \<and>
           slash_from_fault f = \<lparr>se_provisioner = si_signer s1, se_type = HardWithSeverity 2\<rparr>"
proof -
  let ?f = "DoubleValidationVote \<lparr>fd_header = h, fd_sig = s1, fd_data = v1\<rparr> \<lparr>fd_header = h, fd_sig = s2, fd_data = v2\<rparr>"
  have "fault_validate nc height ?f = Inr h"
    using assms by (simp add: fault_validate_Inr fault_consensus_header_def faults_id_def fault_signed_def
        get_signed_data_def validation_SIGN_SEED_def verify_sigs_def fault_sigs_def unat_gt_0)
  moreover have "fault_sigs ?f = (s1, s2)" by (simp add: fault_sigs_def)
  moreover have "slash_from_fault ?f = \<lparr>se_provisioner = si_signer s1, se_type = HardWithSeverity 2\<rparr>"
    by (simp add: slash_from_fault_def to_culprit_def)
  ultimately show ?thesis by blast
qed

section \<open>A concrete instance of the cryptography\<close>

text \<open>
  Every signature verifies in it and the hash is the identity.
\<close>

definition crypto0 :: "(public_key list, bytes) node_crypto" where
  "crypto0 = \<lparr>
     nc_pk_valid = (\<lambda>_. True),
     nc_sha3 = id,
     nc_sig_from_bytes = Inr,
     nc_sig_to_bytes = id,
     nc_sig_aggregate = (\<lambda>a b. a),
     nc_pk_aggregate = Inr,
     nc_verify = (\<lambda>_ _ _. Inr ()),
     nc_wire = wire0,
     nc_phoenix = phoenix_wire0,
     nc_sig_size = 8 \<rparr>"

definition header0 :: consensus_header where
  "header0 = \<lparr>ch_prev_block_hash = replicate 32 9, ch_round = 5, ch_iteration = 1\<rparr>"

definition signer0 :: "u8 \<Rightarrow> sign_info" where
  "signer0 b = \<lparr>si_signer = replicate 96 b, si_signature = replicate 48 b\<rparr>"

theorem honest_vote_is_slashable_witness:
  "\<exists>f. fault_validate crypto0 7 f = Inr header0 \<and> fault_sigs f = (signer0 1, signer0 2) \<and>
     si_signer (signer0 1) \<noteq> si_signer (signer0 2) \<and>
     slash_from_fault f = \<lparr>se_provisioner = si_signer (signer0 1), se_type = HardWithSeverity 2\<rparr>"
  using honest_vote_is_slashable [of crypto0 "signer0 1" header0 NoCandidate "signer0 2" NoQuorum 7]
  by (simp add: crypto0_def verify_signature_def vote_write_def header0_def signer0_def)

definition fault0 :: fault where
  "fault0 = DoubleValidationVote
     \<lparr>fd_header = header0, fd_sig = signer0 1, fd_data = NoCandidate\<rparr>
     \<lparr>fd_header = header0, fd_sig = signer0 1, fd_data = NoQuorum\<rparr>"

lemma fault0_valid: "fault_validate crypto0 7 fault0 = Inr header0"
  by (simp add: fault_validate_Inr fault0_def fault_consensus_header_def faults_id_def fault_signed_def
      get_signed_data_def vote_write_def verify_sigs_def verify_signature_def crypto0_def header0_def)

theorem validated_fault_is_evidence_witness:
  "fault_validate crypto0 7 fault0 = Inr header0 \<and> fst (fault_signed fault0) \<noteq> snd (fault_signed fault0) \<and>
   fault_same crypto0 fault0 fault0"
  using validated_fault_is_evidence [OF fault0_valid fault0_valid] fault0_valid by simp

end
