(* ===== verification/Node_Wire.thy ===== *)
theory Node_Wire
  imports Node_Faults
begin

text \<open>
  Transactions and blocks on the wire, \<^verbatim>\<open>node-data/src/encoding.rs\<close> with \<^verbatim>\<open>ledger/transaction.rs\<close> and
  \<^verbatim>\<open>ledger/block.rs\<close>: their encodings, the hash of a block, and what a candidate's size is made of.
\<close>

section \<open>Transactions\<close>

definition ledger_tx_from :: "transaction \<Rightarrow> ledger_tx" where
  "ledger_tx_from tx = \<lparr>lt_version = 1, lt_type = 1, lt_inner = tx, lt_size = None\<rparr>"

definition tx_data :: "('mpk, 'msig) node_crypto \<Rightarrow> ledger_tx \<Rightarrow> bytes" where
  "tx_data nc t = tx_to_var_bytes (nc_wire nc) (nc_phoenix nc) (lt_inner t)"

definition ledger_tx_write :: "('mpk, 'msig) node_crypto \<Rightarrow> ledger_tx \<Rightarrow> bytes" where
  "ledger_tx_write nc t =
     to_le_bytes (lt_version t) @ to_le_bytes (lt_type t) @ write_var_le_bytes32 (tx_data nc t)"

definition ledger_tx_read :: "('mpk, 'msig) node_crypto \<Rightarrow> ledger_tx reader" where
  "ledger_tx_read nc =
     rd_bind read_u32_le (\<lambda>version.
     rd_bind read_u32_le (\<lambda>tx_type.
     rd_bind read_var_le_bytes32 (\<lambda>protocol_tx.
       (case tx_from_slice (nc_wire nc) (nc_phoenix nc) (nc_sig_size nc) protocol_tx of
          Inl (BytesErr _) \<Rightarrow> rd_fail (IoInvalidData [])
        | Inl SlicePanic \<Rightarrow> rd_fail IoPanic
        | Inr inner \<Rightarrow> rd_ret \<lparr>lt_version = version, lt_type = tx_type, lt_inner = inner,
                           lt_size = Some (length protocol_tx)\<rparr>))))"

definition ledger_tx_digest :: "('mpk, 'msig) node_crypto \<Rightarrow> ledger_tx \<Rightarrow> hash" where
  "ledger_tx_digest nc t = nc_sha3 nc (tx_data nc t)"

definition tx_size :: "('mpk, 'msig) node_crypto \<Rightarrow> ledger_tx \<Rightarrow> nat" where
  "tx_size nc t = (case lt_size t of Some n \<Rightarrow> n | None \<Rightarrow> length (ledger_tx_write nc t))"

definition tx_decodes :: "('mpk, 'msig) node_crypto \<Rightarrow> ledger_tx \<Rightarrow> bool" where
  "tx_decodes nc t \<longleftrightarrow>
     short32 (tx_data nc t) \<and>
     tx_from_slice (nc_wire nc) (nc_phoenix nc) (nc_sig_size nc) (tx_data nc t) = Inr (lt_inner t)"

lemma ledger_tx_read_write:
  "tx_decodes nc t \<Longrightarrow>
     ledger_tx_read nc (ledger_tx_write nc t @ rest) = Inr (t\<lparr>lt_size := Some (length (tx_data nc t))\<rparr>, rest)"
  by (simp add: tx_decodes_def ledger_tx_read_def ledger_tx_write_def codec_read)

text \<open>A transaction that came over the wire has its size.\<close>

definition ledger_tx_ok :: "('mpk, 'msig) node_crypto \<Rightarrow> ledger_tx \<Rightarrow> bool" where
  "ledger_tx_ok nc t \<longleftrightarrow> tx_decodes nc t \<and> lt_size t = Some (length (tx_data nc t))"

interpretation ledger_tx: wire_codec "ledger_tx_ok nc" "ledger_tx_write nc" "ledger_tx_read nc" for nc
proof unfold_locales
  show "ledger_tx_read nc (ledger_tx_write nc x @ rest) = Inr (x, rest)" if "ledger_tx_ok nc x" for x rest
  proof -
    have "x\<lparr>lt_size := Some (length (tx_data nc x))\<rparr> = x" using that by (simp add: ledger_tx_ok_def)
    with that show ?thesis using ledger_tx_read_write [of nc x rest] by (simp only: ledger_tx_ok_def)
  qed
qed

lemma ledger_tx_length:
  "tx_decodes nc t \<Longrightarrow> length (ledger_tx_write nc t) = length (tx_data nc t) + 12"
  by (simp add: ledger_tx_write_def write_var_le_bytes32_def)

subsection \<open>Spent transactions\<close>

definition string_bytes :: "string \<Rightarrow> bytes" where
  "string_bytes s = map (\<lambda>c. of_nat (of_char c)) s"

definition bytes_string :: "bytes \<Rightarrow> string" where
  "bytes_string bs = map (\<lambda>b. char_of (unat b)) bs"

definition spent_tx_write :: "('mpk, 'msig) node_crypto \<Rightarrow> spent_tx \<Rightarrow> bytes" where
  "spent_tx_write nc s =
     ledger_tx_write nc (sp_inner s) @ to_le_bytes (sp_block_height s) @ to_le_bytes (sp_gas_spent s) @
     (case sp_err s of
        Some e \<Rightarrow> to_le_bytes (of_nat (length (string_bytes e)) :: u32) @ string_bytes e
      | None \<Rightarrow> to_le_bytes (0 :: u64))"

definition spent_tx_read :: "('mpk, 'msig) node_crypto \<Rightarrow> spent_tx reader" where
  "spent_tx_read nc =
     rd_bind (ledger_tx_read nc) (\<lambda>inner.
     rd_bind read_u64_le (\<lambda>block_height.
     rd_bind read_u64_le (\<lambda>gas_spent.
     rd_bind read_u32_le (\<lambda>error_len.
     rd_bind
       (if error_len > 0 then
          rd_bind (read_bytes (unat error_len)) (\<lambda>buf.
            if utf8_valid buf then rd_ret (Some (bytes_string buf)) else rd_fail IoPanic)
        else rd_ret None) (\<lambda>err.
       rd_ret \<lparr>sp_inner = inner, sp_block_height = block_height, sp_gas_spent = gas_spent, sp_err = err\<rparr>)))))"

lemma bytes_string_bytes: "bytes_string (string_bytes s) = s"
proof -
  have "unat (of_nat (of_char c) :: u8) = of_char c" for c
    by (simp add: unat_of_nat)
  then show ?thesis by (simp add: bytes_string_def string_bytes_def comp_def)
qed

lemma spent_tx_read_step:
  assumes "ledger_tx_ok nc (sp_inner s)"
  shows "spent_tx_read nc (ledger_tx_write nc (sp_inner s) @ to_le_bytes (sp_block_height s) @
           to_le_bytes (sp_gas_spent s) @ to_le_bytes (len :: u32) @ rest) =
         rd_bind
           (if len > 0 then
              rd_bind (read_bytes (unat len)) (\<lambda>buf.
                if utf8_valid buf then rd_ret (Some (bytes_string buf)) else rd_fail IoPanic)
            else rd_ret None) (\<lambda>err. rd_ret (s\<lparr>sp_err := err\<rparr>)) rest"
  using assms by (cases s) (simp add: spent_tx_read_def ledger_tx.read_write codec_read)

text \<open>
  Spent transactions and their error.  A failed transaction with a message is read back as it was
  written.  A successful one comes back too, but four bytes of what was written for it are left over: the
  length of the error is written with eight bytes and read with four.  And a failure with an empty message is
  read back as a success.
\<close>

theorem spent_tx_roundtrip:
  assumes "ledger_tx_ok nc (sp_inner s)"
  shows "(sp_err s = None \<longrightarrow> spent_tx_read nc (spent_tx_write nc s @ rest) = Inr (s, [0, 0, 0, 0] @ rest)) \<and>
         (sp_err s = Some [] \<longrightarrow> spent_tx_read nc (spent_tx_write nc s @ rest) = Inr (s\<lparr>sp_err := None\<rparr>, rest)) \<and>
         (\<forall>e. sp_err s = Some e \<and> e \<noteq> [] \<and> length e < 2 ^ 32 \<and> utf8_valid (string_bytes e) \<longrightarrow>
           spent_tx_read nc (spent_tx_write nc s @ rest) = Inr (s, rest))"
proof (intro conjI allI impI)
  note step = spent_tx_read_step [OF assms]
  have zero: "to_le_bytes (0 :: u64) = to_le_bytes (0 :: u32) @ [0, 0, 0, 0]"
    by code_simp
  show "spent_tx_read nc (spent_tx_write nc s @ rest) = Inr (s, [0, 0, 0, 0] @ rest)" if "sp_err s = None"
    using that step [of 0 "[0, 0, 0, 0] @ rest"] by (simp add: spent_tx_write_def zero)
  show "spent_tx_read nc (spent_tx_write nc s @ rest) = Inr (s\<lparr>sp_err := None\<rparr>, rest)" if "sp_err s = Some []"
    using that step [of 0 rest] by (simp add: spent_tx_write_def string_bytes_def)
  fix e assume e: "sp_err s = Some e \<and> e \<noteq> [] \<and> length e < 2 ^ 32 \<and> utf8_valid (string_bytes e)"
  let ?len = "of_nat (length (string_bytes e)) :: u32"
  have len: "unat ?len = length (string_bytes e)" using e by (simp add: string_bytes_def unat_of_nat)
  then have "?len > 0" using e by (simp add: word_less_nat_alt string_bytes_def)
  with e len step [of ?len "string_bytes e @ rest"]
  show "spent_tx_read nc (spent_tx_write nc s @ rest) = Inr (s, rest)"
    by (simp add: spent_tx_write_def codec_read bytes_string_bytes)
qed

section \<open>Blocks\<close>

record block =
  bl_header :: header
  bl_txs :: "ledger_tx list"
  bl_faults :: "fault list"

definition calculate_hash :: "('mpk, 'msig) node_crypto \<Rightarrow> block \<Rightarrow> block" where
  "calculate_hash nc b =
     (if h_hash (bl_header b) \<noteq> replicate 32 0 then b
      else b\<lparr>bl_header := (bl_header b)\<lparr>h_hash := nc_sha3 nc (marshal_hashable (bl_header b))\<rparr>\<rparr>)"

definition block_new ::
    "('mpk, 'msig) node_crypto \<Rightarrow> header \<Rightarrow> ledger_tx list \<Rightarrow> fault list \<Rightarrow> block" where
  "block_new nc header txs faults =
     calculate_hash nc \<lparr>bl_header = header, bl_txs = txs, bl_faults = faults\<rparr>"

definition block_write :: "('mpk, 'msig) node_crypto \<Rightarrow> block \<Rightarrow> bytes" where
  "block_write nc b =
     header_write (bl_header b) @
     to_le_bytes (of_nat (length (bl_txs b)) :: u32) @ write_many (ledger_tx_write nc) (bl_txs b) @
     to_le_bytes (of_nat (length (bl_faults b)) :: u32) @ write_many fault_write (bl_faults b)"

definition block_read :: "('mpk, 'msig) node_crypto \<Rightarrow> block reader" where
  "block_read nc =
     rd_bind header_read (\<lambda>header.
     rd_bind read_u32_le (\<lambda>tx_len.
     rd_bind (read_many (unat tx_len) (ledger_tx_read nc)) (\<lambda>txs.
     rd_bind read_u32_le (\<lambda>faults_len.
     rd_bind (read_many (unat faults_len) (fault_read nc)) (\<lambda>faults.
       rd_ret (block_new nc header txs faults))))))"

definition block_size :: "('mpk, 'msig) node_crypto \<Rightarrow> block \<Rightarrow> nat" where
  "block_size nc b = length (block_write nc b)"

definition set_block_attestation :: "attestation \<Rightarrow> block \<Rightarrow> block" where
  "set_block_attestation att b = b\<lparr>bl_header := (bl_header b)\<lparr>h_att := att\<rparr>\<rparr>"

definition set_block_signature :: "bytes \<Rightarrow> block \<Rightarrow> block" where
  "set_block_signature signature b = b\<lparr>bl_header := (bl_header b)\<lparr>h_signature := signature\<rparr>\<rparr>"

definition slash_from_block :: "('mpk, 'msig) node_crypto \<Rightarrow> block \<Rightarrow> slash_entry list" where
  "slash_from_block nc b = from_iterations_and_faults nc (h_failed_iterations (bl_header b)) (bl_faults b)"

definition block_ok :: "('mpk, 'msig) node_crypto \<Rightarrow> block \<Rightarrow> bool" where
  "block_ok nc b \<longleftrightarrow>
     header_ok (bl_header b) \<and> h_hash (bl_header b) \<noteq> replicate 32 0 \<and>
     length (bl_txs b) < 2 ^ 32 \<and> (\<forall>t \<in> set (bl_txs b). ledger_tx_ok nc t) \<and>
     length (bl_faults b) < 2 ^ 32 \<and> (\<forall>f \<in> set (bl_faults b). fault_ok nc f)"

interpretation block: wire_codec "block_ok nc" "block_write nc" "block_read nc" for nc
proof unfold_locales
  show "block_ok nc x \<Longrightarrow> block_read nc (block_write nc x @ rest) = Inr (x, rest)" for x rest
    by (simp add: block_ok_def block_read_def block_write_def header.read_write codec_read unat_of_nat
        ledger_tx.read_write_many fault.read_write_many block_new_def calculate_hash_def)
qed

text \<open>
  C23: Blocks survive the network.  A block with transactions and faults that came over the wire, or was
  stored, is read back exactly as it was written, whatever follows it; the hash is not computed again
  unless it is all zeros; and no encoding of a block is a proper prefix of the encoding of another, so two
  blocks with the same bytes are equal.
\<close>

theorem block_roundtrip:
  assumes "block_ok nc b"
  shows "block_read nc (block_write nc b @ rest) = Inr (b, rest) \<and>
         (\<forall>b' rest'. block_ok nc b' \<and> block_write nc b @ rest = block_write nc b' @ rest' \<longrightarrow>
            b' = b \<and> rest' = rest)"
  using block.read_write [OF assms] block.prefix_free [OF assms] by blast

lemma concat_length: "length (write_many wr xs) = (\<Sum>x \<leftarrow> xs. length (wr x))"
  by (simp add: write_many_def length_concat comp_def)

lemma sum_list_add1: "(\<Sum>x \<leftarrow> xs. f x + (c :: nat)) = (\<Sum>x \<leftarrow> xs. f x) + c * length xs"
  by (induction xs) simp_all

text \<open>
  A candidate's size is more than its generator accounts for.  The block is longer than the header,
  the faults and the transactions by their sizes: by the four bytes of the count of the transactions, which
  \<open>execute_transactions\<close> sets aside, and by one byte of every fault and twelve bytes of every transaction
  that came over the wire, which nothing sets aside.
\<close>

theorem block_size_accounting:
  assumes "block_ok nc b"
  shows "block_size nc b =
           header_size (bl_header b) + (4 + (\<Sum>f \<leftarrow> bl_faults b. fault_size f)) +
           (\<Sum>t \<leftarrow> bl_txs b. tx_size nc t) +
           (4 + length (bl_faults b) + 12 * length (bl_txs b))"
proof -
  have "(\<Sum>f \<leftarrow> bl_faults b. length (fault_write f)) = (\<Sum>f \<leftarrow> bl_faults b. fault_size f + 1)"
    using assms by (intro arg_cong [where f = sum_list] map_cong) (auto simp: block_ok_def fault_size_of_encoding)
  moreover have "(\<Sum>t \<leftarrow> bl_txs b. length (ledger_tx_write nc t)) = (\<Sum>t \<leftarrow> bl_txs b. tx_size nc t + 12)"
    using assms by (intro arg_cong [where f = sum_list] map_cong)
      (auto simp: block_ok_def ledger_tx_ok_def ledger_tx_length tx_size_def)
  ultimately show ?thesis
    by (simp only: block_size_def block_write_def header_size_def length_append concat_length
        length_to_le_bytes sum_list_add1) simp
qed

section \<open>Samples\<close>

definition moonlight0 :: moonlight_transaction where
  "moonlight0 = \<lparr>mt_payload = sample_payload, mt_signature = BlsSignature 3\<rparr>"

definition ledger_tx0 :: ledger_tx where
  "ledger_tx0 = (ledger_tx_from (Moonlight moonlight0))
     \<lparr>lt_size := Some (length (tx_to_var_bytes wire0 phoenix_wire0 (Moonlight moonlight0)))\<rparr>"

lemma ledger_tx0_ok: "ledger_tx_ok crypto0 ledger_tx0"
proof -
  have "tx_from_slice wire0 phoenix_wire0 8 (tx_to_var_bytes wire0 phoenix_wire0 (Moonlight moonlight0)) =
      Inr (Moonlight moonlight0)"
    using sample_payload_wf sample_payload_short wire0_laws
    by (intro moonlight_tx_decodes) (simp_all add: moonlight0_def wire0_def)
  moreover have "short32 (tx_to_var_bytes wire0 phoenix_wire0 (Moonlight moonlight0))"
    by (simp add: short32_def tx_to_var_bytes_def mt_to_var_bytes_def moonlight0_def payload_to_var_bytes_def
        data_to_var_bytes_def call_to_var_bytes_def len_bytes_def wire0_def sample_payload_def reserved_code Let_def)
  ultimately show ?thesis
    by (simp add: ledger_tx_ok_def tx_decodes_def tx_data_def ledger_tx0_def ledger_tx_from_def crypto0_def)
qed

definition block0 :: block where
  "block0 = \<lparr>bl_header = header_default\<lparr>h_hash := replicate 32 1\<rparr>, bl_txs = [ledger_tx0], bl_faults = [fault0]\<rparr>"

lemma sample_block_ok: "block_ok crypto0 block0"
  using ledger_tx0_ok
  by (simp add: block_ok_def block0_def header_ok_def hashable_ok_def header_default_def attestation_ok_def
      attestation_default_def result_ok_def result_vote_def vote_ok_def step_votes_ok_def step_votes_default_def
      signature_EMPTY_def iterations_info_ok_def fault_ok_def fault0_def fault_data_ok_def
      consensus_header_ok_def header0_def sign_info_ok_def signer0_def crypto0_def)

theorem block_roundtrip_witness:
  "block_read crypto0 (block_write crypto0 block0 @ [7]) = Inr (block0, [7])"
  using block_roundtrip [OF sample_block_ok, of "[7]"] by simp

theorem block_size_accounting_witness:
  "block_size crypto0 block0 =
     header_size (bl_header block0) + (4 + fault_size fault0) + tx_size crypto0 ledger_tx0 + 17"
  using block_size_accounting [OF sample_block_ok] by (simp add: block0_def)

definition spent0 :: "string option \<Rightarrow> spent_tx" where
  "spent0 err = \<lparr>sp_inner = ledger_tx0, sp_block_height = 3, sp_gas_spent = 4, sp_err = err\<rparr>"

theorem spent_tx_roundtrip_witness:
  "spent_tx_read crypto0 (spent_tx_write crypto0 (spent0 None)) = Inr (spent0 None, [0, 0, 0, 0]) \<and>
   spent_tx_read crypto0 (spent_tx_write crypto0 (spent0 (Some []))) = Inr (spent0 None, []) \<and>
   spent_tx_read crypto0 (spent_tx_write crypto0 (spent0 (Some ''no''))) = Inr (spent0 (Some ''no''), [])"
  using spent_tx_roundtrip [of crypto0 "spent0 None" "[]"] spent_tx_roundtrip [of crypto0 "spent0 (Some [])" "[]"]
    spent_tx_roundtrip [of crypto0 "spent0 (Some ''no'')" "[]"] ledger_tx0_ok
  by (simp add: spent0_def string_bytes_def)

end
