(* ===== verification/Node_Message.thy ===== *)
theory Node_Message
  imports Node_Wire
begin

text \<open>
  The messages of the network, \<^verbatim>\<open>node-data/src/message.rs\<close> and the encodings of their payloads: consensus
  messages (candidates, votes, quorums), data exchange (inventories and requests), and the tagged message
  with its version.
\<close>

section \<open>Votes of the steps\<close>

datatype quorum_type = QValid | QInvalid | QNoCandidate | QNoQuorum

definition quorum_u8 :: "quorum_type \<Rightarrow> u8" where
  "quorum_u8 q = (case q of QValid \<Rightarrow> 0 | QInvalid \<Rightarrow> 1 | QNoCandidate \<Rightarrow> 2 | QNoQuorum \<Rightarrow> 255)"

definition quorum_from_u8 :: "u8 \<Rightarrow> quorum_type" where
  "quorum_from_u8 v = (if v = 0 then QValid else if v = 1 then QInvalid else if v = 2 then QNoCandidate else QNoQuorum)"

record validation_result =
  vr_quorum :: quorum_type
  vr_vote :: vote
  vr_sv :: step_votes

definition validation_result_write :: "validation_result \<Rightarrow> bytes" where
  "validation_result_write r = step_votes_write (vr_sv r) @ vote_write (vr_vote r) @ [quorum_u8 (vr_quorum r)]"

definition validation_result_read :: "validation_result reader" where
  "validation_result_read =
     rd_bind step_votes_read (\<lambda>sv. rd_bind vote_read (\<lambda>vote. rd_bind read_u8 (\<lambda>q.
       rd_ret \<lparr>vr_quorum = quorum_from_u8 q, vr_vote = vote, vr_sv = sv\<rparr>)))"

record validation =
  va_header :: consensus_header
  va_vote :: vote
  va_sign_info :: sign_info

definition validation_write :: "validation \<Rightarrow> bytes" where
  "validation_write v = consensus_header_write (va_header v) @ vote_write (va_vote v) @ sign_info_write (va_sign_info v)"

definition validation_read :: "('mpk, 'msig) node_crypto \<Rightarrow> validation reader" where
  "validation_read nc =
     rd_bind consensus_header_read (\<lambda>header. rd_bind vote_read (\<lambda>vote. rd_bind (sign_info_read nc) (\<lambda>sign_info.
       rd_ret \<lparr>va_header = header, va_vote = vote, va_sign_info = sign_info\<rparr>)))"

record ratification =
  ra_header :: consensus_header
  ra_vote :: vote
  ra_timestamp :: u64
  ra_validation_result :: validation_result
  ra_sign_info :: sign_info

definition ratification_write :: "ratification \<Rightarrow> bytes" where
  "ratification_write r =
     consensus_header_write (ra_header r) @ vote_write (ra_vote r) @ to_le_bytes (ra_timestamp r) @
     validation_result_write (ra_validation_result r) @ sign_info_write (ra_sign_info r)"

definition ratification_read :: "('mpk, 'msig) node_crypto \<Rightarrow> ratification reader" where
  "ratification_read nc =
     rd_bind consensus_header_read (\<lambda>header.
     rd_bind vote_read (\<lambda>vote.
     rd_bind read_u64_le (\<lambda>timestamp.
     rd_bind validation_result_read (\<lambda>validation_result.
     rd_bind (sign_info_read nc) (\<lambda>sign_info.
       rd_ret \<lparr>ra_header = header, ra_vote = vote, ra_timestamp = timestamp,
         ra_validation_result = validation_result, ra_sign_info = sign_info\<rparr>)))))"

text \<open>The message that is signed: the header, the seed of the step, the vote.\<close>

definition validation_signable :: "validation \<Rightarrow> bytes" where
  "validation_signable v = signable (va_header v) @ validation_SIGN_SEED @ vote_write (va_vote v)"

definition ratification_signable :: "ratification \<Rightarrow> bytes" where
  "ratification_signable r = signable (ra_header r) @ ratification_SIGN_SEED @ vote_write (ra_vote r)"

record quorum =
  qu_header :: consensus_header
  qu_att :: attestation

definition quorum_write :: "quorum \<Rightarrow> bytes" where
  "quorum_write q = consensus_header_write (qu_header q) @ attestation_write (qu_att q)"

definition quorum_read :: "quorum reader" where
  "quorum_read =
     rd_bind consensus_header_read (\<lambda>header. rd_bind attestation_read (\<lambda>att.
       rd_ret \<lparr>qu_header = header, qu_att = att\<rparr>))"

record validation_quorum_msg =
  vq_header :: consensus_header
  vq_result :: validation_result

definition validation_quorum_write :: "validation_quorum_msg \<Rightarrow> bytes" where
  "validation_quorum_write q = consensus_header_write (vq_header q) @ validation_result_write (vq_result q)"

definition validation_quorum_read :: "validation_quorum_msg reader" where
  "validation_quorum_read =
     rd_bind consensus_header_read (\<lambda>header. rd_bind validation_result_read (\<lambda>result.
       rd_ret \<lparr>vq_header = header, vq_result = result\<rparr>))"

section \<open>Data exchange\<close>

datatype inv_type =
    MempoolTx | BlockFromHash | BlockFromHeight | CandidateFromHash | CandidateFromIteration | InvValidationResult

datatype inv_param = PHash hash | PHeight u64 | PIteration consensus_header

record inv_vect =
  iv_type :: inv_type
  iv_param :: inv_param

record inv =
  in_list :: "inv_vect list"
  in_max_entries :: u16

definition inv_type_u8 :: "inv_type \<Rightarrow> u8" where
  "inv_type_u8 t =
     (case t of
        MempoolTx \<Rightarrow> 0 | BlockFromHash \<Rightarrow> 1 | BlockFromHeight \<Rightarrow> 2 | CandidateFromHash \<Rightarrow> 3
      | CandidateFromIteration \<Rightarrow> 4 | InvValidationResult \<Rightarrow> 5)"

definition inv_item_write :: "inv_vect \<Rightarrow> bytes" where
  "inv_item_write item =
     [inv_type_u8 (iv_type item)] @
     (case iv_param item of
        PHash hash \<Rightarrow> hash
      | PHeight height \<Rightarrow> to_le_bytes height
      | PIteration ch \<Rightarrow> consensus_header_write ch)"

definition inv_write :: "inv \<Rightarrow> bytes" where
  "inv_write i =
     to_le_bytes (of_nat (length (in_list i)) :: u32) @ write_many inv_item_write (in_list i) @
     to_le_bytes (in_max_entries i)"

definition inv_item_read :: "inv_vect reader" where
  "inv_item_read =
     rd_bind read_u8 (\<lambda>t.
       if t = 0 then rd_bind (read_bytes 32) (\<lambda>hash. rd_ret \<lparr>iv_type = MempoolTx, iv_param = PHash hash\<rparr>)
       else if t = 1 then rd_bind (read_bytes 32) (\<lambda>hash. rd_ret \<lparr>iv_type = BlockFromHash, iv_param = PHash hash\<rparr>)
       else if t = 2 then rd_bind read_u64_le (\<lambda>h. rd_ret \<lparr>iv_type = BlockFromHeight, iv_param = PHeight h\<rparr>)
       else if t = 3 then rd_bind (read_bytes 32) (\<lambda>hash. rd_ret \<lparr>iv_type = CandidateFromHash, iv_param = PHash hash\<rparr>)
       else if t = 4 then
         rd_bind consensus_header_read (\<lambda>ch. rd_ret \<lparr>iv_type = CandidateFromIteration, iv_param = PIteration ch\<rparr>)
       else if t = 5 then
         rd_bind consensus_header_read (\<lambda>ch. rd_ret \<lparr>iv_type = InvValidationResult, iv_param = PIteration ch\<rparr>)
       else rd_fail (IoInvalidData []))"

definition inv_read :: "inv reader" where
  "inv_read =
     rd_bind read_u32_le (\<lambda>items_len.
     rd_bind (read_many (unat items_len) inv_item_read) (\<lambda>items.
     rd_bind read_u16_le (\<lambda>max_entries.
       rd_ret \<lparr>in_list = items, in_max_entries = max_entries\<rparr>)))"

record get_blocks =
  gb_locator :: hash
  gb_nonce :: bytes

definition get_blocks_write :: "get_blocks \<Rightarrow> bytes" where
  "get_blocks_write g = gb_locator g @ gb_nonce g"

definition get_blocks_read :: "get_blocks reader" where
  "get_blocks_read =
     rd_bind (read_bytes 32) (\<lambda>locator. rd_bind (read_bytes 8) (\<lambda>nonce.
       rd_ret \<lparr>gb_locator = locator, gb_nonce = nonce\<rparr>))"

datatype socket_addr = V4 bytes u16 | V6 bytes u16 u32 u32

definition nonce_from_v4 :: "bytes \<Rightarrow> bytes" where
  "nonce_from_v4 octets = to_le_bytes (ucast (from_le_bytes octets :: u32) :: u64)"

definition nonce_from_v6 :: "bytes \<Rightarrow> bytes" where
  "nonce_from_v6 octets = map (\<lambda>(a, b). a + b) (zip (take 8 octets) (drop 8 octets))"

text \<open>The flow information and the scope of an address are not sent.\<close>

definition socket_addr_write :: "socket_addr \<Rightarrow> bytes" where
  "socket_addr_write a =
     (case a of
        V4 octets port \<Rightarrow> [4] @ octets @ to_le_bytes port
      | V6 octets port _ _ \<Rightarrow> [6] @ octets @ to_le_bytes port)"

definition socket_addr_read :: "socket_addr reader" where
  "socket_addr_read =
     rd_bind read_u8 (\<lambda>ip_type.
       if ip_type = 4 then rd_bind (read_bytes 4) (\<lambda>octets. rd_bind read_u16_le (\<lambda>port. rd_ret (V4 octets port)))
       else if ip_type = 6 then
         rd_bind (read_bytes 16) (\<lambda>octets. rd_bind read_u16_le (\<lambda>port. rd_ret (V6 octets port 0 0)))
       else rd_fail (IoInvalidData ''Invalid IP type''))"

record get_resource =
  gr_inventory :: inv
  gr_requester_addr :: "socket_addr option"
  gr_ttl_as_sec :: u64
  gr_hops_limit :: u16

definition clone_with_hop_decrement :: "get_resource \<Rightarrow> get_resource option" where
  "clone_with_hop_decrement g =
     (if gr_hops_limit g \<le> 1 then None else Some (g\<lparr>gr_hops_limit := gr_hops_limit g - 1\<rparr>))"

definition is_expired :: "u64 \<Rightarrow> get_resource \<Rightarrow> bool" where
  "is_expired now g \<longleftrightarrow> now > gr_ttl_as_sec g"

definition get_resource_write :: "get_resource \<Rightarrow> io_error + bytes" where
  "get_resource_write g =
     (case gr_requester_addr g of
        None \<Rightarrow> Inl (IoInvalidData ''Requester address is missing'')
      | Some addr \<Rightarrow>
          Inr (inv_write (gr_inventory g) @ socket_addr_write addr @ to_le_bytes (gr_ttl_as_sec g) @
               to_le_bytes (gr_hops_limit g)))"

definition get_resource_read :: "get_resource reader" where
  "get_resource_read =
     rd_bind inv_read (\<lambda>inner.
     rd_bind socket_addr_read (\<lambda>addr.
     rd_bind read_u64_le (\<lambda>ttl.
     rd_bind read_u16_le (\<lambda>hops.
       rd_ret \<lparr>gr_inventory = inner, gr_requester_addr = Some addr, gr_ttl_as_sec = ttl, gr_hops_limit = hops\<rparr>))))"

section \<open>Messages\<close>

datatype topic =
    TGetResource | TGetBlocks | TGetMempool | TInv | TTx | TBlock
  | TCandidate | TValidation | TRatification | TQuorum | TValidationQuorum | TUnknown

definition topic_u8 :: "topic \<Rightarrow> u8" where
  "topic_u8 t =
     (case t of
        TGetResource \<Rightarrow> 8 | TGetBlocks \<Rightarrow> 9 | TGetMempool \<Rightarrow> 13 | TInv \<Rightarrow> 14 | TTx \<Rightarrow> 10 | TBlock \<Rightarrow> 11
      | TCandidate \<Rightarrow> 16 | TValidation \<Rightarrow> 17 | TRatification \<Rightarrow> 18 | TQuorum \<Rightarrow> 19
      | TValidationQuorum \<Rightarrow> 20 | TUnknown \<Rightarrow> 255)"

definition topic_from_u8 :: "u8 \<Rightarrow> topic" where
  "topic_from_u8 v =
     (if v = topic_u8 TGetResource then TGetResource
      else if v = topic_u8 TGetBlocks then TGetBlocks
      else if v = topic_u8 TTx then TTx
      else if v = topic_u8 TBlock then TBlock
      else if v = topic_u8 TGetMempool then TGetMempool
      else if v = topic_u8 TInv then TInv
      else if v = topic_u8 TCandidate then TCandidate
      else if v = topic_u8 TValidation then TValidation
      else if v = topic_u8 TRatification then TRatification
      else if v = topic_u8 TQuorum then TQuorum
      else if v = topic_u8 TValidationQuorum then TValidationQuorum
      else TUnknown)"

definition is_consensus_msg :: "topic \<Rightarrow> bool" where
  "is_consensus_msg t \<longleftrightarrow> t \<in> {TCandidate, TValidation, TRatification, TQuorum, TValidationQuorum}"

type_synonym version = "u8 \<times> u16 \<times> u16"

definition PROTOCOL_VERSION :: version where
  "PROTOCOL_VERSION = (1, 0, 0)"

definition version_write :: "version \<Rightarrow> bytes" where
  "version_write v = (case v of (maj, minor, patch) \<Rightarrow> [maj] @ to_le_bytes minor @ to_le_bytes patch)"

definition version_read :: "version reader" where
  "version_read =
     rd_bind read_u8 (\<lambda>maj. rd_bind read_u16_le (\<lambda>minor. rd_bind read_u16_le (\<lambda>patch. rd_ret (maj, minor, patch))))"

datatype payload =
    PRatification ratification
  | PValidation validation
  | PCandidate block
  | PQuorum quorum
  | PValidationQuorum validation_quorum_msg
  | PBlock block
  | PTransaction ledger_tx
  | PGetMempool bytes
  | PInv inv
  | PGetBlocks get_blocks
  | PGetResource get_resource
  | PValidationResult validation_result
  | PEmpty

record metadata =
  md_height :: u8
  md_src_addr :: socket_addr
  md_ray_id :: string

record message =
  ms_version :: version
  ms_topic :: topic
  ms_header :: consensus_header
  ms_payload :: payload
  ms_metadata :: "metadata option"

definition consensus_header_default :: consensus_header where
  "consensus_header_default = \<lparr>ch_prev_block_hash = replicate 32 0, ch_round = 0, ch_iteration = 0\<rparr>"

text \<open>\<open>WireMessage\<close>: the topic and the consensus header of a payload, and the message made of it.\<close>

definition payload_topic :: "payload \<Rightarrow> topic" where
  "payload_topic p =
     (case p of
        PRatification _ \<Rightarrow> TRatification | PValidation _ \<Rightarrow> TValidation | PCandidate _ \<Rightarrow> TCandidate
      | PQuorum _ \<Rightarrow> TQuorum | PValidationQuorum _ \<Rightarrow> TValidationQuorum | PBlock _ \<Rightarrow> TBlock
      | PTransaction _ \<Rightarrow> TTx | PGetMempool _ \<Rightarrow> TGetMempool | PInv _ \<Rightarrow> TInv | PGetBlocks _ \<Rightarrow> TGetBlocks
      | PGetResource _ \<Rightarrow> TGetResource | PValidationResult _ \<Rightarrow> TUnknown | PEmpty \<Rightarrow> TUnknown)"

definition payload_header :: "payload \<Rightarrow> consensus_header" where
  "payload_header p =
     (case p of
        PRatification r \<Rightarrow> ra_header r
      | PValidation v \<Rightarrow> va_header v
      | PCandidate b \<Rightarrow> to_consensus_header (bl_header b)
      | PQuorum q \<Rightarrow> qu_header q
      | PValidationQuorum q \<Rightarrow> vq_header q
      | _ \<Rightarrow> consensus_header_default)"

definition message_from :: "payload \<Rightarrow> message" where
  "message_from p =
     \<lparr>ms_version = PROTOCOL_VERSION, ms_topic = payload_topic p, ms_header = payload_header p,
      ms_payload = p, ms_metadata = None\<rparr>"

definition with_version :: "version \<Rightarrow> message \<Rightarrow> message" where
  "with_version v m = m\<lparr>ms_version := v\<rparr>"

definition message_step :: "message \<Rightarrow> u8" where
  "message_step m =
     (case ms_payload m of
        PCandidate b \<Rightarrow> to_step Proposal (h_iteration (bl_header b))
      | PValidation v \<Rightarrow> to_step Validation (ch_iteration (va_header v))
      | PRatification r \<Rightarrow> to_step Ratification (ch_iteration (ra_header r))
      | PQuorum _ \<Rightarrow> to_step Ratification (ch_iteration (ms_header m))
      | _ \<Rightarrow> to_step Proposal (ch_iteration (ms_header m)))"

definition message_iteration :: "message \<Rightarrow> u8" where
  "message_iteration m =
     (case ms_payload m of PBlock b \<Rightarrow> h_iteration (bl_header b) | _ \<Rightarrow> ch_iteration (ms_header m))"

definition message_height :: "message \<Rightarrow> u64" where
  "message_height m =
     (case ms_payload m of PBlock b \<Rightarrow> h_height (bl_header b) | _ \<Rightarrow> ch_round (ms_header m))"

datatype msg_status = Past | Present | Future

definition message_compare :: "u64 \<Rightarrow> u8 \<Rightarrow> step_name \<Rightarrow> message \<Rightarrow> msg_status" where
  "message_compare rnd iteration step m =
     (if ch_round (ms_header m) < rnd then Past
      else if ch_round (ms_header m) > rnd then Future
      else if message_step m < to_step step iteration then Past
      else if message_step m = to_step step iteration then Present
      else Future)"

definition compare_round :: "u64 \<Rightarrow> consensus_header \<Rightarrow> msg_status" where
  "compare_round rnd h = (if ch_round h = rnd then Present else if ch_round h > rnd then Future else Past)"

definition payload_write :: "('mpk, 'msig) node_crypto \<Rightarrow> payload \<Rightarrow> io_error + bytes" where
  "payload_write nc p =
     (case p of
        PCandidate c \<Rightarrow> Inr (block_write nc c)
      | PValidation v \<Rightarrow> Inr (validation_write v)
      | PRatification r \<Rightarrow> Inr (ratification_write r)
      | PQuorum q \<Rightarrow> Inr (quorum_write q)
      | PValidationQuorum q \<Rightarrow> Inr (validation_quorum_write q)
      | PBlock b \<Rightarrow> Inr (block_write nc b)
      | PTransaction t \<Rightarrow> Inr (ledger_tx_write nc t)
      | PGetMempool nonce \<Rightarrow> Inr nonce
      | PInv i \<Rightarrow> Inr (inv_write i)
      | PGetBlocks g \<Rightarrow> Inr (get_blocks_write g)
      | PGetResource g \<Rightarrow> get_resource_write g
      | PEmpty \<Rightarrow> Inr []
      | PValidationResult _ \<Rightarrow> Inr [])"

definition message_write :: "('mpk, 'msig) node_crypto \<Rightarrow> message \<Rightarrow> io_error + bytes" where
  "message_write nc m =
     res_map (\<lambda>p. version_write (ms_version m) @ [topic_u8 (ms_topic m)] @ p) (payload_write nc (ms_payload m))"

definition payload_read :: "('mpk, 'msig) node_crypto \<Rightarrow> topic \<Rightarrow> payload reader" where
  "payload_read nc t =
     (case t of
        TCandidate \<Rightarrow> rd_bind (block_read nc) (\<lambda>c. rd_ret (PCandidate c))
      | TValidation \<Rightarrow> rd_bind (validation_read nc) (\<lambda>v. rd_ret (PValidation v))
      | TRatification \<Rightarrow> rd_bind (ratification_read nc) (\<lambda>r. rd_ret (PRatification r))
      | TQuorum \<Rightarrow> rd_bind quorum_read (\<lambda>q. rd_ret (PQuorum q))
      | TValidationQuorum \<Rightarrow> rd_bind validation_quorum_read (\<lambda>q. rd_ret (PValidationQuorum q))
      | TBlock \<Rightarrow> rd_bind (block_read nc) (\<lambda>b. rd_ret (PBlock b))
      | TTx \<Rightarrow> rd_bind (ledger_tx_read nc) (\<lambda>t. rd_ret (PTransaction t))
      | TGetResource \<Rightarrow> rd_bind get_resource_read (\<lambda>g. rd_ret (PGetResource g))
      | TGetBlocks \<Rightarrow> rd_bind get_blocks_read (\<lambda>g. rd_ret (PGetBlocks g))
      | TGetMempool \<Rightarrow> rd_bind (read_bytes 8) (\<lambda>n. rd_ret (PGetMempool n))
      | TInv \<Rightarrow> rd_bind inv_read (\<lambda>i. rd_ret (PInv i))
      | TUnknown \<Rightarrow> rd_fail (IoInvalidData ''Unknown topic''))"

definition message_read :: "('mpk, 'msig) node_crypto \<Rightarrow> message reader" where
  "message_read nc =
     rd_bind version_read (\<lambda>version.
     rd_bind read_u8 (\<lambda>t.
     rd_bind (payload_read nc (topic_from_u8 t)) (\<lambda>p.
       rd_ret (with_version version (message_from p)))))"

section \<open>Round trips\<close>

definition validation_result_ok :: "validation_result \<Rightarrow> bool" where
  "validation_result_ok r \<longleftrightarrow> step_votes_ok (vr_sv r) \<and> vote_ok (vr_vote r)"

lemma quorum_from_to: "quorum_from_u8 (quorum_u8 q) = q"
  by (cases q) (simp_all add: quorum_from_u8_def quorum_u8_def)

interpretation validation_result: wire_codec validation_result_ok validation_result_write validation_result_read
  by unfold_locales (simp add: validation_result_ok_def validation_result_read_def validation_result_write_def
      codec_read step_votes.read_write vote.read_write quorum_from_to)

definition validation_ok :: "('mpk, 'msig) node_crypto \<Rightarrow> validation \<Rightarrow> bool" where
  "validation_ok nc v \<longleftrightarrow> consensus_header_ok (va_header v) \<and> vote_ok (va_vote v) \<and> sign_info_ok nc (va_sign_info v)"

interpretation validation: canonical_codec "validation_ok nc" validation_write "validation_read nc" for nc
proof unfold_locales
  show "validation_ok nc x \<Longrightarrow> validation_read nc (validation_write x @ rest) = Inr (x, rest)" for x rest
    by (simp add: validation_ok_def validation_read_def validation_write_def
        consensus_header.read_write vote.read_write sign_info.read_write)
next
  show "validation_read nc bs = Inr (x, rest) \<Longrightarrow> validation_ok nc x \<and> bs = validation_write x @ rest"
    for bs x rest
    by (auto simp: validation_ok_def validation_read_def validation_write_def rd_bind_Inr
        consensus_header.read_iff vote.read_iff sign_info.read_iff)
qed

definition ratification_ok :: "('mpk, 'msig) node_crypto \<Rightarrow> ratification \<Rightarrow> bool" where
  "ratification_ok nc r \<longleftrightarrow>
     consensus_header_ok (ra_header r) \<and> vote_ok (ra_vote r) \<and>
     validation_result_ok (ra_validation_result r) \<and> sign_info_ok nc (ra_sign_info r)"

interpretation ratification: wire_codec "ratification_ok nc" ratification_write "ratification_read nc" for nc
  by unfold_locales (simp add: ratification_ok_def ratification_read_def ratification_write_def codec_read
      consensus_header.read_write vote.read_write sign_info.read_write validation_result.read_write)

definition quorum_ok :: "quorum \<Rightarrow> bool" where
  "quorum_ok q \<longleftrightarrow> consensus_header_ok (qu_header q) \<and> attestation_ok (qu_att q)"

interpretation quorum: canonical_codec quorum_ok quorum_write quorum_read
proof unfold_locales
  show "quorum_ok x \<Longrightarrow> quorum_read (quorum_write x @ rest) = Inr (x, rest)" for x rest
    by (simp add: quorum_ok_def quorum_read_def quorum_write_def consensus_header.read_write
        attestation.read_write)
next
  show "quorum_read bs = Inr (x, rest) \<Longrightarrow> quorum_ok x \<and> bs = quorum_write x @ rest" for bs x rest
    by (auto simp: quorum_ok_def quorum_read_def quorum_write_def rd_bind_Inr consensus_header.read_iff
        attestation.read_iff)
qed

definition validation_quorum_ok :: "validation_quorum_msg \<Rightarrow> bool" where
  "validation_quorum_ok q \<longleftrightarrow> consensus_header_ok (vq_header q) \<and> validation_result_ok (vq_result q)"

interpretation validation_quorum: wire_codec validation_quorum_ok validation_quorum_write validation_quorum_read
  by unfold_locales (simp add: validation_quorum_ok_def validation_quorum_read_def validation_quorum_write_def
      consensus_header.read_write validation_result.read_write)

text \<open>The parameter of an entry is of the kind its type asks for.\<close>

definition inv_item_ok :: "inv_vect \<Rightarrow> bool" where
  "inv_item_ok i \<longleftrightarrow>
     (case (iv_type i, iv_param i) of
        (BlockFromHeight, PHeight _) \<Rightarrow> True
      | (MempoolTx, PHash h) \<Rightarrow> array 32 h
      | (BlockFromHash, PHash h) \<Rightarrow> array 32 h
      | (CandidateFromHash, PHash h) \<Rightarrow> array 32 h
      | (CandidateFromIteration, PIteration ch) \<Rightarrow> consensus_header_ok ch
      | (InvValidationResult, PIteration ch) \<Rightarrow> consensus_header_ok ch
      | _ \<Rightarrow> False)"

definition inv_ok :: "inv \<Rightarrow> bool" where
  "inv_ok i \<longleftrightarrow> length (in_list i) < 2 ^ 32 \<and> (\<forall>item \<in> set (in_list i). inv_item_ok item)"

interpretation inv_item: wire_codec inv_item_ok inv_item_write inv_item_read
proof unfold_locales
  show "inv_item_ok x \<Longrightarrow> inv_item_read (inv_item_write x @ rest) = Inr (x, rest)" for x rest
    by (cases x; cases "iv_type x"; cases "iv_param x")
       (simp_all add: inv_item_ok_def inv_item_read_def inv_item_write_def inv_type_u8_def codec_read
        consensus_header.read_write)
qed

interpretation inv: wire_codec inv_ok inv_write inv_read
  by unfold_locales (simp add: inv_ok_def inv_read_def inv_write_def codec_read inv_item.read_write_many unat_of_nat)

definition socket_addr_ok :: "socket_addr \<Rightarrow> bool" where
  "socket_addr_ok a \<longleftrightarrow>
     (case a of V4 octets _ \<Rightarrow> array 4 octets | V6 octets _ flow scope \<Rightarrow> array 16 octets \<and> flow = 0 \<and> scope = 0)"

interpretation socket_addr: wire_codec socket_addr_ok socket_addr_write socket_addr_read
proof unfold_locales
  show "socket_addr_ok x \<Longrightarrow> socket_addr_read (socket_addr_write x @ rest) = Inr (x, rest)" for x rest
    by (cases x) (simp_all add: socket_addr_ok_def socket_addr_read_def socket_addr_write_def codec_read)
qed

text \<open>The payloads that are sent, with the values their types have.\<close>

definition payload_ok :: "('mpk, 'msig) node_crypto \<Rightarrow> payload \<Rightarrow> bool" where
  "payload_ok nc p \<longleftrightarrow>
     (case p of
        PRatification r \<Rightarrow> ratification_ok nc r
      | PValidation v \<Rightarrow> validation_ok nc v
      | PCandidate b \<Rightarrow> block_ok nc b
      | PQuorum q \<Rightarrow> quorum_ok q
      | PValidationQuorum q \<Rightarrow> validation_quorum_ok q
      | PBlock b \<Rightarrow> block_ok nc b
      | PTransaction t \<Rightarrow> ledger_tx_ok nc t
      | PGetMempool n \<Rightarrow> array 8 n
      | PInv i \<Rightarrow> inv_ok i
      | PGetBlocks g \<Rightarrow> array 32 (gb_locator g) \<and> array 8 (gb_nonce g)
      | PGetResource g \<Rightarrow> inv_ok (gr_inventory g) \<and>
          (case gr_requester_addr g of Some a \<Rightarrow> socket_addr_ok a | None \<Rightarrow> False)
      | PValidationResult _ \<Rightarrow> False
      | PEmpty \<Rightarrow> False)"

lemma topic_from_to: "topic_from_u8 (topic_u8 t) = t"
  by (cases t) (simp_all add: topic_from_u8_def topic_u8_def)

lemma get_resource_read_write:
  assumes "inv_ok (gr_inventory g)" and "gr_requester_addr g = Some a" and "socket_addr_ok a"
  shows "get_resource_write g = Inr bs \<Longrightarrow> get_resource_read (bs @ rest) = Inr (g, rest)"
  using assms
  by (cases g) (auto simp: get_resource_write_def get_resource_read_def codec_read inv.read_write
      socket_addr.read_write)

lemma payload_read_write:
  assumes "payload_ok nc p"
  obtains bs where "payload_write nc p = Inr bs"
    and "\<And>rest. payload_read nc (payload_topic p) (bs @ rest) = Inr (p, rest)"
proof (cases p)
  case (PGetResource g)
  then obtain a where "inv_ok (gr_inventory g)" "gr_requester_addr g = Some a" "socket_addr_ok a"
    using assms by (auto simp: payload_ok_def split: option.splits)
  moreover from this obtain bs where "get_resource_write g = Inr bs" by (simp add: get_resource_write_def)
  ultimately show thesis using PGetResource that [of bs]
    by (simp add: payload_write_def payload_read_def payload_topic_def get_resource_read_write)
qed (use assms that in \<open>auto simp: payload_ok_def payload_write_def payload_read_def payload_topic_def
    validation.read_write ratification.read_write quorum.read_write validation_quorum.read_write
    block.read_write ledger_tx.read_write inv.read_write get_blocks_write_def get_blocks_read_def codec_read\<close>)

text \<open>
  C24: Messages survive the network.  A message made of any payload that is sent, in any version, is written
  without an error, and reading it back, with anything after it, gives the message and leaves what came
  after it.
\<close>

theorem message_roundtrip:
  assumes "payload_ok nc p"
  shows "\<exists>bs. message_write nc (with_version v (message_from p)) = Inr bs \<and>
           message_read nc (bs @ rest) = Inr (with_version v (message_from p), rest)"
proof (rule payload_read_write [OF assms])
  fix bs
  assume bs: "payload_write nc p = Inr bs"
    and rd: "\<And>rest. payload_read nc (payload_topic p) (bs @ rest) = Inr (p, rest)"
  obtain maj minor patch where v: "v = (maj, minor, patch)" by (cases v)
  show ?thesis
    by (intro exI conjI) (simp add: message_write_def message_from_def with_version_def bs,
        simp add: v message_read_def version_write_def version_read_def codec_read topic_from_to rd
          with_version_def message_from_def)
qed

theorem message_roundtrip_witness:
  "\<exists>bs. message_write crypto0 (with_version (1, 2, 3) (message_from (PCandidate block0))) = Inr bs \<and>
     message_read crypto0 (bs @ []) = Inr (with_version (1, 2, 3) (message_from (PCandidate block0)), [])"
  by (rule message_roundtrip) (simp add: payload_ok_def sample_block_ok)

lemma hops_decrease:
  "clone_with_hop_decrement g = Some g' \<Longrightarrow> unat (gr_hops_limit g') + 1 = unat (gr_hops_limit g) \<and> 0 < unat (gr_hops_limit g')"
  by (auto simp: clone_with_hop_decrement_def word_le_nat_alt unat_sub_le not_le split: if_splits)

end
