(* ===== verification/Committee_Safety.thy ===== *)
theory Committee_Safety
  imports Consensus_Committee
begin

text \<open>
  What the sortition and the committees promise: the extraction loop returns, a committee has all its
  credits and only eligible members, and a bitset determines the voters it was made from.
\<close>

section \<open>Extraction\<close>

definition weight_of :: "committee_generator \<Rightarrow> nat" where
  "weight_of members = sum_list (map (\<lambda>(_, s). unat (cs_value s)) members)"

lemma weight_of_simps [simp]:
  "weight_of [] = 0"
  "weight_of ((pk, s) # members) = unat (cs_value s) + weight_of members"
  "weight_of (as @ bs) = weight_of as + weight_of bs"
  by (simp_all add: weight_of_def)

lemma extract_pass_score:
  "extract_pass members score = Inr score' \<Longrightarrow> score' + weight_of members = score"
  by (induction members score arbitrary: score' rule: extract_pass.induct)
     (auto split: if_splits sum.splits prod.splits)

lemma extract_pass_found:
  assumes "extract_pass members score = Inl (pk, sub, members')"
  shows "\<exists>as s s' bs. members = as @ (pk, s) # bs \<and> cstake_subtract DUSK s = (sub, s') \<and>
           members' = as @ (pk, s') # bs"
  using assms
proof (induction members score arbitrary: members' rule: extract_pass.induct)
  case (2 k t members score)
  show ?case
  proof (cases "unat (cs_value t) \<ge> score")
    case True
    with 2(2) show ?thesis by (auto split: prod.splits intro!: exI [of _ "[]"])
  next
    case False
    with 2(2) obtain rest where r: "extract_pass members (score - unat (cs_value t)) = Inl (pk, sub, rest)"
      and m: "members' = (k, t) # rest"
      by (auto split: sum.splits prod.splits)
    from 2(1) [OF False r] obtain as s s' bs where "members = as @ (pk, s) # bs"
      "cstake_subtract DUSK s = (sub, s')" "rest = as @ (pk, s') # bs" by blast
    with m show ?thesis by (intro exI [of _ "(k, t) # as"] exI [of _ s] exI [of _ s'] exI [of _ bs]) auto
  qed
qed simp

lemma extract_pass_hits:
  assumes "score < weight_of members"
  shows "\<exists>pk sub members'. extract_pass members score = Inl (pk, sub, members')"
proof (cases "extract_pass members score")
  case (Inl found)
  then show ?thesis by (cases found) simp
next
  case (Inr score')
  with assms extract_pass_score [OF Inr] show ?thesis by simp
qed

text \<open>The outer loop returns as soon as any member has stake left, and in its first pass for a score below the weight.\<close>

lemma extract_loop_returns:
  assumes "0 < weight_of members"
  shows "\<exists>found. extract_loop members score = Some found"
proof (induction score rule: less_induct)
  case (less score)
  show ?case
  proof (cases "extract_pass members score")
    case (Inl found)
    then show ?thesis by (subst extract_loop.simps) (cases found, simp)
  next
    case (Inr score')
    with extract_pass_score [OF Inr] assms less [of score'] show ?thesis
      by (subst extract_loop.simps) simp
  qed
qed

lemma extract_member:
  assumes "score < weight_of members"
  obtains pk s s' sub as bs where "members = as @ (pk, s) # bs"
    and "cstake_subtract DUSK s = (sub, s')"
    and "extract_and_subtract_member members score = Some (Inr (pk, sub, as @ (pk, s') # bs))"
proof -
  obtain pk sub members' where f: "extract_pass members score = Inl (pk, sub, members')"
    using extract_pass_hits [OF assms] by blast
  have "members \<noteq> []" using assms by auto
  then have "extract_and_subtract_member members score = Some (Inr (pk, sub, members'))"
    using f by (simp add: extract_and_subtract_member_def extract_loop.simps)
  with extract_pass_found [OF f] that show thesis by metis
qed

section \<open>The loop of \<open>create_committee\<close>\<close>

text \<open>After \<open>k\<close> extractions every member still has its minimum stake less \<open>k\<close> Dusk.\<close>

definition staked :: "nat \<Rightarrow> committee_generator \<Rightarrow> bool" where
  "staked k members \<longleftrightarrow>
     (\<forall>(pk, s) \<in> set members. unat DEFAULT_MINIMUM_STAKE \<le> unat (cs_value s) + k * unat DUSK)"

lemma staked_update:
  assumes "staked k (as @ (pk, s) # bs)" and "unat (cs_value s') + unat DUSK = unat (cs_value s)"
  shows "staked (Suc k) (as @ (pk, s') # bs)"
proof -
  have "staked k (as @ bs)" using assms(1) by (simp add: staked_def)
  then have "staked (Suc k) (as @ bs)"
    unfolding staked_def by (auto intro: order_trans [OF _ add_left_mono [OF le_add2]])
  moreover have "unat DEFAULT_MINIMUM_STAKE \<le> unat (cs_value s') + Suc k * unat DUSK"
    using assms by (simp add: staked_def)
  ultimately show ?thesis by (auto simp: staked_def)
qed

lemma subtract_dusk:
  assumes "cstake_subtract DUSK s = (sub, s')" and "unat DUSK < unat (cs_value s)"
  shows "sub = DUSK" and "unat (cs_value s') + unat DUSK = unat (cs_value s)"
  using assms by (auto simp: cstake_subtract_def word_le_nat_alt unat_sub_le split: if_splits)

lemma committee_loop_fills:
  assumes "comm \<noteq> []" and "staked (length extracted) comm" and "n + length extracted < 1000"
  shows "\<exists>more. committee_loop hash cfg n comm (weight_of comm) extracted = Some (Inr (extracted @ more)) \<and>
           length more = n \<and> set more \<subseteq> fst ` set comm"
  using assms
proof (induction n arbitrary: comm extracted)
  case (Suc n)
  obtain k0 s0 rest where c: "comm = (k0, s0) # rest" using Suc.prems(1) by (cases comm) auto
  have big: "unat DUSK < unat (cs_value s)" if "(pk, s) \<in> set comm" for pk s
    using that Suc.prems(2,3) by (fastforce simp: staked_def DUSK_def DEFAULT_MINIMUM_STAKE_def)
  then have pos: "0 < weight_of comm" using c by fastforce
  define score where
    "score = be_value (create_sortition_hash hash cfg (of_nat (length extracted))) mod weight_of comm"
  have sc: "generate_sortition_score (create_sortition_hash hash cfg (of_nat (length extracted))) (weight_of comm)
      = Inr score" using pos by (simp add: generate_sortition_score_def score_def)
  have "score < weight_of comm" using pos by (simp add: score_def)
  then show ?case
  proof (rule extract_member)
    fix pk s s' sub as bs
    assume m: "comm = as @ (pk, s) # bs" and sub: "cstake_subtract DUSK s = (sub, s')"
      and e: "extract_and_subtract_member comm score = Some (Inr (pk, sub, as @ (pk, s') # bs))"
    have s: "unat DUSK < unat (cs_value s)" using big m by auto
    let ?comm = "as @ (pk, s') # bs"
    have w: "weight_of ?comm = weight_of comm - unat sub" "unat sub < weight_of comm"
      using subtract_dusk [OF sub s] s m by simp_all
    have "staked (length (extracted @ [pk])) ?comm"
      using staked_update [OF Suc.prems(2) [unfolded m]] subtract_dusk(2) [OF sub s] by simp
    then obtain more where "committee_loop hash cfg n ?comm (weight_of ?comm) (extracted @ [pk])
        = Some (Inr (extracted @ [pk] @ more))" "length more = n" "set more \<subseteq> fst ` set ?comm"
      using Suc.IH [of ?comm "extracted @ [pk]"] Suc.prems(3) by auto
    with sc e w m show ?case by (intro exI [of _ "pk # more"]) auto
  qed
qed simp

lemma total_weight_nat:
  assumes "weight_of comm < 2 ^ 64"
  shows "unat (total_weight comm) = weight_of comm"
  using assms
proof (induction comm)
  case (Cons m comm)
  obtain pk s where "m = (pk, s)" by force
  with Cons show ?case by (simp add: total_weight_def unat_add_no_wrap)
qed (simp add: total_weight_def)

lemma filter_weight: "weight_of (filter P members) \<le> weight_of members"
  by (induction members) auto

lemma generator_subset:
  "set (generator_from_provisioners rnd ex p) \<subseteq> set (eligibles rnd p)"
  "weight_of (generator_from_provisioners rnd ex p) \<le> weight_of (eligibles rnd p)"
  "eligibles rnd p \<noteq> [] \<Longrightarrow> generator_from_provisioners rnd ex p \<noteq> []"
  by (auto simp: generator_from_provisioners_def Let_def filter_weight)

lemma weight_eligibles: "weight_of (eligibles rnd p) \<le> bm_sum (unat \<circ> cs_value) p"
proof -
  have "weight_of (bm_entries p) = bm_sum (unat \<circ> cs_value) p"
    by (simp add: weight_of_def bm_sum_def comp_def case_prod_unfold)
  then show ?thesis using filter_weight by (metis eligibles_def)
qed

lemma create_committee_fills:
  assumes "eligibles (so_round cfg) p \<noteq> []" and "bm_sum (unat \<circ> cs_value) p < 2 ^ 64"
    and "so_committee_credits cfg < 1000"
  obtains extracted where "create_committee hash cfg p = Some (Inr extracted)"
    and "length extracted = so_committee_credits cfg"
    and "set extracted \<subseteq> fst ` set (generator_from_provisioners (so_round cfg) (so_exclusion cfg) p)"
proof -
  let ?comm = "generator_from_provisioners (so_round cfg) (so_exclusion cfg) p"
  have "weight_of ?comm < 2 ^ 64"
    using generator_subset(2) weight_eligibles assms(2) by (meson le_less_trans order_trans)
  then have w: "unat (total_weight ?comm) = weight_of ?comm" by (rule total_weight_nat)
  have "staked 0 ?comm"
    using generator_subset(1) [of "so_round cfg" "so_exclusion cfg" p]
    by (fastforce simp: staked_def eligibles_def word_le_nat_alt)
  with generator_subset(3) [OF assms(1)] assms(3) w that show thesis
    using committee_loop_fills [of ?comm "[]" "so_committee_credits cfg" hash cfg]
    by (auto simp: create_committee_def Let_def)
qed

section \<open>Members\<close>

lemma count_member_get:
  "bm_get (fold count_member ks m) k =
     (if k \<in> set ks then Some (bm_get_or 0 m k + count_list ks k) else bm_get m k)"
  by (induction ks arbitrary: m) (auto simp: count_member_def bm_get_or_def count_list_0_iff split: option.splits)

lemma count_member_sum: "bm_sum (\<lambda>n. n) (fold count_member ks m) = bm_sum (\<lambda>n. n) m + length ks"
proof (induction ks arbitrary: m)
  case (Cons k ks)
  have "bm_sum (\<lambda>n. n) (count_member k m) = bm_sum (\<lambda>n. n) m + 1"
    unfolding count_member_def
    by (rule bm.total_credit) (auto simp: bm_get_or_def opt_val_def split: option.splits)
  with Cons.IH [of "count_member k m"] show ?case by simp
qed simp

lemma cluster_total: "cluster_total_occurrences c = bm_sum (\<lambda>n. n) c"
  by (simp add: cluster_total_occurrences_def bm_values_def bm_sum_def comp_def)

lemma committee_votes:
  assumes "c = committee_of_extracted cfg extracted"
  shows "votes_for c k = (if k \<in> set extracted then Some (count_list extracted k) else None)"
    and "cluster_total_occurrences (cm_members c) = length extracted"
    and "is_member k c \<longleftrightarrow> k \<in> set extracted"
  using assms
  by (simp_all add: votes_for_def is_member_def committee_of_extracted_def count_member_get bm_get_or_def
      cluster_total count_member_sum)

text \<open>
  C21: Sortition always yields a full committee.  Whatever the seed, the round and the hash function, if
  some provisioner is eligible (and the stakes together fit in 64 bits) then the sortition returns, hands
  out exactly the committee's credits, to eligible provisioners only, and to none of the excluded ones
  unless everyone eligible is excluded.
\<close>

theorem committee_is_full:
  assumes "eligibles (so_round cfg) p \<noteq> []" and "bm_sum (unat \<circ> cs_value) p < 2 ^ 64"
    and "so_committee_credits cfg < 1000"
  shows "\<exists>c. committee_new hash cfg p = Some (Inr c) \<and>
           cluster_total_occurrences (cm_members c) = so_committee_credits cfg \<and>
           (\<forall>pk. is_member pk c \<longrightarrow> pk \<in> fst ` set (eligibles (so_round cfg) p)) \<and>
           (\<not> fst ` set (eligibles (so_round cfg) p) \<subseteq> set (so_exclusion cfg) \<longrightarrow>
              (\<forall>pk. is_member pk c \<longrightarrow> pk \<notin> set (so_exclusion cfg)))"
proof (rule create_committee_fills [OF assms, of hash])
  fix extracted
  let ?e = "eligibles (so_round cfg) p"
  let ?g = "generator_from_provisioners (so_round cfg) (so_exclusion cfg) p"
  assume ex: "create_committee hash cfg p = Some (Inr extracted)" "length extracted = so_committee_credits cfg"
    and sub: "set extracted \<subseteq> fst ` set ?g"
  define c where "c = committee_of_extracted cfg extracted"
  have new: "committee_new hash cfg p = Some (Inr c)" using ex(1) by (simp add: committee_new_def c_def)
  have elig: "fst ` set ?g \<subseteq> fst ` set ?e" using generator_subset(1) by (rule image_mono)
  have "fst ` set ?g \<inter> set (so_exclusion cfg) = {}" if "\<not> fst ` set ?e \<subseteq> set (so_exclusion cfg)"
  proof -
    from that have "filter (\<lambda>(pk, _). \<not> list_ex (\<lambda>excluded. excluded = pk) (so_exclusion cfg)) ?e \<noteq> []"
      by (force simp: filter_empty_conv list_ex_iff)
    then show ?thesis
      by (auto simp: generator_from_provisioners_def Let_def list_ex_iff)
  qed
  then have "\<not> fst ` set ?e \<subseteq> set (so_exclusion cfg) \<longrightarrow> (\<forall>pk. is_member pk c \<longrightarrow> pk \<notin> set (so_exclusion cfg))"
    using sub committee_votes(3) [OF c_def] by blast
  moreover have "\<forall>pk. is_member pk c \<longrightarrow> pk \<in> fst ` set ?e"
    using sub elig committee_votes(3) [OF c_def] by blast
  ultimately show ?thesis using new ex(2) committee_votes(2) [OF c_def] by (intro exI [of _ c]) simp
qed

definition sample_provisioners :: provisioners where
  "sample_provisioners =
     bm_insert [2] (cstake_from_value 5000000000000)
       (bm_insert [1] (cstake_from_value 2000000000000)
         (bm_insert [0] (cstake_from_value 1) bm_empty))"

definition sample_sortition :: sortition_config where
  "sample_sortition = sortition_config_new [7] 9 3 Validation [[2]]"

lemma sample_provisioners:
  "eligibles rnd sample_provisioners \<noteq> []"
  "bm_sum (unat \<circ> cs_value) sample_provisioners = 7000000000001"
  by (simp_all add: eligibles_def sample_provisioners_def cstake_from_value_def is_eligible_def
      DEFAULT_MINIMUM_STAKE_def bm_insert.rep_eq bm_empty.rep_eq bm_sum_def)

theorem committee_is_full_witness:
  "\<exists>c. committee_new rev sample_sortition sample_provisioners = Some (Inr c) \<and>
       cluster_total_occurrences (cm_members c) = 64"
  using committee_is_full [of sample_sortition sample_provisioners rev] sample_provisioners
  by (auto simp: sample_sortition_def sortition_config_new_def committee_credits_def
      VALIDATION_COMMITTEE_CREDITS_def)

section \<open>Bitsets\<close>

lemma bit_bits_from:
  assumes "pos + length members \<le> 64"
  shows "bit (bits_from pos members voters) i \<longleftrightarrow>
           pos \<le> i \<and> i < pos + length members \<and> cluster_contains_key (fst (members ! (i - pos))) voters"
  using assms
proof (induction pos members voters rule: bits_from.induct)
  case (2 pos pk w members voters)
  then have "pos mod 64 = pos" by simp
  moreover have "i - pos = Suc (i - Suc pos)" if "Suc pos \<le> i" using that by simp
  ultimately show ?case
    using 2 by (auto simp: bit_simps nth_Cons' not_less_eq_eq le_Suc_eq dest: le_antisym)
qed simp

lemma bit_test: "(drop_bit n a AND 1 \<noteq> 0) = bit (a :: u64) n"
  by (simp add: and_one_eq bit_iff_odd_drop_bit odd_iff_mod_2_eq_one)

lemma cluster_add_new:
  "w \<noteq> 0 \<Longrightarrow> bm_get a pk = None \<Longrightarrow> snd (cluster_add pk w a) = bm_insert pk w a"
  by (simp add: cluster_add_def cluster_contains_key_def)

lemma intersect_from_get:
  assumes "pos + length members \<le> 64" and "distinct (map fst members)"
    and "\<forall>(pk, w) \<in> set members. w \<noteq> 0 \<and> bm_get a pk = None"
  shows "bm_get (intersect_from pos members bitset a) k =
           (if \<exists>i < length members. fst (members ! i) = k \<and> bit bitset (pos + i)
            then map_of members k else bm_get a k)"
  using assms
proof (induction pos members bitset a rule: intersect_from.induct)
  case (2 pos pk w members bitset a)
  let ?a = "if bit bitset pos then bm_insert pk w a else a"
  have m: "pos mod 64 = pos" using 2(2) by simp
  have a: "intersect_from pos ((pk, w) # members) bitset a = intersect_from (Suc pos) members bitset ?a"
    using 2(4) m by (simp add: bit_test cluster_add_new)
  have new: "w' \<noteq> 0 \<and> bm_get ?a pk' = None" if "(pk', w') \<in> set members" for pk' w'
  proof -
    have "pk' \<in> set (map fst members)" using that by (force intro: image_eqI)
    then have "pk' \<noteq> pk" using 2(3) by auto
    moreover have "w' \<noteq> 0" "bm_get a pk' = None" using 2(4) that by auto
    ultimately show ?thesis by simp
  qed
  have pre: "Suc pos + length members \<le> 64" "distinct (map fst members)"
    "\<forall>(pk', w') \<in> set members. w' \<noteq> 0 \<and> bm_get ?a pk' = None"
    using 2(2,3) new by (simp, simp, blast)
  have fold_a: "(if drop_bit (pos mod 64) bitset AND 1 \<noteq> 0 then snd (cluster_add pk w a) else a) = ?a"
    using 2(4) m by (simp add: bit_test cluster_add_new)
  have IH: "bm_get (intersect_from (Suc pos) members bitset ?a) k =
      (if \<exists>i < length members. fst (members ! i) = k \<and> bit bitset (Suc pos + i)
       then map_of members k else bm_get ?a k)"
    using 2(1) pre by (simp only: fold_a)
  have ex: "(\<exists>i < length ((pk, w) # members). fst (((pk, w) # members) ! i) = k \<and> bit bitset (pos + i)) \<longleftrightarrow>
      (pk = k \<and> bit bitset pos) \<or> (\<exists>i < length members. fst (members ! i) = k \<and> bit bitset (Suc pos + i))"
    by (simp add: Ex_less_Suc2)
  have "pk \<noteq> k" if "\<exists>i < length members. fst (members ! i) = k \<and> bit bitset (Suc pos + i)"
    using that 2(3) nth_mem by fastforce
  moreover have "map_of members pk = None" using 2(3) by (auto simp: map_of_eq_None_iff)
  ultimately show ?case
    using IH 2(4) unfolding a ex by auto
qed simp

text \<open>A cluster of voters for a committee: members of it, with their weights.\<close>

definition voters_of :: "committee \<Rightarrow> cluster \<Rightarrow> bool" where
  "voters_of c voters \<longleftrightarrow> (\<forall>pk w. bm_get voters pk = Some w \<longrightarrow> votes_for c pk = Some w)"

definition wf_committee :: "committee \<Rightarrow> bool" where
  "wf_committee c \<longleftrightarrow> committee_size c \<le> 64 \<and> (\<forall>pk. votes_for c pk \<noteq> Some 0)"

lemma bm_entries_distinct: "distinct (map fst (bm_entries m))"
  using bm_entries [of m] by (simp add: al_sorted_distinct)

lemma intersect_get:
  assumes "wf_committee c"
  shows "bm_get (committee_intersect c bitset) pk =
           (if \<exists>i < committee_size c. fst (bm_entries (cm_members c) ! i) = pk \<and> bit bitset i
            then votes_for c pk else None)"
proof (cases "bitset = 0")
  case False
  have "\<forall>(pk, w) \<in> set (bm_entries (cm_members c)). w \<noteq> 0 \<and> bm_get (bm_empty :: cluster) pk = None"
  proof clarify
    fix pk w assume "(pk, w) \<in> set (bm_entries (cm_members c))"
    then have "votes_for c pk = Some w" by (simp add: votes_for_def bm_entries_iff)
    then show "w \<noteq> 0 \<and> bm_get (bm_empty :: cluster) pk = None"
      using assms by (cases "w = 0") (simp_all add: wf_committee_def)
  qed
  from intersect_from_get [OF _ bm_entries_distinct this, of 0 bitset pk] assms False show ?thesis
    by (simp add: committee_intersect_def committee_size_def wf_committee_def votes_for_def
        bm_get_map_of [symmetric] cong: if_cong split del: if_split)
qed (simp add: committee_intersect_def)

lemma intersect_bits:
  assumes "wf_committee c" and "voters_of c voters"
  shows "committee_intersect c (committee_bits c voters) = voters"
proof (rule bm_eqI)
  fix pk
  let ?es = "bm_entries (cm_members c)"
  have "bit (committee_bits c voters) i \<longleftrightarrow> i < committee_size c \<and> cluster_contains_key (fst (?es ! i)) voters" for i
    using bit_bits_from [of 0 ?es voters i] assms(1)
    by (simp add: committee_bits_def committee_size_def wf_committee_def)
  then have "(\<exists>i < committee_size c. fst (?es ! i) = pk \<and> bit (committee_bits c voters) i) \<longleftrightarrow>
      (\<exists>i < length ?es. fst (?es ! i) = pk) \<and> cluster_contains_key pk voters"
    by (auto simp: committee_size_def)
  also have "(\<exists>i < length ?es. fst (?es ! i) = pk) \<longleftrightarrow> votes_for c pk \<noteq> None"
    using in_set_conv_nth [of pk "map fst ?es"]
    by (auto simp: votes_for_def bm_get_map_of map_of_eq_None_iff)
  finally show "bm_get (committee_intersect c (committee_bits c voters)) pk = bm_get voters pk"
    using assms(2) intersect_get [OF assms(1)]
    by (cases "bm_get voters pk") (auto simp: cluster_contains_key_def voters_of_def)
qed

lemma voters_total:
  assumes "voters_of c voters"
  shows "total_occurrences c voters = cluster_total_occurrences voters"
  unfolding total_occurrences_def cluster_total_occurrences_def bm_values_def
  by (intro arg_cong [where f = sum_list] map_cong)
     (use assms in \<open>auto simp: voters_of_def bm_entries_iff split: option.splits\<close>)

end
