(* ===== verification/Consensus_Votes.thy ===== *)
theory Consensus_Votes
  imports Node_Message Committee_Safety
begin

text \<open>
  Collecting and checking the votes of a step: \<^verbatim>\<open>consensus/src/aggregator.rs\<close> (one signature and one set
  of voters for every step and vote) and \<^verbatim>\<open>consensus/src/quorum/verifiers.rs\<close> (the check of step votes
  against a committee).
\<close>

section \<open>Vote messages\<close>

datatype step_msg = ValidationMsg validation | RatificationMsg ratification

definition msg_header :: "step_msg \<Rightarrow> consensus_header" where
  "msg_header v = (case v of ValidationMsg m \<Rightarrow> va_header m | RatificationMsg m \<Rightarrow> ra_header m)"

definition msg_vote :: "step_msg \<Rightarrow> vote" where
  "msg_vote v = (case v of ValidationMsg m \<Rightarrow> va_vote m | RatificationMsg m \<Rightarrow> ra_vote m)"

definition msg_sign_info :: "step_msg \<Rightarrow> sign_info" where
  "msg_sign_info v = (case v of ValidationMsg m \<Rightarrow> va_sign_info m | RatificationMsg m \<Rightarrow> ra_sign_info m)"

definition msg_step_name :: "step_msg \<Rightarrow> step_name" where
  "msg_step_name v = (case v of ValidationMsg _ \<Rightarrow> Validation | RatificationMsg _ \<Rightarrow> Ratification)"

definition msg_step :: "step_msg \<Rightarrow> u8" where
  "msg_step v = to_step (msg_step_name v) (ch_iteration (msg_header v))"

definition msg_signable :: "step_msg \<Rightarrow> bytes" where
  "msg_signable v =
     (case v of ValidationMsg m \<Rightarrow> validation_signable m | RatificationMsg m \<Rightarrow> ratification_signable m)"

definition verify_msg_signature :: "('mpk, 'msig) node_crypto \<Rightarrow> step_msg \<Rightarrow> bls_error + unit" where
  "verify_msg_signature nc v = verify_signature nc (msg_sign_info v) (msg_signable v)"

section \<open>The aggregator\<close>

datatype aggregator_error =
    DuplicatedVote
  | ConflictingVote step_msg
  | AggNotCommitteeMember
  | AggInvalidSignature bls_error
  | AggPanic string

type_synonym 'msig aggr_signature = "'msig option"

definition aggr_add ::
    "('mpk, 'msig) node_crypto \<Rightarrow> bytes \<Rightarrow> 'msig aggr_signature \<Rightarrow> bls_error + 'msig aggr_signature" where
  "aggr_add nc data a =
     res_bind (nc_sig_from_bytes nc data) (\<lambda>sig.
       Inr (Some (case a of Some d \<Rightarrow> nc_sig_aggregate nc d sig | None \<Rightarrow> sig)))"

definition aggregated_bytes :: "('mpk, 'msig) node_crypto \<Rightarrow> 'msig aggr_signature \<Rightarrow> bytes option" where
  "aggregated_bytes nc a = map_option (nc_sig_to_bytes nc) a"

text \<open>The maps are only looked up and updated, so they are functions.\<close>

record 'msig aggregator =
  ag_votes :: "u8 \<times> vote \<Rightarrow> ('msig aggr_signature \<times> cluster) option"
  ag_uniqueness :: "u8 \<Rightarrow> (bytes \<Rightarrow> step_msg option) option"

definition aggregator_default :: "'msig aggregator" where
  "aggregator_default = \<lparr>ag_votes = (\<lambda>_. None), ag_uniqueness = (\<lambda>_. None)\<rparr>"

definition or_default :: "'a \<Rightarrow> 'a option \<Rightarrow> 'a" where
  "or_default d x = (case x of Some v \<Rightarrow> v | None \<Rightarrow> d)"

definition is_vote_collected :: "step_msg \<Rightarrow> 'msig aggregator \<Rightarrow> bool" where
  "is_vote_collected v ag =
     (case ag_votes ag (msg_step v, msg_vote v) of
        None \<Rightarrow> False
      | Some (_, cluster) \<Rightarrow> cluster_contains_key (si_signer (msg_sign_info v)) cluster)"

definition quorum_target :: "committee \<Rightarrow> vote \<Rightarrow> nat" where
  "quorum_target c v = (case v of Valid _ \<Rightarrow> cm_super_majority c | _ \<Rightarrow> cm_majority c)"

text \<open>The last part of \<open>collect_vote\<close>: the signature and the voter are added to the entry of the vote.\<close>

definition aggregate_vote ::
    "('mpk, 'msig) node_crypto \<Rightarrow> committee \<Rightarrow> step_msg \<Rightarrow> nat \<Rightarrow> 'msig aggr_signature \<Rightarrow> cluster
     \<Rightarrow> 'msig aggregator \<Rightarrow> (aggregator_error + (step_votes \<times> bool)) \<times> 'msig aggregator" where
  "aggregate_vote nc committee v weight aggr_sign cluster ag =
     (let key = (msg_step v, msg_vote v) in
      case aggr_add nc (si_signature (msg_sign_info v)) aggr_sign of
        Inl e \<Rightarrow> (Inl (AggInvalidSignature e), ag)
      | Inr aggr_sign \<Rightarrow>
          (case cluster_add (si_signer (msg_sign_info v)) weight cluster of
             (None, cluster) \<Rightarrow>
               (Inl (AggPanic ''Vote to be added to cluster''), ag\<lparr>ag_votes := (ag_votes ag)(key \<mapsto> (aggr_sign, cluster))\<rparr>)
           | (Some _, cluster) \<Rightarrow>
               let ag = ag\<lparr>ag_votes := (ag_votes ag)(key \<mapsto> (aggr_sign, cluster))\<rparr>;
                   total = cluster_total_occurrences cluster in
               (case aggregated_bytes nc aggr_sign of
                  None \<Rightarrow> (Inl (AggPanic ''Signature to exist after aggregating''), ag)
                | Some aggregate_signature \<Rightarrow>
                    (Inr (step_votes_new aggregate_signature (committee_bits committee cluster),
                          total \<ge> quorum_target committee (msg_vote v)), ag))))"

definition collect_vote ::
    "('mpk, 'msig) node_crypto \<Rightarrow> committee \<Rightarrow> step_msg \<Rightarrow> 'msig aggregator
     \<Rightarrow> (aggregator_error + (step_votes \<times> bool)) \<times> 'msig aggregator" where
  "collect_vote nc committee v ag =
     (let emergency = is_emergency_iter (ch_iteration (msg_header v));
          step = msg_step v;
          signer = si_signer (msg_sign_info v) in
      if emergency \<and> \<not> vote_is_valid (msg_vote v) then (Inr (step_votes_default, False), ag)
      else case votes_for committee signer of
        None \<Rightarrow> (Inl AggNotCommitteeMember, ag)
      | Some weight \<Rightarrow>
          (case or_default (None, bm_empty) (ag_votes ag (step, msg_vote v)) of (aggr_sign, cluster) \<Rightarrow>
           let ag = ag\<lparr>ag_votes := (ag_votes ag)((step, msg_vote v) \<mapsto> (aggr_sign, cluster))\<rparr> in
           if cluster_contains_key signer cluster then (Inl DuplicatedVote, ag)
           else if emergency then aggregate_vote nc committee v weight aggr_sign cluster ag
           else
             let voters_list = or_default (\<lambda>_. None) (ag_uniqueness ag step) in
             (case voters_list signer of
                Some prev_vote \<Rightarrow>
                  (Inl (ConflictingVote prev_vote), ag\<lparr>ag_uniqueness := (ag_uniqueness ag)(step \<mapsto> voters_list)\<rparr>)
              | None \<Rightarrow>
                  aggregate_vote nc committee v weight aggr_sign cluster
                    (ag\<lparr>ag_uniqueness := (ag_uniqueness ag)(step \<mapsto> voters_list(signer \<mapsto> v))\<rparr>))))"

section \<open>Checking step votes\<close>

datatype step_sig_error = VoteSetTooSmall | VerificationFailed bls_error | InvalidType

record quorum_result =
  qr_total :: nat
  qr_target_quorum :: nat

definition quorum_reached :: "quorum_result \<Rightarrow> bool" where
  "quorum_reached r \<longleftrightarrow> qr_total r \<ge> qr_target_quorum r"

definition step_SIGN_SEED :: "step_name \<Rightarrow> bytes option" where
  "step_SIGN_SEED step =
     (case step of
        Validation \<Rightarrow> Some validation_SIGN_SEED | Ratification \<Rightarrow> Some ratification_SIGN_SEED | Proposal \<Rightarrow> None)"

definition verify_step_signature ::
    "('mpk, 'msig) node_crypto \<Rightarrow> consensus_header \<Rightarrow> step_name \<Rightarrow> vote \<Rightarrow> 'mpk \<Rightarrow> bytes \<Rightarrow> step_sig_error + unit" where
  "verify_step_signature nc header step vote apk signature =
     (case step_SIGN_SEED step of
        None \<Rightarrow> Inl InvalidType
      | Some sign_seed \<Rightarrow>
          (case nc_sig_from_bytes nc signature of
             Inl e \<Rightarrow> Inl (VerificationFailed e)
           | Inr sig \<Rightarrow>
               (case nc_verify nc apk sig (signable header @ sign_seed @ vote_write vote) of
                  Inl e \<Rightarrow> Inl (VerificationFailed e)
                | Inr _ \<Rightarrow> Inr ())))"

definition aggregate_pks :: "('mpk, 'msig) node_crypto \<Rightarrow> cluster \<Rightarrow> step_sig_error + 'mpk" where
  "aggregate_pks nc cluster =
     (case nc_pk_aggregate nc (bm_keys cluster) of Inl e \<Rightarrow> Inl (VerificationFailed e) | Inr apk \<Rightarrow> Inr apk)"

definition to_voters :: "cluster \<Rightarrow> voter list" where
  "to_voters cluster = bm_entries cluster"

definition verify_votes ::
    "('mpk, 'msig) node_crypto \<Rightarrow> consensus_header \<Rightarrow> step_name \<Rightarrow> vote \<Rightarrow> step_votes \<Rightarrow> committee
     \<Rightarrow> step_sig_error + (quorum_result \<times> voter list)" where
  "verify_votes nc header step vote sv committee =
     (let bitset = sv_bitset sv;
          sub_committee = committee_intersect committee bitset;
          result = \<lparr>qr_total = total_occurrences committee sub_committee,
                    qr_target_quorum = quorum_target committee vote\<rparr>;
          skip_quorum = (step = Validation \<and> vote = NoQuorum) in
      if \<not> skip_quorum \<and> \<not> quorum_reached result then Inl VoteSetTooSmall
      else if bitset > 0 then
        res_bind (aggregate_pks nc sub_committee) (\<lambda>apk.
        res_bind (verify_step_signature nc header step vote apk (sv_aggregate_signature sv)) (\<lambda>_.
          Inr (result, to_voters sub_committee)))
      else Inr (result, to_voters sub_committee))"

text \<open>
  \<open>get_step_committee\<close>: the committee of a step, without the generators of this and of the next iteration.
  The set of committees is a cache of \<open>Committee::new\<close>.
\<close>

definition step_exclusion ::
    "(bytes \<Rightarrow> bytes) \<Rightarrow> consensus_header \<Rightarrow> seed \<Rightarrow> provisioners \<Rightarrow> public_key list res option" where
  "step_exclusion hash header seed p =
     (case get_generator hash (ch_iteration header) seed (ch_round header) p of
        None \<Rightarrow> None
      | Some (Inl e) \<Rightarrow> Some (Inl e)
      | Some (Inr generator) \<Rightarrow>
          if exclude_next_generator (ch_iteration header) then
            (case get_generator hash (ch_iteration header + 1) seed (ch_round header) p of
               None \<Rightarrow> None
             | Some (Inl e) \<Rightarrow> Some (Inl e)
             | Some (Inr next) \<Rightarrow> Some (Inr [generator, next]))
          else Some (Inr [generator]))"

definition get_step_committee ::
    "(bytes \<Rightarrow> bytes) \<Rightarrow> consensus_header \<Rightarrow> provisioners \<Rightarrow> seed \<Rightarrow> step_name \<Rightarrow> committee res option" where
  "get_step_committee hash header p seed step =
     (case step_exclusion hash header seed p of
        None \<Rightarrow> None
      | Some (Inl e) \<Rightarrow> Some (Inl e)
      | Some (Inr exclusion) \<Rightarrow>
          committee_new hash (sortition_config_new seed (ch_round header) (ch_iteration header) step exclusion) p)"

definition verify_step_votes ::
    "('mpk, 'msig) node_crypto \<Rightarrow> (bytes \<Rightarrow> bytes) \<Rightarrow> consensus_header \<Rightarrow> vote \<Rightarrow> step_votes \<Rightarrow> provisioners
     \<Rightarrow> seed \<Rightarrow> step_name \<Rightarrow> (step_sig_error + (quorum_result \<times> voter list)) res option" where
  "verify_step_votes nc hash header vote sv p seed step =
     map_option (res_map (verify_votes nc header step vote sv)) (get_step_committee hash header p seed step)"

definition get_step_voters ::
    "(bytes \<Rightarrow> bytes) \<Rightarrow> consensus_header \<Rightarrow> step_votes \<Rightarrow> provisioners \<Rightarrow> seed \<Rightarrow> step_name
     \<Rightarrow> voter list res option" where
  "get_step_voters hash header sv p seed step =
     map_option (res_map (\<lambda>committee. to_voters (committee_intersect committee (sv_bitset sv))))
       (get_step_committee hash header p seed step)"

end
