(* ===== verification/Votes_Safety.thy ===== *)
theory Votes_Safety
  imports Consensus_Votes
begin

text \<open>
  The aggregator over all the votes of a round: the voters of a vote are members of the step's committee,
  a member is among the voters of one vote only outside the emergency iterations, and the aggregated
  signature is the signature of the voters.  From these: at most one vote of a step reaches its quorum, and
  what the aggregator returns with a quorum passes the check that other nodes make.
\<close>

section \<open>Multisignatures\<close>

definition signed_by :: "('mpk, 'msig) node_crypto \<Rightarrow> public_key list \<Rightarrow> 'msig \<Rightarrow> bytes \<Rightarrow> bool" where
  "signed_by nc pks sig msg \<longleftrightarrow> (\<exists>apk. nc_pk_aggregate nc pks = Inr apk \<and> nc_verify nc apk sig msg = Inr ())"

text \<open>
  What the aggregation of signatures promises: adding the signature of one more signer gives a signature
  of all of them, whatever their order; and a signature is read back from its bytes.
\<close>

definition multisig_laws :: "('mpk, 'msig) node_crypto \<Rightarrow> bool" where
  "multisig_laws nc \<longleftrightarrow>
     (\<forall>sig. nc_sig_from_bytes nc (nc_sig_to_bytes nc sig) = Inr sig) \<and>
     (\<forall>pks pk pks' sig1 sig2 msg.
        signed_by nc pks sig1 msg \<and> signed_by nc [pk] sig2 msg \<and> pk \<notin> set pks \<and>
        distinct pks \<and> distinct pks' \<and> set pks' = insert pk (set pks) \<longrightarrow>
        signed_by nc pks' (nc_sig_aggregate nc sig1 sig2) msg)"

lemma multisig_aggregate:
  assumes "multisig_laws nc" and "signed_by nc pks sig1 msg" and "signed_by nc [pk] sig2 msg"
    and "pk \<notin> set pks" and "distinct pks" and "distinct pks'" and "set pks' = insert pk (set pks)"
  shows "signed_by nc pks' (nc_sig_aggregate nc sig1 sig2) msg"
  using assms unfolding multisig_laws_def by blast

lemma verify_signature_Inr:
  "verify_signature nc s msg = Inr () \<longleftrightarrow>
     (\<exists>sig. nc_sig_from_bytes nc (si_signature s) = Inr sig \<and> signed_by nc [si_signer s] sig msg)"
  by (auto simp: verify_signature_def signed_by_def)

section \<open>One vote\<close>

text \<open>What the maps of the aggregator say of a step and a vote, absent entries being empty.\<close>

definition voters :: "'msig aggregator \<Rightarrow> u8 \<times> vote \<Rightarrow> cluster" where
  "voters ag key = snd (or_default (None, bm_empty) (ag_votes ag key))"

definition signature_of :: "'msig aggregator \<Rightarrow> u8 \<times> vote \<Rightarrow> 'msig option" where
  "signature_of ag key = fst (or_default (None, bm_empty) (ag_votes ag key))"

definition cast_by :: "'msig aggregator \<Rightarrow> u8 \<Rightarrow> public_key \<Rightarrow> step_msg option" where
  "cast_by ag step pk = or_default (\<lambda>_. None) (ag_uniqueness ag step) pk"

lemma or_default_simps [simp]: "or_default d None = d" "or_default d (Some x) = x"
  by (simp_all add: or_default_def)

lemma views_default [simp]:
  "voters aggregator_default key = bm_empty"
  "signature_of aggregator_default key = None"
  "cast_by aggregator_default step pk = None"
  by (simp_all add: voters_def signature_of_def cast_by_def aggregator_default_def)

lemma views_update [simp]:
  "voters (ag\<lparr>ag_votes := (ag_votes ag)(k \<mapsto> e)\<rparr>) = (voters ag)(k := snd e)"
  "signature_of (ag\<lparr>ag_votes := (ag_votes ag)(k \<mapsto> e)\<rparr>) = (signature_of ag)(k := fst e)"
  "cast_by (ag\<lparr>ag_votes := x\<rparr>) = cast_by ag"
  "voters (ag\<lparr>ag_uniqueness := y\<rparr>) = voters ag"
  "signature_of (ag\<lparr>ag_uniqueness := y\<rparr>) = signature_of ag"
  "cast_by (ag\<lparr>ag_uniqueness := (ag_uniqueness ag)(s \<mapsto> f)\<rparr>) = (cast_by ag)(s := f)"
  by (auto simp: voters_def signature_of_def cast_by_def fun_eq_iff)

text \<open>The vote is added, with its signer's weight.\<close>

definition vote_added ::
    "('mpk, 'msig) node_crypto \<Rightarrow> committee \<Rightarrow> step_msg \<Rightarrow> 'msig aggregator \<Rightarrow> 'msig aggregator
     \<Rightarrow> (aggregator_error + (step_votes \<times> bool)) \<Rightarrow> bool" where
  "vote_added nc c v ag ag' r \<longleftrightarrow>
     (\<exists>w sig. let key = (msg_step v, msg_vote v); signer = si_signer (msg_sign_info v);
            sig' = (case signature_of ag key of Some d \<Rightarrow> nc_sig_aggregate nc d sig | None \<Rightarrow> sig);
            cl = bm_insert signer w (voters ag key) in
        votes_for c signer = Some w \<and> bm_get (voters ag key) signer = None \<and>
        nc_sig_from_bytes nc (si_signature (msg_sign_info v)) = Inr sig \<and>
        voters ag' = (voters ag)(key := cl) \<and> signature_of ag' = (signature_of ag)(key := Some sig') \<and>
        r = Inr (step_votes_new (nc_sig_to_bytes nc sig') (committee_bits c cl),
                 cluster_total_occurrences cl \<ge> quorum_target c (msg_vote v)))"

lemma aggregate_vote_added:
  assumes "votes_for c (si_signer (msg_sign_info v)) = Some w" and "w \<noteq> 0"
    and "\<not> cluster_contains_key (si_signer (msg_sign_info v)) cl"
    and "ag_votes ag (msg_step v, msg_vote v) = Some (a, cl)"
    and "aggregate_vote nc c v w a cl ag = (r, ag')"
  shows "cast_by ag' = cast_by ag" and "vote_added nc c v ag ag' r \<or> voters ag' = voters ag \<and> signature_of ag' = signature_of ag \<and> \<not> is_ok r"
proof -
  have k: "signature_of ag (msg_step v, msg_vote v) = a" "voters ag (msg_step v, msg_vote v) = cl"
    using assms(4) by (simp_all add: signature_of_def voters_def)
  have add: "cluster_add (si_signer (msg_sign_info v)) w cl = (Some w, bm_insert (si_signer (msg_sign_info v)) w cl)"
    using assms(2,3) by (simp add: cluster_add_def)
  show "cast_by ag' = cast_by ag"
    using assms(5) by (auto simp: aggregate_vote_def Let_def add aggr_add_def aggregated_bytes_def split: sum.splits)
  show "vote_added nc c v ag ag' r \<or> voters ag' = voters ag \<and> signature_of ag' = signature_of ag \<and> \<not> is_ok r"
    using assms(1,3,5)
    by (auto simp: aggregate_vote_def vote_added_def Let_def add aggr_add_def aggregated_bytes_def k
        cluster_contains_key_def split: sum.splits)
qed

lemma vote_added_cong:
  "voters ag1 = voters ag2 \<Longrightarrow> signature_of ag1 = signature_of ag2 \<Longrightarrow>
     vote_added nc c v ag1 ag' r \<longleftrightarrow> vote_added nc c v ag2 ag' r"
  by (simp add: vote_added_def)

lemma collect_vote_cases:
  assumes "wf_committee c" and "collect_vote nc c v ag = (r, ag')"
  obtains (same) "voters ag' = voters ag" "signature_of ag' = signature_of ag"
      "\<And>s pk. cast_by ag s pk \<noteq> None \<Longrightarrow> cast_by ag' s pk = cast_by ag s pk"
      "\<And>sv. r \<noteq> Inr (sv, True)" "\<And>sv. r = Inr (sv, False) \<Longrightarrow> sv = step_votes_default"
  | (added) "vote_added nc c v ag ag' r"
      "if is_emergency_iter (ch_iteration (msg_header v)) then cast_by ag' = cast_by ag
       else cast_by ag (msg_step v) (si_signer (msg_sign_info v)) = None \<and>
            cast_by ag' = (cast_by ag)(msg_step v := (cast_by ag (msg_step v))(si_signer (msg_sign_info v) \<mapsto> v))"
proof -
  let ?key = "(msg_step v, msg_vote v)" and ?signer = "si_signer (msg_sign_info v)"
  let ?em = "is_emergency_iter (ch_iteration (msg_header v))"
  let ?uniq = "or_default (\<lambda>_. None) (ag_uniqueness ag (msg_step v))"
  obtain a cl where e: "or_default (None, bm_empty) (ag_votes ag ?key) = (a, cl)" by force
  define ag1 where "ag1 = ag\<lparr>ag_votes := (ag_votes ag)(?key \<mapsto> (a, cl))\<rparr>"
  have ag1: "voters ag1 = voters ag" "signature_of ag1 = signature_of ag" "cast_by ag1 = cast_by ag"
    "ag_uniqueness ag1 = ag_uniqueness ag"
    using e by (auto simp: ag1_def voters_def signature_of_def fun_eq_iff)
  have u: "?uniq = cast_by ag (msg_step v)" by (simp add: cast_by_def fun_eq_iff)
  show thesis
  proof (cases "?em \<and> \<not> vote_is_valid (msg_vote v) \<or> votes_for c ?signer = None \<or> cluster_contains_key ?signer cl \<or>
      \<not> ?em \<and> ?uniq ?signer \<noteq> None")
    case True
    then have "ag' = ag \<or> ag' = ag1 \<or> ag' = ag1\<lparr>ag_uniqueness := (ag_uniqueness ag1)(msg_step v \<mapsto> ?uniq)\<rparr>"
      and "\<not> is_ok r \<or> r = Inr (step_votes_default, False)"
      using assms(2) e
      by (auto simp: collect_vote_def Let_def ag1_def [symmetric] ag1(4) split: option.splits if_splits)
    moreover from this(1) have "voters ag' = voters ag" "signature_of ag' = signature_of ag" "cast_by ag' = cast_by ag"
      using ag1 u by (auto simp: cast_by_def fun_eq_iff)
    moreover from calculation(2) have "r \<noteq> Inr (sv, True)" "r = Inr (sv, False) \<Longrightarrow> sv = step_votes_default" for sv by auto
    ultimately show thesis by (intro same) auto
  next
    case False
    then obtain w where w: "votes_for c ?signer = Some w" and fresh: "\<not> cluster_contains_key ?signer cl"
      and uniq: "?em \<or> ?uniq ?signer = None" by auto
    have "w \<noteq> 0" using assms(1) w unfolding wf_committee_def by (cases "w = 0") auto
    define ag2 where "ag2 = (if ?em then ag1 else ag1\<lparr>ag_uniqueness := (ag_uniqueness ag1)(msg_step v \<mapsto> ?uniq(?signer \<mapsto> v))\<rparr>)"
    have agg: "aggregate_vote nc c v w a cl ag2 = (r, ag')"
      using assms(2) False w e uniq
      by (auto simp: collect_vote_def Let_def ag1_def [symmetric] ag1(4) ag2_def split: option.splits if_splits)
    have ag2: "voters ag2 = voters ag" "signature_of ag2 = signature_of ag"
      "ag_votes ag2 ?key = Some (a, cl)"
      using ag1 by (simp_all add: ag2_def) (simp_all add: ag1_def)
    have cast: "if ?em then cast_by ag2 = cast_by ag else cast_by ag (msg_step v) ?signer = None \<and>
        cast_by ag2 = (cast_by ag)(msg_step v := (cast_by ag (msg_step v))(?signer \<mapsto> v))"
      using uniq ag1(3) u by (auto simp: ag2_def)
    note res = aggregate_vote_added [OF w \<open>w \<noteq> 0\<close> fresh ag2(3) agg]
    from res(2) show thesis
    proof
      assume "vote_added nc c v ag2 ag' r"
      then have "vote_added nc c v ag ag' r" using vote_added_cong [OF ag2(1,2), of nc c v ag' r] by blast
      then show thesis using added cast unfolding res(1) by blast
    next
      assume keep: "voters ag' = voters ag2 \<and> signature_of ag' = signature_of ag2 \<and> \<not> is_ok r"
      have "cast_by ag' s pk = cast_by ag s pk" if "cast_by ag s pk \<noteq> None" for s pk
        using cast that res(1) by (auto split: if_splits)
      moreover from keep have "r \<noteq> Inr (sv, True)" "r = Inr (sv, False) \<Longrightarrow> sv = step_votes_default" for sv by auto
      ultimately show thesis using keep ag2 by (intro same) auto
    qed
  qed
qed

section \<open>All the votes of a round\<close>

text \<open>
  The messages that the consensus hands to the aggregator: of the round that is run, of an iteration it can
  have, and with a signature that was checked.
\<close>

definition accepted_msg :: "('mpk, 'msig) node_crypto \<Rightarrow> hash \<Rightarrow> u64 \<Rightarrow> step_msg \<Rightarrow> bool" where
  "accepted_msg nc prev rnd v \<longleftrightarrow>
     ch_prev_block_hash (msg_header v) = prev \<and> ch_round (msg_header v) = rnd \<and>
     ch_iteration (msg_header v) \<le> CONSENSUS_MAX_ITER \<and> verify_msg_signature nc v = Inr ()"

inductive aggregated ::
    "('mpk, 'msig) node_crypto \<Rightarrow> (u8 \<Rightarrow> committee) \<Rightarrow> hash \<Rightarrow> u64 \<Rightarrow> 'msig aggregator \<Rightarrow> bool"
  for nc cof prev rnd where
  init: "aggregated nc cof prev rnd aggregator_default"
| collect: "aggregated nc cof prev rnd ag \<Longrightarrow> accepted_msg nc prev rnd v \<Longrightarrow>
     collect_vote nc (cof (msg_step v)) v ag = (r, ag') \<Longrightarrow> aggregated nc cof prev rnd ag'"

definition members_vote :: "(u8 \<Rightarrow> committee) \<Rightarrow> 'msig aggregator \<Rightarrow> bool" where
  "members_vote cof ag \<longleftrightarrow> (\<forall>step vote. voters_of (cof step) (voters ag (step, vote)))"

definition normal_step :: "u8 \<Rightarrow> bool" where
  "normal_step step \<longleftrightarrow>
     (\<forall>name iter. iter \<le> CONSENSUS_MAX_ITER \<longrightarrow> step = to_step name iter \<longrightarrow> \<not> is_emergency_iter iter)"

definition votes_unique :: "'msig aggregator \<Rightarrow> bool" where
  "votes_unique ag \<longleftrightarrow>
     (\<forall>step vote pk. normal_step step \<and> bm_get (voters ag (step, vote)) pk \<noteq> None \<longrightarrow>
        (\<exists>m. cast_by ag step pk = Some m \<and> msg_vote m = vote))"

definition signed_bytes :: "hash \<Rightarrow> u64 \<Rightarrow> step_name \<Rightarrow> u8 \<Rightarrow> vote \<Rightarrow> bytes" where
  "signed_bytes prev rnd name iter vote =
     signable \<lparr>ch_prev_block_hash = prev, ch_round = rnd, ch_iteration = iter\<rparr> @
     (case name of Validation \<Rightarrow> validation_SIGN_SEED | Ratification \<Rightarrow> ratification_SIGN_SEED | Proposal \<Rightarrow> [])
     @ vote_write vote"

definition voters_signed :: "('mpk, 'msig) node_crypto \<Rightarrow> hash \<Rightarrow> u64 \<Rightarrow> 'msig aggregator \<Rightarrow> bool" where
  "voters_signed nc prev rnd ag \<longleftrightarrow>
     (\<forall>name iter vote. iter \<le> CONSENSUS_MAX_ITER \<longrightarrow>
        (case signature_of ag (to_step name iter, vote) of
           None \<Rightarrow> voters ag (to_step name iter, vote) = bm_empty
         | Some sig \<Rightarrow> signed_by nc (bm_keys (voters ag (to_step name iter, vote))) sig
                        (signed_bytes prev rnd name iter vote)))"

lemma msg_signable_bytes:
  "accepted_msg nc prev rnd v \<Longrightarrow>
     msg_signable v = signed_bytes prev rnd (msg_step_name v) (ch_iteration (msg_header v)) (msg_vote v)"
  by (cases v) (auto simp: accepted_msg_def msg_signable_def signed_bytes_def msg_step_name_def msg_header_def
      msg_vote_def validation_signable_def ratification_signable_def signable_def consensus_header_write_def)

lemma members_vote_step:
  assumes "members_vote cof ag" and "wf_committee (cof (msg_step v))"
    and "collect_vote nc (cof (msg_step v)) v ag = (r, ag')"
  shows "members_vote cof ag'"
  using assms(2,3)
proof (cases rule: collect_vote_cases)
  case same
  then show ?thesis using assms(1) by (simp add: members_vote_def)
next
  case added
  then obtain w where "votes_for (cof (msg_step v)) (si_signer (msg_sign_info v)) = Some w"
    and "voters ag' = (voters ag)((msg_step v, msg_vote v) :=
      bm_insert (si_signer (msg_sign_info v)) w (voters ag (msg_step v, msg_vote v)))"
    by (auto simp: vote_added_def Let_def)
  then show ?thesis using assms(1) by (auto simp: members_vote_def voters_of_def split: if_splits)
qed

lemma votes_unique_step:
  assumes "votes_unique ag" and "wf_committee (cof (msg_step v))"
    and "ch_iteration (msg_header v) \<le> CONSENSUS_MAX_ITER"
    and "collect_vote nc (cof (msg_step v)) v ag = (r, ag')"
  shows "votes_unique ag'"
  using assms(2,4)
proof (cases rule: collect_vote_cases)
  case same
  then show ?thesis using assms(1) unfolding votes_unique_def by (metis option.distinct(1))
next
  case added
  have em: "\<not> is_emergency_iter (ch_iteration (msg_header v))" if "normal_step (msg_step v)"
    using that assms(3) by (auto simp: normal_step_def msg_step_def)
  obtain w where vs: "voters ag' = (voters ag)((msg_step v, msg_vote v) :=
      bm_insert (si_signer (msg_sign_info v)) w (voters ag (msg_step v, msg_vote v)))"
    using added(1) by (auto simp: vote_added_def Let_def)
  show ?thesis unfolding votes_unique_def
  proof (intro allI impI)
    fix step vote pk
    assume a: "normal_step step \<and> bm_get (voters ag' (step, vote)) pk \<noteq> None"
    show "\<exists>m. cast_by ag' step pk = Some m \<and> msg_vote m = vote"
    proof (cases "step = msg_step v \<and> pk = si_signer (msg_sign_info v)")
      case True
      then have fresh: "cast_by ag step pk = None" "cast_by ag' step pk = Some v" using added(2) em a by auto
      have "vote = msg_vote v"
      proof (rule ccontr)
        assume "vote \<noteq> msg_vote v"
        then have "bm_get (voters ag (step, vote)) pk \<noteq> None" using a vs by simp
        with assms(1) a have "cast_by ag step pk \<noteq> None" unfolding votes_unique_def by blast
        then show False using fresh(1) by simp
      qed
      with fresh show ?thesis by simp
    next
      case False
      then have "bm_get (voters ag (step, vote)) pk \<noteq> None" using a vs by (auto split: if_splits)
      then obtain m where "cast_by ag step pk = Some m" "msg_vote m = vote"
        using assms(1) a unfolding votes_unique_def by blast
      moreover have "cast_by ag' step pk = cast_by ag step pk" using added(2) False by (auto split: if_splits)
      ultimately show ?thesis by simp
    qed
  qed
qed

lemma bm_keys_distinct: "distinct (bm_keys m)"
  using bm_entries_distinct by (simp add: bm_keys_def)

lemma bm_keys_single: "bm_keys (bm_insert k v bm_empty) = [k]"
  by (simp add: bm_keys_def bm_insert.rep_eq bm_empty.rep_eq)

lemma voters_signed_step:
  assumes "multisig_laws nc" and "voters_signed nc prev rnd ag" and "wf_committee (cof (msg_step v))"
    and "accepted_msg nc prev rnd v" and "collect_vote nc (cof (msg_step v)) v ag = (r, ag')"
  shows "voters_signed nc prev rnd ag'"
  using assms(3,5)
proof (cases rule: collect_vote_cases)
  case same
  show ?thesis using assms(2) unfolding voters_signed_def same(1,2) .
next
  case added
  let ?key = "(msg_step v, msg_vote v)" and ?signer = "si_signer (msg_sign_info v)"
  let ?bytes = "signed_bytes prev rnd (msg_step_name v) (ch_iteration (msg_header v)) (msg_vote v)"
  obtain w sig where fresh: "bm_get (voters ag ?key) ?signer = None"
    and sig: "nc_sig_from_bytes nc (si_signature (msg_sign_info v)) = Inr sig"
    and vs: "voters ag' = (voters ag)(?key := bm_insert ?signer w (voters ag ?key))"
    and ss: "signature_of ag' = (signature_of ag)(?key :=
       Some (case signature_of ag ?key of Some d \<Rightarrow> nc_sig_aggregate nc d sig | None \<Rightarrow> sig))"
    using added(1) by (auto simp: vote_added_def Let_def)
  have one: "signed_by nc [?signer] sig ?bytes"
    using assms(4) sig msg_signable_bytes [OF assms(4)]
    by (auto simp: accepted_msg_def verify_msg_signature_def verify_signature_Inr)
  have iter: "ch_iteration (msg_header v) \<le> CONSENSUS_MAX_ITER" using assms(4) by (simp add: accepted_msg_def)
  then have old: "case signature_of ag ?key of None \<Rightarrow> voters ag ?key = bm_empty
      | Some d \<Rightarrow> signed_by nc (bm_keys (voters ag ?key)) d ?bytes"
    using assms(2) unfolding voters_signed_def msg_step_def by blast
  have keys: "set (bm_keys (voters ag' ?key)) = insert ?signer (set (bm_keys (voters ag ?key)))"
    by (auto simp: bm_keys_iff vs split: if_splits)
  have new: "signed_by nc (bm_keys (voters ag' ?key)) (the (signature_of ag' ?key)) ?bytes"
  proof (cases "signature_of ag ?key")
    case None
    then show ?thesis using old one by (simp add: vs ss bm_keys_single)
  next
    case (Some d)
    have "?signer \<notin> set (bm_keys (voters ag ?key))" using fresh by (simp add: bm_keys_iff)
    with Some old keys have "signed_by nc (bm_keys (voters ag' ?key)) (nc_sig_aggregate nc d sig) ?bytes"
      by (intro multisig_aggregate [OF assms(1) _ one]) (auto simp: bm_keys_distinct)
    with Some show ?thesis by (simp add: ss)
  qed
  show ?thesis unfolding voters_signed_def
  proof (intro allI impI)
    fix name iter vote
    assume i: "iter \<le> CONSENSUS_MAX_ITER"
    show "case signature_of ag' (to_step name iter, vote) of
        None \<Rightarrow> voters ag' (to_step name iter, vote) = bm_empty
      | Some s \<Rightarrow> signed_by nc (bm_keys (voters ag' (to_step name iter, vote))) s (signed_bytes prev rnd name iter vote)"
    proof (cases "(to_step name iter, vote) = ?key")
      case True
      then have "name = msg_step_name v \<and> iter = ch_iteration (msg_header v)"
        using i iter to_step_inject by (auto simp: msg_step_def)
      then have b: "signed_bytes prev rnd name iter vote = ?bytes" using True by simp
      show ?thesis unfolding True b using new by (simp add: ss)
    next
      case False
      then have "voters ag' (to_step name iter, vote) = voters ag (to_step name iter, vote)"
        "signature_of ag' (to_step name iter, vote) = signature_of ag (to_step name iter, vote)"
        by (simp_all only: vs ss fun_upd_apply if_False)
      note k = this
      show ?thesis unfolding k using assms(2) i unfolding voters_signed_def by blast
    qed
  qed
qed

lemma aggregated_invariants:
  assumes "aggregated nc cof prev rnd ag" and "\<And>step. wf_committee (cof step)"
  shows "members_vote cof ag \<and> votes_unique ag \<and> (multisig_laws nc \<longrightarrow> voters_signed nc prev rnd ag)"
  using assms(1)
proof induction
  case init
  show ?case by (simp add: members_vote_def voters_of_def votes_unique_def voters_signed_def)
next
  case (collect ag v r ag')
  then show ?case
    using members_vote_step [where cof = cof, OF _ assms(2) collect.hyps(3)]
      votes_unique_step [where cof = cof, OF _ assms(2) _ collect.hyps(3)]
      voters_signed_step [where cof = cof, OF _ _ assms(2) collect.hyps(2,3)]
    by (auto simp: accepted_msg_def)
qed

section \<open>Committees from the sortition\<close>

lemma committee_loop_length:
  "committee_loop hash cfg n comm weight ex = Some (Inr ex') \<Longrightarrow> length ex' \<le> length ex + n"
proof (induction hash cfg n comm weight ex rule: committee_loop.induct)
  case (2 hash cfg n comm weight extracted)
  then show ?case by (fastforce split: sum.splits option.splits if_splits prod.splits)
qed simp

text \<open>A committee of the sortition with the credits of a voting step.\<close>

definition sortition_committee :: "committee \<Rightarrow> bool" where
  "sortition_committee c \<longleftrightarrow>
     (\<exists>hash cfg p. committee_new hash cfg p = Some (Inr c) \<and> so_committee_credits cfg = 64)"

lemma card_count: "length (bm_entries (fold count_member ex bm_empty)) \<le> length ex"
proof -
  let ?m = "fold count_member ex (bm_empty :: cluster)"
  have "set (map fst (bm_entries ?m)) = set ex"
  proof -
    have "k \<in> set (bm_keys ?m) \<longleftrightarrow> k \<in> set ex" for k by (simp add: bm_keys_iff count_member_get)
    then show ?thesis by (auto simp: bm_keys_def)
  qed
  then have "length (bm_entries ?m) = card (set ex)"
    using distinct_card [OF bm_entries_distinct [of ?m]] by simp
  then show ?thesis by (simp add: card_length)
qed

lemma sortition_committee:
  assumes "sortition_committee c"
  shows "wf_committee c" and "cluster_total_occurrences (cm_members c) \<le> 64"
    and "cm_majority c = 33" and "cm_super_majority c = 43"
proof -
  obtain hash cfg p ex where ex: "create_committee hash cfg p = Some (Inr ex)" and n: "so_committee_credits cfg = 64"
    and c: "c = committee_of_extracted cfg ex"
    using assms by (auto simp: sortition_committee_def committee_new_def)
  have len: "length ex \<le> 64"
    using committee_loop_length [of hash cfg] ex n by (fastforce simp: create_committee_def Let_def)
  show "cluster_total_occurrences (cm_members c) \<le> 64" using committee_votes(2) [OF c] len by simp
  have "committee_size c \<le> 64" using card_count [of ex] len by (simp add: committee_size_def c committee_of_extracted_def)
  moreover have "votes_for c pk \<noteq> Some 0" for pk
    using committee_votes(1) [OF c] by (simp add: count_list_0_iff)
  ultimately show "wf_committee c" by (simp add: wf_committee_def)
  show "cm_majority c = 33" "cm_super_majority c = 43"
    by (simp_all add: c committee_of_extracted_def n majority_def supermajority_exact)
qed

lemma bm_sum_keys: "bm_sum f m = (\<Sum>k \<in> set (bm_keys m). f (the (bm_get m k)))"
proof -
  have "bm_sum f m = sum_list (map (\<lambda>k. f (the (bm_get m k))) (bm_keys m))"
    unfolding bm_sum_def bm_keys_def map_map
    by (intro arg_cong [where f = sum_list] map_cong) (auto simp: bm_entries_iff)
  also have "\<dots> = (\<Sum>k \<in> set (bm_keys m). f (the (bm_get m k)))"
    by (rule sum_list_distinct_conv_sum_set) (rule bm_keys_distinct)
  finally show ?thesis .
qed

lemma voters_sum:
  assumes "voters_of c x"
  shows "cluster_total_occurrences x = (\<Sum>pk \<in> set (bm_keys x). the (votes_for c pk))"
  unfolding cluster_total bm_sum_keys
  using assms by (intro sum.cong) (auto simp: bm_keys_iff voters_of_def)

lemma members_voters: "voters_of c (cm_members c)"
  by (simp add: voters_of_def votes_for_def)

lemma overlapping_voters:
  assumes "voters_of c a" and "voters_of c b"
  shows "cluster_total_occurrences a + cluster_total_occurrences b \<le>
           cluster_total_occurrences (cm_members c) +
           (\<Sum>pk \<in> set (bm_keys a) \<inter> set (bm_keys b). the (votes_for c pk))"
proof -
  let ?w = "\<lambda>k. the (votes_for c k)"
  have "(\<Sum>k \<in> set (bm_keys a) \<union> set (bm_keys b). ?w k) \<le> cluster_total_occurrences (cm_members c)"
    unfolding voters_sum [OF members_voters]
    using assms by (intro sum_mono2) (auto simp: bm_keys_iff voters_of_def votes_for_def)
  moreover have "cluster_total_occurrences a + cluster_total_occurrences b =
      (\<Sum>k \<in> set (bm_keys a) \<union> set (bm_keys b). ?w k) + (\<Sum>k \<in> set (bm_keys a) \<inter> set (bm_keys b). ?w k)"
    unfolding assms [THEN voters_sum] by (rule sum.union_inter [symmetric]) simp_all
  ultimately show ?thesis by simp
qed

lemma disjoint_voters:
  assumes "voters_of c a" and "voters_of c b" and "\<And>pk. bm_get a pk = None \<or> bm_get b pk = None"
  shows "cluster_total_occurrences a + cluster_total_occurrences b \<le> cluster_total_occurrences (cm_members c)"
proof -
  have "set (bm_keys a) \<inter> set (bm_keys b) = {}" using assms(3) by (metis bm_keys_iff disjoint_iff)
  then show ?thesis using overlapping_voters [OF assms(1,2)] by simp
qed

section \<open>Safety\<close>

text \<open>
  C2: At most one vote of a step reaches its quorum.  Whatever messages the aggregator was given, in any
  order, repeated, conflicting or from outside of the committee, outside the emergency iterations no two
  different votes of one step have both the credits that their quorum takes.
\<close>

theorem unique_quorum:
  assumes "aggregated nc cof prev rnd ag" and "\<forall>step. sortition_committee (cof step)"
    and "iter \<le> CONSENSUS_MAX_ITER" and "\<not> is_emergency_iter iter"
    and "quorum_target (cof (to_step name iter)) v1 \<le> cluster_total_occurrences (voters ag (to_step name iter, v1))"
    and "quorum_target (cof (to_step name iter)) v2 \<le> cluster_total_occurrences (voters ag (to_step name iter, v2))"
  shows "v1 = v2"
proof (rule ccontr)
  let ?s = "to_step name iter"
  assume "v1 \<noteq> v2"
  note com = sortition_committee [OF assms(2) [rule_format]]
  have inv: "members_vote cof ag" "votes_unique ag" using aggregated_invariants [OF assms(1) com(1)] by simp_all
  have "normal_step ?s"
    using assms(3,4) to_step_inject unfolding normal_step_def by blast
  have "bm_get (voters ag (?s, v1)) pk = None \<or> bm_get (voters ag (?s, v2)) pk = None" for pk
  proof (rule ccontr)
    assume "\<not> ?thesis"
    then obtain m1 m2 where "cast_by ag ?s pk = Some m1" "msg_vote m1 = v1" "cast_by ag ?s pk = Some m2" "msg_vote m2 = v2"
      using inv(2) \<open>normal_step ?s\<close> unfolding votes_unique_def by meson
    with \<open>v1 \<noteq> v2\<close> show False by simp
  qed
  then have "cluster_total_occurrences (voters ag (?s, v1)) + cluster_total_occurrences (voters ag (?s, v2)) \<le> 64"
    using disjoint_voters [of "cof ?s"] inv(1) com(2) [of ?s] by (meson members_vote_def order_trans)
  moreover have q: "33 \<le> quorum_target (cof ?s) v" for v
    using com(3,4) [of ?s] by (cases v) (simp_all add: quorum_target_def)
  ultimately show False using assms(5,6) q [of v1] q [of v2] by linarith
qed

lemma quorum_votes_verify:
  assumes "multisig_laws nc" and "aggregated nc cof prev rnd ag" and "\<forall>step. sortition_committee (cof step)"
    and "accepted_msg nc prev rnd v" and "collect_vote nc (cof (msg_step v)) v ag = (Inr (sv, True), ag')"
  shows "\<exists>result. verify_votes nc (msg_header v) (msg_step_name v) (msg_vote v) sv (cof (msg_step v)) =
             Inr (result, to_voters (voters ag' (msg_step v, msg_vote v))) \<and>
           quorum_reached result \<and>
           qr_total result = cluster_total_occurrences (voters ag' (msg_step v, msg_vote v))"
proof -
  let ?c = "cof (msg_step v)" and ?key = "(msg_step v, msg_vote v)"
  note com = sortition_committee [OF assms(3) [rule_format]]
  have ag': "aggregated nc cof prev rnd ag'" using assms(2,4,5) by (rule aggregated.collect)
  have inv: "members_vote cof ag'" "voters_signed nc prev rnd ag'"
    using aggregated_invariants [OF ag' com(1)] assms(1) by simp_all
  obtain sig where ss: "signature_of ag' ?key = Some sig"
    and sv: "sv = step_votes_new (nc_sig_to_bytes nc sig) (committee_bits ?c (voters ag' ?key))"
    and q: "quorum_target ?c (msg_vote v) \<le> cluster_total_occurrences (voters ag' ?key)"
    using com(1) assms(5) by (cases rule: collect_vote_cases) (auto simp: vote_added_def Let_def)
  have vo: "voters_of ?c (voters ag' ?key)" using inv(1) by (simp add: members_vote_def)
  have inter: "committee_intersect ?c (sv_bitset sv) = voters ag' ?key"
    using intersect_bits [OF com(1) vo] by (simp add: sv step_votes_new_def)
  have iter: "ch_iteration (msg_header v) \<le> CONSENSUS_MAX_ITER" using assms(4) by (simp add: accepted_msg_def)
  obtain apk where apk: "nc_pk_aggregate nc (bm_keys (voters ag' ?key)) = Inr apk"
    and ver: "nc_verify nc apk sig (signed_bytes prev rnd (msg_step_name v) (ch_iteration (msg_header v)) (msg_vote v)) = Inr ()"
    using inv(2) [unfolded voters_signed_def, rule_format, OF iter, of "msg_step_name v" "msg_vote v"] ss
    by (auto simp: msg_step_def [symmetric] signed_by_def)
  have "verify_step_signature nc (msg_header v) (msg_step_name v) (msg_vote v) apk (sv_aggregate_signature sv) = Inr ()"
    using assms(1) ver msg_signable_bytes [OF assms(4)]
    by (cases v) (auto simp: verify_step_signature_def step_SIGN_SEED_def msg_step_name_def sv step_votes_new_def
        multisig_laws_def msg_signable_def validation_signable_def ratification_signable_def msg_header_def msg_vote_def)
  then show ?thesis
    using q apk by (simp add: verify_votes_def Let_def inter voters_total [OF vo] quorum_reached_def aggregate_pks_def)
qed

text \<open>
  What the aggregator returns with a quorum convinces everyone.  If the signatures aggregate, the step
  votes that come with a quorum pass the check that every other node makes with the committee of the step:
  the bitset gives the voters back, their credits reach the target, and the aggregated signature verifies.
\<close>

theorem collected_quorum_verifies:
  assumes "multisig_laws nc" and "aggregated nc cof prev rnd ag" and "\<forall>step. sortition_committee (cof step)"
    and "accepted_msg nc prev rnd v" and "collect_vote nc (cof (msg_step v)) v ag = (Inr (sv, True), ag')"
  shows "\<exists>result. verify_votes nc (msg_header v) (msg_step_name v) (msg_vote v) sv (cof (msg_step v)) =
             Inr (result, to_voters (voters ag' (msg_step v, msg_vote v))) \<and>
           quorum_reached result \<and>
           qr_total result = cluster_total_occurrences (voters ag' (msg_step v, msg_vote v))"
  by (rule quorum_votes_verify [OF assms])

section \<open>A concrete instance\<close>

text \<open>
  In this instance a signature is a sum of one number for every signer, which the signer's key and the
  message determine.
\<close>

definition share :: "public_key \<Rightarrow> bytes \<Rightarrow> u64" where
  "share pk msg = of_nat (be_value (pk @ msg))"

definition crypto1 :: "(public_key list, u64) node_crypto" where
  "crypto1 = \<lparr>
     nc_pk_valid = (\<lambda>_. True),
     nc_sha3 = (\<lambda>_. replicate 32 5),
     nc_sig_from_bytes = (\<lambda>bs. Inr (from_le_bytes (take 8 bs))),
     nc_sig_to_bytes = (\<lambda>s. to_le_bytes s @ replicate 40 0),
     nc_sig_aggregate = (+),
     nc_pk_aggregate = Inr,
     nc_verify = (\<lambda>pks sig msg. if sig = (\<Sum>pk \<leftarrow> pks. share pk msg) then Inr () else Inl (BlsError 0)),
     nc_wire = wire0,
     nc_phoenix = phoenix_wire0,
     nc_sig_size = 8 \<rparr>"

lemma signed_by_crypto1: "signed_by crypto1 pks sig msg \<longleftrightarrow> sig = (\<Sum>pk \<leftarrow> pks. share pk msg)"
  by (simp add: signed_by_def crypto1_def)

lemma crypto1_laws: "multisig_laws crypto1"
proof -
  have "(\<Sum>k \<leftarrow> pks'. share k msg) = (\<Sum>k \<leftarrow> pks. share k msg) + share pk msg"
    if "pk \<notin> set pks" "distinct pks" "distinct pks'" "set pks' = insert pk (set pks)" for pks pks' pk msg
    using that by (simp add: sum_list_distinct_conv_sum_set)
  note sum = this
  show ?thesis unfolding multisig_laws_def signed_by_crypto1
    by (intro conjI allI impI) (simp add: crypto1_def, elim conjE, simp add: sum, simp add: crypto1_def)
qed

definition lone_provisioner :: provisioners where
  "lone_provisioner = bm_insert [2] (cstake_from_value 5000000000000) bm_empty"

definition lone_sortition :: sortition_config where
  "lone_sortition = sortition_config_new [7] 9 1 Validation []"

definition lone_committee :: committee where
  "lone_committee = committee_of_extracted lone_sortition (replicate 64 [2])"

lemma lone_eligibles: "eligibles rnd lone_provisioner = [([2], cstake_from_value 5000000000000)]"
  by (simp add: eligibles_def lone_provisioner_def cstake_from_value_def is_eligible_def
      DEFAULT_MINIMUM_STAKE_def bm_insert.rep_eq bm_empty.rep_eq)

lemma lone_credits: "so_committee_credits lone_sortition = 64"
  by (simp add: lone_sortition_def sortition_config_new_def committee_credits_def VALIDATION_COMMITTEE_CREDITS_def)

lemma lone_committee_sortition: "sortition_committee lone_committee"
proof (rule create_committee_fills [of lone_sortition lone_provisioner rev])
  show "bm_sum (unat \<circ> cs_value) lone_provisioner < 2 ^ 64"
    by (simp add: lone_provisioner_def bm_sum_insert_new cstake_from_value_def)
next
  fix ex
  assume ex: "create_committee rev lone_sortition lone_provisioner = Some (Inr ex)"
    "length ex = so_committee_credits lone_sortition"
    "set ex \<subseteq> fst ` set (generator_from_provisioners (so_round lone_sortition) (so_exclusion lone_sortition) lone_provisioner)"
  have "set (generator_from_provisioners (so_round lone_sortition) (so_exclusion lone_sortition) lone_provisioner)
      \<subseteq> {([2], cstake_from_value 5000000000000)}"
    using generator_subset(1) [of "so_round lone_sortition" "so_exclusion lone_sortition" lone_provisioner]
    by (simp add: lone_eligibles)
  with ex(3) have "set ex \<subseteq> {[2]}" by fastforce
  then have "\<forall>k \<in> set ex. k = [2]" by auto
  then have "ex = replicate 64 [2]" using ex(2) lone_credits replicate_eqI by metis
  with ex(1) have "committee_new rev lone_sortition lone_provisioner = Some (Inr lone_committee)"
    by (simp add: committee_new_def lone_committee_def)
  with lone_credits show ?thesis unfolding sortition_committee_def by blast
qed (simp_all add: lone_eligibles lone_credits)

lemma count_list_replicate: "count_list (replicate n x) x = n"
  by (induction n) simp_all

lemma lone_votes: "votes_for lone_committee [2] = Some 64" "quorum_target lone_committee NoCandidate = 33"
  using committee_votes(1) [OF lone_committee_def] sortition_committee(3) [OF lone_committee_sortition]
  by (simp_all add: count_list_replicate quorum_target_def)

definition lone_vote :: step_msg where
  "lone_vote = ValidationMsg \<lparr>va_header = header0, va_vote = NoCandidate,
     va_sign_info = \<lparr>si_signer = [2],
       si_signature = nc_sig_to_bytes crypto1 (share [2] (signable header0 @ validation_SIGN_SEED @ vote_write NoCandidate))\<rparr>\<rparr>"

lemma lone_vote_accepted: "accepted_msg crypto1 (replicate 32 9) 5 lone_vote"
  by (simp add: accepted_msg_def lone_vote_def msg_header_def header0_def CONSENSUS_MAX_ITER_def
      verify_msg_signature_def verify_signature_def msg_sign_info_def msg_signable_def validation_signable_def crypto1_def)

lemma lone_vote_step: "msg_step lone_vote = to_step Validation 1" "msg_vote lone_vote = NoCandidate"
  by (simp_all add: lone_vote_def msg_step_def msg_step_name_def msg_header_def msg_vote_def header0_def)

lemma lone_vote_collected:
  obtains sv ag where "collect_vote crypto1 lone_committee lone_vote aggregator_default = (Inr (sv, True), ag)"
    and "voters ag (to_step Validation 1, NoCandidate) = bm_insert [2] 64 bm_empty"
proof -
  have em: "\<not> is_emergency_iter (ch_iteration (msg_header lone_vote))"
    by (simp add: is_emergency_iter_def EMERGENCY_MODE_ITERATION_THRESHOLD_def lone_vote_def msg_header_def header0_def
        word_le_nat_alt)
  have s: "si_signer (msg_sign_info lone_vote) = [2]" by (simp add: lone_vote_def msg_sign_info_def)
  obtain r ag where c: "collect_vote crypto1 lone_committee lone_vote aggregator_default = (r, ag)" by force
  have ok: "\<exists>sv. r = Inr (sv, True)" "voters ag (to_step Validation 1, NoCandidate) = bm_insert [2] 64 bm_empty"
    using c em
    by (auto simp: collect_vote_def Let_def s lone_votes lone_vote_step aggregator_default_def aggregate_vote_def
        aggr_add_def aggregated_bytes_def cluster_contains_key_def cluster_add_def cluster_total voters_def
        bm_sum_insert_new crypto1_def)
  with c that show thesis by blast
qed

theorem unique_quorum_witness:
  "\<exists>ag. aggregated crypto1 (\<lambda>_. lone_committee) (replicate 32 9) 5 ag \<and>
     cluster_total_occurrences (voters ag (to_step Validation 1, NoCandidate)) = 64 \<and>
     (\<forall>v. quorum_target lone_committee v \<le> cluster_total_occurrences (voters ag (to_step Validation 1, v)) \<longrightarrow>
        v = NoCandidate)"
proof (rule lone_vote_collected)
  fix sv ag
  assume c: "collect_vote crypto1 lone_committee lone_vote aggregator_default = (Inr (sv, True), ag)"
    and vs: "voters ag (to_step Validation 1, NoCandidate) = bm_insert [2] 64 bm_empty"
  have ag: "aggregated crypto1 (\<lambda>_. lone_committee) (replicate 32 9) 5 ag"
    using aggregated.collect [OF aggregated.init lone_vote_accepted] c by metis
  have "cluster_total_occurrences (voters ag (to_step Validation 1, NoCandidate)) = 64"
    by (simp add: vs cluster_total bm_sum_insert_new)
  then show ?thesis
    using ag unique_quorum [OF ag, where iter = 1 and name = Validation and ?v2.0 = NoCandidate] lone_committee_sortition lone_votes(2)
    by (auto simp: CONSENSUS_MAX_ITER_def is_emergency_iter_def EMERGENCY_MODE_ITERATION_THRESHOLD_def word_le_nat_alt)
qed

theorem collected_quorum_verifies_witness:
  "\<exists>sv ag result. collect_vote crypto1 lone_committee lone_vote aggregator_default = (Inr (sv, True), ag) \<and>
     verify_votes crypto1 (msg_header lone_vote) (msg_step_name lone_vote) (msg_vote lone_vote) sv lone_committee =
       Inr (result, to_voters (voters ag (msg_step lone_vote, msg_vote lone_vote))) \<and> quorum_reached result"
proof (rule lone_vote_collected)
  fix sv ag
  assume "collect_vote crypto1 lone_committee lone_vote aggregator_default = (Inr (sv, True), ag)"
  then show ?thesis
    using collected_quorum_verifies [OF crypto1_laws aggregated.init _ lone_vote_accepted, of "\<lambda>_. lone_committee" sv ag]
      lone_committee_sortition by blast
qed

end
