(* ===== verification/Header_Validation.thy ===== *)
theory Header_Validation
  imports Votes_Safety
begin

text \<open>
  The checks of a block header, \<^verbatim>\<open>node/src/chain/header_validation.rs\<close>: attestations, the failed
  iterations, the basic fields, the generator's signature and the seed, and the faults of a block.  The
  database, the local time and the configured minimum block time are arguments.
\<close>

section \<open>Runs\<close>

text \<open>
  The result of a check that runs the sortition: \<open>None\<close> if an extraction does not return, a panic, an error
  of the check, or its value.
\<close>

type_synonym ('e, 'a) run = "('e + 'a) res option"

definition run_ret :: "'a \<Rightarrow> ('e, 'a) run" where
  "run_ret x = Some (Inr (Inr x))"

definition run_err :: "'e \<Rightarrow> ('e, 'a) run" where
  "run_err e = Some (Inr (Inl e))"

definition run_bind :: "('e, 'a) run \<Rightarrow> ('a \<Rightarrow> ('e, 'b) run) \<Rightarrow> ('e, 'b) run" where
  "run_bind m f =
     (case m of
        None \<Rightarrow> None
      | Some (Inl p) \<Rightarrow> Some (Inl p)
      | Some (Inr (Inl e)) \<Rightarrow> run_err e
      | Some (Inr (Inr x)) \<Rightarrow> f x)"

definition run_map_err :: "('e \<Rightarrow> 'd) \<Rightarrow> ('e, 'a) run \<Rightarrow> ('d, 'a) run" where
  "run_map_err g m = map_option (res_map (map_sum g id)) m"

lemma run_simps [simp]:
  "run_bind (run_ret x) f = f x"
  "run_bind (run_err e) f = run_err e"
  "run_map_err g (run_ret x) = run_ret x"
  "run_map_err g (run_err e) = run_err (g e)"
  "run_ret x = run_ret y \<longleftrightarrow> x = y"
  "run_err e \<noteq> run_ret x"
  by (simp_all add: run_bind_def run_ret_def run_err_def run_map_err_def)

lemma run_bind_ret: "run_bind m f = run_ret y \<longleftrightarrow> (\<exists>x. m = run_ret x \<and> f x = run_ret y)"
  by (auto simp: run_bind_def run_ret_def run_err_def split: option.splits sum.splits)

lemma run_cases:
  obtains "m = None" | p where "m = Some (Inl p)" | e where "m = run_err e" | x where "m = run_ret x"
proof (cases m)
  case (Some z)
  with that show thesis by (cases z; cases "projr z") (auto simp: run_err_def run_ret_def)
qed (use that in blast)

lemma run_map_err_ret: "run_map_err g m = run_ret y \<longleftrightarrow> m = run_ret y"
  by (cases m rule: run_cases) (simp_all, simp_all add: run_map_err_def run_ret_def)

section \<open>Attestations\<close>

datatype attestation_error =
    InvalidVotes step_name step_sig_error
  | InvalidHash hash hash
  | InvalidResult ratification_result ratification_result

text \<open>\<open>merge_voters\<close>: the credits of a voter are summed.\<close>

definition count_voter :: "voter \<Rightarrow> cluster \<Rightarrow> cluster" where
  "count_voter v m = (case v of (pk, count) \<Rightarrow> bm_insert pk (bm_get_or 0 m pk + count) m)"

definition merge_voters :: "voter list \<Rightarrow> voter list \<Rightarrow> voter list" where
  "merge_voters v1 v2 = bm_entries (fold count_voter (v1 @ v2) bm_empty)"

definition check_expected :: "ratification_result \<Rightarrow> ratification_result option \<Rightarrow> attestation_error + unit" where
  "check_expected result expected =
     (case expected of
        None \<Rightarrow> Inr ()
      | Some e \<Rightarrow>
          (case (result, e) of
             (Success (Valid r_hash), Success (Valid e_hash)) \<Rightarrow>
               if r_hash \<noteq> e_hash then Inl (InvalidHash e_hash r_hash) else Inr ()
           | (Fail _, Fail _) \<Rightarrow> Inr ()
           | _ \<Rightarrow> Inl (InvalidResult result e)))"

definition verify_att ::
    "('mpk, 'msig) node_crypto \<Rightarrow> (bytes \<Rightarrow> bytes) \<Rightarrow> attestation \<Rightarrow> consensus_header \<Rightarrow> seed \<Rightarrow> provisioners
     \<Rightarrow> ratification_result option \<Rightarrow> (attestation_error, quorum_result \<times> quorum_result \<times> voter list) run" where
  "verify_att nc hash att consensus_header curr_seed p expected_result =
     (case check_expected (at_result att) expected_result of
        Inl e \<Rightarrow> run_err e
      | Inr _ \<Rightarrow>
          let vote = result_vote (at_result att) in
          run_bind (run_map_err (InvalidVotes Validation)
            (verify_step_votes nc hash consensus_header vote (at_validation att) p curr_seed Validation))
            (\<lambda>(val_result, validation_voters).
          run_bind (run_map_err (InvalidVotes Ratification)
            (verify_step_votes nc hash consensus_header vote (at_ratification att) p curr_seed Ratification))
            (\<lambda>(rat_result, ratification_voters).
          run_ret (val_result, rat_result, merge_voters validation_voters ratification_voters))))"

text \<open>\<open>get_voters\<close>: the voters of a block's own attestation.\<close>

definition get_voters :: "(bytes \<Rightarrow> bytes) \<Rightarrow> header \<Rightarrow> provisioners \<Rightarrow> seed \<Rightarrow> voter list res option" where
  "get_voters hash blk p prev_block_seed =
     (case get_step_voters hash (to_consensus_header blk) (at_validation (h_att blk)) p prev_block_seed Validation of
        None \<Rightarrow> None
      | Some (Inl e) \<Rightarrow> Some (Inl e)
      | Some (Inr validation_voters) \<Rightarrow>
          (case get_step_voters hash (to_consensus_header blk) (at_ratification (h_att blk)) p prev_block_seed Ratification of
             None \<Rightarrow> None
           | Some (Inl e) \<Rightarrow> Some (Inl e)
           | Some (Inr ratification_voters) \<Rightarrow> Some (Inr (merge_voters validation_voters ratification_voters))))"

section \<open>Headers\<close>

datatype failed_iteration_error =
    TooMany nat
  | InvalidGenerator public_key
  | InvalidFailedAttestation attestation_error

datatype header_error =
    UnsupportedVersion
  | EmptyHash
  | MismatchHeight u64 u64
  | BlockTimeLess
  | BlockTimeHigher u64
  | PrevBlockHash
  | BlockExists
  | InvalidBlockSignature string
  | InvalidSeed string
  | InvalidAttestation attestation_error
  | InvalidFailedIterations failed_iteration_error
  | HeaderGeneric string
  | HeaderStorage string

definition header_must_vote :: "header_error \<Rightarrow> bool" where
  "header_must_vote e \<longleftrightarrow>
     (case e of
        MismatchHeight _ _ \<Rightarrow> False
      | BlockTimeHigher _ \<Rightarrow> False
      | PrevBlockHash \<Rightarrow> False
      | BlockExists \<Rightarrow> False
      | InvalidBlockSignature _ \<Rightarrow> False
      | HeaderStorage _ \<Rightarrow> False
      | HeaderGeneric _ \<Rightarrow> False
      | _ \<Rightarrow> True)"

definition BLOCK_HEADER_VERSION :: u8 where
  "BLOCK_HEADER_VERSION = 1"

definition MARGIN_TIMESTAMP :: u64 where
  "MARGIN_TIMESTAMP = 3"

definition MIN_EMERGENCY_BLOCK_TIME :: u64 where
  "MIN_EMERGENCY_BLOCK_TIME = (40 * 3) * (ucast CONSENSUS_MAX_ITER + 1)"

text \<open>The validator and what it reads: a failed read of the database is \<open>Inl\<close>.\<close>

record ('mpk, 'msig) validator =
  vd_crypto :: "('mpk, 'msig) node_crypto"
  vd_hash :: "bytes \<Rightarrow> bytes"
  vd_block_exists :: "hash \<Rightarrow> string + bool"
  vd_block_header :: "hash \<Rightarrow> string + header option"
  vd_faults_by_block :: "u64 \<Rightarrow> string + fault list"
  vd_local_time :: u64
  vd_minimum_block_time :: u64
  vd_prev_header :: header
  vd_provisioners :: context_provisioners

definition verify_block_generator ::
    "('mpk, 'msig) validator \<Rightarrow> header \<Rightarrow> public_key \<Rightarrow> header_error + 'mpk" where
  "verify_block_generator vd header expected_generator =
     (let nc = vd_crypto vd; generator = h_generator_bls_pubkey header in
      if expected_generator \<noteq> generator then Inl (InvalidBlockSignature ''Signed by a different generator:'')
      else if \<not> nc_pk_valid nc generator then Inl (InvalidBlockSignature ''invalid pk bytes'')
      else case nc_pk_aggregate nc [generator] of
        Inl _ \<Rightarrow> Inl (InvalidBlockSignature ''failed aggregating single key'')
      | Inr mpk \<Rightarrow>
          (case nc_sig_from_bytes nc (h_signature header) of
             Inl _ \<Rightarrow> Inl (InvalidBlockSignature ''invalid block signature bytes'')
           | Inr block_sig \<Rightarrow>
               (case nc_verify nc mpk block_sig (h_hash header) of
                  Inl _ \<Rightarrow> Inl (InvalidBlockSignature ''invalid block signature'')
                | Inr _ \<Rightarrow> Inr mpk)))"

definition verify_seed_field ::
    "('mpk, 'msig) validator \<Rightarrow> bytes \<Rightarrow> 'mpk \<Rightarrow> header_error + unit" where
  "verify_seed_field vd seed pk =
     (case nc_sig_from_bytes (vd_crypto vd) seed of
        Inl _ \<Rightarrow> Inl (InvalidSeed ''invalid seed signature bytes'')
      | Inr signature \<Rightarrow>
          (case nc_verify (vd_crypto vd) pk signature (h_seed (vd_prev_header vd)) of
             Inl _ \<Rightarrow> Inl (InvalidSeed ''invalid seed'')
           | Inr _ \<Rightarrow> Inr ()))"

definition verify_basic_fields ::
    "('mpk, 'msig) validator \<Rightarrow> header \<Rightarrow> 'mpk \<Rightarrow> header_error + unit" where
  "verify_basic_fields vd b generator =
     (let prev = vd_prev_header vd in
      if h_version b \<noteq> BLOCK_HEADER_VERSION then Inl UnsupportedVersion
      else if h_hash b = replicate 32 0 then Inl EmptyHash
      else if h_height b \<noteq> h_height prev + 1 then Inl (MismatchHeight (h_height b) (h_height prev))
      else if h_timestamp b < h_timestamp prev + vd_minimum_block_time vd then Inl BlockTimeLess
      else if is_emergency_block (h_iteration b) \<and> h_timestamp b < h_timestamp prev + MIN_EMERGENCY_BLOCK_TIME
        then Inl BlockTimeLess
      else if h_timestamp b > vd_local_time vd + MARGIN_TIMESTAMP then Inl (BlockTimeHigher (h_timestamp b))
      else if h_prev_block_hash b \<noteq> h_hash prev then Inl PrevBlockHash
      else case vd_block_exists vd (h_hash b) of
        Inl _ \<Rightarrow> Inl (HeaderStorage ''error checking Ledger::get_block_exists'')
      | Inr True \<Rightarrow> Inl BlockExists
      | Inr False \<Rightarrow> verify_seed_field vd (h_seed b) generator)"

definition verify_prev_block_cert ::
    "('mpk, 'msig) validator \<Rightarrow> header \<Rightarrow> (header_error, voter list) run" where
  "verify_prev_block_cert vd b =
     (let prev = vd_prev_header vd in
      if h_height prev = 0 \<or> is_emergency_block (h_iteration prev) then run_ret []
      else case vd_block_header vd (h_prev_block_hash prev) of
        Inl _ \<Rightarrow> run_err (HeaderStorage ''error checking Ledger::fetch_block_header'')
      | Inr None \<Rightarrow> run_err (HeaderGeneric ''Header not found'')
      | Inr (Some h) \<Rightarrow>
          run_bind (run_map_err InvalidAttestation
            (verify_att (vd_crypto vd) (vd_hash vd) (h_prev_block_cert b) (to_consensus_header prev) (h_seed h)
               (prev_provisioners (vd_provisioners vd)) (Some (Success (Valid (h_prev_block_hash b))))))
            (\<lambda>(_, _, voters). run_ret voters))"

text \<open>The loop over the failed iterations, from iteration \<open>iter\<close> on; it returns the number of attested ones.\<close>

fun failed_iterations_loop ::
    "('mpk, 'msig) validator \<Rightarrow> header \<Rightarrow> u8 \<Rightarrow> iterations_info \<Rightarrow> u8 \<Rightarrow> (failed_iteration_error, u8) run" where
  "failed_iterations_loop vd b iter [] failed_atts = run_ret failed_atts"
| "failed_iterations_loop vd b iter (None # att_list) failed_atts =
     failed_iterations_loop vd b (iter + 1) att_list failed_atts"
| "failed_iterations_loop vd b iter (Some (att, pk) # att_list) failed_atts =
     (case get_generator (vd_hash vd) iter (h_seed (vd_prev_header vd)) (h_height b) (cp_current (vd_provisioners vd)) of
        None \<Rightarrow> None
      | Some (Inl e) \<Rightarrow> Some (Inl e)
      | Some (Inr expected_pk) \<Rightarrow>
          if pk \<noteq> expected_pk then run_err (InvalidGenerator expected_pk)
          else
            run_bind (run_map_err InvalidFailedAttestation
              (verify_att (vd_crypto vd) (vd_hash vd) att ((to_consensus_header b)\<lparr>ch_iteration := iter\<rparr>)
                 (h_seed (vd_prev_header vd)) (cp_current (vd_provisioners vd)) (Some (Fail NoQuorum))))
              (\<lambda>_. failed_iterations_loop vd b (iter + 1) att_list (failed_atts + 1)))"

definition verify_failed_iterations ::
    "('mpk, 'msig) validator \<Rightarrow> header \<Rightarrow> (failed_iteration_error, u8) run" where
  "verify_failed_iterations vd b =
     (let att_list = h_failed_iterations b in
      if length att_list > unat MESSAGE_MAX_FAILED_ITERATIONS then run_err (TooMany (length att_list))
      else
        run_bind (failed_iterations_loop vd b 0 att_list 0) (\<lambda>failed_atts.
          run_ret (min (h_iteration b) CONSENSUS_MAX_ITER - failed_atts)))"

definition execute_checks ::
    "('mpk, 'msig) validator \<Rightarrow> header \<Rightarrow> public_key \<Rightarrow> bool
     \<Rightarrow> (header_error, u8 \<times> voter list \<times> voter list) run" where
  "execute_checks vd header expected_generator check_attestation =
     (case verify_block_generator vd header expected_generator of
        Inl e \<Rightarrow> run_err e
      | Inr generator \<Rightarrow>
          (case verify_basic_fields vd header generator of
             Inl e \<Rightarrow> run_err e
           | Inr _ \<Rightarrow>
               run_bind (verify_prev_block_cert vd header) (\<lambda>prev_block_voters.
               run_bind
                 (if check_attestation then
                    run_bind (run_map_err InvalidAttestation
                      (verify_att (vd_crypto vd) (vd_hash vd) (h_att header) (to_consensus_header header)
                         (h_seed (vd_prev_header vd)) (cp_current (vd_provisioners vd))
                         (Some (Success (Valid (h_hash header))))))
                      (\<lambda>(_, _, block_voters). run_ret block_voters)
                  else run_ret []) (\<lambda>block_voters.
               run_bind (run_map_err InvalidFailedIterations (verify_failed_iterations vd header)) (\<lambda>pni.
                 run_ret (pni, prev_block_voters, block_voters))))))"

section \<open>Faults of a block\<close>

definition verify_fault :: "('mpk, 'msig) validator \<Rightarrow> u64 \<Rightarrow> fault \<Rightarrow> invalid_fault + unit" where
  "verify_fault vd current_height f =
     res_bind (fault_validate (vd_crypto vd) current_height f) (\<lambda>fault_header.
       if is_emergency_iter (ch_iteration fault_header) then Inl FaultEmergencyIteration
       else case vd_block_header vd (ch_prev_block_hash fault_header) of
         Inl e \<Rightarrow> Inl (FaultOther e)
       | Inr None \<Rightarrow> Inl (FaultOther ''Slashing a non accepted header'')
       | Inr (Some prev_header) \<Rightarrow>
           if h_height prev_header \<noteq> ch_round fault_header - 1 then Inl (FaultOther ''Invalid height for fault'')
           else (case vd_faults_by_block vd (saturating_sub (ch_round fault_header) EPOCH) of
              Inl e \<Rightarrow> Inl (FaultOther e)
            | Inr stored_faults \<Rightarrow>
                if list_ex (fault_same (vd_crypto vd) f) stored_faults
                then Inl (FaultOther ''Double fault detected'') else Inr ()))"

definition verify_faults :: "('mpk, 'msig) validator \<Rightarrow> u64 \<Rightarrow> fault list \<Rightarrow> invalid_fault + unit" where
  "verify_faults vd current_height faults = res_fold (\<lambda>f _. verify_fault vd current_height f) faults ()"

end
