(* ===== verification/Header_Safety.thy ===== *)
theory Header_Safety
  imports Header_Validation
begin

text \<open>
  What a header that passed its checks guarantees: the quorums behind its attestations, the overlap of the
  voters of two conflicting attestations, the credits of the voters that are rewarded, and the count of the
  iterations that were not attested.
\<close>

section \<open>Quorums behind step votes\<close>

lemma intersect_voters: "wf_committee c \<Longrightarrow> voters_of c (committee_intersect c bitset)"
  by (auto simp: voters_of_def intersect_get split: if_splits)

lemma step_committee_sortition:
  assumes "get_step_committee hash header p seed step = Some (Inr c)" and "step \<noteq> Proposal"
  shows "sortition_committee c"
  using assms
  by (cases step) (auto simp: get_step_committee_def sortition_committee_def sortition_config_new_def
      committee_credits_def VALIDATION_COMMITTEE_CREDITS_def RATIFICATION_COMMITTEE_CREDITS_def
      split: option.splits sum.splits intro!: exI)

lemma verify_votes_Inr:
  assumes "verify_votes nc header step vote sv c = Inr (result, vs)" and "sortition_committee c"
  shows "voters_of c (committee_intersect c (sv_bitset sv))" and "vs = to_voters (committee_intersect c (sv_bitset sv))"
    and "qr_total result = cluster_total_occurrences (committee_intersect c (sv_bitset sv))"
    and "step = Validation \<and> vote = NoQuorum \<or> quorum_target c vote \<le> qr_total result"
    and "sv_bitset sv > 0 \<Longrightarrow> \<exists>seed sig. step_SIGN_SEED step = Some seed \<and>
           nc_sig_from_bytes nc (sv_aggregate_signature sv) = Inr sig \<and>
           signed_by nc (bm_keys (committee_intersect c (sv_bitset sv))) sig (signable header @ seed @ vote_write vote)"
proof -
  let ?cl = "committee_intersect c (sv_bitset sv)"
  show vo: "voters_of c ?cl" using intersect_voters sortition_committee(1) [OF assms(2)] by blast
  show "vs = to_voters ?cl" "qr_total result = cluster_total_occurrences ?cl"
    "step = Validation \<and> vote = NoQuorum \<or> quorum_target c vote \<le> qr_total result"
    using assms(1) voters_total [OF vo]
    by (auto simp: verify_votes_def Let_def quorum_reached_def split: if_splits)
  show "\<exists>seed sig. step_SIGN_SEED step = Some seed \<and> nc_sig_from_bytes nc (sv_aggregate_signature sv) = Inr sig \<and>
      signed_by nc (bm_keys ?cl) sig (signable header @ seed @ vote_write vote)" if "sv_bitset sv > 0"
    using assms(1) that
    by (auto simp: verify_votes_def Let_def verify_step_signature_def aggregate_pks_def signed_by_def
        split: if_splits sum.splits option.splits)
qed

text \<open>The voters of a step that an attestation proves, with the signature it carries for them.\<close>

definition step_quorum ::
    "('mpk, 'msig) node_crypto \<Rightarrow> (bytes \<Rightarrow> bytes) \<Rightarrow> consensus_header \<Rightarrow> provisioners \<Rightarrow> seed \<Rightarrow> step_name
     \<Rightarrow> vote \<Rightarrow> committee \<Rightarrow> cluster \<Rightarrow> bool" where
  "step_quorum nc hash header p seed step vote c cl \<longleftrightarrow>
     get_step_committee hash header p seed step = Some (Inr c) \<and> voters_of c cl \<and>
     quorum_target c vote \<le> cluster_total_occurrences cl \<and>
     (\<exists>sign_seed sig. step_SIGN_SEED step = Some sign_seed \<and>
        signed_by nc (bm_keys cl) sig (signable header @ sign_seed @ vote_write vote))"

lemma verify_step_votes_quorum:
  assumes "verify_step_votes nc hash header vote sv p seed step = run_ret (result, vs)" and "step \<noteq> Proposal"
    and "vote \<noteq> NoQuorum"
  obtains c where "step_quorum nc hash header p seed step vote c (committee_intersect c (sv_bitset sv))"
    and "vs = to_voters (committee_intersect c (sv_bitset sv))"
proof -
  obtain c where c: "get_step_committee hash header p seed step = Some (Inr c)"
    and v: "verify_votes nc header step vote sv c = Inr (result, vs)"
    using assms(1) by (auto simp: verify_step_votes_def run_ret_def)
  note sc = step_committee_sortition [OF c assms(2)]
  note q = verify_votes_Inr [OF v sc]
  have t: "quorum_target c vote \<le> cluster_total_occurrences (committee_intersect c (sv_bitset sv))"
    using q(3,4) assms(3) by auto
  have "sv_bitset sv \<noteq> 0"
  proof
    assume "sv_bitset sv = 0"
    then have "quorum_target c vote = 0" using t by (simp add: committee_intersect_def cluster_total)
    then show False using sortition_committee(3,4) [OF sc] by (cases vote) (simp_all add: quorum_target_def)
  qed
  with c t q that show thesis by (auto simp: step_quorum_def word_gt_0)
qed

section \<open>Accountable safety\<close>

text \<open>The credits that two sets of voters of a committee have in common.\<close>

definition common_credits :: "committee \<Rightarrow> cluster \<Rightarrow> cluster \<Rightarrow> nat" where
  "common_credits c a b = (\<Sum>pk \<in> set (bm_keys a) \<inter> set (bm_keys b). the (votes_for c pk))"

lemma quorums_overlap:
  assumes "step_quorum nc hash header p seed step v1 c a" and "step_quorum nc hash header p seed step v2 c b"
    and "step \<noteq> Proposal"
  shows "quorum_target c v1 + quorum_target c v2 \<le> 64 + common_credits c a b"
proof -
  have vo: "voters_of c a" "voters_of c b" "sortition_committee c"
    using assms step_committee_sortition by (auto simp: step_quorum_def)
  from overlapping_voters [OF vo(1,2)] sortition_committee(2) [OF vo(3)] assms(1,2)
  show ?thesis by (simp add: step_quorum_def common_credits_def)
qed

lemma verify_att_quorums:
  assumes "verify_att nc hash att ch seed p expected = run_ret (val, rat, vs)" and "result_vote (at_result att) \<noteq> NoQuorum"
  obtains c d where
    "step_quorum nc hash ch p seed Validation (result_vote (at_result att)) c (committee_intersect c (sv_bitset (at_validation att)))"
    and "step_quorum nc hash ch p seed Ratification (result_vote (at_result att)) d (committee_intersect d (sv_bitset (at_ratification att)))"
    and "vs = merge_voters (to_voters (committee_intersect c (sv_bitset (at_validation att))))
                (to_voters (committee_intersect d (sv_bitset (at_ratification att))))"
proof -
  let ?v = "result_vote (at_result att)"
  obtain r1 vs1 r2 vs2 where
    v: "verify_step_votes nc hash ch ?v (at_validation att) p seed Validation = run_ret (r1, vs1)"
    and r: "verify_step_votes nc hash ch ?v (at_ratification att) p seed Ratification = run_ret (r2, vs2)"
    and vs: "vs = merge_voters vs1 vs2"
    using assms(1) by (auto simp: verify_att_def Let_def run_bind_ret run_map_err_ret split: sum.splits)
  obtain c where c: "step_quorum nc hash ch p seed Validation ?v c (committee_intersect c (sv_bitset (at_validation att)))"
    "vs1 = to_voters (committee_intersect c (sv_bitset (at_validation att)))"
    using verify_step_votes_quorum [OF v _ assms(2)] by auto
  obtain d where d: "step_quorum nc hash ch p seed Ratification ?v d (committee_intersect d (sv_bitset (at_ratification att)))"
    "vs2 = to_voters (committee_intersect d (sv_bitset (at_ratification att)))"
    using verify_step_votes_quorum [OF r _ assms(2)] by auto
  from c d vs that show thesis by blast
qed

lemma check_expected_success:
  "check_expected result (Some (Success (Valid h))) = Inr () \<Longrightarrow> result = Success (Valid h)"
  by (auto simp: check_expected_def split: ratification_result.splits vote.splits if_splits)

lemma verify_att_success:
  "verify_att nc hash att ch seed p (Some (Success (Valid h))) = run_ret x \<Longrightarrow> at_result att = Success (Valid h)"
  by (rule check_expected_success) (auto simp: verify_att_def split: sum.splits)

text \<open>
  C1: Two conflicting blocks cannot both be attested without double votes.  If two attestations of one
  iteration verify as success for different hashes, then in the validation and in the ratification step
  provisioners with at least 22 of the 64 credits are among the voters of both, whose aggregated signatures
  verify for the two different votes.
\<close>

theorem accountable_safety:
  assumes "verify_att nc hash att1 ch seed p (Some (Success (Valid h1))) = run_ret r1"
    and "verify_att nc hash att2 ch seed p (Some (Success (Valid h2))) = run_ret r2"
    and "h1 \<noteq> h2" and "step \<noteq> Proposal"
  shows "\<exists>c a b. step_quorum nc hash ch p seed step (Valid h1) c a \<and>
           step_quorum nc hash ch p seed step (Valid h2) c b \<and> 22 \<le> common_credits c a b"
proof -
  obtain v1 w1 x1 v2 w2 x2 where r: "r1 = (v1, w1, x1)" "r2 = (v2, w2, x2)" by (metis prod_cases3)
  have res: "result_vote (at_result att1) = Valid h1" "result_vote (at_result att2) = Valid h2"
    using verify_att_success [OF assms(1)] verify_att_success [OF assms(2)] by (simp_all add: result_vote_def)
  obtain c1 d1 where q1: "step_quorum nc hash ch p seed Validation (Valid h1) c1 (committee_intersect c1 (sv_bitset (at_validation att1)))"
    "step_quorum nc hash ch p seed Ratification (Valid h1) d1 (committee_intersect d1 (sv_bitset (at_ratification att1)))"
    using verify_att_quorums [OF assms(1) [unfolded r]] res(1) by (metis vote.distinct(9))
  obtain c2 d2 where q2: "step_quorum nc hash ch p seed Validation (Valid h2) c2 (committee_intersect c2 (sv_bitset (at_validation att2)))"
    "step_quorum nc hash ch p seed Ratification (Valid h2) d2 (committee_intersect d2 (sv_bitset (at_ratification att2)))"
    using verify_att_quorums [OF assms(2) [unfolded r]] res(2) by (metis vote.distinct(9))
  have "c1 = c2" "d1 = d2" using q1 q2 by (auto simp: step_quorum_def)
  then obtain c a b where q: "step_quorum nc hash ch p seed step (Valid h1) c a" "step_quorum nc hash ch p seed step (Valid h2) c b"
    using q1 q2 assms(4) by (cases step) auto
  have "sortition_committee c" using q(1) assms(4) step_committee_sortition by (auto simp: step_quorum_def)
  then have "quorum_target c (Valid h) = 43" for h using sortition_committee(4) by (simp add: quorum_target_def)
  with quorums_overlap [OF q assms(4)] have "22 \<le> common_credits c a b" by simp
  with q show ?thesis by blast
qed

text \<open>
  A winning attestation passes for a failed one.  The result of an attestation that is expected to have
  failed is never compared with its vote, so the attestation of a successful iteration, with its result
  renamed to a failure, passes the check of a block's failed iterations exactly when it proves the success.
\<close>

theorem success_passes_as_failure:
  "verify_att nc hash \<lparr>at_result = Fail (Valid h), at_validation = sv1, at_ratification = sv2\<rparr> ch seed p (Some (Fail NoQuorum)) =
   verify_att nc hash \<lparr>at_result = Success (Valid h), at_validation = sv1, at_ratification = sv2\<rparr> ch seed p (Some (Success (Valid h)))"
  by (simp add: verify_att_def check_expected_def result_vote_def)

section \<open>Rewards of the voters\<close>

lemma count_voter_sum:
  "bm_sum (\<lambda>n. n) (fold count_voter vs m) = bm_sum (\<lambda>n. n) m + (\<Sum>(_, n) \<leftarrow> vs. n)"
proof (induction vs arbitrary: m)
  case (Cons v vs)
  obtain pk n where v: "v = (pk, n)" by force
  have "bm_sum (\<lambda>n. n) (count_voter v m) = bm_sum (\<lambda>n. n) m + n"
    unfolding count_voter_def v prod.case
    by (rule bm.total_credit) (auto simp: bm_get_or_def opt_val_def split: option.splits)
  with Cons.IH [of "count_voter v m"] v show ?case by simp
qed simp

lemma merge_voters_credits: "(\<Sum>(_, n) \<leftarrow> merge_voters v1 v2. n) = (\<Sum>(_, n) \<leftarrow> v1. n) + (\<Sum>(_, n) \<leftarrow> v2. n)"
proof -
  have "(\<Sum>(_, n) \<leftarrow> bm_entries m. n) = bm_sum (\<lambda>n. n) m" for m :: cluster
    by (simp add: bm_sum_def comp_def case_prod_unfold)
  then show ?thesis using count_voter_sum [of "v1 @ v2" bm_empty] by (simp add: merge_voters_def)
qed

lemma voters_credits_bound:
  assumes "sortition_committee c" and "voters_of c cl"
  shows "(\<Sum>(_, n) \<leftarrow> to_voters cl. n) \<le> 64"
proof -
  have "(\<Sum>(_, n) \<leftarrow> to_voters cl. n) = cluster_total_occurrences cl"
    by (simp add: to_voters_def cluster_total bm_sum_def comp_def case_prod_unfold)
  then show ?thesis
    using disjoint_voters [OF assms(2), of bm_empty] sortition_committee(2) [OF assms(1)]
    by (simp add: voters_of_def)
qed

lemma verify_att_credits:
  assumes "verify_att nc hash att ch seed p (Some (Success (Valid h))) = run_ret (val, rat, vs)"
  shows "86 \<le> (\<Sum>(_, n) \<leftarrow> vs. n)" and "(\<Sum>(_, n) \<leftarrow> vs. n) \<le> 128"
proof -
  have v: "result_vote (at_result att) = Valid h" using verify_att_success [OF assms] by (simp add: result_vote_def)
  obtain c d a b where q: "step_quorum nc hash ch p seed Validation (Valid h) c a"
    "step_quorum nc hash ch p seed Ratification (Valid h) d b" "vs = merge_voters (to_voters a) (to_voters b)"
    using verify_att_quorums [OF assms] v by (metis vote.distinct(9))
  have sc: "sortition_committee c" "sortition_committee d" "voters_of c a" "voters_of d b"
    using q(1,2) step_committee_sortition by (auto simp: step_quorum_def)
  have total: "(\<Sum>(_, n) \<leftarrow> to_voters x. n) = cluster_total_occurrences x" for x
    by (simp add: to_voters_def cluster_total bm_sum_def comp_def case_prod_unfold)
  have "43 \<le> cluster_total_occurrences a" "43 \<le> cluster_total_occurrences b"
    using q(1,2) sortition_committee(4) [OF sc(1)] sortition_committee(4) [OF sc(2)]
    by (simp_all add: step_quorum_def quorum_target_def)
  then show "86 \<le> (\<Sum>(_, n) \<leftarrow> vs. n)" by (simp add: q(3) merge_voters_credits total)
  show "(\<Sum>(_, n) \<leftarrow> vs. n) \<le> 128"
    using voters_credits_bound [OF sc(1,3)] voters_credits_bound [OF sc(2,4)] by (simp add: q(3) merge_voters_credits)
qed

text \<open>
  The list credits exactly the members of two groups of voters, once each and with the sum of the credits they
  have in the two.
\<close>

definition credits_of :: "cluster \<Rightarrow> cluster \<Rightarrow> voter list \<Rightarrow> bool" where
  "credits_of a b vs \<longleftrightarrow>
     distinct (map fst vs) \<and>
     (\<forall>pk n. (pk, n) \<in> set vs \<longleftrightarrow>
        (bm_get a pk \<noteq> None \<or> bm_get b pk \<noteq> None) \<and> n = bm_get_or 0 a pk + bm_get_or 0 b pk)"

lemma count_voter_get:
  assumes "distinct (map fst vs)"
  shows "bm_get (fold count_voter vs m) pk =
           (case map_of vs pk of None \<Rightarrow> bm_get m pk | Some n \<Rightarrow> Some (bm_get_or 0 m pk + n))"
  using assms
proof (induction vs arbitrary: m)
  case (Cons v vs)
  obtain k n where v: "v = (k, n)" by force
  with Cons.prems have "map_of vs k = None" by (simp add: map_of_eq_None_iff)
  with v Cons show ?case by (auto simp: count_voter_def bm_get_or_def split: option.splits)
qed simp

lemma merge_voters_exact: "credits_of a b (merge_voters (to_voters a) (to_voters b))"
proof -
  let ?m = "fold count_voter (bm_entries b) (fold count_voter (bm_entries a) bm_empty)"
  have "bm_get ?m pk = (case bm_get b pk of None \<Rightarrow> bm_get a pk | Some n \<Rightarrow> Some (bm_get_or 0 a pk + n))" for pk
    by (simp add: count_voter_get [OF bm_entries_distinct] bm_get_map_of [symmetric] bm_get_or_def split: option.splits)
  then have "bm_get ?m pk = Some n \<longleftrightarrow>
      (bm_get a pk \<noteq> None \<or> bm_get b pk \<noteq> None) \<and> n = bm_get_or 0 a pk + bm_get_or 0 b pk" for pk n
    by (auto simp: bm_get_or_def split: option.splits)
  then show ?thesis
    by (simp add: credits_of_def merge_voters_def to_voters_def bm_entries_iff bm_entries_distinct)
qed

lemma verify_att_credited:
  assumes "verify_att nc hash att ch seed p (Some (Success (Valid h))) = run_ret (val, rat, vs)"
  shows "\<exists>c d a b. step_quorum nc hash ch p seed Validation (Valid h) c a \<and>
           step_quorum nc hash ch p seed Ratification (Valid h) d b \<and> credits_of a b vs"
proof -
  have v: "result_vote (at_result att) = Valid h" using verify_att_success [OF assms] by (simp add: result_vote_def)
  show ?thesis
    using verify_att_quorums [OF assms] v merge_voters_exact by (metis vote.distinct(9))
qed

lemma verify_prev_block_cert_cases:
  assumes "verify_prev_block_cert vd b = run_ret vs"
  obtains "h_height (vd_prev_header vd) = 0 \<or> is_emergency_block (h_iteration (vd_prev_header vd))" and "vs = []"
    | prev val rat where "\<not> (h_height (vd_prev_header vd) = 0 \<or> is_emergency_block (h_iteration (vd_prev_header vd)))"
      and "vd_block_header vd (h_prev_block_hash (vd_prev_header vd)) = Inr (Some prev)"
      and "verify_att (vd_crypto vd) (vd_hash vd) (h_prev_block_cert b) (to_consensus_header (vd_prev_header vd))
             (h_seed prev) (prev_provisioners (vd_provisioners vd)) (Some (Success (Valid (h_prev_block_hash b)))) =
           run_ret (val, rat, vs)"
  using assms
  by (auto simp: verify_prev_block_cert_def Let_def run_bind_ret run_map_err_ret
      split: if_splits sum.splits option.splits)

text \<open>
  C22: The voters that a block rewards are those of a verified certificate.  If the certificate of the previous
  block passes its check, there are, unless that is the first block or an emergency block and nobody is rewarded,
  voters of its validation and of its ratification committee, each with the credits that sortition gave it, whose
  aggregated signatures verify for that block and who reach the two quorums; and the list rewards exactly these,
  each once, with the sum of its credits in the two committees.  They are between 86 and 128 in all, and the rewards
  that the block then pays to them, to the generator and to Dusk stay within its emission and its fees.
\<close>

theorem certified_rewards:
  assumes "verify_prev_block_cert vd b = run_ret vs"
  shows "(if h_height (vd_prev_header vd) = 0 \<or> is_emergency_block (h_iteration (vd_prev_header vd)) then vs = []
          else 86 \<le> (\<Sum>(_, n) \<leftarrow> vs. n) \<and>
            (\<exists>prev c d val_voters rat_voters.
               vd_block_header vd (h_prev_block_hash (vd_prev_header vd)) = Inr (Some prev) \<and>
               step_quorum (vd_crypto vd) (vd_hash vd) (to_consensus_header (vd_prev_header vd))
                 (prev_provisioners (vd_provisioners vd)) (h_seed prev) Validation (Valid (h_prev_block_hash b))
                 c val_voters \<and>
               step_quorum (vd_crypto vd) (vd_hash vd) (to_consensus_header (vd_prev_header vd))
                 (prev_provisioners (vd_provisioners vd)) (h_seed prev) Ratification (Valid (h_prev_block_hash b))
                 d rat_voters \<and>
               credits_of val_voters rat_voters vs)) \<and>
         (\<Sum>(_, n) \<leftarrow> vs. n) \<le> 128 \<and>
         (\<Sum>r \<leftarrow> block_rewards dusk_key inner (h_height b) spent generator vs. unat (rw_value r))
           \<le> unat (emission_amount (h_height b) + spent)"
proof -
  have c: "(\<Sum>(_, n) \<leftarrow> vs. n) \<le> 128"
    using assms by (cases rule: verify_prev_block_cert_cases) (auto dest: verify_att_credits(2))
  then have "(\<Sum>(_, c) \<leftarrow> vs. c) \<le> VALIDATION_COMMITTEE_CREDITS + RATIFICATION_COMMITTEE_CREDITS"
    by (simp add: credits_defs)
  note rewards = rewards_bounded [OF this, of dusk_key inner "h_height b" spent generator]
  show ?thesis
    using assms
  proof (cases rule: verify_prev_block_cert_cases)
    case 1
    with c rewards show ?thesis by simp
  next
    case (2 prev val rat)
    with c rewards verify_att_credits(1) [OF 2(3)] verify_att_credited [OF 2(3)] show ?thesis by (simp only: if_False) blast
  qed
qed

text \<open>
  Everyone rewards the same voters.  The voters that the generator of the next block extracts from the
  attestation of the tip are those that the other nodes get when they verify that attestation.
\<close>

theorem voters_agree:
  assumes "verify_att nc hash (h_att blk) (to_consensus_header blk) seed p expected = run_ret (val, rat, vs)"
  shows "get_voters hash blk p seed = Some (Inr vs)"
proof -
  have step: "get_step_voters hash ch sv p seed step = Some (Inr vs)"
    if "verify_step_votes nc hash ch vote sv p seed step = run_ret (r, vs)" for ch sv step vote r vs
    using that by (auto simp: verify_step_votes_def get_step_voters_def run_ret_def verify_votes_def Let_def
        split: if_splits)
  from assms show ?thesis
    by (auto simp: verify_att_def Let_def run_bind_ret run_map_err_ret get_voters_def dest!: step split: sum.splits)
qed

section \<open>Iterations that were not attested\<close>

definition attested :: "iterations_info \<Rightarrow> nat" where
  "attested att_list = length (filter (\<lambda>x. x \<noteq> None) att_list)"

lemma run_ret_not: "None \<noteq> run_ret x" "Some (Inl e) \<noteq> run_ret x"
  by (simp_all add: run_ret_def)

lemma failed_iterations_loop_count:
  "failed_iterations_loop vd b iter att_list n = run_ret m \<Longrightarrow> m = n + of_nat (attested att_list)"
proof (induction vd b iter att_list n rule: failed_iterations_loop.induct)
  case (3 vd b iter att pk att_list n)
  then show ?case
    by (auto simp: run_bind_ret attested_def add.assoc run_ret_def [symmetric] run_ret_not split: option.splits sum.splits if_splits)
qed (auto simp: attested_def)

text \<open>
  The number of iterations that were not attested.  A header that passes has at most eight failed
  iterations, and the number is that of the iterations before the block's, at most fifty, less the attested
  ones.  The list is not compared with the block's iteration: with more attested failures than iterations
  the subtraction wraps around.
\<close>

theorem not_attested_iterations:
  assumes "verify_failed_iterations vd b = run_ret pni"
  shows "attested (h_failed_iterations b) \<le> 8 \<and>
         unat pni = (let last_iter = min (unat (h_iteration b)) 50; k = attested (h_failed_iterations b) in
           if k \<le> last_iter then last_iter - k else last_iter + 256 - k)"
proof -
  let ?k = "attested (h_failed_iterations b)"
  have len: "length (h_failed_iterations b) \<le> 8"
    and p: "pni = min (h_iteration b) CONSENSUS_MAX_ITER - of_nat ?k"
    using assms by (auto simp: verify_failed_iterations_def Let_def MESSAGE_MAX_FAILED_ITERATIONS_def run_bind_ret
        dest!: failed_iterations_loop_count split: if_splits)
  have k: "?k \<le> 8" using len by (simp add: attested_def le_trans [OF length_filter_le])
  then have uk: "unat (of_nat ?k :: u8) = ?k" by (simp add: unat_of_nat)
  have "unat (min (h_iteration b) CONSENSUS_MAX_ITER) = min (unat (h_iteration b)) 50"
    by (simp add: min_def word_le_nat_alt CONSENSUS_MAX_ITER_def)
  then show ?thesis
    using k uk unat_sub_if' [of "min (h_iteration b) CONSENSUS_MAX_ITER" "of_nat ?k"] by (simp add: p Let_def)
qed

section \<open>A chain with one provisioner\<close>

lemma lone_create:
  assumes "so_committee_credits cfg < 1000"
  shows "create_committee hash cfg lone_provisioner = Some (Inr (replicate (so_committee_credits cfg) [2]))"
proof (rule create_committee_fills [of cfg lone_provisioner hash])
  show "bm_sum (unat \<circ> cs_value) lone_provisioner < 2 ^ 64"
    by (simp add: lone_provisioner_def bm_sum_insert_new cstake_from_value_def)
next
  fix ex
  assume ex: "create_committee hash cfg lone_provisioner = Some (Inr ex)" "length ex = so_committee_credits cfg"
    "set ex \<subseteq> fst ` set (generator_from_provisioners (so_round cfg) (so_exclusion cfg) lone_provisioner)"
  have "set (generator_from_provisioners (so_round cfg) (so_exclusion cfg) lone_provisioner)
      \<subseteq> {([2], cstake_from_value 5000000000000)}"
    using generator_subset(1) [of "so_round cfg" "so_exclusion cfg" lone_provisioner] by (simp add: lone_eligibles)
  with ex(3) have "\<forall>k \<in> set ex. k = [2]" by fastforce
  then have "ex = replicate (so_committee_credits cfg) [2]" using ex(2) replicate_eqI by metis
  with ex(1) show ?thesis by simp
qed (simp_all add: lone_eligibles assms)

definition lone_voters :: cluster where
  "lone_voters = bm_insert [2] 64 bm_empty"

lemma lone_fold: "fold count_member (replicate n [2]) bm_empty = (if n = 0 then bm_empty else bm_insert [2] n bm_empty)"
  by (rule bm_eqI) (auto simp: count_member_get bm_get_or_def count_list_replicate simp del: fold_replicate)

lemma lone_generator: "get_generator hash iter seed rnd lone_provisioner = Some (Inr [2])"
  by (simp add: get_generator_def committee_new_def lone_create sortition_config_new_def committee_credits_def
      PROPOSAL_COMMITTEE_CREDITS_def committee_of_extracted_def lone_fold [of 1, simplified] bm_keys_single)

lemma lone_step_committee:
  assumes "step \<noteq> Proposal"
  shows "\<exists>c. get_step_committee hash header lone_provisioner seed step = Some (Inr c) \<and> cm_members c = lone_voters"
proof -
  have "\<exists>e. step_exclusion hash header seed lone_provisioner = Some (Inr e)"
    by (simp add: step_exclusion_def lone_generator)
  moreover have "so_committee_credits (sortition_config_new seed (ch_round header) (ch_iteration header) step e) = 64" for e
    using assms by (cases step) (simp_all add: sortition_config_new_def committee_credits_def
        VALIDATION_COMMITTEE_CREDITS_def RATIFICATION_COMMITTEE_CREDITS_def)
  ultimately show ?thesis
    by (auto simp: get_step_committee_def committee_new_def lone_create committee_of_extracted_def lone_voters_def
        lone_fold simp del: fold_replicate)
qed

definition lone_sv :: "consensus_header \<Rightarrow> bytes \<Rightarrow> vote \<Rightarrow> step_votes" where
  "lone_sv header seed vote =
     step_votes_new (nc_sig_to_bytes crypto1 (share [2] (signable header @ seed @ vote_write vote))) 1"

lemma lone_verify:
  assumes "step_SIGN_SEED step = Some sign_seed"
  shows "\<exists>r. verify_step_votes crypto1 hash header vote (lone_sv header sign_seed vote) lone_provisioner seed step
      = run_ret (r, [([2], 64)])"
proof -
  have step: "step \<noteq> Proposal" using assms by (auto simp: step_SIGN_SEED_def)
  obtain c where c: "get_step_committee hash header lone_provisioner seed step = Some (Inr c)"
    and m: "cm_members c = lone_voters" using lone_step_committee [OF step] by blast
  note sc = sortition_committee [OF step_committee_sortition [OF c step]]
  have vo: "voters_of c lone_voters" using members_voters [of c] m by simp
  have "committee_bits c lone_voters = 1"
    by (simp add: committee_bits_def m lone_voters_def bm_insert.rep_eq bm_empty.rep_eq cluster_contains_key_def)
  then have i: "committee_intersect c 1 = lone_voters" "total_occurrences c lone_voters = 64"
    using intersect_bits [OF sc(1) vo] voters_total [OF vo]
    by (simp_all add: lone_voters_def cluster_total bm_sum_insert_new)
  have q: "quorum_target c vote \<le> 64" using sc(3,4) by (cases vote) (simp_all add: quorum_target_def)
  have k: "bm_keys lone_voters = [[2]]" "to_voters lone_voters = [([2], 64)]"
    by (simp_all add: lone_voters_def bm_keys_single to_voters_def bm_insert.rep_eq bm_empty.rep_eq)
  show ?thesis using c assms q
    by (auto simp: verify_step_votes_def lone_sv_def verify_votes_def Let_def step_votes_new_def i quorum_reached_def
        aggregate_pks_def k verify_step_signature_def run_ret_def crypto1_def)
qed

definition lone_att :: "consensus_header \<Rightarrow> vote \<Rightarrow> attestation" where
  "lone_att header vote =
     \<lparr>at_result = result_of_vote vote,
      at_validation = lone_sv header validation_SIGN_SEED vote,
      at_ratification = lone_sv header ratification_SIGN_SEED vote\<rparr>"

lemma lone_att_verifies:
  assumes "check_expected (result_of_vote vote) expected = Inr ()"
  shows "\<exists>val rat. verify_att crypto1 hash (lone_att header vote) header seed lone_provisioner expected
      = run_ret (val, rat, [([2], 128)])"
proof -
  obtain r1 where v: "verify_step_votes crypto1 hash header vote (lone_sv header validation_SIGN_SEED vote) lone_provisioner seed Validation
      = run_ret (r1, [([2], 64)])"
    using lone_verify [of Validation validation_SIGN_SEED] by (metis step_SIGN_SEED_def step_name.simps(8))
  obtain r2 where r: "verify_step_votes crypto1 hash header vote (lone_sv header ratification_SIGN_SEED vote) lone_provisioner seed Ratification
      = run_ret (r2, [([2], 64)])"
    using lone_verify [of Ratification ratification_SIGN_SEED] by (metis step_SIGN_SEED_def step_name.simps(9))
  have "merge_voters [([2], 64)] [([2], 64)] = [([2], 128)]"
    by (simp add: merge_voters_def count_voter_def bm_get_or_def bm_insert.rep_eq bm_empty.rep_eq)
  moreover have "result_vote (result_of_vote vote) = vote"
    by (cases vote) (simp_all add: result_vote_def result_of_vote_def)
  ultimately show ?thesis using assms v r by (simp add: verify_att_def lone_att_def Let_def)
qed

lemma check_expected_simps [simp]:
  "check_expected (result_of_vote (Valid h)) (Some (Success (Valid h))) = Inr ()"
  "check_expected (result_of_vote NoCandidate) (Some (Fail NoQuorum)) = Inr ()"
  "check_expected result None = Inr ()"
  by (simp_all add: check_expected_def result_of_vote_def)

theorem accountable_safety_witness:
  "\<exists>c a b. step_quorum crypto1 rev header0 lone_provisioner [7] Validation (Valid (replicate 32 1)) c a \<and>
     step_quorum crypto1 rev header0 lone_provisioner [7] Validation (Valid (replicate 32 2)) c b \<and>
     22 \<le> common_credits c a b"
proof -
  let ?h1 = "replicate 32 (1 :: u8)" and ?h2 = "replicate 32 (2 :: u8)"
  obtain r1 r2 where r1: "verify_att crypto1 rev (lone_att header0 (Valid ?h1)) header0 [7] lone_provisioner
      (Some (Success (Valid ?h1))) = run_ret r1"
    and r2: "verify_att crypto1 rev (lone_att header0 (Valid ?h2)) header0 [7] lone_provisioner
      (Some (Success (Valid ?h2))) = run_ret r2"
    using lone_att_verifies check_expected_simps(1) by meson
  have "?h1 \<noteq> ?h2" by (simp add: replicate_eq_replicate)
  with accountable_safety [OF r1 r2] show ?thesis by simp
qed

text \<open>The tip, its parent and the next block.\<close>

definition tip0 :: header where
  "tip0 = header_default\<lparr>h_height := 5, h_iteration := 1, h_hash := replicate 32 4, h_prev_block_hash := replicate 32 9\<rparr>"

definition next0 :: "iterations_info \<Rightarrow> header" where
  "next0 failed = header_default\<lparr>h_height := 6, h_prev_block_hash := replicate 32 4,
     h_prev_block_cert := lone_att (to_consensus_header tip0) (Valid (replicate 32 4)), h_failed_iterations := failed\<rparr>"

definition validator0 :: "(public_key list, u64) validator" where
  "validator0 = \<lparr>vd_crypto = crypto1, vd_hash = rev, vd_block_exists = (\<lambda>_. Inr False),
     vd_block_header = (\<lambda>_. Inr (Some header_default)), vd_faults_by_block = (\<lambda>_. Inr []), vd_local_time = 100,
     vd_minimum_block_time = 10, vd_prev_header = tip0, vd_provisioners = context_new lone_provisioner\<rparr>"

theorem certified_rewards_witness:
  "verify_prev_block_cert validator0 (next0 []) = run_ret [([2], 128)] \<and>
   (\<Sum>r \<leftarrow> block_rewards (BlsPublicKey 1) (\<lambda>_. BlsPublicKey 2) 6 500 (BlsPublicKey 3) [([2], 128)]. unat (rw_value r))
     \<le> unat (emission_amount 6 + 500)"
proof -
  obtain val rat where "verify_att crypto1 rev (lone_att (to_consensus_header tip0) (Valid (replicate 32 4)))
      (to_consensus_header tip0) signature_EMPTY lone_provisioner (Some (Success (Valid (replicate 32 4)))) =
      run_ret (val, rat, [([2], 128)])"
    using lone_att_verifies check_expected_simps(1) by meson
  then have "verify_prev_block_cert validator0 (next0 []) = run_ret [([2], 128)]"
    by (simp add: verify_prev_block_cert_def validator0_def next0_def tip0_def [symmetric] Let_def prev_provisioners_def
        context_new_def header_default_def)
       (simp add: tip0_def is_emergency_block_def EMERGENCY_BLOCK_ITERATION_def)
  with certified_rewards [OF this, of "BlsPublicKey 1" "\<lambda>_. BlsPublicKey 2" 500 "BlsPublicKey 3"] show ?thesis
    by (simp add: next0_def)
qed

theorem voters_agree_witness:
  "get_voters rev (tip0\<lparr>h_att := lone_att (to_consensus_header tip0) (Valid (replicate 32 4))\<rparr>) lone_provisioner [7] =
     Some (Inr [([2], 128)])"
proof -
  let ?h = "tip0\<lparr>h_att := lone_att (to_consensus_header tip0) (Valid (replicate 32 4))\<rparr>"
  have "to_consensus_header ?h = to_consensus_header tip0" by (simp add: to_consensus_header_def)
  then obtain val rat where "verify_att crypto1 rev (h_att ?h) (to_consensus_header ?h) [7] lone_provisioner None =
      run_ret (val, rat, [([2], 128)])"
    using lone_att_verifies [of "Valid (replicate 32 4)" None rev "to_consensus_header tip0" "[7]"]
    by auto
  then show ?thesis by (rule voters_agree)
qed

lemma next0_failed: "h_failed_iterations (next0 failed) = failed"
  by (simp add: next0_def)

theorem not_attested_iterations_witness:
  "\<exists>pni. verify_failed_iterations validator0
      (next0 [Some (lone_att ((to_consensus_header (next0 []))\<lparr>ch_iteration := 0\<rparr>) NoCandidate, [2])]) = run_ret pni \<and>
     unat pni = 255"
proof -
  let ?ch = "(to_consensus_header (next0 []))\<lparr>ch_iteration := 0\<rparr>"
  let ?b = "next0 [Some (lone_att ?ch NoCandidate, [2])]"
  have ch: "(to_consensus_header ?b)\<lparr>ch_iteration := 0\<rparr> = ?ch" by (simp add: to_consensus_header_def next0_def)
  obtain val rat where "verify_att crypto1 rev (lone_att ?ch NoCandidate) ?ch (h_seed tip0) lone_provisioner (Some (Fail NoQuorum)) =
      run_ret (val, rat, [([2], 128)])"
    using lone_att_verifies check_expected_simps(2) by meson
  then have v: "verify_failed_iterations validator0 ?b = run_ret (min (h_iteration ?b) CONSENSUS_MAX_ITER - 1)"
    by (simp add: verify_failed_iterations_def ch Let_def MESSAGE_MAX_FAILED_ITERATIONS_def validator0_def
        lone_generator context_new_def next0_failed)
  from not_attested_iterations [OF v] have "unat (min (h_iteration ?b) CONSENSUS_MAX_ITER - 1) = 255"
    by (simp add: next0_failed attested_def Let_def) (simp add: next0_def header_default_def)
  with v show ?thesis by blast
qed

end
