(* ===== verification/Merkle_Root.thy ===== *)
theory Merkle_Root
  imports Node_Wire
begin

text \<open>
  The roots of a block's transactions and faults, \<^verbatim>\<open>consensus/src/merkle.rs\<close>.  The tree itself is that of the
  \<open>dusk-merkle\<close> crate: an argument, which gets the aggregation of the source and the leaves and returns the root
  of the smallest subtree that holds them.  What is relied on of it is \<open>merkle_tree_laws\<close>.
\<close>

section \<open>Aggregation\<close>

definition EMPTY_NODE :: hash where
  "EMPTY_NODE = replicate 32 0"

text \<open>The loop of \<open>aggregate\<close>: an empty node is replaced by the item before it.\<close>

fun aggregate_input :: "hash list \<Rightarrow> bytes \<Rightarrow> bytes" where
  "aggregate_input [] prev = []"
| "aggregate_input (item # items) prev =
     (if item = EMPTY_NODE then prev @ aggregate_input items prev
      else item @ aggregate_input items item)"

definition merkle_aggregate :: "(bytes \<Rightarrow> hash) \<Rightarrow> hash list \<Rightarrow> hash" where
  "merkle_aggregate sha3 items = sha3 (aggregate_input items (replicate 32 0))"

type_synonym merkle_tree = "(hash list \<Rightarrow> hash) \<Rightarrow> hash list \<Rightarrow> hash"

definition merkle_root :: "merkle_tree \<Rightarrow> (bytes \<Rightarrow> hash) \<Rightarrow> hash list \<Rightarrow> hash" where
  "merkle_root tree sha3 values =
     (if values = [] then EMPTY_NODE else tree (merkle_aggregate sha3) values)"

section \<open>What the tree promises\<close>

text \<open>
  A binary tree of a given height over a list of leaves, in which a subtree without leaves is the empty node,
  and the least height of a tree with a number of leaves.
\<close>

fun subtree_root :: "(hash list \<Rightarrow> hash) \<Rightarrow> nat \<Rightarrow> hash list \<Rightarrow> hash" where
  "subtree_root agg 0 leaves = (case leaves of [] \<Rightarrow> EMPTY_NODE | leaf # _ \<Rightarrow> leaf)"
| "subtree_root agg (Suc h) leaves =
     (if leaves = [] then EMPTY_NODE
      else agg [subtree_root agg h (take (2 ^ h) leaves), subtree_root agg h (drop (2 ^ h) leaves)])"

fun least_height :: "nat \<Rightarrow> nat" where
  "least_height n = (if n \<le> 1 then 0 else Suc (least_height ((n + 1) div 2)))"

declare least_height.simps [simp del]

definition merkle_tree_laws :: "merkle_tree \<Rightarrow> bool" where
  "merkle_tree_laws tree \<longleftrightarrow>
     (\<forall>agg leaves. leaves \<noteq> [] \<and> length leaves \<le> 2 ^ 15 \<longrightarrow>
        tree agg leaves = subtree_root agg (least_height (length leaves)) leaves)"

definition reference_tree :: merkle_tree where
  "reference_tree agg leaves = subtree_root agg (least_height (length leaves)) leaves"

lemma reference_tree_laws: "merkle_tree_laws reference_tree"
  by (simp add: merkle_tree_laws_def reference_tree_def)

lemma merkle_root_eq:
  assumes "merkle_tree_laws tree" and "length values \<le> 2 ^ 15"
  shows "merkle_root tree sha3 values =
    (if values = [] then EMPTY_NODE
     else subtree_root (merkle_aggregate sha3) (least_height (length values)) values)"
  using assms by (simp add: merkle_root_def merkle_tree_laws_def)

lemma least_height_fits: "n \<le> 2 ^ least_height n"
proof (induction n rule: least_height.induct)
  case (1 n)
  then show ?case by (cases "n \<le> 1") (simp_all add: least_height.simps [of n])
qed

section \<open>Equal roots\<close>

lemma aggregate_twice: "merkle_aggregate sha3 [x, EMPTY_NODE] = merkle_aggregate sha3 [x, x]"
  by (simp add: merkle_aggregate_def EMPTY_NODE_def)

lemma subtree_root_repeat:
  assumes "even (length xs)" and "length xs + 2 \<le> 2 ^ h"
  shows "subtree_root (merkle_aggregate sha3) h (xs @ [x]) = subtree_root (merkle_aggregate sha3) h (xs @ [x, x])"
  using assms
proof (induction h arbitrary: xs)
  case (Suc h)
  show ?case
  proof (cases "h = 0")
    case True
    then show ?thesis using Suc.prems by (simp add: aggregate_twice)
  next
    case False
    then obtain k where k: "h = Suc k" by (cases h) auto
    consider "2 ^ h \<le> length xs" | "length xs + 2 \<le> 2 ^ h"
      using Suc.prems(1) unfolding k by (metis Suc_leI add_2_eq_Suc' dvd_triv_left even_Suc linorder_not_le
          nat_less_le power_Suc)
    then show ?thesis
    proof cases
      case 1
      with Suc.prems Suc.IH [of "drop (2 ^ h) xs"] show ?thesis by (simp add: k)
    next
      case 2
      with Suc.prems Suc.IH [of xs] show ?thesis by simp
    qed
  qed
qed simp

lemma merkle_root_repeat:
  assumes "merkle_tree_laws tree" and "even (length xs)" and "xs \<noteq> []" and "length xs + 2 \<le> 2 ^ 15"
  shows "merkle_root tree sha3 (xs @ [x, x]) = merkle_root tree sha3 (xs @ [x])"
proof -
  have n: "2 \<le> length xs" using assms(2,3) by (cases xs) (auto simp: Suc_le_eq intro: odd_pos)
  have "(Suc (length xs) + 1) div 2 = (Suc (Suc (length xs)) + 1) div 2" using assms(2) by simp
  with n assms(3) have h: "least_height (Suc (length xs)) = least_height (Suc (Suc (length xs)))"
    by (simp add: least_height.simps [of "Suc (length xs)"] least_height.simps [of "Suc (Suc (length xs))"])
  have "length xs + 2 \<le> 2 ^ least_height (Suc (Suc (length xs)))"
    using least_height_fits [of "length xs + 2"] by simp
  then show ?thesis
    using assms subtree_root_repeat [OF assms(2)] h by (simp add: merkle_root_eq)
qed

section \<open>What a root binds\<close>

text \<open>
  The messages that are hashed for a tree.  If no two of them collide and none hashes to the empty node,
  equal roots of two lists of the same length have equal leaves.
\<close>

fun subtree_inputs :: "(bytes \<Rightarrow> hash) \<Rightarrow> nat \<Rightarrow> hash list \<Rightarrow> bytes set" where
  "subtree_inputs sha3 0 leaves = {}"
| "subtree_inputs sha3 (Suc h) leaves =
     (if leaves = [] then {}
      else insert (aggregate_input
          [subtree_root (merkle_aggregate sha3) h (take (2 ^ h) leaves),
           subtree_root (merkle_aggregate sha3) h (drop (2 ^ h) leaves)] (replicate 32 0))
        (subtree_inputs sha3 h (take (2 ^ h) leaves) \<union> subtree_inputs sha3 h (drop (2 ^ h) leaves)))"

definition merkle_inputs :: "(bytes \<Rightarrow> hash) \<Rightarrow> hash list \<Rightarrow> bytes set" where
  "merkle_inputs sha3 leaves = subtree_inputs sha3 (least_height (length leaves)) leaves"

definition hash_ok :: "(bytes \<Rightarrow> hash) \<Rightarrow> bytes set \<Rightarrow> bool" where
  "hash_ok sha3 msgs \<longleftrightarrow>
     inj_on sha3 msgs \<and> (\<forall>m \<in> msgs. length (sha3 m) = 32 \<and> sha3 m \<noteq> EMPTY_NODE)"

definition leaf_ok :: "hash \<Rightarrow> bool" where
  "leaf_ok leaf \<longleftrightarrow> length leaf = 32 \<and> leaf \<noteq> EMPTY_NODE"

lemma hash_ok_subset: "hash_ok sha3 msgs \<Longrightarrow> msgs' \<subseteq> msgs \<Longrightarrow> hash_ok sha3 msgs'"
  unfolding hash_ok_def using inj_on_subset by blast

lemma subtree_root_leaf:
  assumes "hash_ok sha3 (subtree_inputs sha3 h leaves)" and "\<forall>leaf \<in> set leaves. leaf_ok leaf"
  shows "length (subtree_root (merkle_aggregate sha3) h leaves) = 32 \<and>
    (subtree_root (merkle_aggregate sha3) h leaves = EMPTY_NODE \<longleftrightarrow> leaves = [])"
proof (cases h)
  case 0
  with assms(2) show ?thesis by (cases leaves) (auto simp: leaf_ok_def EMPTY_NODE_def)
next
  case (Suc k)
  with assms(1) show ?thesis
    by (cases "leaves = []") (simp_all add: EMPTY_NODE_def hash_ok_def merkle_aggregate_def)
qed

lemma aggregate_pair:
  assumes "l \<noteq> EMPTY_NODE" and "length l = 32" and "length l' = 32" and "l' \<noteq> EMPTY_NODE"
    and "r = EMPTY_NODE \<longleftrightarrow> r' = EMPTY_NODE"
    and "aggregate_input [l, r] prev = aggregate_input [l', r'] prev"
  shows "l = l' \<and> r = r'"
  using assms by (auto split: if_splits)

lemma subtree_root_inject:
  assumes "length xs = length ys" and "length xs \<le> 2 ^ h"
    and "hash_ok sha3 (subtree_inputs sha3 h xs \<union> subtree_inputs sha3 h ys)"
    and "\<forall>leaf \<in> set xs \<union> set ys. leaf_ok leaf"
    and "subtree_root (merkle_aggregate sha3) h xs = subtree_root (merkle_aggregate sha3) h ys"
  shows "xs = ys"
  using assms
proof (induction h arbitrary: xs ys)
  case 0
  then show ?case by (cases xs; cases ys) auto
next
  case (Suc h)
  show ?case
  proof (cases "xs = []")
    case False
    with Suc.prems(1) have ne: "xs \<noteq> []" "ys \<noteq> []" by auto
    let ?R = "subtree_root (merkle_aggregate sha3) h"
    let ?xl = "take (2 ^ h) xs" and ?xr = "drop (2 ^ h) xs" and ?yl = "take (2 ^ h) ys" and ?yr = "drop (2 ^ h) ys"
    have sub: "hash_ok sha3 (subtree_inputs sha3 h ?xl \<union> subtree_inputs sha3 h ?yl)"
      "hash_ok sha3 (subtree_inputs sha3 h ?xr \<union> subtree_inputs sha3 h ?yr)"
      by (rule hash_ok_subset [OF Suc.prems(3)], use ne in auto)+
    have leaf: "leaf_ok x" if "x \<in> set ?xl \<union> set ?yl \<union> (set ?xr \<union> set ?yr)" for x
      using that Suc.prems(4) by (auto dest: in_set_takeD in_set_dropD)
    note ok = subtree_root_leaf [of sha3 h]
    have l: "length (?R ?xl) = 32" "?R ?xl \<noteq> EMPTY_NODE" "length (?R ?yl) = 32" "?R ?yl \<noteq> EMPTY_NODE"
      using ok [of ?xl] ok [of ?yl] hash_ok_subset [OF sub(1)] leaf ne by auto
    have r: "?R ?xr = EMPTY_NODE \<longleftrightarrow> ?R ?yr = EMPTY_NODE"
      using ok [of ?xr] ok [of ?yr] hash_ok_subset [OF sub(2)] leaf Suc.prems(1) by auto
    let ?a = "aggregate_input [?R ?xl, ?R ?xr] (replicate 32 0)" and ?b = "aggregate_input [?R ?yl, ?R ?yr] (replicate 32 0)"
    have "?a \<in> subtree_inputs sha3 (Suc h) xs" "?b \<in> subtree_inputs sha3 (Suc h) ys"
      using ne by (simp_all del: aggregate_input.simps)
    moreover have "sha3 ?a = sha3 ?b"
      using Suc.prems(5) ne by (simp add: merkle_aggregate_def [of sha3 "[a, b]" for a b] del: aggregate_input.simps)
    ultimately have "?a = ?b" using Suc.prems(3) unfolding hash_ok_def by (meson UnCI inj_onD)
    from aggregate_pair [OF l(2,1,3,4) r this] have "?R ?xl = ?R ?yl" "?R ?xr = ?R ?yr" by simp_all
    then have "?xl = ?yl" "?xr = ?yr"
      using Suc.IH [OF _ _ sub(1)] Suc.IH [OF _ _ sub(2)] leaf Suc.prems(1,2) by auto
    then show ?thesis by (metis append_take_drop_id)
  qed (use Suc.prems(1) in simp)
qed

lemma merkle_root_inject:
  assumes "merkle_tree_laws tree" and "length xs = length ys" and "length xs \<le> 2 ^ 15"
    and "hash_ok sha3 (merkle_inputs sha3 xs \<union> merkle_inputs sha3 ys)"
    and "\<forall>leaf \<in> set xs \<union> set ys. leaf_ok leaf"
    and "merkle_root tree sha3 xs = merkle_root tree sha3 ys"
  shows "xs = ys"
proof (rule subtree_root_inject [OF assms(2) _ _ assms(5)])
  show "length xs \<le> 2 ^ least_height (length xs)" by (rule least_height_fits)
  show "hash_ok sha3 (subtree_inputs sha3 (least_height (length xs)) xs \<union> subtree_inputs sha3 (least_height (length xs)) ys)"
    using assms(2,4) by (simp add: merkle_inputs_def)
  show "subtree_root (merkle_aggregate sha3) (least_height (length xs)) xs =
      subtree_root (merkle_aggregate sha3) (least_height (length xs)) ys"
    using assms(1,2,3,6) by (cases "xs = []") (auto simp: merkle_root_eq)
qed

end
