(* ===== verification/Block_Proposal.thy ===== *)
theory Block_Proposal
  imports Header_Safety Merkle_Root
begin

text \<open>
  A candidate block from its generator to the vote of a provisioner: the generator
  (\<^verbatim>\<open>consensus/src/proposal/block_generator.rs\<close>), the check of a candidate message (\<^verbatim>\<open>proposal/handler.rs\<close>), the
  state transition as the node offers it to consensus (\<^verbatim>\<open>rusk/src/lib/node/vm.rs\<close>, \<^verbatim>\<open>node/src/chain/consensus.rs\<close>)
  and the vote of the validation step (\<^verbatim>\<open>consensus/src/validation/step.rs\<close>).  The clock, the configured minimum
  block time and signing are arguments.
\<close>

section \<open>The round\<close>

text \<open>The time-outs of the steps are in nanoseconds.\<close>

type_synonym timeout_set = "step_name \<rightharpoonup> nat"

record 'sk round_update =
  ru_round :: u64
  ru_pubkey_bls :: public_key
  ru_secret_key :: 'sk
  ru_seed :: seed
  ru_hash :: hash
  ru_state_root :: hash
  ru_att :: attestation
  ru_att_voters :: "voter list"
  ru_timestamp :: u64
  ru_base_timeouts :: timeout_set

definition round_update_new ::
    "public_key \<Rightarrow> 'sk \<Rightarrow> header \<Rightarrow> timeout_set \<Rightarrow> voter list \<Rightarrow> 'sk round_update" where
  "round_update_new pubkey_bls secret_key tip_header base_timeouts att_voters =
     \<lparr>ru_round = h_height tip_header + 1, ru_pubkey_bls = pubkey_bls, ru_secret_key = secret_key,
      ru_seed = h_seed tip_header, ru_hash = h_hash tip_header, ru_state_root = h_state_hash tip_header,
      ru_att = h_att tip_header, ru_att_voters = att_voters, ru_timestamp = h_timestamp tip_header,
      ru_base_timeouts = base_timeouts\<rparr>"

datatype consensus_error =
    InvalidBlock
  | InvalidBlockHash
  | InvalidBlockSize nat
  | InvalidSignature bls_error
  | InvalidMsgType
  | InvalidValidationStepVotes step_sig_error
  | InvalidPrevBlockHash hash
  | InvalidQuorumType
  | InvalidVote vote
  | InvalidMsgIteration u8
  | FutureEvent
  | PastEvent
  | NotCommitteeMember
  | CommitteeNotGenerated
  | VoteAlreadyCollected
  | VoteMismatch vote vote
  | TooManyTransactions nat
  | TooManyFaults nat

section \<open>Building a candidate\<close>

definition MAX_BLOCK_SIZE :: nat where
  "MAX_BLOCK_SIZE = 1024 * 1024"

definition MAX_NUMBER_OF_FAULTS :: nat where
  "MAX_NUMBER_OF_FAULTS = 100"

record transition_output =
  to_txs :: "spent_tx list"
  to_verification_output :: verification_output
  to_discarded_txs :: "ledger_tx list"

type_synonym 'sk signer = "'sk \<Rightarrow> public_key \<Rightarrow> bytes \<Rightarrow> bytes"

text \<open>
  The header before the state transition, as far as it determines the parameters of that transition, and
  what is filled in afterwards.
\<close>

definition initial_header ::
    "'sk signer \<Rightarrow> u64 \<Rightarrow> 'sk round_update \<Rightarrow> u8 \<Rightarrow> iterations_info \<Rightarrow> header" where
  "initial_header sign gas_limit ru iteration failed_iterations =
     header_default\<lparr>h_version := BLOCK_HEADER_VERSION, h_height := ru_round ru, h_gas_limit := gas_limit,
       h_prev_block_hash := ru_hash ru, h_seed := sign (ru_secret_key ru) (ru_pubkey_bls ru) (ru_seed ru),
       h_generator_bls_pubkey := ru_pubkey_bls ru, h_prev_block_cert := ru_att ru, h_iteration := iteration,
       h_failed_iterations := failed_iterations\<rparr>"

definition generator_params ::
    "('mpk, 'msig) node_crypto \<Rightarrow> header \<Rightarrow> 'sk round_update \<Rightarrow> iterations_info \<Rightarrow> fault list \<Rightarrow> call_params" where
  "generator_params nc blk_header ru failed_iterations faults =
     \<lparr>cp_round = ru_round ru, cp_generator = ru_pubkey_bls ru,
      cp_to_slash = from_iterations_and_faults nc failed_iterations faults, cp_voters = ru_att_voters ru,
      cp_max_txs_bytes = of_nat MAX_BLOCK_SIZE - of_nat (header_size blk_header) -
        of_nat (4 + (\<Sum>f \<leftarrow> faults. fault_size f)),
      cp_prev_state_root = ru_state_root ru\<rparr>"

definition generate_block ::
    "('mpk, 'msig) node_crypto \<Rightarrow> merkle_tree \<Rightarrow> 'sk signer \<Rightarrow> u64 \<Rightarrow> u64 \<Rightarrow> u64 \<Rightarrow> (call_params \<Rightarrow> 'e + transition_output)
     \<Rightarrow> 'sk round_update \<Rightarrow> u8 \<Rightarrow> iterations_info \<Rightarrow> fault list \<Rightarrow> 'e + block" where
  "generate_block nc tree sign minimum_block_time now gas_limit execute_state_transition ru iteration
      failed_iterations faults =
     (let faults = (if length faults > MAX_NUMBER_OF_FAULTS then take MAX_NUMBER_OF_FAULTS faults else faults);
          blk_header = initial_header sign gas_limit ru iteration failed_iterations in
      res_bind (execute_state_transition (generator_params nc blk_header ru failed_iterations faults)) (\<lambda>result.
        let txs = map sp_inner (to_txs result) in
        Inr (block_new nc (blk_header\<lparr>
            h_faultroot := merkle_root tree (nc_sha3 nc) (map (fault_digest nc) faults),
            h_state_hash := vo_state_root (to_verification_output result),
            h_event_bloom := vo_event_bloom (to_verification_output result),
            h_txroot := merkle_root tree (nc_sha3 nc) (map (ledger_tx_digest nc) txs),
            h_timestamp := max (ru_timestamp ru + minimum_block_time) now\<rparr>) txs faults)))"

definition candidate_sign :: "'sk signer \<Rightarrow> 'sk \<Rightarrow> public_key \<Rightarrow> block \<Rightarrow> block" where
  "candidate_sign sign sk pk b = set_block_signature (sign sk pk (h_hash (bl_header b))) b"

definition generate_candidate_message ::
    "('mpk, 'msig) node_crypto \<Rightarrow> merkle_tree \<Rightarrow> 'sk signer \<Rightarrow> u64 \<Rightarrow> u64 \<Rightarrow> u64 \<Rightarrow> (call_params \<Rightarrow> 'e + transition_output)
     \<Rightarrow> 'sk round_update \<Rightarrow> u8 \<Rightarrow> iterations_info \<Rightarrow> 'e + message" where
  "generate_candidate_message nc tree sign minimum_block_time now gas_limit execute_state_transition ru iteration
      failed_iterations =
     res_map (\<lambda>b. message_from (PCandidate (candidate_sign sign (ru_secret_key ru) (ru_pubkey_bls ru) b)))
       (generate_block nc tree sign minimum_block_time now gas_limit execute_state_transition ru iteration
          failed_iterations [])"

section \<open>Checking a candidate message\<close>

definition candidate_sign_info :: "('mpk, 'msig) node_crypto \<Rightarrow> block \<Rightarrow> sign_info" where
  "candidate_sign_info nc b =
     \<lparr>si_signer = (if nc_pk_valid nc (h_generator_bls_pubkey (bl_header b))
                   then h_generator_bls_pubkey (bl_header b) else replicate 96 0),
      si_signature = h_signature (bl_header b)\<rparr>"

definition verify_candidate_msg ::
    "('mpk, 'msig) node_crypto \<Rightarrow> merkle_tree \<Rightarrow> block \<Rightarrow> public_key \<Rightarrow> consensus_error + unit" where
  "verify_candidate_msg nc tree p expected_generator =
     (if expected_generator \<noteq> si_signer (candidate_sign_info nc p) then Inl NotCommitteeMember
      else if block_size nc p > MAX_BLOCK_SIZE then Inl (InvalidBlockSize (block_size nc p))
      else case verify_signature nc (candidate_sign_info nc p) (h_hash (bl_header p)) of
        Inl e \<Rightarrow> Inl (InvalidSignature e)
      | Inr _ \<Rightarrow>
          if ch_prev_block_hash (to_consensus_header (bl_header p)) \<noteq> h_prev_block_hash (bl_header p)
          then Inl InvalidBlockHash
          else if length (bl_txs p) > MAX_NUMBER_OF_TRANSACTIONS
          then Inl (TooManyTransactions (length (bl_txs p)))
          else if merkle_root tree (nc_sha3 nc) (map (ledger_tx_digest nc) (bl_txs p)) \<noteq> h_txroot (bl_header p)
          then Inl InvalidBlock
          else if length (bl_faults p) > MAX_NUMBER_OF_FAULTS then Inl (TooManyFaults (length (bl_faults p)))
          else if merkle_root tree (nc_sha3 nc) (map (fault_digest nc) (bl_faults p)) \<noteq> h_faultroot (bl_header p)
          then Inl InvalidBlock
          else Inr ())"

section \<open>The state transition\<close>

datatype vst_error =
    MismatchEventBloom bytes bytes
  | MismatchStateHash hash hash
  | VstTipChanged
  | VstInvalidGenerator
  | VstGeneric node_error

definition vst_must_vote :: "vst_error \<Rightarrow> bool" where
  "vst_must_vote e \<longleftrightarrow> e \<noteq> VstTipChanged"

definition vm_execute_state_transition ::
    "'r sworld_scheme rusk \<Rightarrow> (nat \<Rightarrow> bool) \<Rightarrow> (nat \<Rightarrow> bytes) \<Rightarrow> bytes \<Rightarrow> ledger_tx list \<Rightarrow> call_params
     \<Rightarrow> node_error + transition_output" where
  "vm_execute_state_transition rk timed_out tips tip mempool params =
     res_map (\<lambda>(txs, discarded, out).
         \<lparr>to_txs = txs, to_verification_output = out, to_discarded_txs = discarded\<rparr>)
       (execute_transactions rk timed_out tips tip params mempool)"

definition vm_verify_state_transition ::
    "('mpk, 'msig) node_crypto \<Rightarrow> 'r sworld_scheme rusk \<Rightarrow> bytes \<Rightarrow> hash \<Rightarrow> block \<Rightarrow> voter list
     \<Rightarrow> (vst_error, verification_output) run" where
  "vm_verify_state_transition nc rk tip prev_commit blk prev_voters =
     (let h = bl_header blk in
      if \<not> nc_pk_valid nc (h_generator_bls_pubkey h) then run_err VstInvalidGenerator
      else case verify_transactions rk tip prev_commit (h_height h) (h_gas_limit h)
          (rk_inner rk (h_generator_bls_pubkey h)) (bl_txs blk) (slash_from_block nc blk) prev_voters of
        Inl (NodePanic msg) \<Rightarrow> Some (Inl (Panic msg))
      | Inl TipChanged \<Rightarrow> run_err VstTipChanged
      | Inl e \<Rightarrow> run_err (VstGeneric e)
      | Inr (_, out) \<Rightarrow> run_ret out)"

definition call_vst ::
    "('mpk, 'msig) node_crypto \<Rightarrow> 'r sworld_scheme rusk \<Rightarrow> bytes \<Rightarrow> hash \<Rightarrow> block \<Rightarrow> voter list \<Rightarrow> (vst_error, unit) run" where
  "call_vst nc rk tip prev_commit candidate prev_voters =
     run_bind (vm_verify_state_transition nc rk tip prev_commit candidate prev_voters) (\<lambda>output.
       if vo_event_bloom output \<noteq> h_event_bloom (bl_header candidate)
       then run_err (MismatchEventBloom (vo_event_bloom output) (h_event_bloom (bl_header candidate)))
       else if vo_state_root output \<noteq> h_state_hash (bl_header candidate)
       then run_err (MismatchStateHash (vo_state_root output) (h_state_hash (bl_header candidate)))
       else run_ret ())"

section \<open>The vote on a candidate\<close>

text \<open>The vote of a provisioner; \<open>None\<close> inside is an abstention.\<close>

definition try_vote ::
    "('mpk, 'msig) validator \<Rightarrow> 'r sworld_scheme rusk \<Rightarrow> bytes \<Rightarrow> 'sk round_update \<Rightarrow> block option \<Rightarrow> public_key
     \<Rightarrow> vote option res option" where
  "try_vote vd rk tip ru candidate expected_generator =
     (case candidate of
        None \<Rightarrow> Some (Inr (Some NoCandidate))
      | Some b \<Rightarrow>
          let header = bl_header b in
          (case execute_checks vd header expected_generator False of
             None \<Rightarrow> None
           | Some (Inl e) \<Rightarrow> Some (Inl e)
           | Some (Inr (Inl err)) \<Rightarrow>
               Some (Inr (if header_must_vote err then Some (Invalid (h_hash header)) else None))
           | Some (Inr (Inr (_, prev_voters, _))) \<Rightarrow>
               (case verify_faults vd (h_height header) (bl_faults b) of
                  Inl _ \<Rightarrow> Some (Inr (Some (Invalid (h_hash header))))
                | Inr _ \<Rightarrow>
                    (case call_vst (vd_crypto vd) rk tip (ru_state_root ru) b prev_voters of
                       None \<Rightarrow> None
                     | Some (Inl e) \<Rightarrow> Some (Inl e)
                     | Some (Inr (Inl err)) \<Rightarrow>
                         Some (Inr (if vst_must_vote err then Some (Invalid (h_hash header)) else None))
                     | Some (Inr (Inr _)) \<Rightarrow> Some (Inr (Some (Valid (h_hash header))))))))"

end
