(* ===== verification/Proposal_Safety.thy ===== *)
theory Proposal_Safety
  imports Block_Proposal
begin

text \<open>
  What happens to the candidate of an honest generator: every provisioner on the same tip votes for it.  How
  large it can be, what its signature binds, and what it does not bind.
\<close>

section \<open>The candidate of a generator\<close>

definition signs_for :: "('mpk, 'msig) node_crypto \<Rightarrow> 'sk signer \<Rightarrow> 'sk \<Rightarrow> public_key \<Rightarrow> bool" where
  "signs_for nc sign sk pk \<longleftrightarrow>
     nc_pk_valid nc pk \<and>
     (\<exists>mpk. nc_pk_aggregate nc [pk] = Inr mpk \<and>
        (\<forall>msg. \<exists>sig. nc_sig_from_bytes nc (sign sk pk msg) = Inr sig \<and> nc_verify nc mpk sig msg = Inr ()))"

text \<open>The header of a candidate without its hash and signature, given the result of the state transition.\<close>

definition filled_header ::
    "('mpk, 'msig) node_crypto \<Rightarrow> merkle_tree \<Rightarrow> 'sk signer \<Rightarrow> u64 \<Rightarrow> u64 \<Rightarrow> u64 \<Rightarrow> 'sk round_update \<Rightarrow> u8
     \<Rightarrow> iterations_info \<Rightarrow> transition_output \<Rightarrow> header" where
  "filled_header nc tree sign mbt now gas_limit ru iteration failed result =
     (initial_header sign gas_limit ru iteration failed)\<lparr>
       h_faultroot := EMPTY_NODE,
       h_state_hash := vo_state_root (to_verification_output result),
       h_event_bloom := vo_event_bloom (to_verification_output result),
       h_txroot := merkle_root tree (nc_sha3 nc) (map (ledger_tx_digest nc) (map sp_inner (to_txs result))),
       h_timestamp := max (ru_timestamp ru + mbt) now\<rparr>"

definition candidate_of ::
    "('mpk, 'msig) node_crypto \<Rightarrow> merkle_tree \<Rightarrow> 'sk signer \<Rightarrow> u64 \<Rightarrow> u64 \<Rightarrow> u64 \<Rightarrow> 'sk round_update \<Rightarrow> u8
     \<Rightarrow> iterations_info \<Rightarrow> transition_output \<Rightarrow> block" where
  "candidate_of nc tree sign mbt now gas_limit ru iteration failed result =
     (let h = filled_header nc tree sign mbt now gas_limit ru iteration failed result;
          hash = nc_sha3 nc (marshal_hashable h) in
      \<lparr>bl_header = h\<lparr>h_hash := hash, h_signature := sign (ru_secret_key ru) (ru_pubkey_bls ru) hash\<rparr>,
       bl_txs = map sp_inner (to_txs result), bl_faults = []\<rparr>)"

lemma generate_candidate_ok:
  assumes "generate_candidate_message nc tree sign mbt now gas_limit est ru iteration failed = Inr msg"
  obtains result where
    "est (generator_params nc (initial_header sign gas_limit ru iteration failed) ru failed []) = Inr result"
    "msg = message_from (PCandidate (candidate_of nc tree sign mbt now gas_limit ru iteration failed result))"
proof -
  have "h_hash (initial_header sign gas_limit ru iteration failed) = replicate 32 0"
    by (simp add: initial_header_def header_default_def)
  with assms that show thesis
    by (auto simp: generate_candidate_message_def generate_block_def Let_def block_new_def calculate_hash_def
        candidate_sign_def set_block_signature_def candidate_of_def filled_header_def merkle_root_def)
qed

lemma candidate_fields:
  assumes "b = candidate_of nc tree sign mbt now gas_limit ru iteration failed result"
  shows "bl_txs b = map sp_inner (to_txs result)" "bl_faults b = []"
    "h_version (bl_header b) = BLOCK_HEADER_VERSION" "h_height (bl_header b) = ru_round ru"
    "h_gas_limit (bl_header b) = gas_limit" "h_prev_block_hash (bl_header b) = ru_hash ru"
    "h_seed (bl_header b) = sign (ru_secret_key ru) (ru_pubkey_bls ru) (ru_seed ru)"
    "h_generator_bls_pubkey (bl_header b) = ru_pubkey_bls ru" "h_prev_block_cert (bl_header b) = ru_att ru"
    "h_iteration (bl_header b) = iteration" "h_failed_iterations (bl_header b) = failed"
    "h_state_hash (bl_header b) = vo_state_root (to_verification_output result)"
    "h_event_bloom (bl_header b) = vo_event_bloom (to_verification_output result)"
    "h_timestamp (bl_header b) = max (ru_timestamp ru + mbt) now"
    "h_txroot (bl_header b) = merkle_root tree (nc_sha3 nc) (map (ledger_tx_digest nc) (bl_txs b))"
    "h_faultroot (bl_header b) = EMPTY_NODE"
    "h_signature (bl_header b) = sign (ru_secret_key ru) (ru_pubkey_bls ru) (h_hash (bl_header b))"
  by (simp_all add: assms candidate_of_def filled_header_def initial_header_def Let_def)

section \<open>The vote for it\<close>

lemma candidate_generator_ok:
  assumes "signs_for (vd_crypto vd) sign sk pk" and "h_generator_bls_pubkey h = pk"
    and "h_signature h = sign sk pk (h_hash h)" and "h_seed h = sign sk pk (h_seed (vd_prev_header vd))"
  obtains mpk where "verify_block_generator vd h pk = Inr mpk" and "verify_seed_field vd (h_seed h) mpk = Inr ()"
proof -
  obtain mpk where pk: "nc_pk_valid (vd_crypto vd) pk" "nc_pk_aggregate (vd_crypto vd) [pk] = Inr mpk"
    and msg: "\<exists>sig. nc_sig_from_bytes (vd_crypto vd) (sign sk pk msg) = Inr sig \<and>
        nc_verify (vd_crypto vd) mpk sig msg = Inr ()" for msg
    using assms(1) by (auto simp: signs_for_def)
  show thesis
    by (rule that [of mpk])
       (use assms(2-4) pk msg [of "h_hash h"] msg [of "h_seed (vd_prev_header vd)"] in
         \<open>auto simp: verify_block_generator_def verify_seed_field_def Let_def\<close>)
qed

lemma failed_iterations_cong:
  assumes "h_height b = h_height b'" and "h_prev_block_hash b = h_prev_block_hash b'"
  shows "failed_iterations_loop vd b iter atts n = failed_iterations_loop vd b' iter atts n"
  using assms
proof (induction vd b iter atts n rule: failed_iterations_loop.induct)
  case (3 vd b iter att pk atts n)
  have "(to_consensus_header b)\<lparr>ch_iteration := iter\<rparr> = (to_consensus_header b')\<lparr>ch_iteration := iter\<rparr>"
    using "3.prems" by (simp add: to_consensus_header_def)
  with 3 show ?case by (auto simp: run_bind_def split: option.splits sum.splits)
qed simp_all

text \<open>
  The node that votes: it is on the tip of the round, with the same configuration as the generator, its clock is
  not too far behind, and it does not have the block yet.
\<close>

definition on_same_tip ::
    "('mpk, 'msig) validator \<Rightarrow> 'sk round_update \<Rightarrow> u64 \<Rightarrow> u64 \<Rightarrow> block \<Rightarrow> bool" where
  "on_same_tip vd ru mbt now b \<longleftrightarrow>
     ru_round ru = h_height (vd_prev_header vd) + 1 \<and> ru_hash ru = h_hash (vd_prev_header vd) \<and>
     ru_seed ru = h_seed (vd_prev_header vd) \<and> ru_timestamp ru = h_timestamp (vd_prev_header vd) \<and>
     ru_att ru = h_att (vd_prev_header vd) \<and> vd_minimum_block_time vd = mbt \<and>
     max (ru_timestamp ru + mbt) now \<le> vd_local_time vd + MARGIN_TIMESTAMP \<and>
     vd_block_exists vd (h_hash (bl_header b)) = Inr False \<and> h_hash (bl_header b) \<noteq> replicate 32 0"

text \<open>The attestation of the tip, which every node checked when it accepted the tip.\<close>

definition tip_attested :: "('mpk, 'msig) validator \<Rightarrow> voter list \<Rightarrow> bool" where
  "tip_attested vd tip_voters \<longleftrightarrow>
     (\<exists>parent val rat vs. vd_block_header vd (h_prev_block_hash (vd_prev_header vd)) = Inr (Some parent) \<and>
        verify_att (vd_crypto vd) (vd_hash vd) (h_att (vd_prev_header vd)) (to_consensus_header (vd_prev_header vd))
          (h_seed parent) (prev_provisioners (vd_provisioners vd))
          (Some (Success (Valid (h_hash (vd_prev_header vd))))) = run_ret (val, rat, vs) \<and>
        get_voters (vd_hash vd) (vd_prev_header vd) (prev_provisioners (vd_provisioners vd)) (h_seed parent)
          = Some (Inr tip_voters)) \<and>
     h_height (vd_prev_header vd) \<noteq> 0 \<and> \<not> is_emergency_block (h_iteration (vd_prev_header vd))"

lemma candidate_header_checks:
  assumes "signs_for (vd_crypto vd) sign (ru_secret_key ru) (ru_pubkey_bls ru)"
    and b: "b = candidate_of nc tree sign mbt now gas_limit ru iteration failed result"
    and "on_same_tip vd ru mbt now b" and "tip_attested vd (ru_att_voters ru)"
    and "\<not> is_emergency_block iteration" and "length failed \<le> 8"
    and "failed_iterations_loop vd (initial_header sign gas_limit ru iteration failed) 0 failed 0 = run_ret n"
  shows "\<exists>pni. execute_checks vd (bl_header b) (ru_pubkey_bls ru) False = run_ret (pni, ru_att_voters ru, [])"
proof -
  note f = candidate_fields [OF b]
  have tip: "ru_round ru = h_height (vd_prev_header vd) + 1" "ru_hash ru = h_hash (vd_prev_header vd)"
    "ru_seed ru = h_seed (vd_prev_header vd)" "ru_timestamp ru = h_timestamp (vd_prev_header vd)"
    "ru_att ru = h_att (vd_prev_header vd)" "vd_minimum_block_time vd = mbt"
    "max (ru_timestamp ru + mbt) now \<le> vd_local_time vd + MARGIN_TIMESTAMP"
    "vd_block_exists vd (h_hash (bl_header b)) = Inr False" "h_hash (bl_header b) \<noteq> replicate 32 0"
    using assms(3) unfolding on_same_tip_def by metis+
  obtain mpk where gen: "verify_block_generator vd (bl_header b) (ru_pubkey_bls ru) = Inr mpk"
    and seed: "verify_seed_field vd (h_seed (bl_header b)) mpk = Inr ()"
    by (rule candidate_generator_ok [OF assms(1), of "bl_header b"]) (simp_all add: f tip(3))
  have basic: "verify_basic_fields vd (bl_header b) mpk = Inr ()"
    using tip(7) seed assms(5)
    by (simp add: verify_basic_fields_def f(3,4,6,10,14) tip(1,2,4,6,8,9) Let_def not_less)
  obtain parent val rat vs where "vd_block_header vd (h_prev_block_hash (vd_prev_header vd)) = Inr (Some parent)"
    and att: "verify_att (vd_crypto vd) (vd_hash vd) (h_att (vd_prev_header vd)) (to_consensus_header (vd_prev_header vd))
          (h_seed parent) (prev_provisioners (vd_provisioners vd))
          (Some (Success (Valid (h_hash (vd_prev_header vd))))) = run_ret (val, rat, vs)"
    and "get_voters (vd_hash vd) (vd_prev_header vd) (prev_provisioners (vd_provisioners vd)) (h_seed parent)
          = Some (Inr (ru_att_voters ru))"
    using assms(4) by (auto simp: tip_attested_def)
  then have cert: "verify_prev_block_cert vd (bl_header b) = run_ret (ru_att_voters ru)"
    using assms(4) voters_agree [OF att]
    by (simp add: verify_prev_block_cert_def f(6,9) tip(2,5) Let_def tip_attested_def)
  have "failed_iterations_loop vd (bl_header b) 0 failed 0 =
      failed_iterations_loop vd (initial_header sign gas_limit ru iteration failed) 0 failed 0"
    by (rule failed_iterations_cong) (simp_all add: f(4,6) initial_header_def)
  with assms(7) have "failed_iterations_loop vd (bl_header b) 0 failed 0 = run_ret n" by (rule trans [rotated])
  then have "\<exists>pni. verify_failed_iterations vd (bl_header b) = run_ret pni"
    using assms(6) by (simp add: verify_failed_iterations_def f(11) Let_def MESSAGE_MAX_FAILED_ITERATIONS_def)
  then show ?thesis using gen basic cert by (auto simp: execute_checks_def)
qed

lemma honest_candidate_vote:
  assumes "generate_candidate_message (vd_crypto vd) tree sign mbt now (rk_block_gas_limit rk)
      (vm_execute_state_transition rk timed_out tips tip mempool) ru iteration failed = Inr msg"
    and "ms_payload msg = PCandidate b"
    and "signs_for (vd_crypto vd) sign (ru_secret_key ru) (ru_pubkey_bls ru)"
    and "on_same_tip vd ru mbt now b" and "tip_attested vd (ru_att_voters ru)"
    and "\<not> is_emergency_block iteration" and "length failed \<le> 8"
    and "failed_iterations_loop vd (initial_header sign (rk_block_gas_limit rk) ru iteration failed) 0 failed 0 = run_ret n"
  shows "try_vote vd rk (ru_state_root ru) ru (Some b) (ru_pubkey_bls ru) =
           Some (Inr (Some (Valid (h_hash (bl_header b)))))"
proof -
  let ?p = "generator_params (vd_crypto vd) (initial_header sign (rk_block_gas_limit rk) ru iteration failed) ru failed []"
  obtain result where est: "vm_execute_state_transition rk timed_out tips tip mempool ?p = Inr result"
    and b: "b = candidate_of (vd_crypto vd) tree sign mbt now (rk_block_gas_limit rk) ru iteration failed result"
    by (rule generate_candidate_ok [OF assms(1)]) (use assms(2) in \<open>simp add: message_from_def\<close>)
  note f = candidate_fields [OF b]
  have "execute_transactions rk timed_out tips tip ?p mempool =
      Inr (to_txs result, to_discarded_txs result, to_verification_output result)"
    using est by (auto simp: vm_execute_state_transition_def)
  from proposal_is_accepted [OF this]
  have "verify_transactions rk (ru_state_root ru) (ru_state_root ru) (h_height (bl_header b)) (h_gas_limit (bl_header b))
      (rk_inner rk (ru_pubkey_bls ru)) (bl_txs b) (slash_from_block (vd_crypto vd) b) (ru_att_voters ru) =
      Inr (to_txs result, to_verification_output result)"
    by (simp add: generator_params_def f(1,2,4,5,11) slash_from_block_def)
  then have vst: "call_vst (vd_crypto vd) rk (ru_state_root ru) (ru_state_root ru) b (ru_att_voters ru) = run_ret ()"
    using assms(3) by (simp add: call_vst_def vm_verify_state_transition_def f(8,12,13) signs_for_def Let_def)
  obtain pni where "execute_checks vd (bl_header b) (ru_pubkey_bls ru) False = run_ret (pni, ru_att_voters ru, [])"
    using candidate_header_checks [OF assms(3) b assms(4-8)] by blast
  with vst show ?thesis
    by (simp add: try_vote_def verify_faults_def f(2) run_ret_def)
qed

text \<open>
  C36: The candidate of an honest generator leads to the vote \<open>Valid\<close>.  Let a generator sign with its own key what
  \<open>generate_block\<close> builds from any mempool on a tip that is attested (so neither the genesis block nor an emergency
  one), in an iteration that is not an emergency one and with failed iterations that pass their check.  Then a
  provisioner on the same tip, whose clock is not behind by more than the margin and who does not have the block yet,
  votes \<open>Valid\<close> for its hash when it has received the candidate: the checks of the header find the voters that the
  generator rewarded, and executing its transactions gives the state root and the event bloom in its header.  That the
  message of the candidate is accepted is not part of it: a candidate close to the size limit is refused
  (\<open>candidate_size_overrun\<close>).
\<close>

theorem honest_candidate_is_valid:
  assumes "generate_candidate_message (vd_crypto vd) tree sign mbt now (rk_block_gas_limit rk)
      (vm_execute_state_transition rk timed_out tips tip mempool) ru iteration failed = Inr msg"
    and "ms_payload msg = PCandidate b"
    and "signs_for (vd_crypto vd) sign (ru_secret_key ru) (ru_pubkey_bls ru)"
    and "on_same_tip vd ru mbt now b" and "tip_attested vd (ru_att_voters ru)"
    and "\<not> is_emergency_block iteration" and "length failed \<le> 8"
    and "failed_iterations_loop vd (initial_header sign (rk_block_gas_limit rk) ru iteration failed) 0 failed 0 = run_ret n"
  shows "try_vote vd rk (ru_state_root ru) ru (Some b) (ru_pubkey_bls ru) =
           Some (Inr (Some (Valid (h_hash (bl_header b)))))"
  by (rule honest_candidate_vote [OF assms])

section \<open>The size of a candidate\<close>

text \<open>The lengths of what goes into a header.\<close>

definition sized :: "('mpk, 'msig) node_crypto \<Rightarrow> merkle_tree \<Rightarrow> 'sk signer \<Rightarrow> 'w rusk \<Rightarrow> bool" where
  "sized nc tree sign rk \<longleftrightarrow>
     merkle_tree_laws tree \<and> (\<forall>m. length (nc_sha3 nc m) = 32) \<and> (\<forall>sk pk m. length (sign sk pk m) = 48) \<and>
     (\<forall>w. length (rk_root rk w) = 32)"

lemma length_subtree_root:
  assumes "\<forall>m. length (sha3 m) = 32" and "\<forall>leaf \<in> set leaves. length leaf = 32"
  shows "length (subtree_root (merkle_aggregate sha3) h leaves) = 32"
  using assms by (cases h) (auto simp: EMPTY_NODE_def merkle_aggregate_def split: list.splits)

lemma length_merkle_root:
  assumes "merkle_tree_laws tree" and "\<forall>m. length (nc_sha3 nc m) = 32" and "length txs \<le> 2 ^ 15"
  shows "length (merkle_root tree (nc_sha3 nc) (map (ledger_tx_digest nc) txs)) = 32"
  using assms length_subtree_root [OF assms(2), of "map (ledger_tx_digest nc) txs"]
  by (simp add: merkle_root_eq ledger_tx_digest_def) (simp add: EMPTY_NODE_def)

lemma candidate_size:
  assumes "b = candidate_of nc tree sign mbt now gas_limit ru iteration failed result"
    and "sized nc tree sign rk" and "length (to_txs result) \<le> 2 ^ 15"
    and "length (vo_event_bloom (to_verification_output result)) = 256"
    and "vo_state_root (to_verification_output result) = rk_root rk w"
    and "\<forall>t \<in> set (bl_txs b). ledger_tx_ok nc t"
  shows "block_size nc b =
    header_size (initial_header sign gas_limit ru iteration failed) + 8 + (\<Sum>t \<leftarrow> bl_txs b. tx_size nc t) +
    12 * length (bl_txs b)"
proof -
  have txs: "(\<Sum>t \<leftarrow> bl_txs b. length (ledger_tx_write nc t)) = (\<Sum>t \<leftarrow> bl_txs b. tx_size nc t + 12)"
    using assms(6) by (intro arg_cong [where f = sum_list] map_cong)
      (auto simp: ledger_tx_ok_def ledger_tx_length tx_size_def)
  have "length (merkle_root tree (nc_sha3 nc) (map (ledger_tx_digest nc) (map sp_inner (to_txs result)))) = 32"
    using assms(2,3) by (intro length_merkle_root) (simp_all add: sized_def)
  then have "header_size (bl_header b) = header_size (initial_header sign gas_limit ru iteration failed)"
    using assms(2,4,5)
    by (simp add: assms(1) candidate_of_def filled_header_def initial_header_def header_default_def Let_def
        header_size_def header_write_def marshal_hashable_def sized_def EMPTY_NODE_def signature_EMPTY_def)
  moreover have "bl_faults b = []" using candidate_fields(2) [OF assms(1)] .
  ultimately show ?thesis
    by (simp only: block_size_def block_write_def length_append concat_length txs header_size_def
        length_to_le_bytes sum_list_add1) (simp add: write_many_def)
qed

lemma candidate_msg_size:
  assumes "generate_candidate_message nc tree sign mbt now gas_limit
      (vm_execute_state_transition rk timed_out tips tip mempool) ru iteration failed = Inr msg"
    and "ms_payload msg = PCandidate b"
    and "signs_for nc sign (ru_secret_key ru) (ru_pubkey_bls ru)" and "sized nc tree sign rk"
    and "\<forall>t \<in> set mempool. ledger_tx_ok nc t \<and> unat (ledger_tx_size rk t) = tx_size nc t"
    and "header_size (initial_header sign gas_limit ru iteration failed) + 8 \<le> MAX_BLOCK_SIZE"
  shows "\<exists>accounted \<le> MAX_BLOCK_SIZE. block_size nc b = accounted + 12 * length (bl_txs b) \<and>
           verify_candidate_msg nc tree b (ru_pubkey_bls ru) =
             (if accounted + 12 * length (bl_txs b) \<le> MAX_BLOCK_SIZE then Inr ()
              else Inl (InvalidBlockSize (accounted + 12 * length (bl_txs b))))"
proof -
  let ?h0 = "initial_header sign gas_limit ru iteration failed"
  let ?p = "generator_params nc ?h0 ru failed []"
  obtain result where est: "vm_execute_state_transition rk timed_out tips tip mempool ?p = Inr result"
    and b: "b = candidate_of nc tree sign mbt now gas_limit ru iteration failed result"
    by (rule generate_candidate_ok [OF assms(1)]) (use assms(2) in \<open>simp add: message_from_def\<close>)
  note f = candidate_fields [OF b]
  have ex: "execute_transactions rk timed_out tips tip ?p mempool =
      Inr (to_txs result, to_discarded_txs result, to_verification_output result)"
    using est by (auto simp: vm_execute_state_transition_def)
  note c = proposal_contents [OF ex]
  have max: "unat (cp_max_txs_bytes ?p) + header_size ?h0 + 4 = MAX_BLOCK_SIZE"
    using assms(6) by (simp add: generator_params_def MAX_BLOCK_SIZE_def unat_sub_if_size word_size unat_of_nat)
  have "4 \<le> cp_max_txs_bytes ?p" using max assms(6) by (simp add: word_le_nat_alt)
  from proposal_limits [OF ex this] have n: "length (to_txs result) \<le> 1000"
    and size: "(\<Sum>s\<leftarrow>to_txs result. unat (ledger_tx_size rk (sp_inner s))) + 4 \<le> unat (cp_max_txs_bytes ?p)"
    by (simp_all add: MAX_NUMBER_OF_TRANSACTIONS_def)
  have txs: "\<forall>t \<in> set (bl_txs b). ledger_tx_ok nc t \<and> unat (ledger_tx_size rk t) = tx_size nc t"
    using c(1) assms(5) by (auto simp: f(1))
  let ?acc = "header_size ?h0 + 8 + (\<Sum>t \<leftarrow> bl_txs b. tx_size nc t)"
  obtain w where "vo_state_root (to_verification_output result) = rk_root rk w" using c(3) by blast
  with candidate_size [OF b assms(4)] n c(2) txs have bs: "block_size nc b = ?acc + 12 * length (bl_txs b)"
    by (simp add: bloom_new_def BLOOM_BYTE_LEN_def)
  have "(\<Sum>t \<leftarrow> bl_txs b. tx_size nc t) = (\<Sum>s\<leftarrow>to_txs result. unat (ledger_tx_size rk (sp_inner s)))"
    using txs by (simp add: f(1) comp_def cong: map_cong)
  with size max have acc: "?acc \<le> MAX_BLOCK_SIZE" by simp
  have "verify_signature nc (candidate_sign_info nc b) (h_hash (bl_header b)) = Inr ()"
    using assms(3) f(8,17)
    by (auto simp: verify_signature_def candidate_sign_info_def signs_for_def dest: spec [of _ "h_hash (bl_header b)"])
  with acc bs show ?thesis using assms(3) n
    by (intro exI [of _ ?acc])
       (simp add: verify_candidate_msg_def candidate_sign_info_def signs_for_def f(2,8,15,16) to_consensus_header_def
         MAX_NUMBER_OF_TRANSACTIONS_def MAX_NUMBER_OF_FAULTS_def merkle_root_def [of _ _ "[]"] f(1))
qed

text \<open>
  The size of a candidate.  A candidate from transactions that came over the wire is at most the limit of
  a block plus twelve bytes for each of its transactions, which the generator does not account for, and the
  other nodes accept its message exactly when these bytes still fit: one that was filled up to the limit is
  refused by everyone.
\<close>

theorem candidate_size_overrun:
  assumes "generate_candidate_message nc tree sign mbt now gas_limit
      (vm_execute_state_transition rk timed_out tips tip mempool) ru iteration failed = Inr msg"
    and "ms_payload msg = PCandidate b"
    and "signs_for nc sign (ru_secret_key ru) (ru_pubkey_bls ru)" and "sized nc tree sign rk"
    and "\<forall>t \<in> set mempool. ledger_tx_ok nc t \<and> unat (ledger_tx_size rk t) = tx_size nc t"
    and "header_size (initial_header sign gas_limit ru iteration failed) + 8 \<le> MAX_BLOCK_SIZE"
  shows "\<exists>accounted \<le> MAX_BLOCK_SIZE. block_size nc b = accounted + 12 * length (bl_txs b) \<and>
           verify_candidate_msg nc tree b (ru_pubkey_bls ru) =
             (if accounted + 12 * length (bl_txs b) \<le> MAX_BLOCK_SIZE then Inr ()
              else Inl (InvalidBlockSize (accounted + 12 * length (bl_txs b))))"
  by (rule candidate_msg_size [OF assms])

section \<open>What a signature binds\<close>

lemma candidate_msg_ok:
  "verify_candidate_msg nc tree p g = Inr () \<longleftrightarrow>
     g = si_signer (candidate_sign_info nc p) \<and> block_size nc p \<le> MAX_BLOCK_SIZE \<and>
     verify_signature nc (candidate_sign_info nc p) (h_hash (bl_header p)) = Inr () \<and>
     length (bl_txs p) \<le> MAX_NUMBER_OF_TRANSACTIONS \<and>
     merkle_root tree (nc_sha3 nc) (map (ledger_tx_digest nc) (bl_txs p)) = h_txroot (bl_header p) \<and>
     length (bl_faults p) \<le> MAX_NUMBER_OF_FAULTS \<and>
     merkle_root tree (nc_sha3 nc) (map (fault_digest nc) (bl_faults p)) = h_faultroot (bl_header p)"
  by (auto simp: verify_candidate_msg_def to_consensus_header_def split: sum.splits)


lemma accept_txs_last:
  assumes "accept_txs rk bh (txs @ [t]) a = Inr a'"
  shows "\<exists>w r. run_tx rk bh t w = Inr (r, ac_session a')"
proof -
  obtain a1 where "accept_txs rk bh [t] a1 = Inr a'" using assms by (auto simp: accept_txs_append)
  then show ?thesis
    by (intro exI [of _ "ac_session a1"]) (auto simp: Let_def split: sum.splits execute_error.splits if_splits)
qed

lemma run_tx_twice:
  assumes "run_tx rk bh t w = Inr (r, w')" and "lt_inner t = Moonlight m" and "mt_deploy m = None"
    and "call_grows (rk_ext rk (host_at rk bh))"
  shows "\<exists>e. run_tx rk bh t w' = Inl (Discarded e)"
proof -
  let ?h = "host_at rk bh"
  have strip: "(case tx_strip_off_bytecode (Moonlight m) of Some t \<Rightarrow> t | None \<Rightarrow> Moonlight m) = Moonlight m"
    using assms(3) by (simp add: tx_strip_off_bytecode_def mt_strip_off_bytecode_def mt_deploy_def data_deploy_def split: option.splits transaction_data.splits)
  have none: "tx_deploy (Moonlight m) = None" using assms(3) by (simp add: tx_deploy_def)
  obtain data w1 g where ex: "spend_and_execute ?h (rk_wire rk) (rk_phoenix rk) (rk_ext rk ?h) (Moonlight m) w = Inr (data, w1)"
    and ref: "refund ?h g w1 = Inr w'"
  proof (rule execute_ok [OF assms(1) [unfolded run_tx_def assms(2)]])
    fix st gas data w1 ra w2
    assume "st = (case tx_strip_off_bytecode (Moonlight m) of None \<Rightarrow> Moonlight m | Some t \<Rightarrow> t)"
      and "spend_and_execute ?h (rk_wire rk) (rk_phoenix rk) (rk_ext rk ?h) st w = Inr (data, w1)"
      and "vm_contract_deploy (rk_vm rk) (Moonlight m) (rk_gas_per_deploy_byte rk) (rk_min_deploy_points rk)
          \<lparr>cr_data = data, cr_gas_spent = gas, cr_gas_limit = tx_gas_limit (Moonlight m)\<rparr> w1 = (ra, w2)"
      and "refund ?h (cr_gas_spent r) w2 = Inr w'"
    then show thesis by (intro that) (simp_all add: strip vm_contract_deploy_def none)
  qed
  have "(transfer_step ?h (rk_wire rk) (rk_phoenix rk) (rk_ext rk ?h))\<^sup>*\<^sup>* w1 w'"
    by (rule r_into_rtranclp) (rule step_refund [where bh = "h_block_height ?h"], use ref in simp)
  from moonlight_spent_once [where bh = "h_block_height ?h", OF assms(4) ex this refl order_refl]
  have "\<not> is_ok (spend_and_execute ?h (rk_wire rk) (rk_phoenix rk) (rk_ext rk ?h) (Moonlight m) w')" by simp
  then obtain p where "spend_and_execute ?h (rk_wire rk) (rk_phoenix rk) (rk_ext rk ?h) (Moonlight m) w' = Inl p"
    by (cases "spend_and_execute ?h (rk_wire rk) (rk_phoenix rk) (rk_ext rk ?h) (Moonlight m) w'") simp_all
  then show ?thesis
    by (cases p; cases "vm_meter (rk_vm rk) (Moonlight m) w'")
       (simp_all add: run_tx_def assms(2) execute_def strip deploy_check_def none)
qed

text \<open>
  C37: The number of transactions is not bound.  A missing leaf is hashed as a copy of its neighbour, so a
  candidate with an odd number of transactions, at least three, has the same root, hash and signature when its
  last transaction is repeated.  If that one is a Moonlight transaction without a deployment, and one more
  transaction keeps the candidate within the limits of number and size, the altered message passes the check of
  every node, and a provisioner who gets it votes \<open>Invalid\<close> on the very hash for which the genuine message leads to
  the vote \<open>Valid\<close>, since the nonce of the repeated transaction is spent (\<open>call_grows\<close>: no call lowers a nonce).
\<close>

theorem repeated_transaction_invalidates:
  assumes "merkle_tree_laws tree"
    and "verify_candidate_msg nc tree b g = Inr ()" and "nc = vd_crypto vd"
    and "try_vote vd rk tip ru (Some b) g = Some (Inr (Some (Valid (h_hash (bl_header b)))))"
    and "bl_txs b = txs @ [t]" and "even (length txs)" and "txs \<noteq> []" and "length txs + 2 \<le> MAX_NUMBER_OF_TRANSACTIONS"
    and "lt_inner t = Moonlight m" and "mt_deploy m = None"
    and "call_grows (rk_ext rk (host_at rk (h_height (bl_header b))))"
    and "block_size nc (b\<lparr>bl_txs := txs @ [t, t]\<rparr>) \<le> MAX_BLOCK_SIZE"
  shows "verify_candidate_msg nc tree (b\<lparr>bl_txs := txs @ [t, t]\<rparr>) g = Inr () \<and>
         try_vote vd rk tip ru (Some (b\<lparr>bl_txs := txs @ [t, t]\<rparr>)) g = Some (Inr (Some (Invalid (h_hash (bl_header b)))))"
proof
  let ?b = "b\<lparr>bl_txs := txs @ [t, t]\<rparr>" and ?h = "bl_header b"
  have sig: "candidate_sign_info nc ?b = candidate_sign_info nc b" by (simp add: candidate_sign_info_def)
  have "merkle_root tree (nc_sha3 nc) (map (ledger_tx_digest nc) (txs @ [t, t])) =
      merkle_root tree (nc_sha3 nc) (map (ledger_tx_digest nc) (txs @ [t]))"
    using merkle_root_repeat [OF assms(1), of "map (ledger_tx_digest nc) txs"] assms(6-8)
    by (simp add: MAX_NUMBER_OF_TRANSACTIONS_def)
  then show "verify_candidate_msg nc tree ?b g = Inr ()"
    using assms(2,5,8,12) by (simp add: candidate_msg_ok sig)
  obtain pni vs bv where chk: "execute_checks vd ?h g False = run_ret (pni, vs, bv)"
    and flt: "verify_faults vd (h_height ?h) (bl_faults b) = Inr ()"
    and vst: "call_vst nc rk tip (ru_state_root ru) b vs = run_ret ()"
    using assms(3,4) by (auto simp: try_vote_def Let_def run_ret_def split: option.splits sum.splits if_splits)
  obtain spent out where pk: "nc_pk_valid nc (h_generator_bls_pubkey ?h)"
    and vt: "verify_transactions rk tip (ru_state_root ru) (h_height ?h) (h_gas_limit ?h)
        (rk_inner rk (h_generator_bls_pubkey ?h)) (txs @ [t]) (slash_from_block nc b) vs = Inr (spent, out)"
    using vst assms(5)
    by (auto simp: call_vst_def run_bind_ret vm_verify_state_transition_def Let_def run_ret_not
        split: if_splits sum.splits node_error.splits)
  then obtain session a where s: "new_block_session rk tip (ru_state_root ru) = Inr session"
    and a: "accept_txs rk (h_height ?h) (txs @ [t]) \<lparr>ac_session = session, ac_gas_left = h_gas_limit ?h, ac_spent = [],
        ac_dusk_spent = 0, ac_bloom = bloom_new\<rparr> = Inr a"
    by (auto simp: verify_transactions_def accept_def)
  obtain w r where "run_tx rk (h_height ?h) t w = Inr (r, ac_session a)"
    using accept_txs_last [OF a] by blast
  then obtain e where "run_tx rk (h_height ?h) t (ac_session a) = Inl (Discarded e)"
    using run_tx_twice [OF _ assms(9-11)] by blast
  then have "accept_txs rk (h_height ?h) ((txs @ [t]) @ [t]) \<lparr>ac_session = session, ac_gas_left = h_gas_limit ?h,
      ac_spent = [], ac_dusk_spent = 0, ac_bloom = bloom_new\<rparr> = Inl (NVm e)"
    using a by (simp only: accept_txs_append [of _ _ "txs @ [t]"]) simp
  then have "call_vst nc rk tip (ru_state_root ru) ?b vs = run_err (VstGeneric (NVm e))"
    using s pk by (simp add: call_vst_def vm_verify_state_transition_def verify_transactions_def accept_def Let_def)
  then show "try_vote vd rk tip ru (Some ?b) g = Some (Inr (Some (Invalid (h_hash ?h))))"
    using chk flt assms(3) by (simp add: try_vote_def Let_def run_ret_def run_err_def vst_must_vote_def)
qed

text \<open>
  Two candidates of one generator are no fault that could be proven.  A candidate is signed by its hash alone,
  while the check of a double candidate takes the signature as one of the consensus header and the hash: if a
  signature verifies for one message only, no fault made of two signed candidates is valid.
\<close>

theorem double_candidate_unprovable:
  assumes "\<forall>mpk sig msg msg'. nc_verify nc mpk sig msg = Inr () \<and> nc_verify nc mpk sig msg' = Inr () \<longrightarrow> msg = msg'"
    and "verify_candidate_msg nc tree b1 g = Inr ()" and "verify_candidate_msg nc tree b2 g = Inr ()"
  shows "\<not> is_ok (fault_validate nc height (DoubleCandidate
     \<lparr>fd_header = to_consensus_header (bl_header b1), fd_sig = candidate_sign_info nc b1, fd_data = h_hash (bl_header b1)\<rparr>
     \<lparr>fd_header = to_consensus_header (bl_header b2), fd_sig = candidate_sign_info nc b2, fd_data = h_hash (bl_header b2)\<rparr>))"
    (is "\<not> is_ok (fault_validate nc height ?f)")
proof
  assume "is_ok (fault_validate nc height ?f)"
  then obtain h where "fault_validate nc height ?f = Inr h" by (auto simp: is_ok_iff)
  then have "verify_signature nc (fst (fault_sigs ?f)) (fst (fault_signed ?f)) = Inr ()"
    by (auto simp: fault_validate_Inr verify_sigs_def)
  then have "verify_signature nc (candidate_sign_info nc b1) (signable (to_consensus_header (bl_header b1)) @ h_hash (bl_header b1))
      = Inr ()"
    by (simp add: fault_sigs_def fault_signed_def get_signed_data_def candidate_SIGN_SEED_def)
  moreover have "verify_signature nc (candidate_sign_info nc b1) (h_hash (bl_header b1)) = Inr ()"
    using assms(2) by (simp add: candidate_msg_ok)
  ultimately have "signable (to_consensus_header (bl_header b1)) @ h_hash (bl_header b1) = h_hash (bl_header b1)"
    using assms(1) unfolding verify_signature_def by auto blast
  then show False by (simp add: signable_def consensus_header_write_def)
qed

end
