(* ===== verification/Proposal_Witness.thy ===== *)
theory Proposal_Witness
  imports Proposal_Safety
begin

text \<open>
  A block with three transactions on a chain with one provisioner, on which the theorems about candidates are
  applied.
\<close>

section \<open>The chain\<close>

lemma rewards1_ok:
  assumes "bm_get (stakes_map w) (w_pk_to_bytes wire0 (BlsPublicKey 9)) = None"
    and "bm_get (stakes_map w) (w_pk_to_bytes wire0 (BlsPublicKey 8)) = None"
  shows "is_ok (reward_slash_and_update_root rk0 5000 24 (BlsPublicKey 9) [] [([2], 128)] w)"
proof -
  have e: "emission_amount 5000 = 19857400000" by (simp add: emission_amount_def)
  show ?thesis
  using assms
  by (simp add: reward_slash_and_update_root_def vm_call_def entry_reward_def entry_update_root_def
      assert_external_caller_def rk0_def reward_def reward_one_def block_rewards_def coinbase_value_def
      calc_generator_extra_reward_def credits_sum_def credits_defs saturating_sub_def get_stake_mut_def
      load_or_create_stake_mut_def stake_keys_single_key_def set_stakes_def add_chk_def Let_def
      stake_data_EMPTY_def wire0_pk_inj e)
qed

definition sign1 :: "unit signer" where
  "sign1 sk pk msg = nc_sig_to_bytes crypto1 (share pk msg)"

lemma sign1_signs: "signs_for crypto1 sign1 sk pk"
  by (simp add: signs_for_def sign1_def crypto1_def)

definition tip1 :: header where
  "tip1 = (let h = header_default\<lparr>h_height := 4999, h_iteration := 1, h_hash := replicate 32 4,
      h_prev_block_hash := replicate 32 9, h_state_hash := [1]\<rparr> in
    h\<lparr>h_att := lone_att (to_consensus_header h) (Valid (replicate 32 4))\<rparr>)"

definition round1 :: "unit round_update" where
  "round1 = round_update_new [9] () tip1 (\<lambda>_. None) [([2], 128)]"

definition validator1 :: "(public_key list, u64) validator" where
  "validator1 = \<lparr>vd_crypto = crypto1, vd_hash = rev, vd_block_exists = (\<lambda>_. Inr False),
     vd_block_header = (\<lambda>_. Inr (Some header_default)), vd_faults_by_block = (\<lambda>_. Inr []), vd_local_time = 100,
     vd_minimum_block_time = 10, vd_prev_header = tip1, vd_provisioners = context_new lone_provisioner\<rparr>"

lemma tip1_attested: "tip_attested validator1 [([2], 128)]"
proof -
  let ?ch = "to_consensus_header tip1"
  have att: "h_att tip1 = lone_att ?ch (Valid (h_hash tip1))"
    by (simp add: tip1_def Let_def to_consensus_header_def)
  obtain val rat where v: "verify_att crypto1 rev (h_att tip1) ?ch signature_EMPTY lone_provisioner
      (Some (Success (Valid (h_hash tip1)))) = run_ret (val, rat, [([2], 128)])"
    unfolding att using lone_att_verifies check_expected_simps(1) by meson
  have "h_height tip1 \<noteq> 0 \<and> \<not> is_emergency_block (h_iteration tip1)"
    by (simp add: tip1_def Let_def is_emergency_block_def EMERGENCY_BLOCK_ITERATION_def)
  with v voters_agree [OF v] show ?thesis
    by (auto simp: tip_attested_def validator1_def prev_provisioners_def context_new_def header_default_def)
qed


section \<open>Three transactions\<close>

definition plain_moonlight :: "u64 \<Rightarrow> moonlight_transaction" where
  "plain_moonlight n = \<lparr>mt_payload = sample_payload\<lparr>mp_receiver := BlsPublicKey 7, mp_value := 0, mp_deposit := 0,
     mp_nonce := n, mp_data := None\<rparr>, mt_signature = BlsSignature 3\<rparr>"

definition plain_tx :: "u64 \<Rightarrow> ledger_tx" where
  "plain_tx n = (ledger_tx_from (Moonlight (plain_moonlight n)))
     \<lparr>lt_size := Some (length (tx_to_var_bytes wire0 phoenix_wire0 (Moonlight (plain_moonlight n))))\<rparr>"

definition rk2 :: "sworld rusk" where
  "rk2 = rk0\<lparr>rk_ext := \<lambda>_. ext0\<rparr>"

lemmas plain_encoding =
  short_def short32_def tx_to_var_bytes_def mt_to_var_bytes_def plain_moonlight_def payload_to_var_bytes_def
  data_to_var_bytes_def len_bytes_def wire0_def sample_payload_def Let_def

lemma plain_tx_inner: "lt_inner (plain_tx n) = Moonlight (plain_moonlight n)"
  by (simp add: plain_tx_def ledger_tx_from_def)

lemma plain_tx_length: "length (tx_to_var_bytes wire0 phoenix_wire0 (Moonlight (plain_moonlight n))) < 200"
  by (simp add: plain_encoding)

lemma plain_tx_ok: "ledger_tx_ok crypto1 (plain_tx n)"
proof -
  have "short (payload_to_var_bytes wire0 (mt_payload (plain_moonlight n)))" by (simp add: plain_encoding)
  then have "tx_from_slice wire0 phoenix_wire0 8 (tx_to_var_bytes wire0 phoenix_wire0 (Moonlight (plain_moonlight n))) =
      Inr (Moonlight (plain_moonlight n))"
    using wire0_laws by (intro moonlight_tx_decodes) (simp_all add: plain_moonlight_def wire0_def data_wf_def)
  moreover have "short32 (tx_to_var_bytes wire0 phoenix_wire0 (Moonlight (plain_moonlight n)))"
    using plain_tx_length [of n] by (simp add: short32_def)
  ultimately show ?thesis
    by (simp add: ledger_tx_ok_def tx_decodes_def tx_data_def plain_tx_def ledger_tx_from_def crypto1_def)
qed

lemma plain_tx_size:
  "unat (ledger_tx_size rk (plain_tx n)) = tx_size crypto1 (plain_tx n)" "unat (ledger_tx_size rk (plain_tx n)) < 200"
  "ledger_tx_size rk (plain_tx n) \<noteq> 0"
proof -
  let ?l = "length (tx_to_var_bytes wire0 phoenix_wire0 (Moonlight (plain_moonlight n)))"
  have l: "0 < ?l" by (simp add: plain_encoding)
  have u: "unat (ledger_tx_size rk (plain_tx n)) = ?l"
    using plain_tx_length [of n] by (simp add: ledger_tx_size_def plain_tx_def unat_of_nat)
  then show "unat (ledger_tx_size rk (plain_tx n)) = tx_size crypto1 (plain_tx n)"
    by (simp add: tx_size_def plain_tx_def)
  show "unat (ledger_tx_size rk (plain_tx n)) < 200" using u plain_tx_length by simp
  show "ledger_tx_size rk (plain_tx n) \<noteq> 0" using u l by (metis less_numeral_extra(3) unat_0)
qed

lemma plain_runs:
  assumes "bm_get (accounts w) [7] = Some \<lparr>acc_nonce = k, acc_balance = bal\<rparr>"
    and "(k, bal) \<in> {(0, 1000), (1, 992), (2, 984)}"
  shows "\<exists>receipt w'. run_tx rk2 5000 (plain_tx (k + 1)) w = Inr (receipt, w') \<and> cr_gas_spent receipt = 4 \<and>
     sw_stake w' = sw_stake w \<and> bm_get (accounts w') [7] = Some \<lparr>acc_nonce = k + 1, acc_balance = bal - 8\<rparr>"
  using assms
  by (elim insertE)
     (simp_all add: host_at_def rk2_def plain_tx_inner plain_moonlight_def block_sample_defs ext0_def)

lemma three_txs_ok:
  assumes "1000 \<le> max_bytes"
  shows "\<exists>spent out. execute_transactions rk2 (\<lambda>_. False) (\<lambda>_. [1]) [1]
     \<lparr>cp_round = 5000, cp_generator = [9], cp_to_slash = [], cp_voters = [([2], 128)], cp_max_txs_bytes = max_bytes,
      cp_prev_state_root = [1]\<rparr> [plain_tx 1, plain_tx 2, plain_tx 3] = Inr (spent, [], out) \<and>
     map sp_inner spent = [plain_tx 1, plain_tx 2, plain_tx 3]"
proof -
  let ?w = "on_new_block staking_world"
  have acc: "bm_get (accounts ?w) [7] = Some \<lparr>acc_nonce = 0, acc_balance = 1000\<rparr>"
    by (simp add: staking_world_def on_new_block_def)
  obtain r1 w1 where r1: "run_tx rk2 5000 (plain_tx 1) ?w = Inr (r1, w1)" "cr_gas_spent r1 = 4" "sw_stake w1 = sw_stake ?w"
    "bm_get (accounts w1) [7] = Some \<lparr>acc_nonce = 1, acc_balance = 992\<rparr>"
    using plain_runs [OF acc] by auto
  obtain r2 w2 where r2: "run_tx rk2 5000 (plain_tx 2) w1 = Inr (r2, w2)" "cr_gas_spent r2 = 4" "sw_stake w2 = sw_stake ?w"
    "bm_get (accounts w2) [7] = Some \<lparr>acc_nonce = 2, acc_balance = 984\<rparr>"
    using plain_runs [OF r1(4)] r1(3) by auto
  obtain r3 w3 where r3: "run_tx rk2 5000 (plain_tx 3) w2 = Inr (r3, w3)" "cr_gas_spent r3 = 4" "sw_stake w3 = sw_stake ?w"
    using plain_runs [OF r2(4)] r2(3) by auto
  have "is_ok (reward_slash_and_update_root rk0 5000 24 (BlsPublicKey 9) [] [([2], 128)] w3)"
    by (rule rewards1_ok) (simp_all add: r3(3) staking_world_def stake_sample_defs on_new_block_def wire0_pk_inj)
  moreover have "reward_slash_and_update_root rk2 5000 24 (BlsPublicKey 9) [] [([2], 128)] w3 =
      reward_slash_and_update_root rk0 5000 24 (BlsPublicKey 9) [] [([2], 128)] w3"
    by (simp add: reward_slash_and_update_root_def rk2_def host_at_def)
  ultimately obtain w4 where w4: "reward_slash_and_update_root rk2 5000 24 (BlsPublicKey 9) [] [([2], 128)] w3 = Inr w4"
    by (auto elim: is_okE)
  have s: "new_block_session rk2 [1] [1] = Inr ?w"
    by (simp add: new_block_session_def open_session_def rk2_def rk0_def entry_before_state_transition_def
        assert_external_caller_def)
  have price: "tx_gas_price (lt_inner (plain_tx n)) = 2" for n
    by (simp add: plain_tx_inner tx_gas_price_def mt_gas_price_def plain_moonlight_def sample_payload_def)
  have rk: "rk_inner rk2 [9] = BlsPublicKey 9" "rk_block_gas_limit rk2 = 100" by (simp_all add: rk2_def rk0_def)
  have fits: "\<not> max_bytes - 4 < ledger_tx_size rk2 (plain_tx 1)"
    "\<not> max_bytes - 4 - ledger_tx_size rk2 (plain_tx 1) < ledger_tx_size rk2 (plain_tx 2)"
    "\<not> max_bytes - 4 - ledger_tx_size rk2 (plain_tx 1) - ledger_tx_size rk2 (plain_tx 2) < ledger_tx_size rk2 (plain_tx 3)"
    using assms plain_tx_size(2) [of rk2 1] plain_tx_size(2) [of rk2 2] plain_tx_size(2) [of rk2 3]
    by (auto simp: word_less_nat_alt word_le_nat_alt unat_sub_if_size word_size)
  show ?thesis
    using s r1(1,2) r2(1,2) r3(1,2) w4
    by (simp add: execute_transactions_def propose_tx_def plain_tx_size(3) fits finish_block_def price rk
        MAX_NUMBER_OF_TRANSACTIONS_def to_spent_def Let_def)
qed

section \<open>The candidate\<close>

abbreviation header1 :: header where
  "header1 \<equiv> initial_header sign1 (rk_block_gas_limit rk2) round1 2 []"

abbreviation est1 :: "call_params \<Rightarrow> node_error + transition_output" where
  "est1 \<equiv> vm_execute_state_transition rk2 (\<lambda>_. False) (\<lambda>_. [1]) [1] [plain_tx 1, plain_tx 2, plain_tx 3]"

lemma round1_fields:
  "ru_secret_key round1 = ()" "ru_pubkey_bls round1 = [9]" "ru_att_voters round1 = [([2], 128)]"
  "ru_state_root round1 = [1]" "ru_round round1 = 5000"
  by (simp_all add: round1_def round_update_new_def tip1_def Let_def)

lemma header1_size: "header_size header1 < 2000"
  by (simp add: header_size_def header_write_def marshal_hashable_def initial_header_def header_default_def
      attestation_write_def attestation_default_def step_votes_write_def step_votes_default_def result_write_def
      result_of_vote_def iterations_info_write_def write_many_def round1_def round_update_new_def tip1_def Let_def
      lone_att_def lone_sv_def step_votes_new_def vote_write_def signature_EMPTY_def crypto1_def sign1_def)

lemma sized1: "sized crypto1 reference_tree sign1 rk2"
  using reference_tree_laws by (simp add: sized_def crypto1_def sign1_def rk2_def rk0_def)

lemma candidate1:
  "\<exists>msg b. generate_candidate_message crypto1 reference_tree sign1 10 0 (rk_block_gas_limit rk2) est1 round1 2 [] = Inr msg \<and>
     ms_payload msg = PCandidate b \<and> bl_txs b = [plain_tx 1, plain_tx 2, plain_tx 3] \<and> on_same_tip validator1 round1 10 0 b \<and>
     h_height (bl_header b) = 5000 \<and> block_size crypto1 b < 3000"
proof -
  have "1000 \<le> cp_max_txs_bytes (generator_params crypto1 header1 round1 [] [])"
    using header1_size
    by (simp add: generator_params_def MAX_BLOCK_SIZE_def word_le_nat_alt unat_sub_if_size word_size unat_of_nat)
  from three_txs_ok [OF this] obtain spent out where
    ex: "execute_transactions rk2 (\<lambda>_. False) (\<lambda>_. [1]) [1] (generator_params crypto1 header1 round1 [] [])
        [plain_tx 1, plain_tx 2, plain_tx 3] = Inr (spent, [], out)"
    and spent: "map sp_inner spent = [plain_tx 1, plain_tx 2, plain_tx 3]"
    by (auto simp: generator_params_def round1_fields from_iterations_and_faults_def)
  obtain msg where msg: "generate_candidate_message crypto1 reference_tree sign1 10 0 (rk_block_gas_limit rk2) est1 round1 2 []
      = Inr msg"
    by (simp add: generate_candidate_message_def generate_block_def vm_execute_state_transition_def ex Let_def
        MAX_NUMBER_OF_FAULTS_def)
  then obtain result b where b: "b = candidate_of crypto1 reference_tree sign1 10 0 (rk_block_gas_limit rk2) round1 2 [] result"
    and est: "est1 (generator_params crypto1 header1 round1 [] []) = Inr result" and p: "ms_payload msg = PCandidate b"
    by (rule generate_candidate_ok) (simp add: message_from_def)
  have "to_txs result = spent" using est ex by (auto simp: vm_execute_state_transition_def)
  then have txs: "bl_txs b = [plain_tx 1, plain_tx 2, plain_tx 3]" using spent by (simp add: candidate_fields(1) [OF b])
  have result: "to_txs result = spent" "to_verification_output result = out"
    using est ex by (auto simp: vm_execute_state_transition_def)
  obtain w where w: "vo_state_root out = rk_root rk2 w" using proposal_contents(3) [OF ex] by blast
  have "length spent = 3" using arg_cong [OF spent, of length] by simp
  then have "block_size crypto1 b = header_size header1 + 8 + (\<Sum>t \<leftarrow> bl_txs b. tx_size crypto1 t) + 12 * length (bl_txs b)"
    using proposal_contents(2) [OF ex] w plain_tx_ok
    by (intro candidate_size [OF b sized1]) (auto simp: result txs bloom_new_def BLOOM_BYTE_LEN_def)
  then have size: "block_size crypto1 b < 3000"
    using header1_size plain_tx_size(1,2) [of rk2 1] plain_tx_size(1,2) [of rk2 2] plain_tx_size(1,2) [of rk2 3]
    by (simp add: txs)
  have "h_hash (bl_header b) = replicate 32 5" by (simp add: b candidate_of_def crypto1_def Let_def)
  then have "on_same_tip validator1 round1 10 0 b"
    by (simp add: on_same_tip_def validator1_def round1_def round_update_new_def tip1_def Let_def header_default_def
        MARGIN_TIMESTAMP_def replicate_eq_replicate)
  with msg p txs size show ?thesis using candidate_fields(4) [OF b] round1_fields by auto
qed

lemma mempool1:
  "\<forall>t \<in> set [plain_tx 1, plain_tx 2, plain_tx 3]. ledger_tx_ok crypto1 t \<and> unat (ledger_tx_size rk2 t) = tx_size crypto1 t"
  by (simp add: plain_tx_ok plain_tx_size(1))

lemma header1_fits: "header_size header1 + 8 \<le> MAX_BLOCK_SIZE"
  using header1_size by (simp add: MAX_BLOCK_SIZE_def)

lemma voting1:
  "signs_for (vd_crypto validator1) sign1 (ru_secret_key round1) (ru_pubkey_bls round1)"
  "tip_attested validator1 (ru_att_voters round1)" "\<not> is_emergency_block 2" "vd_crypto validator1 = crypto1"
  "failed_iterations_loop validator1 header1 0 [] 0 = run_ret 0"
  using sign1_signs tip1_attested round1_fields
  by (simp_all add: validator1_def is_emergency_block_def EMERGENCY_BLOCK_ITERATION_def)

theorem honest_candidate_is_valid_witness:
  "\<exists>b. bl_txs b = [plain_tx 1, plain_tx 2, plain_tx 3] \<and>
     try_vote validator1 rk2 [1] round1 (Some b) [9] = Some (Inr (Some (Valid (h_hash (bl_header b)))))"
proof -
  obtain msg b where msg: "generate_candidate_message (vd_crypto validator1) reference_tree sign1 10 0 (rk_block_gas_limit rk2)
      est1 round1 2 [] = Inr msg" and b: "ms_payload msg = PCandidate b" "bl_txs b = [plain_tx 1, plain_tx 2, plain_tx 3]"
    and tip: "on_same_tip validator1 round1 10 0 b"
    using candidate1 voting1(4) by auto
  from honest_candidate_is_valid [OF msg b(1) voting1(1) tip voting1(2,3) _ voting1(5)] b(2) show ?thesis
    by (auto simp: round1_fields)
qed

theorem candidate_size_overrun_witness:
  "\<exists>b. bl_txs b = [plain_tx 1, plain_tx 2, plain_tx 3] \<and> verify_candidate_msg crypto1 reference_tree b [9] = Inr () \<and>
     (\<exists>accounted. block_size crypto1 b = accounted + 36)"
proof -
  obtain msg b where msg: "generate_candidate_message crypto1 reference_tree sign1 10 0 (rk_block_gas_limit rk2) est1 round1 2 []
      = Inr msg" and b: "ms_payload msg = PCandidate b" "bl_txs b = [plain_tx 1, plain_tx 2, plain_tx 3]"
    and "block_size crypto1 b < 3000"
    using candidate1 by auto
  then have "block_size crypto1 b \<le> MAX_BLOCK_SIZE" by (simp add: MAX_BLOCK_SIZE_def)
  moreover obtain acc where a: "block_size crypto1 b = acc + 12 * length (bl_txs b)"
    and v: "verify_candidate_msg crypto1 reference_tree b (ru_pubkey_bls round1) =
      (if acc + 12 * length (bl_txs b) \<le> MAX_BLOCK_SIZE then Inr ()
       else Inl (InvalidBlockSize (acc + 12 * length (bl_txs b))))"
    using candidate_size_overrun [OF msg b(1) sign1_signs sized1 mempool1 header1_fits] by auto
  ultimately show ?thesis using b(2) by (auto simp: round1_fields)
qed

lemma block_size_repeat:
  "block_size nc (b\<lparr>bl_txs := txs @ [t, t]\<rparr>) =
     block_size nc (b\<lparr>bl_txs := txs @ [t]\<rparr>) + length (ledger_tx_write nc t)"
  by (simp add: block_size_def block_write_def write_many_def)

theorem repeated_transaction_invalidates_witness:
  "\<exists>b. bl_txs b = [plain_tx 1, plain_tx 2, plain_tx 3] \<and>
     try_vote validator1 rk2 [1] round1 (Some b) [9] = Some (Inr (Some (Valid (h_hash (bl_header b))))) \<and>
     (let b' = b\<lparr>bl_txs := [plain_tx 1, plain_tx 2, plain_tx 3, plain_tx 3]\<rparr> in
      verify_candidate_msg crypto1 reference_tree b' [9] = Inr () \<and>
      try_vote validator1 rk2 [1] round1 (Some b') [9] = Some (Inr (Some (Invalid (h_hash (bl_header b))))))"
proof -
  let ?txs = "[plain_tx 1, plain_tx 2]" and ?t = "plain_tx 3"
  obtain msg b where msg: "generate_candidate_message crypto1 reference_tree sign1 10 0 (rk_block_gas_limit rk2) est1 round1 2 []
      = Inr msg" and b: "ms_payload msg = PCandidate b" "bl_txs b = [plain_tx 1, plain_tx 2, plain_tx 3]"
    and tip: "on_same_tip validator1 round1 10 0 b" and h: "h_height (bl_header b) = 5000"
    and size: "block_size crypto1 b < 3000"
    using candidate1 by auto
  have "try_vote validator1 rk2 (ru_state_root round1) round1 (Some b) (ru_pubkey_bls round1) =
      Some (Inr (Some (Valid (h_hash (bl_header b)))))"
    using msg by (intro honest_candidate_vote [OF _ b(1) voting1(1) tip voting1(2,3) _ voting1(5)]) (simp_all add: voting1(4))
  then have vote: "try_vote validator1 rk2 [1] round1 (Some b) [9] = Some (Inr (Some (Valid (h_hash (bl_header b)))))"
    by (simp add: round1_fields)
  have ok: "verify_candidate_msg crypto1 reference_tree b [9] = Inr ()"
    using candidate_msg_size [OF msg b(1) sign1_signs sized1 mempool1 header1_fits] size
    by (auto simp: round1_fields MAX_BLOCK_SIZE_def)
  have txs: "bl_txs b = ?txs @ [?t]" using b(2) by simp
  have "b\<lparr>bl_txs := ?txs @ [?t]\<rparr> = b" using b(2) by (cases b) simp
  then have size': "block_size crypto1 (b\<lparr>bl_txs := ?txs @ [?t, ?t]\<rparr>) \<le> MAX_BLOCK_SIZE"
    using size plain_tx_size(1,2) [of rk2 3] plain_tx_ok [of 3] block_size_repeat [where nc = crypto1 and b = b and txs = ?txs and t = ?t]
    by (simp add: MAX_BLOCK_SIZE_def ledger_tx_ok_def ledger_tx_length tx_size_def)
  have "verify_candidate_msg crypto1 reference_tree (b\<lparr>bl_txs := ?txs @ [?t, ?t]\<rparr>) [9] = Inr () \<and>
      try_vote validator1 rk2 [1] round1 (Some (b\<lparr>bl_txs := ?txs @ [?t, ?t]\<rparr>)) [9] =
        Some (Inr (Some (Invalid (h_hash (bl_header b)))))"
  proof (rule repeated_transaction_invalidates [OF reference_tree_laws ok _ vote txs _ _ _ plain_tx_inner _ _ size'])
    show "mt_deploy (plain_moonlight 3) = None" by (simp add: mt_deploy_def data_deploy_def plain_moonlight_def)
    show "call_grows (rk_ext rk2 (host_at rk2 (h_height (bl_header b))))" using ext0_grows by (simp add: rk2_def)
  qed (simp_all add: voting1(4) MAX_NUMBER_OF_TRANSACTIONS_def)
  with vote b(2) show ?thesis by (auto simp: Let_def)
qed

section \<open>Signed blocks\<close>

definition signed_block :: "('mpk, 'msig) node_crypto \<Rightarrow> bytes \<Rightarrow> hash \<Rightarrow> ledger_tx list \<Rightarrow> block" where
  "signed_block nc sig hash txs = \<lparr>bl_header = header_default\<lparr>h_generator_bls_pubkey := [9], h_signature := sig,
     h_txroot := merkle_root reference_tree (nc_sha3 nc) (map (ledger_tx_digest nc) txs), h_hash := hash\<rparr>,
     bl_txs = txs, bl_faults = []\<rparr>"

lemma signed_block_ok:
  assumes "nc_pk_valid nc [9]" and "verify_signature nc \<lparr>si_signer = [9], si_signature = sig\<rparr> hash = Inr ()"
    and "length txs \<le> 1" and "\<forall>t \<in> set txs. length (ledger_tx_write nc t) \<le> 300" and "length sig \<le> 48" and "length hash = 32"
    and "\<forall>m. length (nc_sha3 nc m) = 32"
  shows "verify_candidate_msg nc reference_tree (signed_block nc sig hash txs) [9] = Inr ()"
proof -
  have "length (merkle_root reference_tree (nc_sha3 nc) (map (ledger_tx_digest nc) txs)) = 32"
    using reference_tree_laws assms(3,7) by (intro length_merkle_root) simp_all
  then have "header_size (bl_header (signed_block nc sig hash txs)) < 2000"
    using assms(5,6)
    by (simp add: signed_block_def header_size_def header_write_def marshal_hashable_def
        header_default_def attestation_write_def attestation_default_def step_votes_write_def step_votes_default_def
        result_write_def vote_write_def signature_EMPTY_def iterations_info_write_def write_many_def)
  moreover have "(\<Sum>t \<leftarrow> txs. length (ledger_tx_write nc t)) \<le> 300"
    using assms(3,4) by (cases txs) auto
  ultimately have "block_size nc (signed_block nc sig hash txs) \<le> MAX_BLOCK_SIZE"
    by (simp add: block_size_def block_write_def header_size_def concat_length MAX_BLOCK_SIZE_def signed_block_def)
  then show ?thesis using assms(1-3)
    by (simp add: candidate_msg_ok signed_block_def candidate_sign_info_def MAX_NUMBER_OF_TRANSACTIONS_def
        MAX_NUMBER_OF_FAULTS_def merkle_root_def [of _ _ "[]"] EMPTY_NODE_def header_default_def)
qed


definition crypto2 :: "(public_key list, bytes) node_crypto" where
  "crypto2 = \<lparr>nc_pk_valid = (\<lambda>_. True), nc_sha3 = (\<lambda>_. replicate 32 5), nc_sig_from_bytes = Inr, nc_sig_to_bytes = id,
     nc_sig_aggregate = (@), nc_pk_aggregate = Inr,
     nc_verify = (\<lambda>pks sig msg. if sig = msg then Inr () else Inl (BlsError 0)),
     nc_wire = wire0, nc_phoenix = phoenix_wire0, nc_sig_size = 8\<rparr>"

theorem double_candidate_unprovable_witness:
  "let b1 = signed_block crypto2 (replicate 32 4) (replicate 32 4) [];
       b2 = signed_block crypto2 (replicate 32 6) (replicate 32 6) [] in
   verify_candidate_msg crypto2 reference_tree b1 [9] = Inr () \<and> verify_candidate_msg crypto2 reference_tree b2 [9] = Inr () \<and>
   \<not> is_ok (fault_validate crypto2 5 (DoubleCandidate
     \<lparr>fd_header = to_consensus_header (bl_header b1), fd_sig = candidate_sign_info crypto2 b1, fd_data = h_hash (bl_header b1)\<rparr>
     \<lparr>fd_header = to_consensus_header (bl_header b2), fd_sig = candidate_sign_info crypto2 b2, fd_data = h_hash (bl_header b2)\<rparr>))"
proof -
  have ok: "verify_candidate_msg crypto2 reference_tree (signed_block crypto2 (replicate 32 n) (replicate 32 n) []) [9] = Inr ()" for n
    by (rule signed_block_ok) (simp_all add: crypto2_def verify_signature_def)
  have "\<forall>mpk sig msg msg'. nc_verify crypto2 mpk sig msg = Inr () \<and> nc_verify crypto2 mpk sig msg' = Inr () \<longrightarrow> msg = msg'"
    by (simp add: crypto2_def split: if_splits)
  from ok double_candidate_unprovable [OF this ok ok] show ?thesis by (simp add: Let_def)
qed

end
