(* ===== verification/Consensus_Rounds.thy ===== *)
theory Consensus_Rounds
  imports Block_Proposal
begin

text \<open>
  The state of a round, \<^verbatim>\<open>consensus/src/iteration_ctx.rs\<close>: the committees that were generated so far, by step
  number, and the time-outs of the steps, which grow with every time-out.  The tasks of an iteration and the
  handlers the context shares with the steps are not part of it.
\<close>

section \<open>Committees of a round\<close>

type_synonym round_committees = "u8 \<Rightarrow> committee option"

definition rc_get_committee :: "u8 \<Rightarrow> round_committees \<Rightarrow> committee option" where
  "rc_get_committee step rc = rc step"

definition rc_get_generator :: "u8 \<Rightarrow> round_committees \<Rightarrow> public_key option" where
  "rc_get_generator iter rc =
     Option.bind (rc_get_committee (to_step Proposal iter) rc) (\<lambda>c.
       case bm_keys (cm_members c) of [] \<Rightarrow> None | pk # _ \<Rightarrow> Some pk)"

definition rc_get_validation_committee :: "u8 \<Rightarrow> round_committees \<Rightarrow> committee option" where
  "rc_get_validation_committee iter rc = rc_get_committee (to_step Validation iter) rc"

definition rc_insert :: "u8 \<Rightarrow> committee \<Rightarrow> round_committees \<Rightarrow> round_committees" where
  "rc_insert step c rc = rc(step \<mapsto> c)"

section \<open>The iteration context\<close>

record iteration_ctx =
  it_round :: u64
  it_iter :: u8
  it_committees :: round_committees
  it_timeouts :: timeout_set

definition iteration_ctx_new :: "u64 \<Rightarrow> u8 \<Rightarrow> timeout_set \<Rightarrow> iteration_ctx" where
  "iteration_ctx_new rnd iter timeouts =
     \<lparr>it_round = rnd, it_iter = iter, it_committees = (\<lambda>_. None), it_timeouts = timeouts\<rparr>"

definition on_begin :: "u8 \<Rightarrow> iteration_ctx \<Rightarrow> iteration_ctx" where
  "on_begin iter ctx = ctx\<lparr>it_iter := iter\<rparr>"

definition MAX_STEP_TIMEOUT :: nat where
  "MAX_STEP_TIMEOUT = 40 * 10 ^ 9"

definition TIMEOUT_INCREASE :: nat where
  "TIMEOUT_INCREASE = 2 * 10 ^ 9"

definition on_timeout_event :: "step_name \<Rightarrow> iteration_ctx \<Rightarrow> iteration_ctx res" where
  "on_timeout_event step ctx =
     (case it_timeouts ctx step of
        None \<Rightarrow> Inl (Panic ''valid timeout'')
      | Some curr_step_timeout \<Rightarrow>
          Inr (ctx\<lparr>it_timeouts := (it_timeouts ctx)
                 (step \<mapsto> min MAX_STEP_TIMEOUT (curr_step_timeout + TIMEOUT_INCREASE))\<rparr>))"

definition get_timeout :: "step_name \<Rightarrow> iteration_ctx \<Rightarrow> nat res" where
  "get_timeout step ctx =
     (case it_timeouts ctx step of None \<Rightarrow> Inl (Panic ''valid timeout per step'') | Some t \<Rightarrow> Inr t)"

definition get_sortition_config ::
    "seed \<Rightarrow> step_name \<Rightarrow> public_key list \<Rightarrow> iteration_ctx \<Rightarrow> sortition_config" where
  "get_sortition_config seed step exclusion ctx =
     sortition_config_new seed (it_round ctx) (it_iter ctx) step exclusion"

definition it_get_generator :: "u8 \<Rightarrow> iteration_ctx \<Rightarrow> public_key option" where
  "it_get_generator iter ctx =
     Option.bind (rc_get_committee (to_step Proposal iter) (it_committees ctx)) (\<lambda>c.
       case bm_keys (cm_members c) of [] \<Rightarrow> None | pk # _ \<Rightarrow> Some pk)"

text \<open>The sequencing of computations that may panic or not return.\<close>

definition co_bind :: "'a res option \<Rightarrow> ('a \<Rightarrow> 'b res option) \<Rightarrow> 'b res option" where
  "co_bind m f = (case m of None \<Rightarrow> None | Some (Inl e) \<Rightarrow> Some (Inl e) | Some (Inr x) \<Rightarrow> f x)"

definition insert_committee ::
    "(bytes \<Rightarrow> bytes) \<Rightarrow> sortition_config \<Rightarrow> u8 \<Rightarrow> provisioners \<Rightarrow> iteration_ctx \<Rightarrow> iteration_ctx res option" where
  "insert_committee hash cfg step p ctx =
     co_bind (committee_new hash (cfg\<lparr>so_step := step\<rparr>) p) (\<lambda>c.
       Some (Inr (ctx\<lparr>it_committees := rc_insert step c (it_committees ctx)\<rparr>)))"

text \<open>The proposal committee of the next iteration, which the committees of this one exclude.\<close>

definition generate_next_proposal ::
    "(bytes \<Rightarrow> bytes) \<Rightarrow> u8 \<Rightarrow> step_name \<Rightarrow> provisioners \<Rightarrow> seed \<Rightarrow> iteration_ctx \<Rightarrow> iteration_ctx res option" where
  "generate_next_proposal hash iteration step_name p seed ctx =
     (let next_prop_step = to_step Proposal (iteration + 1) in
      if step_name \<noteq> Proposal \<and> exclude_next_generator iteration \<and>
         rc_get_committee next_prop_step (it_committees ctx) = None
      then insert_committee hash (get_sortition_config seed Proposal [] ctx) next_prop_step p ctx
      else Some (Inr ctx))"

definition iteration_exclusion :: "u8 \<Rightarrow> step_name \<Rightarrow> iteration_ctx \<Rightarrow> public_key list res" where
  "iteration_exclusion iteration step_name ctx =
     (if step_name = Proposal then Inr []
      else case it_get_generator iteration ctx of
        None \<Rightarrow> Inl (Panic ''Proposal committee to be already generated'')
      | Some cur_generator \<Rightarrow>
          if exclude_next_generator iteration then
            (case it_get_generator (iteration + 1) ctx of
               None \<Rightarrow> Inl (Panic ''Next Proposal committee to be already generated'')
             | Some next_generator \<Rightarrow> Inr [cur_generator, next_generator])
          else Inr [cur_generator])"

definition generate_committee ::
    "(bytes \<Rightarrow> bytes) \<Rightarrow> u8 \<Rightarrow> step_name \<Rightarrow> provisioners \<Rightarrow> seed \<Rightarrow> iteration_ctx \<Rightarrow> iteration_ctx res option" where
  "generate_committee hash iteration step_name p seed ctx =
     (let step = to_step step_name iteration in
      if rc_get_committee step (it_committees ctx) \<noteq> None then Some (Inr ctx)
      else
        co_bind (generate_next_proposal hash iteration step_name p seed ctx) (\<lambda>ctx.
        co_bind (Some (iteration_exclusion iteration step_name ctx)) (\<lambda>exclusion.
          insert_committee hash (get_sortition_config seed step_name exclusion ctx) step p ctx)))"

definition generate_iteration_committees ::
    "(bytes \<Rightarrow> bytes) \<Rightarrow> u8 \<Rightarrow> provisioners \<Rightarrow> seed \<Rightarrow> iteration_ctx \<Rightarrow> iteration_ctx res option" where
  "generate_iteration_committees hash iteration p seed ctx =
     co_bind (generate_committee hash iteration Proposal p seed ctx) (\<lambda>ctx.
     co_bind (generate_committee hash iteration Validation p seed ctx) (\<lambda>ctx.
       generate_committee hash iteration Ratification p seed ctx))"

text \<open>
  A round starts at the iteration after the saved one when the node was restarted; the committees up to the
  saved iteration are generated again.
\<close>

fun restore_committees ::
    "(bytes \<Rightarrow> bytes) \<Rightarrow> nat \<Rightarrow> u8 \<Rightarrow> provisioners \<Rightarrow> seed \<Rightarrow> iteration_ctx \<Rightarrow> iteration_ctx res option" where
  "restore_committees hash 0 iter p seed ctx = Some (Inr ctx)"
| "restore_committees hash (Suc n) iter p seed ctx =
     co_bind (generate_iteration_committees hash iter p seed ctx) (\<lambda>ctx.
       restore_committees hash n (iter + 1) p seed ctx)"

text \<open>The context and the iteration the loop of a round begins with.\<close>

definition round_start ::
    "(bytes \<Rightarrow> bytes) \<Rightarrow> 'sk round_update \<Rightarrow> provisioners \<Rightarrow> hash \<times> u8 \<Rightarrow> (iteration_ctx \<times> u8) res option" where
  "round_start hash ru p last_iter =
     (let ctx = iteration_ctx_new (ru_round ru) 0 (ru_base_timeouts ru);
          saved_iter = min EMERGENCY_MODE_ITERATION_THRESHOLD (snd last_iter) in
      if ru_hash ru = fst last_iter
      then co_bind (restore_committees hash (unat saved_iter + 1) 0 p (ru_seed ru) ctx) (\<lambda>ctx.
             Some (Inr (ctx, saved_iter + 1)))
      else Some (Inr (ctx, 0)))"

text \<open>The end of an iteration: the last one is repeated.\<close>

definition next_iteration :: "u8 \<Rightarrow> u8" where
  "next_iteration iter = (if iter \<ge> CONSENSUS_MAX_ITER - 1 then iter else iter + 1)"

end
