(* ===== verification/Rounds_Safety.thy ===== *)
theory Rounds_Safety
  imports Consensus_Rounds
begin

text \<open>
  The committees a node keeps for a round are those the verifiers compute: the invariant of the iteration
  context, that generating committees keeps it and returns, and what becomes of it for iterations beyond the
  last one, whose step numbers wrap around.
\<close>

section \<open>Sequencing\<close>

lemma co_bind_simps [simp]:
  "co_bind (Some (Inr x)) f = f x"
  "co_bind (Some (Inl e)) f = Some (Inl e)"
  "co_bind None f = None"
  by (simp_all add: co_bind_def)

lemma co_bind_ret: "co_bind m f = Some (Inr y) \<longleftrightarrow> (\<exists>x. m = Some (Inr x) \<and> f x = Some (Inr y))"
  by (auto simp: co_bind_def split: option.splits sum.splits)

section \<open>The reference committee of a step\<close>

definition committee_at ::
    "(bytes \<Rightarrow> bytes) \<Rightarrow> provisioners \<Rightarrow> seed \<Rightarrow> consensus_header \<Rightarrow> step_name \<Rightarrow> u8 \<Rightarrow> committee res option" where
  "committee_at hash p seed h s i =
     (if s = Proposal then committee_new hash (sortition_config_new seed (ch_round h) i Proposal []) p
      else get_step_committee hash (h\<lparr>ch_iteration := i\<rparr>) p seed s)"

definition cache_ok ::
    "(bytes \<Rightarrow> bytes) \<Rightarrow> provisioners \<Rightarrow> seed \<Rightarrow> consensus_header \<Rightarrow> iteration_ctx \<Rightarrow> bool" where
  "cache_ok hash p seed h ctx \<longleftrightarrow> it_round ctx = ch_round h \<and>
     (\<forall>s i c. i < CONSENSUS_MAX_ITER \<longrightarrow> it_committees ctx (to_step s i) = Some c \<longrightarrow>
        committee_at hash p seed h s i = Some (Inr c))"

lemma cache_okD:
  assumes "cache_ok hash p seed h ctx"
  shows "it_round ctx = ch_round h"
    and "it_committees ctx (to_step s i) = Some c \<Longrightarrow> i < CONSENSUS_MAX_ITER \<Longrightarrow>
           committee_at hash p seed h s i = Some (Inr c)"
  using assms by (auto simp: cache_ok_def)

lemma cache_ok_new: "cache_ok hash p seed h (iteration_ctx_new (ch_round h) iter timeouts)"
  by (simp add: cache_ok_def iteration_ctx_new_def)

lemma cache_ok_on_begin [simp]: "cache_ok hash p seed h (on_begin iter ctx) = cache_ok hash p seed h ctx"
  by (simp add: cache_ok_def on_begin_def)

lemma cache_ok_timeout:
  "on_timeout_event step ctx = Inr ctx' \<Longrightarrow> cache_ok hash p seed h ctx' = cache_ok hash p seed h ctx"
  by (auto simp: cache_ok_def on_timeout_event_def split: option.splits)

lemma sortition_config_step:
  "(sortition_config_new seed rnd i s ex)\<lparr>so_step := to_step s j\<rparr> = sortition_config_new seed rnd j s ex"
  by (simp add: sortition_config_new_def)

lemma cache_ok_insert:
  assumes "cache_ok hash p seed h ctx" and "committee_at hash p seed h s i = Some (Inr c)"
    and "i < CONSENSUS_MAX_ITER"
  shows "cache_ok hash p seed h (ctx\<lparr>it_committees := rc_insert (to_step s i) c (it_committees ctx)\<rparr>)"
  using assms to_step_inject [of _ _ s i] by (fastforce simp: cache_ok_def rc_insert_def split: if_splits)

lemma insert_committee_ok:
  assumes "insert_committee hash (get_sortition_config seed s ex ctx) (to_step s i) p ctx = Some (Inr ctx')"
  obtains c where "committee_new hash (sortition_config_new seed (it_round ctx) i s ex) p = Some (Inr c)"
    and "ctx' = ctx\<lparr>it_committees := rc_insert (to_step s i) c (it_committees ctx)\<rparr>"
  using assms by (auto simp: insert_committee_def co_bind_ret get_sortition_config_def sortition_config_step)

lemma cached_generator:
  assumes "cache_ok hash p seed h ctx" and "it_get_generator i ctx = Some g" and "i < CONSENSUS_MAX_ITER"
  shows "get_generator hash i seed (ch_round h) p = Some (Inr g)"
proof -
  obtain c where c: "it_committees ctx (to_step Proposal i) = Some c"
    and g: "(case bm_keys (cm_members c) of [] \<Rightarrow> None | pk # _ \<Rightarrow> Some pk) = Some g"
    using assms(2) by (auto simp: it_get_generator_def rc_get_committee_def bind_eq_Some_conv)
  have "committee_new hash (sortition_config_new seed (ch_round h) i Proposal []) p = Some (Inr c)"
    using cache_okD(2) [OF assms(1) c assms(3)] by (simp add: committee_at_def)
  with g show ?thesis by (auto simp: get_generator_def split: list.splits)
qed

lemma next_iteration_below:
  assumes "exclude_next_generator i"
  shows "i < CONSENSUS_MAX_ITER" and "i + 1 < CONSENSUS_MAX_ITER"
proof -
  have "unat i < 49" using assms by (simp add: exclude_next_generator_def CONSENSUS_MAX_ITER_def word_less_nat_alt)
  moreover from this have "unat (i + 1) = unat i + 1" by (simp add: unat_word_ariths)
  ultimately show "i < CONSENSUS_MAX_ITER" "i + 1 < CONSENSUS_MAX_ITER"
    by (simp_all add: CONSENSUS_MAX_ITER_def word_less_nat_alt)
qed

lemma generate_next_ok:
  assumes "cache_ok hash p seed h ctx" and "generate_next_proposal hash i s p seed ctx = Some (Inr ctx')"
  shows "cache_ok hash p seed h ctx'"
proof (cases "ctx' = ctx")
  case False
  then have n: "exclude_next_generator i"
    and ins: "insert_committee hash (get_sortition_config seed Proposal [] ctx) (to_step Proposal (i + 1)) p ctx =
       Some (Inr ctx')"
    using assms(2) by (auto simp: generate_next_proposal_def Let_def split: if_splits)
  show ?thesis
    using ins
  proof (rule insert_committee_ok)
    fix c
    assume c: "committee_new hash (sortition_config_new seed (it_round ctx) (i + 1) Proposal []) p = Some (Inr c)"
      and ctx': "ctx' = ctx\<lparr>it_committees := rc_insert (to_step Proposal (i + 1)) c (it_committees ctx)\<rparr>"
    have "committee_at hash p seed h Proposal (i + 1) = Some (Inr c)"
      using c cache_okD(1) [OF assms(1)] by (simp add: committee_at_def)
    then show ?thesis
      unfolding ctx' by (rule cache_ok_insert [OF assms(1) _ next_iteration_below(2) [OF n]])
  qed
qed (use assms in simp)

lemma exclusion_agrees:
  assumes "cache_ok hash p seed h ctx" and "iteration_exclusion i s ctx = Inr ex" and "s \<noteq> Proposal"
    and "i < CONSENSUS_MAX_ITER"
  shows "step_exclusion hash (h\<lparr>ch_iteration := i\<rparr>) seed p = Some (Inr ex)"
  using assms cached_generator [OF assms(1)] next_iteration_below [of i]
  by (auto simp: iteration_exclusion_def step_exclusion_def split: option.splits if_splits)

lemma committee_at_exclusion:
  assumes "cache_ok hash p seed h ctx" and "iteration_exclusion i s ctx = Inr ex" and "i < CONSENSUS_MAX_ITER"
  shows "committee_at hash p seed h s i = committee_new hash (sortition_config_new seed (ch_round h) i s ex) p"
proof (cases "s = Proposal")
  case True
  then show ?thesis using assms(2) by (simp add: committee_at_def iteration_exclusion_def)
next
  case False
  then show ?thesis
    using exclusion_agrees [OF assms(1,2) False assms(3)]
    by (cases s) (simp_all add: committee_at_def get_step_committee_def)
qed

section \<open>Generating committees keeps the invariant\<close>

lemma generate_committee_ok:
  assumes ok: "cache_ok hash p seed h ctx" and gen: "generate_committee hash i s p seed ctx = Some (Inr ctx')"
    and i: "i < CONSENSUS_MAX_ITER"
  shows "cache_ok hash p seed h ctx' \<and> it_committees ctx' (to_step s i) \<noteq> None"
proof (cases "it_committees ctx (to_step s i)")
  case (Some c)
  then show ?thesis using ok gen by (simp add: generate_committee_def rc_get_committee_def)
next
  case None
  obtain ctx1 ex where n: "generate_next_proposal hash i s p seed ctx = Some (Inr ctx1)"
    and ex: "iteration_exclusion i s ctx1 = Inr ex"
    and ins: "insert_committee hash (get_sortition_config seed s ex ctx1) (to_step s i) p ctx1 = Some (Inr ctx')"
    using gen None by (auto simp: generate_committee_def rc_get_committee_def Let_def co_bind_ret)
  have ok1: "cache_ok hash p seed h ctx1" by (rule generate_next_ok [OF ok n])
  show ?thesis
    using ins
  proof (rule insert_committee_ok)
    fix c
    assume c: "committee_new hash (sortition_config_new seed (it_round ctx1) i s ex) p = Some (Inr c)"
      and ctx': "ctx' = ctx1\<lparr>it_committees := rc_insert (to_step s i) c (it_committees ctx1)\<rparr>"
    have "committee_at hash p seed h s i = Some (Inr c)"
      using c committee_at_exclusion [OF ok1 ex i] cache_okD(1) [OF ok1] by simp
    then have "cache_ok hash p seed h ctx'" unfolding ctx' by (rule cache_ok_insert [OF ok1 _ i])
    then show ?thesis by (simp add: ctx' rc_insert_def)
  qed
qed

text \<open>A committee that was generated is never replaced.\<close>

lemma generate_committee_keeps:
  assumes "generate_committee hash i s p seed ctx = Some (Inr ctx')" and "it_committees ctx st = Some c"
  shows "it_committees ctx' st = Some c"
  using assms
  by (auto simp: generate_committee_def generate_next_proposal_def insert_committee_def rc_insert_def
      rc_get_committee_def Let_def co_bind_ret split: if_splits)

lemma generate_committees_keeps:
  assumes "generate_iteration_committees hash i p seed ctx = Some (Inr ctx')" and "it_committees ctx st = Some c"
  shows "it_committees ctx' st = Some c"
  using assms by (auto simp: generate_iteration_committees_def co_bind_ret dest!: generate_committee_keeps)

lemma generate_committees_ok:
  assumes "cache_ok hash p seed h ctx" and "i < CONSENSUS_MAX_ITER"
    and "generate_iteration_committees hash i p seed ctx = Some (Inr ctx')"
  shows "cache_ok hash p seed h ctx' \<and> (\<forall>s. it_committees ctx' (to_step s i) \<noteq> None)"
proof -
  obtain ctx1 ctx2 where g: "generate_committee hash i Proposal p seed ctx = Some (Inr ctx1)"
    "generate_committee hash i Validation p seed ctx1 = Some (Inr ctx2)"
    "generate_committee hash i Ratification p seed ctx2 = Some (Inr ctx')"
    using assms(3) by (auto simp: generate_iteration_committees_def co_bind_ret)
  note o1 = generate_committee_ok [OF assms(1) g(1) assms(2)]
  note o2 = generate_committee_ok [OF conjunct1 [OF o1] g(2) assms(2)]
  note o3 = generate_committee_ok [OF conjunct1 [OF o2] g(3) assms(2)]
  have "it_committees ctx' (to_step s i) \<noteq> None" for s
    using o1 o2 o3 generate_committee_keeps [OF g(2)] generate_committee_keeps [OF g(3)] by (cases s) auto
  with o3 show ?thesis by blast
qed

section \<open>Generating committees returns\<close>

definition sortable :: "provisioners \<Rightarrow> u64 \<Rightarrow> bool" where
  "sortable p rnd \<longleftrightarrow> eligibles rnd p \<noteq> [] \<and> bm_sum (unat \<circ> cs_value) p < 2 ^ 64"

lemma committee_new_returns:
  assumes "sortable p rnd"
  obtains c pk pks where "committee_new hash (sortition_config_new seed rnd i s ex) p = Some (Inr c)"
    and "bm_keys (cm_members c) = pk # pks" and "cm_excluded c = ex"
    and "\<And>pk. is_member pk c \<Longrightarrow> pk \<in> fst ` set (generator_from_provisioners rnd ex p)"
proof -
  let ?cfg = "sortition_config_new seed rnd i s ex"
  have cfg: "so_round ?cfg = rnd" "so_exclusion ?cfg = ex"
    "0 < so_committee_credits ?cfg" "so_committee_credits ?cfg < 1000"
    by (cases s; simp add: sortition_config_new_def committee_credits_def credits_defs)+
  obtain extracted where e: "create_committee hash ?cfg p = Some (Inr extracted)"
    "length extracted = so_committee_credits ?cfg"
    "set extracted \<subseteq> fst ` set (generator_from_provisioners (so_round ?cfg) (so_exclusion ?cfg) p)"
    by (rule create_committee_fills [of ?cfg p hash]) (use assms cfg in \<open>auto simp: sortable_def\<close>)
  let ?c = "committee_of_extracted ?cfg extracted"
  obtain pk where "pk \<in> set extracted" using e(2) cfg(3) by (cases extracted) auto
  then have "bm_keys (cm_members ?c) \<noteq> []"
    using committee_votes(3) [OF refl, of pk ?cfg extracted]
    by (auto simp: is_member_def bm_keys_def bm_get_def)
  then obtain k ks where "bm_keys (cm_members ?c) = k # ks" by (cases "bm_keys (cm_members ?c)") auto
  moreover have "pk \<in> fst ` set (generator_from_provisioners rnd ex p)" if "is_member pk ?c" for pk
    using that e(3) cfg committee_votes(3) [OF refl, of pk ?cfg extracted] by auto
  ultimately show thesis
    using e(1) that [of ?c k ks] cfg by (simp add: committee_new_def committee_of_extracted_def)
qed

text \<open>In a filled cache, every committee has a first member.\<close>

definition cache_full :: "iteration_ctx \<Rightarrow> bool" where
  "cache_full ctx \<longleftrightarrow> (\<forall>st c. it_committees ctx st = Some c \<longrightarrow> bm_keys (cm_members c) \<noteq> [])"

lemma cache_full_new: "cache_full (iteration_ctx_new rnd iter timeouts)"
  by (simp add: cache_full_def iteration_ctx_new_def)

lemma insert_committee_returns:
  assumes "sortable p (it_round ctx)" and "cache_full ctx"
  obtains ctx' c where
      "insert_committee hash (get_sortition_config seed s ex ctx) (to_step s i) p ctx = Some (Inr ctx')"
    and "cache_full ctx'" and "it_round ctx' = it_round ctx" and "it_committees ctx' = (it_committees ctx)(to_step s i \<mapsto> c)"
    and "committee_new hash (sortition_config_new seed (it_round ctx) i s ex) p = Some (Inr c)"
    and "cm_excluded c = ex"
proof (rule committee_new_returns [OF assms(1), of hash seed i s ex])
  fix c pk pks
  assume c: "committee_new hash (sortition_config_new seed (it_round ctx) i s ex) p = Some (Inr c)"
    "bm_keys (cm_members c) = pk # pks" "cm_excluded c = ex"
  let ?ctx' = "ctx\<lparr>it_committees := rc_insert (to_step s i) c (it_committees ctx)\<rparr>"
  show thesis
    by (rule that [of ?ctx' c])
       (use c assms(2) in \<open>auto simp: insert_committee_def get_sortition_config_def sortition_config_step
          cache_full_def rc_insert_def\<close>)
qed

lemma cached_generator_exists:
  assumes "cache_full ctx" and "it_committees ctx (to_step Proposal i) = Some c"
  obtains g gs where "bm_keys (cm_members c) = g # gs" and "it_get_generator i ctx = Some g"
  using assms by (cases "bm_keys (cm_members c)")
     (auto simp: cache_full_def it_get_generator_def rc_get_committee_def)

lemma generate_next_returns:
  assumes sort: "sortable p (it_round ctx)" and full: "cache_full ctx"
  obtains ctx' where "generate_next_proposal hash i s p seed ctx = Some (Inr ctx')" and "cache_full ctx'"
    and "it_round ctx' = it_round ctx"
    and "\<And>st. it_committees ctx st \<noteq> None \<Longrightarrow> it_committees ctx' st \<noteq> None"
    and "s \<noteq> Proposal \<Longrightarrow> exclude_next_generator i \<Longrightarrow> it_committees ctx' (to_step Proposal (i + 1)) \<noteq> None"
proof (cases "s \<noteq> Proposal \<and> exclude_next_generator i \<and> it_committees ctx (to_step Proposal (i + 1)) = None")
  case True
  show thesis
  proof (rule insert_committee_returns [OF sort full, of hash seed Proposal "[]" "i + 1"])
    fix ctx' c
    assume "insert_committee hash (get_sortition_config seed Proposal [] ctx) (to_step Proposal (i + 1)) p ctx =
        Some (Inr ctx')" and "cache_full ctx'" and "it_round ctx' = it_round ctx"
      and "it_committees ctx' = (it_committees ctx)(to_step Proposal (i + 1) \<mapsto> c)"
    with True show thesis
      by (intro that [of ctx']) (auto simp: generate_next_proposal_def rc_get_committee_def Let_def)
  qed
next
  case False
  with full show thesis
    by (intro that [of ctx]) (auto simp: generate_next_proposal_def rc_get_committee_def Let_def)
qed

lemma generate_committee_returns:
  assumes sort: "sortable p (it_round ctx)" and full: "cache_full ctx"
    and prp: "s \<noteq> Proposal \<Longrightarrow> it_committees ctx (to_step Proposal i) \<noteq> None"
  obtains ctx' where "generate_committee hash i s p seed ctx = Some (Inr ctx')" and "cache_full ctx'"
    and "it_round ctx' = it_round ctx" and "it_committees ctx' (to_step s i) \<noteq> None"
proof (cases "it_committees ctx (to_step s i)")
  case (Some c)
  then show thesis using that [of ctx] full by (simp add: generate_committee_def rc_get_committee_def)
next
  case None
  obtain ctx1 where n: "generate_next_proposal hash i s p seed ctx = Some (Inr ctx1)" "cache_full ctx1"
      "it_round ctx1 = it_round ctx"
    and g: "s \<noteq> Proposal \<Longrightarrow> it_committees ctx1 (to_step Proposal i) \<noteq> None"
      "s \<noteq> Proposal \<Longrightarrow> exclude_next_generator i \<Longrightarrow> it_committees ctx1 (to_step Proposal (i + 1)) \<noteq> None"
    by (rule generate_next_returns [OF sort full, of hash i s seed]) (use prp in auto)
  have gen: "\<exists>g. it_get_generator j ctx1 = Some g" if "it_committees ctx1 (to_step Proposal j) \<noteq> None" for j
    using that cached_generator_exists [OF n(2)] by (metis not_None_eq)
  have "\<exists>ex. iteration_exclusion i s ctx1 = Inr ex"
    using g gen [of i] gen [of "i + 1"] by (cases "s = Proposal") (auto simp: iteration_exclusion_def)
  then obtain ex where ex: "iteration_exclusion i s ctx1 = Inr ex" by blast
  obtain ctx' c where "insert_committee hash (get_sortition_config seed s ex ctx1) (to_step s i) p ctx1 = Some (Inr ctx')"
      "cache_full ctx'" "it_round ctx' = it_round ctx1" "it_committees ctx' = (it_committees ctx1)(to_step s i \<mapsto> c)"
    using insert_committee_returns [of p ctx1 hash seed s ex i] sort n by metis
  then show thesis
    using that [of ctx'] n ex None by (simp add: generate_committee_def rc_get_committee_def)
qed

lemma generate_committees_return:
  assumes "sortable p (it_round ctx)" and "cache_full ctx"
  obtains ctx' where "generate_iteration_committees hash i p seed ctx = Some (Inr ctx')" and "cache_full ctx'"
    and "it_round ctx' = it_round ctx"
proof -
  obtain ctx1 where 1: "generate_committee hash i Proposal p seed ctx = Some (Inr ctx1)" "cache_full ctx1"
    "it_round ctx1 = it_round ctx" "it_committees ctx1 (to_step Proposal i) \<noteq> None"
    by (rule generate_committee_returns [OF assms, of Proposal i hash seed]) auto
  obtain ctx2 where 2: "generate_committee hash i Validation p seed ctx1 = Some (Inr ctx2)" "cache_full ctx2"
    "it_round ctx2 = it_round ctx"
    by (rule generate_committee_returns [of p ctx1 Validation i hash seed]) (use assms 1 in auto)
  have p2: "it_committees ctx2 (to_step Proposal i) \<noteq> None"
    using 1(4) generate_committee_keeps [OF 2(1)] by auto
  obtain ctx3 where 3: "generate_committee hash i Ratification p seed ctx2 = Some (Inr ctx3)" "cache_full ctx3"
    "it_round ctx3 = it_round ctx"
    by (rule generate_committee_returns [of p ctx2 Ratification i hash seed]) (use assms 2 p2 in auto)
  show thesis using that [of ctx3] 1 2 3 by (simp add: generate_iteration_committees_def)
qed

section \<open>Iterations beyond the last one\<close>

text \<open>
  The number of a step is computed in eight bits: the steps of iteration \<open>i + 86\<close> are those that follow the
  validation of iteration \<open>i\<close>.
\<close>

lemma to_step_wraps:
  "to_step Proposal (i + 86) = to_step Ratification i"
  "to_step Validation (i + 86) = to_step Proposal (i + 1)"
  "to_step Ratification (i + 86) = to_step Validation (i + 1)"
  by (simp_all add: to_step_def distrib_right)

lemma no_next_generator_beyond:
  assumes "exclude_next_generator i"
  shows "\<not> exclude_next_generator (i + 86)"
proof -
  have "unat i < 49" using assms by (simp add: exclude_next_generator_def CONSENSUS_MAX_ITER_def word_less_nat_alt)
  then have "unat (i + 86) = unat i + 86" by (simp add: unat_word_ariths)
  then show ?thesis by (simp add: exclude_next_generator_def CONSENSUS_MAX_ITER_def word_less_nat_alt)
qed

lemma committees_beyond:
  assumes sort: "sortable p (it_round ctx)" and full: "cache_full ctx" and i: "exclude_next_generator i"
    and c: "it_committees ctx (to_step Ratification i) = Some c" and k: "bm_keys (cm_members c) = k # ks"
    and "it_committees ctx (to_step Proposal (i + 1)) \<noteq> None"
    and "it_committees ctx (to_step Validation (i + 1)) = None"
  obtains ctx' c' where "generate_iteration_committees hash (i + 86) p seed ctx = Some (Inr ctx')"
    and "it_committees ctx' = (it_committees ctx)(to_step Validation (i + 1) \<mapsto> c')" and "cm_excluded c' = [k]"
    and "committee_new hash (sortition_config_new seed (it_round ctx) (i + 86) Ratification [k]) p = Some (Inr c')"
proof (rule insert_committee_returns [OF sort full, of hash seed Ratification "[k]" "i + 86"])
  fix ctx' c'
  assume ins: "insert_committee hash (get_sortition_config seed Ratification [k] ctx) (to_step Ratification (i + 86)) p ctx =
      Some (Inr ctx')"
    and "it_committees ctx' = (it_committees ctx)(to_step Ratification (i + 86) \<mapsto> c')" and "cm_excluded c' = [k]"
    and "committee_new hash (sortition_config_new seed (it_round ctx) (i + 86) Ratification [k]) p = Some (Inr c')"
  moreover have "it_get_generator (i + 86) ctx = Some k"
    by (simp add: it_get_generator_def rc_get_committee_def to_step_wraps c k)
  ultimately show thesis
    using assms(4,6,7) no_next_generator_beyond [OF i] that [of ctx' c']
    by (auto simp: generate_iteration_committees_def generate_committee_def generate_next_proposal_def
        iteration_exclusion_def rc_get_committee_def to_step_wraps Let_def)
qed

lemma step_committee_excluded:
  assumes "get_step_committee hash h p seed s = Some (Inr c)"
  shows "length (cm_excluded c) = (if exclude_next_generator (ch_iteration h) then 2 else 1)"
  using assms
  by (auto simp: get_step_committee_def step_exclusion_def committee_new_def committee_of_extracted_def
      sortition_config_new_def split: option.splits sum.splits if_splits)

end
