(* ===== verification/Consensus_Registry.thy ===== *)
theory Consensus_Registry
  imports Rounds_Safety "HOL-Library.AList"
begin

text \<open>
  The registry of attestations of a round, \<^verbatim>\<open>consensus/src/step_votes_reg.rs\<close>: the step votes of every
  iteration and vote, and whether their quorums were reached.  The order in which a hash map gives its values
  is an argument.
\<close>

section \<open>The votes on one result\<close>

record attestation_info =
  ai_att :: attestation
  ai_quorum_reached_validation :: bool
  ai_quorum_reached_ratification :: bool

definition attestation_info_new :: "vote \<Rightarrow> attestation_info" where
  "attestation_info_new vote =
     \<lparr>ai_att = attestation_default\<lparr>at_result := result_of_vote vote\<rparr>,
      ai_quorum_reached_validation = False, ai_quorum_reached_ratification = False\<rparr>"

definition set_sv :: "step_votes \<Rightarrow> step_name \<Rightarrow> bool \<Rightarrow> attestation_info \<Rightarrow> attestation_info" where
  "set_sv sv step q_reached info =
     (case step of
        Validation \<Rightarrow>
          let info = info\<lparr>ai_att := (ai_att info)\<lparr>at_validation := sv\<rparr>\<rparr> in
          (if q_reached then info\<lparr>ai_quorum_reached_validation := True\<rparr> else info)
      | Ratification \<Rightarrow>
          let info = info\<lparr>ai_att := (ai_att info)\<lparr>at_ratification := sv\<rparr>\<rparr> in
          (if q_reached then info\<lparr>ai_quorum_reached_ratification := True\<rparr> else info)
      | Proposal \<Rightarrow> info)"

definition info_is_ready :: "attestation_info \<Rightarrow> bool" where
  "info_is_ready info =
     (case at_result (ai_att info) of
        Fail NoQuorum \<Rightarrow> ai_quorum_reached_ratification info
      | Fail (Invalid _) \<Rightarrow> ai_quorum_reached_validation info \<and> ai_quorum_reached_ratification info
      | Fail NoCandidate \<Rightarrow> ai_quorum_reached_validation info \<and> ai_quorum_reached_ratification info
      | Success (Valid _) \<Rightarrow> ai_quorum_reached_validation info \<and> ai_quorum_reached_ratification info
      | _ \<Rightarrow> False)"

section \<open>The votes of one iteration\<close>

type_synonym vote_infos = "(vote \<times> attestation_info) list"

record iteration_atts =
  ia_votes :: vote_infos
  ia_generator :: public_key

definition iteration_atts_new :: "public_key \<Rightarrow> iteration_atts" where
  "iteration_atts_new generator = \<lparr>ia_votes = [], ia_generator = generator\<rparr>"

type_synonym values_order = "vote_infos \<Rightarrow> attestation_info list"

definition failed_info :: "values_order \<Rightarrow> iteration_atts \<Rightarrow> attestation_info option" where
  "failed_info order atts =
     List.find (\<lambda>c. info_is_ready c \<and> result_failed (at_result (ai_att c))) (order (ia_votes atts))"

text \<open>\<open>get_or_insert\<close>, and an update of the entry it gives.\<close>

definition info_of :: "vote \<Rightarrow> iteration_atts \<Rightarrow> attestation_info" where
  "info_of vote atts =
     (case map_of (ia_votes atts) vote of Some info \<Rightarrow> info | None \<Rightarrow> attestation_info_new vote)"

definition put_info :: "vote \<Rightarrow> attestation_info \<Rightarrow> iteration_atts \<Rightarrow> iteration_atts" where
  "put_info vote info atts = atts\<lparr>ia_votes := AList.update vote info (ia_votes atts)\<rparr>"

section \<open>The registry\<close>

record 'sk att_registry =
  ar_ru :: "'sk round_update"
  ar_att_list :: "u8 \<Rightarrow> iteration_atts option"

definition att_registry_new :: "'sk round_update \<Rightarrow> 'sk att_registry" where
  "att_registry_new ru = \<lparr>ar_ru = ru, ar_att_list = (\<lambda>_. None)\<rparr>"

definition get_iteration_atts :: "u8 \<Rightarrow> public_key \<Rightarrow> 'sk att_registry \<Rightarrow> iteration_atts" where
  "get_iteration_atts iteration generator reg =
     (case ar_att_list reg iteration of Some atts \<Rightarrow> atts | None \<Rightarrow> iteration_atts_new generator)"

definition round_header :: "'sk round_update \<Rightarrow> u8 \<Rightarrow> consensus_header" where
  "round_header ru iteration =
     \<lparr>ch_prev_block_hash = ru_hash ru, ch_round = ru_round ru, ch_iteration = iteration\<rparr>"

definition reg_build_quorum_msg :: "'sk round_update \<Rightarrow> u8 \<Rightarrow> attestation \<Rightarrow> message" where
  "reg_build_quorum_msg ru iteration att =
     message_from (PQuorum \<lparr>qu_header = round_header ru iteration, qu_att = att\<rparr>)"

definition set_step_votes ::
    "u8 \<Rightarrow> vote \<Rightarrow> step_votes \<Rightarrow> step_name \<Rightarrow> bool \<Rightarrow> public_key \<Rightarrow> 'sk att_registry
     \<Rightarrow> message option \<times> 'sk att_registry" where
  "set_step_votes iteration vote sv step q_reached generator reg =
     (if sv = step_votes_default then (None, reg)
      else
        let iter_atts = get_iteration_atts iteration generator reg;
            att_info = set_sv sv step q_reached (info_of vote iter_atts);
            reg = reg\<lparr>ar_att_list := (ar_att_list reg)(iteration \<mapsto> put_info vote att_info iter_atts)\<rparr> in
        (if info_is_ready att_info then Some (reg_build_quorum_msg (ar_ru reg) iteration (ai_att att_info)) else None,
         reg))"

definition set_attestation :: "u8 \<Rightarrow> attestation \<Rightarrow> public_key \<Rightarrow> 'sk att_registry \<Rightarrow> 'sk att_registry" where
  "set_attestation iteration att generator reg =
     (let iter_atts = get_iteration_atts iteration generator reg;
          vote = result_vote (at_result att);
          validation_quorum = (vote \<noteq> NoQuorum);
          att_info = set_sv (at_ratification att) Ratification True
            (set_sv (at_validation att) Validation validation_quorum (info_of vote iter_atts)) in
      reg\<lparr>ar_att_list := (ar_att_list reg)(iteration \<mapsto> put_info vote att_info iter_atts)\<rparr>)"

definition get_fail_att :: "values_order \<Rightarrow> u8 \<Rightarrow> 'sk att_registry \<Rightarrow> attestation option" where
  "get_fail_att order iteration reg =
     Option.bind (ar_att_list reg iteration) (\<lambda>atts.
     Option.bind (failed_info order atts) (\<lambda>info.
       if info_is_ready info then Some (ai_att info) else None))"

definition failed_att :: "values_order \<Rightarrow> u8 \<Rightarrow> 'sk att_registry \<Rightarrow> (attestation \<times> public_key) option" where
  "failed_att order iteration reg =
     Option.bind (ar_att_list reg iteration) (\<lambda>iter.
     Option.bind (failed_info order iter) (\<lambda>ci.
       if info_is_ready ci then Some (ai_att ci, ia_generator iter) else None))"

definition get_failed_atts :: "values_order \<Rightarrow> u8 \<Rightarrow> 'sk att_registry \<Rightarrow> iterations_info" where
  "get_failed_atts order to reg = map (\<lambda>iteration. failed_att order (of_nat iteration) reg) [0..<unat to]"

end
