(* ===== verification/Consensus_Queue.thy ===== *)
theory Consensus_Queue
  imports Consensus_Registry
begin

text \<open>
  Messages of later rounds and steps, \<^verbatim>\<open>consensus/src/queue.rs\<close>: one queue for every round and step with at
  most one message of every signer.  The capacity the queues were allocated with is an argument; they are
  asked for room for a thousand messages and may have more.
\<close>

definition MAX_MESSAGES_PER_QUEUE :: nat where
  "MAX_MESSAGES_PER_QUEUE = 1000"

definition get_signer :: "('mpk, 'msig) node_crypto \<Rightarrow> message \<Rightarrow> public_key option" where
  "get_signer nc m =
     (case ms_payload m of
        PCandidate c \<Rightarrow> Some (si_signer (candidate_sign_info nc c))
      | PValidation v \<Rightarrow> Some (si_signer (va_sign_info v))
      | PRatification r \<Rightarrow> Some (si_signer (ra_sign_info r))
      | _ \<Rightarrow> None)"

type_synonym step_map = "(u8, message list) btree_map"
type_synonym msg_registry = "(u64, step_map) btree_map"

datatype msg_registry_error = SignerAlreadyEnqueue message | NoSigner message

definition put_msg ::
    "('mpk, 'msig) node_crypto \<Rightarrow> nat \<Rightarrow> message \<Rightarrow> msg_registry \<Rightarrow> (msg_registry_error + message) \<times> msg_registry" where
  "put_msg nc cap msg reg =
     (let rnd = ch_round (ms_header msg);
          step = message_step msg;
          steps = bm_get_or bm_empty reg rnd;
          vec = bm_get_or [] steps step;
          set_vec = (\<lambda>vec. bm_insert rnd (bm_insert step vec steps) reg) in
      if get_signer nc msg = None then (Inl (NoSigner msg), set_vec vec)
      else if list_ex (\<lambda>m. get_signer nc m = get_signer nc msg) vec
      then (Inl (SignerAlreadyEnqueue msg), set_vec vec)
      else (Inr msg, set_vec ((if length vec = cap then tl vec else vec) @ [msg])))"

definition drain_msg_by_round_step :: "u64 \<Rightarrow> u8 \<Rightarrow> msg_registry \<Rightarrow> message list option \<times> msg_registry" where
  "drain_msg_by_round_step rnd step reg =
     (case bm_get reg rnd of
        None \<Rightarrow> (None, reg)
      | Some r \<Rightarrow> (bm_get r step, bm_insert rnd (bm_remove step r) reg))"

definition remove_msgs_by_round :: "u64 \<Rightarrow> msg_registry \<Rightarrow> msg_registry" where
  "remove_msgs_by_round rnd reg = bm_remove rnd reg"

definition remove_msgs_out_of_range :: "u64 \<Rightarrow> u64 \<Rightarrow> msg_registry \<Rightarrow> msg_registry" where
  "remove_msgs_out_of_range start_round offset reg =
     (let end_round = start_round + offset in
      fold (\<lambda>(k, v). bm_insert k v)
        (filter (\<lambda>(k, _). k \<le> end_round) (filter (\<lambda>(k, _). start_round \<le> k) (bm_entries reg))) bm_empty)"

definition msg_count :: "msg_registry \<Rightarrow> nat" where
  "msg_count reg = sum_list (map (\<lambda>r. sum_list (map length (bm_values r))) (bm_values reg))"

section \<open>The queues\<close>

definition pending :: "msg_registry \<Rightarrow> u64 \<Rightarrow> u8 \<Rightarrow> message list" where
  "pending reg rnd step = bm_get_or [] (bm_get_or bm_empty reg rnd) step"

text \<open>In a queue are messages of its round and step with different signers, and no more than fit.\<close>

definition one_queue_ok :: "('mpk, 'msig) node_crypto \<Rightarrow> nat \<Rightarrow> u64 \<Rightarrow> u8 \<Rightarrow> message list \<Rightarrow> bool" where
  "one_queue_ok nc cap rnd step q \<longleftrightarrow> length q \<le> cap \<and> distinct (map (get_signer nc) q) \<and>
     (\<forall>m \<in> set q. ch_round (ms_header m) = rnd \<and> message_step m = step \<and> get_signer nc m \<noteq> None)"

definition queue_ok :: "('mpk, 'msig) node_crypto \<Rightarrow> nat \<Rightarrow> msg_registry \<Rightarrow> bool" where
  "queue_ok nc cap reg \<longleftrightarrow> (\<forall>rnd step. one_queue_ok nc cap rnd step (pending reg rnd step))"

lemma one_queue_ok_Nil [simp]: "one_queue_ok nc cap rnd step []"
  by (simp add: one_queue_ok_def)

lemma set_tl_subset: "set (tl xs) \<subseteq> set xs"
  by (cases xs) auto

lemma one_queue_push:
  assumes q: "one_queue_ok nc cap rnd step q" and "0 < cap" and "get_signer nc m \<notin> get_signer nc ` set q"
    and "get_signer nc m \<noteq> None" and "ch_round (ms_header m) = rnd" and "message_step m = step"
  shows "one_queue_ok nc cap rnd step ((if length q = cap then tl q else q) @ [m])"
proof -
  define q' where "q' = (if length q = cap then tl q else q)"
  have sub: "set q' \<subseteq> set q" by (simp add: q'_def set_tl_subset)
  have "length q' < cap" using q assms(2) by (auto simp: q'_def one_queue_ok_def)
  moreover have "distinct (map (get_signer nc) q')" using q by (simp add: q'_def one_queue_ok_def distinct_tl map_tl)
  moreover have "get_signer nc m \<notin> get_signer nc ` set q'" using assms(3) sub by blast
  ultimately show ?thesis
    using q assms(4-) sub unfolding q'_def [symmetric] one_queue_ok_def by (simp add: subset_iff)
qed

lemma pending_put:
  assumes "put_msg nc cap m reg = (r, reg')"
  shows "pending reg' rnd step =
     (if rnd = ch_round (ms_header m) \<and> step = message_step m \<and> is_ok r
      then (if length (pending reg rnd step) = cap then tl (pending reg rnd step) else pending reg rnd step) @ [m]
      else pending reg rnd step)"
  using assms by (auto simp: put_msg_def pending_def bm_get_or_def Let_def split: if_splits)

lemma put_msg_result:
  "fst (put_msg nc cap m reg) =
     (if get_signer nc m = None then Inl (NoSigner m)
      else if get_signer nc m \<in> get_signer nc ` set (pending reg (ch_round (ms_header m)) (message_step m))
      then Inl (SignerAlreadyEnqueue m)
      else Inr m)"
  by (auto simp: put_msg_def Let_def list_ex_iff pending_def image_iff) metis+

lemma queue_ok_empty: "queue_ok nc cap bm_empty"
  by (simp add: queue_ok_def pending_def bm_get_or_def)

lemma put_msg_ok:
  assumes "put_msg nc cap m reg = (Inr m', reg')"
  shows "get_signer nc m \<noteq> None"
    and "get_signer nc m \<notin> get_signer nc ` set (pending reg (ch_round (ms_header m)) (message_step m))"
  using put_msg_result [of nc cap m reg] unfolding assms fst_conv by (metis sum.distinct(1))+

lemma queue_ok_put:
  assumes "queue_ok nc cap reg" and "0 < cap" and put: "put_msg nc cap m reg = (r, reg')"
  shows "queue_ok nc cap reg'"
  unfolding queue_ok_def
proof (intro allI)
  fix rnd step
  have q: "one_queue_ok nc cap rnd step (pending reg rnd step)" using assms(1) by (simp add: queue_ok_def)
  show "one_queue_ok nc cap rnd step (pending reg' rnd step)"
  proof (cases "rnd = ch_round (ms_header m) \<and> step = message_step m \<and> is_ok r")
    case True
    then obtain m' where "r = Inr m'" by (auto simp: is_ok_iff)
    note new = put_msg_ok [OF put [unfolded this]]
    show ?thesis
      unfolding pending_put [OF put] if_P [OF True]
      by (rule one_queue_push [OF q assms(2)]) (use True new in blast)+
  next
    case False
    then show ?thesis using q unfolding pending_put [OF put] by (simp only: if_False)
  qed
qed

lemma pending_drain:
  assumes "drain_msg_by_round_step r s reg = (ms, reg')"
  shows "(case ms of Some q \<Rightarrow> q | None \<Rightarrow> []) = pending reg r s"
    and "pending reg' rnd step = (if rnd = r \<and> step = s then [] else pending reg rnd step)"
  using assms by (auto simp: drain_msg_by_round_step_def pending_def bm_get_or_def split: option.splits if_splits)

lemma queue_ok_drain:
  assumes "queue_ok nc cap reg" and "drain_msg_by_round_step r s reg = (ms, reg')"
  shows "queue_ok nc cap reg'"
  using assms pending_drain(2) [OF assms(2)] by (simp add: queue_ok_def)

lemma pending_remove: "pending (remove_msgs_by_round r reg) rnd step = (if rnd = r then [] else pending reg rnd step)"
  by (simp add: pending_def remove_msgs_by_round_def bm_get_or_def)

lemma fold_insert_get:
  assumes "distinct (map fst kvs)"
  shows "bm_get (fold (\<lambda>(k, v). bm_insert k v) kvs m) k =
    (case map_of kvs k of Some v \<Rightarrow> Some v | None \<Rightarrow> bm_get m k)"
  using assms
proof (induction kvs arbitrary: m)
  case (Cons kv kvs)
  then show ?case by (cases kv) (auto split: option.splits simp: rev_image_eqI dest: map_of_SomeD)
qed simp

lemma map_of_filter_key: "map_of (filter (\<lambda>(k, _). P k) kvs) k = (if P k then map_of kvs k else None)"
  by (induction kvs) auto

lemma pending_range:
  "pending (remove_msgs_out_of_range start offset reg) rnd step =
     (if start \<le> rnd \<and> rnd \<le> start + offset then pending reg rnd step else [])"
proof -
  let ?P = "\<lambda>k. start \<le> k \<and> k \<le> start + offset"
  have f: "filter (\<lambda>(k, _). k \<le> start + offset) (filter (\<lambda>(k, _). start \<le> k) (bm_entries reg)) =
      filter (\<lambda>(k, _). ?P k) (bm_entries reg)"
    by (simp add: case_prod_unfold conj_commute)
  have "distinct (map fst (filter (\<lambda>(k, _). ?P k) (bm_entries reg)))"
    using bm_entries_distinct [of reg] by (rule distinct_map_filter)
  then have "bm_get (remove_msgs_out_of_range start offset reg) rnd = (if ?P rnd then bm_get reg rnd else None)"
    unfolding remove_msgs_out_of_range_def Let_def f
    by (simp add: fold_insert_get map_of_filter_key bm_get.rep_eq [of reg] split: option.splits)
  then show ?thesis by (simp add: pending_def bm_get_or_def)
qed

lemma queue_ok_remove:
  assumes "queue_ok nc cap reg"
  shows "queue_ok nc cap (remove_msgs_by_round r reg)" and "queue_ok nc cap (remove_msgs_out_of_range start offset reg)"
  using assms by (auto simp: queue_ok_def pending_remove pending_range split: if_splits)

section \<open>Histories of the queues\<close>

datatype registry_op = Put message | Drain u64 u8 | RemoveRound u64 | KeepRange u64 u64

definition registry_step :: "('mpk, 'msig) node_crypto \<Rightarrow> nat \<Rightarrow> registry_op \<Rightarrow> msg_registry \<Rightarrow> msg_registry" where
  "registry_step nc cap op reg =
     (case op of
        Put m \<Rightarrow> snd (put_msg nc cap m reg)
      | Drain rnd step \<Rightarrow> snd (drain_msg_by_round_step rnd step reg)
      | RemoveRound rnd \<Rightarrow> remove_msgs_by_round rnd reg
      | KeepRange start offset \<Rightarrow> remove_msgs_out_of_range start offset reg)"

lemma registry_step_ok:
  assumes "0 < cap" and "queue_ok nc cap reg"
  shows "queue_ok nc cap (registry_step nc cap op reg)"
  using queue_ok_put [OF assms(2,1) surjective_pairing] queue_ok_drain [OF assms(2) surjective_pairing] queue_ok_remove [OF assms(2)]
  by (cases op) (auto simp: registry_step_def)

text \<open>
  C38: whatever is put into the registry of future messages, drained and removed, each queue holds messages of its
  own round and step only, at most one for each signer and no more than the capacity.
\<close>

theorem message_registry_typed:
  assumes "0 < cap"
  shows "queue_ok nc cap (fold (registry_step nc cap) ops bm_empty)"
proof -
  have "queue_ok nc cap (fold (registry_step nc cap) ops reg)" if "queue_ok nc cap reg" for reg
    using that by (induction ops arbitrary: reg) (simp_all add: registry_step_ok [OF assms])
  with queue_ok_empty show ?thesis by blast
qed

text \<open>A vote.\<close>

definition queued_vote :: message where
  "queued_vote = message_from (PValidation
     \<lparr>va_header = header0, va_vote = NoCandidate, va_sign_info = \<lparr>si_signer = [2], si_signature = signature_EMPTY\<rparr>\<rparr>)"

theorem message_registry_typed_witness:
  "queue_ok crypto1 16 (fold (registry_step crypto1 16) [Put queued_vote, Put queued_vote, Drain 5 4] bm_empty)"
  by (rule message_registry_typed) simp

end
