(* ===== verification/Consensus_Handlers.thy ===== *)
theory Consensus_Handlers
  imports Consensus_Queue
begin

text \<open>
  The handlers of the three steps of an iteration, \<^verbatim>\<open>consensus/src/msg_handler.rs\<close>, \<^verbatim>\<open>proposal/handler.rs\<close>,
  \<^verbatim>\<open>validation/handler.rs\<close>, \<^verbatim>\<open>validation/step.rs\<close>, \<^verbatim>\<open>ratification/handler.rs\<close> and \<^verbatim>\<open>ratification/step.rs\<close>: how a
  message is checked and collected and how votes are cast.  What the handlers send and store is a list of
  effects.
\<close>

section \<open>Computations of the consensus task\<close>

datatype effect =
    Outbound message
  | Inbound message
  | StoreCandidate block
  | StoreValidationResult consensus_header validation_result
  | StoreLastIter hash u8

text \<open>
  A computation changes the state, has effects and gives a result or an error; it may panic, and it may not
  return when it runs the sortition.  The state keeps its changes when there is an error.
\<close>

type_synonym ('s, 'a) cm = "'s \<Rightarrow> ((consensus_error + 'a) \<times> 's \<times> effect list) res option"

definition cm_ret :: "'a \<Rightarrow> ('s, 'a) cm" where
  "cm_ret x s = Some (Inr (Inr x, s, []))"

definition cm_err :: "consensus_error \<Rightarrow> ('s, 'a) cm" where
  "cm_err e s = Some (Inr (Inl e, s, []))"

definition cm_panic :: "string \<Rightarrow> ('s, 'a) cm" where
  "cm_panic msg s = Some (Inl (Panic msg))"

definition cm_bind :: "('s, 'a) cm \<Rightarrow> ('a \<Rightarrow> ('s, 'b) cm) \<Rightarrow> ('s, 'b) cm" where
  "cm_bind m f s =
     co_bind (m s) (\<lambda>(r, s1, o1).
       case r of
         Inl e \<Rightarrow> Some (Inr (Inl e, s1, o1))
       | Inr x \<Rightarrow> co_bind (f x s1) (\<lambda>(r2, s2, o2). Some (Inr (r2, s2, o1 @ o2))))"

definition cm_gets :: "('s \<Rightarrow> 'a) \<Rightarrow> ('s, 'a) cm" where
  "cm_gets f s = Some (Inr (Inr (f s), s, []))"

definition cm_modify :: "('s \<Rightarrow> 's) \<Rightarrow> ('s, unit) cm" where
  "cm_modify f s = Some (Inr (Inr (), f s, []))"

definition cm_tell :: "effect list \<Rightarrow> ('s, unit) cm" where
  "cm_tell es s = Some (Inr (Inr (), s, es))"

definition cm_lift :: "(consensus_error + 'a) \<Rightarrow> ('s, 'a) cm" where
  "cm_lift r s = Some (Inr (r, s, []))"

definition cm_check :: "(consensus_error + 'a) res \<Rightarrow> ('s, 'a) cm" where
  "cm_check m s = (case m of Inl e \<Rightarrow> Some (Inl e) | Inr r \<Rightarrow> Some (Inr (r, s, [])))"

definition cm_expect :: "string \<Rightarrow> 'a option \<Rightarrow> ('s, 'a) cm" where
  "cm_expect msg x = (case x of None \<Rightarrow> cm_panic msg | Some v \<Rightarrow> cm_ret v)"

text \<open>A \<open>match\<close> on the result of a computation.\<close>

definition cm_try :: "('s, 'a) cm \<Rightarrow> ('s, consensus_error + 'a) cm" where
  "cm_try m s = co_bind (m s) (\<lambda>(r, s1, o1). Some (Inr (Inr r, s1, o1)))"

section \<open>The state of a round\<close>

text \<open>What the handlers share and keep; \<open>vh\<close> and \<open>rh\<close> are the handlers of validation and ratification.\<close>

record ('msig, 'sk) round_state =
  rs_ctx :: iteration_ctx
  rs_future_msgs :: msg_registry
  rs_sv_registry :: "'sk att_registry"
  vh_aggr :: "'msig aggregator"
  vh_candidate :: "block option"
  vh_curr_iteration :: u8
  rh_aggregator :: "'msig aggregator"
  rh_validation_result :: validation_result
  rh_curr_iteration :: u8

text \<open>
  What a round is run with: cryptography, the merkle tree, signing, the round, its provisioners, the order of
  hash maps, the capacity of queues, the candidate and the vote the node's operations give, and the time.
\<close>

record ('mpk, 'msig, 'sk) consensus_env =
  ce_crypto :: "('mpk, 'msig) node_crypto"
  ce_tree :: merkle_tree
  ce_hash :: "bytes \<Rightarrow> bytes"
  ce_sign :: "'sk signer"
  ce_ru :: "'sk round_update"
  ce_provisioners :: provisioners
  ce_order :: values_order
  ce_cap :: nat
  ce_generate :: "u8 \<Rightarrow> iterations_info \<Rightarrow> message option"
  ce_vote :: "block option \<Rightarrow> public_key \<Rightarrow> vote option res option"
  ce_now :: "u8 \<Rightarrow> u64"

datatype step_outcome = Pending | Ready message

definition message_empty :: message where
  "message_empty =
     \<lparr>ms_version = PROTOCOL_VERSION, ms_topic = TUnknown, ms_header = consensus_header_default,
      ms_payload = PEmpty, ms_metadata = None\<rparr>"

definition validation_result_default :: validation_result where
  "validation_result_default = \<lparr>vr_quorum = QNoQuorum, vr_vote = NoQuorum, vr_sv = step_votes_default\<rparr>"

section \<open>Casting votes\<close>

definition validation_sign :: "'sk signer \<Rightarrow> 'sk \<Rightarrow> public_key \<Rightarrow> validation \<Rightarrow> validation" where
  "validation_sign sign sk pk v =
     v\<lparr>va_sign_info := \<lparr>si_signer = pk, si_signature = sign sk pk (validation_signable v)\<rparr>\<rparr>"

definition ratification_sign :: "'sk signer \<Rightarrow> 'sk \<Rightarrow> public_key \<Rightarrow> ratification \<Rightarrow> ratification" where
  "ratification_sign sign sk pk r =
     r\<lparr>ra_sign_info := \<lparr>si_signer = pk, si_signature = sign sk pk (ratification_signable r)\<rparr>\<rparr>"

definition sign_info_default :: sign_info where
  "sign_info_default = \<lparr>si_signer = replicate 96 0, si_signature = signature_EMPTY\<rparr>"

definition build_validation_payload :: "'sk signer \<Rightarrow> vote \<Rightarrow> 'sk round_update \<Rightarrow> u8 \<Rightarrow> validation" where
  "build_validation_payload sign vote ru iteration =
     validation_sign sign (ru_secret_key ru) (ru_pubkey_bls ru)
       \<lparr>va_header = round_header ru iteration, va_vote = vote, va_sign_info = sign_info_default\<rparr>"

definition cast_vote :: "('mpk, 'msig, 'sk) consensus_env \<Rightarrow> vote \<Rightarrow> u8 \<Rightarrow> ('s, unit) cm" where
  "cast_vote env vote iteration =
     (let msg = message_from (PValidation (build_validation_payload (ce_sign env) vote (ce_ru env) iteration)) in
      if vote_is_valid vote \<or> \<not> is_emergency_iter iteration
      then cm_tell [Outbound msg, Inbound msg] else cm_ret ())"

text \<open>The vote of the validation step, awaited and as a task of its own.\<close>

definition validation_try_vote ::
    "('mpk, 'msig, 'sk) consensus_env \<Rightarrow> u8 \<Rightarrow> block option \<Rightarrow> public_key \<Rightarrow> ('s, unit) cm" where
  "validation_try_vote env iteration candidate expected_generator s =
     co_bind (ce_vote env candidate expected_generator) (\<lambda>v.
       case v of None \<Rightarrow> cm_ret () s | Some vote \<Rightarrow> cast_vote env vote iteration s)"

definition spawn_try_vote ::
    "('mpk, 'msig, 'sk) consensus_env \<Rightarrow> u8 \<Rightarrow> block option \<Rightarrow> public_key \<Rightarrow> ('s, unit) cm" where
  "spawn_try_vote env iteration candidate expected_generator =
     (case ce_vote env candidate expected_generator of
        Some (Inr (Some vote)) \<Rightarrow> cast_vote env vote iteration
      | _ \<Rightarrow> cm_ret ())"

definition build_ratification_payload ::
    "'sk signer \<Rightarrow> u64 \<Rightarrow> 'sk round_update \<Rightarrow> u8 \<Rightarrow> validation_result \<Rightarrow> ratification" where
  "build_ratification_payload sign now ru iteration result =
     ratification_sign sign (ru_secret_key ru) (ru_pubkey_bls ru)
       \<lparr>ra_header = round_header ru iteration, ra_vote = vr_vote result, ra_timestamp = now,
        ra_validation_result = result, ra_sign_info = sign_info_default\<rparr>"

definition ratification_try_vote ::
    "('mpk, 'msig, 'sk) consensus_env \<Rightarrow> u8 \<Rightarrow> validation_result \<Rightarrow> ('s, message) cm" where
  "ratification_try_vote env iteration result =
     (let msg = message_from (PRatification
            (build_ratification_payload (ce_sign env) (ce_now env iteration) (ce_ru env) iteration result)) in
      cm_bind (if vr_quorum result = QValid \<or> \<not> is_emergency_iter iteration
               then cm_tell [Outbound msg] else cm_ret ()) (\<lambda>_.
        cm_ret msg))"

section \<open>Checking messages\<close>

definition verify_vote_signature ::
    "('mpk, 'msig) node_crypto \<Rightarrow> step_msg \<Rightarrow> consensus_error + unit" where
  "verify_vote_signature nc v =
     (case verify_msg_signature nc v of Inl e \<Rightarrow> Inl (InvalidSignature e) | Inr _ \<Rightarrow> Inr ())"

definition proposal_verify_stateless ::
    "('mpk, 'msig) node_crypto \<Rightarrow> merkle_tree \<Rightarrow> block \<Rightarrow> round_committees \<Rightarrow> (consensus_error + unit) res" where
  "proposal_verify_stateless nc tree c rc =
     (case rc_get_generator (ch_iteration (to_consensus_header (bl_header c))) rc of
        None \<Rightarrow> Inl (Panic ''committee to be created before run'')
      | Some generator \<Rightarrow> Inr (verify_candidate_msg nc tree c generator))"

definition vote_verify_stateless ::
    "('mpk, 'msig) node_crypto \<Rightarrow> step_msg \<Rightarrow> u8 \<Rightarrow> round_committees \<Rightarrow> (consensus_error + unit) res" where
  "vote_verify_stateless nc v step rc =
     (case verify_vote_signature nc v of
        Inl e \<Rightarrow> Inr (Inl e)
      | Inr _ \<Rightarrow>
          (case rc_get_committee step rc of
             None \<Rightarrow> Inl (Panic ''committee to be created before run'')
           | Some committee \<Rightarrow>
               if votes_for committee (si_signer (msg_sign_info v)) = None then Inr (Inl NotCommitteeMember)
               else Inr (Inr ())))"

definition validation_verify_stateless ::
    "('mpk, 'msig) node_crypto \<Rightarrow> message \<Rightarrow> round_committees \<Rightarrow> (consensus_error + unit) res" where
  "validation_verify_stateless nc msg rc =
     (case ms_payload msg of
        PValidation p \<Rightarrow> vote_verify_stateless nc (ValidationMsg p) (message_step msg) rc
      | PEmpty \<Rightarrow> Inr (Inr ())
      | _ \<Rightarrow> Inr (Inl InvalidMsgType))"

definition verify_validation_result ::
    "('mpk, 'msig) node_crypto \<Rightarrow> consensus_header \<Rightarrow> validation_result \<Rightarrow> round_committees \<Rightarrow> consensus_error + unit" where
  "verify_validation_result nc header result rc =
     (case rc_get_validation_committee (ch_iteration header) rc of
        None \<Rightarrow> Inl CommitteeNotGenerated
      | Some validation_committee \<Rightarrow>
          (case verify_votes nc header Validation (vr_vote result) (vr_sv result) validation_committee of
             Inl e \<Rightarrow> Inl (InvalidValidationStepVotes e)
           | Inr _ \<Rightarrow> Inr ()))"

definition ratification_verify_stateless ::
    "('mpk, 'msig) node_crypto \<Rightarrow> message \<Rightarrow> round_committees \<Rightarrow> (consensus_error + unit) res" where
  "ratification_verify_stateless nc msg rc =
     (case ms_payload msg of
        PRatification p \<Rightarrow> vote_verify_stateless nc (RatificationMsg p) (message_step msg) rc
      | PValidationQuorum q \<Rightarrow> Inr (verify_validation_result nc (vq_header q) (vq_result q) rc)
      | PEmpty \<Rightarrow> Inr (Inr ())
      | _ \<Rightarrow> Inr (Inl InvalidMsgType))"

text \<open>The check of a message in the step it is meant for.\<close>

definition handler_verify ::
    "('mpk, 'msig, 'sk) consensus_env \<Rightarrow> step_name \<Rightarrow> message \<Rightarrow> ('msig, 'sk) round_state
     \<Rightarrow> (consensus_error + unit) res" where
  "handler_verify env step msg s =
     (case (step, ms_payload msg) of
        (Proposal, PCandidate p) \<Rightarrow>
          proposal_verify_stateless (ce_crypto env) (ce_tree env) p (it_committees (rs_ctx s))
      | (Validation, PValidation p) \<Rightarrow>
          if is_vote_collected (ValidationMsg p) (vh_aggr s) then Inr (Inl VoteAlreadyCollected)
          else Inr (verify_vote_signature (ce_crypto env) (ValidationMsg p))
      | (Validation, PEmpty) \<Rightarrow> Inr (Inr ())
      | (Ratification, PRatification p) \<Rightarrow>
          if is_vote_collected (RatificationMsg p) (rh_aggregator s) then Inr (Inl VoteAlreadyCollected)
          else Inr (verify_vote_signature (ce_crypto env) (RatificationMsg p))
      | _ \<Rightarrow> Inr (Inl InvalidMsgType))"

text \<open>Messages of the round for another iteration or step.\<close>

definition verify_message ::
    "('mpk, 'msig, 'sk) consensus_env \<Rightarrow> message \<Rightarrow> round_committees \<Rightarrow> (consensus_error + unit) res" where
  "verify_message env msg rc =
     (let nc = ce_crypto env; ru = ce_ru env in
      if ch_round (ms_header msg) \<noteq> ru_round ru then Inr (Inr ())
      else if ch_prev_block_hash (ms_header msg) \<noteq> ru_hash ru
      then Inr (Inl (InvalidPrevBlockHash (ch_prev_block_hash (ms_header msg))))
      else case rc_get_committee (message_step msg) rc of
        None \<Rightarrow> Inr (Inr ())
      | Some committee \<Rightarrow>
          (case (case ms_payload msg of
                   PValidationQuorum _ \<Rightarrow> Inr (Inr ())
                 | _ \<Rightarrow>
                     (case get_signer nc msg of
                        None \<Rightarrow> Inl (Panic ''signer to exist'')
                      | Some signer \<Rightarrow>
                          if \<not> is_member signer committee then Inr (Inl NotCommitteeMember) else Inr (Inr ()))) of
             Inr (Inr _) \<Rightarrow>
               (case ms_payload msg of
                  PRatification _ \<Rightarrow> ratification_verify_stateless nc msg rc
                | PValidationQuorum _ \<Rightarrow> ratification_verify_stateless nc msg rc
                | PValidation _ \<Rightarrow> validation_verify_stateless nc msg rc
                | PCandidate c \<Rightarrow> proposal_verify_stateless nc (ce_tree env) c rc
                | _ \<Rightarrow> Inr (Inl InvalidMsgType))
           | err \<Rightarrow> err))"

definition is_valid ::
    "('mpk, 'msig, 'sk) consensus_env \<Rightarrow> message \<Rightarrow> u8 \<Rightarrow> step_name \<Rightarrow> committee \<Rightarrow> ('msig, 'sk) round_state
     \<Rightarrow> (consensus_error + unit) res" where
  "is_valid env msg current_iteration step committee s =
     (let ru = ce_ru env; rc = it_committees (rs_ctx s) in
      case message_compare (ru_round ru) current_iteration step msg of
        Past \<Rightarrow>
          (case verify_message env msg rc of Inr (Inr _) \<Rightarrow> Inr (Inl PastEvent) | err \<Rightarrow> err)
      | Present \<Rightarrow>
          if ch_prev_block_hash (ms_header msg) \<noteq> ru_hash ru
          then Inr (Inl (InvalidPrevBlockHash (ch_prev_block_hash (ms_header msg))))
          else (case get_signer (ce_crypto env) msg of
                  None \<Rightarrow> Inr (Inl InvalidMsgType)
                | Some signer \<Rightarrow>
                    if \<not> is_member signer committee then Inr (Inl NotCommitteeMember)
                    else handler_verify env step msg s)
      | Future \<Rightarrow>
          (case verify_message env msg rc of Inr (Inr _) \<Rightarrow> Inr (Inl FutureEvent) | err \<Rightarrow> err))"

end
