(* ===== verification/Consensus_Collect.thy ===== *)
theory Consensus_Collect
  imports Consensus_Handlers
begin

text \<open>
  Collecting checked messages: \<open>collect\<close>, \<open>collect_from_past\<close> and \<open>handle_timeout\<close> of the three handlers
  (\<^verbatim>\<open>proposal/handler.rs\<close>, \<^verbatim>\<open>validation/handler.rs\<close>, \<^verbatim>\<open>ratification/handler.rs\<close>), and the messages of former
  iterations (\<^verbatim>\<open>iteration_ctx.rs\<close>).
\<close>

type_synonym ('msig, 'sk, 'a) round_cm = "(('msig, 'sk) round_state, 'a) cm"

section \<open>Shared steps\<close>

definition set_vh_aggr :: "'msig aggregator \<Rightarrow> ('msig, 'sk) round_state \<Rightarrow> ('msig, 'sk) round_state" where
  "set_vh_aggr ag s = s\<lparr>vh_aggr := ag\<rparr>"

definition set_rh_aggregator :: "'msig aggregator \<Rightarrow> ('msig, 'sk) round_state \<Rightarrow> ('msig, 'sk) round_state" where
  "set_rh_aggregator ag s = s\<lparr>rh_aggregator := ag\<rparr>"

text \<open>A vote goes to the aggregator of its step; an error of the aggregator is an invalid vote.\<close>

definition collect_into ::
    "('mpk, 'msig, 'sk) consensus_env \<Rightarrow> committee \<Rightarrow> step_msg
     \<Rightarrow> (('msig, 'sk) round_state \<Rightarrow> 'msig aggregator)
     \<Rightarrow> ('msig aggregator \<Rightarrow> ('msig, 'sk) round_state \<Rightarrow> ('msig, 'sk) round_state)
     \<Rightarrow> ('msig, 'sk, step_votes \<times> bool) round_cm" where
  "collect_into env committee v get_ag set_ag s =
     (case collect_vote (ce_crypto env) committee v (get_ag s) of
        (Inl (AggPanic msg), ag) \<Rightarrow> Some (Inl (Panic msg))
      | (Inl _, ag) \<Rightarrow> Some (Inr (Inl (InvalidVote (msg_vote v)), set_ag ag s, []))
      | (Inr x, ag) \<Rightarrow> Some (Inr (Inr x, set_ag ag s, [])))"

definition collect_validation ::
    "('mpk, 'msig, 'sk) consensus_env \<Rightarrow> committee \<Rightarrow> validation \<Rightarrow> ('msig, 'sk, step_votes \<times> bool) round_cm" where
  "collect_validation env committee p = collect_into env committee (ValidationMsg p) vh_aggr set_vh_aggr"

definition collect_ratification ::
    "('mpk, 'msig, 'sk) consensus_env \<Rightarrow> committee \<Rightarrow> ratification \<Rightarrow> ('msig, 'sk, step_votes \<times> bool) round_cm" where
  "collect_ratification env committee p =
     collect_into env committee (RatificationMsg p) rh_aggregator set_rh_aggregator"

definition record_step_votes ::
    "u8 \<Rightarrow> vote \<Rightarrow> step_votes \<Rightarrow> step_name \<Rightarrow> bool \<Rightarrow> public_key option \<Rightarrow> ('msig, 'sk, message option) round_cm" where
  "record_step_votes iteration vote sv step q_reached generator =
     cm_bind (cm_expect ''There must be a valid generator'' generator) (\<lambda>g s.
       case set_step_votes iteration vote sv step q_reached g (rs_sv_registry s) of
         (quorum_msg, reg) \<Rightarrow> Some (Inr (Inr quorum_msg, s\<lparr>rs_sv_registry := reg\<rparr>, [])))"

section \<open>Proposal\<close>

definition proposal_collect :: "message \<Rightarrow> ('msig, 'sk, step_outcome) round_cm" where
  "proposal_collect msg =
     (case ms_payload msg of
        PCandidate candidate \<Rightarrow> cm_bind (cm_tell [StoreCandidate candidate]) (\<lambda>_. cm_ret (Ready msg))
      | _ \<Rightarrow> cm_err InvalidMsgType)"

definition request_resource :: "inv_type \<Rightarrow> 'sk round_update \<Rightarrow> u8 \<Rightarrow> message" where
  "request_resource t ru curr_iteration =
     message_from (PGetResource
       \<lparr>gr_inventory = \<lparr>in_list = [\<lparr>iv_type = t, iv_param = PIteration (round_header ru curr_iteration)\<rparr>],
                         in_max_entries = 1\<rparr>,
        gr_requester_addr = None, gr_ttl_as_sec = - 1, gr_hops_limit = 0\<rparr>)"

definition handle_timeout :: "step_name \<Rightarrow> 'sk round_update \<Rightarrow> u8 \<Rightarrow> message option" where
  "handle_timeout step ru curr_iteration =
     (if \<not> is_emergency_iter curr_iteration then None
      else case step of
        Proposal \<Rightarrow> Some (request_resource CandidateFromIteration ru curr_iteration)
      | Validation \<Rightarrow> Some (request_resource InvValidationResult ru curr_iteration)
      | Ratification \<Rightarrow> None)"

section \<open>Validation\<close>

definition build_validation_result ::
    "step_votes \<Rightarrow> vote \<Rightarrow> quorum_type \<Rightarrow> consensus_header \<Rightarrow> ('msig, 'sk, message) round_cm" where
  "build_validation_result sv vote q header =
     (let vr = \<lparr>vr_quorum = q, vr_vote = vote, vr_sv = sv\<rparr> in
      cm_bind (if is_emergency_iter (ch_iteration header)
               then cm_tell [StoreValidationResult header vr] else cm_ret ()) (\<lambda>_.
        cm_ret (message_from (PValidationResult vr))))"

definition quorum_type_of :: "vote \<Rightarrow> quorum_type option" where
  "quorum_type_of vote =
     (case vote of
        NoCandidate \<Rightarrow> Some QNoCandidate | Invalid _ \<Rightarrow> Some QInvalid | Valid _ \<Rightarrow> Some QValid | NoQuorum \<Rightarrow> None)"

definition validation_collect ::
    "('mpk, 'msig, 'sk) consensus_env \<Rightarrow> message \<Rightarrow> committee \<Rightarrow> public_key option
     \<Rightarrow> ('msig, 'sk, step_outcome) round_cm" where
  "validation_collect env msg committee generator =
     (case ms_payload msg of
        PValidation p \<Rightarrow>
          let vote = va_vote p; iteration = ch_iteration (va_header p) in
          if vote = NoQuorum then cm_err (InvalidVote vote)
          else
            cm_bind (cm_gets vh_curr_iteration) (\<lambda>curr_iteration.
            if iteration \<noteq> curr_iteration then cm_err (InvalidMsgIteration iteration)
            else
              cm_bind (collect_validation env committee p) (\<lambda>(sv, q_reached).
              cm_bind (record_step_votes iteration vote sv Validation q_reached generator) (\<lambda>_.
              if q_reached then
                (case quorum_type_of vote of
                   None \<Rightarrow> cm_err (InvalidVote vote)
                 | Some q \<Rightarrow>
                     cm_bind (build_validation_result sv vote q (va_header p)) (\<lambda>vrmsg. cm_ret (Ready vrmsg)))
              else cm_ret Pending)))
      | _ \<Rightarrow> cm_err InvalidMsgType)"

definition validation_collect_from_past ::
    "('mpk, 'msig, 'sk) consensus_env \<Rightarrow> message \<Rightarrow> committee \<Rightarrow> public_key option
     \<Rightarrow> ('msig, 'sk, step_outcome) round_cm" where
  "validation_collect_from_past env msg committee generator =
     (case ms_payload msg of
        PValidationQuorum vq \<Rightarrow>
          if \<not> is_emergency_iter (ch_iteration (ms_header msg)) then cm_err InvalidMsgType
          else if \<not> vote_is_valid (vr_vote (vq_result vq)) then cm_err InvalidMsgType
          else
            cm_bind (cm_tell [StoreValidationResult (vq_header vq) (vq_result vq)]) (\<lambda>_.
              cm_ret (Ready (message_from (PValidationResult (vq_result vq)))))
      | PValidation p \<Rightarrow>
          let vote = va_vote p in
          if vote = NoQuorum then cm_err (InvalidVote vote)
          else
            cm_bind (cm_try (collect_validation env committee p)) (\<lambda>collected.
            case collected of
              Inl _ \<Rightarrow> cm_ret Pending
            | Inr (sv, q_reached) \<Rightarrow>
                cm_bind (record_step_votes (ch_iteration (va_header p)) vote sv Validation q_reached generator) (\<lambda>_.
                if vote_is_valid vote \<and> q_reached then
                  cm_bind (build_validation_result sv vote QValid (va_header p)) (\<lambda>vr. cm_ret (Ready vr))
                else cm_ret Pending))
      | _ \<Rightarrow> cm_err InvalidMsgType)"

section \<open>Ratification\<close>

definition rat_build_quorum_msg ::
    "'sk round_update \<Rightarrow> u8 \<Rightarrow> vote \<Rightarrow> step_votes \<Rightarrow> step_votes \<Rightarrow> message" where
  "rat_build_quorum_msg ru iteration vote validation ratification =
     message_from (PQuorum
       \<lparr>qu_header = round_header ru iteration,
        qu_att = \<lparr>at_result = result_of_vote vote, at_validation = validation, at_ratification = ratification\<rparr>\<rparr>)"

text \<open>The vote is compared with the result of the validation this node knows, which it may replace.\<close>

definition check_validation_result ::
    "('mpk, 'msig, 'sk) consensus_env \<Rightarrow> ratification \<Rightarrow> ('msig, 'sk, unit) round_cm" where
  "check_validation_result env p =
     (let vote = ra_vote p in
      if vote = NoQuorum then cm_ret ()
      else
        cm_bind (cm_gets (\<lambda>s. vr_vote (rh_validation_result s))) (\<lambda>local_vote.
        if local_vote = vote then cm_ret ()
        else if local_vote \<noteq> NoQuorum \<and> \<not> is_emergency_iter (ch_iteration (ra_header p))
        then cm_err (VoteMismatch local_vote vote)
        else
          cm_bind (cm_gets (\<lambda>s. it_committees (rs_ctx s))) (\<lambda>rc.
          cm_bind (cm_lift (verify_validation_result (ce_crypto env) (ra_header p) (ra_validation_result p) rc)) (\<lambda>_.
            cm_modify (\<lambda>s. s\<lparr>rh_validation_result := ra_validation_result p\<rparr>)))))"

definition ratification_collect ::
    "('mpk, 'msig, 'sk) consensus_env \<Rightarrow> message \<Rightarrow> committee \<Rightarrow> public_key option
     \<Rightarrow> ('msig, 'sk, step_outcome) round_cm" where
  "ratification_collect env msg committee generator =
     (case ms_payload msg of
        PRatification p \<Rightarrow>
          let vote = ra_vote p; iteration = ch_iteration (ra_header p) in
          cm_bind (cm_gets rh_curr_iteration) (\<lambda>curr_iteration.
          if iteration \<noteq> curr_iteration then cm_err (InvalidMsgIteration iteration)
          else if vr_vote (ra_validation_result p) \<noteq> vote
          then cm_err (VoteMismatch (vr_vote (ra_validation_result p)) vote)
          else
            cm_bind (check_validation_result env p) (\<lambda>_.
            cm_bind (collect_ratification env committee p) (\<lambda>(ratification_sv, q_reached).
            cm_bind (record_step_votes iteration vote ratification_sv Ratification q_reached generator) (\<lambda>_.
            if q_reached then
              cm_bind (cm_gets (\<lambda>s. vr_sv (rh_validation_result s))) (\<lambda>validation_sv.
                cm_ret (Ready (rat_build_quorum_msg (ce_ru env) iteration vote validation_sv ratification_sv)))
            else cm_ret Pending))))
      | _ \<Rightarrow> cm_err InvalidMsgType)"

definition ratification_collect_from_past ::
    "('mpk, 'msig, 'sk) consensus_env \<Rightarrow> message \<Rightarrow> committee \<Rightarrow> public_key option
     \<Rightarrow> ('msig, 'sk, step_outcome) round_cm" where
  "ratification_collect_from_past env msg committee generator =
     (case ms_payload msg of
        PRatification p \<Rightarrow>
          cm_bind (cm_try (collect_ratification env committee p)) (\<lambda>collected.
          case collected of
            Inl _ \<Rightarrow> cm_ret Pending
          | Inr (sv, q_reached) \<Rightarrow>
              cm_bind (record_step_votes (ch_iteration (ra_header p)) (ra_vote p) sv Ratification q_reached generator)
                (\<lambda>quorum_msg. cm_ret (case quorum_msg of Some m \<Rightarrow> Ready m | None \<Rightarrow> Pending)))
      | _ \<Rightarrow> cm_err InvalidMsgType)"

section \<open>All steps\<close>

definition handler_collect ::
    "('mpk, 'msig, 'sk) consensus_env \<Rightarrow> step_name \<Rightarrow> message \<Rightarrow> committee \<Rightarrow> public_key option
     \<Rightarrow> ('msig, 'sk, step_outcome) round_cm" where
  "handler_collect env step msg committee generator =
     (case step of
        Proposal \<Rightarrow> proposal_collect msg
      | Validation \<Rightarrow> validation_collect env msg committee generator
      | Ratification \<Rightarrow> ratification_collect env msg committee generator)"

definition process_past_msg ::
    "('mpk, 'msig, 'sk) consensus_env \<Rightarrow> message \<Rightarrow> ('msig, 'sk, message option) round_cm" where
  "process_past_msg env msg =
     cm_bind (cm_gets rs_ctx) (\<lambda>ctx.
     case rc_get_committee (message_step msg) (it_committees ctx) of
       None \<Rightarrow> cm_ret None
     | Some committee \<Rightarrow>
         let generator = it_get_generator (ch_iteration (ms_header msg)) ctx in
         cm_bind (cm_try (case ms_topic msg of
              TCandidate \<Rightarrow> proposal_collect msg
            | TValidation \<Rightarrow> validation_collect_from_past env msg committee generator
            | TValidationQuorum \<Rightarrow> validation_collect_from_past env msg committee generator
            | TRatification \<Rightarrow> ratification_collect_from_past env msg committee generator
            | _ \<Rightarrow> cm_ret Pending)) (\<lambda>r.
         cm_ret (case r of Inr (Ready m) \<Rightarrow> Some m | _ \<Rightarrow> None)))"

end
