(* ===== verification/Consensus_Steps.thy ===== *)
theory Consensus_Steps
  imports Consensus_Collect
begin

text \<open>
  The consensus task of a round: the execution of a step (\<^verbatim>\<open>consensus/src/execution_ctx.rs\<close>), the three steps
  (\<^verbatim>\<open>proposal/step.rs\<close>, \<^verbatim>\<open>validation/step.rs\<close>, \<^verbatim>\<open>ratification/step.rs\<close>, \<^verbatim>\<open>phase.rs\<close>) and the loop over the
  iterations (\<^verbatim>\<open>consensus.rs\<close>).  The arrival of messages and the expiry of deadlines are given as a list of
  events; when they are used up, the task is waiting.  A task that casts a vote has done so when it is started.
\<close>

section \<open>Votes for former iterations\<close>

definition am_member :: "('mpk, 'msig, 'sk) consensus_env \<Rightarrow> committee \<Rightarrow> bool" where
  "am_member env committee = is_member (ru_pubkey_bls (ce_ru env)) committee"

definition try_cast_validation_vote ::
    "('mpk, 'msig, 'sk) consensus_env \<Rightarrow> block \<Rightarrow> ('msig, 'sk, unit) round_cm" where
  "try_cast_validation_vote env candidate =
     (let msg_iteration = h_iteration (bl_header candidate) in
      cm_bind (cm_gets rs_ctx) (\<lambda>ctx.
      case rc_get_committee (to_step Validation msg_iteration) (it_committees ctx) of
        None \<Rightarrow> cm_ret ()
      | Some committee \<Rightarrow>
          if am_member env committee then
            cm_bind (cm_expect ''generator to exists'' (it_get_generator msg_iteration ctx)) (\<lambda>expected_generator.
              validation_try_vote env msg_iteration (Some candidate) expected_generator)
          else cm_ret ()))"

definition try_cast_ratification_vote ::
    "('mpk, 'msig, 'sk) consensus_env \<Rightarrow> u8 \<Rightarrow> validation_result \<Rightarrow> ('msig, 'sk, unit) round_cm" where
  "try_cast_ratification_vote env msg_iteration validation =
     cm_bind (cm_gets rs_ctx) (\<lambda>ctx.
     case rc_get_committee (to_step Ratification msg_iteration) (it_committees ctx) of
       None \<Rightarrow> cm_ret ()
     | Some committee \<Rightarrow>
         if am_member env committee then
           cm_bind (ratification_try_vote env msg_iteration validation) (\<lambda>_. cm_ret ())
         else cm_ret ())"

definition past_result ::
    "('mpk, 'msig, 'sk) consensus_env \<Rightarrow> u8 \<Rightarrow> message \<Rightarrow> ('msig, 'sk, unit) round_cm" where
  "past_result env msg_iteration m =
     (case ms_payload m of
        PCandidate candidate \<Rightarrow> try_cast_validation_vote env candidate
      | PValidationResult result \<Rightarrow>
          if vr_quorum result = QValid then try_cast_ratification_vote env msg_iteration result else cm_ret ()
      | PQuorum q \<Rightarrow>
          if vote_is_valid (result_vote (at_result (qu_att q))) then cm_tell [Outbound m] else cm_ret ()
      | _ \<Rightarrow> cm_ret ())"

definition handle_past_msg ::
    "('mpk, 'msig, 'sk) consensus_env \<Rightarrow> message \<Rightarrow> ('msig, 'sk, unit) round_cm" where
  "handle_past_msg env msg =
     (if ch_round (ms_header msg) \<noteq> ru_round (ce_ru env) then cm_ret ()
      else
        cm_bind (if ms_topic msg \<noteq> TValidationQuorum then cm_tell [Outbound msg] else cm_ret ()) (\<lambda>_.
        if \<not> is_emergency_iter (ch_iteration (ms_header msg)) then cm_ret ()
        else
          cm_bind (process_past_msg env msg) (\<lambda>r.
          case r of None \<Rightarrow> cm_ret () | Some m \<Rightarrow> past_result env (ch_iteration (ms_header msg)) m)))"

section \<open>Inbound messages\<close>

definition cm_generate_committees ::
    "('mpk, 'msig, 'sk) consensus_env \<Rightarrow> u8 \<Rightarrow> ('msig, 'sk, unit) round_cm" where
  "cm_generate_committees env iteration s =
     co_bind (generate_iteration_committees (ce_hash env) iteration (ce_provisioners env) (ru_seed (ce_ru env)) (rs_ctx s))
       (\<lambda>ctx. Some (Inr (Inr (), s\<lparr>rs_ctx := ctx\<rparr>, [])))"

definition same_prev_hash :: "('mpk, 'msig, 'sk) consensus_env \<Rightarrow> message \<Rightarrow> bool" where
  "same_prev_hash env msg \<longleftrightarrow>
     ch_round (ms_header msg) = ru_round (ce_ru env) \<and> ch_prev_block_hash (ms_header msg) = ru_hash (ce_ru env)"

definition not_eligible :: "('mpk, 'msig, 'sk) consensus_env \<Rightarrow> message \<Rightarrow> bool" where
  "not_eligible env msg =
     (case get_signer (ce_crypto env) msg of
        None \<Rightarrow> False
      | Some signer \<Rightarrow> \<not> list_ex (\<lambda>(p, _). p = signer) (eligibles (ch_round (ms_header msg)) (ce_provisioners env)))"

definition handle_future_event ::
    "('mpk, 'msig, 'sk) consensus_env \<Rightarrow> message \<Rightarrow> ('msig, 'sk, unit) round_cm" where
  "handle_future_event env msg s =
     (if \<not> same_prev_hash env msg \<and> not_eligible env msg then cm_ret () s
      else if ch_round (ms_header msg) > ru_round (ce_ru env) + MAX_ROUND_DISTANCE then cm_ret () s
      else case put_msg (ce_crypto env) (ce_cap env) msg (rs_future_msgs s) of
        (Inr m, reg) \<Rightarrow> cm_tell [Outbound m] (s\<lparr>rs_future_msgs := reg\<rparr>)
      | (Inl _, reg) \<Rightarrow> cm_ret () (s\<lparr>rs_future_msgs := reg\<rparr>))"

definition cm_is_valid ::
    "('mpk, 'msig, 'sk) consensus_env \<Rightarrow> message \<Rightarrow> u8 \<Rightarrow> step_name \<Rightarrow> committee \<Rightarrow> ('msig, 'sk, consensus_error + unit) round_cm" where
  "cm_is_valid env msg iteration step committee = cm_try (\<lambda>s. cm_check (is_valid env msg iteration step committee s) s)"

text \<open>The message is published again and collected.\<close>

definition accept_message ::
    "('mpk, 'msig, 'sk) consensus_env \<Rightarrow> step_name \<Rightarrow> message \<Rightarrow> committee \<Rightarrow> public_key option
     \<Rightarrow> ('msig, 'sk, message option) round_cm" where
  "accept_message env step msg committee generator =
     cm_bind (cm_tell [Outbound msg]) (\<lambda>_.
     cm_bind (cm_try (handler_collect env step msg committee generator)) (\<lambda>collected.
       cm_ret (case collected of Inr (Ready m) \<Rightarrow> Some m | _ \<Rightarrow> None)))"

definition process_inbound_msg ::
    "('mpk, 'msig, 'sk) consensus_env \<Rightarrow> u8 \<Rightarrow> step_name \<Rightarrow> message \<Rightarrow> ('msig, 'sk, message option) round_cm" where
  "process_inbound_msg env iteration step msg =
     cm_bind (if same_prev_hash env msg \<and> ch_iteration (ms_header msg) > iteration
              then cm_generate_committees env (ch_iteration (ms_header msg)) else cm_ret ()) (\<lambda>_.
     cm_bind (cm_gets rs_ctx) (\<lambda>ctx.
     cm_bind (cm_expect ''committee to be created before run''
                (rc_get_committee (to_step step iteration) (it_committees ctx))) (\<lambda>committee.
     cm_bind (cm_is_valid env msg iteration step committee) (\<lambda>valid.
     case valid of
       Inr _ \<Rightarrow> accept_message env step msg committee (it_get_generator iteration ctx)
     | Inl FutureEvent \<Rightarrow> cm_bind (handle_future_event env msg) (\<lambda>_. cm_ret None)
     | Inl PastEvent \<Rightarrow> cm_bind (handle_past_msg env msg) (\<lambda>_. cm_ret None)
     | Inl _ \<Rightarrow> cm_ret None))))"

section \<open>The event loop\<close>

datatype event = Received message | ReceiveError | Deadline

datatype loop_result = Continue bool | Finish message

definition is_last_step :: "u8 \<Rightarrow> step_name \<Rightarrow> bool" where
  "is_last_step iteration step \<longleftrightarrow> iteration = CONSENSUS_MAX_ITER - 1 \<and> step = Ratification"

definition process_timeout_event ::
    "('mpk, 'msig, 'sk) consensus_env \<Rightarrow> u8 \<Rightarrow> step_name \<Rightarrow> ('msig, 'sk, unit) round_cm" where
  "process_timeout_event env iteration step s =
     (case on_timeout_event step (rs_ctx s) of
        Inl e \<Rightarrow> Some (Inl e)
      | Inr ctx \<Rightarrow>
          (case handle_timeout step (ce_ru env) iteration of
             Some msg \<Rightarrow> cm_tell [Outbound msg]
           | None \<Rightarrow> cm_ret ()) (s\<lparr>rs_ctx := ctx\<rparr>))"

text \<open>A message of a step, and its result in open consensus mode.\<close>

definition step_message_event ::
    "('mpk, 'msig, 'sk) consensus_env \<Rightarrow> u8 \<Rightarrow> step_name \<Rightarrow> bool \<Rightarrow> message \<Rightarrow> ('msig, 'sk, loop_result) round_cm" where
  "step_message_event env iteration step open_mode msg =
     cm_bind (process_inbound_msg env iteration step msg) (\<lambda>r.
     case r of
       None \<Rightarrow> cm_ret (Continue open_mode)
     | Some step_result \<Rightarrow>
         if \<not> open_mode then cm_ret (Finish step_result)
         else
           cm_bind (case ms_payload step_result of
                PQuorum qmsg \<Rightarrow>
                  (case at_result (qu_att qmsg) of Success _ \<Rightarrow> cm_tell [Outbound msg] | Fail _ \<Rightarrow> cm_ret ())
              | _ \<Rightarrow> cm_ret ()) (\<lambda>_.
             cm_ret (Continue open_mode)))"

definition store_fail_attestation ::
    "('mpk, 'msig, 'sk) consensus_env \<Rightarrow> quorum \<Rightarrow> ('msig, 'sk, unit) round_cm" where
  "store_fail_attestation env qmsg =
     (let qiter = ch_iteration (qu_header qmsg); att = qu_att qmsg in
      case at_result att of
        Success _ \<Rightarrow> cm_ret ()
      | Fail _ \<Rightarrow>
          cm_bind (cm_gets (\<lambda>s. get_fail_att (ce_order env) qiter (rs_sv_registry s))) (\<lambda>known.
          if known \<noteq> None then cm_ret ()
          else
            cm_bind (cm_gets rs_ctx) (\<lambda>ctx.
            cm_bind (cm_expect ''There must be a valid generator'' (it_get_generator qiter ctx)) (\<lambda>generator.
              cm_modify (\<lambda>s. s\<lparr>rs_sv_registry := set_attestation qiter att generator (rs_sv_registry s)\<rparr>)))))"

definition quorum_event ::
    "('mpk, 'msig, 'sk) consensus_env \<Rightarrow> u8 \<Rightarrow> bool \<Rightarrow> message \<Rightarrow> quorum \<Rightarrow> ('msig, 'sk, loop_result) round_cm" where
  "quorum_event env iteration open_mode msg qmsg =
     (let h = qu_header qmsg; ru = ce_ru env in
      if ch_round h \<noteq> ru_round ru \<or> ch_prev_block_hash h \<noteq> ru_hash ru \<or> ch_iteration h > iteration
      then cm_ret (Continue open_mode)
      else if open_mode then
        cm_bind (case at_result (qu_att qmsg) of Success _ \<Rightarrow> cm_tell [Outbound msg] | Fail _ \<Rightarrow> cm_ret ()) (\<lambda>_.
          cm_ret (Continue open_mode))
      else
        cm_bind (store_fail_attestation env qmsg) (\<lambda>_.
          cm_ret (if ch_iteration h = iteration then Finish msg else Continue open_mode)))"

definition event_step ::
    "('mpk, 'msig, 'sk) consensus_env \<Rightarrow> u8 \<Rightarrow> step_name \<Rightarrow> bool \<Rightarrow> event \<Rightarrow> ('msig, 'sk, loop_result) round_cm" where
  "event_step env iteration step open_mode ev =
     (case ev of
        Received msg \<Rightarrow>
          (case ms_payload msg of
             PCandidate _ \<Rightarrow> step_message_event env iteration step open_mode msg
           | PValidation _ \<Rightarrow> step_message_event env iteration step open_mode msg
           | PRatification _ \<Rightarrow> step_message_event env iteration step open_mode msg
           | PValidationQuorum _ \<Rightarrow> step_message_event env iteration step open_mode msg
           | PQuorum qmsg \<Rightarrow> quorum_event env iteration open_mode msg qmsg
           | _ \<Rightarrow> cm_ret (Continue open_mode))
      | ReceiveError \<Rightarrow> cm_ret (Continue open_mode)
      | Deadline \<Rightarrow>
          if is_last_step iteration step then cm_ret (Continue True)
          else cm_bind (process_timeout_event env iteration step) (\<lambda>_. cm_ret (Finish message_empty)))"

text \<open>The message that ends the step, or \<open>None\<close> while the loop waits, and the events that are left.\<close>

fun event_loop_from ::
    "('mpk, 'msig, 'sk) consensus_env \<Rightarrow> u8 \<Rightarrow> step_name \<Rightarrow> bool \<Rightarrow> event list
     \<Rightarrow> ('msig, 'sk, message option \<times> event list) round_cm" where
  "event_loop_from env iteration step open_mode [] = cm_ret (None, [])"
| "event_loop_from env iteration step open_mode (ev # evs) =
     cm_bind (event_step env iteration step open_mode ev) (\<lambda>r.
     case r of
       Finish m \<Rightarrow> cm_ret (Some m, evs)
     | Continue open_mode \<Rightarrow> event_loop_from env iteration step open_mode evs)"

definition event_loop ::
    "('mpk, 'msig, 'sk) consensus_env \<Rightarrow> u8 \<Rightarrow> step_name \<Rightarrow> event list
     \<Rightarrow> ('msig, 'sk, message option \<times> event list) round_cm" where
  "event_loop env iteration step evs =
     cm_bind (\<lambda>s. cm_check (res_map Inr (get_timeout step (rs_ctx s))) s) (\<lambda>_.
       event_loop_from env iteration step False evs)"

section \<open>Messages that arrived early\<close>

fun future_msgs_loop ::
    "('mpk, 'msig, 'sk) consensus_env \<Rightarrow> u8 \<Rightarrow> step_name \<Rightarrow> committee \<Rightarrow> public_key option \<Rightarrow> message list
     \<Rightarrow> ('msig, 'sk, step_outcome) round_cm" where
  "future_msgs_loop env iteration step committee generator [] = cm_ret Pending"
| "future_msgs_loop env iteration step committee generator (msg # msgs) =
     cm_bind (cm_is_valid env msg iteration step committee) (\<lambda>ret.
     case ret of
       Inl _ \<Rightarrow> future_msgs_loop env iteration step committee generator msgs
     | Inr _ \<Rightarrow>
         cm_bind (accept_message env step msg committee generator) (\<lambda>r.
         case r of
           Some m \<Rightarrow> cm_ret (Ready m)
         | None \<Rightarrow> future_msgs_loop env iteration step committee generator msgs))"

definition handle_future_msgs ::
    "('mpk, 'msig, 'sk) consensus_env \<Rightarrow> u8 \<Rightarrow> step_name \<Rightarrow> ('msig, 'sk, step_outcome) round_cm" where
  "handle_future_msgs env iteration step =
     cm_bind (cm_gets rs_ctx) (\<lambda>ctx.
     cm_bind (cm_expect ''committee to be created before run''
                (rc_get_committee (to_step step iteration) (it_committees ctx))) (\<lambda>committee.
     cm_bind (\<lambda>s. case drain_msg_by_round_step (ru_round (ce_ru env)) (to_step step iteration) (rs_future_msgs s) of
                (messages, reg) \<Rightarrow> Some (Inr (Inr messages, s\<lparr>rs_future_msgs := reg\<rparr>, []))) (\<lambda>messages.
     case messages of
       None \<Rightarrow> cm_ret Pending
     | Some msgs \<Rightarrow> future_msgs_loop env iteration step committee (it_get_generator iteration ctx) msgs)))"

section \<open>The steps\<close>

text \<open>The messages that are waiting, and then the event loop.\<close>

definition await_step ::
    "('mpk, 'msig, 'sk) consensus_env \<Rightarrow> u8 \<Rightarrow> step_name \<Rightarrow> event list
     \<Rightarrow> ('msig, 'sk, message option \<times> event list) round_cm" where
  "await_step env iteration step evs =
     cm_bind (handle_future_msgs env iteration step) (\<lambda>r.
     case r of Ready m \<Rightarrow> cm_ret (Some m, evs) | Pending \<Rightarrow> event_loop env iteration step evs)"

definition current_committee ::
    "u8 \<Rightarrow> step_name \<Rightarrow> ('msig, 'sk, committee) round_cm" where
  "current_committee iteration step =
     cm_bind (cm_gets rs_ctx) (\<lambda>ctx.
       cm_expect ''committee to be created before run'' (rc_get_committee (to_step step iteration) (it_committees ctx)))"

definition proposal_run ::
    "('mpk, 'msig, 'sk) consensus_env \<Rightarrow> u8 \<Rightarrow> event list \<Rightarrow> ('msig, 'sk, message option \<times> event list) round_cm" where
  "proposal_run env iteration evs =
     cm_bind (current_committee iteration Proposal) (\<lambda>committee.
     if am_member env committee then
       cm_bind (cm_gets (\<lambda>s. get_failed_atts (ce_order env) (min MESSAGE_MAX_FAILED_ITERATIONS iteration)
                  (rs_sv_registry s))) (\<lambda>failed_attestations.
       case ce_generate env iteration failed_attestations of
         None \<Rightarrow> await_step env iteration Proposal evs
       | Some msg \<Rightarrow>
           cm_bind (cm_tell [Outbound msg]) (\<lambda>_.
           cm_bind (cm_try (proposal_collect msg)) (\<lambda>r.
           case r of
             Inr (Ready m) \<Rightarrow> cm_ret (Some m, evs)
           | _ \<Rightarrow> await_step env iteration Proposal evs)))
     else await_step env iteration Proposal evs)"

definition validation_reinitialize :: "message \<Rightarrow> u8 \<Rightarrow> ('msig, 'sk, unit) round_cm" where
  "validation_reinitialize msg iteration =
     cm_modify (\<lambda>s. s\<lparr>vh_candidate := (case ms_payload msg of PCandidate b \<Rightarrow> Some b | _ \<Rightarrow> None),
                       vh_curr_iteration := iteration\<rparr>)"

definition validation_run ::
    "('mpk, 'msig, 'sk) consensus_env \<Rightarrow> u8 \<Rightarrow> event list \<Rightarrow> ('msig, 'sk, message option \<times> event list) round_cm" where
  "validation_run env iteration evs =
     cm_bind (current_committee iteration Validation) (\<lambda>committee.
     cm_bind (if am_member env committee then
          cm_bind (cm_gets vh_candidate) (\<lambda>candidate.
          cm_bind (cm_gets rs_ctx) (\<lambda>ctx.
          cm_bind (cm_expect ''Generator to be created '' (it_get_generator iteration ctx)) (\<lambda>current_generator.
          if candidate \<noteq> None \<or> \<not> is_emergency_iter iteration
          then spawn_try_vote env iteration candidate current_generator else cm_ret ())))
        else cm_ret ()) (\<lambda>_.
       await_step env iteration Validation evs))"

definition ratification_reinitialize :: "message \<Rightarrow> u8 \<Rightarrow> ('msig, 'sk, unit) round_cm" where
  "ratification_reinitialize msg iteration =
     cm_modify (\<lambda>s. s\<lparr>rh_validation_result :=
         (case ms_payload msg of PValidationResult p \<Rightarrow> p | _ \<Rightarrow> validation_result_default),
       rh_curr_iteration := iteration\<rparr>)"

definition ratification_run ::
    "('mpk, 'msig, 'sk) consensus_env \<Rightarrow> u8 \<Rightarrow> event list \<Rightarrow> ('msig, 'sk, message option \<times> event list) round_cm" where
  "ratification_run env iteration evs =
     cm_bind (current_committee iteration Ratification) (\<lambda>committee.
     if am_member env committee then
       cm_bind (cm_gets rh_validation_result) (\<lambda>result.
       cm_bind (cm_gets rs_ctx) (\<lambda>ctx.
       cm_bind (ratification_try_vote env iteration result) (\<lambda>vote_msg.
       cm_bind (cm_try (ratification_collect env vote_msg committee (it_get_generator iteration ctx))) (\<lambda>r.
       case r of
         Inr (Ready m) \<Rightarrow> cm_ret (Some m, evs)
       | _ \<Rightarrow> await_step env iteration Ratification evs))))
     else await_step env iteration Ratification evs)"

definition phase_reinitialize :: "step_name \<Rightarrow> message \<Rightarrow> u8 \<Rightarrow> ('msig, 'sk, unit) round_cm" where
  "phase_reinitialize step msg iteration =
     (case step of
        Proposal \<Rightarrow> cm_ret ()
      | Validation \<Rightarrow> validation_reinitialize msg iteration
      | Ratification \<Rightarrow> ratification_reinitialize msg iteration)"

definition phase_run ::
    "('mpk, 'msig, 'sk) consensus_env \<Rightarrow> u8 \<Rightarrow> step_name \<Rightarrow> event list
     \<Rightarrow> ('msig, 'sk, message option \<times> event list) round_cm" where
  "phase_run env iteration step evs =
     cm_bind (\<lambda>s. cm_check (res_map Inr (get_timeout step (rs_ctx s))) s) (\<lambda>_.
     case step of
       Proposal \<Rightarrow> proposal_run env iteration evs
     | Validation \<Rightarrow> validation_run env iteration evs
     | Ratification \<Rightarrow> ratification_run env iteration evs)"

section \<open>The round\<close>

text \<open>The steps of an iteration; the result says whether it is over, and which events are left.\<close>

fun run_phases ::
    "('mpk, 'msig, 'sk) consensus_env \<Rightarrow> u8 \<Rightarrow> step_name list \<Rightarrow> message \<Rightarrow> event list
     \<Rightarrow> ('msig, 'sk, bool \<times> event list) round_cm" where
  "run_phases env iteration [] msg evs = cm_ret (True, evs)"
| "run_phases env iteration (step # steps) msg evs =
     cm_bind (phase_reinitialize step msg iteration) (\<lambda>_.
     cm_bind (phase_run env iteration step evs) (\<lambda>(r, evs).
     case r of
       None \<Rightarrow> cm_ret (False, evs)
     | Some msg \<Rightarrow>
         (case ms_payload msg of
            PQuorum _ \<Rightarrow> cm_bind (cm_tell [Outbound msg]) (\<lambda>_. cm_ret (True, evs))
          | _ \<Rightarrow> run_phases env iteration steps msg evs)))"

text \<open>The iterations of a round, at most \<open>n\<close> of them.\<close>

fun run_iterations ::
    "('mpk, 'msig, 'sk) consensus_env \<Rightarrow> nat \<Rightarrow> u8 \<Rightarrow> event list \<Rightarrow> ('msig, 'sk, unit) round_cm" where
  "run_iterations env 0 iteration evs = cm_ret ()"
| "run_iterations env (Suc n) iteration evs =
     cm_bind (cm_tell [StoreLastIter (ru_hash (ce_ru env)) iteration]) (\<lambda>_.
     cm_bind (cm_modify (\<lambda>s. s\<lparr>rs_ctx := on_begin iteration (rs_ctx s)\<rparr>)) (\<lambda>_.
     cm_bind (cm_generate_committees env iteration) (\<lambda>_.
     cm_bind (run_phases env iteration [Proposal, Validation, Ratification] message_empty evs) (\<lambda>(over, evs).
     if over then run_iterations env n (next_iteration iteration) evs else cm_ret ()))))"

definition round_state_new ::
    "('mpk, 'msig, 'sk) consensus_env \<Rightarrow> iteration_ctx \<Rightarrow> msg_registry \<Rightarrow> ('msig, 'sk) round_state" where
  "round_state_new env ctx future_msgs =
     \<lparr>rs_ctx = ctx,
      rs_future_msgs = (if ru_round (ce_ru env) > 0
                        then remove_msgs_by_round (ru_round (ce_ru env) - 1) future_msgs else future_msgs),
      rs_sv_registry = att_registry_new (ce_ru env),
      vh_aggr = aggregator_default, vh_candidate = None, vh_curr_iteration = 0,
      rh_aggregator = aggregator_default, rh_validation_result = validation_result_default, rh_curr_iteration = 0\<rparr>"

definition spawn_consensus ::
    "('mpk, 'msig, 'sk) consensus_env \<Rightarrow> msg_registry \<Rightarrow> hash \<times> u8 \<Rightarrow> nat \<Rightarrow> event list
     \<Rightarrow> ((consensus_error + unit) \<times> ('msig, 'sk) round_state \<times> effect list) res option" where
  "spawn_consensus env future_msgs last_iter n evs =
     co_bind (round_start (ce_hash env) (ce_ru env) (ce_provisioners env) last_iter) (\<lambda>(ctx, iteration).
       run_iterations env n iteration evs (round_state_new env ctx future_msgs))"

end
