(* ===== verification/Consensus_Logic.thy ===== *)
theory Consensus_Logic
  imports Consensus_Steps
begin

text \<open>
  A Hoare logic for the computations of the consensus task.  A triple is total: from a state with the
  precondition the computation returns without a panic, its effects satisfy a predicate, and its result and
  final state satisfy the postcondition.
\<close>

named_theorems triple_intros

definition cm_triple ::
    "('s \<Rightarrow> bool) \<Rightarrow> ('s, 'a) cm \<Rightarrow> (effect \<Rightarrow> bool) \<Rightarrow> (consensus_error + 'a \<Rightarrow> 's \<Rightarrow> bool) \<Rightarrow> bool" where
  "cm_triple P m E Q \<longleftrightarrow>
     (\<forall>s. P s \<longrightarrow> (\<exists>r s' es. m s = Some (Inr (r, s', es)) \<and> Q r s' \<and> (\<forall>e \<in> set es. E e)))"

lemma cm_tripleI:
  "(\<And>s. P s \<Longrightarrow> \<exists>r s' es. m s = Some (Inr (r, s', es)) \<and> Q r s' \<and> (\<forall>e \<in> set es. E e)) \<Longrightarrow> cm_triple P m E Q"
  by (simp add: cm_triple_def)

lemma cm_tripleE:
  assumes "cm_triple P m E Q" and "P s"
  obtains r s' es where "m s = Some (Inr (r, s', es))" and "Q r s'" and "\<forall>e \<in> set es. E e"
  using assms unfolding cm_triple_def by blast

lemma triple_conseq:
  assumes "cm_triple P' m E Q'" and "\<And>s. P s \<Longrightarrow> P' s" and "\<And>r s. Q' r s \<Longrightarrow> Q r s"
  shows "cm_triple P m E Q"
  using assms unfolding cm_triple_def by metis

lemma triple_pre: "cm_triple P' m E Q \<Longrightarrow> (\<And>s. P s \<Longrightarrow> P' s) \<Longrightarrow> cm_triple P m E Q"
  by (rule triple_conseq)

lemma triple_post: "cm_triple P m E Q' \<Longrightarrow> (\<And>r s. Q' r s \<Longrightarrow> Q r s) \<Longrightarrow> cm_triple P m E Q"
  by (rule triple_conseq)

text \<open>A condition that does not depend on the state can be assumed outright.\<close>

lemma triple_fact: "(C \<Longrightarrow> cm_triple P m E Q) \<Longrightarrow> cm_triple (\<lambda>s. P s \<and> C) m E Q"
  by (simp add: cm_triple_def)

lemma triple_state: "(\<And>s0. P s0 \<Longrightarrow> cm_triple (\<lambda>s. s = s0) m E Q) \<Longrightarrow> cm_triple P m E Q"
  by (simp add: cm_triple_def)

lemma triple_bind:
  assumes "cm_triple P m E R" and "\<And>x. cm_triple (R (Inr x)) (f x) E Q" and "\<And>e s. R (Inl e) s \<Longrightarrow> Q (Inl e) s"
  shows "cm_triple P (cm_bind m f) E Q"
proof (rule cm_tripleI)
  fix s
  assume "P s"
  with assms(1) obtain r s1 o1 where m: "m s = Some (Inr (r, s1, o1))" "R r s1" "\<forall>e \<in> set o1. E e"
    by (rule cm_tripleE)
  show "\<exists>r s' es. cm_bind m f s = Some (Inr (r, s', es)) \<and> Q r s' \<and> (\<forall>e \<in> set es. E e)"
  proof (cases r)
    case (Inl e)
    then show ?thesis using m assms(3) by (simp add: cm_bind_def)
  next
    case (Inr x)
    then have "R (Inr x) s1" using m by simp
    with assms(2) obtain r2 s2 o2 where "f x s1 = Some (Inr (r2, s2, o2))" "Q r2 s2" "\<forall>e \<in> set o2. E e"
      by (rule cm_tripleE)
    then show ?thesis using m Inr by (auto simp: cm_bind_def)
  qed
qed

lemma triple_ret [triple_intros]: "(\<And>s. P s \<Longrightarrow> Q (Inr x) s) \<Longrightarrow> cm_triple P (cm_ret x) E Q"
  by (simp add: cm_triple_def cm_ret_def)

lemma triple_err [triple_intros]: "(\<And>s. P s \<Longrightarrow> Q (Inl e) s) \<Longrightarrow> cm_triple P (cm_err e) E Q"
  by (simp add: cm_triple_def cm_err_def)

lemma triple_gets [triple_intros]: "(\<And>s. P s \<Longrightarrow> Q (Inr (f s)) s) \<Longrightarrow> cm_triple P (cm_gets f) E Q"
  by (simp add: cm_triple_def cm_gets_def)

lemma triple_modify [triple_intros]: "(\<And>s. P s \<Longrightarrow> Q (Inr ()) (f s)) \<Longrightarrow> cm_triple P (cm_modify f) E Q"
  by (simp add: cm_triple_def cm_modify_def)

lemma triple_tell [triple_intros]:
  "(\<And>s. P s \<Longrightarrow> Q (Inr ()) s) \<Longrightarrow> (\<And>e s. P s \<Longrightarrow> e \<in> set es \<Longrightarrow> E e) \<Longrightarrow> cm_triple P (cm_tell es) E Q"
  by (simp add: cm_triple_def cm_tell_def)

lemma triple_lift [triple_intros]: "(\<And>s. P s \<Longrightarrow> Q r s) \<Longrightarrow> cm_triple P (cm_lift r) E Q"
  by (simp add: cm_triple_def cm_lift_def)

lemma triple_expect [triple_intros]:
  "(\<And>s. P s \<Longrightarrow> x \<noteq> None) \<Longrightarrow> (\<And>s v. P s \<Longrightarrow> x = Some v \<Longrightarrow> Q (Inr v) s) \<Longrightarrow> cm_triple P (cm_expect msg x) E Q"
  by (cases x) (auto simp: cm_triple_def cm_expect_def cm_ret_def)

lemma triple_check:
  "(\<And>s. P s \<Longrightarrow> \<exists>r. f s = Inr r \<and> Q r s) \<Longrightarrow> cm_triple P (\<lambda>s. cm_check (f s) s) E Q"
  by (force simp: cm_triple_def cm_check_def)

lemma triple_try:
  assumes "cm_triple P m E (\<lambda>r s. Q (Inr r) s)"
  shows "cm_triple P (cm_try m) E Q"
  using assms by (fastforce simp: cm_triple_def cm_try_def)

lemma triple_if:
  "(b \<Longrightarrow> cm_triple P m E Q) \<Longrightarrow> (\<not> b \<Longrightarrow> cm_triple P n E Q) \<Longrightarrow> cm_triple P (if b then m else n) E Q"
  by simp

lemma cm_bind_ret [simp]: "cm_bind (cm_ret x) f = f x"
  by (rule ext) (auto simp: cm_bind_def cm_ret_def co_bind_def split: option.splits sum.splits)

text \<open>The first step of a sequence only looks at the state.\<close>

lemma triple_bind_gets:
  assumes "\<And>x. cm_triple (\<lambda>s. P s \<and> x = f s) (g x) E Q"
  shows "cm_triple P (cm_bind (cm_gets f) g) E Q"
  by (rule triple_bind [where R = "\<lambda>r s. P s \<and> r = Inr (f s)"]) (use assms in \<open>auto intro: triple_intros\<close>)

lemma triple_bind_expect:
  assumes "\<And>s. P s \<Longrightarrow> x \<noteq> None" and "\<And>v. x = Some v \<Longrightarrow> cm_triple P (g v) E Q"
  shows "cm_triple P (cm_bind (cm_expect msg x) g) E Q"
proof (cases x)
  case (Some v)
  with assms(2) show ?thesis by (simp add: cm_expect_def)
qed (use assms(1) in \<open>auto simp: cm_triple_def\<close>)

lemma triple_bind_tell:
  assumes "\<And>e s. P s \<Longrightarrow> e \<in> set es \<Longrightarrow> E e" and "cm_triple P m E Q"
  shows "cm_triple P (cm_bind (cm_tell es) (\<lambda>_. m)) E Q"
  by (rule triple_bind [where R = "\<lambda>r s. P s \<and> r = Inr ()"]) (use assms in \<open>auto intro: triple_intros triple_pre\<close>)

lemma triple_bind_try:
  assumes "cm_triple P m E R" and "\<And>r. cm_triple (R r) (f r) E Q"
  shows "cm_triple P (cm_bind (cm_try m) f) E Q"
  by (rule triple_bind [where R = "\<lambda>r s. case r of Inl _ \<Rightarrow> False | Inr x \<Rightarrow> R x s"])
     (use assms in \<open>auto intro!: triple_try\<close>)

end
