(* ===== verification/Consensus_Invariant.thy ===== *)
theory Consensus_Invariant
  imports Consensus_Logic
begin

text \<open>
  The invariant of the consensus task of a round: the committees it keeps are those of the verifiers, its
  aggregators hold checked votes of these committees, the result of the validation it ratifies and the
  quorums of its registry can be verified, and the messages that wait are well formed.
\<close>

section \<open>The environment of a round\<close>

text \<open>
  What a round is given: signatures aggregate, there are provisioners to draw from, the node's own signatures
  verify, its operations return, the three steps have a timeout, and what it proposes is a candidate.
\<close>

definition round_laws :: "('mpk, 'msig, 'sk) consensus_env \<Rightarrow> bool" where
  "round_laws env \<longleftrightarrow>
     (let nc = ce_crypto env; ru = ce_ru env in
      multisig_laws nc \<and> sortable (ce_provisioners env) (ru_round ru) \<and>
      (\<forall>msg. verify_signature nc \<lparr>si_signer = ru_pubkey_bls ru,
          si_signature = ce_sign env (ru_secret_key ru) (ru_pubkey_bls ru) msg\<rparr> msg = Inr ()) \<and>
      (\<forall>b g. \<exists>v. ce_vote env b g = Some (Inr v)) \<and>
      (\<forall>s. ru_base_timeouts ru s \<noteq> None) \<and>
      (\<forall>i fails m. ce_generate env i fails = Some m \<longrightarrow> (\<exists>b. ms_payload m = PCandidate b)))"

text \<open>\<open>cof\<close> gives the committee that a verifier computes for a step.\<close>

definition round_env :: "('mpk, 'msig, 'sk) consensus_env \<Rightarrow> (u8 \<Rightarrow> committee) \<Rightarrow> bool" where
  "round_env env cof \<longleftrightarrow> round_laws env \<and> (\<forall>step. sortition_committee (cof step)) \<and>
     (\<forall>s i. s \<noteq> Proposal \<longrightarrow> i < CONSENSUS_MAX_ITER \<longrightarrow>
        get_step_committee (ce_hash env) (round_header (ce_ru env) i) (ce_provisioners env) (ru_seed (ce_ru env)) s =
          Some (Inr (cof (to_step s i))))"

lemma round_envD:
  assumes "round_env env cof"
  shows "multisig_laws (ce_crypto env)" and "sortable (ce_provisioners env) (ru_round (ce_ru env))"
    and "verify_signature (ce_crypto env) \<lparr>si_signer = ru_pubkey_bls (ce_ru env),
          si_signature = ce_sign env (ru_secret_key (ce_ru env)) (ru_pubkey_bls (ce_ru env)) msg\<rparr> msg = Inr ()"
    and "\<exists>v. ce_vote env b g = Some (Inr v)" and "ru_base_timeouts (ce_ru env) s \<noteq> None"
    and "\<forall>step. sortition_committee (cof step)"
    and "s \<noteq> Proposal \<Longrightarrow> i < CONSENSUS_MAX_ITER \<Longrightarrow>
         get_step_committee (ce_hash env) (round_header (ce_ru env) i) (ce_provisioners env) (ru_seed (ce_ru env)) s =
           Some (Inr (cof (to_step s i)))"
    and "ce_generate env i fails = Some m \<Longrightarrow> \<exists>b. ms_payload m = PCandidate b"
  using assms by (simp_all add: round_env_def round_laws_def Let_def)

text \<open>Step votes that a verifier accepts, and the attestations made of them.\<close>

definition sv_good ::
    "('mpk, 'msig, 'sk) consensus_env \<Rightarrow> (u8 \<Rightarrow> committee) \<Rightarrow> step_name \<Rightarrow> u8 \<Rightarrow> vote \<Rightarrow> step_votes \<Rightarrow> bool" where
  "sv_good env cof st i v sv \<longleftrightarrow>
     is_ok (verify_votes (ce_crypto env) (round_header (ce_ru env) i) st v sv (cof (to_step st i)))"

definition att_verifies :: "('mpk, 'msig, 'sk) consensus_env \<Rightarrow> quorum \<Rightarrow> bool" where
  "att_verifies env q \<longleftrightarrow>
     (\<exists>x. verify_att (ce_crypto env) (ce_hash env) (qu_att q) (qu_header q) (ru_seed (ce_ru env))
            (ce_provisioners env) None = run_ret x)"

lemma result_vote_of_vote [simp]: "result_vote (result_of_vote v) = v"
  by (cases v) (simp_all add: result_vote_def result_of_vote_def)

lemma good_step_votes:
  assumes "round_env env cof" and "sv_good env cof st i v sv" and "st \<noteq> Proposal" and "i < CONSENSUS_MAX_ITER"
  shows "\<exists>x. verify_step_votes (ce_crypto env) (ce_hash env) (round_header (ce_ru env) i) v sv
           (ce_provisioners env) (ru_seed (ce_ru env)) st = run_ret x"
  using assms round_envD(7) [OF assms(1,3,4)] by (auto simp: verify_step_votes_def sv_good_def is_ok_iff run_ret_def)

lemma good_attestation:
  assumes "round_env env cof" and "sv_good env cof Validation i v sv1" and "sv_good env cof Ratification i v sv2"
    and "i < CONSENSUS_MAX_ITER" and "result_vote (at_result att) = v" and "at_validation att = sv1" and "at_ratification att = sv2"
  shows "att_verifies env \<lparr>qu_header = round_header (ce_ru env) i, qu_att = att\<rparr>"
proof -
  obtain x where x: "verify_step_votes (ce_crypto env) (ce_hash env) (round_header (ce_ru env) i) v sv1
      (ce_provisioners env) (ru_seed (ce_ru env)) Validation = run_ret x"
    using good_step_votes [OF assms(1,2) _ assms(4)] by auto
  obtain y where y: "verify_step_votes (ce_crypto env) (ce_hash env) (round_header (ce_ru env) i) v sv2
      (ce_provisioners env) (ru_seed (ce_ru env)) Ratification = run_ret y"
    using good_step_votes [OF assms(1,3) _ assms(4)] by auto
  show ?thesis
    using x y assms(5-7) by (cases x; cases y) (simp add: att_verifies_def verify_att_def check_expected_def Let_def)
qed

section \<open>Messages\<close>

definition msg_wf :: "message \<Rightarrow> bool" where
  "msg_wf m \<longleftrightarrow> ms_header m = payload_header (ms_payload m) \<and> ms_topic m = payload_topic (ms_payload m) \<and>
     ch_iteration (ms_header m) < CONSENSUS_MAX_ITER \<and>
     (case ms_payload m of
        PQuorum q \<Rightarrow> at_result (qu_att q) = result_of_vote (result_vote (at_result (qu_att q)))
      | _ \<Rightarrow> True)"

text \<open>The vote in a message.\<close>

definition vote_of_msg :: "message \<Rightarrow> step_msg option" where
  "vote_of_msg m =
     (case ms_payload m of
        PValidation p \<Rightarrow> Some (ValidationMsg p) | PRatification p \<Rightarrow> Some (RatificationMsg p) | _ \<Rightarrow> None)"

definition accepted :: "('mpk, 'msig, 'sk) consensus_env \<Rightarrow> step_msg \<Rightarrow> bool" where
  "accepted env v \<longleftrightarrow> accepted_msg (ce_crypto env) (ru_hash (ce_ru env)) (ru_round (ce_ru env)) v \<and>
     ch_iteration (msg_header v) < CONSENSUS_MAX_ITER"

lemma vote_of_msg:
  assumes "vote_of_msg m = Some v" and "msg_wf m"
  shows "ms_header m = msg_header v" and "message_step m = msg_step v"
    and "ch_iteration (msg_header v) < CONSENSUS_MAX_ITER"
  using assms
  by (auto simp: vote_of_msg_def msg_wf_def payload_header_def msg_header_def message_step_def msg_step_def
      msg_step_name_def split: payload.splits)

section \<open>Caches\<close>

definition cache_inv :: "('mpk, 'msig, 'sk) consensus_env \<Rightarrow> nat \<Rightarrow> iteration_ctx \<Rightarrow> bool" where
  "cache_inv env n ctx \<longleftrightarrow>
     cache_ok (ce_hash env) (ce_provisioners env) (ru_seed (ce_ru env)) (round_header (ce_ru env) 0) ctx \<and>
     cache_full ctx \<and>
     (\<forall>s j. j < CONSENSUS_MAX_ITER \<longrightarrow> it_committees ctx (to_step s j) \<noteq> None \<longrightarrow>
        it_committees ctx (to_step Proposal j) \<noteq> None) \<and>
     (\<forall>s j. unat j < n \<longrightarrow> j < CONSENSUS_MAX_ITER \<longrightarrow> it_committees ctx (to_step s j) \<noteq> None) \<and>
     (\<forall>s. it_timeouts ctx s \<noteq> None)"

lemma cache_inv_mono: "cache_inv env n ctx \<Longrightarrow> k \<le> n \<Longrightarrow> cache_inv env k ctx"
  unfolding cache_inv_def by (meson order_less_le_trans)

lemma cached_committee:
  assumes "round_env env cof" and "cache_inv env n ctx" and "it_committees ctx (to_step s i) = Some c"
    and "s \<noteq> Proposal" and "i < CONSENSUS_MAX_ITER"
  shows "c = cof (to_step s i)"
proof -
  have "committee_at (ce_hash env) (ce_provisioners env) (ru_seed (ce_ru env)) (round_header (ce_ru env) 0) s i = Some (Inr c)"
    using assms(2,3,5) cache_okD(2) unfolding cache_inv_def by blast
  moreover have "(round_header (ce_ru env) 0)\<lparr>ch_iteration := i\<rparr> = round_header (ce_ru env) i"
    by (simp add: round_header_def)
  ultimately show ?thesis using round_envD(7) [OF assms(1,4,5)] assms(4) by (simp add: committee_at_def)
qed

lemma generator_cached:
  assumes "cache_inv env n ctx" and "it_committees ctx (to_step s i) \<noteq> None" and "i < CONSENSUS_MAX_ITER"
  obtains g where "it_get_generator i ctx = Some g"
proof -
  obtain c where "it_committees ctx (to_step Proposal i) = Some c" using assms unfolding cache_inv_def by blast
  with assms(1) that show thesis unfolding cache_inv_def by (metis cached_generator_exists)
qed

text \<open>What generating the committees of an iteration adds.\<close>

lemma generate_committee_dom:
  assumes "generate_committee hash i s p seed ctx = Some (Inr ctx')" and "it_committees ctx' st \<noteq> None"
  shows "it_committees ctx st \<noteq> None \<or> st = to_step s i \<or> st = to_step Proposal (i + 1) \<and> exclude_next_generator i"
  using assms
  by (auto simp: generate_committee_def generate_next_proposal_def insert_committee_def rc_insert_def
      rc_get_committee_def Let_def co_bind_ret split: if_splits)

lemma generate_committee_timeouts:
  assumes "generate_committee hash i s p seed ctx = Some (Inr ctx')"
  shows "it_timeouts ctx' = it_timeouts ctx"
  using assms
  by (auto simp: generate_committee_def generate_next_proposal_def insert_committee_def Let_def co_bind_ret
      split: if_splits)

lemma generate_committees_dom:
  assumes "generate_iteration_committees hash i p seed ctx = Some (Inr ctx')"
  shows "it_committees ctx' st \<noteq> None \<Longrightarrow>
      it_committees ctx st \<noteq> None \<or> (\<exists>s. st = to_step s i) \<or> st = to_step Proposal (i + 1) \<and> exclude_next_generator i"
    and "it_timeouts ctx' = it_timeouts ctx"
proof -
  obtain ctx1 ctx2 where g: "generate_committee hash i Proposal p seed ctx = Some (Inr ctx1)"
    "generate_committee hash i Validation p seed ctx1 = Some (Inr ctx2)"
    "generate_committee hash i Ratification p seed ctx2 = Some (Inr ctx')"
    using assms by (auto simp: generate_iteration_committees_def co_bind_ret)
  show "it_committees ctx' st \<noteq> None \<Longrightarrow>
      it_committees ctx st \<noteq> None \<or> (\<exists>s. st = to_step s i) \<or> st = to_step Proposal (i + 1) \<and> exclude_next_generator i"
    using generate_committee_dom [OF g(1), of st] generate_committee_dom [OF g(2), of st]
      generate_committee_dom [OF g(3), of st] by blast
  show "it_timeouts ctx' = it_timeouts ctx" using g [THEN generate_committee_timeouts] by simp
qed

lemma generate_cache_inv:
  assumes env: "round_env env cof" and inv: "cache_inv env n ctx" and i: "i < CONSENSUS_MAX_ITER"
  obtains ctx' where "generate_iteration_committees (ce_hash env) i (ce_provisioners env) (ru_seed (ce_ru env)) ctx =
      Some (Inr ctx')" and "cache_inv env n ctx'" and "\<And>s. it_committees ctx' (to_step s i) \<noteq> None"
proof -
  have rnd: "it_round ctx = ru_round (ce_ru env)"
    using inv cache_okD(1) unfolding cache_inv_def by (force simp: round_header_def)
  have sort: "sortable (ce_provisioners env) (it_round ctx)" using round_envD(2) [OF env] rnd by simp
  have full: "cache_full ctx" using inv unfolding cache_inv_def by blast
  obtain ctx' where g: "generate_iteration_committees (ce_hash env) i (ce_provisioners env) (ru_seed (ce_ru env)) ctx =
      Some (Inr ctx')" and full': "cache_full ctx'"
    by (rule generate_committees_return [OF sort full])
  note dom = generate_committees_dom [OF g] and keeps = generate_committees_keeps [OF g]
  have ok: "cache_ok (ce_hash env) (ce_provisioners env) (ru_seed (ce_ru env)) (round_header (ce_ru env) 0) ctx'"
    and all: "it_committees ctx' (to_step s i) \<noteq> None" for s
    using inv generate_committees_ok [OF _ i g] unfolding cache_inv_def by blast+
  have "it_committees ctx' (to_step Proposal j) \<noteq> None"
    if j: "j < CONSENSUS_MAX_ITER" "it_committees ctx' (to_step s j) \<noteq> None" for s j
  proof -
    consider "it_committees ctx (to_step s j) \<noteq> None" | "j = i" | "s = Proposal"
      using dom(1) [OF j(2)] to_step_inject [of s j] j(1) i next_iteration_below(2) [of i]
      by (metis less_imp_le)
    then show ?thesis
      using inv j keeps all unfolding cache_inv_def by cases (metis not_None_eq, simp_all)
  qed
  moreover have "it_committees ctx' (to_step s j) \<noteq> None" if "unat j < n" "j < CONSENSUS_MAX_ITER" for s j
    using inv that keeps unfolding cache_inv_def by (metis not_None_eq)
  ultimately have "cache_inv env n ctx'"
    using inv ok full' dom(2) unfolding cache_inv_def by simp
  with g all that show thesis by blast
qed

lemma cache_inv_Suc:
  assumes "cache_inv env (unat i) ctx" and "\<And>s. it_committees ctx (to_step s i) \<noteq> None"
  shows "cache_inv env (Suc (unat i)) ctx"
proof -
  have "j = i \<or> unat j < unat i" if "unat j < Suc (unat i)" for j :: u8
    using that by (auto simp: less_Suc_eq word_unat_eq_iff)
  with assms show ?thesis unfolding cache_inv_def by metis
qed

lemma cache_inv_on_begin [simp]: "cache_inv env n (on_begin iter ctx) = cache_inv env n ctx"
  by (simp add: cache_inv_def cache_full_def on_begin_def cache_ok_def)

lemma cache_inv_timeout:
  assumes "cache_inv env n ctx"
  obtains ctx' where "on_timeout_event step ctx = Inr ctx'" and "cache_inv env n ctx'"
proof -
  obtain t where t: "it_timeouts ctx step = Some t" using assms unfolding cache_inv_def by blast
  show thesis
    by (rule that [of "ctx\<lparr>it_timeouts := (it_timeouts ctx)(step \<mapsto> min MAX_STEP_TIMEOUT (t + TIMEOUT_INCREASE))\<rparr>"])
       (use assms t in \<open>auto simp: on_timeout_event_def cache_inv_def cache_full_def cache_ok_def\<close>)
qed

lemma cache_inv_new:
  assumes "round_env env cof"
  shows "cache_inv env 0 (iteration_ctx_new (ru_round (ce_ru env)) iter (ru_base_timeouts (ce_ru env)))"
  using round_envD(5) [OF assms] cache_ok_new [of _ _ _ "round_header (ce_ru env) 0"] cache_full_new
  by (simp add: cache_inv_def round_header_def) (simp add: iteration_ctx_new_def)

lemma restore_cache_inv:
  assumes env: "round_env env cof" and "cache_inv env (unat iter) ctx" and "unat iter + n \<le> 50"
  shows "\<exists>ctx'. restore_committees (ce_hash env) n iter (ce_provisioners env) (ru_seed (ce_ru env)) ctx = Some (Inr ctx') \<and>
           cache_inv env (unat iter + n) ctx'"
  using assms(2,3)
proof (induction n arbitrary: iter ctx)
  case (Suc n)
  have i: "iter < CONSENSUS_MAX_ITER" using Suc.prems(2) by (simp add: CONSENSUS_MAX_ITER_def word_less_nat_alt)
  have u: "unat (iter + 1) = Suc (unat iter)" using Suc.prems(2) by (simp add: unat_word_ariths)
  obtain ctx1 where g: "generate_iteration_committees (ce_hash env) iter (ce_provisioners env) (ru_seed (ce_ru env)) ctx =
      Some (Inr ctx1)" "cache_inv env (unat iter) ctx1" "\<And>s. it_committees ctx1 (to_step s iter) \<noteq> None"
    by (rule generate_cache_inv [OF env Suc.prems(1) i]) blast
  have "cache_inv env (unat (iter + 1)) ctx1" using cache_inv_Suc [OF g(2,3)] u by simp
  from Suc.IH [OF this] Suc.prems(2) u g(1) show ?case by simp
qed simp

lemma round_start_inv:
  assumes env: "round_env env cof"
  obtains ctx iter where "round_start (ce_hash env) (ce_ru env) (ce_provisioners env) last_iter = Some (Inr (ctx, iter))"
    and "cache_inv env (unat iter) ctx" and "iter < CONSENSUS_MAX_ITER"
proof (cases "ru_hash (ce_ru env) = fst last_iter")
  case True
  let ?saved = "min EMERGENCY_MODE_ITERATION_THRESHOLD (snd last_iter)"
  let ?ctx = "iteration_ctx_new (ru_round (ce_ru env)) 0 (ru_base_timeouts (ce_ru env))"
  have u: "unat ?saved \<le> 16"
    by (simp add: EMERGENCY_MODE_ITERATION_THRESHOLD_def min_def word_le_nat_alt)
  obtain ctx where "restore_committees (ce_hash env) (unat ?saved + 1) 0 (ce_provisioners env) (ru_seed (ce_ru env)) ?ctx =
      Some (Inr ctx)" "cache_inv env (unat ?saved + 1) ctx"
    using restore_cache_inv [OF env, of 0 ?ctx "unat ?saved + 1"] cache_inv_new [OF env, of 0] u by auto
  moreover have "unat (?saved + 1) = unat ?saved + 1" using u by (simp add: unat_word_ariths)
  moreover from this have "?saved + 1 < CONSENSUS_MAX_ITER" using u by (simp add: CONSENSUS_MAX_ITER_def word_less_nat_alt)
  ultimately show thesis using that [of ctx "?saved + 1"] True by (simp add: round_start_def Let_def)
next
  case False
  then show thesis
    using that [of _ 0] cache_inv_new [OF env, of 0]
    by (simp add: round_start_def Let_def CONSENSUS_MAX_ITER_def)
qed

section \<open>Aggregators\<close>

definition agg_ok :: "('mpk, 'msig, 'sk) consensus_env \<Rightarrow> (u8 \<Rightarrow> committee) \<Rightarrow> 'msig aggregator \<Rightarrow> bool" where
  "agg_ok env cof ag = aggregated (ce_crypto env) cof (ru_hash (ce_ru env)) (ru_round (ce_ru env)) ag"

definition has_quorum :: "(u8 \<Rightarrow> committee) \<Rightarrow> 'msig aggregator \<Rightarrow> u8 \<Rightarrow> vote \<Rightarrow> bool" where
  "has_quorum cof ag st v \<longleftrightarrow> quorum_target (cof st) v \<le> cluster_total_occurrences (voters ag (st, v))"

lemma collect_no_panic:
  assumes "wf_committee c" and "collect_vote nc c v ag = (r, ag')"
  shows "r \<noteq> Inl (AggPanic msg)"
proof -
  have w: "w \<noteq> 0" if "votes_for c pk = Some w" for pk w using assms(1) that unfolding wf_committee_def by (cases "w = 0") auto
  show ?thesis
    using assms(2) w
    by (auto simp: collect_vote_def aggregate_vote_def aggr_add_def aggregated_bytes_def cluster_add_def Let_def
        split: if_splits option.splits sum.splits prod.splits)
qed

text \<open>A vote that is added only adds to the credits of its step and vote.\<close>

lemma added_total:
  assumes "vote_added nc c v ag ag' r"
  shows "cluster_total_occurrences (voters ag key) \<le> cluster_total_occurrences (voters ag' key)"
  using assms by (auto simp: vote_added_def Let_def cluster_total bm_sum_insert_new)

lemma collect_vote_sound:
  assumes env: "round_env env cof" and ag: "agg_ok env cof ag" and v: "accepted env v"
    and col: "collect_vote (ce_crypto env) (cof (msg_step v)) v ag = (r, ag')"
  shows "agg_ok env cof ag'" and "r \<noteq> Inl (AggPanic msg)" and "has_quorum cof ag st u \<Longrightarrow> has_quorum cof ag' st u"
    and "r = Inr (sv, True) \<Longrightarrow> sv_good env cof (msg_step_name v) (ch_iteration (msg_header v)) (msg_vote v) sv \<and>
           has_quorum cof ag' (msg_step v) (msg_vote v)"
    and "r = Inr (sv, False) \<Longrightarrow> sv = step_votes_default \<or> \<not> has_quorum cof ag' (msg_step v) (msg_vote v)"
proof -
  note com = sortition_committee(1) [OF round_envD(6) [OF env, rule_format]]
  have acc: "accepted_msg (ce_crypto env) (ru_hash (ce_ru env)) (ru_round (ce_ru env)) v" using v by (simp add: accepted_def)
  have h: "msg_header v = round_header (ce_ru env) (ch_iteration (msg_header v))"
    using acc by (simp add: accepted_msg_def round_header_def)
  show "agg_ok env cof ag'" using ag acc col unfolding agg_ok_def by (rule aggregated.collect)
  show "r \<noteq> Inl (AggPanic msg)" by (rule collect_no_panic [OF com col])
  have cases: "vote_added (ce_crypto env) (cof (msg_step v)) v ag ag' r \<or>
      voters ag' = voters ag \<and> (\<forall>sv. r \<noteq> Inr (sv, True) \<and> (r = Inr (sv, False) \<longrightarrow> sv = step_votes_default))"
    by (rule collect_vote_cases [OF com col]) auto
  show "has_quorum cof ag st u \<Longrightarrow> has_quorum cof ag' st u"
    using cases added_total unfolding has_quorum_def by (metis order_trans)
  have q: "q \<longleftrightarrow> has_quorum cof ag' (msg_step v) (msg_vote v)"
    if "vote_added (ce_crypto env) (cof (msg_step v)) v ag ag' (Inr (sv, q))" for sv q
    using that by (auto simp: vote_added_def Let_def has_quorum_def)
  show "r = Inr (sv, False) \<Longrightarrow> sv = step_votes_default \<or> \<not> has_quorum cof ag' (msg_step v) (msg_vote v)"
    using cases q by blast
  assume r: "r = Inr (sv, True)"
  then have "has_quorum cof ag' (msg_step v) (msg_vote v)" using cases q by blast
  moreover have "sv_good env cof (msg_step_name v) (ch_iteration (msg_header v)) (msg_vote v) sv"
    using quorum_votes_verify [OF round_envD(1) [OF env] ag [unfolded agg_ok_def] round_envD(6) [OF env] acc
        col [unfolded r]] h
    by (auto simp: sv_good_def is_ok_iff msg_step_def)
  ultimately show "sv_good env cof (msg_step_name v) (ch_iteration (msg_header v)) (msg_vote v) sv \<and>
      has_quorum cof ag' (msg_step v) (msg_vote v)" by blast
qed

section \<open>The registry\<close>

text \<open>
  An entry has the result of its vote, and the quorums of a valid candidate can be verified; only these are
  sent for a former iteration.
\<close>

definition info_ok ::
    "('mpk, 'msig, 'sk) consensus_env \<Rightarrow> (u8 \<Rightarrow> committee) \<Rightarrow> 'msig aggregator \<Rightarrow> 'msig aggregator \<Rightarrow> u8 \<Rightarrow> vote
     \<Rightarrow> attestation_info \<Rightarrow> bool" where
  "info_ok env cof vag rag i v info \<longleftrightarrow>
     at_result (ai_att info) = result_of_vote v \<and>
     (vote_is_valid v \<longrightarrow>
       (ai_quorum_reached_validation info \<longrightarrow>
          sv_good env cof Validation i v (at_validation (ai_att info)) \<and> has_quorum cof vag (to_step Validation i) v) \<and>
       (ai_quorum_reached_ratification info \<longrightarrow>
          sv_good env cof Ratification i v (at_ratification (ai_att info)) \<and>
          has_quorum cof rag (to_step Ratification i) v))"

definition registry_ok ::
    "('mpk, 'msig, 'sk) consensus_env \<Rightarrow> (u8 \<Rightarrow> committee) \<Rightarrow> 'msig aggregator \<Rightarrow> 'msig aggregator
     \<Rightarrow> 'sk att_registry \<Rightarrow> bool" where
  "registry_ok env cof vag rag reg \<longleftrightarrow> ar_ru reg = ce_ru env \<and>
     (\<forall>i atts v info. ar_att_list reg i = Some atts \<longrightarrow> map_of (ia_votes atts) v = Some info \<longrightarrow>
        info_ok env cof vag rag i v info)"

lemma registry_ok_mono:
  assumes "registry_ok env cof vag rag reg"
    and "\<And>st u. has_quorum cof vag st u \<Longrightarrow> has_quorum cof vag' st u"
    and "\<And>st u. has_quorum cof rag st u \<Longrightarrow> has_quorum cof rag' st u"
  shows "registry_ok env cof vag' rag' reg"
  using assms unfolding registry_ok_def info_ok_def by meson

lemma registry_ok_new: "registry_ok env cof vag rag (att_registry_new (ce_ru env))"
  by (simp add: registry_ok_def att_registry_new_def)

lemma info_of_ok:
  assumes "registry_ok env cof vag rag reg"
  shows "info_ok env cof vag rag i v (info_of v (get_iteration_atts i g reg))"
proof (cases "map_of (ia_votes (get_iteration_atts i g reg)) v")
  case None
  then show ?thesis by (simp add: info_of_def info_ok_def attestation_info_new_def)
next
  case (Some info)
  then obtain atts where "ar_att_list reg i = Some atts" "map_of (ia_votes atts) v = Some info"
    by (auto simp: get_iteration_atts_def iteration_atts_new_def split: option.splits)
  with assms Some show ?thesis by (simp add: registry_ok_def info_of_def)
qed

lemma map_of_put_info:
  "map_of (ia_votes (put_info v info atts)) u = (if u = v then Some info else map_of (ia_votes atts) u)"
  by (simp add: put_info_def update_conv)

lemma registry_put:
  assumes "registry_ok env cof vag rag reg" and "info_ok env cof vag rag i v info"
  shows "registry_ok env cof vag rag
    (reg\<lparr>ar_att_list := (ar_att_list reg)(i \<mapsto> put_info v info (get_iteration_atts i g reg))\<rparr>)"
proof -
  have "info_ok env cof vag rag i u x" if "map_of (ia_votes (get_iteration_atts i g reg)) u = Some x" for u x
    using info_of_ok [OF assms(1), of i u g] that by (simp add: info_of_def)
  then show ?thesis using assms unfolding registry_ok_def by (auto simp: map_of_put_info split: if_splits)
qed

end
