(* ===== verification/Round_Invariant.thy ===== *)
theory Round_Invariant
  imports Consensus_Invariant
begin

text \<open>
  The operations of the handlers keep the invariant of a round: checking messages, collecting votes and
  recording them.
\<close>

section \<open>The registry\<close>

definition votes_fact ::
    "('mpk, 'msig, 'sk) consensus_env \<Rightarrow> (u8 \<Rightarrow> committee) \<Rightarrow> 'msig aggregator \<Rightarrow> step_name \<Rightarrow> u8 \<Rightarrow> vote
     \<Rightarrow> step_votes \<Rightarrow> bool \<Rightarrow> bool" where
  "votes_fact env cof ag st i v sv q \<longleftrightarrow>
     (if q then sv_good env cof st i v sv \<and> has_quorum cof ag (to_step st i) v
      else sv = step_votes_default \<or> \<not> has_quorum cof ag (to_step st i) v)"

lemma set_sv_ok:
  assumes "info_ok env cof vag rag i v info" and "sv \<noteq> step_votes_default"
    and "st = Validation \<and> votes_fact env cof vag st i v sv q \<or> st = Ratification \<and> votes_fact env cof rag st i v sv q"
  shows "info_ok env cof vag rag i v (set_sv sv st q info)"
  using assms by (auto simp: info_ok_def set_sv_def votes_fact_def Let_def split: if_splits)

lemma ready_verifies:
  assumes env: "round_env env cof" and "info_ok env cof vag rag i v info" and "info_is_ready info"
    and "i < CONSENSUS_MAX_ITER" and "vote_is_valid (result_vote (at_result (ai_att info)))"
  shows "att_verifies env \<lparr>qu_header = round_header (ce_ru env) i, qu_att = ai_att info\<rparr>"
proof -
  have r: "at_result (ai_att info) = result_of_vote v" "vote_is_valid v" using assms(2,5) by (simp_all add: info_ok_def)
  then obtain h where v: "v = Valid h" by (cases v) (auto simp: vote_is_valid_def)
  have "ai_quorum_reached_validation info \<and> ai_quorum_reached_ratification info"
    using assms(3) r(1) by (simp add: info_is_ready_def v result_of_vote_def)
  with assms(2) r show ?thesis by (intro good_attestation [OF env _ _ assms(4)]) (auto simp: info_ok_def)
qed

lemma set_step_votes_ok:
  assumes env: "round_env env cof" and reg: "registry_ok env cof vag rag reg"
    and fact: "st = Validation \<and> votes_fact env cof vag st i v sv q \<or> st = Ratification \<and> votes_fact env cof rag st i v sv q"
    and set: "set_step_votes i v sv st q g reg = (m, reg')" and i: "i < CONSENSUS_MAX_ITER"
  shows "registry_ok env cof vag rag reg'"
    and "m = Some msg \<Longrightarrow> \<exists>qm. msg = message_from (PQuorum qm) \<and>
           (vote_is_valid (result_vote (at_result (qu_att qm))) \<longrightarrow> att_verifies env qm)"
proof -
  let ?info = "set_sv sv st q (info_of v (get_iteration_atts i g reg))"
  have "registry_ok env cof vag rag reg' \<and>
    (m = Some msg \<longrightarrow> (\<exists>qm. msg = message_from (PQuorum qm) \<and>
       (vote_is_valid (result_vote (at_result (qu_att qm))) \<longrightarrow> att_verifies env qm)))"
  proof (cases "sv = step_votes_default")
    case True
    then show ?thesis using set reg by (simp add: set_step_votes_def)
  next
    case False
    have ok: "info_ok env cof vag rag i v ?info" using info_of_ok [OF reg] set_sv_ok [OF _ False fact] by blast
    have "registry_ok env cof vag rag reg'"
      using set False registry_put [OF reg ok, of g] by (auto simp: set_step_votes_def Let_def)
    moreover have "m = Some msg \<Longrightarrow> info_is_ready ?info \<and>
        msg = message_from (PQuorum \<lparr>qu_header = round_header (ce_ru env) i, qu_att = ai_att ?info\<rparr>)"
      using set False reg
      by (auto simp: set_step_votes_def Let_def reg_build_quorum_msg_def registry_ok_def split: if_splits)
    ultimately show ?thesis using ready_verifies [OF env ok _ i] by fastforce
  qed
  then show "registry_ok env cof vag rag reg'"
    "m = Some msg \<Longrightarrow> \<exists>qm. msg = message_from (PQuorum qm) \<and>
       (vote_is_valid (result_vote (at_result (qu_att qm))) \<longrightarrow> att_verifies env qm)" by blast+
qed

lemma set_attestation_ok:
  assumes "registry_ok env cof vag rag reg" and "at_result att = result_of_vote (result_vote (at_result att))"
    and "at_result att = Fail u"
  shows "registry_ok env cof vag rag (set_attestation i att g reg)"
proof -
  have "\<not> vote_is_valid (result_vote (at_result att))"
    using assms(2,3) by (auto simp: result_of_vote_def result_vote_def vote_is_valid_def split: vote.splits)
  then have "info_ok env cof vag rag i (result_vote (at_result att))
      (set_sv sv2 Ratification q2 (set_sv sv1 Validation q1 (info_of (result_vote (at_result att)) (get_iteration_atts i g reg))))"
    for sv1 sv2 q1 q2
    using info_of_ok [OF assms(1), of i "result_vote (at_result att)" g] by (simp add: info_ok_def set_sv_def Let_def)
  then show ?thesis unfolding set_attestation_def Let_def by (intro registry_put [OF assms(1)])
qed

section \<open>The state\<close>

definition known_ok ::
    "('mpk, 'msig, 'sk) consensus_env \<Rightarrow> (u8 \<Rightarrow> committee) \<Rightarrow> u8 \<Rightarrow> validation_result \<Rightarrow> bool" where
  "known_ok env cof i vr \<longleftrightarrow>
     vr = validation_result_default \<or> vr_vote vr \<noteq> NoQuorum \<and> sv_good env cof Validation i (vr_vote vr) (vr_sv vr)"

definition step_payload :: "message \<Rightarrow> bool" where
  "step_payload m =
     (case ms_payload m of
        PCandidate _ \<Rightarrow> True | PValidation _ \<Rightarrow> True | PRatification _ \<Rightarrow> True | PValidationQuorum _ \<Rightarrow> True | _ \<Rightarrow> False)"

definition queued_wf :: "msg_registry \<Rightarrow> bool" where
  "queued_wf reg \<longleftrightarrow> (\<forall>rnd st. \<forall>m \<in> set (pending reg rnd st). msg_wf m \<and> step_payload m)"

definition round_inv ::
    "('mpk, 'msig, 'sk) consensus_env \<Rightarrow> (u8 \<Rightarrow> committee) \<Rightarrow> nat \<Rightarrow> ('msig, 'sk) round_state \<Rightarrow> bool" where
  "round_inv env cof n s \<longleftrightarrow>
     cache_inv env n (rs_ctx s) \<and> agg_ok env cof (vh_aggr s) \<and> agg_ok env cof (rh_aggregator s) \<and>
     registry_ok env cof (vh_aggr s) (rh_aggregator s) (rs_sv_registry s) \<and>
     known_ok env cof (rh_curr_iteration s) (rh_validation_result s) \<and> queued_wf (rs_future_msgs s)"

lemma round_invD:
  assumes "round_inv env cof n s"
  shows "cache_inv env n (rs_ctx s)" and "agg_ok env cof (vh_aggr s)" and "agg_ok env cof (rh_aggregator s)"
    and "registry_ok env cof (vh_aggr s) (rh_aggregator s) (rs_sv_registry s)"
    and "known_ok env cof (rh_curr_iteration s) (rh_validation_result s)" and "queued_wf (rs_future_msgs s)"
  using assms by (simp_all add: round_inv_def)

lemma round_inv_mono: "round_inv env cof n s \<Longrightarrow> k \<le> n \<Longrightarrow> round_inv env cof k s"
  by (auto simp: round_inv_def intro: cache_inv_mono)

section \<open>Checking messages\<close>

lemma generator_views: "rc_get_generator i (it_committees ctx) = it_get_generator i ctx"
  by (simp add: rc_get_generator_def it_get_generator_def)

lemma verify_candidate_error: "verify_candidate_msg nc tree b g \<noteq> Inl PastEvent"
  by (auto simp: verify_candidate_msg_def split: sum.splits)

lemma verify_vote_signature_ok: "verify_vote_signature nc v = Inr () \<longleftrightarrow> verify_msg_signature nc v = Inr ()"
  by (auto simp: verify_vote_signature_def split: sum.splits)

lemma no_past_error:
  "vote_verify_stateless nc v st rc \<noteq> Inr (Inl PastEvent)"
  "verify_validation_result nc h vr rc \<noteq> Inl PastEvent"
  "proposal_verify_stateless nc tree b rc \<noteq> Inr (Inl PastEvent)"
  "verify_vote_signature nc v \<noteq> Inl PastEvent"
  by (auto simp: vote_verify_stateless_def verify_vote_signature_def verify_validation_result_def
      proposal_verify_stateless_def verify_candidate_error split: sum.splits option.splits)

lemma handler_verify_no_past: "handler_verify env step msg s \<noteq> Inr (Inl PastEvent)"
  by (cases step; cases "ms_payload msg") (auto simp: handler_verify_def no_past_error)

lemma verify_message_no_past: "verify_message env msg rc \<noteq> Inr (Inl PastEvent)"
  by (cases "ms_payload msg")
     (auto simp: verify_message_def Let_def ratification_verify_stateless_def validation_verify_stateless_def
        no_past_error split: option.splits sum.splits if_splits)

lemma is_valid_past:
  assumes "is_valid env msg i step c s = Inr (Inl PastEvent)"
  shows "verify_message env msg (it_committees (rs_ctx s)) = Inr (Inr ())"
  using assms handler_verify_no_past [of env step msg s] verify_message_no_past [of env msg "it_committees (rs_ctx s)"]
  by (auto simp: is_valid_def Let_def split: msg_status.splits sum.splits if_splits option.splits)

text \<open>A vote that passes the check is one the aggregator may be given.\<close>

lemma verify_message_vote:
  assumes "verify_message env msg rc = Inr (Inr ())" and "ch_round (ms_header msg) = ru_round (ce_ru env)"
    and "rc (message_step msg) = Some c" and "vote_of_msg msg = Some v" and "msg_wf msg"
  shows "accepted env v"
proof -
  have "ch_prev_block_hash (ms_header msg) = ru_hash (ce_ru env)" "verify_msg_signature (ce_crypto env) v = Inr ()"
    using assms(1-4) verify_vote_signature_ok
    by (auto simp: verify_message_def Let_def rc_get_committee_def vote_of_msg_def validation_verify_stateless_def
        ratification_verify_stateless_def vote_verify_stateless_def split: payload.splits if_splits option.splits sum.splits)
  with vote_of_msg [OF assms(4,5)] assms(2) show ?thesis
    by (simp add: accepted_def accepted_msg_def less_imp_le)
qed

lemma is_valid_vote:
  assumes "is_valid env msg i step c s = Inr (Inr ())" and "vote_of_msg msg = Some v" and "msg_wf msg"
    and "i < CONSENSUS_MAX_ITER"
  shows "accepted env v" and "msg_step v = to_step step i" and "msg_step_name v = step"
    and "ch_iteration (msg_header v) = i"
proof -
  have c: "message_compare (ru_round (ce_ru env)) i step msg = Present"
    and h: "ch_prev_block_hash (ms_header msg) = ru_hash (ce_ru env)" "handler_verify env step msg s = Inr (Inr ())"
    using assms(1) by (auto simp: is_valid_def Let_def split: msg_status.splits sum.splits if_splits option.splits)+
  have r: "ch_round (ms_header msg) = ru_round (ce_ru env)" "message_step msg = to_step step i"
    using c by (auto simp: message_compare_def split: if_splits)
  show st: "msg_step v = to_step step i" using vote_of_msg [OF assms(2,3)] r by simp
  have it: "ch_iteration (msg_header v) < CONSENSUS_MAX_ITER" by (rule vote_of_msg(3) [OF assms(2,3)])
  show "msg_step_name v = step" "ch_iteration (msg_header v) = i"
    using to_step_inject [of "msg_step_name v" "ch_iteration (msg_header v)" step i] st it assms(4)
    by (auto simp: msg_step_def)
  have "verify_msg_signature (ce_crypto env) v = Inr ()"
    using h(2) assms(2) verify_vote_signature_ok
    by (auto simp: handler_verify_def vote_of_msg_def split: step_name.splits payload.splits if_splits)
  then show "accepted env v"
    using h(1) r vote_of_msg(1) [OF assms(2,3)] it by (simp add: accepted_def accepted_msg_def less_imp_le)
qed

end
