(* ===== verification/Round_Collect.thy ===== *)
theory Round_Collect
  imports Round_Invariant
begin

text \<open>The handlers keep the invariant of the round, do not panic, and what they return can be verified.\<close>

section \<open>Checks return\<close>

lemma candidate_wf:
  assumes "msg_wf msg" and "ms_payload msg = PCandidate b"
  shows "h_iteration (bl_header b) < CONSENSUS_MAX_ITER"
  using assms by (auto simp: msg_wf_def payload_header_def to_consensus_header_def)

lemma verify_message_returns:
  assumes "cache_inv env n ctx" and "msg_wf msg" and "step_payload msg"
  shows "\<exists>r. verify_message env msg (it_committees ctx) = Inr r"
proof (cases "ms_payload msg")
  case (PCandidate b)
  have i: "h_iteration (bl_header b) < CONSENSUS_MAX_ITER"
    by (rule candidate_wf [OF assms(2) PCandidate])
  have "\<exists>g. it_get_generator (h_iteration (bl_header b)) ctx = Some g"
    if "it_committees ctx (to_step Proposal (h_iteration (bl_header b))) \<noteq> None"
    using generator_cached [OF assms(1) that i] by blast
  then show ?thesis
    using PCandidate
    by (auto simp: verify_message_def Let_def rc_get_committee_def message_step_def get_signer_def
        proposal_verify_stateless_def generator_views to_consensus_header_def split: option.splits)
qed (use assms(3) in \<open>auto simp: verify_message_def Let_def rc_get_committee_def get_signer_def step_payload_def
       validation_verify_stateless_def ratification_verify_stateless_def vote_verify_stateless_def
       split: option.splits sum.splits\<close>)

lemma handler_verify_returns:
  assumes inv: "cache_inv env n (rs_ctx s)" and i: "unat i < n" "i < CONSENSUS_MAX_ITER" and "msg_wf msg"
    and step: "message_step msg = to_step step i"
  shows "\<exists>r. handler_verify env step msg s = Inr r"
proof (cases "\<exists>b. step = Proposal \<and> ms_payload msg = PCandidate b")
  case True
  then obtain b where b: "step = Proposal" "ms_payload msg = PCandidate b" by blast
  have "h_iteration (bl_header b) < CONSENSUS_MAX_ITER"
    by (rule candidate_wf [OF assms(4) b(2)])
  moreover have "to_step Proposal (h_iteration (bl_header b)) = to_step Proposal i" using step b by (simp add: message_step_def)
  ultimately have hi: "h_iteration (bl_header b) = i" using to_step_inject i(2) by (metis less_imp_le)
  have "it_committees (rs_ctx s) (to_step Proposal i) \<noteq> None" using inv i unfolding cache_inv_def by blast
  then obtain g where "it_get_generator i (rs_ctx s) = Some g" using generator_cached [OF inv _ i(2)] by blast
  with b hi show ?thesis
    by (simp add: handler_verify_def proposal_verify_stateless_def generator_views to_consensus_header_def)
next
  case False
  then show ?thesis by (cases step; cases "ms_payload msg") (auto simp: handler_verify_def)
qed

lemma is_valid_returns:
  assumes "cache_inv env n (rs_ctx s)" and "unat i < n" "i < CONSENSUS_MAX_ITER" and "msg_wf msg" and "step_payload msg"
  shows "\<exists>r. is_valid env msg i step c s = Inr r"
proof (cases "message_compare (ru_round (ce_ru env)) i step msg")
  case Present
  then have "message_step msg = to_step step i" by (auto simp: message_compare_def split: if_splits)
  with Present handler_verify_returns [OF assms(1-4)] show ?thesis
    by (auto simp: is_valid_def Let_def split: option.splits)
qed (use verify_message_returns [OF assms(1,4,5)] in \<open>auto simp: is_valid_def Let_def split: sum.splits\<close>)

section \<open>What may be sent and returned\<close>

definition quorum_verifiable :: "('mpk, 'msig, 'sk) consensus_env \<Rightarrow> quorum \<Rightarrow> bool" where
  "quorum_verifiable env q \<longleftrightarrow> (result_vote (at_result (qu_att q)) \<noteq> NoQuorum \<longrightarrow> att_verifies env q)"

text \<open>\<open>R\<close> is the set of messages that were received.\<close>

definition effect_ok :: "('mpk, 'msig, 'sk) consensus_env \<Rightarrow> message set \<Rightarrow> effect \<Rightarrow> bool" where
  "effect_ok env R e \<longleftrightarrow> (\<forall>m q. e = Outbound m \<longrightarrow> ms_payload m = PQuorum q \<longrightarrow> m \<in> R \<or> quorum_verifiable env q)"

definition outcome_ok ::
    "('mpk, 'msig, 'sk) consensus_env \<Rightarrow> (u8 \<Rightarrow> committee) \<Rightarrow> message set \<Rightarrow> u8 \<Rightarrow> message \<Rightarrow> bool" where
  "outcome_ok env cof R i m =
     (case ms_payload m of
        PValidationResult vr \<Rightarrow> known_ok env cof i vr
      | PQuorum q \<Rightarrow> m \<in> R \<or> quorum_verifiable env q
      | _ \<Rightarrow> True)"

lemma effect_ok_simps [simp]:
  "effect_ok env R (Inbound m)" "effect_ok env R (StoreCandidate b)" "effect_ok env R (StoreValidationResult h vr)"
  "effect_ok env R (StoreLastIter prev j)"
  by (simp_all add: effect_ok_def)

lemma effect_ok_other: "(\<And>q. ms_payload m \<noteq> PQuorum q) \<Longrightarrow> effect_ok env R (Outbound m)"
  by (simp add: effect_ok_def)

lemma effect_ok_received: "m \<in> R \<Longrightarrow> effect_ok env R (Outbound m)"
  by (simp add: effect_ok_def)

lemma payload_message_from [simp]: "ms_payload (message_from p) = p"
  by (simp add: message_from_def)

lemma effect_ok_outcome: "outcome_ok env cof R i m \<Longrightarrow> effect_ok env R (Outbound m)"
  by (auto simp: effect_ok_def outcome_ok_def)

section \<open>Collecting and recording a vote\<close>

lemma collect_into_run:
  assumes env: "round_env env cof" and ag: "agg_ok env cof (get_ag s)" and v: "accepted env v" and c: "c = cof (msg_step v)"
  obtains r ag where "collect_into env c v get_ag set_ag s = Some (Inr (r, set_ag ag s, []))" and "agg_ok env cof ag"
    and "\<And>st u. has_quorum cof (get_ag s) st u \<Longrightarrow> has_quorum cof ag st u"
    and "\<And>sv q. r = Inr (sv, q) \<Longrightarrow>
           votes_fact env cof ag (msg_step_name v) (ch_iteration (msg_header v)) (msg_vote v) sv q"
proof -
  obtain r ag where col: "collect_vote (ce_crypto env) (cof (msg_step v)) v (get_ag s) = (r, ag)" by force
  note sound = collect_vote_sound [OF env ag v col]
  have fact: "votes_fact env cof ag (msg_step_name v) (ch_iteration (msg_header v)) (msg_vote v) sv q" if "r = Inr (sv, q)" for sv q
    using sound(4,5) [of sv] that by (cases q) (auto simp: votes_fact_def msg_step_def)
  show thesis
  proof (cases r)
    case (Inl e)
    then have "collect_into env c v get_ag set_ag s = Some (Inr (Inl (InvalidVote (msg_vote v)), set_ag ag s, []))"
      using col sound(2) c by (cases e) (auto simp: collect_into_def)
    then show thesis using that sound(1,3) by (metis sum.distinct(1))
  next
    case (Inr x)
    then have "collect_into env c v get_ag set_ag s = Some (Inr (Inr x, set_ag ag s, []))"
      using col c by (simp add: collect_into_def)
    then show thesis using that sound(1,3) fact Inr by (metis sum.inject(2))
  qed
qed

lemma collect_validation_triple:
  assumes env: "round_env env cof" and v: "accepted env (ValidationMsg p)" and c: "c = cof (msg_step (ValidationMsg p))"
    and F: "\<And>s ag. F (s\<lparr>vh_aggr := ag\<rparr>) = F s"
  shows "cm_triple (\<lambda>s. round_inv env cof n s \<and> F s) (collect_validation env c p) E (\<lambda>r s. round_inv env cof n s \<and> F s \<and>
     (\<forall>sv q. r = Inr (sv, q) \<longrightarrow> votes_fact env cof (vh_aggr s) Validation (ch_iteration (va_header p)) (va_vote p) sv q))"
proof (rule cm_tripleI)
  fix s
  assume s: "round_inv env cof n s \<and> F s"
  then have "agg_ok env cof (vh_aggr s)" by (simp add: round_inv_def)
  then obtain r ag where run: "collect_validation env c p s = Some (Inr (r, s\<lparr>vh_aggr := ag\<rparr>, []))" and "agg_ok env cof ag"
      "\<And>st u. has_quorum cof (vh_aggr s) st u \<Longrightarrow> has_quorum cof ag st u"
      and fact: "\<And>sv q. r = Inr (sv, q) \<Longrightarrow> votes_fact env cof ag Validation (ch_iteration (va_header p)) (va_vote p) sv q"
    by (rule collect_into_run [OF env _ v c, of vh_aggr s set_vh_aggr])
       (simp add: collect_validation_def set_vh_aggr_def msg_step_name_def msg_header_def msg_vote_def)
  moreover from this have "registry_ok env cof ag (rh_aggregator s) (rs_sv_registry s)"
    by (intro registry_ok_mono [OF round_invD(4) [OF conjunct1 [OF s]]]) auto
  ultimately have "round_inv env cof n (s\<lparr>vh_aggr := ag\<rparr>)" using s by (simp add: round_inv_def)
  with run fact s show "\<exists>r s' es. collect_validation env c p s = Some (Inr (r, s', es)) \<and> (round_inv env cof n s' \<and> F s' \<and>
     (\<forall>sv q. r = Inr (sv, q) \<longrightarrow> votes_fact env cof (vh_aggr s') Validation (ch_iteration (va_header p)) (va_vote p) sv q)) \<and>
     (\<forall>e \<in> set es. E e)"
    by (simp add: F)
qed

lemma collect_ratification_triple:
  assumes env: "round_env env cof" and v: "accepted env (RatificationMsg p)" and c: "c = cof (msg_step (RatificationMsg p))"
    and F: "\<And>s ag. F (s\<lparr>rh_aggregator := ag\<rparr>) = F s"
  shows "cm_triple (\<lambda>s. round_inv env cof n s \<and> F s) (collect_ratification env c p) E (\<lambda>r s. round_inv env cof n s \<and> F s \<and>
     (\<forall>sv q. r = Inr (sv, q) \<longrightarrow>
        votes_fact env cof (rh_aggregator s) Ratification (ch_iteration (ra_header p)) (ra_vote p) sv q))"
proof (rule cm_tripleI)
  fix s
  assume s: "round_inv env cof n s \<and> F s"
  then have "agg_ok env cof (rh_aggregator s)" by (simp add: round_inv_def)
  then obtain r ag where run: "collect_ratification env c p s = Some (Inr (r, s\<lparr>rh_aggregator := ag\<rparr>, []))" and "agg_ok env cof ag"
      "\<And>st u. has_quorum cof (rh_aggregator s) st u \<Longrightarrow> has_quorum cof ag st u"
      and fact: "\<And>sv q. r = Inr (sv, q) \<Longrightarrow> votes_fact env cof ag Ratification (ch_iteration (ra_header p)) (ra_vote p) sv q"
    by (rule collect_into_run [OF env _ v c, of rh_aggregator s set_rh_aggregator])
       (simp add: collect_ratification_def set_rh_aggregator_def msg_step_name_def msg_header_def msg_vote_def)
  moreover from this have "registry_ok env cof (vh_aggr s) ag (rs_sv_registry s)"
    by (intro registry_ok_mono [OF round_invD(4) [OF conjunct1 [OF s]]]) auto
  ultimately have "round_inv env cof n (s\<lparr>rh_aggregator := ag\<rparr>)" using s by (simp add: round_inv_def)
  with run fact s show "\<exists>r s' es. collect_ratification env c p s = Some (Inr (r, s', es)) \<and> (round_inv env cof n s' \<and> F s' \<and>
     (\<forall>sv q. r = Inr (sv, q) \<longrightarrow>
        votes_fact env cof (rh_aggregator s') Ratification (ch_iteration (ra_header p)) (ra_vote p) sv q)) \<and>
     (\<forall>e \<in> set es. E e)"
    by (simp add: F)
qed

definition agg_of :: "step_name \<Rightarrow> ('msig, 'sk) round_state \<Rightarrow> 'msig aggregator" where
  "agg_of st s = (if st = Validation then vh_aggr s else rh_aggregator s)"

lemma record_triple:
  assumes env: "round_env env cof" and i: "i < CONSENSUS_MAX_ITER" and g: "generator \<noteq> None" and st: "st \<noteq> Proposal"
    and F: "\<And>s reg. F (s\<lparr>rs_sv_registry := reg\<rparr>) = F s"
  shows "cm_triple (\<lambda>s. round_inv env cof n s \<and> F s \<and> votes_fact env cof (agg_of st s) st i v sv q)
     (record_step_votes i v sv st q generator) E (\<lambda>r s. round_inv env cof n s \<and> F s \<and>
       (\<exists>m. r = Inr m \<and> (\<forall>msg. m = Some msg \<longrightarrow> (\<exists>qm. msg = message_from (PQuorum qm) \<and>
          (vote_is_valid (result_vote (at_result (qu_att qm))) \<longrightarrow> att_verifies env qm)))))"
proof (rule cm_tripleI)
  fix s
  assume s: "round_inv env cof n s \<and> F s \<and> votes_fact env cof (agg_of st s) st i v sv q"
  obtain pk where pk: "generator = Some pk" using g by blast
  obtain m reg where set: "set_step_votes i v sv st q pk (rs_sv_registry s) = (m, reg)" by force
  have fact: "st = Validation \<and> votes_fact env cof (vh_aggr s) st i v sv q \<or>
      st = Ratification \<and> votes_fact env cof (rh_aggregator s) st i v sv q"
    using s st by (cases st) (simp_all add: agg_of_def)
  note ok = set_step_votes_ok [OF env round_invD(4) [OF conjunct1 [OF s]] fact set i]
  have "record_step_votes i v sv st q generator s = Some (Inr (Inr m, s\<lparr>rs_sv_registry := reg\<rparr>, []))"
    using set by (simp add: record_step_votes_def pk cm_expect_def)
  moreover have "round_inv env cof n (s\<lparr>rs_sv_registry := reg\<rparr>)"
    using s ok(1) by (simp add: round_inv_def)
  ultimately show "\<exists>r s' es. record_step_votes i v sv st q generator s = Some (Inr (r, s', es)) \<and>
     (round_inv env cof n s' \<and> F s' \<and> (\<exists>m. r = Inr m \<and> (\<forall>msg. m = Some msg \<longrightarrow> (\<exists>qm. msg = message_from (PQuorum qm) \<and>
        (vote_is_valid (result_vote (at_result (qu_att qm))) \<longrightarrow> att_verifies env qm))))) \<and> (\<forall>e \<in> set es. E e)"
    using s ok(2) F by auto
qed

section \<open>Proposal and validation\<close>

text \<open>The invariant, and a result that may be returned.\<close>

definition collected ::
    "('mpk, 'msig, 'sk) consensus_env \<Rightarrow> (u8 \<Rightarrow> committee) \<Rightarrow> message set \<Rightarrow> nat \<Rightarrow> u8
     \<Rightarrow> consensus_error + step_outcome \<Rightarrow> ('msig, 'sk) round_state \<Rightarrow> bool" where
  "collected env cof R n i r s \<longleftrightarrow> round_inv env cof n s \<and> (\<forall>m. r = Inr (Ready m) \<longrightarrow> outcome_ok env cof R i m)"

lemma collected_simps [simp]:
  "collected env cof R n i (Inl e) s = round_inv env cof n s"
  "collected env cof R n i (Inr Pending) s = round_inv env cof n s"
  "collected env cof R n i (Inr (Ready m)) s \<longleftrightarrow> round_inv env cof n s \<and> outcome_ok env cof R i m"
  by (auto simp: collected_def)

lemma proposal_collect_triple:
  "cm_triple (round_inv env cof n) (proposal_collect msg) (effect_ok env R) (collected env cof R n i)"
proof (cases "ms_payload msg")
  case (PCandidate b)
  then show ?thesis
    by (simp add: proposal_collect_def) (intro triple_bind_tell triple_ret; auto simp: outcome_ok_def)
qed (simp_all add: proposal_collect_def triple_err)

lemma build_validation_result_triple:
  "cm_triple P (build_validation_result sv vote q h) (effect_ok env R)
     (\<lambda>r s. P s \<and> r = Inr (message_from (PValidationResult \<lparr>vr_quorum = q, vr_vote = vote, vr_sv = sv\<rparr>)))"
  unfolding build_validation_result_def Let_def
  by (cases "is_emergency_iter (ch_iteration h)") (auto intro!: triple_bind_tell triple_ret)

text \<open>The vote of a message that a handler collects.\<close>

definition vote_ready ::
    "('mpk, 'msig, 'sk) consensus_env \<Rightarrow> (u8 \<Rightarrow> committee) \<Rightarrow> message \<Rightarrow> committee \<Rightarrow> bool" where
  "vote_ready env cof msg c \<longleftrightarrow> (\<forall>v. vote_of_msg msg = Some v \<longrightarrow> accepted env v \<and> c = cof (msg_step v))"

lemma vote_readyD:
  assumes "vote_ready env cof msg c"
  shows "ms_payload msg = PValidation p \<Longrightarrow> accepted env (ValidationMsg p) \<and> c = cof (msg_step (ValidationMsg p)) \<and>
           ch_iteration (va_header p) < CONSENSUS_MAX_ITER"
    and "ms_payload msg = PRatification r \<Longrightarrow> accepted env (RatificationMsg r) \<and> c = cof (msg_step (RatificationMsg r)) \<and>
           ch_iteration (ra_header r) < CONSENSUS_MAX_ITER"
  using assms by (auto simp: vote_ready_def vote_of_msg_def accepted_def msg_header_def)

text \<open>A vote of the validation is collected, recorded, and gives a result that can be verified.\<close>

lemma collect_and_record_validation:
  assumes env: "round_env env cof" and v: "accepted env (ValidationMsg p)" "c = cof (msg_step (ValidationMsg p))"
    and i: "ch_iteration (va_header p) < CONSENSUS_MAX_ITER" and g: "generator \<noteq> None"
    and "\<And>sv q. cm_triple (\<lambda>s. round_inv env cof n s \<and>
        (q \<longrightarrow> sv_good env cof Validation (ch_iteration (va_header p)) (va_vote p) sv)) (k sv q) E Q"
    and "\<And>e s. round_inv env cof n s \<Longrightarrow> Q (Inl e) s"
  shows "cm_triple (round_inv env cof n) (cm_bind (collect_validation env c p) (\<lambda>(sv, q).
      cm_bind (record_step_votes (ch_iteration (va_header p)) (va_vote p) sv Validation q generator) (\<lambda>_. k sv q))) E Q"
proof (rule triple_bind [where R = "\<lambda>r s. round_inv env cof n s \<and> True \<and> (\<forall>sv q. r = Inr (sv, q) \<longrightarrow>
    votes_fact env cof (vh_aggr s) Validation (ch_iteration (va_header p)) (va_vote p) sv q)"], goal_cases)
  case 1
  show ?case by (rule triple_pre [OF collect_validation_triple [OF env v, where F = "\<lambda>_. True"]]) simp_all
next
  case (2 x)
  obtain sv q where x: "x = (sv, q)" by force
  let ?good = "q \<longrightarrow> sv_good env cof Validation (ch_iteration (va_header p)) (va_vote p) sv"
  show ?case
    unfolding x prod.case
  proof (rule triple_bind [where R = "\<lambda>r s. round_inv env cof n s \<and> ?good \<and> is_ok r"], goal_cases)
    case 1
    show ?case
      by (rule triple_conseq [OF record_triple [OF env i g, of Validation "\<lambda>_. ?good"]])
         (auto simp: agg_of_def votes_fact_def)
  next
    case (2 y)
    show ?case by (rule triple_pre [OF assms(6)]) auto
  qed simp
qed (use assms(7) in blast)

lemma validation_collect_triple:
  assumes env: "round_env env cof" and ready: "vote_ready env cof msg c" and g: "generator \<noteq> None"
    and i: "\<And>p. ms_payload msg = PValidation p \<Longrightarrow> ch_iteration (va_header p) = i"
  shows "cm_triple (round_inv env cof n) (validation_collect env msg c generator) (effect_ok env R) (collected env cof R n i)"
proof (cases "ms_payload msg")
  case (PValidation p)
  note v = vote_readyD(1) [OF ready PValidation]
  have run: "cm_triple (round_inv env cof n) (cm_bind (collect_validation env c p) (\<lambda>(sv, q).
      cm_bind (record_step_votes (ch_iteration (va_header p)) (va_vote p) sv Validation q generator) (\<lambda>_.
      if q then (case quorum_type_of (va_vote p) of None \<Rightarrow> cm_err (InvalidVote (va_vote p))
        | Some t \<Rightarrow> cm_bind (build_validation_result sv (va_vote p) t (va_header p)) (\<lambda>vrmsg. cm_ret (Ready vrmsg)))
      else cm_ret Pending))) (effect_ok env R) (collected env cof R n i)"
  proof (rule collect_and_record_validation [OF env _ _ _ g], goal_cases)
    case (4 sv q)
    show ?case
    proof (cases "q \<and> quorum_type_of (va_vote p) \<noteq> None")
      case True
      then obtain t where t: "quorum_type_of (va_vote p) = Some t" by blast
      then have "va_vote p \<noteq> NoQuorum" by (auto simp: quorum_type_of_def)
      with True t show ?thesis
        by (auto intro!: triple_bind [OF build_validation_result_triple] triple_ret
            simp: outcome_ok_def known_ok_def i [OF PValidation])
    qed (auto intro: triple_intros)
  qed (use v in auto)
  show ?thesis
    unfolding validation_collect_def PValidation payload.case Let_def
    by (intro triple_if triple_bind_gets triple_err triple_pre [OF run]) auto
qed (simp_all add: validation_collect_def triple_err)

lemma validation_from_past_triple:
  assumes env: "round_env env cof" and ready: "vote_ready env cof msg c" and g: "generator \<noteq> None"
  shows "cm_triple (round_inv env cof n) (validation_collect_from_past env msg c generator) (effect_ok env R)
     (\<lambda>r s. round_inv env cof n s \<and> (\<forall>m. r = Inr (Ready m) \<longrightarrow> (\<exists>vr. ms_payload m = PValidationResult vr)))"
proof (cases "ms_payload msg")
  case (PValidation p)
  note v = vote_readyD(1) [OF ready PValidation]
  show ?thesis
    unfolding validation_collect_from_past_def PValidation payload.case Let_def
  proof (intro triple_if triple_err triple_bind_try)
    show "cm_triple (round_inv env cof n) (collect_validation env c p) (effect_ok env R) (\<lambda>r s. round_inv env cof n s \<and> True \<and>
      (\<forall>sv q. r = Inr (sv, q) \<longrightarrow> votes_fact env cof (vh_aggr s) Validation (ch_iteration (va_header p)) (va_vote p) sv q))"
      by (rule triple_pre [OF collect_validation_triple [OF env, where F = "\<lambda>_. True"]]) (use v in auto)
    show "cm_triple (\<lambda>s. round_inv env cof n s \<and> True \<and>
        (\<forall>sv q. r = Inr (sv, q) \<longrightarrow> votes_fact env cof (vh_aggr s) Validation (ch_iteration (va_header p)) (va_vote p) sv q))
      (case r of Inl _ \<Rightarrow> cm_ret Pending | Inr (sv, q) \<Rightarrow>
        cm_bind (record_step_votes (ch_iteration (va_header p)) (va_vote p) sv Validation q generator) (\<lambda>_.
        if vote_is_valid (va_vote p) \<and> q
        then cm_bind (build_validation_result sv (va_vote p) QValid (va_header p)) (\<lambda>vr. cm_ret (Ready vr))
        else cm_ret Pending)) (effect_ok env R)
        (\<lambda>r s. round_inv env cof n s \<and> (\<forall>m. r = Inr (Ready m) \<longrightarrow> (\<exists>vr. ms_payload m = PValidationResult vr)))" for r
    proof (cases r)
      case (Inr x)
      obtain sv q where x: "x = (sv, q)" by force
      let ?good = "q \<longrightarrow> sv_good env cof Validation (ch_iteration (va_header p)) (va_vote p) sv"
      show ?thesis
        unfolding Inr x sum.case prod.case
      proof (rule triple_bind [where R = "\<lambda>r s. round_inv env cof n s \<and> ?good \<and> is_ok r"], goal_cases)
        case 1
        show ?case
          by (rule triple_conseq [OF record_triple [OF env _ g, of _ Validation "\<lambda>_. ?good"]])
             (use v in \<open>auto simp: agg_of_def votes_fact_def\<close>)
      next
        case (2 y)
        show ?case
          by (auto intro!: triple_bind [OF build_validation_result_triple] triple_ret
              simp: vote_is_valid_def)
      qed simp
    qed (auto intro: triple_ret)
  qed auto
next
  case (PValidationQuorum q)
  then show ?thesis
    unfolding validation_collect_from_past_def PValidationQuorum payload.case
    by (intro triple_if triple_err triple_bind_tell triple_ret) auto
qed (simp_all add: validation_collect_from_past_def triple_err)

section \<open>Ratification\<close>

lemma accepted_header:
  assumes "accepted env v"
  shows "msg_header v = round_header (ce_ru env) (ch_iteration (msg_header v))"
  using assms by (simp add: accepted_def accepted_msg_def round_header_def)

text \<open>A result that passes the check of the ratification passes the check of every verifier.\<close>

lemma verified_result:
  assumes env: "round_env env cof" and "cache_inv env n ctx" and "ch_iteration h < CONSENSUS_MAX_ITER"
    and "h = round_header (ce_ru env) (ch_iteration h)"
    and "verify_validation_result (ce_crypto env) h vr (it_committees ctx) = Inr ()"
  shows "sv_good env cof Validation (ch_iteration h) (vr_vote vr) (vr_sv vr)"
proof -
  obtain c where c: "it_committees ctx (to_step Validation (ch_iteration h)) = Some c"
    and ok: "is_ok (verify_votes (ce_crypto env) h Validation (vr_vote vr) (vr_sv vr) c)"
    using assms(5)
    by (auto simp: verify_validation_result_def rc_get_validation_committee_def rc_get_committee_def is_ok_iff
        split: option.splits sum.splits)
  have "c = cof (to_step Validation (ch_iteration h))" by (rule cached_committee [OF env assms(2) c _ assms(3)]) simp
  with ok assms(4) show ?thesis by (simp add: sv_good_def)
qed

lemma check_result_triple:
  assumes env: "round_env env cof" and v: "accepted env (RatificationMsg p)" and i: "ch_iteration (ra_header p) = i"
    and eq: "vr_vote (ra_validation_result p) = ra_vote p"
  shows "cm_triple (\<lambda>s. round_inv env cof n s \<and> rh_curr_iteration s = i) (check_validation_result env p) E
     (\<lambda>r s. round_inv env cof n s \<and> rh_curr_iteration s = i \<and>
        (is_ok r \<longrightarrow> ra_vote p \<noteq> NoQuorum \<longrightarrow> vr_vote (rh_validation_result s) = ra_vote p))"
proof (cases "ra_vote p = NoQuorum")
  case True
  then show ?thesis by (simp add: check_validation_result_def triple_ret)
next
  case False
  have h: "ra_header p = round_header (ce_ru env) i" "i < CONSENSUS_MAX_ITER"
    using accepted_header [OF v] v i by (auto simp: msg_header_def accepted_def)
  have "round_inv env cof n (s\<lparr>rh_validation_result := ra_validation_result p\<rparr>)"
    if "round_inv env cof n s" "rh_curr_iteration s = i"
      "verify_validation_result (ce_crypto env) (ra_header p) (ra_validation_result p) (it_committees (rs_ctx s)) = Inr ()" for s
    using that verified_result [OF env round_invD(1) [OF that(1)] _ _ that(3)] h i eq False
    by (simp add: round_inv_def known_ok_def)
  then show ?thesis
    unfolding check_validation_result_def Let_def
    by (auto intro!: triple_if triple_bind_gets triple_err triple_ret
          triple_bind [where R = "\<lambda>r s. round_inv env cof n s \<and> rh_curr_iteration s = i \<and>
            (r = Inr () \<longrightarrow> verify_validation_result (ce_crypto env) (ra_header p) (ra_validation_result p)
               (it_committees (rs_ctx s)) = Inr ())"]
          triple_lift triple_modify simp: eq)
qed

lemma ratification_collect_triple:
  assumes env: "round_env env cof" and ready: "vote_ready env cof msg c" and g: "generator \<noteq> None"
  shows "cm_triple (round_inv env cof n) (ratification_collect env msg c generator) (effect_ok env R) (collected env cof R n i)"
proof (cases "ms_payload msg")
  case (PRatification p)
  note v = vote_readyD(2) [OF ready PRatification]
  let ?i = "ch_iteration (ra_header p)" and ?v = "ra_vote p"
  let ?F = "\<lambda>s. rh_curr_iteration s = ?i \<and> (?v \<noteq> NoQuorum \<longrightarrow> vr_vote (rh_validation_result s) = ?v)"
  have quorum: "quorum_verifiable env \<lparr>qu_header = round_header (ce_ru env) ?i, qu_att = \<lparr>at_result = result_of_vote ?v,
      at_validation = vr_sv (rh_validation_result s), at_ratification = sv\<rparr>\<rparr>"
    if "round_inv env cof n s" "?F s" "sv_good env cof Ratification ?i ?v sv" for s sv
    using that round_invD(5) [OF that(1)] v
    by (auto simp: quorum_verifiable_def known_ok_def validation_result_default_def intro!: good_attestation [OF env])
  have finish: "cm_triple (\<lambda>s. round_inv env cof n s \<and> ?F s \<and> (q \<longrightarrow> sv_good env cof Ratification ?i ?v sv))
      (if q then cm_bind (cm_gets (\<lambda>s. vr_sv (rh_validation_result s))) (\<lambda>validation_sv.
         cm_ret (Ready (rat_build_quorum_msg (ce_ru env) ?i ?v validation_sv sv))) else cm_ret Pending)
      (effect_ok env R) (collected env cof R n i)" for sv q
    by (cases "?v = NoQuorum")
       (auto intro!: triple_bind_gets triple_ret quorum simp: rat_build_quorum_msg_def outcome_ok_def,
        simp add: quorum_verifiable_def)
  have run: "cm_triple (\<lambda>s. round_inv env cof n s \<and> ?F s) (cm_bind (collect_ratification env c p) (\<lambda>(sv, q).
      cm_bind (record_step_votes ?i ?v sv Ratification q generator) (\<lambda>_.
      if q then cm_bind (cm_gets (\<lambda>s. vr_sv (rh_validation_result s))) (\<lambda>validation_sv.
         cm_ret (Ready (rat_build_quorum_msg (ce_ru env) ?i ?v validation_sv sv))) else cm_ret Pending)))
      (effect_ok env R) (collected env cof R n i)"
  proof (rule triple_bind [OF collect_ratification_triple [OF env]], goal_cases)
    case (4 x)
    obtain sv q where x: "x = (sv, q)" by force
    let ?good = "q \<longrightarrow> sv_good env cof Ratification ?i ?v sv"
    show ?case
      unfolding x prod.case
    proof (rule triple_bind [where R = "\<lambda>r s. round_inv env cof n s \<and> (?F s \<and> ?good) \<and> is_ok r"], goal_cases)
      case 1
      show ?case
        by (rule triple_conseq [OF record_triple [OF env _ g, of ?i Ratification "\<lambda>s. ?F s \<and> ?good"]])
           (use v in \<open>auto simp: agg_of_def votes_fact_def\<close>)
    next
      case (2 y)
      show ?case by (rule triple_pre [OF finish]) auto
    qed simp
  qed (use v in auto)
  show ?thesis
    unfolding ratification_collect_def PRatification payload.case Let_def
  proof (intro triple_bind_gets triple_if triple_err)
    fix curr
    assume "\<not> vr_vote (ra_validation_result p) \<noteq> ?v" and "\<not> ?i \<noteq> curr"
    then show "cm_triple (\<lambda>s. round_inv env cof n s \<and> curr = rh_curr_iteration s) (cm_bind (check_validation_result env p) (\<lambda>_.
       cm_bind (collect_ratification env c p) (\<lambda>(sv, q).
        cm_bind (record_step_votes ?i ?v sv Ratification q generator) (\<lambda>_.
        if q then cm_bind (cm_gets (\<lambda>s. vr_sv (rh_validation_result s))) (\<lambda>validation_sv.
           cm_ret (Ready (rat_build_quorum_msg (ce_ru env) ?i ?v validation_sv sv))) else cm_ret Pending))))
       (effect_ok env R) (collected env cof R n i)"
      by (intro triple_bind [OF triple_pre [OF check_result_triple [OF env]]] triple_pre [OF run]) (use v in auto)
  qed auto
qed (simp_all add: ratification_collect_def triple_err)

lemma ratification_from_past_triple:
  assumes env: "round_env env cof" and ready: "vote_ready env cof msg c" and g: "generator \<noteq> None"
  shows "cm_triple (round_inv env cof n) (ratification_collect_from_past env msg c generator) (effect_ok env R)
     (\<lambda>r s. round_inv env cof n s \<and> (\<forall>m. r = Inr (Ready m) \<longrightarrow> (\<exists>qm. m = message_from (PQuorum qm) \<and>
        (vote_is_valid (result_vote (at_result (qu_att qm))) \<longrightarrow> att_verifies env qm))))"
proof (cases "ms_payload msg")
  case (PRatification p)
  note v = vote_readyD(2) [OF ready PRatification]
  let ?i = "ch_iteration (ra_header p)" and ?v = "ra_vote p"
  let ?Q = "\<lambda>r s. round_inv env cof n s \<and> (\<forall>m. r = Inr (Ready m) \<longrightarrow> (\<exists>qm. m = message_from (PQuorum qm) \<and>
      (vote_is_valid (result_vote (at_result (qu_att qm))) \<longrightarrow> att_verifies env qm)))"
  show ?thesis
    unfolding ratification_collect_from_past_def PRatification payload.case
  proof (rule triple_bind_try)
    show "cm_triple (round_inv env cof n) (collect_ratification env c p) (effect_ok env R) (\<lambda>r s. round_inv env cof n s \<and> True \<and>
      (\<forall>sv q. r = Inr (sv, q) \<longrightarrow> votes_fact env cof (rh_aggregator s) Ratification ?i ?v sv q))"
      by (rule triple_pre [OF collect_ratification_triple [OF env, where F = "\<lambda>_. True"]]) (use v in auto)
    show "cm_triple (\<lambda>s. round_inv env cof n s \<and> True \<and>
        (\<forall>sv q. r = Inr (sv, q) \<longrightarrow> votes_fact env cof (rh_aggregator s) Ratification ?i ?v sv q))
      (case r of Inl _ \<Rightarrow> cm_ret Pending | Inr (sv, q) \<Rightarrow>
        cm_bind (record_step_votes ?i ?v sv Ratification q generator)
          (\<lambda>quorum_msg. cm_ret (case quorum_msg of Some m \<Rightarrow> Ready m | None \<Rightarrow> Pending))) (effect_ok env R) ?Q" for r
    proof (cases r)
      case (Inr x)
      obtain sv q where x: "x = (sv, q)" by force
      show ?thesis
        unfolding Inr x sum.case prod.case
        by (rule triple_bind [OF triple_pre [OF record_triple [OF env _ g, of ?i Ratification "\<lambda>_. True"]]])
           (use v in \<open>auto simp: agg_of_def intro!: triple_ret split: option.splits\<close>)
    qed (auto intro: triple_ret)
  qed
qed (simp_all add: ratification_collect_from_past_def triple_err)

end
