(* ===== verification/Round_Steps.thy ===== *)
theory Round_Steps
  imports Round_Collect
begin

text \<open>
  The steps and the loops of the consensus task keep the invariant of the round; they return without a panic
  for all sequences of well-formed messages and deadlines.
\<close>

section \<open>Messages of former iterations\<close>

lemma message_step_wf:
  assumes "msg_wf msg" and "step_payload msg"
  obtains st where "message_step msg = to_step st (ch_iteration (ms_header msg))"
proof (cases "ms_payload msg")
  case (PCandidate b)
  then show thesis using assms(1) that [of Proposal] by (auto simp: msg_wf_def message_step_def payload_header_def to_consensus_header_def)
next
  case (PValidation v)
  then show thesis using assms(1) that [of Validation] by (auto simp: msg_wf_def message_step_def payload_header_def)
next
  case (PRatification v)
  then show thesis using assms(1) that [of Ratification] by (auto simp: msg_wf_def message_step_def payload_header_def)
next
  case (PValidationQuorum v)
  then show thesis using that [of Proposal] by (auto simp: message_step_def)
qed (use assms(2) in \<open>simp_all add: step_payload_def\<close>)

lemma cached_vote_committee:
  assumes env: "round_env env cof" and "cache_inv env n ctx" and "it_committees ctx (msg_step v) = Some c" and "accepted env v"
  shows "c = cof (msg_step v)"
proof -
  have "msg_step_name v \<noteq> Proposal" by (cases v) (simp_all add: msg_step_name_def)
  then show ?thesis
    using assms cached_committee [OF env assms(2)] unfolding msg_step_def by (simp add: accepted_def)
qed

definition past_ok :: "('mpk, 'msig, 'sk) consensus_env \<Rightarrow> message \<Rightarrow> bool" where
  "past_ok env m =
     (case ms_payload m of
        PCandidate b \<Rightarrow> h_iteration (bl_header b) < CONSENSUS_MAX_ITER
      | PQuorum q \<Rightarrow> vote_is_valid (result_vote (at_result (qu_att q))) \<longrightarrow> att_verifies env q
      | _ \<Rightarrow> True)"

text \<open>What the check of a former message gives to the handler that collects it.\<close>

lemma past_vote_ready:
  assumes env: "round_env env cof" and inv: "cache_inv env n ctx" and wf: "msg_wf msg" and "step_payload msg"
    and ver: "verify_message env msg (it_committees ctx) = Inr (Inr ())"
    and rnd: "ch_round (ms_header msg) = ru_round (ce_ru env)" and c: "it_committees ctx (message_step msg) = Some c"
  shows "vote_ready env cof msg c" and "it_get_generator (ch_iteration (ms_header msg)) ctx \<noteq> None"
proof -
  have i: "ch_iteration (ms_header msg) < CONSENSUS_MAX_ITER" using wf unfolding msg_wf_def by blast
  have "accepted env v \<and> c = cof (msg_step v)" if v: "vote_of_msg msg = Some v" for v
  proof -
    have acc: "accepted env v" by (rule verify_message_vote [OF ver rnd c v wf])
    have "it_committees ctx (msg_step v) = Some c" using c vote_of_msg(2) [OF v wf] by simp
    from cached_vote_committee [OF env inv this acc] acc show ?thesis by blast
  qed
  then show "vote_ready env cof msg c" by (simp add: vote_ready_def)
  obtain st where "message_step msg = to_step st (ch_iteration (ms_header msg))" using message_step_wf [OF wf assms(4)] .
  then show "it_get_generator (ch_iteration (ms_header msg)) ctx \<noteq> None"
    using generator_cached [OF inv _ i] c by (metis option.distinct(1))
qed

lemma proposal_collect_past:
  assumes "msg_wf msg"
  shows "cm_triple P (proposal_collect msg) (effect_ok env R) (\<lambda>r s. P s \<and> (\<forall>m. r = Inr (Ready m) \<longrightarrow> past_ok env m))"
proof (cases "ms_payload msg")
  case (PCandidate b)
  then show ?thesis
    using candidate_wf [OF assms PCandidate]
    by (simp add: proposal_collect_def) (intro triple_bind_tell triple_ret; auto simp: past_ok_def)
qed (simp_all add: proposal_collect_def triple_err)

lemma collect_past_triple:
  assumes env: "round_env env cof" and "msg_wf msg" and "vote_ready env cof msg c" and "generator \<noteq> None"
  shows "cm_triple (round_inv env cof n) (case ms_topic msg of
              TCandidate \<Rightarrow> proposal_collect msg
            | TValidation \<Rightarrow> validation_collect_from_past env msg c generator
            | TValidationQuorum \<Rightarrow> validation_collect_from_past env msg c generator
            | TRatification \<Rightarrow> ratification_collect_from_past env msg c generator
            | _ \<Rightarrow> cm_ret Pending) (effect_ok env R)
     (\<lambda>r s. round_inv env cof n s \<and> (\<forall>m. r = Inr (Ready m) \<longrightarrow> past_ok env m))"
proof -
  have "cm_triple (round_inv env cof n) (validation_collect_from_past env msg c generator) (effect_ok env R)
     (\<lambda>r s. round_inv env cof n s \<and> (\<forall>m. r = Inr (Ready m) \<longrightarrow> past_ok env m))"
    by (rule triple_post [OF validation_from_past_triple [OF env assms(3,4)]]) (auto simp: past_ok_def)
  moreover have "cm_triple (round_inv env cof n) (ratification_collect_from_past env msg c generator) (effect_ok env R)
     (\<lambda>r s. round_inv env cof n s \<and> (\<forall>m. r = Inr (Ready m) \<longrightarrow> past_ok env m))"
    by (rule triple_post [OF ratification_from_past_triple [OF env assms(3,4)]]) (auto simp: past_ok_def)
  ultimately show ?thesis
    using proposal_collect_past [OF assms(2)] by (cases "ms_topic msg") (simp_all add: triple_ret)
qed

lemma process_past_triple:
  assumes env: "round_env env cof" and wf: "msg_wf msg" and pay: "step_payload msg"
    and rnd: "ch_round (ms_header msg) = ru_round (ce_ru env)"
  shows "cm_triple (\<lambda>s. round_inv env cof n s \<and> verify_message env msg (it_committees (rs_ctx s)) = Inr (Inr ()))
     (process_past_msg env msg) (effect_ok env R)
     (\<lambda>r s. round_inv env cof n s \<and> (\<forall>m. r = Inr (Some m) \<longrightarrow> past_ok env m))"
  unfolding process_past_msg_def
proof (rule triple_bind_gets, rule triple_state)
  fix ctx s0
  assume s0: "(round_inv env cof n s0 \<and> verify_message env msg (it_committees (rs_ctx s0)) = Inr (Inr ())) \<and> ctx = rs_ctx s0"
  then have inv: "cache_inv env n ctx" and ver: "verify_message env msg (it_committees ctx) = Inr (Inr ())"
    by (simp_all add: round_inv_def)
  show "cm_triple (\<lambda>s. s = s0) (case rc_get_committee (message_step msg) (it_committees ctx) of
       None \<Rightarrow> cm_ret None
     | Some committee \<Rightarrow>
         let generator = it_get_generator (ch_iteration (ms_header msg)) ctx in
         cm_bind (cm_try (case ms_topic msg of
              TCandidate \<Rightarrow> proposal_collect msg
            | TValidation \<Rightarrow> validation_collect_from_past env msg committee generator
            | TValidationQuorum \<Rightarrow> validation_collect_from_past env msg committee generator
            | TRatification \<Rightarrow> ratification_collect_from_past env msg committee generator
            | _ \<Rightarrow> cm_ret Pending)) (\<lambda>r.
         cm_ret (case r of Inr (Ready m) \<Rightarrow> Some m | _ \<Rightarrow> None))) (effect_ok env R)
     (\<lambda>r s. round_inv env cof n s \<and> (\<forall>m. r = Inr (Some m) \<longrightarrow> past_ok env m))"
  proof (cases "it_committees ctx (message_step msg)")
    case None
    then show ?thesis using s0 by (auto simp: rc_get_committee_def intro: triple_ret)
  next
    case (Some c)
    note ready = past_vote_ready [OF env inv wf pay ver rnd Some]
    show ?thesis
      unfolding rc_get_committee_def Some option.case Let_def
      by (rule triple_bind_try [OF triple_pre [OF collect_past_triple [OF env wf ready]]])
         (use s0 in \<open>auto intro!: triple_ret split: sum.splits step_outcome.splits\<close>)
  qed
qed

section \<open>Casting votes\<close>

lemma cast_vote_triple: "cm_triple P (cast_vote env vote i) (effect_ok env R) (\<lambda>_. P)"
  unfolding cast_vote_def Let_def by (auto intro!: triple_intros effect_ok_other)

lemma validation_vote_triple:
  fixes P :: "'s \<Rightarrow> bool"
  assumes "round_env env cof"
  shows "cm_triple P (validation_try_vote env i candidate g) (effect_ok env R) (\<lambda>_. P)"
    and "cm_triple P (spawn_try_vote env i candidate g) (effect_ok env R) (\<lambda>_. P)"
proof -
  obtain v where v: "ce_vote env candidate g = Some (Inr v)" using round_envD(4) [OF assms] by blast
  have "(validation_try_vote env i candidate g :: ('s, unit) cm) = (case v of None \<Rightarrow> cm_ret () | Some vote \<Rightarrow> cast_vote env vote i)"
    by (auto simp: validation_try_vote_def v split: option.splits)
  then show "cm_triple P (validation_try_vote env i candidate g) (effect_ok env R) (\<lambda>_. P)"
    by (cases v) (simp_all add: cast_vote_triple triple_ret)
  show "cm_triple P (spawn_try_vote env i candidate g) (effect_ok env R) (\<lambda>_. P)"
    by (cases v) (simp_all add: spawn_try_vote_def v cast_vote_triple triple_ret)
qed

lemma ratification_vote_triple:
  "cm_triple P (ratification_try_vote env i vr) (effect_ok env R) (\<lambda>r s. P s \<and>
     r = Inr (message_from (PRatification (build_ratification_payload (ce_sign env) (ce_now env i) (ce_ru env) i vr))))"
  unfolding ratification_try_vote_def Let_def
  by (cases "vr_quorum vr = QValid \<or> \<not> is_emergency_iter i")
     (auto intro!: triple_bind_tell triple_ret effect_ok_other)

lemma cast_validation_triple:
  assumes env: "round_env env cof" and i: "h_iteration (bl_header b) < CONSENSUS_MAX_ITER"
  shows "cm_triple (round_inv env cof n) (try_cast_validation_vote env b) (effect_ok env R) (\<lambda>_. round_inv env cof n)"
  unfolding try_cast_validation_vote_def Let_def
proof (rule triple_bind_gets)
  fix ctx
  let ?i = "h_iteration (bl_header b)"
  show "cm_triple (\<lambda>s. round_inv env cof n s \<and> ctx = rs_ctx s)
     (case rc_get_committee (to_step Validation ?i) (it_committees ctx) of
        None \<Rightarrow> cm_ret ()
      | Some committee \<Rightarrow>
          if am_member env committee then
            cm_bind (cm_expect ''generator to exists'' (it_get_generator ?i ctx)) (\<lambda>expected_generator.
              validation_try_vote env ?i (Some b) expected_generator)
          else cm_ret ()) (effect_ok env R) (\<lambda>_. round_inv env cof n)"
  proof (cases "it_committees ctx (to_step Validation ?i)")
    case (Some c)
    have "it_get_generator ?i ctx \<noteq> None" if "round_inv env cof n s" "ctx = rs_ctx s" for s
      using generator_cached [OF round_invD(1) [OF that(1)] _ i] Some that(2) by (metis option.distinct(1))
    then show ?thesis
      unfolding rc_get_committee_def Some option.case
      by (intro triple_if triple_bind_expect triple_ret triple_post [OF validation_vote_triple(1) [OF env]]) auto
  qed (auto simp: rc_get_committee_def intro: triple_ret)
qed

lemma cast_ratification_triple:
  "cm_triple P (try_cast_ratification_vote env i vr) (effect_ok env R) (\<lambda>_. P)"
  unfolding try_cast_ratification_vote_def
  by (rule triple_bind_gets)
     (auto intro!: triple_bind [OF ratification_vote_triple] triple_ret split: option.splits)

lemma past_result_triple:
  assumes env: "round_env env cof" and ok: "past_ok env m"
  shows "cm_triple (round_inv env cof n) (past_result env i m) (effect_ok env R) (\<lambda>_. round_inv env cof n)"
proof (cases "ms_payload m")
  case (PCandidate b)
  then show ?thesis using ok cast_validation_triple [OF env] by (simp add: past_result_def past_ok_def)
next
  case (PQuorum q)
  then show ?thesis
    using ok by (auto simp: past_result_def past_ok_def effect_ok_def quorum_verifiable_def intro!: triple_ret triple_tell)
qed (simp_all add: past_result_def cast_ratification_triple triple_ret)

lemma handle_past_triple:
  assumes env: "round_env env cof" and wf: "msg_wf msg" and pay: "step_payload msg" and R: "msg \<in> R"
  shows "cm_triple (\<lambda>s. round_inv env cof n s \<and> verify_message env msg (it_committees (rs_ctx s)) = Inr (Inr ()))
     (handle_past_msg env msg) (effect_ok env R) (\<lambda>_. round_inv env cof n)"
proof (cases "ch_round (ms_header msg) = ru_round (ce_ru env)")
  case False
  then show ?thesis by (auto simp: handle_past_msg_def intro: triple_ret)
next
  case True
  let ?P = "\<lambda>s. round_inv env cof n s \<and> verify_message env msg (it_committees (rs_ctx s)) = Inr (Inr ())"
  have send: "cm_triple ?P (if ms_topic msg \<noteq> TValidationQuorum then cm_tell [Outbound msg] else cm_ret ()) (effect_ok env R)
      (\<lambda>r s. ?P s \<and> r = Inr ())"
    using effect_ok_received [OF R] by (auto intro!: triple_intros)
  have collect: "cm_triple ?P (cm_bind (process_past_msg env msg) (\<lambda>r.
      case r of None \<Rightarrow> cm_ret () | Some m \<Rightarrow> past_result env (ch_iteration (ms_header msg)) m)) (effect_ok env R)
      (\<lambda>_. round_inv env cof n)"
  proof (rule triple_bind [OF process_past_triple [OF env wf pay True]])
    show "cm_triple (\<lambda>s. round_inv env cof n s \<and> (\<forall>m. Inr x = Inr (Some m) \<longrightarrow> past_ok env m))
       (case x of None \<Rightarrow> cm_ret () | Some m \<Rightarrow> past_result env (ch_iteration (ms_header msg)) m) (effect_ok env R)
       (\<lambda>_. round_inv env cof n)" for x :: "message option"
      by (cases x) (auto intro!: triple_ret triple_fact past_result_triple [OF env])
  qed simp
  show ?thesis
    unfolding handle_past_msg_def
    by (rule triple_if) (use True in simp, rule triple_bind [OF send], rule triple_if, auto intro: triple_ret triple_pre [OF collect])
qed

end
