(* ===== verification/Round_Loop.thy ===== *)
theory Round_Loop
  imports Round_Steps
begin

text \<open>
  Inbound messages and the event loop keep the invariant of the round, and the message that ends a step is one
  that may be returned.
\<close>

section \<open>Inbound messages\<close>

lemma step_payload_wf:
  assumes "msg_wf msg"
  shows "ch_iteration (ms_header msg) < CONSENSUS_MAX_ITER"
  using assms unfolding msg_wf_def by blast

lemma generate_triple:
  assumes env: "round_env env cof" and i: "i < CONSENSUS_MAX_ITER"
  shows "cm_triple (round_inv env cof n) (cm_generate_committees env i) E
     (\<lambda>r s. r = Inr () \<and> round_inv env cof n s \<and> (\<forall>st. it_committees (rs_ctx s) (to_step st i) \<noteq> None))"
proof (rule cm_tripleI)
  fix s
  assume s: "round_inv env cof n s"
  obtain ctx' where g: "generate_iteration_committees (ce_hash env) i (ce_provisioners env) (ru_seed (ce_ru env)) (rs_ctx s) =
      Some (Inr ctx')" "cache_inv env n ctx'" "\<And>st. it_committees ctx' (to_step st i) \<noteq> None"
    by (rule generate_cache_inv [OF env round_invD(1) [OF s] i]) blast
  then have "cm_generate_committees env i s = Some (Inr (Inr (), s\<lparr>rs_ctx := ctx'\<rparr>, []))"
    by (simp add: cm_generate_committees_def)
  moreover have "round_inv env cof n (s\<lparr>rs_ctx := ctx'\<rparr>)" using s g(2) by (simp add: round_inv_def)
  ultimately show "\<exists>r s' es. cm_generate_committees env i s = Some (Inr (r, s', es)) \<and> (r = Inr () \<and> round_inv env cof n s' \<and>
      (\<forall>st. it_committees (rs_ctx s') (to_step st i) \<noteq> None)) \<and> (\<forall>e \<in> set es. E e)"
    using g(3) by auto
qed

lemma queued_put:
  assumes "queued_wf reg" and "msg_wf m" and "step_payload m" and put: "put_msg nc cap m reg = (r, reg')"
  shows "queued_wf reg'"
proof -
  have "set (pending reg' rnd st) \<subseteq> insert m (set (pending reg rnd st))" for rnd st
    unfolding pending_put [OF put] using set_tl_subset [of "pending reg rnd st"] by (auto split: if_splits)
  with assms(1-3) show ?thesis unfolding queued_wf_def by blast
qed

lemma future_event_triple:
  assumes "msg_wf msg" and "step_payload msg" and R: "msg \<in> R"
  shows "cm_triple (round_inv env cof n) (handle_future_event env msg) (effect_ok env R) (\<lambda>_. round_inv env cof n)"
proof (rule cm_tripleI)
  fix s
  assume s: "round_inv env cof n s"
  obtain r reg where put: "put_msg (ce_crypto env) (ce_cap env) msg (rs_future_msgs s) = (r, reg)" by force
  have inv: "round_inv env cof n (s\<lparr>rs_future_msgs := reg\<rparr>)"
    using s queued_put [OF round_invD(6) [OF s] assms(1,2) put] by (simp add: round_inv_def)
  have "r = Inr m \<Longrightarrow> m = msg" for m
    using put_msg_result [of "ce_crypto env" "ce_cap env" msg "rs_future_msgs s"] unfolding put fst_conv
    by (metis sum.distinct(1) sum.inject(2))
  then show "\<exists>r s' es. handle_future_event env msg s = Some (Inr (r, s', es)) \<and> round_inv env cof n s' \<and>
      (\<forall>e \<in> set es. effect_ok env R e)"
    using s inv effect_ok_received [OF R]
    by (cases r) (auto simp: handle_future_event_def put cm_ret_def cm_tell_def)
qed

text \<open>A message that passes the check of its step is collected.\<close>

lemma is_valid_ready:
  assumes i: "i < CONSENSUS_MAX_ITER" and wf: "msg_wf msg"
    and c: "step \<noteq> Proposal \<Longrightarrow> c = cof (to_step step i)" and valid: "is_valid env msg i step c s = Inr (Inr ())"
  shows "vote_ready env cof msg c" and "ms_payload msg = PValidation p \<Longrightarrow> ch_iteration (va_header p) = i"
proof -
  have "accepted env v \<and> c = cof (msg_step v)" if v: "vote_of_msg msg = Some v" for v
    using is_valid_vote(1-3) [OF valid v wf i] c by (cases v) (auto simp: msg_step_name_def)
  then show "vote_ready env cof msg c" by (simp add: vote_ready_def)
  show "ms_payload msg = PValidation p \<Longrightarrow> ch_iteration (va_header p) = i"
    using is_valid_vote(4) [OF valid _ wf i] by (force simp: vote_of_msg_def msg_header_def)
qed

lemma handler_collect_triple:
  assumes "round_env env cof" and "vote_ready env cof msg c" and "generator \<noteq> None"
    and "\<And>p. ms_payload msg = PValidation p \<Longrightarrow> ch_iteration (va_header p) = i"
  shows "cm_triple (round_inv env cof n) (handler_collect env step msg c generator) (effect_ok env R) (collected env cof R n i)"
  using proposal_collect_triple validation_collect_triple [OF assms] ratification_collect_triple [OF assms(1-3)]
  by (cases step) (simp_all add: handler_collect_def)

lemma accept_triple:
  assumes "round_env env cof" and "vote_ready env cof msg c" and "generator \<noteq> None"
    and "\<And>p. ms_payload msg = PValidation p \<Longrightarrow> ch_iteration (va_header p) = i"
    and R: "effect_ok env R (Outbound msg)"
  shows "cm_triple (round_inv env cof n) (accept_message env step msg c generator) (effect_ok env R)
     (\<lambda>r s. round_inv env cof n s \<and> (\<forall>m. r = Inr (Some m) \<longrightarrow> outcome_ok env cof R i m))"
  unfolding accept_message_def
  by (intro triple_bind_tell triple_bind_try [OF handler_collect_triple [OF assms(1-4)]] triple_ret)
     (use R in \<open>auto simp: collected_def split: sum.splits step_outcome.splits\<close>)

lemma is_valid_triple:
  assumes "unat i < n" and "i < CONSENSUS_MAX_ITER" and "msg_wf msg" and "step_payload msg"
    and "\<And>s. P s \<Longrightarrow> round_inv env cof n s"
  shows "cm_triple P (cm_is_valid env msg i step c) E (\<lambda>r s. P s \<and> (\<exists>v. r = Inr v \<and> is_valid env msg i step c s = Inr v))"
  unfolding cm_is_valid_def
  by (intro triple_try triple_check)
     (metis is_valid_returns [OF round_invD(1) [OF assms(5)] assms(1-4)])

lemma cached_step:
  assumes "round_inv env cof n s" and "unat i < n" "i < CONSENSUS_MAX_ITER"
  shows "\<exists>c. it_committees (rs_ctx s) (to_step step i) = Some c" and "it_get_generator i (rs_ctx s) \<noteq> None"
proof -
  have "cache_inv env n (rs_ctx s)" using assms(1) by (rule round_invD)
  moreover from this have "it_committees (rs_ctx s) (to_step step i) \<noteq> None" using assms(2,3) unfolding cache_inv_def by blast
  ultimately show "\<exists>c. it_committees (rs_ctx s) (to_step step i) = Some c" "it_get_generator i (rs_ctx s) \<noteq> None"
    using generator_cached [OF _ _ assms(3)] by (blast, metis option.distinct(1))
qed

lemma accept_valid_triple:
  assumes env: "round_env env cof" and i: "i < CONSENSUS_MAX_ITER" and wf: "msg_wf msg"
    and R: "effect_ok env R (Outbound msg)" and c: "step \<noteq> Proposal \<Longrightarrow> c = cof (to_step step i)" and g: "generator \<noteq> None"
  shows "cm_triple (\<lambda>s. round_inv env cof n s \<and> is_valid env msg i step c s = Inr (Inr ()))
     (accept_message env step msg c generator) (effect_ok env R)
     (\<lambda>r s. round_inv env cof n s \<and> (\<forall>m. r = Inr (Some m) \<longrightarrow> outcome_ok env cof R i m))"
proof (rule triple_state)
  fix s0
  assume s0: "round_inv env cof n s0 \<and> is_valid env msg i step c s0 = Inr (Inr ())"
  note ready = is_valid_ready [where cof = cof, OF i wf c conjunct2 [OF s0]]
  show "cm_triple (\<lambda>s. s = s0) (accept_message env step msg c generator) (effect_ok env R)
     (\<lambda>r s. round_inv env cof n s \<and> (\<forall>m. r = Inr (Some m) \<longrightarrow> outcome_ok env cof R i m))"
    using s0 by (intro triple_pre [OF accept_triple [OF env ready(1) g ready(2) R]]) auto
qed

lemma process_inbound_triple:
  assumes env: "round_env env cof" and i: "unat i < n" "i < CONSENSUS_MAX_ITER" and wf: "msg_wf msg" and pay: "step_payload msg"
    and R: "msg \<in> R"
  shows "cm_triple (round_inv env cof n) (process_inbound_msg env i step msg) (effect_ok env R)
     (\<lambda>r s. round_inv env cof n s \<and> (\<forall>m. r = Inr (Some m) \<longrightarrow> outcome_ok env cof R i m))"
proof -
  let ?Q = "\<lambda>r s. round_inv env cof n s \<and> (\<forall>m. r = Inr (Some m) \<longrightarrow> outcome_ok env cof R i m)"
  have past: "cm_triple (\<lambda>s. round_inv env cof n s \<and> is_valid env msg i step c s = Inr (Inl PastEvent))
      (handle_past_msg env msg) (effect_ok env R) (\<lambda>_. round_inv env cof n)" for c
    by (rule triple_pre [OF handle_past_triple [OF env wf pay R]]) (blast dest: is_valid_past)
  have com: "c = cof (to_step step i)" if "round_inv env cof n s" "ctx = rs_ctx s" "it_committees ctx (to_step step i) = Some c" "step \<noteq> Proposal" for s ctx c
    using cached_committee [OF env round_invD(1) [OF that(1)] _ that(4) i(2)] that(2,3) by auto
  have tail: "cm_triple (\<lambda>s. (round_inv env cof n s \<and> ctx = rs_ctx s) \<and>
        (\<exists>v. Inr valid = (Inr v :: consensus_error + (consensus_error + unit)) \<and> is_valid env msg i step c s = Inr v))
      (case valid of
         Inr _ \<Rightarrow> accept_message env step msg c (it_get_generator i ctx)
       | Inl FutureEvent \<Rightarrow> cm_bind (handle_future_event env msg) (\<lambda>_. cm_ret None)
       | Inl PastEvent \<Rightarrow> cm_bind (handle_past_msg env msg) (\<lambda>_. cm_ret None)
       | Inl _ \<Rightarrow> cm_ret None) (effect_ok env R) ?Q"
    if c: "it_committees ctx (to_step step i) = Some c" for ctx c valid
  proof (cases valid)
    case (Inl e)
    show ?thesis
      unfolding Inl sum.case
      by (cases e)
         (auto intro!: triple_ret triple_bind [OF triple_pre [OF past]] triple_bind [OF triple_pre [OF future_event_triple [OF wf pay R]]])
  next
    case (Inr u)
    show ?thesis
      unfolding Inr sum.case
    proof (rule triple_state)
      fix s0
      assume s0: "(round_inv env cof n s0 \<and> ctx = rs_ctx s0) \<and>
        (\<exists>v. Inr (Inr u) = (Inr v :: consensus_error + (consensus_error + unit)) \<and> is_valid env msg i step c s0 = Inr v)"
      then have g: "it_get_generator i ctx \<noteq> None" using cached_step(2) [OF _ i] by blast
      have "c = cof (to_step step i)" if "step \<noteq> Proposal" using com [OF _ _ c that] s0 by blast
      from accept_valid_triple [OF env i(2) wf effect_ok_received [OF R] this g]
      show "cm_triple (\<lambda>s. s = s0) (accept_message env step msg c (it_get_generator i ctx)) (effect_ok env R) ?Q"
        by (rule triple_pre) (use s0 in auto)
    qed
  qed
  show ?thesis
    unfolding process_inbound_msg_def
  proof (rule triple_bind [where R = "\<lambda>r s. round_inv env cof n s \<and> r = Inr ()"], goal_cases)
    case 1
    show ?case
      by (auto intro!: triple_ret triple_post [OF generate_triple [OF env step_payload_wf [OF wf]]])
  next
    case (2 x)
    show ?case
      by (intro triple_bind_gets triple_bind_expect triple_bind [OF is_valid_triple [OF i wf pay]] triple_pre [OF tail])
         (use cached_step [OF _ i] in \<open>auto simp: rc_get_committee_def\<close>)
  qed simp
qed

section \<open>The event loop\<close>

definition events_ok :: "message set \<Rightarrow> event list \<Rightarrow> bool" where
  "events_ok R evs \<longleftrightarrow> (\<forall>msg. Received msg \<in> set evs \<longrightarrow> msg_wf msg \<and> msg \<in> R)"

definition loop_ok ::
    "('mpk, 'msig, 'sk) consensus_env \<Rightarrow> (u8 \<Rightarrow> committee) \<Rightarrow> message set \<Rightarrow> u8 \<Rightarrow> loop_result \<Rightarrow> bool" where
  "loop_ok env cof R i r = (case r of Continue _ \<Rightarrow> True | Finish m \<Rightarrow> outcome_ok env cof R i m)"

lemma loop_ok_simps [simp]:
  "loop_ok env cof R i (Continue b)" "loop_ok env cof R i (Finish m) = outcome_ok env cof R i m"
  by (simp_all add: loop_ok_def)

lemma timeout_event_triple:
  "cm_triple (round_inv env cof n) (process_timeout_event env i step) (effect_ok env R) (\<lambda>_. round_inv env cof n)"
proof (rule cm_tripleI)
  fix s
  assume s: "round_inv env cof n s"
  obtain ctx where ctx: "on_timeout_event step (rs_ctx s) = Inr ctx" "cache_inv env n ctx"
    by (rule cache_inv_timeout [OF round_invD(1) [OF s]])
  have "effect_ok env R (Outbound m)" if "handle_timeout step (ce_ru env) i = Some m" for m
    using that by (auto simp: handle_timeout_def effect_ok_def request_resource_def Let_def split: step_name.splits if_splits)
  then show "\<exists>r s' es. process_timeout_event env i step s = Some (Inr (r, s', es)) \<and> round_inv env cof n s' \<and>
      (\<forall>e \<in> set es. effect_ok env R e)"
    using s ctx
    by (cases "handle_timeout step (ce_ru env) i") (auto simp: process_timeout_event_def cm_ret_def cm_tell_def round_inv_def)
qed

lemma step_message_triple:
  assumes "round_env env cof" and "unat i < n" "i < CONSENSUS_MAX_ITER" and "msg_wf msg" and "step_payload msg" and R: "msg \<in> R"
  shows "cm_triple (round_inv env cof n) (step_message_event env i step open_mode msg) (effect_ok env R)
     (\<lambda>r s. round_inv env cof n s \<and> (\<forall>x. r = Inr x \<longrightarrow> loop_ok env cof R i x))"
  unfolding step_message_event_def
proof (rule triple_bind [OF process_inbound_triple [OF assms]], goal_cases)
  case (1 x)
  have "cm_triple (round_inv env cof n) (case ms_payload m of
      PQuorum qmsg \<Rightarrow> (case at_result (qu_att qmsg) of Success _ \<Rightarrow> cm_tell [Outbound msg] | Fail _ \<Rightarrow> cm_ret ())
    | _ \<Rightarrow> cm_ret ()) (effect_ok env R) (\<lambda>_. round_inv env cof n)" for m
    using effect_ok_received [OF R] by (auto intro!: triple_intros split: payload.splits ratification_result.splits)
  note send = triple_bind [OF triple_pre [OF this]]
  show ?case
    by (cases x) (auto intro!: triple_ret send)
qed simp

lemma store_fail_triple:
  assumes i: "unat (ch_iteration (qu_header q)) < n" "ch_iteration (qu_header q) < CONSENSUS_MAX_ITER"
    and wf: "at_result (qu_att q) = result_of_vote (result_vote (at_result (qu_att q)))"
  shows "cm_triple (round_inv env cof n) (store_fail_attestation env q) E (\<lambda>_. round_inv env cof n)"
proof (cases "at_result (qu_att q)")
  case (Fail u)
  have "round_inv env cof n (s\<lparr>rs_sv_registry := set_attestation (ch_iteration (qu_header q)) (qu_att q) g (rs_sv_registry s)\<rparr>)"
    if "round_inv env cof n s" for s g
    using that set_attestation_ok [OF round_invD(4) [OF that] wf Fail] by (simp add: round_inv_def)
  then show ?thesis
    unfolding store_fail_attestation_def Let_def Fail
    using cached_step(2) [OF _ i]
    by (auto intro!: triple_bind_gets triple_if triple_bind_expect triple_ret triple_modify)
qed (simp add: store_fail_attestation_def triple_ret)

lemma quorum_event_triple:
  assumes i: "unat i < n" "i < CONSENSUS_MAX_ITER" and wf: "msg_wf msg" and q: "ms_payload msg = PQuorum q" and R: "msg \<in> R"
  shows "cm_triple (round_inv env cof n) (quorum_event env i open_mode msg q) (effect_ok env R)
     (\<lambda>r s. round_inv env cof n s \<and> (\<forall>x. r = Inr x \<longrightarrow> loop_ok env cof R i x))"
proof (cases "ch_iteration (qu_header q) \<le> i")
  case True
  then have qi: "unat (ch_iteration (qu_header q)) < n" "ch_iteration (qu_header q) < CONSENSUS_MAX_ITER"
    using i by (metis word_le_nat_alt order.strict_trans1, metis order.strict_trans1)
  have "at_result (qu_att q) = result_of_vote (result_vote (at_result (qu_att q)))" using wf q by (simp add: msg_wf_def)
  note store = store_fail_triple [OF qi this]
  have "outcome_ok env cof R i msg" using R q by (simp add: outcome_ok_def)
  then show ?thesis
    unfolding quorum_event_def Let_def
    using effect_ok_received [OF R]
    by (auto intro!: triple_ret triple_bind [OF store] triple_bind_tell split: ratification_result.splits)
qed (auto simp: quorum_event_def Let_def not_le intro: triple_ret)

lemma event_step_triple:
  assumes env: "round_env env cof" and i: "unat i < n" "i < CONSENSUS_MAX_ITER" and ev: "events_ok R [ev]"
  shows "cm_triple (round_inv env cof n) (event_step env i step open_mode ev) (effect_ok env R)
     (\<lambda>r s. round_inv env cof n s \<and> (\<forall>x. r = Inr x \<longrightarrow> loop_ok env cof R i x))"
proof (cases ev)
  case (Received msg)
  then have msg: "msg_wf msg" "msg \<in> R" using ev by (simp_all add: events_ok_def)
  show ?thesis
    using step_message_triple [OF env i msg(1) _ msg(2)] quorum_event_triple [OF i msg(1) _ msg(2)]
    by (cases "ms_payload msg") (auto simp: event_step_def Received step_payload_def intro: triple_ret)
next
  case Deadline
  then show ?thesis
    by (auto simp: event_step_def outcome_ok_def message_empty_def intro!: triple_ret triple_bind [OF timeout_event_triple])
qed (auto simp: event_step_def intro: triple_ret)

text \<open>What waiting for a step gives: the invariant, a message that may be returned, and events that are left.\<close>

definition awaited ::
    "('mpk, 'msig, 'sk) consensus_env \<Rightarrow> (u8 \<Rightarrow> committee) \<Rightarrow> message set \<Rightarrow> nat \<Rightarrow> u8
     \<Rightarrow> consensus_error + (message option \<times> event list) \<Rightarrow> ('msig, 'sk) round_state \<Rightarrow> bool" where
  "awaited env cof R n i r s \<longleftrightarrow> round_inv env cof n s \<and>
     (\<forall>m evs. r = Inr (m, evs) \<longrightarrow> events_ok R evs \<and> (\<forall>msg. m = Some msg \<longrightarrow> outcome_ok env cof R i msg))"

lemma awaited_simps [simp]:
  "awaited env cof R n i (Inl e) s = round_inv env cof n s"
  "awaited env cof R n i (Inr (None, evs)) s \<longleftrightarrow> round_inv env cof n s \<and> events_ok R evs"
  "awaited env cof R n i (Inr (Some m, evs)) s \<longleftrightarrow> round_inv env cof n s \<and> events_ok R evs \<and> outcome_ok env cof R i m"
  by (auto simp: awaited_def)

lemma events_ok_Cons: "events_ok R (ev # evs) \<longleftrightarrow> events_ok R [ev] \<and> events_ok R evs"
  by (auto simp: events_ok_def)

lemma event_loop_from_triple:
  assumes env: "round_env env cof" and i: "unat i < n" "i < CONSENSUS_MAX_ITER" and evs: "events_ok R evs"
  shows "cm_triple (round_inv env cof n) (event_loop_from env i step open_mode evs) (effect_ok env R) (awaited env cof R n i)"
  using evs
proof (induction evs arbitrary: open_mode)
  case Nil
  then show ?case by (auto intro: triple_ret)
next
  case (Cons ev evs)
  have evs: "events_ok R [ev]" "events_ok R evs" using Cons.prems events_ok_Cons by blast+
  show ?case
    unfolding event_loop_from.simps
  proof (rule triple_bind [OF event_step_triple [OF env i evs(1)]])
    show "cm_triple (\<lambda>s. round_inv env cof n s \<and> (\<forall>y. Inr x = Inr y \<longrightarrow> loop_ok env cof R i y))
        (case x of Finish m \<Rightarrow> cm_ret (Some m, evs) | Continue open_mode \<Rightarrow> event_loop_from env i step open_mode evs)
        (effect_ok env R) (awaited env cof R n i)" for x
      using Cons.IH [OF evs(2)] evs(2)
      by (cases x) (auto intro!: triple_ret intro: triple_pre)
  qed simp
qed

lemma timeout_check_triple:
  assumes "\<And>s. P s \<Longrightarrow> round_inv env cof n s"
  shows "cm_triple P (\<lambda>s. cm_check (res_map Inr (get_timeout step (rs_ctx s))) s) E (\<lambda>r s. P s \<and> is_ok r)"
proof (rule triple_check)
  fix s
  assume s: "P s"
  then have "it_timeouts (rs_ctx s) step \<noteq> None" using round_invD(1) [OF assms] unfolding cache_inv_def by blast
  with s show "\<exists>r. res_map Inr (get_timeout step (rs_ctx s)) = Inr r \<and> P s \<and> is_ok r" by (auto simp: get_timeout_def res_map_def)
qed

lemma event_loop_triple:
  assumes "round_env env cof" and "unat i < n" "i < CONSENSUS_MAX_ITER" and "events_ok R evs"
  shows "cm_triple (round_inv env cof n) (event_loop env i step evs) (effect_ok env R) (awaited env cof R n i)"
  unfolding event_loop_def
  by (rule triple_bind [OF timeout_check_triple])
     (auto intro: triple_pre [OF event_loop_from_triple [OF assms]] simp: is_ok_iff)

section \<open>Messages that arrived early\<close>

lemma future_loop_triple:
  assumes env: "round_env env cof" and i: "unat i < n" "i < CONSENSUS_MAX_ITER"
    and c: "step \<noteq> Proposal \<Longrightarrow> c = cof (to_step step i)" and g: "generator \<noteq> None"
    and msgs: "\<forall>m \<in> set msgs. msg_wf m \<and> step_payload m"
  shows "cm_triple (round_inv env cof n) (future_msgs_loop env i step c generator msgs) (effect_ok env R)
     (\<lambda>r s. round_inv env cof n s \<and> (\<forall>m. r = Inr (Ready m) \<longrightarrow> outcome_ok env cof R i m))"
  using msgs
proof (induction msgs)
  case Nil
  then show ?case by (auto intro: triple_ret)
next
  case (Cons msg msgs)
  have wf: "msg_wf msg" "step_payload msg" using Cons.prems by simp_all
  have out: "effect_ok env R (Outbound msg)" using wf(2) by (intro effect_ok_other) (auto simp: step_payload_def)
  note IH = Cons.IH
  show ?case
    unfolding future_msgs_loop.simps
  proof (rule triple_bind [OF is_valid_triple [where cof = cof, OF i wf]], goal_cases)
    case (2 ret)
    show ?case
    proof (cases ret)
      case (Inr u)
      show ?thesis
        unfolding Inr sum.case
      proof (rule triple_bind [OF triple_pre [OF accept_valid_triple [where n = n, OF env i(2) wf(1) out c g]]], goal_cases)
        case (3 x)
        show ?case using IH Cons.prems by (cases x) (auto intro!: triple_ret triple_pre [where P' = "round_inv env cof n"])
      qed auto
    qed (use IH Cons.prems in \<open>auto intro: triple_pre\<close>)
  qed auto
qed

end
