(* ===== verification/Round_Run.thy ===== *)
theory Round_Run
  imports Round_Loop
begin

text \<open>The steps, the iterations and the consensus task of a round.\<close>

section \<open>Waiting for a step\<close>

text \<open>The committee and the generator of the step that runs.\<close>

lemma step_committee:
  assumes "round_env env cof" and "round_inv env cof n s" and "unat i < n" "i < CONSENSUS_MAX_ITER"
    and "it_committees (rs_ctx s) (to_step step i) = Some c" and "step \<noteq> Proposal"
  shows "c = cof (to_step step i)"
  using cached_committee [OF assms(1) round_invD(1) [OF assms(2)] assms(5,6,4)] .

lemma drain_triple:
  "cm_triple (round_inv env cof n)
     (\<lambda>s. case drain_msg_by_round_step rnd st (rs_future_msgs s) of
        (messages, reg) \<Rightarrow> Some (Inr (Inr messages, s\<lparr>rs_future_msgs := reg\<rparr>, []))) E
     (\<lambda>r s. round_inv env cof n s \<and> (\<exists>ms. r = Inr ms \<and> (\<forall>msgs. ms = Some msgs \<longrightarrow> (\<forall>m \<in> set msgs. msg_wf m \<and> step_payload m))))"
proof (rule cm_tripleI)
  fix s
  assume s: "round_inv env cof n s"
  obtain ms reg where d: "drain_msg_by_round_step rnd st (rs_future_msgs s) = (ms, reg)" by force
  have q: "queued_wf (rs_future_msgs s)" using s by (rule round_invD)
  have "queued_wf reg" using q unfolding queued_wf_def pending_drain(2) [OF d] by simp
  then have "round_inv env cof n (s\<lparr>rs_future_msgs := reg\<rparr>)" using s by (simp add: round_inv_def)
  moreover have "\<forall>m \<in> set msgs. msg_wf m \<and> step_payload m" if "ms = Some msgs" for msgs
    using q pending_drain(1) [OF d] that unfolding queued_wf_def by (metis option.simps(5))
  ultimately show "\<exists>r s' es. (case drain_msg_by_round_step rnd st (rs_future_msgs s) of
        (messages, reg) \<Rightarrow> Some (Inr (Inr messages, s\<lparr>rs_future_msgs := reg\<rparr>, []))) = Some (Inr (r, s', es)) \<and>
     (round_inv env cof n s' \<and> (\<exists>ms. r = Inr ms \<and> (\<forall>msgs. ms = Some msgs \<longrightarrow> (\<forall>m \<in> set msgs. msg_wf m \<and> step_payload m)))) \<and>
     (\<forall>e \<in> set es. E e)"
    using d by simp
qed

lemma handle_future_triple:
  assumes env: "round_env env cof" and i: "unat i < n" "i < CONSENSUS_MAX_ITER"
  shows "cm_triple (round_inv env cof n) (handle_future_msgs env i step) (effect_ok env R)
     (\<lambda>r s. round_inv env cof n s \<and> (\<forall>m. r = Inr (Ready m) \<longrightarrow> outcome_ok env cof R i m))"
proof (rule triple_state)
  fix s0
  assume s0: "round_inv env cof n s0"
  obtain c where c: "it_committees (rs_ctx s0) (to_step step i) = Some c" using cached_step(1) [OF s0 i] by blast
  have g: "it_get_generator i (rs_ctx s0) \<noteq> None" by (rule cached_step(2) [OF s0 i])
  note loop = future_loop_triple [where cof = cof, OF env i step_committee [OF env s0 i c] g]
  let ?Q = "\<lambda>r s. round_inv env cof n s \<and> (\<forall>m. r = Inr (Ready m) \<longrightarrow> outcome_ok env cof R i m)"
  have tail: "cm_triple (\<lambda>s. round_inv env cof n s \<and> (\<exists>ms'. Inr ms = (Inr ms' :: consensus_error + message list option) \<and>
        (\<forall>msgs. ms' = Some msgs \<longrightarrow> (\<forall>m \<in> set msgs. msg_wf m \<and> step_payload m))))
      (case ms of None \<Rightarrow> cm_ret Pending | Some msgs \<Rightarrow> future_msgs_loop env i step c (it_get_generator i (rs_ctx s0)) msgs)
      (effect_ok env R) ?Q" for ms
    by (cases ms) (auto intro!: triple_ret triple_fact loop)
  show "cm_triple (\<lambda>s. s = s0) (handle_future_msgs env i step) (effect_ok env R) ?Q"
    unfolding handle_future_msgs_def
  proof (rule triple_bind_gets, rule triple_state)
    fix ctx s1
    assume "s1 = s0 \<and> ctx = rs_ctx s1"
    then have ctx: "ctx = rs_ctx s0" "s1 = s0" by simp_all
    show "cm_triple (\<lambda>s. s = s1) (cm_bind (cm_expect ''committee to be created before run''
         (rc_get_committee (to_step step i) (it_committees ctx))) (\<lambda>committee.
       cm_bind (\<lambda>s. case drain_msg_by_round_step (ru_round (ce_ru env)) (to_step step i) (rs_future_msgs s) of
                  (messages, reg) \<Rightarrow> Some (Inr (Inr messages, s\<lparr>rs_future_msgs := reg\<rparr>, []))) (\<lambda>messages.
       case messages of None \<Rightarrow> cm_ret Pending
       | Some msgs \<Rightarrow> future_msgs_loop env i step committee (it_get_generator i ctx) msgs))) (effect_ok env R) ?Q"
      unfolding ctx rc_get_committee_def c cm_expect_def option.case cm_bind_ret
      by (rule triple_bind [OF triple_pre [OF drain_triple]]) (use s0 tail in auto)
  qed
qed

lemma await_triple:
  assumes "round_env env cof" and "unat i < n" "i < CONSENSUS_MAX_ITER" and "events_ok R evs"
  shows "cm_triple (round_inv env cof n) (await_step env i step evs) (effect_ok env R) (awaited env cof R n i)"
  unfolding await_step_def
proof (rule triple_bind [OF handle_future_triple [OF assms(1-3)]])
  show "cm_triple (\<lambda>s. round_inv env cof n s \<and> (\<forall>m. Inr x = Inr (Ready m) \<longrightarrow> outcome_ok env cof R i m))
      (case x of Ready m \<Rightarrow> cm_ret (Some m, evs) | Pending \<Rightarrow> event_loop env i step evs) (effect_ok env R) (awaited env cof R n i)" for x
    using event_loop_triple [OF assms] assms(4) by (cases x) (auto intro!: triple_ret)
qed simp

section \<open>The steps\<close>

lemma committee_triple:
  assumes "unat i < n" "i < CONSENSUS_MAX_ITER"
  shows "cm_triple (round_inv env cof n) (current_committee i step) E
     (\<lambda>r s. round_inv env cof n s \<and> (\<exists>c. r = Inr c \<and> it_committees (rs_ctx s) (to_step step i) = Some c))"
  unfolding current_committee_def
  by (intro triple_bind_gets triple_expect) (use cached_step [OF _ assms] in \<open>auto simp: rc_get_committee_def\<close>)

lemma proposal_run_triple:
  assumes env: "round_env env cof" and i: "unat i < n" "i < CONSENSUS_MAX_ITER" and evs: "events_ok R evs"
  shows "cm_triple (round_inv env cof n) (proposal_run env i evs) (effect_ok env R) (awaited env cof R n i)"
proof -
  note await = await_triple [OF env i evs, of Proposal]
  have own: "cm_triple (round_inv env cof n) (cm_bind (cm_tell [Outbound msg]) (\<lambda>_.
      cm_bind (cm_try (proposal_collect msg)) (\<lambda>r.
      case r of Inr (Ready m) \<Rightarrow> cm_ret (Some m, evs) | _ \<Rightarrow> await_step env i Proposal evs)))
      (effect_ok env R) (awaited env cof R n i)" if "ce_generate env i fails = Some msg" for fails msg
    using round_envD(8) [OF env that] await evs
    by (intro triple_bind_tell triple_bind_try [OF proposal_collect_triple [of env cof n msg R i]])
       (auto intro!: effect_ok_other triple_ret triple_pre [OF await] split: sum.splits step_outcome.splits)
  show ?thesis
    unfolding proposal_run_def
  proof (rule triple_bind [OF committee_triple [OF i]], goal_cases)
    case (1 c)
    show ?case
      by (intro triple_if triple_bind_gets)
         (auto intro: triple_pre [OF await] triple_pre [OF own] split: option.splits)
  qed simp
qed

lemma validation_run_triple:
  assumes env: "round_env env cof" and i: "unat i < n" "i < CONSENSUS_MAX_ITER" and evs: "events_ok R evs"
  shows "cm_triple (round_inv env cof n) (validation_run env i evs) (effect_ok env R) (awaited env cof R n i)"
proof -
  have vote: "cm_triple (round_inv env cof n)
      (if am_member env c then
          cm_bind (cm_gets vh_candidate) (\<lambda>candidate.
          cm_bind (cm_gets rs_ctx) (\<lambda>ctx.
          cm_bind (cm_expect ''Generator to be created '' (it_get_generator i ctx)) (\<lambda>current_generator.
          if candidate \<noteq> None \<or> \<not> is_emergency_iter i
          then spawn_try_vote env i candidate current_generator else cm_ret ())))
        else cm_ret ()) (effect_ok env R) (\<lambda>_. round_inv env cof n)" for c
    by (intro triple_if triple_bind_gets triple_bind_expect triple_ret triple_conseq [OF validation_vote_triple(2) [OF env]])
       (use cached_step(2) [OF _ i] in auto)
  show ?thesis
    unfolding validation_run_def
  proof (rule triple_bind [OF committee_triple [OF i]], goal_cases)
    case (1 c)
    show ?case by (rule triple_bind [OF triple_pre [OF vote]]) (auto intro: await_triple [OF env i evs])
  qed simp
qed

text \<open>The node's own vote passes the checks.\<close>

lemma own_vote_ready:
  assumes env: "round_env env cof" and i: "i < CONSENSUS_MAX_ITER" and c: "c = cof (to_step Ratification i)"
  shows "vote_ready env cof (message_from (PRatification
           (build_ratification_payload (ce_sign env) now (ce_ru env) i vr))) c"
proof -
  let ?r = "build_ratification_payload (ce_sign env) now (ce_ru env) i vr"
  have "verify_msg_signature (ce_crypto env) (RatificationMsg ?r) = Inr ()"
    using round_envD(3) [OF env, of "ratification_signable ?r"]
    by (simp add: verify_msg_signature_def msg_sign_info_def msg_signable_def build_ratification_payload_def
        ratification_sign_def ratification_signable_def)
  moreover have "msg_header (RatificationMsg ?r) = round_header (ce_ru env) i"
    by (simp add: msg_header_def build_ratification_payload_def ratification_sign_def)
  ultimately have "accepted env (RatificationMsg ?r)" "c = cof (msg_step (RatificationMsg ?r))"
    using i c by (simp_all add: accepted_def accepted_msg_def round_header_def msg_step_def msg_step_name_def less_imp_le)
  then show ?thesis by (simp add: vote_ready_def vote_of_msg_def)
qed

lemma ratification_run_triple:
  assumes env: "round_env env cof" and i: "unat i < n" "i < CONSENSUS_MAX_ITER" and evs: "events_ok R evs"
  shows "cm_triple (round_inv env cof n) (ratification_run env i evs) (effect_ok env R) (awaited env cof R n i)"
proof -
  note await = await_triple [OF env i evs, of Ratification]
  have own: "cm_triple (round_inv env cof n)
      (cm_bind (ratification_try_vote env i vr) (\<lambda>vote_msg.
       cm_bind (cm_try (ratification_collect env vote_msg c g)) (\<lambda>r.
       case r of Inr (Ready m) \<Rightarrow> cm_ret (Some m, evs) | _ \<Rightarrow> await_step env i Ratification evs)))
      (effect_ok env R) (awaited env cof R n i)" if c: "c = cof (to_step Ratification i)" and g: "g \<noteq> None" for c vr g
  proof (rule triple_bind [OF ratification_vote_triple], rule triple_fact, goal_cases)
    case (1 m)
    then have m: "vote_ready env cof m c" using own_vote_ready [OF env i(2) c] by simp
    show ?case
      by (rule triple_bind_try [OF ratification_collect_triple [where i = i, OF env m g]])
         (use evs in \<open>auto intro!: triple_ret triple_pre [OF await] split: sum.splits step_outcome.splits\<close>)
  qed simp
  show ?thesis
    unfolding ratification_run_def
  proof (rule triple_bind [OF committee_triple [OF i]], goal_cases)
    case (1 c)
    show ?case
    proof (rule triple_state)
      fix s0
      assume "round_inv env cof n s0 \<and> (\<exists>c'. (Inr c :: consensus_error + committee) = Inr c' \<and>
        it_committees (rs_ctx s0) (to_step Ratification i) = Some c')"
      then have s0: "round_inv env cof n s0" and c: "c = cof (to_step Ratification i)" and g: "it_get_generator i (rs_ctx s0) \<noteq> None"
        using step_committee [OF env _ i] cached_step(2) [OF _ i] by auto
      show "cm_triple (\<lambda>s. s = s0) (if am_member env c then
           cm_bind (cm_gets rh_validation_result) (\<lambda>result.
           cm_bind (cm_gets rs_ctx) (\<lambda>ctx.
           cm_bind (ratification_try_vote env i result) (\<lambda>vote_msg.
           cm_bind (cm_try (ratification_collect env vote_msg c (it_get_generator i ctx))) (\<lambda>r.
           case r of Inr (Ready m) \<Rightarrow> cm_ret (Some m, evs) | _ \<Rightarrow> await_step env i Ratification evs))))
         else await_step env i Ratification evs) (effect_ok env R) (awaited env cof R n i)"
        by (intro triple_if triple_bind_gets, rule triple_state)
           (use s0 c g in \<open>auto intro: triple_pre [OF own] triple_pre [OF await]\<close>)
    qed
  qed simp
qed

lemma phase_run_triple:
  assumes "round_env env cof" and "unat i < n" "i < CONSENSUS_MAX_ITER" and "events_ok R evs"
  shows "cm_triple (round_inv env cof n) (phase_run env i step evs) (effect_ok env R) (awaited env cof R n i)"
  unfolding phase_run_def
proof (rule triple_bind [OF timeout_check_triple], goal_cases)
  case (2 x)
  show ?case
    using proposal_run_triple [OF assms] validation_run_triple [OF assms] ratification_run_triple [OF assms]
    by (cases step) simp_all
qed (auto simp: is_ok_iff)

lemma phase_start_triple:
  assumes "outcome_ok env cof R i msg"
  shows "cm_triple (round_inv env cof n) (phase_reinitialize step msg i) E (\<lambda>r. round_inv env cof n)"
proof -
  have "known_ok env cof i (case ms_payload msg of PValidationResult p \<Rightarrow> p | _ \<Rightarrow> validation_result_default)"
    using assms by (auto simp: outcome_ok_def known_ok_def split: payload.splits)
  then show ?thesis
    by (cases step) (auto simp: phase_reinitialize_def validation_reinitialize_def ratification_reinitialize_def round_inv_def
        intro!: triple_ret triple_modify)
qed

section \<open>The round\<close>

lemma run_phases_triple:
  assumes env: "round_env env cof" and i: "unat i < n" "i < CONSENSUS_MAX_ITER" and "events_ok R evs"
    and "outcome_ok env cof R i msg"
  shows "cm_triple (round_inv env cof n) (run_phases env i steps msg evs) (effect_ok env R)
     (\<lambda>r s. round_inv env cof n s \<and> (\<forall>over evs. r = Inr (over, evs) \<longrightarrow> events_ok R evs))"
  using assms(4,5)
proof (induction steps arbitrary: msg evs)
  case Nil
  then show ?case by (auto intro: triple_ret)
next
  case (Cons step steps)
  let ?Q = "\<lambda>r s. round_inv env cof n s \<and> (\<forall>over evs. r = Inr (over :: bool, evs) \<longrightarrow> events_ok R evs)"
  have tail: "cm_triple (awaited env cof R n i (Inr x)) (case x of (r, evs) \<Rightarrow>
     (case r of None \<Rightarrow> cm_ret (False, evs)
      | Some msg \<Rightarrow>
         (case ms_payload msg of
            PQuorum _ \<Rightarrow> cm_bind (cm_tell [Outbound msg]) (\<lambda>_. cm_ret (True, evs))
          | _ \<Rightarrow> run_phases env i steps msg evs))) (effect_ok env R) ?Q" for x
  proof (cases x)
    case (Pair r evs')
    show ?thesis
    proof (cases r)
      case (Some m)
      have "cm_triple (\<lambda>s. round_inv env cof n s \<and> events_ok R evs' \<and> outcome_ok env cof R i m)
        (case ms_payload m of
            PQuorum _ \<Rightarrow> cm_bind (cm_tell [Outbound m]) (\<lambda>_. cm_ret (True, evs'))
          | _ \<Rightarrow> run_phases env i steps m evs') (effect_ok env R) ?Q"
        by (rule triple_fact) (use Cons.IH effect_ok_outcome in \<open>auto intro!: triple_bind_tell triple_ret split: payload.splits\<close>)
      then show ?thesis unfolding Pair Some prod.case option.case by (rule triple_pre) simp
    qed (auto simp: Pair intro: triple_ret)
  qed
  show ?case
    unfolding run_phases.simps
    by (intro triple_bind [OF phase_start_triple [OF Cons.prems(2)]] triple_bind [OF phase_run_triple [OF env i Cons.prems(1)]] tail)
       simp_all
qed

lemma begin_iteration_triple:
  assumes env: "round_env env cof" and i: "i < CONSENSUS_MAX_ITER"
  shows "cm_triple (round_inv env cof (unat i)) (cm_generate_committees env i) E
     (\<lambda>r s. r = Inr () \<and> round_inv env cof (Suc (unat i)) s)"
  by (rule triple_post [OF generate_triple [OF env i]]) (auto simp: round_inv_def intro: cache_inv_Suc)

lemma run_iterations_triple:
  assumes env: "round_env env cof" and "i < CONSENSUS_MAX_ITER" and "events_ok R evs"
  shows "cm_triple (round_inv env cof (unat i)) (run_iterations env k i evs) (effect_ok env R) (\<lambda>_ s. \<exists>n. round_inv env cof n s)"
  using assms(2,3)
proof (induction k arbitrary: i evs)
  case 0
  then show ?case by (auto intro: triple_ret)
next
  case (Suc k)
  note i = Suc.prems(1)
  have start: "cm_triple (round_inv env cof (unat i)) (cm_modify (\<lambda>s. s\<lparr>rs_ctx := on_begin i (rs_ctx s)\<rparr>)) (effect_ok env R)
      (\<lambda>r. round_inv env cof (unat i))"
    by (auto intro!: triple_modify simp: round_inv_def)
  have next_i: "next_iteration i < CONSENSUS_MAX_ITER" "unat (next_iteration i) \<le> Suc (unat i)"
    using i by (auto simp: next_iteration_def CONSENSUS_MAX_ITER_def word_less_nat_alt word_le_nat_alt unat_word_ariths)
  have "outcome_ok env cof R i message_empty" by (simp add: outcome_ok_def message_empty_def)
  note phases = run_phases_triple [OF env lessI i Suc.prems(2) this, of "[Proposal, Validation, Ratification]"]
  have again: "cm_triple (\<lambda>s. round_inv env cof (Suc (unat i)) s \<and> events_ok R evs')
      (run_iterations env k (next_iteration i) evs') (effect_ok env R) (\<lambda>_ s. \<exists>n. round_inv env cof n s)" for evs'
    by (auto intro!: triple_fact triple_pre [OF Suc.IH [OF next_i(1)]] intro: round_inv_mono [OF _ next_i(2)])
  show ?case
    unfolding run_iterations.simps
    by (intro triple_bind_tell triple_bind [OF start] triple_bind [OF begin_iteration_triple [OF env i]]
        triple_bind [OF triple_pre [OF phases]])
       (auto simp del: run_phases.simps intro!: again triple_ret)
qed

end
