(* ===== verification/Consensus_Safety.thy ===== *)
theory Consensus_Safety
  imports Round_Run
begin

text \<open>What the consensus task of a round guarantees, and where it does not do what its comments say.\<close>

section \<open>The committees of a round\<close>

lemma step_committee_returns:
  assumes "sortable p (ch_round h)" and "ch_iteration h < CONSENSUS_MAX_ITER" and "s \<noteq> Proposal"
  shows "\<exists>c. get_step_committee hash h p seed s = Some (Inr c)"
proof -
  let ?ctx = "iteration_ctx_new (ch_round h) 0 Map.empty"
  have "it_round ?ctx = ch_round h" by (simp add: iteration_ctx_new_def)
  with assms(1) have "sortable p (it_round ?ctx)" by simp
  then obtain ctx where g: "generate_iteration_committees hash (ch_iteration h) p seed ?ctx = Some (Inr ctx)"
    by (rule generate_committees_return [OF _ cache_full_new]) blast
  note ok = generate_committees_ok [OF cache_ok_new assms(2) g]
  then obtain c where "it_committees ctx (to_step s (ch_iteration h)) = Some c" by blast
  with ok have "committee_at hash p seed h s (ch_iteration h) = Some (Inr c)" using cache_okD(2) assms(2) by blast
  then show ?thesis using assms(3) by (simp add: committee_at_def)
qed

lemma round_env_exists:
  assumes "round_laws env"
  obtains cof where "round_env env cof"
proof -
  let ?get = "\<lambda>s i. get_step_committee (ce_hash env) (round_header (ce_ru env) i) (ce_provisioners env) (ru_seed (ce_ru env)) s"
  have "sortable (ce_provisioners env) (ru_round (ce_ru env))" using assms by (simp add: round_laws_def Let_def)
  then have ret: "\<exists>c. ?get s i = Some (Inr c)" if "s \<noteq> Proposal" "i < CONSENSUS_MAX_ITER" for s i
    using step_committee_returns [of "ce_provisioners env" "round_header (ce_ru env) i" s] that
    by (auto simp: round_header_def)
  have "\<exists>c. sortition_committee c \<and> (\<forall>s i. s \<noteq> Proposal \<longrightarrow> i < CONSENSUS_MAX_ITER \<longrightarrow> step = to_step s i \<longrightarrow>
      ?get s i = Some (Inr c))" for step
  proof (cases "\<exists>s i. s \<noteq> Proposal \<and> i < CONSENSUS_MAX_ITER \<and> step = to_step s i")
    case True
    then obtain s i where si: "s \<noteq> Proposal" "i < CONSENSUS_MAX_ITER" "step = to_step s i" by blast
    then obtain c where "?get s i = Some (Inr c)" using ret by blast
    moreover have "t = s \<and> j = i" if "j < CONSENSUS_MAX_ITER" "step = to_step t j" for t j
      using to_step_inject [of t j s i] that si by (simp add: less_imp_le)
    ultimately show ?thesis using step_committee_sortition si(1) by blast
  next
    case False
    obtain c where "?get Validation 0 = Some (Inr c)" using ret [of Validation 0] by (auto simp: CONSENSUS_MAX_ITER_def)
    with False show ?thesis using step_committee_sortition by blast
  qed
  then obtain cof where "\<forall>step. sortition_committee (cof step) \<and> (\<forall>s i. s \<noteq> Proposal \<longrightarrow> i < CONSENSUS_MAX_ITER \<longrightarrow>
      step = to_step s i \<longrightarrow> ?get s i = Some (Inr (cof step)))" by metis
  with assms that show thesis unfolding round_env_def by blast
qed

section \<open>A round\<close>

lemma queued_remove:
  assumes "queued_wf reg"
  shows "queued_wf (remove_msgs_by_round r reg)"
  using assms by (simp add: queued_wf_def pending_remove)

lemma agg_ok_default: "agg_ok env cof aggregator_default"
  by (simp add: agg_ok_def aggregated.init)

lemma round_state_inv:
  assumes "cache_inv env n ctx" and "queued_wf future_msgs"
  shows "round_inv env cof n (round_state_new env ctx future_msgs)"
  using assms queued_remove agg_ok_default registry_ok_new
  by (auto simp: round_inv_def round_state_new_def known_ok_def)

lemma spawn_returns:
  assumes env: "round_env env cof" and "queued_wf future_msgs" and "events_ok R evs"
  obtains r s es where "spawn_consensus env future_msgs last_iter n evs = Some (Inr (r, s, es))" and "\<forall>e \<in> set es. effect_ok env R e"
    and "\<exists>k. round_inv env cof k s"
proof (rule round_start_inv [OF env, of last_iter])
  fix ctx iter
  assume start: "round_start (ce_hash env) (ce_ru env) (ce_provisioners env) last_iter = Some (Inr (ctx, iter))"
    and "cache_inv env (unat iter) ctx" and iter: "iter < CONSENSUS_MAX_ITER"
  then have "round_inv env cof (unat iter) (round_state_new env ctx future_msgs)" using assms(2) by (intro round_state_inv)
  with run_iterations_triple [OF env iter assms(3), of n]
  obtain r s es where "run_iterations env n iter evs (round_state_new env ctx future_msgs) = Some (Inr (r, s, es))"
    "\<exists>k. round_inv env cof k s" "\<forall>e \<in> set es. effect_ok env R e" by (rule cm_tripleE)
  with that show thesis by (simp add: spawn_consensus_def start)
qed

text \<open>
  C3: the consensus task of a round never panics and never gets stuck in the sortition, whatever well-formed
  messages arrive, in whatever order and between whichever deadlines; and every quorum message it sends that it
  has not just received, other than one for no quorum, carries an attestation that every verifier of the block
  accepts.
\<close>

theorem emitted_quorums_verify:
  assumes "round_laws env" and "queued_wf future_msgs" and "\<forall>msg. Received msg \<in> set evs \<longrightarrow> msg_wf msg"
  shows "\<exists>r s es. spawn_consensus env future_msgs last_iter n evs = Some (Inr (r, s, es)) \<and>
     (\<forall>m q. Outbound m \<in> set es \<longrightarrow> ms_payload m = PQuorum q \<longrightarrow>
        Received m \<in> set evs \<or> result_vote (at_result (qu_att q)) = NoQuorum \<or>
        (\<exists>x. verify_att (ce_crypto env) (ce_hash env) (qu_att q) (qu_header q) (ru_seed (ce_ru env))
               (ce_provisioners env) None = run_ret x))"
proof -
  obtain cof where env: "round_env env cof" by (rule round_env_exists [OF assms(1)])
  have "events_ok {m. Received m \<in> set evs} evs" using assms(3) by (simp add: events_ok_def)
  then obtain r s es where "spawn_consensus env future_msgs last_iter n evs = Some (Inr (r, s, es))"
    "\<forall>e \<in> set es. effect_ok env {m. Received m \<in> set evs} e" by (rule spawn_returns [OF env assms(2)])
  then show ?thesis by (fastforce simp: effect_ok_def quorum_verifiable_def att_verifies_def)
qed

text \<open>
  C4: the committees the task keeps are those that a verifier computes: at the end of a round in which every
  message it received was well formed, which includes that its iteration exists (is below \<open>CONSENSUS_MAX_ITER\<close>), each
  committee of a validation or ratification step is the one of the provisioners, the seed and the generators excluded.
  A message beyond the last iteration is outside of it: the end of this theory shows what the code does with it.
\<close>

theorem committees_agree:
  assumes "round_laws env" and "queued_wf future_msgs" and "\<forall>msg. Received msg \<in> set evs \<longrightarrow> msg_wf msg"
    and "spawn_consensus env future_msgs last_iter n evs = Some (Inr (r, s, es))"
    and "it_committees (rs_ctx s) (to_step step i) = Some c" and "step \<noteq> Proposal" and "i < CONSENSUS_MAX_ITER"
  shows "get_step_committee (ce_hash env) (round_header (ce_ru env) i) (ce_provisioners env) (ru_seed (ce_ru env)) step =
     Some (Inr c)"
proof -
  obtain cof where env: "round_env env cof" by (rule round_env_exists [OF assms(1)])
  have "events_ok {m. Received m \<in> set evs} evs" using assms(3) by (simp add: events_ok_def)
  then obtain r' s' es' where "spawn_consensus env future_msgs last_iter n evs = Some (Inr (r', s', es'))"
    "\<exists>k. round_inv env cof k s'" by (rule spawn_returns [OF env assms(2)])
  with assms(4) obtain k where "round_inv env cof k s" by auto
  from cached_committee [OF env round_invD(1) [OF this] assms(5-7)] round_envD(7) [OF env assms(6,7)]
  show ?thesis by simp
qed

section \<open>Messages of iterations that do not exist\<close>

lemma stranger_refused:
  assumes "ms_header msg = round_header (ce_ru env) j" and "ms_payload msg = PValidation v"
    and "it_committees (rs_ctx s) (message_step msg) = Some cp" and "\<not> is_member (si_signer (va_sign_info v)) cp"
    and "message_step msg \<noteq> to_step step i"
  shows "is_valid env msg i step c s = Inr (Inl NotCommitteeMember)"
  using assms
  by (auto simp: is_valid_def message_compare_def verify_message_def rc_get_committee_def get_signer_def round_header_def Let_def)

lemma refused_inbound:
  assumes h: "ms_header msg = round_header (ce_ru env) j" and "i < j"
    and "generate_iteration_committees (ce_hash env) j (ce_provisioners env) (ru_seed (ce_ru env)) (rs_ctx s) = Some (Inr ctx)"
    and "it_committees ctx (to_step step i) \<noteq> None"
    and "\<And>c. is_valid env msg i step c (s\<lparr>rs_ctx := ctx\<rparr>) = Inr (Inl NotCommitteeMember)"
  shows "process_inbound_msg env i step msg s = Some (Inr (Inr None, s\<lparr>rs_ctx := ctx\<rparr>, []))"
  using assms
  by (auto simp: process_inbound_msg_def same_prev_hash_def round_header_def cm_generate_committees_def cm_bind_def
      cm_gets_def cm_expect_def rc_get_committee_def cm_is_valid_def cm_try_def cm_check_def cm_ret_def)

text \<open>
  A message of the round with an iteration beyond the last one changes the committees of the node although
  it is refused: the steps of iteration \<open>i + 86\<close> have the numbers of the ratification of iteration \<open>i\<close> and of the
  next iteration, so that a vote of a stranger leaves, for the validation of the next iteration, a committee
  that was drawn with another list of excluded keys than the one of the verifiers.
\<close>

theorem refused_message_replaces_committee:
  assumes sort: "sortable (ce_provisioners env) (ru_round (ce_ru env))" and full: "cache_full (rs_ctx s)"
    and rnd: "it_round (rs_ctx s) = ru_round (ce_ru env)"
    and i: "exclude_next_generator i" and next_i: "exclude_next_generator (i + 1)"
    and "it_committees (rs_ctx s) (to_step step i) \<noteq> None" and "it_committees (rs_ctx s) (to_step Ratification i) \<noteq> None"
    and cp: "it_committees (rs_ctx s) (to_step Proposal (i + 1)) = Some cp"
    and none: "it_committees (rs_ctx s) (to_step Validation (i + 1)) = None"
    and h: "ms_header msg = round_header (ce_ru env) (i + 86)" and v: "ms_payload msg = PValidation v" "va_header v = ms_header msg"
    and "\<not> is_member (si_signer (va_sign_info v)) cp"
  shows "\<exists>s' c. process_inbound_msg env i step msg s = Some (Inr (Inr None, s', [])) \<and>
     it_committees (rs_ctx s') (to_step Validation (i + 1)) = Some c \<and>
     get_step_committee (ce_hash env) (round_header (ce_ru env) (i + 1)) (ce_provisioners env) (ru_seed (ce_ru env)) Validation
       \<noteq> Some (Inr c)"
proof -
  obtain cr where cr: "it_committees (rs_ctx s) (to_step Ratification i) = Some cr" using assms(7) by blast
  then obtain k ks where k: "bm_keys (cm_members cr) = k # ks" using full unfolding cache_full_def by (metis neq_Nil_conv)
  have "sortable (ce_provisioners env) (it_round (rs_ctx s))" using sort rnd by simp
  then obtain ctx c where g: "generate_iteration_committees (ce_hash env) (i + 86) (ce_provisioners env) (ru_seed (ce_ru env))
        (rs_ctx s) = Some (Inr ctx)"
    and ctx: "it_committees ctx = (it_committees (rs_ctx s))(to_step Validation (i + 1) \<mapsto> c)" and ex: "cm_excluded c = [k]"
    by (rule committees_beyond [OF _ full i cr k _ none]) (use cp in auto)
  have "get_step_committee (ce_hash env) (round_header (ce_ru env) (i + 1)) (ce_provisioners env) (ru_seed (ce_ru env)) Validation
       \<noteq> Some (Inr c)"
    using step_committee_excluded [of "ce_hash env" "round_header (ce_ru env) (i + 1)"] ex next_i by (fastforce simp: round_header_def)
  moreover have "process_inbound_msg env i step msg s = Some (Inr (Inr None, s\<lparr>rs_ctx := ctx\<rparr>, []))"
  proof -
    have u: "unat i < 48" using i next_i
      by (auto simp: exclude_next_generator_def CONSENSUS_MAX_ITER_def word_less_nat_alt unat_word_ariths)
    then have later: "i < i + 86" "i \<le> CONSENSUS_MAX_ITER" "i + 1 \<le> CONSENSUS_MAX_ITER" "i + 1 \<noteq> i"
      by (auto simp: word_less_nat_alt word_le_nat_alt unat_word_ariths CONSENSUS_MAX_ITER_def)
    have step: "message_step msg = to_step Proposal (i + 1)"
      using h v to_step_wraps(2) by (simp add: message_step_def round_header_def)
    then have "message_step msg \<noteq> to_step step i" using to_step_inject [of Proposal "i + 1" step i] later by auto
    moreover have "it_committees ctx (message_step msg) = Some cp"
      using ctx cp none step by auto
    ultimately have refused: "is_valid env msg i step c' (s\<lparr>rs_ctx := ctx\<rparr>) = Inr (Inl NotCommitteeMember)" for c'
      using stranger_refused [OF h v(1), of "s\<lparr>rs_ctx := ctx\<rparr>" cp step i c'] assms(13) by simp
    have "it_committees ctx (to_step step i) \<noteq> None" using assms(6) ctx by auto
    from refused_inbound [OF h later(1) g this refused] show ?thesis .
  qed
  ultimately show ?thesis using ctx by (intro exI [of _ "s\<lparr>rs_ctx := ctx\<rparr>"] exI [of _ c]) simp
qed

section \<open>Messages of later rounds\<close>

text \<open>What happens to a message of a later round depends on its signer only, not on its signature.\<close>

lemma later_round_message:
  assumes "ch_round (ms_header msg) = r" and "ru_round (ce_ru env) < r" and "r \<le> ru_round (ce_ru env) + MAX_ROUND_DISTANCE"
    and "get_signer (ce_crypto env) msg = Some pk" and "list_ex (\<lambda>(p, _). p = pk) (eligibles r (ce_provisioners env))"
    and "it_committees (rs_ctx s) (to_step step i) \<noteq> None"
    and "put_msg (ce_crypto env) (ce_cap env) msg (rs_future_msgs s) = (res, reg)"
  shows "process_inbound_msg env i step msg s =
     Some (Inr (Inr None, s\<lparr>rs_future_msgs := reg\<rparr>, (case res of Inr m \<Rightarrow> [Outbound m] | Inl _ \<Rightarrow> [])))"
proof -
  have "is_valid env msg i step c s = Inr (Inl FutureEvent)" for c
    using assms(1,2) less_imp_neq [OF assms(2)] less_not_sym [OF assms(2)]
    by (simp add: is_valid_def message_compare_def verify_message_def Let_def)
  moreover have "\<not> same_prev_hash env msg" "\<not> not_eligible env msg"
    using assms(1,2,4,5) by (auto simp: same_prev_hash_def not_eligible_def)
  ultimately show ?thesis
    using assms(1-3,6,7)
    by (auto simp: process_inbound_msg_def handle_future_event_def cm_bind_def not_less
        cm_gets_def cm_expect_def rc_get_committee_def cm_is_valid_def cm_try_def cm_check_def cm_ret_def cm_tell_def
        split: sum.splits)
qed

text \<open>
  the signature of a message of a later round is not checked, although a comment says that it is for the next
  ten rounds: a forged message in the name of a provisioner is queued and sent on, and the genuine message of
  the same step, which comes later, is dropped.
\<close>

theorem forged_message_takes_place:
  assumes msgs: "ch_round (ms_header forged) = r" "ch_round (ms_header genuine) = r" "message_step forged = step'"
      "message_step genuine = step'" "get_signer (ce_crypto env) forged = Some pk" "get_signer (ce_crypto env) genuine = Some pk"
    and r: "ru_round (ce_ru env) < r" "r \<le> ru_round (ce_ru env) + MAX_ROUND_DISTANCE"
    and pk: "list_ex (\<lambda>(p, _). p = pk) (eligibles r (ce_provisioners env))"
    and c: "it_committees (rs_ctx s) (to_step step i) \<noteq> None"
    and "\<forall>m \<in> set (pending (rs_future_msgs s) r step'). get_signer (ce_crypto env) m \<noteq> Some pk"
  shows "\<exists>s1 s2. process_inbound_msg env i step forged s = Some (Inr (Inr None, s1, [Outbound forged])) \<and>
     process_inbound_msg env i step genuine s1 = Some (Inr (Inr None, s2, [])) \<and>
     forged \<in> set (pending (rs_future_msgs s2) r step') \<and> (genuine \<noteq> forged \<longrightarrow> genuine \<notin> set (pending (rs_future_msgs s2) r step'))"
proof -
  let ?nc = "ce_crypto env" and ?cap = "ce_cap env"
  obtain res reg where put: "put_msg ?nc ?cap forged (rs_future_msgs s) = (res, reg)" by force
  have "res = Inr forged"
    using put_msg_result [of ?nc ?cap forged "rs_future_msgs s"] put msgs assms(11) by auto
  then have one: "process_inbound_msg env i step forged s = Some (Inr (Inr None, s\<lparr>rs_future_msgs := reg\<rparr>, [Outbound forged]))"
    using later_round_message [OF msgs(1) r msgs(5) pk c put] by simp
  have q: "pending reg r step' = (if length (pending (rs_future_msgs s) r step') = ?cap then tl (pending (rs_future_msgs s) r step')
      else pending (rs_future_msgs s) r step') @ [forged]"
    using pending_put [OF put, of r step'] msgs \<open>res = Inr forged\<close> by simp
  obtain res2 reg2 where put2: "put_msg ?nc ?cap genuine reg = (res2, reg2)" by force
  have "get_signer ?nc genuine \<in> get_signer ?nc ` set (pending reg r step')" using q msgs by simp
  then have res2: "res2 = Inl (SignerAlreadyEnqueue genuine)"
    using put_msg_result [of ?nc ?cap genuine reg] put2 msgs by auto
  then have two: "process_inbound_msg env i step genuine (s\<lparr>rs_future_msgs := reg\<rparr>) = Some (Inr (Inr None, s\<lparr>rs_future_msgs := reg2\<rparr>, []))"
    using later_round_message [OF msgs(2) r msgs(6) pk, of "s\<lparr>rs_future_msgs := reg\<rparr>" step i res2 reg2] c put2 by simp
  have "pending reg2 r step' = pending reg r step'" using pending_put [OF put2, of r step'] res2 by simp
  moreover have "genuine \<notin> set (pending (rs_future_msgs s) r step')" using assms(11) msgs(6) by blast
  ultimately have "forged \<in> set (pending reg2 r step')" "genuine \<noteq> forged \<longrightarrow> genuine \<notin> set (pending reg2 r step')"
    using q set_tl_subset [of "pending (rs_future_msgs s) r step'"] by auto
  with one two show ?thesis by (intro exI [of _ "s\<lparr>rs_future_msgs := reg\<rparr>"] exI [of _ "s\<lparr>rs_future_msgs := reg2\<rparr>"]) simp
qed

section \<open>A round of one provisioner\<close>

definition lone_update :: "unit round_update" where
  "lone_update =
     \<lparr>ru_round = 5, ru_pubkey_bls = [2], ru_secret_key = (), ru_seed = [7], ru_hash = replicate 32 9,
      ru_state_root = [], ru_att = attestation_default, ru_att_voters = [], ru_timestamp = 0,
      ru_base_timeouts = (\<lambda>_. Some 7)\<rparr>"

definition lone_env :: "(public_key list, u64, unit) consensus_env" where
  "lone_env =
     \<lparr>ce_crypto = crypto1, ce_tree = (\<lambda>_ _. []), ce_hash = rev,
      ce_sign = (\<lambda>_ pk msg. nc_sig_to_bytes crypto1 (share pk msg)), ce_ru = lone_update,
      ce_provisioners = lone_provisioner, ce_order = map snd, ce_cap = 16, ce_generate = (\<lambda>_ _. None),
      ce_vote = (\<lambda>_ _. Some (Inr (Some NoCandidate))), ce_now = (\<lambda>_. 0)\<rparr>"

lemma lone_sortable: "sortable lone_provisioner rnd"
  by (simp add: sortable_def lone_eligibles) (simp add: lone_provisioner_def bm_sum_insert_new cstake_from_value_def)

lemma lone_laws: "round_laws lone_env"
  using crypto1_laws lone_sortable
  by (simp add: round_laws_def lone_env_def lone_update_def verify_signature_def) (simp add: crypto1_def)

definition lone_message :: message where
  "lone_message = message_from (PValidation (build_validation_payload (ce_sign lone_env) NoCandidate lone_update 1))"

lemma lone_message_wf: "msg_wf lone_message"
  by (simp add: lone_message_def msg_wf_def message_from_def payload_header_def build_validation_payload_def
      validation_sign_def round_header_def CONSENSUS_MAX_ITER_def)

lemma queued_wf_empty: "queued_wf bm_empty"
  by (simp add: queued_wf_def pending_def bm_get_or_def)

theorem emitted_quorums_verify_witness:
  "\<exists>r s es. spawn_consensus lone_env bm_empty ([], 0) 3 [Received lone_message, Deadline, Received lone_message] =
       Some (Inr (r, s, es)) \<and>
     (\<forall>m q. Outbound m \<in> set es \<longrightarrow> ms_payload m = PQuorum q \<longrightarrow>
        m = lone_message \<or> result_vote (at_result (qu_att q)) = NoQuorum \<or>
        (\<exists>x. verify_att crypto1 rev (qu_att q) (qu_header q) [7] lone_provisioner None = run_ret x))"
  using emitted_quorums_verify [OF lone_laws queued_wf_empty, of "[Received lone_message, Deadline, Received lone_message]" "([], 0)" 3]
    lone_message_wf
  by (simp add: lone_env_def lone_update_def)

theorem committees_agree_witness:
  "\<exists>s c. spawn_consensus lone_env bm_empty (replicate 32 9, 3) 0 [] = Some (Inr (Inr (), s, [])) \<and>
     it_committees (rs_ctx s) (to_step Validation 2) = Some c \<and>
     get_step_committee rev (round_header lone_update 2) lone_provisioner [7] Validation = Some (Inr c)"
proof -
  obtain cof where env: "round_env lone_env cof" by (rule round_env_exists [OF lone_laws])
  let ?ctx = "iteration_ctx_new 5 0 (\<lambda>_. Some 7)"
  have "cache_inv lone_env (unat (0 :: u8)) ?ctx" using cache_inv_new [OF env, of 0] by (simp add: lone_env_def lone_update_def)
  then obtain ctx where ctx: "restore_committees rev (Suc 3) 0 lone_provisioner [7] ?ctx = Some (Inr ctx)" "cache_inv lone_env 4 ctx"
    using restore_cache_inv [OF env, of 0 ?ctx "Suc 3"] by (auto simp: lone_env_def lone_update_def simp del: restore_committees.simps)
  let ?s = "round_state_new lone_env ctx bm_empty"
  have run: "spawn_consensus lone_env bm_empty (replicate 32 9, 3) 0 [] = Some (Inr (Inr (), ?s, []))"
    using ctx(1)
    by (simp add: spawn_consensus_def round_start_def lone_env_def lone_update_def cm_ret_def Let_def
        EMERGENCY_MODE_ITERATION_THRESHOLD_def del: restore_committees.simps)
  have "unat (2 :: u8) < 4" "(2 :: u8) < CONSENSUS_MAX_ITER" by (simp_all add: CONSENSUS_MAX_ITER_def)
  then have "it_committees ctx (to_step Validation 2) \<noteq> None" using ctx(2) unfolding cache_inv_def by blast
  then obtain c where c: "it_committees (rs_ctx ?s) (to_step Validation 2) = Some c" by (auto simp: round_state_new_def)
  show ?thesis
    using run c committees_agree [OF lone_laws queued_wf_empty _ run c] by (auto simp: lone_env_def lone_update_def CONSENSUS_MAX_ITER_def)
qed

definition lone_state :: "(u64, unit) round_state" where
  "lone_state = round_state_new lone_env
     ((iteration_ctx_new 5 0 (\<lambda>_. Some 7))\<lparr>it_committees :=
        [to_step Validation 0 \<mapsto> lone_committee, to_step Ratification 0 \<mapsto> lone_committee, to_step Proposal 1 \<mapsto> lone_committee]\<rparr>)
     bm_empty"

definition stranger_vote :: "consensus_header \<Rightarrow> public_key \<Rightarrow> message" where
  "stranger_vote h pk = message_from (PValidation
     \<lparr>va_header = h, va_vote = NoCandidate, va_sign_info = \<lparr>si_signer = pk, si_signature = signature_EMPTY\<rparr>\<rparr>)"

lemma lone_members: "bm_keys (cm_members lone_committee) \<noteq> []" "\<not> is_member [3] lone_committee"
proof -
  have "bm_entries (cm_members lone_committee) \<noteq> []" using lone_votes(1) by (auto simp: votes_for_def bm_get_def)
  then show "bm_keys (cm_members lone_committee) \<noteq> []" by (simp add: bm_keys_def)
  show "\<not> is_member [3] lone_committee" by (subst committee_votes(3) [OF lone_committee_def]) simp
qed

lemma lone_steps:
  "to_step Validation 0 = 1" "to_step Ratification 0 = 2" "to_step Proposal 1 = 3" "to_step Validation 1 = 4"
  by (simp_all add: to_step_def)

lemma lone_state_views:
  "it_committees (rs_ctx lone_state) = [1 \<mapsto> lone_committee, 2 \<mapsto> lone_committee, 3 \<mapsto> lone_committee]"
  "it_round (rs_ctx lone_state) = 5" "pending (rs_future_msgs lone_state) rnd st = []"
  by (simp_all add: lone_state_def round_state_new_def iteration_ctx_new_def lone_env_def lone_update_def lone_steps pending_remove)
     (simp add: pending_def bm_get_or_def)

lemma lone_views:
  "ce_crypto lone_env = crypto1" "ce_hash lone_env = rev" "ce_provisioners lone_env = lone_provisioner"
  "ce_ru lone_env = lone_update" "ru_round lone_update = 5" "ru_seed lone_update = [7]"
  by (simp_all add: lone_env_def lone_update_def)

theorem refused_message_replaces_committee_witness:
  "\<exists>s c. process_inbound_msg lone_env 0 Validation (stranger_vote (round_header lone_update 86) [3]) lone_state =
       Some (Inr (Inr None, s, [])) \<and>
     it_committees (rs_ctx s) (to_step Validation 1) = Some c \<and>
     get_step_committee rev (round_header lone_update 1) lone_provisioner [7] Validation \<noteq> Some (Inr c)"
proof -
  have full: "cache_full (rs_ctx lone_state)"
    using lone_members(1) by (simp add: cache_full_def lone_state_views)
  have i: "exclude_next_generator 0" "exclude_next_generator (0 + 1)"
    by (simp_all add: exclude_next_generator_def CONSENSUS_MAX_ITER_def)
  show ?thesis
    using refused_message_replaces_committee [of lone_env lone_state 0 Validation lone_committee
        "stranger_vote (round_header lone_update 86) [3]"
        "\<lparr>va_header = round_header lone_update 86, va_vote = NoCandidate,
          va_sign_info = \<lparr>si_signer = [3], si_signature = signature_EMPTY\<rparr>\<rparr>", OF _ full _ i]
      lone_sortable lone_members(2)
    by (simp add: lone_views lone_state_views lone_steps stranger_vote_def message_from_def payload_header_def)
qed

text \<open>The genuine vote of the provisioner for the next round.\<close>

definition next_round_vote :: message where
  "next_round_vote = message_from (PValidation
     (build_validation_payload (ce_sign lone_env) NoCandidate (lone_update\<lparr>ru_round := 6\<rparr>) 1))"

theorem forged_message_takes_place_witness:
  "\<exists>s1 s2. process_inbound_msg lone_env 0 Validation (stranger_vote (header0\<lparr>ch_round := 6\<rparr>) [2]) lone_state =
       Some (Inr (Inr None, s1, [Outbound (stranger_vote (header0\<lparr>ch_round := 6\<rparr>) [2])])) \<and>
     process_inbound_msg lone_env 0 Validation next_round_vote s1 = Some (Inr (Inr None, s2, []))"
proof -
  have msgs: "ch_round (ms_header (stranger_vote (header0\<lparr>ch_round := 6\<rparr>) [2])) = 6"
    "ch_round (ms_header next_round_vote) = 6"
    "message_step (stranger_vote (header0\<lparr>ch_round := 6\<rparr>) [2]) = to_step Validation 1"
    "message_step next_round_vote = to_step Validation 1"
    "get_signer (ce_crypto lone_env) (stranger_vote (header0\<lparr>ch_round := 6\<rparr>) [2]) = Some [2]"
    "get_signer (ce_crypto lone_env) next_round_vote = Some [2]"
    by (simp_all add: stranger_vote_def next_round_vote_def message_from_def payload_header_def message_step_def get_signer_def
        build_validation_payload_def validation_sign_def round_header_def header0_def lone_update_def)
  show ?thesis
    using forged_message_takes_place [OF msgs, of lone_state Validation 0]
    by (auto simp: lone_views lone_state_views lone_steps lone_eligibles MAX_ROUND_DISTANCE_def)
qed

end
