(* ===== verification/Consensus_Quorums.thy ===== *)
theory Consensus_Quorums
  imports Consensus_Safety
begin

text \<open>
  The quorums the ratification step makes: the one it sends for no quorum cannot be verified by anyone, and
  in open consensus mode the one it makes is not sent.
\<close>

section \<open>Running computations\<close>

lemma cm_bind_returns:
  "cm_bind m f s = Some (Inr (Inr y, s', es)) \<longleftrightarrow>
     (\<exists>x s1 o1 o2. m s = Some (Inr (Inr x, s1, o1)) \<and> f x s1 = Some (Inr (Inr y, s', o2)) \<and> es = o1 @ o2)"
  by (auto simp: cm_bind_def co_bind_def split: option.splits sum.splits prod.splits)

lemma cm_try_returns: "cm_try m s = Some (Inr (Inr r, s', es)) \<longleftrightarrow> m s = Some (Inr (r, s', es))"
  by (auto simp: cm_try_def co_bind_ret)

lemmas cm_simps = cm_ret_def cm_err_def cm_gets_def cm_tell_def cm_modify_def cm_expect_def cm_panic_def

lemma collect_ratification_returns:
  assumes "collect_ratification env c p s = Some (Inr (Inr (sv, q), s', es))"
  shows "es = []" and "rh_validation_result s' = rh_validation_result s"
  using assms
  by (auto simp: collect_ratification_def collect_into_def set_rh_aggregator_def
      split: prod.splits sum.splits aggregator_error.splits)

lemma record_returns:
  assumes "record_step_votes i v sv st q g s = Some (Inr (Inr m, s', es))"
  shows "es = []" and "rh_validation_result s' = rh_validation_result s"
  using assms by (auto simp: record_step_votes_def cm_bind_returns cm_simps split: option.splits prod.splits)

lemma check_result_returns:
  assumes "check_validation_result env p s = Some (Inr (Inr u, s', es))"
  shows "es = []" and "ra_vote p = NoQuorum \<Longrightarrow> s' = s"
  using assms
  by (auto simp: check_validation_result_def cm_bind_returns cm_simps cm_lift_def Let_def split: if_splits)

text \<open>What a quorum of the ratification step is made of.\<close>

lemma ratification_quorum:
  assumes "ratification_collect env msg c g s = Some (Inr (Inr (Ready m), s', es))"
  obtains p sv where "ms_payload msg = PRatification p" and "es = []"
    and "m = rat_build_quorum_msg (ce_ru env) (ch_iteration (ra_header p)) (ra_vote p) (vr_sv (rh_validation_result s')) sv"
    and "ra_vote p = NoQuorum \<Longrightarrow> rh_validation_result s' = rh_validation_result s"
proof -
  obtain p where p: "ms_payload msg = PRatification p"
    using assms by (auto simp: ratification_collect_def cm_simps split: payload.splits)
  obtain s1 s2 s3 o1 o2 o3 sv qm where steps: "check_validation_result env p s = Some (Inr (Inr (), s1, o1))"
      "collect_ratification env c p s1 = Some (Inr (Inr (sv, True), s2, o2))"
      "record_step_votes (ch_iteration (ra_header p)) (ra_vote p) sv Ratification True g s2 = Some (Inr (Inr qm, s3, o3))"
    and s': "s' = s3" and es: "es = o1 @ o2 @ o3"
    and m: "m = rat_build_quorum_msg (ce_ru env) (ch_iteration (ra_header p)) (ra_vote p) (vr_sv (rh_validation_result s3)) sv"
    using assms unfolding ratification_collect_def p payload.case Let_def
    by (auto simp: cm_bind_returns cm_simps split: if_splits)
  show thesis
    using that [OF p _ m [folded s']] check_result_returns [OF steps(1)] collect_ratification_returns [OF steps(2)]
      record_returns [OF steps(3)] s' es by simp
qed

section \<open>Quorums for no quorum\<close>

text \<open>A signature verifies for one message only.\<close>

definition signature_binds :: "('mpk, 'msig) node_crypto \<Rightarrow> bool" where
  "signature_binds nc \<longleftrightarrow>
     (\<forall>apk sig m1 m2. nc_verify nc apk sig m1 = Inr () \<longrightarrow> nc_verify nc apk sig m2 = Inr () \<longrightarrow> m1 = m2)"

lemma other_vote_fails:
  assumes "signature_binds nc" and "verify_votes nc h Validation (Valid b) sv c = Inr x" and "0 < sv_bitset sv"
  shows "verify_votes nc h Validation NoQuorum sv c \<noteq> Inr y"
proof
  assume "verify_votes nc h Validation NoQuorum sv c = Inr y"
  with assms(2,3) obtain apk sig where
      "nc_verify nc apk sig (signable h @ validation_SIGN_SEED @ vote_write (Valid b)) = Inr ()"
      "nc_verify nc apk sig (signable h @ validation_SIGN_SEED @ vote_write NoQuorum) = Inr ()"
    by (auto simp: verify_votes_def verify_step_signature_def step_SIGN_SEED_def Let_def res_bind_def
        split: if_splits sum.splits)
  with assms(1) have "vote_write (Valid b) = vote_write NoQuorum" unfolding signature_binds_def by blast
  then show False by (simp add: vote_write_def)
qed

text \<open>
  C40: when the ratification ends without a quorum although the node knows a valid result of the validation, the
  quorum message carries the votes of that result, and no verifier accepts it: the votes are checked for the
  vote of the message, which is not the one they were cast for.
\<close>

theorem no_quorum_unverifiable:
  assumes "signature_binds (ce_crypto env)"
    and "ms_payload msg = PRatification p" and "ra_vote p = NoQuorum" and "h = round_header (ce_ru env) (ch_iteration (ra_header p))"
    and "0 < sv_bitset (vr_sv (rh_validation_result s))"
    and "get_step_committee (ce_hash env) h (ce_provisioners env) (ru_seed (ce_ru env)) Validation = Some (Inr c)"
    and "verify_votes (ce_crypto env) h Validation (Valid b) (vr_sv (rh_validation_result s)) c = Inr x"
    and "ratification_collect env msg committee generator s = Some (Inr (Inr (Ready m), s', es))"
  shows "\<exists>q. ms_payload m = PQuorum q \<and> qu_header q = h \<and> at_result (qu_att q) = Fail NoQuorum \<and>
     (\<forall>y. verify_att (ce_crypto env) (ce_hash env) (qu_att q) (qu_header q) (ru_seed (ce_ru env)) (ce_provisioners env) None
        \<noteq> run_ret y)"
proof -
  obtain sv where m: "m = rat_build_quorum_msg (ce_ru env) (ch_iteration (ra_header p)) NoQuorum (vr_sv (rh_validation_result s)) sv"
    by (rule ratification_quorum [OF assms(8)]) (use assms(2,3) in auto)
  note fails = other_vote_fails [OF assms(1,7,5)]
  have "verify_step_votes (ce_crypto env) (ce_hash env) h NoQuorum (vr_sv (rh_validation_result s)) (ce_provisioners env)
      (ru_seed (ce_ru env)) Validation \<noteq> run_ret y" for y
    using fails by (simp add: verify_step_votes_def assms(6) run_ret_def)
  then show ?thesis
    by (auto simp: m rat_build_quorum_msg_def assms(4) verify_att_def result_vote_def result_of_vote_def Let_def run_bind_ret
        check_expected_def run_map_err_ret split: option.splits)
qed

section \<open>Open consensus mode\<close>

lemma accept_returns:
  assumes "accept_message env Ratification msg c g s = Some (Inr (Inr (Some m), s', es))"
  shows "es = [Outbound msg]" and "\<exists>p. ms_payload msg = PRatification p"
proof -
  obtain r o2 where r: "ratification_collect env msg c g s = Some (Inr (r, s', o2))" and es: "es = Outbound msg # o2"
    and "(case r of Inr (Ready m) \<Rightarrow> Some m | _ \<Rightarrow> None) = Some m"
    using assms by (auto simp: accept_message_def handler_collect_def cm_bind_returns cm_simps cm_try_returns)
  then have "r = Inr (Ready m)" by (auto split: sum.splits step_outcome.splits)
  with r have "ratification_collect env msg c g s = Some (Inr (Inr (Ready m), s', o2))" by simp
  with es show "es = [Outbound msg]" "\<exists>p. ms_payload msg = PRatification p" by (auto elim: ratification_quorum)
qed

lemma inbound_returns:
  assumes "process_inbound_msg env i Ratification msg s = Some (Inr (Inr (Some m), s', es))"
  shows "es = [Outbound msg]" and "\<exists>p. ms_payload msg = PRatification p"
proof -
  have gen: "o1 = []" if "(if b then cm_generate_committees env j else cm_ret ()) s = Some (Inr (Inr x, s1, o1))" for b j x s1 o1
    using that by (cases b) (auto simp: cm_generate_committees_def co_bind_ret cm_ret_def)
  have valid: "o1 = []" if "cm_is_valid env msg i Ratification c s0 = Some (Inr (Inr x, s1, o1))" for c x s0 s1 o1
    using that by (auto simp: cm_is_valid_def cm_try_def cm_check_def co_bind_ret split: sum.splits)
  have tail: "\<exists>c g s1. accept_message env Ratification msg c g s1 = Some (Inr (Inr (Some m), s', es'))"
    if "(case valid of Inr _ \<Rightarrow> accept_message env Ratification msg c g
       | Inl FutureEvent \<Rightarrow> cm_bind (handle_future_event env msg) (\<lambda>_. cm_ret None)
       | Inl PastEvent \<Rightarrow> cm_bind (handle_past_msg env msg) (\<lambda>_. cm_ret None)
       | Inl _ \<Rightarrow> cm_ret None) s0 = Some (Inr (Inr (Some m), s', es'))" for valid c g s0 es'
    using that by (auto simp: cm_bind_returns cm_ret_def split: sum.splits consensus_error.splits)
  have "\<exists>c g s1. accept_message env Ratification msg c g s1 = Some (Inr (Inr (Some m), s', es))"
    using assms unfolding process_inbound_msg_def cm_bind_returns [of "cm_gets f" for f] cm_bind_returns [of "cm_expect e x" for e x]
      cm_bind_returns [of "cm_is_valid env msg i Ratification c" for c]
      cm_bind_returns [of "if b then cm_generate_committees env j else cm_ret ()" for b j]
    by (auto simp: cm_gets_def cm_expect_def cm_ret_def cm_panic_def dest!: gen valid tail split: option.splits; blast)
  then show "es = [Outbound msg]" "\<exists>p. ms_payload msg = PRatification p" using accept_returns by blast+
qed

text \<open>
  in open consensus mode, a vote that completes a successful quorum is sent twice and the quorum message
  itself is not sent, where the code says that it broadcasts the quorum.
\<close>

theorem open_mode_drops_quorum:
  assumes "process_inbound_msg env i Ratification msg s = Some (Inr (Inr (Some m), s', es))"
    and "ms_payload m = PQuorum q" and "at_result (qu_att q) = Success v"
  shows "step_message_event env i Ratification True msg s =
       Some (Inr (Inr (Continue True), s', [Outbound msg, Outbound msg])) \<and> m \<noteq> msg"
  using inbound_returns [OF assms(1)] assms
  by (auto simp: step_message_event_def cm_bind_def cm_simps)

section \<open>Quorums of one provisioner\<close>

text \<open>Signatures that are the signed message.\<close>

definition crypto_plain :: "(public_key list, bytes) node_crypto" where
  "crypto_plain = \<lparr>
     nc_pk_valid = (\<lambda>_. True), nc_sha3 = (\<lambda>_. replicate 32 5), nc_sig_from_bytes = Inr, nc_sig_to_bytes = id,
     nc_sig_aggregate = (\<lambda>a b. a), nc_pk_aggregate = Inr,
     nc_verify = (\<lambda>pks sig msg. if sig = msg then Inr () else Inl (BlsError 0)),
     nc_wire = wire0, nc_phoenix = phoenix_wire0, nc_sig_size = 48\<rparr>"

lemma crypto_plain_binds: "signature_binds crypto_plain"
  by (auto simp: signature_binds_def crypto_plain_def split: if_splits)

definition plain_env :: "(public_key list, bytes, unit) consensus_env" where
  "plain_env =
     \<lparr>ce_crypto = crypto_plain, ce_tree = (\<lambda>_ _. []), ce_hash = rev, ce_sign = (\<lambda>_ pk msg. msg), ce_ru = lone_update,
      ce_provisioners = lone_provisioner, ce_order = map snd, ce_cap = 16, ce_generate = (\<lambda>_ _. None),
      ce_vote = (\<lambda>_ _. Some (Inr (Some NoCandidate))), ce_now = (\<lambda>_. 0)\<rparr>"

definition known_result :: "u8 \<Rightarrow> hash \<Rightarrow> validation_result" where
  "known_result i b =
     \<lparr>vr_quorum = QValid, vr_vote = Valid b,
      vr_sv = step_votes_new (signable (round_header lone_update i) @ validation_SIGN_SEED @ vote_write (Valid b)) 1\<rparr>"

definition plain_state :: "u8 \<Rightarrow> hash \<Rightarrow> (bytes, unit) round_state" where
  "plain_state i b =
     (round_state_new plain_env ((iteration_ctx_new 5 i (\<lambda>_. Some 7))\<lparr>it_committees :=
        [to_step Proposal i \<mapsto> lone_committee, to_step Ratification i \<mapsto> lone_committee]\<rparr>) bm_empty)
     \<lparr>rh_validation_result := known_result i b, rh_curr_iteration := i\<rparr>"

definition plain_vote :: "u8 \<Rightarrow> validation_result \<Rightarrow> ratification" where
  "plain_vote i vr = build_ratification_payload (ce_sign plain_env) 0 lone_update i vr"

lemma known_result_verifies:
  assumes "get_step_committee rev (round_header lone_update i) lone_provisioner [7] Validation = Some (Inr c)"
    and m: "cm_members c = lone_voters"
  shows "\<exists>x. verify_votes crypto_plain (round_header lone_update i) Validation (Valid b) (vr_sv (known_result i b)) c = Inr x"
proof -
  note sc = sortition_committee [OF step_committee_sortition [OF assms(1)], simplified]
  have vo: "voters_of c lone_voters" using members_voters [of c] m by simp
  have "committee_bits c lone_voters = 1"
    by (simp add: committee_bits_def m lone_voters_def bm_insert.rep_eq bm_empty.rep_eq cluster_contains_key_def)
  then have i: "committee_intersect c 1 = lone_voters" "total_occurrences c lone_voters = 64"
    using intersect_bits [OF sc(1) vo] voters_total [OF vo]
    by (simp_all add: lone_voters_def cluster_total bm_sum_insert_new)
  have "quorum_target c (Valid b) \<le> 64" using sc(3,4) by (simp add: quorum_target_def)
  then show ?thesis
    by (simp add: verify_votes_def known_result_def Let_def step_votes_new_def i quorum_reached_def aggregate_pks_def
        verify_step_signature_def step_SIGN_SEED_def crypto_plain_def)
qed

lemma plain_vote_collected:
  assumes "is_emergency_iter i \<longrightarrow> vote_is_valid (vr_vote vr)"
  shows "\<exists>sv ag. collect_vote crypto_plain lone_committee (RatificationMsg (plain_vote i vr)) aggregator_default = (Inr (sv, True), ag)"
proof -
  let ?v = "RatificationMsg (plain_vote i vr)"
  have v: "si_signer (msg_sign_info ?v) = [2]" "ch_iteration (msg_header ?v) = i" "msg_vote ?v = vr_vote vr"
    by (simp_all add: plain_vote_def build_ratification_payload_def ratification_sign_def msg_sign_info_def msg_header_def
        msg_vote_def round_header_def lone_update_def)
  have "quorum_target lone_committee (vr_vote vr) \<le> 64"
    using sortition_committee(3,4) [OF lone_committee_sortition] by (cases "vr_vote vr") (simp_all add: quorum_target_def)
  then show ?thesis
    using assms
    by (auto simp: collect_vote_def Let_def v lone_votes aggregator_default_def aggregate_vote_def
        aggr_add_def aggregated_bytes_def cluster_contains_key_def cluster_add_def cluster_total voters_def or_default_def
        bm_sum_insert_new crypto_plain_def)
qed

lemma plain_collect:
  assumes "is_emergency_iter i \<longrightarrow> vote_is_valid (vr_vote vr)" and "vr_vote vr = NoQuorum \<or> vr_vote vr = Valid b"
  shows "\<exists>sv s. ratification_collect plain_env (message_from (PRatification (plain_vote i vr))) lone_committee (Some [2])
     (plain_state i b) = Some (Inr (Inr (Ready (rat_build_quorum_msg lone_update i (vr_vote vr) (vr_sv (known_result i b)) sv)), s, []))"
proof -
  let ?p = "plain_vote i vr"
  have p: "ch_iteration (ra_header ?p) = i" "ra_vote ?p = vr_vote vr" "ra_validation_result ?p = vr"
    by (simp_all add: plain_vote_def build_ratification_payload_def ratification_sign_def round_header_def)
  have s: "rh_curr_iteration (plain_state i b) = i" "rh_validation_result (plain_state i b) = known_result i b"
    "rh_aggregator (plain_state i b) = aggregator_default" "vr_vote (known_result i b) = Valid b"
    by (simp_all add: plain_state_def round_state_new_def known_result_def)
  obtain sv ag where col: "collect_vote crypto_plain lone_committee (RatificationMsg ?p) aggregator_default = (Inr (sv, True), ag)"
    using plain_vote_collected [OF assms(1)] by blast
  have check: "check_validation_result plain_env ?p (plain_state i b) = Some (Inr (Inr (), plain_state i b, []))"
    using assms(2) by (auto simp: check_validation_result_def p s Let_def cm_bind_def cm_simps)
  show ?thesis
    using col check
    by (auto simp: ratification_collect_def message_from_def p s Let_def cm_bind_def cm_simps collect_ratification_def collect_into_def
        set_rh_aggregator_def record_step_votes_def plain_env_def split: prod.splits)
qed

theorem no_quorum_unverifiable_witness:
  "\<exists>q s. ratification_collect plain_env (message_from (PRatification (plain_vote 1 validation_result_default))) lone_committee
       (Some [2]) (plain_state 1 [6]) = Some (Inr (Inr (Ready (message_from (PQuorum q))), s, [])) \<and>
     (\<forall>y. verify_att crypto_plain rev (qu_att q) (round_header lone_update 1) [7] lone_provisioner None \<noteq> run_ret y)"
proof -
  let ?msg = "message_from (PRatification (plain_vote 1 validation_result_default))"
  let ?p = "plain_vote 1 validation_result_default"
  obtain sv s where run: "ratification_collect plain_env ?msg lone_committee (Some [2]) (plain_state 1 [6]) =
      Some (Inr (Inr (Ready (rat_build_quorum_msg lone_update 1 NoQuorum (vr_sv (known_result 1 [6])) sv)), s, []))"
    using plain_collect [of 1 validation_result_default "[6]"]
    by (auto simp: validation_result_default_def is_emergency_iter_def EMERGENCY_MODE_ITERATION_THRESHOLD_def word_le_nat_alt)
  obtain c where c: "get_step_committee rev (round_header lone_update 1) lone_provisioner [7] Validation = Some (Inr c)"
    "cm_members c = lone_voters" using lone_step_committee [of Validation] by blast
  obtain x where x: "verify_votes crypto_plain (round_header lone_update 1) Validation (Valid [6]) (vr_sv (known_result 1 [6])) c = Inr x"
    using known_result_verifies [OF c] by blast
  have views: "ra_vote ?p = NoQuorum" "ch_iteration (ra_header ?p) = 1" "rh_validation_result (plain_state 1 [6]) = known_result 1 [6]"
    "sv_bitset (vr_sv (known_result 1 [6])) = 1" "ce_crypto plain_env = crypto_plain" "ce_hash plain_env = rev"
    "ce_provisioners plain_env = lone_provisioner" "ce_ru plain_env = lone_update" "ru_seed lone_update = [7]"
    by (simp_all add: plain_vote_def build_ratification_payload_def ratification_sign_def round_header_def plain_state_def
        known_result_def step_votes_new_def plain_env_def lone_update_def validation_result_default_def)
  show ?thesis
    using no_quorum_unverifiable [of plain_env ?msg ?p "round_header lone_update 1" "plain_state 1 [6]" c "[6]" x, OF _ _ _ _ _ _ _ run]
      crypto_plain_binds c(1) x run
    by (auto simp: views message_from_def [of "PRatification p" for p] rat_build_quorum_msg_def)
qed

lemma lone_committee_keys: "bm_keys (cm_members lone_committee) = [[2]]"
  by (simp add: lone_committee_def committee_of_extracted_def lone_fold [of 64] bm_keys_single del: fold_replicate)

theorem open_mode_drops_quorum_witness:
  "\<exists>s. step_message_event plain_env 49 Ratification True (message_from (PRatification (plain_vote 49 (known_result 49 [6]))))
       (plain_state 49 [6]) =
     Some (Inr (Inr (Continue True), s, [Outbound (message_from (PRatification (plain_vote 49 (known_result 49 [6])))),
       Outbound (message_from (PRatification (plain_vote 49 (known_result 49 [6]))))]))"
proof -
  let ?p = "plain_vote 49 (known_result 49 [6])" and ?s = "plain_state 49 [6]"
  let ?msg = "message_from (PRatification ?p)"
  obtain sv s where run: "ratification_collect plain_env ?msg lone_committee (Some [2]) ?s =
      Some (Inr (Inr (Ready (rat_build_quorum_msg lone_update 49 (Valid [6]) (vr_sv (known_result 49 [6])) sv)), s, []))"
    using plain_collect [of 49 "known_result 49 [6]" "[6]"] by (auto simp: known_result_def vote_is_valid_def)
  have h: "ms_header ?msg = round_header lone_update 49" "ms_payload ?msg = PRatification ?p"
    "message_step ?msg = to_step Ratification 49" "get_signer crypto_plain ?msg = Some [2]" "ra_vote ?p = Valid [6]"
    by (simp_all add: plain_vote_def build_ratification_payload_def ratification_sign_def message_from_def payload_header_def
        message_step_def round_header_def get_signer_def lone_update_def known_result_def)
  have "verify_msg_signature crypto_plain (RatificationMsg ?p) = Inr ()"
    by (simp add: verify_msg_signature_def verify_signature_def msg_sign_info_def msg_signable_def plain_vote_def plain_env_def
        build_ratification_payload_def ratification_sign_def ratification_signable_def crypto_plain_def)
  moreover have "is_member [2] lone_committee" using lone_votes(1) by (simp add: is_member_def votes_for_def)
  ultimately have valid: "is_valid plain_env ?msg 49 Ratification lone_committee ?s = Inr (Inr ())"
    by (simp add: is_valid_def message_compare_def h Let_def handler_verify_def verify_vote_signature_def plain_env_def lone_update_def
        round_header_def is_vote_collected_def plain_state_def round_state_new_def aggregator_default_def)
  have ctx: "it_committees (rs_ctx ?s) (to_step Ratification 49) = Some lone_committee"
    "it_get_generator 49 (rs_ctx ?s) = Some [2]"
    using lone_committee_keys by (simp_all add: plain_state_def round_state_new_def it_get_generator_def rc_get_committee_def to_step_def)
  have "process_inbound_msg plain_env 49 Ratification ?msg ?s = Some (Inr (Inr (Some
      (rat_build_quorum_msg lone_update 49 (Valid [6]) (vr_sv (known_result 49 [6])) sv)), s, [Outbound ?msg]))"
    using valid run ctx
    by (simp add: process_inbound_msg_def h round_header_def cm_bind_def cm_simps rc_get_committee_def cm_is_valid_def cm_try_def
        cm_check_def accept_message_def handler_collect_def)
  from open_mode_drops_quorum [OF this] show ?thesis by (simp add: rat_build_quorum_msg_def result_of_vote_def)
qed

end
