(* ===== verification/Node_Store.thy ===== *)
theory Node_Store
  imports Node_Message
begin

text \<open>
  The database of a node, \<^verbatim>\<open>node/src/database.rs\<close> and \<^verbatim>\<open>node/src/database/rocksdb.rs\<close>: the blocks of the chain,
  candidates, validation results and metadata.  The operations of RocksDB on a transaction are parameters with the
  behaviour its documentation gives; errors of the storage device are not modelled.
\<close>

section \<open>RocksDB\<close>

datatype column =
    LedgerHeaderCf | LedgerTxsCf | LedgerFaultsCf | LedgerHeightCf | CandidatesCf | CandidatesHeightCf
  | ValidationResultsCf | MempoolCf | MempoolSpendingIdCf | MempoolFeesCf | MetadataCf

text \<open>
  A transaction reads its own writes.  \<open>db_iterator_cf\<close> gives the entries from the start; a raw iterator is moved
  by hand.
\<close>

record ('s, 'it) rocksdb =
  db_get_cf :: "column \<Rightarrow> bytes \<Rightarrow> 's \<Rightarrow> bytes option"
  db_put_cf :: "column \<Rightarrow> bytes \<Rightarrow> bytes \<Rightarrow> 's \<Rightarrow> 's"
  db_delete_cf :: "column \<Rightarrow> bytes \<Rightarrow> 's \<Rightarrow> 's"
  db_iterator_cf :: "column \<Rightarrow> 's \<Rightarrow> (bytes \<times> bytes) list"
  db_raw_iterator_cf :: "column \<Rightarrow> 's \<Rightarrow> 'it"
  it_seek_to_first :: "'it \<Rightarrow> 'it"
  it_seek_to_last :: "'it \<Rightarrow> 'it"
  it_next :: "'it \<Rightarrow> 'it"
  it_prev :: "'it \<Rightarrow> 'it"
  it_valid :: "'it \<Rightarrow> bool"
  it_key :: "'it \<Rightarrow> bytes option"
  it_value :: "'it \<Rightarrow> bytes option"

definition it_item :: "('s, 'it) rocksdb \<Rightarrow> 'it \<Rightarrow> (bytes \<times> bytes) option" where
  "it_item db it =
     (if it_valid db it then
        (case (it_key db it, it_value db it) of (Some k, Some v) \<Rightarrow> Some (k, v) | _ \<Rightarrow> None)
      else None)"

text \<open>
  What RocksDB promises: a value is read where it was written, the entries are in the order of their keys, an
  iterator that was moved to the first or last entry goes over them, and one that was not moved is not valid.
\<close>

definition rocksdb_laws :: "('s, 'it) rocksdb \<Rightarrow> bool" where
  "rocksdb_laws db \<longleftrightarrow>
     (\<forall>c k v s c' k'. db_get_cf db c' k' (db_put_cf db c k v s) =
        (if c' = c \<and> k' = k then Some v else db_get_cf db c' k' s)) \<and>
     (\<forall>c k s c' k'. db_get_cf db c' k' (db_delete_cf db c k s) =
        (if c' = c \<and> k' = k then None else db_get_cf db c' k' s)) \<and>
     (\<forall>c s. sorted_wrt (<) (map fst (db_iterator_cf db c s)) \<and>
        (\<forall>k. map_of (db_iterator_cf db c s) k = db_get_cf db c k s)) \<and>
     (\<forall>c s. \<not> it_valid db (db_raw_iterator_cf db c s)) \<and>
     (\<forall>c s n. let es = db_iterator_cf db c s;
                 it = (it_next db ^^ n) (it_seek_to_first db (db_raw_iterator_cf db c s)) in
        it_valid db it = (n < length es) \<and> (n < length es \<longrightarrow> it_item db it = Some (es ! n))) \<and>
     (\<forall>c s n. let es = rev (db_iterator_cf db c s);
                 it = (it_prev db ^^ n) (it_seek_to_last db (db_raw_iterator_cf db c s)) in
        it_valid db it = (n < length es) \<and> (n < length es \<longrightarrow> it_item db it = Some (es ! n)))"

section \<open>Transactions of the database\<close>

datatype db_error = DbIo io_error | DbError string | DbPanic string

record 's db_tx =
  tx_inner :: 's
  tx_cumulative_size :: nat

text \<open>\<open>de_set_order\<close> is the order in which a hash set gives its elements.\<close>

record ('mpk, 'msig, 's, 'it) db_env =
  de_crypto :: "('mpk, 'msig) node_crypto"
  de_hash_to_scalar :: "bytes \<Rightarrow> bls_scalar"
  de_rocksdb :: "('s, 'it) rocksdb"
  de_set_order :: "hash list \<Rightarrow> hash list"

definition tx_get_cf ::
    "('mpk, 'msig, 's, 'it) db_env \<Rightarrow> column \<Rightarrow> bytes \<Rightarrow> 's db_tx \<Rightarrow> bytes option" where
  "tx_get_cf e c k t = db_get_cf (de_rocksdb e) c k (tx_inner t)"

definition tx_put_cf ::
    "('mpk, 'msig, 's, 'it) db_env \<Rightarrow> column \<Rightarrow> bytes \<Rightarrow> bytes \<Rightarrow> 's db_tx \<Rightarrow> 's db_tx" where
  "tx_put_cf e c k v t =
     t\<lparr>tx_inner := db_put_cf (de_rocksdb e) c k v (tx_inner t),
       tx_cumulative_size := tx_cumulative_size t + (length k + length v)\<rparr>"

text \<open>Some writes do not count for the size of the transaction.\<close>

definition inner_put_cf ::
    "('mpk, 'msig, 's, 'it) db_env \<Rightarrow> column \<Rightarrow> bytes \<Rightarrow> bytes \<Rightarrow> 's db_tx \<Rightarrow> 's db_tx" where
  "inner_put_cf e c k v t = t\<lparr>tx_inner := db_put_cf (de_rocksdb e) c k v (tx_inner t)\<rparr>"

definition inner_delete_cf ::
    "('mpk, 'msig, 's, 'it) db_env \<Rightarrow> column \<Rightarrow> bytes \<Rightarrow> 's db_tx \<Rightarrow> 's db_tx" where
  "inner_delete_cf e c k t = t\<lparr>tx_inner := db_delete_cf (de_rocksdb e) c k (tx_inner t)\<rparr>"

definition tx_iterator_cf ::
    "('mpk, 'msig, 's, 'it) db_env \<Rightarrow> column \<Rightarrow> 's db_tx \<Rightarrow> (bytes \<times> bytes) list" where
  "tx_iterator_cf e c t = db_iterator_cf (de_rocksdb e) c (tx_inner t)"

text \<open>Reading a value from the bytes that are stored; what is left over is ignored.\<close>

definition read_blob :: "'a reader \<Rightarrow> bytes \<Rightarrow> db_error + 'a" where
  "read_blob rd blob = (case rd blob of Inl err \<Rightarrow> Inl (DbIo err) | Inr (x, _) \<Rightarrow> Inr x)"

definition to_be_bytes64 :: "u64 \<Rightarrow> bytes" where
  "to_be_bytes64 v = rev (to_le_bytes v)"

definition from_be_bytes64 :: "bytes \<Rightarrow> u64" where
  "from_be_bytes64 bs = from_le_bytes (rev bs)"

definition serialize_key :: "u64 \<Rightarrow> hash \<Rightarrow> bytes" where
  "serialize_key v h = to_be_bytes64 v @ h"

definition deserialize_key :: "(u64 \<times> hash) reader" where
  "deserialize_key =
     rd_bind (read_bytes 8) (\<lambda>buf.
     rd_bind (read_bytes 32) (\<lambda>h.
       rd_ret (from_be_bytes64 buf, h)))"

definition serialize_iter_key :: "consensus_header \<Rightarrow> bytes" where
  "serialize_iter_key ch = ch_prev_block_hash ch @ [ch_iteration ch]"

definition deserialize_iter_key :: "(hash \<times> u8) reader" where
  "deserialize_iter_key =
     rd_bind (read_bytes 32) (\<lambda>prev_block_hash.
     rd_bind read_u8 (\<lambda>iteration.
       rd_ret (prev_block_hash, iteration)))"

section \<open>Transactions and blocks\<close>

definition tx_hash :: "(bytes \<Rightarrow> bls_scalar) \<Rightarrow> wire \<Rightarrow> phoenix_wire \<Rightarrow> transaction \<Rightarrow> bls_scalar" where
  "tx_hash hs wr pw tx =
     (case tx of
        Phoenix t \<Rightarrow> hs (pt_to_hash_input_bytes pw t)
      | Moonlight t \<Rightarrow> hs (mt_to_hash_input_bytes wr t))"

definition ledger_tx_id :: "('mpk, 'msig, 's, 'it) db_env \<Rightarrow> ledger_tx \<Rightarrow> hash" where
  "ledger_tx_id e t =
     w_scalar_to_bytes (nc_wire (de_crypto e))
       (tx_hash (de_hash_to_scalar e) (nc_wire (de_crypto e)) (nc_phoenix (de_crypto e)) (lt_inner t))"

datatype label = Accepted u64 | Attested u64 | Confirmed u64 | Final u64

definition label_write :: "label \<Rightarrow> bytes" where
  "label_write l =
     (case l of
        Accepted v \<Rightarrow> [0] @ to_le_bytes v
      | Attested v \<Rightarrow> [1] @ to_le_bytes v
      | Confirmed v \<Rightarrow> [2] @ to_le_bytes v
      | Final v \<Rightarrow> [3] @ to_le_bytes v)"

definition label_read :: "label reader" where
  "label_read =
     rd_bind read_u8 (\<lambda>tag.
     if tag = 0 then rd_bind read_u64_le (\<lambda>v. rd_ret (Accepted v))
     else if tag = 1 then rd_bind read_u64_le (\<lambda>v. rd_ret (Attested v))
     else if tag = 2 then rd_bind read_u64_le (\<lambda>v. rd_ret (Confirmed v))
     else if tag = 3 then rd_bind read_u64_le (\<lambda>v. rd_ret (Final v))
     else rd_fail (IoInvalidData ''Invalid label''))"

record light_block =
  lb_header :: header
  lb_transactions_ids :: "hash list"
  lb_faults_ids :: "hash list"

definition light_block_write :: "light_block \<Rightarrow> bytes" where
  "light_block_write b =
     header_write (lb_header b) @
     to_le_bytes (of_nat (length (lb_transactions_ids b)) :: u32) @ write_many id (lb_transactions_ids b) @
     to_le_bytes (of_nat (length (lb_faults_ids b)) :: u32) @ write_many id (lb_faults_ids b)"

definition light_block_read :: "light_block reader" where
  "light_block_read =
     rd_bind header_read (\<lambda>header.
     rd_bind read_u32_le (\<lambda>tx_len.
     rd_bind (read_many (unat tx_len) (read_bytes 32)) (\<lambda>transactions_ids.
     rd_bind read_u32_le (\<lambda>faults_len.
     rd_bind (read_many (unat faults_len) (read_bytes 32)) (\<lambda>faults_ids.
       rd_ret \<lparr>lb_header = header, lb_transactions_ids = transactions_ids, lb_faults_ids = faults_ids\<rparr>)))))"

section \<open>The chain\<close>

definition MD_HASH_KEY :: bytes where
  "MD_HASH_KEY = string_bytes ''hash_key''"

definition MD_STATE_ROOT_KEY :: bytes where
  "MD_STATE_ROOT_KEY = string_bytes ''state_hash_key''"

definition op_write ::
    "('mpk, 'msig, 's, 'it) db_env \<Rightarrow> bytes \<Rightarrow> bytes \<Rightarrow> 's db_tx \<Rightarrow> 's db_tx" where
  "op_write e key v t = tx_put_cf e MetadataCf key v t"

definition op_read :: "('mpk, 'msig, 's, 'it) db_env \<Rightarrow> bytes \<Rightarrow> 's db_tx \<Rightarrow> bytes option" where
  "op_read e key t = tx_get_cf e MetadataCf key t"

definition store_block_label ::
    "('mpk, 'msig, 's, 'it) db_env \<Rightarrow> u64 \<Rightarrow> hash \<Rightarrow> label \<Rightarrow> 's db_tx \<Rightarrow> 's db_tx" where
  "store_block_label e height h label t =
     tx_put_cf e LedgerHeightCf (to_le_bytes height) (h @ label_write label) t"

definition store_block ::
    "('mpk, 'msig, 's, 'it) db_env \<Rightarrow> header \<Rightarrow> spent_tx list \<Rightarrow> fault list \<Rightarrow> label \<Rightarrow> 's db_tx
     \<Rightarrow> nat \<times> 's db_tx" where
  "store_block e header txs faults label t =
     (let nc = de_crypto e;
          t = tx_put_cf e LedgerHeaderCf (h_hash header)
                (light_block_write \<lparr>lb_header = header,
                   lb_transactions_ids = map (\<lambda>tx. ledger_tx_id e (sp_inner tx)) txs,
                   lb_faults_ids = map (fault_id nc) faults\<rparr>) t;
          t = op_write e MD_HASH_KEY (h_hash header) t;
          t = op_write e MD_STATE_ROOT_KEY (h_state_hash header) t;
          t = fold (\<lambda>tx. tx_put_cf e LedgerTxsCf (ledger_tx_id e (sp_inner tx)) (spent_tx_write nc tx)) txs t;
          t = fold (\<lambda>f. tx_put_cf e LedgerFaultsCf (fault_id nc f) (fault_write f)) faults t;
          t = store_block_label e (h_height header) (h_hash header) label t in
      (tx_cumulative_size t, t))"

definition delete_block ::
    "('mpk, 'msig, 's, 'it) db_env \<Rightarrow> block \<Rightarrow> 's db_tx \<Rightarrow> 's db_tx" where
  "delete_block e b t =
     (let t = inner_delete_cf e LedgerHeightCf (to_le_bytes (h_height (bl_header b))) t;
          t = fold (\<lambda>tx. inner_delete_cf e LedgerTxsCf (ledger_tx_id e tx)) (bl_txs b) t;
          t = fold (\<lambda>f. inner_delete_cf e LedgerFaultsCf (fault_id (de_crypto e) f)) (bl_faults b) t in
      inner_delete_cf e LedgerHeaderCf (h_hash (bl_header b)) t)"

definition block_exists :: "('mpk, 'msig, 's, 'it) db_env \<Rightarrow> hash \<Rightarrow> 's db_tx \<Rightarrow> bool" where
  "block_exists e h t \<longleftrightarrow> tx_get_cf e LedgerHeaderCf h t \<noteq> None"

text \<open>The values of several keys: a missing one is a panic.\<close>

fun read_all ::
    "('mpk, 'msig, 's, 'it) db_env \<Rightarrow> column \<Rightarrow> 'a reader \<Rightarrow> hash list \<Rightarrow> 's db_tx \<Rightarrow> db_error + 'a list" where
  "read_all e c rd [] t = Inr []"
| "read_all e c rd (k # ks) t =
     (case tx_get_cf e c k t of
        None \<Rightarrow> Inl (DbPanic ''called `Option::unwrap()` on a `None` value'')
      | Some buf \<Rightarrow>
          (case read_blob rd buf of
             Inl err \<Rightarrow> Inl err
           | Inr x \<Rightarrow> (case read_all e c rd ks t of Inl err \<Rightarrow> Inl err | Inr xs \<Rightarrow> Inr (x # xs))))"

definition db_faults ::
    "('mpk, 'msig, 's, 'it) db_env \<Rightarrow> hash list \<Rightarrow> 's db_tx \<Rightarrow> db_error + fault list" where
  "db_faults e faults_ids t = read_all e LedgerFaultsCf (fault_read (de_crypto e)) faults_ids t"

definition db_light_block ::
    "('mpk, 'msig, 's, 'it) db_env \<Rightarrow> hash \<Rightarrow> 's db_tx \<Rightarrow> db_error + light_block option" where
  "db_light_block e h t =
     (case tx_get_cf e LedgerHeaderCf h t of
        None \<Rightarrow> Inr None
      | Some blob \<Rightarrow> (case read_blob light_block_read blob of Inl err \<Rightarrow> Inl err | Inr b \<Rightarrow> Inr (Some b)))"

definition db_block ::
    "('mpk, 'msig, 's, 'it) db_env \<Rightarrow> hash \<Rightarrow> 's db_tx \<Rightarrow> db_error + block option" where
  "db_block e h t =
     (case db_light_block e h t of
        Inl err \<Rightarrow> Inl err
      | Inr None \<Rightarrow> Inr None
      | Inr (Some record) \<Rightarrow>
          (case read_all e LedgerTxsCf (spent_tx_read (de_crypto e)) (lb_transactions_ids record) t of
             Inl err \<Rightarrow> Inl err
           | Inr txs \<Rightarrow>
               (case read_all e LedgerFaultsCf (fault_read (de_crypto e)) (lb_faults_ids record) t of
                  Inl err \<Rightarrow> Inl err
                | Inr faults \<Rightarrow> Inr (Some (block_new (de_crypto e) (lb_header record) (map sp_inner txs) faults)))))"

definition db_block_header ::
    "('mpk, 'msig, 's, 'it) db_env \<Rightarrow> hash \<Rightarrow> 's db_tx \<Rightarrow> db_error + header option" where
  "db_block_header e h t =
     (case tx_get_cf e LedgerHeaderCf h t of
        None \<Rightarrow> Inr None
      | Some blob \<Rightarrow> (case read_blob header_read blob of Inl err \<Rightarrow> Inl err | Inr b \<Rightarrow> Inr (Some b)))"

definition block_hash_by_height ::
    "('mpk, 'msig, 's, 'it) db_env \<Rightarrow> u64 \<Rightarrow> 's db_tx \<Rightarrow> db_error + hash option" where
  "block_hash_by_height e height t =
     (case tx_get_cf e LedgerHeightCf (to_le_bytes height) t of
        None \<Rightarrow> Inr None
      | Some h \<Rightarrow> if length h < 32 then Inl (DbPanic ''range end index out of range'') else Inr (Some (take 32 h)))"

definition block_by_height ::
    "('mpk, 'msig, 's, 'it) db_env \<Rightarrow> u64 \<Rightarrow> 's db_tx \<Rightarrow> db_error + block option" where
  "block_by_height e height t =
     (case block_hash_by_height e height t of
        Inl err \<Rightarrow> Inl err
      | Inr None \<Rightarrow> Inr None
      | Inr (Some h) \<Rightarrow> db_block e h t)"

definition block_label_by_height ::
    "('mpk, 'msig, 's, 'it) db_env \<Rightarrow> u64 \<Rightarrow> 's db_tx \<Rightarrow> db_error + (hash \<times> label) option" where
  "block_label_by_height e height t =
     (case tx_get_cf e LedgerHeightCf (to_le_bytes height) t of
        None \<Rightarrow> Inr None
      | Some h \<Rightarrow>
          if length h < 32 then Inl (DbPanic ''range end index out of range'')
          else (case read_blob label_read (drop 32 h) of
                  Inl err \<Rightarrow> Inl err
                | Inr label \<Rightarrow> Inr (Some (take 32 h, label))))"

definition db_ledger_tx ::
    "('mpk, 'msig, 's, 'it) db_env \<Rightarrow> hash \<Rightarrow> 's db_tx \<Rightarrow> db_error + spent_tx option" where
  "db_ledger_tx e tx_id t =
     (case tx_get_cf e LedgerTxsCf tx_id t of
        None \<Rightarrow> Inr None
      | Some blob \<Rightarrow>
          (case read_blob (spent_tx_read (de_crypto e)) blob of Inl err \<Rightarrow> Inl err | Inr tx \<Rightarrow> Inr (Some tx)))"

definition ledger_tx_exists :: "('mpk, 'msig, 's, 'it) db_env \<Rightarrow> hash \<Rightarrow> 's db_tx \<Rightarrow> bool" where
  "ledger_tx_exists e tx_id t \<longleftrightarrow> tx_get_cf e LedgerTxsCf tx_id t \<noteq> None"

text \<open>The faults of the blocks from the tip down to a height; the value \<open>None\<close> is a chain of hashes that does not end.\<close>

partial_function (option) faults_from ::
    "('mpk, 'msig, 's, 'it) db_env \<Rightarrow> u64 \<Rightarrow> hash \<Rightarrow> fault list \<Rightarrow> 's db_tx \<Rightarrow> (db_error + fault list) option" where
  "faults_from e start_height h faults t =
     (case db_light_block e h t of
        Inl err \<Rightarrow> Some (Inl err)
      | Inr None \<Rightarrow> Some (Inl (DbError ''Cannot read block''))
      | Inr (Some block) \<Rightarrow>
          let block_height = h_height (lb_header block) in
          if block_height \<ge> start_height then
            (case db_faults e (lb_faults_ids block) t of
               Inl err \<Rightarrow> Some (Inl err)
             | Inr fs \<Rightarrow>
                 if block_height = 0 then Some (Inr (faults @ fs))
                 else faults_from e start_height (h_prev_block_hash (lb_header block)) (faults @ fs) t)
          else Some (Inr faults))"

declare faults_from.simps [code]

definition faults_by_block ::
    "('mpk, 'msig, 's, 'it) db_env \<Rightarrow> u64 \<Rightarrow> 's db_tx \<Rightarrow> (db_error + fault list) option" where
  "faults_by_block e start_height t =
     (case op_read e MD_HASH_KEY t of
        None \<Rightarrow> Some (Inl (DbError ''Cannot read tip''))
      | Some h \<Rightarrow> faults_from e start_height h [] t)"

section \<open>Candidates and validation results\<close>

definition store_candidate ::
    "('mpk, 'msig, 's, 'it) db_env \<Rightarrow> block \<Rightarrow> 's db_tx \<Rightarrow> 's db_tx" where
  "store_candidate e b t =
     (let hash = h_hash (bl_header b);
          t = inner_put_cf e CandidatesCf hash (block_write (de_crypto e) b) t in
      inner_put_cf e CandidatesHeightCf (serialize_key (h_height (bl_header b)) hash) hash t)"

definition db_candidate ::
    "('mpk, 'msig, 's, 'it) db_env \<Rightarrow> hash \<Rightarrow> 's db_tx \<Rightarrow> db_error + block option" where
  "db_candidate e h t =
     (case tx_get_cf e CandidatesCf h t of
        None \<Rightarrow> Inr None
      | Some blob \<Rightarrow>
          (case read_blob (block_read (de_crypto e)) blob of Inl err \<Rightarrow> Inl err | Inr b \<Rightarrow> Inr (Some b)))"

fun find_candidate ::
    "('mpk, 'msig) node_crypto \<Rightarrow> consensus_header \<Rightarrow> (bytes \<times> bytes) list \<Rightarrow> db_error + block option" where
  "find_candidate nc ch [] = Inr None"
| "find_candidate nc ch ((_, blob) # es) =
     (case read_blob (block_read nc) blob of
        Inl err \<Rightarrow> Inl err
      | Inr b \<Rightarrow>
          if h_prev_block_hash (bl_header b) = ch_prev_block_hash ch \<and> h_iteration (bl_header b) = ch_iteration ch
          then Inr (Some b) else find_candidate nc ch es)"

definition candidate_by_iteration ::
    "('mpk, 'msig, 's, 'it) db_env \<Rightarrow> consensus_header \<Rightarrow> 's db_tx \<Rightarrow> db_error + block option" where
  "candidate_by_iteration e ch t = find_candidate (de_crypto e) ch (tx_iterator_cf e CandidatesCf t)"

fun delete_candidates_in ::
    "('mpk, 'msig, 's, 'it) db_env \<Rightarrow> (u64 \<Rightarrow> bool) \<Rightarrow> (bytes \<times> bytes) list \<Rightarrow> 's db_tx \<Rightarrow> db_error + 's db_tx" where
  "delete_candidates_in e closure [] t = Inr t"
| "delete_candidates_in e closure ((key, hash) # es) t =
     (case read_blob deserialize_key key of
        Inl err \<Rightarrow> Inl err
      | Inr (height, _) \<Rightarrow>
          delete_candidates_in e closure es
            (if closure height then
               inner_delete_cf e CandidatesHeightCf key (inner_delete_cf e CandidatesCf hash t)
             else t))"

definition delete_candidate ::
    "('mpk, 'msig, 's, 'it) db_env \<Rightarrow> (u64 \<Rightarrow> bool) \<Rightarrow> 's db_tx \<Rightarrow> db_error + 's db_tx" where
  "delete_candidate e closure t = delete_candidates_in e closure (tx_iterator_cf e CandidatesHeightCf t) t"

definition count_candidates :: "('mpk, 'msig, 's, 'it) db_env \<Rightarrow> 's db_tx \<Rightarrow> nat" where
  "count_candidates e t = length (tx_iterator_cf e CandidatesHeightCf t)"

definition clear_candidates :: "('mpk, 'msig, 's, 'it) db_env \<Rightarrow> 's db_tx \<Rightarrow> db_error + 's db_tx" where
  "clear_candidates e t = delete_candidate e (\<lambda>_. True) t"

definition store_validation_result ::
    "('mpk, 'msig, 's, 'it) db_env \<Rightarrow> consensus_header \<Rightarrow> validation_result \<Rightarrow> 's db_tx \<Rightarrow> 's db_tx" where
  "store_validation_result e ch vr t =
     inner_put_cf e ValidationResultsCf (serialize_iter_key ch) (validation_result_write vr) t"

definition db_validation_result ::
    "('mpk, 'msig, 's, 'it) db_env \<Rightarrow> consensus_header \<Rightarrow> 's db_tx \<Rightarrow> db_error + validation_result option" where
  "db_validation_result e ch t =
     (case tx_get_cf e ValidationResultsCf (serialize_iter_key ch) t of
        None \<Rightarrow> Inr None
      | Some blob \<Rightarrow>
          (case read_blob validation_result_read blob of Inl err \<Rightarrow> Inl err | Inr vr \<Rightarrow> Inr (Some vr)))"

fun delete_results_in ::
    "('mpk, 'msig, 's, 'it) db_env \<Rightarrow> (hash \<Rightarrow> bool) \<Rightarrow> (bytes \<times> bytes) list \<Rightarrow> 's db_tx \<Rightarrow> db_error + 's db_tx" where
  "delete_results_in e closure [] t = Inr t"
| "delete_results_in e closure ((key, _) # es) t =
     (case read_blob deserialize_iter_key key of
        Inl err \<Rightarrow> Inl err
      | Inr (prev_block_hash, _) \<Rightarrow>
          delete_results_in e closure es
            (if closure prev_block_hash then inner_delete_cf e ValidationResultsCf key t else t))"

definition delete_validation_results ::
    "('mpk, 'msig, 's, 'it) db_env \<Rightarrow> (hash \<Rightarrow> bool) \<Rightarrow> 's db_tx \<Rightarrow> db_error + 's db_tx" where
  "delete_validation_results e closure t = delete_results_in e closure (tx_iterator_cf e ValidationResultsCf t) t"

definition count_validation_results :: "('mpk, 'msig, 's, 'it) db_env \<Rightarrow> 's db_tx \<Rightarrow> nat" where
  "count_validation_results e t = length (tx_iterator_cf e ValidationResultsCf t)"

definition clear_validation_results :: "('mpk, 'msig, 's, 'it) db_env \<Rightarrow> 's db_tx \<Rightarrow> db_error + 's db_tx" where
  "clear_validation_results e t = delete_validation_results e (\<lambda>_. True) t"

definition clear_database :: "('mpk, 'msig, 's, 'it) db_env \<Rightarrow> 's db_tx \<Rightarrow> db_error + 's db_tx" where
  "clear_database e t =
     (let t = fold (\<lambda>(key, _). inner_delete_cf e LedgerHeaderCf key) (tx_iterator_cf e LedgerHeaderCf t) t in
      case clear_candidates e t of
        Inl err \<Rightarrow> Inl err
      | Inr t \<Rightarrow> clear_validation_results e t)"

section \<open>Running a transaction\<close>

definition begin_tx :: "'s \<Rightarrow> 's db_tx" where
  "begin_tx s = \<lparr>tx_inner = s, tx_cumulative_size = 0\<rparr>"

text \<open>Changes are kept when there is no error and it is not a dry run.\<close>

definition update_dry_run ::
    "bool \<Rightarrow> ('s db_tx \<Rightarrow> 'e + ('a \<times> 's db_tx)) \<Rightarrow> 's \<Rightarrow> ('e + 'a) \<times> 's" where
  "update_dry_run dry_run f s =
     (case f (begin_tx s) of
        Inl err \<Rightarrow> (Inl err, s)
      | Inr (x, t) \<Rightarrow> (Inr x, if dry_run then s else tx_inner t))"

end
