(* ===== verification/Mempool_Store.thy ===== *)
theory Mempool_Store
  imports Node_Store
begin

text \<open>
  The mempool in the database of a node, \<open>Mempool for DBTransaction\<close> of \<^verbatim>\<open>node/src/database/rocksdb.rs\<close>:
  transactions by their id, an index of what they spend, and an index by fee with the time of arrival.
\<close>

section \<open>What a transaction spends\<close>

datatype spending_id = NullifierId bytes | AccountNonceId bls_public_key u64

definition spending_id_to_bytes :: "wire \<Rightarrow> spending_id \<Rightarrow> bytes" where
  "spending_id_to_bytes wr s =
     (case s of NullifierId n \<Rightarrow> n | AccountNonceId acct nonce \<Rightarrow> w_pk_to_bytes wr acct @ to_le_bytes nonce)"

definition spending_id_next :: "spending_id \<Rightarrow> spending_id option" where
  "spending_id_next s =
     (case s of NullifierId _ \<Rightarrow> None | AccountNonceId acct nonce \<Rightarrow> Some (AccountNonceId acct (nonce + 1)))"

definition to_spend_ids :: "wire \<Rightarrow> ledger_tx \<Rightarrow> spending_id list" where
  "to_spend_ids wr t =
     (case lt_inner t of
        Phoenix p \<Rightarrow> map (\<lambda>n. NullifierId (w_scalar_to_bytes wr n)) (tx_nullifiers (Phoenix p))
      | Moonlight m \<Rightarrow> [AccountNonceId (mt_sender m) (mt_nonce m)])"

definition next_spending_id :: "ledger_tx \<Rightarrow> spending_id option" where
  "next_spending_id t =
     (case lt_inner t of Phoenix _ \<Rightarrow> None | Moonlight m \<Rightarrow> Some (AccountNonceId (mt_sender m) (mt_nonce m + 1)))"

section \<open>Storing\<close>

definition ledger_gas_price :: "ledger_tx \<Rightarrow> u64" where
  "ledger_gas_price t = tx_gas_price (lt_inner t)"

definition spend_keys :: "('mpk, 'msig, 's, 'it) db_env \<Rightarrow> ledger_tx \<Rightarrow> bytes list" where
  "spend_keys e tx = map (spending_id_to_bytes (nc_wire (de_crypto e))) (to_spend_ids (nc_wire (de_crypto e)) tx)"

definition fee_key :: "('mpk, 'msig, 's, 'it) db_env \<Rightarrow> ledger_tx \<Rightarrow> bytes" where
  "fee_key e tx = serialize_key (ledger_gas_price tx) (ledger_tx_id e tx)"

definition store_mempool_tx ::
    "('mpk, 'msig, 's, 'it) db_env \<Rightarrow> ledger_tx \<Rightarrow> u64 \<Rightarrow> 's db_tx \<Rightarrow> 's db_tx" where
  "store_mempool_tx e tx timestamp t =
     (let hash = ledger_tx_id e tx;
          t = tx_put_cf e MempoolCf hash (ledger_tx_write (de_crypto e) tx) t;
          t = fold (\<lambda>key. tx_put_cf e MempoolSpendingIdCf key hash) (spend_keys e tx) t in
      tx_put_cf e MempoolFeesCf (fee_key e tx) (to_be_bytes64 timestamp) t)"

definition mempool_tx ::
    "('mpk, 'msig, 's, 'it) db_env \<Rightarrow> hash \<Rightarrow> 's db_tx \<Rightarrow> db_error + ledger_tx option" where
  "mempool_tx e h t =
     (case tx_get_cf e MempoolCf h t of
        None \<Rightarrow> Inr None
      | Some blob \<Rightarrow>
          (case read_blob (ledger_tx_read (de_crypto e)) blob of Inl err \<Rightarrow> Inl err | Inr tx \<Rightarrow> Inr (Some tx)))"

definition mempool_tx_exists :: "('mpk, 'msig, 's, 'it) db_env \<Rightarrow> hash \<Rightarrow> 's db_tx \<Rightarrow> bool" where
  "mempool_tx_exists e h t \<longleftrightarrow> tx_get_cf e MempoolCf h t \<noteq> None"

definition lookup_spending_id ::
    "('mpk, 'msig, 's, 'it) db_env \<Rightarrow> 's db_tx \<Rightarrow> spending_id \<Rightarrow> hash option" where
  "lookup_spending_id e t s =
     (case tx_get_cf e MempoolSpendingIdCf (spending_id_to_bytes (nc_wire (de_crypto e)) s) t of
        Some tx_id \<Rightarrow> if length tx_id = 32 then Some tx_id else None
      | None \<Rightarrow> None)"

definition mempool_txs_by_spendable_ids ::
    "('mpk, 'msig, 's, 'it) db_env \<Rightarrow> spending_id list \<Rightarrow> 's db_tx \<Rightarrow> hash list" where
  "mempool_txs_by_spendable_ids e ids t = de_set_order e (remdups (List.map_filter (lookup_spending_id e t) ids))"

section \<open>Deleting\<close>

text \<open>
  The transaction and its entries in the indexes; the result is the transaction, if there is one.  A deletion that
  fails keeps what was deleted before: whether it is undone is up to the caller.
\<close>

definition drop_mempool_tx ::
    "('mpk, 'msig, 's, 'it) db_env \<Rightarrow> hash \<Rightarrow> 's db_tx \<Rightarrow> (db_error + ledger_tx option) \<times> 's db_tx" where
  "drop_mempool_tx e h t =
     (case mempool_tx e h t of
        Inl err \<Rightarrow> (Inl err, t)
      | Inr None \<Rightarrow> (Inr None, t)
      | Inr (Some tx) \<Rightarrow>
          let t = inner_delete_cf e MempoolCf (ledger_tx_id e tx) t;
              t = fold (inner_delete_cf e MempoolSpendingIdCf) (spend_keys e tx) t in
          (Inr (Some tx), inner_delete_cf e MempoolFeesCf (fee_key e tx) t))"

text \<open>The transactions with the nonces that follow; \<open>None\<close> if there is no end of them.\<close>

partial_function (option) mempool_dependants ::
    "('mpk, 'msig, 's, 'it) db_env \<Rightarrow> spending_id option \<Rightarrow> hash list \<Rightarrow> 's db_tx \<Rightarrow> hash list option" where
  "mempool_dependants e next_id dependants t =
     (case next_id of
        None \<Rightarrow> Some dependants
      | Some sid \<Rightarrow>
          let next_txs = mempool_txs_by_spendable_ids e [sid] t in
          if next_txs = [] then Some dependants
          else mempool_dependants e (spending_id_next sid) (dependants @ next_txs) t)"

declare mempool_dependants.simps [code]

text \<open>Deleting without what depends on it.\<close>

definition delete_single ::
    "('mpk, 'msig, 's, 'it) db_env \<Rightarrow> hash \<Rightarrow> 's db_tx \<Rightarrow> (db_error + hash list) \<times> 's db_tx" where
  "delete_single e h t =
     (case drop_mempool_tx e h t of
        (Inl err, t) \<Rightarrow> (Inl err, t)
      | (Inr None, t) \<Rightarrow> (Inr [], t)
      | (Inr (Some _), t) \<Rightarrow> (Inr [h], t))"

fun delete_each ::
    "('mpk, 'msig, 's, 'it) db_env \<Rightarrow> hash list \<Rightarrow> hash list \<Rightarrow> 's db_tx \<Rightarrow> (db_error + hash list) \<times> 's db_tx" where
  "delete_each e [] deleted t = (Inr deleted, t)"
| "delete_each e (h # hs) deleted t =
     (case delete_single e h t of
        (Inl err, t) \<Rightarrow> (Inl err, t)
      | (Inr ds, t) \<Rightarrow> delete_each e hs (deleted @ ds) t)"

definition delete_mempool_tx ::
    "('mpk, 'msig, 's, 'it) db_env \<Rightarrow> hash \<Rightarrow> bool \<Rightarrow> 's db_tx \<Rightarrow> ((db_error + hash list) \<times> 's db_tx) option" where
  "delete_mempool_tx e h cascade t =
     (case drop_mempool_tx e h t of
        (Inl err, t) \<Rightarrow> Some (Inl err, t)
      | (Inr None, t) \<Rightarrow> Some (Inr [], t)
      | (Inr (Some tx), t) \<Rightarrow>
          if cascade then
            map_option (\<lambda>dependants. delete_each e dependants [h] t)
              (mempool_dependants e (next_spending_id tx) [] t)
          else Some (Inr [h], t))"

section \<open>Iterating\<close>

record 'it fee_iterator =
  fi_iter :: 'it
  fi_fee_desc :: bool

definition fee_iterator_new ::
    "('mpk, 'msig, 's, 'it) db_env \<Rightarrow> bool \<Rightarrow> 's db_tx \<Rightarrow> 'it fee_iterator" where
  "fee_iterator_new e fee_desc t =
     (let iter = db_raw_iterator_cf (de_rocksdb e) MempoolFeesCf (tx_inner t) in
      \<lparr>fi_iter = (if fee_desc then it_seek_to_last (de_rocksdb e) iter else iter), fi_fee_desc = fee_desc\<rparr>)"

definition fee_iterator_next ::
    "('mpk, 'msig, 's, 'it) db_env \<Rightarrow> 'it fee_iterator \<Rightarrow> (u64 \<times> hash) option \<times> 'it fee_iterator" where
  "fee_iterator_next e fi =
     (let db = de_rocksdb e in
      if it_valid db (fi_iter fi) then
        (case it_key db (fi_iter fi) of
           None \<Rightarrow> (None, fi)
         | Some key \<Rightarrow>
             (case deserialize_key key of
                Inl _ \<Rightarrow> (None, fi)
              | Inr (item, _) \<Rightarrow>
                  (Some item, fi\<lparr>fi_iter := (if fi_fee_desc fi then it_prev db else it_next db) (fi_iter fi)\<rparr>)))
      else (None, fi))"

definition mempool_txs_ids_sorted_by_fee :: "('mpk, 'msig, 's, 'it) db_env \<Rightarrow> 's db_tx \<Rightarrow> 'it fee_iterator" where
  "mempool_txs_ids_sorted_by_fee e t = fee_iterator_new e True t"

definition mempool_txs_ids_sorted_by_low_fee :: "('mpk, 'msig, 's, 'it) db_env \<Rightarrow> 's db_tx \<Rightarrow> 'it fee_iterator" where
  "mempool_txs_ids_sorted_by_low_fee e t = fee_iterator_new e False t"

text \<open>\<open>MemPoolIterator\<close>: the transactions themselves.\<close>

definition mempool_iterator_next ::
    "('mpk, 'msig, 's, 'it) db_env \<Rightarrow> 's db_tx \<Rightarrow> 'it fee_iterator \<Rightarrow> ledger_tx option \<times> 'it fee_iterator" where
  "mempool_iterator_next e t fi =
     (case fee_iterator_next e fi of
        (None, fi) \<Rightarrow> (None, fi)
      | (Some (_, tx_id), fi) \<Rightarrow> ((case mempool_tx e tx_id t of Inr tx \<Rightarrow> tx | Inl _ \<Rightarrow> None), fi))"

text \<open>The items an iterator gives until it ends, at most \<open>n\<close>.\<close>

fun fee_items :: "('mpk, 'msig, 's, 'it) db_env \<Rightarrow> nat \<Rightarrow> 'it fee_iterator \<Rightarrow> (u64 \<times> hash) list" where
  "fee_items e 0 fi = []"
| "fee_items e (Suc n) fi =
     (case fee_iterator_next e fi of (None, _) \<Rightarrow> [] | (Some x, fi) \<Rightarrow> x # fee_items e n fi)"

fun mempool_items :: "('mpk, 'msig, 's, 'it) db_env \<Rightarrow> 's db_tx \<Rightarrow> nat \<Rightarrow> 'it fee_iterator \<Rightarrow> ledger_tx list" where
  "mempool_items e t 0 fi = []"
| "mempool_items e t (Suc n) fi =
     (case mempool_iterator_next e t fi of (None, _) \<Rightarrow> [] | (Some tx, fi) \<Rightarrow> tx # mempool_items e t n fi)"

partial_function (option) expired_from ::
    "('mpk, 'msig, 's, 'it) db_env \<Rightarrow> u64 \<Rightarrow> 'it \<Rightarrow> hash list \<Rightarrow> (db_error + hash list) option" where
  "expired_from e timestamp iter txs =
     (let db = de_rocksdb e in
      if it_valid db iter then
        (case it_key db iter of
           None \<Rightarrow> expired_from e timestamp (it_next db iter) txs
         | Some key \<Rightarrow>
             (case read_blob deserialize_key key of
                Inl err \<Rightarrow> Some (Inl err)
              | Inr (_, tx_id) \<Rightarrow>
                  (case it_value db iter of
                     None \<Rightarrow> Some (Inl (DbIo (IoInvalidData ''no value'')))
                   | Some v \<Rightarrow>
                       if length v \<noteq> 8 then Some (Inl (DbIo (IoInvalidData ''invalid data'')))
                       else expired_from e timestamp (it_next db iter)
                              (if from_be_bytes64 v \<le> timestamp then txs @ [tx_id] else txs))))
      else Some (Inr txs))"

declare expired_from.simps [code]

definition mempool_expired_txs ::
    "('mpk, 'msig, 's, 'it) db_env \<Rightarrow> u64 \<Rightarrow> 's db_tx \<Rightarrow> (db_error + hash list) option" where
  "mempool_expired_txs e timestamp t =
     expired_from e timestamp
       (it_seek_to_first (de_rocksdb e) (db_raw_iterator_cf (de_rocksdb e) MempoolFeesCf (tx_inner t))) []"

partial_function (option) txs_ids_from ::
    "('mpk, 'msig, 's, 'it) db_env \<Rightarrow> 'it \<Rightarrow> hash list \<Rightarrow> (db_error + hash list) option" where
  "txs_ids_from e iter txs =
     (let db = de_rocksdb e in
      if it_valid db iter then
        (case it_key db iter of
           None \<Rightarrow> txs_ids_from e (it_prev db iter) txs
         | Some key \<Rightarrow>
             (case read_blob deserialize_key key of
                Inl err \<Rightarrow> Some (Inl err)
              | Inr (_, tx_id) \<Rightarrow> txs_ids_from e (it_prev db iter) (txs @ [tx_id])))
      else Some (Inr txs))"

declare txs_ids_from.simps [code]

definition mempool_txs_ids :: "('mpk, 'msig, 's, 'it) db_env \<Rightarrow> 's db_tx \<Rightarrow> (db_error + hash list) option" where
  "mempool_txs_ids e t =
     txs_ids_from e (it_seek_to_last (de_rocksdb e) (db_raw_iterator_cf (de_rocksdb e) MempoolFeesCf (tx_inner t))) []"

definition mempool_txs_count :: "('mpk, 'msig, 's, 'it) db_env \<Rightarrow> 's db_tx \<Rightarrow> nat" where
  "mempool_txs_count e t = length (tx_iterator_cf e MempoolCf t)"

end
