(* ===== verification/Mempool.thy ===== *)
theory Mempool
  imports Mempool_Store
begin

text \<open>
  The mempool service, \<^verbatim>\<open>node/src/mempool.rs\<close>, with the checks of the virtual machine it relies on,
  \<open>preverify\<close> of \<^verbatim>\<open>rusk/src/lib/node/vm.rs\<close> and \<^verbatim>\<open>rusk/src/lib/verifier.rs\<close>.  A transaction is checked in three
  transactions of the database, of which the last writes; they are run one after the other here.  What the chain
  removes from the mempool is part of it.
\<close>

section \<open>Preverification\<close>

datatype preverification_result =
    PreverifyValid
  | FutureNonce bls_public_key account_data u64

datatype preverify_error =
    RepeatingNullifiers "bls_scalar list"
  | DoubleNullifiers
  | InvalidProof
  | InvalidCircuitArguments nat nat
  | ValueOverflow
  | ValueTooLarge
  | RepeatingNonce bls_public_key u64
  | InvalidSignature
  | PreverifyPanic panic

text \<open>A hash set refuses the elements it has.\<close>

fun all_inserted :: "'a list \<Rightarrow> 'a list \<Rightarrow> bool" where
  "all_inserted uniq [] = True"
| "all_inserted uniq (x # xs) = (x \<notin> set uniq \<and> all_inserted (x # uniq) xs)"

definition has_unique_elements :: "'a list \<Rightarrow> bool" where
  "has_unique_elements xs = all_inserted [] xs"

text \<open>
  The verifier data of the transaction circuits come from the profile of the node by the name of the circuit, those
  of the contract from the same files.
\<close>

definition verify_proof :: "host \<Rightarrow> phoenix_wire \<Rightarrow> phoenix_transaction \<Rightarrow> preverify_error + bool" where
  "verify_proof h pw tx =
     (case tx_circuit_verifier h (length (pt_nullifiers tx)) of
        None \<Rightarrow> Inl (InvalidCircuitArguments (length (pt_nullifiers tx)) (length (pt_outputs tx)))
      | Some vd \<Rightarrow>
          (case pt_public_inputs h pw tx of
             Inl err \<Rightarrow> Inl (PreverifyPanic err)
           | Inr pis \<Rightarrow> Inr (h_verify_plonk h vd (pt_proof tx) pis)))"

definition verify_moonlight_signature :: "host \<Rightarrow> wire \<Rightarrow> moonlight_transaction \<Rightarrow> bool" where
  "verify_moonlight_signature h wr tx = h_verify_bls h (mt_signature_message wr tx) (mt_sender tx) (mt_signature tx)"

definition preverify_phoenix ::
    "host \<Rightarrow> phoenix_wire \<Rightarrow> phoenix_transaction \<Rightarrow> 'r tworld_scheme \<Rightarrow> preverify_error + preverification_result" where
  "preverify_phoenix h pw tx w =
     (let existing = existing_nullifiers (pt_nullifiers tx) w in
      if existing \<noteq> [] then Inl (RepeatingNullifiers existing)
      else if \<not> has_unique_elements (pt_nullifiers tx) then Inl DoubleNullifiers
      else
        (case verify_proof h pw tx of
           Inl err \<Rightarrow> Inl err
         | Inr ok \<Rightarrow> if ok then Inr PreverifyValid else Inl InvalidProof))"

definition max_value_spent :: "moonlight_transaction \<Rightarrow> u64 res" where
  "max_value_spent tx =
     res_bind (mul_chk (mt_gas_limit tx) (mt_gas_price tx)) (\<lambda>v.
     res_bind (add_chk v (mt_value tx)) (\<lambda>v. add_chk v (mt_deposit tx)))"

definition preverify_moonlight ::
    "host \<Rightarrow> wire \<Rightarrow> moonlight_transaction \<Rightarrow> 'r tworld_scheme \<Rightarrow> preverify_error + preverification_result" where
  "preverify_moonlight h wr tx w =
     (let account_data = account h (mt_sender tx) w in
      case max_value_spent tx of
        Inl _ \<Rightarrow> Inl ValueOverflow
      | Inr max_value \<Rightarrow>
          if max_value > acc_balance account_data then Inl ValueTooLarge
          else if mt_nonce tx \<le> acc_nonce account_data then Inl (RepeatingNonce (mt_sender tx) (mt_nonce tx))
          else
            let result =
                  (if mt_nonce tx > acc_nonce account_data + 1
                   then FutureNonce (mt_sender tx) account_data (mt_nonce tx) else PreverifyValid)
            in if verify_moonlight_signature h wr tx then Inr result else Inl InvalidSignature)"

definition preverify ::
    "host \<Rightarrow> wire \<Rightarrow> phoenix_wire \<Rightarrow> ledger_tx \<Rightarrow> 'r tworld_scheme \<Rightarrow> preverify_error + preverification_result" where
  "preverify h wr pw tx w =
     (case lt_inner tx of
        Phoenix t \<Rightarrow> preverify_phoenix h pw t w
      | Moonlight t \<Rightarrow> preverify_moonlight h wr t w)"

section \<open>Accepting transactions\<close>

text \<open>The virtual machine as the mempool sees it, and the parameters of the service.\<close>

record vm_execution =
  vx_preverify :: "ledger_tx \<Rightarrow> preverify_error + preverification_result"
  vx_min_deployment_gas_price :: u64
  vx_gas_per_deploy_byte :: u64
  vx_min_deploy_points :: u64
  vx_min_gas_limit :: u64

text \<open>The node in a state \<open>w\<close>, with the parameters of its configuration.\<close>

definition rusk_vm ::
    "host \<Rightarrow> wire \<Rightarrow> phoenix_wire \<Rightarrow> 'r tworld_scheme \<Rightarrow> u64 \<Rightarrow> u64 \<Rightarrow> u64 \<Rightarrow> u64 \<Rightarrow> vm_execution" where
  "rusk_vm h wr pw w min_deployment_gas_price gas_per_deploy_byte min_deploy_points min_gas_limit =
     \<lparr>vx_preverify = (\<lambda>tx. preverify h wr pw tx w), vx_min_deployment_gas_price = min_deployment_gas_price,
      vx_gas_per_deploy_byte = gas_per_deploy_byte, vx_min_deploy_points = min_deploy_points,
      vx_min_gas_limit = min_gas_limit\<rparr>"

record mempool_params =
  mp_max_mempool_txn_count :: nat
  mp_mempool_expiry :: "u64 option"

definition DEFAULT_EXPIRY_TIME :: u64 where
  "DEFAULT_EXPIRY_TIME = 3 * 60 * 60 * 24"

text \<open>An error raised while the transaction of the database runs is wrapped.\<close>

datatype tx_acceptance_error =
    AlreadyExistsInMempool
  | AlreadyExistsInLedger
  | SpendIdExistsInMempool
  | VerificationFailed preverify_error
  | MissingNonce u64
  | GasPriceTooLow u64
  | GasLimitTooLow u64
  | MaxTxnCountExceeded nat
  | Generic db_error
  | GenericAcceptance tx_acceptance_error
  | CheckPanic panic

datatype transaction_event = Removed hash | Included ledger_tx | Executed spent_tx

definition check_gas :: "vm_execution \<Rightarrow> ledger_tx \<Rightarrow> tx_acceptance_error option" where
  "check_gas vm tx =
     (if ledger_gas_price tx < 1 then Some (GasPriceTooLow 1)
      else if tx_deploy (lt_inner tx) \<noteq> None then
        if ledger_gas_price tx < vx_min_deployment_gas_price vm
        then Some (GasPriceTooLow (vx_min_deployment_gas_price vm))
        else
          let deploy_charge = tx_deploy_charge (lt_inner tx) (vx_gas_per_deploy_byte vm) (vx_min_deploy_points vm) in
          if tx_gas_limit (lt_inner tx) < deploy_charge then Some (GasLimitTooLow deploy_charge) else None
      else if tx_gas_limit (lt_inner tx) < vx_min_gas_limit vm then Some (GasLimitTooLow (vx_min_gas_limit vm))
      else None)"

text \<open>The first look at the database: the transaction that has to go when there are too many.\<close>

definition check_known ::
    "('mpk, 'msig, 's, 'it) db_env \<Rightarrow> ledger_tx \<Rightarrow> nat \<Rightarrow> 's db_tx \<Rightarrow> tx_acceptance_error + hash option" where
  "check_known e tx max_mempool_txn_count view =
     (if mempool_tx_exists e (ledger_tx_id e tx) view then Inl AlreadyExistsInMempool
      else if ledger_tx_exists e (ledger_tx_id e tx) view then Inl AlreadyExistsInLedger
      else if mempool_txs_count e view \<ge> max_mempool_txn_count then
        (case fst (fee_iterator_next e (mempool_txs_ids_sorted_by_low_fee e view)) of
           None \<Rightarrow> Inl (Generic (DbError ''Cannot get lowest fee tx''))
         | Some (lowest_price, to_delete) \<Rightarrow>
             if ledger_gas_price tx < lowest_price then Inl (MaxTxnCountExceeded max_mempool_txn_count)
             else Inr (Some to_delete))
      else Inr None)"

text \<open>The second look: the nonces from the one of the account to the one used, the last excluded.\<close>

fun check_nonces ::
    "('mpk, 'msig, 's, 'it) db_env \<Rightarrow> bls_public_key \<Rightarrow> u64 \<Rightarrow> nat \<Rightarrow> 's db_tx \<Rightarrow> tx_acceptance_error option" where
  "check_nonces e acct nonce 0 view = None"
| "check_nonces e acct nonce (Suc n) view =
     (if mempool_txs_by_spendable_ids e [AccountNonceId acct nonce] view = [] then Some (MissingNonce nonce)
      else check_nonces e acct (nonce + 1) n view)"

definition check_future_nonce ::
    "('mpk, 'msig, 's, 'it) db_env \<Rightarrow> preverification_result \<Rightarrow> 's db_tx \<Rightarrow> tx_acceptance_error option" where
  "check_future_nonce e r view =
     (case r of
        PreverifyValid \<Rightarrow> None
      | FutureNonce acct state nonce_used \<Rightarrow>
          check_nonces e acct (acc_nonce state + 1) (unat nonce_used - unat (acc_nonce state + 1)) view)"

text \<open>The transactions that spend the same are replaced when they pay less.\<close>

fun replace_conflicts ::
    "('mpk, 'msig, 's, 'it) db_env \<Rightarrow> u64 \<Rightarrow> hash list \<Rightarrow> hash list \<Rightarrow> 's db_tx
     \<Rightarrow> (tx_acceptance_error + (hash list \<times> 's db_tx)) option" where
  "replace_conflicts e price [] removed t = Some (Inr (removed, t))"
| "replace_conflicts e price (m_tx_id # ids) removed t =
     (case mempool_tx e m_tx_id t of
        Inl err \<Rightarrow> Some (Inl (Generic err))
      | Inr None \<Rightarrow> replace_conflicts e price ids removed t
      | Inr (Some m_tx) \<Rightarrow>
          if tx_gas_price (lt_inner m_tx) < price then
            (case delete_mempool_tx e m_tx_id False t of
               None \<Rightarrow> None
             | Some (Inl err, _) \<Rightarrow> Some (Inl (Generic err))
             | Some (Inr deleted, t) \<Rightarrow> replace_conflicts e price ids (removed @ deleted) t)
          else Some (Inl (GenericAcceptance SpendIdExistsInMempool)))"

definition insert_tx ::
    "('mpk, 'msig, 's, 'it) db_env \<Rightarrow> ledger_tx \<Rightarrow> hash option \<Rightarrow> u64 \<Rightarrow> 's db_tx
     \<Rightarrow> (tx_acceptance_error + (transaction_event list \<times> 's db_tx)) option" where
  "insert_tx e tx tx_to_delete now t =
     (case replace_conflicts e (tx_gas_price (lt_inner tx))
         (mempool_txs_by_spendable_ids e (to_spend_ids (nc_wire (de_crypto e)) tx) t) [] t of
        None \<Rightarrow> None
      | Some (Inl err) \<Rightarrow> Some (Inl err)
      | Some (Inr (removed, t)) \<Rightarrow>
          let events = map Removed removed @ [Included tx] in
          (case (if removed = [] then tx_to_delete else None) of
             None \<Rightarrow> Some (Inr (events, store_mempool_tx e tx now t))
           | Some to_delete \<Rightarrow>
               (case delete_mempool_tx e to_delete True t of
                  None \<Rightarrow> None
                | Some (Inl err, _) \<Rightarrow> Some (Inl (Generic err))
                | Some (Inr deleted, t) \<Rightarrow> Some (Inr (events @ map Removed deleted, store_mempool_tx e tx now t)))))"

definition lift_preverify :: "preverify_error \<Rightarrow> tx_acceptance_error" where
  "lift_preverify err = (case err of PreverifyPanic p \<Rightarrow> CheckPanic p | _ \<Rightarrow> VerificationFailed err)"

definition check_tx ::
    "('mpk, 'msig, 's, 'it) db_env \<Rightarrow> vm_execution \<Rightarrow> ledger_tx \<Rightarrow> bool \<Rightarrow> nat \<Rightarrow> u64 \<Rightarrow> 's
     \<Rightarrow> ((tx_acceptance_error + transaction_event list) \<times> 's) option" where
  "check_tx e vm tx dry_run max_mempool_txn_count now s =
     (case check_gas vm tx of
        Some err \<Rightarrow> Some (Inl err, s)
      | None \<Rightarrow>
          (case check_known e tx max_mempool_txn_count (begin_tx s) of
             Inl err \<Rightarrow> Some (Inl err, s)
           | Inr tx_to_delete \<Rightarrow>
               (case vx_preverify vm tx of
                  Inl err \<Rightarrow> Some (Inl (lift_preverify err), s)
                | Inr preverification_data \<Rightarrow>
                    (case check_future_nonce e preverification_data (begin_tx s) of
                       Some err \<Rightarrow> Some (Inl err, s)
                     | None \<Rightarrow>
                         map_option (\<lambda>r. update_dry_run dry_run (\<lambda>_. r) s)
                           (insert_tx e tx tx_to_delete now (begin_tx s))))))"

section \<open>The service\<close>

text \<open>Errors while deleting are logged, and the other transactions are deleted all the same.\<close>

fun delete_logged ::
    "('mpk, 'msig, 's, 'it) db_env \<Rightarrow> bool \<Rightarrow> hash list \<Rightarrow> 's db_tx \<Rightarrow> (hash list \<times> 's db_tx) option" where
  "delete_logged e cascade [] t = Some ([], t)"
| "delete_logged e cascade (h # hs) t =
     (case delete_mempool_tx e h cascade t of
        None \<Rightarrow> None
      | Some (r, t) \<Rightarrow>
          map_option (\<lambda>(ds, t). ((case r of Inl _ \<Rightarrow> [] | Inr d \<Rightarrow> d) @ ds, t)) (delete_logged e cascade hs t))"

definition remove_expired ::
    "('mpk, 'msig, 's, 'it) db_env \<Rightarrow> u64 \<Rightarrow> 's db_tx \<Rightarrow> (hash list \<times> 's db_tx) option" where
  "remove_expired e expiration_time t =
     (case mempool_expired_txs e expiration_time t of
        None \<Rightarrow> None
      | Some r \<Rightarrow> delete_logged e True (case r of Inl _ \<Rightarrow> [] | Inr expired \<Rightarrow> expired) t)"

text \<open>
  What happens to the service: its timer, or a message with a transaction.  An accepted transaction is sent on; the
  other outputs are the events for subscribers.
\<close>

datatype mempool_event = Idle u64 | Inbound ledger_tx u64

datatype mempool_output = Notify transaction_event | BroadcastTx ledger_tx | NotAccepted ledger_tx tx_acceptance_error

definition on_idle ::
    "('mpk, 'msig, 's, 'it) db_env \<Rightarrow> mempool_params \<Rightarrow> u64 \<Rightarrow> 's \<Rightarrow> (panic + (mempool_output list \<times> 's)) option" where
  "on_idle e conf now s =
     (let mempool_expiry = (case mp_mempool_expiry conf of None \<Rightarrow> DEFAULT_EXPIRY_TIME | Some d \<Rightarrow> d) in
      case sub_chk now mempool_expiry of
        Inl _ \<Rightarrow> Some (Inl (Panic ''valid duration''))
      | Inr expiration_time \<Rightarrow>
          map_option (\<lambda>(ds, t). Inr (map (\<lambda>h. Notify (Removed h)) ds, tx_inner t))
            (remove_expired e expiration_time (begin_tx s)))"

definition accept_tx ::
    "('mpk, 'msig, 's, 'it) db_env \<Rightarrow> vm_execution \<Rightarrow> mempool_params \<Rightarrow> ledger_tx \<Rightarrow> u64 \<Rightarrow> 's
     \<Rightarrow> (panic + (mempool_output list \<times> 's)) option" where
  "accept_tx e vm conf tx now s =
     (case check_tx e vm tx False (mp_max_mempool_txn_count conf) now s of
        None \<Rightarrow> None
      | Some (Inl (CheckPanic p), _) \<Rightarrow> Some (Inl p)
      | Some (Inl err, s) \<Rightarrow> Some (Inr ([NotAccepted tx err], s))
      | Some (Inr events, s) \<Rightarrow> Some (Inr (map Notify events @ [BroadcastTx tx], s)))"

definition mempool_service ::
    "('mpk, 'msig, 's, 'it) db_env \<Rightarrow> vm_execution \<Rightarrow> mempool_params \<Rightarrow> mempool_event \<Rightarrow> 's
     \<Rightarrow> (panic + (mempool_output list \<times> 's)) option" where
  "mempool_service e vm conf ev s =
     (case ev of Idle now \<Rightarrow> on_idle e conf now s | Inbound tx now \<Rightarrow> accept_tx e vm conf tx now s)"

section \<open>What the chain removes\<close>

text \<open>After a block: its transactions and those that spend the same.\<close>

fun remove_included ::
    "('mpk, 'msig, 's, 'it) db_env \<Rightarrow> ledger_tx list \<Rightarrow> 's db_tx \<Rightarrow> (hash list \<times> 's db_tx) option" where
  "remove_included e [] t = Some ([], t)"
| "remove_included e (tx # txs) t =
     (case delete_logged e False [ledger_tx_id e tx] t of
        None \<Rightarrow> None
      | Some (deleted, t) \<Rightarrow>
          (case delete_logged e False
              (mempool_txs_by_spendable_ids e (to_spend_ids (nc_wire (de_crypto e)) tx) t) t of
             None \<Rightarrow> None
           | Some (orphans, t) \<Rightarrow>
               map_option (\<lambda>(ds, t). (deleted @ orphans @ ds, t)) (remove_included e txs t)))"

text \<open>After a candidate was made: the transactions that could not be executed, with what depends on them.\<close>

definition remove_discarded ::
    "('mpk, 'msig, 's, 'it) db_env \<Rightarrow> ledger_tx list \<Rightarrow> 's db_tx \<Rightarrow> (hash list \<times> 's db_tx) option" where
  "remove_discarded e discarded t = delete_logged e True (map (ledger_tx_id e) discarded) t"

end
