(* ===== verification/Store_Safety.thy ===== *)
theory Store_Safety
  imports Node_Store
begin

text \<open>
  What the database of a node keeps: stored values are read back, the entries of a column are those written, and a
  block that was stored is read as it was.
\<close>

section \<open>Reading what was written\<close>

text \<open>The laws of the parameters: RocksDB, hash sets, and digests of 32 bytes.\<close>

definition db_laws :: "('mpk, 'msig, 's, 'it) db_env \<Rightarrow> bool" where
  "db_laws e \<longleftrightarrow>
     rocksdb_laws (de_rocksdb e) \<and>
     (\<forall>xs. distinct xs \<longrightarrow> distinct (de_set_order e xs) \<and> set (de_set_order e xs) = set xs) \<and>
     (\<forall>s. length (w_scalar_to_bytes (nc_wire (de_crypto e)) s) = 32) \<and>
     (\<forall>bs. length (nc_sha3 (de_crypto e) bs) = 32)"

named_theorems db_read \<open>reading a column after a write\<close>

lemma tx_get_put [db_read]:
  assumes "db_laws e"
  shows "tx_get_cf e c' k' (tx_put_cf e c k v t) = (if c' = c \<and> k' = k then Some v else tx_get_cf e c' k' t)"
  using assms by (simp add: db_laws_def rocksdb_laws_def tx_get_cf_def tx_put_cf_def)

lemma tx_get_inner_put [db_read]:
  assumes "db_laws e"
  shows "tx_get_cf e c' k' (inner_put_cf e c k v t) = (if c' = c \<and> k' = k then Some v else tx_get_cf e c' k' t)"
  using assms by (simp add: db_laws_def rocksdb_laws_def tx_get_cf_def inner_put_cf_def)

lemma tx_get_delete [db_read]:
  assumes "db_laws e"
  shows "tx_get_cf e c' k' (inner_delete_cf e c k t) = (if c' = c \<and> k' = k then None else tx_get_cf e c' k' t)"
  using assms by (simp add: db_laws_def rocksdb_laws_def tx_get_cf_def inner_delete_cf_def)

lemma tx_get_fold_put_other:
  assumes "db_laws e" and "c' \<noteq> c \<or> k' \<notin> f ` set xs"
  shows "tx_get_cf e c' k' (fold (\<lambda>x. tx_put_cf e c (f x) (g x)) xs t) = tx_get_cf e c' k' t"
proof -
  have "\<forall>x \<in> set xs. c' \<noteq> c \<or> k' \<noteq> f x" using assms(2) by auto
  then show ?thesis
  proof (induction xs arbitrary: t)
    case (Cons x xs)
    have "tx_get_cf e c' k' (tx_put_cf e c (f x) (g x) t) = tx_get_cf e c' k' t"
      using Cons.prems by (auto simp: tx_get_put [OF assms(1)])
    with Cons show ?case by simp
  qed simp
qed

lemma tx_get_fold_put:
  assumes "db_laws e" and "x \<in> set xs" and "inj_on f (set xs)"
  shows "tx_get_cf e c (f x) (fold (\<lambda>x. tx_put_cf e c (f x) (g x)) xs t) = Some (g x)"
  using assms(2,3)
proof (induction xs rule: rev_induct)
  case (snoc y ys)
  show ?case
  proof (cases "f y = f x")
    case True
    with snoc.prems have "y = x" by (auto simp: inj_on_def)
    then show ?thesis by (simp add: tx_get_put [OF assms(1)])
  qed (use snoc in \<open>auto simp: tx_get_put [OF assms(1)] inj_on_def\<close>)
qed simp

lemma tx_get_fold_delete:
  assumes "db_laws e"
  shows "tx_get_cf e c' k' (fold (\<lambda>x. inner_delete_cf e c (f x)) xs t) =
           (if c' = c \<and> k' \<in> f ` set xs then None else tx_get_cf e c' k' t)"
  by (induction xs arbitrary: t) (auto simp: tx_get_delete [OF assms])

lemma tx_iterator_entries:
  assumes "db_laws e"
  shows "sorted_wrt (<) (map fst (tx_iterator_cf e c t))"
    and "map_of (tx_iterator_cf e c t) k = tx_get_cf e c k t"
    and "distinct (map fst (tx_iterator_cf e c t))"
    and "(k, v) \<in> set (tx_iterator_cf e c t) \<longleftrightarrow> tx_get_cf e c k t = Some v"
proof -
  show s: "sorted_wrt (<) (map fst (tx_iterator_cf e c t))" and
    m: "map_of (tx_iterator_cf e c t) k = tx_get_cf e c k t" for k
    using assms by (simp_all add: db_laws_def rocksdb_laws_def tx_iterator_cf_def tx_get_cf_def)
  show d: "distinct (map fst (tx_iterator_cf e c t))"
    using s strict_sorted_iff by blast
  show "(k, v) \<in> set (tx_iterator_cf e c t) \<longleftrightarrow> tx_get_cf e c k t = Some v"
    using d m [of k] by (metis map_of_eq_Some_iff)
qed

lemma read_all_map:
  assumes "\<And>x. x \<in> set xs \<Longrightarrow> \<exists>blob r. tx_get_cf e c (f x) t = Some blob \<and> rd blob = Inr (h x, r)"
  shows "read_all e c rd (map f xs) t = Inr (map h xs)"
  using assms
proof (induction xs)
  case (Cons x xs)
  obtain blob r where "tx_get_cf e c (f x) t = Some blob" "rd blob = Inr (h x, r)"
    using Cons.prems [of x] by auto
  with Cons show ?case by (simp add: read_blob_def)
qed simp

section \<open>Encodings\<close>

interpretation label: wire_codec "\<lambda>_. True" label_write label_read
proof unfold_locales
  show "label_read (label_write l @ rest) = Inr (l, rest)" for l rest
    by (cases l) (simp_all add: label_write_def label_read_def codec_read)
qed

definition light_block_ok :: "light_block \<Rightarrow> bool" where
  "light_block_ok b \<longleftrightarrow>
     header_ok (lb_header b) \<and>
     length (lb_transactions_ids b) < 2 ^ 32 \<and> (\<forall>i \<in> set (lb_transactions_ids b). length i = 32) \<and>
     length (lb_faults_ids b) < 2 ^ 32 \<and> (\<forall>i \<in> set (lb_faults_ids b). length i = 32)"

interpretation light_block: wire_codec light_block_ok light_block_write light_block_read
proof unfold_locales
  show "light_block_ok x \<Longrightarrow> light_block_read (light_block_write x @ rest) = Inr (x, rest)" for x rest
    by (simp add: light_block_ok_def light_block_read_def light_block_write_def header.read_write codec_read
        unat_of_nat b32.read_write_many)
qed

interpretation key: wire_codec "\<lambda>(v, h). length h = 32" "\<lambda>(v, h). serialize_key v h" deserialize_key
proof unfold_locales
  fix x :: "u64 \<times> hash" and rest :: bytes
  assume "case x of (v, h) \<Rightarrow> length h = 32"
  then show "deserialize_key ((case x of (v, h) \<Rightarrow> serialize_key v h) @ rest) = Inr (x, rest)"
    by (cases x) (simp add: serialize_key_def deserialize_key_def to_be_bytes64_def from_be_bytes64_def read_bytes_def
        from_to_le_bytes [where n = 8])
qed

lemmas key_read = key.read_write [of "(v, h)" for v h, simplified]

section \<open>Blocks\<close>

definition spent_ok :: "('mpk, 'msig) node_crypto \<Rightarrow> spent_tx \<Rightarrow> bool" where
  "spent_ok nc s \<longleftrightarrow>
     ledger_tx_ok nc (sp_inner s) \<and>
     (case sp_err s of None \<Rightarrow> True | Some err \<Rightarrow> length err < 2 ^ 32 \<and> utf8_valid (string_bytes err))"

text \<open>A transaction that failed with an empty message is read back as one that did not fail.\<close>

definition stored_spent :: "spent_tx \<Rightarrow> spent_tx" where
  "stored_spent s = s\<lparr>sp_err := (if sp_err s = Some [] then None else sp_err s)\<rparr>"

lemma stored_spent_inner [simp]: "sp_inner (stored_spent s) = sp_inner s"
  by (simp add: stored_spent_def)

lemma spent_reads_back:
  assumes "spent_ok nc s"
  shows "\<exists>r. spent_tx_read nc (spent_tx_write nc s) = Inr (stored_spent s, r)"
proof -
  have ok: "ledger_tx_ok nc (sp_inner s)" using assms by (simp add: spent_ok_def)
  note rt = spent_tx_roundtrip [OF ok, of "[]", simplified]
  show ?thesis
  proof (cases "sp_err s")
    case None
    then have "stored_spent s = s" by (simp add: stored_spent_def)
    with None rt show ?thesis by auto
  next
    case (Some err)
    show ?thesis
    proof (cases "err = []")
      case True with Some rt show ?thesis by (simp add: stored_spent_def)
    next
      case False
      have "stored_spent s = s" using Some False by (simp add: stored_spent_def)
      with Some False rt assms show ?thesis by (auto simp: spent_ok_def)
    qed
  qed
qed

lemma ledger_tx_id_length: "db_laws e \<Longrightarrow> length (ledger_tx_id e tx) = 32"
  by (simp add: db_laws_def ledger_tx_id_def)

lemma fault_id_length: "db_laws e \<Longrightarrow> length (fault_id (de_crypto e) f) = 32"
  by (simp add: db_laws_def fault_id_def fault_digest_def)

abbreviation light_of :: "('mpk, 'msig, 's, 'it) db_env \<Rightarrow> header \<Rightarrow> spent_tx list \<Rightarrow> fault list \<Rightarrow> light_block" where
  "light_of e header txs faults \<equiv>
     \<lparr>lb_header = header, lb_transactions_ids = map (\<lambda>tx. ledger_tx_id e (sp_inner tx)) txs,
      lb_faults_ids = map (fault_id (de_crypto e)) faults\<rparr>"

text \<open>What every column holds after a block is stored.\<close>

lemma store_block_columns:
  assumes "db_laws e" and "store_block e header txs faults label t = (n, t')"
  shows "tx_get_cf e LedgerHeaderCf k t' =
           (if k = h_hash header then Some (light_block_write (light_of e header txs faults))
            else tx_get_cf e LedgerHeaderCf k t)"
    and "tx_get_cf e LedgerHeightCf k t' =
           (if k = to_le_bytes (h_height header) then Some (h_hash header @ label_write label)
            else tx_get_cf e LedgerHeightCf k t)"
    and "k \<notin> (\<lambda>tx. ledger_tx_id e (sp_inner tx)) ` set txs \<Longrightarrow>
           tx_get_cf e LedgerTxsCf k t' = tx_get_cf e LedgerTxsCf k t"
    and "k \<notin> fault_id (de_crypto e) ` set faults \<Longrightarrow>
           tx_get_cf e LedgerFaultsCf k t' = tx_get_cf e LedgerFaultsCf k t"
    and "op_read e MD_HASH_KEY t' = Some (h_hash header)"
  using assms(2)
  by (auto simp: store_block_def Let_def store_block_label_def op_write_def op_read_def MD_HASH_KEY_def
      MD_STATE_ROOT_KEY_def string_bytes_def tx_get_put [OF assms(1)] tx_get_fold_put_other [OF assms(1)])

lemma store_block_entries:
  assumes "db_laws e" and "store_block e header txs faults label t = (n, t')"
  shows "tx \<in> set txs \<Longrightarrow> inj_on (\<lambda>tx. ledger_tx_id e (sp_inner tx)) (set txs) \<Longrightarrow>
           tx_get_cf e LedgerTxsCf (ledger_tx_id e (sp_inner tx)) t' = Some (spent_tx_write (de_crypto e) tx)"
    and "f \<in> set faults \<Longrightarrow> inj_on (fault_id (de_crypto e)) (set faults) \<Longrightarrow>
           tx_get_cf e LedgerFaultsCf (fault_id (de_crypto e) f) t' = Some (fault_write f)"
  using assms(2)
  by (auto simp: store_block_def Let_def store_block_label_def op_write_def tx_get_put [OF assms(1)]
      tx_get_fold_put_other [OF assms(1)]
      tx_get_fold_put [OF assms(1), where f = "\<lambda>tx. ledger_tx_id e (sp_inner tx)"]
      tx_get_fold_put [OF assms(1), where f = "fault_id (de_crypto e)"])

lemma stored_block_reads:
  assumes laws: "db_laws e" and ok: "block_ok (de_crypto e) b"
    and spent: "bl_txs b = map sp_inner txs" "\<And>tx. tx \<in> set txs \<Longrightarrow> spent_ok (de_crypto e) tx"
    and ids: "inj_on (\<lambda>tx. ledger_tx_id e (sp_inner tx)) (set txs)" "inj_on (fault_id (de_crypto e)) (set (bl_faults b))"
    and st: "store_block e (bl_header b) txs (bl_faults b) label t = (n, t')"
  shows "db_block e (h_hash (bl_header b)) t' = Inr (Some b)"
proof -
  let ?nc = "de_crypto e" and ?lb = "light_of e (bl_header b) txs (bl_faults b)"
  have "light_block_ok ?lb"
    using ok spent(1) arg_cong [OF spent(1), of length]
    by (auto simp: light_block_ok_def block_ok_def ledger_tx_id_length [OF laws] fault_id_length [OF laws])
  then have light: "db_light_block e (h_hash (bl_header b)) t' = Inr (Some ?lb)"
    using light_block.read_write [of ?lb "[]"]
    by (simp add: db_light_block_def store_block_columns(1) [OF laws st] read_blob_def)
  have txs: "read_all e LedgerTxsCf (spent_tx_read ?nc) (map (\<lambda>tx. ledger_tx_id e (sp_inner tx)) txs) t' =
      Inr (map stored_spent txs)"
    using store_block_entries(1) [OF laws st _ ids(1)] spent_reads_back [OF spent(2)]
    by (intro read_all_map) blast
  have "fault_read ?nc (fault_write f) = Inr (f, [])" if "f \<in> set (bl_faults b)" for f
    using that ok fault.read_write [of ?nc f "[]"] by (simp add: block_ok_def)
  then have "read_all e LedgerFaultsCf (fault_read ?nc) (map (fault_id ?nc) (bl_faults b)) t' =
      Inr (map id (bl_faults b))"
    using store_block_entries(2) [OF laws st _ ids(2)] by (intro read_all_map) auto
  moreover have "block_new ?nc (bl_header b) (bl_txs b) (bl_faults b) = b"
    using ok by (simp add: block_new_def calculate_hash_def block_ok_def)
  ultimately show ?thesis
    using spent(1) by (simp add: db_block_def light txs comp_def)
qed

text \<open>Storing a block whose hash, height, transactions and faults are new, and deleting it.\<close>

definition block_fresh ::
    "('mpk, 'msig, 's, 'it) db_env \<Rightarrow> header \<Rightarrow> spent_tx list \<Rightarrow> fault list \<Rightarrow> 's db_tx \<Rightarrow> bool" where
  "block_fresh e header txs faults t \<longleftrightarrow>
     tx_get_cf e LedgerHeaderCf (h_hash header) t = None \<and>
     tx_get_cf e LedgerHeightCf (to_le_bytes (h_height header)) t = None \<and>
     (\<forall>tx \<in> set txs. tx_get_cf e LedgerTxsCf (ledger_tx_id e (sp_inner tx)) t = None) \<and>
     (\<forall>f \<in> set faults. tx_get_cf e LedgerFaultsCf (fault_id (de_crypto e) f) t = None)"

lemma delete_block_columns:
  assumes "db_laws e"
  shows "tx_get_cf e c k (delete_block e b t) =
    (if c = LedgerHeightCf \<and> k = to_le_bytes (h_height (bl_header b)) \<or>
        c = LedgerTxsCf \<and> k \<in> ledger_tx_id e ` set (bl_txs b) \<or>
        c = LedgerFaultsCf \<and> k \<in> fault_id (de_crypto e) ` set (bl_faults b) \<or>
        c = LedgerHeaderCf \<and> k = h_hash (bl_header b)
     then None else tx_get_cf e c k t)"
  by (simp add: delete_block_def Let_def tx_get_delete [OF assms] tx_get_fold_delete [OF assms])

lemma store_block_other:
  assumes "db_laws e" and "store_block e header txs faults label t = (n, t')"
    and "c \<notin> {LedgerHeaderCf, LedgerHeightCf, LedgerTxsCf, LedgerFaultsCf, MetadataCf}"
  shows "tx_get_cf e c k t' = tx_get_cf e c k t"
  using assms(2,3)
  by (auto simp: store_block_def Let_def store_block_label_def op_write_def tx_get_put [OF assms(1)]
      tx_get_fold_put_other [OF assms(1)])

lemma store_then_delete:
  assumes laws: "db_laws e" and fresh: "block_fresh e (bl_header b) txs (bl_faults b) t"
    and txs: "bl_txs b = map sp_inner txs"
    and st: "store_block e (bl_header b) txs (bl_faults b) label t = (n, t')" and c: "c \<noteq> MetadataCf"
  shows "tx_get_cf e c k (delete_block e b t') = tx_get_cf e c k t"
proof -
  note columns = store_block_columns(1-4) [OF laws st]
  have ids: "ledger_tx_id e ` set (bl_txs b) = (\<lambda>tx. ledger_tx_id e (sp_inner tx)) ` set txs"
    by (simp add: txs image_image)
  show ?thesis
    using fresh c columns store_block_other [OF laws st, of c k]
    by (cases c) (auto simp: delete_block_columns [OF laws] block_fresh_def ids)
qed

text \<open>
  C25: Blocks survive storage, and a revert undoes it.  After \<open>store_block\<close>, the block is found by its hash and by its
  height, with its label, and it is the tip; \<open>delete_block\<close> leaves the ledger, the candidates and the mempool as they
  were before the block was stored, when its hash, height, transactions and faults were new.
\<close>

theorem stored_block_roundtrip:
  assumes "db_laws e" and "block_ok (de_crypto e) b"
    and "bl_txs b = map sp_inner txs" and "\<forall>tx \<in> set txs. spent_ok (de_crypto e) tx"
    and "inj_on (\<lambda>tx. ledger_tx_id e (sp_inner tx)) (set txs)" and "inj_on (fault_id (de_crypto e)) (set (bl_faults b))"
    and "store_block e (bl_header b) txs (bl_faults b) label t = (n, t')"
  shows "db_block e (h_hash (bl_header b)) t' = Inr (Some b) \<and>
         block_by_height e (h_height (bl_header b)) t' = Inr (Some b) \<and>
         block_label_by_height e (h_height (bl_header b)) t' = Inr (Some (h_hash (bl_header b), label)) \<and>
         op_read e MD_HASH_KEY t' = Some (h_hash (bl_header b)) \<and>
         (\<forall>tx \<in> set txs. db_ledger_tx e (ledger_tx_id e (sp_inner tx)) t' = Inr (Some (stored_spent tx))) \<and>
         (block_fresh e (bl_header b) txs (bl_faults b) t \<longrightarrow>
           (\<forall>c k. c \<noteq> MetadataCf \<longrightarrow> tx_get_cf e c k (delete_block e b t') = tx_get_cf e c k t))"
proof -
  have block: "db_block e (h_hash (bl_header b)) t' = Inr (Some b)"
    using assms by (intro stored_block_reads) auto
  have len: "length (h_hash (bl_header b)) = 32"
    using assms(2) by (simp add: block_ok_def header_ok_def)
  note columns = store_block_columns [OF assms(1,7)]
  have height: "block_hash_by_height e (h_height (bl_header b)) t' = Inr (Some (h_hash (bl_header b)))"
    by (simp add: block_hash_by_height_def columns len)
  have label: "block_label_by_height e (h_height (bl_header b)) t' = Inr (Some (h_hash (bl_header b), label))"
    using label.read_write [of label "[]"] by (simp add: block_label_by_height_def columns len read_blob_def)
  have "db_ledger_tx e (ledger_tx_id e (sp_inner tx)) t' = Inr (Some (stored_spent tx))" if "tx \<in> set txs" for tx
    using store_block_entries(1) [OF assms(1,7) that assms(5)] spent_reads_back [of "de_crypto e" tx] assms(4) that
    by (auto simp: db_ledger_tx_def read_blob_def)
  then show ?thesis
    using block height label columns(5) store_then_delete [OF assms(1) _ assms(3,7)]
    by (simp add: block_by_height_def)
qed

section \<open>A database in memory\<close>

type_synonym memory = "column \<Rightarrow> (bytes, bytes) btree_map"
type_synonym memory_iter = "(bytes \<times> bytes) list \<times> nat option"

definition at_index :: "(bytes \<times> bytes) list \<Rightarrow> nat \<Rightarrow> memory_iter" where
  "at_index es n = (es, if n < length es then Some n else None)"

definition rocksdb0 :: "(memory, memory_iter) rocksdb" where
  "rocksdb0 = \<lparr>
     db_get_cf = (\<lambda>c k s. bm_get (s c) k),
     db_put_cf = (\<lambda>c k v s. s(c := bm_insert k v (s c))),
     db_delete_cf = (\<lambda>c k s. s(c := bm_remove k (s c))),
     db_iterator_cf = (\<lambda>c s. bm_entries (s c)),
     db_raw_iterator_cf = (\<lambda>c s. (bm_entries (s c), None)),
     it_seek_to_first = (\<lambda>(es, _). at_index es 0),
     it_seek_to_last = (\<lambda>(es, _). at_index es (length es - 1)),
     it_next = (\<lambda>(es, i). case i of None \<Rightarrow> (es, None) | Some n \<Rightarrow> at_index es (Suc n)),
     it_prev = (\<lambda>(es, i). case i of Some (Suc n) \<Rightarrow> at_index es n | _ \<Rightarrow> (es, None)),
     it_valid = (\<lambda>(_, i). i \<noteq> None),
     it_key = (\<lambda>(es, i). map_option (\<lambda>n. fst (es ! n)) i),
     it_value = (\<lambda>(es, i). map_option (\<lambda>n. snd (es ! n)) i)\<rparr>"

lemma rocksdb0_next:
  "(it_next rocksdb0 ^^ n) (it_seek_to_first rocksdb0 (es, i)) = at_index es n"
  by (induction n) (auto simp: rocksdb0_def at_index_def)

lemma rocksdb0_prev:
  "(it_prev rocksdb0 ^^ n) (it_seek_to_last rocksdb0 (es, i)) =
     (if n < length es then at_index es (length es - 1 - n) else (es, None))"
proof (induction n)
  case (Suc n)
  show ?case
  proof (cases "n < length es")
    case True
    with Suc show ?thesis
      by (cases "length es - 1 - n") (auto simp: rocksdb0_def at_index_def Suc_diff_Suc)
  qed (use Suc in \<open>simp add: rocksdb0_def\<close>)
qed (simp add: rocksdb0_def at_index_def)

lemma rocksdb0_item: "n < length es \<Longrightarrow> it_item rocksdb0 (at_index es n) = Some (es ! n)"
  by (simp add: it_item_def rocksdb0_def at_index_def)

lemma rocksdb0_laws: "rocksdb_laws rocksdb0"
proof -
  have valid: "it_valid rocksdb0 (at_index es n) \<longleftrightarrow> n < length es" "\<not> it_valid rocksdb0 (es, None)" for es n
    by (simp_all add: rocksdb0_def at_index_def)
  have raw: "db_raw_iterator_cf rocksdb0 c s = (db_iterator_cf rocksdb0 c s, None)" for c s
    by (simp add: rocksdb0_def)
  show ?thesis
    unfolding rocksdb_laws_def Let_def
  proof (intro conjI allI)
    show "sorted_wrt (<) (map fst (db_iterator_cf rocksdb0 c s))" for c s
      using bm_entries_sorted [of "s c"] by (simp add: rocksdb0_def bm_keys_def)
    show "map_of (db_iterator_cf rocksdb0 c s) k = db_get_cf rocksdb0 c k s" for c s k
      by (simp add: rocksdb0_def bm_get_map_of)
  qed (auto simp: raw valid rocksdb0_next rocksdb0_prev rocksdb0_item rev_nth, simp_all add: rocksdb0_def)
qed

text \<open>An environment with it: the digests are the first bytes.\<close>

definition take32 :: "bytes \<Rightarrow> bytes" where
  "take32 bs = take 32 (bs @ replicate 32 0)"

definition wire32 :: wire where
  "wire32 = wire0\<lparr>w_scalar_to_bytes := (\<lambda>s. case s of BlsScalar x \<Rightarrow> to_le_bytes x @ replicate 24 0)\<rparr>"

definition crypto32 :: "(public_key list, bytes) node_crypto" where
  "crypto32 = crypto0\<lparr>nc_sha3 := take32, nc_wire := wire32\<rparr>"

definition db_env0 :: "(public_key list, bytes, memory, memory_iter) db_env" where
  "db_env0 = \<lparr>de_crypto = crypto32, de_hash_to_scalar = (\<lambda>bs. BlsScalar (ucast (hd (tl bs)))),
     de_rocksdb = rocksdb0, de_set_order = id\<rparr>"

definition empty_db :: memory where
  "empty_db = (\<lambda>_. bm_empty)"

lemma db_env0_laws: "db_laws db_env0"
  by (auto simp: db_laws_def db_env0_def rocksdb0_laws crypto32_def wire32_def take32_def min_def
      split: bls_scalar.splits)

lemma wire32_bytes:
  "tx_to_var_bytes wire32 phoenix_wire0 (Moonlight tx) = tx_to_var_bytes wire0 phoenix_wire0 (Moonlight tx)"
proof -
  have w: "w_u64_to_bytes wire32 = w_u64_to_bytes wire0" "w_pk_to_bytes wire32 = w_pk_to_bytes wire0"
      "w_sig_to_bytes wire32 = w_sig_to_bytes wire0" by (simp_all add: wire32_def)
  have l: "len_bytes wire32 = len_bytes wire0" by (simp add: len_bytes_def fun_eq_iff w)
  have d: "data_to_var_bytes wire32 = data_to_var_bytes wire0"
    by (simp only: data_to_var_bytes_def call_to_var_bytes_def deploy_to_var_bytes_def bytecode_to_var_bytes_def l w fun_eq_iff) simp
  show ?thesis
    by (simp only: tx_to_var_bytes_def mt_to_var_bytes_def payload_to_var_bytes_def w l d transaction.case)
qed

lemma ledger_tx0_ok32: "ledger_tx_ok crypto32 ledger_tx0"
proof -
  have laws: "wire_laws wire32" using wire0_laws by (simp add: wire_laws_def wire32_def)
  have short: "short (payload_to_var_bytes wire32 sample_payload)"
    by (simp add: short_def payload_to_var_bytes_def data_to_var_bytes_def call_to_var_bytes_def len_bytes_def
        wire32_def wire0_def sample_payload_def reserved_code)
  have "tx_from_slice wire32 phoenix_wire0 8 (tx_to_var_bytes wire32 phoenix_wire0 (Moonlight moonlight0)) =
      Inr (Moonlight moonlight0)"
    using sample_payload_wf short laws
    by (intro moonlight_tx_decodes) (simp_all add: moonlight0_def wire32_def wire0_def)
  moreover have "short32 (tx_to_var_bytes wire32 phoenix_wire0 (Moonlight moonlight0))"
    by (simp add: short32_def tx_to_var_bytes_def mt_to_var_bytes_def moonlight0_def payload_to_var_bytes_def
        data_to_var_bytes_def call_to_var_bytes_def len_bytes_def wire32_def wire0_def sample_payload_def reserved_code Let_def)
  ultimately show ?thesis
    by (simp add: ledger_tx_ok_def tx_decodes_def tx_data_def ledger_tx0_def ledger_tx_from_def crypto32_def crypto0_def
        wire32_bytes)
qed

lemma block0_ok32: "block_ok crypto32 block0"
  using sample_block_ok ledger_tx0_ok32
  by (simp add: block_ok_def block0_def crypto32_def fault_ok_def fault0_def fault_data_ok_def sign_info_ok_def)

theorem stored_block_roundtrip_witness:
  "db_block db_env0 (replicate 32 1)
     (snd (store_block db_env0 (bl_header block0) [spent0 None] [fault0] (Final 3) (begin_tx empty_db))) =
   Inr (Some block0)"
  using stored_block_roundtrip [of db_env0 block0 "[spent0 None]" "Final 3" "begin_tx empty_db"
      "fst (store_block db_env0 (bl_header block0) [spent0 None] [fault0] (Final 3) (begin_tx empty_db))"
      "snd (store_block db_env0 (bl_header block0) [spent0 None] [fault0] (Final 3) (begin_tx empty_db))"]
    db_env0_laws block0_ok32 ledger_tx0_ok32
  by (simp add: db_env0_def spent_ok_def spent0_def block0_def)

end
