(* ===== verification/Mempool_Index.thy ===== *)
theory Mempool_Index
  imports Mempool Store_Safety
begin

text \<open>
  The mempool of the database as a set of transactions.  The representation invariant \<open>mempool_ok\<close> says that the
  transactions are stored under their identifiers and that the two indexes are theirs; storing and deleting keep it and
  are the insertion and the removal of a set.
\<close>

section \<open>The set of transactions\<close>

text \<open>A transaction as it is read back has its size.\<close>

definition with_size :: "('mpk, 'msig, 's, 'it) db_env \<Rightarrow> ledger_tx \<Rightarrow> ledger_tx" where
  "with_size e tx = tx\<lparr>lt_size := Some (length (tx_data (de_crypto e) tx))\<rparr>"

lemma with_size_simps [simp]:
  "lt_inner (with_size e tx) = lt_inner tx"
  "ledger_tx_id e (with_size e tx) = ledger_tx_id e tx"
  "spend_keys e (with_size e tx) = spend_keys e tx"
  "fee_key e (with_size e tx) = fee_key e tx"
  "ledger_gas_price (with_size e tx) = ledger_gas_price tx"
  "next_spending_id (with_size e tx) = next_spending_id tx"
  by (simp_all add: with_size_def ledger_tx_id_def spend_keys_def to_spend_ids_def fee_key_def ledger_gas_price_def
      next_spending_id_def)

definition pool :: "('mpk, 'msig, 's, 'it) db_env \<Rightarrow> 's db_tx \<Rightarrow> ledger_tx set" where
  "pool e t = {tx. mempool_tx e (ledger_tx_id e tx) t = Inr (Some tx)}"

definition mempool_ok :: "('mpk, 'msig, 's, 'it) db_env \<Rightarrow> 's db_tx \<Rightarrow> bool" where
  "mempool_ok e t \<longleftrightarrow>
     (\<forall>h blob. tx_get_cf e MempoolCf h t = Some blob \<longrightarrow>
        (\<exists>tx \<in> pool e t. h = ledger_tx_id e tx \<and>
           (\<forall>k \<in> set (spend_keys e tx). tx_get_cf e MempoolSpendingIdCf k t = Some h) \<and>
           (\<exists>ts. tx_get_cf e MempoolFeesCf (fee_key e tx) t = Some (to_be_bytes64 ts)))) \<and>
     (\<forall>k h. tx_get_cf e MempoolSpendingIdCf k t = Some h \<longrightarrow>
        (\<exists>tx \<in> pool e t. h = ledger_tx_id e tx \<and> k \<in> set (spend_keys e tx))) \<and>
     (\<forall>k v. tx_get_cf e MempoolFeesCf k t = Some v \<longrightarrow> (\<exists>tx \<in> pool e t. k = fee_key e tx))"

lemma pool_eqI: "tx \<in> pool e t \<Longrightarrow> tx' \<in> pool e t \<Longrightarrow> ledger_tx_id e tx = ledger_tx_id e tx' \<Longrightarrow> tx = tx'"
  by (simp add: pool_def)

lemma pool_stored: "tx \<in> pool e t \<Longrightarrow> tx_get_cf e MempoolCf (ledger_tx_id e tx) t \<noteq> None"
  by (auto simp: pool_def mempool_tx_def split: option.splits)

lemma pool_cong:
  "(\<And>k. tx_get_cf e MempoolCf k t' = tx_get_cf e MempoolCf k t) \<Longrightarrow> pool e t' = pool e t"
  by (simp add: pool_def mempool_tx_def)

lemma mempool_ok_cong:
  assumes "\<And>c k. c \<in> {MempoolCf, MempoolSpendingIdCf, MempoolFeesCf} \<Longrightarrow> tx_get_cf e c k t' = tx_get_cf e c k t"
  shows "mempool_ok e t' = mempool_ok e t"
proof -
  have "pool e t' = pool e t" by (rule pool_cong) (simp add: assms)
  then show ?thesis by (simp add: mempool_ok_def assms)
qed

lemma mempool_okD:
  assumes "mempool_ok e t" and "tx \<in> pool e t"
  shows "k \<in> set (spend_keys e tx) \<Longrightarrow> tx_get_cf e MempoolSpendingIdCf k t = Some (ledger_tx_id e tx)"
    and "\<exists>ts. tx_get_cf e MempoolFeesCf (fee_key e tx) t = Some (to_be_bytes64 ts)"
proof -
  obtain blob where "tx_get_cf e MempoolCf (ledger_tx_id e tx) t = Some blob"
    using pool_stored [OF assms(2)] by auto
  then obtain tx' where "tx' \<in> pool e t" "ledger_tx_id e tx = ledger_tx_id e tx'"
      "\<forall>k \<in> set (spend_keys e tx'). tx_get_cf e MempoolSpendingIdCf k t = Some (ledger_tx_id e tx)"
      "\<exists>ts. tx_get_cf e MempoolFeesCf (fee_key e tx') t = Some (to_be_bytes64 ts)"
    using assms(1) unfolding mempool_ok_def by blast
  moreover from this have "tx' = tx" by (metis pool_eqI assms(2))
  ultimately show "k \<in> set (spend_keys e tx) \<Longrightarrow> tx_get_cf e MempoolSpendingIdCf k t = Some (ledger_tx_id e tx)"
    and "\<exists>ts. tx_get_cf e MempoolFeesCf (fee_key e tx) t = Some (to_be_bytes64 ts)" by auto
qed

lemma spending_owner:
  assumes "mempool_ok e t" and "tx_get_cf e MempoolSpendingIdCf k t = Some h"
  obtains tx where "tx \<in> pool e t" "h = ledger_tx_id e tx" "k \<in> set (spend_keys e tx)"
  using assms unfolding mempool_ok_def by blast

lemma fee_owner:
  assumes "mempool_ok e t" and "tx_get_cf e MempoolFeesCf k t = Some v"
  obtains tx where "tx \<in> pool e t" "k = fee_key e tx"
  using assms unfolding mempool_ok_def by blast

text \<open>No two transactions of the mempool spend the same.\<close>

lemma pool_no_conflict:
  assumes "mempool_ok e t" and "tx \<in> pool e t" and "tx' \<in> pool e t"
    and "k \<in> set (spend_keys e tx)" and "k \<in> set (spend_keys e tx')"
  shows "tx = tx'"
  using mempool_okD(1) [OF assms(1,2,4)] mempool_okD(1) [OF assms(1,3,5)] pool_eqI [OF assms(2,3)] by simp

lemma mempool_tx_cases:
  assumes "mempool_ok e t"
  obtains (absent) "mempool_tx e h t = Inr None" "\<And>tx. tx \<in> pool e t \<Longrightarrow> ledger_tx_id e tx \<noteq> h"
  | (present) tx where "mempool_tx e h t = Inr (Some tx)" "tx \<in> pool e t" "h = ledger_tx_id e tx"
proof (cases "tx_get_cf e MempoolCf h t")
  case None
  then have "ledger_tx_id e tx \<noteq> h" if "tx \<in> pool e t" for tx using pool_stored [OF that] by auto
  with None show ?thesis by (intro absent) (simp_all add: mempool_tx_def)
next
  case (Some blob)
  then obtain tx where "tx \<in> pool e t" "h = ledger_tx_id e tx" using assms unfolding mempool_ok_def by blast
  then show ?thesis by (intro present) (simp_all add: pool_def)
qed

lemma fee_key_inj: "fee_key e tx = fee_key e tx' \<Longrightarrow> ledger_tx_id e tx = ledger_tx_id e tx'"
  by (simp add: fee_key_def serialize_key_def to_be_bytes64_def)

section \<open>Storing\<close>

lemma store_mempool_columns:
  assumes "db_laws e"
  shows "tx_get_cf e MempoolCf k (store_mempool_tx e tx ts t) =
           (if k = ledger_tx_id e tx then Some (ledger_tx_write (de_crypto e) tx) else tx_get_cf e MempoolCf k t)"
    and "tx_get_cf e MempoolSpendingIdCf k (store_mempool_tx e tx ts t) =
           (if k \<in> set (spend_keys e tx) then Some (ledger_tx_id e tx) else tx_get_cf e MempoolSpendingIdCf k t)"
    and "tx_get_cf e MempoolFeesCf k (store_mempool_tx e tx ts t) =
           (if k = fee_key e tx then Some (to_be_bytes64 ts) else tx_get_cf e MempoolFeesCf k t)"
    and "c \<notin> {MempoolCf, MempoolSpendingIdCf, MempoolFeesCf} \<Longrightarrow>
           tx_get_cf e c k (store_mempool_tx e tx ts t) = tx_get_cf e c k t"
proof -
  have put: "tx_get_cf e c' k' (fold (\<lambda>key. tx_put_cf e MempoolSpendingIdCf key h) keys t) =
      (if c' = MempoolSpendingIdCf \<and> k' \<in> set keys then Some h else tx_get_cf e c' k' t)" for c' k' keys h and t
    by (induction keys arbitrary: t) (auto simp: tx_get_put [OF assms])
  show "tx_get_cf e MempoolCf k (store_mempool_tx e tx ts t) =
           (if k = ledger_tx_id e tx then Some (ledger_tx_write (de_crypto e) tx) else tx_get_cf e MempoolCf k t)"
    and "tx_get_cf e MempoolSpendingIdCf k (store_mempool_tx e tx ts t) =
           (if k \<in> set (spend_keys e tx) then Some (ledger_tx_id e tx) else tx_get_cf e MempoolSpendingIdCf k t)"
    and "tx_get_cf e MempoolFeesCf k (store_mempool_tx e tx ts t) =
           (if k = fee_key e tx then Some (to_be_bytes64 ts) else tx_get_cf e MempoolFeesCf k t)"
    and "c \<notin> {MempoolCf, MempoolSpendingIdCf, MempoolFeesCf} \<Longrightarrow>
           tx_get_cf e c k (store_mempool_tx e tx ts t) = tx_get_cf e c k t"
    by (auto simp: store_mempool_tx_def Let_def tx_get_put [OF assms] put)
qed

lemma store_pool:
  assumes "db_laws e" and "tx_decodes (de_crypto e) tx" and "tx_get_cf e MempoolCf (ledger_tx_id e tx) t = None"
  shows "pool e (store_mempool_tx e tx ts t) = insert (with_size e tx) (pool e t)"
proof -
  have new: "mempool_tx e (ledger_tx_id e tx) (store_mempool_tx e tx ts t) = Inr (Some (with_size e tx))"
    using ledger_tx_read_write [OF assms(2), of "[]"]
    by (simp add: mempool_tx_def store_mempool_columns [OF assms(1)] read_blob_def with_size_def)
  have old: "mempool_tx e h (store_mempool_tx e tx ts t) = mempool_tx e h t" if "h \<noteq> ledger_tx_id e tx" for h
    using that by (simp add: mempool_tx_def store_mempool_columns [OF assms(1)])
  have "x \<in> pool e (store_mempool_tx e tx ts t) \<longleftrightarrow> x = with_size e tx \<or> x \<in> pool e t" for x
  proof (cases "ledger_tx_id e x = ledger_tx_id e tx")
    case True
    with assms(3) have "x \<notin> pool e t" using pool_stored by fastforce
    with True new show ?thesis by (auto simp: pool_def)
  next
    case False
    with old [OF False] show ?thesis by (auto simp: pool_def)
  qed
  then show ?thesis by blast
qed

lemma store_mempool_ok:
  assumes laws: "db_laws e" and ok: "mempool_ok e t" and dec: "tx_decodes (de_crypto e) tx"
    and new: "tx_get_cf e MempoolCf (ledger_tx_id e tx) t = None"
    and free: "\<And>k. k \<in> set (spend_keys e tx) \<Longrightarrow> tx_get_cf e MempoolSpendingIdCf k t = None"
  shows "mempool_ok e (store_mempool_tx e tx ts t)"
proof -
  note columns = store_mempool_columns [OF laws] and pool = store_pool [OF laws dec new, of ts]
  have with_size: "with_size e tx \<in> pool e (store_mempool_tx e tx ts t)" by (simp add: pool)
  have keep: "x \<in> pool e (store_mempool_tx e tx ts t)" if "x \<in> pool e t" for x using that by (simp add: pool)
  show ?thesis
    unfolding mempool_ok_def
  proof (intro conjI allI impI, goal_cases)
    case (1 h blob)
    show ?case
    proof (cases "h = ledger_tx_id e tx")
      case True
      with with_size show ?thesis by (intro bexI [of _ "with_size e tx"]) (auto simp: columns)
    next
      case False
      with 1 have "tx_get_cf e MempoolCf h t = Some blob" by (simp add: columns)
      then obtain x where x: "x \<in> pool e t" "h = ledger_tx_id e x" using ok unfolding mempool_ok_def by blast
      obtain ts' where "tx_get_cf e MempoolFeesCf (fee_key e x) t = Some (to_be_bytes64 ts')"
        using mempool_okD(2) [OF ok x(1)] by auto
      moreover have "fee_key e x \<noteq> fee_key e tx" using False x(2) fee_key_inj by blast
      moreover have "k \<notin> set (spend_keys e tx)" if "k \<in> set (spend_keys e x)" for k
        using mempool_okD(1) [OF ok x(1) that] free [of k] by auto
      ultimately show ?thesis
        using x keep [OF x(1)] mempool_okD(1) [OF ok x(1)] by (intro bexI [of _ x]) (auto simp: columns)
    qed
  next
    case (2 k h)
    show ?case
    proof (cases "k \<in> set (spend_keys e tx)")
      case True
      with 2 with_size show ?thesis by (intro bexI [of _ "with_size e tx"]) (simp_all add: columns)
    next
      case False
      with 2 have "tx_get_cf e MempoolSpendingIdCf k t = Some h" by (simp add: columns)
      with ok show ?thesis by (rule spending_owner) (blast intro: keep)
    qed
  next
    case (3 k v)
    show ?case
    proof (cases "k = fee_key e tx")
      case True
      with with_size show ?thesis by (intro bexI [of _ "with_size e tx"]) simp_all
    next
      case False
      with 3 have "tx_get_cf e MempoolFeesCf k t = Some v" by (simp add: columns)
      with ok show ?thesis by (rule fee_owner) (blast intro: keep)
    qed
  qed
qed

section \<open>Deleting\<close>

definition dropped :: "('mpk, 'msig, 's, 'it) db_env \<Rightarrow> ledger_tx \<Rightarrow> 's db_tx \<Rightarrow> 's db_tx" where
  "dropped e tx t =
     inner_delete_cf e MempoolFeesCf (fee_key e tx)
       (fold (inner_delete_cf e MempoolSpendingIdCf) (spend_keys e tx)
          (inner_delete_cf e MempoolCf (ledger_tx_id e tx) t))"

lemma dropped_columns:
  assumes "db_laws e"
  shows "tx_get_cf e c k (dropped e tx t) =
    (if c = MempoolCf \<and> k = ledger_tx_id e tx \<or> c = MempoolSpendingIdCf \<and> k \<in> set (spend_keys e tx) \<or>
        c = MempoolFeesCf \<and> k = fee_key e tx
     then None else tx_get_cf e c k t)"
  using tx_get_fold_delete [OF assms, where f = "\<lambda>x. x"]
  by (auto simp: dropped_def tx_get_delete [OF assms])

lemma dropped_pool:
  assumes "db_laws e" and "tx \<in> pool e t"
  shows "pool e (dropped e tx t) = pool e t - {tx}"
proof -
  have "mempool_tx e h (dropped e tx t) = (if h = ledger_tx_id e tx then Inr None else mempool_tx e h t)" for h
    by (simp add: mempool_tx_def dropped_columns [OF assms(1)])
  then have "x \<in> pool e (dropped e tx t) \<longleftrightarrow> x \<in> pool e t \<and> ledger_tx_id e x \<noteq> ledger_tx_id e tx" for x
    by (simp add: pool_def)
  then show ?thesis using pool_eqI [OF _ assms(2)] by blast
qed

lemma dropped_ok:
  assumes laws: "db_laws e" and ok: "mempool_ok e t" and tx: "tx \<in> pool e t"
  shows "mempool_ok e (dropped e tx t)"
proof -
  note columns = dropped_columns [OF laws] and pool = dropped_pool [OF laws tx]
  have apart: "k \<notin> set (spend_keys e tx)" "fee_key e x \<noteq> fee_key e tx" "ledger_tx_id e x \<noteq> ledger_tx_id e tx"
    if "x \<in> pool e t" "x \<noteq> tx" "k \<in> set (spend_keys e x)" for x k
    using pool_no_conflict [OF ok that(1) tx that(3)] pool_eqI [OF that(1) tx] fee_key_inj [of e x tx] that by auto
  have apart2: "fee_key e x \<noteq> fee_key e tx" if "x \<in> pool e t" "x \<noteq> tx" for x
    using pool_eqI [OF that(1) tx] fee_key_inj [of e x tx] that by auto
  show ?thesis
    unfolding mempool_ok_def pool
  proof (intro conjI allI impI, goal_cases)
    case (1 h blob)
    then have h: "h \<noteq> ledger_tx_id e tx" "tx_get_cf e MempoolCf h t = Some blob" by (auto simp: columns split: if_splits)
    then obtain x where x: "x \<in> pool e t" "h = ledger_tx_id e x" using ok unfolding mempool_ok_def by blast
    with h(1) have "x \<noteq> tx" by auto
    with x show ?case
      using mempool_okD [OF ok x(1)] apart(1) [OF x(1)] apart2 [OF x(1)]
      by (intro bexI [of _ x]) (auto simp: columns)
  next
    case (2 k h)
    then have "k \<notin> set (spend_keys e tx)" "tx_get_cf e MempoolSpendingIdCf k t = Some h"
      by (auto simp: columns split: if_splits)
    with ok show ?case by (elim spending_owner) auto
  next
    case (3 k v)
    then have "k \<noteq> fee_key e tx" "tx_get_cf e MempoolFeesCf k t = Some v" by (auto simp: columns split: if_splits)
    with ok show ?case by (elim fee_owner) auto
  qed
qed

lemma drop_mempool_tx_cases:
  assumes "db_laws e" and "mempool_ok e t"
  obtains (absent) "drop_mempool_tx e h t = (Inr None, t)" "\<And>tx. tx \<in> pool e t \<Longrightarrow> ledger_tx_id e tx \<noteq> h"
  | (present) tx where "drop_mempool_tx e h t = (Inr (Some tx), dropped e tx t)" "tx \<in> pool e t" "h = ledger_tx_id e tx"
  using mempool_tx_cases [OF assms(2), of h]
  by (cases) (auto simp: drop_mempool_tx_def dropped_def Let_def intro: that)

text \<open>A change that removes the transactions with some identifiers and nothing else.\<close>

definition pool_ids :: "('mpk, 'msig, 's, 'it) db_env \<Rightarrow> 's db_tx \<Rightarrow> hash set" where
  "pool_ids e t = ledger_tx_id e ` pool e t"

abbreviation without :: "('mpk, 'msig, 's, 'it) db_env \<Rightarrow> hash set \<Rightarrow> ledger_tx set \<Rightarrow> ledger_tx set" where
  "without e hs txs \<equiv> {tx \<in> txs. ledger_tx_id e tx \<notin> hs}"

definition removes :: "('mpk, 'msig, 's, 'it) db_env \<Rightarrow> hash set \<Rightarrow> 's db_tx \<Rightarrow> 's db_tx \<Rightarrow> bool" where
  "removes e hs t t' \<longleftrightarrow>
     mempool_ok e t' \<and> pool e t' = without e hs (pool e t) \<and>
     (\<forall>c k. tx_get_cf e c k t' = tx_get_cf e c k t \<or>
            c \<in> {MempoolCf, MempoolSpendingIdCf, MempoolFeesCf} \<and> tx_get_cf e c k t' = None)"

lemma removes_refl: "mempool_ok e t \<Longrightarrow> pool_ids e t \<inter> hs = {} \<Longrightarrow> removes e hs t t"
  by (auto simp: removes_def pool_ids_def)

lemma removes_trans:
  assumes "removes e hs t t'" and "removes e hs' t' t''"
  shows "removes e (hs \<union> hs') t t''"
proof -
  have "tx_get_cf e c k t'' = tx_get_cf e c k t \<or>
      c \<in> {MempoolCf, MempoolSpendingIdCf, MempoolFeesCf} \<and> tx_get_cf e c k t'' = None" for c k
    using assms unfolding removes_def by metis
  moreover have "pool e t'' = without e (hs \<union> hs') (pool e t)"
    using assms by (auto simp: removes_def)
  ultimately show ?thesis using assms by (simp add: removes_def)
qed

lemma removes_ids: "removes e hs t t' \<Longrightarrow> pool_ids e t' = pool_ids e t - hs"
  by (auto simp: removes_def pool_ids_def)

lemma removes_ok: "removes e hs t t' \<Longrightarrow> mempool_ok e t'"
  by (simp add: removes_def)

lemma removes_dropped:
  assumes "db_laws e" and "mempool_ok e t" and "tx \<in> pool e t"
  shows "removes e {ledger_tx_id e tx} t (dropped e tx t)"
proof -
  have "pool e t - {tx} = without e {ledger_tx_id e tx} (pool e t)"
    using pool_eqI [OF _ assms(3)] by blast
  then show ?thesis
    using assms by (simp add: removes_def dropped_ok dropped_pool dropped_columns)
qed

lemma delete_single_spec:
  assumes "db_laws e" and "mempool_ok e t"
  shows "\<exists>t'. delete_single e h t = (Inr (if h \<in> pool_ids e t then [h] else []), t') \<and> removes e {h} t t'"
  using assms
proof (cases rule: drop_mempool_tx_cases [where h = h])
  case absent
  then have "h \<notin> pool_ids e t" by (auto simp: pool_ids_def)
  with absent removes_refl [OF assms(2)] show ?thesis by (simp add: delete_single_def)
next
  case (present tx)
  then have "h \<in> pool_ids e t" by (auto simp: pool_ids_def)
  with present removes_dropped [OF assms] show ?thesis by (simp add: delete_single_def)
qed

lemma delete_each_spec:
  assumes "db_laws e" and "mempool_ok e t"
  shows "\<exists>ds t'. delete_each e hs deleted t = (Inr (deleted @ ds), t') \<and> set ds = set hs \<inter> pool_ids e t \<and>
           removes e (set hs) t t'"
  using assms(2)
proof (induction hs arbitrary: deleted t)
  case Nil
  then show ?case by (simp add: removes_refl)
next
  case (Cons h hs)
  obtain t1 where t1: "delete_single e h t = (Inr (if h \<in> pool_ids e t then [h] else []), t1)" "removes e {h} t t1"
    using delete_single_spec [OF assms(1) Cons.prems] by blast
  obtain ds t2 where t2: "delete_each e hs (deleted @ (if h \<in> pool_ids e t then [h] else [])) t1 =
      (Inr ((deleted @ (if h \<in> pool_ids e t then [h] else [])) @ ds), t2)"
      "set ds = set hs \<inter> pool_ids e t1" "removes e (set hs) t1 t2"
    using Cons.IH [OF removes_ok [OF t1(2)]] by blast
  have "removes e (set (h # hs)) t t2" using removes_trans [OF t1(2) t2(3)] by simp
  moreover have "set ((if h \<in> pool_ids e t then [h] else []) @ ds) = set (h # hs) \<inter> pool_ids e t"
    using t2(2) removes_ids [OF t1(2)] by auto
  ultimately show ?case
    using t1 t2
    by (intro exI [of _ "(if h \<in> pool_ids e t then [h] else []) @ ds"] exI [of _ t2]) auto
qed

section \<open>Transactions that depend on each other\<close>

lemma spending_index_length:
  assumes "db_laws e" and "mempool_ok e t" and "tx_get_cf e MempoolSpendingIdCf k t = Some h"
  shows "length h = 32"
  using assms(2,3) by (rule spending_owner) (simp add: ledger_tx_id_length [OF assms(1)])

lemma lookup_spending_id_get:
  assumes "db_laws e" and "mempool_ok e t"
  shows "lookup_spending_id e t i = tx_get_cf e MempoolSpendingIdCf (spending_id_to_bytes (nc_wire (de_crypto e)) i) t"
  by (auto simp: lookup_spending_id_def spending_index_length [OF assms] split: option.splits)

lemma by_spendable_ids_set:
  assumes "db_laws e" and "mempool_ok e t"
  shows "set (mempool_txs_by_spendable_ids e ids t) =
    {h. \<exists>i \<in> set ids. tx_get_cf e MempoolSpendingIdCf (spending_id_to_bytes (nc_wire (de_crypto e)) i) t = Some h}"
proof -
  have "set (de_set_order e (remdups xs)) = set xs" for xs
    using assms(1) by (simp add: db_laws_def)
  then show ?thesis
    by (auto simp: mempool_txs_by_spendable_ids_def map_filter_def lookup_spending_id_get [OF assms] image_iff) force
qed

lemma by_spendable_ids_pool:
  assumes "db_laws e" and "mempool_ok e t" and "h \<in> set (mempool_txs_by_spendable_ids e ids t)"
  shows "h \<in> pool_ids e t"
  using assms(3) assms(2) by (auto simp: by_spendable_ids_set [OF assms(1,2)] pool_ids_def elim!: spending_owner)

text \<open>The index of what is spent has fewer entries than there are nonces.\<close>

definition index_small :: "('mpk, 'msig, 's, 'it) db_env \<Rightarrow> 's db_tx \<Rightarrow> bool" where
  "index_small e t \<longleftrightarrow> length (tx_iterator_cf e MempoolSpendingIdCf t) < 2 ^ 64"

lemma iterator_keys:
  "db_laws e \<Longrightarrow> fst ` set (tx_iterator_cf e c t) = {k. tx_get_cf e c k t \<noteq> None}"
  by (simp add: dom_map_of_conv_image_fst [symmetric] dom_def tx_iterator_entries(2))

lemma iterator_length:
  assumes "db_laws e"
  shows "length (tx_iterator_cf e c t) = card {k. tx_get_cf e c k t \<noteq> None}"
  using distinct_card [OF tx_iterator_entries(3) [OF assms, of c t]] iterator_keys [OF assms, of c t] by simp

lemma finite_column: "db_laws e \<Longrightarrow> finite {k. tx_get_cf e c k t \<noteq> None}"
  by (metis iterator_keys finite_imageI finite_set)

lemma removes_small:
  assumes "db_laws e" and "removes e hs t t'" and "index_small e t"
  shows "index_small e t'"
proof -
  have "{k. tx_get_cf e MempoolSpendingIdCf k t' \<noteq> None} \<subseteq> {k. tx_get_cf e MempoolSpendingIdCf k t \<noteq> None}"
    using assms(2) unfolding removes_def by (metis (mono_tags, lifting) Collect_mono)
  then show ?thesis
    using assms(3) card_mono [OF finite_column [OF assms(1)]]
    unfolding index_small_def iterator_length [OF assms(1)] by (meson le_less_trans)
qed

abbreviation nonce_key :: "('mpk, 'msig, 's, 'it) db_env \<Rightarrow> bls_public_key \<Rightarrow> u64 \<Rightarrow> bytes" where
  "nonce_key e acct nonce \<equiv> spending_id_to_bytes (nc_wire (de_crypto e)) (AccountNonceId acct nonce)"

lemma len64_eq: "LENGTH(64) = 64"
  by simp

lemma nonce_key_inj:
  assumes "nonce_key e acct n = nonce_key e acct m"
  shows "n = m"
proof -
  have "to_le_bytes n = to_le_bytes m" using assms by (simp add: spending_id_to_bytes_def)
  then have "(from_le_bytes (to_le_bytes n) :: u64) = from_le_bytes (to_le_bytes m)" by (rule arg_cong)
  then show ?thesis by (subst (asm) (1 2) from_to_le_bytes [where n = 8]) simp_all
qed

lemma nonce_gap:
  assumes "db_laws e" and "index_small e t"
  shows "\<exists>i. tx_get_cf e MempoolSpendingIdCf (nonce_key e acct (nonce + of_nat i)) t = None"
proof (rule ccontr)
  assume all: "\<not> ?thesis"
  have "nonce_key e acct n \<in> {k. tx_get_cf e MempoolSpendingIdCf k t \<noteq> None}" for n
  proof -
    have n: "nonce + of_nat (unat (n - nonce)) = n" by simp
    from all have "\<forall>i. tx_get_cf e MempoolSpendingIdCf (nonce_key e acct (nonce + of_nat i)) t \<noteq> None"
      by simp
    then have "tx_get_cf e MempoolSpendingIdCf (nonce_key e acct (nonce + of_nat (unat (n - nonce)))) t \<noteq> None"
      by (rule spec)
    then show ?thesis unfolding n by (rule CollectI)
  qed
  then have "range (nonce_key e acct) \<subseteq> {k. tx_get_cf e MempoolSpendingIdCf k t \<noteq> None}" by blast
  then have "card (range (nonce_key e acct)) \<le> length (tx_iterator_cf e MempoolSpendingIdCf t)"
    unfolding iterator_length [OF assms(1)] by (intro card_mono finite_column [OF assms(1)])
  moreover have "inj (nonce_key e acct)" by (rule injI) (rule nonce_key_inj)
  then have "card (range (nonce_key e acct)) = card (UNIV :: u64 set)" by (rule card_image)
  then have "card (range (nonce_key e acct)) = 2 ^ 64" by (simp only: card_word len64_eq)
  ultimately show False using assms(2) unfolding index_small_def by linarith
qed

lemma dependants_return:
  assumes "db_laws e" and "mempool_ok e t"
    and "tx_get_cf e MempoolSpendingIdCf (nonce_key e acct (nonce + of_nat i)) t = None"
  shows "\<exists>hs. mempool_dependants e (Some (AccountNonceId acct nonce)) ds t = Some (ds @ hs) \<and> set hs \<subseteq> pool_ids e t"
  using assms(3)
proof (induction i arbitrary: nonce ds)
  case 0
  then have "set (mempool_txs_by_spendable_ids e [AccountNonceId acct nonce] t) = {}"
    by (simp add: by_spendable_ids_set [OF assms(1,2)])
  then show ?case by (subst mempool_dependants.simps) simp
next
  case (Suc i)
  let ?next = "mempool_txs_by_spendable_ids e [AccountNonceId acct nonce] t"
  show ?case
  proof (cases "?next = []")
    case True
    then show ?thesis by (subst mempool_dependants.simps) simp
  next
    case False
    have "nonce + of_nat (Suc i) = (nonce + 1) + of_nat i" by simp
    with Suc.prems obtain hs where "mempool_dependants e (Some (AccountNonceId acct (nonce + 1))) (ds @ ?next) t =
        Some ((ds @ ?next) @ hs)" "set hs \<subseteq> pool_ids e t"
      using Suc.IH [of "nonce + 1" "ds @ ?next"] by metis
    moreover have "set ?next \<subseteq> pool_ids e t" using by_spendable_ids_pool [OF assms(1,2)] by blast
    ultimately show ?thesis
      using False by (subst mempool_dependants.simps) (auto simp: Let_def spending_id_next_def)
  qed
qed

lemma delete_mempool_tx_spec:
  assumes "db_laws e" and "mempool_ok e t" and "cascade \<Longrightarrow> index_small e t"
  shows "\<exists>ds hs t'. delete_mempool_tx e h cascade t = Some (Inr ds, t') \<and> removes e hs t t' \<and> h \<in> hs \<and>
           set ds = hs \<inter> pool_ids e t \<and> (\<not> cascade \<longrightarrow> hs = {h})"
  using assms(1,2)
proof (cases rule: drop_mempool_tx_cases [where h = h])
  case absent
  then have "h \<notin> pool_ids e t" by (auto simp: pool_ids_def)
  with absent removes_refl [OF assms(2), of "{h}"] show ?thesis
    by (intro exI [of _ "[]"] exI [of _ "{h}"]) (simp add: delete_mempool_tx_def)
next
  case (present tx)
  then have h: "h \<in> pool_ids e t" by (auto simp: pool_ids_def)
  have rm: "removes e {h} t (dropped e tx t)" using removes_dropped [OF assms(1,2) present(2)] present(3) by simp
  show ?thesis
  proof (cases cascade)
    case False
    with h rm show ?thesis
      by (intro exI [of _ "[h]"] exI [of _ "{h}"] exI [of _ "dropped e tx t"]) (simp add: delete_mempool_tx_def present(1))
  next
    case True
    have ok: "mempool_ok e (dropped e tx t)" and small: "index_small e (dropped e tx t)"
      using removes_ok [OF rm] removes_small [OF assms(1) rm assms(3) [OF True]] by simp_all
    obtain hs where hs: "mempool_dependants e (next_spending_id tx) [] (dropped e tx t) = Some hs"
    proof (cases "lt_inner tx")
      case (Phoenix p)
      then show ?thesis by (intro that [of "[]"], subst mempool_dependants.simps) (simp add: next_spending_id_def)
    next
      case (Moonlight m)
      obtain i where "tx_get_cf e MempoolSpendingIdCf (nonce_key e (mt_sender m) (mt_nonce m + 1 + of_nat i)) (dropped e tx t) = None"
        using nonce_gap [OF assms(1) small] by blast
      from dependants_return [OF assms(1) ok this, of "[]"] show ?thesis
        using Moonlight that by (auto simp: next_spending_id_def)
    qed
    obtain ds t' where t': "delete_each e hs [h] (dropped e tx t) = (Inr ([h] @ ds), t')"
        "set ds = set hs \<inter> pool_ids e (dropped e tx t)" "removes e (set hs) (dropped e tx t) t'"
      using delete_each_spec [OF assms(1) ok] by blast
    have "set ([h] @ ds) = ({h} \<union> set hs) \<inter> pool_ids e t" using t'(2) h removes_ids [OF rm] by auto
    with True hs t' removes_trans [OF rm t'(3)] show ?thesis
      by (intro exI [of _ "[h] @ ds"] exI [of _ "{h} \<union> set hs"] exI [of _ t']) (simp add: delete_mempool_tx_def present(1))
  qed
qed

lemma delete_logged_spec:
  assumes "db_laws e" and "mempool_ok e t" and "cascade \<Longrightarrow> index_small e t"
  shows "\<exists>ds hs' t'. delete_logged e cascade hs t = Some (ds, t') \<and> removes e hs' t t' \<and> set hs \<subseteq> hs' \<and>
           (\<not> cascade \<longrightarrow> hs' = set hs)"
  using assms(2,3)
proof (induction hs arbitrary: t)
  case Nil
  then show ?case by (auto intro: exI [of _ "{}"] removes_refl)
next
  case (Cons h hs)
  obtain ds1 hs1 t1 where t1: "delete_mempool_tx e h cascade t = Some (Inr ds1, t1)" "removes e hs1 t t1" "h \<in> hs1"
      "\<not> cascade \<longrightarrow> hs1 = {h}"
    using delete_mempool_tx_spec [OF assms(1) Cons.prems] by blast
  obtain ds2 hs2 t2 where t2: "delete_logged e cascade hs t1 = Some (ds2, t2)" "removes e hs2 t1 t2" "set hs \<subseteq> hs2"
      "\<not> cascade \<longrightarrow> hs2 = set hs"
    using Cons.IH [OF removes_ok [OF t1(2)] removes_small [OF assms(1) t1(2) Cons.prems(2)]] by blast
  show ?case
    using t1 t2 removes_trans [OF t1(2) t2(2)]
    by (intro exI [of _ "ds1 @ ds2"] exI [of _ "hs1 \<union> hs2"] exI [of _ t2]) auto
qed

end
