(* ===== verification/Mempool_Fees.thy ===== *)
theory Mempool_Fees
  imports Mempool_Index
begin

text \<open>
  The order of the mempool.  The index by fee has big-endian prices in its keys, so the order of the bytes is the order
  of the prices, and the iterator over it gives every transaction once, those that pay most first.  The iterator that
  should start with the lowest fee gives nothing.
\<close>

section \<open>Big-endian keys\<close>

lemma le_value_append: "le_value (xs @ ys) = le_value xs + 256 ^ length xs * le_value ys"
  by (induction xs) (simp_all add: algebra_simps)

lemma list_less_decomp:
  fixes xs ys :: bytes
  assumes "xs < ys" and "length xs = length ys"
  obtains us a b xs' ys' where "xs = us @ a # xs'" "ys = us @ b # ys'" "a < b"
  using assms unfolding list_less_def lexord_def by auto

lemma be_value_less:
  assumes "length xs = length ys" and "a < b"
  shows "le_value (rev (us @ a # xs)) < le_value (rev (us @ b # ys))"
proof -
  define n where "n = (256 :: nat) ^ length xs"
  have split: "le_value (rev (us @ c # zs)) = le_value (rev zs) + (n * unat c + n * (256 * le_value (rev us)))"
    if "length zs = length xs" for c zs
    using that by (simp add: le_value_append n_def distrib_left)
  have "le_value (rev xs) < n" using le_value_bound [of "rev xs"] by (simp add: n_def)
  moreover have "unat a + 1 \<le> unat b" using assms(2) by (simp add: word_less_nat_alt)
  then have "n * unat a + n \<le> n * unat b" by (metis add_mult_distrib2 mult.right_neutral mult_le_mono2)
  ultimately have "le_value (rev xs) + n * unat a < le_value (rev ys) + n * unat b" by linarith
  then show ?thesis using split [of xs a] split [of ys b] assms(1) by simp
qed

lemma key_order:
  assumes "serialize_key p h < serialize_key q g" and "length h = length g"
  shows "p \<le> q"
proof -
  obtain us a b xs ys where d: "serialize_key p h = us @ a # xs" "serialize_key q g = us @ b # ys" "a < b"
    using assms by (elim list_less_decomp) (simp_all add: serialize_key_def to_be_bytes64_def)
  have len: "length (to_be_bytes64 p) = 8" "length (to_be_bytes64 q) = 8" by (simp_all add: to_be_bytes64_def)
  then have take: "to_be_bytes64 p = take 8 (us @ a # xs)" "to_be_bytes64 q = take 8 (us @ b # ys)"
    by (simp_all add: d(1,2) [symmetric] serialize_key_def)
  have val: "unat v = le_value (rev (to_be_bytes64 v))" for v
    using unsigned_less [of v, where 'a = nat] by (simp add: to_be_bytes64_def to_le_bytes_def le_value_le_bytes)
  show ?thesis
  proof (cases "length us \<ge> 8")
    case True
    with take have "to_be_bytes64 p = to_be_bytes64 q" by simp
    then have "unat p = unat q" by (simp add: val)
    then show ?thesis by (simp add: word_le_nat_alt)
  next
    case False
    define k where "k = 8 - Suc (length us)"
    have t: "to_be_bytes64 p = us @ a # take k xs" "to_be_bytes64 q = us @ b # take k ys"
      using take False by (simp_all add: k_def take_Cons')
    moreover from t len have "length (take k xs) = length (take k ys)" by simp
    ultimately have "unat p < unat q" unfolding val using d(3) by (simp only: be_value_less)
    then show ?thesis by (simp add: word_le_nat_alt)
  qed
qed

section \<open>The iterator\<close>

abbreviation fee_cursor :: "('mpk, 'msig, 's, 'it) db_env \<Rightarrow> 's db_tx \<Rightarrow> nat \<Rightarrow> 'it" where
  "fee_cursor e t n \<equiv> (it_prev (de_rocksdb e) ^^ n)
     (it_seek_to_last (de_rocksdb e) (db_raw_iterator_cf (de_rocksdb e) MempoolFeesCf (tx_inner t)))"

lemma fee_cursor_item:
  fixes e :: "('mpk, 'msig, 's, 'it) db_env" and t :: "'s db_tx"
  assumes "db_laws e"
  defines "es \<equiv> rev (tx_iterator_cf e MempoolFeesCf t)"
  shows "it_valid (de_rocksdb e) (fee_cursor e t n) \<longleftrightarrow> n < length es"
    and "n < length es \<Longrightarrow> it_key (de_rocksdb e) (fee_cursor e t n) = Some (fst (es ! n))"
proof -
  have "it_valid (de_rocksdb e) (fee_cursor e t n) = (n < length es) \<and>
      (n < length es \<longrightarrow> it_item (de_rocksdb e) (fee_cursor e t n) = Some (es ! n))"
    using assms(1) unfolding db_laws_def rocksdb_laws_def es_def tx_iterator_cf_def Let_def by blast
  then show "it_valid (de_rocksdb e) (fee_cursor e t n) \<longleftrightarrow> n < length es"
    and "n < length es \<Longrightarrow> it_key (de_rocksdb e) (fee_cursor e t n) = Some (fst (es ! n))"
    by (auto simp: it_item_def split: option.splits if_splits) (metis fst_conv)
qed

text \<open>The transactions behind the entries of the index.\<close>

lemma fee_entries:
  assumes "db_laws e" and "mempool_ok e t"
  obtains txs where "map fst (rev (tx_iterator_cf e MempoolFeesCf t)) = map (fee_key e) txs" "set txs = pool e t" "distinct txs"
proof -
  let ?ks = "map fst (rev (tx_iterator_cf e MempoolFeesCf t))"
  have "\<exists>tx \<in> pool e t. k = fee_key e tx" if "k \<in> set ?ks" for k
  proof -
    from that obtain v where "tx_get_cf e MempoolFeesCf k t = Some v"
      by (auto simp: tx_iterator_entries(4) [OF assms(1)])
    with assms(2) show ?thesis by (elim fee_owner) auto
  qed
  then obtain owner where owner: "\<And>k. k \<in> set ?ks \<Longrightarrow> owner k \<in> pool e t \<and> k = fee_key e (owner k)" by metis
  define txs where "txs = map owner ?ks"
  have keys: "?ks = map (fee_key e) txs" using owner by (auto simp: txs_def intro: nth_equalityI)
  have "tx \<in> set txs" if tx: "tx \<in> pool e t" for tx
  proof -
    obtain ts where "(fee_key e tx, to_be_bytes64 ts) \<in> set (tx_iterator_cf e MempoolFeesCf t)"
      using mempool_okD(2) [OF assms(2) tx] tx_iterator_entries(4) [OF assms(1)] by blast
    then have k: "fee_key e tx \<in> set ?ks" by force
    with owner have "owner (fee_key e tx) \<in> pool e t" "fee_key e tx = fee_key e (owner (fee_key e tx))" by auto
    then have "owner (fee_key e tx) = tx" using pool_eqI tx fee_key_inj by metis
    with k show ?thesis unfolding txs_def by force
  qed
  moreover have "set txs \<subseteq> pool e t" using owner by (auto simp: txs_def)
  moreover have "distinct ?ks" using tx_iterator_entries(3) [OF assms(1), of MempoolFeesCf t] by (simp add: rev_map [symmetric])
  then have "distinct txs" unfolding keys by (simp add: distinct_map)
  ultimately show ?thesis using that [OF keys] by blast
qed

lemma fee_key_reads:
  assumes "db_laws e"
  shows "deserialize_key (fee_key e tx) = Inr ((ledger_gas_price tx, ledger_tx_id e tx), [])"
  using key_read [of "ledger_tx_id e tx" "ledger_gas_price tx" "[]"] ledger_tx_id_length [OF assms]
  by (simp add: fee_key_def)

lemma fee_iterator_next_at:
  assumes "db_laws e" and "map fst (rev (tx_iterator_cf e MempoolFeesCf t)) = map (fee_key e) txs"
  shows "fee_iterator_next e \<lparr>fi_iter = fee_cursor e t n, fi_fee_desc = True\<rparr> =
    (if n < length txs
     then (Some (ledger_gas_price (txs ! n), ledger_tx_id e (txs ! n)), \<lparr>fi_iter = fee_cursor e t (Suc n), fi_fee_desc = True\<rparr>)
     else (None, \<lparr>fi_iter = fee_cursor e t n, fi_fee_desc = True\<rparr>))"
proof -
  have len: "length (rev (tx_iterator_cf e MempoolFeesCf t)) = length txs" using arg_cong [OF assms(2), of length] by simp
  have "fst (rev (tx_iterator_cf e MempoolFeesCf t) ! n) = fee_key e (txs ! n)" if "n < length txs"
    using arg_cong [OF assms(2), of "\<lambda>xs. xs ! n"] that len by simp
  then show ?thesis
    using fee_cursor_item [OF assms(1), of n t] len
    by (simp add: fee_iterator_next_def Let_def fee_key_reads [OF assms(1)])
qed

lemma fee_order:
  assumes "db_laws e" and "map fst (rev (tx_iterator_cf e MempoolFeesCf t)) = map (fee_key e) txs"
  shows "sorted_wrt (\<lambda>x y. ledger_gas_price x \<ge> ledger_gas_price y) txs"
proof -
  have "sorted_wrt (\<lambda>x y. x > y) (map (fee_key e) txs)"
    using tx_iterator_entries(1) [OF assms(1), of MempoolFeesCf t]
    unfolding assms(2) [symmetric] rev_map [symmetric] sorted_wrt_rev .
  then have "sorted_wrt (\<lambda>x y. fee_key e y < fee_key e x) txs" by (simp add: sorted_wrt_map)
  moreover have "ledger_gas_price y \<le> ledger_gas_price x" if "fee_key e y < fee_key e x" for x y
    using key_order that ledger_tx_id_length [OF assms(1)] by (simp add: fee_key_def)
  ultimately show ?thesis by (rule sorted_wrt_mono_rel [rotated]) simp
qed

lemma fee_items_at:
  assumes "db_laws e" and "map fst (rev (tx_iterator_cf e MempoolFeesCf t)) = map (fee_key e) txs"
  shows "fee_items e n \<lparr>fi_iter = fee_cursor e t m, fi_fee_desc = True\<rparr> =
           map (\<lambda>tx. (ledger_gas_price tx, ledger_tx_id e tx)) (take n (drop m txs))"
proof (induction n arbitrary: m)
  case (Suc n)
  show ?case
    by (cases "m < length txs") (simp_all add: fee_iterator_next_at [OF assms] Suc Cons_nth_drop_Suc [symmetric] del: funpow.simps)
qed simp

lemma mempool_items_at:
  assumes "db_laws e" and "map fst (rev (tx_iterator_cf e MempoolFeesCf t)) = map (fee_key e) txs" and "set txs = pool e t"
  shows "mempool_items e t n \<lparr>fi_iter = fee_cursor e t m, fi_fee_desc = True\<rparr> = take n (drop m txs)"
proof (induction n arbitrary: m)
  case (Suc n)
  have "mempool_tx e (ledger_tx_id e (txs ! m)) t = Inr (Some (txs ! m))" if "m < length txs"
    using nth_mem [OF that] assms(3) by (simp add: pool_def)
  then show ?case
    by (cases "m < length txs")
      (simp_all add: mempool_iterator_next_def fee_iterator_next_at [OF assms(1,2)] Suc Cons_nth_drop_Suc [symmetric] del: funpow.simps)
qed simp

lemma pool_ids_card:
  assumes "db_laws e" and "mempool_ok e t"
  shows "mempool_txs_count e t = card (pool e t)"
proof -
  have "{k. tx_get_cf e MempoolCf k t \<noteq> None} = ledger_tx_id e ` pool e t"
    using pool_stored assms(2) unfolding mempool_ok_def by fast
  moreover have "inj_on (ledger_tx_id e) (pool e t)" using pool_eqI by (fastforce simp: inj_on_def)
  ultimately show ?thesis by (simp add: mempool_txs_count_def iterator_length [OF assms(1)] card_image)
qed

lemma low_fee_nothing:
  assumes "db_laws e"
  shows "fee_iterator_next e (mempool_txs_ids_sorted_by_low_fee e t) = (None, mempool_txs_ids_sorted_by_low_fee e t)"
proof -
  have "\<not> it_valid (de_rocksdb e) (db_raw_iterator_cf (de_rocksdb e) c s)" for c s
    using assms unfolding db_laws_def rocksdb_laws_def by blast
  then show ?thesis by (simp add: fee_iterator_next_def mempool_txs_ids_sorted_by_low_fee_def fee_iterator_new_def Let_def)
qed

text \<open>
  C26: The block generator sees the whole mempool, the highest fees first.  In a consistent mempool, \<open>MemPoolIterator\<close> gives
  every transaction exactly once, in an order of gas prices that never increases, and as many as are counted; and the
  iterator of identifiers gives them in the same order with their prices.
\<close>

theorem mempool_sorted_by_fee:
  assumes "db_laws e" and "mempool_ok e t" and "mempool_txs_count e t \<le> n"
  shows "set (mempool_items e t n (mempool_txs_ids_sorted_by_fee e t)) = pool e t \<and>
         distinct (mempool_items e t n (mempool_txs_ids_sorted_by_fee e t)) \<and>
         length (mempool_items e t n (mempool_txs_ids_sorted_by_fee e t)) = mempool_txs_count e t \<and>
         sorted_wrt (\<lambda>x y. ledger_gas_price x \<ge> ledger_gas_price y)
           (mempool_items e t n (mempool_txs_ids_sorted_by_fee e t)) \<and>
         fee_items e n (mempool_txs_ids_sorted_by_fee e t) =
           map (\<lambda>tx. (ledger_gas_price tx, ledger_tx_id e tx))
             (mempool_items e t n (mempool_txs_ids_sorted_by_fee e t))"
proof -
  obtain txs where txs: "map fst (rev (tx_iterator_cf e MempoolFeesCf t)) = map (fee_key e) txs" "set txs = pool e t" "distinct txs"
    using fee_entries [OF assms(1,2)] by blast
  have start: "mempool_txs_ids_sorted_by_fee e t = \<lparr>fi_iter = fee_cursor e t 0, fi_fee_desc = True\<rparr>"
    by (simp add: mempool_txs_ids_sorted_by_fee_def fee_iterator_new_def)
  have len: "length txs = mempool_txs_count e t"
    using txs pool_ids_card [OF assms(1,2)] distinct_card [OF txs(3)] by simp
  show ?thesis
    unfolding start mempool_items_at [OF assms(1) txs(1,2)] fee_items_at [OF assms(1) txs(1)]
    using txs fee_order [OF assms(1) txs(1)] len assms(3) by simp
qed

end
