(* ===== verification/Preverify_Safety.thy ===== *)
theory Preverify_Safety
  imports Mempool
begin

text \<open>
  What the preverification of the mempool is worth: which transactions it lets through are spendable, and what it
  leaves unchecked.
\<close>

lemma all_inserted_distinct: "all_inserted uniq xs \<longleftrightarrow> distinct xs \<and> set xs \<inter> set uniq = {}"
  by (induction uniq xs rule: all_inserted.induct) auto

lemma has_unique_elements_distinct [simp]: "has_unique_elements xs = distinct xs"
  by (simp add: has_unique_elements_def all_inserted_distinct)

lemma existing_nullifiers_empty:
  "existing_nullifiers ns w = [] \<longleftrightarrow> (\<forall>n \<in> set ns. bm_get (tf_nullifiers (tw_state w)) n = None)"
  by (simp add: existing_nullifiers_def filter_empty_conv del: not_None_eq)

lemma verify_proof_iff: "verify_proof h pw tx = Inr True \<longleftrightarrow> verify_tx_proof h pw tx = Inr True"
  by (auto simp: verify_proof_def verify_tx_proof_def split: option.splits sum.splits)

lemma preverify_phoenix_Inr:
  "preverify_phoenix h pw tx w = Inr r \<longleftrightarrow>
     r = PreverifyValid \<and> (\<forall>n \<in> set (pt_nullifiers tx). bm_get (tf_nullifiers (tw_state w)) n = None) \<and>
     distinct (pt_nullifiers tx) \<and> verify_tx_proof h pw tx = Inr True"
proof (cases "existing_nullifiers (pt_nullifiers tx) w = []")
  case True
  then show ?thesis
    unfolding existing_nullifiers_empty [symmetric] verify_proof_iff [symmetric]
    by (auto simp: preverify_phoenix_def Let_def split: sum.splits if_splits)
qed (simp_all add: preverify_phoenix_def Let_def existing_nullifiers_empty)

section \<open>Phoenix\<close>

lemma insert_nullifiers_succeed:
  "distinct ns \<Longrightarrow> \<forall>n \<in> set ns. bm_get s n = None \<Longrightarrow> is_ok (res_fold insert_nullifier ns s)"
proof (induction ns arbitrary: s)
  case (Cons n ns)
  have "is_ok (res_fold insert_nullifier ns (bm_insert n () s))"
    using Cons.prems by (intro Cons.IH) auto
  with Cons.prems show ?case by (auto simp: insert_nullifier_Inr is_ok_iff)
qed simp

lemma push_notes_succeed:
  "tw_current_tx w \<noteq> None \<Longrightarrow> is_ok (res_fold transitory_push_note ns w)"
proof (induction ns arbitrary: w)
  case (Cons n ns)
  then obtain w' where "transitory_push_note n w = Inr w'" "tw_current_tx w' \<noteq> None"
    by (auto simp: transitory_push_note_def)
  with Cons.IH [of w'] show ?case by simp
qed simp

lemma preverified_phoenix_spends:
  assumes "preverify_phoenix h pw tx w = Inr r" and "tw_current_tx w \<noteq> None"
  shows "is_ok (spend_phoenix h pw tx w) \<longleftrightarrow> pt_chain_id tx = h_chain_id h \<and> root_exists h (pt_root tx) w"
proof -
  let ?t = "tree_extend_notes h (h_block_height h) (pt_outputs tx) (tf_tree (tw_state w))"
  obtain ns where "res_fold insert_nullifier (pt_nullifiers tx) (tf_nullifiers (tw_state w)) = Inr ns"
    using assms(1) insert_nullifiers_succeed [of "pt_nullifiers tx" "tf_nullifiers (tw_state w)"]
    by (auto simp: preverify_phoenix_Inr is_ok_iff)
  moreover have "verify_tx_proof h pw tx = Inr True" using assms(1) by (simp add: preverify_phoenix_Inr)
  moreover have "is_ok (res_fold transitory_push_note (fst ?t)
      (w\<lparr>tw_state := (tw_state w)\<lparr>tf_nullifiers := ns, tf_tree := snd ?t\<rparr>\<rparr>))" for ns
    using assms(2) by (intro push_notes_succeed) simp
  ultimately show ?thesis by (simp add: spend_phoenix_def split_beta Let_def)
qed

section \<open>Moonlight\<close>

lemma credit_account_succeeds:
  assumes "accounts_total w + unat v < 2 ^ 64"
  shows "is_ok (credit_account key v w)"
proof -
  let ?a = "bm_get_or EMPTY_ACCOUNT (accounts w) key"
  have "unat (acc_balance ?a) = opt_val (unat \<circ> acc_balance) (bm_get (accounts w) key)"
    by (simp add: bm_get_or_def EMPTY_ACCOUNT_def opt_val_def split: option.splits)
  also have "\<dots> \<le> accounts_total w" unfolding accounts_total_def by (rule bm_sum_ge_opt)
  finally have "unat (acc_balance ?a) + unat v < 2 ^ 64" using assms by linarith
  then show ?thesis by (simp add: credit_account_def Let_def add_chk_def)
qed

lemma max_value_spent_Inr:
  assumes "max_value_spent tx = Inr v"
  shows "unat v = unat (mt_gas_limit tx) * unat (mt_gas_price tx) + unat (mt_value tx) + unat (mt_deposit tx)"
proof -
  obtain a b where "mul_chk (mt_gas_limit tx) (mt_gas_price tx) = Inr a" "add_chk a (mt_value tx) = Inr b"
      "add_chk b (mt_deposit tx) = Inr v"
    using assms by (auto simp: max_value_spent_def)
  from chk_unat(3) [OF this(1)] chk_unat(1) [OF this(2)] chk_unat(1) [OF this(3)] show ?thesis by simp
qed

lemma chk_below:
  fixes a b x :: "'a::len word"
  shows "unat a + unat b \<le> unat x \<Longrightarrow> add_chk a b = Inr (a + b)"
    and "unat a * unat b \<le> unat x \<Longrightarrow> mul_chk a b = Inr (a * b)"
  unfolding add_chk_Inr mul_chk_Inr by (auto intro: le_less_trans [OF _ unsigned_less])

lemma preverify_moonlight_valid:
  assumes "preverify_moonlight h wr tx w = Inr PreverifyValid"
  defines "a \<equiv> account h (mt_sender tx) w"
  obtains "unat (mt_value tx) + unat (mt_deposit tx) + unat (mt_gas_limit tx) * unat (mt_gas_price tx) \<le> unat (acc_balance a)"
    and "mt_nonce tx = acc_nonce a + 1" and "unat (mt_nonce tx) = unat (acc_nonce a) + 1"
    and "verify_moonlight_signature h wr tx"
proof -
  obtain v where v: "max_value_spent tx = Inr v" "v \<le> acc_balance a"
    and n: "acc_nonce a < mt_nonce tx" "mt_nonce tx \<le> acc_nonce a + 1" and sig: "verify_moonlight_signature h wr tx"
    using assms(1) unfolding a_def
    by (auto simp: preverify_moonlight_def Let_def not_le not_less split: sum.splits if_splits)
  have "unat (mt_nonce tx) = unat (acc_nonce a) + 1"
  proof -
    have "unat (acc_nonce a) < unat (mt_nonce tx)" using n(1) by (simp add: word_less_nat_alt)
    then have "add_chk (acc_nonce a) 1 = Inr (acc_nonce a + 1)" by (intro chk_below(1) [of _ _ "mt_nonce tx"]) simp
    from chk_unat(1) [OF this] have "unat (acc_nonce a + 1) = unat (acc_nonce a) + 1" by simp
    with n show ?thesis by (simp add: word_less_nat_alt word_le_nat_alt)
  qed
  moreover from this have "mt_nonce tx = acc_nonce a + 1" by (metis of_nat_add of_nat_1 of_nat_unat ucast_id)
  moreover have "unat (mt_value tx) + unat (mt_deposit tx) + unat (mt_gas_limit tx) * unat (mt_gas_price tx) \<le> unat (acc_balance a)"
    using max_value_spent_Inr [OF v(1)] v(2) by (simp add: word_le_nat_alt)
  ultimately show ?thesis using sig that by blast
qed

lemma preverified_moonlight_spends:
  assumes pre: "preverify_moonlight h wr tx w = Inr PreverifyValid"
    and gas: "mt_gas_limit tx > 0" "mt_gas_price tx > 0" and total: "accounts_total w < 2 ^ 64"
  shows "is_ok (spend_moonlight h wr tx w) \<longleftrightarrow> mt_chain_id tx = h_chain_id h"
proof -
  let ?k = "h_pk_to_raw_bytes h (mt_sender tx)" and ?a = "account h (mt_sender tx) w"
  let ?fee = "mt_gas_limit tx * mt_gas_price tx"
  let ?total = "mt_value tx + mt_deposit tx + ?fee"
  let ?w1 = "set_accounts (bm_insert ?k \<lparr>acc_nonce = mt_nonce tx, acc_balance = acc_balance ?a - ?total\<rparr> (accounts w)) w"
  from preverify_moonlight_valid [OF pre]
  have bal: "unat (mt_value tx) + unat (mt_deposit tx) + unat (mt_gas_limit tx) * unat (mt_gas_price tx) \<le> unat (acc_balance ?a)"
    and nonce: "mt_nonce tx = acc_nonce ?a + 1" "unat (mt_nonce tx) = unat (acc_nonce ?a) + 1"
    and sig: "verify_moonlight_signature h wr tx" by blast+
  have chk: "mul_chk (mt_gas_limit tx) (mt_gas_price tx) = Inr ?fee"
      "add_chk (mt_value tx) (mt_deposit tx) = Inr (mt_value tx + mt_deposit tx)"
    using bal by (auto intro!: chk_below [of _ _ "acc_balance ?a"])
  note fee = chk_unat(3) [OF chk(1)] and vd = chk_unat(1) [OF chk(2)]
  have chk2: "add_chk (mt_value tx + mt_deposit tx) ?fee = Inr ?total"
    using bal fee vd by (intro chk_below [of _ _ "acc_balance ?a"]) simp
  note tot = chk_unat(1) [OF chk2]
  have "acc_balance ?a \<noteq> 0"
  proof
    assume "acc_balance ?a = 0"
    with bal have "unat (mt_gas_limit tx) * unat (mt_gas_price tx) = 0" by simp
    with gas show False by (simp add: word_gt_0 unat_eq_0)
  qed
  then obtain acc where acc: "bm_get (accounts w) ?k = Some acc" "?a = acc"
    by (cases "bm_get (accounts w) ?k") (simp_all add: account_def bm_get_or_def EMPTY_ACCOUNT_def)
  have le: "?total \<le> acc_balance ?a" using bal tot fee vd by (simp add: word_le_nat_alt)
  have "accounts_total ?w1 + unat ?total = accounts_total w"
    using bm.total_debit [OF acc(1), of "unat \<circ> acc_balance" _ "unat ?total"] le acc(2)
    by (simp add: accounts_total_def unat_sub_le word_le_nat_alt)
  then have "is_ok (credit_account key (mt_value tx) ?w1)" for key
    using total tot vd by (intro credit_account_succeeds) linarith
  moreover have "add_chk (acc_nonce acc) 1 = Inr (mt_nonce tx)"
    using nonce acc(2) chk_below(1) [of "acc_nonce acc" 1 "mt_nonce tx"] by simp
  moreover have "sub_chk (acc_balance acc) ?total = Inr (acc_balance acc - ?total)"
    using le acc(2) by (simp add: sub_chk_Inr)
  ultimately show ?thesis
    using chk chk2 sig le acc by (auto simp: spend_moonlight_def verify_moonlight_signature_def Let_def is_ok_iff not_less)
qed

section \<open>What preverification decides\<close>

definition tx_chain_ok :: "host \<Rightarrow> transaction \<Rightarrow> bool" where
  "tx_chain_ok h tx =
     (case tx of Phoenix t \<Rightarrow> pt_chain_id t = h_chain_id h | Moonlight t \<Rightarrow> mt_chain_id t = h_chain_id h)"

definition tx_root_ok :: "host \<Rightarrow> transaction \<Rightarrow> 'r tworld_scheme \<Rightarrow> bool" where
  "tx_root_ok h tx w = (case tx of Phoenix t \<Rightarrow> root_exists h (pt_root t) w | Moonlight _ \<Rightarrow> True)"

text \<open>A deposit needs a contract to receive it.\<close>

definition tx_deposit_ok :: "transaction \<Rightarrow> bool" where
  "tx_deposit_ok tx \<longleftrightarrow> tx_deposit tx = 0 \<or> tx_call tx \<noteq> None"

lemma put_transaction_succeeds:
  assumes "tx_deposit_ok tx"
  obtains w' where "put_transaction tx w = Inr w'" "tw_current_tx w' \<noteq> None" "tw_state w' = tw_state w"
proof (cases "tx_deposit tx > 0")
  case True
  with assms obtain c where "tx_call tx = Some c" by (auto simp: tx_deposit_ok_def)
  with True that show ?thesis by (simp add: put_transaction_def Let_def)
qed (use that in \<open>simp add: put_transaction_def Let_def\<close>)

lemma put_transaction_fails: "\<not> tx_deposit_ok tx \<Longrightarrow> \<not> is_ok (spend_and_execute h wr pw x tx w)"
  by (auto simp: tx_deposit_ok_def spend_and_execute_def put_transaction_def Let_def word_gt_0)

lemma is_ok_bind_total: "(\<And>y. is_ok (f y)) \<Longrightarrow> is_ok (res_bind m f) \<longleftrightarrow> is_ok m"
  by (cases m) simp_all

lemma spend_and_execute_is_ok:
  assumes "put_transaction tx w = Inr w0" and "tx_gas_price tx \<noteq> 0"
  shows "is_ok (spend_and_execute h wr pw x tx w) \<longleftrightarrow>
    is_ok (case tx of Phoenix t \<Rightarrow> spend_phoenix h pw t w0 | Moonlight t \<Rightarrow> spend_moonlight h wr t w0)"
  using assms by (simp add: spend_and_execute_def is_ok_bind_total split: option.splits)

lemma preverify_cong: "tw_state w' = tw_state w \<Longrightarrow> preverify h wr pw tx w' = preverify h wr pw tx w"
  by (simp add: preverify_def preverify_phoenix_def preverify_moonlight_def existing_nullifiers_def account_def
      split: transaction.splits)

text \<open>
  C18: The mempool lets only spendable transactions through, with three exceptions.  A transaction with a gas price and a gas
  limit above zero that \<open>preverify\<close> finds valid is spent by the transfer contract in the same state if, and only if, it
  is for this chain, its root is, for a Phoenix transaction, one the contract has had, and it names a contract to call if
  it deposits: none of these is checked by the mempool.  All else the contract asserts follows from the preverification:
  signature or proof, nullifiers, nonce, balance, and that no sum overflows, as all accounts together hold less than 2 to
  the power of 64.
\<close>

theorem preverified_spendable:
  assumes "preverify h wr pw tx w = Inr PreverifyValid"
    and "tx_gas_price (lt_inner tx) > 0" and "tx_gas_limit (lt_inner tx) > 0" and "accounts_total w < 2 ^ 64"
  shows "is_ok (spend_and_execute h wr pw x (lt_inner tx) w) \<longleftrightarrow>
           tx_chain_ok h (lt_inner tx) \<and> tx_root_ok h (lt_inner tx) w \<and> tx_deposit_ok (lt_inner tx)"
proof (cases "tx_deposit_ok (lt_inner tx)")
  case dep: True
  obtain w0 where w0: "put_transaction (lt_inner tx) w = Inr w0" "tw_current_tx w0 \<noteq> None" "tw_state w0 = tw_state w"
    using put_transaction_succeeds dep by blast
  have pre: "preverify h wr pw tx w0 = Inr PreverifyValid" using assms(1) preverify_cong [OF w0(3)] by simp
  have price: "tx_gas_price (lt_inner tx) \<noteq> 0" using assms(2) by (simp add: word_gt_0)
  show ?thesis
  proof (cases "lt_inner tx")
    case (Phoenix t)
    have "is_ok (spend_phoenix h pw t w0) \<longleftrightarrow> tx_chain_ok h (lt_inner tx) \<and> tx_root_ok h (lt_inner tx) w"
      using preverified_phoenix_spends [of h pw t w0] pre w0 Phoenix
      by (simp add: preverify_def tx_chain_ok_def tx_root_ok_def root_exists_def)
    with Phoenix dep show ?thesis using spend_and_execute_is_ok [OF w0(1) price, of h wr pw x] by simp
  next
    case (Moonlight t)
    have "accounts_total w0 < 2 ^ 64" using assms(4) w0(3) by (simp add: accounts_total_def)
    then have "is_ok (spend_moonlight h wr t w0) \<longleftrightarrow> tx_chain_ok h (lt_inner tx) \<and> tx_root_ok h (lt_inner tx) w"
      using preverified_moonlight_spends [of h wr t w0] pre Moonlight assms(2,3)
      by (simp add: preverify_def tx_chain_ok_def tx_root_ok_def tx_gas_limit_def tx_gas_price_def)
    with Moonlight dep show ?thesis using spend_and_execute_is_ok [OF w0(1) price, of h wr pw x] by simp
  qed
qed (simp add: put_transaction_fails)

end
