(* ===== verification/Mempool_Safety.thy ===== *)
theory Mempool_Safety
  imports Mempool_Fees Preverify_Safety
begin

text \<open>
  The mempool service keeps the mempool consistent.  Accepting a transaction is, on the set of transactions, to insert
  it in place of those that spend the same and pay less; the other operations remove transactions.  The invariant over
  every history of the service and the chain follows from that.
\<close>

section \<open>Accepting a transaction\<close>

definition conflicts :: "('mpk, 'msig, 's, 'it) db_env \<Rightarrow> ledger_tx \<Rightarrow> 's db_tx \<Rightarrow> ledger_tx set" where
  "conflicts e tx t = {x \<in> pool e t. set (spend_keys e x) \<inter> set (spend_keys e tx) \<noteq> {}}"

lemma conflict_ids:
  assumes "db_laws e" and "mempool_ok e t"
  shows "set (mempool_txs_by_spendable_ids e (to_spend_ids (nc_wire (de_crypto e)) tx) t) =
    ledger_tx_id e ` conflicts e tx t"
proof -
  have "h \<in> ledger_tx_id e ` conflicts e tx t \<longleftrightarrow>
      (\<exists>k \<in> set (spend_keys e tx). tx_get_cf e MempoolSpendingIdCf k t = Some h)" for h
  proof
    assume "h \<in> ledger_tx_id e ` conflicts e tx t"
    then show "\<exists>k \<in> set (spend_keys e tx). tx_get_cf e MempoolSpendingIdCf k t = Some h"
      using mempool_okD(1) [OF assms(2)] by (fastforce simp: conflicts_def)
  next
    assume "\<exists>k \<in> set (spend_keys e tx). tx_get_cf e MempoolSpendingIdCf k t = Some h"
    with assms(2) show "h \<in> ledger_tx_id e ` conflicts e tx t"
      by (auto simp: conflicts_def elim!: spending_owner)
  qed
  then show ?thesis by (auto simp: by_spendable_ids_set [OF assms] spend_keys_def)
qed

lemma replace_conflicts_spec:
  assumes "db_laws e" and "mempool_ok e t"
  shows "replace_conflicts e price ids removed t = Some (Inl (GenericAcceptance SpendIdExistsInMempool)) \<and>
           (\<exists>x \<in> pool e t. ledger_tx_id e x \<in> set ids \<and> price \<le> ledger_gas_price x) \<or>
         (\<exists>ds t'. replace_conflicts e price ids removed t = Some (Inr (removed @ ds, t')) \<and>
           removes e (set ids) t t' \<and> set ds = set ids \<inter> pool_ids e t \<and>
           (\<forall>x \<in> pool e t. ledger_tx_id e x \<in> set ids \<longrightarrow> ledger_gas_price x < price))"
  using assms(2)
proof (induction ids arbitrary: removed t)
  case Nil
  then show ?case by (simp add: removes_refl)
next
  case (Cons h ids)
  show ?case
  proof (cases rule: mempool_tx_cases [OF Cons.prems, of h])
    case 1
    then have "h \<notin> pool_ids e t" by (auto simp: pool_ids_def)
    then have "removes e (set ids) t t' \<Longrightarrow> removes e (set (h # ids)) t t'" for t'
      using removes_trans [OF removes_refl [OF Cons.prems, of "{h}"], of "set ids" t'] by simp
    with Cons.IH [OF Cons.prems, of removed] 1 \<open>h \<notin> pool_ids e t\<close> show ?thesis
      by (auto simp: removes_def)
  next
    case (2 tx)
    show ?thesis
    proof (cases "ledger_gas_price tx < price")
      case False
      with 2 show ?thesis by (auto simp: ledger_gas_price_def)
    next
      case True
      obtain t1 where t1: "delete_mempool_tx e h False t = Some (Inr [h], t1)" "removes e {h} t t1"
        using removes_dropped [OF assms(1) Cons.prems 2(2)] 2
        by (simp add: delete_mempool_tx_def drop_mempool_tx_def Let_def dropped_def)
      have low: "(\<forall>x \<in> pool e t1. ledger_tx_id e x \<in> set ids \<longrightarrow> ledger_gas_price x < price) \<Longrightarrow>
          \<forall>x \<in> pool e t. ledger_tx_id e x \<in> set (h # ids) \<longrightarrow> ledger_gas_price x < price"
        using t1(2) True 2 pool_eqI by (fastforce simp: removes_def)
      have run: "replace_conflicts e price (h # ids) removed t = replace_conflicts e price ids (removed @ [h]) t1"
        using 2 True t1(1) by (simp add: ledger_gas_price_def)
      have h: "h \<in> pool_ids e t" using 2 by (auto simp: pool_ids_def)
      show ?thesis
        using Cons.IH [OF removes_ok [OF t1(2)], of "removed @ [h]"]
      proof (elim disjE exE conjE)
        assume "replace_conflicts e price ids (removed @ [h]) t1 = Some (Inl (GenericAcceptance SpendIdExistsInMempool))"
          and "\<exists>x \<in> pool e t1. ledger_tx_id e x \<in> set ids \<and> price \<le> ledger_gas_price x"
        then show ?thesis using t1(2) run by (auto simp: removes_def)
      next
        fix ds t'
        assume *: "replace_conflicts e price ids (removed @ [h]) t1 = Some (Inr ((removed @ [h]) @ ds, t'))"
          "removes e (set ids) t1 t'" "set ds = set ids \<inter> pool_ids e t1"
          "\<forall>x \<in> pool e t1. ledger_tx_id e x \<in> set ids \<longrightarrow> ledger_gas_price x < price"
        have "set ([h] @ ds) = set (h # ids) \<inter> pool_ids e t" using *(3) h removes_ids [OF t1(2)] by auto
        with * low run removes_trans [OF t1(2) *(2)] show ?thesis
          by (intro disjI2 exI [of _ "[h] @ ds"] exI [of _ t']) simp
      qed
    qed
  qed
qed

text \<open>A transaction of the database reads what its store has.\<close>

lemma begin_tx_same:
  "tx_get_cf e c k (begin_tx (tx_inner t)) = tx_get_cf e c k t"
  "mempool_ok e (begin_tx (tx_inner t)) = mempool_ok e t"
  "pool e (begin_tx (tx_inner t)) = pool e t"
proof -
  show get: "tx_get_cf e c k (begin_tx (tx_inner t)) = tx_get_cf e c k t" for c k
    by (simp add: tx_get_cf_def begin_tx_def)
  show "mempool_ok e (begin_tx (tx_inner t)) = mempool_ok e t" by (rule mempool_ok_cong) (rule get)
  show "pool e (begin_tx (tx_inner t)) = pool e t" by (rule pool_cong) (rule get)
qed

lemma insert_tx_spec:
  assumes laws: "db_laws e" and ok: "mempool_ok e t" and dec: "tx_decodes (de_crypto e) tx"
    and new: "tx_get_cf e MempoolCf (ledger_tx_id e tx) t = None"
  shows "insert_tx e tx None now t = Some (Inl (GenericAcceptance SpendIdExistsInMempool)) \<and>
           (\<exists>x \<in> conflicts e tx t. ledger_gas_price tx \<le> ledger_gas_price x) \<or>
         (\<exists>ds t'. insert_tx e tx None now t = Some (Inr (map Removed ds @ [Included tx], t')) \<and>
           set ds = ledger_tx_id e ` conflicts e tx t \<and>
           (\<forall>x \<in> conflicts e tx t. ledger_gas_price x < ledger_gas_price tx) \<and>
           mempool_ok e t' \<and> pool e t' = insert (with_size e tx) (pool e t - conflicts e tx t))"
proof -
  let ?ids = "mempool_txs_by_spendable_ids e (to_spend_ids (nc_wire (de_crypto e)) tx) t"
  note ids = conflict_ids [OF laws ok, of tx]
  have mem: "ledger_tx_id e x \<in> set ?ids \<longleftrightarrow> x \<in> conflicts e tx t" if "x \<in> pool e t" for x
    using that pool_eqI [OF that] unfolding ids by (auto simp: conflicts_def)
  have sub: "set ?ids \<inter> pool_ids e t = ledger_tx_id e ` conflicts e tx t"
    unfolding ids by (auto simp: conflicts_def pool_ids_def)
  have price: "tx_gas_price (lt_inner tx) = ledger_gas_price tx" by (simp add: ledger_gas_price_def)
  show ?thesis
    using replace_conflicts_spec [OF laws ok, of "ledger_gas_price tx" ?ids "[]"]
  proof (elim disjE exE conjE bexE)
    fix x assume "replace_conflicts e (ledger_gas_price tx) ?ids [] t = Some (Inl (GenericAcceptance SpendIdExistsInMempool))"
      "x \<in> pool e t" "ledger_tx_id e x \<in> set ?ids" "ledger_gas_price tx \<le> ledger_gas_price x"
    then show ?thesis using mem by (auto simp: insert_tx_def price)
  next
    fix ds t1
    assume run: "replace_conflicts e (ledger_gas_price tx) ?ids [] t = Some (Inr ([] @ ds, t1))"
      and rm: "removes e (set ?ids) t t1" and ds: "set ds = set ?ids \<inter> pool_ids e t"
      and low: "\<forall>x \<in> pool e t. ledger_tx_id e x \<in> set ?ids \<longrightarrow> ledger_gas_price x < ledger_gas_price tx"
    have pool1: "pool e t1 = pool e t - conflicts e tx t" using rm mem by (auto simp: removes_def)
    have new1: "tx_get_cf e MempoolCf (ledger_tx_id e tx) t1 = None" using rm new unfolding removes_def by metis
    have free: "tx_get_cf e MempoolSpendingIdCf k t1 = None" if k: "k \<in> set (spend_keys e tx)" for k
    proof (rule ccontr)
      assume "tx_get_cf e MempoolSpendingIdCf k t1 \<noteq> None"
      then obtain x where "x \<in> pool e t1" "k \<in> set (spend_keys e x)"
        using spending_owner [OF removes_ok [OF rm]] by blast
      with k show False unfolding pool1 by (auto simp: conflicts_def)
    qed
    let ?t' = "store_mempool_tx e tx now t1"
    have "mempool_ok e ?t'" using store_mempool_ok [OF laws removes_ok [OF rm] dec new1 free] .
    moreover have "pool e ?t' = insert (with_size e tx) (pool e t - conflicts e tx t)"
      using store_pool [OF laws dec new1] pool1 by simp
    moreover have "insert_tx e tx None now t = Some (Inr (map Removed ds @ [Included tx], ?t'))"
      using run by (simp add: insert_tx_def price)
    moreover have "\<forall>x \<in> conflicts e tx t. ledger_gas_price x < ledger_gas_price tx"
      using low mem by (auto simp: conflicts_def)
    ultimately show ?thesis using ds sub by blast
  qed
qed

lemma check_known_cases:
  assumes "db_laws e"
  shows "check_known e tx n view = Inr r \<Longrightarrow>
    r = None \<and> mempool_txs_count e view < n \<and> tx_get_cf e MempoolCf (ledger_tx_id e tx) view = None"
  by (auto simp: check_known_def low_fee_nothing [OF assms] mempool_tx_exists_def split: if_splits)

lemma check_tx_spec:
  assumes "db_laws e" and "mempool_ok e (begin_tx s)" and "tx_decodes (de_crypto e) tx"
  shows "\<exists>r s'. check_tx e vm tx dry_run n now s = Some (r, s') \<and>
    (case r of
       Inl err \<Rightarrow> s' = s
     | Inr events \<Rightarrow>
         mempool_txs_count e (begin_tx s) < n \<and>
         (\<exists>ds. events = map Removed ds @ [Included tx] \<and> set ds = ledger_tx_id e ` conflicts e tx (begin_tx s)) \<and>
         (\<forall>x \<in> conflicts e tx (begin_tx s). ledger_gas_price x < ledger_gas_price tx) \<and>
         (if dry_run then s' = s
          else mempool_ok e (begin_tx s') \<and>
               pool e (begin_tx s') = insert (with_size e tx) (pool e (begin_tx s) - conflicts e tx (begin_tx s))))"
proof (cases "check_gas vm tx")
  case None
  show ?thesis
  proof (cases "check_known e tx n (begin_tx s)")
    case (Inr del)
    from check_known_cases [OF assms(1) this]
    have del: "del = None" "mempool_txs_count e (begin_tx s) < n"
      and new: "tx_get_cf e MempoolCf (ledger_tx_id e tx) (begin_tx s) = None" by simp_all
    show ?thesis
    proof (cases "vx_preverify vm tx")
      case pv: (Inr r)
      show ?thesis
      proof (cases "check_future_nonce e r (begin_tx s)")
        case fn: None
        have run: "check_tx e vm tx dry_run n now s =
            map_option (\<lambda>r. update_dry_run dry_run (\<lambda>_. r) s) (insert_tx e tx None now (begin_tx s))"
          using None Inr del(1) pv fn by (simp add: check_tx_def)
        show ?thesis
          using insert_tx_spec [OF assms new, of now] unfolding run
          by (elim disjE exE conjE) (auto simp: update_dry_run_def begin_tx_same del(2))
      qed (use None Inr del(1) pv in \<open>simp add: check_tx_def\<close>)
    qed (use None Inr in \<open>simp add: check_tx_def\<close>)
  qed (use None in \<open>simp add: check_tx_def\<close>)
qed (simp add: check_tx_def)

text \<open>
  C17: Accepting a transaction refines an update of a set.  \<open>check_tx\<close> always returns.  When it refuses, nothing changes.
  When it accepts, there was room, every transaction of the mempool that spends the same paid a lower price, exactly these
  are reported as removed and are gone, the transaction is in, all others are kept, and both indexes are exact again;
  a dry run leaves the database as it was.
\<close>

theorem check_tx_refines:
  assumes "db_laws e" and "mempool_ok e (begin_tx s)" and "tx_decodes (de_crypto e) tx"
  shows "\<exists>r s'. check_tx e vm tx dry_run n now s = Some (r, s') \<and>
    (case r of
       Inl err \<Rightarrow> s' = s
     | Inr events \<Rightarrow>
         mempool_txs_count e (begin_tx s) < n \<and>
         (\<exists>ds. events = map Removed ds @ [Included tx] \<and> set ds = ledger_tx_id e ` conflicts e tx (begin_tx s)) \<and>
         (\<forall>x \<in> conflicts e tx (begin_tx s). ledger_gas_price x < ledger_gas_price tx) \<and>
         (if dry_run then s' = s
          else mempool_ok e (begin_tx s') \<and>
               pool e (begin_tx s') = insert (with_size e tx) (pool e (begin_tx s) - conflicts e tx (begin_tx s))))"
  by (rule check_tx_spec [OF assms])

text \<open>
  C28: A full mempool refuses everything.  Once the mempool has as many transactions as the node allows, \<open>check_tx\<close> refuses
  every new transaction with an internal error, whatever its gas price: the iterator that should give the cheapest
  transaction to make room is never positioned, and gives none.
\<close>

theorem full_mempool_refuses:
  assumes "db_laws e" and "mempool_txs_count e (begin_tx s) \<ge> n" and "check_gas vm tx = None"
    and "\<not> mempool_tx_exists e (ledger_tx_id e tx) (begin_tx s)" and "\<not> ledger_tx_exists e (ledger_tx_id e tx) (begin_tx s)"
  shows "check_tx e vm tx dry_run n now s = Some (Inl (Generic (DbError ''Cannot get lowest fee tx'')), s)"
  using assms by (simp add: check_tx_def check_known_def low_fee_nothing)

end
