(* ===== verification/Mempool_History.thy ===== *)
theory Mempool_History
  imports Mempool_Safety
begin

text \<open>
  Every history of the mempool: transactions that arrive, transactions that expire, and what the chain removes.  The
  locale \<open>preverifier\<close> states what the service relies on of the virtual machine, and the node's \<open>preverify\<close> gives it.
\<close>

section \<open>The interface of the virtual machine\<close>

text \<open>A transaction that is let through spends something, and not more than four things.\<close>

locale preverifier =
  fixes vm :: vm_execution and wr :: wire
  assumes few_inputs: "vx_preverify vm tx = Inr r \<Longrightarrow> length (to_spend_ids wr tx) \<in> {1..4}"
begin

lemma accepted_few_inputs:
  assumes "check_tx e vm tx dry_run n now s = Some (Inr events, s')" and "nc_wire (de_crypto e) = wr"
  shows "length (spend_keys e tx) \<in> {1..4}"
proof -
  obtain r where "vx_preverify vm tx = Inr r"
    using assms(1) by (auto simp: check_tx_def split: option.splits sum.splits)
  with few_inputs assms(2) show ?thesis by (simp add: spend_keys_def)
qed

end

lemma circuit_inputs: "tx_circuit_verifier h n = Some vd \<Longrightarrow> n \<in> {1..4}"
  by (auto simp: tx_circuit_verifier_def split: if_splits)

lemma preverify_few_inputs:
  assumes "preverify h wr' pw tx w = Inr r"
  shows "length (to_spend_ids wr tx) \<in> {1..4}"
proof (cases "lt_inner tx")
  case (Phoenix t)
  with assms obtain vd where "tx_circuit_verifier h (length (pt_nullifiers t)) = Some vd"
    by (auto simp: preverify_def preverify_phoenix_Inr verify_tx_proof_def)
  from circuit_inputs [OF this] show ?thesis by (simp add: to_spend_ids_def Phoenix tx_nullifiers_def)
qed (simp add: to_spend_ids_def)

interpretation rusk: preverifier "rusk_vm h wr' pw w p b m g" wr for h wr' pw w p b m g wr
  by unfold_locales (auto simp: rusk_vm_def dest: preverify_few_inputs)

section \<open>The invariant\<close>

definition mempool_inv :: "('mpk, 'msig, 's, 'it) db_env \<Rightarrow> nat \<Rightarrow> 's db_tx \<Rightarrow> bool" where
  "mempool_inv e n t \<longleftrightarrow>
     mempool_ok e t \<and> mempool_txs_count e t \<le> n \<and> (\<forall>tx \<in> pool e t. length (spend_keys e tx) \<le> 4)"

lemma pool_finite:
  assumes "db_laws e"
  shows "finite (pool e t)"
proof -
  have "ledger_tx_id e ` pool e t \<subseteq> {k. tx_get_cf e MempoolCf k t \<noteq> None}" using pool_stored by fast
  then have "finite (ledger_tx_id e ` pool e t)" using finite_column [OF assms] by (rule finite_subset)
  moreover have "inj_on (ledger_tx_id e) (pool e t)" using pool_eqI by (fastforce simp: inj_on_def)
  ultimately show ?thesis by (rule finite_imageD)
qed

lemma inv_index_small:
  assumes laws: "db_laws e" and inv: "mempool_inv e n t" and n: "4 * n < 2 ^ 64"
  shows "index_small e t"
proof -
  have ok: "mempool_ok e t" using inv by (simp add: mempool_inv_def)
  have "{k. tx_get_cf e MempoolSpendingIdCf k t \<noteq> None} \<subseteq> (\<Union>tx \<in> pool e t. set (spend_keys e tx))"
    using ok by (auto elim!: spending_owner)
  then have "length (tx_iterator_cf e MempoolSpendingIdCf t) \<le> card (\<Union>tx \<in> pool e t. set (spend_keys e tx))"
    unfolding iterator_length [OF laws] by (intro card_mono) (simp_all add: pool_finite [OF laws])
  also have "\<dots> \<le> (\<Sum>tx \<in> pool e t. card (set (spend_keys e tx)))" by (rule card_UN_le) (rule pool_finite [OF laws])
  also have "\<dots> \<le> (\<Sum>tx \<in> pool e t. 4)"
    using inv card_length le_trans by (intro sum_mono) (fastforce simp: mempool_inv_def)
  also have "\<dots> = card (pool e t) * 4" by simp
  also have "\<dots> \<le> 4 * n" using inv pool_ids_card [OF laws ok] by (simp add: mempool_inv_def)
  finally show ?thesis using n by (simp add: index_small_def)
qed

lemma removes_inv:
  assumes "db_laws e" and "mempool_inv e n t" and "removes e hs t t'"
  shows "mempool_inv e n t'"
proof -
  have "pool e t' \<subseteq> pool e t" using assms(3) by (auto simp: removes_def)
  then have "card (pool e t') \<le> card (pool e t)" by (rule card_mono [OF pool_finite [OF assms(1)]])
  with assms show ?thesis
    by (auto simp: mempool_inv_def removes_def pool_ids_card)
qed

lemma inv_cong:
  assumes "db_laws e" and "mempool_inv e n t"
    and "\<And>c k. c \<in> {MempoolCf, MempoolSpendingIdCf, MempoolFeesCf} \<Longrightarrow> tx_get_cf e c k t' = tx_get_cf e c k t"
  shows "mempool_inv e n t'"
proof -
  have "mempool_ok e t'" using assms(2) mempool_ok_cong [OF assms(3)] by (simp add: mempool_inv_def)
  moreover have "pool e t' = pool e t" by (rule pool_cong) (simp add: assms(3))
  ultimately show ?thesis
    using assms(2) pool_ids_card [OF assms(1), of t] pool_ids_card [OF assms(1), of t']
    by (simp add: mempool_inv_def)
qed

lemma inv_begin: "db_laws e \<Longrightarrow> mempool_inv e n (begin_tx (tx_inner t)) = mempool_inv e n t"
  by (rule iffI; erule (1) inv_cong) (simp_all add: begin_tx_same)

lemma check_tx_inv:
  assumes laws: "db_laws e" and inv: "mempool_inv e n (begin_tx s)" and dec: "tx_decodes (de_crypto e) tx"
    and vm: "preverifier vm (nc_wire (de_crypto e))"
  shows "\<exists>r s'. check_tx e vm tx False n now s = Some (r, s') \<and> mempool_inv e n (begin_tx s')"
proof -
  have ok: "mempool_ok e (begin_tx s)" using inv by (simp add: mempool_inv_def)
  obtain r s' where run: "check_tx e vm tx False n now s = Some (r, s')"
    and r: "case r of Inl err \<Rightarrow> s' = s
      | Inr events \<Rightarrow> mempool_txs_count e (begin_tx s) < n \<and>
         (\<exists>ds. events = map Removed ds @ [Included tx] \<and> set ds = ledger_tx_id e ` conflicts e tx (begin_tx s)) \<and>
         (\<forall>x \<in> conflicts e tx (begin_tx s). ledger_gas_price x < ledger_gas_price tx) \<and>
         (if False then s' = s
          else mempool_ok e (begin_tx s') \<and>
               pool e (begin_tx s') = insert (with_size e tx) (pool e (begin_tx s) - conflicts e tx (begin_tx s)))"
    using check_tx_spec [OF laws ok dec, of vm False n now] by blast
  show ?thesis
  proof (cases r)
    case (Inl err)
    with run r inv show ?thesis by simp
  next
    case (Inr events)
    with r have s': "mempool_txs_count e (begin_tx s) < n" "mempool_ok e (begin_tx s')"
        "pool e (begin_tx s') = insert (with_size e tx) (pool e (begin_tx s) - conflicts e tx (begin_tx s))" by simp_all
    have "length (spend_keys e tx) \<in> {1..4}"
      using preverifier.accepted_few_inputs [OF vm, of e tx False n now s events s'] run Inr by simp
    moreover have "card (pool e (begin_tx s')) \<le> Suc (card (pool e (begin_tx s)))"
      unfolding s'(3) by (simp add: card_insert_if pool_finite [OF laws] card_mono le_SucI)
    ultimately have "mempool_inv e n (begin_tx s')"
      using s' inv pool_ids_card [OF laws ok] pool_ids_card [OF laws s'(2)]
      by (auto simp: mempool_inv_def)
    with run show ?thesis by blast
  qed
qed

section \<open>Expiry\<close>

abbreviation fee_start :: "('mpk, 'msig, 's, 'it) db_env \<Rightarrow> 's db_tx \<Rightarrow> nat \<Rightarrow> 'it" where
  "fee_start e t n \<equiv> (it_next (de_rocksdb e) ^^ n)
     (it_seek_to_first (de_rocksdb e) (db_raw_iterator_cf (de_rocksdb e) MempoolFeesCf (tx_inner t)))"

lemma fee_start_item:
  fixes e :: "('mpk, 'msig, 's, 'it) db_env" and t :: "'s db_tx"
  assumes "db_laws e"
  defines "es \<equiv> tx_iterator_cf e MempoolFeesCf t"
  shows "it_valid (de_rocksdb e) (fee_start e t n) \<longleftrightarrow> n < length es"
    and "n < length es \<Longrightarrow> it_key (de_rocksdb e) (fee_start e t n) = Some (fst (es ! n))"
    and "n < length es \<Longrightarrow> it_value (de_rocksdb e) (fee_start e t n) = Some (snd (es ! n))"
proof -
  have "it_valid (de_rocksdb e) (fee_start e t n) = (n < length es) \<and>
      (n < length es \<longrightarrow> it_item (de_rocksdb e) (fee_start e t n) = Some (es ! n))"
    using assms(1) unfolding db_laws_def rocksdb_laws_def es_def tx_iterator_cf_def Let_def by blast
  then show "it_valid (de_rocksdb e) (fee_start e t n) \<longleftrightarrow> n < length es"
    and "n < length es \<Longrightarrow> it_key (de_rocksdb e) (fee_start e t n) = Some (fst (es ! n))"
    and "n < length es \<Longrightarrow> it_value (de_rocksdb e) (fee_start e t n) = Some (snd (es ! n))"
    by (auto simp: it_item_def split: option.splits if_splits) (metis fst_conv, metis snd_conv)
qed

text \<open>When a transaction came to the mempool.\<close>

definition arrived :: "('mpk, 'msig, 's, 'it) db_env \<Rightarrow> 's db_tx \<Rightarrow> ledger_tx \<Rightarrow> u64" where
  "arrived e t tx = (case tx_get_cf e MempoolFeesCf (fee_key e tx) t of Some v \<Rightarrow> from_be_bytes64 v | None \<Rightarrow> 0)"

lemma fee_entry:
  assumes "db_laws e" and "mempool_ok e t" and "(k, v) \<in> set (tx_iterator_cf e MempoolFeesCf t)"
  obtains tx where "tx \<in> pool e t" "k = fee_key e tx" "length v = 8" "from_be_bytes64 v = arrived e t tx"
proof -
  have v: "tx_get_cf e MempoolFeesCf k t = Some v" using assms(3) by (simp add: tx_iterator_entries(4) [OF assms(1)])
  from assms(2) v obtain tx where tx: "tx \<in> pool e t" "k = fee_key e tx" by (rule fee_owner)
  then obtain ts where "v = to_be_bytes64 ts" using mempool_okD(2) [OF assms(2) tx(1)] v by auto
  then have "length v = 8" by (simp add: to_be_bytes64_def)
  with tx v that show ?thesis by (simp add: arrived_def)
qed

definition expired_in ::
    "('mpk, 'msig, 's, 'it) db_env \<Rightarrow> 's db_tx \<Rightarrow> u64 \<Rightarrow> bytes set \<Rightarrow> hash set" where
  "expired_in e t ts ks = ledger_tx_id e ` {tx \<in> pool e t. fee_key e tx \<in> ks \<and> arrived e t tx \<le> ts}"

lemma expired_in_insert:
  assumes "tx \<in> pool e t"
  shows "expired_in e t ts (insert (fee_key e tx) ks) =
    (if arrived e t tx \<le> ts then {ledger_tx_id e tx} else {}) \<union> expired_in e t ts ks"
proof -
  have "x = tx" if "x \<in> pool e t" "fee_key e x = fee_key e tx" for x
    using pool_eqI [OF that(1) assms] fee_key_inj that(2) by blast
  then have "{x \<in> pool e t. fee_key e x \<in> insert (fee_key e tx) ks \<and> arrived e t x \<le> ts} =
      (if arrived e t tx \<le> ts then {tx} else {}) \<union> {x \<in> pool e t. fee_key e x \<in> ks \<and> arrived e t x \<le> ts}"
    using assms by auto
  then show ?thesis by (simp add: expired_in_def)
qed

lemma expired_from_at:
  assumes "db_laws e" and "mempool_ok e t"
  shows "\<exists>hs. expired_from e ts (fee_start e t n) txs = Some (Inr hs) \<and>
    set hs = set txs \<union> expired_in e t ts (fst ` set (drop n (tx_iterator_cf e MempoolFeesCf t)))"
proof (induction "length (tx_iterator_cf e MempoolFeesCf t) - n" arbitrary: n txs)
  case 0
  then show ?case
    using fee_start_item(1) [OF assms(1), of n t] by (subst expired_from.simps) (simp add: expired_in_def)
next
  case (Suc m)
  let ?es = "tx_iterator_cf e MempoolFeesCf t"
  have n: "n < length ?es" using Suc(2) by simp
  obtain k v where kv: "?es ! n = (k, v)" by force
  then have "(k, v) \<in> set ?es" using nth_mem [OF n] by simp
  from fee_entry [OF assms this] obtain tx where tx: "tx \<in> pool e t" "k = fee_key e tx" "length v = 8"
    "from_be_bytes64 v = arrived e t tx" by blast
  let ?txs = "if arrived e t tx \<le> ts then txs @ [ledger_tx_id e tx] else txs"
  have drop: "fst ` set (drop n ?es) = insert (fee_key e tx) (fst ` set (drop (Suc n) ?es))"
    using Cons_nth_drop_Suc [OF n, symmetric] kv tx(2) by simp
  have m: "m = length ?es - Suc n" using Suc(2) by simp
  have "expired_from e ts (fee_start e t n) txs = expired_from e ts (fee_start e t (Suc n)) ?txs"
    using fee_start_item [OF assms(1), of n t] n kv tx(2,3)
    by (subst expired_from.simps) (simp add: Let_def read_blob_def fee_key_reads [OF assms(1)] tx(4))
  moreover obtain hs where "expired_from e ts (fee_start e t (Suc n)) ?txs = Some (Inr hs)"
      "set hs = set ?txs \<union> expired_in e t ts (fst ` set (drop (Suc n) ?es))"
    using Suc(1) [OF m, of ?txs] by blast
  moreover have "set ?txs = set txs \<union> (if arrived e t tx \<le> ts then {ledger_tx_id e tx} else {})" by simp
  ultimately show ?case by (simp only: drop expired_in_insert [OF tx(1)] Un_assoc) blast
qed

lemma expired_txs_spec:
  assumes "db_laws e" and "mempool_ok e t"
  shows "\<exists>hs. mempool_expired_txs e ts t = Some (Inr hs) \<and> set hs = ledger_tx_id e ` {tx \<in> pool e t. arrived e t tx \<le> ts}"
proof -
  have "fee_key e tx \<in> fst ` set (tx_iterator_cf e MempoolFeesCf t)" if "tx \<in> pool e t" for tx
    using mempool_okD(2) [OF assms(2) that] by (auto simp: iterator_keys [OF assms(1)])
  then have "expired_in e t ts (fst ` set (drop 0 (tx_iterator_cf e MempoolFeesCf t))) =
      ledger_tx_id e ` {tx \<in> pool e t. arrived e t tx \<le> ts}"
    by (auto simp: expired_in_def)
  with expired_from_at [OF assms, of ts 0 "[]"] show ?thesis by (simp add: mempool_expired_txs_def)
qed

lemma remove_expired_spec:
  assumes "db_laws e" and "mempool_ok e t" and "index_small e t"
  shows "\<exists>ds hs t'. remove_expired e ts t = Some (ds, t') \<and> removes e hs t t' \<and>
           (\<forall>tx \<in> pool e t'. arrived e t' tx > ts)"
proof -
  obtain ids where ids: "mempool_expired_txs e ts t = Some (Inr ids)"
      "set ids = ledger_tx_id e ` {tx \<in> pool e t. arrived e t tx \<le> ts}"
    using expired_txs_spec [OF assms(1,2)] by blast
  obtain ds hs t' where t': "delete_logged e True ids t = Some (ds, t')" "removes e hs t t'" "set ids \<subseteq> hs"
    using delete_logged_spec [OF assms(1,2), of True ids] assms(3) by blast
  have "arrived e t' tx > ts" if tx: "tx \<in> pool e t'" for tx
  proof -
    have "tx \<in> pool e t" "ledger_tx_id e tx \<notin> hs" using tx t'(2) by (auto simp: removes_def)
    with t'(3) ids(2) have "\<not> arrived e t tx \<le> ts" by auto
    moreover have "tx_get_cf e MempoolFeesCf (fee_key e tx) t' \<noteq> None"
      using mempool_okD(2) [OF removes_ok [OF t'(2)] tx] by auto
    then have "tx_get_cf e MempoolFeesCf (fee_key e tx) t' = tx_get_cf e MempoolFeesCf (fee_key e tx) t"
      using t'(2) unfolding removes_def by metis
    then have "arrived e t' tx = arrived e t tx" by (simp add: arrived_def)
    ultimately show ?thesis by simp
  qed
  with ids(1) t' show ?thesis by (auto simp: remove_expired_def)
qed

section \<open>What the chain removes\<close>

lemma remove_included_spec:
  assumes "db_laws e" and "mempool_ok e t"
  shows "\<exists>ds hs t'. remove_included e txs t = Some (ds, t') \<and> removes e hs t t' \<and>
           (\<forall>tx \<in> set txs. conflicts e tx t' = {} \<and> ledger_tx_id e tx \<notin> pool_ids e t')"
  using assms(2)
proof (induction txs arbitrary: t)
  case Nil
  then show ?case using removes_refl [of e t "{}"] by auto
next
  case (Cons tx txs)
  obtain d1 t1 where t1: "delete_logged e False [ledger_tx_id e tx] t = Some (d1, t1)" "removes e {ledger_tx_id e tx} t t1"
    using delete_logged_spec [OF assms(1) Cons.prems, of False "[ledger_tx_id e tx]"] by auto
  let ?ids = "mempool_txs_by_spendable_ids e (to_spend_ids (nc_wire (de_crypto e)) tx) t1"
  note ok1 = removes_ok [OF t1(2)]
  obtain d2 t2 where t2: "delete_logged e False ?ids t1 = Some (d2, t2)" "removes e (set ?ids) t1 t2"
    using delete_logged_spec [OF assms(1) ok1, of False ?ids] by auto
  obtain d3 hs3 t3 where t3: "remove_included e txs t2 = Some (d3, t3)" "removes e hs3 t2 t3"
      "\<forall>tx \<in> set txs. conflicts e tx t3 = {} \<and> ledger_tx_id e tx \<notin> pool_ids e t3"
    using Cons.IH [OF removes_ok [OF t2(2)]] by blast
  have "conflicts e tx t3 = {}"
  proof -
    have "x \<notin> conflicts e tx t1" if "x \<in> pool e t3" for x
      using that t2(2) t3(2) conflict_ids [OF assms(1) ok1, of tx] by (auto simp: removes_def)
    moreover have "pool e t3 \<subseteq> pool e t1" using t2(2) t3(2) by (auto simp: removes_def)
    ultimately show ?thesis by (auto simp: conflicts_def)
  qed
  moreover have "ledger_tx_id e tx \<notin> pool_ids e t3"
    using removes_ids [OF t1(2)] removes_ids [OF t2(2)] removes_ids [OF t3(2)] by simp
  ultimately show ?case
    using t1(1) t2(1) t3(1,3) removes_trans [OF t1(2) removes_trans [OF t2(2) t3(2)]]
    by (intro exI [of _ "d1 @ d2 @ d3"] exI [of _ "{ledger_tx_id e tx} \<union> (set ?ids \<union> hs3)"] exI [of _ t3]) auto
qed

section \<open>Histories\<close>

text \<open>
  A step is an event of the service, the clean-up after a block, the removal of what could not be executed, or a change
  of the database that leaves the mempool alone.
\<close>

definition event_decodes :: "('mpk, 'msig, 's, 'it) db_env \<Rightarrow> mempool_event \<Rightarrow> bool" where
  "event_decodes e ev = (case ev of Idle _ \<Rightarrow> True | Inbound tx _ \<Rightarrow> tx_decodes (de_crypto e) tx)"

inductive mempool_step :: "('mpk, 'msig, 's, 'it) db_env \<Rightarrow> mempool_params \<Rightarrow> 's \<Rightarrow> 's \<Rightarrow> bool" for e conf where
  service: "preverifier vm (nc_wire (de_crypto e)) \<Longrightarrow> event_decodes e ev \<Longrightarrow>
    mempool_service e vm conf ev s = Some (Inr (out, s')) \<Longrightarrow> mempool_step e conf s s'"
| block: "remove_included e txs (begin_tx s) = Some (ds, t) \<Longrightarrow> mempool_step e conf s (tx_inner t)"
| discarded: "remove_discarded e txs (begin_tx s) = Some (ds, t) \<Longrightarrow> mempool_step e conf s (tx_inner t)"
| elsewhere: "(\<And>c k. c \<in> {MempoolCf, MempoolSpendingIdCf, MempoolFeesCf} \<Longrightarrow>
      tx_get_cf e c k (begin_tx s') = tx_get_cf e c k (begin_tx s)) \<Longrightarrow> mempool_step e conf s s'"

inductive_cases mempool_stepE: "mempool_step e conf s s'"

abbreviation pool_limit :: "mempool_params \<Rightarrow> nat" where
  "pool_limit conf \<equiv> mp_max_mempool_txn_count conf"

lemma idle_spec:
  assumes "db_laws e" and "mempool_inv e n (begin_tx s)" and "4 * n < 2 ^ 64"
  shows "(\<exists>p. on_idle e conf now s = Some (Inl p)) \<or>
    (\<exists>out s'. on_idle e conf now s = Some (Inr (out, s')) \<and> mempool_inv e n (begin_tx s'))"
proof -
  have "mempool_ok e (begin_tx s)" using assms(2) by (simp add: mempool_inv_def)
  from remove_expired_spec [OF assms(1) this inv_index_small [OF assms]] show ?thesis
    using removes_inv [OF assms(1,2)] inv_begin [OF assms(1)]
    by (fastforce simp: on_idle_def Let_def split: sum.splits)
qed

lemma accept_tx_spec:
  assumes "db_laws e" and "mempool_inv e (pool_limit conf) (begin_tx s)" and "tx_decodes (de_crypto e) tx"
    and "preverifier vm (nc_wire (de_crypto e))"
  shows "(\<exists>p. accept_tx e vm conf tx now s = Some (Inl p)) \<or>
    (\<exists>out s'. accept_tx e vm conf tx now s = Some (Inr (out, s')) \<and> mempool_inv e (pool_limit conf) (begin_tx s'))"
  using check_tx_inv [OF assms, of now]
  by (auto simp: accept_tx_def split: sum.splits tx_acceptance_error.splits)

lemma mempool_service_spec:
  assumes "db_laws e" and "mempool_inv e (pool_limit conf) (begin_tx s)" and "event_decodes e ev"
    and "preverifier vm (nc_wire (de_crypto e))" and "4 * pool_limit conf < 2 ^ 64"
  shows "(\<exists>p. mempool_service e vm conf ev s = Some (Inl p)) \<or>
    (\<exists>out s'. mempool_service e vm conf ev s = Some (Inr (out, s')) \<and> mempool_inv e (pool_limit conf) (begin_tx s'))"
proof (cases ev)
  case (Idle now)
  with idle_spec [OF assms(1,2,5)] show ?thesis by (simp add: mempool_service_def)
next
  case (Inbound tx now)
  with accept_tx_spec [OF assms(1,2) _ assms(4)] assms(3) show ?thesis
    by (simp add: mempool_service_def event_decodes_def)
qed

lemma mempool_step_inv:
  assumes "mempool_step e conf s s'" and laws: "db_laws e" and inv: "mempool_inv e (pool_limit conf) (begin_tx s)"
    and n: "4 * pool_limit conf < 2 ^ 64"
  shows "mempool_inv e (pool_limit conf) (begin_tx s')"
  using assms(1)
proof cases
  case (service vm ev out)
  then show ?thesis using mempool_service_spec [OF laws inv service(2,1) n] by auto
next
  case (block txs ds t)
  have "mempool_ok e (begin_tx s)" using inv by (simp add: mempool_inv_def)
  from remove_included_spec [OF laws this, of txs] block show ?thesis
    using removes_inv [OF laws inv] inv_begin [OF laws] by auto
next
  case (discarded txs ds t)
  have "mempool_ok e (begin_tx s)" using inv by (simp add: mempool_inv_def)
  from delete_logged_spec [OF laws this, of True "map (ledger_tx_id e) txs"] inv_index_small [OF laws inv n] discarded show ?thesis
    using removes_inv [OF laws inv] inv_begin [OF laws] by (auto simp: remove_discarded_def)
next
  case elsewhere
  show ?thesis using elsewhere by (intro inv_cong [OF laws inv]) simp
qed

definition mempool_empty :: "('mpk, 'msig, 's, 'it) db_env \<Rightarrow> 's \<Rightarrow> bool" where
  "mempool_empty e s \<longleftrightarrow>
     (\<forall>c \<in> {MempoolCf, MempoolSpendingIdCf, MempoolFeesCf}. \<forall>k. tx_get_cf e c k (begin_tx s) = None)"

lemma mempool_empty_inv:
  assumes "db_laws e" and "mempool_empty e s"
  shows "mempool_inv e n (begin_tx s)"
proof -
  have "tx_get_cf e MempoolCf k (begin_tx s) = None" for k using assms(2) by (simp add: mempool_empty_def)
  then have "pool e (begin_tx s) = {}" by (auto dest!: pool_stored)
  moreover from this assms(2) have "mempool_ok e (begin_tx s)" by (simp add: mempool_ok_def mempool_empty_def)
  ultimately show ?thesis using pool_ids_card [OF assms(1)] by (simp add: mempool_inv_def)
qed

lemma mempool_reachable_inv:
  assumes "(mempool_step e conf)\<^sup>*\<^sup>* s0 s" and "db_laws e" and "mempool_empty e s0" and "4 * pool_limit conf < 2 ^ 64"
  shows "mempool_inv e (pool_limit conf) (begin_tx s)"
  using assms(1)
  by (induction rule: rtranclp_induct)
    (simp_all add: mempool_empty_inv [OF assms(2,3)] mempool_step_inv [OF _ assms(2) _ assms(4)])

lemma idle_removes_expired:
  assumes "db_laws e" and "mempool_inv e n (begin_tx s)" and "4 * n < 2 ^ 64"
    and "on_idle e conf now s = Some (Inr (out, s'))" and "tx \<in> pool e (begin_tx s')"
  shows "arrived e (begin_tx s') tx >
    now - (case mp_mempool_expiry conf of None \<Rightarrow> DEFAULT_EXPIRY_TIME | Some d \<Rightarrow> d)"
proof -
  let ?ts = "now - (case mp_mempool_expiry conf of None \<Rightarrow> DEFAULT_EXPIRY_TIME | Some d \<Rightarrow> d)"
  have "mempool_ok e (begin_tx s)" using assms(2) by (simp add: mempool_inv_def)
  then obtain ds t' where t': "remove_expired e ?ts (begin_tx s) = Some (ds, t')" "\<forall>tx \<in> pool e t'. arrived e t' tx > ?ts"
    using remove_expired_spec [OF assms(1) _ inv_index_small [OF assms(1-3)]] by blast
  with assms(4) have "s' = tx_inner t'" by (auto simp: on_idle_def Let_def sub_chk_Inr split: sum.splits)
  with t'(2) assms(5) show ?thesis by (simp add: begin_tx_same arrived_def)
qed

text \<open>
  C16: The mempool is consistent in every history.  From an empty mempool, whatever transactions arrive, expire or are removed
  by the chain, in whatever order: the transactions are stored under their identifiers with exact indexes, there are never
  more of them than configured, and no two of them spend the same nullifier or the same nonce of an account; the service
  always answers, the timer leaves no expired transaction, and a block leaves none that spends what the block spent.
\<close>

theorem mempool_history_consistent:
  assumes "db_laws e" and "mempool_empty e s0" and "4 * pool_limit conf < 2 ^ 64" and "(mempool_step e conf)\<^sup>*\<^sup>* s0 s"
  shows "mempool_ok e (begin_tx s) \<and> mempool_txs_count e (begin_tx s) \<le> pool_limit conf \<and>
    (\<forall>x \<in> pool e (begin_tx s). \<forall>y \<in> pool e (begin_tx s). x \<noteq> y \<longrightarrow> set (spend_keys e x) \<inter> set (spend_keys e y) = {}) \<and>
    (\<forall>vm ev. preverifier vm (nc_wire (de_crypto e)) \<and> event_decodes e ev \<longrightarrow> mempool_service e vm conf ev s \<noteq> None) \<and>
    (\<forall>now out s'. on_idle e conf now s = Some (Inr (out, s')) \<longrightarrow>
       (\<forall>tx \<in> pool e (begin_tx s'). arrived e (begin_tx s') tx >
          now - (case mp_mempool_expiry conf of None \<Rightarrow> DEFAULT_EXPIRY_TIME | Some d \<Rightarrow> d))) \<and>
    (\<forall>txs. \<exists>ds t. remove_included e txs (begin_tx s) = Some (ds, t) \<and> (\<forall>tx \<in> set txs. conflicts e tx t = {}))"
proof -
  have inv: "mempool_inv e (pool_limit conf) (begin_tx s)" by (rule mempool_reachable_inv [OF assms(4,1-3)])
  then have ok: "mempool_ok e (begin_tx s)" by (simp add: mempool_inv_def)
  have "mempool_service e vm conf ev s \<noteq> None" if "preverifier vm (nc_wire (de_crypto e))" "event_decodes e ev" for vm ev
    using mempool_service_spec [OF assms(1) inv that(2,1) assms(3)] by auto
  moreover have "\<exists>ds t. remove_included e txs (begin_tx s) = Some (ds, t) \<and> (\<forall>tx \<in> set txs. conflicts e tx t = {})" for txs
    using remove_included_spec [OF assms(1) ok, of txs] by blast
  ultimately show ?thesis
    using inv ok pool_no_conflict [OF ok] idle_removes_expired [OF assms(1) inv assms(3)]
    by (simp add: mempool_inv_def) blast
qed

section \<open>A message that ends the service\<close>

lemma all_sender_inputs_panic:
  assumes "n \<in> set ns" and "h_note_sender h n = ContractInfo c"
  shows "all_sender_inputs h ns = Inl (Panic ''All output-notes must provide a sender-encryption'')"
  using assms(1)
proof (induction ns)
  case (Cons m ns)
  then show ?case using assms(2)
    by (cases "h_note_sender h m") (auto simp: sender_inputs_def res_map_def)
qed simp

text \<open>
  C27: Anyone can end the mempool service of a node.  A Phoenix transaction with one to four fresh nullifiers and an output
  note whose sender is not encrypted makes \<open>public_inputs\<close> panic while it is preverified, before its proof is looked at;
  the panic ends the task that handles transactions.
\<close>

theorem contract_sender_stops_mempool:
  assumes "lt_inner tx = Phoenix p" and "n \<in> set (pt_outputs p)" and "h_note_sender h n = ContractInfo c"
    and "length (pt_nullifiers p) \<in> {1..4}" and "distinct (pt_nullifiers p)"
    and "\<forall>nf \<in> set (pt_nullifiers p). bm_get (tf_nullifiers (tw_state w)) nf = None"
    and "check_gas (rusk_vm h wr pw w a b d g) tx = None"
    and "check_known e tx (mp_max_mempool_txn_count conf) (begin_tx s) = Inr del"
  shows "accept_tx e (rusk_vm h wr pw w a b d g) conf tx now s =
           Some (Inl (Panic ''All output-notes must provide a sender-encryption''))"
proof -
  have "pt_public_inputs h pw p = Inl (Panic ''All output-notes must provide a sender-encryption'')"
    using all_sender_inputs_panic [OF assms(2) [unfolded pt_outputs_def] assms(3)]
    by (simp add: pt_public_inputs_def Let_def)
  moreover obtain vd where "tx_circuit_verifier h (length (pt_nullifiers p)) = Some vd"
  proof -
    have "length (pt_nullifiers p) = 1 \<or> length (pt_nullifiers p) = 2 \<or> length (pt_nullifiers p) = 3 \<or> length (pt_nullifiers p) = 4"
      using assms(4) by auto
    then show ?thesis using that by (auto simp: tx_circuit_verifier_def)
  qed
  ultimately have "verify_proof h pw p = Inl (PreverifyPanic (Panic ''All output-notes must provide a sender-encryption''))"
    by (simp add: verify_proof_def)
  moreover have "existing_nullifiers (pt_nullifiers p) w = []" using assms(6) by (simp add: existing_nullifiers_empty)
  ultimately have "preverify h wr pw tx w = Inl (PreverifyPanic (Panic ''All output-notes must provide a sender-encryption''))"
    using assms(1,5) by (simp add: preverify_def preverify_phoenix_def)
  then show ?thesis
    using assms(7,8) by (simp add: accept_tx_def check_tx_def lift_preverify_def rusk_vm_def)
qed

end
