(* ===== verification/Mempool_Witness.thy ===== *)
theory Mempool_Witness
  imports Mempool_History
begin

text \<open>The theorems on the mempool at a concrete database, node and transaction.\<close>

definition mempool_vm0 :: vm_execution where
  "mempool_vm0 = rusk_vm host0 wire32 phoenix_wire0 sample_world 1 1 1 1"

definition conf0 :: mempool_params where
  "conf0 = \<lparr>mp_max_mempool_txn_count = 10, mp_mempool_expiry = None\<rparr>"

lemma empty_reads: "tx_get_cf db_env0 c k (begin_tx empty_db) = None"
  by (simp add: tx_get_cf_def db_env0_def rocksdb0_def begin_tx_def empty_db_def)

lemma empty_counts: "mempool_txs_count db_env0 (begin_tx empty_db) = 0"
  by (simp add: mempool_txs_count_def tx_iterator_cf_def db_env0_def rocksdb0_def begin_tx_def empty_db_def)

lemma empty_mempool: "mempool_empty db_env0 empty_db" "mempool_ok db_env0 (begin_tx empty_db)" "pool db_env0 (begin_tx empty_db) = {}"
  by (auto simp: mempool_empty_def mempool_ok_def empty_reads dest!: pool_stored)

lemma check_known_empty: "n > 0 \<Longrightarrow> check_known db_env0 tx n (begin_tx empty_db) = Inr None"
  by (simp add: check_known_def mempool_tx_exists_def ledger_tx_exists_def empty_reads empty_counts)

lemma sample_preverified: "preverify host0 wire32 phoenix_wire0 ledger_tx0 sample_world = Inr PreverifyValid"
  by (simp add: preverify_def ledger_tx0_def ledger_tx_from_def moonlight0_def preverify_moonlight_def max_value_spent_def
      moonlight_accessors account_def bm_get_or_def verify_moonlight_signature_def sample_defs mul_chk_def add_chk_def)

lemma sample_gas_ok: "check_gas mempool_vm0 ledger_tx0 = None"
  by (simp add: check_gas_def ledger_gas_price_def mempool_vm0_def rusk_vm_def ledger_tx0_def ledger_tx_from_def tx_gas_price_def
      tx_gas_limit_def tx_deploy_def mt_deploy_def data_deploy_def moonlight0_def moonlight_accessors sample_payload_def)

lemma sample_decodes: "tx_decodes (de_crypto db_env0) ledger_tx0"
  using ledger_tx0_ok32 by (simp add: db_env0_def ledger_tx_ok_def)

lemma sample_accepted:
  "\<exists>s'. check_tx db_env0 mempool_vm0 ledger_tx0 False 10 7 empty_db = Some (Inr [Included ledger_tx0], s')"
proof -
  have "insert_tx db_env0 ledger_tx0 None 7 (begin_tx empty_db) =
      Some (Inr ([Included ledger_tx0], store_mempool_tx db_env0 ledger_tx0 7 (begin_tx empty_db)))"
    by (simp add: insert_tx_def mempool_txs_by_spendable_ids_def lookup_spending_id_def empty_reads map_filter_def)
      (simp add: db_env0_def)
  then show ?thesis
    using sample_preverified sample_gas_ok
    by (simp add: check_tx_def check_known_empty check_future_nonce_def update_dry_run_def mempool_vm0_def rusk_vm_def)
qed

theorem check_tx_refines_witness:
  "\<exists>s'. check_tx db_env0 mempool_vm0 ledger_tx0 False 10 7 empty_db = Some (Inr [Included ledger_tx0], s') \<and>
     mempool_ok db_env0 (begin_tx s') \<and> pool db_env0 (begin_tx s') = {ledger_tx0}"
proof -
  have "with_size db_env0 ledger_tx0 = ledger_tx0"
    using ledger_tx0_ok32 by (simp add: with_size_def ledger_tx_ok_def db_env0_def)
  with sample_accepted check_tx_refines [OF db_env0_laws empty_mempool(2) sample_decodes, of mempool_vm0 False 10 7]
  show ?thesis by (auto simp: empty_mempool(3))
qed

text \<open>The database after that, and a transaction of another account that pays more.\<close>

definition one_db :: memory where
  "one_db = tx_inner (store_mempool_tx db_env0 ledger_tx0 7 (begin_tx empty_db))"

definition richer_tx :: ledger_tx where
  "richer_tx = ledger_tx_from (Moonlight \<lparr>mt_payload = sample_payload
     \<lparr>mp_sender := BlsPublicKey 8, mp_fee := \<lparr>mf_gas_limit = 10, mf_gas_price = 5000, mf_refund_address = BlsPublicKey 8\<rparr>\<rparr>,
     mt_signature = BlsSignature 3\<rparr>)"

lemma one_mempool:
  "mempool_ok db_env0 (begin_tx one_db)" "pool db_env0 (begin_tx one_db) = {ledger_tx0}"
  "mempool_txs_count db_env0 (begin_tx one_db) = 1"
proof -
  have with_size: "with_size db_env0 ledger_tx0 = ledger_tx0"
    using ledger_tx0_ok32 by (simp add: with_size_def ledger_tx_ok_def db_env0_def)
  show ok: "mempool_ok db_env0 (begin_tx one_db)"
    unfolding one_db_def begin_tx_same
    by (rule store_mempool_ok [OF db_env0_laws empty_mempool(2) sample_decodes]) (simp_all add: empty_reads)
  show pool: "pool db_env0 (begin_tx one_db) = {ledger_tx0}"
    unfolding one_db_def begin_tx_same
    by (simp add: store_pool [OF db_env0_laws sample_decodes] empty_reads with_size empty_mempool(3))
  show "mempool_txs_count db_env0 (begin_tx one_db) = 1"
    by (simp add: pool_ids_card [OF db_env0_laws ok] pool)
qed

lemma first_byte: "hd (to_le_bytes (x :: u64) @ r) = of_nat (unat x mod 256)"
proof -
  have "to_le_bytes x = le_bytes (Suc 7) (unat x)" by (simp add: to_le_bytes_def)
  then show ?thesis by (simp only: le_bytes.simps append_Cons list.sel)
qed

lemma hash_first:
  assumes "mp_sender (mt_payload m) = BlsPublicKey x"
  shows "tx_hash (de_hash_to_scalar db_env0) (nc_wire (de_crypto db_env0)) pw (Moonlight m) =
    BlsScalar (ucast (of_nat (unat x mod 256) :: u8))"
proof -
  have "w_pk_to_bytes wire32 (BlsPublicKey x) = to_le_bytes x" by (simp add: wire32_def wire0_def)
  then have "\<exists>r. mt_to_hash_input_bytes wire32 m = mp_chain_id (mt_payload m) # to_le_bytes x @ r"
    by (simp add: mt_to_hash_input_bytes_def payload_signature_message_def assms)
  then have "hd (tl (mt_to_hash_input_bytes wire32 m)) = of_nat (unat x mod 256)" by (auto simp: first_byte)
  then show ?thesis by (simp add: tx_hash_def db_env0_def crypto32_def)
qed

lemma richer_new: "ledger_tx_id db_env0 richer_tx \<noteq> ledger_tx_id db_env0 ledger_tx0"
proof
  assume eq: "ledger_tx_id db_env0 richer_tx = ledger_tx_id db_env0 ledger_tx0"
  have "ledger_tx_id db_env0 richer_tx = to_le_bytes (8 :: u64) @ replicate 24 0"
    "ledger_tx_id db_env0 ledger_tx0 = to_le_bytes (7 :: u64) @ replicate 24 0"
    by (simp_all add: ledger_tx_id_def richer_tx_def ledger_tx0_def ledger_tx_from_def hash_first moonlight0_def
        sample_payload_def) (simp_all add: db_env0_def crypto32_def wire32_def)
  with eq have "to_le_bytes (8 :: u64) = to_le_bytes (7 :: u64)" by simp
  then have "(from_le_bytes (to_le_bytes (8 :: u64)) :: u64) = from_le_bytes (to_le_bytes (7 :: u64))" by (rule arg_cong)
  then show False by (subst (asm) (1 2) from_to_le_bytes [where n = 8]) simp_all
qed

theorem full_mempool_refuses_witness:
  "ledger_gas_price richer_tx > ledger_gas_price ledger_tx0 \<and> mempool_txs_count db_env0 (begin_tx one_db) = 1 \<and>
   check_tx db_env0 mempool_vm0 richer_tx False 1 7 one_db = Some (Inl (Generic (DbError ''Cannot get lowest fee tx'')), one_db)"
proof -
  have gas: "check_gas mempool_vm0 richer_tx = None"
    by (simp add: check_gas_def ledger_gas_price_def mempool_vm0_def rusk_vm_def richer_tx_def ledger_tx_from_def tx_gas_price_def
        tx_gas_limit_def tx_deploy_def mt_deploy_def data_deploy_def moonlight_accessors sample_payload_def)
  have "\<not> mempool_tx_exists db_env0 (ledger_tx_id db_env0 richer_tx) (begin_tx one_db)"
    using richer_new unfolding one_db_def mempool_tx_exists_def begin_tx_same
    by (simp add: store_mempool_columns [OF db_env0_laws] empty_reads)
  moreover have "\<not> ledger_tx_exists db_env0 (ledger_tx_id db_env0 richer_tx) (begin_tx one_db)"
    unfolding one_db_def ledger_tx_exists_def begin_tx_same
    by (simp add: store_mempool_columns [OF db_env0_laws] empty_reads)
  ultimately have "check_tx db_env0 mempool_vm0 richer_tx False 1 7 one_db =
      Some (Inl (Generic (DbError ''Cannot get lowest fee tx'')), one_db)"
    using one_mempool(3) gas by (intro full_mempool_refuses [OF db_env0_laws]) simp_all
  then show ?thesis
    by (simp add: one_mempool(3) ledger_gas_price_def richer_tx_def ledger_tx0_def ledger_tx_from_def tx_gas_price_def
        moonlight0_def moonlight_accessors sample_payload_def)
qed

theorem mempool_sorted_by_fee_witness:
  "set (mempool_items db_env0 (begin_tx one_db) 3 (mempool_txs_ids_sorted_by_fee db_env0 (begin_tx one_db))) = {ledger_tx0}"
  using mempool_sorted_by_fee [OF db_env0_laws one_mempool(1), of 3] one_mempool(2,3) by simp

lemma vm0_preverifies: "preverifier mempool_vm0 (nc_wire (de_crypto db_env0))"
  unfolding mempool_vm0_def by (rule rusk.preverifier_axioms)

lemma one_step: "mempool_step db_env0 conf0 empty_db one_db"
proof (rule service [OF vm0_preverifies])
  show "event_decodes db_env0 (Inbound ledger_tx0 7)" by (simp add: event_decodes_def sample_decodes)
  have "insert_tx db_env0 ledger_tx0 None 7 (begin_tx empty_db) =
      Some (Inr ([Included ledger_tx0], store_mempool_tx db_env0 ledger_tx0 7 (begin_tx empty_db)))"
    by (simp add: insert_tx_def mempool_txs_by_spendable_ids_def lookup_spending_id_def empty_reads map_filter_def)
      (simp add: db_env0_def)
  then have "check_tx db_env0 mempool_vm0 ledger_tx0 False 10 7 empty_db = Some (Inr [Included ledger_tx0], one_db)"
    using sample_preverified sample_gas_ok
    by (simp add: check_tx_def check_known_empty check_future_nonce_def update_dry_run_def mempool_vm0_def rusk_vm_def one_db_def)
  then show "mempool_service db_env0 mempool_vm0 conf0 (Inbound ledger_tx0 7) empty_db =
      Some (Inr ([Notify (Included ledger_tx0), BroadcastTx ledger_tx0], one_db))"
    by (simp add: mempool_service_def accept_tx_def conf0_def)
qed

theorem mempool_history_consistent_witness:
  "pool db_env0 (begin_tx one_db) = {ledger_tx0} \<and> mempool_ok db_env0 (begin_tx one_db) \<and>
   mempool_txs_count db_env0 (begin_tx one_db) \<le> 10 \<and>
   mempool_service db_env0 mempool_vm0 conf0 (Inbound ledger_tx0 8) one_db \<noteq> None \<and>
   (\<exists>ds t. remove_included db_env0 [ledger_tx0] (begin_tx one_db) = Some (ds, t) \<and> conflicts db_env0 ledger_tx0 t = {})"
proof -
  have "(mempool_step db_env0 conf0)\<^sup>*\<^sup>* empty_db one_db" using one_step
    by (rule r_into_rtranclp [of "mempool_step db_env0 conf0" empty_db one_db])
  note history = mempool_history_consistent [OF db_env0_laws empty_mempool(1) _ this]
  have bound: "4 * pool_limit conf0 < 2 ^ 64" "pool_limit conf0 = 10" by (simp_all add: conf0_def)
  have "event_decodes db_env0 (Inbound ledger_tx0 8)" by (simp add: event_decodes_def sample_decodes)
  then have "mempool_service db_env0 mempool_vm0 conf0 (Inbound ledger_tx0 8) one_db \<noteq> None"
    using history [OF bound(1)] vm0_preverifies by blast
  moreover have "\<exists>ds t. remove_included db_env0 [ledger_tx0] (begin_tx one_db) = Some (ds, t) \<and>
      (\<forall>tx \<in> set [ledger_tx0]. conflicts db_env0 tx t = {})"
    using history [OF bound(1)] by blast
  ultimately show ?thesis using history [OF bound(1)] one_mempool(2) bound(2) by auto
qed

text \<open>Preverification and the contract.\<close>

theorem preverified_spendable_witness:
  "is_ok (spend_and_execute host0 wire32 phoenix_wire0 ext0 (lt_inner ledger_tx0) sample_world) \<and>
   \<not> is_ok (spend_and_execute (host0\<lparr>h_chain_id := 2\<rparr>) wire32 phoenix_wire0 ext0 (lt_inner ledger_tx0) sample_world)"
proof -
  have total: "accounts_total sample_world < 2 ^ 64"
    by (simp add: accounts_total_def sample_defs bm_sum_def)
  have p2: "preverify (host0\<lparr>h_chain_id := 2\<rparr>) wire32 phoenix_wire0 ledger_tx0 sample_world = Inr PreverifyValid"
    by (simp add: preverify_def ledger_tx0_def ledger_tx_from_def moonlight0_def preverify_moonlight_def max_value_spent_def
        moonlight_accessors account_def bm_get_or_def verify_moonlight_signature_def sample_defs mul_chk_def add_chk_def)
  have tx: "tx_gas_price (lt_inner ledger_tx0) > 0" "tx_gas_limit (lt_inner ledger_tx0) > 0"
      and dep: "tx_deposit_ok (lt_inner ledger_tx0)"
    by (simp_all add: ledger_tx0_def ledger_tx_from_def moonlight0_def tx_gas_price_def tx_gas_limit_def tx_deposit_def
        tx_deposit_ok_def tx_call_def mt_call_def data_call_def moonlight_accessors sample_payload_def)
  show ?thesis
    using preverified_spendable [OF sample_preverified tx total, of ext0] preverified_spendable [OF p2 tx total, of ext0] dep
    by (simp add: tx_chain_ok_def tx_root_ok_def ledger_tx0_def ledger_tx_from_def moonlight0_def moonlight_accessors
        sample_payload_def host0_def)
qed

definition plain_host :: host where
  "plain_host = host0\<lparr>h_note_sender := (\<lambda>_. ContractInfo [])\<rparr>"

theorem contract_sender_stops_mempool_witness:
  "accept_tx db_env0 (rusk_vm plain_host wire32 phoenix_wire0 rooted_world 1 1 1 0) conf0
     (ledger_tx_from (Phoenix (sample_spend\<lparr>pt_payload := (pt_payload sample_spend)\<lparr>pp_fee := large_fee\<rparr>\<rparr>))) 7 empty_db =
   Some (Inl (Panic ''All output-notes must provide a sender-encryption''))"
proof (rule contract_sender_stops_mempool [where del = None and n = "NoteRepr [5, 0]" and c = "[]"
      and p = "sample_spend\<lparr>pt_payload := (pt_payload sample_spend)\<lparr>pp_fee := large_fee\<rparr>\<rparr>"])
  show "check_known db_env0 tx (mp_max_mempool_txn_count conf0) (begin_tx empty_db) = Inr None" for tx
    by (rule check_known_empty) (simp add: conf0_def)
  show "h_note_sender plain_host (NoteRepr [5, 0]) = ContractInfo []" by (simp add: plain_host_def)
qed (simp_all add: ledger_tx_from_def phoenix_accessors sample_spend_def sample_phoenix_def large_fee_def rooted_world_def
      sample_defs check_gas_def ledger_gas_price_def rusk_vm_def tx_gas_price_def tx_gas_limit_def pt_gas_limit_def
      tx_deploy_def pt_deploy_def data_deploy_def)

end
