(* ===== verification/Chain_Provisioners.thy ===== *)
theory Chain_Provisioners
  imports Node_Stakes Consensus_Committee
begin

text \<open>
  The provisioners a node keeps for the next block.  After a block they are updated from the events of the block
  (\<open>selective_update\<close> of \<^verbatim>\<open>node/src/chain/acceptor.rs\<close>); when that fails, and after a restart, they are read
  from the stake contract (\<^verbatim>\<open>rusk/src/lib/node/vm.rs\<close>).  The two ways agree on the provisioners that can be drawn,
  with one exception: a stake whose free funds were all taken out and that is topped up later.
\<close>

section \<open>Reading the contract\<close>

definition to_stake :: "stake_data \<Rightarrow> cstake" where
  "to_stake s =
     (let stake_amount = (case sd_amount s of
                            Some a \<Rightarrow> a
                          | None \<Rightarrow> \<lparr>am_value = 0, am_locked = 0, am_eligibility = 0\<rparr>)
      in \<lparr>cs_value = am_value stake_amount, cs_eligible_since = am_eligibility stake_amount\<rparr>)"

definition query_provisioners :: "wire \<Rightarrow> 'r sworld_scheme \<Rightarrow> provisioners" where
  "query_provisioners wr w =
     fold (\<lambda>(keys, s). add_member_with_stake (w_pk_to_bytes wr (sk_account keys)) (to_stake s)) (stakes w) bm_empty"

definition query_provisioners_change :: "wire \<Rightarrow> 'r sworld_scheme \<Rightarrow> (public_key \<times> cstake option) list" where
  "query_provisioners_change wr w =
     map (\<lambda>(pk, s). (w_pk_to_bytes wr pk, map_option to_stake s)) (prev_state_changes w)"

text \<open>The provisioners of a tip, read from its state: after a restart and after a revert.\<close>

definition read_provisioners :: "wire \<Rightarrow> 'r sworld_scheme \<Rightarrow> context_provisioners" where
  "read_provisioners wr w =
     apply_changes (query_provisioners_change wr w) (context_new (query_provisioners wr w))"

section \<open>Following the events\<close>

datatype provisioner_change =
    StakeChange stake_event | UnstakeChange stake_event | SlashChange slash_event | HardSlashChange slash_event

definition change_from_event :: "contract_event \<Rightarrow> provisioner_change option" where
  "change_from_event ev =
     (case ev of
        StakeEvent e \<Rightarrow> Some (StakeChange e)
      | UnstakeEvent e \<Rightarrow> Some (UnstakeChange e)
      | SlashEvent e \<Rightarrow> Some (SlashChange e)
      | HardSlashEvent e \<Rightarrow> Some (HardSlashChange e)
      | _ \<Rightarrow> None)"

definition change_key :: "provisioner_change \<Rightarrow> bls_public_key" where
  "change_key c =
     (case c of
        StakeChange e \<Rightarrow> sk_account (se_keys e)
      | UnstakeChange e \<Rightarrow> sk_account (se_keys e)
      | SlashChange e \<Rightarrow> sl_account e
      | HardSlashChange e \<Rightarrow> sl_account e)"

definition to_public_key :: "wire \<Rightarrow> provisioner_change \<Rightarrow> public_key" where
  "to_public_key wr c = w_pk_to_bytes wr (change_key c)"

text \<open>One turn of the loop of \<open>selective_update\<close>.\<close>

definition slash_member :: "public_key \<Rightarrow> slash_event \<Rightarrow> provisioners \<Rightarrow> string + provisioners" where
  "slash_member acct e p =
     (case bm_get p acct of
        None \<Rightarrow> Inl ''Slashing a not existing stake''
      | Some to_slash \<Rightarrow>
          Inr (bm_insert acct
            (change_eligibility (sl_next_eligibility e) (snd (cstake_subtract (sl_value e) to_slash))) p))"

definition update_member :: "wire \<Rightarrow> u64 \<Rightarrow> provisioner_change \<Rightarrow> provisioners \<Rightarrow> string + provisioners" where
  "update_member wr block_height change new_prov =
     (let acct = to_public_key wr change in
      case change of
        StakeChange e \<Rightarrow>
          (case bm_get new_prov acct of
             Some s \<Rightarrow>
               if cs_value s = 0 then Inl ''Found an active stake with 0 amount''
               else Inr (bm_insert acct (cstake_add (se_value e) s) new_prov)
           | None \<Rightarrow>
               let amount = amount_new (se_value e) block_height in
               Inr (add_member_with_stake acct
                 \<lparr>cs_value = am_value amount, cs_eligible_since = am_eligibility amount\<rparr> new_prov))
      | UnstakeChange e \<Rightarrow>
          (case sub_stake acct (se_value e) new_prov of
             (None, _) \<Rightarrow> Inl ''Unstake a not existing stake''
           | (Some _, p) \<Rightarrow> Inr p)
      | SlashChange e \<Rightarrow> slash_member acct e new_prov
      | HardSlashChange e \<Rightarrow> slash_member acct e new_prov)"

definition selective_update ::
    "wire \<Rightarrow> u64 \<Rightarrow> contract_event list \<Rightarrow> context_provisioners \<Rightarrow> string + context_provisioners" where
  "selective_update wr block_height stake_events provisioners_list =
     (let changed_prov = List.map_filter change_from_event stake_events in
      if changed_prov = [] then Inr (remove_previous provisioners_list)
      else
        (case res_fold (update_member wr block_height) changed_prov (cp_current provisioners_list) of
           Inl err \<Rightarrow> Inl err
         | Inr new_prov \<Rightarrow> Inr (update_and_swap new_prov provisioners_list)))"

text \<open>What the acceptance of a block does with the result; \<open>w\<close> is the state of the new block.\<close>

definition next_provisioners ::
    "wire \<Rightarrow> u64 \<Rightarrow> contract_event list \<Rightarrow> 'r sworld_scheme \<Rightarrow> context_provisioners \<Rightarrow> context_provisioners" where
  "next_provisioners wr block_height stake_events w provisioners_list =
     (case selective_update wr block_height stake_events provisioners_list of
        Inl _ \<Rightarrow> update_and_swap (query_provisioners wr w) provisioners_list
      | Inr c \<Rightarrow> c)"

section \<open>Provisioners that can be drawn\<close>

text \<open>Entries without value do not count: nobody with less than the minimum stake is drawn.\<close>

definition live :: "provisioners \<Rightarrow> public_key \<Rightarrow> cstake option" where
  "live p k = (case bm_get p k of Some s \<Rightarrow> if cs_value s = 0 then None else Some s | None \<Rightarrow> None)"

definition live_amount :: "amounts \<Rightarrow> public_key \<Rightarrow> cstake option" where
  "live_amount m k =
     (case m k of
        Some a \<Rightarrow> if am_value a = 0 then None
                  else Some \<lparr>cs_value = am_value a, cs_eligible_since = am_eligibility a\<rparr>
      | None \<Rightarrow> None)"

definition agrees :: "provisioners \<Rightarrow> amounts \<Rightarrow> bool" where
  "agrees p m \<longleftrightarrow> live p = live_amount m"

text \<open>A top-up of a stake that has only locked funds left.\<close>

definition revives :: "wire \<Rightarrow> contract_event \<Rightarrow> amounts \<Rightarrow> bool" where
  "revives wr ev m =
     (case ev of
        StakeEvent e \<Rightarrow> (case m (w_pk_to_bytes wr (sk_account (se_keys e))) of Some a \<Rightarrow> am_value a = 0 | None \<Rightarrow> False)
      | _ \<Rightarrow> False)"

fun no_revival :: "wire \<Rightarrow> u64 \<Rightarrow> contract_event list \<Rightarrow> amounts \<Rightarrow> bool" where
  "no_revival wr bh [] m = True"
| "no_revival wr bh (ev # evs) m = (\<not> revives wr ev m \<and> no_revival wr bh evs (replay_event wr bh ev m))"

text \<open>
  An unstake after which the free and the locked funds together do not fit in 64 bits: the contract, which adds them modulo
  \<open>2 ^ 64\<close>, could take them for nothing left.
\<close>

definition overflows :: "wire \<Rightarrow> contract_event \<Rightarrow> amounts \<Rightarrow> bool" where
  "overflows wr ev m =
     (case ev of
        UnstakeEvent e \<Rightarrow>
          (case m (w_pk_to_bytes wr (sk_account (se_keys e))) of
             Some a \<Rightarrow> 2 ^ 64 \<le> amount_funds (a\<lparr>am_value := am_value a - se_value e, am_locked := am_locked a - se_locked e\<rparr>)
           | None \<Rightarrow> False)
      | _ \<Rightarrow> False)"

fun no_overflow :: "wire \<Rightarrow> u64 \<Rightarrow> contract_event list \<Rightarrow> amounts \<Rightarrow> bool" where
  "no_overflow wr bh [] m = True"
| "no_overflow wr bh (ev # evs) m = (\<not> overflows wr ev m \<and> no_overflow wr bh evs (replay_event wr bh ev m))"

end
