(* ===== verification/Provisioner_Safety.thy ===== *)
theory Provisioner_Safety
  imports Chain_Provisioners
begin

text \<open>
  Whether the provisioners a node keeps from the events of blocks are those of the stake contract, and what a
  node that restarts makes of the undo log.
\<close>

section \<open>Who can be drawn\<close>




section \<open>Reading the contract\<close>







section \<open>Following one event\<close>







section \<open>Following a block\<close>








section \<open>Restarting from the undo log\<close>






section \<open>Blocks\<close>


section \<open>A stake with locked funds only\<close>






end
