(* ===== verification/Provisioner_Witness.thy ===== *)
theory Provisioner_Witness
  imports Provisioner_Safety
begin

text \<open>A block that stakes, followed by a node that keeps the provisioners, and a stake that is emptied and topped up.\<close>

section \<open>A block that stakes\<close>









section \<open>A stake that is emptied and topped up\<close>









end
