(* ===== verification/Chain_Acceptor.thy ===== *)
theory Chain_Acceptor
  imports Mempool Chain_Provisioners Header_Validation Consensus_Queue
begin

text \<open>
  The chain of a node, \<^verbatim>\<open>node/src/chain/acceptor.rs\<close>: accepting a block, labelling the blocks it makes final, and
  reverting.  The state is the tip, the provisioners, the messages that wait, the database and the commits of the
  VM; the consensus task, the network and the subscribers receive effects.  The locks are taken for the whole of an
  operation, so operations run one after the other.  What is sent before an operation fails is left out.  \<open>finalize_commit\<close> of the VM (\<^verbatim>\<open>piecrust\<close>) is a parameter.
\<close>

section \<open>State and effects\<close>

datatype block_state = BlockConfirmed | BlockFinalized

datatype block_event = BlockAccepted block | StateChange hash block_state u64 | Reverted hash u64

datatype chain_effect =
    NotifyTx transaction_event
  | NotifyBlock block_event
  | AbortTask
  | SpawnTask block context_provisioners "voter list"
  | BroadcastMsg message
  | ToConsensus message

datatype chain_error =
    ChainHeader header_error
  | ChainFault invalid_fault
  | ChainDb db_error
  | ChainVm node_error
  | ChainOther string

record ('mpk, 'msig, 's, 'it, 'w) chain_env =
  ce_db :: "('mpk, 'msig, 's, 'it) db_env"
  ce_hash :: "bytes \<Rightarrow> bytes"
  ce_minimum_block_time :: u64
  ce_dusk_key :: public_key
  ce_finalize_commit :: "hash \<Rightarrow> 'w rusk \<Rightarrow> node_error + 'w rusk"

record ('s, 'w) acceptor =
  ax_tip :: block
  ax_label :: label
  ax_provisioners :: context_provisioners
  ax_future_msgs :: msg_registry
  ax_db :: 's
  ax_rusk :: "'w rusk"
  ax_current :: hash
  ax_base :: hash

definition CANDIDATES_DELETION_OFFSET :: u64 where
  "CANDIDATES_DELETION_OFFSET = 10"

definition OFFSET_FUTURE_MSGS :: u64 where
  "OFFSET_FUTURE_MSGS = 5"

text \<open>An error of the database; some are panics.\<close>

definition db_run :: "db_error + 'a \<Rightarrow> (chain_error, 'a) run" where
  "db_run r =
     (case r of
        Inl (DbPanic msg) \<Rightarrow> Some (Inl (Panic msg))
      | Inl err \<Rightarrow> run_err (ChainDb err)
      | Inr x \<Rightarrow> run_ret x)"

definition vm_run :: "node_error + 'a \<Rightarrow> (chain_error, 'a) run" where
  "vm_run r =
     (case r of
        Inl (NodePanic msg) \<Rightarrow> Some (Inl (Panic msg))
      | Inl err \<Rightarrow> run_err (ChainVm err)
      | Inr x \<Rightarrow> run_ret x)"

section \<open>Rolling finality\<close>

definition confirmation_delay :: "u8 \<Rightarrow> u64" where
  "confirmation_delay pni = (if pni = 0 then 1 else 2 * ucast pni)"

type_synonym labelled = "u64 \<times> hash \<times> label"

text \<open>
  The blocks down to the last final one, from below height \<open>n\<close>; the entries of a tree map that is filled from
  above are listed in ascending order.
\<close>

fun scan_labels ::
    "('mpk, 'msig, 's, 'it) db_env \<Rightarrow> nat \<Rightarrow> labelled list \<Rightarrow> 's db_tx \<Rightarrow> db_error + (hash option \<times> labelled list)" where
  "scan_labels e 0 labels t = Inr (None, labels)"
| "scan_labels e (Suc n) labels t =
     (case block_label_by_height e (of_nat n) t of
        Inl err \<Rightarrow> Inl err
      | Inr None \<Rightarrow> Inl (DbError ''Cannot find block label for height'')
      | Inr (Some (hash, label)) \<Rightarrow>
          (case label of
             Final _ \<Rightarrow> Inr (Some hash, labels)
           | _ \<Rightarrow> scan_labels e n ((of_nat n, hash, label) # labels) t))"

text \<open>From the tip to the last final block, until a block is not yet stable.\<close>

fun confirm_labels ::
    "('mpk, 'msig, 's, 'it) db_env \<Rightarrow> u64 \<Rightarrow> u64 \<Rightarrow> labelled list \<Rightarrow> 's db_tx
     \<Rightarrow> labelled list \<times> block_event list \<times> 's db_tx" where
  "confirm_labels e current_height stable_count [] t = ([], [], t)"
| "confirm_labels e current_height stable_count ((height, hash, label) # labels) t =
     (let confirm = (\<lambda>confirmed_after.
            if stable_count \<ge> confirmed_after then
              let label' = Confirmed (current_height - height);
                  t = store_block_label e height hash label' t;
                  (rest, events, t) = confirm_labels e current_height (stable_count + 1) labels t in
              ((height, hash, label') # rest, StateChange hash BlockConfirmed current_height # events, t)
            else ((height, hash, label) # labels, [], t)) in
      case label of
        Accepted confirmed_after \<Rightarrow> confirm confirmed_after
      | Attested confirmed_after \<Rightarrow> confirm confirmed_after
      | Confirmed _ \<Rightarrow>
          let (rest, events, t) = confirm_labels e current_height (stable_count + 1) labels t in
          ((height, hash, label) # rest, events, t)
      | Final _ \<Rightarrow> ((height, hash, label) # labels, [], t))"

text \<open>From the last final block to the tip, until a block is not confirmed; the new final states by height.\<close>

fun finalize_labels ::
    "('mpk, 'msig, 's, 'it) db_env \<Rightarrow> u64 \<Rightarrow> labelled list \<Rightarrow> 's db_tx
     \<Rightarrow> db_error + ((u64 \<times> hash) list \<times> block_event list \<times> 's db_tx)" where
  "finalize_labels e current_height [] t = Inr ([], [], t)"
| "finalize_labels e current_height ((height, hash, label) # labels) t =
     (case label of
        Final _ \<Rightarrow> finalize_labels e current_height labels t
      | Confirmed _ \<Rightarrow>
          let t = store_block_label e height hash (Final (current_height - height)) t in
          (case db_block_header e hash t of
             Inl err \<Rightarrow> Inl err
           | Inr None \<Rightarrow> Inl (DbError ''Cannot get header for hash'')
           | Inr (Some h) \<Rightarrow>
               res_map (\<lambda>(finals, events, t).
                   ((height, h_state_hash h) # finals, StateChange hash BlockFinalized current_height # events, t))
                 (finalize_labels e current_height labels t))
      | _ \<Rightarrow> Inr ([], [], t))"

definition rolling_finality ::
    "('mpk, 'msig, 's, 'it) db_env \<Rightarrow> u8 \<Rightarrow> block \<Rightarrow> 's db_tx
     \<Rightarrow> db_error + ((label \<times> (hash \<times> (u64 \<times> hash) list) option) \<times> block_event list \<times> 's db_tx)" where
  "rolling_finality e pni blk t =
     (if pni \<noteq> 0 then Inr ((Accepted (confirmation_delay pni), None), [], t)
      else
        let block_label = Attested (confirmation_delay pni); current_height = h_height (bl_header blk) in
        (case scan_labels e (unat current_height) [] t of
           Inl err \<Rightarrow> Inl err
         | Inr (None, _) \<Rightarrow> Inl (DbPanic ''Unable to find last finalized block hash'')
         | Inr (Some lfb_hash, labels) \<Rightarrow>
             (case db_block_header e lfb_hash t of
                Inl err \<Rightarrow> Inl err
              | Inr None \<Rightarrow> Inl (DbError ''Cannot get header for last finalized block hash'')
              | Inr (Some lfb) \<Rightarrow>
                  let (labels, confirmed, t) = confirm_labels e current_height 1 (rev labels) t in
                  res_map (\<lambda>(finals, finalized, t).
                      ((block_label, if finals = [] then None else Some (h_state_hash lfb, finals)),
                       confirmed @ finalized, t))
                    (finalize_labels e current_height (rev labels) t))))"

section \<open>The commits of the VM\<close>

text \<open>\<open>set_base_and_merge\<close>: an error leaves what was merged before.\<close>

fun merge_commits ::
    "('mpk, 'msig, 's, 'it, 'w) chain_env \<Rightarrow> hash \<Rightarrow> hash list \<Rightarrow> 'w rusk \<Rightarrow> node_error option \<times> 'w rusk" where
  "merge_commits env base [] rk = (None, rk)"
| "merge_commits env base (d # to_merge) rk =
     (if d = base then merge_commits env base to_merge rk
      else case ce_finalize_commit env d rk of
        Inl err \<Rightarrow> (Some err, rk)
      | Inr rk \<Rightarrow> merge_commits env base to_merge rk)"

definition set_base_and_merge ::
    "('mpk, 'msig, 's, 'it, 'w) chain_env \<Rightarrow> hash \<Rightarrow> hash list \<Rightarrow> ('s, 'w) acceptor \<Rightarrow> node_error option \<times> ('s, 'w) acceptor" where
  "set_base_and_merge env base to_merge st =
     (let (err, rk) = merge_commits env base to_merge (ax_rusk st) in
      (err, st\<lparr>ax_base := base, ax_rusk := rk\<rparr>))"

definition vm_revert :: "hash \<Rightarrow> ('s, 'w) acceptor \<Rightarrow> (chain_error, hash) run \<times> ('s, 'w) acceptor" where
  "vm_revert state_hash st =
     (if rk_store (ax_rusk st) state_hash = None then (run_err (ChainOther ''CommitNotFound''), st)
      else (run_ret state_hash, st\<lparr>ax_current := state_hash\<rparr>))"

definition get_provisioners ::
    "'r sworld_scheme rusk \<Rightarrow> hash \<Rightarrow> (chain_error, provisioners) run" where
  "get_provisioners rk commit =
     (case rk_store rk commit of
        None \<Rightarrow> run_err (ChainVm (NVm VmOther))
      | Some w \<Rightarrow> run_ret (query_provisioners (rk_wire rk) w))"

definition get_changed_provisioners ::
    "'r sworld_scheme rusk \<Rightarrow> hash \<Rightarrow> (chain_error, (public_key \<times> cstake option) list) run" where
  "get_changed_provisioners rk commit =
     (case rk_store rk commit of
        None \<Rightarrow> run_err (ChainVm (NVm VmOther))
      | Some w \<Rightarrow> run_ret (query_provisioners_change (rk_wire rk) w))"

text \<open>The events of the stake contract in the block between two commits.\<close>

definition stake_events_of :: "'r sworld_scheme rusk \<Rightarrow> hash \<Rightarrow> 'r sworld_scheme rusk \<Rightarrow> hash \<Rightarrow> contract_event list" where
  "stake_events_of rk tip rk' commit =
     (case (rk_store rk tip, rk_store rk' commit) of
        (Some w, Some w') \<Rightarrow> drop (length (stake_log w)) (stake_log w')
      | _ \<Rightarrow> [])"

definition vm_accept ::
    "('mpk, 'msig) node_crypto \<Rightarrow> 'r sworld_scheme rusk \<Rightarrow> hash \<Rightarrow> hash \<Rightarrow> block \<Rightarrow> voter list
     \<Rightarrow> node_error + (spent_tx list \<times> verification_output \<times> contract_event list \<times> hash \<times> 'r sworld_scheme rusk)" where
  "vm_accept nc rk tip prev_root blk prev_voters =
     (let h = bl_header blk in
      if \<not> nc_pk_valid nc (h_generator_bls_pubkey h) then Inl (NVm VmOther)
      else
        res_map (\<lambda>(txs, out, commit, rk'). (txs, out, stake_events_of rk tip rk' commit, commit, rk'))
          (accept_transactions rk tip prev_root (h_height h) (h_gas_limit h) (rk_inner rk (h_generator_bls_pubkey h))
             (bl_txs blk) (Some \<lparr>vo_state_root = h_state_hash h, vo_event_bloom = h_event_bloom h\<rparr>)
             (slash_from_block nc blk) prev_voters))"


section \<open>Checking a block\<close>

text \<open>What the header checks read of the database; a walk over the blocks that does not end is an error here.\<close>

definition db_string :: "db_error + 'a \<Rightarrow> string + 'a" where
  "db_string r = (case r of Inl _ \<Rightarrow> Inl ''database error'' | Inr x \<Rightarrow> Inr x)"

definition validator_of ::
    "('mpk, 'msig, 's, 'it, 'w) chain_env \<Rightarrow> u64 \<Rightarrow> 's \<Rightarrow> header \<Rightarrow> context_provisioners \<Rightarrow> ('mpk, 'msig) validator" where
  "validator_of env now db prev_header provisioners_list =
     (let e = ce_db env; t = begin_tx db in
      \<lparr>vd_crypto = de_crypto e, vd_hash = ce_hash env, vd_block_exists = (\<lambda>h. Inr (block_exists e h t)),
       vd_block_header = (\<lambda>h. db_string (db_block_header e h t)),
       vd_faults_by_block = (\<lambda>start_height.
          case faults_by_block e start_height t of None \<Rightarrow> Inl ''no result'' | Some r \<Rightarrow> db_string r),
       vd_local_time = now, vd_minimum_block_time = ce_minimum_block_time env, vd_prev_header = prev_header,
       vd_provisioners = provisioners_list\<rparr>)"

definition verify_block_header ::
    "('mpk, 'msig, 's, 'it, 'w) chain_env \<Rightarrow> u64 \<Rightarrow> 's \<Rightarrow> header \<Rightarrow> context_provisioners \<Rightarrow> header
     \<Rightarrow> (header_error, u8 \<times> voter list \<times> voter list) run" where
  "verify_block_header env now db prev_header provisioners_list header =
     (let vd = validator_of env now db prev_header provisioners_list in
      if is_emergency_block (h_iteration header) then execute_checks vd header (ce_dusk_key env) False
      else
        (case get_generator (ce_hash env) (h_iteration header) (h_seed prev_header) (h_height header)
            (cp_current provisioners_list) of
           None \<Rightarrow> None
         | Some (Inl p) \<Rightarrow> Some (Inl p)
         | Some (Inr generator) \<Rightarrow> execute_checks vd header generator True))"

text \<open>The generators of the iterations that were missed are drawn for the log.\<close>

fun draw_generators :: "(bytes \<Rightarrow> bytes) \<Rightarrow> provisioners \<Rightarrow> seed \<Rightarrow> u64 \<Rightarrow> nat list \<Rightarrow> unit res option" where
  "draw_generators hash p seed rnd [] = Some (Inr ())"
| "draw_generators hash p seed rnd (iter # iters) =
     (case get_generator hash (of_nat iter) seed rnd p of
        None \<Rightarrow> None
      | Some (Inl e) \<Rightarrow> Some (Inl e)
      | Some (Inr _) \<Rightarrow> draw_generators hash p seed rnd iters)"

definition log_missing_iterations ::
    "(bytes \<Rightarrow> bytes) \<Rightarrow> provisioners \<Rightarrow> u8 \<Rightarrow> seed \<Rightarrow> u64 \<Rightarrow> (chain_error, unit) run" where
  "log_missing_iterations hash p iteration seed rnd =
     map_option (res_map Inr) (draw_generators hash p seed rnd [0..<unat (min iteration CONSENSUS_MAX_ITER)])"

section \<open>Accepting a block\<close>

text \<open>
  The closure that executes, labels and stores a block.  The VM has the new commit when the labels or the block
  cannot be written.
\<close>

definition execute_and_store ::
    "('mpk, 'msig, 's, 'it, 'r sworld_scheme) chain_env \<Rightarrow> u8 \<Rightarrow> block \<Rightarrow> voter list \<Rightarrow> ('s, 'r sworld_scheme) acceptor
     \<Rightarrow> (chain_error, contract_event list \<times> (label \<times> (hash \<times> (u64 \<times> hash) list) option) \<times> chain_effect list) run
        \<times> ('s, 'r sworld_scheme) acceptor" where
  "execute_and_store env pni blk prev_block_voters st =
     (let e = ce_db env; header = bl_header blk in
      case vm_accept (de_crypto e) (ax_rusk st) (ax_current st) (h_state_hash (bl_header (ax_tip st))) blk prev_block_voters of
        Inl err \<Rightarrow> (vm_run (Inl err), st)
      | Inr (txs, out, stake_events, commit, rk) \<Rightarrow>
          let st = st\<lparr>ax_rusk := rk, ax_current := commit\<rparr> in
          if h_state_hash header \<noteq> vo_state_root out \<or> h_event_bloom header \<noteq> vo_event_bloom out
          then (Some (Inl (Panic ''assertion failed: left == right'')), st)
          else (case rolling_finality e pni blk (begin_tx (ax_db st)) of
             Inl err \<Rightarrow> (db_run (Inl err), st)
           | Inr (finality, events, t) \<Rightarrow>
               let (_, t) = store_block e header txs (bl_faults blk) (fst finality) t in
               (run_ret (stake_events, finality,
                  map (NotifyTx \<circ> Executed) txs @ map NotifyBlock events), st\<lparr>ax_db := tx_inner t\<rparr>)))"

text \<open>After the block is stored: the provisioners, the tip and the final state of the VM.\<close>

definition advance_tip ::
    "('mpk, 'msig, 's, 'it, 'r sworld_scheme) chain_env \<Rightarrow> block \<Rightarrow> contract_event list
     \<Rightarrow> label \<times> (hash \<times> (u64 \<times> hash) list) option \<Rightarrow> ('s, 'r sworld_scheme) acceptor
     \<Rightarrow> (chain_error, bool) run \<times> ('s, 'r sworld_scheme) acceptor" where
  "advance_tip env blk stake_events finality st =
     (let header = bl_header blk; (label, final_results) = finality; rk = ax_rusk st;
          updated = (case selective_update (rk_wire rk) (h_height header) stake_events (ax_provisioners st) of
                       Inr c \<Rightarrow> run_ret c
                     | Inl _ \<Rightarrow> run_bind (get_provisioners rk (h_state_hash header)) (\<lambda>new_prov.
                         run_ret (update_and_swap new_prov (ax_provisioners st)))) in
      case updated of
        Some (Inr (Inr c)) \<Rightarrow>
          let st = st\<lparr>ax_provisioners := c, ax_tip := blk, ax_label := label\<rparr> in
          (case final_results of
             None \<Rightarrow> (run_ret False, st)
           | Some (prev_final_state, new_finals) \<Rightarrow>
               let (err, st) = set_base_and_merge env (snd (last new_finals))
                     (map snd (butlast new_finals) @ [prev_final_state]) st in
               (case err of None \<Rightarrow> run_ret True | Some err \<Rightarrow> vm_run (Inl err), st))
      | failed \<Rightarrow> (map_option (res_map (map_sum id (\<lambda>_. False))) failed, st))"

text \<open>Cleaning up the database; an error leaves it as it is.\<close>

definition clean_up ::
    "('mpk, 'msig, 's, 'it) db_env \<Rightarrow> block \<Rightarrow> 's \<Rightarrow> (hash list \<times> 's) option" where
  "clean_up e tip db =
     (let threshold = saturating_sub (h_height (bl_header tip)) CANDIDATES_DELETION_OFFSET in
      case delete_candidate e (\<lambda>height. height \<le> threshold) (begin_tx db) of
        Inl _ \<Rightarrow> Some ([], db)
      | Inr t \<Rightarrow> map_option (\<lambda>(deleted, t). (deleted, tx_inner t)) (remove_included e (bl_txs tip) t))"

definition try_accept_block ::
    "('mpk, 'msig, 's, 'it, 'r sworld_scheme) chain_env \<Rightarrow> u64 \<Rightarrow> block \<Rightarrow> bool \<Rightarrow> ('s, 'r sworld_scheme) acceptor
     \<Rightarrow> (chain_error, bool \<times> chain_effect list) run \<times> ('s, 'r sworld_scheme) acceptor" where
  "try_accept_block env now blk enable_consensus st =
     (let e = ce_db env; header = bl_header blk; prev_header = bl_header (ax_tip st) in
      case verify_block_header env now (ax_db st) prev_header (ax_provisioners st) header of
        None \<Rightarrow> (None, st)
      | Some (Inl p) \<Rightarrow> (Some (Inl p), st)
      | Some (Inr (Inl err)) \<Rightarrow> (run_err (ChainHeader err), st)
      | Some (Inr (Inr (pni, prev_block_voters, tip_block_voters))) \<Rightarrow>
          (case verify_faults (validator_of env now (ax_db st) prev_header (ax_provisioners st)) (h_height header)
              (bl_faults blk) of
             Inl err \<Rightarrow> (run_err (ChainFault err), st)
           | Inr _ \<Rightarrow>
               let current = cp_current (ax_provisioners st); (stored, st) = execute_and_store env pni blk prev_block_voters st in
               (case stored of
                  Some (Inr (Inr (stake_events, finality, events))) \<Rightarrow>
                    (case log_missing_iterations (ce_hash env) current (h_iteration header) (h_seed prev_header) (h_height header) of
                       Some (Inr (Inr _)) \<Rightarrow>
                         let (advanced, st) = advance_tip env blk stake_events finality st in
                         (case advanced of
                            Some (Inr (Inr finalized)) \<Rightarrow>
                              (case clean_up e blk (ax_db st) of
                                 None \<Rightarrow> (None, st)
                               | Some (deleted, db) \<Rightarrow>
                                   let st = st\<lparr>ax_db := db, ax_future_msgs :=
                                             remove_msgs_out_of_range (h_height header + 1) OFFSET_FUTURE_MSGS (ax_future_msgs st)\<rparr> in
                                   (run_ret (finalized,
                                      [AbortTask] @ events @ map (NotifyTx \<circ> Removed) deleted @ [NotifyBlock (BlockAccepted blk)] @
                                      (if enable_consensus then [SpawnTask blk (ax_provisioners st) tip_block_voters] else [])), st))
                          | failed \<Rightarrow> (map_option (res_map (map_sum id (\<lambda>f. (f, [])))) failed, st))
                     | failed \<Rightarrow> (map_option (res_map (map_sum id (\<lambda>_. (False, [])))) failed, st))
                | failed \<Rightarrow> (map_option (res_map (map_sum id (\<lambda>_. (False, [])))) failed, st))))"


section \<open>Reverting\<close>

datatype revert_target = RevertCommit hash | LastFinalizedState | LastEpoch

definition update_tip ::
    "('mpk, 'msig, 's, 'it, 'r sworld_scheme) chain_env \<Rightarrow> block \<Rightarrow> label \<Rightarrow> ('s, 'r sworld_scheme) acceptor
     \<Rightarrow> (chain_error, chain_effect list) run \<times> ('s, 'r sworld_scheme) acceptor" where
  "update_tip env blk label st =
     (let e = ce_db env; h = bl_header blk; t = begin_tx (ax_db st) in
      if \<not> block_exists e (h_hash h) t then (run_err (ChainOther ''could not find block''), st)
      else
        let t = op_write e MD_STATE_ROOT_KEY (h_state_hash h) (op_write e MD_HASH_KEY (h_hash h) t);
            st = st\<lparr>ax_db := tx_inner t\<rparr>; rk = ax_rusk st in
        (case rk_store rk (h_state_hash h) of
           None \<Rightarrow> (run_err (ChainVm (NVm VmOther)), st)
         | Some w \<Rightarrow>
             let c = context_update (query_provisioners (rk_wire rk) w) (ax_provisioners st) in
             (run_ret [AbortTask],
              st\<lparr>ax_provisioners := apply_changes (query_provisioners_change (rk_wire rk) w) c,
                 ax_tip := blk, ax_label := label\<rparr>)))"

text \<open>
  Deleting blocks, from the given height down to one with the given state, and putting their transactions back
  into the mempool.  The recursion is on the height as a number; a height whose block names another height is
  found by its label.
\<close>

fun revert_blocks ::
    "('mpk, 'msig, 's, 'it) db_env \<Rightarrow> u64 \<Rightarrow> hash \<Rightarrow> nat \<Rightarrow> 's db_tx
     \<Rightarrow> (chain_error, (block \<times> label) \<times> chain_effect list \<times> 's db_tx) run" where
  "revert_blocks e now target_state_hash height t =
     run_bind (db_run (block_by_height e (of_nat height) t)) (\<lambda>found.
     case found of
       None \<Rightarrow> run_err (ChainOther ''could not fetch block'')
     | Some b \<Rightarrow>
         let h = bl_header b in
         run_bind (db_run (block_label_by_height e (h_height h) t)) (\<lambda>labelled.
         case labelled of
           None \<Rightarrow> run_err (ChainOther ''could not fetch block label'')
         | Some (_, label) \<Rightarrow>
             if h_state_hash h = target_state_hash then run_ret ((b, label), [], t)
             else (case height of
                0 \<Rightarrow> Some (Inl (Panic ''revert to genesis block failed''))
              | Suc height' \<Rightarrow>
                  let t = delete_block e b t;
                      t = fold (\<lambda>tx. store_mempool_tx e tx now) (bl_txs b) t in
                  run_bind (revert_blocks e now target_state_hash height' t) (\<lambda>(r, effects, t).
                    run_ret (r, NotifyBlock (Reverted (h_hash h) (h_height h)) # effects, t)))))"

declare revert_blocks.simps [simp del]

definition try_revert ::
    "('mpk, 'msig, 's, 'it, 'r sworld_scheme) chain_env \<Rightarrow> u64 \<Rightarrow> revert_target \<Rightarrow> ('s, 'r sworld_scheme) acceptor
     \<Rightarrow> (chain_error, chain_effect list) run \<times> ('s, 'r sworld_scheme) acceptor" where
  "try_revert env now target st =
     (let e = ce_db env; curr_height = h_height (bl_header (ax_tip st));
          (reverted, st) =
            (case target of
               LastFinalizedState \<Rightarrow> vm_revert (ax_base st) st
             | RevertCommit state_hash \<Rightarrow> vm_revert state_hash st
             | LastEpoch \<Rightarrow> (Some (Inl (Panic ''not implemented'')), st)) in
      case reverted of
        Some (Inr (Inr target_state_hash)) \<Rightarrow>
          (case revert_blocks e now target_state_hash (unat curr_height) (begin_tx (ax_db st)) of
             Some (Inr (Inr ((blk, label), effects, t))) \<Rightarrow>
               let (r, st) = update_tip env blk label (st\<lparr>ax_db := tx_inner t\<rparr>) in
               (run_bind r (\<lambda>more. run_ret (effects @ more)), st)
           | failed \<Rightarrow> (map_option (res_map (map_sum id (\<lambda>_. []))) failed, st))
      | failed \<Rightarrow> (map_option (res_map (map_sum id (\<lambda>_. []))) failed, st))"

text \<open>The last final block: the tip or one below it; the genesis block if there is none.\<close>

fun find_final ::
    "('mpk, 'msig, 's, 'it) db_env \<Rightarrow> nat \<Rightarrow> 's db_tx \<Rightarrow> (chain_error, block) run" where
  "find_final e n t =
     (case n of
        0 \<Rightarrow> run_bind (db_run (block_by_height e 0 t)) (\<lambda>b.
               case b of None \<Rightarrow> run_err (ChainOther ''could not find the genesis block'') | Some b \<Rightarrow> run_ret b)
      | Suc n' \<Rightarrow>
          (case block_label_by_height e (of_nat n') t of
             Inr (Some (hash, Final _)) \<Rightarrow>
               run_bind (db_run (db_block e hash t)) (\<lambda>b.
                 case b of
                   None \<Rightarrow> run_err (ChainOther ''could not fetch the last final block by height'')
                 | Some b \<Rightarrow> run_ret b)
           | Inl (DbPanic msg) \<Rightarrow> Some (Inl (Panic msg))
           | _ \<Rightarrow> find_final e n' t))"

declare find_final.simps [simp del]

definition get_last_final_block ::
    "('mpk, 'msig, 's, 'it, 'w) chain_env \<Rightarrow> ('s, 'w) acceptor \<Rightarrow> (chain_error, block) run" where
  "get_last_final_block env st =
     (case ax_label st of
        Final _ \<Rightarrow> run_ret (ax_tip st)
      | _ \<Rightarrow> find_final (ce_db env) (Suc (unat (h_height (bl_header (ax_tip st)) - 1))) (begin_tx (ax_db st)))"

section \<open>Forks\<close>

definition verify_header_against_local ::
    "('mpk, 'msig, 's, 'it, 'r sworld_scheme) chain_env \<Rightarrow> u64 \<Rightarrow> header \<Rightarrow> header \<Rightarrow> ('s, 'r sworld_scheme) acceptor
     \<Rightarrow> (chain_error, unit) run" where
  "verify_header_against_local env now local new st =
     run_bind (db_run (db_block_header (ce_db env) (h_prev_block_hash local) (begin_tx (ax_db st)))) (\<lambda>found.
     case found of
       None \<Rightarrow> run_err (ChainOther ''Unable to find block with hash'')
     | Some prev_header \<Rightarrow>
         run_bind (get_provisioners (ax_rusk st) (h_state_hash prev_header)) (\<lambda>p.
         run_bind (get_changed_provisioners (ax_rusk st) (h_state_hash prev_header)) (\<lambda>changed.
         run_bind (run_map_err ChainHeader
             (verify_block_header env now (ax_db st) prev_header (apply_changes changed (context_new p)) new))
           (\<lambda>_. run_ret ()))))"

text \<open>The fallback of \<^verbatim>\<open>node/src/chain/fallback.rs\<close>: only a block of a lower iteration replaces the local one.\<close>

definition fallback_revert ::
    "('mpk, 'msig, 's, 'it, 'r sworld_scheme) chain_env \<Rightarrow> u64 \<Rightarrow> header \<Rightarrow> header \<Rightarrow> revert_target
     \<Rightarrow> ('s, 'r sworld_scheme) acceptor \<Rightarrow> (chain_error, chain_effect list) run \<times> ('s, 'r sworld_scheme) acceptor" where
  "fallback_revert env now local remote target st =
     (if h_height local = 0 then (run_err (ChainOther ''cannot fallback over genesis block''), st)
      else if h_iteration remote > h_iteration local
      then (run_err (ChainOther ''iteration is higher than the current''), st)
      else if h_iteration remote = h_iteration local
      then (run_err (ChainOther ''iteration is equal to the current''), st)
      else
        (case verify_header_against_local env now local remote st of
           Some (Inr (Inr _)) \<Rightarrow> try_revert env now target st
         | failed \<Rightarrow> (map_option (res_map (map_sum id (\<lambda>_. []))) failed, st)))"

section \<open>Messages\<close>

definition reroute_msg ::
    "('mpk, 'msig, 's, 'it, 'w) chain_env \<Rightarrow> bool \<Rightarrow> message \<Rightarrow> ('s, 'w) acceptor \<Rightarrow> chain_effect list res option" where
  "reroute_msg env running msg st =
     (let tip_header = bl_header (ax_tip st); tip_height = h_height tip_header; msg_round = ch_round (ms_header msg) in
      if \<not> is_consensus_msg (ms_topic msg) then Some (Inr [])
      else if \<not> running then Some (Inr [BroadcastMsg msg])
      else
        let enqueue = (if msg_round \<le> tip_height \<or> msg_round > tip_height + MAX_ROUND_DISTANCE then []
                       else [ToConsensus msg]) in
        (case ms_payload msg of
           PCandidate _ \<Rightarrow> Some (Inr enqueue)
         | PValidation _ \<Rightarrow> Some (Inr enqueue)
         | PRatification _ \<Rightarrow> Some (Inr enqueue)
         | PValidationQuorum _ \<Rightarrow> Some (Inr enqueue)
         | PQuorum q \<Rightarrow>
             (case compare_round (tip_height + 1) (ms_header msg) of
                Present \<Rightarrow>
                  map_option (res_map (\<lambda>r. case r of Inr _ \<Rightarrow> [ToConsensus msg] | Inl _ \<Rightarrow> []))
                    (verify_att (de_crypto (ce_db env)) (ce_hash env) (qu_att q) (qu_header q) (h_seed tip_header)
                       (cp_current (ax_provisioners st)) None)
              | Past \<Rightarrow>
                  (case result_vote (at_result (qu_att q)) of
                     Valid _ \<Rightarrow>
                       (case block_by_height (ce_db env) (ch_round (qu_header q)) (begin_tx (ax_db st)) of
                          Inr (Some l_blk) \<Rightarrow>
                            Some (Inr (if h_prev_block_hash (bl_header l_blk) \<noteq> ch_prev_block_hash (qu_header q) \<or>
                                         h_iteration (bl_header l_blk) > ch_iteration (qu_header q)
                                       then [BroadcastMsg msg] else []))
                        | Inl (DbPanic p) \<Rightarrow> Some (Inl (Panic p))
                        | _ \<Rightarrow> Some (Inr []))
                   | _ \<Rightarrow> Some (Inr []))
              | Future \<Rightarrow> Some (Inr []))
         | _ \<Rightarrow> Some (Inr [])))"

end
