(* ===== verification/Chain_Store.thy ===== *)
theory Chain_Store
  imports Chain_Acceptor Mempool_Index
begin

text \<open>
  The chain in the database: a list of blocks with their executed transactions and labels, every one stored under
  its hash and its height.  What stores, relabels and deletes blocks changes the list accordingly; what concerns
  candidates and the mempool does not change it.
\<close>

type_synonym link = "block \<times> spent_tx list \<times> label"

abbreviation link_header :: "link \<Rightarrow> header" where
  "link_header x \<equiv> bl_header (fst x)"

abbreviation link_hash :: "link \<Rightarrow> hash" where
  "link_hash x \<equiv> h_hash (link_header x)"

abbreviation link_state :: "link \<Rightarrow> hash" where
  "link_state x \<equiv> h_state_hash (link_header x)"

abbreviation link_label :: "link \<Rightarrow> label" where
  "link_label x \<equiv> snd (snd x)"

definition relabel :: "label \<Rightarrow> link \<Rightarrow> link" where
  "relabel l x = (fst x, fst (snd x), l)"

text \<open>A block that can be stored at a height.\<close>

definition link_ok :: "('mpk, 'msig, 's, 'it) db_env \<Rightarrow> nat \<Rightarrow> link \<Rightarrow> bool" where
  "link_ok e i x \<longleftrightarrow>
     (case x of (b, txs, _) \<Rightarrow>
        block_ok (de_crypto e) b \<and> h_height (bl_header b) = of_nat i \<and> bl_txs b = map sp_inner txs \<and>
        (\<forall>tx \<in> set txs. spent_ok (de_crypto e) tx) \<and>
        inj_on (\<lambda>tx. ledger_tx_id e (sp_inner tx)) (set txs) \<and> inj_on (fault_id (de_crypto e)) (set (bl_faults b)))"

text \<open>A block that is stored.\<close>

definition link_stored :: "('mpk, 'msig, 's, 'it) db_env \<Rightarrow> 's db_tx \<Rightarrow> link \<Rightarrow> bool" where
  "link_stored e t x \<longleftrightarrow>
     (case x of (b, txs, label) \<Rightarrow>
        tx_get_cf e LedgerHeaderCf (h_hash (bl_header b)) t =
          Some (light_block_write (light_of e (bl_header b) txs (bl_faults b))) \<and>
        tx_get_cf e LedgerHeightCf (to_le_bytes (h_height (bl_header b))) t =
          Some (h_hash (bl_header b) @ label_write label) \<and>
        (\<forall>tx \<in> set txs. tx_get_cf e LedgerTxsCf (ledger_tx_id e (sp_inner tx)) t = Some (spent_tx_write (de_crypto e) tx)) \<and>
        (\<forall>f \<in> set (bl_faults b). tx_get_cf e LedgerFaultsCf (fault_id (de_crypto e) f) t = Some (fault_write f)))"

definition block_apart :: "('mpk, 'msig, 's, 'it) db_env \<Rightarrow> block \<Rightarrow> block \<Rightarrow> bool" where
  "block_apart e b b' \<longleftrightarrow>
     h_hash (bl_header b) \<noteq> h_hash (bl_header b') \<and>
     ledger_tx_id e ` set (bl_txs b) \<inter> ledger_tx_id e ` set (bl_txs b') = {} \<and>
     fault_id (de_crypto e) ` set (bl_faults b) \<inter> fault_id (de_crypto e) ` set (bl_faults b') = {}"

definition links_apart :: "('mpk, 'msig, 's, 'it) db_env \<Rightarrow> link list \<Rightarrow> bool" where
  "links_apart e cs \<longleftrightarrow> sorted_wrt (block_apart e) (map fst cs)"

definition chain :: "('mpk, 'msig, 's, 'it) db_env \<Rightarrow> 's db_tx \<Rightarrow> link list \<Rightarrow> bool" where
  "chain e t cs \<longleftrightarrow>
     length cs < 2 ^ 64 \<and> links_apart e cs \<and> (\<forall>i < length cs. link_ok e i (cs ! i) \<and> link_stored e t (cs ! i))"

section \<open>Reading the chain\<close>

lemma link_reads:
  assumes "db_laws e" and "link_ok e i x" and "link_stored e t x"
  shows "db_block e (link_hash x) t = Inr (Some (fst x))"
    and "db_block_header e (link_hash x) t = Inr (Some (link_header x))"
    and "block_by_height e (of_nat i) t = Inr (Some (fst x))"
    and "block_label_by_height e (of_nat i) t = Inr (Some (link_hash x, link_label x))"
proof -
  obtain b txs label where x: "x = (b, txs, label)" by (cases x)
  let ?nc = "de_crypto e" and ?lb = "light_of e (bl_header b) txs (bl_faults b)"
  have ok: "block_ok ?nc b" and height: "h_height (bl_header b) = of_nat i" and spent: "bl_txs b = map sp_inner txs"
    and sok: "\<And>tx. tx \<in> set txs \<Longrightarrow> spent_ok ?nc tx"
    using assms(2) by (auto simp: link_ok_def x)
  have header: "tx_get_cf e LedgerHeaderCf (h_hash (bl_header b)) t = Some (light_block_write ?lb)"
    and at: "tx_get_cf e LedgerHeightCf (to_le_bytes (of_nat i :: u64)) t = Some (h_hash (bl_header b) @ label_write label)"
    and txs: "\<And>tx. tx \<in> set txs \<Longrightarrow> tx_get_cf e LedgerTxsCf (ledger_tx_id e (sp_inner tx)) t = Some (spent_tx_write ?nc tx)"
    and faults: "\<And>f. f \<in> set (bl_faults b) \<Longrightarrow> tx_get_cf e LedgerFaultsCf (fault_id ?nc f) t = Some (fault_write f)"
    using assms(3) height by (auto simp: link_stored_def x)
  have len: "length (h_hash (bl_header b)) = 32" using ok by (simp add: block_ok_def header_ok_def)
  have "light_block_ok ?lb"
    using ok spent arg_cong [OF spent, of length]
    by (auto simp: light_block_ok_def block_ok_def ledger_tx_id_length [OF assms(1)] fault_id_length [OF assms(1)])
  then have light: "db_light_block e (h_hash (bl_header b)) t = Inr (Some ?lb)"
    using light_block.read_write [of ?lb "[]"] by (simp add: db_light_block_def header read_blob_def)
  have "read_all e LedgerTxsCf (spent_tx_read ?nc) (map (\<lambda>tx. ledger_tx_id e (sp_inner tx)) txs) t =
      Inr (map stored_spent txs)"
    using txs spent_reads_back [OF sok] by (intro read_all_map) blast
  moreover have "fault_read ?nc (fault_write f) = Inr (f, [])" if "f \<in> set (bl_faults b)" for f
    using that ok fault.read_write [of ?nc f "[]"] by (simp add: block_ok_def)
  then have "read_all e LedgerFaultsCf (fault_read ?nc) (map (fault_id ?nc) (bl_faults b)) t =
      Inr (map id (bl_faults b))"
    using faults by (intro read_all_map) auto
  moreover have "block_new ?nc (bl_header b) (bl_txs b) (bl_faults b) = b"
    using ok by (simp add: block_new_def calculate_hash_def block_ok_def)
  ultimately show block: "db_block e (link_hash x) t = Inr (Some (fst x))"
    using spent by (simp add: db_block_def light comp_def x)
  have "header_ok (bl_header b)" using ok by (simp add: block_ok_def)
  from header.read_write [OF this] show "db_block_header e (link_hash x) t = Inr (Some (link_header x))"
    by (simp add: db_block_header_def header read_blob_def x light_block_write_def)
  show "block_by_height e (of_nat i) t = Inr (Some (fst x))"
    using block by (simp add: block_by_height_def block_hash_by_height_def at len x)
  show "block_label_by_height e (of_nat i) t = Inr (Some (link_hash x, link_label x))"
    using label.read_write [of label "[]"] by (simp add: block_label_by_height_def at len read_blob_def x)
qed

lemma chain_reads:
  assumes "db_laws e" and "chain e t cs" and "i < length cs"
  shows "db_block e (link_hash (cs ! i)) t = Inr (Some (fst (cs ! i)))"
    and "db_block_header e (link_hash (cs ! i)) t = Inr (Some (link_header (cs ! i)))"
    and "block_by_height e (of_nat i) t = Inr (Some (fst (cs ! i)))"
    and "block_label_by_height e (of_nat i) t = Inr (Some (link_hash (cs ! i), link_label (cs ! i)))"
  using assms by (auto simp: chain_def intro: link_reads)

section \<open>Changing the chain\<close>

definition ledger_columns :: "column set" where
  "ledger_columns = {LedgerHeaderCf, LedgerTxsCf, LedgerFaultsCf, LedgerHeightCf}"

definition same_ledger :: "('mpk, 'msig, 's, 'it) db_env \<Rightarrow> 's db_tx \<Rightarrow> 's db_tx \<Rightarrow> bool" where
  "same_ledger e t t' \<longleftrightarrow> (\<forall>c \<in> ledger_columns. \<forall>k. tx_get_cf e c k t' = tx_get_cf e c k t)"

lemma same_ledger_refl [simp]: "same_ledger e t t"
  by (simp add: same_ledger_def)

lemma same_ledger_trans: "same_ledger e t u \<Longrightarrow> same_ledger e u v \<Longrightarrow> same_ledger e t v"
  by (simp add: same_ledger_def)

lemma same_ledger_stored: "same_ledger e t t' \<Longrightarrow> link_stored e t' x = link_stored e t x"
  by (cases x) (simp add: same_ledger_def ledger_columns_def link_stored_def)

lemma same_ledger_chain: "same_ledger e t t' \<Longrightarrow> chain e t' cs = chain e t cs"
  by (simp add: chain_def same_ledger_stored [of e t t'])

lemma begin_chain [simp]: "chain e (begin_tx (tx_inner t)) cs = chain e t cs"
  by (rule same_ledger_chain) (simp add: same_ledger_def tx_get_cf_def begin_tx_def)

lemma same_heights:
  assumes "i < length cs" and "j < length cs" and "length cs < 2 ^ 64"
  shows "to_le_bytes (of_nat i :: u64) = to_le_bytes (of_nat j :: u64) \<longleftrightarrow> i = j"
proof
  assume "to_le_bytes (of_nat i :: u64) = to_le_bytes (of_nat j :: u64)"
  then have "from_le_bytes (to_le_bytes (of_nat i :: u64)) = (from_le_bytes (to_le_bytes (of_nat j :: u64)) :: u64)"
    by (rule arg_cong)
  then have "unat (of_nat i :: u64) = unat (of_nat j :: u64)" by (simp add: from_to_le_bytes [where n = 8])
  with assms show "i = j" by (simp add: unat_of_nat)
qed simp

lemma chain_length: "chain e t cs \<Longrightarrow> length cs < 2 ^ 64"
  by (simp add: chain_def)

lemma chain_height: "chain e t cs \<Longrightarrow> i < length cs \<Longrightarrow> h_height (link_header (cs ! i)) = of_nat i"
  by (auto simp: chain_def link_ok_def split_beta)

lemma relabel_parts [simp]:
  "fst (relabel l x) = fst x" "link_label (relabel l x) = l" "link_ok e i (relabel l x) = link_ok e i x"
  by (simp_all add: relabel_def link_ok_def split_beta)

lemma relabel_stored:
  assumes laws: "db_laws e" and ch: "chain e t cs" and i: "i < length cs" and j: "j < length cs"
  shows "link_stored e (store_block_label e (of_nat i) (link_hash (cs ! i)) l t) ((cs[i := relabel l (cs ! i)]) ! j)"
proof -
  have st: "link_stored e t (cs ! j)" and hj: "h_height (link_header (cs ! j)) = of_nat j"
    and hi: "h_height (link_header (cs ! i)) = of_nat i"
    using ch i j chain_height by (auto simp: chain_def)
  have "to_le_bytes (of_nat i :: u64) = to_le_bytes (of_nat j :: u64) \<longleftrightarrow> i = j"
    using same_heights [OF i j] ch by (simp add: chain_def)
  with st hi hj i show ?thesis
    by (cases "i = j")
      (auto simp: link_stored_def store_block_label_def tx_get_put [OF laws] relabel_def split_beta)
qed

lemma chain_relabel:
  assumes "db_laws e" and "chain e t cs" and "i < length cs"
  shows "chain e (store_block_label e (of_nat i) (link_hash (cs ! i)) l t) (cs[i := relabel l (cs ! i)])"
proof -
  have "links_apart e (cs[i := relabel l (cs ! i)])"
    using assms(2,3) list_update_id [of "map fst cs" i] by (simp add: chain_def links_apart_def map_update)
  moreover have "link_ok e j ((cs[i := relabel l (cs ! i)]) ! j)" if "j < length cs" for j
    using assms(2,3) that by (cases "i = j") (auto simp: chain_def)
  ultimately show ?thesis
    using assms relabel_stored [OF assms] by (simp add: chain_def)
qed

lemma links_apart_snoc: "links_apart e (cs @ [x]) \<longleftrightarrow> links_apart e cs \<and> (\<forall>y \<in> set cs. block_apart e (fst y) (fst x))"
  by (simp add: links_apart_def sorted_wrt_append)

text \<open>A block that is stored on top, and the last block deleted.\<close>

lemma chain_append:
  assumes laws: "db_laws e" and ch: "chain e t cs" and len: "Suc (length cs) < 2 ^ 64"
    and ok: "link_ok e (length cs) (b, txs, label)" and apart: "links_apart e (cs @ [(b, txs, label)])"
    and st: "store_block e (bl_header b) txs (bl_faults b) label t = (n, t')"
  shows "chain e t' (cs @ [(b, txs, label)])"
proof -
  note columns = store_block_columns(1-4) [OF laws st]
  have height: "h_height (bl_header b) = of_nat (length cs)" and spent: "bl_txs b = map sp_inner txs"
    and inj: "inj_on (\<lambda>tx. ledger_tx_id e (sp_inner tx)) (set txs)" "inj_on (fault_id (de_crypto e)) (set (bl_faults b))"
    using ok by (auto simp: link_ok_def)
  have new: "link_stored e t' (b, txs, label)"
    using store_block_entries [OF laws st] inj by (auto simp: link_stored_def columns)
  have old: "link_stored e t' (cs ! i)" if i: "i < length cs" for i
  proof -
    obtain b' txs' l' where x: "cs ! i = (b', txs', l')" by (cases "cs ! i")
    have "block_apart e b' b" using apart nth_mem [OF i] by (auto simp: links_apart_snoc x)
    moreover have "bl_txs b' = map sp_inner txs'" and h: "h_height (bl_header b') = of_nat i" and s: "link_stored e t (cs ! i)"
      using ch i by (auto simp: chain_def link_ok_def x split_beta)
    moreover have "to_le_bytes (of_nat i :: u64) \<noteq> to_le_bytes (of_nat (length cs) :: u64)"
      using same_heights [of i "cs @ [(b, txs, label)]" "length cs"] i len by simp
    ultimately show ?thesis
      using spent height
      by (auto simp: link_stored_def x columns block_apart_def image_image disjoint_iff image_iff)
  qed
  show ?thesis
    using ch len ok apart new old by (auto simp: chain_def nth_append less_Suc_eq)
qed

lemma chain_delete_last:
  assumes laws: "db_laws e" and ch: "chain e t (cs @ [x])"
  shows "chain e (delete_block e (fst x) t) cs"
proof -
  have "link_stored e (delete_block e (fst x) t) (cs ! i)" if i: "i < length cs" for i
  proof -
    obtain b txs l where y: "cs ! i = (b, txs, l)" by (cases "cs ! i")
    have "block_apart e b (fst x)" using ch nth_mem [OF i] by (auto simp: chain_def links_apart_snoc y)
    moreover have "bl_txs b = map sp_inner txs" and h: "h_height (bl_header b) = of_nat i" and s: "link_stored e t (cs ! i)"
      and hx: "h_height (link_header x) = of_nat (length cs)"
      using ch i by (force simp: chain_def link_ok_def y nth_append less_Suc_eq)+
    moreover have "to_le_bytes (of_nat i :: u64) \<noteq> to_le_bytes (of_nat (length cs) :: u64)"
      using same_heights [of i "cs @ [x]" "length cs"] i ch by (simp add: chain_def)
    ultimately show ?thesis
      by (auto simp: link_stored_def y delete_block_columns [OF laws] block_apart_def image_image
          disjoint_iff image_iff)
  qed
  then show ?thesis
    using ch by (auto simp: chain_def links_apart_snoc nth_append less_Suc_eq)
qed

section \<open>What leaves the chain\<close>

lemma op_write_ledger: "db_laws e \<Longrightarrow> same_ledger e t (op_write e k v t)"
  by (simp add: same_ledger_def ledger_columns_def op_write_def tx_get_put)

lemma store_mempool_tx_ledger: "db_laws e \<Longrightarrow> same_ledger e t (store_mempool_tx e tx ts t)"
  by (simp add: same_ledger_def ledger_columns_def store_mempool_columns)

lemma store_mempool_txs_ledger: "db_laws e \<Longrightarrow> same_ledger e t (fold (\<lambda>tx. store_mempool_tx e tx ts) txs t)"
  by (induction txs arbitrary: t) (auto intro: same_ledger_trans store_mempool_tx_ledger)

lemma delete_candidates_ledger:
  "db_laws e \<Longrightarrow> delete_candidates_in e closure es t = Inr t' \<Longrightarrow> same_ledger e t t'"
proof (induction es arbitrary: t)
  case (Cons en es)
  obtain key h where en: "en = (key, h)" by (cases en)
  have "same_ledger e t (inner_delete_cf e CandidatesHeightCf key (inner_delete_cf e CandidatesCf h t))"
    by (simp add: same_ledger_def ledger_columns_def tx_get_delete [OF Cons.prems(1)])
  with Cons.IH [OF Cons.prems(1)] Cons.prems(2) show ?case
    by (fastforce simp: en split: sum.splits if_splits elim: same_ledger_trans)
qed simp

lemma drop_mempool_tx_ledger:
  assumes "db_laws e" and "drop_mempool_tx e h t = (r, t')"
  shows "same_ledger e t t'"
proof -
  have "tx_get_cf e c k (fold (inner_delete_cf e MempoolSpendingIdCf) ks u) = tx_get_cf e c k u"
    if "c \<in> ledger_columns" for c k ks u
    using that tx_get_fold_delete [OF assms(1), of c k MempoolSpendingIdCf id ks u]
    by (auto simp: ledger_columns_def)
  with assms(2) show ?thesis
    by (auto simp: drop_mempool_tx_def Let_def same_ledger_def ledger_columns_def tx_get_delete [OF assms(1)]
        split: sum.splits option.splits)
qed

lemma delete_logged_ledger:
  assumes "db_laws e"
  shows "\<exists>ds t'. delete_logged e False hs t = Some (ds, t') \<and> same_ledger e t t'"
proof (induction hs arbitrary: t)
  case (Cons h hs)
  obtain r u where d: "drop_mempool_tx e h t = (r, u)" by (cases "drop_mempool_tx e h t")
  have u: "same_ledger e t u" by (rule drop_mempool_tx_ledger [OF assms d])
  have "\<exists>r'. delete_mempool_tx e h False t = Some (r', u)"
    by (cases r) (auto simp: delete_mempool_tx_def d split: option.splits)
  then obtain r' where "delete_mempool_tx e h False t = Some (r', u)" ..
  moreover obtain ds t' where "delete_logged e False hs u = Some (ds, t')" "same_ledger e u t'"
    using Cons.IH by blast
  ultimately show ?case using same_ledger_trans [OF u] by auto
qed simp

lemma remove_included_ledger:
  assumes "db_laws e"
  shows "\<exists>ds t'. remove_included e txs t = Some (ds, t') \<and> same_ledger e t t'"
proof (induction txs arbitrary: t)
  case (Cons tx txs)
  obtain d1 t1 where 1: "delete_logged e False [ledger_tx_id e tx] t = Some (d1, t1)" "same_ledger e t t1"
    using delete_logged_ledger [OF assms] by blast
  obtain d2 t2 where 2: "delete_logged e False
      (mempool_txs_by_spendable_ids e (to_spend_ids (nc_wire (de_crypto e)) tx) t1) t1 = Some (d2, t2)" "same_ledger e t1 t2"
    using delete_logged_ledger [OF assms] by blast
  obtain ds t' where 3: "remove_included e txs t2 = Some (ds, t')" "same_ledger e t2 t'"
    using Cons.IH by blast
  have "remove_included e (tx # txs) t = Some (d1 @ d2 @ ds, t')"
    by (simp only: remove_included.simps 1 2 3 option.simps prod.simps)
  with 1 2 3 show ?case by (blast intro: same_ledger_trans)
qed simp

text \<open>Cleaning up after a block ends, and it leaves the chain.\<close>

lemma clean_up_chain:
  assumes "db_laws e"
  shows "\<exists>deleted db'. clean_up e tip db = Some (deleted, db') \<and> (\<forall>cs. chain e (begin_tx db') cs = chain e (begin_tx db) cs)"
proof -
  define closure where "closure height \<longleftrightarrow> height \<le> saturating_sub (h_height (bl_header tip)) CANDIDATES_DELETION_OFFSET" for height
  show ?thesis
  proof (cases "delete_candidate e closure (begin_tx db)")
    case (Inl err)
    then have "clean_up e tip db = Some ([], db)" by (simp add: clean_up_def closure_def [abs_def])
    then show ?thesis by simp
  next
    case (Inr t)
    obtain ds t' where r: "remove_included e (bl_txs tip) t = Some (ds, t')" "same_ledger e t t'"
      using remove_included_ledger [OF assms] by blast
    moreover have "same_ledger e (begin_tx db) t"
      using Inr by (auto simp: delete_candidate_def intro: delete_candidates_ledger [OF assms])
    ultimately have "clean_up e tip db = Some (ds, tx_inner t')" "same_ledger e (begin_tx db) t'"
      using Inr same_ledger_trans by (auto simp: clean_up_def closure_def [abs_def])
    then show ?thesis using same_ledger_chain by fastforce
  qed
qed

end
