(* ===== verification/Chain_Finality.thy ===== *)
theory Chain_Finality
  imports Chain_Store
begin

text \<open>
  Rolling finality as a function of the labels: which blocks an attested block settles, which of them become final,
  and that \<open>rolling_finality\<close> gives the blocks in the database these labels.
\<close>

section \<open>The labels\<close>

definition is_confirmed :: "label \<Rightarrow> bool" where
  "is_confirmed l = (case l of Confirmed _ \<Rightarrow> True | _ \<Rightarrow> False)"

definition is_final :: "label \<Rightarrow> bool" where
  "is_final l = (case l of Final _ \<Rightarrow> True | _ \<Rightarrow> False)"

text \<open>At height \<open>n\<close>, the block of height \<open>j\<close> has waited long enough.\<close>

definition waited :: "nat \<Rightarrow> nat \<Rightarrow> label \<Rightarrow> bool" where
  "waited n j l =
     (case l of Accepted c \<Rightarrow> unat c \<le> n - j | Attested c \<Rightarrow> unat c \<le> n - j | Confirmed _ \<Rightarrow> True | Final _ \<Rightarrow> False)"

text \<open>A block is settled once it and all the blocks above it have waited long enough.\<close>

definition settled :: "label list \<Rightarrow> nat \<Rightarrow> bool" where
  "settled ls i \<longleftrightarrow> is_confirmed (ls ! i) \<or> (\<forall>j \<in> {i..<length ls}. waited (length ls) j (ls ! j))"

text \<open>The labels after a block is added on top of those with labels \<open>ls\<close>, where \<open>f\<close> is the last final height.\<close>

definition rolled :: "nat \<Rightarrow> label list \<Rightarrow> nat \<Rightarrow> label" where
  "rolled f ls i =
     (if i \<le> f then ls ! i
      else if \<forall>k \<in> {Suc f..i}. settled ls k then Final (of_nat (length ls - i))
      else if settled ls i \<and> \<not> is_confirmed (ls ! i) then Confirmed (of_nat (length ls - i))
      else ls ! i)"

definition new_finals :: "nat \<Rightarrow> label list \<Rightarrow> nat list" where
  "new_finals f ls = takeWhile (settled ls) [Suc f..<length ls]"

definition last_final :: "nat \<Rightarrow> link list \<Rightarrow> bool" where
  "last_final f cs \<longleftrightarrow>
     f < length cs \<and> is_final (link_label (cs ! f)) \<and> (\<forall>i. f < i \<and> i < length cs \<longrightarrow> \<not> is_final (link_label (cs ! i)))"

section \<open>The loops\<close>

definition entry :: "link list \<Rightarrow> nat \<Rightarrow> labelled" where
  "entry cs i = (of_nat i, link_hash (cs ! i), link_label (cs ! i))"

lemma scan_labels_chain:
  assumes "db_laws e" and "chain e t cs" and "last_final f cs"
  shows "f < m \<Longrightarrow> m \<le> length cs \<Longrightarrow>
    scan_labels e m acc t = Inr (Some (link_hash (cs ! f)), map (entry cs) [Suc f..<m] @ acc)"
proof (induction m arbitrary: acc)
  case (Suc m)
  have read: "block_label_by_height e (of_nat m) t = Inr (Some (link_hash (cs ! m), link_label (cs ! m)))"
    using chain_reads(4) [OF assms(1,2)] Suc.prems by simp
  show ?case
  proof (cases "m = f")
    case True
    with assms(3) read show ?thesis by (auto simp: last_final_def is_final_def split: label.splits)
  next
    case False
    with Suc.prems assms(3) have "\<not> is_final (link_label (cs ! m))" by (auto simp: last_final_def)
    then have "scan_labels e (Suc m) acc t = scan_labels e m (entry cs m # acc) t"
      by (auto simp: read entry_def is_final_def split: label.splits)
    with Suc False show ?thesis by simp
  qed
qed simp

definition confirm_link :: "nat \<Rightarrow> nat \<Rightarrow> link \<Rightarrow> link" where
  "confirm_link n i x = (if is_confirmed (link_label x) then x else relabel (Confirmed (of_nat n - of_nat i)) x)"

fun confirm_links :: "nat \<Rightarrow> nat \<Rightarrow> nat \<Rightarrow> link list \<Rightarrow> link list" where
  "confirm_links n f 0 cs = cs"
| "confirm_links n f (Suc i) cs =
     (if i \<le> f \<or> \<not> waited n i (link_label (cs ! i)) then cs
      else confirm_links n f i (cs[i := confirm_link n i (cs ! i)]))"

lemma confirm_links_length [simp]: "length (confirm_links n f m cs) = length cs"
  by (induction m arbitrary: cs) simp_all

lemma confirm_links_nth:
  assumes "i < length cs" and "m \<le> length cs"
  shows "confirm_links n f m cs ! i =
    (if f < i \<and> i < m \<and> (\<forall>j \<in> {i..<m}. waited n j (link_label (cs ! j))) then confirm_link n i (cs ! i) else cs ! i)"
  using assms
proof (induction m arbitrary: cs)
  case (Suc m)
  have split: "{i..<Suc m} = insert m {i..<m}" if "i < Suc m" using that by auto
  have same: "(\<forall>j \<in> {i..<m}. waited n j (link_label (cs[m := x] ! j))) \<longleftrightarrow> (\<forall>j \<in> {i..<m}. waited n j (link_label (cs ! j)))" for x
    by (intro ball_cong) auto
  show ?case
  proof (cases "i = m")
    case True
    with Suc show ?thesis by auto
  next
    case False
    with Suc split same show ?thesis by (auto simp: less_Suc_eq)
  qed
qed simp

lemma entries_upd: "i \<notin> set is \<Longrightarrow> map (entry (cs[i := x])) is = map (entry cs) is"
  by (induction "is") (auto simp: entry_def)

lemma confirm_link_hash [simp]: "fst (confirm_link n i x) = fst x"
  by (simp add: confirm_link_def)

lemma count_le:
  assumes "i \<le> n" and "n < 2 ^ 64"
  shows "(c :: u64) \<le> of_nat n - of_nat i \<longleftrightarrow> unat c \<le> n - i"
proof -
  have "(of_nat n :: u64) - of_nat i = of_nat (n - i)" using assms by (simp add: of_nat_diff)
  moreover have "unat (of_nat (n - i) :: u64) = n - i" using assms by (simp add: unat_of_nat del: of_nat_diff)
  ultimately show ?thesis by (simp only: word_le_nat_alt)
qed

text \<open>One step of the first loop.\<close>

lemma confirm_labels_stop:
  assumes "i < n" and "n < 2 ^ 64" and "\<not> waited n i (link_label (cs ! i))"
  shows "confirm_labels e (of_nat n) (of_nat n - of_nat i) (entry cs i # labels) t = (entry cs i # labels, [], t)"
  using assms by (cases "link_label (cs ! i)") (auto simp: entry_def waited_def count_le)

lemma confirm_labels_go:
  assumes "db_laws e" and "chain e t cs" and "i < n" and "n = length cs"
    and "waited n i (link_label (cs ! i))" and cs': "cs' = cs[i := confirm_link n i (cs ! i)]"
  obtains t' events where "chain e t' cs'"
    and "\<And>labels. confirm_labels e (of_nat n) (of_nat n - of_nat i) (entry cs i # labels) t =
      (case confirm_labels e (of_nat n) (of_nat n - of_nat i + 1) labels t' of
         (rest, ev', t'') \<Rightarrow> (entry cs' i # rest, events @ ev', t''))"
proof -
  let ?l = "link_label (cs ! i)" and ?new = "Confirmed (of_nat n - of_nat i)"
  have n: "n < 2 ^ 64" using assms(2,4) by (simp add: chain_def)
  note count = count_le [OF less_imp_le [OF \<open>i < n\<close>] n]
  show thesis
  proof (cases "is_confirmed ?l")
    case True
    with assms have "cs' = cs" by (simp add: cs' confirm_link_def)
    with True assms that [of t "[]"] show thesis
      by (auto simp: entry_def is_confirmed_def split: label.splits prod.splits)
  next
    case False
    let ?t = "store_block_label e (of_nat i) (link_hash (cs ! i)) ?new t"
    have "cs' = cs[i := relabel ?new (cs ! i)]" using False by (simp add: cs' confirm_link_def)
    moreover from this chain_relabel [OF assms(1,2), of i ?new] assms(3,4) have "chain e ?t cs'" by simp
    moreover have "confirm_labels e (of_nat n) (of_nat n - of_nat i) (entry cs i # labels) t =
      (case confirm_labels e (of_nat n) (of_nat n - of_nat i + 1) labels ?t of
         (rest, ev', t'') \<Rightarrow> (entry (cs[i := relabel ?new (cs ! i)]) i # rest,
            [StateChange (link_hash (cs ! i)) BlockConfirmed (of_nat n)] @ ev', t''))" for labels
      using False assms(5) \<open>i < n\<close> \<open>n = length cs\<close> [symmetric]
      by (auto simp: entry_def waited_def is_confirmed_def count Let_def split: label.splits prod.splits)
    ultimately show thesis using that by metis
  qed
qed

lemma confirm_labels_chain:
  assumes "db_laws e" and "chain e t cs" and "n = length cs" and "m \<le> n"
  shows "\<exists>events t'. confirm_labels e (of_nat n) (of_nat n - of_nat m + 1) (map (entry cs) (rev [Suc f..<m])) t =
      (map (entry (confirm_links n f m cs)) (rev [Suc f..<m]), events, t') \<and> chain e t' (confirm_links n f m cs)"
  using assms(2-4)
proof (induction m arbitrary: t cs)
  case (Suc i)
  have i: "i < n" and n: "n < 2 ^ 64" using Suc.prems by (auto simp: chain_def)
  consider "i \<le> f" | "f < i" "\<not> waited n i (link_label (cs ! i))" | "f < i" "waited n i (link_label (cs ! i))"
    by linarith
  then show ?case
  proof cases
    case 1
    with Suc.prems show ?thesis by simp
  next
    case 2
    with Suc.prems(1,3) i show ?thesis by (simp add: confirm_labels_stop [OF i n])
  next
    case 3
    define cs' where "cs' = cs[i := confirm_link n i (cs ! i)]"
    obtain t1 ev where t1: "chain e t1 cs'" and go: "\<And>labels.
      confirm_labels e (of_nat n) (of_nat n - of_nat i) (entry cs i # labels) t =
      (case confirm_labels e (of_nat n) (of_nat n - of_nat i + 1) labels t1 of
         (rest, ev', t'') \<Rightarrow> (entry cs' i # rest, ev @ ev', t''))"
      using confirm_labels_go [OF assms(1) Suc.prems(1) i Suc.prems(2) 3(2) cs'_def] by metis
    have same: "map (entry cs) (rev [Suc f..<i]) = map (entry cs') (rev [Suc f..<i])"
      unfolding cs'_def by (rule entries_upd [symmetric]) simp
    have len: "length cs' = n" using Suc.prems by (simp add: cs'_def)
    obtain ev2 t2 where IH: "confirm_labels e (of_nat n) (of_nat n - of_nat i + 1) (map (entry cs') (rev [Suc f..<i])) t1 =
        (map (entry (confirm_links n f i cs')) (rev [Suc f..<i]), ev2, t2)" "chain e t2 (confirm_links n f i cs')"
      using Suc.IH [OF t1 len [symmetric]] i by auto
    have "confirm_links n f (Suc i) cs = confirm_links n f i cs'" using 3 by (simp add: cs'_def)
    moreover have "entry (confirm_links n f i cs') i = entry cs' i"
      using len i by (simp add: entry_def confirm_links_nth)
    ultimately show ?thesis using 3 IH by (simp add: go same)
  qed
qed simp

fun finalize_links :: "nat \<Rightarrow> nat list \<Rightarrow> link list \<Rightarrow> link list" where
  "finalize_links n [] cs = cs"
| "finalize_links n (i # is) cs =
     (if is_confirmed (link_label (cs ! i)) then finalize_links n is (cs[i := relabel (Final (of_nat n - of_nat i)) (cs ! i)])
      else cs)"

lemma finalize_links_length [simp]: "length (finalize_links n is cs) = length cs"
  by (induction "is" arbitrary: cs) simp_all

lemma upd_other: "i \<notin> A \<Longrightarrow> j \<in> A \<Longrightarrow> cs[i := x] ! j = cs ! j"
  by (cases "i = j") auto

lemma takeWhile_upd:
  "i \<notin> set is \<Longrightarrow> takeWhile (\<lambda>j. P (cs[i := x] ! j)) is = takeWhile (\<lambda>j. P (cs ! j)) is"
  by (rule takeWhile_cong) (simp_all add: upd_other)

lemma finalize_links_nth:
  assumes "distinct is" and "\<forall>i \<in> set is. i < length cs"
  shows "finalize_links n is cs ! j =
    (if j \<in> set (takeWhile (\<lambda>i. is_confirmed (link_label (cs ! i))) is) then relabel (Final (of_nat n - of_nat j)) (cs ! j)
     else cs ! j)"
  using assms
proof (induction "is" arbitrary: cs)
  case (Cons i "is")
  then have "takeWhile (\<lambda>j. is_confirmed (link_label (cs[i := x] ! j))) is =
      takeWhile (\<lambda>j. is_confirmed (link_label (cs ! j))) is" for x
    by (intro takeWhile_upd [of i "is" "\<lambda>x. is_confirmed (link_label x)"]) simp
  with Cons show ?case by (auto dest!: set_takeWhileD simp: upd_other [of i "set is"])
qed simp

lemma finalize_labels_chain:
  assumes "db_laws e" and "chain e t cs" and "n = length cs" and "distinct is"
    and "\<forall>i \<in> set is. i < n \<and> \<not> is_final (link_label (cs ! i))"
  shows "\<exists>events t'. finalize_labels e (of_nat n) (map (entry cs) is) t =
      Inr (map (\<lambda>i. (of_nat i, link_state (cs ! i))) (takeWhile (\<lambda>i. is_confirmed (link_label (cs ! i))) is), events, t') \<and>
      chain e t' (finalize_links n is cs)"
  using assms(2-5)
proof (induction "is" arbitrary: t cs)
  case (Cons i "is")
  show ?case
  proof (cases "is_confirmed (link_label (cs ! i))")
    case True
    let ?new = "Final (of_nat n - of_nat i)"
    define cs' t' where "cs' = cs[i := relabel ?new (cs ! i)]"
      and "t' = store_block_label e (of_nat i) (link_hash (cs ! i)) ?new t"
    have i: "i < n" "i \<notin> set is" using Cons.prems by simp_all
    have t': "chain e t' cs'"
      using chain_relabel [OF assms(1) Cons.prems(1)] i Cons.prems by (simp add: cs'_def t'_def)
    have header: "db_block_header e (link_hash (cs ! i)) t' = Inr (Some (link_header (cs ! i)))"
      using chain_reads(2) [OF assms(1) t', of i] i Cons.prems by (simp add: cs'_def)
    have "\<forall>j \<in> set is. cs' ! j = cs ! j" using i by (simp add: cs'_def upd_other)
    then have same: "map (entry cs) is = map (entry cs') is"
      "takeWhile (\<lambda>j. is_confirmed (link_label (cs ! j))) is = takeWhile (\<lambda>j. is_confirmed (link_label (cs' ! j))) is"
      "map (\<lambda>j. (of_nat j :: u64, link_state (cs ! j))) (takeWhile P is) = map (\<lambda>j. (of_nat j, link_state (cs' ! j))) (takeWhile P is)"
      "\<forall>j \<in> set is. j < n \<and> \<not> is_final (link_label (cs' ! j))" for P
      using Cons.prems by (auto simp: entry_def dest: set_takeWhileD intro: takeWhile_cong)
    obtain ev t2 where "finalize_labels e (of_nat n) (map (entry cs') is) t' =
        Inr (map (\<lambda>i. (of_nat i, link_state (cs' ! i))) (takeWhile (\<lambda>i. is_confirmed (link_label (cs' ! i))) is), ev, t2)"
      "chain e t2 (finalize_links n is cs')"
      using Cons.IH [OF t'] same(4) Cons.prems by (auto simp: cs'_def)
    moreover have "finalize_labels e (of_nat n) (entry cs i # labels) t =
        res_map (\<lambda>(finals, events, t''). ((of_nat i, link_state (cs ! i)) # finals,
            StateChange (link_hash (cs ! i)) BlockFinalized (of_nat n) # events, t''))
          (finalize_labels e (of_nat n) labels t')" for labels
      using True header by (auto simp: entry_def is_confirmed_def t'_def Let_def split: label.splits)
    moreover have "finalize_links n (i # is) cs = finalize_links n is cs'" using True by (simp add: cs'_def)
    ultimately show ?thesis using True by (simp add: same)
  next
    case False
    with Cons.prems show ?thesis
      by (auto simp: entry_def is_confirmed_def is_final_def split: label.splits)
  qed
qed simp

section \<open>The function\<close>

lemma in_takeWhile_upt: "i \<in> set (takeWhile P [a..<b]) \<longleftrightarrow> a \<le> i \<and> i < b \<and> (\<forall>k \<in> {a..i}. P k)"
proof (induction "b - a" arbitrary: a)
  case (Suc d)
  then have "[a..<b] = a # [Suc a..<b]" by (simp add: upt_conv_Cons)
  moreover have "{a..i} = insert a {Suc a..i}" if "a \<le> i" using that by auto
  ultimately show ?case
    using Suc.hyps(1) [of "Suc a"] Suc.hyps(2) by (cases "i = a") (auto simp: not_less_eq_eq)
qed auto

definition rolled_links :: "nat \<Rightarrow> link list \<Rightarrow> link list" where
  "rolled_links f cs = map (\<lambda>i. relabel (rolled f (map link_label cs) i) (cs ! i)) [0..<length cs]"

lemma relabel_same [simp]: "relabel (link_label x) x = x"
  by (cases x) (simp add: relabel_def)

lemma relabel_again [simp]: "relabel l (relabel l' x) = relabel l x"
  by (simp add: relabel_def)

lemma rolled_links_length [simp]: "length (rolled_links f cs) = length cs"
  by (simp add: rolled_links_def)

lemma rolled_links_nth: "i < length cs \<Longrightarrow> rolled_links f cs ! i = relabel (rolled f (map link_label cs) i) (cs ! i)"
  by (simp add: rolled_links_def)

lemma settled_links:
  assumes "i < length cs"
  shows "settled (map link_label cs) i \<longleftrightarrow>
    is_confirmed (link_label (cs ! i)) \<or> (\<forall>j \<in> {i..<length cs}. waited (length cs) j (link_label (cs ! j)))"
proof -
  have "(\<forall>j \<in> {i..<length cs}. waited (length cs) j (map link_label cs ! j)) \<longleftrightarrow>
      (\<forall>j \<in> {i..<length cs}. waited (length cs) j (link_label (cs ! j)))"
    by (rule ball_cong) simp_all
  with assms show ?thesis by (simp add: settled_def)
qed

lemma is_confirmed_Confirmed [simp]: "is_confirmed (Confirmed d)" "\<not> is_final (Confirmed d)"
  by (simp_all add: is_confirmed_def is_final_def)

lemma confirm_links_settled:
  assumes "i < length cs"
  shows "confirm_links (length cs) f (length cs) cs ! i =
    (if f < i \<and> settled (map link_label cs) i \<and> \<not> is_confirmed (link_label (cs ! i))
     then relabel (Confirmed (of_nat (length cs - i))) (cs ! i) else cs ! i)"
  using assms by (simp add: confirm_links_nth settled_links confirm_link_def of_nat_diff) blast

lemma loops_settle:
  assumes "f < i" and "i < length cs"
  shows "is_confirmed (link_label (confirm_links (length cs) f (length cs) cs ! i)) \<longleftrightarrow> settled (map link_label cs) i"
  using assms by (simp add: confirm_links_settled) (auto simp: settled_def)

lemma loops_rolled:
  assumes fin: "last_final f cs"
  shows "finalize_links (length cs) [Suc f..<length cs] (confirm_links (length cs) f (length cs) cs) = rolled_links f cs"
proof (rule nth_equalityI)
  let ?n = "length cs" and ?ls = "map link_label cs"
  let ?cs = "confirm_links ?n f ?n cs"
  fix i
  assume "i < length (finalize_links ?n [Suc f..<?n] ?cs)"
  then have i: "i < ?n" by simp
  have count: "(of_nat ?n :: u64) - of_nat i = of_nat (?n - i)" using i by (simp add: of_nat_diff)
  have "i \<in> set (takeWhile (\<lambda>i. is_confirmed (link_label (?cs ! i))) [Suc f..<?n]) \<longleftrightarrow>
      f < i \<and> (\<forall>k \<in> {Suc f..i}. settled ?ls k)"
    using i by (auto simp: in_takeWhile_upt loops_settle)
  then have final: "finalize_links ?n [Suc f..<?n] ?cs ! i =
      (if f < i \<and> (\<forall>k \<in> {Suc f..i}. settled ?ls k) then relabel (Final (of_nat (?n - i))) (?cs ! i) else ?cs ! i)"
    by (simp add: finalize_links_nth count)
  show "finalize_links ?n [Suc f..<?n] ?cs ! i = rolled_links f cs ! i"
    unfolding final rolled_links_nth [OF i] rolled_def confirm_links_settled [OF i] by (simp add: i)
qed simp

lemma confirm_links_state: "i < length cs \<Longrightarrow> fst (confirm_links n f (length cs) cs ! i) = fst (cs ! i)"
  by (simp add: confirm_links_nth)

lemma rolling_finality_chain:
  assumes laws: "db_laws e" and ch: "chain e t cs" and fin: "last_final f cs"
    and height: "h_height (bl_header blk) = of_nat (length cs)"
  shows "\<exists>events t'. rolling_finality e 0 blk t =
      Inr ((Attested 1, if new_finals f (map link_label cs) = [] then None
            else Some (link_state (cs ! f), map (\<lambda>i. (of_nat i, link_state (cs ! i))) (new_finals f (map link_label cs)))),
           events, t') \<and>
      chain e t' (rolled_links f cs)"
proof -
  let ?n = "length cs" and ?ls = "map link_label cs"
  define cs' where "cs' = confirm_links ?n f ?n cs"
  have f: "f < ?n" and n: "unat (of_nat ?n :: u64) = ?n"
    using fin ch by (simp_all add: last_final_def chain_def unat_of_nat)
  have scan: "scan_labels e ?n [] t = Inr (Some (link_hash (cs ! f)), map (entry cs) [Suc f..<?n])"
    using scan_labels_chain [OF laws ch fin f] by simp
  obtain ev1 t1 where confirm: "confirm_labels e (of_nat ?n) 1 (map (entry cs) (rev [Suc f..<?n])) t =
      (map (entry cs') (rev [Suc f..<?n]), ev1, t1)" and t1: "chain e t1 cs'"
    using confirm_labels_chain [OF laws ch refl order_refl, of f] by (auto simp: cs'_def)
  have settle: "is_confirmed (link_label (cs' ! i)) = settled ?ls i" "\<not> is_final (link_label (cs' ! i))"
    if "f < i" "i < ?n" for i
    using that loops_settle [OF that] fin by (simp_all add: cs'_def confirm_links_settled last_final_def)
  have same: "takeWhile (\<lambda>i. is_confirmed (link_label (cs' ! i))) [Suc f..<?n] = new_finals f ?ls"
    unfolding new_finals_def by (rule takeWhile_cong) (auto simp: settle)
  have "map (\<lambda>i. (of_nat i :: u64, link_state (cs' ! i))) (new_finals f ?ls) =
      map (\<lambda>i. (of_nat i, link_state (cs ! i))) (new_finals f ?ls)"
    by (auto simp: new_finals_def cs'_def confirm_links_state dest!: set_takeWhileD)
  then obtain ev2 t2 where "finalize_labels e (of_nat ?n) (map (entry cs') [Suc f..<?n]) t1 =
      Inr (map (\<lambda>i. (of_nat i, link_state (cs ! i))) (new_finals f ?ls), ev2, t2)" "chain e t2 (rolled_links f cs)"
    using finalize_labels_chain [OF laws t1, of ?n "[Suc f..<?n]"] loops_rolled [OF fin] settle(2) same
    by (auto simp: cs'_def)
  then show ?thesis
    using confirm chain_reads(2) [OF laws ch f]
    by (simp add: rolling_finality_def confirmation_delay_def height n scan rev_map)
qed

lemma rolling_finality_result:
  assumes "db_laws e" and "chain e t cs" and "last_final f cs" and "h_height (bl_header blk) = of_nat (length cs)"
  shows "\<exists>events t'.
    rolling_finality e pni blk t =
      Inr (if pni = 0
           then (Attested 1, if new_finals f (map link_label cs) = [] then None
                             else Some (link_state (cs ! f),
                                        map (\<lambda>i. (of_nat i, link_state (cs ! i))) (new_finals f (map link_label cs))))
           else (Accepted (2 * ucast pni), None), events, t') \<and>
    chain e t' (if pni = 0 then rolled_links f cs else cs)"
proof (cases "pni = 0")
  case True
  then show ?thesis using rolling_finality_chain [OF assms] by (simp only: if_True simp_thms)
next
  case False
  with assms(2) show ?thesis by (simp add: rolling_finality_def confirmation_delay_def)
qed

end
