(* ===== verification/Chain_Safety.thy ===== *)
theory Chain_Safety
  imports Chain_Finality
begin

text \<open>
  What the acceptor promises: the labels of the blocks after one is accepted, and the chain after a revert.
\<close>

section \<open>Finality\<close>

text \<open>
  C10: Rolling finality is what the delays say.  When a block is accepted on top of a chain whose last final block is at
  height \<open>f\<close>, and the iterations before the block's own are all attested, \<open>rolling_finality\<close> gives it the label
  \<open>Attested(1)\<close> and relabels the blocks above \<open>f\<close>: one becomes final if it and every block between \<open>f\<close> and it are
  settled (confirmed before, or the block and all above it have waited for their delay), and otherwise confirmed if it
  is settled; the other labels stay.  It returns the state of block \<open>f\<close> with the states of the new final blocks in
  order.  If an earlier iteration is not attested, the block waits for two blocks for each, and nothing else changes.
\<close>

theorem rolling_finality_labels:
  assumes "db_laws e" and "chain e t cs" and "last_final f cs" and "h_height (bl_header blk) = of_nat (length cs)"
  defines "finals \<equiv> new_finals f (map link_label cs)"
  shows "\<exists>events t'.
    rolling_finality e pni blk t =
      Inr (if pni = 0
           then (Attested 1, if finals = [] then None
                             else Some (link_state (cs ! f), map (\<lambda>i. (of_nat i, link_state (cs ! i))) finals))
           else (Accepted (2 * ucast pni), None), events, t') \<and>
    chain e t' (if pni = 0 then rolled_links f cs else cs)"
  using rolling_finality_result [OF assms(1-4), of pni] unfolding finals_def .

section \<open>Reverting\<close>

lemma tx_exists_delete: "db_laws e \<Longrightarrow> mempool_tx_exists e h (delete_block e b t) = mempool_tx_exists e h t"
  by (simp add: mempool_tx_exists_def delete_block_columns)

lemma tx_exists_store:
  assumes "db_laws e"
  shows "mempool_tx_exists e h (fold (\<lambda>tx. store_mempool_tx e tx now) txs t) \<longleftrightarrow>
    h \<in> ledger_tx_id e ` set txs \<or> mempool_tx_exists e h t"
  by (induction txs arbitrary: t) (auto simp: mempool_tx_exists_def store_mempool_columns [OF assms])

definition back_in_mempool :: "('mpk, 'msig, 's, 'it) db_env \<Rightarrow> 's db_tx \<Rightarrow> link list \<Rightarrow> bool" where
  "back_in_mempool e t cs \<longleftrightarrow> (\<forall>x \<in> set cs. \<forall>tx \<in> set (bl_txs (fst x)). mempool_tx_exists e (ledger_tx_id e tx) t)"

definition reverted_events :: "link list \<Rightarrow> chain_effect list" where
  "reverted_events cs = map (\<lambda>x. NotifyBlock (Reverted (link_hash x) (h_height (link_header x)))) (rev cs)"

lemma revert_blocks_chain:
  assumes laws: "db_laws e"
  shows "chain e t cs \<Longrightarrow> k < length cs \<Longrightarrow> link_state (cs ! k) = target \<Longrightarrow>
    (\<forall>i. k < i \<and> i < length cs \<longrightarrow> link_state (cs ! i) \<noteq> target) \<Longrightarrow>
    \<exists>t'. revert_blocks e now target (length cs - 1) t =
        run_ret ((fst (cs ! k), link_label (cs ! k)), reverted_events (drop (Suc k) cs), t') \<and>
      chain e t' (take (Suc k) cs) \<and> back_in_mempool e t' (drop (Suc k) cs) \<and>
      (\<forall>h. mempool_tx_exists e h t \<longrightarrow> mempool_tx_exists e h t')"
proof (induction cs arbitrary: t rule: rev_induct)
  case (snoc x cs)
  let ?n = "length cs"
  have reads: "block_by_height e (of_nat ?n) t = Inr (Some (fst x))"
    "block_label_by_height e (of_nat ?n) t = Inr (Some (link_hash x, link_label x))"
    "h_height (link_header x) = of_nat ?n"
    using chain_reads(3,4) [OF laws snoc.prems(1), of ?n] chain_height [OF snoc.prems(1), of ?n] by simp_all
  show ?case
  proof (cases "k = ?n")
    case True
    with snoc.prems reads show ?thesis
      by (subst revert_blocks.simps) (simp add: db_run_def Let_def reverted_events_def back_in_mempool_def)
  next
    case False
    with snoc.prems have k: "k < ?n" by simp
    have x: "link_state x \<noteq> target" using snoc.prems(4) k by force
    from k obtain n where n: "?n = Suc n" by (cases ?n) auto
    have drop: "drop (Suc k) (cs @ [x]) = drop (Suc k) cs @ [x]" using k by simp
    define t1 where "t1 = fold (\<lambda>tx. store_mempool_tx e tx now) (bl_txs (fst x)) (delete_block e (fst x) t)"
    have "chain e (delete_block e (fst x) t) cs" by (rule chain_delete_last [OF laws snoc.prems(1)])
    then have "chain e t1 cs"
      using same_ledger_chain [OF store_mempool_txs_ledger [OF laws]] by (simp add: t1_def)
    moreover have "link_state (cs ! i) \<noteq> target" if "k < i" "i < ?n" for i
      using snoc.prems(4) [rule_format, of i] that by (simp add: nth_append)
    moreover have "link_state (cs ! k) = target" using snoc.prems(3) k by (simp add: nth_append)
    ultimately obtain t' where IH:
      "revert_blocks e now target n t1 = run_ret ((fst (cs ! k), link_label (cs ! k)), reverted_events (drop (Suc k) cs), t')"
      "chain e t' (take (Suc k) cs)" "back_in_mempool e t' (drop (Suc k) cs)"
      "\<forall>h. mempool_tx_exists e h t1 \<longrightarrow> mempool_tx_exists e h t'"
      using snoc.IH [of t1] k n by auto
    have "mempool_tx_exists e h t1 \<longleftrightarrow> h \<in> ledger_tx_id e ` set (bl_txs (fst x)) \<or> mempool_tx_exists e h t" for h
      by (simp add: t1_def tx_exists_store [OF laws] tx_exists_delete [OF laws])
    then have "back_in_mempool e t' (drop (Suc k) (cs @ [x]))" "\<forall>h. mempool_tx_exists e h t \<longrightarrow> mempool_tx_exists e h t'"
      using IH(3,4) k by (auto simp: back_in_mempool_def)
    moreover have "revert_blocks e now target (Suc n) t =
        run_ret ((fst (cs ! k), link_label (cs ! k)), reverted_events (drop (Suc k) (cs @ [x])), t')"
      using reads x IH(1) drop unfolding n
      by (subst revert_blocks.simps) (simp add: db_run_def Let_def reverted_events_def t1_def)
    ultimately show ?thesis using IH(2) k n by (simp add: nth_append)
  qed
qed simp

text \<open>
  The state of an acceptor on a chain: the tip is the last block, the final blocks are those up to height \<open>f\<close>, and the
  VM is at the state of the tip and keeps the state of block \<open>f\<close> as its base.
\<close>

definition acceptor_ok ::
    "('mpk, 'msig, 's, 'it, 'w) chain_env \<Rightarrow> link list \<Rightarrow> nat \<Rightarrow> ('s, 'w) acceptor \<Rightarrow> bool" where
  "acceptor_ok env cs f st \<longleftrightarrow>
     chain (ce_db env) (begin_tx (ax_db st)) cs \<and> f < length cs \<and> distinct (map link_state cs) \<and>
     (\<forall>i < length cs. is_final (link_label (cs ! i)) \<longleftrightarrow> i \<le> f) \<and>
     ax_tip st = fst (last cs) \<and> ax_label st = link_label (last cs) \<and>
     ax_current st = link_state (last cs) \<and> ax_base st = link_state (cs ! f)"

lemma acceptor_height:
  assumes "acceptor_ok env cs f st"
  shows "unat (h_height (bl_header (ax_tip st))) = length cs - 1"
proof -
  have ch: "chain (ce_db env) (begin_tx (ax_db st)) cs" and tip: "ax_tip st = fst (last cs)"
    using assms by (simp_all add: acceptor_ok_def)
  obtain n where n: "length cs = Suc n" using assms by (cases "length cs") (auto simp: acceptor_ok_def)
  then have "last cs = cs ! n" by (metis diff_Suc_1 last_conv_nth length_0_conv nat.distinct(1))
  with tip chain_height [OF ch, of n] chain_length [OF ch] n show ?thesis by (simp add: unat_of_nat)
qed

lemma chain_exists:
  assumes "chain e t cs" and "i < length cs"
  shows "block_exists e (link_hash (cs ! i)) t"
  using assms by (auto simp: chain_def link_stored_def block_exists_def split_beta)

lemma update_tip_chain:
  assumes laws: "db_laws (ce_db env)" and ch: "chain (ce_db env) (begin_tx (ax_db st)) cs" and i: "i < length cs"
    and w: "rk_store (ax_rusk st) (link_state (cs ! i)) = Some w"
  shows "\<exists>db. update_tip env (fst (cs ! i)) label st =
      (run_ret [AbortTask], st\<lparr>ax_db := db, ax_tip := fst (cs ! i), ax_label := label,
         ax_provisioners := apply_changes (query_provisioners_change (rk_wire (ax_rusk st)) w)
           (context_new (query_provisioners (rk_wire (ax_rusk st)) w))\<rparr>) \<and>
    same_ledger (ce_db env) (begin_tx (ax_db st)) (begin_tx db) \<and>
    (\<forall>h. mempool_tx_exists (ce_db env) h (begin_tx db) = mempool_tx_exists (ce_db env) h (begin_tx (ax_db st)))"
proof -
  let ?e = "ce_db env" and ?t = "begin_tx (ax_db st)" and ?h = "link_header (cs ! i)"
  define t where "t = op_write ?e MD_STATE_ROOT_KEY (h_state_hash ?h) (op_write ?e MD_HASH_KEY (h_hash ?h) ?t)"
  have same: "tx_get_cf ?e c k (begin_tx (tx_inner t)) = tx_get_cf ?e c k t" for c k
    by (simp add: tx_get_cf_def begin_tx_def)
  have "same_ledger ?e ?t t"
    unfolding t_def using op_write_ledger [OF laws] same_ledger_trans by blast
  then have "same_ledger ?e ?t (begin_tx (tx_inner t))"
    by (simp add: same_ledger_def same)
  moreover have "mempool_tx_exists ?e h (begin_tx (tx_inner t)) = mempool_tx_exists ?e h ?t" for h
    by (simp add: mempool_tx_exists_def same) (simp add: t_def op_write_def tx_get_put [OF laws])
  moreover have "update_tip env (fst (cs ! i)) label st =
      (run_ret [AbortTask], st\<lparr>ax_db := tx_inner t, ax_tip := fst (cs ! i), ax_label := label,
         ax_provisioners := apply_changes (query_provisioners_change (rk_wire (ax_rusk st)) w)
           (context_new (query_provisioners (rk_wire (ax_rusk st)) w))\<rparr>)"
    using chain_exists [OF ch i] w by (simp add: update_tip_def Let_def t_def context_update_def context_new_def)
  ultimately show ?thesis by blast
qed

lemma try_revert_chain:
  assumes laws: "db_laws (ce_db env)" and ok: "acceptor_ok env cs f st" and k: "f \<le> k" "k < length cs"
    and target: "target = RevertCommit (link_state (cs ! k)) \<or> target = LastFinalizedState \<and> k = f"
    and w: "rk_store (ax_rusk st) (link_state (cs ! k)) = Some w"
  shows "\<exists>st'. try_revert env now target st = (run_ret (reverted_events (drop (Suc k) cs) @ [AbortTask]), st') \<and>
      acceptor_ok env (take (Suc k) cs) f st' \<and>
      back_in_mempool (ce_db env) (begin_tx (ax_db st')) (drop (Suc k) cs) \<and>
      ax_provisioners st' = apply_changes (query_provisioners_change (rk_wire (ax_rusk st)) w)
        (context_new (query_provisioners (rk_wire (ax_rusk st)) w))"
proof -
  let ?e = "ce_db env" and ?st = "st\<lparr>ax_current := link_state (cs ! k)\<rparr>"
  have ch: "chain ?e (begin_tx (ax_db st)) cs" and dist: "distinct (map link_state cs)" and base: "ax_base st = link_state (cs ! f)"
    using ok by (auto simp: acceptor_ok_def)
  have "link_state (cs ! i) \<noteq> link_state (cs ! k)" if "k < i" "i < length cs" for i
    using dist that by (auto simp: distinct_conv_nth)
  then obtain t where t: "revert_blocks ?e now (link_state (cs ! k)) (length cs - 1) (begin_tx (ax_db st)) =
      run_ret ((fst (cs ! k), link_label (cs ! k)), reverted_events (drop (Suc k) cs), t)"
    "chain ?e t (take (Suc k) cs)" "back_in_mempool ?e t (drop (Suc k) cs)"
    using revert_blocks_chain [OF laws ch k(2) refl, of now] by blast
  have height: "unat (h_height (bl_header (ax_tip st))) = length cs - 1"
    by (rule acceptor_height [OF ok])
  have "chain ?e (begin_tx (ax_db (?st\<lparr>ax_db := tx_inner t\<rparr>))) (take (Suc k) cs)" using t(2) by simp
  from update_tip_chain [OF laws this, of k w "link_label (cs ! k)"] k w
  obtain db where up: "update_tip env (fst (cs ! k)) (link_label (cs ! k)) (?st\<lparr>ax_db := tx_inner t\<rparr>) =
      (run_ret [AbortTask], ?st\<lparr>ax_db := db, ax_tip := fst (cs ! k), ax_label := link_label (cs ! k),
         ax_provisioners := apply_changes (query_provisioners_change (rk_wire (ax_rusk st)) w)
           (context_new (query_provisioners (rk_wire (ax_rusk st)) w))\<rparr>)"
    "same_ledger ?e (begin_tx (tx_inner t)) (begin_tx db)"
    "\<forall>h. mempool_tx_exists ?e h (begin_tx db) = mempool_tx_exists ?e h (begin_tx (tx_inner t))" by auto
  define st' where "st' = ?st\<lparr>ax_db := db, ax_tip := fst (cs ! k), ax_label := link_label (cs ! k),
         ax_provisioners := apply_changes (query_provisioners_change (rk_wire (ax_rusk st)) w)
           (context_new (query_provisioners (rk_wire (ax_rusk st)) w))\<rparr>"
  have "try_revert env now target st = (run_ret (reverted_events (drop (Suc k) cs) @ [AbortTask]), st')"
    using target w t(1) up(1) base
    by (auto simp: try_revert_def vm_revert_def height Let_def run_ret_def run_bind_def st'_def)
  moreover have "chain ?e (begin_tx db) (take (Suc k) cs)"
    using same_ledger_chain [OF up(2)] t(2) by simp
  moreover have "back_in_mempool ?e (begin_tx db) (drop (Suc k) cs)"
    using t(3) up(3) by (auto simp: back_in_mempool_def mempool_tx_exists_def tx_get_cf_def begin_tx_def)
  moreover have "last (take (Suc k) cs) = cs ! k" using k by (simp add: take_Suc_conv_app_nth)
  ultimately show ?thesis
    using ok k dist by (intro exI [of _ st']) (auto simp: acceptor_ok_def st'_def take_map [symmetric])
qed

text \<open>
  C11: A revert leaves exactly the chain up to its target.  On a chain whose blocks up to height \<open>f\<close> are final, a revert
  to the last final state, or to the commit of a block of height \<open>k \<ge> f\<close>, always succeeds when the VM has that
  commit: the blocks above are deleted, those up to it are kept with their labels, the tip, the VM's commit and the
  provisioners are those of block \<open>k\<close>, subscribers are told of every reverted block from the top down, and the
  transactions of these blocks are back in the mempool.
\<close>

theorem revert_keeps_final_blocks:
  assumes "db_laws (ce_db env)" and "acceptor_ok env cs f st" and "f \<le> k" "k < length cs"
    and "target = RevertCommit (link_state (cs ! k)) \<or> target = LastFinalizedState \<and> k = f"
    and "rk_store (ax_rusk st) (link_state (cs ! k)) = Some w"
  shows "\<exists>st'. try_revert env now target st = (run_ret (reverted_events (drop (Suc k) cs) @ [AbortTask]), st') \<and>
      acceptor_ok env (take (Suc k) cs) f st' \<and>
      back_in_mempool (ce_db env) (begin_tx (ax_db st')) (drop (Suc k) cs) \<and>
      ax_provisioners st' = apply_changes (query_provisioners_change (rk_wire (ax_rusk st)) w)
        (context_new (query_provisioners (rk_wire (ax_rusk st)) w))"
  by (rule try_revert_chain [OF assms])

end
