(* ===== verification/Chain_Accept.thy ===== *)
theory Chain_Accept
  imports Chain_Safety
begin

text \<open>
  Accepting a block keeps the state of an acceptor in order: the block is on top of the chain in the database, the
  labels are those of rolling finality, and the base of the VM is the state of the last final block.
\<close>

section \<open>What the checks and the execution give\<close>

lemma verify_block_header_basic:
  assumes "verify_block_header env now db prev provs header = run_ret x"
  shows "h_height header = h_height prev + 1" and "\<not> block_exists (ce_db env) (h_hash header) (begin_tx db)"
proof -
  obtain g c where "execute_checks (validator_of env now db prev provs) header g c = run_ret x"
    using assms unfolding verify_block_header_def Let_def
    by (auto split: if_splits option.splits sum.splits simp: run_ret_def)
  then obtain g' where "verify_basic_fields (validator_of env now db prev provs) header g' = Inr ()"
    by (auto simp: execute_checks_def run_err_def run_ret_def split: sum.splits)
  then show "h_height header = h_height prev + 1" and "\<not> block_exists (ce_db env) (h_hash header) (begin_tx db)"
    by (auto simp: verify_basic_fields_def validator_of_def Let_def split: if_splits bool.splits)
qed

definition displayed :: "'w rusk \<Rightarrow> spent_tx \<Rightarrow> bool" where
  "displayed rk s \<longleftrightarrow> (case sp_err s of None \<Rightarrow> True | Some err \<Rightarrow> err \<in> range (rk_display rk))"

lemma to_spent_facts [simp]: "sp_inner (to_spent rk bh tx receipt) = tx" "displayed rk (to_spent rk bh tx receipt)"
  by (auto simp: to_spent_def displayed_def split: sum.splits)

lemma accept_txs_spent:
  "accept_txs rk bh txs a = Inr a' \<Longrightarrow> \<forall>s \<in> set (ac_spent a). displayed rk s \<Longrightarrow>
     map sp_inner (ac_spent a') = map sp_inner (ac_spent a) @ txs \<and> (\<forall>s \<in> set (ac_spent a'). displayed rk s)"
proof (induction rk bh txs a rule: accept_txs.induct)
  case (2 rk bh tx txs a)
  obtain receipt session where run: "run_tx rk bh tx (ac_session a) = Inr (receipt, session)"
    and gas: "\<not> cr_gas_spent receipt > ac_gas_left a"
    using "2.prems" by (auto simp: Let_def split: sum.splits execute_error.splits if_splits)
  from "2.IH" [OF run refl refl gas] "2.prems" run gas show ?case by (simp add: Let_def)
qed simp

lemma vm_accept_facts:
  assumes "vm_accept nc rk tip prev blk vs = Inr (txs, out, evs, commit, rk')"
  shows "map sp_inner txs = bl_txs blk" and "\<forall>s \<in> set txs. displayed rk s"
    and "commit = h_state_hash (bl_header blk)"
proof -
  obtain session a session' where
    acc: "accept_txs rk (h_height (bl_header blk)) (bl_txs blk)
        \<lparr>ac_session = session, ac_gas_left = h_gas_limit (bl_header blk), ac_spent = [], ac_dusk_spent = 0,
         ac_bloom = bloom_new\<rparr> = Inr a"
    and txs: "txs = ac_spent a" and commit: "commit = rk_root rk session'" "vo_state_root out = rk_root rk session'"
    and out: "vo_state_root out = h_state_hash (bl_header blk)"
    using assms
    by (auto simp: vm_accept_def accept_transactions_def accept_def finish_block_def Let_def split: if_splits)
  from accept_txs_spent [OF acc] txs commit out
  show "map sp_inner txs = bl_txs blk" "\<forall>s \<in> set txs. displayed rk s"
    "commit = h_state_hash (bl_header blk)" by simp_all
qed

section \<open>The labels\<close>

lemma new_finals_upt: "new_finals f ls = [Suc f..<Suc f + length (new_finals f ls)]"
proof -
  have "new_finals f ls = take (length (new_finals f ls)) [Suc f..<length ls]"
    unfolding new_finals_def by (rule takeWhile_eq_take)
  moreover have "length (new_finals f ls) \<le> length ls - Suc f"
    using length_takeWhile_le [of "settled ls" "[Suc f..<length ls]"] by (simp add: new_finals_def)
  ultimately show ?thesis by (metis add.commute le_diff_conv2 length_upt less_or_eq_imp_le linorder_not_le take_upt upt_rec)
qed

lemma rolled_final:
  assumes "\<forall>i < length ls. is_final (ls ! i) \<longleftrightarrow> i \<le> f" and "i < length ls"
  shows "is_final (rolled f ls i) \<longleftrightarrow> i \<le> f + length (new_finals f ls)"
proof -
  have "i \<in> set (new_finals f ls) \<longleftrightarrow> f < i \<and> (\<forall>k \<in> {Suc f..i}. settled ls k)"
    unfolding new_finals_def using assms(2) by (auto simp: in_takeWhile_upt)
  moreover have "i \<in> set (new_finals f ls) \<longleftrightarrow> f < i \<and> i \<le> f + length (new_finals f ls)"
    by (subst new_finals_upt) auto
  ultimately have set: "f < i \<Longrightarrow> i \<le> f + length (new_finals f ls) \<longleftrightarrow> (\<forall>k \<in> {Suc f..i}. settled ls k)" by blast
  show ?thesis
  proof (cases "i \<le> f")
    case True with assms show ?thesis by (simp add: rolled_def)
  next
    case False
    with assms have "\<not> is_final (ls ! i)" by simp
    with False set show ?thesis by (simp add: rolled_def is_final_def)
  qed
qed

lemma rolled_links_blocks [simp]: "map fst (rolled_links f cs) = map fst cs"
  by (rule nth_equalityI) (simp_all add: rolled_links_nth)

lemma links_apart_blocks: "map fst cs = map fst cs' \<Longrightarrow> links_apart e cs = links_apart e cs'"
  by (simp add: links_apart_def)

section \<open>Accepting\<close>

text \<open>
  What is required of a block: that it can be stored, that its transactions, faults and state are not those of another
  block of the chain, and that the errors of its transactions are texts.
\<close>

definition fits :: "('mpk, 'msig, 's, 'it, 'w) chain_env \<Rightarrow> link list \<Rightarrow> 'w rusk \<Rightarrow> block \<Rightarrow> bool" where
  "fits env cs rk blk \<longleftrightarrow>
     (let e = ce_db env in
      block_ok (de_crypto e) blk \<and> Suc (length cs) < 2 ^ 64 \<and>
      distinct (map (ledger_tx_id e) (bl_txs blk)) \<and> inj_on (fault_id (de_crypto e)) (set (bl_faults blk)) \<and>
      (\<forall>x \<in> set cs.
         ledger_tx_id e ` set (bl_txs (fst x)) \<inter> ledger_tx_id e ` set (bl_txs blk) = {} \<and>
         fault_id (de_crypto e) ` set (bl_faults (fst x)) \<inter> fault_id (de_crypto e) ` set (bl_faults blk) = {} \<and>
         link_state x \<noteq> h_state_hash (bl_header blk)) \<and>
      (\<forall>err. length (rk_display rk err) < 2 ^ 32 \<and> utf8_valid (string_bytes (rk_display rk err))))"

lemma fits_link_ok:
  assumes "fits env cs rk blk" and "map sp_inner txs = bl_txs blk" and "\<forall>s \<in> set txs. displayed rk s"
    and "h_height (bl_header blk) = of_nat (length cs)"
  shows "link_ok (ce_db env) (length cs) (blk, txs, label)"
proof -
  let ?e = "ce_db env"
  have "distinct (map (\<lambda>tx. ledger_tx_id ?e (sp_inner tx)) txs)"
    using assms(1) by (simp add: fits_def Let_def comp_def flip: assms(2))
  then have "inj_on (\<lambda>tx. ledger_tx_id ?e (sp_inner tx)) (set txs)" by (simp add: distinct_map)
  moreover have "spent_ok (de_crypto ?e) s" if s: "s \<in> set txs" for s
  proof -
    have "ledger_tx_ok (de_crypto ?e) (sp_inner s)"
      using assms(1) s by (auto simp: fits_def Let_def block_ok_def simp flip: assms(2))
    moreover have "length err < 2 ^ 32 \<and> utf8_valid (string_bytes err)" if "sp_err s = Some err" for err
    proof -
      have "err \<in> range (rk_display rk)" using assms(3) s that by (auto simp: displayed_def)
      with assms(1) show ?thesis unfolding fits_def Let_def by blast
    qed
    ultimately show ?thesis by (auto simp: spent_ok_def split: option.splits)
  qed
  ultimately show ?thesis using assms(1,2,4) by (auto simp: link_ok_def fits_def Let_def)
qed

lemma fits_apart:
  assumes "chain (ce_db env) t cs" and "fits env cs rk blk" and "\<not> block_exists (ce_db env) (h_hash (bl_header blk)) t"
    and "map fst cs' = map fst cs"
  shows "links_apart (ce_db env) (cs' @ [(blk, txs, label)])"
proof -
  have "links_apart (ce_db env) cs'" using links_apart_blocks [OF assms(4), of "ce_db env"] assms(1) by (simp add: chain_def)
  moreover have "block_apart (ce_db env) (fst y) blk" if y: "y \<in> set cs" for y
  proof -
    obtain i where "i < length cs" "y = cs ! i" using y by (auto simp: in_set_conv_nth)
    then have "link_hash y \<noteq> h_hash (bl_header blk)" using chain_exists [OF assms(1), of i] assms(3) by auto
    with assms(2) y show ?thesis by (simp add: block_apart_def fits_def Let_def)
  qed
  moreover have "fst ` set cs' = fst ` set cs" using arg_cong [OF assms(4), of set] by simp
  then have "\<forall>y \<in> set cs'. \<exists>x \<in> set cs. fst y = fst x" by (metis imageE image_eqI)
  ultimately show ?thesis by (auto simp: links_apart_snoc)
qed

definition accepted_label :: "u8 \<Rightarrow> label" where
  "accepted_label pni = (if pni = 0 then Attested 1 else Accepted (2 * ucast pni))"

text \<open>The chain and the last final height after a block with \<open>pni\<close> iterations that are not attested.\<close>

definition extended :: "u8 \<Rightarrow> nat \<Rightarrow> link list \<Rightarrow> block \<Rightarrow> spent_tx list \<Rightarrow> link list" where
  "extended pni f cs blk txs = (if pni = 0 then rolled_links f cs else cs) @ [(blk, txs, accepted_label pni)]"

definition next_final :: "u8 \<Rightarrow> nat \<Rightarrow> link list \<Rightarrow> nat" where
  "next_final pni f cs = (if pni = 0 then f + length (new_finals f (map link_label cs)) else f)"

definition final_results :: "u8 \<Rightarrow> nat \<Rightarrow> link list \<Rightarrow> (hash \<times> (u64 \<times> hash) list) option" where
  "final_results pni f cs =
     (if next_final pni f cs = f then None
      else Some (link_state (cs ! f), map (\<lambda>i. (of_nat i, link_state (cs ! i))) [Suc f..<Suc (next_final pni f cs)]))"

lemma rolling_finality_next:
  assumes "db_laws e" and "chain e t cs" and "last_final f cs" and "h_height (bl_header blk) = of_nat (length cs)"
  obtains events t' where "rolling_finality e pni blk t = Inr ((accepted_label pni, final_results pni f cs), events, t')"
    and "chain e t' (if pni = 0 then rolled_links f cs else cs)"
proof -
  have "new_finals f ls = [] \<longleftrightarrow> f + length (new_finals f ls) = f" for ls by simp
  moreover have "new_finals f ls = [Suc f..<Suc (f + length (new_finals f ls))]" for ls
    using new_finals_upt [of f ls] by simp
  ultimately show thesis
    using rolling_finality_result [OF assms, of pni] that
    unfolding accepted_label_def final_results_def next_final_def by (cases "pni = 0") auto
qed

lemma execute_and_store_chain:
  assumes laws: "db_laws (ce_db env)" and ch: "chain (ce_db env) (begin_tx (ax_db st)) cs" and fin: "last_final f cs"
    and fits: "fits env cs (ax_rusk st) blk" and height: "h_height (bl_header blk) = of_nat (length cs)"
    and new: "\<not> block_exists (ce_db env) (h_hash (bl_header blk)) (begin_tx (ax_db st))"
    and run: "execute_and_store env pni blk pv st = (run_ret (evs, finality, effects), st')"
  obtains txs rk where "map sp_inner txs = bl_txs blk" and "finality = (accepted_label pni, final_results pni f cs)"
    and "chain (ce_db env) (begin_tx (ax_db st')) (extended pni f cs blk txs)"
    and "st' = st\<lparr>ax_rusk := rk, ax_current := h_state_hash (bl_header blk), ax_db := ax_db st'\<rparr>"
proof -
  let ?e = "ce_db env"
  obtain events t1 where roll: "rolling_finality ?e pni blk (begin_tx (ax_db st)) =
      Inr ((accepted_label pni, final_results pni f cs), events, t1)"
    and t1: "chain ?e t1 (if pni = 0 then rolled_links f cs else cs)"
    using rolling_finality_next [OF laws ch fin height] by metis
  obtain txs out commit rk where acc: "vm_accept (de_crypto ?e) (ax_rusk st) (ax_current st)
      (h_state_hash (bl_header (ax_tip st))) blk pv = Inr (txs, out, evs, commit, rk)"
    and fin': "finality = (accepted_label pni, final_results pni f cs)"
    and st': "st' = st\<lparr>ax_rusk := rk, ax_current := commit, ax_db :=
        tx_inner (snd (store_block ?e (bl_header blk) txs (bl_faults blk) (accepted_label pni) t1))\<rparr>"
    using run roll
    by (auto simp: execute_and_store_def Let_def vm_run_def run_ret_def run_err_def
        split: sum.splits if_splits node_error.splits prod.splits)
  note facts = vm_accept_facts [OF acc]
  let ?cs = "if pni = 0 then rolled_links f cs else cs"
  have blocks: "map fst ?cs = map fst cs" "length ?cs = length cs" by simp_all
  have ok: "link_ok ?e (length ?cs) (blk, txs, accepted_label pni)"
    using fits_link_ok [OF fits facts(1,2) height] by simp
  have apart: "links_apart ?e (?cs @ [(blk, txs, accepted_label pni)])"
    by (rule fits_apart [OF ch fits new blocks(1)])
  have "Suc (length ?cs) < 2 ^ 64" using fits by (simp add: fits_def Let_def)
  from chain_append [OF laws t1 this ok apart prod.collapse [symmetric]]
  have "chain ?e (begin_tx (ax_db st')) (extended pni f cs blk txs)" by (simp add: st' extended_def)
  with facts(1,3) fin' show thesis by (intro that [of txs rk]) (simp_all add: st')
qed

text \<open>The provisioners, the tip and the base of the VM.\<close>

lemma advance_tip_fields:
  assumes "advance_tip env blk evs (label, final_results pni f cs) st = (run_ret finalized, st')"
    and "ax_base st = link_state (cs ! f)"
  shows "ax_tip st' = blk" and "ax_label st' = label" and "ax_db st' = ax_db st" and "ax_current st' = ax_current st"
    and "ax_base st' = link_state (cs ! next_final pni f cs)" and "finalized \<longleftrightarrow> next_final pni f cs \<noteq> f"
proof -
  have "f \<le> next_final pni f cs" by (simp add: next_final_def)
  then have "ax_tip st' = blk \<and> ax_label st' = label \<and> ax_db st' = ax_db st \<and> ax_current st' = ax_current st \<and>
      ax_base st' = link_state (cs ! next_final pni f cs) \<and> (finalized \<longleftrightarrow> next_final pni f cs \<noteq> f)"
    using assms
    by (auto simp: advance_tip_def Let_def final_results_def set_base_and_merge_def run_ret_def vm_run_def run_err_def
        split: sum.splits option.splits if_splits prod.splits node_error.splits)
  then show "ax_tip st' = blk" "ax_label st' = label" "ax_db st' = ax_db st" "ax_current st' = ax_current st"
    "ax_base st' = link_state (cs ! next_final pni f cs)" "finalized \<longleftrightarrow> next_final pni f cs \<noteq> f" by simp_all
qed

lemma extended_labels:
  assumes "\<forall>i < length cs. is_final (link_label (cs ! i)) \<longleftrightarrow> i \<le> f" and "f < length cs"
  shows "next_final pni f cs < length cs"
    and "i < length (extended pni f cs blk txs) \<Longrightarrow>
      is_final (link_label (extended pni f cs blk txs ! i)) \<longleftrightarrow> i \<le> next_final pni f cs"
proof -
  let ?ls = "map link_label cs"
  have "length (new_finals f ?ls) \<le> length cs - Suc f"
    using length_takeWhile_le [of "settled ?ls" "[Suc f..<length ?ls]"] by (simp add: new_finals_def)
  with assms(2) show last: "next_final pni f cs < length cs" by (auto simp: next_final_def)
  assume i: "i < length (extended pni f cs blk txs)"
  show "is_final (link_label (extended pni f cs blk txs ! i)) \<longleftrightarrow> i \<le> next_final pni f cs"
  proof (cases "i < length cs")
    case True
    with rolled_final [of ?ls f i] assms(1) show ?thesis
      by (simp add: extended_def nth_append next_final_def rolled_links_nth)
  next
    case False
    with i have "i = length cs" by (simp add: extended_def split: if_splits)
    with last show ?thesis by (simp add: extended_def nth_append accepted_label_def is_final_def)
  qed
qed

lemma extended_states: "map link_state (extended pni f cs blk txs) = map link_state cs @ [h_state_hash (bl_header blk)]"
proof -
  have "map link_state (rolled_links f cs) = map link_state cs" by (rule nth_equalityI) (simp_all add: rolled_links_nth)
  then show ?thesis by (simp add: extended_def)
qed

lemma accept_height:
  assumes "acceptor_ok env cs f st" and "h_height header = h_height (bl_header (ax_tip st)) + 1"
  shows "h_height header = of_nat (length cs)"
proof -
  have "h_height (bl_header (ax_tip st)) = of_nat (length cs - 1)"
    using arg_cong [OF acceptor_height [OF assms(1)], of "of_nat :: nat \<Rightarrow> u64"] by simp
  moreover have "length cs \<noteq> 0" using assms(1) by (auto simp: acceptor_ok_def)
  ultimately show ?thesis using assms(2) by (cases "length cs") auto
qed

lemma acceptor_last_final: "acceptor_ok env cs f st \<Longrightarrow> last_final f cs"
  by (auto simp: acceptor_ok_def last_final_def)

lemma try_accept_block_chain:
  assumes laws: "db_laws (ce_db env)" and ok: "acceptor_ok env cs f st" and fits: "fits env cs (ax_rusk st) blk"
    and run: "try_accept_block env now blk ec st = (run_ret (finalized, effects), st')"
  shows "\<exists>pni pv tv txs.
    verify_block_header env now (ax_db st) (bl_header (ax_tip st)) (ax_provisioners st) (bl_header blk) = run_ret (pni, pv, tv) \<and>
    map sp_inner txs = bl_txs blk \<and> acceptor_ok env (extended pni f cs blk txs) (next_final pni f cs) st' \<and>
    (finalized \<longleftrightarrow> next_final pni f cs \<noteq> f)"
proof -
  let ?e = "ce_db env"
  obtain pni pv tv evs finality ev1 st1 st2 deleted db where
    header: "verify_block_header env now (ax_db st) (bl_header (ax_tip st)) (ax_provisioners st) (bl_header blk) =
      run_ret (pni, pv, tv)"
    and store: "execute_and_store env pni blk pv st = (run_ret (evs, finality, ev1), st1)"
    and advance: "advance_tip env blk evs finality st1 = (run_ret finalized, st2)"
    and clean: "clean_up ?e blk (ax_db st2) = Some (deleted, db)"
    and st': "ax_db st' = db" "ax_tip st' = ax_tip st2" "ax_label st' = ax_label st2" "ax_current st' = ax_current st2"
      "ax_base st' = ax_base st2"
    using run
    by (auto simp: try_accept_block_def Let_def run_ret_def run_err_def split: option.splits sum.splits prod.splits)
  note basic = verify_block_header_basic [OF header]
  have ch: "chain ?e (begin_tx (ax_db st)) cs" and base: "ax_base st = link_state (cs ! f)"
    and final: "\<forall>i < length cs. is_final (link_label (cs ! i)) \<longleftrightarrow> i \<le> f" "f < length cs"
    and dist: "distinct (map link_state cs)"
    using ok by (simp_all add: acceptor_ok_def)
  obtain txs rk where txs: "map sp_inner txs = bl_txs blk"
    and finality: "finality = (accepted_label pni, final_results pni f cs)"
    and st1: "chain ?e (begin_tx (ax_db st1)) (extended pni f cs blk txs)"
      "st1 = st\<lparr>ax_rusk := rk, ax_current := h_state_hash (bl_header blk), ax_db := ax_db st1\<rparr>"
    using execute_and_store_chain [OF laws ch acceptor_last_final [OF ok] fits accept_height [OF ok basic(1)] basic(2) store]
    by metis
  have "ax_base st1 = link_state (cs ! f)" "ax_current st1 = h_state_hash (bl_header blk)"
    using base by (subst st1(2), simp)+
  note st2 = advance_tip_fields [OF advance [unfolded finality] this(1)] this(2)
  have "chain ?e (begin_tx db) (extended pni f cs blk txs)"
    using clean_up_chain [OF laws, of blk "ax_db st2"] clean st1(1) st2(3) by auto
  moreover have "last (extended pni f cs blk txs) = (blk, txs, accepted_label pni)" by (simp add: extended_def)
  moreover have "link_state (extended pni f cs blk txs ! next_final pni f cs) = link_state (cs ! next_final pni f cs)"
    using extended_labels(1) [OF final] by (simp add: extended_def nth_append rolled_links_nth)
  moreover have "distinct (map link_state (extended pni f cs blk txs))"
    using fits dist by (auto simp: extended_states fits_def Let_def)
  moreover have "next_final pni f cs < length (extended pni f cs blk txs)"
    using extended_labels(1) [OF final, of pni] by (auto simp: extended_def)
  ultimately have "acceptor_ok env (extended pni f cs blk txs) (next_final pni f cs) st'"
    using extended_labels(2) [OF final] st' st2 by (simp add: acceptor_ok_def)
  with header txs st2(6) show ?thesis by blast
qed

text \<open>
  C9: Accepting a block keeps the node in order.  If \<open>try_accept_block\<close> succeeds, the block is on top of the chain in
  the database with its transactions as they were executed, under the label for the \<open>pni\<close> iterations that its header
  leaves without an attestation; the final blocks are again those up to one height, which has moved over the blocks
  that rolling finality made final; the VM is at the state of the block, and what it keeps for reverts is the state
  of the last final block.  The header checks guarantee that the block has the next height and a new hash.
\<close>

theorem accepted_block_extends_chain:
  assumes "db_laws (ce_db env)" and "acceptor_ok env cs f st" and "fits env cs (ax_rusk st) blk"
    and "try_accept_block env now blk enable_consensus st = (run_ret (finalized, effects), st')"
  shows "\<exists>pni pv tv txs.
    verify_block_header env now (ax_db st) (bl_header (ax_tip st)) (ax_provisioners st) (bl_header blk) = run_ret (pni, pv, tv) \<and>
    map sp_inner txs = bl_txs blk \<and> acceptor_ok env (extended pni f cs blk txs) (next_final pni f cs) st' \<and>
    (finalized \<longleftrightarrow> next_final pni f cs \<noteq> f)"
  by (rule try_accept_block_chain [OF assms])

end
