(* ===== verification/Chain_Witness.thy ===== *)
theory Chain_Witness
  imports Chain_Accept Header_Safety
begin

text \<open>A chain of three blocks in a database in memory: what the theorems on finality and reverts say of it; and an
  emergency block on top of a genesis block.\<close>

definition sample_link :: "nat \<Rightarrow> spent_tx list \<Rightarrow> label \<Rightarrow> link" where
  "sample_link i txs label =
     (\<lparr>bl_header = header_default\<lparr>h_height := of_nat i, h_hash := replicate 32 (of_nat i + 1),
         h_state_hash := replicate 32 (of_nat i + 7)\<rparr>, bl_txs = map sp_inner txs, bl_faults = []\<rparr>, txs, label)"

definition sample_chain :: "link list" where
  "sample_chain = [sample_link 0 [] (Final 0), sample_link 1 [] (Attested 1), sample_link 2 [spent0 None] (Attested 1)]"

definition store_link :: "link \<Rightarrow> memory db_tx \<Rightarrow> memory db_tx" where
  "store_link x t = (case x of (b, txs, label) \<Rightarrow> snd (store_block db_env0 (bl_header b) txs (bl_faults b) label t))"

definition sample_tx :: "memory db_tx" where
  "sample_tx = fold store_link sample_chain (begin_tx empty_db)"

lemma sample_link_ok:
  assumes "i < 3" and "txs = [] \<or> txs = [spent0 None]"
  shows "link_ok db_env0 i (sample_link i txs label)"
proof -
  have hash: "(of_nat i + 1 :: 8 word) \<noteq> 0" "(of_nat i + 1 :: u8) \<noteq> 0"
    using assms(1) by (auto simp: less_Suc_eq numeral_3_eq_3)
  have "header_ok (link_header (sample_link i txs label))"
    using sample_block_ok
    by (simp add: block_ok_def block0_def sample_link_def header_ok_def hashable_ok_def header_default_def)
  with assms hash ledger_tx0_ok32 show ?thesis
    by (auto simp: link_ok_def sample_link_def block_ok_def spent_ok_def spent0_def db_env0_def)
qed

lemma store_link_chain:
  assumes "chain db_env0 t cs" and "length cs < 3" and "x = sample_link (length cs) txs label"
    and "txs = [] \<or> txs = [spent0 None]" and "links_apart db_env0 (cs @ [x])"
  shows "chain db_env0 (store_link x t) (cs @ [x])"
proof -
  obtain b where x: "x = (b, txs, label)" using assms(3) by (auto simp: sample_link_def)
  have "link_ok db_env0 (length cs) (b, txs, label)" using sample_link_ok [OF assms(2,4)] assms(3) x by metis
  moreover have "Suc (length cs) < 2 ^ 64" using assms(2) by simp
  ultimately show ?thesis
    using chain_append [OF db_env0_laws assms(1), of b txs label] assms(5)
    by (auto simp: store_link_def x intro: prod.collapse [symmetric])
qed

lemma sample_chain_stored: "chain db_env0 sample_tx sample_chain"
proof -
  have "chain db_env0 (begin_tx empty_db) []" by (simp add: chain_def links_apart_def)
  then have "chain db_env0 (fold store_link [sample_link 0 [] (Final 0)] (begin_tx empty_db)) [sample_link 0 [] (Final 0)]"
    using store_link_chain [of "begin_tx empty_db" "[]" "sample_link 0 [] (Final 0)" "[]" "Final 0"]
    by (simp add: links_apart_def)
  from store_link_chain [OF this, of "sample_link 1 [] (Attested 1)" "[]" "Attested 1"]
  have "chain db_env0 (fold store_link [sample_link 0 [] (Final 0), sample_link 1 [] (Attested 1)] (begin_tx empty_db))
      [sample_link 0 [] (Final 0), sample_link 1 [] (Attested 1)]"
    by (simp add: links_apart_def block_apart_def sample_link_def)
  from store_link_chain [OF this, of "sample_link 2 [spent0 None] (Attested 1)" "[spent0 None]" "Attested 1"]
  show ?thesis
    by (simp add: sample_tx_def sample_chain_def links_apart_def block_apart_def sample_link_def)
qed

lemma sample_labels: "map link_label sample_chain = [Final 0, Attested 1, Attested 1]"
  by (simp add: sample_chain_def sample_link_def)

lemma sample_finals: "new_finals 0 [Final 0, Attested 1, Attested 1] = [1, 2]"
  by code_simp

text \<open>An attested block of height 3 makes the blocks of heights 1 and 2 final.\<close>

theorem rolling_finality_labels_witness:
  "\<exists>events t'. rolling_finality db_env0 0 (fst (sample_link 3 [] (Attested 1))) sample_tx =
      Inr ((Attested 1, Some (replicate 32 7, [(1, replicate 32 8), (2, replicate 32 9)])), events, t') \<and>
    chain db_env0 t' [sample_link 0 [] (Final 0), sample_link 1 [] (Final 2), sample_link 2 [spent0 None] (Final 1)]"
proof -
  have fin: "last_final 0 sample_chain"
    by (simp add: last_final_def sample_chain_def sample_link_def is_final_def less_Suc_eq) auto
  have "rolled 0 [Final 0, Attested 1, Attested 1] 0 = Final 0" "rolled 0 [Final 0, Attested 1, Attested 1] 1 = Final 2"
    "rolled 0 [Final 0, Attested 1, Attested 1] 2 = Final 1" by code_simp+
  then have rolled: "rolled_links 0 sample_chain =
      [sample_link 0 [] (Final 0), sample_link 1 [] (Final 2), sample_link 2 [spent0 None] (Final 1)]"
    unfolding rolled_links_def sample_labels by (simp add: sample_chain_def sample_link_def relabel_def upt_rec numeral_2_eq_2)
  have states: "link_state (sample_chain ! 0) = replicate 32 7" "link_state (sample_chain ! Suc 0) = replicate 32 8"
    "link_state (sample_chain ! 2) = replicate 32 9"
    by (simp_all add: sample_chain_def sample_link_def)
  have height: "h_height (bl_header (fst (sample_link 3 [] (Attested 1)))) = of_nat (length sample_chain)"
    by (simp add: sample_chain_def sample_link_def)
  show ?thesis
    using rolling_finality_labels [OF db_env0_laws sample_chain_stored fin height, of 0]
    unfolding sample_labels sample_finals rolled by (simp add: states)
qed

definition chain_env0 :: "(public_key list, bytes, memory, memory_iter, sworld) chain_env" where
  "chain_env0 = \<lparr>ce_db = db_env0, ce_hash = (\<lambda>_. replicate 32 1), ce_minimum_block_time = 10, ce_dusk_key = replicate 96 0,
     ce_finalize_commit = (\<lambda>_ rk. Inr rk)\<rparr>"

definition acceptor0 :: "(memory, sworld) acceptor" where
  "acceptor0 = \<lparr>ax_tip = fst (last sample_chain), ax_label = Attested 1, ax_provisioners = context_new bm_empty,
     ax_future_msgs = bm_empty, ax_db = tx_inner sample_tx,
     ax_rusk = rk0\<lparr>rk_store := (\<lambda>_. Some staking_world)\<rparr>, ax_current = replicate 32 9, ax_base = replicate 32 7\<rparr>"

lemma acceptor0_ok: "acceptor_ok chain_env0 sample_chain 0 acceptor0"
  using sample_chain_stored
  by (auto simp: acceptor_ok_def chain_env0_def acceptor0_def sample_chain_def sample_link_def is_final_def less_Suc_eq)

text \<open>From there the node goes back to the genesis block.\<close>

theorem revert_keeps_final_blocks_witness:
  "\<exists>st'. try_revert chain_env0 5 LastFinalizedState acceptor0 =
      (run_ret [NotifyBlock (Reverted (replicate 32 3) 2), NotifyBlock (Reverted (replicate 32 2) 1), AbortTask], st') \<and>
    acceptor_ok chain_env0 [sample_link 0 [] (Final 0)] 0 st' \<and>
    mempool_tx_exists db_env0 (ledger_tx_id db_env0 ledger_tx0) (begin_tx (ax_db st'))"
proof -
  have len: "0 < length sample_chain" by (simp add: sample_chain_def)
  have drop: "drop (Suc 0) sample_chain = [sample_link 1 [] (Attested 1), sample_link 2 [spent0 None] (Attested 1)]"
    "take (Suc 0) sample_chain = [sample_link 0 [] (Final 0)]"
    by (simp_all add: sample_chain_def)
  show ?thesis
    using revert_keeps_final_blocks [of chain_env0 sample_chain 0 acceptor0 0 LastFinalizedState staking_world 5]
      db_env0_laws acceptor0_ok len
    unfolding drop
    by (auto simp: chain_env0_def acceptor0_def reverted_events_def back_in_mempool_def sample_link_def spent0_def)
qed

section \<open>An emergency block\<close>

definition genesis_acceptor :: "(memory, sworld) acceptor" where
  "genesis_acceptor = \<lparr>ax_tip = fst (sample_link 0 [] (Final 0)), ax_label = Final 0,
     ax_provisioners = context_new lone_provisioner, ax_future_msgs = bm_empty,
     ax_db = tx_inner (store_link (sample_link 0 [] (Final 0)) (begin_tx empty_db)),
     ax_rusk = rk0\<lparr>rk_store := (\<lambda>_. Some staking_world)\<rparr>, ax_current = replicate 32 7, ax_base = replicate 32 7\<rparr>"

definition emergency_block :: "bloom \<Rightarrow> block" where
  "emergency_block bl = \<lparr>bl_header = header_default\<lparr>h_version := 1, h_height := 1, h_timestamp := 7000,
     h_prev_block_hash := replicate 32 1, h_state_hash := replicate 32 2, h_event_bloom := bl,
     h_iteration := EMERGENCY_BLOCK_ITERATION, h_hash := replicate 32 5\<rparr>, bl_txs = [], bl_faults = []\<rparr>"

lemma genesis_ok: "acceptor_ok chain_env0 [sample_link 0 [] (Final 0)] 0 genesis_acceptor"
proof -
  have "chain db_env0 (store_link (sample_link 0 [] (Final 0)) (begin_tx empty_db)) [sample_link 0 [] (Final 0)]"
    using store_link_chain [of "begin_tx empty_db" "[]" "sample_link 0 [] (Final 0)" "[]" "Final 0"]
    by (simp add: links_apart_def chain_def)
  then show ?thesis
    by (simp add: acceptor_ok_def chain_env0_def genesis_acceptor_def sample_link_def is_final_def)
qed

lemma rewards1_height:
  "is_ok (reward_slash_and_update_root (rk0\<lparr>rk_store := m\<rparr>) 1 0 (BlsPublicKey 9) [] [] (on_new_block staking_world))"
  by (simp add: reward_slash_and_update_root_def vm_call_def entry_reward_def entry_update_root_def
      assert_external_caller_def rk0_def reward_def reward_one_def block_rewards_def coinbase_value_def
      calc_generator_extra_reward_def credits_sum_def credits_defs saturating_sub_def get_stake_mut_def
      load_or_create_stake_mut_def stake_keys_single_key_def set_stakes_def add_chk_def Let_def
      stake_data_EMPTY_def wire0_pk_inj on_new_block_def staking_world_def stake_sample_defs)

lemma emergency_fields [simp]:
  "h_height (bl_header (emergency_block bl)) = 1" "h_gas_limit (bl_header (emergency_block bl)) = 0"
  "h_state_hash (bl_header (emergency_block bl)) = replicate 32 2" "h_event_bloom (bl_header (emergency_block bl)) = bl"
  "h_hash (bl_header (emergency_block bl)) = replicate 32 5" "bl_txs (emergency_block bl) = []"
  "bl_faults (emergency_block bl) = []" "h_failed_iterations (bl_header (emergency_block bl)) = []"
  "h_iteration (bl_header (emergency_block bl)) = EMERGENCY_BLOCK_ITERATION"
  by (simp_all add: emergency_block_def header_default_def)

lemma emergency_executes:
  "\<exists>bl evs rk'. length bl = 256 \<and>
     vm_accept crypto32 (ax_rusk genesis_acceptor) (replicate 32 7) (replicate 32 7) (emergency_block bl) [] =
       Inr ([], \<lparr>vo_state_root = replicate 32 2, vo_event_bloom = bl\<rparr>, evs, replicate 32 2, rk') \<and>
     rk_store rk' (replicate 32 2) \<noteq> None"
proof -
  define rk where "rk = rk0\<lparr>rk_store := (\<lambda>_. Some staking_world)\<rparr>"
  let ?w = "on_new_block staking_world"
  obtain w' where w': "reward_slash_and_update_root rk 1 0 (BlsPublicKey 9) [] [] ?w = Inr w'"
    using rewards1_height unfolding rk_def by (meson is_okE)
  have rk: "rk_root rk w = replicate 32 2" "rk_inner rk b = BlsPublicKey 9" for w b by (simp_all add: rk_def rk0_def)
  define bl where "bl = bloom_add_events (rk_blake3 rk) (new_events rk ?w w') bloom_new"
  let ?rk = "rk\<lparr>rk_store := (rk_store rk)(replicate 32 2 \<mapsto> w')\<rparr>"
  have len: "length bl = 256" by (simp add: bl_def bloom_new_def BLOOM_BYTE_LEN_def)
  have session: "new_block_session rk (replicate 32 7) (replicate 32 7) = Inr ?w"
    by (simp add: rk_def new_block_session_def open_session_def entry_before_state_transition_def
        assert_external_caller_def)
  have "accept rk ?w 1 0 (BlsPublicKey 9) [] [] [] =
      Inr ([], \<lparr>vo_state_root = replicate 32 2, vo_event_bloom = bl\<rparr>, w')"
    by (simp add: accept_def finish_block_def w' rk bl_def)
  then have "accept_transactions rk (replicate 32 7) (replicate 32 7) 1 0 (BlsPublicKey 9) []
      (Some \<lparr>vo_state_root = replicate 32 2, vo_event_bloom = bl\<rparr>) [] [] =
      Inr ([], \<lparr>vo_state_root = replicate 32 2, vo_event_bloom = bl\<rparr>, replicate 32 2, ?rk)"
    by (simp add: accept_transactions_def session rk Let_def)
  moreover have "slash_from_block crypto32 (emergency_block bl) = []" "nc_pk_valid crypto32 k" for k
    by (simp_all add: slash_from_block_def from_iterations_and_faults_def crypto32_def crypto0_def)
  ultimately have "vm_accept crypto32 rk (replicate 32 7) (replicate 32 7) (emergency_block bl) [] =
      Inr ([], \<lparr>vo_state_root = replicate 32 2, vo_event_bloom = bl\<rparr>,
        stake_events_of rk (replicate 32 7) ?rk (replicate 32 2), replicate 32 2, ?rk)"
    by (simp add: vm_accept_def rk Let_def)
  moreover have "ax_rusk genesis_acceptor = rk" by (simp add: genesis_acceptor_def rk_def)
  ultimately show ?thesis using len by (intro exI conjI) (assumption | simp)+
qed

lemma genesis_fields:
  "ce_db chain_env0 = db_env0" "ax_current genesis_acceptor = replicate 32 7"
  "h_state_hash (bl_header (ax_tip genesis_acceptor)) = replicate 32 7" "h_height (bl_header (ax_tip genesis_acceptor)) = 0"
  "h_hash (bl_header (ax_tip genesis_acceptor)) = replicate 32 1" "h_timestamp (bl_header (ax_tip genesis_acceptor)) = 0"
  "ax_provisioners genesis_acceptor = context_new lone_provisioner"
  by (simp_all add: chain_env0_def genesis_acceptor_def sample_link_def header_default_def)

lemma genesis_new_hash: "\<not> block_exists db_env0 (replicate 32 5) (begin_tx (ax_db genesis_acceptor))"
proof -
  let ?x = "sample_link 0 [] (Final 0)"
  let ?st = "store_block db_env0 (link_header ?x) [] [] (Final 0) (begin_tx empty_db)"
  have "store_link ?x (begin_tx empty_db) = snd ?st" by (simp add: store_link_def sample_link_def)
  moreover have "tx_get_cf db_env0 LedgerHeaderCf k (begin_tx empty_db) = None" for k
    by (simp add: tx_get_cf_def db_env0_def rocksdb0_def begin_tx_def empty_db_def)
  then have "tx_get_cf db_env0 LedgerHeaderCf (replicate 32 5) (snd ?st) = None"
    using store_block_columns(1) [OF db_env0_laws prod.collapse [symmetric], of "replicate 32 5" "link_header ?x" "[]" "[]" "Final 0" "begin_tx empty_db"]
    by (simp add: sample_link_def replicate_eq_replicate)
  ultimately show ?thesis by (simp add: block_exists_def genesis_acceptor_def tx_get_cf_def begin_tx_def)
qed

lemma crypto32_accepts:
  "nc_pk_valid crypto32 k" "nc_pk_aggregate crypto32 ks = Inr ks" "nc_sig_from_bytes crypto32 sg = Inr sg"
  "nc_verify crypto32 ks sg m = Inr ()"
  by (simp_all add: crypto32_def crypto0_def)

lemma emergency_verified:
  "verify_block_header chain_env0 7000 (ax_db genesis_acceptor) (bl_header (ax_tip genesis_acceptor))
     (ax_provisioners genesis_acceptor) (bl_header (emergency_block bl)) = run_ret (50, [], [])"
proof -
  let ?db = "ax_db genesis_acceptor" and ?prev = "bl_header (ax_tip genesis_acceptor)" and ?h = "bl_header (emergency_block bl)"
  define vd where "vd = validator_of chain_env0 7000 ?db ?prev (ax_provisioners genesis_acceptor)"
  have vd: "vd_crypto vd = crypto32" "vd_prev_header vd = ?prev" "vd_local_time vd = 7000" "vd_minimum_block_time vd = 10"
    "vd_block_exists vd (replicate 32 5) = Inr False"
    using genesis_new_hash by (simp_all add: vd_def validator_of_def chain_env0_def db_env0_def Let_def)
  have fields: "h_generator_bls_pubkey ?h = replicate 96 0" "h_version ?h = BLOCK_HEADER_VERSION" "h_timestamp ?h = 7000"
    "h_prev_block_hash ?h = replicate 32 1"
    by (simp_all add: emergency_block_def header_default_def BLOCK_HEADER_VERSION_def)
  have "verify_block_generator vd ?h (replicate 96 0) = Inr [replicate 96 0]"
    by (simp add: verify_block_generator_def vd crypto32_accepts fields)
  moreover have "verify_basic_fields vd ?h [replicate 96 0] = Inr ()"
    by (simp add: verify_basic_fields_def verify_seed_field_def vd crypto32_accepts fields genesis_fields
        MIN_EMERGENCY_BLOCK_TIME_def CONSENSUS_MAX_ITER_def MARGIN_TIMESTAMP_def replicate_eq_replicate)
  moreover have "verify_prev_block_cert vd ?h = run_ret []"
    by (simp add: verify_prev_block_cert_def vd genesis_fields)
  moreover have "verify_failed_iterations vd ?h = run_ret 50"
    by (simp add: verify_failed_iterations_def CONSENSUS_MAX_ITER_def EMERGENCY_BLOCK_ITERATION_def)
  ultimately have "execute_checks vd ?h (replicate 96 0) False = run_ret (50, [], [])"
    by (simp add: execute_checks_def)
  moreover have "is_emergency_block (h_iteration ?h)" "ce_dusk_key chain_env0 = replicate 96 0"
    by (simp_all add: is_emergency_block_def chain_env0_def)
  ultimately show ?thesis unfolding verify_block_header_def Let_def vd_def by simp
qed

lemma lone_draws: "draw_generators hash lone_provisioner seed rnd iters = Some (Inr ())"
  by (induction iters) (simp_all add: lone_generator)

lemma advance_tip_unfinal:
  assumes "rk_store (ax_rusk st) (h_state_hash (bl_header blk)) \<noteq> None"
  shows "\<exists>st'. advance_tip env blk evs (label, None) st = (run_ret False, st')"
  using assms
  by (cases "selective_update (rk_wire (ax_rusk st)) (h_height (bl_header blk)) evs (ax_provisioners st)")
     (auto simp: advance_tip_def get_provisioners_def run_ret_def run_bind_def Let_def)

lemma emergency_accepted:
  "\<exists>bl effects st'. length bl = 256 \<and>
     try_accept_block chain_env0 7000 (emergency_block bl) False genesis_acceptor = (run_ret (False, effects), st')"
proof -
  let ?st = genesis_acceptor
  obtain bl evs rk' where len: "length bl = 256" and acc: "vm_accept crypto32 (ax_rusk ?st) (replicate 32 7) (replicate 32 7)
      (emergency_block bl) [] = Inr ([], \<lparr>vo_state_root = replicate 32 2, vo_event_bloom = bl\<rparr>, evs, replicate 32 2, rk')"
    and commit: "rk_store rk' (replicate 32 2) \<noteq> None"
    using emergency_executes by blast
  let ?b = "emergency_block bl"
  have env: "ce_db chain_env0 = db_env0" "de_crypto db_env0 = crypto32" by (simp_all add: chain_env0_def db_env0_def)
  have roll: "rolling_finality db_env0 50 ?b t = Inr ((Accepted 100, None), [], t)" for t
    by (simp add: rolling_finality_def confirmation_delay_def)
  obtain ev1 db1 where store: "execute_and_store chain_env0 50 ?b [] ?st =
      (run_ret (evs, (Accepted 100, None), ev1), ?st\<lparr>ax_rusk := rk', ax_current := replicate 32 2, ax_db := db1\<rparr>)"
    using acc by (simp add: execute_and_store_def env genesis_fields roll Let_def split_beta)
  let ?st1 = "?st\<lparr>ax_rusk := rk', ax_current := replicate 32 2, ax_db := db1\<rparr>"
  obtain st2 where advance: "advance_tip chain_env0 ?b evs (Accepted 100, None) ?st1 = (run_ret False, st2)"
    using advance_tip_unfinal [of ?st1 ?b chain_env0 evs "Accepted 100"] commit by auto
  obtain deleted db2 where clean: "clean_up db_env0 ?b (ax_db st2) = Some (deleted, db2)"
    using clean_up_chain [OF db_env0_laws] by blast
  have "log_missing_iterations (ce_hash chain_env0) lone_provisioner it sd rnd = run_ret ()" for it sd rnd
    by (simp add: log_missing_iterations_def lone_draws run_ret_def)
  then show ?thesis
    using emergency_verified [of bl] store advance clean len
    by (auto simp: try_accept_block_def Let_def genesis_fields context_new_def verify_faults_def run_ret_def)
qed

lemma emergency_fits: "length bl = 256 \<Longrightarrow> fits chain_env0 [sample_link 0 [] (Final 0)] (ax_rusk genesis_acceptor) (emergency_block bl)"
  using sample_block_ok
  by (simp add: fits_def genesis_fields db_env0_def block_ok_def header_ok_def hashable_ok_def sample_link_def Let_def
      replicate_eq_replicate string_bytes_def)
     (simp add: genesis_acceptor_def rk0_def emergency_block_def header_default_def block0_def)

theorem accepted_block_extends_chain_witness:
  "\<exists>bl effects st'.
     try_accept_block chain_env0 7000 (emergency_block bl) False genesis_acceptor = (run_ret (False, effects), st') \<and>
     acceptor_ok chain_env0 [sample_link 0 [] (Final 0), (emergency_block bl, [], Accepted 100)] 0 st'"
proof -
  obtain bl effects st' where len: "length bl = 256"
    and run: "try_accept_block chain_env0 7000 (emergency_block bl) False genesis_acceptor = (run_ret (False, effects), st')"
    using emergency_accepted by blast
  have laws: "db_laws (ce_db chain_env0)" using db_env0_laws by (simp add: genesis_fields)
  from accepted_block_extends_chain [OF laws genesis_ok emergency_fits [OF len] run] emergency_verified [of bl]
  have "acceptor_ok chain_env0 (extended 50 0 [sample_link 0 [] (Final 0)] (emergency_block bl) [])
      (next_final 50 0 [sample_link 0 [] (Final 0)]) st'" by auto
  then have "acceptor_ok chain_env0 [sample_link 0 [] (Final 0), (emergency_block bl, [], Accepted 100)] 0 st'"
    by (simp add: extended_def next_final_def accepted_label_def)
  with run show ?thesis by blast
qed

end
