(* ===== verification/Spec2Isabelle.thy ===== *)
theory Spec2Isabelle
  imports Genesis Vm_Execute Node_Witness Proposal_Witness Event_Bloom Consensus_Quorums Mempool_Witness
    Provisioner_Witness Chain_Witness
begin

text \<open>
  Rusk is the reference implementation of the Dusk network: a node that agrees on blocks by the
  Succinct Attestation consensus and executes their transactions in a WebAssembly VM, in which two
  genesis contracts, transfer and stake, hold all value.  This development models the way of a transaction
  from its bytes through the mempool to the ledger, and the way of a block from its generator through the
  votes of the other nodes to their databases.

  \<^bold>\<open>Parts and how they interact.\<close>  A transaction is Moonlight (public accounts) or Phoenix (shielded notes).
  The VM calls \<open>spend_and_execute\<close> of the transfer contract, which checks and spends the transaction
  and calls the contract the transaction names; then the VM calls \<open>refund\<close> with the gas that was used.
  The stake contract is called by transactions, by other contracts and by the node (rewards, slashes), and
  takes and returns Lux through the transfer contract.  A node checks a transaction it receives and keeps it in
  its mempool, in the database, until a block contains it.  The node executes the transactions of a block on
  a session, pays the rewards and applies the slashes.  Who proposes and who votes in a step of consensus is
  drawn by sortition from the stakes; votes are aggregated until they reach a quorum; the quorums of the
  validation and of the ratification step form the attestation of the block, which every node verifies, and
  whose voters are rewarded by the next block.  An accepted block is stored with a label; later blocks confirm it
  and make it final, and until then the node may revert it.  A round is a loop over iterations of the three steps
  proposal, validation and ratification, each of which waits for messages until its deadline.

  \<^bold>\<open>Theories.\<close>
  \<^item> \<^verbatim>\<open>Rusk_Prelude\<close>, \<^verbatim>\<open>BTree_Map\<close>: results and checked arithmetic, ordered maps.
  \<^item> \<^verbatim>\<open>Core_Abi\<close>, \<^verbatim>\<open>Core_Data\<close>, \<^verbatim>\<open>Core_Moonlight\<close>, \<^verbatim>\<open>Core_Phoenix\<close>, \<^verbatim>\<open>Core_Transfer\<close>, \<^verbatim>\<open>Core_Stake\<close>: the types of
    \<^verbatim>\<open>core/src\<close>: one record or datatype per Rust type, one definition per function.
  \<^item> \<^verbatim>\<open>Contract_World\<close>: the memory of the contracts, the note tree (\<^verbatim>\<open>contracts/transfer/src/tree.rs\<close>),
    events, and the calls to other contracts (record \<open>ext\<close>).
  \<^item> \<^verbatim>\<open>Transfer_Contract\<close>: \<^verbatim>\<open>contracts/transfer/src\<close>; \<^verbatim>\<open>Transfer_Ledger\<close> and \<^verbatim>\<open>Transfer_Safety\<close>: its theorems.
  \<^item> \<^verbatim>\<open>Stake_Contract\<close>: \<^verbatim>\<open>contracts/stake/src\<close>; \<^verbatim>\<open>Stake_Safety\<close>, \<^verbatim>\<open>Stake_History\<close>, \<^verbatim>\<open>Stake_Operations\<close>,
    \<^verbatim>\<open>Stake_Events\<close> (its stakes as a function of its events): its theorems.
  \<^item> \<^verbatim>\<open>Genesis\<close>: the two contracts together, calling each other by function name.
  \<^item> \<^verbatim>\<open>Vm_Execute\<close>: \<^verbatim>\<open>vm/src/execute.rs\<close> on top of the transfer contract.
  \<^item> \<^verbatim>\<open>Event_Bloom\<close>: \<^verbatim>\<open>rusk/src/lib/bloom.rs\<close>; \<^verbatim>\<open>Node_Rewards\<close>: the emission and the division of the rewards
    (\<^verbatim>\<open>rusk/src/lib/node.rs\<close>); \<^verbatim>\<open>Node_Block\<close>: generating, verifying and accepting a block
    (\<^verbatim>\<open>rusk/src/lib/node/rusk.rs\<close>); \<^verbatim>\<open>Node_Stakes\<close>: what accepting a block does to the stakes, with
    concrete instances in \<^verbatim>\<open>Node_Witness\<close>.
  \<^item> \<^verbatim>\<open>Merkle_Root\<close>: \<^verbatim>\<open>consensus/src/merkle.rs\<close>; \<^verbatim>\<open>Block_Proposal\<close>: \<^verbatim>\<open>consensus/src/proposal\<close>, the generator of candidates and
    what receivers check of them; \<^verbatim>\<open>Proposal_Safety\<close>, \<^verbatim>\<open>Proposal_Witness\<close>: its theorems.
  \<^item> \<^verbatim>\<open>Node_Codec\<close>, \<^verbatim>\<open>Node_Ledger\<close>, \<^verbatim>\<open>Node_Faults\<close>, \<^verbatim>\<open>Node_Wire\<close>, \<^verbatim>\<open>Node_Message\<close>: the types of \<^verbatim>\<open>node-data/src\<close>, what
    the nodes write to each other and to their databases: headers, attestations, faults, blocks, messages.
  \<^item> \<^verbatim>\<open>Consensus_Config\<close>, \<^verbatim>\<open>Consensus_Committee\<close>: \<^verbatim>\<open>consensus/src/config.rs\<close> and \<^verbatim>\<open>consensus/src/user\<close>, with
    theorems in \<^verbatim>\<open>Committee_Safety\<close>; \<^verbatim>\<open>Consensus_Votes\<close>: \<^verbatim>\<open>aggregator.rs\<close> and \<^verbatim>\<open>quorum/verifiers.rs\<close>, with theorems in
    \<^verbatim>\<open>Votes_Safety\<close>.
  \<^item> \<^verbatim>\<open>Consensus_Rounds\<close>: \<^verbatim>\<open>iteration_ctx.rs\<close>, with theorems in \<^verbatim>\<open>Rounds_Safety\<close>; \<^verbatim>\<open>Consensus_Registry\<close>: \<^verbatim>\<open>step_votes_reg.rs\<close>;
    \<^verbatim>\<open>Consensus_Queue\<close>: \<^verbatim>\<open>queue.rs\<close>; \<^verbatim>\<open>Consensus_Handlers\<close>, \<^verbatim>\<open>Consensus_Collect\<close>: \<^verbatim>\<open>msg_handler.rs\<close> and the handlers of the
    three steps; \<^verbatim>\<open>Consensus_Steps\<close>: the steps, \<^verbatim>\<open>execution_ctx.rs\<close> and the loop of \<^verbatim>\<open>consensus.rs\<close>.
  \<^item> \<^verbatim>\<open>Consensus_Logic\<close>: a Hoare logic for the computations of the consensus task; \<^verbatim>\<open>Consensus_Invariant\<close>,
    \<^verbatim>\<open>Round_Invariant\<close>, \<^verbatim>\<open>Round_Collect\<close>, \<^verbatim>\<open>Round_Steps\<close>, \<^verbatim>\<open>Round_Loop\<close>, \<^verbatim>\<open>Round_Run\<close>: the invariant of a round, kept by
    every handler, step and iteration; \<^verbatim>\<open>Consensus_Safety\<close>, \<^verbatim>\<open>Consensus_Quorums\<close>: theorems about whole rounds.
  \<^item> \<^verbatim>\<open>Header_Validation\<close>: \<^verbatim>\<open>node/src/chain/header_validation.rs\<close>, with theorems in \<^verbatim>\<open>Header_Safety\<close>.
  \<^item> \<^verbatim>\<open>Node_Store\<close>: the ledger, candidates, messages and metadata of \<^verbatim>\<open>node/src/database/rocksdb.rs\<close>, over the operations
    of RocksDB (record \<open>rocksdb\<close>), with theorems in \<^verbatim>\<open>Store_Safety\<close>; \<^verbatim>\<open>Mempool_Store\<close>: its mempool columns.
  \<^item> \<^verbatim>\<open>Mempool\<close>: \<^verbatim>\<open>node/src/mempool.rs\<close>, the preverification of \<^verbatim>\<open>rusk/src/lib/node/vm.rs\<close> it calls, and what the
    chain removes from it; \<^verbatim>\<open>Mempool_Index\<close> (consistency of the three columns), \<^verbatim>\<open>Mempool_Fees\<close> (the order by fee),
    \<^verbatim>\<open>Preverify_Safety\<close>, \<^verbatim>\<open>Mempool_Safety\<close>, \<^verbatim>\<open>Mempool_History\<close>, \<^verbatim>\<open>Mempool_Witness\<close>: their theorems.
  \<^item> \<^verbatim>\<open>Chain_Provisioners\<close>: the provisioners a node keeps from the events of the blocks, and those it reads from the
    contract, with theorems in \<^verbatim>\<open>Provisioner_Safety\<close> and \<^verbatim>\<open>Provisioner_Witness\<close>; \<^verbatim>\<open>Chain_Acceptor\<close>:
    \<^verbatim>\<open>node/src/chain/acceptor.rs\<close> and \<^verbatim>\<open>fallback.rs\<close>, on a record of the tip, the provisioners, the database and the commits
    of the VM; \<^verbatim>\<open>Chain_Store\<close> (the database as a list of blocks), \<^verbatim>\<open>Chain_Finality\<close> (the labels), \<^verbatim>\<open>Chain_Safety\<close>,
    \<^verbatim>\<open>Chain_Accept\<close>, \<^verbatim>\<open>Chain_Witness\<close>: its theorems.

  \<^bold>\<open>State and effects.\<close>  A contract's memory is a record (\<open>tworld\<close>, extended by the stake contract to
  \<open>sworld\<close>) that every operation takes and returns.  A panic is \<open>Inl\<close>: the VM discards the changes of
  the call.  Integers are words of the source's width; the crates \<open>transfer-contract\<close> and
  \<open>stake-contract\<close> are compiled with overflow checks (\<open>add_chk\<close>, \<open>sub_chk\<close>, \<open>mul_chk\<close>), the other crates
  wrap.  Readers take the bytes that are left and return an error or a value and the rest.  Loops over finite
  collections are structural recursions or folds.  The search of sortition may run forever on a committee
  without stake, so it is a \<open>partial_function\<close> whose value \<open>None\<close> stands for that, and
  \<open>committee_is_full\<close> shows that it returns.  The walk along the nonces that follow in the mempool is another,
  which returns on every consistent mempool.  No fuel is used.  What a step of consensus waits for is a list of
  events, received messages and deadlines, in the order in which they happen.  A transaction of the database is a
  snapshot and the writes on top of it; the transactions of a node run one after the other.

  \<^bold>\<open>Calls between contracts.\<close>  A contract that is called is a function on the whole state.  It may call the two genesis
  contracts again before it returns, so nothing is assumed of a called contract but what the VM enforces: it changes the
  memory of a genesis contract only through the entry points of that contract.  For the transfer contract this is
  \<open>acts_through_entries\<close>, over the step relation \<open>contract_step\<close>; for the stake contract it is built into the step
  relations \<open>stake_step\<close> and \<open>stake_call\<close>, in which the callbacks of \<open>unstake_from_contract\<close> and
  \<open>withdraw_from_contract\<close> are themselves runs of steps, to any depth.  Those two operations hold a reference into the map of
  stakes during the callback and use it afterwards (\<open>held_stake\<close>): they read the stake again in place, and when the callee
  has added or removed an entry of the map, which leaves the reference dangling, the model ends the call with an error,
  and nothing is claimed of that run.

  \<^bold>\<open>What the lemmas show.\<close>
  \<^item> Wire formats: what the encoders write, the decoders read back (locales \<open>wire_codec\<close> and \<open>canonical_codec\<close>);
    which inputs the decoders accept beyond that; which fields a signed message binds; how the sizes of
    encodings relate to what the block generator accounts for.
  \<^item> Ledger: the Lux of accounts, contracts and pending deposit is conserved by a transaction, up to
    the gas that was spent and what the called contracts mint or convert to and from notes, which their events tell
    (\<open>ledger_net\<close>); \<open>refund\<close> does not panic after a successful \<open>spend_and_execute\<close>; nonces and
    nullifiers protect against replay, whatever the called contracts do.
  \<^item> Stakes: the contract is solvent in every history that starts from the stakes of the genesis state (\<open>insert_stakes\<close>)
    and through every block, also when called contracts enter it again; the undo log gives the state
    at the start of the block, each operation has its exact effect on the account it is called for,
    slashing does not panic on a solvent state, and a block that slashes a provisioner who has left is
    rejected; the events of a block determine the stakes after it, and the provisioners of a node that follows
    them are those of the contract, with one exception that is shown as well.
  \<^item> Execution: gas bounds, conservation with the real gas of the receipt, the deployment checks; a candidate
    block is within its limits and is accepted by the nodes that execute it; the emission schedule.
  \<^item> Consensus: sortition returns a full committee; at most one vote of a step reaches its quorum; what the
    aggregator returns convinces the other nodes; two conflicting attestations need double votes of at
    least 22 of 64 credits; generator and verifiers agree on the voters to be rewarded; what a fault proves.
  \<^item> Rounds: the consensus task returns without a panic whatever arrives, its committees are those of the
    verifiers, and the quorums it sends are verified by the other nodes, those for no quorum excepted; the
    queues of later messages are well typed; what messages without a valid signature can do to it.
  \<^item> Proposals: an honest candidate is voted for; the root of a header binds the transactions, up to repetition.
  \<^item> Database: a stored block is found again by hash, height and transaction; the mempool's indexes describe its
    transactions in every history, no two transactions of it spend the same note or nonce, iteration is sorted
    by fee, checking a transaction refines a replacement of the conflicting, cheaper transactions, and which
    transactions make the mempool refuse everything or stop.
  \<^item> Chain: which blocks an accepted block confirms and makes final; that accepting a block extends the chain in the
    database and keeps the VM's commit and base in step with it; that a revert leaves exactly the chain up to its
    target.
  \<^item> Together: a Moonlight transaction that calls \<open>stake\<close> moves its deposit into the stake.

  \<^bold>\<open>Parameters.\<close>  Cryptography and hash functions, Phoenix note and skeleton encodings, \<open>rkyv\<close> argument
  decoding, the VM's metering, raw deployment and merging of commits, user contracts, the clock and RocksDB are not code that is
  modelled.  They are arguments; what is relied on of them is a named predicate (\<open>note_laws\<close>, \<open>wire_laws\<close>,
  \<open>vm_laws\<close>, \<open>acts_through_entries\<close>, \<open>supply_fits\<close>, \<open>call_grows\<close>, \<open>multisig_laws\<close>, \<open>round_laws\<close>, \<open>signature_binds\<close>, \<open>rocksdb_laws\<close>, \<open>db_laws\<close>) or locale
  (\<open>preverifier\<close>, \<open>genesis_node\<close>, \<open>genesis_block\<close> and the codecs), each with a concrete instance in a witness.

  \<^bold>\<open>Not modelled.\<close>  Transaction building with secret keys and proofs, the provers and circuits
  (third-party \<open>dusk-plonk\<close>), the node's network and its answers to peers, the synchronisation of the chain (the
  state machine of \<^verbatim>\<open>node/src/chain/fsm.rs\<close>; of \<^verbatim>\<open>acceptor.rs\<close>, the start of the node, the timeouts and the metrics),
  the archive, the wallets, and the HTTP and GraphQL services.  Errors of the storage device are left out of the
  database.  The mempool's histories do not contain the transactions that a node puts back when it reverts a block.
  \<open>genesis_ext\<close> dispatches the five functions of the genesis contracts that expect the transfer contract as their
  caller; any other call goes to its parameter \<open>other\<close>, which stands for all other contracts and is, where it matters,
  assumed to act through the entry points.
\<close>

section \<open>A stake paid by a Moonlight transaction\<close>

lemma stake_ledger:
  assumes "stake h wr r w = Inr w'"
  obtains og s where "ledger_total w' = ledger_total w" and "tw_current_tx w = Some og"
    and "og_deposit og = Available s STAKE_CONTRACT (st_value r)" and "pending_deposit w' = 0"
proof (rule stake_ok [OF assms])
  fix s w1 w2
  assume load: "load_or_create_stake_mut wr (st_keys r) w = Inr ((s, st_keys r), w1)"
    and dep: "transfer_deposit (Some STAKE_CONTRACT) (st_value r) w1 = Inr w2"
    and fin: "finish_stake h wr r (get_stake wr (sk_account (st_keys r)) w) s (st_keys r) w2 = Inr w'"
  have w1: "tw_state w1 = tw_state w" "tw_current_tx w1 = tw_current_tx w"
    by (rule load_or_create_ok [OF load], assumption)+
  have w': "tw_state w' = tw_state w2" "tw_current_tx w' = tw_current_tx w2"
    using fin by (auto simp: finish_stake_def record_previous_def emit_def set_stakes_def)
  have "ledger_total w' = ledger_total w"
    using transfer_deposit_ledger_aux [OF dep] w1 w' by (simp add: ledger_defs)
  moreover obtain og t where "tw_current_tx w1 = Some og" "og_deposit og = Available t STAKE_CONTRACT (st_value r)"
    using dep by (rule transfer_deposit_ok) auto
  moreover have "pending_deposit w2 = 0"
    using dep by (rule transfer_deposit_ok) (auto simp: pending_deposit_def credit_contract_totals)
  then have "pending_deposit w' = 0" using w' by (simp add: pending_deposit_def)
  ultimately show thesis using w1 by (intro that) auto
qed

lemma put_transaction_deposit:
  assumes "put_transaction tx w = Inr w'" and "tw_current_tx w' = Some og"
    and "og_deposit og = Available s c v"
  shows "v = tx_deposit tx"
  using assms by (auto simp: put_transaction_def Let_def split: if_splits)

lemma genesis_stake_call:
  assumes "x_call_raw (genesis_ext h wr gc other) STAKE_CONTRACT (str_bytes ''stake'') args w = (res, w')"
  obtains (failed) "\<not> is_ok res" and "w' = w"
    | (staked) r where "gc_stake gc args = Some r" and "res = Inr []" and "stake h wr r w = Inr w'"
proof -
  have "raw_call (gc_stake gc args) (entry_stake h wr (Some TRANSFER_CONTRACT)) w = (res, w')"
    using assms by (simp add: genesis_ext_def)
  then show thesis
    by (rule raw_call_cases) (auto simp: entry_stake_def intro: failed staked)
qed

text \<open>
  C14: The way a stake is made: a Moonlight transaction that deposits and calls \<open>stake\<close>.  If the call
  succeeds, the account's stake has grown by exactly the deposit, the stake contract is still solvent,
  and the ledger has lost nothing but the gas reserve; if it fails, the stake state is untouched and
  the deposit is still there to be refunded.
\<close>

theorem stake_by_transaction:
  assumes "tw_current_tx w = None" and "solvent w"
    and "mt_call tx = Some \<lparr>cc_contract = STAKE_CONTRACT, cc_fn_name = str_bytes ''stake'', cc_fn_args = args\<rparr>"
    and "spend_and_execute h wr pw (genesis_ext h wr gc other) (Moonlight tx) w = Inr (res, w1)"
  shows "(case res of
            Inr _ \<Rightarrow> \<exists>r. gc_stake gc args = Some r \<and> st_value r = mt_deposit tx \<and>
              funds_at (w_pk_to_bytes wr (sk_account (st_keys r))) w1 =
                funds_at (w_pk_to_bytes wr (sk_account (st_keys r))) w + unat (mt_deposit tx) \<and>
              pending_deposit w1 = 0
          | Inl _ \<Rightarrow> sw_stake w1 = sw_stake w \<and> pending_deposit w1 = unat (mt_deposit tx)) \<and>
         solvent w1 \<and>
         ledger_total w1 + unat (mt_gas_limit tx) * unat (mt_gas_price tx) = ledger_total w"
proof -
  obtain w0 ws where put: "put_transaction (Moonlight tx) w = Inr w0"
    and spend: "spend_moonlight h wr tx w0 = Inr ws"
    and call: "x_call_raw (genesis_ext h wr gc other) STAKE_CONTRACT (str_bytes ''stake'') args ws = (res, w1)"
    using assms(3,4) by (auto simp: spend_and_execute_def tx_call_def split: if_splits)
  obtain d where w0: "w0 = w\<lparr>tw_current_tx := Some \<lparr>og_tx = Moonlight tx, og_deposit = d, og_notes = []\<rparr>\<rparr>"
    and d: "deposit_value d = unat (mt_deposit tx)"
    using put by (rule put_transaction_ok) (auto simp: tx_deposit_def)
  have cur: "tw_current_tx ws = Some \<lparr>og_tx = Moonlight tx, og_deposit = d, og_notes = []\<rparr>"
    using spend_moonlight_frame(2) [OF spend] w0 by simp
  have st: "sw_stake ws = sw_stake w"
    using more_stake [OF spend_moonlight_frame(4) [OF spend]] w0 by simp
  have bal: "stake_balance ws = stake_balance w"
    using spend_moonlight_frame(1) [OF spend] w0 by (simp add: stake_balance_def contract_balance_def)
  have solv: "solvent ws" using assms(2) bal sw_stake_funds [OF st] by (simp add: solvent_def)
  have led: "ledger_total ws + unat (mt_gas_limit tx) * unat (mt_gas_price tx) = ledger_total w"
    using spend_moonlight_ledger [OF spend] put_transaction_ledger [OF put assms(1)]
    by (simp add: tx_deposit_def)
  show ?thesis
    using call
  proof (cases rule: genesis_stake_call)
    case failed
    with st solv led cur d show ?thesis
      by (auto simp: pending_deposit_def is_ok_iff split: sum.split)
  next
    case (staked r)
    obtain og s where l: "ledger_total w1 = ledger_total ws" "tw_current_tx ws = Some og"
        "og_deposit og = Available s STAKE_CONTRACT (st_value r)" "pending_deposit w1 = 0"
      using staked(3) by (rule stake_ledger)
    have "st_value r = mt_deposit tx"
      using put_transaction_deposit [OF put _ l(3)] l(2) cur w0 by (simp add: tx_deposit_def)
    moreover have "funds_at k ws = funds_at k w" for k using st by (simp add: funds_at_def amount_at_def)
    ultimately show ?thesis
      using staked l led stake_funds_at [OF staked(3)] stake_solvent [OF staked(3) solv] by simp
  qed
qed

theorem stake_by_transaction_witness:
  "\<exists>w1. spend_and_execute host0 wire0 phoenix_wire0 (genesis_ext host0 wire0 gc0 ext0)
       (Moonlight staking_tx) staking_world = Inr (Inr [], w1) \<and> solvent w1 \<and>
     funds_at (w_pk_to_bytes wire0 pk7) w1 = funds_at (w_pk_to_bytes wire0 pk7) staking_world + 20"
proof -
  obtain w1 where w1: "spend_and_execute host0 wire0 phoenix_wire0 (genesis_ext host0 wire0 gc0 ext0)
     (Moonlight staking_tx) staking_world = Inr (Inr [], w1)"
    using staking_ok by blast
  have "tw_current_tx staking_world = None" "solvent staking_world"
    using stake_world_solvent
    by (simp_all add: staking_world_def solvent_def funds_total_def stake_balance_def contract_balance_def)
  moreover have "mt_call staking_tx =
      Some \<lparr>cc_contract = STAKE_CONTRACT, cc_fn_name = str_bytes ''stake'', cc_fn_args = []\<rparr>"
    by (simp add: mt_call_def data_call_def staking_tx_def)
  ultimately show ?thesis
    using stake_by_transaction [OF _ _ _ w1] w1
    by (auto simp: gc0_def sample_request_def stake_keys_single_key_def staking_tx_def mt_deposit_def
        sample_payload_def)
qed

end
